(* ===== verification/Prelude.thy ===== *)
theory Prelude
  imports Main "HOL-Library.Word" "HOL-Library.Monad_Syntax"
begin

section \<open>Shared types, memory accesses and lemmas\<close>

text \<open>
  The vocabulary every other theory uses: the fixed-width integers of the C sources as words,
  the \<open>errno\<close> constants, checked accesses to a block of memory, and the facts on words, lists and
  the option monad that the component proofs share.

  Throughout the development a C function that reads or writes memory is a function into
  \<open>'a option\<close>. The value \<open>None\<close> stands for an execution that C does not define or that never
  returns: a read or write outside the memory block, a call through a null pointer, a write past
  the end of a command buffer, or a loop that does not end. An error \<^emph>\<open>return\<close> of the code is not
  \<open>None\<close>: it is \<open>Some\<close> of a negative return code together with the state the code leaves behind.
\<close>

type_synonym u8 = "8 word"
type_synonym u16 = "16 word"
type_synonym u32 = "32 word"
type_synonym u64 = "64 word"

text \<open>Error numbers of \<open>errno.h\<close> that the sources return negated.\<close>

definition EPERM :: int where "EPERM = 1"
definition EIO :: int where "EIO = 5"
definition ENOMEM :: int where "ENOMEM = 12"
definition EINVAL :: int where "EINVAL = 22"

named_theorems errno_defs \<open>definitions of the error numbers\<close>
lemmas [errno_defs] = EPERM_def EIO_def ENOMEM_def EINVAL_def

subsection \<open>Checked memory accesses\<close>

definition mem_read :: "'a list \<Rightarrow> nat \<Rightarrow> 'a option" where
  "mem_read m i = (if i < length m then Some (m ! i) else None)"

definition mem_write :: "'a list \<Rightarrow> nat \<Rightarrow> 'a \<Rightarrow> 'a list option" where
  "mem_write m i x = (if i < length m then Some (m[i := x]) else None)"

lemma mem_read_in [simp]: "i < length m \<Longrightarrow> mem_read m i = Some (m ! i)"
  by (simp add: mem_read_def)

lemma mem_write_in [simp]: "i < length m \<Longrightarrow> mem_write m i x = Some (m[i := x])"
  by (simp add: mem_write_def)

lemma mem_read_SomeD: "mem_read m i = Some x \<Longrightarrow> i < length m \<and> x = m ! i"
  by (simp add: mem_read_def split: if_splits)

lemma mem_write_SomeD: "mem_write m i x = Some m' \<Longrightarrow> i < length m \<and> m' = m[i := x]"
  by (simp add: mem_write_def split: if_splits)

subsection \<open>Words\<close>

text \<open>A word index read as a natural number and back, within the width.\<close>

lemma unat_of_nat_u16: "n < 65536 \<Longrightarrow> unat (of_nat n :: u16) = n"
  by (simp add: unat_of_nat)

lemma word_eq_of_natI: "unat x = n \<Longrightarrow> x = of_nat n"
  by auto

lemma unat_u16_lt: "unat (x :: u16) < 65536"
  using unsigned_less [of x, where 'a = nat] by simp

lemma unat_ucast_up: "LENGTH('a::len) \<le> LENGTH('b::len) \<Longrightarrow> unat (ucast (x :: 'a word) :: 'b word) = unat x"
proof -
  assume le: "LENGTH('a) \<le> LENGTH('b)"
  have "unat x < 2 ^ LENGTH('a)" by (rule unsigned_less)
  also have "\<dots> \<le> 2 ^ LENGTH('b)" using le by simp
  finally show ?thesis by (simp add: unsigned_ucast_eq take_bit_nat_eq_self)
qed

lemma unat_ucast_u16_u32 [simp]: "unat (ucast (x :: u16) :: u32) = unat x"
  by (simp add: unat_ucast_up)

lemma unat_add_u16: "unat a + unat b < 65536 \<Longrightarrow> unat (a + b :: u16) = unat a + unat b"
  by (simp add: unat_word_ariths)

lemma unat_add_ucast_u32 [simp]:
  "unat (ucast (a :: u16) + ucast (b :: u16) :: u32) = unat a + unat b"
  using unat_u16_lt [of a] unat_u16_lt [of b] by (simp add: unat_word_ariths)

lemma unat_Suc_u16: "unat (i :: u16) < 65535 \<Longrightarrow> unat (i + 1) = Suc (unat i)"
  by (simp add: unat_word_ariths)

lemma unat_pred_u16: "(i :: u16) \<noteq> 0 \<Longrightarrow> unat (i - 1) = unat i - 1"
  by (simp add: unat_minus_one)

lemma u16_eq_iff_unat: "(x :: u16) = y \<longleftrightarrow> unat x = unat y"
  by (simp add: word_unat_eq_iff)

lemma u16_less_iff_unat: "(x :: u16) < y \<longleftrightarrow> unat x < unat y"
  by (simp add: word_less_nat_alt)

lemma u16_le_iff_unat: "(x :: u16) \<le> y \<longleftrightarrow> unat x \<le> unat y"
  by (simp add: word_le_nat_alt)

lemmas u16_unat_simps = u16_eq_iff_unat u16_less_iff_unat u16_le_iff_unat

subsection \<open>Lists\<close>

lemma nth_list_update_if: "i < length xs \<Longrightarrow> xs[j := v] ! i = (if i = j then v else xs ! i)"
  by simp

lemma last_eq_nth_length: "xs \<noteq> [] \<Longrightarrow> last xs = xs ! (length xs - 1)"
  by (rule last_conv_nth)

end
