(* ===== verification/Fp_Scale.thy ===== *)
theory Fp_Scale
  imports Prelude
begin

section \<open>Scaling a 16-bit count by a binary floating-point constant\<close>

text \<open>
  The table sizes are computed in floating point: \<open>number_of_entries * btp\<close> with \<open>float btp = .8\<close>
  (\<open>ipa_table.c\<close>), and \<open>tot * 0.43\<close> in double precision. The result is converted to \<open>uint16_t\<close>,
  which truncates. This theory models exactly that: the constant is its IEEE-754 significand
  \<open>sig\<close> over \<open>2 ^ e\<close>, the product with the exact integer \<open>n\<close> is rounded to a significand of \<open>p\<close>
  bits (to nearest, ties to even) and then truncated. The lemmas show that for every 16-bit count
  the result is the exact integer quotient, so that later theories reason about \<open>div\<close> only.
\<close>

text \<open>Number of binary digits of a natural number.\<close>

fun bit_len :: "nat \<Rightarrow> nat" where
  "bit_len n = (if n = 0 then 0 else Suc (bit_len (n div 2)))"

declare bit_len.simps [simp del]

text \<open>Rounding to a multiple of \<open>2 ^ k\<close>, to nearest, ties to even.\<close>

definition round_even :: "nat \<Rightarrow> nat \<Rightarrow> nat" where
  "round_even k m =
     (let q = m div 2 ^ k; r = m mod 2 ^ k
      in (if 2 * r > 2 ^ k \<or> 2 * r = 2 ^ k \<and> odd q then q + 1 else q) * 2 ^ k)"

text \<open>The product of an integer with \<open>sig / 2 ^ e\<close> in a format of precision \<open>p\<close>, truncated.\<close>

definition fp_scale_trunc :: "nat \<Rightarrow> nat \<Rightarrow> nat \<Rightarrow> nat \<Rightarrow> nat" where
  "fp_scale_trunc p sig e n = (let m = n * sig in round_even (bit_len m - p) m div 2 ^ e)"

lemma bit_len_less: "m < 2 ^ bit_len m"
proof (induction m rule: bit_len.induct)
  case (1 n)
  show ?case
  proof (cases "n = 0")
    case False
    then have "n div 2 < 2 ^ bit_len (n div 2)" by (rule "1.IH")
    then have "n < 2 * 2 ^ bit_len (n div 2)" by linarith
    with False show ?thesis by (simp add: bit_len.simps [of n])
  qed (simp add: bit_len.simps)
qed

lemma bit_len_le: "0 < m \<Longrightarrow> 2 ^ (bit_len m - 1) \<le> m"
proof (induction m rule: bit_len.induct)
  case (1 n)
  show ?case
  proof (cases "n div 2 = 0")
    case True
    with "1.prems" have "n = 1" by linarith
    then show ?thesis by (simp add: bit_len.simps)
  next
    case False
    with 1 have ih: "2 ^ (bit_len (n div 2) - 1) \<le> n div 2" by simp
    obtain b where b: "bit_len (n div 2) = Suc b"
      using False by (simp add: bit_len.simps [of "n div 2"])
    with ih have "2 * 2 ^ b \<le> n" by simp
    with b "1.prems" show ?thesis by (simp add: bit_len.simps [of n])
  qed
qed

lemma bit_len_mono_bound: "m < 2 ^ b \<Longrightarrow> bit_len m \<le> b"
proof (rule ccontr)
  assume m: "m < 2 ^ b" and "\<not> bit_len m \<le> b"
  then have "b \<le> bit_len m - 1" and pos: "0 < m"
    by (auto simp: bit_len.simps [of m] split: if_splits)
  then have "(2::nat) ^ b \<le> 2 ^ (bit_len m - 1)" by simp
  also have "\<dots> \<le> m" using pos by (rule bit_len_le)
  finally show False using m by simp
qed

text \<open>Rounding never crosses a representable value and moves by at most half a unit.\<close>

lemma round_even_ge: "2 ^ k dvd T \<Longrightarrow> T \<le> m \<Longrightarrow> T \<le> round_even k m"
proof -
  assume d: "2 ^ k dvd T" and le: "T \<le> m"
  have "T = T div 2 ^ k * 2 ^ k" using d by simp
  also have "\<dots> \<le> m div 2 ^ k * 2 ^ k" using le by (simp add: div_le_mono)
  also have "\<dots> \<le> round_even k m" by (simp add: round_even_def Let_def)
  finally show ?thesis .
qed

lemma round_even_le_half: "round_even k m \<le> m + 2 ^ k div 2"
proof -
  define P where "P = (2::nat) ^ k"
  define q where "q = m div P"
  define r where "r = m mod P"
  have m: "m = q * P + r" unfolding q_def r_def by (rule div_mult_mod_eq [symmetric])
  have "r < P" by (simp add: r_def P_def)
  then have "(if 2 * r > P \<or> 2 * r = P \<and> odd q then q + 1 else q) * P \<le> m + P div 2"
    using m by auto
  then show ?thesis unfolding round_even_def Let_def P_def q_def r_def .
qed

lemma round_even_up: "2 ^ k dvd T \<Longrightarrow> m < T \<Longrightarrow> 2 * (T - m) < 2 ^ k \<Longrightarrow> T \<le> round_even k m"
proof -
  assume d: "2 ^ k dvd T" and lt: "m < T" and close: "2 * (T - m) < 2 ^ k"
  define P where "P = (2::nat) ^ k"
  define q where "q = m div P"
  define r where "r = m mod P"
  have m: "m = q * P + r" unfolding q_def r_def by (rule div_mult_mod_eq [symmetric])
  have r: "r < P" by (simp add: r_def P_def)
  obtain c where c: "T = c * P" using d by (auto simp: dvd_def mult.commute P_def)
  have "q < c" using lt c m by (metis less_add_same_cancel1 linorder_not_less mult_le_mono1 trans_le_add1)
  moreover have "\<not> q + 2 \<le> c"
  proof
    assume "q + 2 \<le> c"
    then have "(q + 2) * P \<le> T" unfolding c by (rule mult_le_mono1)
    then have "q * P + 2 * P \<le> T" by (simp add: algebra_simps)
    with m r have "P < T - m" by linarith
    with close show False by (simp add: P_def)
  qed
  ultimately have q: "c = q + 1" by simp
  have "2 * r > P" using close m c q lt r by (simp add: P_def algebra_simps)
  then have "T \<le> (if 2 * r > P \<or> 2 * r = P \<and> odd q then q + 1 else q) * P" using q c by simp
  then show ?thesis unfolding round_even_def Let_def P_def q_def r_def .
qed

lemma fp_scale_trunc_eqI:
  assumes "k = bit_len (n * sig) - p" and "k \<le> e"
    and low: "c * 2 ^ e \<le> n * sig \<or> 2 * (c * 2 ^ e - n * sig) < 2 ^ k"
    and up: "n * sig + 2 ^ k div 2 < (c + 1) * 2 ^ e"
  shows "fp_scale_trunc p sig e n = c"
proof -
  let ?v = "round_even k (n * sig)"
  have d: "2 ^ k dvd c * (2::nat) ^ e" using \<open>k \<le> e\<close> by (simp add: le_imp_power_dvd)
  have "c * 2 ^ e \<le> ?v"
    using low round_even_ge [OF d] round_even_up [OF d] by (cases "c * 2 ^ e \<le> n * sig") auto
  moreover have "?v < (c + 1) * 2 ^ e" using round_even_le_half [of k "n * sig"] up by linarith
  ultimately have "?v div 2 ^ e = c" by (intro div_nat_eqI) (simp_all add: mult.commute)
  then show ?thesis using assms(1) by (simp add: fp_scale_trunc_def)
qed

lemma scale_shift_bound: "n < 65536 \<Longrightarrow> sig < 2 ^ p \<Longrightarrow> bit_len (n * sig) - p \<le> 16"
proof -
  assume "n < 65536" "sig < 2 ^ p"
  then have "n * sig < 2 ^ 16 * 2 ^ p" by (intro mult_strict_mono) auto
  then have "n * sig < 2 ^ (16 + p)" by (simp add: power_add)
  then have "bit_len (n * sig) \<le> 16 + p" by (rule bit_len_mono_bound)
  then show ?thesis by simp
qed

text \<open>
  The single-precision constants \<open>.8\<close>, \<open>.2\<close>, \<open>0.43\<close> and the double-precision \<open>0.43\<close>. The first
  three lie above their decimal value, the last one below, so that there the rounding to nearest
  is what makes \<open>100 * 0.43\<close> come out as \<open>43\<close>.
\<close>

definition f32_0_8 :: "nat \<Rightarrow> nat" where "f32_0_8 n = fp_scale_trunc 24 13421773 24 n"
definition f32_0_2 :: "nat \<Rightarrow> nat" where "f32_0_2 n = fp_scale_trunc 24 13421773 26 n"
definition f32_0_43 :: "nat \<Rightarrow> nat" where "f32_0_43 n = fp_scale_trunc 24 14428406 25 n"
definition f64_0_43 :: "nat \<Rightarrow> nat" where "f64_0_43 n = fp_scale_trunc 53 7746191359077253 54 n"

lemma pow_half_le: "k \<le> 16 \<Longrightarrow> (2::nat) ^ k div 2 \<le> 32768"
proof -
  assume "k \<le> 16"
  then have "(2::nat) ^ k \<le> 2 ^ 16" by (intro power_increasing) auto
  then show ?thesis by simp
qed

lemma f32_0_8_eq: "n < 65536 \<Longrightarrow> f32_0_8 n = 4 * n div 5"
  unfolding f32_0_8_def
proof (rule fp_scale_trunc_eqI [OF refl])
  assume n: "n < 65536"
  let ?k = "bit_len (n * 13421773) - 24"
  have k: "?k \<le> 16" using n by (intro scale_shift_bound) auto
  show "?k \<le> 24" using k by simp
  show "4 * n div 5 * 2 ^ 24 \<le> n * 13421773 \<or>
      2 * (4 * n div 5 * 2 ^ 24 - n * 13421773) < 2 ^ ?k"
    by simp
  show "n * 13421773 + 2 ^ ?k div 2 < (4 * n div 5 + 1) * 2 ^ 24"
    using n pow_half_le [OF k] by simp
qed

lemma f32_0_2_eq: "n < 65536 \<Longrightarrow> f32_0_2 n = n div 5"
  unfolding f32_0_2_def
proof (rule fp_scale_trunc_eqI [OF refl])
  assume n: "n < 65536"
  let ?k = "bit_len (n * 13421773) - 24"
  have k: "?k \<le> 16" using n by (intro scale_shift_bound) auto
  show "?k \<le> 26" using k by simp
  show "n div 5 * 2 ^ 26 \<le> n * 13421773 \<or> 2 * (n div 5 * 2 ^ 26 - n * 13421773) < 2 ^ ?k"
    by simp
  show "n * 13421773 + 2 ^ ?k div 2 < (n div 5 + 1) * 2 ^ 26"
    using n pow_half_le [OF k] by simp
qed

lemma f32_0_43_eq: "n < 65536 \<Longrightarrow> f32_0_43 n = 43 * n div 100"
  unfolding f32_0_43_def
proof (rule fp_scale_trunc_eqI [OF refl])
  assume n: "n < 65536"
  let ?k = "bit_len (n * 14428406) - 24"
  have k: "?k \<le> 16" using n by (intro scale_shift_bound) auto
  show "?k \<le> 25" using k by simp
  show "43 * n div 100 * 2 ^ 25 \<le> n * 14428406 \<or>
      2 * (43 * n div 100 * 2 ^ 25 - n * 14428406) < 2 ^ ?k"
    by simp
  show "n * 14428406 + 2 ^ ?k div 2 < (43 * n div 100 + 1) * 2 ^ 25"
    using n pow_half_le [OF k] by simp
qed

lemma f64_0_43_eq: "n < 65536 \<Longrightarrow> f64_0_43 n = 43 * n div 100"
  unfolding f64_0_43_def
proof (rule fp_scale_trunc_eqI [OF refl])
  assume n: "n < 65536"
  let ?m = "n * 7746191359077253"
  let ?k = "bit_len ?m - 53"
  have k: "?k \<le> 16" using n by (intro scale_shift_bound) auto
  show "?k \<le> 54" using k by simp
  have "?m < 2 ^ bit_len ?m" by (rule bit_len_less)
  also have "\<dots> \<le> 2 ^ (53 + ?k)" by (intro power_increasing) auto
  finally have m: "?m < 2 ^ 53 * 2 ^ ?k" by (simp add: power_add)
  show "43 * n div 100 * 2 ^ 54 \<le> ?m \<or> 2 * (43 * n div 100 * 2 ^ 54 - ?m) < 2 ^ ?k"
  proof (cases "43 * n div 100 * 2 ^ 54 \<le> ?m")
    case False
    then have "0 < n" by (cases n) auto
    with False m show ?thesis by simp
  qed simp
  show "?m + 2 ^ ?k div 2 < (43 * n div 100 + 1) * 2 ^ 54"
    using n pow_half_le [OF k] by simp
qed

text \<open>The constant \<open>1.00\<close> is exact.\<close>

lemma fp_scale_one: "n < 65536 \<Longrightarrow> 16 \<le> p \<Longrightarrow> fp_scale_trunc p 1 0 n = n"
proof -
  assume "n < 65536" "16 \<le> p"
  moreover from this have "bit_len n \<le> 16" by (intro bit_len_mono_bound) simp
  ultimately show ?thesis by (simp add: fp_scale_trunc_def round_even_def)
qed

lemmas fp_scale_simps = f32_0_8_eq f32_0_2_eq f32_0_43_eq f64_0_43_eq fp_scale_one

end
