(* ===== verification/Ipa_Table.thy ===== *)
theory Ipa_Table
  imports Fp_Scale
begin

unbundle bit_operations_syntax

section \<open>The generic hash table with expansion area (\<open>ipa_table.c\<close>)\<close>

text \<open>
  The table shared by IPv4 NAT and IPv6 connection tracking: a base area indexed by a hash and an
  expansion area behind it that holds the collision chains. This theory holds the data types of
  \<open>ipa_table.h\<close> and every operation of \<open>ipa_table.c\<close>, in the order of the source.

  How the C data is represented:
  \<^item> The memory a table lies in is the field \<open>recs\<close>, the list of its records, base area first; the
    records are addressed by \<open>GOTO_REC\<close>. A pointer to a record is the index of the record, a null
    pointer is \<open>None\<close>; every access goes through \<open>mem_read\<close> and \<open>mem_write\<close>.
  \<^item> The all-zero record that \<open>memset\<close> writes is the constant \<open>0\<close> of the record's type.
  \<^item> The function pointers of \<open>ipa_table_entry_interface\<close> are a record of functions, passed to the
    operations that call through \<open>table->entry_interface\<close>.
  \<^item> \<open>meta\<close> is the array of previous indices of the expansion area of an index table (\<open>None\<close> for
    the null pointer).
\<close>

subsection \<open>Data types\<close>

datatype ipa3_nat_mem_in = IPA_NAT_MEM_IN_DDR | IPA_NAT_MEM_IN_SRAM | IPA_NAT_MEM_IN_MAX

fun nmi_val :: "ipa3_nat_mem_in \<Rightarrow> u32" where
  "nmi_val IPA_NAT_MEM_IN_DDR = 0"
| "nmi_val IPA_NAT_MEM_IN_SRAM = 1"
| "nmi_val IPA_NAT_MEM_IN_MAX = 2"

definition nmi_of :: "u32 \<Rightarrow> ipa3_nat_mem_in" where
  "nmi_of v = (if v = 0 then IPA_NAT_MEM_IN_DDR
               else if v = 1 then IPA_NAT_MEM_IN_SRAM else IPA_NAT_MEM_IN_MAX)"

definition IPA_VALID_NAT_MEM_IN :: "ipa3_nat_mem_in \<Rightarrow> bool" where
  "IPA_VALID_NAT_MEM_IN t \<longleftrightarrow>
     nmi_val IPA_NAT_MEM_IN_DDR \<le> nmi_val t \<and> nmi_val t < nmi_val IPA_NAT_MEM_IN_MAX"

definition IPA_TABLE_MAX_ENTRIES :: nat where "IPA_TABLE_MAX_ENTRIES = 5120"

definition VALID_INDEX :: "u16 \<Rightarrow> bool" where "VALID_INDEX idx \<longleftrightarrow> idx \<noteq> 0"

definition VALID_RULE_HDL :: "u32 \<Rightarrow> bool" where "VALID_RULE_HDL hdl \<longleftrightarrow> hdl \<noteq> 0"

datatype ipa_table_dma_type =
  IPA_NAT_BASE_TBL | IPA_NAT_EXPN_TBL | IPA_NAT_INDX_TBL | IPA_NAT_INDEX_EXPN_TBL
| IPA_IPV6CT_BASE_TBL | IPA_IPV6CT_EXPN_TBL

fun dma_type_val :: "ipa_table_dma_type \<Rightarrow> u8" where
  "dma_type_val IPA_NAT_BASE_TBL = 0"
| "dma_type_val IPA_NAT_EXPN_TBL = 1"
| "dma_type_val IPA_NAT_INDX_TBL = 2"
| "dma_type_val IPA_NAT_INDEX_EXPN_TBL = 3"
| "dma_type_val IPA_IPV6CT_BASE_TBL = 4"
| "dma_type_val IPA_IPV6CT_EXPN_TBL = 5"

text \<open>
  The entry interface. The getter and setter of the previous index receive the metadata array; the
  index-table versions access it at \<open>entry_index - base_table_size\<close>, hence the option.
  \<open>entry_head_insert\<close> returns the return code, the entry as written and the DMA data.
\<close>

record ('e, 'u) ipa_table_entry_interface =
  entry_is_valid :: "'e \<Rightarrow> bool"
  entry_get_next_index :: "'e \<Rightarrow> u16"
  entry_get_prev_index :: "'e \<Rightarrow> u16 \<Rightarrow> u16 list option \<Rightarrow> u16 \<Rightarrow> u16 option"
  entry_set_prev_index ::
    "'e \<Rightarrow> u16 \<Rightarrow> u16 \<Rightarrow> u16 list option \<Rightarrow> u16 \<Rightarrow> ('e \<times> u16 list option) option"
  entry_head_insert :: "'e \<Rightarrow> 'u \<Rightarrow> int \<times> 'e \<times> u16"
  entry_tail_insert :: "'e \<Rightarrow> 'u \<Rightarrow> int \<times> 'e"
  entry_get_delete_head_dma_command_data :: "'e \<Rightarrow> 'e \<Rightarrow> u16"

datatype dma_help_type = HELP_UPDATE_HEAD | HELP_UPDATE_ENTRY | HELP_DELETE_HEAD | HELP_UPDATE_MAX

fun help_val :: "dma_help_type \<Rightarrow> nat" where
  "help_val HELP_UPDATE_HEAD = 0"
| "help_val HELP_UPDATE_ENTRY = 1"
| "help_val HELP_DELETE_HEAD = 2"
| "help_val HELP_UPDATE_MAX = 3"

definition VALID_DMA_HELP_TYPE :: "dma_help_type \<Rightarrow> bool" where
  "VALID_DMA_HELP_TYPE t \<longleftrightarrow>
     help_val HELP_UPDATE_HEAD \<le> help_val t \<and> help_val t < help_val HELP_UPDATE_MAX"

record ipa_table_dma_cmd_helper =
  h_offset :: u32
  h_table_type :: ipa_table_dma_type
  h_expn_table_type :: ipa_table_dma_type
  h_table_indx :: u8

text \<open>
  One DMA command and the command buffer the kernel receives. \<open>dma\<close> is the trailing array of the
  buffer, of the length the caller allocated; \<open>entries\<close> counts the commands in use.
\<close>

record ipa_ioc_nat_dma_one =
  d_table_index :: u8
  d_base_addr :: u8
  d_offset :: u32
  d_data :: u16

record ipa_ioc_nat_dma_cmd =
  entries :: u8
  mem_type :: u8
  dma :: "ipa_ioc_nat_dma_one list"

record 'e ipa_table =
  name :: string
  nmi :: ipa3_nat_mem_in
  entry_size :: nat
  table_entries :: u16
  expn_table_entries :: u16
  tot_tbl_ents :: u32
  table_addr :: u64
  expn_table_addr :: u64
  cur_tbl_cnt :: u16
  cur_expn_tbl_cnt :: u16
  dma_help :: "ipa_table_dma_cmd_helper option list"
  meta :: "u16 list option"
  meta_entry_size :: nat
  recs :: "'e list"

record ipa_table_iterator =
  prev_index :: u16
  prev_entry :: "u16 option"
  curr_index :: u16
  curr_entry :: "u16 option"
  next_index :: u16
  next_entry :: "u16 option"

definition iterator_zero :: ipa_table_iterator where
  "iterator_zero = \<lparr>prev_index = 0, prev_entry = None, curr_index = 0, curr_entry = None,
                    next_index = 0, next_entry = None\<rparr>"

definition GOTO_REC :: "'e ipa_table \<Rightarrow> u16 \<Rightarrow> u64" where
  "GOTO_REC tbl rec_idx = table_addr tbl + of_nat (unat rec_idx * entry_size tbl)"

datatype When2Callback = WHEN_SLOT_EMPTY | WHEN_SLOT_FILLED | WHEN_SLOT_MAX

definition VALID_WHEN2CALLBACK :: "When2Callback \<Rightarrow> bool" where
  "VALID_WHEN2CALLBACK w \<longleftrightarrow> w \<noteq> WHEN_SLOT_MAX"

subsection \<open>Initialisation and dimensions\<close>

definition IPA_RESOURCE_NAME_MAX :: nat where "IPA_RESOURCE_NAME_MAX = 32"

definition ipa_table_init ::
    "string \<Rightarrow> ipa3_nat_mem_in \<Rightarrow> nat \<Rightarrow> u16 list option \<Rightarrow> nat \<Rightarrow> 'e ipa_table" where
  "ipa_table_init table_name nmi' esz meta' msz =
     \<lparr>name = take (IPA_RESOURCE_NAME_MAX - 1) table_name, nmi = nmi', entry_size = esz,
      table_entries = 0, expn_table_entries = 0, tot_tbl_ents = 0,
      table_addr = 0, expn_table_addr = 0, cur_tbl_cnt = 0, cur_expn_tbl_cnt = 0,
      dma_help = [None, None, None], meta = meta', meta_entry_size = msz, recs = []\<rparr>"

text \<open>The loop of \<open>Get2PowerTightUpperBound\<close>; \<open>tmp = 0\<close> would never reach \<open>1\<close>.\<close>

partial_function (option) pow2_loop :: "u16 \<Rightarrow> u16 \<Rightarrow> u16 \<Rightarrow> (u16 \<times> u16) option" where
  "pow2_loop tmp prev cur =
     (if tmp = 1 then Some (prev, cur) else pow2_loop (drop_bit 1 tmp) cur (push_bit 1 cur))"

definition Get2PowerTightUpperBound :: "u16 \<Rightarrow> u16 option" where
  "Get2PowerTightUpperBound num =
     (if num = 0 then Some 2
      else do { (prev, cur) \<leftarrow> pow2_loop num 0 2; Some (if num = prev then prev else cur) })"

definition GetEvenTightUpperBound :: "u16 \<Rightarrow> u32" where
  "GetEvenTightUpperBound num =
     (if num = 0 then 2 else if num mod 2 \<noteq> 0 then ucast num + 1 else ucast num)"

definition ipa_table_calculate_entries_num ::
    "'e ipa_table \<Rightarrow> u16 \<Rightarrow> ipa3_nat_mem_in \<Rightarrow> (int \<times> 'e ipa_table) option" where
  "ipa_table_calculate_entries_num table number_of_entries nmi' =
     (if IPA_TABLE_MAX_ENTRIES < unat number_of_entries then Some (- EINVAL, table)
      else
        let n = unat number_of_entries;
            base_f = (if nmi' = IPA_NAT_MEM_IN_SRAM then fp_scale_trunc 24 1 0 n else f32_0_8 n);
            expn_f = (if nmi' = IPA_NAT_MEM_IN_SRAM then f32_0_43 n else f32_0_2 n)
        in do {
          te \<leftarrow> Get2PowerTightUpperBound (of_nat base_f);
          let ete = (ucast (GetEvenTightUpperBound (of_nat expn_f)) :: u16);
          let table = table\<lparr>tot_tbl_ents := ucast te + ucast ete\<rparr>;
          if of_nat IPA_TABLE_MAX_ENTRIES < tot_tbl_ents table then Some (- EINVAL, table)
          else Some (0, table\<lparr>table_entries := te, expn_table_entries := ete\<rparr>)
        })"

definition ipa_table_calculate_size :: "'e ipa_table \<Rightarrow> nat" where
  "ipa_table_calculate_size table =
     entry_size table * (unat (table_entries table) + unat (expn_table_entries table))"

definition ipa_table_calculate_addresses :: "'e ipa_table \<Rightarrow> u64 \<Rightarrow> u64 \<times> 'e ipa_table" where
  "ipa_table_calculate_addresses table base_addr =
     (let expn = base_addr + of_nat (entry_size table * unat (table_entries table));
          table = table\<lparr>table_addr := base_addr, expn_table_addr := expn\<rparr>
      in (expn + of_nat (entry_size table * unat (expn_table_entries table)), table))"

definition ipa_table_reset :: "'e::zero ipa_table \<Rightarrow> 'e ipa_table" where
  "ipa_table_reset table =
     table\<lparr>recs := replicate (unat (table_entries table) + unat (expn_table_entries table)) 0\<rparr>"

subsection \<open>Rule handles\<close>

text \<open>
  A rule handle: bit 15 the memory type, bits 1 to 12 the index into the base or the expansion
  area, bit 0 which of the two. \<open>MakeEntryHdl\<close> shifts in 16 bits.
\<close>

definition MakeEntryHdl :: "'e ipa_table \<Rightarrow> u16 \<Rightarrow> u16" where
  "MakeEntryHdl tbl tbl_entry =
     (let hdl = (if table_entries tbl \<le> tbl_entry
                 then push_bit 1 (tbl_entry - table_entries tbl) OR 1
                 else push_bit 1 tbl_entry)
      in hdl OR ucast (push_bit 15 (nmi_val (nmi tbl))))"

definition BREAK_RULE_HDL :: "'e ipa_table \<Rightarrow> u32 \<Rightarrow> ipa3_nat_mem_in \<times> bool \<times> u16" where
  "BREAK_RULE_HDL tbl hdl =
     (let mt = nmi_of (drop_bit 15 hdl AND 1);
          iet = (hdl AND 1 \<noteq> 0);
          indx = (ucast (drop_bit 1 hdl AND 0xFFF) :: u16) + (if iet then table_entries tbl else 0)
      in (mt, iet, indx))"

definition ipa_table_get_entry ::
    "'e ipa_table \<Rightarrow> u32 \<Rightarrow> int \<times> u16 option \<times> u16" where
  "ipa_table_get_entry table entry_handle =
     (let (mt, is_expn_tbl, rec_index) = BREAK_RULE_HDL table entry_handle
      in if tot_tbl_ents table \<le> ucast rec_index then (- EINVAL, None, 0)
         else (0, Some rec_index, rec_index))"

definition ipa_table_get_entry_by_index :: "'e ipa_table \<Rightarrow> u16 \<Rightarrow> u16 option" where
  "ipa_table_get_entry_by_index table rec_index =
     (if rec_index = 0 \<or> tot_tbl_ents table \<le> ucast rec_index then None else Some rec_index)"

subsection \<open>DMA commands\<close>

definition ipa_table_dma_cmd_helper_init ::
    "u8 \<Rightarrow> ipa_table_dma_type \<Rightarrow> ipa_table_dma_type \<Rightarrow> u32 \<Rightarrow> ipa_table_dma_cmd_helper" where
  "ipa_table_dma_cmd_helper_init table_indx table_type expn_table_type offset =
     \<lparr>h_offset = offset, h_table_type = table_type, h_expn_table_type = expn_table_type,
      h_table_indx = table_indx\<rparr>"

definition ipa_table_dma_cmd_generate ::
    "ipa_table_dma_cmd_helper \<Rightarrow> bool \<Rightarrow> u32 \<Rightarrow> u16 \<Rightarrow> ipa_ioc_nat_dma_cmd
     \<Rightarrow> ipa_ioc_nat_dma_cmd option" where
  "ipa_table_dma_cmd_generate helper is_expn entry_offset data cmd =
     do {
       let one = \<lparr>d_table_index = h_table_indx helper,
                  d_base_addr = dma_type_val (if is_expn then h_expn_table_type helper
                                              else h_table_type helper),
                  d_offset = h_offset helper + entry_offset,
                  d_data = data\<rparr>;
       dma' \<leftarrow> mem_write (dma cmd) (unat (entries cmd)) one;
       Some (cmd\<lparr>dma := dma', entries := entries cmd + 1\<rparr>)
     }"

definition ipa_table_add_dma_cmd ::
    "'e ipa_table \<Rightarrow> dma_help_type \<Rightarrow> u16 option \<Rightarrow> u16 \<Rightarrow> u16 \<Rightarrow> ipa_ioc_nat_dma_cmd
     \<Rightarrow> (int \<times> ipa_ioc_nat_dma_cmd) option" where
  "ipa_table_add_dma_cmd tbl help_type rec_ptr rec_index data_for_entry cmd =
     (case rec_ptr of
        None \<Rightarrow> Some (- EINVAL, cmd)
      | Some r \<Rightarrow>
          if \<not> VALID_DMA_HELP_TYPE help_type then Some (- EINVAL, cmd)
          else if (ucast (table_entries tbl) + ucast (expn_table_entries tbl) :: u32) \<le> ucast rec_index
          then Some (- EINVAL, cmd)
          else do {
            let is_expn = (table_entries tbl \<le> rec_index);
            let entry_offset = (ucast (GOTO_REC tbl r -
                  (if is_expn then expn_table_addr tbl else table_addr tbl)) :: u32);
            h \<leftarrow> mem_read (dma_help tbl) (help_val help_type);
            helper \<leftarrow> h;
            cmd' \<leftarrow> ipa_table_dma_cmd_generate helper is_expn entry_offset data_for_entry cmd;
            Some (0, cmd')
          })"

subsection \<open>Walking a table\<close>

text \<open>
  The callback receives the accumulated state (\<open>arb_data_ptr\<close> and whatever it updates), the rule
  handle, the record, its index, and the metadata record and index; it returns a code and the new
  state. A non-zero code stops the walk.
\<close>

type_synonym ('s, 'e) walk_cb =
  "'s \<Rightarrow> u32 \<Rightarrow> 'e \<Rightarrow> u16 \<Rightarrow> u16 option \<Rightarrow> u16 \<Rightarrow> (int \<times> 's) option"

partial_function (option) ipa_table_walk_loop ::
    "('e, 'u) ipa_table_entry_interface \<Rightarrow> 'e ipa_table \<Rightarrow> When2Callback \<Rightarrow> ('s, 'e) walk_cb
     \<Rightarrow> u16 \<Rightarrow> 's \<Rightarrow> (int \<times> 's) option" where
  "ipa_table_walk_loop ifc tbl when2cb walk_cb i s =
     (if ucast (table_entries tbl) + ucast (expn_table_entries tbl) \<le> (ucast i :: u32)
      then Some (0, s)
      else do {
        r \<leftarrow> mem_read (recs tbl) (unat i);
        if (if entry_is_valid ifc r then when2cb = WHEN_SLOT_FILLED else when2cb = WHEN_SLOT_EMPTY)
        then do {
          let has_meta = (table_entries tbl \<le> i \<and> meta tbl \<noteq> None);
          let meta_record_index = (if has_meta then i - table_entries tbl else 0);
          let meta_record_ptr = (if has_meta then Some meta_record_index else None);
          (ret, s') \<leftarrow> walk_cb s (ucast (MakeEntryHdl tbl i)) r i meta_record_ptr meta_record_index;
          if ret \<noteq> 0 then Some (ret, s')
          else ipa_table_walk_loop ifc tbl when2cb walk_cb (i + 1) s'
        }
        else ipa_table_walk_loop ifc tbl when2cb walk_cb (i + 1) s
      })"

definition ipa_table_walk ::
    "('e, 'u) ipa_table_entry_interface \<Rightarrow> 'e ipa_table \<Rightarrow> u16 \<Rightarrow> When2Callback
     \<Rightarrow> ('s, 'e) walk_cb \<Rightarrow> 's \<Rightarrow> (int \<times> 's) option" where
  "ipa_table_walk ifc tbl start_index when2cb walk_cb s =
     (if \<not> VALID_WHEN2CALLBACK when2cb then Some (- EINVAL, s)
      else if ucast (table_entries tbl) + ucast (expn_table_entries tbl) \<le> (ucast start_index :: u32)
      then Some (- EINVAL, s)
      else ipa_table_walk_loop ifc tbl when2cb walk_cb start_index s)"

definition mt_slot :: "(unit, 'e) walk_cb" where
  "mt_slot s rule_hdl r record_index meta_record_ptr meta_record_index =
     Some (int (unat record_index), s)"

definition FindExpnTblFreeEntry ::
    "('e, 'u) ipa_table_entry_interface \<Rightarrow> 'e ipa_table \<Rightarrow> (int \<times> u16 option \<times> u16) option" where
  "FindExpnTblFreeEntry ifc table =
     do {
       (ret, _) \<leftarrow> ipa_table_walk ifc table (table_entries table) WHEN_SLOT_EMPTY mt_slot ();
       if 0 < ret
       then do { let entry_index = (of_int ret :: u16); Some (0, Some entry_index, entry_index) }
       else Some (- 1, None, 0)
     }"

subsection \<open>Iterators\<close>

definition ipa_table_iterator_init ::
    "('e, 'u) ipa_table_entry_interface \<Rightarrow> 'e ipa_table \<Rightarrow> u16 \<Rightarrow> u16
     \<Rightarrow> (int \<times> ipa_table_iterator) option" where
  "ipa_table_iterator_init ifc table curr_ptr curr_idx =
     do {
       let it = iterator_zero;
       e \<leftarrow> mem_read (recs table) (unat curr_ptr);
       if \<not> entry_is_valid ifc e then Some (- EINVAL, it)
       else do {
         prv \<leftarrow> entry_get_prev_index ifc e curr_idx (meta table) (table_entries table);
         let nxt = entry_get_next_index ifc e;
         let it = it\<lparr>curr_entry := Some curr_ptr, curr_index := curr_idx,
                      prev_index := prv, next_index := nxt\<rparr>;
         let it = (if VALID_INDEX prv
                   then it\<lparr>prev_entry := ipa_table_get_entry_by_index table prv\<rparr> else it);
         if VALID_INDEX prv \<and> prev_entry it = None then Some (- EPERM, it)
         else do {
           let it = (if VALID_INDEX nxt
                     then it\<lparr>next_entry := ipa_table_get_entry_by_index table nxt\<rparr> else it);
           if VALID_INDEX nxt \<and> next_entry it = None then Some (- EPERM, it)
           else Some (0, it)
         }
       }
     }"

definition ipa_table_iterator_next ::
    "('e, 'u) ipa_table_entry_interface \<Rightarrow> 'e ipa_table \<Rightarrow> ipa_table_iterator
     \<Rightarrow> (int \<times> ipa_table_iterator) option" where
  "ipa_table_iterator_next ifc table it =
     do {
       let it = it\<lparr>prev_entry := curr_entry it, prev_index := curr_index it,
                    curr_entry := next_entry it, curr_index := next_index it\<rparr>;
       p \<leftarrow> curr_entry it;
       e \<leftarrow> mem_read (recs table) (unat p);
       let nxt = entry_get_next_index ifc e;
       let it = it\<lparr>next_index := nxt\<rparr>;
       if \<not> VALID_INDEX nxt then Some (0, it\<lparr>next_entry := None\<rparr>)
       else do {
         let it = it\<lparr>next_entry := ipa_table_get_entry_by_index table nxt\<rparr>;
         Some (if next_entry it = None then - EPERM else 0, it)
       }
     }"

text \<open>
  The endless loop of \<open>ipa_table_iterator_end\<close>: it follows the next indices from a record until
  the last one, \<open>(True, last)\<close>, or a record that points to itself, \<open>(False, that)\<close>.
\<close>

partial_function (option) iterator_end_loop ::
    "('e, 'u) ipa_table_entry_interface \<Rightarrow> 'e ipa_table \<Rightarrow> u16 \<Rightarrow> u16 \<Rightarrow> (bool \<times> u16 \<times> u16) option"
where
  "iterator_end_loop ifc table prev_idx prev_ptr =
     do {
       e \<leftarrow> mem_read (recs table) (unat prev_ptr);
       let nxt = entry_get_next_index ifc e;
       if \<not> VALID_INDEX nxt then Some (True, prev_idx, prev_ptr)
       else if nxt = prev_idx then Some (False, prev_idx, prev_ptr)
       else iterator_end_loop ifc table nxt nxt
     }"

definition ipa_table_iterator_end ::
    "('e, 'u) ipa_table_entry_interface \<Rightarrow> 'e ipa_table \<Rightarrow> u16 \<Rightarrow> u16 option
     \<Rightarrow> (int \<times> ipa_table_iterator) option" where
  "ipa_table_iterator_end ifc table rec_index rec_ptr =
     (case rec_ptr of
        None \<Rightarrow> Some (- 1, iterator_zero)
      | Some r \<Rightarrow> do {
          (found_end, last_idx, last_ptr) \<leftarrow> iterator_end_loop ifc table rec_index r;
          let it = iterator_zero\<lparr>prev_index := last_idx, prev_entry := Some last_ptr\<rparr>;
          Some (if found_end then 0 else - 1, it)
        })"

definition ipa_table_iterator_is_head_with_tail :: "ipa_table_iterator \<Rightarrow> bool" where
  "ipa_table_iterator_is_head_with_tail it \<longleftrightarrow>
     VALID_INDEX (next_index it) \<and> \<not> VALID_INDEX (prev_index it)"

subsection \<open>Insertion\<close>

text \<open>
  Insertion fills a free record in the table's memory and appends the commands that make it
  visible to the hardware; the pointers between records change only when the commands are executed.
  The result is the return code, the table, the index of the new record and the command buffer.
\<close>

definition InsertHead ::
    "('e, 'u) ipa_table_entry_interface \<Rightarrow> 'e ipa_table \<Rightarrow> u16 \<Rightarrow> u16 \<Rightarrow> 'u \<Rightarrow> ipa_ioc_nat_dma_cmd
     \<Rightarrow> (int \<times> 'e ipa_table \<times> ipa_ioc_nat_dma_cmd) option" where
  "InsertHead ifc table rec_ptr rec_index user_data cmd =
     do {
       e \<leftarrow> mem_read (recs table) (unat rec_ptr);
       let (ret, e', enable_data) = entry_head_insert ifc e user_data;
       rs \<leftarrow> mem_write (recs table) (unat rec_ptr) e';
       let table = table\<lparr>recs := rs\<rparr>;
       if ret \<noteq> 0 then Some (ret, table, cmd)
       else do {
         (_, cmd) \<leftarrow> ipa_table_add_dma_cmd table HELP_UPDATE_HEAD (Some rec_ptr) rec_index enable_data cmd;
         Some (0, table\<lparr>cur_tbl_cnt := cur_tbl_cnt table + 1\<rparr>, cmd)
       }
     }"

definition InsertTail ::
    "('e, 'u) ipa_table_entry_interface \<Rightarrow> 'e ipa_table \<Rightarrow> u16 \<Rightarrow> u16 \<Rightarrow> 'u \<Rightarrow> ipa_ioc_nat_dma_cmd
     \<Rightarrow> (int \<times> 'e ipa_table \<times> u16 \<times> ipa_ioc_nat_dma_cmd) option" where
  "InsertTail ifc table rec_ptr rec_index user_data cmd =
     do {
       let is_index_tbl = (meta table \<noteq> None);
       (ret, it) \<leftarrow> ipa_table_iterator_end ifc table rec_index (Some rec_ptr);
       if ret \<noteq> 0 then Some (ret, table, rec_index, cmd)
       else do {
         (ret, cptr, cidx) \<leftarrow> FindExpnTblFreeEntry ifc table;
         let it = it\<lparr>curr_entry := cptr, curr_index := cidx\<rparr>;
         if ret \<noteq> 0 then Some (ret, table, rec_index, cmd)
         else do {
           cp \<leftarrow> cptr;
           e \<leftarrow> mem_read (recs table) (unat cp);
           let (ret, e', enable_data) =
             (if is_index_tbl
              then (let (r, e') = entry_tail_insert ifc e user_data in (r, e', 0))
              else entry_head_insert ifc e user_data);
           rs \<leftarrow> mem_write (recs table) (unat cp) e';
           let table = table\<lparr>recs := rs\<rparr>;
           if ret \<noteq> 0 then Some (ret, table, rec_index, cmd)
           else do {
             (e'', m'') \<leftarrow> entry_set_prev_index ifc e' (curr_index it) (prev_index it)
                              (meta table) (table_entries table);
             rs \<leftarrow> mem_write (recs table) (unat cp) e'';
             let table = table\<lparr>recs := rs, meta := m''\<rparr>;
             (_, cmd) \<leftarrow> (if \<not> is_index_tbl
                         then ipa_table_add_dma_cmd table HELP_UPDATE_HEAD (curr_entry it)
                                (curr_index it) enable_data cmd
                         else Some (0, cmd));
             (_, cmd) \<leftarrow> ipa_table_add_dma_cmd table HELP_UPDATE_ENTRY (prev_entry it)
                            (prev_index it) (curr_index it) cmd;
             Some (0, table\<lparr>cur_expn_tbl_cnt := cur_expn_tbl_cnt table + 1\<rparr>, curr_index it, cmd)
           }
         }
       }
     }"

text \<open>
  \<open>ipa_table_add_entry\<close> returns the index of the record through \<open>rec_index_ptr\<close> and, when the caller
  passes a place for it, the rule handle.
\<close>

definition ipa_table_add_entry ::
    "('e, 'u) ipa_table_entry_interface \<Rightarrow> 'e ipa_table \<Rightarrow> 'u \<Rightarrow> u16 \<Rightarrow> ipa_ioc_nat_dma_cmd
     \<Rightarrow> (int \<times> 'e ipa_table \<times> u16 \<times> u32 \<times> ipa_ioc_nat_dma_cmd) option" where
  "ipa_table_add_entry ifc table user_data rec_index cmd =
     do {
       e \<leftarrow> mem_read (recs table) (unat rec_index);
       let occupied = entry_is_valid ifc e;
       (ret, table, rec_index, cmd) \<leftarrow>
         (if \<not> occupied
          then do { (ret, table, cmd) \<leftarrow> InsertHead ifc table rec_index rec_index user_data cmd;
                    Some (ret, table, rec_index, cmd) }
          else InsertTail ifc table rec_index rec_index user_data cmd);
       Some (ret, table, rec_index,
             (if ret \<noteq> 0 then 0 else ucast (MakeEntryHdl table rec_index)), cmd)
     }"

subsection \<open>Deletion\<close>

definition ipa_table_create_delete_command ::
    "('e, 'u) ipa_table_entry_interface \<Rightarrow> 'e ipa_table \<Rightarrow> ipa_ioc_nat_dma_cmd \<Rightarrow> ipa_table_iterator
     \<Rightarrow> ipa_ioc_nat_dma_cmd option" where
  "ipa_table_create_delete_command ifc table cmd it =
     (if \<not> VALID_INDEX (prev_index it)
      then do {
        (data, ht) \<leftarrow>
          (if VALID_INDEX (next_index it)
           then do {
             cp \<leftarrow> curr_entry it;
             ce \<leftarrow> mem_read (recs table) (unat cp);
             np \<leftarrow> next_entry it;
             ne \<leftarrow> mem_read (recs table) (unat np);
             Some (entry_get_delete_head_dma_command_data ifc ce ne, HELP_DELETE_HEAD)
           }
           else Some (0, HELP_UPDATE_HEAD));
        (_, cmd) \<leftarrow> ipa_table_add_dma_cmd table ht (curr_entry it) (curr_index it) data cmd;
        Some cmd
      }
      else do {
        (_, cmd) \<leftarrow> ipa_table_add_dma_cmd table HELP_UPDATE_ENTRY (prev_entry it) (prev_index it)
                       (next_index it) cmd;
        Some cmd
      })"

definition ipa_table_erase_entry :: "'e::zero ipa_table \<Rightarrow> u16 \<Rightarrow> 'e ipa_table option" where
  "ipa_table_erase_entry table index =
     do {
       rs \<leftarrow> mem_write (recs table) (unat index) 0;
       let table = table\<lparr>recs := rs\<rparr>;
       Some (if index < table_entries table
             then table\<lparr>cur_tbl_cnt := cur_tbl_cnt table - 1\<rparr>
             else table\<lparr>cur_expn_tbl_cnt := cur_expn_tbl_cnt table - 1\<rparr>)
     }"

definition ipa_table_delete_entry ::
    "('e::zero, 'u) ipa_table_entry_interface \<Rightarrow> 'e ipa_table \<Rightarrow> ipa_table_iterator \<Rightarrow> bool
     \<Rightarrow> 'e ipa_table option" where
  "ipa_table_delete_entry ifc table it is_prev_empty =
     do {
       table \<leftarrow>
         (if VALID_INDEX (next_index it)
          then do {
            np \<leftarrow> next_entry it;
            e \<leftarrow> mem_read (recs table) (unat np);
            (e', m') \<leftarrow> entry_set_prev_index ifc e (next_index it) (prev_index it)
                           (meta table) (table_entries table);
            rs \<leftarrow> mem_write (recs table) (unat np) e';
            Some (table\<lparr>recs := rs, meta := m'\<rparr>)
          }
          else if is_prev_empty
          then (case prev_entry it of
                  None \<Rightarrow> Some table
                | Some pp \<Rightarrow> do {
                    rs \<leftarrow> mem_write (recs table) (unat pp) 0;
                    Some (table\<lparr>recs := rs, cur_tbl_cnt := cur_tbl_cnt table - 1\<rparr>)
                  })
          else Some table);
       ipa_table_erase_entry table (curr_index it)
     }"

subsection \<open>Sizing the SRAM table\<close>

text \<open>
  The search of \<open>ipa_calc_num_sram_table_entries\<close>: the 16-bit candidate \<open>tot\<close> grows until the two
  tables of that size no longer fit. \<open>best\<close> is \<open>*num_entries_ptr\<close>. Sizes are 32 bits wide: each
  of the two is reduced to the 32 bits of the \<open>int\<close> that \<open>ipa_table_calculate_size\<close> returns, their sum wraps, and
  it is compared as an unsigned number with \<open>sram_size\<close>, as C converts it.
\<close>

partial_function (option) sram_entries_loop :: "u32 \<Rightarrow> u32 \<Rightarrow> u32 \<Rightarrow> u16 \<Rightarrow> u16 \<Rightarrow> u16 option" where
  "sram_entries_loop sram_size sz1 sz2 tot best =
     do {
       te \<leftarrow> Get2PowerTightUpperBound (of_nat (fp_scale_trunc 53 1 0 (unat tot)));
       let ete = (ucast (GetEvenTightUpperBound (of_nat (f64_0_43 (unat tot)))) :: u16);
       let nat_table = (ipa_table_init ''tmp_sram_table1'' IPA_NAT_MEM_IN_DDR (unat sz1) None 0 :: unit ipa_table)
             \<lparr>table_entries := te, expn_table_entries := ete\<rparr>;
       let index_table = (ipa_table_init ''tmp_sram_table1'' IPA_NAT_MEM_IN_DDR (unat sz2) None 0 :: unit ipa_table)
             \<lparr>table_entries := te, expn_table_entries := ete\<rparr>;
       let size = (of_nat (ipa_table_calculate_size nat_table) :: u32);
       let size = size + of_nat (ipa_table_calculate_size index_table);
       if sram_size < size then Some best
       else sram_entries_loop sram_size sz1 sz2 (tot + 1) tot
     }"

definition ipa_calc_num_sram_table_entries :: "u32 \<Rightarrow> u32 \<Rightarrow> u32 \<Rightarrow> (int \<times> u16) option" where
  "ipa_calc_num_sram_table_entries sram_size table1_ent_size table2_ent_size =
     do {
       n \<leftarrow> sram_entries_loop sram_size table1_ent_size table2_ent_size 1 0;
       Some (if n \<noteq> 0 then 0 else - 1, n)
     }"

end
