(* ===== verification/Table_Dims.thy ===== *)
theory Table_Dims
  imports Ipa_Table
begin

unbundle bit_operations_syntax

section \<open>Dimensions of a table and rule handles\<close>

text \<open>
  What the sizing code of \<open>ipa_table.c\<close> computes: the power-of-two bound, the dimensions of a table
  for a requested number of entries, the largest table pair that fits in SRAM, and the encoding of
  record indices as rule handles.
\<close>

subsection \<open>The power-of-two bound\<close>

lemma pow2_loop_eq:
  "tmp \<noteq> 0 \<Longrightarrow> pow2_loop tmp prev cur =
     Some (let j = bit_len (unat tmp) - 1
           in (if j = 0 then prev else push_bit (j - 1) cur, push_bit j cur))"
proof (induction "unat tmp" arbitrary: tmp prev cur rule: less_induct)
  case less
  show ?case
  proof (cases "tmp = 1")
    case True
    then show ?thesis by (simp add: pow2_loop.simps bit_len.simps)
  next
    case False
    have half: "unat (drop_bit 1 tmp) = unat tmp div 2"
      by (simp only: unat_drop_bit_eq) (simp add: drop_bit_Suc)
    from less.prems False have ge: "2 \<le> unat tmp"
      by (metis One_nat_def Suc_1 less_2_cases linorder_not_less unat_1 unat_eq_zero word_unat_eq_iff)
    then have "unat (drop_bit 1 tmp) < unat tmp" and nz: "drop_bit 1 tmp \<noteq> 0"
      using half by (auto simp: word_unat_eq_iff)
    note ih = less.hyps [OF this, of cur "push_bit 1 cur"]
    obtain b where b: "bit_len (unat tmp div 2) = Suc b"
      using ge by (simp add: bit_len.simps [of "unat tmp div 2"])
    have "bit_len (unat tmp) = Suc (Suc b)" using ge b by (simp add: bit_len.simps [of "unat tmp"])
    then show ?thesis
      using False ih half b by (simp add: pow2_loop.simps [of tmp] Let_def) (cases b; simp)
  qed
qed

lemma unat_push_bit_2: "unat (push_bit j (2 :: u16)) = (if j < 15 then 2 ^ Suc j else 0)"
proof -
  have eq: "unat (push_bit j (2 :: u16)) = 2 * 2 ^ j mod 65536"
    by (simp only: unsigned_push_bit_eq) (simp add: push_bit_eq_mult take_bit_eq_mod)
  show ?thesis
  proof (cases "j < 15")
    case True
    then have "(2::nat) ^ Suc j \<le> 2 ^ 15" by (intro power_increasing) auto
    with True eq show ?thesis by simp
  next
    case False
    then obtain i where "j = 15 + i" by (metis le_Suc_ex linorder_not_less)
    with eq show ?thesis by (simp add: power_add)
  qed
qed

lemma Get2PowerTightUpperBound_Some:
  assumes "num \<noteq> 0" and "unat num \<le> 32768"
  obtains k where "Get2PowerTightUpperBound num = Some (of_nat (2 ^ k))"
    and "1 \<le> k" and "k \<le> 15" and "unat num \<le> 2 ^ k" and "2 < (2::nat) ^ k \<Longrightarrow> 2 ^ k < 2 * unat num"
proof -
  let ?n = "unat num"
  have pos: "0 < ?n" using assms(1) by (simp add: unat_gt_0)
  obtain c where c: "bit_len ?n = Suc c" using pos by (simp add: bit_len.simps [of ?n])
  have lo: "2 ^ c \<le> ?n" using bit_len_le [OF pos] c by simp
  have hi: "?n < 2 ^ Suc c" using bit_len_less [of ?n] c by simp
  have c15: "c \<le> 15" using assms(2) bit_len_mono_bound [of ?n 16] c by simp
  define pr where "pr = (if c = 0 then 0 else push_bit (c - 1) (2 :: u16))"
  have loop: "pow2_loop num 0 2 = Some (pr, push_bit c 2)"
    using pow2_loop_eq [OF assms(1), of 0 2] by (simp add: Let_def pr_def c)
  have pr: "unat pr = (if c = 0 then 0 else 2 ^ c)"
    using c15 by (auto simp: pr_def unat_push_bit_2)
  show thesis
  proof (cases "num = pr")
    case True
    then have n: "?n = 2 ^ c" and c1: "1 \<le> c" using pr pos by (auto split: if_splits)
    have "Get2PowerTightUpperBound num = Some num"
      using assms(1) loop True by (simp add: Get2PowerTightUpperBound_def)
    moreover have "num = of_nat (2 ^ c)" using n by (rule word_eq_of_natI)
    ultimately have "Get2PowerTightUpperBound num = Some (of_nat (2 ^ c))" by simp
    then show thesis by (rule that) (use n c1 c15 in simp_all)
  next
    case False
    have c14: "c \<le> 14"
    proof (rule ccontr)
      assume "\<not> c \<le> 14"
      then have b: "c = 15" using c15 by simp
      then have "?n = 2 ^ 15" using lo assms(2) by simp
      then have "num = pr" using pr b by (simp add: word_unat_eq_iff)
      with False show False by simp
    qed
    then have "unat (push_bit c (2 :: u16)) = 2 ^ Suc c" by (simp add: unat_push_bit_2)
    then have "push_bit c (2 :: u16) = of_nat (2 ^ Suc c)" by (rule word_eq_of_natI)
    then have res: "Get2PowerTightUpperBound num = Some (of_nat (2 ^ Suc c))"
      using assms(1) loop False by (simp add: Get2PowerTightUpperBound_def)
    have tight: "2 ^ Suc c < 2 * ?n" if "2 < (2::nat) ^ Suc c"
    proof -
      from that have "c \<noteq> 0" by (cases c) auto
      then have "?n \<noteq> 2 ^ c" using False pr by (auto simp: word_unat_eq_iff)
      then show ?thesis using lo by simp
    qed
    show thesis by (rule that [OF res]) (use c14 hi tight in auto)
  qed
qed

text \<open>Beyond \<open>32768\<close> the shift leaves the 16 bits of \<open>curr\<close> and the bound is \<open>0\<close>.\<close>

lemma Get2PowerTightUpperBound_overflow:
  "32768 < unat num \<Longrightarrow> Get2PowerTightUpperBound num = Some 0"
proof -
  assume big: "32768 < unat num"
  have "bit_len (unat num) \<le> 16" using unat_u16_lt [of num] by (intro bit_len_mono_bound) simp
  moreover have "\<not> bit_len (unat num) \<le> 15"
  proof
    assume "bit_len (unat num) \<le> 15"
    then have "(2::nat) ^ bit_len (unat num) \<le> 2 ^ 15" by (intro power_increasing) auto
    with bit_len_less [of "unat num"] big show False by simp
  qed
  ultimately have b: "bit_len (unat num) = 16" by simp
  have nz: "num \<noteq> 0" using big by auto
  have c: "push_bit 15 (2 :: u16) = 0" using unat_push_bit_2 [of 15] by (simp add: unat_eq_zero)
  have "unat (push_bit 14 (2 :: u16)) = 32768" by (simp only: unat_push_bit_2) simp
  then have "num \<noteq> push_bit 14 2" using big by auto
  then show ?thesis
    using nz c pow2_loop_eq [OF nz, of 0 2] b by (simp add: Get2PowerTightUpperBound_def Let_def)
qed

subsection \<open>The dimensions of a table\<close>

text \<open>What a successful \<open>ipa_table_calculate_entries_num\<close> guarantees of the dimensions.\<close>

definition table_dims_ok :: "'e ipa_table \<Rightarrow> bool" where
  "table_dims_ok t \<longleftrightarrow>
     2 \<le> unat (table_entries t) \<and> unat (table_entries t) \<le> 4096 \<and>
     (\<exists>k. unat (table_entries t) = 2 ^ k) \<and>
     2 \<le> unat (expn_table_entries t) \<and> unat (expn_table_entries t) \<le> 4096 \<and>
     unat (tot_tbl_ents t) = unat (table_entries t) + unat (expn_table_entries t) \<and>
     unat (table_entries t) + unat (expn_table_entries t) \<le> IPA_TABLE_MAX_ENTRIES"

lemma unat_GetEven:
  "unat (GetEvenTightUpperBound num) = (if num = 0 then 2 else unat num + unat num mod 2)"
proof -
  have m: "(num mod 2 \<noteq> 0) = (unat num mod 2 = 1)"
    by (simp add: word_unat_eq_iff unat_mod)
  have "unat (ucast num + 1 :: u32) = unat num + 1"
    using unat_u16_lt [of num] by (simp add: unat_word_ariths)
  with m show ?thesis by (auto simp: GetEvenTightUpperBound_def)
qed

lemma Get2Power_small:
  assumes "unat num \<le> 32768"
  obtains k where "Get2PowerTightUpperBound num = Some (of_nat (2 ^ k))"
    and "1 \<le> k" and "k \<le> 15" and "unat num \<le> 2 ^ k" and "2 < (2::nat) ^ k \<Longrightarrow> 2 ^ k < 2 * unat num"
proof (cases "num = 0")
  case True
  then show thesis by (intro that [of 1]) (simp_all add: Get2PowerTightUpperBound_def)
next
  case False
  then show thesis using assms that by (rule Get2PowerTightUpperBound_Some)
qed

lemma pow2_le_max: "(2::nat) ^ k \<le> 5120 \<Longrightarrow> 2 ^ k \<le> (4096::nat)"
proof -
  assume a: "(2::nat) ^ k \<le> 5120"
  have "\<not> 13 \<le> k"
  proof
    assume "13 \<le> k"
    then have "(2::nat) ^ 13 \<le> 2 ^ k" by (intro power_increasing) auto
    with a show False by simp
  qed
  then have "k \<le> 12" by simp
  then have "(2::nat) ^ k \<le> 2 ^ 12" by (intro power_increasing) auto
  then show ?thesis by simp
qed

text \<open>
  The reference bounds: the least power of two that is at least \<open>2\<close> and \<open>n\<close>, and the least even
  number that is at least \<open>2\<close> and \<open>n\<close>.
\<close>

fun pow2_bound :: "nat \<Rightarrow> nat" where
  "pow2_bound n = (if n \<le> 2 then 2 else 2 * pow2_bound ((n + 1) div 2))"
declare pow2_bound.simps [simp del]

definition even_bound :: "nat \<Rightarrow> nat" where
  "even_bound n = (if n = 0 then 2 else n + n mod 2)"

lemma pow2_bound_props:
  "\<exists>k. 1 \<le> k \<and> pow2_bound n = 2 ^ k \<and> n \<le> 2 ^ k \<and> (2 < (2::nat) ^ k \<longrightarrow> 2 ^ k < 2 * n)"
proof (induction n rule: pow2_bound.induct)
  case (1 n)
  show ?case
  proof (cases "n \<le> 2")
    case True
    then show ?thesis by (intro exI [of _ 1]) (simp add: pow2_bound.simps [of n])
  next
    case False
    then obtain k where k: "1 \<le> k" "pow2_bound ((n + 1) div 2) = 2 ^ k" "(n + 1) div 2 \<le> 2 ^ k"
      "2 < (2::nat) ^ k \<longrightarrow> 2 ^ k < 2 * ((n + 1) div 2)" using 1 by blast
    have "2 ^ Suc k < 2 * n"
    proof (cases "2 < (2::nat) ^ k")
      case True
      moreover have "even ((2::nat) ^ k)" using k(1) by simp
      ultimately show ?thesis using k(4) by (simp, presburger)
    next
      case 2: False
      then have "(2::nat) ^ k = 2" using power_increasing [OF k(1), of "2::nat"] by simp
      then show ?thesis using False by simp
    qed
    then show ?thesis using False k
      by (intro exI [of _ "Suc k"]) (auto simp: pow2_bound.simps [of n])
  qed
qed

lemma pow2_unique:
  assumes "n \<le> (2::nat) ^ j" "2 < (2::nat) ^ k \<longrightarrow> 2 ^ k < 2 * n" "1 \<le> j"
  shows "k \<le> (j::nat)"
proof (rule ccontr)
  assume "\<not> k \<le> j"
  then have "(2::nat) ^ Suc j \<le> 2 ^ k" by (intro power_increasing) auto
  moreover have "2 \<le> (2::nat) ^ j" using power_increasing [OF assms(3), of "2::nat"] by simp
  ultimately show False using assms(1,2) by simp
qed

lemma Get2Power_pow2_bound:
  assumes "n \<le> 32768"
  shows "Get2PowerTightUpperBound (of_nat n) = Some (of_nat (pow2_bound n))" and "pow2_bound n \<le> 32768"
proof -
  have u: "unat (of_nat n :: u16) = n" using assms by (simp add: unat_of_nat_u16)
  then obtain k where k: "Get2PowerTightUpperBound (of_nat n) = Some (of_nat (2 ^ k))"
    "1 \<le> k" "k \<le> 15" "n \<le> 2 ^ k" "2 < (2::nat) ^ k \<longrightarrow> 2 ^ k < 2 * n"
    using Get2Power_small [of "of_nat n"] assms by auto
  obtain j where j: "1 \<le> j" "pow2_bound n = 2 ^ j" "n \<le> 2 ^ j" "2 < (2::nat) ^ j \<longrightarrow> 2 ^ j < 2 * n"
    using pow2_bound_props by blast
  have "j = k" using pow2_unique [OF j(3) k(5) j(1)] pow2_unique [OF k(4) j(4) k(2)] by simp
  then show "Get2PowerTightUpperBound (of_nat n) = Some (of_nat (pow2_bound n))" using k j by simp
  have "(2::nat) ^ k \<le> 2 ^ 15" using k(3) by (intro power_increasing) auto
  then show "pow2_bound n \<le> 32768" using j \<open>j = k\<close> by simp
qed

lemma even_bound_alt: "even_bound n = max 2 (2 * ((n + 1) div 2))"
  unfolding even_bound_def by (cases "n = 0") (simp, presburger)

lemma even_bound_le: "even_bound n \<le> n + 2"
  unfolding even_bound_def by auto

lemma even_bound_mono: "m \<le> n \<Longrightarrow> even_bound m \<le> even_bound n"
  unfolding even_bound_alt by (intro max.mono order_refl mult_le_mono2 div_le_mono) simp

lemma even_bound_ucast:
  assumes "n < 65535"
  shows "unat (ucast (GetEvenTightUpperBound (of_nat n)) :: u16) = even_bound n"
proof -
  have u: "unat (of_nat n :: u16) = n" using assms by (simp add: unat_of_nat_u16)
  have g: "unat (GetEvenTightUpperBound (of_nat n)) = even_bound n"
    unfolding unat_GetEven even_bound_def using u by (auto simp: word_unat_eq_iff)
  have "n mod 2 \<le> 1" by auto
  then have "even_bound n < 65536" using assms unfolding even_bound_def by auto
  then show ?thesis using g by (simp add: unsigned_ucast_eq take_bit_nat_eq_self)
qed

lemma pow2_bound_mono: "m \<le> n \<Longrightarrow> pow2_bound m \<le> pow2_bound n"
proof -
  assume mn: "m \<le> n"
  obtain j where j: "pow2_bound m = 2 ^ j" "2 < (2::nat) ^ j \<longrightarrow> 2 ^ j < 2 * m"
    using pow2_bound_props by blast
  obtain k where k: "1 \<le> k" "pow2_bound n = 2 ^ k" "n \<le> 2 ^ k" using pow2_bound_props by blast
  have "j \<le> k" using pow2_unique [of m k j] j(2) k(1,3) mn by simp
  then show ?thesis using j k by (simp add: power_increasing)
qed

text \<open>
  The two truncated products of a requested count, and the complete result of
  \<open>ipa_table_calculate_entries_num\<close> in terms of the reference bounds.
\<close>

definition base_share :: "ipa3_nat_mem_in \<Rightarrow> nat \<Rightarrow> nat" where
  "base_share m n = (if m = IPA_NAT_MEM_IN_SRAM then n else 4 * n div 5)"

definition expn_share :: "ipa3_nat_mem_in \<Rightarrow> nat \<Rightarrow> nat" where
  "expn_share m n = (if m = IPA_NAT_MEM_IN_SRAM then 43 * n div 100 else n div 5)"

lemma calculate_entries_num_eq:
  "ipa_table_calculate_entries_num t n m =
     Some (let te = pow2_bound (base_share m (unat n)); ee = even_bound (expn_share m (unat n));
               t1 = t\<lparr>tot_tbl_ents := of_nat (te + ee)\<rparr>
           in if 5120 < unat n then (- EINVAL, t)
              else if 5120 < te + ee then (- EINVAL, t1)
              else (0, t1\<lparr>table_entries := of_nat te, expn_table_entries := of_nat ee\<rparr>))"
proof (cases "5120 < unat n")
  case True
  then show ?thesis by (simp add: ipa_table_calculate_entries_num_def IPA_TABLE_MAX_ENTRIES_def)
next
  case False
  define bf where "bf = base_share m (unat n)"
  define ef where "ef = expn_share m (unat n)"
  let ?te = "of_nat (pow2_bound bf) :: u16" and ?ee = "ucast (GetEvenTightUpperBound (of_nat ef)) :: u16"
  have bounds: "bf \<le> 5120" "ef \<le> 5120" using False by (auto simp: bf_def ef_def base_share_def expn_share_def)
  have te: "Get2PowerTightUpperBound (of_nat bf) = Some ?te" "pow2_bound bf \<le> 32768"
    using Get2Power_pow2_bound [of bf] bounds by simp_all
  have ue: "unat ?ee = even_bound ef" using bounds by (intro even_bound_ucast) simp
  then have ee: "?ee = of_nat (even_bound ef)" by (rule word_eq_of_natI)
  have tot: "unat (ucast ?te + ucast ?ee :: u32) = pow2_bound bf + even_bound ef"
    using te(2) ue by (simp only: unat_add_ucast_u32) (simp add: unat_of_nat_u16)
  have "fp_scale_trunc 24 1 0 (unat n) = unat n" using False by (intro fp_scale_one) simp_all
  moreover have "f32_0_8 (unat n) = 4 * unat n div 5"
    "f32_0_43 (unat n) = 43 * unat n div 100" "f32_0_2 (unat n) = unat n div 5"
    using False by (simp_all add: fp_scale_simps)
  ultimately have scaled:
    "(if m = IPA_NAT_MEM_IN_SRAM then fp_scale_trunc 24 1 0 (unat n) else f32_0_8 (unat n)) = bf"
    "(if m = IPA_NAT_MEM_IN_SRAM then f32_0_43 (unat n) else f32_0_2 (unat n)) = ef"
    unfolding bf_def ef_def base_share_def expn_share_def by simp_all
  have lt: "(of_nat IPA_TABLE_MAX_ENTRIES < (ucast ?te + ucast ?ee :: u32))
             = (5120 < pow2_bound bf + even_bound ef)"
    using tot by (simp add: word_less_nat_alt IPA_TABLE_MAX_ENTRIES_def)
  have "ipa_table_calculate_entries_num t n m =
      Some (if 5120 < pow2_bound bf + even_bound ef then (- EINVAL, t\<lparr>tot_tbl_ents := ucast ?te + ucast ?ee\<rparr>)
            else (0, t\<lparr>tot_tbl_ents := ucast ?te + ucast ?ee, table_entries := ?te, expn_table_entries := ?ee\<rparr>))"
    unfolding ipa_table_calculate_entries_num_def Let_def scaled te(1)
    using False lt by (simp add: IPA_TABLE_MAX_ENTRIES_def)
  moreover have "ucast ?te + ucast ?ee = (of_nat (pow2_bound bf + even_bound ef) :: u32)"
    using tot by (rule word_eq_of_natI)
  ultimately have "ipa_table_calculate_entries_num t n m =
      Some (if 5120 < pow2_bound bf + even_bound ef
            then (- EINVAL, t\<lparr>tot_tbl_ents := of_nat (pow2_bound bf + even_bound ef)\<rparr>)
            else (0, t\<lparr>tot_tbl_ents := of_nat (pow2_bound bf + even_bound ef), table_entries := ?te,
                       expn_table_entries := of_nat (even_bound ef)\<rparr>))"
    by (simp only: ee)
  then show ?thesis using False by (simp only: bf_def [symmetric] ef_def [symmetric] Let_def if_False)
qed

text \<open>A successful computation gives good dimensions and (almost) the requested capacity.\<close>

lemma dims_okI:
  assumes "te = pow2_bound b" and "ee = even_bound e" and "e \<le> 4094" and "te + ee \<le> 5120"
    and "unat (table_entries t) = te" and "unat (expn_table_entries t) = ee"
    and "unat (tot_tbl_ents t) = te + ee"
  shows "table_dims_ok t"
proof -
  obtain k where k: "te = 2 ^ k" "2 \<le> te"
    using pow2_bound_props [of b] power_increasing [of 1 _ "2::nat"] assms(1) by fastforce
  then have "te \<le> 4096" using assms(4) pow2_le_max [of k] by simp
  moreover have "2 \<le> ee" "ee \<le> 4096"
    using assms(2,3) even_bound_le [of e] by (auto simp: even_bound_alt)
  moreover have "\<exists>k. unat (table_entries t) = 2 ^ k" using k(1) assms(5) by metis
  ultimately show ?thesis using assms k(2) by (simp add: table_dims_ok_def IPA_TABLE_MAX_ENTRIES_def)
qed

lemma pow2_bound_ge: "n \<le> pow2_bound n"
  using pow2_bound_props [of n] by auto

lemma even_bound_ge: "n \<le> even_bound n"
  by (simp add: even_bound_def)

lemma calculate_entries_num_ok:
  assumes "ipa_table_calculate_entries_num t n m = Some (0, t')"
  shows "table_dims_ok t'" and "nmi t' = nmi t" and "entry_size t' = entry_size t"
    and "unat n \<le> unat (tot_tbl_ents t') + 1"
    and "m = IPA_NAT_MEM_IN_SRAM \<Longrightarrow> unat n \<le> unat (table_entries t')"
    and "unat (table_entries t') = pow2_bound (base_share m (unat n))"
    and "unat (expn_table_entries t') = even_bound (expn_share m (unat n))"
proof -
  let ?te = "pow2_bound (base_share m (unat n))" and ?ee = "even_bound (expn_share m (unat n))"
  have n: "unat n \<le> 5120" and fits: "?te + ?ee \<le> 5120"
    and t': "t' = t\<lparr>tot_tbl_ents := of_nat (?te + ?ee), table_entries := of_nat ?te,
                    expn_table_entries := of_nat ?ee\<rparr>"
    using assms by (auto simp: calculate_entries_num_eq Let_def errno_defs split: if_splits)
  have u: "unat (table_entries t') = ?te" "unat (expn_table_entries t') = ?ee"
    using fits by (simp_all add: t' unat_of_nat_u16)
  have v: "unat (tot_tbl_ents t') = ?te + ?ee"
    using fits by (simp add: t' unat_of_nat take_bit_nat_eq_self del: of_nat_add)
  show "unat (table_entries t') = ?te" "unat (expn_table_entries t') = ?ee" by fact+
  show "table_dims_ok t'"
    by (rule dims_okI [OF refl refl _ fits u v]) (use n in \<open>auto simp: expn_share_def\<close>)
  show "nmi t' = nmi t" "entry_size t' = entry_size t" by (simp_all add: t')
  show "unat n \<le> unat (tot_tbl_ents t') + 1"
    using v pow2_bound_ge [of "base_share m (unat n)"] even_bound_ge [of "expn_share m (unat n)"]
    by (auto simp: base_share_def expn_share_def split: if_splits)
  show "m = IPA_NAT_MEM_IN_SRAM \<Longrightarrow> unat n \<le> unat (table_entries t')"
    using u(1) pow2_bound_ge [of "unat n"] by (simp add: base_share_def)
qed

subsection \<open>Rule handles\<close>

text \<open>The bits of a handle, independent of the table: index, area and memory type.\<close>

definition hdl_bits :: "u16 \<Rightarrow> bool \<Rightarrow> bool \<Rightarrow> u16" where
  "hdl_bits i b m = (push_bit 1 i OR of_bool b) OR push_bit 15 (of_bool m)"

lemma unat_hdl_bits:
  assumes "unat i < 4096"
  shows "unat (hdl_bits i b m) = 2 * unat i + of_bool b + 32768 * of_bool m"
proof -
  have t: "take_bit 12 i = i"
    using assms by (simp add: word_unat_eq_iff unsigned_take_bit_eq take_bit_nat_eq_self)
  have lt: "n < 12" if "bit i n" for n using t that by (metis bit_take_bit_iff)
  have lt': "n < 15" if "bit (push_bit 1 i) n" for n
    using that unfolding bit_push_bit_iff by (auto dest: lt)
  have "push_bit 1 i AND of_bool b = (0 :: u16)"
    by (rule bit_word_eqI) (auto simp: bit_simps bit_0)
  then have 1: "push_bit 1 i OR of_bool b = push_bit 1 i + (of_bool b :: u16)"
    by (simp add: disjunctive_add_eq_or)
  have "(push_bit 1 i OR of_bool b) AND push_bit 15 (of_bool m) = (0 :: u16)"
    using lt' by (intro bit_word_eqI) (fastforce simp: bit_simps)
  then have 2: "hdl_bits i b m = (push_bit 1 i OR of_bool b) + push_bit 15 (of_bool m)"
    by (simp add: disjunctive_add_eq_or hdl_bits_def)
  have p: "unat (push_bit 1 i) = 2 * unat i"
    using assms by (simp add: push_bit_eq_mult unat_word_ariths)
  have q: "unat (push_bit 15 (of_bool m) :: u16) = 32768 * of_bool m"
    by (cases m) (simp_all add: push_bit_eq_mult)
  show ?thesis
    unfolding 2 1 using assms p q by (cases b; cases m) (simp_all add: unat_word_ariths)
qed

lemma unat_and_mask: "unat (x AND (0xFFF :: u32)) = unat x mod 4096"
proof -
  have m: "(0xFFF :: u32) = mask 12" by (simp add: mask_eq_exp_minus_1)
  show ?thesis unfolding m by (simp only: take_bit_eq_mask [symmetric] unsigned_take_bit_eq) (simp add: take_bit_eq_mod)
qed
lemma unat_and_1: "unat (x AND (1 :: u32)) = unat x mod 2"
proof -
  have m: "(1 :: u32) = mask 1" by (simp add: mask_eq_exp_minus_1)
  show ?thesis unfolding m by (simp only: take_bit_eq_mask [symmetric] unsigned_take_bit_eq) (simp add: take_bit_eq_mod)
qed

lemma BREAK_hdl_bits:
  assumes "unat i < 4096"
  shows "BREAK_RULE_HDL tbl (ucast (hdl_bits i b m)) =
           (if m then IPA_NAT_MEM_IN_SRAM else IPA_NAT_MEM_IN_DDR, b,
            i + (if b then table_entries tbl else 0))"
proof -
  let ?h = "ucast (hdl_bits i b m) :: u32"
  have u: "unat ?h = 2 * unat i + of_bool b + 32768 * of_bool m"
    using unat_hdl_bits [OF assms] by simp
  have "unat (drop_bit 15 ?h AND 1) = of_bool m"
    using assms by (simp only: unat_and_1 unat_drop_bit_eq u) (cases b; cases m; simp add: drop_bit_eq_div)
  then have 1: "drop_bit 15 ?h AND 1 = of_bool m" by (cases m) (simp_all add: word_unat_eq_iff)
  have "unat (?h AND 1) = of_bool b"
    by (simp only: unat_and_1 u) (cases b; cases m; simp; presburger)
  then have 2: "?h AND 1 = of_bool b" by (cases b) (simp_all add: word_unat_eq_iff)
  have hi: "(unat i + 16384) mod 4096 = unat i"
    using mod_mult_self1 [of "unat i" 4 4096] assms by simp
  have "unat (drop_bit 1 ?h AND 0xFFF) = unat i"
    using assms by (simp only: unat_and_mask unat_drop_bit_eq u) (cases b; cases m; simp add: drop_bit_eq_div hi)
  then have "unat (ucast (drop_bit 1 ?h AND 0xFFF) :: u16) = unat i"
    using assms by (simp add: unsigned_ucast_eq take_bit_nat_eq_self)
  then have 3: "(ucast (drop_bit 1 ?h AND 0xFFF) :: u16) = i" by (simp only: word_unat_eq_iff)
  show ?thesis unfolding BREAK_RULE_HDL_def Let_def 1 2 3 by (cases m; cases b) (simp_all add: nmi_of_def)
qed

lemma MakeEntryHdl_bits:
  assumes "nmi t \<noteq> IPA_NAT_MEM_IN_MAX"
  shows "MakeEntryHdl t i = hdl_bits (if table_entries t \<le> i then i - table_entries t else i)
     (table_entries t \<le> i) (nmi t = IPA_NAT_MEM_IN_SRAM)"
  using assms by (cases "nmi t") (auto simp: MakeEntryHdl_def hdl_bits_def Let_def)

lemma make_break_hdl:
  assumes d: "table_dims_ok t" and m: "nmi t \<noteq> IPA_NAT_MEM_IN_MAX"
    and i: "unat i < unat (tot_tbl_ents t)"
  shows "BREAK_RULE_HDL t (ucast (MakeEntryHdl t i)) = (nmi t, table_entries t \<le> i, i)"
proof -
  let ?j = "if table_entries t \<le> i then i - table_entries t else i"
  have "unat ?j < 4096"
    using d i by (auto simp: table_dims_ok_def unat_sub word_le_nat_alt)
  from BREAK_hdl_bits [OF this, of t "table_entries t \<le> i" "nmi t = IPA_NAT_MEM_IN_SRAM"]
  show ?thesis using m unfolding MakeEntryHdl_bits [OF m] by (cases "nmi t") auto
qed

subsection \<open>Sizing the SRAM tables\<close>

text \<open>The bytes of a pair of tables of \<open>n\<close> entries, and of the candidate of one loop step.\<close>

definition sram_pair_size :: "nat \<Rightarrow> nat \<Rightarrow> nat \<Rightarrow> nat" where
  "sram_pair_size sz1 sz2 n = (sz1 + sz2) * (pow2_bound n + even_bound (43 * n div 100))"

lemma of_nat_unat_u16: "of_nat (unat (x :: u16)) = x"
  by simp

definition sram_step_size :: "nat \<Rightarrow> nat \<Rightarrow> u16 \<Rightarrow> nat" where
  "sram_step_size sz1 sz2 tot = (sz1 + sz2) *
     ((if unat tot \<le> 32768 then pow2_bound (unat tot) else 0) + even_bound (43 * unat tot div 100))"

text \<open>The sizes of the records are small enough when no candidate's size overflows the \<open>int\<close> it is computed in.\<close>

definition sizes_small :: "u32 \<Rightarrow> u32 \<Rightarrow> bool" where
  "sizes_small sz1 sz2 \<longleftrightarrow> (unat sz1 + unat sz2) * 65536 < 2 ^ 31"

lemma sram_sum_small:
  assumes "sizes_small sz1 sz2" and "p \<le> 32768" and "q \<le> 32768"
  shows "unat (of_nat (unat sz1 * (p + q)) + of_nat (unat sz2 * (p + q)) :: u32) = (unat sz1 + unat sz2) * (p + q)"
proof -
  have "(unat sz1 + unat sz2) * (p + q) \<le> (unat sz1 + unat sz2) * 65536" using assms(2,3) by (intro mult_le_mono2) simp
  then have "(unat sz1 + unat sz2) * (p + q) < 2 ^ 32" using assms(1) by (simp add: sizes_small_def)
  then show ?thesis unfolding of_nat_add [symmetric] add_mult_distrib [symmetric]
    by (simp only: unat_of_nat) (simp add: take_bit_nat_eq_self)
qed

lemma sram_loop_body:
  assumes small: "sizes_small sz1 sz2"
  shows "do {
     te \<leftarrow> Get2PowerTightUpperBound (of_nat (fp_scale_trunc 53 1 0 (unat tot)));
     let ete = (ucast (GetEvenTightUpperBound (of_nat (f64_0_43 (unat tot)))) :: u16);
     let nat_table = (ipa_table_init n1 IPA_NAT_MEM_IN_DDR (unat sz1) None 0 :: unit ipa_table)
           \<lparr>table_entries := te, expn_table_entries := ete\<rparr>;
     let index_table = (ipa_table_init n2 IPA_NAT_MEM_IN_DDR (unat sz2) None 0 :: unit ipa_table)
           \<lparr>table_entries := te, expn_table_entries := ete\<rparr>;
     let size = (of_nat (ipa_table_calculate_size nat_table) :: u32);
     let size = size + of_nat (ipa_table_calculate_size index_table);
     if S < size then Some best else k
   } = (if unat S < sram_step_size (unat sz1) (unat sz2) tot then Some best else k)"
proof -
  let ?n = "unat tot"
  have n: "?n < 65536" by (rule unat_u16_lt)
  have 1: "fp_scale_trunc 53 1 0 ?n = ?n" using n by (intro fp_scale_one) simp_all
  have 2: "f64_0_43 ?n = 43 * ?n div 100" using n by (simp add: fp_scale_simps)
  let ?p = "if ?n \<le> 32768 then pow2_bound ?n else 0"
  let ?q = "even_bound (43 * ?n div 100)"
  have 3: "Get2PowerTightUpperBound tot = Some (of_nat ?p)"
    using Get2Power_pow2_bound(1) [of ?n] Get2PowerTightUpperBound_overflow [of tot] by auto
  have p: "?p \<le> 32768" using Get2Power_pow2_bound(2) [of ?n] by auto
  have q: "?q \<le> 32768" using even_bound_le [of "43 * ?n div 100"] n by simp
  have 4: "unat (of_nat ?p :: u16) = ?p" using p by (intro unat_of_nat_u16) auto
  have 5: "unat (ucast (GetEvenTightUpperBound (of_nat (43 * ?n div 100))) :: u16) = ?q"
    using n by (intro even_bound_ucast) simp
  note 6 = sram_sum_small [OF small p q]
  show ?thesis
    by (simp only: 1 2 of_nat_unat_u16 3 bind.bind_lunit Let_def ipa_table_calculate_size_def
        ipa_table_init_def ipa_table.simps 4 5 sram_step_size_def word_less_nat_alt 6)
qed

lemma sram_entries_loop_unfold:
  assumes "sizes_small sz1 sz2"
  shows "sram_entries_loop S sz1 sz2 tot best =
    (if unat S < sram_step_size (unat sz1) (unat sz2) tot then Some best else sram_entries_loop S sz1 sz2 (tot + 1) tot)"
  by (subst sram_entries_loop.simps) (rule sram_loop_body [OF assms])

lemma sram_pair_size_mono: "m \<le> n \<Longrightarrow> sram_pair_size sz1 sz2 m \<le> sram_pair_size sz1 sz2 n"
  unfolding sram_pair_size_def
  by (intro mult_le_mono2 add_mono pow2_bound_mono even_bound_mono div_le_mono) simp

lemma sram_loop_result:
  assumes small: "sizes_small sz1 sz2"
    and "unat S < sram_pair_size (unat sz1) (unat sz2) 32768" and "tot \<le> 32768" and "0 < tot"
  shows "\<exists>r. sram_entries_loop S sz1 sz2 (of_nat tot) (of_nat (tot - 1)) = Some (of_nat r) \<and>
           tot - 1 \<le> r \<and> r < 32768 \<and> (tot \<le> r \<longrightarrow> sram_pair_size (unat sz1) (unat sz2) r \<le> unat S) \<and>
           unat S < sram_pair_size (unat sz1) (unat sz2) (Suc r)"
  using assms(3,4)
proof (induction "32768 - tot" arbitrary: tot)
  case 0
  then have "tot = 32768" by simp
  then show ?case using assms(2)
    by (intro exI [of _ 32767], subst sram_entries_loop_unfold [OF small])
      (simp add: sram_step_size_def sram_pair_size_def)
next
  case (Suc d)
  let ?size = "sram_pair_size (unat sz1) (unat sz2)"
  have u: "unat (of_nat tot :: u16) = tot" using Suc.prems by (simp add: unat_of_nat_u16)
  have sz: "sram_step_size (unat sz1) (unat sz2) (of_nat tot) = ?size tot"
    using Suc.prems by (simp add: sram_step_size_def sram_pair_size_def u)
  have nx: "(of_nat tot + 1 :: u16) = of_nat (Suc tot)" by simp
  show ?case
  proof (cases "unat S < ?size tot")
    case True
    then show ?thesis using Suc.prems sz
      by (intro exI [of _ "tot - 1"], subst sram_entries_loop_unfold [OF small]) auto
  next
    case False
    have "d = 32768 - Suc tot" "Suc tot \<le> 32768" using Suc.hyps(2) by auto
    from Suc.hyps(1) [OF this] obtain r where r:
      "sram_entries_loop S sz1 sz2 (of_nat (Suc tot)) (of_nat tot) = Some (of_nat r)"
      "tot \<le> r" "r < 32768" "Suc tot \<le> r \<longrightarrow> ?size r \<le> unat S" "unat S < ?size (Suc r)" by auto
    have "sram_entries_loop S sz1 sz2 (of_nat tot) (of_nat (tot - 1)) = Some (of_nat r)"
      using False r(1) sz nx by (subst sram_entries_loop_unfold [OF small]) (simp add: add.commute)
    moreover have "?size r \<le> unat S" using r(2,4) False by (cases "r = tot") auto
    ultimately show ?thesis using r by (intro exI [of _ r]) auto
  qed
qed

lemma calc_num_sram_result:
  assumes small: "sizes_small sz1 sz2" and "unat S < sram_pair_size (unat sz1) (unat sz2) 32768"
  obtains n where "ipa_calc_num_sram_table_entries S sz1 sz2 = Some (if n = 0 then - 1 else 0, of_nat n)"
    and "n < 32768" and "n = 0 \<or> sram_pair_size (unat sz1) (unat sz2) n \<le> unat S"
    and "unat S < sram_pair_size (unat sz1) (unat sz2) (Suc n)"
proof -
  obtain r where r: "sram_entries_loop S sz1 sz2 1 0 = Some (of_nat r)" "r < 32768"
    "1 \<le> r \<longrightarrow> sram_pair_size (unat sz1) (unat sz2) r \<le> unat S" "unat S < sram_pair_size (unat sz1) (unat sz2) (Suc r)"
    using sram_loop_result [OF assms, of 1] by auto
  have "((of_nat r :: u16) \<noteq> 0) = (r \<noteq> 0)"
    using r(2) by (simp add: word_unat_eq_iff unat_of_nat_u16)
  then show thesis using r by (intro that [of r]) (auto simp: ipa_calc_num_sram_table_entries_def)
qed

lemma sram_step_size_le: "sram_step_size sz1 sz2 tot \<le> sram_pair_size sz1 sz2 32768"
proof (cases "unat tot \<le> 32768")
  case True
  then show ?thesis using sram_pair_size_mono [OF True, of sz1 sz2]
    by (simp add: sram_step_size_def sram_pair_size_def)
next
  case False
  have "even_bound (43 * unat tot div 100) \<le> 32768"
    using even_bound_le [of "43 * unat tot div 100"] unat_u16_lt [of tot] by simp
  also have "\<dots> \<le> pow2_bound 32768" using pow2_bound_props [of 32768] by auto
  finally show ?thesis using False
    by (simp add: sram_step_size_def sram_pair_size_def trans_le_add1)
qed

lemma sram_loop_diverges:
  assumes small: "sizes_small sz1 sz2" and big: "sram_pair_size (unat sz1) (unat sz2) 32768 \<le> unat S"
  shows "sram_entries_loop S sz1 sz2 tot best = None"
proof -
  have step: "\<not> unat S < sram_step_size (unat sz1) (unat sz2) t" for t
    using sram_step_size_le [of "unat sz1" "unat sz2" t] big by simp
  let ?P = "\<lambda>S' s1 s2 t b r. \<not> (S' = S \<and> s1 = sz1 \<and> s2 = sz2)"
  have "?P S sz1 sz2 tot best r" if "sram_entries_loop S sz1 sz2 tot best = Some r" for r
  proof (rule sram_entries_loop.raw_induct [of ?P, OF _ that], safe)
    fix f :: "u32 \<Rightarrow> u32 \<Rightarrow> u32 \<Rightarrow> u16 \<Rightarrow> u16 \<Rightarrow> u16 option" and t b y :: u16
    assume 1: "\<And>a b c d e y. f a b c d e = Some y \<Longrightarrow> \<not> (a = S \<and> b = sz1 \<and> c = sz2)"
      and 2: "(do {
         te \<leftarrow> Get2PowerTightUpperBound (of_nat (fp_scale_trunc 53 1 0 (unat t)));
         let ete = (ucast (GetEvenTightUpperBound (of_nat (f64_0_43 (unat t)))) :: u16);
         let nat_table = (ipa_table_init ''tmp_sram_table1'' IPA_NAT_MEM_IN_DDR (unat sz1) None 0 :: unit ipa_table)
               \<lparr>table_entries := te, expn_table_entries := ete\<rparr>;
         let index_table = (ipa_table_init ''tmp_sram_table1'' IPA_NAT_MEM_IN_DDR (unat sz2) None 0 :: unit ipa_table)
               \<lparr>table_entries := te, expn_table_entries := ete\<rparr>;
         let size = (of_nat (ipa_table_calculate_size nat_table) :: u32);
         let size = size + of_nat (ipa_table_calculate_size index_table);
         if S < size then Some b else f S sz1 sz2 (t + 1) t
       }) = Some y"
    show False using 1 [of S sz1 sz2 "t + 1" t] 2 [unfolded sram_loop_body [OF small]] step by auto
  qed
  then show ?thesis by (cases "sram_entries_loop S sz1 sz2 tot best") auto
qed

subsection \<open>Properties\<close>

text \<open>
  C32. \<open>ipa_table_calculate_entries_num\<close> always returns. On success the base area is a power of two
  between 2 and 4096, both areas are non-empty, their sum is the stored total and at most
  \<open>IPA_TABLE_MAX_ENTRIES\<close>, and at least all but one of the requested entries have a record (in SRAM all of
  them have one in the base area); on failure the code is \<open>- EINVAL\<close> and the two area sizes are kept.
\<close>

theorem calculate_entries_num_spec:
  "\<exists>ret t'. ipa_table_calculate_entries_num t n m = Some (ret, t') \<and>
     (ret = 0 \<longrightarrow> table_dims_ok t' \<and> unat n \<le> unat (tot_tbl_ents t') + 1 \<and>
        (m = IPA_NAT_MEM_IN_SRAM \<longrightarrow> unat n \<le> unat (table_entries t'))) \<and>
     (ret \<noteq> 0 \<longrightarrow> ret = - EINVAL \<and> table_entries t' = table_entries t \<and>
        expn_table_entries t' = expn_table_entries t)"
proof -
  obtain ret t' where r: "ipa_table_calculate_entries_num t n m = Some (ret, t')"
    using calculate_entries_num_eq [of t n m] by (metis surj_pair)
  moreover have "ret = - EINVAL \<and> table_entries t' = table_entries t \<and> expn_table_entries t' = expn_table_entries t"
    if "ret \<noteq> 0" using r that by (auto simp: calculate_entries_num_eq Let_def split: if_splits)
  ultimately show ?thesis using calculate_entries_num_ok(1,4,5) [of t n m t']
    by (intro exI [of _ ret] exI [of _ t']) auto
qed

lemma calculate_entries_num_100:
  "ipa_table_calculate_entries_num (ipa_table_init ''t'' IPA_NAT_MEM_IN_DDR 32 None 0 :: unit ipa_table) 100 IPA_NAT_MEM_IN_DDR
   = Some (0, (ipa_table_init ''t'' IPA_NAT_MEM_IN_DDR 32 None 0)\<lparr>tot_tbl_ents := 148, table_entries := 128, expn_table_entries := 20\<rparr>)"
  by (simp add: calculate_entries_num_eq Let_def base_share_def expn_share_def even_bound_def pow2_bound.simps)

theorem calculate_entries_num_spec_witness:
  "\<exists>t'. ipa_table_calculate_entries_num (ipa_table_init ''t'' IPA_NAT_MEM_IN_DDR 32 None 0 :: unit ipa_table) 100 IPA_NAT_MEM_IN_DDR
        = Some (0, t') \<and> table_dims_ok t'"
  using calculate_entries_num_spec [of "ipa_table_init ''t'' IPA_NAT_MEM_IN_DDR 32 None 0 :: unit ipa_table" 100 IPA_NAT_MEM_IN_DDR]
  unfolding calculate_entries_num_100 by auto

text \<open>
  C33. The handle of every record of a table leads back to the record: \<open>ipa_table_get_entry\<close> applied to the
  handle that \<open>MakeEntryHdl\<close> made for the index returns the index, and the handle also carries the
  memory the table lies in and the area the record is in.
\<close>

theorem rule_handle_roundtrip:
  assumes "table_dims_ok t" and "nmi t \<noteq> IPA_NAT_MEM_IN_MAX" and "unat i < unat (tot_tbl_ents t)"
  shows "ipa_table_get_entry t (ucast (MakeEntryHdl t i)) = (0, Some i, i) \<and>
    BREAK_RULE_HDL t (ucast (MakeEntryHdl t i)) = (nmi t, table_entries t \<le> i, i)"
  using make_break_hdl [OF assms] assms(3) by (simp add: ipa_table_get_entry_def word_le_nat_alt)

definition handle_example :: "unit ipa_table" where
  "handle_example = (ipa_table_init ''t'' IPA_NAT_MEM_IN_SRAM 32 None 0)
     \<lparr>table_entries := 4, expn_table_entries := 2, tot_tbl_ents := 6\<rparr>"

lemma handle_example_dims: "table_dims_ok handle_example" "nmi handle_example \<noteq> IPA_NAT_MEM_IN_MAX"
  "unat (5 :: u16) < unat (tot_tbl_ents handle_example)"
proof -
  have "\<exists>k. unat (table_entries handle_example) = 2 ^ k"
    by (rule exI [of _ 2]) (simp add: handle_example_def)
  then show "table_dims_ok handle_example"
    by (simp add: table_dims_ok_def handle_example_def IPA_TABLE_MAX_ENTRIES_def ipa_table_init_def)
qed (simp_all add: handle_example_def ipa_table_init_def)

theorem rule_handle_roundtrip_witness:
  "ipa_table_get_entry handle_example (ucast (MakeEntryHdl handle_example 5)) = (0, Some 5, 5) \<and>
   fst (BREAK_RULE_HDL handle_example (ucast (MakeEntryHdl handle_example 5))) = IPA_NAT_MEM_IN_SRAM"
  using rule_handle_roundtrip [OF handle_example_dims] by (simp add: handle_example_def ipa_table_init_def)

text \<open>
  C34. For records so small that no size overflows a C \<open>int\<close>, \<open>ipa_calc_num_sram_table_entries\<close> returns exactly when
  the memory is smaller than the largest pair of tables its 16-bit candidate can reach. It then gives the
  largest number of entries whose two tables fit: that number fits, one more does not, and the code is \<open>0\<close> exactly
  when the number is not zero. In a larger memory the candidate wraps around and the loop never ends.
\<close>

theorem calc_num_sram_maximal:
  assumes "sizes_small sz1 sz2"
  shows "if unat sram < sram_pair_size (unat sz1) (unat sz2) 32768
     then \<exists>n. ipa_calc_num_sram_table_entries sram sz1 sz2 = Some (if n = 0 then - 1 else 0, of_nat n) \<and>
       n < 32768 \<and> (n = 0 \<or> sram_pair_size (unat sz1) (unat sz2) n \<le> unat sram) \<and>
       unat sram < sram_pair_size (unat sz1) (unat sz2) (Suc n)
     else ipa_calc_num_sram_table_entries sram sz1 sz2 = None"
proof (cases "unat sram < sram_pair_size (unat sz1) (unat sz2) 32768")
  case True
  from calc_num_sram_result [OF assms this] show ?thesis using True by metis
next
  case False
  then show ?thesis using sram_loop_diverges [OF assms, of sram] by (simp add: ipa_calc_num_sram_table_entries_def)
qed

theorem calc_num_sram_maximal_witness:
  "(\<exists>n. ipa_calc_num_sram_table_entries 20000 32 4 = Some (if n = 0 then - 1 else 0, of_nat n) \<and>
      n < 32768 \<and> (n = 0 \<or> sram_pair_size 32 4 n \<le> 20000) \<and> 20000 < sram_pair_size 32 4 (Suc n)) \<and>
   ipa_calc_num_sram_table_entries 2000000 32 4 = None"
  using calc_num_sram_maximal [of 32 4 20000] calc_num_sram_maximal [of 32 4 2000000]
  by (simp add: sizes_small_def sram_pair_size_def pow2_bound.simps even_bound_def)

text \<open>
  The tables created for the computed number of entries fit into the SRAM: \<open>ipa_nati_create_table\<close> sizes
  them in single precision, the search in double precision, and both give the same areas.
\<close>

theorem sram_tables_fit:
  assumes "sizes_small sz1 sz2" and "unat sram < sram_pair_size (unat sz1) (unat sz2) 32768"
    and "ipa_calc_num_sram_table_entries sram sz1 sz2 = Some (0, n)"
    and "ipa_table_calculate_entries_num t n IPA_NAT_MEM_IN_SRAM = Some (0, t')" and "entry_size t' = unat sz1"
  shows "ipa_table_calculate_size t' + ipa_table_calculate_size (t'\<lparr>entry_size := unat sz2\<rparr>) \<le> unat sram"
proof -
  obtain k where k: "ipa_calc_num_sram_table_entries sram sz1 sz2 = Some (if k = 0 then - 1 else 0, of_nat k)"
    "k < 32768" "k = 0 \<or> sram_pair_size (unat sz1) (unat sz2) k \<le> unat sram"
    using calc_num_sram_result [OF assms(1,2)] by metis
  then have n: "n = of_nat k" "k \<noteq> 0" using assms(3) by (auto split: if_splits)
  then have "unat n = k" using k(2) by (simp add: unat_of_nat_u16)
  then have "unat (table_entries t') + unat (expn_table_entries t') = pow2_bound k + even_bound (43 * k div 100)"
    using calculate_entries_num_ok(6,7) [OF assms(4)] by (simp add: base_share_def expn_share_def)
  then show ?thesis using k(3) n(2) assms(5)
    by (simp add: ipa_table_calculate_size_def sram_pair_size_def add_mult_distrib)
qed

lemma calc_sram_20000: "ipa_calc_num_sram_table_entries 20000 32 4 = Some (0, 256)"
proof -
  have v: "sram_pair_size 32 4 256 \<le> 20000" "20000 < sram_pair_size 32 4 257" "20000 < sram_pair_size 32 4 32768"
    by (simp_all add: sram_pair_size_def pow2_bound.simps even_bound_def)
  have s: "sizes_small 32 4" by (simp add: sizes_small_def)
  from calc_num_sram_result [OF s, of 20000] v(3) obtain k where
    k: "ipa_calc_num_sram_table_entries 20000 32 4 = Some (if k = 0 then - 1 else 0, of_nat k)"
    "k = 0 \<or> sram_pair_size 32 4 k \<le> 20000" "20000 < sram_pair_size 32 4 (Suc k)" by auto
  have "256 < Suc k" using k(3) v(1) sram_pair_size_mono [of "Suc k" 256 32 4] by linarith
  moreover have "k < 257" using k(2) v(2) sram_pair_size_mono [of 257 k 32 4] by linarith
  ultimately have "k = 256" by simp
  then show ?thesis using k(1) by simp
qed

lemma sample_entries_num:
  "ipa_table_calculate_entries_num (t :: 'e ipa_table) 100 IPA_NAT_MEM_IN_DDR
   = Some (0, t\<lparr>tot_tbl_ents := 148, table_entries := 128, expn_table_entries := 20\<rparr>)"
  by (simp add: calculate_entries_num_eq Let_def base_share_def expn_share_def even_bound_def pow2_bound.simps)

lemma calculate_entries_num_sram_256:
  "ipa_table_calculate_entries_num (ipa_table_init ''t'' IPA_NAT_MEM_IN_SRAM 32 None 0 :: unit ipa_table) 256 IPA_NAT_MEM_IN_SRAM
   = Some (0, (ipa_table_init ''t'' IPA_NAT_MEM_IN_SRAM 32 None 0)\<lparr>tot_tbl_ents := 366, table_entries := 256, expn_table_entries := 110\<rparr>)"
  by (simp add: calculate_entries_num_eq Let_def base_share_def expn_share_def even_bound_def pow2_bound.simps)

theorem sram_tables_fit_witness:
  "let t' = (ipa_table_init ''t'' IPA_NAT_MEM_IN_SRAM 32 None 0 :: unit ipa_table)
       \<lparr>tot_tbl_ents := 366, table_entries := 256, expn_table_entries := 110\<rparr>
   in ipa_table_calculate_size t' + ipa_table_calculate_size (t'\<lparr>entry_size := 4\<rparr>) \<le> 20000"
proof -
  have "sizes_small 32 4" "unat (20000 :: u32) < sram_pair_size (unat (32 :: u32)) (unat (4 :: u32)) 32768"
    by (simp_all add: sizes_small_def sram_pair_size_def pow2_bound.simps even_bound_def)
  note fit = sram_tables_fit [OF this calc_sram_20000 calculate_entries_num_sram_256]
  then show ?thesis by (simp add: Let_def ipa_table_init_def)
qed

end
