(* ===== verification/Chains.thy ===== *)
theory Chains
  imports Main
begin

section \<open>Collision chain_rep\<close>

text \<open>
  The doubly linked collision chains of a table, independent of how records are stored: the three
  functions \<open>vd\<close> (record in use), \<open>nx\<close> (next index) and \<open>pv\<close> (previous index) of the record
  indices, the index \<open>0\<close> standing for none. The abstract value of a table is the function \<open>cs\<close> that
  gives the list of record indices of each bucket; \<open>chain_rep\<close> relates the two. The lemmas are the four
  pointer updates that the table code performs.
\<close>

text \<open>A segment \<open>xs\<close> linked from the predecessor \<open>p\<close> of its first to the successor \<open>n\<close> of its last.\<close>

fun seg :: "(nat \<Rightarrow> nat) \<Rightarrow> (nat \<Rightarrow> nat) \<Rightarrow> nat \<Rightarrow> nat list \<Rightarrow> nat \<Rightarrow> bool" where
  "seg nx pv p [] n \<longleftrightarrow> True"
| "seg nx pv p (x # xs) n \<longleftrightarrow> pv x = p \<and> nx x = hd (xs @ [n]) \<and> seg nx pv x xs n"

lemma seg_append:
  "seg nx pv p (xs @ ys) n \<longleftrightarrow> seg nx pv p xs (hd (ys @ [n])) \<and> seg nx pv (last (p # xs)) ys n"
proof (induction xs arbitrary: p)
  case (Cons x xs)
  then show ?case by (cases xs) auto
qed simp

lemma seg_cong:
  assumes "\<And>x. x \<in> set xs \<Longrightarrow> nx' x = nx x \<and> pv' x = pv x"
  shows "seg nx' pv' p xs n = seg nx pv p xs n"
  using assms by (induction xs arbitrary: p) auto

lemma seg_set_next:
  assumes "distinct (xs @ [x])"
  shows "seg nx pv p (xs @ [x]) n \<Longrightarrow> seg (nx(x := m)) pv p (xs @ [x]) m"
proof -
  assume s: "seg nx pv p (xs @ [x]) n"
  have "seg (nx(x := m)) pv p xs x = seg nx pv p xs x" using assms by (intro seg_cong) auto
  with s show ?thesis by (simp add: seg_append)
qed

lemma seg_set_prev:
  assumes "distinct (x # xs)"
  shows "seg nx pv p (x # xs) n \<Longrightarrow> seg nx (pv(x := q)) q (x # xs) n"
proof -
  assume s: "seg nx pv p (x # xs) n"
  have "seg nx (pv(x := q)) x xs n = seg nx pv x xs n" using assms by (intro seg_cong) auto
  with s show ?thesis by simp
qed

definition chain_rep ::
    "nat \<Rightarrow> nat \<Rightarrow> (nat \<Rightarrow> bool) \<Rightarrow> (nat \<Rightarrow> nat) \<Rightarrow> (nat \<Rightarrow> nat) \<Rightarrow> (nat \<Rightarrow> nat list) \<Rightarrow> bool" where
  "chain_rep te tot vd nx pv cs \<longleftrightarrow>
     (\<forall>b. cs b \<noteq> [] \<longrightarrow>
        0 < b \<and> b < te \<and> hd (cs b) = b \<and> set (tl (cs b)) \<subseteq> {te..<tot} \<and> distinct (cs b) \<and>
        seg nx pv 0 (cs b) 0) \<and>
     (\<forall>b b'. b \<noteq> b' \<longrightarrow> set (cs b) \<inter> set (cs b') = {}) \<and>
     (\<forall>i<tot. vd i \<longleftrightarrow> (\<exists>b. i \<in> set (cs b))) \<and>
     (\<forall>i<tot. \<not> vd i \<longrightarrow> nx i = 0 \<and> (i < te \<longrightarrow> pv i = 0))"

text \<open>The records in use: the heads in the base area and the tails in the expansion area.\<close>

definition heads :: "(nat \<Rightarrow> nat list) \<Rightarrow> nat set" where
  "heads cs = {b. cs b \<noteq> []}"

definition tails :: "(nat \<Rightarrow> nat list) \<Rightarrow> nat set" where
  "tails cs = (\<Union>b. set (tl (cs b)))"

named_theorems chain_simps \<open>facts on the abstract chain_rep\<close>

subsection \<open>What the chains give\<close>

lemma chain_repD:
  assumes "chain_rep te tot vd nx pv cs" and "cs b \<noteq> []"
  shows "0 < b" and "b < te" and "hd (cs b) = b" and "set (tl (cs b)) \<subseteq> {te..<tot}"
    and "distinct (cs b)" and "seg nx pv 0 (cs b) 0"
  using assms by (auto simp: chain_rep_def)

lemma chain_rep_valid_iff:
  "chain_rep te tot vd nx pv cs \<Longrightarrow> i < tot \<Longrightarrow> vd i \<longleftrightarrow> (\<exists>b. i \<in> set (cs b))"
  by (simp add: chain_rep_def)

lemma chain_rep_disjoint:
  "chain_rep te tot vd nx pv cs \<Longrightarrow> i \<in> set (cs b) \<Longrightarrow> i \<in> set (cs b') \<Longrightarrow> b = b'"
  by (auto simp: chain_rep_def)

lemma chain_rep_index_lt:
  assumes "chain_rep te tot vd nx pv cs" and "te \<le> tot" and "i \<in> set (cs b)"
  shows "i < tot" and "0 < i" and "i < te \<longleftrightarrow> i = b"
proof -
  from assms(3) obtain x xs where c: "cs b = x # xs" by (cases "cs b") auto
  then have x: "x = b" "0 < b" "b < te" "set xs \<subseteq> {te..<tot}"
    using chain_repD [OF assms(1), of b] by auto
  with assms c show "i < tot" "0 < i" "i < te \<longleftrightarrow> i = b" by auto
qed

lemma chain_rep_base_valid_iff:
  assumes "chain_rep te tot vd nx pv cs" and "te \<le> tot" and "b < te"
  shows "vd b \<longleftrightarrow> cs b \<noteq> []"
proof
  assume "vd b"
  then obtain b' where b': "b \<in> set (cs b')" using chain_rep_valid_iff [OF assms(1), of b] assms by auto
  then have "b = b'" using chain_rep_index_lt(3) [OF assms(1,2) b'] assms(3) by simp
  with b' show "cs b \<noteq> []" by auto
next
  assume "cs b \<noteq> []"
  then have "b \<in> set (cs b)" using chain_repD(3) [OF assms(1)] by (metis hd_in_set)
  then show "vd b" using chain_rep_valid_iff [OF assms(1), of b] assms by auto
qed

lemma chain_rep_expn_valid_iff:
  assumes "chain_rep te tot vd nx pv cs" and "te \<le> i" and "i < tot"
  shows "vd i \<longleftrightarrow> i \<in> tails cs"
proof -
  have "i \<in> set (cs b) \<longleftrightarrow> i \<in> set (tl (cs b))" for b
  proof (cases "cs b")
    case (Cons x xs)
    then have "x = b" "b < te" using chain_repD [OF assms(1), of b] by auto
    with Cons assms(2) show ?thesis by auto
  qed simp
  then show ?thesis using chain_rep_valid_iff [OF assms(1,3)] by (auto simp: tails_def)
qed

lemma chain_rep_tails_subset: "chain_rep te tot vd nx pv cs \<Longrightarrow> tails cs \<subseteq> {te..<tot}"
  unfolding tails_def by (rule UN_least) (metis chain_repD(4) empty_subsetI list.sel(2) set_empty2)

lemma chain_rep_heads_subset: "chain_rep te tot vd nx pv cs \<Longrightarrow> heads cs \<subseteq> {0<..<te}"
  unfolding heads_def using chain_repD(1,2) by auto

lemma chain_rep_seg_split:
  assumes "chain_rep te tot vd nx pv cs" and "cs b = xs @ i # ys"
  shows "pv i = last (0 # xs)" and "nx i = hd (ys @ [0])"
  using chain_repD(6) [OF assms(1), of b] assms(2) by (auto simp: seg_append)

lemma chain_rep_empty:
  "(\<And>i. i < tot \<Longrightarrow> \<not> vd i \<and> nx i = 0 \<and> (i < te \<longrightarrow> pv i = 0)) \<Longrightarrow> chain_rep te tot vd nx pv (\<lambda>_. [])"
  by (simp add: chain_rep_def)

lemma chain_rep_cong:
  assumes "\<And>i. i < tot \<Longrightarrow> vd' i = vd i \<and> nx' i = nx i" and "\<And>i. i < tot \<Longrightarrow> vd i \<or> i < te \<Longrightarrow> pv' i = pv i"
    and "chain_rep te tot vd nx pv cs" and "te \<le> tot"
  shows "chain_rep te tot vd' nx' pv' cs"
proof -
  have "seg nx' pv' 0 (cs b) 0 = seg nx pv 0 (cs b) 0" for b
    using assms(1,2) chain_rep_index_lt(1) [OF assms(3,4)] chain_rep_valid_iff [OF assms(3)]
    by (intro seg_cong) blast
  then show ?thesis using assms unfolding chain_rep_def by simp
qed

subsection \<open>Pointer updates\<close>

lemma chain_rep_updI:
  assumes c: "chain_rep te tot vd nx pv cs"
    and ys: "ys \<noteq> [] \<Longrightarrow> 0 < b \<and> b < te \<and> hd ys = b \<and> set (tl ys) \<subseteq> {te..<tot} \<and> distinct ys \<and>
               seg nx' pv' 0 ys 0"
    and other: "\<And>b'. b' \<noteq> b \<Longrightarrow> seg nx' pv' 0 (cs b') 0 = seg nx pv 0 (cs b') 0"
    and fresh: "\<And>b'. b' \<noteq> b \<Longrightarrow> set ys \<inter> set (cs b') = {}"
    and vd: "\<And>i. i < tot \<Longrightarrow> vd' i \<longleftrightarrow> i \<in> set ys \<or> (i \<notin> set (cs b) \<and> vd i)"
    and inv: "\<And>i. i < tot \<Longrightarrow> \<not> vd' i \<Longrightarrow> nx' i = 0 \<and> (i < te \<longrightarrow> pv' i = 0)"
  shows "chain_rep te tot vd' nx' pv' (cs(b := ys))"
proof -
  have "vd' i \<longleftrightarrow> (\<exists>b'. i \<in> set ((cs(b := ys)) b'))" if "i < tot" for i
  proof -
    have "(\<exists>b'. i \<in> set ((cs(b := ys)) b')) \<longleftrightarrow> i \<in> set ys \<or> (\<exists>b'. b' \<noteq> b \<and> i \<in> set (cs b'))"
      by (auto simp: fun_upd_def)
    also have "(\<exists>b'. b' \<noteq> b \<and> i \<in> set (cs b')) \<longleftrightarrow> i \<notin> set (cs b) \<and> vd i"
      using chain_rep_valid_iff [OF c that] chain_rep_disjoint [OF c, of i b] by metis
    finally show ?thesis using vd [OF that] by simp
  qed
  moreover have "set ((cs(b := ys)) b1) \<inter> set ((cs(b := ys)) b2) = {}" if "b1 \<noteq> b2" for b1 b2
    using that fresh [of b1] fresh [of b2] c by (auto simp: chain_rep_def)
  ultimately show ?thesis
    unfolding chain_rep_def using ys other chain_repD [OF c] inv by auto
qed

lemma chain_rep_insert_head:
  assumes c: "chain_rep te tot vd nx pv cs" and le: "te \<le> tot" and b: "0 < b" "b < te" "cs b = []"
  shows "chain_rep te tot (vd(b := True)) nx pv (cs(b := [b]))"
proof (rule chain_rep_updI [OF c])
  have nv: "\<not> vd b" using chain_rep_base_valid_iff [OF c le b(2)] b(3) by simp
  then have z: "nx b = 0" "pv b = 0" using c b le by (auto simp: chain_rep_def)
  then show "0 < b \<and> b < te \<and> hd [b] = b \<and> set (tl [b]) \<subseteq> {te..<tot} \<and> distinct [b] \<and> seg nx pv 0 [b] 0"
    using b by simp
  show "set [b] \<inter> set (cs b') = {}" for b'
    using chain_rep_valid_iff [OF c, of b] nv b(2) le by auto
qed (use c b(3) in \<open>auto simp: chain_rep_def split: if_splits\<close>)

lemma chain_rep_insert_tail:
  assumes c: "chain_rep te tot vd nx pv cs" and le: "te \<le> tot" and ne: "cs b \<noteq> []"
    and i: "te \<le> i" "i < tot" "\<not> vd i"
  shows "chain_rep te tot (vd(i := True)) (nx(last (cs b) := i)) (pv(i := last (cs b))) (cs(b := cs b @ [i]))"
proof (rule chain_rep_updI [OF c])
  let ?l = "last (cs b)"
  let ?nx = "nx(?l := i)" and ?pv = "pv(i := ?l)"
  have l: "?l \<in> set (cs b)" using ne by simp
  have il: "i \<noteq> ?l" using chain_rep_valid_iff [OF c i(2)] i(3) l by auto
  have fresh: "i \<notin> set (cs b')" for b' using chain_rep_valid_iff [OF c i(2)] i(3) by auto
  show "seg ?nx ?pv 0 (cs b') 0 = seg nx pv 0 (cs b') 0" if "b' \<noteq> b" for b'
    using that l chain_rep_disjoint [OF c] fresh by (intro seg_cong) fastforce
  obtain xs where xs: "cs b = xs @ [?l]" using ne by (metis append_butlast_last_id)
  have "seg nx pv 0 (xs @ [?l]) 0" and d: "distinct (xs @ [?l])"
    using chain_repD(5,6) [OF c ne] xs by simp_all
  then have 1: "seg ?nx pv 0 (cs b) i" using seg_set_next xs by metis
  have "seg ?nx ?pv 0 (cs b) i = seg ?nx pv 0 (cs b) i" using fresh [of b] by (intro seg_cong) auto
  with 1 have "seg ?nx ?pv 0 (cs b) i" by simp
  moreover have "nx i = 0" using c i by (auto simp: chain_rep_def)
  ultimately have "seg ?nx ?pv 0 (cs b @ [i]) 0" using il ne by (simp add: seg_append)
  then show "0 < b \<and> b < te \<and> hd (cs b @ [i]) = b \<and> set (tl (cs b @ [i])) \<subseteq> {te..<tot} \<and>
      distinct (cs b @ [i]) \<and> seg ?nx ?pv 0 (cs b @ [i]) 0"
    using chain_repD(1-5) [OF c ne] ne i fresh [of b] by auto
  show "set (cs b @ [i]) \<inter> set (cs b') = {}" if "b' \<noteq> b" for b'
    using that fresh [of b'] c by (auto simp: chain_rep_def)
  have vl: "vd ?l" using chain_rep_index_lt(1) [OF c le l] chain_rep_valid_iff [OF c] l by auto
  show "(vd(i := True)) x \<longleftrightarrow> x \<in> set (cs b @ [i]) \<or> (x \<notin> set (cs b) \<and> vd x)" if "x < tot" for x
    using chain_rep_valid_iff [OF c that] by auto
  show "?nx x = 0 \<and> (x < te \<longrightarrow> ?pv x = 0)" if "x < tot" "\<not> (vd(i := True)) x" for x
    using that c vl by (auto simp: chain_rep_def split: if_splits)
qed

lemma chain_rep_delete_single:
  assumes c: "chain_rep te tot vd nx pv cs" and b: "cs b = [b]"
  shows "chain_rep te tot (vd(b := False)) (nx(b := 0)) (pv(b := 0)) (cs(b := []))"
proof (rule chain_rep_updI [OF c])
  show "seg (nx(b := 0)) (pv(b := 0)) 0 (cs b') 0 = seg nx pv 0 (cs b') 0" if "b' \<noteq> b" for b'
    using that b chain_rep_disjoint [OF c, of b b b'] by (intro seg_cong) auto
qed (use c b in \<open>auto simp: chain_rep_def\<close>)

lemma chain_rep_unlink:
  assumes c: "chain_rep te tot vd nx pv cs" and b: "cs b = xs @ p # i # ys"
  shows "chain_rep te tot (vd(i := False)) (nx(p := hd (ys @ [0]), i := 0))
           (if ys = [] then pv(i := q) else pv(hd ys := p, i := q)) (cs(b := xs @ p # ys))"
proof (rule chain_rep_updI [OF c])
  let ?nx = "nx(p := hd (ys @ [0]), i := 0)"
  let ?pv = "if ys = [] then pv(i := q) else pv(hd ys := p, i := q)"
  have ne: "cs b \<noteq> []" using b by simp
  have d: "distinct (xs @ p # i # ys)" and s: "seg nx pv 0 (xs @ p # i # ys) 0"
    using chain_repD(5,6) [OF c ne] b by simp_all
  have iexp: "te \<le> i" using chain_repD(4) [OF c ne] b by (cases xs) auto
  show "seg ?nx ?pv 0 (cs b') 0 = seg nx pv 0 (cs b') 0" if "b' \<noteq> b" for b'
  proof (rule seg_cong)
    fix x assume "x \<in> set (cs b')"
    then have "x \<notin> set (cs b)" using that chain_rep_disjoint [OF c] by blast
    then show "?nx x = nx x \<and> ?pv x = pv x" using b by (cases ys) auto
  qed
  have "seg ?nx ?pv 0 xs p = seg nx pv 0 xs p" using d by (intro seg_cong) (cases ys; auto)
  moreover have "seg ?nx ?pv p ys 0"
  proof (cases ys)
    case (Cons y zs)
    have "seg ?nx ?pv y zs 0 = seg nx pv y zs 0" using d Cons by (intro seg_cong) auto
    then show ?thesis using s d Cons by (auto simp: seg_append)
  qed simp
  moreover have "?pv p = pv p" using d by (cases ys) auto
  ultimately have "seg ?nx ?pv 0 (xs @ p # ys) 0" using s d by (auto simp: seg_append)
  moreover have "hd (xs @ p # ys) = b" "set (tl (xs @ p # ys)) \<subseteq> {te..<tot}"
    using chain_repD(3,4) [OF c ne] b by (cases xs; auto)+
  ultimately show "0 < b \<and> b < te \<and> hd (xs @ p # ys) = b \<and> set (tl (xs @ p # ys)) \<subseteq> {te..<tot} \<and>
      distinct (xs @ p # ys) \<and> seg ?nx ?pv 0 (xs @ p # ys) 0"
    using chain_repD(1,2) [OF c ne] d by auto
  have sub: "set (cs b) = insert i (set (xs @ p # ys))" using b by auto
  show "set (xs @ p # ys) \<inter> set (cs b') = {}" if "b' \<noteq> b" for b'
    using that c sub unfolding chain_rep_def by blast
  show "(vd(i := False)) x \<longleftrightarrow> x \<in> set (xs @ p # ys) \<or> (x \<notin> set (cs b) \<and> vd x)" if "x < tot" for x
    using chain_rep_valid_iff [OF c that] sub d by auto
  show "?nx x = 0 \<and> (x < te \<longrightarrow> ?pv x = 0)" if "x < tot" "\<not> (vd(i := False)) x" for x
  proof (cases "x = i")
    case False
    then have nv: "\<not> vd x" using that by simp
    then have "x \<notin> set (cs b)" using chain_rep_valid_iff [OF c that(1)] by auto
    then have "x \<noteq> p" "ys \<noteq> [] \<Longrightarrow> x \<noteq> hd ys" using b by auto
    then show ?thesis using c nv that(1) False unfolding chain_rep_def by auto
  qed (use iexp in simp)
qed

subsection \<open>Counting\<close>

lemma heads_upd: "heads (cs(b := ys)) = (if ys = [] then heads cs - {b} else insert b (heads cs))"
  by (auto simp: heads_def)

lemma tails_insert_tail: "cs b \<noteq> [] \<Longrightarrow> tails (cs(b := cs b @ [i])) = insert i (tails cs)"
  by (auto simp: tails_def split: if_splits)

lemma tails_upd_disjoint:
  assumes "\<And>b'. b' \<noteq> b \<Longrightarrow> set (tl (cs b)) \<inter> set (tl (cs b')) = {}"
  shows "tails (cs(b := ys)) = (tails cs - set (tl (cs b))) \<union> set (tl ys)"
  using assms by (fastforce simp: tails_def split: if_splits)

lemma chain_rep_tails_upd:
  assumes "chain_rep te tot vd nx pv cs"
  shows "tails (cs(b := ys)) = (tails cs - set (tl (cs b))) \<union> set (tl ys)"
proof (rule tails_upd_disjoint)
  fix b' assume "b' \<noteq> b"
  then have "set (cs b) \<inter> set (cs b') = {}" using assms by (auto simp: chain_rep_def)
  then show "set (tl (cs b)) \<inter> set (tl (cs b')) = {}"
    by (cases "cs b"; cases "cs b'") auto
qed

end
