(* ===== verification/Table_Chain.thy ===== *)
theory Table_Chain
  imports Table_Dims Chains
begin

unbundle bit_operations_syntax

section \<open>The table as a family of collision chains\<close>

text \<open>
  The representation invariant of a table and the contract of an entry interface. \<open>tbl_rep\<close> relates
  a table to the abstract chains of \<open>Chains\<close>; the locale \<open>table_entry\<close> states what the table code
  relies on when it calls through an entry interface and when the DMA engine writes 16-bit fields of
  a record. Inside the locale every operation of \<open>ipa_table.c\<close> that searches, links or unlinks
  records is shown to be free of faults and to compute what the chains say.
\<close>

subsection \<open>Views of a table\<close>

abbreviation base_n :: "'e ipa_table \<Rightarrow> nat" where
  "base_n t \<equiv> unat (table_entries t)"

abbreviation tot_n :: "'e ipa_table \<Rightarrow> nat" where
  "tot_n t \<equiv> unat (tot_tbl_ents t)"

definition vd :: "('e, 'u) ipa_table_entry_interface \<Rightarrow> 'e ipa_table \<Rightarrow> nat \<Rightarrow> bool" where
  "vd ifc t i = entry_is_valid ifc (recs t ! i)"

definition nx :: "('e, 'u) ipa_table_entry_interface \<Rightarrow> 'e ipa_table \<Rightarrow> nat \<Rightarrow> nat" where
  "nx ifc t i = unat (entry_get_next_index ifc (recs t ! i))"

definition pv :: "('e, 'u) ipa_table_entry_interface \<Rightarrow> 'e ipa_table \<Rightarrow> nat \<Rightarrow> nat" where
  "pv ifc t i = unat (the (entry_get_prev_index ifc (recs t ! i) (of_nat i) (meta t) (table_entries t)))"

definition meta_ok :: "bool \<Rightarrow> nat \<Rightarrow> u16 list option \<Rightarrow> bool" where
  "meta_ok ix n m \<longleftrightarrow> (if ix then \<exists>ms. m = Some ms \<and> length ms = n else m = None)"

definition tbl_ok :: "bool \<Rightarrow> 'e ipa_table \<Rightarrow> bool" where
  "tbl_ok ix t \<longleftrightarrow> table_dims_ok t \<and> nmi t \<noteq> IPA_NAT_MEM_IN_MAX \<and> length (recs t) = tot_n t \<and>
     meta_ok ix (unat (expn_table_entries t)) (meta t)"

definition tbl_rep ::
    "('e, 'u) ipa_table_entry_interface \<Rightarrow> bool \<Rightarrow> 'e ipa_table \<Rightarrow> (nat \<Rightarrow> nat list) \<Rightarrow> bool" where
  "tbl_rep ifc ix t cs \<longleftrightarrow>
     tbl_ok ix t \<and> chain_rep (base_n t) (tot_n t) (vd ifc t) (nx ifc t) (pv ifc t) cs \<and>
     unat (cur_tbl_cnt t) = card (heads cs) \<and> unat (cur_expn_tbl_cnt t) = card (tails cs)"

lemma tbl_okD:
  assumes "tbl_ok ix t"
  shows "2 \<le> base_n t" and "base_n t < tot_n t" and "tot_n t \<le> 5120" and "length (recs t) = tot_n t"
    and "tot_n t = base_n t + unat (expn_table_entries t)" and "table_dims_ok t"
    and "meta_ok ix (unat (expn_table_entries t)) (meta t)" and "(meta t \<noteq> None) = ix"
    and "nmi t \<noteq> IPA_NAT_MEM_IN_MAX"
  using assms by (auto simp: tbl_ok_def table_dims_ok_def IPA_TABLE_MAX_ENTRIES_def meta_ok_def split: if_splits)

lemma unat_of_nat_rec [simp]: "tbl_ok ix t \<Longrightarrow> i < tot_n t \<Longrightarrow> unat (of_nat i :: u16) = i"
  using tbl_okD(3) [of ix t] by (intro unat_of_nat_u16) simp

lemma of_nat_rec_eq_iff:
  "tbl_ok ix t \<Longrightarrow> i < tot_n t \<Longrightarrow> j < tot_n t \<Longrightarrow> (of_nat i :: u16) = of_nat j \<longleftrightarrow> i = j"
  by (metis unat_of_nat_rec)

lemma tbl_repD:
  assumes "tbl_rep ifc ix t cs"
  shows "tbl_ok ix t" and "chain_rep (base_n t) (tot_n t) (vd ifc t) (nx ifc t) (pv ifc t) cs"
    and "unat (cur_tbl_cnt t) = card (heads cs)" and "unat (cur_expn_tbl_cnt t) = card (tails cs)"
  using assms by (auto simp: tbl_rep_def)

lemma tbl_rep_mem:
  assumes "tbl_rep ifc ix t cs" and "i \<in> set (cs b)"
  shows "i < tot_n t" and "0 < i" and "vd ifc t i" and "i < base_n t \<longleftrightarrow> i = b"
proof -
  note r = tbl_repD [OF assms(1)]
  have le: "base_n t \<le> tot_n t" using tbl_okD(2) [OF r(1)] by simp
  show "i < tot_n t" "0 < i" "i < base_n t \<longleftrightarrow> i = b" using chain_rep_index_lt [OF r(2) le assms(2)] by auto
  then show "vd ifc t i" using chain_rep_valid_iff [OF r(2)] assms(2) by auto
qed

subsection \<open>DMA commands and their effect\<close>

text \<open>The commands in a buffer, and the buffer after one more.\<close>

definition cmds_of :: "ipa_ioc_nat_dma_cmd \<Rightarrow> ipa_ioc_nat_dma_one list" where
  "cmds_of cmd = take (unat (entries cmd)) (dma cmd)"

definition push_cmd :: "ipa_ioc_nat_dma_cmd \<Rightarrow> ipa_ioc_nat_dma_one \<Rightarrow> ipa_ioc_nat_dma_cmd" where
  "push_cmd cmd one = cmd\<lparr>dma := (dma cmd)[unat (entries cmd) := one], entries := entries cmd + 1\<rparr>"

definition room :: "ipa_ioc_nat_dma_cmd \<Rightarrow> nat \<Rightarrow> bool" where
  "room cmd n \<longleftrightarrow> unat (entries cmd) + n \<le> length (dma cmd) \<and> length (dma cmd) < 256"

lemma push_cmd_facts:
  assumes "room cmd (Suc n)"
  shows "cmds_of (push_cmd cmd one) = cmds_of cmd @ [one]" and "room (push_cmd cmd one) n"
    and "mem_type (push_cmd cmd one) = mem_type cmd"
proof -
  have lt: "unat (entries cmd) < length (dma cmd)" "unat (entries cmd) + 1 < 256"
    using assms by (auto simp: room_def)
  then have e: "unat (entries cmd + 1) = Suc (unat (entries cmd))" by (simp add: unat_word_ariths)
  show "cmds_of (push_cmd cmd one) = cmds_of cmd @ [one]"
    using lt by (simp add: cmds_of_def push_cmd_def e take_Suc_conv_app_nth)
  show "room (push_cmd cmd one) n" using assms e by (simp add: room_def push_cmd_def)
  show "mem_type (push_cmd cmd one) = mem_type cmd" by (simp add: push_cmd_def)
qed

text \<open>
  The effect of one command on a table. The engine adds the offset of the command to the start of
  the area the command names and stores the 16 bits there: \<open>wr e f d\<close> is the record \<open>e\<close> after the
  16-bit value \<open>d\<close> was stored at byte offset \<open>f\<close> of it. A command for another table does nothing.
\<close>

definition dma_exec_one ::
    "('e \<Rightarrow> nat \<Rightarrow> u16 \<Rightarrow> 'e) \<Rightarrow> ipa_table_dma_type \<Rightarrow> ipa_table_dma_type \<Rightarrow> ipa_ioc_nat_dma_one
     \<Rightarrow> 'e ipa_table \<Rightarrow> 'e ipa_table" where
  "dma_exec_one wr bt xt c t =
     (let off = unat (d_offset c); q = off div entry_size t; f = off mod entry_size t in
      if d_base_addr c = dma_type_val bt
      then t\<lparr>recs := (recs t)[q := wr (recs t ! q) f (d_data c)]\<rparr>
      else if d_base_addr c = dma_type_val xt
      then t\<lparr>recs := (recs t)[base_n t + q := wr (recs t ! (base_n t + q)) f (d_data c)]\<rparr>
      else t)"

definition dma_exec ::
    "('e \<Rightarrow> nat \<Rightarrow> u16 \<Rightarrow> 'e) \<Rightarrow> ipa_table_dma_type \<Rightarrow> ipa_table_dma_type \<Rightarrow> ipa_ioc_nat_dma_one list
     \<Rightarrow> 'e ipa_table \<Rightarrow> 'e ipa_table" where
  "dma_exec wr bt xt cmds t = fold (dma_exec_one wr bt xt) cmds t"

lemma dma_exec_simps [simp]:
  "dma_exec wr bt xt [] t = t"
  "dma_exec wr bt xt (c # cmds) t = dma_exec wr bt xt cmds (dma_exec_one wr bt xt c t)"
  "dma_exec wr bt xt (xs @ ys) t = dma_exec wr bt xt ys (dma_exec wr bt xt xs t)"
  by (simp_all add: dma_exec_def)

lemma dma_exec_one_other:
  "d_base_addr c \<noteq> dma_type_val bt \<Longrightarrow> d_base_addr c \<noteq> dma_type_val xt \<Longrightarrow> dma_exec_one wr bt xt c t = t"
  by (simp add: dma_exec_one_def Let_def)

text \<open>
  The addresses and the command helpers of a table whose three kinds of command write the fields at
  the byte offsets \<open>oh\<close>, \<open>on\<close> and \<open>od\<close> of a record.
\<close>

definition helper_ok ::
    "ipa_table_dma_type \<Rightarrow> ipa_table_dma_type \<Rightarrow> nat \<Rightarrow> ipa_table_dma_cmd_helper option \<Rightarrow> bool" where
  "helper_ok bt xt off h \<longleftrightarrow>
     (case h of None \<Rightarrow> False
      | Some h \<Rightarrow> h_offset h = of_nat off \<and> h_table_type h = bt \<and> h_expn_table_type h = xt)"

definition dma_ok ::
    "ipa_table_dma_type \<Rightarrow> ipa_table_dma_type \<Rightarrow> nat \<Rightarrow> nat \<Rightarrow> nat \<Rightarrow> nat \<Rightarrow> 'e ipa_table \<Rightarrow> bool" where
  "dma_ok bt xt esz oh on od t \<longleftrightarrow>
     entry_size t = esz \<and> expn_table_addr t = table_addr t + of_nat (esz * base_n t) \<and>
     length (dma_help t) = 3 \<and> helper_ok bt xt oh (dma_help t ! 0) \<and>
     helper_ok bt xt on (dma_help t ! 1) \<and> helper_ok bt xt od (dma_help t ! 2)"

definition dma_cmd_for :: "'e ipa_table \<Rightarrow> dma_help_type \<Rightarrow> nat \<Rightarrow> u16 \<Rightarrow> ipa_ioc_nat_dma_one" where
  "dma_cmd_for t ht i d =
     (let h = the (dma_help t ! help_val ht); ex = (base_n t \<le> i) in
      \<lparr>d_table_index = h_table_indx h,
       d_base_addr = dma_type_val (if ex then h_expn_table_type h else h_table_type h),
       d_offset = h_offset h + of_nat ((if ex then i - base_n t else i) * entry_size t),
       d_data = d\<rparr>)"

definition help_off :: "nat \<Rightarrow> nat \<Rightarrow> nat \<Rightarrow> dma_help_type \<Rightarrow> nat" where
  "help_off oh on od ht = (if ht = HELP_UPDATE_HEAD then oh else if ht = HELP_UPDATE_ENTRY then on else od)"

lemma dma_ok_helper:
  assumes "dma_ok bt xt esz oh on od t" and "ht \<noteq> HELP_UPDATE_MAX"
  obtains h where "help_val ht < length (dma_help t)" and "dma_help t ! help_val ht = Some h"
    and "h_offset h = of_nat (help_off oh on od ht)" and "h_table_type h = bt" and "h_expn_table_type h = xt"
proof -
  have "help_val ht < length (dma_help t)" "helper_ok bt xt (help_off oh on od ht) (dma_help t ! help_val ht)"
    using assms by (cases ht; simp add: dma_ok_def help_off_def)+
  then show thesis using that by (auto simp: helper_ok_def split: option.splits)
qed

lemma rec_offset:
  assumes "expn = base + of_nat (esz * n)" and "i < 65536" and "unat te = n"
  shows "ucast ((base + of_nat (unat (of_nat i :: u16) * esz)) - (if te \<le> (of_nat i :: u16) then expn else base) :: u64)
         = (of_nat ((if n \<le> i then i - n else i) * esz) :: u32)"
proof -
  have u: "unat (of_nat i :: u16) = i" using assms by (simp add: unat_of_nat_u16)
  have cast: "ucast (of_nat k :: u64) = (of_nat k :: u32)" for k
    by (rule bit_word_eqI) (simp add: bit_simps)
  have le: "te \<le> (of_nat i :: u16) \<longleftrightarrow> n \<le> i" using u assms(3) by (simp add: word_le_nat_alt)
  have "of_nat (i * esz) - of_nat (esz * n) = (of_nat ((i - n) * esz) :: u64)" if "n \<le> i"
  proof -
    have "i * esz = (i - n) * esz + esz * n" using that by (simp add: algebra_simps diff_mult_distrib)
    then show ?thesis by (metis add_diff_cancel_right' of_nat_add)
  qed
  then have "base + of_nat (i * esz) - (if n \<le> i then expn else base)
             = (of_nat ((if n \<le> i then i - n else i) * esz) :: u64)"
    unfolding assms(1) by (simp del: of_nat_mult)
  then show ?thesis unfolding u le by (simp only: cast)
qed

lemma add_dma_cmd_eq:
  assumes ok: "tbl_ok ix t" and d: "dma_ok bt xt esz oh on od t" and ht: "ht \<noteq> HELP_UPDATE_MAX"
    and i: "i < tot_n t" and r: "room cmd (Suc n)"
  shows "ipa_table_add_dma_cmd t ht (Some (of_nat i)) (of_nat i) v cmd
         = Some (0, push_cmd cmd (dma_cmd_for t ht i v))"
proof -
  note t = tbl_okD [OF ok]
  obtain h where h: "help_val ht < length (dma_help t)" "dma_help t ! help_val ht = Some h"
    using dma_ok_helper [OF d ht] by metis
  have u: "unat (of_nat i :: u16) = i" using ok i by simp
  have ht': "VALID_DMA_HELP_TYPE ht" using ht by (cases ht) (simp_all add: VALID_DMA_HELP_TYPE_def)
  have lt: "\<not> (ucast (table_entries t) + ucast (expn_table_entries t) :: u32) \<le> ucast (of_nat i :: u16)"
    using i t(5) u by (simp add: word_le_nat_alt)
  have off: "ucast (GOTO_REC t (of_nat i) - (if table_entries t \<le> of_nat i then expn_table_addr t else table_addr t))
      = (of_nat ((if base_n t \<le> i then i - base_n t else i) * entry_size t) :: u32)"
    unfolding GOTO_REC_def by (rule rec_offset) (use d i t(3) in \<open>auto simp: dma_ok_def\<close>)
  have le: "(table_entries t \<le> of_nat i) = (base_n t \<le> i)" using u by (simp add: word_le_nat_alt)
  have w: "unat (entries cmd) < length (dma cmd)" using r by (simp add: room_def)
  show ?thesis
    using h ht' lt off le w
    by (simp add: ipa_table_add_dma_cmd_def ipa_table_dma_cmd_generate_def Let_def push_cmd_def dma_cmd_for_def)
qed

text \<open>The byte offset of the command for a record and one of its fields.\<close>

lemma cmd_for_offset:
  assumes ok: "tbl_ok ix t" and d: "dma_ok bt xt esz oh on od t" and ht: "ht \<noteq> HELP_UPDATE_MAX"
    and i: "i < tot_n t" and off: "help_off oh on od ht < esz" and sz: "esz \<le> 65536"
  shows "unat (d_offset (dma_cmd_for t ht i v)) = (if base_n t \<le> i then i - base_n t else i) * esz + help_off oh on od ht"
    and "d_base_addr (dma_cmd_for t ht i v) = dma_type_val (if base_n t \<le> i then xt else bt)"
    and "d_data (dma_cmd_for t ht i v) = v"
proof -
  obtain h where h: "dma_help t ! help_val ht = Some h" "h_offset h = of_nat (help_off oh on od ht)"
    "h_table_type h = bt" "h_expn_table_type h = xt" using dma_ok_helper [OF d ht] by metis
  let ?q = "if base_n t \<le> i then i - base_n t else i" and ?f = "help_off oh on od ht"
  have es: "entry_size t = esz" using d by (simp add: dma_ok_def)
  have "?q < 5120" using i tbl_okD(3) [OF ok] by auto
  then have "?q * esz + ?f < 5120 * 65536"
    using off sz mult_le_mono [of "Suc ?q" 5120 esz 65536] by simp
  then have o: "unat (of_nat ?f + of_nat (?q * esz) :: u32) = ?q * esz + ?f"
    unfolding of_nat_add [symmetric] by (simp only: unat_of_nat add.commute) (simp add: take_bit_nat_eq_self)
  show "unat (d_offset (dma_cmd_for t ht i v)) = ?q * esz + ?f"
    by (simp only: dma_cmd_for_def Let_def h es o option.sel ipa_ioc_nat_dma_one.select_convs)
  show "d_base_addr (dma_cmd_for t ht i v) = dma_type_val (if base_n t \<le> i then xt else bt)"
    "d_data (dma_cmd_for t ht i v) = v"
    by (simp_all add: dma_cmd_for_def Let_def h)
qed

lemma dma_exec_cmd_for:
  assumes ok: "tbl_ok ix t" and d: "dma_ok bt xt esz oh on od t" and ht: "ht \<noteq> HELP_UPDATE_MAX"
    and i: "i < tot_n t" and ne: "bt \<noteq> xt" and off: "help_off oh on od ht < esz" and sz: "esz \<le> 65536"
  shows "dma_exec_one wr bt xt (dma_cmd_for t ht i v) t
         = t\<lparr>recs := (recs t)[i := wr (recs t ! i) (help_off oh on od ht) v]\<rparr>"
proof -
  let ?c = "dma_cmd_for t ht i v"
  have es: "entry_size t = esz" using d by (simp add: dma_ok_def)
  note c = cmd_for_offset [OF ok d ht i off sz, of v]
  then have "unat (d_offset ?c) div esz = (if base_n t \<le> i then i - base_n t else i)"
    "unat (d_offset ?c) mod esz = help_off oh on od ht" using off by simp_all
  moreover have "dma_type_val bt \<noteq> dma_type_val xt" using ne by (cases bt; cases xt) simp_all
  ultimately show ?thesis using c(2,3) by (simp add: dma_exec_one_def Let_def es)
qed

subsection \<open>Walks\<close>

text \<open>A record index below the end of the table is not yet the end of a walk.\<close>

lemma walk_bound:
  assumes "tbl_ok ix t" and "i \<le> tot_n t"
  shows "(ucast (table_entries t) + ucast (expn_table_entries t) \<le> (ucast (of_nat i :: u16) :: u32)) = (i = tot_n t)"
proof -
  have "unat (of_nat i :: u16) = i" using tbl_okD(3) [OF assms(1)] assms(2) by (simp add: unat_of_nat_u16)
  then show ?thesis using assms tbl_okD(5) [OF assms(1)] by (auto simp: word_le_nat_alt)
qed

text \<open>The callback of a walk sees the records that match \<open>when2cb\<close>, in the order of their indices.\<close>

definition slot_matches ::
    "('e, 'u) ipa_table_entry_interface \<Rightarrow> When2Callback \<Rightarrow> 'e ipa_table \<Rightarrow> nat \<Rightarrow> bool" where
  "slot_matches ifc w t i \<longleftrightarrow> (if vd ifc t i then w = WHEN_SLOT_FILLED else w = WHEN_SLOT_EMPTY)"

definition call_walk_cb :: "'e ipa_table \<Rightarrow> ('s, 'e) walk_cb \<Rightarrow> nat \<Rightarrow> 's \<Rightarrow> (int \<times> 's) option" where
  "call_walk_cb t cb i s =
     (let hm = (base_n t \<le> i \<and> meta t \<noteq> None); mi = (if hm then of_nat (i - base_n t) else 0)
      in cb s (ucast (MakeEntryHdl t (of_nat i))) (recs t ! i) (of_nat i) (if hm then Some mi else None) mi)"

fun walk_list :: "'e ipa_table \<Rightarrow> ('s, 'e) walk_cb \<Rightarrow> nat list \<Rightarrow> 's \<Rightarrow> (int \<times> 's) option" where
  "walk_list t cb [] s = Some (0, s)"
| "walk_list t cb (i # rest) s =
     do { (ret, s') \<leftarrow> call_walk_cb t cb i s; if ret \<noteq> 0 then Some (ret, s') else walk_list t cb rest s' }"

lemma walk_loop_eq:
  assumes ok: "tbl_ok ix t" and "i \<le> tot_n t"
  shows "ipa_table_walk_loop ifc t w cb (of_nat i) s
         = walk_list t cb (filter (slot_matches ifc w t) [i..<tot_n t]) s"
  using assms(2)
proof (induction "tot_n t - i" arbitrary: i s)
  case 0
  then show ?case using walk_bound [OF ok] by (simp add: ipa_table_walk_loop.simps)
next
  case (Suc d)
  then have lt: "i < tot_n t" by simp
  then have u: "unat (of_nat i :: u16) = i" and len: "i < length (recs t)"
    using ok tbl_okD(4) [OF ok] by simp_all
  have le: "(table_entries t \<le> of_nat i) = (base_n t \<le> i)" using u by (simp add: word_le_nat_alt)
  have sub: "of_nat i - table_entries t = (of_nat (i - base_n t) :: u16)" if "base_n t \<le> i"
    using that by (simp add: of_nat_diff)
  have nxt: "(of_nat i + 1 :: u16) = of_nat (Suc i)" by simp
  have b: "\<not> (ucast (table_entries t) + ucast (expn_table_entries t) \<le> (ucast (of_nat i :: u16) :: u32))"
    using walk_bound [OF ok, of i] lt by simp
  have IH: "ipa_table_walk_loop ifc t w cb (of_nat i + 1) s'
      = walk_list t cb (filter (slot_matches ifc w t) [Suc i..<tot_n t]) s'" for s'
    unfolding nxt using Suc.hyps(1) [of "Suc i" s'] Suc.hyps(2) lt by simp
  have upt: "[i..<tot_n t] = i # [Suc i..<tot_n t]" using lt by (simp add: upt_conv_Cons)
  have m: "(if entry_is_valid ifc (recs t ! i) then w = WHEN_SLOT_FILLED else w = WHEN_SLOT_EMPTY)
           = slot_matches ifc w t i" by (simp add: slot_matches_def vd_def)
  have rd: "mem_read (recs t) (unat (of_nat i :: u16)) = Some (recs t ! i)" using len u by simp
  have cb: "(let hm = table_entries t \<le> of_nat i \<and> meta t \<noteq> None;
                 mi = if hm then of_nat i - table_entries t else 0; mp = if hm then Some mi else None
             in cb s (ucast (MakeEntryHdl t (of_nat i))) (recs t ! i) (of_nat i) mp mi \<bind> k)
            = call_walk_cb t cb i s \<bind> k" for k
    using le sub by (cases "base_n t \<le> i \<and> meta t \<noteq> None") (auto simp: call_walk_cb_def Let_def)
  show ?case
    by (subst ipa_table_walk_loop.simps)
      (simp only: b rd m cb IH upt if_False bind.bind_lunit filter.simps walk_list.simps split: if_splits, simp)
qed

lemma ipa_table_walk_eq:
  assumes ok: "tbl_ok ix t" and i: "i < tot_n t" and w: "w \<noteq> WHEN_SLOT_MAX"
  shows "ipa_table_walk ifc t (of_nat i) w cb s = walk_list t cb (filter (slot_matches ifc w t) [i..<tot_n t]) s"
  using walk_bound [OF ok, of i] walk_loop_eq [OF ok, of i ifc w cb s] i w
  by (simp add: ipa_table_walk_def VALID_WHEN2CALLBACK_def)

lemma find_free_eq:
  assumes ok: "tbl_ok ix t"
  shows "FindExpnTblFreeEntry ifc t =
    (case filter (\<lambda>i. \<not> vd ifc t i) [base_n t..<tot_n t] of
       [] \<Rightarrow> Some (- 1, None, 0)
     | i # _ \<Rightarrow> Some (0, Some (of_nat i), of_nat i))"
proof -
  note t = tbl_okD [OF ok]
  have te: "table_entries t = of_nat (base_n t)" by simp
  have f: "filter (slot_matches ifc WHEN_SLOT_EMPTY t) xs = filter (\<lambda>i. \<not> vd ifc t i) xs" for xs
    by (rule filter_cong) (auto simp: slot_matches_def)
  have walk: "ipa_table_walk ifc t (table_entries t) WHEN_SLOT_EMPTY mt_slot ()
      = walk_list t mt_slot (filter (\<lambda>i. \<not> vd ifc t i) [base_n t..<tot_n t]) ()"
    by (subst te, subst ipa_table_walk_eq [OF ok t(2)]) (simp_all add: f)
  show ?thesis
  proof (cases "filter (\<lambda>i. \<not> vd ifc t i) [base_n t..<tot_n t]")
    case Nil
    then show ?thesis by (simp add: FindExpnTblFreeEntry_def walk)
  next
    case (Cons i rest)
    then have "i \<in> set (filter (\<lambda>i. \<not> vd ifc t i) [base_n t..<tot_n t])" by simp
    then have i: "base_n t \<le> i" "i < tot_n t" by auto
    then have "0 < i" "unat (of_nat i :: u16) = i" using t(1) ok by auto
    then show ?thesis using Cons by (simp add: FindExpnTblFreeEntry_def walk mt_slot_def call_walk_cb_def Let_def)
  qed
qed

end
