(* ===== verification/Table_Ops.thy ===== *)
theory Table_Ops
  imports Table_Chain
begin

section \<open>The contract of an entry interface and the table operations under it\<close>

text \<open>
  The locale \<open>table_entry\<close> is the interface between \<open>ipa_table.c\<close> and its clients: \<open>ifc\<close> are the
  client's functions, \<open>wr\<close> the effect of a 16-bit store into a record, \<open>oh\<close>, \<open>on\<close>, \<open>od\<close> the byte
  offsets of the three fields the DMA commands write, \<open>ix\<close> whether the table keeps its previous
  indices in a metadata array, \<open>uok\<close> the user data that can be inserted, \<open>ct\<close> the content of a record
  apart from its links. The theories of the IPv4 NAT
  and of the IPv6 connection tracking interpret it.
\<close>

subsection \<open>Record indices and iterators\<close>

lemma of_nat_rec_0: "tbl_ok ix t \<Longrightarrow> i < tot_n t \<Longrightarrow> (of_nat i :: u16) = 0 \<longleftrightarrow> i = 0"
  using unat_of_nat_rec [of ix t i] by fastforce

lemma VALID_INDEX_0 [simp]: "\<not> VALID_INDEX 0"
  by (simp add: VALID_INDEX_def)

lemma VALID_INDEX_rec: "tbl_ok ix t \<Longrightarrow> i < tot_n t \<Longrightarrow> VALID_INDEX (of_nat i) \<longleftrightarrow> i \<noteq> 0"
  by (simp add: VALID_INDEX_def of_nat_rec_0)

text \<open>
  An iterator on a record of a chain points to its neighbours.
\<close>

definition opt_idx :: "nat \<Rightarrow> u16 option" where
  "opt_idx i = (if i = 0 then None else Some (of_nat i))"

definition iter_at :: "nat \<Rightarrow> nat \<Rightarrow> nat \<Rightarrow> ipa_table_iterator" where
  "iter_at p i n = \<lparr>prev_index = of_nat p, prev_entry = opt_idx p, curr_index = of_nat i,
     curr_entry = Some (of_nat i), next_index = of_nat n, next_entry = opt_idx n\<rparr>"

lemma get_entry_by_index_rec:
  assumes "tbl_ok ix t" and "i < tot_n t"
  shows "ipa_table_get_entry_by_index t (of_nat i) = opt_idx i"
  using assms by (simp add: ipa_table_get_entry_by_index_def opt_idx_def word_le_nat_alt of_nat_rec_0)

subsection \<open>The contract\<close>

locale table_entry =
  fixes ifc :: "('e::zero, 'u) ipa_table_entry_interface"
    and wr :: "'e \<Rightarrow> nat \<Rightarrow> u16 \<Rightarrow> 'e"
    and esz oh on od :: nat
    and bt xt :: ipa_table_dma_type
    and ix :: bool
    and uok :: "'u \<Rightarrow> bool"
    and ct :: "'e \<Rightarrow> 'c"
  assumes zero_invalid: "\<not> entry_is_valid ifc 0"
    and zero_next: "entry_get_next_index ifc 0 = 0"
    and wr_next: "entry_get_next_index ifc (wr e on v) = v"
      "entry_is_valid ifc (wr e on v) = entry_is_valid ifc e"
    and wr_head: "entry_get_next_index ifc (wr e oh v) = entry_get_next_index ifc e"
      "\<not> entry_is_valid ifc (wr e oh 0)"
    and wr_del: "entry_is_valid ifc e \<Longrightarrow> entry_is_valid ifc e2 \<Longrightarrow>
        entry_is_valid ifc (wr e od (entry_get_delete_head_dma_command_data ifc e e2))"
      "entry_get_next_index ifc (wr e od v) = entry_get_next_index ifc e"
    and wr_prev: "f \<in> {oh, on, od} \<Longrightarrow>
        entry_get_prev_index ifc (wr e f v) i m te = entry_get_prev_index ifc e i m te"
    and head_insert: "uok u \<Longrightarrow> entry_head_insert ifc e u = (ret, e', d) \<Longrightarrow>
        ret = 0 \<and> entry_get_next_index ifc e' = entry_get_next_index ifc e \<and>
        (\<forall>i m te. entry_get_prev_index ifc e' i m te = entry_get_prev_index ifc e i m te) \<and>
        entry_is_valid ifc e' = entry_is_valid ifc e \<and> (\<forall>e2. entry_is_valid ifc (wr e2 oh d))"
    and tail_insert: "uok u \<Longrightarrow> ix \<Longrightarrow> entry_tail_insert ifc e u = (ret, e') \<Longrightarrow>
        ret = 0 \<and> entry_get_next_index ifc e' = entry_get_next_index ifc e \<and>
        (\<forall>i m te. entry_get_prev_index ifc e' i m te = entry_get_prev_index ifc e i m te) \<and>
        entry_is_valid ifc e'"
    and get_prev: "meta_ok ix n m \<Longrightarrow> unat i < unat te + n \<Longrightarrow> entry_get_prev_index ifc e i m te \<noteq> None"
      "meta_ok ix n m \<Longrightarrow> i < te \<Longrightarrow> entry_get_prev_index ifc 0 i m te = Some 0"
    and set_prev: "meta_ok ix n m \<Longrightarrow> te \<le> i \<Longrightarrow> unat i < unat te + n \<Longrightarrow>
        \<exists>e' m'. entry_set_prev_index ifc e i p m te = Some (e', m') \<and> meta_ok ix n m' \<and>
          entry_get_prev_index ifc e' i m' te = Some p \<and>
          entry_is_valid ifc e' = entry_is_valid ifc e \<and>
          entry_get_next_index ifc e' = entry_get_next_index ifc e \<and>
          (\<forall>j e2. j \<noteq> i \<longrightarrow> entry_get_prev_index ifc e2 j m' te = entry_get_prev_index ifc e2 j m te)"
    and ct_wr: "ct (wr e on v) = ct e"
    and ct_set_prev: "entry_set_prev_index ifc e i p m te = Some (e', m') \<Longrightarrow> ct e' = ct e"
    and offs: "oh < esz" "on < esz" "od < esz" "esz \<le> 65536" "bt \<noteq> xt"
begin

subsection \<open>The views after an update of one record\<close>

lemma view_upd:
  assumes "i < length (recs t)"
  shows "vd ifc (t\<lparr>recs := (recs t)[i := e]\<rparr>) = (vd ifc t)(i := entry_is_valid ifc e)"
    and "nx ifc (t\<lparr>recs := (recs t)[i := e]\<rparr>) = (nx ifc t)(i := unat (entry_get_next_index ifc e))"
    and "pv ifc (t\<lparr>recs := (recs t)[i := e]\<rparr>) =
           (pv ifc t)(i := unat (the (entry_get_prev_index ifc e (of_nat i) (meta t) (table_entries t))))"
  using assms by (auto simp: vd_def nx_def pv_def fun_eq_iff nth_list_update)

lemma zero_view:
  assumes "tbl_ok ix t" and "i < tot_n t" and "recs t ! i = 0"
  shows "\<not> vd ifc t i" and "nx ifc t i = 0" and "i < base_n t \<Longrightarrow> pv ifc t i = 0"
proof -
  note t = tbl_okD [OF assms(1)]
  show "\<not> vd ifc t i" "nx ifc t i = 0" using assms by (simp_all add: vd_def nx_def zero_invalid zero_next)
  assume "i < base_n t"
  then have "(of_nat i :: u16) < table_entries t" using assms(1,2) by (simp add: word_less_nat_alt)
  then show "pv ifc t i = 0" using get_prev(2) [OF t(7)] assms(3) by (simp add: pv_def)
qed

text \<open>A table of zeroed records, as \<open>ipa_table_reset\<close> leaves it, has no chains.\<close>

lemma reset_rep:
  assumes "table_dims_ok t" and "nmi t \<noteq> IPA_NAT_MEM_IN_MAX"
    and "meta_ok ix (unat (expn_table_entries t)) (meta t)"
    and "cur_tbl_cnt t = 0" and "cur_expn_tbl_cnt t = 0"
  shows "tbl_rep ifc ix (ipa_table_reset t) (\<lambda>_. [])"
proof -
  let ?t = "ipa_table_reset t"
  have tot: "tot_n t = base_n t + unat (expn_table_entries t)" using assms(1) by (simp add: table_dims_ok_def)
  then have ok: "tbl_ok ix ?t"
    using assms by (simp add: tbl_ok_def ipa_table_reset_def table_dims_ok_def)
  have "recs ?t ! i = 0" if "i < tot_n ?t" for i using that tot by (simp add: ipa_table_reset_def)
  then have "chain_rep (base_n ?t) (tot_n ?t) (vd ifc ?t) (nx ifc ?t) (pv ifc ?t) (\<lambda>_. [])"
    using zero_view [OF ok] by (intro chain_rep_empty) blast
  then show ?thesis using ok assms
    by (simp add: tbl_rep_def heads_def tails_def ipa_table_reset_def)
qed

subsection \<open>Following a chain\<close>

lemma next_index_word:
  assumes "nx ifc t i = n" shows "entry_get_next_index ifc (recs t ! i) = of_nat n"
  using assms by (auto simp: nx_def)

lemma iterator_end_loop_chain:
  assumes rep: "tbl_rep ifc ix t cs" and "cs b = xs @ x # ys"
  shows "iterator_end_loop ifc t (of_nat x) (of_nat x) =
           Some (True, of_nat (last (cs b)), of_nat (last (cs b)))"
  using assms(2)
proof (induction ys arbitrary: xs x)
  case Nil
  note r = tbl_repD [OF rep]
  have "x \<in> set (cs b)" using Nil by simp
  note m = tbl_rep_mem [OF rep this]
  have "nx ifc t x = 0" using chain_rep_seg_split(2) [OF r(2) Nil] by simp
  then have "entry_get_next_index ifc (recs t ! x) = 0" by (simp add: nx_def unat_eq_zero)
  then show ?case using Nil m(1) r(1) tbl_okD(4) [OF r(1)]
    by (subst iterator_end_loop.simps) (simp add: VALID_INDEX_def)
next
  case (Cons y ys)
  note r = tbl_repD [OF rep]
  have mem: "x \<in> set (cs b)" "y \<in> set (cs b)" using Cons.prems by simp_all
  note m = tbl_rep_mem [OF rep mem(1)] and my = tbl_rep_mem [OF rep mem(2)]
  have n: "entry_get_next_index ifc (recs t ! x) = of_nat y"
    using chain_rep_seg_split(2) [OF r(2) Cons.prems] by (intro next_index_word) simp
  have "x \<noteq> y" using chain_repD(5) [OF r(2), of b] Cons.prems by auto
  then have ne: "(of_nat y :: u16) \<noteq> of_nat x" "(of_nat y :: u16) \<noteq> 0"
    using of_nat_rec_eq_iff [OF r(1) my(1) m(1)] my unat_of_nat_rec [OF r(1) my(1)] by auto
  have "iterator_end_loop ifc t (of_nat y) (of_nat y) = Some (True, of_nat (last (cs b)), of_nat (last (cs b)))"
    using Cons.IH [of "xs @ [x]" y] Cons.prems by simp
  then show ?case using n ne m(1) r(1) tbl_okD(4) [OF r(1)]
    by (subst iterator_end_loop.simps) (simp add: VALID_INDEX_def)
qed

lemma iterator_end_chain:
  assumes rep: "tbl_rep ifc ix t cs" and b: "cs b \<noteq> []"
  shows "ipa_table_iterator_end ifc t (of_nat b) (Some (of_nat b)) =
           Some (0, iterator_zero\<lparr>prev_index := of_nat (last (cs b)),
                                  prev_entry := Some (of_nat (last (cs b)))\<rparr>)"
proof -
  have "cs b = [] @ b # tl (cs b)" using b chain_repD(3) [OF tbl_repD(2) [OF rep] b] by (cases "cs b") auto
  from iterator_end_loop_chain [OF rep this] show ?thesis by (simp add: ipa_table_iterator_end_def)
qed

lemma neighbours:
  assumes rep: "tbl_rep ifc ix t cs" and b: "cs b = xs @ i # ys"
  shows "last (0 # xs) < tot_n t" and "hd (ys @ [0]) < tot_n t"
    and "entry_get_prev_index ifc (recs t ! i) (of_nat i) (meta t) (table_entries t) = Some (of_nat (last (0 # xs)))"
    and "entry_get_next_index ifc (recs t ! i) = of_nat (hd (ys @ [0]))"
    and "i < tot_n t" and "0 < i" and "entry_is_valid ifc (recs t ! i)"
proof -
  note r = tbl_repD [OF rep]
  note t = tbl_okD [OF r(1)]
  have all: "x < tot_n t" if "x \<in> set (cs b)" for x using tbl_rep_mem [OF rep that] by simp
  have pos: "0 < tot_n t" using t by simp
  show "last (0 # xs) < tot_n t" using all pos b by (cases xs rule: rev_cases) auto
  show "hd (ys @ [0]) < tot_n t" using all pos b by (cases ys) auto
  have mem: "i \<in> set (cs b)" using b by simp
  note m = tbl_rep_mem [OF rep mem]
  show "i < tot_n t" "0 < i" "entry_is_valid ifc (recs t ! i)" using m by (auto simp: vd_def)
  have u: "unat (of_nat i :: u16) = i" using m r(1) by simp
  obtain p where p: "entry_get_prev_index ifc (recs t ! i) (of_nat i) (meta t) (table_entries t) = Some p"
    using get_prev(1) [OF t(7), of "of_nat i" "table_entries t"] u m(1) t(5) by fastforce
  have "pv ifc t i = last (0 # xs)" "nx ifc t i = hd (ys @ [0])"
    using chain_rep_seg_split [OF r(2) b] by auto
  then show "entry_get_prev_index ifc (recs t ! i) (of_nat i) (meta t) (table_entries t) = Some (of_nat (last (0 # xs)))"
    "entry_get_next_index ifc (recs t ! i) = of_nat (hd (ys @ [0]))"
    using p by (auto simp: pv_def nx_def intro: word_eq_of_natI simp del: last.simps)
qed

lemma iterator_init_chain:
  assumes rep: "tbl_rep ifc ix t cs" and b: "cs b = xs @ i # ys"
  shows "ipa_table_iterator_init ifc t (of_nat i) (of_nat i) = Some (0, iter_at (last (0 # xs)) i (hd (ys @ [0])))"
proof -
  note n = neighbours [OF assms]
  note r = tbl_repD [OF rep]
  have "mem_read (recs t) (unat (of_nat i :: u16)) = Some (recs t ! i)"
    using n r(1) tbl_okD(4) [OF r(1)] by simp
  then show ?thesis
    using n r(1) VALID_INDEX_rec [OF r(1) n(1)] VALID_INDEX_rec [OF r(1) n(2)]
      get_entry_by_index_rec [OF r(1) n(1)] get_entry_by_index_rec [OF r(1) n(2)]
    by (simp add: ipa_table_iterator_init_def Let_def iter_at_def iterator_zero_def opt_idx_def del: last.simps)
qed

lemma iterator_next_chain:
  assumes rep: "tbl_rep ifc ix t cs" and b: "cs b = xs @ i # j # ys"
  shows "ipa_table_iterator_next ifc t (iter_at p i j) = Some (0, iter_at i j (hd (ys @ [0])))"
proof -
  have b': "cs b = (xs @ [i]) @ j # ys" using b by simp
  note n = neighbours [OF rep b'] and ni = neighbours [OF rep b]
  note r = tbl_repD [OF rep]
  have "mem_read (recs t) (unat (of_nat j :: u16)) = Some (recs t ! j)"
    using n r(1) tbl_okD(4) [OF r(1)] by simp
  then show ?thesis
    using n ni r(1) VALID_INDEX_rec [OF r(1) n(2)] get_entry_by_index_rec [OF r(1) n(2)]
    by (simp add: ipa_table_iterator_next_def Let_def iter_at_def opt_idx_def)
qed

end

subsection \<open>Insertion\<close>

text \<open>Handles and commands do not depend on the records and the counters.\<close>

lemma MakeEntryHdl_upd [simp]:
  "MakeEntryHdl (t\<lparr>recs := rs\<rparr>) i = MakeEntryHdl t i"
  "MakeEntryHdl (t\<lparr>meta := m\<rparr>) i = MakeEntryHdl t i"
  "MakeEntryHdl (t\<lparr>cur_tbl_cnt := c\<rparr>) i = MakeEntryHdl t i"
  "MakeEntryHdl (t\<lparr>cur_expn_tbl_cnt := c\<rparr>) i = MakeEntryHdl t i"
  by (simp_all add: MakeEntryHdl_def)

lemma add_dma_cmd_upd [simp]:
  "ipa_table_add_dma_cmd (t\<lparr>recs := rs\<rparr>) ht p i v cmd = ipa_table_add_dma_cmd t ht p i v cmd"
  "ipa_table_add_dma_cmd (t\<lparr>meta := m\<rparr>) ht p i v cmd = ipa_table_add_dma_cmd t ht p i v cmd"
  by (cases t, simp only: ipa_table_add_dma_cmd_def GOTO_REC_def ipa_table.simps)+

lemma view_cnt_upd [simp]:
  "vd ifc (t\<lparr>cur_tbl_cnt := c\<rparr>) = vd ifc t" "vd ifc (t\<lparr>cur_expn_tbl_cnt := c\<rparr>) = vd ifc t"
  "nx ifc (t\<lparr>cur_tbl_cnt := c\<rparr>) = nx ifc t" "nx ifc (t\<lparr>cur_expn_tbl_cnt := c\<rparr>) = nx ifc t"
  "pv ifc (t\<lparr>cur_tbl_cnt := c\<rparr>) = pv ifc t" "pv ifc (t\<lparr>cur_expn_tbl_cnt := c\<rparr>) = pv ifc t"
  "vd ifc (t\<lparr>meta := m\<rparr>) = vd ifc t" "nx ifc (t\<lparr>meta := m\<rparr>) = nx ifc t"
  by (simp_all add: vd_def nx_def pv_def fun_eq_iff)

lemma tbl_ok_upd [simp]:
  "tbl_ok ix (t\<lparr>cur_tbl_cnt := c\<rparr>) = tbl_ok ix t" "tbl_ok ix (t\<lparr>cur_expn_tbl_cnt := c\<rparr>) = tbl_ok ix t"
  "tbl_ok ix (t\<lparr>recs := (recs t)[i := e]\<rparr>) = tbl_ok ix t"
  by (simp_all add: tbl_ok_def table_dims_ok_def)

lemma tbl_ok_meta:
  "tbl_ok ix t \<Longrightarrow> meta_ok ix (unat (expn_table_entries t)) m \<Longrightarrow> tbl_ok ix (t\<lparr>meta := m\<rparr>)"
  by (simp add: tbl_ok_def table_dims_ok_def)

text \<open>The counters stay far below their width.\<close>

lemma rep_cards:
  assumes "tbl_rep ifc ix t cs"
  shows "finite (heads cs)" and "finite (tails cs)" and "card (heads cs) < 65535" and "card (tails cs) < 65535"
proof -
  note r = tbl_repD [OF assms] and ok = tbl_okD [OF tbl_repD(1) [OF assms]]
  have h: "heads cs \<subseteq> {..<base_n t}" and t: "tails cs \<subseteq> {base_n t..<tot_n t}"
    using chain_rep_heads_subset [OF r(2)] chain_rep_tails_subset [OF r(2)] by auto
  then show "finite (heads cs)" "finite (tails cs)" by (auto intro: finite_subset)
  have "card (heads cs) \<le> base_n t" "card (tails cs) \<le> tot_n t - base_n t"
    using card_mono [OF _ h] card_mono [OF _ t] by simp_all
  then show "card (heads cs) < 65535" "card (tails cs) < 65535" using ok(2,3) by simp_all
qed

lemma unat_cnt_incr: "unat (c :: u16) = n \<Longrightarrow> n < 65535 \<Longrightarrow> unat (c + 1) = Suc n"
  using unat_Suc_u16 [of c] by simp

lemma unat_cnt_decr: "unat (c :: u16) = Suc n \<Longrightarrow> unat (c - 1) = n"
  using unat_pred_u16 [of c] by force

text \<open>The record and the commands of an insertion into the expansion area.\<close>

definition tail_entry ::
    "('e, 'u) ipa_table_entry_interface \<Rightarrow> bool \<Rightarrow> 'e \<Rightarrow> 'u \<Rightarrow> int \<times> 'e \<times> u16" where
  "tail_entry ifc ix e u = (if ix then (let (r, e') = entry_tail_insert ifc e u in (r, e', 0))
                            else entry_head_insert ifc e u)"

definition tail_cmds ::
    "bool \<Rightarrow> 'e ipa_table \<Rightarrow> nat \<Rightarrow> nat \<Rightarrow> u16 \<Rightarrow> ipa_ioc_nat_dma_cmd \<Rightarrow> ipa_ioc_nat_dma_cmd" where
  "tail_cmds ix t l i v cmd =
     push_cmd (if ix then cmd else push_cmd cmd (dma_cmd_for t HELP_UPDATE_HEAD i v))
       (dma_cmd_for t HELP_UPDATE_ENTRY l (of_nat i))"

context table_entry
begin

lemma add_entry_head:
  assumes rep: "tbl_rep ifc ix t cs" and d: "dma_ok bt xt esz oh on od t" and u: "uok u"
    and b: "0 < b" "b < base_n t" "cs b = []" and r: "room cmd (Suc n)"
    and hi: "entry_head_insert ifc (recs t ! b) u = (ret, e', v)"
  shows "ipa_table_add_entry ifc t u (of_nat b) cmd =
      Some (0, t\<lparr>recs := (recs t)[b := e'], cur_tbl_cnt := cur_tbl_cnt t + 1\<rparr>, of_nat b,
            ucast (MakeEntryHdl t (of_nat b)), push_cmd cmd (dma_cmd_for t HELP_UPDATE_HEAD b v))"
proof -
  note rp = tbl_repD [OF rep] and ok = tbl_okD [OF tbl_repD(1) [OF rep]]
  have lt: "b < tot_n t" using b ok by simp
  have un: "unat (of_nat b :: u16) = b" using rp(1) lt by simp
  have "\<not> vd ifc t b" using chain_rep_base_valid_iff [OF rp(2) _ b(2)] b(3) ok(2) by simp
  then have nv: "\<not> entry_is_valid ifc (recs t ! b)" by (simp add: vd_def)
  have ret: "ret = 0" using head_insert [OF u hi] by simp
  have cmd: "ipa_table_add_dma_cmd t HELP_UPDATE_HEAD (Some (of_nat b)) (of_nat b) v cmd
      = Some (0, push_cmd cmd (dma_cmd_for t HELP_UPDATE_HEAD b v))"
    by (rule add_dma_cmd_eq [OF rp(1) d _ lt r]) simp
  show ?thesis using nv ret lt un hi ok(4) cmd
    by (simp add: ipa_table_add_entry_def InsertHead_def)
qed

lemma free_expn:
  assumes "filter (\<lambda>i. \<not> vd ifc t i) [base_n t..<tot_n t] = i # rest"
  shows "base_n t \<le> i" and "i < tot_n t" and "\<not> vd ifc t i"
proof -
  have "i \<in> set (filter (\<lambda>i. \<not> vd ifc t i) [base_n t..<tot_n t])" using assms by simp
  then show "base_n t \<le> i" "i < tot_n t" "\<not> vd ifc t i" by auto
qed

lemma tail_entry_facts:
  assumes "uok u" and "tail_entry ifc ix e u = (ret, e', v)"
  shows "ret = 0" and "entry_get_next_index ifc e' = entry_get_next_index ifc e"
    and "entry_get_prev_index ifc e' i m te = entry_get_prev_index ifc e i m te"
    and "ix \<Longrightarrow> entry_is_valid ifc e'" and "\<not> ix \<Longrightarrow> entry_is_valid ifc (wr e2 oh v)"
  using assms head_insert [OF assms(1), of e ret e' v] tail_insert [OF assms(1), of e ret e']
  by (auto simp: tail_entry_def split: if_splits prod.splits)

lemma add_entry_tail:
  assumes rep: "tbl_rep ifc ix t cs" and d: "dma_ok bt xt esz oh on od t" and u: "uok u"
    and b: "cs b \<noteq> []" and r: "room cmd (Suc (Suc n))"
    and fr: "filter (\<lambda>i. \<not> vd ifc t i) [base_n t..<tot_n t] = i # rest"
    and te: "tail_entry ifc ix (recs t ! i) u = (ret, e', v)"
    and sp: "entry_set_prev_index ifc e' (of_nat i) (of_nat (last (cs b))) (meta t) (table_entries t) = Some (e'', m'')"
  shows "ipa_table_add_entry ifc t u (of_nat b) cmd =
      Some (0, t\<lparr>recs := (recs t)[i := e''], meta := m'', cur_expn_tbl_cnt := cur_expn_tbl_cnt t + 1\<rparr>, of_nat i,
            ucast (MakeEntryHdl t (of_nat i)), tail_cmds ix t (last (cs b)) i v cmd)"
proof -
  note rp = tbl_repD [OF rep] and ok = tbl_okD [OF tbl_repD(1) [OF rep]]
  note f = free_expn [OF fr]
  have lb: "last (cs b) \<in> set (cs b)" "b \<in> set (cs b)"
    using b chain_repD(3) [OF rp(2) b] by (simp, metis hd_in_set)
  note l = tbl_rep_mem [OF rep lb(1)] and mb = tbl_rep_mem [OF rep lb(2)]
  have vb: "entry_is_valid ifc (recs t ! b)" using mb by (simp add: vd_def)
  have un: "unat (of_nat b :: u16) = b" "unat (of_nat i :: u16) = i" using rp(1) mb f by simp_all
  have ret: "ret = 0" using tail_entry_facts(1) [OF u te] .
  have find: "FindExpnTblFreeEntry ifc t = Some (0, Some (of_nat i), of_nat i)"
    using find_free_eq [OF rp(1), of ifc] fr by simp
  have r': "room (push_cmd cmd c) (Suc n)" "room cmd (Suc n)" for c
    using push_cmd_facts(2) [OF r] r by (auto simp: room_def)
  have c1: "ipa_table_add_dma_cmd t HELP_UPDATE_HEAD (Some (of_nat i)) (of_nat i) v cmd
      = Some (0, push_cmd cmd (dma_cmd_for t HELP_UPDATE_HEAD i v))"
    by (rule add_dma_cmd_eq [OF rp(1) d _ f(2) r]) simp
  have c2: "ipa_table_add_dma_cmd t HELP_UPDATE_ENTRY (Some (of_nat (last (cs b)))) (of_nat (last (cs b))) w c
      = Some (0, push_cmd c (dma_cmd_for t HELP_UPDATE_ENTRY (last (cs b)) w))" if "room c (Suc n)" for w c
    by (rule add_dma_cmd_eq [OF rp(1) d _ l(1) that]) simp
  have te': "(if meta t \<noteq> None then let (r, e') = entry_tail_insert ifc (recs t ! i) u in (r, e', 0)
              else entry_head_insert ifc (recs t ! i) u) = (0, e', v)"
    using te ret by (simp only: tail_entry_def ok(8))
  show ?thesis
    using vb un ok(4,8) mb(1) f iterator_end_chain [OF rep b] find te' sp c1 c2 r'
    by - (simp add: ipa_table_add_entry_def InsertTail_def Let_def tail_cmds_def iterator_zero_def
        split del: if_split cong: if_cong, cases ix; simp)
qed

lemma add_entry_full:
  assumes rep: "tbl_rep ifc ix t cs" and b: "cs b \<noteq> []"
    and fr: "filter (\<lambda>i. \<not> vd ifc t i) [base_n t..<tot_n t] = []"
  shows "ipa_table_add_entry ifc t u (of_nat b) cmd = Some (- 1, t, of_nat b, 0, cmd)"
proof -
  note rp = tbl_repD [OF rep] and ok = tbl_okD [OF tbl_repD(1) [OF rep]]
  have "b \<in> set (cs b)" using b chain_repD(3) [OF rp(2) b] by (metis hd_in_set)
  note mb = tbl_rep_mem [OF rep this]
  have vb: "entry_is_valid ifc (recs t ! b)" using mb by (simp add: vd_def)
  have find: "FindExpnTblFreeEntry ifc t = Some (- 1, None, 0)"
    using find_free_eq [OF rp(1), of ifc] fr by simp
  show ?thesis
    using vb rp(1) mb(1) ok(4) iterator_end_chain [OF rep b] find
    by (simp add: ipa_table_add_entry_def InsertTail_def Let_def)
qed

text \<open>The table after the commands of an insertion have been executed.\<close>

lemma insert_head_rep:
  assumes rep: "tbl_rep ifc ix t cs" and b: "0 < b" "b < base_n t" "cs b = []"
    and e: "entry_is_valid ifc e" "entry_get_next_index ifc e = entry_get_next_index ifc (recs t ! b)"
      "\<And>i m te. entry_get_prev_index ifc e i m te = entry_get_prev_index ifc (recs t ! b) i m te"
  shows "tbl_rep ifc ix (t\<lparr>recs := (recs t)[b := e], cur_tbl_cnt := cur_tbl_cnt t + 1\<rparr>) (cs(b := [b]))"
proof -
  note rp = tbl_repD [OF rep] and ok = tbl_okD [OF tbl_repD(1) [OF rep]] and c = rep_cards [OF rep]
  have lt: "b < length (recs t)" using b ok by simp
  have same: "(nx ifc t)(b := unat (entry_get_next_index ifc e)) = nx ifc t"
    "(pv ifc t)(b := unat (the (entry_get_prev_index ifc e (of_nat b) (meta t) (table_entries t)))) = pv ifc t"
    using e by (auto simp: nx_def pv_def)
  have "chain_rep (base_n t) (tot_n t) ((vd ifc t)(b := True)) (nx ifc t) (pv ifc t) (cs(b := [b]))"
    using ok(2) by (intro chain_rep_insert_head [OF rp(2) _ b]) simp
  moreover have "tails (cs(b := [b])) = tails cs"
    using chain_rep_tails_upd [OF rp(2), of b "[b]"] b(3) by simp
  moreover have "card (insert b (heads cs)) = Suc (card (heads cs))" using c(1) b(3) by (simp add: heads_def)
  ultimately show ?thesis
    using rp c(3) e(1) unat_cnt_incr [OF rp(3)] unfolding tbl_rep_def
    by (simp add: view_upd [OF lt] same heads_upd)
qed

lemma insert_tail_rep:
  assumes rep: "tbl_rep ifc ix t cs" and b: "cs b \<noteq> []"
    and i: "base_n t \<le> i" "i < tot_n t" "\<not> vd ifc t i"
    and e: "entry_is_valid ifc e" "entry_get_next_index ifc e = entry_get_next_index ifc (recs t ! i)"
      "entry_get_prev_index ifc e (of_nat i) m (table_entries t) = Some (of_nat (last (cs b)))"
    and m: "meta_ok ix (unat (expn_table_entries t)) m"
      "\<And>j e. j \<noteq> of_nat i \<Longrightarrow> entry_get_prev_index ifc e j m (table_entries t)
                              = entry_get_prev_index ifc e j (meta t) (table_entries t)"
  shows "tbl_rep ifc ix
     (t\<lparr>recs := (recs t)[i := e, last (cs b) := wr (recs t ! last (cs b)) on (of_nat i)], meta := m,
        cur_expn_tbl_cnt := cur_expn_tbl_cnt t + 1\<rparr>) (cs(b := cs b @ [i]))" (is "tbl_rep ifc ix ?t2 _")
proof -
  note rp = tbl_repD [OF rep] and ok = tbl_okD [OF tbl_repD(1) [OF rep]] and c = rep_cards [OF rep]
  let ?l = "last (cs b)"
  have "?l \<in> set (cs b)" using b by simp
  note l = tbl_rep_mem [OF rep this]
  have il: "i \<noteq> ?l" using i(3) l(3) by auto
  have un: "unat (of_nat i :: u16) = i" "unat (of_nat ?l :: u16) = ?l" using rp(1) i(2) l(1) by simp_all
  have v: "vd ifc ?t2 = (vd ifc t)(i := True)"
    using e(1) l(3) i(2) l(1) il ok(4) by (auto simp: vd_def fun_eq_iff nth_list_update wr_next)
  have n: "nx ifc ?t2 = (nx ifc t)(?l := i)"
    using e(2) i(2) l(1) il ok(4) un by (auto simp: nx_def fun_eq_iff nth_list_update wr_next)
  have p: "pv ifc ?t2 j = ((pv ifc t)(i := ?l)) j" if "j < tot_n t" for j
  proof (cases "j = i")
    case True
    then show ?thesis using e(3) i(2) il ok(4) un by (simp add: pv_def nth_list_update)
  next
    case False
    then have "(of_nat j :: u16) \<noteq> of_nat i" using of_nat_rec_eq_iff [OF rp(1) that i(2)] by simp
    then show ?thesis using False m(2) l(1) ok(4) that by (simp add: pv_def nth_list_update wr_prev)
  qed
  have "chain_rep (base_n t) (tot_n t) ((vd ifc t)(i := True)) ((nx ifc t)(?l := i)) ((pv ifc t)(i := ?l))
      (cs(b := cs b @ [i]))"
    using ok(2) by (intro chain_rep_insert_tail [OF rp(2) _ b i]) simp
  then have "chain_rep (base_n t) (tot_n t) (vd ifc ?t2) (nx ifc ?t2) (pv ifc ?t2) (cs(b := cs b @ [i]))"
    by (rule chain_rep_cong [rotated 2]) (use v n p ok(2) in simp_all)
  moreover have "tbl_ok ix ?t2" using tbl_ok_meta [OF rp(1) m(1)] by (simp add: tbl_ok_def table_dims_ok_def)
  moreover have "i \<notin> tails cs" using chain_rep_expn_valid_iff [OF rp(2) i(1,2)] i(3) by simp
  then have "card (tails (cs(b := cs b @ [i]))) = Suc (card (tails cs))"
    using c(2) by (simp add: tails_insert_tail b)
  moreover have "heads (cs(b := cs b @ [i])) = heads cs" using b by (auto simp: heads_def)
  ultimately show ?thesis using rp(3) unat_cnt_incr [OF rp(4) c(4)] by (simp add: tbl_rep_def)
qed

end

subsection \<open>What the operations leave alone\<close>

definition same_shape :: "'e ipa_table \<Rightarrow> 'e ipa_table \<Rightarrow> bool" where
  "same_shape t t' \<longleftrightarrow>
     t' = t\<lparr>recs := recs t', meta := meta t', cur_tbl_cnt := cur_tbl_cnt t',
            cur_expn_tbl_cnt := cur_expn_tbl_cnt t'\<rparr>"

lemma same_shapeD:
  assumes "same_shape t t'"
  shows "nmi t' = nmi t" and "entry_size t' = entry_size t" and "table_entries t' = table_entries t"
    and "expn_table_entries t' = expn_table_entries t" and "tot_tbl_ents t' = tot_tbl_ents t"
    and "table_addr t' = table_addr t" and "expn_table_addr t' = expn_table_addr t"
    and "dma_help t' = dma_help t" and "dma_ok bt xt esz oh on od t' = dma_ok bt xt esz oh on od t"
  using assms by (cases t; cases t'; simp add: same_shape_def dma_ok_def)+

context table_entry
begin

subsection \<open>Taking back an insertion\<close>

lemma erase_fresh:
  assumes rep: "tbl_rep ifc ix t cs" and i: "i < tot_n t" "\<not> vd ifc t i"
    and m: "meta_ok ix (unat (expn_table_entries t)) m"
      "\<And>j e. j \<noteq> of_nat i \<or> i < base_n t \<Longrightarrow> entry_get_prev_index ifc e j m (table_entries t)
                              = entry_get_prev_index ifc e j (meta t) (table_entries t)"
  shows "tbl_rep ifc ix (t\<lparr>recs := (recs t)[i := 0], meta := m\<rparr>) cs" (is "tbl_rep ifc ix ?t2 cs")
proof -
  note rp = tbl_repD [OF rep] and ok = tbl_okD [OF tbl_repD(1) [OF rep]]
  have ok2: "tbl_ok ix ?t2" using tbl_ok_meta [OF rp(1) m(1)] by (simp add: tbl_ok_def table_dims_ok_def)
  have inv: "nx ifc t i = 0" "i < base_n t \<Longrightarrow> pv ifc t i = 0"
    using rp(2) i unfolding chain_rep_def by auto
  have z: "\<not> vd ifc ?t2 i" "nx ifc ?t2 i = 0" "i < base_n t \<Longrightarrow> pv ifc ?t2 i = 0"
    using zero_view [OF ok2, of i] i ok(4) by simp_all
  have v: "vd ifc ?t2 j = vd ifc t j" "nx ifc ?t2 j = nx ifc t j" if "j < tot_n t" for j
    using z inv i that ok(4) by (cases "j = i"; simp add: vd_def nx_def)+
  have p: "pv ifc ?t2 j = pv ifc t j" if "j < tot_n t" "vd ifc t j \<or> j < base_n t" for j
  proof (cases "j = i")
    case False
    then have "(of_nat j :: u16) \<noteq> of_nat i" using of_nat_rec_eq_iff [OF rp(1) that(1) i(1)] by simp
    then show ?thesis using False m(2) by (simp add: pv_def)
  qed (use that i z(3) inv(2) in auto)
  have "chain_rep (base_n t) (tot_n t) (vd ifc ?t2) (nx ifc ?t2) (pv ifc ?t2) cs"
    using rp(2) by (rule chain_rep_cong [rotated 2]) (use v p ok(2) in auto)
  then show ?thesis using ok2 rp by (simp add: tbl_rep_def)
qed

lemma erase_entry_eq:
  assumes "i < length (recs t)" and "unat (of_nat i :: u16) = i"
  shows "ipa_table_erase_entry t (of_nat i) =
    Some (if i < base_n t then t\<lparr>recs := (recs t)[i := 0], cur_tbl_cnt := cur_tbl_cnt t - 1\<rparr>
          else t\<lparr>recs := (recs t)[i := 0], cur_expn_tbl_cnt := cur_expn_tbl_cnt t - 1\<rparr>)"
  using assms by (auto simp: ipa_table_erase_entry_def word_less_nat_alt Let_def)

subsection \<open>Deletion\<close>

lemma create_delete_command_chain:
  assumes rep: "tbl_rep ifc ix t cs" and d: "dma_ok bt xt esz oh on od t" and r: "room cmd (Suc k)"
    and b: "cs b = xs @ i # ys"
  shows "ipa_table_create_delete_command ifc t cmd (iter_at (last (0 # xs)) i (hd (ys @ [0]))) =
     Some (push_cmd cmd
       (if xs \<noteq> [] then dma_cmd_for t HELP_UPDATE_ENTRY (last xs) (of_nat (hd (ys @ [0])))
        else if ys = [] then dma_cmd_for t HELP_UPDATE_HEAD i 0
        else dma_cmd_for t HELP_DELETE_HEAD i
               (entry_get_delete_head_dma_command_data ifc (recs t ! i) (recs t ! hd ys))))"
proof -
  note rp = tbl_repD [OF rep] and n = neighbours [OF rep b]
  note ok = tbl_okD [OF rp(1)]
  have add: "ipa_table_add_dma_cmd t ht (Some (of_nat j)) (of_nat j) v cmd = Some (0, push_cmd cmd (dma_cmd_for t ht j v))"
    if "ht \<noteq> HELP_UPDATE_MAX" "j < tot_n t" for ht j v
    using add_dma_cmd_eq [OF rp(1) d that(1,2) r] .
  show ?thesis
  proof (cases "xs = []")
    case False
    then have "last xs \<in> set (cs b)" using b by simp
    note m = tbl_rep_mem [OF rep this]
    then show ?thesis using False add VALID_INDEX_rec [OF rp(1) m(1)]
      by (simp add: ipa_table_create_delete_command_def iter_at_def opt_idx_def)
  next
    case True
    show ?thesis
    proof (cases ys)
      case Nil
      then show ?thesis using True add n by (simp add: ipa_table_create_delete_command_def iter_at_def opt_idx_def)
    next
      case (Cons y zs)
      then have "y \<in> set (cs b)" using b by simp
      note m = tbl_rep_mem [OF rep this]
      have "mem_read (recs t) (unat (of_nat y :: u16)) = Some (recs t ! y)"
        "mem_read (recs t) (unat (of_nat i :: u16)) = Some (recs t ! i)"
        using m n rp(1) ok(4) by simp_all
      then show ?thesis using Cons True add n m VALID_INDEX_rec [OF rp(1) m(1)]
        by (simp add: ipa_table_create_delete_command_def iter_at_def opt_idx_def)
    qed
  qed
qed

text \<open>A record that is the whole chain is erased after its flags were cleared.\<close>

lemma erase_single_rep:
  assumes rep: "tbl_rep ifc ix t cs" and b: "cs b = [b]"
  shows "tbl_rep ifc ix (t\<lparr>recs := (recs t)[b := 0], cur_tbl_cnt := cur_tbl_cnt t - 1\<rparr>) (cs(b := []))"
    (is "tbl_rep ifc ix ?t2 _")
proof -
  note rp = tbl_repD [OF rep] and ok = tbl_okD [OF tbl_repD(1) [OF rep]] and c = rep_cards [OF rep]
  have lt: "b < base_n t" "b < tot_n t" using chain_repD [OF rp(2), of b] b ok(2) by auto
  have "pv ifc ?t2 b = 0" using zero_view(3) [of ?t2 b] rp(1) lt ok(4) by simp
  then have views: "vd ifc ?t2 = (vd ifc t)(b := False)" "nx ifc ?t2 = (nx ifc t)(b := 0)"
    "pv ifc ?t2 = (pv ifc t)(b := 0)"
    using lt ok(4) by (auto simp: vd_def nx_def pv_def fun_eq_iff zero_invalid zero_next nth_list_update)
  have "chain_rep (base_n t) (tot_n t) (vd ifc ?t2) (nx ifc ?t2) (pv ifc ?t2) (cs(b := []))"
    unfolding views by (rule chain_rep_delete_single [OF rp(2) b])
  moreover have "card (heads cs) = Suc (card (heads cs - {b}))"
    using card_Suc_Diff1 [OF c(1), of b] b by (simp add: heads_def)
  moreover have "tails (cs(b := [])) = tails cs" using chain_rep_tails_upd [OF rp(2), of b "[]"] b by simp
  ultimately show ?thesis using rp unat_cnt_decr [of "cur_tbl_cnt t"] by (simp add: tbl_rep_def heads_upd)
qed

text \<open>Unlinking a record behind the head: the DMA command moved the next index of its predecessor.\<close>

lemma unlink_views:
  assumes rep: "tbl_rep ifc ix t cs" and b: "cs b = xs @ p # i # ys"
    and t2: "tbl_ok ix t2" "same_shape t t2"
      "\<And>j. j < tot_n t \<Longrightarrow> vd ifc t2 j = ((vd ifc t)(i := False)) j"
      "\<And>j. j < tot_n t \<Longrightarrow> nx ifc t2 j = ((nx ifc t)(p := hd (ys @ [0]), i := 0)) j"
      "\<And>j. j < tot_n t \<Longrightarrow> j \<noteq> i \<Longrightarrow> pv ifc t2 j = (if ys \<noteq> [] \<and> j = hd ys then p else pv ifc t j)"
      "cur_tbl_cnt t2 = cur_tbl_cnt t" "cur_expn_tbl_cnt t2 = cur_expn_tbl_cnt t - 1"
  shows "tbl_rep ifc ix t2 (cs(b := xs @ p # ys))"
proof -
  note rp = tbl_repD [OF rep] and ok = tbl_okD [OF tbl_repD(1) [OF rep]] and c = rep_cards [OF rep]
  note sh = same_shapeD [OF t2(2)]
  have ch: "chain_rep (base_n t) (tot_n t) ((vd ifc t)(i := False)) ((nx ifc t)(p := hd (ys @ [0]), i := 0))
      (if ys = [] then (pv ifc t)(i := pv ifc t2 i) else (pv ifc t)(hd ys := p, i := pv ifc t2 i))
      (cs(b := xs @ p # ys))"
    by (rule chain_rep_unlink [OF rp(2) b])
  have "chain_rep (base_n t) (tot_n t) (vd ifc t2) (nx ifc t2) (pv ifc t2) (cs(b := xs @ p # ys))"
    using ch by (rule chain_rep_cong [rotated 2]) (use t2(3-5) ok(2) in auto)
  moreover have "distinct (cs b)" using chain_repD(5) [OF rp(2), of b] b by simp
  then have tl: "set (tl (cs b)) = insert i (set (tl (xs @ p # ys)))" "i \<notin> set (tl (xs @ p # ys))"
    using b by (cases xs; auto)+
  then have "i \<in> tails cs" "tails (cs(b := xs @ p # ys)) = tails cs - {i}"
    using chain_rep_tails_upd [OF rp(2), of b "xs @ p # ys"] by (auto simp: tails_def)
  then have "card (tails cs) = Suc (card (tails (cs(b := xs @ p # ys))))"
    using card_Suc_Diff1 [OF c(2), of i] by simp
  moreover have "heads (cs(b := xs @ p # ys)) = heads cs" using b by (auto simp: heads_def)
  ultimately show ?thesis using rp t2(1,6,7) sh unat_cnt_decr [of "cur_expn_tbl_cnt t"]
    by (simp add: tbl_rep_def)
qed

lemma delete_entry_unlink:
  assumes rep: "tbl_rep ifc ix t cs" and b: "cs b = xs @ p # i # ys"
    and e: "entry_is_valid ifc e" "entry_get_next_index ifc e = of_nat (hd (ys @ [0]))"
      "\<And>i m te. entry_get_prev_index ifc e i m te = entry_get_prev_index ifc (recs t ! p) i m te"
    and ipe: "ys \<noteq> [] \<or> \<not> ipe"
  obtains t3 where "ipa_table_delete_entry ifc (t\<lparr>recs := (recs t)[p := e]\<rparr>) (iter_at p i (hd (ys @ [0]))) ipe = Some t3"
    and "tbl_rep ifc ix t3 (cs(b := xs @ p # ys))" and "same_shape t t3" and "recs t3 ! i = 0" and "recs t3 ! p = e"
    and "\<And>j. j \<noteq> i \<Longrightarrow> j \<noteq> p \<Longrightarrow> ct (recs t3 ! j) = ct (recs t ! j)"
proof -
  note rp = tbl_repD [OF rep] and ok = tbl_okD [OF tbl_repD(1) [OF rep]]
  have b': "cs b = (xs @ [p]) @ i # ys" using b by simp
  note ni = neighbours [OF rep b'] and np = neighbours [OF rep b]
  have d: "distinct (xs @ p # i # ys)" using chain_repD(5) [OF rp(2), of b] b by simp
  have iexp: "\<not> i < base_n t" using chain_repD(4) [OF rp(2), of b] b by (cases xs) auto
  have un: "unat (of_nat i :: u16) = i" "unat (of_nat p :: u16) = p" using rp(1) ni np by simp_all
  have nxp: "unat (of_nat (hd (ys @ [0])) :: u16) = hd (ys @ [0])" using rp(1) ni(2) by simp
  show thesis
  proof (cases ys)
    case Nil
    let ?t3 = "t\<lparr>recs := (recs t)[p := e, i := 0], cur_expn_tbl_cnt := cur_expn_tbl_cnt t - 1\<rparr>"
    have del: "ipa_table_delete_entry ifc (t\<lparr>recs := (recs t)[p := e]\<rparr>) (iter_at p i (hd (ys @ [0]))) ipe = Some ?t3"
      using Nil ipe erase_entry_eq [of i "t\<lparr>recs := (recs t)[p := e]\<rparr>"] un ni ok(4) iexp
      by (simp add: ipa_table_delete_entry_def iter_at_def)
    have "tbl_rep ifc ix ?t3 (cs(b := xs @ p # ys))"
      by (rule unlink_views [OF rep b])
        (use Nil rp(1) ni np d e ok(4) in \<open>auto simp: same_shape_def tbl_ok_def table_dims_ok_def
            vd_def nx_def pv_def nth_list_update zero_invalid zero_next\<close>)
    then show thesis by (rule that [OF del]) (use ni np d ok(4) in \<open>auto simp: same_shape_def\<close>)
  next
    case (Cons y zs)
    have "y \<in> set (cs b)" using b Cons by simp
    note my = tbl_rep_mem [OF rep this]
    have yb: "\<not> y < base_n t" using chain_repD(4) [OF rp(2), of b] b Cons by (cases xs) auto
    have uy: "unat (of_nat y :: u16) = y" using rp(1) my by simp
    obtain e' m' where sp: "entry_set_prev_index ifc (recs t ! y) (of_nat y) (of_nat p) (meta t) (table_entries t) = Some (e', m')"
      and m': "meta_ok ix (unat (expn_table_entries t)) m'"
      and pe: "entry_get_prev_index ifc e' (of_nat y) m' (table_entries t) = Some (of_nat p)"
      and ve: "entry_is_valid ifc e' = entry_is_valid ifc (recs t ! y)"
      and ne: "entry_get_next_index ifc e' = entry_get_next_index ifc (recs t ! y)"
      and oe: "\<And>j e2. j \<noteq> of_nat y \<Longrightarrow> entry_get_prev_index ifc e2 j m' (table_entries t) = entry_get_prev_index ifc e2 j (meta t) (table_entries t)"
      using set_prev [OF ok(7), of "table_entries t" "of_nat y" "recs t ! y" "of_nat p"] yb uy my(1) ok(5)
      by (auto simp: word_le_nat_alt)
    let ?t3 = "t\<lparr>recs := (recs t)[p := e, y := e', i := 0], meta := m', cur_expn_tbl_cnt := cur_expn_tbl_cnt t - 1\<rparr>"
    have dy: "y \<noteq> p" "y \<noteq> i" "i \<noteq> p" using d Cons by auto
    have del: "ipa_table_delete_entry ifc (t\<lparr>recs := (recs t)[p := e]\<rparr>) (iter_at p i (hd (ys @ [0]))) ipe = Some ?t3"
      using Cons erase_entry_eq [of i "t\<lparr>recs := (recs t)[p := e, y := e'], meta := m'\<rparr>"] un uy ni my ok(4) iexp sp dy
        VALID_INDEX_rec [OF rp(1) my(1)]
      by (simp add: ipa_table_delete_entry_def iter_at_def opt_idx_def)
    have pvs: "pv ifc ?t3 j = (if ys \<noteq> [] \<and> j = hd ys then p else pv ifc t j)" if "j < tot_n t" "j \<noteq> i" for j
    proof (cases "j = y")
      case True
      then show ?thesis using Cons pe my(1) ok(4) dy un by (simp add: pv_def nth_list_update)
    next
      case False
      then have "(of_nat j :: u16) \<noteq> of_nat y" using of_nat_rec_eq_iff [OF rp(1) that(1) my(1)] by simp
      then show ?thesis using False that Cons oe e(3) np ok(4) by (auto simp: pv_def nth_list_update)
    qed
    have "tbl_rep ifc ix ?t3 (cs(b := xs @ p # ys))"
    proof (rule unlink_views [OF rep b _ _ _ _ pvs])
      show "tbl_ok ix ?t3" using tbl_ok_meta [OF rp(1) m'] by (simp add: tbl_ok_def table_dims_ok_def)
      show "vd ifc ?t3 j = ((vd ifc t)(i := False)) j" if "j < tot_n t" for j
        using that dy ve e(1) np(5,7) ni(5) ok(4) my(1,3) by (auto simp: vd_def nth_list_update zero_invalid)
      show "nx ifc ?t3 j = ((nx ifc t)(p := hd (ys @ [0]), i := 0)) j" if "j < tot_n t" for j
        using that dy ne e(2) ok(4) my(1) nxp np(5) ni(5) by (auto simp: nx_def nth_list_update zero_next)
    qed (simp_all add: same_shape_def)
    then show thesis
      by (rule that [OF del]) (use ni np dy my ok(4) ct_set_prev [OF sp] in \<open>auto simp: same_shape_def nth_list_update\<close>)
  qed
qed

lemma delete_entry_last_of_dead:
  assumes rep: "tbl_rep ifc ix t cs" and b: "cs b = [p, i]"
    and e: "entry_is_valid ifc e" "entry_get_next_index ifc e = 0"
      "\<And>i m te. entry_get_prev_index ifc e i m te = entry_get_prev_index ifc (recs t ! p) i m te"
  obtains t3 where "ipa_table_delete_entry ifc (t\<lparr>recs := (recs t)[p := e]\<rparr>) (iter_at p i 0) True = Some t3"
    and "tbl_rep ifc ix t3 (cs(b := []))" and "same_shape t t3" and "recs t3 ! i = 0" and "recs t3 ! p = 0"
    and "\<And>j. j \<noteq> i \<Longrightarrow> j \<noteq> p \<Longrightarrow> recs t3 ! j = recs t ! j" and "meta t3 = meta t"
proof -
  note rp = tbl_repD [OF rep] and ok = tbl_okD [OF tbl_repD(1) [OF rep]]
  have b2: "cs b = [] @ p # i # []" "cs b = [p] @ i # []" using b by simp_all
  note np = neighbours [OF rep b2(1)] and ni = neighbours [OF rep b2(2)]
  have pb: "p = b" using chain_repD(3) [OF rp(2), of b] b by simp
  have d: "p \<noteq> i" using chain_repD(5) [OF rp(2), of b] b by simp
  have iexp: "\<not> i < base_n t" using chain_repD(4) [OF rp(2), of b] b by simp
  have un: "unat (of_nat i :: u16) = i" "unat (of_nat p :: u16) = p" using rp(1) ni np by simp_all
  let ?t2 = "t\<lparr>recs := (recs t)[p := e, i := 0], cur_expn_tbl_cnt := cur_expn_tbl_cnt t - 1\<rparr>"
  let ?t3 = "t\<lparr>recs := (recs t)[p := 0, i := 0], cur_tbl_cnt := cur_tbl_cnt t - 1, cur_expn_tbl_cnt := cur_expn_tbl_cnt t - 1\<rparr>"
  have "tbl_rep ifc ix ?t2 (cs(b := [] @ p # []))"
    by (rule unlink_views [OF rep b2(1)])
      (use rp(1) ni np d e ok(4) in \<open>auto simp: same_shape_def tbl_ok_def table_dims_ok_def
          vd_def nx_def pv_def nth_list_update zero_invalid zero_next\<close>)
  then have "tbl_rep ifc ix (?t2\<lparr>recs := (recs ?t2)[b := 0], cur_tbl_cnt := cur_tbl_cnt ?t2 - 1\<rparr>) ((cs(b := [] @ p # []))(b := []))"
    by (rule erase_single_rep) (simp add: pb)
  moreover have "?t2\<lparr>recs := (recs ?t2)[b := 0], cur_tbl_cnt := cur_tbl_cnt ?t2 - 1\<rparr> = ?t3"
    using d pb by (simp add: list_update_swap)
  ultimately have "tbl_rep ifc ix ?t3 (cs(b := []))" by simp
  moreover have "ipa_table_delete_entry ifc (t\<lparr>recs := (recs t)[p := e]\<rparr>) (iter_at p i 0) True = Some ?t3"
    using erase_entry_eq [of i "t\<lparr>recs := (recs t)[p := 0], cur_tbl_cnt := cur_tbl_cnt t - 1\<rparr>"] un ni np ok(4) iexp
    by (simp add: ipa_table_delete_entry_def iter_at_def opt_idx_def)
  ultimately show thesis using that ni np ok(4) d by (auto simp: same_shape_def nth_list_update)
qed

end

end
