(* ===== verification/Table_Contract.thy ===== *)
theory Table_Contract
  imports Table_Ops
begin

section \<open>Insertion into a table, its execution and its withdrawal\<close>

text \<open>
  One lemma for the clients of \<open>ipa_table_add_entry\<close>: the record it chooses, the table before the
  DMA commands are executed, what the commands make of it when the client fills in the record in
  between, and what is left when the client erases it again because the commands were not accepted.
\<close>

text \<open>The expansion area has a free record.\<close>

definition has_free :: "('e, 'u) ipa_table_entry_interface \<Rightarrow> 'e ipa_table \<Rightarrow> bool" where
  "has_free ifc t \<longleftrightarrow> (\<exists>i. base_n t \<le> i \<and> i < tot_n t \<and> \<not> vd ifc t i)"

text \<open>
  The inserted record and the value of the command that enables it, for a new head and for a tail.
\<close>

definition new_entry ::
    "('e, 'u) ipa_table_entry_interface \<Rightarrow> bool \<Rightarrow> bool \<Rightarrow> 'e \<Rightarrow> 'u \<Rightarrow> 'e \<times> u16" where
  "new_entry ifc ix head e u = snd (if head then entry_head_insert ifc e u else tail_entry ifc ix e u)"

text \<open>Two records with the same links; in an index table also both in use or both free.\<close>

definition link_eq :: "('e, 'u) ipa_table_entry_interface \<Rightarrow> bool \<Rightarrow> 'e \<Rightarrow> 'e \<Rightarrow> bool" where
  "link_eq ifc ix e e2 \<longleftrightarrow>
     entry_get_next_index ifc e2 = entry_get_next_index ifc e \<and>
     (\<forall>i m te. entry_get_prev_index ifc e2 i m te = entry_get_prev_index ifc e i m te) \<and>
     (ix \<longrightarrow> entry_is_valid ifc e2 = entry_is_valid ifc e)"

text \<open>
  The result of an insertion of \<open>u\<close> into the chain \<open>b\<close>: the record \<open>i\<close>, the table \<open>t1\<close> before the commands
  \<open>new\<close> are executed, its record \<open>e1\<close>, the value \<open>v\<close> that enables it. Whatever the client makes of the
  record, as long as it keeps the links, the commands complete the chain, and erasing the record takes
  the insertion back.
\<close>

definition inserted ::
    "('e::zero, 'u) ipa_table_entry_interface \<Rightarrow> ('e \<Rightarrow> nat \<Rightarrow> u16 \<Rightarrow> 'e) \<Rightarrow> nat \<Rightarrow> ipa_table_dma_type \<Rightarrow> ipa_table_dma_type
     \<Rightarrow> bool \<Rightarrow> ('e \<Rightarrow> 'c) \<Rightarrow> 'e ipa_table \<Rightarrow> (nat \<Rightarrow> nat list) \<Rightarrow> nat \<Rightarrow> 'u
     \<Rightarrow> nat \<Rightarrow> 'e ipa_table \<Rightarrow> ipa_ioc_nat_dma_one list \<Rightarrow> 'e \<Rightarrow> 'e \<Rightarrow> u16 \<Rightarrow> bool" where
  "inserted ifc wr oh bt xt ix ct t cs b u i t1 new e1 e' v \<longleftrightarrow>
     (\<forall>c\<in>set new. d_base_addr c \<in> {dma_type_val bt, dma_type_val xt}) \<and>
     i < tot_n t \<and> 0 < i \<and> \<not> vd ifc t i \<and> (cs b = [] \<longrightarrow> i = b) \<and> (cs b \<noteq> [] \<longrightarrow> base_n t \<le> i) \<and>
     same_shape t t1 \<and> recs t1 = (recs t)[i := e1] \<and>
     new_entry ifc ix (cs b = []) (recs t ! i) u = (e', v) \<and> ct e1 = ct e' \<and>
     (\<forall>e2. link_eq ifc ix e1 e2 \<longrightarrow>
           (\<exists>t3. dma_exec wr bt xt new (t1\<lparr>recs := (recs t1)[i := e2]\<rparr>) = t3 \<and>
             tbl_rep ifc ix t3 (cs(b := cs b @ [i])) \<and> same_shape t t3 \<and>
             recs t3 ! i = (if ix \<and> cs b \<noteq> [] then e2 else wr e2 oh v) \<and>
             (\<forall>j. j \<noteq> i \<longrightarrow> ct (recs t3 ! j) = ct (recs t ! j)))) \<and>
     (\<forall>e2. \<exists>t4. ipa_table_erase_entry (t1\<lparr>recs := (recs t1)[i := e2]\<rparr>) (of_nat i) = Some t4 \<and>
             tbl_rep ifc ix t4 cs \<and> same_shape t t4 \<and> recs t4 = (recs t)[i := 0])"

lemma insertedD:
  assumes "inserted ifc wr oh bt xt ix ct t cs b u i t1 new e1 e' v"
  shows "\<forall>c\<in>set new. d_base_addr c \<in> {dma_type_val bt, dma_type_val xt}"
    and "i < tot_n t" and "0 < i" and "\<not> vd ifc t i" and "cs b = [] \<Longrightarrow> i = b"
    and "same_shape t t1" and "recs t1 = (recs t)[i := e1]"
    and "new_entry ifc ix (cs b = []) (recs t ! i) u = (e', v)" and "ct e1 = ct e'"
  using assms by (simp_all add: inserted_def)

lemma inserted_exec:
  assumes "inserted ifc wr oh bt xt ix ct t cs b u i t1 new e1 e' v" and "link_eq ifc ix e1 e2"
  obtains t3 where "dma_exec wr bt xt new (t1\<lparr>recs := (recs t1)[i := e2]\<rparr>) = t3"
    and "tbl_rep ifc ix t3 (cs(b := cs b @ [i]))" and "same_shape t t3"
    and "recs t3 ! i = (if ix \<and> cs b \<noteq> [] then e2 else wr e2 oh v)"
    and "\<And>j. j \<noteq> i \<Longrightarrow> ct (recs t3 ! j) = ct (recs t ! j)"
  using assms unfolding inserted_def by blast

lemma inserted_erase:
  assumes "inserted ifc wr oh bt xt ix ct t cs b u i t1 new e1 e' v"
  obtains t4 where "ipa_table_erase_entry (t1\<lparr>recs := (recs t1)[i := e2]\<rparr>) (of_nat i) = Some t4"
    and "tbl_rep ifc ix t4 cs" and "same_shape t t4" and "recs t4 = (recs t)[i := 0]"
  using assms unfolding inserted_def by blast

lemma inserted_same_rec:
  assumes "inserted ifc wr oh bt xt ix ct t cs b u i t1 new e1 e' v" and "tbl_ok ix t"
  shows "t1\<lparr>recs := (recs t1)[i := e1]\<rparr> = t1"
  using insertedD(7) [OF assms(1)] by simp

lemma new_entryE:
  assumes "new_entry ifc ix h e u = (e', v)"
  obtains ret where "(if h then entry_head_insert ifc e u else tail_entry ifc ix e u) = (ret, e', v)"
  using assms that [of "fst (if h then entry_head_insert ifc e u else tail_entry ifc ix e u)"]
  by (simp only: new_entry_def prod_eq_iff fst_conv snd_conv)

context table_entry
begin

lemma new_entry_facts:
  assumes "uok u" and "new_entry ifc ix h e u = (e', v)"
  shows "entry_get_next_index ifc e' = entry_get_next_index ifc e"
    and "entry_get_prev_index ifc e' i m te = entry_get_prev_index ifc e i m te"
    and "\<not> h \<Longrightarrow> ix \<Longrightarrow> entry_is_valid ifc e'" and "h \<or> \<not> ix \<Longrightarrow> entry_is_valid ifc (wr e2 oh v)"
proof -
  from assms(2) obtain ret where r: "(if h then entry_head_insert ifc e u else tail_entry ifc ix e u) = (ret, e', v)"
    by (auto elim!: new_entryE)
  show "entry_get_next_index ifc e' = entry_get_next_index ifc e"
    "entry_get_prev_index ifc e' i m te = entry_get_prev_index ifc e i m te"
    "\<not> h \<Longrightarrow> ix \<Longrightarrow> entry_is_valid ifc e'" "h \<or> \<not> ix \<Longrightarrow> entry_is_valid ifc (wr e2 oh v)"
    using r head_insert [OF assms(1), of e ret e' v] tail_entry_facts [OF assms(1), of e ret e' v]
    by (cases h; auto)+
qed

lemma dma_exec_cmds:
  assumes "tbl_ok ix t" and "dma_ok bt xt esz oh on od t" and "i < tot_n t"
  shows "dma_exec_one wr bt xt (dma_cmd_for t HELP_UPDATE_HEAD i v) t = t\<lparr>recs := (recs t)[i := wr (recs t ! i) oh v]\<rparr>"
    and "dma_exec_one wr bt xt (dma_cmd_for t HELP_UPDATE_ENTRY i v) t = t\<lparr>recs := (recs t)[i := wr (recs t ! i) on v]\<rparr>"
    and "dma_exec_one wr bt xt (dma_cmd_for t HELP_DELETE_HEAD i v) t = t\<lparr>recs := (recs t)[i := wr (recs t ! i) od v]\<rparr>"
  using dma_exec_cmd_for [OF assms(1,2) _ assms(3), of _ wr v] offs by (simp_all add: help_off_def)

lemma dma_cmd_for_shape:
  "same_shape t t' \<Longrightarrow> dma_cmd_for t' ht i v = dma_cmd_for t ht i v"
  by (simp only: dma_cmd_for_def same_shapeD(2,3,8) [of t t'])

lemma tbl_ok_shape:
  "same_shape t t' \<Longrightarrow> tbl_ok ix t \<Longrightarrow> length (recs t') = length (recs t) \<Longrightarrow>
   meta_ok ix (unat (expn_table_entries t)) (meta t') \<Longrightarrow> tbl_ok ix t'"
  using same_shapeD [of t t'] by (simp add: tbl_ok_def table_dims_ok_def)

lemma add_entry_head_contract:
  assumes rep: "tbl_rep ifc ix t cs" and d: "dma_ok bt xt esz oh on od t" and u: "uok u"
    and b: "0 < b" "b < base_n t" "cs b = []" and r: "room cmd (Suc n)"
    and ne: "new_entry ifc ix True (recs t ! b) u = (e', v)"
  defines "t1 \<equiv> t\<lparr>recs := (recs t)[b := e'], cur_tbl_cnt := cur_tbl_cnt t + 1\<rparr>"
    and "c \<equiv> dma_cmd_for t HELP_UPDATE_HEAD b v"
  shows "ipa_table_add_entry ifc t u (of_nat b) cmd =
           Some (0, t1, of_nat b, ucast (MakeEntryHdl t (of_nat b)), push_cmd cmd c)"
    and "\<And>e2. entry_get_next_index ifc e2 = entry_get_next_index ifc e' \<Longrightarrow>
           (\<And>i m te. entry_get_prev_index ifc e2 i m te = entry_get_prev_index ifc e' i m te) \<Longrightarrow>
           dma_exec wr bt xt [c] (t1\<lparr>recs := (recs t1)[b := e2]\<rparr>) = t1\<lparr>recs := (recs t)[b := wr e2 oh v]\<rparr> \<and>
           tbl_rep ifc ix (t1\<lparr>recs := (recs t)[b := wr e2 oh v]\<rparr>) (cs(b := [b]))"
    and "\<And>e2. ipa_table_erase_entry (t1\<lparr>recs := (recs t1)[b := e2]\<rparr>) (of_nat b) = Some (t\<lparr>recs := (recs t)[b := 0]\<rparr>)"
    and "tbl_rep ifc ix (t\<lparr>recs := (recs t)[b := 0]\<rparr>) cs"
proof -
  note rp = tbl_repD [OF rep] and ok = tbl_okD [OF tbl_repD(1) [OF rep]]
  have lt: "b < tot_n t" "b < length (recs t)" using b ok by simp_all
  obtain ret where hi: "entry_head_insert ifc (recs t ! b) u = (ret, e', v)"
    using ne by (auto elim!: new_entryE)
  show "ipa_table_add_entry ifc t u (of_nat b) cmd =
           Some (0, t1, of_nat b, ucast (MakeEntryHdl t (of_nat b)), push_cmd cmd c)"
    unfolding t1_def c_def by (rule add_entry_head [OF rep d u b r hi])
  note f = new_entry_facts [OF u ne]
  show "dma_exec wr bt xt [c] (t1\<lparr>recs := (recs t1)[b := e2]\<rparr>) = t1\<lparr>recs := (recs t)[b := wr e2 oh v]\<rparr> \<and>
      tbl_rep ifc ix (t1\<lparr>recs := (recs t)[b := wr e2 oh v]\<rparr>) (cs(b := [b]))"
    if e2: "entry_get_next_index ifc e2 = entry_get_next_index ifc e'"
      "\<And>i m te. entry_get_prev_index ifc e2 i m te = entry_get_prev_index ifc e' i m te" for e2
  proof
    let ?t = "t1\<lparr>recs := (recs t1)[b := e2]\<rparr>"
    have sh: "same_shape t ?t" by (simp add: same_shape_def t1_def)
    have ok': "tbl_ok ix ?t" by (rule tbl_ok_shape [OF sh rp(1)]) (use ok(7) in \<open>simp_all add: t1_def\<close>)
    have "dma_ok bt xt esz oh on od ?t" using d same_shapeD(9) [OF sh] by simp
    from dma_exec_cmds(1) [OF ok' this, of b v] lt
    show "dma_exec wr bt xt [c] ?t = t1\<lparr>recs := (recs t)[b := wr e2 oh v]\<rparr>"
      unfolding c_def dma_cmd_for_shape [OF sh] by (simp add: t1_def)
    have "tbl_rep ifc ix (t\<lparr>recs := (recs t)[b := wr e2 oh v], cur_tbl_cnt := cur_tbl_cnt t + 1\<rparr>) (cs(b := [b]))"
      by (rule insert_head_rep [OF rep b]) (use f e2 in \<open>simp_all add: wr_head wr_prev\<close>)
    moreover have "t1\<lparr>recs := rs\<rparr> = t\<lparr>recs := rs, cur_tbl_cnt := cur_tbl_cnt t + 1\<rparr>" for rs
      by (cases t) (simp add: t1_def)
    ultimately show "tbl_rep ifc ix (t1\<lparr>recs := (recs t)[b := wr e2 oh v]\<rparr>) (cs(b := [b]))" by (simp only:)
  qed
  show "ipa_table_erase_entry (t1\<lparr>recs := (recs t1)[b := e2]\<rparr>) (of_nat b) = Some (t\<lparr>recs := (recs t)[b := 0]\<rparr>)" for e2
    using erase_entry_eq [of b "t1\<lparr>recs := (recs t1)[b := e2]\<rparr>"] lt rp(1) b(2) by (simp add: t1_def)
  have nv: "\<not> vd ifc t b" using chain_rep_base_valid_iff [OF rp(2) _ b(2)] b(3) ok(2) by simp
  show "tbl_rep ifc ix (t\<lparr>recs := (recs t)[b := 0]\<rparr>) cs"
    using erase_fresh [OF rep lt(1) nv ok(7)] by simp
qed

lemma add_entry_tail_contract:
  assumes rep: "tbl_rep ifc ix t cs" and d: "dma_ok bt xt esz oh on od t" and u: "uok u"
    and b: "cs b \<noteq> []" and r: "room cmd (Suc (Suc n))"
    and fr: "filter (\<lambda>i. \<not> vd ifc t i) [base_n t..<tot_n t] = i # rest"
    and ne: "new_entry ifc ix False (recs t ! i) u = (e', v)"
  obtains e'' m'' t1 where "t1 = t\<lparr>recs := (recs t)[i := e''], meta := m'', cur_expn_tbl_cnt := cur_expn_tbl_cnt t + 1\<rparr>"
    and "ipa_table_add_entry ifc t u (of_nat b) cmd =
           Some (0, t1, of_nat i, ucast (MakeEntryHdl t (of_nat i)), tail_cmds ix t (last (cs b)) i v cmd)"
    and "ct e'' = ct e'"
    and "\<forall>e2. link_eq ifc ix e'' e2 \<longrightarrow>
           (let t3 = t1\<lparr>recs := (recs t)[i := if ix then e2 else wr e2 oh v,
                                   last (cs b) := wr (recs t ! last (cs b)) on (of_nat i)]\<rparr> in
           dma_exec wr bt xt ((if ix then [] else [dma_cmd_for t HELP_UPDATE_HEAD i v]) @
               [dma_cmd_for t HELP_UPDATE_ENTRY (last (cs b)) (of_nat i)]) (t1\<lparr>recs := (recs t1)[i := e2]\<rparr>) = t3 \<and>
           tbl_rep ifc ix t3 (cs(b := cs b @ [i])))"
    and "\<forall>e2. ipa_table_erase_entry (t1\<lparr>recs := (recs t1)[i := e2]\<rparr>) (of_nat i)
           = Some (t\<lparr>recs := (recs t)[i := 0], meta := m''\<rparr>)"
    and "tbl_rep ifc ix (t\<lparr>recs := (recs t)[i := 0], meta := m''\<rparr>) cs"
proof -
  note rp = tbl_repD [OF rep] and ok = tbl_okD [OF tbl_repD(1) [OF rep]] and f = free_expn [OF fr]
  let ?l = "last (cs b)"
  have "?l \<in> set (cs b)" using b by simp
  note l = tbl_rep_mem [OF rep this]
  have il: "i \<noteq> ?l" using f(3) l(3) by auto
  have un: "unat (of_nat i :: u16) = i" using rp(1) f by simp
  obtain ret where te: "tail_entry ifc ix (recs t ! i) u = (ret, e', v)" using ne by (auto elim!: new_entryE)
  note g = new_entry_facts [OF u ne]
  obtain e'' m'' where sp: "entry_set_prev_index ifc e' (of_nat i) (of_nat ?l) (meta t) (table_entries t) = Some (e'', m'')"
    and m: "meta_ok ix (unat (expn_table_entries t)) m''"
    and pe: "entry_get_prev_index ifc e'' (of_nat i) m'' (table_entries t) = Some (of_nat ?l)"
    and ve: "entry_is_valid ifc e'' = entry_is_valid ifc e'" "entry_get_next_index ifc e'' = entry_get_next_index ifc e'"
    and oe: "\<And>j e2. j \<noteq> of_nat i \<Longrightarrow> entry_get_prev_index ifc e2 j m'' (table_entries t) = entry_get_prev_index ifc e2 j (meta t) (table_entries t)"
    using set_prev [OF ok(7), of "table_entries t" "of_nat i" e' "of_nat ?l"] f un ok(5)
    by (auto simp: word_le_nat_alt)
  define t1 where "t1 = t\<lparr>recs := (recs t)[i := e''], meta := m'', cur_expn_tbl_cnt := cur_expn_tbl_cnt t + 1\<rparr>"
  have exec: "dma_exec wr bt xt ((if ix then [] else [dma_cmd_for t HELP_UPDATE_HEAD i v]) @
          [dma_cmd_for t HELP_UPDATE_ENTRY ?l (of_nat i)]) (t1\<lparr>recs := (recs t1)[i := e2]\<rparr>) =
        t1\<lparr>recs := (recs t)[i := if ix then e2 else wr e2 oh v, ?l := wr (recs t ! ?l) on (of_nat i)]\<rparr>" for e2
  proof -
    have sh: "same_shape t (t1\<lparr>recs := (recs t)[i := e]\<rparr>)" for e by (simp add: same_shape_def t1_def)
    have ok': "tbl_ok ix (t1\<lparr>recs := (recs t)[i := e]\<rparr>)" for e
      by (rule tbl_ok_shape [OF sh rp(1)]) (use m in \<open>simp_all add: t1_def\<close>)
    have d': "dma_ok bt xt esz oh on od (t1\<lparr>recs := (recs t)[i := e]\<rparr>)" for e
      using d same_shapeD(9) [OF sh] by simp
    have h: "dma_exec_one wr bt xt (dma_cmd_for t HELP_UPDATE_HEAD i v) (t1\<lparr>recs := (recs t)[i := e2]\<rparr>)
        = t1\<lparr>recs := (recs t)[i := wr e2 oh v]\<rparr>"
      using dma_exec_cmds(1) [OF ok' d', of i e2 v] f(2) ok(4) unfolding dma_cmd_for_shape [OF sh]
      by (simp add: t1_def)
    have n: "dma_exec_one wr bt xt (dma_cmd_for t HELP_UPDATE_ENTRY ?l (of_nat i)) (t1\<lparr>recs := (recs t)[i := e]\<rparr>)
        = t1\<lparr>recs := (recs t)[i := e, ?l := wr (recs t ! ?l) on (of_nat i)]\<rparr>" for e
      using dma_exec_cmds(2) [OF ok' d', of ?l e "of_nat i"] l(1) il unfolding dma_cmd_for_shape [OF sh]
      by (simp add: t1_def)
    have "t1\<lparr>recs := (recs t1)[i := e2]\<rparr> = t1\<lparr>recs := (recs t)[i := e2]\<rparr>" by (simp add: t1_def)
    then show ?thesis using h n by (cases ix) simp_all
  qed
  have rep3: "tbl_rep ifc ix (t1\<lparr>recs := (recs t)[i := if ix then e2 else wr e2 oh v, ?l := wr (recs t ! ?l) on (of_nat i)]\<rparr>)
      (cs(b := cs b @ [i]))"
    if "link_eq ifc ix e'' e2" for e2
  proof -
    have "tbl_rep ifc ix (t\<lparr>recs := (recs t)[i := if ix then e2 else wr e2 oh v, ?l := wr (recs t ! ?l) on (of_nat i)],
        meta := m'', cur_expn_tbl_cnt := cur_expn_tbl_cnt t + 1\<rparr>) (cs(b := cs b @ [i]))"
      by (rule insert_tail_rep [OF rep b f _ _ _ m oe])
        (use that g ve pe in \<open>auto simp: wr_head wr_prev link_eq_def\<close>)
    moreover have "t1\<lparr>recs := rs\<rparr> = t\<lparr>recs := rs, meta := m'', cur_expn_tbl_cnt := cur_expn_tbl_cnt t + 1\<rparr>" for rs
      by (cases t) (simp add: t1_def)
    ultimately show ?thesis by (simp only:)
  qed
  have er: "ipa_table_erase_entry (t1\<lparr>recs := (recs t1)[i := e2]\<rparr>) (of_nat i)
      = Some (t\<lparr>recs := (recs t)[i := 0], meta := m''\<rparr>)" for e2
    using erase_entry_eq [of i "t1\<lparr>recs := (recs t1)[i := e2]\<rparr>"] un f ok(4) by (simp add: t1_def)
  have rep4: "tbl_rep ifc ix (t\<lparr>recs := (recs t)[i := 0], meta := m''\<rparr>) cs"
    using erase_fresh [OF rep f(2,3) m] oe f(1) by auto
  have add: "ipa_table_add_entry ifc t u (of_nat b) cmd =
      Some (0, t1, of_nat i, ucast (MakeEntryHdl t (of_nat i)), tail_cmds ix t ?l i v cmd)"
    unfolding t1_def by (rule add_entry_tail [OF rep d u b r fr te sp])
  show thesis
    by (rule that [OF t1_def add ct_set_prev [OF sp] _ _ rep4]) (simp_all add: exec rep3 er Let_def del: dma_exec_simps)
qed

lemma room_mono: "room cmd n \<Longrightarrow> m \<le> n \<Longrightarrow> room cmd m"
  by (auto simp: room_def)

lemma push_cmd_tail:
  assumes "room cmd (Suc (Suc n))"
  shows "cmds_of (tail_cmds ix t l i v cmd) = cmds_of cmd @
      ((if ix then [] else [dma_cmd_for t HELP_UPDATE_HEAD i v]) @ [dma_cmd_for t HELP_UPDATE_ENTRY l (of_nat i)])"
    and "room (tail_cmds ix t l i v cmd) (if ix then Suc n else n)"
    and "mem_type (tail_cmds ix t l i v cmd) = mem_type cmd"
  using push_cmd_facts [OF assms] push_cmd_facts [OF push_cmd_facts(2) [OF assms]] by (auto simp: tail_cmds_def)

lemma dma_cmd_for_base_addr:
  assumes "dma_ok bt xt esz oh on od t" and "ht \<noteq> HELP_UPDATE_MAX"
  shows "d_base_addr (dma_cmd_for t ht i v) \<in> {dma_type_val bt, dma_type_val xt}"
proof -
  obtain h where "dma_help t ! help_val ht = Some h" "h_table_type h = bt" "h_expn_table_type h = xt"
    using dma_ok_helper [OF assms] by metis
  then show ?thesis by (simp add: dma_cmd_for_def Let_def)
qed

text \<open>
  An insertion that finds room: the record \<open>i\<close> it chooses, the table before the commands, what the
  commands make of it when the client changes the record in between, and what erasing it leaves.
\<close>

lemma add_entry_contract:
  assumes rep: "tbl_rep ifc ix t cs" and d: "dma_ok bt xt esz oh on od t" and u: "uok u"
    and b: "0 < b" "b < base_n t" and r: "room cmd (Suc (Suc n))" and fr: "cs b = [] \<or> has_free ifc t"
  obtains i e1 e' v t1 new cmd1 where
    "ipa_table_add_entry ifc t u (of_nat b) cmd = Some (0, t1, of_nat i, ucast (MakeEntryHdl t (of_nat i)), cmd1)"
    and "cmds_of cmd1 = cmds_of cmd @ new" and "room cmd1 (if ix then Suc n else n)" and "mem_type cmd1 = mem_type cmd"
    and "\<forall>c\<in>set new. d_base_addr c \<in> {dma_type_val bt, dma_type_val xt}"
    and "i < tot_n t" and "0 < i" and "\<not> vd ifc t i" and "cs b = [] \<Longrightarrow> i = b" and "cs b \<noteq> [] \<Longrightarrow> base_n t \<le> i"
    and "same_shape t t1" and "recs t1 = (recs t)[i := e1]"
    and "new_entry ifc ix (cs b = []) (recs t ! i) u = (e', v)" and "ct e1 = ct e'"
    and "\<forall>e2. link_eq ifc ix e1 e2 \<longrightarrow>
           (\<exists>t3. dma_exec wr bt xt new (t1\<lparr>recs := (recs t1)[i := e2]\<rparr>) = t3 \<and>
             tbl_rep ifc ix t3 (cs(b := cs b @ [i])) \<and> same_shape t t3 \<and>
             recs t3 ! i = (if ix \<and> cs b \<noteq> [] then e2 else wr e2 oh v) \<and>
             (\<forall>j. j \<noteq> i \<longrightarrow> ct (recs t3 ! j) = ct (recs t ! j)))"
    and "\<forall>e2. \<exists>t4. ipa_table_erase_entry (t1\<lparr>recs := (recs t1)[i := e2]\<rparr>) (of_nat i) = Some t4 \<and>
             tbl_rep ifc ix t4 cs \<and> same_shape t t4 \<and> recs t4 = (recs t)[i := 0]"
proof (cases "cs b = []")
  case True
  note rp = tbl_repD [OF rep] and ok = tbl_okD [OF tbl_repD(1) [OF rep]]
  have lt: "b < tot_n t" using b ok by simp
  obtain e' v where ne: "new_entry ifc ix True (recs t ! b) u = (e', v)" by fastforce
  have nv: "\<not> vd ifc t b" using chain_rep_base_valid_iff [OF rp(2) _ b(2)] True ok(2) by simp
  note h = add_entry_head_contract [OF rep d u b True r ne]
  note p = push_cmd_facts [OF r]
  have "room (push_cmd cmd (dma_cmd_for t HELP_UPDATE_HEAD b v)) (if ix then Suc n else n)"
    using room_mono [OF p(2)] by simp
  then show thesis
  proof (rule that [OF h(1) p(1) _ p(3) _ lt b(1) nv])
    show "\<forall>c\<in>set [dma_cmd_for t HELP_UPDATE_HEAD b v]. d_base_addr c \<in> {dma_type_val bt, dma_type_val xt}"
      using dma_cmd_for_base_addr [OF d, of HELP_UPDATE_HEAD] by auto
    let ?t1 = "t\<lparr>recs := (recs t)[b := e'], cur_tbl_cnt := cur_tbl_cnt t + 1\<rparr>"
    show "same_shape t ?t1" "recs ?t1 = (recs t)[b := e']" by (simp_all add: same_shape_def)
    show "new_entry ifc ix (cs b = []) (recs t ! b) u = (e', v)" using ne True by simp
    show "\<forall>e2. \<exists>t4. ipa_table_erase_entry (?t1\<lparr>recs := (recs ?t1)[b := e2]\<rparr>) (of_nat b) = Some t4 \<and>
        tbl_rep ifc ix t4 cs \<and> same_shape t t4 \<and> recs t4 = (recs t)[b := 0]"
      using h(3) h(4) by (simp add: same_shape_def)
    have "\<exists>t3. dma_exec wr bt xt [dma_cmd_for t HELP_UPDATE_HEAD b v] (?t1\<lparr>recs := (recs ?t1)[b := e2]\<rparr>) = t3 \<and>
        tbl_rep ifc ix t3 (cs(b := cs b @ [b])) \<and> same_shape t t3 \<and>
        recs t3 ! b = (if ix \<and> cs b \<noteq> [] then e2 else wr e2 oh v) \<and>
        (\<forall>j. j \<noteq> b \<longrightarrow> ct (recs t3 ! j) = ct (recs t ! j))"
      if "link_eq ifc ix e' e2" for e2
    proof (intro exI conjI)
      show "tbl_rep ifc ix (?t1\<lparr>recs := (recs t)[b := wr e2 oh v]\<rparr>) (cs(b := cs b @ [b]))"
        and "dma_exec wr bt xt [dma_cmd_for t HELP_UPDATE_HEAD b v] (?t1\<lparr>recs := (recs ?t1)[b := e2]\<rparr>)
             = ?t1\<lparr>recs := (recs t)[b := wr e2 oh v]\<rparr>"
        using h(2) [of e2] that True by (simp_all add: link_eq_def)
    qed (use lt ok(4) True in \<open>simp_all add: same_shape_def\<close>)
    then show "\<forall>e2. link_eq ifc ix e' e2 \<longrightarrow> (\<exists>t3. dma_exec wr bt xt [dma_cmd_for t HELP_UPDATE_HEAD b v] (?t1\<lparr>recs := (recs ?t1)[b := e2]\<rparr>) = t3 \<and>
        tbl_rep ifc ix t3 (cs(b := cs b @ [b])) \<and> same_shape t t3 \<and>
        recs t3 ! b = (if ix \<and> cs b \<noteq> [] then e2 else wr e2 oh v) \<and>
        (\<forall>j. j \<noteq> b \<longrightarrow> ct (recs t3 ! j) = ct (recs t ! j)))" by blast
  qed (use True in simp_all)
next
  case False
  note rp = tbl_repD [OF rep] and ok = tbl_okD [OF tbl_repD(1) [OF rep]]
  obtain i rest where fl: "filter (\<lambda>i. \<not> vd ifc t i) [base_n t..<tot_n t] = i # rest"
    using fr False unfolding has_free_def by (cases "filter (\<lambda>i. \<not> vd ifc t i) [base_n t..<tot_n t]") (auto simp: filter_empty_conv)
  note f = free_expn [OF fl]
  obtain e' v where ne: "new_entry ifc ix False (recs t ! i) u = (e', v)" by fastforce
  have l: "last (cs b) < tot_n t" "last (cs b) \<noteq> i"
    using tbl_rep_mem [OF rep, of "last (cs b)" b] False f(3) by auto
  obtain e'' m'' t1 where
    c: "t1 = t\<lparr>recs := (recs t)[i := e''], meta := m'', cur_expn_tbl_cnt := cur_expn_tbl_cnt t + 1\<rparr>"
      "ipa_table_add_entry ifc t u (of_nat b) cmd =
         Some (0, t1, of_nat i, ucast (MakeEntryHdl t (of_nat i)), tail_cmds ix t (last (cs b)) i v cmd)"
      "ct e'' = ct e'"
    and c4: "\<forall>e2. link_eq ifc ix e'' e2 \<longrightarrow>
           (let t3 = t1\<lparr>recs := (recs t)[i := if ix then e2 else wr e2 oh v,
                                   last (cs b) := wr (recs t ! last (cs b)) on (of_nat i)]\<rparr> in
           dma_exec wr bt xt ((if ix then [] else [dma_cmd_for t HELP_UPDATE_HEAD i v]) @
               [dma_cmd_for t HELP_UPDATE_ENTRY (last (cs b)) (of_nat i)]) (t1\<lparr>recs := (recs t1)[i := e2]\<rparr>) = t3 \<and>
           tbl_rep ifc ix t3 (cs(b := cs b @ [i])))"
    and c5: "\<forall>e2. ipa_table_erase_entry (t1\<lparr>recs := (recs t1)[i := e2]\<rparr>) (of_nat i)
           = Some (t\<lparr>recs := (recs t)[i := 0], meta := m''\<rparr>)"
      "tbl_rep ifc ix (t\<lparr>recs := (recs t)[i := 0], meta := m''\<rparr>) cs"
    by (rule add_entry_tail_contract [OF rep d u False r fl ne])
  have i0: "0 < i" using f(1) ok(1) by simp
  note p = push_cmd_tail [OF r]
  show thesis
  proof (rule that [OF c(2) p _ f(2) i0 f(3)])
    show "\<forall>c\<in>set ((if ix then [] else [dma_cmd_for t HELP_UPDATE_HEAD i v]) @
        [dma_cmd_for t HELP_UPDATE_ENTRY (last (cs b)) (of_nat i)]). d_base_addr c \<in> {dma_type_val bt, dma_type_val xt}"
      using dma_cmd_for_base_addr [OF d] by auto
    show "same_shape t t1" "recs t1 = (recs t)[i := e'']" "ct e'' = ct e'" using c by (simp_all add: same_shape_def)
    show "new_entry ifc ix (cs b = []) (recs t ! i) u = (e', v)" using ne False by simp
    show "\<forall>e2. \<exists>t4. ipa_table_erase_entry (t1\<lparr>recs := (recs t1)[i := e2]\<rparr>) (of_nat i) = Some t4 \<and>
        tbl_rep ifc ix t4 cs \<and> same_shape t t4 \<and> recs t4 = (recs t)[i := 0]"
      using c5 by (simp add: same_shape_def)
    show "\<forall>e2. link_eq ifc ix e'' e2 \<longrightarrow>
        (\<exists>t3. dma_exec wr bt xt ((if ix then [] else [dma_cmd_for t HELP_UPDATE_HEAD i v]) @
          [dma_cmd_for t HELP_UPDATE_ENTRY (last (cs b)) (of_nat i)]) (t1\<lparr>recs := (recs t1)[i := e2]\<rparr>) = t3 \<and>
        tbl_rep ifc ix t3 (cs(b := cs b @ [i])) \<and> same_shape t t3 \<and>
        recs t3 ! i = (if ix \<and> cs b \<noteq> [] then e2 else wr e2 oh v) \<and>
        (\<forall>j. j \<noteq> i \<longrightarrow> ct (recs t3 ! j) = ct (recs t ! j)))"
      using c4 l f(2) ok(4) False
      by (simp add: Let_def c(1) same_shape_def nth_list_update ct_wr del: dma_exec_simps)
  qed (use f False in auto)
qed

lemma add_entry_inserted:
  assumes rep: "tbl_rep ifc ix t cs" and d: "dma_ok bt xt esz oh on od t" and u: "uok u"
    and b: "0 < b" "b < base_n t" and r: "room cmd (Suc (Suc n))" and fr: "cs b = [] \<or> has_free ifc t"
  obtains i t1 new e1 e' v cmd1 where
    "ipa_table_add_entry ifc t u (of_nat b) cmd = Some (0, t1, of_nat i, ucast (MakeEntryHdl t (of_nat i)), cmd1)"
    and "cmds_of cmd1 = cmds_of cmd @ new" and "room cmd1 (if ix then Suc n else n)"
    and "inserted ifc wr oh bt xt ix ct t cs b u i t1 new e1 e' v"
proof (rule add_entry_contract [OF assms])
qed (rule that, assumption+, simp only: inserted_def, blast)

lemma add_entry_no_room:
  assumes "tbl_rep ifc ix t cs" and "cs b \<noteq> []" and "\<not> has_free ifc t"
  shows "ipa_table_add_entry ifc t u (of_nat b) cmd = Some (- 1, t, of_nat b, 0, cmd)"
  by (rule add_entry_full [OF assms(1,2)]) (use assms(3) in \<open>auto simp: has_free_def filter_empty_conv\<close>)

end

subsection \<open>Deletion together with the execution of its commands\<close>

context table_entry
begin

lemma delete_tail:
  assumes rep: "tbl_rep ifc ix t cs" and d: "dma_ok bt xt esz oh on od t" and b: "cs b = xs @ p # i # ys"
    and ipe: "ys \<noteq> [] \<or> \<not> ipe"
  obtains t3 where
    "ipa_table_delete_entry ifc (dma_exec wr bt xt [dma_cmd_for t HELP_UPDATE_ENTRY p (of_nat (hd (ys @ [0])))] t)
       (iter_at p i (hd (ys @ [0]))) ipe = Some t3"
    and "tbl_rep ifc ix t3 (cs(b := xs @ p # ys))" and "same_shape t t3" and "recs t3 ! i = 0"
    and "\<And>j. j \<noteq> i \<Longrightarrow> ct (recs t3 ! j) = ct (recs t ! j)"
proof -
  note np = neighbours [OF rep b]
  let ?e = "wr (recs t ! p) on (of_nat (hd (ys @ [0])))"
  have ex: "dma_exec wr bt xt [dma_cmd_for t HELP_UPDATE_ENTRY p (of_nat (hd (ys @ [0])))] t = t\<lparr>recs := (recs t)[p := ?e]\<rparr>"
    using dma_exec_cmds(2) [OF tbl_repD(1) [OF rep] d np(5)] by simp
  obtain t3 where t3: "ipa_table_delete_entry ifc (t\<lparr>recs := (recs t)[p := ?e]\<rparr>) (iter_at p i (hd (ys @ [0]))) ipe = Some t3"
    "tbl_rep ifc ix t3 (cs(b := xs @ p # ys))" "same_shape t t3" "recs t3 ! i = 0" "recs t3 ! p = ?e"
    "\<And>j. j \<noteq> i \<Longrightarrow> j \<noteq> p \<Longrightarrow> ct (recs t3 ! j) = ct (recs t ! j)"
    by (rule delete_entry_unlink [OF rep b _ _ _ ipe, of ?e]) (use np in \<open>simp_all add: wr_next wr_prev\<close>)
  then have "ct (recs t3 ! j) = ct (recs t ! j)" if "j \<noteq> i" for j using that ct_wr by (cases "j = p") simp_all
  then show thesis using that t3 ex by metis
qed

lemma delete_last_of_dead:
  assumes rep: "tbl_rep ifc ix t cs" and d: "dma_ok bt xt esz oh on od t" and b: "cs b = [p, i]"
  obtains t3 where
    "ipa_table_delete_entry ifc (dma_exec wr bt xt [dma_cmd_for t HELP_UPDATE_ENTRY p 0] t) (iter_at p i 0) True = Some t3"
    and "tbl_rep ifc ix t3 (cs(b := []))" and "same_shape t t3" and "recs t3 ! i = 0" and "recs t3 ! p = 0"
    and "\<And>j. j \<noteq> i \<Longrightarrow> j \<noteq> p \<Longrightarrow> recs t3 ! j = recs t ! j"
proof -
  have b': "cs b = [] @ p # [i]" using b by simp
  note np = neighbours [OF rep b']
  let ?e = "wr (recs t ! p) on 0"
  have ex: "dma_exec wr bt xt [dma_cmd_for t HELP_UPDATE_ENTRY p 0] t = t\<lparr>recs := (recs t)[p := ?e]\<rparr>"
    using dma_exec_cmds(2) [OF tbl_repD(1) [OF rep] d np(5)] by simp
  show thesis
    by (rule delete_entry_last_of_dead [OF rep b, of ?e])
      (use np that ex in \<open>simp_all add: wr_next wr_prev\<close>)
qed

lemma delete_single:
  assumes rep: "tbl_rep ifc ix t cs" and d: "dma_ok bt xt esz oh on od t" and b: "cs b = [b]"
  obtains t3 where
    "ipa_table_delete_entry ifc (dma_exec wr bt xt [dma_cmd_for t HELP_UPDATE_HEAD b 0] t) (iter_at 0 b 0) False = Some t3"
    and "tbl_rep ifc ix t3 (cs(b := []))" and "same_shape t t3" and "recs t3 = (recs t)[b := 0]"
proof -
  note rp = tbl_repD [OF rep] and ok = tbl_okD [OF tbl_repD(1) [OF rep]]
  have "b \<in> set (cs b)" using b by simp
  note m = tbl_rep_mem [OF rep this]
  have un: "unat (of_nat b :: u16) = b" using rp(1) m by simp
  have ex: "dma_exec wr bt xt [dma_cmd_for t HELP_UPDATE_HEAD b 0] t = t\<lparr>recs := (recs t)[b := wr (recs t ! b) oh 0]\<rparr>"
    using dma_exec_cmds(1) [OF rp(1) d m(1)] by simp
  let ?t3 = "t\<lparr>recs := (recs t)[b := 0], cur_tbl_cnt := cur_tbl_cnt t - 1\<rparr>"
  have "ipa_table_delete_entry ifc (dma_exec wr bt xt [dma_cmd_for t HELP_UPDATE_HEAD b 0] t) (iter_at 0 b 0) False = Some ?t3"
    unfolding ex using erase_entry_eq [of b "t\<lparr>recs := (recs t)[b := wr (recs t ! b) oh 0]\<rparr>"] un m ok(4)
    by (simp add: ipa_table_delete_entry_def iter_at_def)
  then show thesis by (rule that) (use erase_single_rep [OF rep b] in \<open>simp_all add: same_shape_def\<close>)
qed

text \<open>The head takes over its successor, and the successor's record is deleted.\<close>

lemma delete_head_moved:
  assumes rep: "tbl_rep ifc ix t cs" and d: "dma_ok bt xt esz oh on od t" and b: "cs b = b # y # zs"
  defines "dat \<equiv> entry_get_delete_head_dma_command_data ifc (recs t ! b) (recs t ! y)"
  defines "nxt \<equiv> of_nat (hd (zs @ [0]))"
  obtains t3 where
    "ipa_table_delete_entry ifc (dma_exec wr bt xt [dma_cmd_for t HELP_DELETE_HEAD b dat, dma_cmd_for t HELP_UPDATE_ENTRY b nxt] t)
       (iter_at b y (hd (zs @ [0]))) False = Some t3"
    and "tbl_rep ifc ix t3 (cs(b := b # zs))" and "same_shape t t3" and "recs t3 ! y = 0"
    and "recs t3 ! b = wr (wr (recs t ! b) od dat) on nxt"
    and "\<And>j. j \<noteq> y \<Longrightarrow> j \<noteq> b \<Longrightarrow> ct (recs t3 ! j) = ct (recs t ! j)"
proof -
  note rp = tbl_repD [OF rep] and ok = tbl_okD [OF tbl_repD(1) [OF rep]]
  have b': "cs b = [] @ b # y # zs" and b'': "cs b = [b] @ y # zs" using b by simp_all
  note nb = neighbours [OF rep b'] and ny = neighbours [OF rep b'']
  let ?e1 = "wr (recs t ! b) od dat" let ?e = "wr ?e1 on nxt"
  let ?t1 = "t\<lparr>recs := (recs t)[b := ?e1]\<rparr>"
  have sh: "same_shape t ?t1" by (simp add: same_shape_def)
  have ok1: "tbl_ok ix ?t1" using rp(1) by simp
  have d1: "dma_ok bt xt esz oh on od ?t1" using d same_shapeD(9) [OF sh] by simp
  have ex: "dma_exec wr bt xt [dma_cmd_for t HELP_DELETE_HEAD b dat, dma_cmd_for t HELP_UPDATE_ENTRY b nxt] t
      = t\<lparr>recs := (recs t)[b := ?e]\<rparr>"
    using dma_exec_cmds(3) [OF rp(1) d nb(5), of dat] dma_exec_cmds(2) [OF ok1 d1, of b nxt] nb(5) ok(4)
    unfolding dma_cmd_for_shape [OF sh] by simp
  have "entry_is_valid ifc ?e1" unfolding dat_def by (rule wr_del(1) [OF nb(7) ny(7)])
  then have v: "entry_is_valid ifc ?e" by (simp add: wr_next)
  show thesis
    by (rule delete_entry_unlink [OF rep b' v, of False])
      (use that ex in \<open>simp_all add: wr_next wr_prev nxt_def\<close>)
qed

text \<open>Marking a head as deleted while records are chained behind it.\<close>

lemma mark_head:
  assumes rep: "tbl_rep ifc ix t cs" and d: "dma_ok bt xt esz oh on od t" and b: "cs b = b # y # zs"
  defines "dat \<equiv> entry_get_delete_head_dma_command_data ifc (recs t ! b) (recs t ! y)"
  shows "dma_exec wr bt xt [dma_cmd_for t HELP_DELETE_HEAD b dat] t = t\<lparr>recs := (recs t)[b := wr (recs t ! b) od dat]\<rparr>"
    and "tbl_rep ifc ix (t\<lparr>recs := (recs t)[b := wr (recs t ! b) od dat]\<rparr>) cs"
proof -
  note rp = tbl_repD [OF rep] and ok = tbl_okD [OF tbl_repD(1) [OF rep]]
  have b': "cs b = [] @ b # y # zs" and b'': "cs b = [b] @ y # zs" using b by simp_all
  note nb = neighbours [OF rep b'] and ny = neighbours [OF rep b'']
  show "dma_exec wr bt xt [dma_cmd_for t HELP_DELETE_HEAD b dat] t = t\<lparr>recs := (recs t)[b := wr (recs t ! b) od dat]\<rparr>"
    using dma_exec_cmds(3) [OF rp(1) d nb(5), of dat] by simp
  have "entry_is_valid ifc (wr (recs t ! b) od dat)" unfolding dat_def by (rule wr_del(1) [OF nb(7) ny(7)])
  then have "vd ifc (t\<lparr>recs := (recs t)[b := wr (recs t ! b) od dat]\<rparr>) = vd ifc t"
    "nx ifc (t\<lparr>recs := (recs t)[b := wr (recs t ! b) od dat]\<rparr>) = nx ifc t"
    "pv ifc (t\<lparr>recs := (recs t)[b := wr (recs t ! b) od dat]\<rparr>) = pv ifc t"
    using nb(5,7) ok(4) by (auto simp: view_upd fun_eq_iff vd_def nx_def pv_def wr_del wr_prev)
  then show "tbl_rep ifc ix (t\<lparr>recs := (recs t)[b := wr (recs t ! b) od dat]\<rparr>) cs"
    using rep by (simp add: tbl_rep_def)
qed

end

end
