(* ===== verification/Rule_Table.thy ===== *)
theory Rule_Table
  imports Table_Contract
begin

section \<open>Tables of rules with deleted heads\<close>

text \<open>
  The NAT table and the IPv6CT table delete the head of a chain that has more records by marking it: it
  stays in its place until the last record behind it is deleted. This theory has the part of the two
  drivers that they share: the abstraction of such a table, the deletion of a rule after its command was
  executed, and its correctness, in a locale that extends the contract of the entry interface.
\<close>

subsection \<open>Records in use\<close>

definition members :: "(nat \<Rightarrow> nat list) \<Rightarrow> nat set" where
  "members cs = (\<Union>b. set (cs b))"

text \<open>
  The records that hold a rule; heads that are marked stand in front of at least one record; a record that
  is not in use satisfies \<open>fresh\<close>.
\<close>

definition live_of :: "('e \<Rightarrow> bool) \<Rightarrow> 'e list \<Rightarrow> (nat \<Rightarrow> nat list) \<Rightarrow> nat set" where
  "live_of dead rs cs = {i \<in> members cs. \<not> dead (rs ! i)}"

definition dead_heads :: "('e \<Rightarrow> bool) \<Rightarrow> 'e list \<Rightarrow> (nat \<Rightarrow> nat list) \<Rightarrow> bool" where
  "dead_heads dead rs cs \<longleftrightarrow> (\<forall>b. \<forall>i\<in>set (cs b). dead (rs ! i) \<longrightarrow> i = b \<and> 2 \<le> length (cs b))"

definition fresh_rest :: "('e \<Rightarrow> bool) \<Rightarrow> 'e list \<Rightarrow> (nat \<Rightarrow> nat list) \<Rightarrow> bool" where
  "fresh_rest fresh rs cs \<longleftrightarrow> (\<forall>i<length rs. i \<notin> members cs \<longrightarrow> fresh (rs ! i))"

lemma reset_help: "(ipa_table_reset s)\<lparr>dma_help := h\<rparr> = ipa_table_reset (s\<lparr>dma_help := h\<rparr>)"
  by (simp add: ipa_table_reset_def)

lemma membersI: "i \<in> set (cs b) \<Longrightarrow> i \<in> members cs"
  by (auto simp: members_def)

lemma members_append: "members (cs(b := cs b @ [i])) = insert i (members cs)"
  by (auto simp: members_def split: if_splits)

lemma rep_members:
  assumes "tbl_rep ifc ix t cs"
  shows "i \<in> members cs \<longleftrightarrow> i < tot_n t \<and> vd ifc t i"
  using tbl_rep_mem [OF assms] chain_rep_valid_iff [OF tbl_repD(2) [OF assms]]
  by (auto simp: members_def)

lemma rep_members_upd:
  assumes "tbl_rep ifc ix t cs"
  shows "members (cs(b := ys)) = (members cs - set (cs b)) \<union> set ys"
  using chain_rep_disjoint [OF tbl_repD(2) [OF assms]] by (auto simp: members_def split: if_splits)

lemma rep_distinct:
  assumes "tbl_rep ifc ix t cs" shows "distinct (cs b)"
  using chain_repD(5) [OF tbl_repD(2) [OF assms], of b] by (cases "cs b = []") auto

lemma rep_lengths:
  assumes "tbl_rep ifc ix t cs" and "tbl_rep ifc' ix' t' cs'" and "same_shape t t'"
  shows "length (recs t') = length (recs t)"
  using tbl_okD(4) [OF tbl_repD(1) [OF assms(1)]] tbl_okD(4) [OF tbl_repD(1) [OF assms(2)]] same_shapeD(5) [OF assms(3)]
  by simp

lemma members_lt:
  assumes "tbl_rep ifc ix t cs" and "i \<in> members cs" shows "i < length (recs t)"
  using rep_members [OF assms(1), of i] assms(2) tbl_okD(4) [OF tbl_repD(1) [OF assms(1)]] by simp

lemma rep_memD:
  assumes "tbl_rep ifc ix t cs" and "i \<in> members cs"
  obtains b as bs where "cs b = as @ i # bs" and "i \<in> set (cs b)" and "i \<notin> set as" and "i \<notin> set bs"
    and "\<And>a. a \<noteq> b \<Longrightarrow> i \<notin> set (cs a)"
proof -
  obtain b where b: "i \<in> set (cs b)" using assms(2) by (auto simp: members_def)
  then obtain as bs where s: "cs b = as @ i # bs" by (auto dest: split_list)
  have "i \<notin> set as" "i \<notin> set bs" using rep_distinct [OF assms(1), of b] s by auto
  moreover have "i \<notin> set (cs a)" if "a \<noteq> b" for a
    using chain_rep_disjoint [OF tbl_repD(2) [OF assms(1)] b] that by auto
  ultimately show thesis using that s b by blast
qed

lemma rep_ends:
  assumes rep: "tbl_rep ifc ix t cs" and b: "cs b = as @ k # bs"
  shows "last (0 # as) = 0 \<longleftrightarrow> as = []" and "hd (bs @ [0]) \<noteq> 0 \<longleftrightarrow> bs \<noteq> []" and "k < base_n t \<longleftrightarrow> as = []"
proof -
  have pos: "0 < a" if "a \<in> set as \<union> set bs" for a using tbl_rep_mem(2) [OF rep, of a b] that b by auto
  show "last (0 # as) = 0 \<longleftrightarrow> as = []" using pos [of "last as"] by (cases "as = []") auto
  show "hd (bs @ [0]) \<noteq> 0 \<longleftrightarrow> bs \<noteq> []" using pos [of "hd bs"] by (cases bs) auto
  have h: "hd (cs b) = b" "distinct (cs b)" using chain_repD(3,5) [OF tbl_repD(2) [OF rep], of b] b by simp_all
  have "k = b \<longleftrightarrow> as = []" using h b by (cases as) auto
  then show "k < base_n t \<longleftrightarrow> as = []" using tbl_rep_mem(4) [OF rep, of k b] b by simp
qed

lemma same_shape_refl [simp]: "same_shape t t" by (simp add: same_shape_def)

lemma same_shape_recs [simp]: "same_shape s (t\<lparr>recs := rs\<rparr>) = same_shape s t"
  by (cases s; cases t; auto simp: same_shape_def)

lemma same_shape_trans: "same_shape a b \<Longrightarrow> same_shape b c \<Longrightarrow> same_shape a c"
  by (cases a; cases b; cases c) (auto simp: same_shape_def)

lemma inserted_not_member:
  assumes "inserted ifc wr oh bt xt ix ct t cs b u i t1 new e1 e' v" and "tbl_rep ifc ix t cs"
  shows "i \<notin> members cs"
  using insertedD(4) [OF assms(1)] rep_members [OF assms(2), of i] by simp

lemma head_with_tail_iter:
  assumes "tbl_ok ix t" and "p < tot_n t" and "n < tot_n t"
  shows "ipa_table_iterator_is_head_with_tail (iter_at p i n) \<longleftrightarrow> n \<noteq> 0 \<and> p = 0"
  using VALID_INDEX_rec [OF assms(1,2)] VALID_INDEX_rec [OF assms(1,3)]
  by (simp add: ipa_table_iterator_is_head_with_tail_def iter_at_def)

lemma filter_pred_cong:
  "(\<And>j. j \<noteq> i \<Longrightarrow> P (rs' ! j) = P (rs ! j)) \<Longrightarrow> i \<notin> set ys \<Longrightarrow>
   filter (\<lambda>j. \<not> P (rs' ! j)) ys = filter (\<lambda>j. \<not> P (rs ! j)) ys"
  by (induction ys) auto

subsection \<open>Execution of commands\<close>

text \<open>Commands change the records only, and what they do depends on the geometry of the table.\<close>

lemma dma_exec_one_recs: "dma_exec_one wr bt xt c t = t\<lparr>recs := recs (dma_exec_one wr bt xt c t)\<rparr>"
  by (simp add: dma_exec_one_def Let_def)

lemma dma_exec_recs: "dma_exec wr bt xt cs t = t\<lparr>recs := recs (dma_exec wr bt xt cs t)\<rparr>"
proof (induction cs arbitrary: t)
  case (Cons c cs)
  have "dma_exec wr bt xt cs (dma_exec_one wr bt xt c t)
      = (dma_exec_one wr bt xt c t)\<lparr>recs := recs (dma_exec wr bt xt cs (dma_exec_one wr bt xt c t))\<rparr>"
    by (rule Cons.IH)
  also have "\<dots> = t\<lparr>recs := recs (dma_exec wr bt xt cs (dma_exec_one wr bt xt c t))\<rparr>"
    by (subst dma_exec_one_recs) simp
  finally show ?case by simp
qed simp

lemma dma_exec_geom:
  assumes "entry_size s = entry_size t" and "table_entries s = table_entries t" and "recs s = recs t"
  shows "recs (dma_exec wr bt xt cs s) = recs (dma_exec wr bt xt cs t)"
  using assms
proof (induction cs arbitrary: s t)
  case (Cons c cs)
  have "recs (dma_exec_one wr bt xt c s) = recs (dma_exec_one wr bt xt c t)"
    using Cons.prems by (simp add: dma_exec_one_def Let_def)
  moreover have "entry_size (dma_exec_one wr bt xt c s) = entry_size s"
    "table_entries (dma_exec_one wr bt xt c s) = table_entries s" for s :: "'a ipa_table"
    by (simp_all add: dma_exec_one_def Let_def)
  ultimately show ?case using Cons by (simp add: Cons.IH [of "dma_exec_one wr bt xt c s" "dma_exec_one wr bt xt c t"])
qed simp

lemma dma_exec_shape:
  assumes "same_shape t t'"
  shows "t'\<lparr>recs := recs (dma_exec wr bt xt cs (t\<lparr>recs := recs t'\<rparr>))\<rparr> = dma_exec wr bt xt cs t'"
proof -
  have "recs (dma_exec wr bt xt cs (t\<lparr>recs := recs t'\<rparr>)) = recs (dma_exec wr bt xt cs t')"
    by (rule dma_exec_geom) (use same_shapeD [OF assms] in simp_all)
  then show ?thesis by (simp only: dma_exec_recs [of wr bt xt cs t', symmetric])
qed

lemma dma_exec_others:
  assumes "\<forall>c\<in>set cs. d_base_addr c \<noteq> dma_type_val bt \<and> d_base_addr c \<noteq> dma_type_val xt"
  shows "dma_exec wr bt xt cs t = t"
  using assms by (induction cs arbitrary: t) (simp_all add: dma_exec_one_other)

lemma same_shape_exec: "same_shape s t \<Longrightarrow> same_shape s (dma_exec wr bt xt cs t)"
  by (subst dma_exec_recs) simp

subsection \<open>Deleting a rule\<close>

text \<open>The command that takes the rule \<open>i\<close> away, \<open>dv\<close> being the value that marks a head.\<close>

definition del_cmd :: "u16 \<Rightarrow> 'e ipa_table \<Rightarrow> nat list \<Rightarrow> nat \<Rightarrow> nat list \<Rightarrow> ipa_ioc_nat_dma_one" where
  "del_cmd dv t as i bs =
     (if as \<noteq> [] then dma_cmd_for t HELP_UPDATE_ENTRY (last as) (of_nat (hd (bs @ [0])))
      else if bs = [] then dma_cmd_for t HELP_UPDATE_HEAD i 0
      else dma_cmd_for t HELP_DELETE_HEAD i dv)"

text \<open>What the drivers do with the table once the command was executed.\<close>

definition del_finish ::
    "('e::zero, 'u) ipa_table_entry_interface \<Rightarrow> ('e \<Rightarrow> bool) \<Rightarrow> 'e ipa_table \<Rightarrow> ipa_table_iterator \<Rightarrow> 'e ipa_table option" where
  "del_finish ifc dead t it =
     (if \<not> ipa_table_iterator_is_head_with_tail it
      then do {
        ipe \<leftarrow> (case prev_entry it of None \<Rightarrow> Some False
               | Some pp \<Rightarrow> do { p \<leftarrow> mem_read (recs t) (unat pp); Some (dead p) });
        ipa_table_delete_entry ifc t it ipe
      }
      else Some t)"

text \<open>The rule \<open>i\<close> is gone from \<open>t\<close>, all other rules are as before.\<close>

definition rule_gone ::
    "('e, 'u) ipa_table_entry_interface \<Rightarrow> ('e \<Rightarrow> bool) \<Rightarrow> ('e \<Rightarrow> bool) \<Rightarrow> ('e \<Rightarrow> 'c) \<Rightarrow> 'e ipa_table
     \<Rightarrow> (nat \<Rightarrow> nat list) \<Rightarrow> nat \<Rightarrow> 'e ipa_table \<Rightarrow> (nat \<Rightarrow> nat list) \<Rightarrow> bool" where
  "rule_gone ifc dead fresh ct t cs i t' cs' \<longleftrightarrow>
     tbl_rep ifc False t' cs' \<and> same_shape t t' \<and> dead_heads dead (recs t') cs' \<and> fresh_rest fresh (recs t') cs' \<and>
     live_of dead (recs t') cs' = live_of dead (recs t) cs - {i} \<and>
     (\<forall>j\<in>live_of dead (recs t) cs - {i}. ct (recs t' ! j) = ct (recs t ! j)) \<and>
     (\<forall>b. filter (\<lambda>j. \<not> dead (recs t' ! j)) (cs' b) = remove1 i (filter (\<lambda>j. \<not> dead (recs t ! j)) (cs b)))"

locale rule_table = table_entry ifc wr esz oh on od bt xt False uok ct
  for ifc :: "('e::zero, 'u) ipa_table_entry_interface" and wr and esz oh on od :: nat and bt xt
    and uok and ct :: "'e \<Rightarrow> 'c" +
  fixes dead fresh :: "'e \<Rightarrow> bool" and dv :: u16
  assumes dead_ct: "ct a = ct b \<Longrightarrow> dead a = dead b"
    and fresh_ct: "ct a = ct b \<Longrightarrow> fresh a = fresh b"
    and fresh_zero: "fresh 0"
    and del_data: "entry_get_delete_head_dma_command_data ifc a b = dv"
    and dead_wr: "dead (wr e od dv)"
begin

text \<open>Removing \<open>i\<close> and, with it, a marked head from a chain.\<close>

lemma rule_goneI:
  assumes rep: "tbl_rep ifc False t cs" and ok: "dead_heads dead (recs t) cs" "fresh_rest fresh (recs t) cs"
    and i: "cs b = as @ i # bs" "\<not> dead (recs t ! i)"
    and rep': "tbl_rep ifc False t' (cs(b := ys))" and sh: "same_shape t t'"
    and ys: "set ys \<subseteq> set (cs b)"
      "filter (\<lambda>j. \<not> dead (recs t' ! j)) ys = remove1 i (filter (\<lambda>j. \<not> dead (recs t ! j)) (cs b))"
      "\<And>j. j \<in> set ys \<Longrightarrow> dead (recs t' ! j) \<Longrightarrow> j = b \<and> 2 \<le> length ys"
    and ct: "\<And>j. j \<noteq> i \<Longrightarrow> j \<notin> set (cs b) - set ys \<Longrightarrow> ct (recs t' ! j) = ct (recs t ! j)"
    and gone: "\<And>j. j \<in> set (cs b) - set ys \<Longrightarrow> recs t' ! j = 0 \<and> (j = i \<or> dead (recs t ! j))"
  shows "rule_gone ifc dead fresh ct t cs i t' (cs(b := ys))"
proof -
  have len: "length (recs t') = length (recs t)" by (rule rep_lengths [OF rep rep' sh])
  have disj: "j \<notin> set (cs b)" if "j \<in> set (cs a)" "a \<noteq> b" for a j
    using chain_rep_disjoint [OF tbl_repD(2) [OF rep] that(1)] that(2) by auto
  have im: "i \<in> set (cs b)" using i(1) by simp
  have oth: "ct (recs t' ! j) = ct (recs t ! j)" if "j \<in> set (cs a)" "a \<noteq> b" for a j
    using ct [of j] disj [OF that] im by blast
  have ochain: "filter (\<lambda>j. \<not> dead (recs t' ! j)) (cs a) = filter (\<lambda>j. \<not> dead (recs t ! j)) (cs a)" if "a \<noteq> b" for a
    by (rule filter_cong) (simp_all add: dead_ct [OF oth [OF _ that]])
  have chain: "filter (\<lambda>j. \<not> dead (recs t' ! j)) ((cs(b := ys)) a) = remove1 i (filter (\<lambda>j. \<not> dead (recs t ! j)) (cs a))" for a
  proof (cases "a = b")
    case False
    then have "i \<notin> set (cs a)" using disj im by blast
    then show ?thesis using ochain [OF False] False by (simp add: remove1_idem)
  qed (use ys(2) in simp)
  have live: "j \<in> live_of dead (recs t') (cs(b := ys)) \<longleftrightarrow> j \<in> live_of dead (recs t) cs - {i}" for j
  proof -
    have "j \<in> live_of dead (recs t') (cs(b := ys)) \<longleftrightarrow> (\<exists>a. j \<in> set (filter (\<lambda>j. \<not> dead (recs t' ! j)) ((cs(b := ys)) a)))"
      by (auto simp: live_of_def members_def)
    also have "\<dots> \<longleftrightarrow> (\<exists>a. j \<in> set (remove1 i (filter (\<lambda>j. \<not> dead (recs t ! j)) (cs a))))" by (simp only: chain)
    also have "\<dots> \<longleftrightarrow> (\<exists>a. j \<in> set (filter (\<lambda>j. \<not> dead (recs t ! j)) (cs a)) - {i})"
      using rep_distinct [OF rep] by (simp add: set_remove1_eq)
    also have "\<dots> \<longleftrightarrow> j \<in> live_of dead (recs t) cs - {i}" by (auto simp: live_of_def members_def)
    finally show ?thesis .
  qed
  have dok: "dead_heads dead (recs t') (cs(b := ys))"
    unfolding dead_heads_def
  proof (intro allI ballI impI)
    fix a j assume j: "j \<in> set ((cs(b := ys)) a)" "dead (recs t' ! j)"
    show "j = a \<and> 2 \<le> length ((cs(b := ys)) a)"
    proof (cases "a = b")
      case False
      then show ?thesis using j ok(1) dead_ct [OF oth [OF _ False, of j]] by (simp add: dead_heads_def)
    qed (use j ys(3) in simp)
  qed
  have fok: "fresh_rest fresh (recs t') (cs(b := ys))"
    unfolding fresh_rest_def
  proof (intro allI impI)
    fix j assume j: "j < length (recs t')" "j \<notin> members (cs(b := ys))"
    show "fresh (recs t' ! j)"
    proof (cases "j \<in> members cs")
      case True
      then have "j \<in> set (cs b) - set ys" using j(2) by (auto simp: members_def split: if_splits)
      then show ?thesis using gone fresh_zero by simp
    next
      case False
      then have "j \<noteq> i" "j \<notin> set (cs b) - set ys" using im by (auto simp: members_def)
      then show ?thesis using fresh_ct [OF ct [of j]] ok(2) False j(1) len by (simp add: fresh_rest_def)
    qed
  qed
  have cont: "ct (recs t' ! j) = ct (recs t ! j)" if "j \<in> live_of dead (recs t) cs - {i}" for j
    using that gone [of j] ct [of j] by (auto simp: live_of_def)
  show ?thesis unfolding rule_gone_def using rep' sh dok fok live cont chain by blast
qed

lemma del_finish_single:
  assumes rep: "tbl_rep ifc False t cs" and d: "dma_ok bt xt esz oh on od t"
    and ok: "dead_heads dead (recs t) cs" "fresh_rest fresh (recs t) cs" and b: "cs b = [b]" "\<not> dead (recs t ! b)"
  obtains t3 where "del_finish ifc dead (dma_exec wr bt xt [del_cmd dv t [] b []] t) (iter_at 0 b 0) = Some t3"
    and "rule_gone ifc dead fresh ct t cs b t3 (cs(b := []))"
proof -
  obtain t3 where t3: "ipa_table_delete_entry ifc (dma_exec wr bt xt [dma_cmd_for t HELP_UPDATE_HEAD b 0] t) (iter_at 0 b 0) False = Some t3"
      "tbl_rep ifc False t3 (cs(b := []))" "same_shape t t3" "recs t3 = (recs t)[b := 0]"
    by (rule delete_single [OF rep d b(1)])
  have lt: "b < length (recs t)" using members_lt [OF rep membersI, of b b] b(1) by simp
  have "del_finish ifc dead (dma_exec wr bt xt [del_cmd dv t [] b []] t) (iter_at 0 b 0) = Some t3"
    using t3(1) by (simp add: del_finish_def del_cmd_def ipa_table_iterator_is_head_with_tail_def iter_at_def opt_idx_def)
  moreover have "rule_gone ifc dead fresh ct t cs b t3 (cs(b := []))"
    by (rule rule_goneI [OF rep ok, of b "[]" b "[]"]) (use b t3 lt in simp_all)
  ultimately show thesis by (rule that)
qed

lemma del_finish_mark:
  assumes rep: "tbl_rep ifc False t cs" and d: "dma_ok bt xt esz oh on od t"
    and ok: "dead_heads dead (recs t) cs" "fresh_rest fresh (recs t) cs" and b: "cs b = b # y # zs" "\<not> dead (recs t ! b)"
  obtains t3 where "del_finish ifc dead (dma_exec wr bt xt [del_cmd dv t [] b (y # zs)] t) (iter_at 0 b y) = Some t3"
    and "rule_gone ifc dead fresh ct t cs b t3 cs"
proof -
  note m = mark_head [OF rep d b(1), unfolded del_data]
  let ?t3 = "t\<lparr>recs := (recs t)[b := wr (recs t ! b) od dv]\<rparr>"
  have y: "y < tot_n t" "y \<noteq> 0" using tbl_rep_mem [OF rep, of y b] b(1) by auto
  have lt: "b < length (recs t)" using members_lt [OF rep membersI, of b b] b(1) by simp
  have nb: "b \<notin> set (y # zs)" using rep_distinct [OF rep, of b] b(1) by simp
  have hwt: "ipa_table_iterator_is_head_with_tail (iter_at 0 b y)"
    using head_with_tail_iter [OF tbl_repD(1) [OF rep], of 0 y] y tbl_okD(1,2) [OF tbl_repD(1) [OF rep]] by simp
  have "del_finish ifc dead (dma_exec wr bt xt [del_cmd dv t [] b (y # zs)] t) (iter_at 0 b y) = Some ?t3"
    using m(1) hwt by (simp add: del_finish_def del_cmd_def)
  moreover have f: "filter (\<lambda>j. \<not> dead (recs ?t3 ! j)) (y # zs) = filter (\<lambda>j. \<not> dead (recs t ! j)) (y # zs)"
    by (rule filter_pred_cong [OF _ nb]) simp
  have b0: "cs b = [] @ b # y # zs" using b(1) by simp
  have "rule_gone ifc dead fresh ct t cs b ?t3 (cs(b := cs b))"
  proof (rule rule_goneI [OF rep ok b0 b(2)])
    show "tbl_rep ifc False ?t3 (cs(b := cs b))" using m(2) by simp
    show "filter (\<lambda>j. \<not> dead (recs ?t3 ! j)) (cs b) = remove1 b (filter (\<lambda>j. \<not> dead (recs t ! j)) (cs b))"
      using b f lt dead_wr by simp
    show "j = b \<and> 2 \<le> length (cs b)" if "j \<in> set (cs b)" "dead (recs ?t3 ! j)" for j
      using that ok(1) b by (cases "j = b") (auto simp: dead_heads_def)
  qed simp_all
  ultimately show thesis using that by simp
qed

lemma del_finish_tail:
  assumes rep: "tbl_rep ifc False t cs" and d: "dma_ok bt xt esz oh on od t"
    and ok: "dead_heads dead (recs t) cs" "fresh_rest fresh (recs t) cs" and b: "cs b = as @ p # i # bs" "\<not> dead (recs t ! i)"
  obtains t3 cs' where "del_finish ifc dead (dma_exec wr bt xt [del_cmd dv t (as @ [p]) i bs] t) (iter_at p i (hd (bs @ [0]))) = Some t3"
    and "rule_gone ifc dead fresh ct t cs i t3 cs'"
proof -
  have b': "cs b = (as @ [p]) @ i # bs" using b(1) by simp
  note np = neighbours [OF rep b(1)] and ni = neighbours [OF rep b'] and okt = tbl_repD(1) [OF rep]
  let ?t2 = "dma_exec wr bt xt [dma_cmd_for t HELP_UPDATE_ENTRY p (of_nat (hd (bs @ [0])))] t"
  have t2: "?t2 = t\<lparr>recs := (recs t)[p := wr (recs t ! p) on (of_nat (hd (bs @ [0])))]\<rparr>"
    using dma_exec_cmds(2) [OF okt d np(5)] by simp
  have dist: "distinct (as @ p # i # bs)" using rep_distinct [OF rep, of b] b(1) by simp
  have hwt: "\<not> ipa_table_iterator_is_head_with_tail (iter_at p i (hd (bs @ [0])))"
    using head_with_tail_iter [OF okt np(5) ni(2)] np(6) by simp
  have fin: "del_finish ifc dead ?t2 (iter_at p i (hd (bs @ [0]))) =
      ipa_table_delete_entry ifc ?t2 (iter_at p i (hd (bs @ [0]))) (dead (recs t ! p))"
  proof -
    have "mem_read (recs ?t2) (unat (of_nat p :: u16)) = Some (wr (recs t ! p) on (of_nat (hd (bs @ [0]))))"
      unfolding t2 using np(5) tbl_okD(4) [OF okt] okt by simp
    moreover have "prev_entry (iter_at p i (hd (bs @ [0]))) = Some (of_nat p)"
      using np(6) by (simp add: iter_at_def opt_idx_def)
    ultimately show ?thesis using hwt dead_ct [OF ct_wr] by (simp add: del_finish_def del: dma_exec_simps)
  qed
  have cmd: "del_cmd dv t (as @ [p]) i bs = dma_cmd_for t HELP_UPDATE_ENTRY p (of_nat (hd (bs @ [0])))"
    by (simp add: del_cmd_def)
  show thesis
  proof (cases "dead (recs t ! p) \<and> bs = []")
    case True
    then have "p = b" using ok(1) b(1) by (simp add: dead_heads_def)
    then have "as = []" using dist chain_repD(3) [OF tbl_repD(2) [OF rep], of b] b(1) by (cases as) auto
    then have c: "cs b = [p, i]" using b(1) True by simp
    obtain t3 where t3: "ipa_table_delete_entry ifc (dma_exec wr bt xt [dma_cmd_for t HELP_UPDATE_ENTRY p 0] t) (iter_at p i 0) True = Some t3"
        "tbl_rep ifc False t3 (cs(b := []))" "same_shape t t3" "recs t3 ! i = 0" "recs t3 ! p = 0"
        "\<And>j. j \<noteq> i \<Longrightarrow> j \<noteq> p \<Longrightarrow> recs t3 ! j = recs t ! j"
      by (rule delete_last_of_dead [OF rep d c]) (rule that)
    have "rule_gone ifc dead fresh ct t cs i t3 (cs(b := []))"
      by (rule rule_goneI [OF rep ok b']) (use b(2) c True t3 in auto)
    then show thesis using that fin t3(1) True cmd by simp
  next
    case False
    then have ipe: "bs \<noteq> [] \<or> \<not> dead (recs t ! p)" by blast
    obtain t3 where t3: "ipa_table_delete_entry ifc ?t2 (iter_at p i (hd (bs @ [0]))) (dead (recs t ! p)) = Some t3"
        "tbl_rep ifc False t3 (cs(b := as @ p # bs))" "same_shape t t3" "recs t3 ! i = 0"
        "\<And>j. j \<noteq> i \<Longrightarrow> ct (recs t3 ! j) = ct (recs t ! j)"
      by (rule delete_tail [OF rep d b(1) ipe]) (rule that)
    have dd: "dead (recs t3 ! j) = dead (recs t ! j)" if "j \<noteq> i" for j using dead_ct [OF t3(5) [OF that]] .
    have f: "filter (\<lambda>j. \<not> dead (recs t3 ! j)) (as @ p # bs) = filter (\<lambda>j. \<not> dead (recs t ! j)) (as @ p # bs)"
      by (rule filter_pred_cong [OF dd]) (use dist in auto)
    have two: "j = b \<and> 2 \<le> length (as @ p # bs)" if j: "j \<in> set (as @ p # bs)" "dead (recs t3 ! j)" for j
    proof -
      have dj: "dead (recs t ! j)" using dd [of j] j dist by auto
      then have jb: "j = b" using ok(1) j(1) b(1) by (auto simp: dead_heads_def)
      have "bs \<noteq> [] \<or> as \<noteq> []" using j(1) dj False by auto
      then show ?thesis using jb by (cases as; cases bs) simp_all
    qed
    have "rule_gone ifc dead fresh ct t cs i t3 (cs(b := as @ p # bs))"
    proof (rule rule_goneI [OF rep ok b' b(2)])
      show "filter (\<lambda>j. \<not> dead (recs t3 ! j)) (as @ p # bs) = remove1 i (filter (\<lambda>j. \<not> dead (recs t ! j)) (cs b))"
        unfolding f using b dist by (simp add: remove1_append)
    qed (use two b t3 dist in auto)
    then show thesis using that fin t3(1) cmd by simp
  qed
qed

text \<open>Every rule of the table can be deleted.\<close>

lemma del_finish_any:
  assumes rep: "tbl_rep ifc False t cs" and d: "dma_ok bt xt esz oh on od t"
    and ok: "dead_heads dead (recs t) cs" "fresh_rest fresh (recs t) cs" and b: "cs b = as @ i # bs" "\<not> dead (recs t ! i)"
  obtains t3 cs' where
    "del_finish ifc dead (dma_exec wr bt xt [del_cmd dv t as i bs] t) (iter_at (last (0 # as)) i (hd (bs @ [0]))) = Some t3"
    and "rule_gone ifc dead fresh ct t cs i t3 cs'"
proof (cases as rule: rev_cases)
  case Nil
  then have ib: "i = b" using chain_repD(3) [OF tbl_repD(2) [OF rep], of b] b(1) by simp
  show thesis
  proof (cases bs)
    case Nil
    then have "cs b = [b]" using \<open>as = []\<close> b(1) ib by simp
    from del_finish_single [OF rep d ok this] show thesis using that Nil \<open>as = []\<close> b(2) ib by auto
  next
    case (Cons y zs)
    then have "cs b = b # y # zs" using \<open>as = []\<close> b(1) ib by simp
    from del_finish_mark [OF rep d ok this] show thesis using that Cons \<open>as = []\<close> b(2) ib by auto
  qed
next
  case (snoc as' p)
  then have "cs b = as' @ p # i # bs" using b(1) by simp
  from del_finish_tail [OF rep d ok this b(2)] show thesis using that snoc by auto
qed

end

end
