(* ===== verification/Nat_Entry.thy ===== *)
theory Nat_Entry
  imports Rule_Table
begin

unbundle bit_operations_syntax

section \<open>Records of the IPv4 NAT table and of its index table\<close>

text \<open>
  The record layouts of \<open>ipa_nat_drvi.h\<close>, the entry interfaces and the hash and checksum functions of
  \<open>ipa_nat_drvi.c\<close>. A bit-field of \<open>n\<close> bits is an \<open>n word\<close>, a one-bit field a boolean. The hardware and
  the DMA engine see a record as little-endian half-words; \<open>nat_rule_hw\<close> and \<open>nat_rule_of_hw\<close> are the
  layout of the bit-fields, and a 16-bit store at a byte offset replaces one half-word.
\<close>

subsection \<open>Layout\<close>

record ipa_nat_rule =
  r_private_ip :: u32
  r_target_ip :: u32
  r_next_index :: u16
  r_public_port :: u16
  r_private_port :: u16
  r_target_port :: u16
  r_ip_chksum :: u16
  r_uc_activation_index :: "13 word"
  r_s :: bool
  r_redirect :: bool
  r_enable :: bool
  r_time_stamp :: "24 word"
  r_protocol :: u8
  r_prev_index :: u16
  r_indx_tbl_entry :: u16
  r_rsvd2 :: u8
  r_rsvd3 :: bool
  r_dst_only :: bool
  r_src_only :: bool
  r_ucp :: bool
  r_pdn_index :: "4 word"
  r_tcp_udp_chksum :: u16

record ipa_nat_indx_tbl_rule =
  x_tbl_entry :: u16
  x_next_index :: u16

instantiation unit :: zero
begin
definition zero_unit :: unit where "zero_unit = ()"
instance ..
end

instantiation ipa_nat_rule_ext :: (zero) zero
begin
definition zero_ipa_nat_rule_ext :: "'a ipa_nat_rule_ext" where
  "zero_ipa_nat_rule_ext =
     ipa_nat_rule_ext 0 0 0 0 0 0 0 0 False False False 0 0 0 0 0 False False False False 0 0 0"
instance ..
end

instantiation ipa_nat_indx_tbl_rule_ext :: (zero) zero
begin
definition zero_ipa_nat_indx_tbl_rule_ext :: "'a ipa_nat_indx_tbl_rule_ext" where
  "zero_ipa_nat_indx_tbl_rule_ext = ipa_nat_indx_tbl_rule_ext 0 0 0"
instance ..
end

definition lo8 :: "u16 \<Rightarrow> u8" where "lo8 x = ucast x"
definition hi8 :: "u16 \<Rightarrow> u8" where "hi8 x = ucast (drop_bit 8 x)"
definition join8 :: "u8 \<Rightarrow> u8 \<Rightarrow> u16" where "join8 lo hi = ucast lo OR push_bit 8 (ucast hi)"
definition lo16 :: "u32 \<Rightarrow> u16" where "lo16 x = ucast x"
definition hi16 :: "u32 \<Rightarrow> u16" where "hi16 x = ucast (drop_bit 16 x)"
definition join16 :: "u16 \<Rightarrow> u16 \<Rightarrow> u32" where "join16 lo hi = ucast lo OR push_bit 16 (ucast hi)"

text \<open>The flags half-word, also the struct \<open>ipa_nat_flags\<close>, and the byte with the PDN index.\<close>

definition ipa_nat_flags :: "13 word \<Rightarrow> bool \<Rightarrow> bool \<Rightarrow> bool \<Rightarrow> u16" where
  "ipa_nat_flags uc s redirect enable =
     ucast uc OR push_bit 13 (of_bool s) OR push_bit 14 (of_bool redirect) OR push_bit 15 (of_bool enable)"

definition pdn_info :: "bool \<Rightarrow> bool \<Rightarrow> bool \<Rightarrow> bool \<Rightarrow> 4 word \<Rightarrow> u8" where
  "pdn_info rsvd3 dst src ucp pdn =
     of_bool rsvd3 OR push_bit 1 (of_bool dst) OR push_bit 2 (of_bool src) OR push_bit 3 (of_bool ucp) OR
     push_bit 4 (ucast pdn)"

definition pdn_of :: "u8 \<Rightarrow> 4 word" where "pdn_of b = ucast (drop_bit 4 b)"

text \<open>The 24 bits of the time stamp: a half-word and a byte.\<close>

definition ts_lo :: "24 word \<Rightarrow> u16" where "ts_lo t = ucast t"
definition ts_hi :: "24 word \<Rightarrow> u8" where "ts_hi t = ucast (drop_bit 16 t)"
definition ts_join :: "u16 \<Rightarrow> u8 \<Rightarrow> 24 word" where "ts_join lo hi = ucast lo OR push_bit 16 (ucast hi)"

definition nat_rule_hw :: "ipa_nat_rule \<Rightarrow> u16 list" where
  "nat_rule_hw r =
     [lo16 (r_private_ip r), hi16 (r_private_ip r), lo16 (r_target_ip r), hi16 (r_target_ip r),
      r_next_index r, r_public_port r, r_private_port r, r_target_port r,
      r_ip_chksum r, ipa_nat_flags (r_uc_activation_index r) (r_s r) (r_redirect r) (r_enable r),
      ts_lo (r_time_stamp r), join8 (ts_hi (r_time_stamp r)) (r_protocol r),
      r_prev_index r, r_indx_tbl_entry r,
      join8 (r_rsvd2 r) (pdn_info (r_rsvd3 r) (r_dst_only r) (r_src_only r) (r_ucp r) (r_pdn_index r)),
      r_tcp_udp_chksum r]"

definition nat_rule_of_hw :: "u16 list \<Rightarrow> ipa_nat_rule" where
  "nat_rule_of_hw h =
     \<lparr>r_private_ip = join16 (h ! 0) (h ! 1), r_target_ip = join16 (h ! 2) (h ! 3),
      r_next_index = h ! 4, r_public_port = h ! 5, r_private_port = h ! 6, r_target_port = h ! 7,
      r_ip_chksum = h ! 8, r_uc_activation_index = ucast (h ! 9), r_s = bit (h ! 9) 13,
      r_redirect = bit (h ! 9) 14, r_enable = bit (h ! 9) 15,
      r_time_stamp = ts_join (h ! 10) (lo8 (h ! 11)), r_protocol = hi8 (h ! 11),
      r_prev_index = h ! 12, r_indx_tbl_entry = h ! 13,
      r_rsvd2 = lo8 (h ! 14), r_rsvd3 = bit (hi8 (h ! 14)) 0, r_dst_only = bit (hi8 (h ! 14)) 1,
      r_src_only = bit (hi8 (h ! 14)) 2, r_ucp = bit (hi8 (h ! 14)) 3, r_pdn_index = pdn_of (hi8 (h ! 14)),
      r_tcp_udp_chksum = h ! 15\<rparr>"

definition nat_rule_write16 :: "ipa_nat_rule \<Rightarrow> nat \<Rightarrow> u16 \<Rightarrow> ipa_nat_rule" where
  "nat_rule_write16 r off v = nat_rule_of_hw ((nat_rule_hw r)[off div 2 := v])"

definition indx_rule_hw :: "ipa_nat_indx_tbl_rule \<Rightarrow> u16 list" where
  "indx_rule_hw r = [x_tbl_entry r, x_next_index r]"

definition indx_rule_of_hw :: "u16 list \<Rightarrow> ipa_nat_indx_tbl_rule" where
  "indx_rule_of_hw h = \<lparr>x_tbl_entry = h ! 0, x_next_index = h ! 1\<rparr>"

definition indx_rule_write16 :: "ipa_nat_indx_tbl_rule \<Rightarrow> nat \<Rightarrow> u16 \<Rightarrow> ipa_nat_indx_tbl_rule" where
  "indx_rule_write16 r off v = indx_rule_of_hw ((indx_rule_hw r)[off div 2 := v])"

text \<open>The sizes and the field offsets the DMA helpers use.\<close>

definition IPA_NAT_RULE_SIZE :: nat where "IPA_NAT_RULE_SIZE = 32"
definition IPA_NAT_INDX_RULE_SIZE :: nat where "IPA_NAT_INDX_RULE_SIZE = 4"
definition IPA_NAT_RULE_FLAG_FIELD_OFFSET :: nat where "IPA_NAT_RULE_FLAG_FIELD_OFFSET = 18"
definition IPA_NAT_RULE_NEXT_FIELD_OFFSET :: nat where "IPA_NAT_RULE_NEXT_FIELD_OFFSET = 8"
definition IPA_NAT_RULE_PROTO_FIELD_OFFSET :: nat where "IPA_NAT_RULE_PROTO_FIELD_OFFSET = 22"
definition IPA_NAT_INDEX_RULE_NEXT_FIELD_OFFSET :: nat where "IPA_NAT_INDEX_RULE_NEXT_FIELD_OFFSET = 2"
definition IPA_NAT_INDEX_RULE_NAT_INDEX_FIELD_OFFSET :: nat where "IPA_NAT_INDEX_RULE_NAT_INDEX_FIELD_OFFSET = 0"
definition IPA_NAT_INVALID_PROTO_FIELD_VALUE :: u16 where "IPA_NAT_INVALID_PROTO_FIELD_VALUE = 0xFF00"
definition IPAHAL_NAT_INVALID_PROTOCOL :: u8 where "IPAHAL_NAT_INVALID_PROTOCOL = 0xFF"

lemmas nat_offsets = IPA_NAT_RULE_SIZE_def IPA_NAT_INDX_RULE_SIZE_def IPA_NAT_RULE_FLAG_FIELD_OFFSET_def
  IPA_NAT_RULE_NEXT_FIELD_OFFSET_def IPA_NAT_RULE_PROTO_FIELD_OFFSET_def
  IPA_NAT_INDEX_RULE_NEXT_FIELD_OFFSET_def IPA_NAT_INDEX_RULE_NAT_INDEX_FIELD_OFFSET_def

subsection \<open>Checksums\<close>

text \<open>One addition with the carry folded back.\<close>

definition add_cf :: "u32 \<Rightarrow> u32 \<Rightarrow> u32" where
  "add_cf cksum x =
     (let cksum = cksum + x in if drop_bit 16 cksum \<noteq> 0 then (cksum AND 0xFFFF) + 1 else cksum)"

definition ipa_nati_calc_ip_cksum :: "u32 \<Rightarrow> u32 \<Rightarrow> u16" where
  "ipa_nati_calc_ip_cksum pub_ip_addr priv_ip_addr =
     (let cksum = 0 + (pub_ip_addr AND 0xFFFF);
          cksum = add_cf cksum (drop_bit 16 pub_ip_addr);
          priv_ip_addr = NOT priv_ip_addr;
          cksum = add_cf cksum (priv_ip_addr AND 0xFFFF);
          cksum = add_cf cksum (drop_bit 16 priv_ip_addr)
      in ucast cksum)"

definition ipa_nati_calc_tcp_udp_cksum :: "u32 \<Rightarrow> u16 \<Rightarrow> u32 \<Rightarrow> u16 \<Rightarrow> u16" where
  "ipa_nati_calc_tcp_udp_cksum pub_ip_addr pub_port priv_ip_addr priv_port =
     (let cksum = 0 + (pub_ip_addr AND 0xFFFF);
          cksum = add_cf cksum (drop_bit 16 pub_ip_addr);
          cksum = add_cf cksum (ucast pub_port);
          priv_ip_addr = NOT priv_ip_addr;
          cksum = add_cf cksum (priv_ip_addr AND 0xFFFF);
          cksum = add_cf cksum (drop_bit 16 priv_ip_addr);
          priv_port = NOT priv_port;
          cksum = add_cf cksum (ucast priv_port)
      in ucast cksum)"

subsection \<open>The entry interface of the NAT table\<close>

record ipa_nat_ipv4_rule =
  u_target_ip :: u32
  u_private_ip :: u32
  u_target_port :: u16
  u_private_port :: u16
  u_public_port :: u16
  u_protocol :: u8
  u_pdn_index :: u8
  u_redirect :: u8
  u_enable :: u8
  u_time_stamp :: u32
  u_uc_activation_index :: u16
  u_s :: bool
  u_ucp :: bool
  u_dst_only :: bool
  u_src_only :: bool

record ipa_nat_pdn_entry =
  p_public_ip :: u32
  p_src_metadata :: u32
  p_dst_metadata :: u32

definition IPPROTO_TCP :: u8 where "IPPROTO_TCP = 6"
definition IPPROTO_UDP :: u8 where "IPPROTO_UDP = 17"

definition table_entry_is_valid :: "ipa_nat_rule \<Rightarrow> bool" where
  "table_entry_is_valid rule = r_enable rule"

definition table_entry_get_next_index :: "ipa_nat_rule \<Rightarrow> u16" where
  "table_entry_get_next_index rule = r_next_index rule"

definition table_entry_get_prev_index ::
    "ipa_nat_rule \<Rightarrow> u16 \<Rightarrow> u16 list option \<Rightarrow> u16 \<Rightarrow> u16 option" where
  "table_entry_get_prev_index rule entry_index m base_table_size = Some (r_prev_index rule)"

definition table_entry_set_prev_index ::
    "ipa_nat_rule \<Rightarrow> u16 \<Rightarrow> u16 \<Rightarrow> u16 list option \<Rightarrow> u16 \<Rightarrow> (ipa_nat_rule \<times> u16 list option) option" where
  "table_entry_set_prev_index rule entry_index prev m base_table_size =
     Some (rule\<lparr>r_prev_index := prev\<rparr>, m)"

text \<open>
  \<open>pdns\<close> is the array of public addresses. The callers have read the element of the same index before
  (in \<open>ipa_NATI_add_ipv4_rule\<close>, under the same lock), so that it exists here.
\<close>

definition pdn_public_ip :: "ipa_nat_pdn_entry list \<Rightarrow> u8 \<Rightarrow> u32" where
  "pdn_public_ip pdns i = (if unat i < length pdns then p_public_ip (pdns ! unat i) else 0)"

definition table_entry_copy_from_user ::
    "ipa_nat_pdn_entry list \<Rightarrow> ipa_nat_rule \<Rightarrow> ipa_nat_ipv4_rule \<Rightarrow> int \<times> ipa_nat_rule" where
  "table_entry_copy_from_user pdns nat_entry user_rule =
     (let pub_ip_addr = pdn_public_ip pdns (u_pdn_index user_rule);
          nat_entry = nat_entry
            \<lparr>r_private_ip := u_private_ip user_rule, r_private_port := u_private_port user_rule,
             r_protocol := u_protocol user_rule, r_public_port := u_public_port user_rule,
             r_target_ip := u_target_ip user_rule, r_target_port := u_target_port user_rule,
             r_pdn_index := ucast (u_pdn_index user_rule),
             r_uc_activation_index := ucast (u_uc_activation_index user_rule),
             r_s := u_s user_rule, r_ucp := u_ucp user_rule,
             r_dst_only := u_dst_only user_rule, r_src_only := u_src_only user_rule,
             r_ip_chksum := ipa_nati_calc_ip_cksum pub_ip_addr (u_private_ip user_rule)\<rparr>
      in (0, if IPPROTO_TCP = r_protocol nat_entry \<or> IPPROTO_UDP = r_protocol nat_entry
             then nat_entry\<lparr>r_tcp_udp_chksum :=
                    ipa_nati_calc_tcp_udp_cksum pub_ip_addr (u_public_port user_rule)
                      (u_private_ip user_rule) (u_private_port user_rule)\<rparr>
             else nat_entry))"

definition table_entry_head_insert ::
    "ipa_nat_pdn_entry list \<Rightarrow> ipa_nat_rule \<Rightarrow> ipa_nat_ipv4_rule \<Rightarrow> int \<times> ipa_nat_rule \<times> u16" where
  "table_entry_head_insert pdns entry user_data =
     (let (ret, nat_entry) = table_entry_copy_from_user pdns entry user_data
      in if ret \<noteq> 0 then (ret, nat_entry, 0)
         else (ret, nat_entry, ipa_nat_flags (r_uc_activation_index nat_entry) (r_s nat_entry) False True))"

definition table_entry_tail_insert ::
    "ipa_nat_pdn_entry list \<Rightarrow> ipa_nat_rule \<Rightarrow> ipa_nat_ipv4_rule \<Rightarrow> int \<times> ipa_nat_rule" where
  "table_entry_tail_insert pdns entry user_data =
     (let (ret, nat_entry) = table_entry_copy_from_user pdns entry user_data
      in if ret \<noteq> 0 then (ret, nat_entry) else (ret, nat_entry\<lparr>r_enable := True\<rparr>))"

definition table_entry_get_delete_head_dma_command_data :: "ipa_nat_rule \<Rightarrow> ipa_nat_rule \<Rightarrow> u16" where
  "table_entry_get_delete_head_dma_command_data head next_rule = IPA_NAT_INVALID_PROTO_FIELD_VALUE"

definition entry_interface ::
    "ipa_nat_pdn_entry list \<Rightarrow> (ipa_nat_rule, ipa_nat_ipv4_rule) ipa_table_entry_interface" where
  "entry_interface pdns =
     \<lparr>entry_is_valid = table_entry_is_valid,
      entry_get_next_index = table_entry_get_next_index,
      entry_get_prev_index = table_entry_get_prev_index,
      entry_set_prev_index = table_entry_set_prev_index,
      entry_head_insert = table_entry_head_insert pdns,
      entry_tail_insert = table_entry_tail_insert pdns,
      entry_get_delete_head_dma_command_data = table_entry_get_delete_head_dma_command_data\<rparr>"

subsection \<open>The entry interface of the index table\<close>

definition index_table_entry_is_valid :: "ipa_nat_indx_tbl_rule \<Rightarrow> bool" where
  "index_table_entry_is_valid rule \<longleftrightarrow> x_tbl_entry rule \<noteq> 0"

definition index_table_entry_get_next_index :: "ipa_nat_indx_tbl_rule \<Rightarrow> u16" where
  "index_table_entry_get_next_index rule = x_next_index rule"

definition index_table_entry_get_prev_index ::
    "ipa_nat_indx_tbl_rule \<Rightarrow> u16 \<Rightarrow> u16 list option \<Rightarrow> u16 \<Rightarrow> u16 option" where
  "index_table_entry_get_prev_index rule entry_index m base_table_size =
     (if base_table_size \<le> entry_index
      then do { ms \<leftarrow> m; mem_read ms (unat (entry_index - base_table_size)) }
      else Some 0)"

definition index_table_entry_set_prev_index ::
    "ipa_nat_indx_tbl_rule \<Rightarrow> u16 \<Rightarrow> u16 \<Rightarrow> u16 list option \<Rightarrow> u16
     \<Rightarrow> (ipa_nat_indx_tbl_rule \<times> u16 list option) option" where
  "index_table_entry_set_prev_index rule entry_index prev m base_table_size =
     (if base_table_size \<le> entry_index
      then do { ms \<leftarrow> m; ms' \<leftarrow> mem_write ms (unat (entry_index - base_table_size)) prev; Some (rule, Some ms') }
      else Some (rule, m))"

definition index_table_entry_head_insert ::
    "ipa_nat_indx_tbl_rule \<Rightarrow> u16 \<Rightarrow> int \<times> ipa_nat_indx_tbl_rule \<times> u16" where
  "index_table_entry_head_insert entry user_data = (0, entry, user_data)"

definition index_table_entry_tail_insert ::
    "ipa_nat_indx_tbl_rule \<Rightarrow> u16 \<Rightarrow> int \<times> ipa_nat_indx_tbl_rule" where
  "index_table_entry_tail_insert entry user_data = (0, entry\<lparr>x_tbl_entry := user_data\<rparr>)"

definition index_table_entry_get_delete_head_dma_command_data ::
    "ipa_nat_indx_tbl_rule \<Rightarrow> ipa_nat_indx_tbl_rule \<Rightarrow> u16" where
  "index_table_entry_get_delete_head_dma_command_data head next_rule = x_tbl_entry next_rule"

definition index_entry_interface :: "(ipa_nat_indx_tbl_rule, u16) ipa_table_entry_interface" where
  "index_entry_interface =
     \<lparr>entry_is_valid = index_table_entry_is_valid,
      entry_get_next_index = index_table_entry_get_next_index,
      entry_get_prev_index = index_table_entry_get_prev_index,
      entry_set_prev_index = index_table_entry_set_prev_index,
      entry_head_insert = index_table_entry_head_insert,
      entry_tail_insert = index_table_entry_tail_insert,
      entry_get_delete_head_dma_command_data = index_table_entry_get_delete_head_dma_command_data\<rparr>"

subsection \<open>Hash functions\<close>

definition IPA_HW_v4_0 :: nat where "IPA_HW_v4_0 = 14"

definition dst_hash :: "nat \<Rightarrow> u32 \<Rightarrow> u32 \<Rightarrow> u16 \<Rightarrow> u16 \<Rightarrow> u8 \<Rightarrow> u16 \<Rightarrow> u16" where
  "dst_hash ver public_ip trgt_ip trgt_port public_port proto size' =
     (let hash = lo16 trgt_ip XOR hi16 trgt_ip XOR trgt_port XOR public_port XOR ucast proto;
          hash = (if IPA_HW_v4_0 \<le> ver then hash XOR (lo16 public_ip XOR hi16 public_ip) else hash);
          hash = hash AND size'
      in if hash = 0 then size' else hash)"

definition src_hash :: "u32 \<Rightarrow> u16 \<Rightarrow> u32 \<Rightarrow> u16 \<Rightarrow> u8 \<Rightarrow> u16 \<Rightarrow> u16" where
  "src_hash priv_ip priv_port trgt_ip trgt_port proto size' =
     (let hash = lo16 priv_ip XOR hi16 priv_ip XOR priv_port XOR lo16 trgt_ip XOR hi16 trgt_ip XOR
                 trgt_port XOR ucast proto;
          hash = hash AND size'
      in if hash = 0 then size' else hash)"

subsection \<open>The layout is a bijection\<close>

lemma join8_simps [simp]: "lo8 (join8 a b) = a" "hi8 (join8 a b) = b" "join8 (lo8 x) (hi8 x) = x"
  by (rule bit_word_eqI; auto simp: lo8_def hi8_def join8_def bit_simps dest: bit_imp_le_length; fail)+

lemma join16_simps [simp]: "lo16 (join16 a b) = a" "hi16 (join16 a b) = b" "join16 (lo16 x) (hi16 x) = x"
  by (rule bit_word_eqI; auto simp: lo16_def hi16_def join16_def bit_simps dest: bit_imp_le_length; fail)+

lemma ts_simps [simp]: "ts_lo (ts_join a b) = a" "ts_hi (ts_join a b) = b" "ts_join (ts_lo t) (ts_hi t) = t"
  by (rule bit_word_eqI; auto simp: ts_lo_def ts_hi_def ts_join_def bit_simps dest: bit_imp_le_length; fail)+

lemma flags_simps [simp]:
  "bit (ipa_nat_flags uc s rd en) 13 = s"
  "bit (ipa_nat_flags uc s rd en) 14 = rd" "bit (ipa_nat_flags uc s rd en) 15 = en"
  by (auto simp: ipa_nat_flags_def bit_simps dest: bit_imp_le_length)

lemma ucast_flags [simp]: "ucast (ipa_nat_flags uc s rd en) = uc"
  by (rule bit_word_eqI) (auto simp: ipa_nat_flags_def bit_simps dest: bit_imp_le_length)

lemma flags_of_hw [simp]: "ipa_nat_flags (ucast h) (bit h 13) (bit h 14) (bit h 15) = h"
proof (rule bit_word_eqI)
  fix n assume "n < LENGTH(16)"
  then have "n < 13 \<or> n = 13 \<or> n = 14 \<or> n = 15" by auto
  then show "bit (ipa_nat_flags (ucast h) (bit h 13) (bit h 14) (bit h 15)) n = bit h n"
    by (auto simp: ipa_nat_flags_def bit_simps)
qed

lemma pdn_info_simps [simp]:
  "bit (pdn_info a b c d p) 0 = a" "bit (pdn_info a b c d p) (Suc 0) = b" "bit (pdn_info a b c d p) 2 = c"
  "bit (pdn_info a b c d p) 3 = d"
  by (auto simp: pdn_info_def bit_simps)

lemma pdn_of_pdn_info [simp]: "pdn_of (pdn_info a b c d p) = p"
  by (rule bit_word_eqI) (auto simp: pdn_of_def pdn_info_def bit_simps dest: bit_imp_le_length)

lemma pdn_info_of_byte [simp]: "pdn_info (bit q 0) (bit q (Suc 0)) (bit q 2) (bit q 3) (pdn_of q) = q"
proof (rule bit_word_eqI)
  fix n assume "n < LENGTH(8)"
  then have "n = 0 \<or> n = 1 \<or> n = 2 \<or> n = 3 \<or> 4 \<le> n \<and> n < 8" by auto
  then show "bit (pdn_info (bit q 0) (bit q (Suc 0)) (bit q 2) (bit q 3) (pdn_of q)) n = bit q n"
    by (elim disjE) (auto simp: pdn_info_def pdn_of_def bit_simps)
qed

lemma nat_rule_of_hw_hw: "nat_rule_of_hw (nat_rule_hw r) = r"
  by (cases r) (simp add: nat_rule_of_hw_def nat_rule_hw_def)

lemma nat_rule_hw_of_hw:
  assumes "length h = 16" shows "nat_rule_hw (nat_rule_of_hw h) = h"
proof -
  obtain a0 a1 a2 a3 a4 a5 a6 a7 a8 a9 a10 a11 a12 a13 a14 a15 where
    "h = [a0, a1, a2, a3, a4, a5, a6, a7, a8, a9, a10, a11, a12, a13, a14, a15]"
    using assms by (auto simp: numeral_eq_Suc length_Suc_conv)
  then show ?thesis by (simp add: nat_rule_of_hw_def nat_rule_hw_def)
qed

text \<open>The three stores of the DMA commands, in terms of the fields.\<close>

lemma write_next [simp]: "nat_rule_write16 r 8 v = r\<lparr>r_next_index := v\<rparr>"
  by (cases r) (simp add: nat_rule_write16_def nat_rule_of_hw_def nat_rule_hw_def)

lemma write_flags [simp]:
  "nat_rule_write16 r 18 v = r\<lparr>r_uc_activation_index := ucast v, r_s := bit v 13, r_redirect := bit v 14, r_enable := bit v 15\<rparr>"
  by (cases r) (simp add: nat_rule_write16_def nat_rule_of_hw_def nat_rule_hw_def)

lemma write_proto [simp]:
  "nat_rule_write16 r 22 v = r\<lparr>r_time_stamp := ts_join (ts_lo (r_time_stamp r)) (lo8 v), r_protocol := hi8 v\<rparr>"
  by (cases r) (simp add: nat_rule_write16_def nat_rule_of_hw_def nat_rule_hw_def)

lemma write_indx [simp]: "indx_rule_write16 x 0 v = x\<lparr>x_tbl_entry := v\<rparr>" "indx_rule_write16 x 2 v = x\<lparr>x_next_index := v\<rparr>"
  by (cases x; simp add: indx_rule_write16_def indx_rule_of_hw_def indx_rule_hw_def)+

lemma zero_nat_rule [simp]: "r_enable 0 = False" "r_next_index 0 = 0" "r_prev_index 0 = 0" "r_protocol 0 = 0"
  "r_indx_tbl_entry 0 = 0"
  by (simp_all add: zero_ipa_nat_rule_ext_def ipa_nat_rule.defs)

lemma zero_indx_rule [simp]: "x_tbl_entry 0 = 0" "x_next_index 0 = 0"
  by (simp_all add: zero_ipa_nat_indx_tbl_rule_ext_def)

subsection \<open>The interfaces satisfy the contract\<close>

lemmas entry_interface_defs = entry_interface_def table_entry_is_valid_def table_entry_get_next_index_def
  table_entry_get_prev_index_def table_entry_set_prev_index_def table_entry_head_insert_def
  table_entry_tail_insert_def table_entry_get_delete_head_dma_command_data_def

lemmas index_interface_defs = index_entry_interface_def index_table_entry_is_valid_def
  index_table_entry_get_next_index_def index_table_entry_get_prev_index_def
  index_table_entry_set_prev_index_def index_table_entry_head_insert_def
  index_table_entry_tail_insert_def index_table_entry_get_delete_head_dma_command_data_def

lemma copy_from_user_facts:
  assumes "table_entry_copy_from_user pdns e u = (ret, e')"
  shows "ret = 0" and "r_next_index e' = r_next_index e" and "r_prev_index e' = r_prev_index e"
    and "r_enable e' = r_enable e"
  using assms by (auto simp: table_entry_copy_from_user_def Let_def split: if_splits)

text \<open>The content of a record apart from its links.\<close>

definition nat_content :: "ipa_nat_rule \<Rightarrow> ipa_nat_rule" where
  "nat_content r = r\<lparr>r_next_index := 0, r_prev_index := 0\<rparr>"

interpretation nat: table_entry "entry_interface pdns" nat_rule_write16 32 18 8 22
  IPA_NAT_BASE_TBL IPA_NAT_EXPN_TBL False "\<lambda>_. True" nat_content
proof unfold_locales
  fix u e ret e' d
  assume "entry_head_insert (entry_interface pdns) e u = (ret, e', d)"
  then obtain "table_entry_copy_from_user pdns e u = (ret, e')" "d = ipa_nat_flags (r_uc_activation_index e') (r_s e') False True"
    by (auto simp: entry_interface_defs Let_def split: prod.splits if_splits dest: copy_from_user_facts(1))
  with copy_from_user_facts [OF this(1)]
  show "ret = 0 \<and> entry_get_next_index (entry_interface pdns) e' = entry_get_next_index (entry_interface pdns) e \<and>
      (\<forall>i m te. entry_get_prev_index (entry_interface pdns) e' i m te = entry_get_prev_index (entry_interface pdns) e i m te) \<and>
      entry_is_valid (entry_interface pdns) e' = entry_is_valid (entry_interface pdns) e \<and>
      (\<forall>e2. entry_is_valid (entry_interface pdns) (nat_rule_write16 e2 18 d))"
    by (simp add: entry_interface_defs)
qed (auto simp: entry_interface_defs meta_ok_def nat_content_def)

lemma index_prev_set:
  assumes "meta_ok True n m" and "te \<le> i" and "unat i < unat te + n"
  shows "\<exists>e' m'. entry_set_prev_index index_entry_interface e i p m te = Some (e', m') \<and> meta_ok True n m' \<and>
      entry_get_prev_index index_entry_interface e' i m' te = Some p \<and>
      entry_is_valid index_entry_interface e' = entry_is_valid index_entry_interface e \<and>
      entry_get_next_index index_entry_interface e' = entry_get_next_index index_entry_interface e \<and>
      (\<forall>j e2. j \<noteq> i \<longrightarrow> entry_get_prev_index index_entry_interface e2 j m' te
                         = entry_get_prev_index index_entry_interface e2 j m te)"
proof -
  obtain ms where ms: "m = Some ms" "length ms = n" using assms(1) by (auto simp: meta_ok_def)
  have lt: "unat (i - te) < length ms" using assms(2,3) ms by (simp add: unat_sub word_le_nat_alt)
  have inj: "unat (i - te) \<noteq> unat (j - te)" if "te \<le> j" "j \<noteq> i" for j :: u16
    using that by (simp add: word_unat_eq_iff [symmetric])
  have "mem_read (ms[unat (i - te) := p]) (unat (j - te)) = mem_read ms (unat (j - te))" if "te \<le> j" "j \<noteq> i" for j
    using inj [OF that] by (simp add: mem_read_def)
  then show ?thesis using ms lt assms(2) by (simp add: index_interface_defs meta_ok_def)
qed

interpretation indx: table_entry index_entry_interface indx_rule_write16 4 0 2 0
  IPA_NAT_INDX_TBL IPA_NAT_INDEX_EXPN_TBL True "\<lambda>u. u \<noteq> 0" x_tbl_entry
proof unfold_locales
  show "\<exists>e' m'. entry_set_prev_index index_entry_interface e i p m te = Some (e', m') \<and> meta_ok True n m' \<and>
      entry_get_prev_index index_entry_interface e' i m' te = Some p \<and>
      entry_is_valid index_entry_interface e' = entry_is_valid index_entry_interface e \<and>
      entry_get_next_index index_entry_interface e' = entry_get_next_index index_entry_interface e \<and>
      (\<forall>j e2. j \<noteq> i \<longrightarrow> entry_get_prev_index index_entry_interface e2 j m' te
                         = entry_get_prev_index index_entry_interface e2 j m te)"
    if "meta_ok True n m" "te \<le> i" "unat i < unat te + n" for n m te i e p
    using that by (rule index_prev_set)
  show "entry_get_prev_index index_entry_interface e i m te \<noteq> None"
    if "meta_ok True n m" "unat i < unat te + n" for n m i te e
    using that by (auto simp: index_interface_defs meta_ok_def mem_read_def unat_sub word_le_nat_alt)
qed (auto simp: index_interface_defs meta_ok_def split: if_splits bind_splits)


subsection \<open>The checksums are one's-complement differences\<close>

lemma unat_lo16 [simp]: "unat (x AND 0xFFFF :: u32) = unat x mod 65536"
proof -
  have m: "(0xFFFF :: u32) = mask 16" by (simp add: mask_eq_exp_minus_1)
  show ?thesis unfolding m by (simp only: take_bit_eq_mask [symmetric] unsigned_take_bit_eq) (simp add: take_bit_eq_mod)
qed

lemma unat_hi16: "unat (drop_bit 16 (x :: u32)) = unat x div 65536"
  by (simp only: unat_drop_bit_eq) (simp add: drop_bit_eq_div)

lemma unat_u32_lt: "unat (x :: u32) < 4294967296"
  using unsigned_less [of x, where 'a = nat] by simp

lemma add_cf_mod:
  assumes "unat c \<le> 65535" and "unat x \<le> 65535"
  shows "unat (add_cf c x) \<le> 65535" and "unat (add_cf c x) mod 65535 = (unat c + unat x) mod 65535"
proof -
  have s: "unat (c + x) = unat c + unat x" using assms by (simp add: unat_word_ariths)
  have d: "drop_bit 16 (c + x) \<noteq> 0 \<longleftrightarrow> 65536 \<le> unat c + unat x"
    using unat_hi16 [of "c + x"] s by (auto simp: word_unat_eq_iff)
  have m: "unat ((c + x AND 0xFFFF) + 1) = (unat c + unat x) mod 65536 + 1"
    using assms by (simp add: unat_word_ariths s del: unat_lo16) (simp add: unat_word_ariths)
  have eq: "unat (add_cf c x) = (if 65536 \<le> unat c + unat x then (unat c + unat x) mod 65536 + 1 else unat c + unat x)"
    using d m s by (simp only: add_cf_def Let_def split: if_splits) auto
  have big: "(unat c + unat x) mod 65536 = unat c + unat x - 65536" if "65536 \<le> unat c + unat x"
    using that assms by (simp add: mod_if)
  show "unat (add_cf c x) \<le> 65535" using eq big assms by (auto split: if_splits)
  show "unat (add_cf c x) mod 65535 = (unat c + unat x) mod 65535"
  proof (cases "65536 \<le> unat c + unat x")
    case True
    then have "unat (add_cf c x) + 65535 = unat c + unat x" using eq big by simp
    then show ?thesis by (metis mod_add_self2)
  qed (use eq in simp)
qed

lemma unat_not_u16: "unat (NOT (x :: u16)) + unat x = 65535"
proof -
  have "unat (- 1 - x) = unat (- 1 :: u16) - unat x" by (rule unat_sub) simp
  moreover have "unat x \<le> 65535" using unat_u16_lt [of x] by simp
  moreover have "NOT x = - 1 - x" "unat (- 1 :: u16) = 65535"
    by (simp_all add: not_eq_complement unsigned_minus_1_eq_mask mask_eq_exp_minus_1)
  ultimately show ?thesis by simp
qed

lemma unat_not_halves:
  "unat (NOT (x :: u32) AND 0xFFFF) + unat x mod 65536 = 65535"
  "unat (drop_bit 16 (NOT (x :: u32))) + unat x div 65536 = 65535"
proof -
  have "unat (- 1 - x) = unat (- 1 :: u32) - unat x" by (rule unat_sub) simp
  moreover have "NOT x = - 1 - x" "unat (- 1 :: u32) = 4294967295"
    by (simp_all add: not_eq_complement unsigned_minus_1_eq_mask mask_eq_exp_minus_1)
  ultimately have n: "unat (NOT x) = 4294967295 - unat x" by simp
  define q where "q = unat x div 65536"
  define r where "r = unat x mod 65536"
  have x: "unat x = q * 65536 + r" "r < 65536" by (simp_all add: q_def r_def)
  then have q: "q < 65536" using unat_u32_lt [of x] by simp
  define q' where "q' = 65535 - q"
  define r' where "r' = 65535 - r"
  have r': "r' < 65536" by (simp add: r'_def)
  have "4294967295 - unat x = q' * 65536 + r'" using x q by (simp add: q'_def r'_def)
  then have "unat (NOT x) mod 65536 = r'" "unat (NOT x) div 65536 = q'"
    using n r' by simp_all
  then show "unat (NOT x AND 0xFFFF) + unat x mod 65536 = 65535"
    "unat (drop_bit 16 (NOT x)) + unat x div 65536 = 65535"
    using x q by (simp_all add: unat_hi16 q_def [symmetric] r_def [symmetric] q'_def r'_def)
qed

definition halves :: "u32 \<Rightarrow> nat" where
  "halves a = unat a mod 65536 + unat a div 65536"

lemma half_bounds:
  "unat (a AND 0xFFFF :: u32) \<le> 65535" "unat (drop_bit 16 (a :: u32)) \<le> 65535"
proof -
  have "unat a mod 65536 < 65536" by simp
  then show "unat (a AND 0xFFFF :: u32) \<le> 65535" by simp
  have "unat a div 65536 < 65536" using unat_u32_lt [of a] by (simp add: less_mult_imp_div_less)
  then show "unat (drop_bit 16 (a :: u32)) \<le> 65535" by (simp add: unat_hi16)
qed

text \<open>A one's-complement sum: each addition keeps the value modulo \<open>65535\<close>.\<close>

lemma add_cf_chain:
  assumes "unat c \<le> 65535" and "unat c mod 65535 = a mod 65535" and "unat x \<le> 65535" and "unat x = b"
  shows "unat (add_cf c x) \<le> 65535 \<and> unat (add_cf c x) mod 65535 = (a + b) mod 65535"
  using add_cf_mod [OF assms(1,3)] assms(2,4) by (metis mod_add_left_eq)

lemma not_half_vals:
  "unat (NOT (x :: u32) AND 0xFFFF) = 65535 - unat x mod 65536"
  "unat (drop_bit 16 (NOT (x :: u32))) = 65535 - unat x div 65536"
  using unat_not_halves [of x] by simp_all

lemma ip_cksum_sum:
  "unat (ipa_nati_calc_ip_cksum pub priv) mod 65535 =
     (unat pub mod 65536 + unat pub div 65536 + (65535 - unat priv mod 65536) + (65535 - unat priv div 65536)) mod 65535"
proof -
  define c0 where "c0 = add_cf (pub AND 0xFFFF) (drop_bit 16 pub)"
  define c1 where "c1 = add_cf c0 (NOT priv AND 0xFFFF)"
  define c2 where "c2 = add_cf c1 (drop_bit 16 (NOT priv))"
  have 0: "unat c0 \<le> 65535 \<and> unat c0 mod 65535 = (unat pub mod 65536 + unat pub div 65536) mod 65535"
    unfolding c0_def by (rule add_cf_chain) (simp_all add: half_bounds del: unat_lo16, simp_all add: unat_hi16)
  note 1 = add_cf_chain [OF 0 [THEN conjunct1] 0 [THEN conjunct2] half_bounds(1) not_half_vals(1), of priv, folded c1_def]
  note 2 = add_cf_chain [OF 1 [THEN conjunct1] 1 [THEN conjunct2] half_bounds(2) not_half_vals(2), of priv, folded c2_def]
  have "ipa_nati_calc_ip_cksum pub priv = ucast c2"
    by (simp add: ipa_nati_calc_ip_cksum_def c0_def c1_def c2_def Let_def)
  then have "unat (ipa_nati_calc_ip_cksum pub priv) = unat c2"
    using 2 by (simp add: unsigned_ucast_eq take_bit_nat_eq_self)
  then show ?thesis using 2 by simp
qed

lemma tcp_udp_cksum_sum:
  "unat (ipa_nati_calc_tcp_udp_cksum pub pport priv vport) mod 65535 =
     (unat pub mod 65536 + unat pub div 65536 + unat pport + (65535 - unat priv mod 65536) +
      (65535 - unat priv div 65536) + (65535 - unat vport)) mod 65535"
proof -
  define c0 where "c0 = add_cf (pub AND 0xFFFF) (drop_bit 16 pub)"
  define c1 where "c1 = add_cf c0 (ucast pport)"
  define c2 where "c2 = add_cf c1 (NOT priv AND 0xFFFF)"
  define c3 where "c3 = add_cf c2 (drop_bit 16 (NOT priv))"
  define c4 where "c4 = add_cf c3 (ucast (NOT vport))"
  have p: "unat (ucast x :: u32) \<le> 65535" for x :: u16 using unat_u16_lt [of x] by simp
  have v: "unat (ucast (NOT vport) :: u32) = 65535 - unat vport" using unat_not_u16 [of vport] by simp
  have 0: "unat c0 \<le> 65535 \<and> unat c0 mod 65535 = (unat pub mod 65536 + unat pub div 65536) mod 65535"
    unfolding c0_def by (rule add_cf_chain) (simp_all add: half_bounds del: unat_lo16, simp_all add: unat_hi16)
  note 1 = add_cf_chain [OF 0 [THEN conjunct1] 0 [THEN conjunct2] p unat_ucast_u16_u32, of pport, folded c1_def]
  note 2 = add_cf_chain [OF 1 [THEN conjunct1] 1 [THEN conjunct2] half_bounds(1) not_half_vals(1), of priv, folded c2_def]
  note 3 = add_cf_chain [OF 2 [THEN conjunct1] 2 [THEN conjunct2] half_bounds(2) not_half_vals(2), of priv, folded c3_def]
  note 4 = add_cf_chain [OF 3 [THEN conjunct1] 3 [THEN conjunct2] p v, folded c4_def]
  have "ipa_nati_calc_tcp_udp_cksum pub pport priv vport = ucast c4"
    by (simp add: ipa_nati_calc_tcp_udp_cksum_def c0_def c1_def c2_def c3_def c4_def Let_def)
  then have "unat (ipa_nati_calc_tcp_udp_cksum pub pport priv vport) = unat c4"
    using 4 by (simp add: unsigned_ucast_eq take_bit_nat_eq_self)
  then show ?thesis using 4 by simp
qed

lemma add_compl_mod: "b \<le> 65535 \<Longrightarrow> (a + (65535 - b) + b) mod 65535 = a mod (65535::nat)"
proof -
  assume "b \<le> 65535"
  then have "a + (65535 - b) + b = a + 65535" by simp
  then show ?thesis by simp
qed

lemma mod_add_cong_left: "a mod 65535 = b mod 65535 \<Longrightarrow> (a + c) mod 65535 = (b + c) mod (65535::nat)"
  by (metis mod_add_left_eq)

text \<open>
  The IP checksum difference: added to the one's-complement sum of the private address it gives
  the sum of the public address, modulo \<open>65535\<close>. That is what the hardware relies on when it adds
  the difference to the header checksum of a translated packet.
\<close>

theorem ip_cksum_diff:
  "(unat (ipa_nati_calc_ip_cksum pub priv) + halves priv) mod 65535 = halves pub mod 65535"
proof -
  let ?l = "unat priv mod 65536" and ?h = "unat priv div 65536" and ?p = "halves pub"
  have b: "?l \<le> 65535" "?h \<le> 65535" using unat_not_halves [of priv] by simp_all
  have "(unat (ipa_nati_calc_ip_cksum pub priv) + (?l + ?h)) mod 65535
      = (?p + (65535 - ?l) + (65535 - ?h) + (?l + ?h)) mod 65535"
    using ip_cksum_sum [of pub priv] by (intro mod_add_cong_left) (simp only: halves_def)
  also have "?p + (65535 - ?l) + (65535 - ?h) + (?l + ?h) = ?p + 2 * 65535" using b by simp
  finally show ?thesis by (simp only: halves_def mod_mult_self1)
qed

text \<open>
  C35. The TCP/UDP checksum difference covers the addresses and the ports in the same way.
\<close>

theorem tcp_udp_cksum_diff:
  "(unat (ipa_nati_calc_tcp_udp_cksum pub pport priv vport) + (halves priv + unat vport)) mod 65535
   = (halves pub + unat pport) mod 65535"
proof -
  let ?l = "unat priv mod 65536" and ?h = "unat priv div 65536" and ?p = "halves pub + unat pport"
  have b: "?l \<le> 65535" "?h \<le> 65535" "unat vport \<le> 65535"
    using unat_not_halves [of priv] unat_u16_lt [of vport] by simp_all
  have "(unat (ipa_nati_calc_tcp_udp_cksum pub pport priv vport) + (?l + ?h + unat vport)) mod 65535
      = (?p + (65535 - ?l) + (65535 - ?h) + (65535 - unat vport) + (?l + ?h + unat vport)) mod 65535"
    using tcp_udp_cksum_sum [of pub pport priv vport] by (intro mod_add_cong_left) (simp only: halves_def)
  also have "?p + (65535 - ?l) + (65535 - ?h) + (65535 - unat vport) + (?l + ?h + unat vport) = ?p + 3 * 65535"
    using b by simp
  finally show ?thesis by (simp only: halves_def mod_mult_self1)
qed

subsection \<open>The hashes select a usable record of the base area\<close>

lemma hash_range:
  assumes "unat te = 2 ^ k" and "2 \<le> unat (te :: u16)"
  shows "0 < unat (let h = x AND (te - 1) in if h = 0 then te - 1 else h)"
    and "unat (let h = x AND (te - 1) in if h = 0 then te - 1 else h) < unat te"
proof -
  have t: "unat (te - 1) = unat te - 1" using assms(2) by (intro unat_pred_u16) auto
  have "unat (x AND (te - 1)) \<le> unat (te - 1)" by (simp add: word_and_le1 word_le_nat_alt [symmetric])
  moreover have "te - 1 \<noteq> 0" using t assms(2) by (auto simp: word_unat_eq_iff)
  ultimately show "0 < unat (let h = x AND (te - 1) in if h = 0 then te - 1 else h)"
    "unat (let h = x AND (te - 1) in if h = 0 then te - 1 else h) < unat te"
    using t assms(2) by (auto simp: Let_def unat_gt_0)
qed

end
