(* ===== verification/Mem_Descriptor.thy ===== *)
theory Mem_Descriptor
  imports Ipa_Table
begin

section \<open>Memory descriptors and the driver's file descriptor\<close>

text \<open>
  \<open>ipa_mem_descriptor.c\<close>, \<open>ipa_descriptor_open\<close>, \<open>ipa_descriptor_close\<close> and \<open>currTimeAs\<close> of
  \<open>ipa_nat_utils.c\<close>, and the interface through which all components of the library reach the operating
  system and the IPA kernel driver.

  The operating system is the parameter \<open>env\<close>: a record of functions over its own state \<open>'w\<close>, one for
  each call the sources make (lock and unlock of \<open>nat_mutex\<close>, \<open>open\<close>, \<open>close\<close>, \<open>mmap\<close>, \<open>munmap\<close>,
  \<open>calloc\<close>, \<open>clock_gettime\<close>, and one function per \<open>ioctl\<close> request). Nothing is assumed of it here; the
  theorems that rely on documented behaviour of a call name it as a hypothesis.
\<close>

record ipa_nat_in_sram_info =
  sram_mem_available_for_nat :: u32
  nat_table_offset_into_mmap :: u32
  best_nat_in_sram_size_rqst :: u32

definition sram_info_zero :: ipa_nat_in_sram_info where
  "sram_info_zero = \<lparr>sram_mem_available_for_nat = 0, nat_table_offset_into_mmap = 0, best_nat_in_sram_size_rqst = 0\<rparr>"

datatype ipa_ioctl_num =
  IPA_IOC_ALLOC_NAT_TABLE | IPA_IOC_DEL_NAT_TABLE | IPA_IOC_ALLOC_IPV6CT_TABLE | IPA_IOC_DEL_IPV6CT_TABLE

record ipa_ioc_v4_nat_init =
  i_tbl_index :: u8
  i_ipv4_rules_offset :: u32
  i_expn_rules_offset :: u32
  i_index_offset :: u32
  i_index_expn_offset :: u32
  i_table_entries :: u16
  i_expn_table_entries :: u16
  i_ip_addr :: u32
  i_mem_type :: u8
  i_focus_change :: bool

record ipa_ioc_nat_pdn_entry =
  pe_pdn_index :: u8
  pe_public_ip :: u32
  pe_src_metadata :: u32
  pe_dst_metadata :: u32

datatype ipa_app_clock_vote_type = IPA_APP_CLK_DEVOTE | IPA_APP_CLK_VOTE | IPA_APP_CLK_RESET_VOTE

record timespec =
  tv_sec :: u64
  tv_nsec :: u64

record 'w ipa_env =
  pthread_mutex_lock :: "'w \<Rightarrow> int \<times> 'w"
  pthread_mutex_unlock :: "'w \<Rightarrow> int \<times> 'w"
  os_open :: "string \<Rightarrow> 'w \<Rightarrow> int \<times> 'w"
  os_close :: "int \<Rightarrow> 'w \<Rightarrow> int \<times> 'w"
  os_mmap :: "nat \<Rightarrow> int \<Rightarrow> 'w \<Rightarrow> u64 option \<times> 'w"
  os_munmap :: "u64 \<Rightarrow> nat \<Rightarrow> 'w \<Rightarrow> 'w"
  os_calloc :: "nat \<Rightarrow> 'w \<Rightarrow> bool \<times> 'w"
  os_clock_gettime :: "'w \<Rightarrow> (int \<times> timespec) \<times> 'w"
  ioctl_hw_version :: "int \<Rightarrow> 'w \<Rightarrow> (int \<times> nat) \<times> 'w"
  ioctl_sram_info :: "int \<Rightarrow> 'w \<Rightarrow> (int \<times> ipa_nat_in_sram_info) \<times> 'w"
  ioctl_alloc :: "ipa_ioctl_num \<Rightarrow> int \<Rightarrow> nat \<Rightarrow> 'w \<Rightarrow> (int \<times> u32) \<times> 'w"
  ioctl_del :: "ipa_ioctl_num \<Rightarrow> int \<Rightarrow> u8 \<Rightarrow> ipa3_nat_mem_in \<Rightarrow> 'w \<Rightarrow> int \<times> 'w"
  ioctl_v4_init :: "int \<Rightarrow> ipa_ioc_v4_nat_init \<Rightarrow> 'w \<Rightarrow> int \<times> 'w"
  ioctl_modify_pdn :: "int \<Rightarrow> ipa_ioc_nat_pdn_entry \<Rightarrow> 'w \<Rightarrow> int \<times> 'w"
  ioctl_clock_vote :: "int \<Rightarrow> ipa_app_clock_vote_type \<Rightarrow> 'w \<Rightarrow> int \<times> 'w"

subsection \<open>Memory descriptors\<close>

record ipa_mem_descriptor =
  orig_rqst_size :: nat
  mmap_size :: nat
  base_addr :: u64
  mmap_addr :: u64
  addr_offset :: u32
  allocate_ioctl_num :: ipa_ioctl_num
  delete_ioctl_num :: ipa_ioctl_num
  md_name :: string
  table_index :: u8
  valid :: bool
  consider_using_sram :: bool
  sram_available :: bool
  sram_to_be_used :: bool
  nat_sram_info :: ipa_nat_in_sram_info

text \<open>The descriptor after \<open>memset\<close> of the structure it lies in; the request numbers are set before use.\<close>

definition mem_descriptor_zero :: ipa_mem_descriptor where
  "mem_descriptor_zero =
     \<lparr>orig_rqst_size = 0, mmap_size = 0, base_addr = 0, mmap_addr = 0, addr_offset = 0,
      allocate_ioctl_num = IPA_IOC_ALLOC_NAT_TABLE, delete_ioctl_num = IPA_IOC_DEL_NAT_TABLE,
      md_name = '''', table_index = 0, valid = False, consider_using_sram = False,
      sram_available = False, sram_to_be_used = False, nat_sram_info = sram_info_zero\<rparr>"

definition MAP_FAILED :: u64 where "MAP_FAILED = - 1"

definition IPA_DEV_DIR :: string where "IPA_DEV_DIR = ''/dev/''"

definition AllocateMemory ::
    "('w, 'm) ipa_env_scheme \<Rightarrow> ipa_mem_descriptor \<Rightarrow> int \<Rightarrow> 'w \<Rightarrow> (int \<times> ipa_mem_descriptor) \<times> 'w" where
  "AllocateMemory env desc ipa_fd w =
     (let desc = desc\<lparr>sram_available := False, sram_to_be_used := False, nat_sram_info := sram_info_zero\<rparr>;
          ((ret, info), w) = ioctl_sram_info env ipa_fd w;
          desc = desc\<lparr>nat_sram_info := info\<rparr>;
          desc = (if ret = 0
                  then (let desc = desc\<lparr>sram_available := True\<rparr>
                        in if consider_using_sram desc \<and>
                              orig_rqst_size desc \<le> unat (sram_mem_available_for_nat (nat_sram_info desc))
                           then desc\<lparr>sram_to_be_used := True\<rparr> else desc)
                  else desc);
          ((ret, offset), w) = ioctl_alloc env (allocate_ioctl_num desc) ipa_fd (orig_rqst_size desc) w
      in if ret \<noteq> 0 then ((ret, desc), w) else ((ret, desc\<lparr>addr_offset := offset\<rparr>), w))"

definition MapMemory ::
    "('w, 'm) ipa_env_scheme \<Rightarrow> ipa_mem_descriptor \<Rightarrow> int \<Rightarrow> 'w \<Rightarrow> (int \<times> ipa_mem_descriptor) \<times> 'w" where
  "MapMemory env desc ipa_fd w =
     (let device_full_path = IPA_DEV_DIR @ take (IPA_RESOURCE_NAME_MAX - length IPA_DEV_DIR - 1) (md_name desc)
      in if IPA_RESOURCE_NAME_MAX \<le> length IPA_DEV_DIR then ((- EINVAL, desc), w)
         else
           let (device_fd, w) = os_open env device_full_path w
           in if device_fd < 0 then ((- EIO, desc), w)
              else
                let desc = desc\<lparr>mmap_size := (if sram_to_be_used desc
                                             then unat (best_nat_in_sram_size_rqst (nat_sram_info desc))
                                             else orig_rqst_size desc)\<rparr>;
                    (mapped, w) = os_mmap env (mmap_size desc) device_fd w;
                    a = (case mapped of None \<Rightarrow> MAP_FAILED | Some a \<Rightarrow> a);
                    desc = desc\<lparr>mmap_addr := a, base_addr := a\<rparr>;
                    (ret, desc) =
                      (if mapped = None then (- EINVAL, desc)
                       else (0, if sram_to_be_used desc
                                then desc\<lparr>base_addr := base_addr desc +
                                       ucast (nat_table_offset_into_mmap (nat_sram_info desc))\<rparr>
                                else desc));
                    (c, w) = os_close env device_fd w
                in ((if c \<noteq> 0 then - EINVAL else ret, desc), w))"

definition DeallocateMemory ::
    "('w, 'm) ipa_env_scheme \<Rightarrow> ipa_mem_descriptor \<Rightarrow> int \<Rightarrow> 'w \<Rightarrow> int \<times> 'w" where
  "DeallocateMemory env desc ipa_fd w =
     ioctl_del env (delete_ioctl_num desc) ipa_fd (table_index desc)
       (if sram_to_be_used desc then IPA_NAT_MEM_IN_SRAM else IPA_NAT_MEM_IN_DDR) w"

definition ipa_mem_descriptor_init ::
    "ipa_mem_descriptor \<Rightarrow> string \<Rightarrow> nat \<Rightarrow> u8 \<Rightarrow> ipa_ioctl_num \<Rightarrow> ipa_ioctl_num \<Rightarrow> bool \<Rightarrow> ipa_mem_descriptor" where
  "ipa_mem_descriptor_init desc device_name size' tbl_index alloc_num del_num consider =
     desc\<lparr>md_name := take (IPA_RESOURCE_NAME_MAX - 1) device_name,
          orig_rqst_size := size', mmap_size := size', table_index := tbl_index,
          allocate_ioctl_num := alloc_num, delete_ioctl_num := del_num, consider_using_sram := consider\<rparr>"

definition ipa_mem_descriptor_allocate_memory ::
    "('w, 'm) ipa_env_scheme \<Rightarrow> ipa_mem_descriptor \<Rightarrow> int \<Rightarrow> 'w \<Rightarrow> (int \<times> ipa_mem_descriptor) \<times> 'w" where
  "ipa_mem_descriptor_allocate_memory env desc ipa_fd w =
     (let ((ret, desc), w) = AllocateMemory env desc ipa_fd w
      in if ret \<noteq> 0 then ((ret, desc), w)
         else
           let ((ret, desc), w) = MapMemory env desc ipa_fd w
           in if ret \<noteq> 0 then (let (_, w) = DeallocateMemory env desc ipa_fd w in ((ret, desc), w))
              else ((ret, desc\<lparr>valid := True\<rparr>), w))"

definition ipa_mem_descriptor_delete ::
    "('w, 'm) ipa_env_scheme \<Rightarrow> ipa_mem_descriptor \<Rightarrow> int \<Rightarrow> 'w \<Rightarrow> (int \<times> ipa_mem_descriptor) \<times> 'w" where
  "ipa_mem_descriptor_delete env desc ipa_fd w =
     (if \<not> valid desc then ((- EINVAL, desc), w)
      else
        let desc = desc\<lparr>valid := False\<rparr>;
            w = os_munmap env (mmap_addr desc) (mmap_size desc) w;
            (ret, w) = DeallocateMemory env desc ipa_fd w
        in ((ret, desc), w))"

subsection \<open>The driver's file descriptor\<close>

record ipa_descriptor =
  fd :: int
  ver :: nat

definition IPA_HW_None :: nat where "IPA_HW_None = 0"

definition ipa_descriptor_open :: "('w, 'm) ipa_env_scheme \<Rightarrow> 'w \<Rightarrow> ipa_descriptor option \<times> 'w" where
  "ipa_descriptor_open env w =
     (let (ok, w) = os_calloc env 1 w
      in if \<not> ok then (None, w)
         else
           let (f, w) = os_open env ''/dev/ipa'' w
           in if f < 0 then (None, w)
              else
                let ((res, v), w) = ioctl_hw_version env f w
                in (Some \<lparr>fd = f, ver = (if res = 0 then v else IPA_HW_None)\<rparr>, w))"

definition ipa_descriptor_close :: "('w, 'm) ipa_env_scheme \<Rightarrow> ipa_descriptor option \<Rightarrow> 'w \<Rightarrow> 'w" where
  "ipa_descriptor_close env desc_ptr w =
     (case desc_ptr of
        None \<Rightarrow> w
      | Some d \<Rightarrow> if 0 \<le> fd d then snd (os_close env (fd d) w) else w)"

subsection \<open>Time\<close>

text \<open>\<open>TimeAsOther\<close> stands for every value outside the enumeration.\<close>

datatype TimeAs_t = TimeAsNanSecs | TimeAsMicSecs | TimeAsMilSecs | TimeAsOther

definition currTimeAs :: "('w, 'm) ipa_env_scheme \<Rightarrow> TimeAs_t \<Rightarrow> 'w \<Rightarrow> (int \<times> u64 option) \<times> 'w" where
  "currTimeAs env timeAs w =
     (if timeAs = TimeAsOther then ((- 1, None), w)
      else
        let ((c, ts), w) = os_clock_gettime env w
        in if c \<noteq> 0 then ((- 1, None), w)
           else ((0, Some (case timeAs of
                   TimeAsNanSecs \<Rightarrow> tv_sec ts * 1000000000 + tv_nsec ts
                 | TimeAsMicSecs \<Rightarrow> tv_sec ts * 1000000 + tv_nsec ts div 1000
                 | TimeAsMilSecs \<Rightarrow> tv_sec ts * 1000 + tv_nsec ts div 1000000
                 | TimeAsOther \<Rightarrow> 0)), w))"

subsection \<open>Hypotheses on the operating system\<close>

text \<open>Locking and unlocking always succeed.\<close>

definition mutex_works :: "('w, 'm) ipa_env_scheme \<Rightarrow> bool" where
  "mutex_works env \<longleftrightarrow> (\<forall>w. fst (pthread_mutex_lock env w) = 0 \<and> fst (pthread_mutex_unlock env w) = 0)"

lemma mutex_works_lock:
  assumes "mutex_works env"
  obtains w' where "pthread_mutex_lock env w = (0, w')"
  using assms by (metis mutex_works_def prod.collapse)

text \<open>The kernel places a table at offset \<open>0\<close> of the memory it allocates for it.\<close>

definition alloc_at_zero :: "('w, 'm) ipa_env_scheme \<Rightarrow> bool" where
  "alloc_at_zero env \<longleftrightarrow>
     (\<forall>num f sz w off w'. ioctl_alloc env num f sz w = ((0, off), w') \<longrightarrow> off = 0)"

lemma AllocateMemory_ok:
  assumes "AllocateMemory env md f w = ((0, md'), w')" and "alloc_at_zero env"
  shows "addr_offset md' = 0"
  using assms by (fastforce simp: AllocateMemory_def alloc_at_zero_def Let_def split: prod.splits if_splits)

lemma MapMemory_offset:
  assumes "MapMemory env md f w = ((r, md'), w')" shows "addr_offset md' = addr_offset md"
  using assms by (auto simp: MapMemory_def Let_def split: prod.splits if_splits option.splits)

lemma allocate_memory_ok:
  assumes "ipa_mem_descriptor_allocate_memory env md f w = ((0, md'), w')" and "alloc_at_zero env"
  shows "valid md'" and "addr_offset md' = 0"
proof -
  obtain r1 md1 w1 where a: "AllocateMemory env md f w = ((r1, md1), w1)" by (metis surj_pair)
  obtain r2 md2 w2 where m: "MapMemory env md1 f w1 = ((r2, md2), w2)" by (metis surj_pair)
  have r: "r1 = 0" "md' = md2\<lparr>valid := True\<rparr>"
    using assms(1) a m by (auto simp: ipa_mem_descriptor_allocate_memory_def split: if_splits prod.splits)
  show "valid md'" using r by simp
  show "addr_offset md' = 0" using AllocateMemory_ok [OF a [unfolded r(1)] assms(2)] MapMemory_offset [OF m] r(2) by simp
qed

end
