(* ===== verification/Nat_Drvi.thy ===== *)
theory Nat_Drvi
  imports Nat_Entry Mem_Descriptor
begin

unbundle bit_operations_syntax

section \<open>The IPv4 NAT driver (\<open>ipa_nat_drvi.c\<close>)\<close>

text \<open>
  The caches, the table of public addresses and every operation of \<open>ipa_nat_drvi.c\<close> except the two that
  only print. The file's static variables are the record \<open>nat_globals\<close>. An operation takes the
  environment, the globals and the state of the operating system and returns the return code, its output
  parameters, the new globals and the new state; \<open>None\<close> is a fault (an index outside an array, a null
  pointer). \<open>index_expn_table_meta\<close> and \<open>index_table.meta\<close> are the same array in the code and one field here.
\<close>

subsection \<open>Data\<close>

record ipa_nat_ip4_table_cache =
  public_addr :: u32
  mem_desc :: ipa_mem_descriptor
  nt_table :: "ipa_nat_rule ipa_table"
  nt_index_table :: "ipa_nat_indx_tbl_rule ipa_table"

record ipa_nat_cache =
  ipa_desc :: "ipa_descriptor option"
  ip4_tbl :: "ipa_nat_ip4_table_cache list"
  table_cnt :: u8
  nc_nmi :: ipa3_nat_mem_in

record nat_globals =
  ipv4_nat_cache :: "ipa_nat_cache list"
  active_nat_cache :: "ipa3_nat_mem_in option"
  pdns :: "ipa_nat_pdn_entry list"
  num_pdns :: int
  Hash_token :: u32

text \<open>
  The posting of DMA commands is the one request that changes table memory: it receives the records of the
  NAT table and of the index table that \<open>mem_type\<close> names and returns them as the hardware leaves them.
\<close>

type_synonym nat_mem = "ipa_nat_rule list \<times> ipa_nat_indx_tbl_rule list"

record 'w nat_env = "'w ipa_env" +
  ioctl_table_dma :: "int \<Rightarrow> ipa_ioc_nat_dma_cmd \<Rightarrow> nat_mem \<Rightarrow> 'w \<Rightarrow> (int \<times> nat_mem) \<times> 'w"

definition IPA_NAT_MAX_IP4_TBLS :: nat where "IPA_NAT_MAX_IP4_TBLS = 1"
definition IPA_MAX_PDN_NUM :: nat where "IPA_MAX_PDN_NUM = 16"
definition MAX_DMA_ENTRIES_FOR_ADD :: nat where "MAX_DMA_ENTRIES_FOR_ADD = 4"
definition MAX_DMA_ENTRIES_FOR_DEL :: nat where "MAX_DMA_ENTRIES_FOR_DEL = 3"
definition IPA_NAT_TABLE_NAME :: string where "IPA_NAT_TABLE_NAME = ''IPA NAT table''"
definition IPA_NAT_INDEX_TABLE_NAME :: string where "IPA_NAT_INDEX_TABLE_NAME = ''IPA NAT index table''"
definition IPA_NAT_DEV_NAME :: string where "IPA_NAT_DEV_NAME = ''ipaNatTable''"

definition MAKE_TBL_HDL :: "u32 \<Rightarrow> ipa3_nat_mem_in \<Rightarrow> u32" where
  "MAKE_TBL_HDL hdl mt = push_bit 31 (nmi_val mt) OR hdl"

definition BREAK_TBL_HDL :: "u32 \<Rightarrow> ipa3_nat_mem_in \<times> u32" where
  "BREAK_TBL_HDL hdl = (nmi_of (drop_bit 31 hdl AND 1), hdl AND 0xFF)"

definition VALID_TBL_HDL :: "u32 \<Rightarrow> bool" where
  "VALID_TBL_HDL h \<longleftrightarrow> h AND 0xFF = of_nat IPA_NAT_MAX_IP4_TBLS"

text \<open>A structure and a table after \<open>memset\<close>.\<close>

definition table_zero :: "'e ipa_table" where
  "table_zero = ipa_table_init '''' IPA_NAT_MEM_IN_DDR 0 None 0"

definition nat_table_zero :: ipa_nat_ip4_table_cache where
  "nat_table_zero = \<lparr>public_addr = 0, mem_desc = mem_descriptor_zero, nt_table = table_zero, nt_index_table = table_zero\<rparr>"

definition nat_cache_zero :: ipa_nat_cache where
  "nat_cache_zero = \<lparr>ipa_desc = None, ip4_tbl = [nat_table_zero], table_cnt = 0, nc_nmi = IPA_NAT_MEM_IN_DDR\<rparr>"

definition pdn_zero :: ipa_nat_pdn_entry where
  "pdn_zero = \<lparr>p_public_ip = 0, p_src_metadata = 0, p_dst_metadata = 0\<rparr>"

definition nat_globals_init :: nat_globals where
  "nat_globals_init = \<lparr>ipv4_nat_cache = [nat_cache_zero, nat_cache_zero], active_nat_cache = None,
     pdns = replicate IPA_MAX_PDN_NUM pdn_zero, num_pdns = 0, Hash_token = 69\<rparr>"

text \<open>Access to a cache and to one of its tables.\<close>

definition cache_idx :: "ipa3_nat_mem_in \<Rightarrow> nat" where
  "cache_idx n = unat (nmi_val n)"

definition get_cache :: "nat_globals \<Rightarrow> ipa3_nat_mem_in \<Rightarrow> ipa_nat_cache option" where
  "get_cache g n = mem_read (ipv4_nat_cache g) (cache_idx n)"

definition put_cache :: "nat_globals \<Rightarrow> ipa3_nat_mem_in \<Rightarrow> ipa_nat_cache \<Rightarrow> nat_globals" where
  "put_cache g n c = g\<lparr>ipv4_nat_cache := (ipv4_nat_cache g)[cache_idx n := c]\<rparr>"

definition get_tbl :: "ipa_nat_cache \<Rightarrow> u32 \<Rightarrow> ipa_nat_ip4_table_cache option" where
  "get_tbl c k = mem_read (ip4_tbl c) (unat k)"

definition put_tbl :: "ipa_nat_cache \<Rightarrow> u32 \<Rightarrow> ipa_nat_ip4_table_cache \<Rightarrow> ipa_nat_cache" where
  "put_tbl c k nt = c\<lparr>ip4_tbl := (ip4_tbl c)[unat k := nt]\<rparr>"

text \<open>The end of most operations: unlock, and report a failing unlock unless there is an error already.\<close>

definition unlock_ret :: "('w, 'm) ipa_env_scheme \<Rightarrow> int \<Rightarrow> 'w \<Rightarrow> int \<times> 'w" where
  "unlock_ret env ret w =
     (let (u, w) = pthread_mutex_unlock env w
      in (if u \<noteq> 0 then (if ret \<noteq> 0 then ret else - EPERM) else ret, w))"

subsection \<open>Creating and destroying a table\<close>

definition ipa_nati_create_table_dma_cmd_helpers ::
    "ipa_nat_ip4_table_cache \<Rightarrow> u8 \<Rightarrow> ipa_nat_ip4_table_cache" where
  "ipa_nati_create_table_dma_cmd_helpers nat_table table_indx =
     (let off = (\<lambda>f. addr_offset (mem_desc nat_table) + of_nat f);
          flags = ipa_table_dma_cmd_helper_init table_indx IPA_NAT_BASE_TBL IPA_NAT_EXPN_TBL
                    (off IPA_NAT_RULE_FLAG_FIELD_OFFSET);
          nxt = ipa_table_dma_cmd_helper_init table_indx IPA_NAT_BASE_TBL IPA_NAT_EXPN_TBL
                    (off IPA_NAT_RULE_NEXT_FIELD_OFFSET);
          proto = ipa_table_dma_cmd_helper_init table_indx IPA_NAT_BASE_TBL IPA_NAT_EXPN_TBL
                    (off IPA_NAT_RULE_PROTO_FIELD_OFFSET);
          ientry = ipa_table_dma_cmd_helper_init table_indx IPA_NAT_INDX_TBL IPA_NAT_INDEX_EXPN_TBL
                    (off IPA_NAT_INDEX_RULE_NAT_INDEX_FIELD_OFFSET);
          inxt = ipa_table_dma_cmd_helper_init table_indx IPA_NAT_INDX_TBL IPA_NAT_INDEX_EXPN_TBL
                    (off IPA_NAT_INDEX_RULE_NEXT_FIELD_OFFSET)
      in nat_table
           \<lparr>nt_table := (nt_table nat_table)\<lparr>dma_help := [Some flags, Some nxt, Some proto]\<rparr>,
            nt_index_table := (nt_index_table nat_table)\<lparr>dma_help := [Some ientry, Some inxt, Some ientry]\<rparr>\<rparr>)"

definition ipa_nati_create_table ::
    "('w, 'm) ipa_env_scheme \<Rightarrow> ipa_nat_cache \<Rightarrow> ipa_nat_ip4_table_cache \<Rightarrow> u32 \<Rightarrow> u16 \<Rightarrow> u8 \<Rightarrow> 'w
     \<Rightarrow> (int \<times> ipa_nat_ip4_table_cache \<times> 'w) option" where
  "ipa_nati_create_table env cache nat_table public_ip_addr number_of_entries tbl_index w =
     do {
       let nat_table = nat_table\<lparr>public_addr := public_ip_addr,
             nt_table := ipa_table_init IPA_NAT_TABLE_NAME (nc_nmi cache) IPA_NAT_RULE_SIZE None 0\<rparr>;
       (ret, t) \<leftarrow> ipa_table_calculate_entries_num (nt_table nat_table) number_of_entries (nc_nmi cache);
       let nat_table = nat_table\<lparr>nt_table := t\<rparr>;
       if ret \<noteq> 0 then Some (ret, nat_table, w)
       else do {
         let (ok, w) = os_calloc env (unat (expn_table_entries t)) w;
         if \<not> ok then Some (- ENOMEM, nat_table, w)
         else do {
           let m = replicate (unat (expn_table_entries t)) 0;
           let ix = ipa_table_init IPA_NAT_INDEX_TABLE_NAME (nc_nmi cache) IPA_NAT_INDX_RULE_SIZE (Some m) 2;
           let ix = ix\<lparr>table_entries := table_entries t, expn_table_entries := expn_table_entries t,
                       tot_tbl_ents := tot_tbl_ents t\<rparr>;
           let size' = ipa_table_calculate_size t + ipa_table_calculate_size ix;
           let md = ipa_mem_descriptor_init (mem_desc nat_table) IPA_NAT_DEV_NAME size' tbl_index
                      IPA_IOC_ALLOC_NAT_TABLE IPA_IOC_DEL_NAT_TABLE True;
           d \<leftarrow> ipa_desc cache;
           let ((ret, md), w) = ipa_mem_descriptor_allocate_memory env md (fd d) w;
           if ret \<noteq> 0 then Some (ret, nat_table_zero, w)
           else do {
             let (base, t) = ipa_table_calculate_addresses t (base_addr md);
             let (_, ix) = ipa_table_calculate_addresses ix base;
             let t = ipa_table_reset t;
             let ix = ipa_table_reset ix;
             let nat_table = nat_table\<lparr>mem_desc := md, nt_table := t, nt_index_table := ix\<rparr>;
             Some (ret, ipa_nati_create_table_dma_cmd_helpers nat_table tbl_index, w)
           }
         }
       }
     }"

definition ipa_nati_destroy_table ::
    "('w, 'm) ipa_env_scheme \<Rightarrow> ipa_nat_cache \<Rightarrow> ipa_nat_ip4_table_cache \<Rightarrow> 'w
     \<Rightarrow> (int \<times> ipa_nat_ip4_table_cache \<times> 'w) option" where
  "ipa_nati_destroy_table env cache nat_table w =
     do {
       d \<leftarrow> ipa_desc cache;
       let ((ret, _), w) = ipa_mem_descriptor_delete env (mem_desc nat_table) (fd d) w;
       Some (ret, nat_table_zero, w)
     }"

definition ipa_nati_post_ipv4_init_cmd ::
    "('w, 'm) ipa_env_scheme \<Rightarrow> ipa_nat_cache \<Rightarrow> ipa_nat_ip4_table_cache \<Rightarrow> u8 \<Rightarrow> bool \<Rightarrow> 'w
     \<Rightarrow> (int \<times> 'w) option" where
  "ipa_nati_post_ipv4_init_cmd env cache nat_table tbl_index focus_change w =
     do {
       let t = nt_table nat_table;
       let ix = nt_index_table nat_table;
       let rules = addr_offset (mem_desc nat_table);
       let expn = rules + of_nat (unat (table_entries t) * IPA_NAT_RULE_SIZE);
       let indx = expn + of_nat (unat (expn_table_entries t) * IPA_NAT_RULE_SIZE);
       let indx_expn = indx + of_nat (unat (table_entries ix) * IPA_NAT_INDX_RULE_SIZE);
       let cmd = \<lparr>i_tbl_index = tbl_index, i_ipv4_rules_offset = rules, i_expn_rules_offset = expn,
                  i_index_offset = indx, i_index_expn_offset = indx_expn,
                  i_table_entries = table_entries t - 1, i_expn_table_entries = expn_table_entries t,
                  i_ip_addr = public_addr nat_table, i_mem_type = ucast (nmi_val (nc_nmi cache)),
                  i_focus_change = focus_change\<rparr>;
       d \<leftarrow> ipa_desc cache;
       Some (ioctl_v4_init env (fd d) cmd w)
     }"

definition ipa_NATI_post_ipv4_init_cmd ::
    "('w, 'm) ipa_env_scheme \<Rightarrow> nat_globals \<Rightarrow> u32 \<Rightarrow> 'w \<Rightarrow> (int \<times> nat_globals \<times> 'w) option" where
  "ipa_NATI_post_ipv4_init_cmd env g tbl_hdl w =
     (let (n, tbl_hdl) = BREAK_TBL_HDL tbl_hdl
      in if \<not> IPA_VALID_NAT_MEM_IN n then Some (- EINVAL, g, w)
         else do {
           cache \<leftarrow> get_cache g n;
           let (l, w) = pthread_mutex_lock env w;
           if l \<noteq> 0 then Some (- EINVAL, g, w)
           else if table_cnt cache = 0
           then (let (ret, w) = unlock_ret env (- EINVAL) w in Some (ret, g, w))
           else do {
             nt \<leftarrow> get_tbl cache (tbl_hdl - 1);
             (ret, w) \<leftarrow> ipa_nati_post_ipv4_init_cmd env cache nt (ucast (tbl_hdl - 1)) True w;
             let g = (if ret \<noteq> 0 then g else g\<lparr>active_nat_cache := Some n\<rparr>);
             let (ret, w) = unlock_ret env ret w;
             Some (ret, g, w)
           }
         })"

text \<open>The third component of the result is the handle stored in \<open>*tbl_hdl\<close>.\<close>

definition ipa_NATI_add_ipv4_tbl ::
    "('w, 'm) ipa_env_scheme \<Rightarrow> nat_globals \<Rightarrow> ipa3_nat_mem_in \<Rightarrow> u32 \<Rightarrow> u16 \<Rightarrow> 'w
     \<Rightarrow> (int \<times> nat_globals \<times> u32 \<times> 'w) option" where
  "ipa_NATI_add_ipv4_tbl env g n public_ip_addr number_of_entries w =
     (if \<not> IPA_VALID_NAT_MEM_IN n then Some (- EINVAL, g, 0, w)
      else do {
        cache \<leftarrow> get_cache g n;
        let (l, w) = pthread_mutex_lock env w;
        if l \<noteq> 0 then Some (- EINVAL, g, 0, w)
        else do {
          let cache = cache\<lparr>nc_nmi := n\<rparr>;
          (ret, g, hdl, w) \<leftarrow>
            (if IPA_NAT_MAX_IP4_TBLS \<le> unat (table_cnt cache)
             then Some (- EINVAL, put_cache g n cache, 0, w)
             else do {
               let (desc, w) = (case ipa_desc cache of
                                  Some d \<Rightarrow> (Some d, w) | None \<Rightarrow> ipa_descriptor_open env w);
               let cache = cache\<lparr>ipa_desc := desc\<rparr>;
               if desc = None then Some (- EIO, put_cache g n cache, 0, w)
               else do {
                 nt \<leftarrow> get_tbl cache (ucast (table_cnt cache));
                 (ret, nt, w) \<leftarrow> ipa_nati_create_table env cache nt public_ip_addr number_of_entries
                                  (table_cnt cache) w;
                 (ret, nt, w) \<leftarrow>
                   (if ret \<noteq> 0 then Some (ret, nt, w)
                    else do {
                      (ret, w) \<leftarrow> ipa_nati_post_ipv4_init_cmd env cache nt (table_cnt cache) False w;
                      if ret \<noteq> 0
                      then do { (_, nt, w) \<leftarrow> ipa_nati_destroy_table env cache nt w; Some (ret, nt, w) }
                      else Some (ret, nt, w)
                    });
                 let cache = put_tbl cache (ucast (table_cnt cache)) nt;
                 if ret \<noteq> 0
                 then (if table_cnt cache = 0
                       then (let w = ipa_descriptor_close env (ipa_desc cache) w
                             in Some (ret, put_cache g n (cache\<lparr>ipa_desc := None\<rparr>), 0, w))
                       else Some (ret, put_cache g n cache, 0, w))
                 else do {
                   p0 \<leftarrow> mem_read (pdns g) 0;
                   let g = g\<lparr>active_nat_cache := Some n,
                             pdns := (pdns g)[0 := p0\<lparr>p_public_ip := public_ip_addr\<rparr>], num_pdns := 1\<rparr>;
                   let cache = cache\<lparr>table_cnt := table_cnt cache + 1\<rparr>;
                   Some (0, put_cache g n cache, MAKE_TBL_HDL (ucast (table_cnt cache)) n, w)
                 }
               }
             });
          let (u, w) = pthread_mutex_unlock env w;
          Some (if u \<noteq> 0 then - EPERM else ret, g, hdl, w)
        }
      })"

definition ipa_NATI_del_ipv4_table ::
    "('w, 'm) ipa_env_scheme \<Rightarrow> nat_globals \<Rightarrow> u32 \<Rightarrow> 'w \<Rightarrow> (int \<times> nat_globals \<times> 'w) option" where
  "ipa_NATI_del_ipv4_table env g tbl_hdl w =
     (let (n, tbl_hdl) = BREAK_TBL_HDL tbl_hdl
      in if \<not> IPA_VALID_NAT_MEM_IN n then Some (- EINVAL, g, w)
         else do {
           cache \<leftarrow> get_cache g n;
           let (l, w) = pthread_mutex_lock env w;
           if l \<noteq> 0 then Some (- EINVAL, g, w)
           else do {
             nt \<leftarrow> get_tbl cache (tbl_hdl - 1);
             (ret, g, w) \<leftarrow>
               (if \<not> valid (mem_desc nt) then Some (- EINVAL, g, w)
                else do {
                  (ret, nt, w) \<leftarrow> ipa_nati_destroy_table env cache nt w;
                  let cache = put_tbl cache (tbl_hdl - 1) nt;
                  if ret \<noteq> 0 then Some (ret, put_cache g n cache, w)
                  else do {
                    let cache = cache\<lparr>table_cnt := table_cnt cache - 1\<rparr>;
                    if table_cnt cache = 0
                    then (let w = ipa_descriptor_close env (ipa_desc cache) w
                          in Some (ret, put_cache g n (cache\<lparr>ipa_desc := None\<rparr>), w))
                    else Some (ret, put_cache g n cache, w)
                  }
                });
             let (ret, w) = unlock_ret env ret w;
             Some (ret, g, w)
           }
         })"

subsection \<open>The table of public addresses\<close>

definition ipa_nati_modify_pdn ::
    "('w, 'm) ipa_env_scheme \<Rightarrow> nat_globals \<Rightarrow> ipa_ioc_nat_pdn_entry \<Rightarrow> 'w \<Rightarrow> (int \<times> nat_globals \<times> 'w) option" where
  "ipa_nati_modify_pdn env g entry w =
     do {
       ddr \<leftarrow> get_cache g IPA_NAT_MEM_IN_DDR;
       sram \<leftarrow> get_cache g IPA_NAT_MEM_IN_SRAM;
       let cache = (if ipa_desc ddr \<noteq> None then ddr else sram);
       (case ipa_desc cache of
          None \<Rightarrow> Some (- EIO, g, w)
        | Some d \<Rightarrow> do {
            let (ret, w) = ioctl_modify_pdn env (fd d) entry w;
            if ret \<noteq> 0 then Some (ret, g, w)
            else do {
              p \<leftarrow> mem_write (pdns g) (unat (pe_pdn_index entry))
                     \<lparr>p_public_ip = pe_public_ip entry, p_src_metadata = pe_src_metadata entry,
                      p_dst_metadata = pe_dst_metadata entry\<rparr>;
              Some (ret, g\<lparr>pdns := p\<rparr>, w)
            }
          })
     }"

text \<open>The position of the first element that satisfies \<open>P\<close> among the first \<open>n\<close>.\<close>

fun first_idx :: "('a \<Rightarrow> bool) \<Rightarrow> nat \<Rightarrow> 'a list \<Rightarrow> nat option" where
  "first_idx P 0 xs = None"
| "first_idx P (Suc n) [] = None"
| "first_idx P (Suc n) (x # xs) = (if P x then Some 0 else map_option Suc (first_idx P n xs))"

definition ipa_nati_get_pdn_index :: "nat_globals \<Rightarrow> u32 \<Rightarrow> int \<times> u8 option" where
  "ipa_nati_get_pdn_index g public_ip =
     (case first_idx (\<lambda>p. p_public_ip p = public_ip) (IPA_MAX_PDN_NUM - 1) (pdns g) of
        Some i \<Rightarrow> (0, Some (of_nat i))
      | None \<Rightarrow> (- EIO, None))"

definition ipa_nati_alloc_pdn ::
    "('w, 'm) ipa_env_scheme \<Rightarrow> nat_globals \<Rightarrow> ipa_nat_pdn_entry \<Rightarrow> 'w
     \<Rightarrow> (int \<times> nat_globals \<times> u8 option \<times> 'w) option" where
  "ipa_nati_alloc_pdn env g info w =
     (if int (IPA_MAX_PDN_NUM - 1) \<le> num_pdns g then Some (- EIO, g, None, w)
      else
        case first_idx (\<lambda>p. p_public_ip p = p_public_ip info \<or> p = pdn_zero) (IPA_MAX_PDN_NUM - 1) (pdns g) of
          None \<Rightarrow> Some (- EIO, g, None, w)
        | Some i \<Rightarrow>
            if p_public_ip (pdns g ! i) = p_public_ip info then Some (0, g, Some (of_nat i), w)
            else do {
              (ret, g, w) \<leftarrow> ipa_nati_modify_pdn env g
                 \<lparr>pe_pdn_index = of_nat i, pe_public_ip = p_public_ip info,
                  pe_src_metadata = p_src_metadata info, pe_dst_metadata = p_dst_metadata info\<rparr> w;
              if ret = 0 then Some (ret, g\<lparr>num_pdns := num_pdns g + 1\<rparr>, Some (of_nat i), w)
              else Some (ret, g, None, w)
            })"

definition ipa_nati_get_pdn_cnt :: "nat_globals \<Rightarrow> int" where
  "ipa_nati_get_pdn_cnt g = num_pdns g"

definition ipa_nati_dealloc_pdn ::
    "('w, 'm) ipa_env_scheme \<Rightarrow> nat_globals \<Rightarrow> u8 \<Rightarrow> 'w \<Rightarrow> (int \<times> nat_globals \<times> 'w) option" where
  "ipa_nati_dealloc_pdn env g pdn_index w =
     (if num_pdns g = 0 then Some (- EIO, g, w)
      else do {
        p \<leftarrow> mem_read (pdns g) (unat pdn_index);
        if p = pdn_zero then Some (- EIO, g, w)
        else do {
          (ret, g, w) \<leftarrow> ipa_nati_modify_pdn env g
             \<lparr>pe_pdn_index = pdn_index, pe_public_ip = 0, pe_src_metadata = 0, pe_dst_metadata = 0\<rparr> w;
          if ret \<noteq> 0 then Some (- EIO, g, w)
          else do {
            ps \<leftarrow> mem_write (pdns g) (unat pdn_index) pdn_zero;
            Some (0, g\<lparr>pdns := ps, num_pdns := num_pdns g - 1\<rparr>, w)
          }
        }
      })"

subsection \<open>Rules\<close>

definition dma_one_zero :: ipa_ioc_nat_dma_one where
  "dma_one_zero = \<lparr>d_table_index = 0, d_base_addr = 0, d_offset = 0, d_data = 0\<rparr>"

definition dma_cmd_zero :: "nat \<Rightarrow> ipa_ioc_nat_dma_cmd" where
  "dma_cmd_zero n = \<lparr>entries = 0, mem_type = 0, dma = replicate n dma_one_zero\<rparr>"

definition ipa_nati_post_ipv4_dma_cmd ::
    "('w, 'm) nat_env_scheme \<Rightarrow> ipa_nat_cache \<Rightarrow> ipa_nat_ip4_table_cache \<Rightarrow> ipa_ioc_nat_dma_cmd \<Rightarrow> 'w
     \<Rightarrow> (int \<times> ipa_nat_ip4_table_cache \<times> 'w) option" where
  "ipa_nati_post_ipv4_dma_cmd env cache nt cmd w =
     do {
       let cmd = cmd\<lparr>mem_type := ucast (nmi_val (nc_nmi cache))\<rparr>;
       d \<leftarrow> ipa_desc cache;
       let ((r, nat_recs, ix_recs), w) = ioctl_table_dma env (fd d) cmd (recs (nt_table nt), recs (nt_index_table nt)) w;
       let nt = nt\<lparr>nt_table := (nt_table nt)\<lparr>recs := nat_recs\<rparr>, nt_index_table := (nt_index_table nt)\<lparr>recs := ix_recs\<rparr>\<rparr>;
       Some (if r \<noteq> 0 then - EIO else 0, nt, w)
     }"

text \<open>
  The bucket of a new rule in the NAT table and in the index table. With \<open>src_only\<close> (\<open>dst_only\<close>) the
  hash is displaced by \<open>Hash_token\<close>, whose low 16 bits are what the 16-bit index keeps; the second
  component is the new \<open>Hash_token\<close>.
\<close>

definition displace :: "u16 \<Rightarrow> u16 \<Rightarrow> u32 \<Rightarrow> u16" where
  "displace size' hash token =
     (let i = (hash + ucast token) AND (size' - 1) in if i = 0 then size' - 1 else i)"

definition new_nat_bucket :: "nat \<Rightarrow> u32 \<Rightarrow> u16 \<Rightarrow> ipa_nat_ipv4_rule \<Rightarrow> u32 \<Rightarrow> u16 \<times> u32" where
  "new_nat_bucket v public_ip te clnt_rule token =
     (let h = dst_hash v public_ip (u_target_ip clnt_rule) (u_target_port clnt_rule)
                (u_public_port clnt_rule) (u_protocol clnt_rule) (te - 1)
      in if u_src_only clnt_rule then (displace te h token, token + 1) else (h, token))"

definition new_index_bucket :: "u16 \<Rightarrow> ipa_nat_ipv4_rule \<Rightarrow> u32 \<Rightarrow> u16 \<times> u32" where
  "new_index_bucket te clnt_rule token =
     (let h = src_hash (u_private_ip clnt_rule) (u_private_port clnt_rule) (u_target_ip clnt_rule)
                (u_target_port clnt_rule) (u_protocol clnt_rule) (te - 1)
      in if u_dst_only clnt_rule then (displace te h token, token + 1) else (h, token))"

text \<open>
  The part of \<open>ipa_NATI_add_ipv4_rule\<close> between lock and unlock, for a valid table. The result carries
  the new rule handle, the table and \<open>Hash_token\<close>.
\<close>

definition add_rule_locked ::
    "('w, 'm) nat_env_scheme \<Rightarrow> ipa_nat_pdn_entry list \<Rightarrow> ipa_nat_cache \<Rightarrow> ipa_nat_ip4_table_cache \<Rightarrow> u32
     \<Rightarrow> u32 \<Rightarrow> ipa_nat_ipv4_rule \<Rightarrow> 'w \<Rightarrow> (int \<times> u32 \<times> ipa_nat_ip4_table_cache \<times> u32 \<times> 'w) option" where
  "add_rule_locked env pdn_list cache nt public_ip token clnt_rule w =
     do {
       d \<leftarrow> ipa_desc cache;
       let te = table_entries (nt_table nt);
       let cmd = dma_cmd_zero MAX_DMA_ENTRIES_FOR_ADD;
       let (new_entry_index, token) = new_nat_bucket (ver d) public_ip te clnt_rule token;
       (ret, t, new_entry_index, new_entry_handle, cmd) \<leftarrow>
         ipa_table_add_entry (entry_interface pdn_list) (nt_table nt) clnt_rule new_entry_index cmd;
       let nt = nt\<lparr>nt_table := t\<rparr>;
       if ret \<noteq> 0 then Some (ret, 0, nt, token, w)
       else do {
         let (new_index_tbl_entry_index, token) = new_index_bucket te clnt_rule token;
         (ret, ix, new_index_tbl_entry_index, _, cmd) \<leftarrow>
           ipa_table_add_entry index_entry_interface (nt_index_table nt) new_entry_index
             new_index_tbl_entry_index cmd;
         let nt = nt\<lparr>nt_index_table := ix\<rparr>;
         if ret \<noteq> 0
         then do {
           t \<leftarrow> ipa_table_erase_entry (nt_table nt) new_entry_index;
           Some (ret, 0, nt\<lparr>nt_table := t\<rparr>, token, w)
         }
         else do {
           (ret, nt, w) \<leftarrow>
             (case ipa_table_get_entry_by_index (nt_table nt) new_entry_index of
                None \<Rightarrow> Some (- EPERM, nt, w)
              | Some r \<Rightarrow> do {
                  rule \<leftarrow> mem_read (recs (nt_table nt)) (unat r);
                  let rule = rule\<lparr>r_indx_tbl_entry := new_index_tbl_entry_index,
                                  r_redirect := bit (u_redirect clnt_rule) 0,
                                  r_enable := bit (u_enable clnt_rule) 0,
                                  r_time_stamp := ucast (u_time_stamp clnt_rule)\<rparr>;
                  rs \<leftarrow> mem_write (recs (nt_table nt)) (unat r) rule;
                  let nt = nt\<lparr>nt_table := (nt_table nt)\<lparr>recs := rs\<rparr>\<rparr>;
                  ipa_nati_post_ipv4_dma_cmd env cache nt cmd w
                });
           if ret \<noteq> 0
           then do {
             ix \<leftarrow> ipa_table_erase_entry (nt_index_table nt) new_index_tbl_entry_index;
             t \<leftarrow> ipa_table_erase_entry (nt_table nt) new_entry_index;
             Some (ret, 0, nt\<lparr>nt_table := t, nt_index_table := ix\<rparr>, token, w)
           }
           else Some (0, new_entry_handle, nt, token, w)
         }
       }
     }"

text \<open>
  \<open>clnt_rule\<close> and \<open>rule_hdl\<close> are not null. The third component is what is stored in \<open>*rule_hdl\<close>, if
  anything. The error message of the PDN check reads \<open>pdns[pdn_index]\<close> also when the index is the
  reason of the error, hence the read before the comparison.
\<close>

definition ipa_NATI_add_ipv4_rule ::
    "('w, 'm) nat_env_scheme \<Rightarrow> nat_globals \<Rightarrow> u32 \<Rightarrow> ipa_nat_ipv4_rule \<Rightarrow> 'w
     \<Rightarrow> (int \<times> nat_globals \<times> u32 option \<times> 'w) option" where
  "ipa_NATI_add_ipv4_rule env g tbl_hdl clnt_rule w =
     (if \<not> VALID_TBL_HDL tbl_hdl then Some (- EINVAL, g, None, w)
      else
        let (n, tbl_hdl) = BREAK_TBL_HDL tbl_hdl
        in if \<not> IPA_VALID_NAT_MEM_IN n then Some (- EINVAL, g, Some 0, w)
           else if u_protocol clnt_rule = IPAHAL_NAT_INVALID_PROTOCOL then Some (- EINVAL, g, Some 0, w)
           else do {
             cache \<leftarrow> get_cache g n;
             p \<leftarrow> mem_read (pdns g) (unat (u_pdn_index clnt_rule));
             if IPA_MAX_PDN_NUM \<le> unat (u_pdn_index clnt_rule) \<or> p_public_ip p = 0
             then Some (- EINVAL, g, Some 0, w)
             else do {
               let (l, w) = pthread_mutex_lock env w;
               if l \<noteq> 0 then Some (- EINVAL, g, Some 0, w)
               else do {
                 nt \<leftarrow> get_tbl cache (tbl_hdl - 1);
                 (ret, hdl, nt, token, w) \<leftarrow>
                   (if \<not> valid (mem_desc nt) then Some (- EINVAL, 0, nt, Hash_token g, w)
                    else add_rule_locked env (pdns g) cache nt (p_public_ip p) (Hash_token g) clnt_rule w);
                 let g = (put_cache g n (put_tbl cache (tbl_hdl - 1) nt))\<lparr>Hash_token := token\<rparr>;
                 let (u, w) = pthread_mutex_unlock env w;
                 if ret \<noteq> 0 then Some (ret, g, Some 0, w)
                 else if u \<noteq> 0 then Some (- EPERM, g, Some 0, w)
                 else Some (ret, g, Some hdl, w)
               }
             }
           })"

definition ipa_nati_copy_second_index_entry_to_head ::
    "ipa_nat_ip4_table_cache \<Rightarrow> ipa_table_iterator \<Rightarrow> ipa_ioc_nat_dma_cmd
     \<Rightarrow> (ipa_nat_ip4_table_cache \<times> ipa_ioc_nat_dma_cmd) option" where
  "ipa_nati_copy_second_index_entry_to_head nt it cmd =
     do {
       np \<leftarrow> next_entry it;
       index_table_rule \<leftarrow> mem_read (recs (nt_index_table nt)) (unat np);
       (_, cmd) \<leftarrow> ipa_table_add_dma_cmd (nt_index_table nt) HELP_UPDATE_ENTRY (curr_entry it)
                     (curr_index it) (x_next_index index_table_rule) cmd;
       let index = unat (x_tbl_entry index_table_rule);
       rule \<leftarrow> mem_read (recs (nt_table nt)) index;
       rs \<leftarrow> mem_write (recs (nt_table nt)) index (rule\<lparr>r_indx_tbl_entry := curr_index it\<rparr>);
       Some (nt\<lparr>nt_table := (nt_table nt)\<lparr>recs := rs\<rparr>\<rparr>, cmd)
     }"

text \<open>The part of \<open>ipa_NATI_del_ipv4_rule\<close> between lock and unlock, for a valid table.\<close>

definition del_rule_locked ::
    "('w, 'm) nat_env_scheme \<Rightarrow> ipa_nat_pdn_entry list \<Rightarrow> ipa_nat_cache \<Rightarrow> ipa_nat_ip4_table_cache \<Rightarrow> u32 \<Rightarrow> 'w
     \<Rightarrow> (int \<times> ipa_nat_ip4_table_cache \<times> 'w) option" where
  "del_rule_locked env pdn_list cache nt rule_hdl w =
     (let ifc = entry_interface pdn_list; cmd = dma_cmd_zero MAX_DMA_ENTRIES_FOR_DEL;
          (ret, table_rule, index) = ipa_table_get_entry (nt_table nt) rule_hdl
      in if ret \<noteq> 0 then Some (ret, nt, w)
         else do {
           rp \<leftarrow> table_rule;
           (ret, table_iterator) \<leftarrow> ipa_table_iterator_init ifc (nt_table nt) rp index;
           if ret \<noteq> 0 then Some (ret, nt, w)
           else do {
             rule \<leftarrow> mem_read (recs (nt_table nt)) (unat rp);
             let index = r_indx_tbl_entry rule;
             (case ipa_table_get_entry_by_index (nt_index_table nt) index of
                None \<Rightarrow> Some (- EPERM, nt, w)
              | Some xp \<Rightarrow> do {
                  (ret, index_table_iterator) \<leftarrow>
                     ipa_table_iterator_init index_entry_interface (nt_index_table nt) xp index;
                  if ret \<noteq> 0 then Some (ret, nt, w)
                  else do {
                    cmd \<leftarrow> ipa_table_create_delete_command index_entry_interface (nt_index_table nt) cmd
                             index_table_iterator;
                    (ret, nt, index_table_iterator, cmd) \<leftarrow>
                      (if ipa_table_iterator_is_head_with_tail index_table_iterator
                       then do {
                         (nt, cmd) \<leftarrow> ipa_nati_copy_second_index_entry_to_head nt index_table_iterator cmd;
                         (ret, it) \<leftarrow> ipa_table_iterator_next index_entry_interface (nt_index_table nt)
                                        index_table_iterator;
                         Some (ret, nt, it, cmd)
                       }
                       else Some (0, nt, index_table_iterator, cmd));
                    if ret \<noteq> 0 then Some (ret, nt, w)
                    else do {
                      cmd \<leftarrow> ipa_table_create_delete_command ifc (nt_table nt) cmd table_iterator;
                      (ret, nt, w) \<leftarrow> ipa_nati_post_ipv4_dma_cmd env cache nt cmd w;
                      if ret \<noteq> 0 then Some (ret, nt, w)
                      else do {
                        nt \<leftarrow>
                          (if \<not> ipa_table_iterator_is_head_with_tail table_iterator
                           then do {
                             is_prev_empty \<leftarrow>
                               (case prev_entry table_iterator of
                                  None \<Rightarrow> Some False
                                | Some pp \<Rightarrow> do {
                                    prule \<leftarrow> mem_read (recs (nt_table nt)) (unat pp);
                                    Some (r_protocol prule = IPAHAL_NAT_INVALID_PROTOCOL)
                                  });
                             t \<leftarrow> ipa_table_delete_entry ifc (nt_table nt) table_iterator is_prev_empty;
                             Some (nt\<lparr>nt_table := t\<rparr>)
                           }
                           else Some nt);
                        ix \<leftarrow> ipa_table_delete_entry index_entry_interface (nt_index_table nt)
                                index_table_iterator False;
                        ix \<leftarrow> (if table_entries ix \<le> curr_index index_table_iterator
                               then do {
                                 ms \<leftarrow> meta ix;
                                 ms \<leftarrow> mem_write ms (unat (curr_index index_table_iterator - table_entries ix)) 0;
                                 Some (ix\<lparr>meta := Some ms\<rparr>)
                               }
                               else Some ix);
                        Some (0, nt\<lparr>nt_index_table := ix\<rparr>, w)
                      }
                    }
                  }
                })
           }
         })"

definition ipa_NATI_del_ipv4_rule ::
    "('w, 'm) nat_env_scheme \<Rightarrow> nat_globals \<Rightarrow> u32 \<Rightarrow> u32 \<Rightarrow> 'w \<Rightarrow> (int \<times> nat_globals \<times> 'w) option" where
  "ipa_NATI_del_ipv4_rule env g tbl_hdl rule_hdl w =
     (let (n, tbl_hdl) = BREAK_TBL_HDL tbl_hdl
      in if \<not> IPA_VALID_NAT_MEM_IN n then Some (- EINVAL, g, w)
         else do {
           cache \<leftarrow> get_cache g n;
           let (l, w) = pthread_mutex_lock env w;
           if l \<noteq> 0 then Some (- EINVAL, g, w)
           else do {
             nt \<leftarrow> get_tbl cache (tbl_hdl - 1);
             (ret, nt, w) \<leftarrow>
               (if \<not> valid (mem_desc nt) then Some (- EINVAL, nt, w)
                else del_rule_locked env (pdns g) cache nt rule_hdl w);
             let g = put_cache g n (put_tbl cache (tbl_hdl - 1) nt);
             let (ret, w) = unlock_ret env ret w;
             Some (ret, g, w)
           }
         })"

definition ipa_NATI_query_timestamp ::
    "('w, 'm) ipa_env_scheme \<Rightarrow> nat_globals \<Rightarrow> u32 \<Rightarrow> u32 \<Rightarrow> 'w \<Rightarrow> (int \<times> u32 option \<times> 'w) option" where
  "ipa_NATI_query_timestamp env g tbl_hdl rule_hdl w =
     (let (n, tbl_hdl) = BREAK_TBL_HDL tbl_hdl
      in if \<not> IPA_VALID_NAT_MEM_IN n then Some (- EINVAL, None, w)
         else do {
           cache \<leftarrow> get_cache g n;
           let (l, w) = pthread_mutex_lock env w;
           if l \<noteq> 0 then Some (- EINVAL, None, w)
           else do {
             nt \<leftarrow> get_tbl cache (tbl_hdl - 1);
             (ret, ts) \<leftarrow>
               (if \<not> valid (mem_desc nt) then Some (- EINVAL, None)
                else
                  let (ret, rule_ptr, _) = ipa_table_get_entry (nt_table nt) rule_hdl
                  in if ret \<noteq> 0 then Some (ret, None)
                     else do {
                       rp \<leftarrow> rule_ptr;
                       rule \<leftarrow> mem_read (recs (nt_table nt)) (unat rp);
                       Some (ret, Some (ucast (r_time_stamp rule)))
                     });
             let (ret, w) = unlock_ret env ret w;
             Some (ret, ts, w)
           }
         })"

subsection \<open>SRAM size and clock votes\<close>

text \<open>Both open the driver for the SRAM cache when it is not open yet.\<close>

definition ensure_sram_desc ::
    "('w, 'm) ipa_env_scheme \<Rightarrow> nat_globals \<Rightarrow> 'w \<Rightarrow> (ipa_descriptor option \<times> nat_globals \<times> 'w) option" where
  "ensure_sram_desc env g w =
     do {
       cache \<leftarrow> get_cache g IPA_NAT_MEM_IN_SRAM;
       (case ipa_desc cache of
          Some d \<Rightarrow> Some (Some d, g, w)
        | None \<Rightarrow> (let (desc, w) = ipa_descriptor_open env w
                  in Some (desc, put_cache g IPA_NAT_MEM_IN_SRAM (cache\<lparr>ipa_desc := desc\<rparr>), w)))
     }"

definition ipa_nati_get_sram_size ::
    "('w, 'm) ipa_env_scheme \<Rightarrow> nat_globals \<Rightarrow> 'w \<Rightarrow> (int \<times> nat_globals \<times> u32 option \<times> 'w) option" where
  "ipa_nati_get_sram_size env g w =
     (let (l, w) = pthread_mutex_lock env w
      in if l \<noteq> 0 then Some (- EINVAL, g, None, w)
         else do {
           (desc, g, w) \<leftarrow> ensure_sram_desc env g w;
           let ((ret, sz), w) =
             (case desc of
                None \<Rightarrow> ((- EIO, None), w)
              | Some d \<Rightarrow>
                  let ((ret, info), w) = ioctl_sram_info env (fd d) w
                  in if ret \<noteq> 0 then ((ret, None), w)
                     else ((if sram_mem_available_for_nat info = 0 then - EINVAL else ret,
                            Some (sram_mem_available_for_nat info)), w));
           let (ret, w) = unlock_ret env ret w;
           Some (ret, g, sz, w)
         })"

definition ipa_nati_vote_clock ::
    "('w, 'm) ipa_env_scheme \<Rightarrow> nat_globals \<Rightarrow> ipa_app_clock_vote_type \<Rightarrow> 'w \<Rightarrow> (int \<times> nat_globals \<times> 'w) option" where
  "ipa_nati_vote_clock env g vote_type w =
     do {
       (desc, g, w) \<leftarrow> ensure_sram_desc env g w;
       (case desc of
          None \<Rightarrow> Some (- EIO, g, w)
        | Some d \<Rightarrow> (let (ret, w) = ioctl_clock_vote env (fd d) vote_type w in Some (ret, g, w)))
     }"

subsection \<open>Clearing, walking and copying a table\<close>

definition reset_counted :: "'e::zero ipa_table \<Rightarrow> 'e ipa_table" where
  "reset_counted t = (ipa_table_reset t)\<lparr>cur_tbl_cnt := 0, cur_expn_tbl_cnt := 0\<rparr>"

definition ipa_NATI_clear_ipv4_tbl ::
    "('w, 'm) ipa_env_scheme \<Rightarrow> nat_globals \<Rightarrow> u32 \<Rightarrow> 'w \<Rightarrow> (int \<times> nat_globals \<times> 'w) option" where
  "ipa_NATI_clear_ipv4_tbl env g tbl_hdl w =
     (let (n, tbl_hdl) = BREAK_TBL_HDL tbl_hdl
      in if \<not> IPA_VALID_NAT_MEM_IN n then Some (- EINVAL, g, w)
         else do {
           cache \<leftarrow> get_cache g n;
           let (l, w) = pthread_mutex_lock env w;
           if l \<noteq> 0 then Some (- EINVAL, g, w)
           else do {
             (ret, g) \<leftarrow>
               (if table_cnt cache = 0 then Some (- EINVAL, g)
                else do {
                  nt \<leftarrow> get_tbl cache (tbl_hdl - 1);
                  let nt = nt\<lparr>nt_table := reset_counted (nt_table nt), nt_index_table := reset_counted (nt_index_table nt)\<rparr>;
                  Some (0, put_cache g n (put_tbl cache (tbl_hdl - 1) nt))
                });
             let (ret, w) = unlock_ret env ret w;
             Some (ret, g, w)
           }
         })"

datatype WhichTbl2Use = USE_NAT_TABLE | USE_INDEX_TABLE | USE_MAX

definition VALID_WHICHTBL2USE :: "WhichTbl2Use \<Rightarrow> bool" where
  "VALID_WHICHTBL2USE w \<longleftrightarrow> w \<noteq> USE_MAX"

text \<open>
  The callback of a walk over the NAT or the index table: the table and the record are of the one or the other type. It
  may change the globals (a callback that copies rules adds them to another table), the state of the
  operating system and data of its own; the table that is walked is read as it is when the walk starts.
\<close>

type_synonym ('w, 'a) nat_walk_cb =
  "ipa_nat_rule ipa_table + ipa_nat_indx_tbl_rule ipa_table
   \<Rightarrow> (nat_globals \<times> 'w \<times> 'a, ipa_nat_rule + ipa_nat_indx_tbl_rule) walk_cb"

definition ipa_NATI_walk_ipv4_tbl ::
    "('w, 'm) ipa_env_scheme \<Rightarrow> nat_globals \<Rightarrow> u32 \<Rightarrow> WhichTbl2Use \<Rightarrow> ('w, 'a) nat_walk_cb option \<Rightarrow> 'a \<Rightarrow> 'w
     \<Rightarrow> (int \<times> nat_globals \<times> 'a \<times> 'w) option" where
  "ipa_NATI_walk_ipv4_tbl env g tbl_hdl which walk_cb arb w =
     (case walk_cb of
        None \<Rightarrow> Some (- EINVAL, g, arb, w)
      | Some cb \<Rightarrow>
          if \<not> VALID_TBL_HDL tbl_hdl \<or> \<not> VALID_WHICHTBL2USE which then Some (- EINVAL, g, arb, w)
          else
            let (l, w) = pthread_mutex_lock env w
            in if l \<noteq> 0 then Some (- EINVAL, g, arb, w)
               else do {
                 let (n, broken) = BREAK_TBL_HDL tbl_hdl;
                 (ret, g, w, arb) \<leftarrow>
                   (if \<not> IPA_VALID_NAT_MEM_IN n then Some (- EINVAL, g, w, arb)
                    else do {
                      cache \<leftarrow> get_cache g n;
                      if table_cnt cache = 0 then Some (- EINVAL, g, w, arb)
                      else do {
                        nt \<leftarrow> get_tbl cache (broken - 1);
                        (if which = USE_NAT_TABLE
                         then ipa_table_walk (entry_interface (pdns g)) (nt_table nt) 0 WHEN_SLOT_FILLED
                                (\<lambda>s h r. cb (Inl (nt_table nt)) s h (Inl r)) (g, w, arb)
                         else ipa_table_walk index_entry_interface (nt_index_table nt) 0 WHEN_SLOT_FILLED
                                (\<lambda>s h r. cb (Inr (nt_index_table nt)) s h (Inr r)) (g, w, arb))
                      }
                    });
                 let (ret, w) = unlock_ret env ret w;
                 Some (ret, g, arb, w)
               })"

text \<open>
  The callback of a copy receives the handle of the destination and whatever else it works on (\<open>x\<close>: for
  \<open>migrate_rule\<close>, the variables of the state machine).
\<close>

definition ipa_nati_copy_ipv4_tbl ::
    "('w, 'm) ipa_env_scheme \<Rightarrow> nat_globals \<Rightarrow> u32 \<Rightarrow> u32 \<Rightarrow> ('w, u32 \<times> 'x) nat_walk_cb option \<Rightarrow> 'x \<Rightarrow> 'w
     \<Rightarrow> (int \<times> nat_globals \<times> 'x \<times> 'w) option" where
  "ipa_nati_copy_ipv4_tbl env g src_tbl_hdl dst_tbl_hdl copy_cb x w =
     (if Option.is_none copy_cb then Some (- EINVAL, g, x, w)
      else
        let (l, w) = pthread_mutex_lock env w
        in if l \<noteq> 0 then Some (- EINVAL, g, x, w)
           else do {
             (ret, g, w) \<leftarrow> ipa_NATI_clear_ipv4_tbl env g dst_tbl_hdl w;
             (ret, g, x, w) \<leftarrow>
               (if ret = 0
                then do {
                  (ret, g, (_, x), w) \<leftarrow>
                    ipa_NATI_walk_ipv4_tbl env g src_tbl_hdl USE_NAT_TABLE copy_cb (dst_tbl_hdl, x) w;
                  Some (ret, g, x, w)
                }
                else Some (ret, g, x, w));
             let (ret, w) = unlock_ret env ret w;
             Some (ret, g, x, w)
           })"

subsection \<open>Statistics\<close>

text \<open>
  \<open>avg_chain_len\<close> is the pair of operands of the floating-point division whose result the code stores,
  \<open>(0, 1)\<close> for the initial \<open>0.0\<close>.
\<close>

record ipa_nati_tbl_stats =
  st_nmi :: ipa3_nat_mem_in
  tot_ents :: u32
  tot_base_ents :: u32
  tot_base_ents_filled :: u32
  tot_expn_ents :: u32
  tot_expn_ents_filled :: u32
  tot_chains :: u32
  min_chain_len :: u32
  max_chain_len :: u32
  avg_chain_len :: "u32 \<times> u32"

definition stats_zero :: ipa_nati_tbl_stats where
  "stats_zero = \<lparr>st_nmi = IPA_NAT_MEM_IN_DDR, tot_ents = 0, tot_base_ents = 0, tot_base_ents_filled = 0,
     tot_expn_ents = 0, tot_expn_ents_filled = 0, tot_chains = 0, min_chain_len = 0, max_chain_len = 0,
     avg_chain_len = (0, 1)\<rparr>"

text \<open>The inner loop of \<open>gen_chain_stats\<close>: the length of the chain behind the next index \<open>nxt\<close>, from \<open>len\<close>.\<close>

partial_function (option) chain_len_loop :: "('e \<Rightarrow> u16) \<Rightarrow> 'e list \<Rightarrow> u16 \<Rightarrow> u32 \<Rightarrow> u32 option" where
  "chain_len_loop nxt_of rs nxt len =
     (if nxt = 0 then Some len
      else do {
        e \<leftarrow> mem_read rs (unat nxt);
        chain_len_loop nxt_of rs (nxt_of e) (len + 1)
      })"

text \<open>
  The callback, over the total of the lengths (\<open>tot_for_avg\<close>) and the statistics. \<open>nxt_of\<close> is the
  \<open>next_index\<close> of the record type that \<open>csh_ptr->which\<close> selects.
\<close>

definition gen_chain_stats ::
    "('e \<Rightarrow> u16) \<Rightarrow> 'e ipa_table \<Rightarrow> (u32 \<times> ipa_nati_tbl_stats, 'e) walk_cb" where
  "gen_chain_stats nxt_of table csh rule_hdl r record_index meta_record_ptr meta_record_index =
     (let (n, is_expn_tbl, rule_index) = BREAK_RULE_HDL table rule_hdl; (tot_for_avg, st) = csh
      in if is_expn_tbl then Some (1, csh)
         else do {
           chain_len \<leftarrow> (if nxt_of r \<noteq> 0 then chain_len_loop nxt_of (recs table) (nxt_of r) 1 else Some 0);
           if chain_len = 0 then Some (0, csh)
           else Some (0, tot_for_avg + chain_len,
                  st\<lparr>tot_chains := tot_chains st + 1,
                     min_chain_len := (if min_chain_len st = 0 then chain_len
                                       else min (min_chain_len st) chain_len),
                     max_chain_len := max (max_chain_len st) chain_len\<rparr>)
         })"

definition table_stats ::
    "('e, 'u) ipa_table_entry_interface \<Rightarrow> ('e \<Rightarrow> u16) \<Rightarrow> ipa3_nat_mem_in \<Rightarrow> 'e ipa_table
     \<Rightarrow> (int \<times> ipa_nati_tbl_stats) option" where
  "table_stats ifc nxt_of n t =
     do {
       let st = stats_zero\<lparr>st_nmi := n, tot_base_ents := ucast (table_entries t),
                  tot_expn_ents := ucast (expn_table_entries t),
                  tot_ents := ucast (table_entries t) + ucast (expn_table_entries t),
                  tot_base_ents_filled := ucast (cur_tbl_cnt t), tot_expn_ents_filled := ucast (cur_expn_tbl_cnt t)\<rparr>;
       (ret, tot, st) \<leftarrow> ipa_table_walk ifc t 0 WHEN_SLOT_FILLED (gen_chain_stats nxt_of t) (0, st);
       if ret < 0 then Some (- EINVAL, st)
       else Some (0, if tot \<noteq> 0 \<and> tot_chains st \<noteq> 0 then st\<lparr>avg_chain_len := (tot, tot_chains st)\<rparr> else st)
     }"

text \<open>The last components are the statistics as far as the operation writes them.\<close>

definition ipa_NATI_ipv4_tbl_stats ::
    "('w, 'm) ipa_env_scheme \<Rightarrow> nat_globals \<Rightarrow> u32 \<Rightarrow> 'w
     \<Rightarrow> (int \<times> (ipa_nati_tbl_stats \<times> ipa_nati_tbl_stats) option \<times> 'w) option" where
  "ipa_NATI_ipv4_tbl_stats env g tbl_hdl w =
     (if \<not> VALID_TBL_HDL tbl_hdl then Some (- EINVAL, None, w)
      else
        let (l, w) = pthread_mutex_lock env w
        in if l \<noteq> 0 then Some (- EINVAL, None, w)
           else do {
             let (n, broken) = BREAK_TBL_HDL tbl_hdl;
             (ret, stats) \<leftarrow>
               (if \<not> IPA_VALID_NAT_MEM_IN n then Some (- EINVAL, stats_zero, stats_zero)
                else do {
                  cache \<leftarrow> get_cache g n;
                  if table_cnt cache = 0 then Some (- EINVAL, stats_zero, stats_zero)
                  else do {
                    nt \<leftarrow> get_tbl cache (broken - 1);
                    (ret, nat_stats) \<leftarrow> table_stats (entry_interface (pdns g)) r_next_index n (nt_table nt);
                    if ret \<noteq> 0 then Some (ret, nat_stats, stats_zero)
                    else do {
                      (ret, idx_stats) \<leftarrow> table_stats index_entry_interface x_next_index n (nt_index_table nt);
                      Some (ret, nat_stats, idx_stats)
                    }
                  }
                });
             let (ret, w) = unlock_ret env ret w;
             Some (ret, Some stats, w)
           })"

end
