(* ===== verification/Nat_Rules.thy ===== *)
theory Nat_Rules
  imports Nat_Drvi
begin

unbundle bit_operations_syntax

section \<open>Adding and deleting IPv4 NAT rules\<close>

text \<open>
  The joint invariant of a NAT table and its index table, and what \<open>ipa_NATI_add_ipv4_rule\<close> and
  \<open>ipa_NATI_del_ipv4_rule\<close> do to it.
\<close>

subsection \<open>Execution of the commands\<close>

abbreviation nat_exec :: "ipa_ioc_nat_dma_one list \<Rightarrow> ipa_nat_rule ipa_table \<Rightarrow> ipa_nat_rule ipa_table" where
  "nat_exec \<equiv> dma_exec nat_rule_write16 IPA_NAT_BASE_TBL IPA_NAT_EXPN_TBL"

abbreviation indx_exec ::
    "ipa_ioc_nat_dma_one list \<Rightarrow> ipa_nat_indx_tbl_rule ipa_table \<Rightarrow> ipa_nat_indx_tbl_rule ipa_table" where
  "indx_exec \<equiv> dma_exec indx_rule_write16 IPA_NAT_INDX_TBL IPA_NAT_INDEX_EXPN_TBL"

text \<open>
  What the driver relies on when it posts commands for the table \<open>nt\<close>: the kernel executes all commands
  of the buffer in their order, each storing 16 bits into the record it addresses, or it rejects the
  buffer and leaves the tables as they are.
\<close>

definition dma_faithful :: "('w, 'm) nat_env_scheme \<Rightarrow> ipa_nat_ip4_table_cache \<Rightarrow> bool" where
  "dma_faithful env nt \<longleftrightarrow>
     (\<forall>fd cmd ns xs w r ns' xs' w'.
        ioctl_table_dma env fd cmd (ns, xs) w = ((r, ns', xs'), w') \<longrightarrow>
        mem_type cmd = ucast (nmi_val (nmi (nt_table nt))) \<longrightarrow>
        (if r = 0
         then ns' = recs (nat_exec (cmds_of cmd) ((nt_table nt)\<lparr>recs := ns\<rparr>)) \<and>
              xs' = recs (indx_exec (cmds_of cmd) ((nt_index_table nt)\<lparr>recs := xs\<rparr>))
         else ns' = ns \<and> xs' = xs))"

lemma nat_indx_cmds:
  assumes "\<forall>c\<in>set new. d_base_addr c \<in> {dma_type_val IPA_NAT_BASE_TBL, dma_type_val IPA_NAT_EXPN_TBL}"
    and "\<forall>c\<in>set newx. d_base_addr c \<in> {dma_type_val IPA_NAT_INDX_TBL, dma_type_val IPA_NAT_INDEX_EXPN_TBL}"
  shows "nat_exec (new @ newx) t = nat_exec new t" and "indx_exec (new @ newx) x = indx_exec newx x"
    and "nat_exec (newx @ new) t = nat_exec new t" and "indx_exec (newx @ new) x = indx_exec newx x"
proof -
  have n: "nat_exec newx t = t" for t by (rule dma_exec_others) (use assms(2) in auto)
  have x: "indx_exec new x = x" for x by (rule dma_exec_others) (use assms(1) in auto)
  show "nat_exec (new @ newx) t = nat_exec new t" "indx_exec (new @ newx) x = indx_exec newx x"
    "nat_exec (newx @ new) t = nat_exec new t" "indx_exec (newx @ new) x = indx_exec newx x"
    by (simp_all add: n x)
qed

text \<open>Posting commands for a table that differs from \<open>nt0\<close> in its contents only.\<close>

lemma post_dma_cmd:
  assumes df: "dma_faithful env nt0" and d: "ipa_desc cache = Some d" and n: "nc_nmi cache = nmi (nt_table nt0)"
    and sh: "same_shape (nt_table nt0) (nt_table nt)" "same_shape (nt_index_table nt0) (nt_index_table nt)"
    and io: "ioctl_table_dma env (fd d) (cmd\<lparr>mem_type := ucast (nmi_val (nc_nmi cache))\<rparr>)
               (recs (nt_table nt), recs (nt_index_table nt)) w = ((r, m), w')"
  shows "ipa_nati_post_ipv4_dma_cmd env cache nt cmd w =
      Some (if r = 0
            then (0, nt\<lparr>nt_table := nat_exec (cmds_of cmd) (nt_table nt),
                        nt_index_table := indx_exec (cmds_of cmd) (nt_index_table nt)\<rparr>, w')
            else (- EIO, nt, w'))"
proof -
  obtain ns' xs' where m: "m = (ns', xs')" by (cases m)
  have c: "cmds_of (cmd\<lparr>mem_type := ucast (nmi_val (nc_nmi cache))\<rparr>) = cmds_of cmd" by (simp add: cmds_of_def)
  have mt: "mem_type (cmd\<lparr>mem_type := ucast (nmi_val (nc_nmi cache))\<rparr>) = ucast (nmi_val (nmi (nt_table nt0)))"
    using n by simp
  note f = df [unfolded dma_faithful_def, rule_format, OF io [unfolded m] mt, unfolded c]
  show ?thesis
  proof (cases "r = 0")
    case True
    then have "(nt_table nt)\<lparr>recs := ns'\<rparr> = nat_exec (cmds_of cmd) (nt_table nt)"
      "(nt_index_table nt)\<lparr>recs := xs'\<rparr> = indx_exec (cmds_of cmd) (nt_index_table nt)"
      using f dma_exec_shape [OF sh(1)] dma_exec_shape [OF sh(2)] by simp_all
    then show ?thesis using True d io m by (simp add: ipa_nati_post_ipv4_dma_cmd_def Let_def)
  next
    case False
    then show ?thesis using f d io m by (simp add: ipa_nati_post_ipv4_dma_cmd_def Let_def)
  qed
qed

subsection \<open>The invariant\<close>

text \<open>
  A record of the NAT table is in one of three states: free, a rule, or a deleted head that stays in its
  place because of the records chained behind it (its protocol is \<open>IPAHAL_NAT_INVALID_PROTOCOL\<close>).
\<close>

definition dead :: "ipa_nat_rule \<Rightarrow> bool" where
  "dead r \<longleftrightarrow> r_protocol r = IPAHAL_NAT_INVALID_PROTOCOL"

abbreviation live :: "ipa_nat_rule list \<Rightarrow> (nat \<Rightarrow> nat list) \<Rightarrow> nat set" where
  "live \<equiv> live_of dead"

text \<open>Rules and index records name each other.\<close>

definition link_ok :: "nat set \<Rightarrow> nat set \<Rightarrow> (nat \<Rightarrow> nat) \<Rightarrow> (nat \<Rightarrow> nat) \<Rightarrow> bool" where
  "link_ok L V f g \<longleftrightarrow> (\<forall>i\<in>L. f i \<in> V \<and> g (f i) = i) \<and> (\<forall>x\<in>V. g x \<in> L \<and> f (g x) = x)"

definition to_indx :: "ipa_nat_rule list \<Rightarrow> nat \<Rightarrow> nat" where
  "to_indx rs i = unat (r_indx_tbl_entry (rs ! i))"

definition to_rule :: "ipa_nat_indx_tbl_rule list \<Rightarrow> nat \<Rightarrow> nat" where
  "to_rule xs x = unat (x_tbl_entry (xs ! x))"

abbreviation dead_ok :: "ipa_nat_rule list \<Rightarrow> (nat \<Rightarrow> nat list) \<Rightarrow> bool" where
  "dead_ok \<equiv> dead_heads dead"

abbreviation free_ok :: "ipa_nat_rule list \<Rightarrow> (nat \<Rightarrow> nat list) \<Rightarrow> bool" where
  "free_ok \<equiv> fresh_rest (\<lambda>e. nat_content e = nat_content 0)"

definition nat_shape_ok :: "ipa_nat_ip4_table_cache \<Rightarrow> bool" where
  "nat_shape_ok nt \<longleftrightarrow>
     dma_ok IPA_NAT_BASE_TBL IPA_NAT_EXPN_TBL 32 18 8 22 (nt_table nt) \<and>
     dma_ok IPA_NAT_INDX_TBL IPA_NAT_INDEX_EXPN_TBL 4 0 2 0 (nt_index_table nt) \<and>
     table_entries (nt_index_table nt) = table_entries (nt_table nt) \<and>
     expn_table_entries (nt_index_table nt) = expn_table_entries (nt_table nt)"

definition nat_inv ::
    "ipa_nat_ip4_table_cache \<Rightarrow> (nat \<Rightarrow> nat list) \<Rightarrow> (nat \<Rightarrow> nat list) \<Rightarrow> bool" where
  "nat_inv nt cs xs \<longleftrightarrow>
     nat_shape_ok nt \<and>
     tbl_rep (entry_interface []) False (nt_table nt) cs \<and>
     tbl_rep index_entry_interface True (nt_index_table nt) xs \<and>
     dead_ok (recs (nt_table nt)) cs \<and> free_ok (recs (nt_table nt)) cs \<and>
     link_ok (live (recs (nt_table nt)) cs) (members xs) (to_indx (recs (nt_table nt))) (to_rule (recs (nt_index_table nt)))"

text \<open>The views of a NAT table do not depend on the public addresses.\<close>

lemma entry_interface_sel [simp]:
  "entry_is_valid (entry_interface p) = table_entry_is_valid"
  "entry_get_next_index (entry_interface p) = table_entry_get_next_index"
  "entry_get_prev_index (entry_interface p) = table_entry_get_prev_index"
  "entry_set_prev_index (entry_interface p) = table_entry_set_prev_index"
  "entry_get_delete_head_dma_command_data (entry_interface p) = table_entry_get_delete_head_dma_command_data"
  "entry_head_insert (entry_interface p) = table_entry_head_insert p"
  by (simp_all add: entry_interface_def)

lemma vd_pdns: "vd (entry_interface p) = vd (entry_interface [])"
  by (intro ext) (simp add: vd_def)

lemma nat_rep_pdns: "tbl_rep (entry_interface p) False t cs = tbl_rep (entry_interface []) False t cs"
proof -
  have "nx (entry_interface p) = nx (entry_interface [])" "pv (entry_interface p) = pv (entry_interface [])"
    by (intro ext, simp add: nx_def pv_def)+
  then show ?thesis by (simp only: tbl_rep_def vd_pdns [of p])
qed

lemma nat_invD:
  assumes "nat_inv nt cs xs"
  shows "nat_shape_ok nt" and "tbl_rep (entry_interface p) False (nt_table nt) cs"
    and "tbl_rep index_entry_interface True (nt_index_table nt) xs"
    and "dead_ok (recs (nt_table nt)) cs" and "free_ok (recs (nt_table nt)) cs"
    and "link_ok (live (recs (nt_table nt)) cs) (members xs) (to_indx (recs (nt_table nt))) (to_rule (recs (nt_index_table nt)))"
  using assms by (simp_all add: nat_inv_def nat_rep_pdns [of p])

subsection \<open>Links\<close>

lemma link_okD:
  assumes "link_ok L V f g"
  shows "i \<in> L \<Longrightarrow> f i \<in> V" and "i \<in> L \<Longrightarrow> g (f i) = i" and "x \<in> V \<Longrightarrow> g x \<in> L" and "x \<in> V \<Longrightarrow> f (g x) = x"
  using assms by (auto simp: link_ok_def)

lemma link_ok_cong:
  "link_ok L V f g \<Longrightarrow> L' = L \<Longrightarrow> V' = V \<Longrightarrow> (\<And>i. i \<in> L \<Longrightarrow> f' i = f i) \<Longrightarrow> (\<And>x. x \<in> V \<Longrightarrow> g' x = g x) \<Longrightarrow>
   link_ok L' V' f' g'"
  by (simp add: link_ok_def)

lemma link_ok_insert:
  assumes "link_ok L V f g" and "i \<notin> L" and "x \<notin> V" and "f' i = x" and "g' x = i"
    and "\<And>j. j \<in> L \<Longrightarrow> f' j = f j" and "\<And>y. y \<in> V \<Longrightarrow> g' y = g y"
  shows "link_ok (insert i L) (insert x V) f' g'"
  using assms by (auto simp: link_ok_def)

lemma link_ok_remove:
  assumes "link_ok L V f g" and "i \<in> L" and "f i = x"
    and "\<And>j. j \<in> L \<Longrightarrow> j \<noteq> i \<Longrightarrow> f' j = f j" and "\<And>y. y \<in> V \<Longrightarrow> y \<noteq> x \<Longrightarrow> g' y = g y"
  shows "link_ok (L - {i}) (V - {x}) f' g'"
  using assms unfolding link_ok_def by (metis DiffE DiffI singletonD singletonI)

text \<open>The index record \<open>x\<close> of the removed rule takes over the contents of the index record \<open>y\<close>.\<close>

lemma link_ok_move:
  assumes l: "link_ok L V f g" and i: "i \<in> L" "f i = x" and y: "y \<in> V" "y \<noteq> x"
    and f': "f' (g y) = x" "\<And>j. j \<in> L \<Longrightarrow> j \<noteq> i \<Longrightarrow> j \<noteq> g y \<Longrightarrow> f' j = f j"
    and g': "g' x = g y" "\<And>z. z \<in> V \<Longrightarrow> z \<noteq> x \<Longrightarrow> z \<noteq> y \<Longrightarrow> g' z = g z"
  shows "link_ok (L - {i}) (V - {y}) f' g'"
proof -
  have gy: "g y \<in> L" "f (g y) = y" "g y \<noteq> i" using link_okD [OF l] y i by auto
  have x: "x \<in> V" "g x = i" using link_okD [OF l] i by auto
  have L: "f' j \<in> V - {y} \<and> g' (f' j) = j" if j: "j \<in> L" "j \<noteq> i" for j
  proof (cases "j = g y")
    case True
    then show ?thesis using f'(1) g'(1) x(1) y(2) by simp
  next
    case False
    have "f j \<in> V" "g (f j) = j" using link_okD(1,2) [OF l j(1)] .
    moreover then have "f j \<noteq> x" "f j \<noteq> y" using x(2) j(2) False by auto
    ultimately show ?thesis using f'(2) [OF j False] g'(2) [of "f j"] by simp
  qed
  have V: "g' z \<in> L - {i} \<and> f' (g' z) = z" if z: "z \<in> V" "z \<noteq> y" for z
  proof (cases "z = x")
    case True
    then show ?thesis using f'(1) g'(1) gy by simp
  next
    case False
    have "g z \<in> L" "f (g z) = z" using link_okD(3,4) [OF l z(1)] .
    moreover then have "g z \<noteq> i" "g z \<noteq> g y" using i(2) gy(2) z(2) False by auto
    ultimately show ?thesis using g'(2) [OF z(1) False z(2)] f'(2) [of "g z"] by simp
  qed
  show ?thesis using L V by (simp add: link_ok_def)
qed

subsection \<open>The rules a table holds\<close>

text \<open>
  What a client sees of a rule: everything but the links. The abstraction of a pair of tables is the map
  from the positions of its rules to these, and for every bucket of the two tables the rules that are
  found in it, in the order of the search.
\<close>

definition rule_view :: "ipa_nat_rule \<Rightarrow> ipa_nat_rule" where
  "rule_view r = r\<lparr>r_next_index := 0, r_prev_index := 0, r_indx_tbl_entry := 0\<rparr>"

record nat_spec =
  sp_rules :: "nat \<Rightarrow> ipa_nat_rule option"
  sp_chain :: "nat \<Rightarrow> nat list"
  sp_indx_chain :: "nat \<Rightarrow> nat list"

definition nat_abs :: "ipa_nat_ip4_table_cache \<Rightarrow> (nat \<Rightarrow> nat list) \<Rightarrow> nat \<Rightarrow> ipa_nat_rule option" where
  "nat_abs nt cs i = (if i \<in> live (recs (nt_table nt)) cs then Some (rule_view (recs (nt_table nt) ! i)) else None)"

definition nat_chain :: "ipa_nat_ip4_table_cache \<Rightarrow> (nat \<Rightarrow> nat list) \<Rightarrow> nat \<Rightarrow> nat list" where
  "nat_chain nt cs b = filter (\<lambda>i. \<not> dead (recs (nt_table nt) ! i)) (cs b)"

definition indx_chain :: "ipa_nat_ip4_table_cache \<Rightarrow> (nat \<Rightarrow> nat list) \<Rightarrow> nat \<Rightarrow> nat list" where
  "indx_chain nt xs c = map (to_rule (recs (nt_index_table nt))) (xs c)"

definition spec_of :: "ipa_nat_ip4_table_cache \<Rightarrow> (nat \<Rightarrow> nat list) \<Rightarrow> (nat \<Rightarrow> nat list) \<Rightarrow> nat_spec" where
  "spec_of nt cs xs = \<lparr>sp_rules = nat_abs nt cs, sp_chain = nat_chain nt cs, sp_indx_chain = indx_chain nt xs\<rparr>"

text \<open>The two operations on the abstraction.\<close>

definition spec_add :: "nat \<Rightarrow> nat \<Rightarrow> nat \<Rightarrow> ipa_nat_rule \<Rightarrow> nat_spec \<Rightarrow> nat_spec" where
  "spec_add i b c v s =
     \<lparr>sp_rules = (sp_rules s)(i \<mapsto> v),
      sp_chain = (sp_chain s)(b := sp_chain s b @ [i]),
      sp_indx_chain = (sp_indx_chain s)(c := sp_indx_chain s c @ [i])\<rparr>"

definition spec_del :: "nat \<Rightarrow> nat_spec \<Rightarrow> nat_spec" where
  "spec_del i s =
     \<lparr>sp_rules = (sp_rules s)(i := None),
      sp_chain = (\<lambda>b. remove1 i (sp_chain s b)),
      sp_indx_chain = (\<lambda>c. remove1 i (sp_indx_chain s c))\<rparr>"

text \<open>The rule that the hardware sees for a rule of the client.\<close>

definition installed_rule :: "ipa_nat_pdn_entry list \<Rightarrow> ipa_nat_ipv4_rule \<Rightarrow> ipa_nat_rule" where
  "installed_rule pd u =
     \<lparr>r_private_ip = u_private_ip u, r_target_ip = u_target_ip u, r_next_index = 0,
      r_public_port = u_public_port u, r_private_port = u_private_port u, r_target_port = u_target_port u,
      r_ip_chksum = ipa_nati_calc_ip_cksum (pdn_public_ip pd (u_pdn_index u)) (u_private_ip u),
      r_uc_activation_index = ucast (u_uc_activation_index u), r_s = u_s u, r_redirect = False, r_enable = True,
      r_time_stamp = ucast (u_time_stamp u), r_protocol = u_protocol u, r_prev_index = 0, r_indx_tbl_entry = 0,
      r_rsvd2 = 0, r_rsvd3 = False, r_dst_only = u_dst_only u, r_src_only = u_src_only u, r_ucp = u_ucp u,
      r_pdn_index = ucast (u_pdn_index u),
      r_tcp_udp_chksum =
        (if u_protocol u = IPPROTO_TCP \<or> u_protocol u = IPPROTO_UDP
         then ipa_nati_calc_tcp_udp_cksum (pdn_public_ip pd (u_pdn_index u)) (u_public_port u)
                (u_private_ip u) (u_private_port u)
         else 0)\<rparr>"

lemma nat_contentD:
  assumes "nat_content a = nat_content b"
  shows "r_indx_tbl_entry a = r_indx_tbl_entry b" and "r_protocol a = r_protocol b" and "dead a = dead b"
    and "rule_view a = rule_view b"
proof -
  have f: "r_indx_tbl_entry (nat_content a) = r_indx_tbl_entry (nat_content b)"
    "r_protocol (nat_content a) = r_protocol (nat_content b)" using assms by simp_all
  then show "r_indx_tbl_entry a = r_indx_tbl_entry b" "r_protocol a = r_protocol b" by (simp_all add: nat_content_def)
  then show "dead a = dead b" by (simp add: dead_def)
  have "rule_view r = (nat_content r)\<lparr>r_indx_tbl_entry := 0\<rparr>" for r by (simp add: rule_view_def nat_content_def)
  then show "rule_view a = rule_view b" using assms by simp
qed

lemma zero_rule: "(0 :: ipa_nat_rule) =
   \<lparr>r_private_ip = 0, r_target_ip = 0, r_next_index = 0, r_public_port = 0, r_private_port = 0, r_target_port = 0,
    r_ip_chksum = 0, r_uc_activation_index = 0, r_s = False, r_redirect = False, r_enable = False, r_time_stamp = 0,
    r_protocol = 0, r_prev_index = 0, r_indx_tbl_entry = 0, r_rsvd2 = 0, r_rsvd3 = False, r_dst_only = False,
    r_src_only = False, r_ucp = False, r_pdn_index = 0, r_tcp_udp_chksum = 0\<rparr>"
  by (simp add: zero_ipa_nat_rule_ext_def ipa_nat_rule.defs zero_unit_def)

text \<open>The record of a new rule once its flags were written.\<close>

lemma installed:
  assumes ne: "new_entry (entry_interface pd) False h e u = (e', v)" and z: "nat_content e = nat_content 0"
    and c: "nat_content e1 = nat_content e'"
    and e2: "e2 = e1\<lparr>r_indx_tbl_entry := x, r_redirect := rd, r_enable := en, r_time_stamp := ucast (u_time_stamp u)\<rparr>"
  shows "rule_view (nat_rule_write16 e2 18 v) = installed_rule pd u"
    and "r_indx_tbl_entry (nat_rule_write16 e2 18 v) = x" and "r_protocol (nat_rule_write16 e2 18 v) = u_protocol u"
proof -
  have hi: "snd (table_entry_head_insert pd e u) = (e', v)"
    using ne by (simp add: new_entry_def tail_entry_def split: if_splits)
  let ?e0 = "snd (table_entry_copy_from_user pd e u)"
  have e': "e' = ?e0" and v: "v = ipa_nat_flags (r_uc_activation_index ?e0) (r_s ?e0) False True"
    using hi by (auto simp: table_entry_head_insert_def table_entry_copy_from_user_def Let_def split: if_splits)
  have n0: "nat_content ?e0 = nat_content (snd (table_entry_copy_from_user pd (nat_content e) u))"
    "r_uc_activation_index ?e0 = ucast (u_uc_activation_index u)" "r_s ?e0 = u_s u"
    by (simp_all add: table_entry_copy_from_user_def Let_def nat_content_def)
  have vv: "v = ipa_nat_flags (ucast (u_uc_activation_index u)) (u_s u) False True" using v n0 by simp
  have cc: "nat_content e1 = nat_content (snd (table_entry_copy_from_user pd (nat_content 0) u))"
    using c e' n0(1) z by simp
  have w: "rule_view (nat_rule_write16 e2 18 v) =
      (nat_content e1)\<lparr>r_indx_tbl_entry := 0, r_time_stamp := ucast (u_time_stamp u),
         r_uc_activation_index := ucast (u_uc_activation_index u), r_s := u_s u, r_redirect := False, r_enable := True\<rparr>"
    by (simp add: e2 vv rule_view_def nat_content_def)
  show "rule_view (nat_rule_write16 e2 18 v) = installed_rule pd u"
    unfolding w cc
    by (auto simp: table_entry_copy_from_user_def Let_def nat_content_def zero_rule installed_rule_def)
  show "r_indx_tbl_entry (nat_rule_write16 e2 18 v) = x" by (simp add: e2)
  have "r_protocol e1 = r_protocol (nat_content e1)" by (simp add: nat_content_def)
  also have "\<dots> = u_protocol u" unfolding cc
    by (simp add: table_entry_copy_from_user_def Let_def nat_content_def)
  finally show "r_protocol (nat_rule_write16 e2 18 v) = u_protocol u" by (simp add: e2)
qed


subsection \<open>The invariant after an insertion and after its withdrawal\<close>

lemma nat_shape_cong:
  assumes "nat_shape_ok nt" and "same_shape (nt_table nt) t" and "same_shape (nt_index_table nt) x"
  shows "nat_shape_ok (nt\<lparr>nt_table := t, nt_index_table := x\<rparr>)"
  using assms(1) same_shapeD [OF assms(2)] same_shapeD [OF assms(3)] by (simp add: nat_shape_ok_def)

lemma nat_inv_frame:
  assumes inv: "nat_inv nt cs xs" and rt: "tbl_rep (entry_interface []) False t cs" and rx: "tbl_rep index_entry_interface True x xs"
    and sh: "same_shape (nt_table nt) t" "same_shape (nt_index_table nt) x"
    and ct: "\<And>j. j < length (recs t) \<Longrightarrow> nat_content (recs t ! j) = nat_content (recs (nt_table nt) ! j) \<or>
               j \<notin> members cs \<and> nat_content (recs t ! j) = nat_content 0"
    and cx: "\<And>y. y \<in> members xs \<Longrightarrow> x_tbl_entry (recs x ! y) = x_tbl_entry (recs (nt_index_table nt) ! y)"
  shows "nat_inv (nt\<lparr>nt_table := t, nt_index_table := x\<rparr>) cs xs"
    and "spec_of (nt\<lparr>nt_table := t, nt_index_table := x\<rparr>) cs xs = spec_of nt cs xs"
proof -
  note n = nat_invD [OF inv]
  have len: "length (recs t) = length (recs (nt_table nt))" by (rule rep_lengths [OF n(2) rt sh(1)])
  have m: "nat_content (recs t ! j) = nat_content (recs (nt_table nt) ! j)" if "j \<in> members cs" for j
    using ct [of j] members_lt [OF rt that] that by auto
  have lv: "live (recs t) cs = live (recs (nt_table nt)) cs"
    using nat_contentD(3) [OF m] by (auto simp: live_of_def)
  have "dead_ok (recs t) cs"
    using n(4) nat_contentD(3) [OF m] by (fastforce simp: dead_heads_def members_def)
  moreover have "free_ok (recs t) cs" using n(5) ct len by (fastforce simp: fresh_rest_def)
  moreover have "link_ok (live (recs t) cs) (members xs) (to_indx (recs t)) (to_rule (recs x))"
    by (rule link_ok_cong [OF n(6) lv refl])
      (use nat_contentD(1) [OF m] cx in \<open>auto simp: to_indx_def to_rule_def live_of_def\<close>)
  ultimately show "nat_inv (nt\<lparr>nt_table := t, nt_index_table := x\<rparr>) cs xs"
    using nat_shape_cong [OF n(1) sh] rt rx by (simp add: nat_inv_def)
  have "nat_abs (nt\<lparr>nt_table := t, nt_index_table := x\<rparr>) cs = nat_abs nt cs"
    using lv nat_contentD(4) [OF m] by (auto simp: nat_abs_def fun_eq_iff live_of_def)
  moreover have "nat_chain (nt\<lparr>nt_table := t, nt_index_table := x\<rparr>) cs = nat_chain nt cs"
    using nat_contentD(3) [OF m] by (auto simp: nat_chain_def fun_eq_iff members_def intro!: filter_cong)
  moreover have "indx_chain (nt\<lparr>nt_table := t, nt_index_table := x\<rparr>) xs = indx_chain nt xs"
    using cx membersI by (auto simp: indx_chain_def fun_eq_iff to_rule_def)
  ultimately show "spec_of (nt\<lparr>nt_table := t, nt_index_table := x\<rparr>) cs xs = spec_of nt cs xs" by (simp add: spec_of_def)
qed

lemma nat_inv_insert:
  assumes inv: "nat_inv nt cs xs"
    and rt: "tbl_rep (entry_interface []) False t (cs(b := cs b @ [i]))"
    and rx: "tbl_rep index_entry_interface True x (xs(c := xs c @ [k]))"
    and sh: "same_shape (nt_table nt) t" "same_shape (nt_index_table nt) x"
    and new: "i \<notin> members cs" "k \<notin> members xs" "cs b = [] \<Longrightarrow> i = b"
    and ct: "\<And>j. j \<noteq> i \<Longrightarrow> nat_content (recs t ! j) = nat_content (recs (nt_table nt) ! j)"
    and cx: "\<And>y. y \<noteq> k \<Longrightarrow> x_tbl_entry (recs x ! y) = x_tbl_entry (recs (nt_index_table nt) ! y)"
    and ri: "unat (r_indx_tbl_entry (recs t ! i)) = k" "\<not> dead (recs t ! i)" "rule_view (recs t ! i) = v"
    and rk: "unat (x_tbl_entry (recs x ! k)) = i"
  shows "nat_inv (nt\<lparr>nt_table := t, nt_index_table := x\<rparr>) (cs(b := cs b @ [i])) (xs(c := xs c @ [k]))"
    and "spec_of (nt\<lparr>nt_table := t, nt_index_table := x\<rparr>) (cs(b := cs b @ [i])) (xs(c := xs c @ [k])) =
           spec_add i b c v (spec_of nt cs xs)"
proof -
  note n = nat_invD [OF inv]
  have len: "length (recs t) = length (recs (nt_table nt))" by (rule rep_lengths [OF n(2) rt sh(1)])
  have dd: "dead (recs t ! j) = dead (recs (nt_table nt) ! j)" if "j \<in> members cs" for j
    using nat_contentD(3) [OF ct] new(1) that by metis
  have lv: "live (recs t) (cs(b := cs b @ [i])) = insert i (live (recs (nt_table nt)) cs)"
    using dd ri(2) by (auto simp: live_of_def members_append)
  have "dead_ok (recs t) (cs(b := cs b @ [i]))"
    unfolding dead_heads_def
  proof (intro allI ballI impI)
    fix a j assume j: "j \<in> set ((cs(b := cs b @ [i])) a)" and d: "dead (recs t ! j)"
    then have "j \<noteq> i" using ri(2) by auto
    then have "j \<in> set (cs a)" using j by (auto split: if_splits)
    moreover have "dead (recs (nt_table nt) ! j)" using nat_contentD(3) [OF ct [OF \<open>j \<noteq> i\<close>]] d by simp
    ultimately have "j = a \<and> 2 \<le> length (cs a)" using n(4) by (simp add: dead_heads_def)
    then show "j = a \<and> 2 \<le> length ((cs(b := cs b @ [i])) a)" by (cases "a = b") auto
  qed
  moreover have "free_ok (recs t) (cs(b := cs b @ [i]))" using n(5) ct len by (auto simp: fresh_rest_def members_append)
  moreover have "link_ok (insert i (live (recs (nt_table nt)) cs)) (insert k (members xs)) (to_indx (recs t)) (to_rule (recs x))"
  proof (rule link_ok_insert [OF n(6)])
    show "to_indx (recs t) j = to_indx (recs (nt_table nt)) j" if "j \<in> live (recs (nt_table nt)) cs" for j
      using nat_contentD(1) [OF ct, of j] that new(1) by (cases "j = i") (auto simp: live_of_def to_indx_def)
    show "to_rule (recs x) y = to_rule (recs (nt_index_table nt)) y" if "y \<in> members xs" for y
      using cx [of y] that new(2) by (cases "y = k") (auto simp: to_rule_def)
  qed (use new ri rk in \<open>auto simp: live_of_def to_indx_def to_rule_def\<close>)
  ultimately show "nat_inv (nt\<lparr>nt_table := t, nt_index_table := x\<rparr>) (cs(b := cs b @ [i])) (xs(c := xs c @ [k]))"
    using nat_shape_cong [OF n(1) sh] rt rx by (simp add: nat_inv_def lv members_append)
  have "nat_abs (nt\<lparr>nt_table := t, nt_index_table := x\<rparr>) (cs(b := cs b @ [i])) = (nat_abs nt cs)(i \<mapsto> v)"
    using lv nat_contentD(4) [OF ct] ri(3) by (auto simp: nat_abs_def fun_eq_iff)
  moreover have "filter (\<lambda>j. \<not> dead (recs t ! j)) (cs a) = filter (\<lambda>j. \<not> dead (recs (nt_table nt) ! j)) (cs a)" for a
    by (rule filter_cong) (use dd in \<open>auto simp: members_def\<close>)
  then have "nat_chain (nt\<lparr>nt_table := t, nt_index_table := x\<rparr>) (cs(b := cs b @ [i])) = (nat_chain nt cs)(b := nat_chain nt cs b @ [i])"
    using ri(2) by (auto simp: nat_chain_def fun_eq_iff)
  moreover have "map (to_rule (recs x)) (xs a) = map (to_rule (recs (nt_index_table nt))) (xs a)" for a
    by (rule map_cong [OF refl]) (use cx new(2) membersI in \<open>metis to_rule_def\<close>)
  then have "indx_chain (nt\<lparr>nt_table := t, nt_index_table := x\<rparr>) (xs(c := xs c @ [k])) = (indx_chain nt xs)(c := indx_chain nt xs c @ [i])"
    using rk by (auto simp: indx_chain_def to_rule_def fun_eq_iff)
  ultimately show "spec_of (nt\<lparr>nt_table := t, nt_index_table := x\<rparr>) (cs(b := cs b @ [i])) (xs(c := xs c @ [k])) =
      spec_add i b c v (spec_of nt cs xs)" by (simp add: spec_of_def spec_add_def)
qed

subsection \<open>Adding a rule\<close>

lemma tbl_ok_pow2:
  assumes "tbl_ok ix t" obtains k where "base_n t = 2 ^ k"
  using assms by (auto simp: tbl_ok_def table_dims_ok_def)

lemma displace_range:
  assumes "unat te = 2 ^ k" and "2 \<le> unat te"
  shows "0 < unat (displace te h tok)" and "unat (displace te h tok) < unat te"
  using hash_range [OF assms, of "h + ucast tok"] by (simp_all add: displace_def Let_def)

lemma new_bucket_range:
  assumes "tbl_ok ix t"
  shows "0 < unat (fst (new_nat_bucket v ip (table_entries t) u tok))"
    and "unat (fst (new_nat_bucket v ip (table_entries t) u tok)) < base_n t"
    and "0 < unat (fst (new_index_bucket (table_entries t) u tok))"
    and "unat (fst (new_index_bucket (table_entries t) u tok)) < base_n t"
proof -
  obtain k where k: "base_n t = 2 ^ k" using tbl_ok_pow2 [OF assms] .
  note te = tbl_okD(1) [OF assms]
  show "0 < unat (fst (new_nat_bucket v ip (table_entries t) u tok))"
    "unat (fst (new_nat_bucket v ip (table_entries t) u tok)) < base_n t"
    "0 < unat (fst (new_index_bucket (table_entries t) u tok))"
    "unat (fst (new_index_bucket (table_entries t) u tok)) < base_n t"
    using displace_range [OF k te] hash_range [OF k te]
    by (simp_all add: new_nat_bucket_def new_index_bucket_def dst_hash_def src_hash_def Let_def)
qed

lemma room_zero: "n < 256 \<Longrightarrow> room (dma_cmd_zero n) n"
  by (simp add: room_def dma_cmd_zero_def)

lemma cmds_of_zero [simp]: "cmds_of (dma_cmd_zero n) = []"
  by (simp add: cmds_of_def dma_cmd_zero_def)

text \<open>The index record of a new rule names the rule.\<close>

lemma indx_installed:
  assumes "new_entry index_entry_interface True h e u = (e', v)" and "x_tbl_entry e1 = x_tbl_entry e'"
  shows "x_tbl_entry (if \<not> h then e1 else indx_rule_write16 e1 0 v) = u"
  using assms
  by (auto simp: new_entry_def tail_entry_def index_entry_interface_def index_table_entry_head_insert_def
      index_table_entry_tail_insert_def split: if_splits)

lemma link_eq_client: "link_eq (entry_interface p) False e (e\<lparr>r_indx_tbl_entry := x, r_redirect := rd, r_enable := en, r_time_stamp := ts\<rparr>)"
  by (simp add: link_eq_def table_entry_get_next_index_def table_entry_get_prev_index_def)

definition nat_room :: "ipa_nat_ip4_table_cache \<Rightarrow> (nat \<Rightarrow> nat list) \<Rightarrow> nat \<Rightarrow> bool" where
  "nat_room nt cs b \<longleftrightarrow> cs b = [] \<or> has_free (entry_interface []) (nt_table nt)"

definition indx_room :: "ipa_nat_ip4_table_cache \<Rightarrow> (nat \<Rightarrow> nat list) \<Rightarrow> nat \<Rightarrow> bool" where
  "indx_room nt xs c \<longleftrightarrow> xs c = [] \<or> has_free index_entry_interface (nt_index_table nt)"

definition dma_accepts :: "('w, 'm) nat_env_scheme \<Rightarrow> bool" where
  "dma_accepts env \<longleftrightarrow> (\<forall>fd cmd m w. fst (fst (ioctl_table_dma env fd cmd m w)) = 0)"

definition kept :: "ipa_nat_ip4_table_cache \<Rightarrow> ipa_nat_ip4_table_cache \<Rightarrow> bool" where
  "kept nt nt' \<longleftrightarrow> mem_desc nt' = mem_desc nt \<and> public_addr nt' = public_addr nt \<and>
     same_shape (nt_table nt) (nt_table nt') \<and> same_shape (nt_index_table nt) (nt_index_table nt')"

lemma kept_refl [simp]: "kept nt nt" by (simp add: kept_def)

lemma list_update_same_nth: "xs = ys[i := e] \<Longrightarrow> i < length ys \<Longrightarrow> xs[i := e] = xs"
  by simp

lemma nt_upd_comm: "nt\<lparr>nt_index_table := x, nt_table := t\<rparr> = nt\<lparr>nt_table := t, nt_index_table := x\<rparr>"
  by simp

text \<open>What the critical section of an addition does, given the buckets \<open>b\<close> and \<open>c\<close>.\<close>

definition add_outcome ::
    "ipa_nat_pdn_entry list \<Rightarrow> ipa_nat_ipv4_rule \<Rightarrow> ipa_nat_ip4_table_cache \<Rightarrow> (nat \<Rightarrow> nat list) \<Rightarrow> (nat \<Rightarrow> nat list)
     \<Rightarrow> nat \<Rightarrow> nat \<Rightarrow> int \<Rightarrow> u32 \<Rightarrow> ipa_nat_ip4_table_cache \<Rightarrow> bool" where
  "add_outcome pd u nt cs xs b c ret hdl nt' \<longleftrightarrow>
     kept nt nt' \<and>
     (if ret = 0
      then \<exists>i k. i \<notin> members cs \<and> 0 < i \<and> i < tot_n (nt_table nt) \<and>
             hdl = ucast (MakeEntryHdl (nt_table nt) (of_nat i)) \<and>
             nat_inv nt' (cs(b := cs b @ [i])) (xs(c := xs c @ [k])) \<and>
             spec_of nt' (cs(b := cs b @ [i])) (xs(c := xs c @ [k])) =
               spec_add i b c (installed_rule pd u) (spec_of nt cs xs)
      else hdl = 0 \<and> nat_inv nt' cs xs \<and> spec_of nt' cs xs = spec_of nt cs xs)"

lemma outcome_no_change:
  assumes "nat_inv nt cs xs" and "ret \<noteq> 0" shows "add_outcome pd u nt cs xs b c ret 0 nt"
  using assms by (simp add: add_outcome_def)

text \<open>A NAT record that was filled in and erased again, with the index table as before or rolled back too.\<close>

abbreviation nat_inserted ::
    "ipa_nat_pdn_entry list \<Rightarrow> ipa_nat_rule ipa_table \<Rightarrow> (nat \<Rightarrow> nat list) \<Rightarrow> nat \<Rightarrow> ipa_nat_ipv4_rule \<Rightarrow> nat
     \<Rightarrow> ipa_nat_rule ipa_table \<Rightarrow> ipa_ioc_nat_dma_one list \<Rightarrow> ipa_nat_rule \<Rightarrow> ipa_nat_rule \<Rightarrow> u16 \<Rightarrow> bool" where
  "nat_inserted pd \<equiv> inserted (entry_interface pd) nat_rule_write16 18 IPA_NAT_BASE_TBL IPA_NAT_EXPN_TBL False nat_content"

abbreviation indx_inserted ::
    "ipa_nat_indx_tbl_rule ipa_table \<Rightarrow> (nat \<Rightarrow> nat list) \<Rightarrow> nat \<Rightarrow> u16 \<Rightarrow> nat \<Rightarrow> ipa_nat_indx_tbl_rule ipa_table
     \<Rightarrow> ipa_ioc_nat_dma_one list \<Rightarrow> ipa_nat_indx_tbl_rule \<Rightarrow> ipa_nat_indx_tbl_rule \<Rightarrow> u16 \<Rightarrow> bool" where
  "indx_inserted \<equiv> inserted index_entry_interface indx_rule_write16 0 IPA_NAT_INDX_TBL IPA_NAT_INDEX_EXPN_TBL True x_tbl_entry"

lemma outcome_rolled_back:
  assumes inv: "nat_inv nt cs xs" and i: "i \<notin> members cs"
    and t: "tbl_rep (entry_interface pd) False t cs" "same_shape (nt_table nt) t" "recs t = (recs (nt_table nt))[i := 0]"
    and x: "tbl_rep index_entry_interface True x xs" "same_shape (nt_index_table nt) x"
      "\<And>y. y \<in> members xs \<Longrightarrow> x_tbl_entry (recs x ! y) = x_tbl_entry (recs (nt_index_table nt) ! y)"
    and "ret \<noteq> 0"
  shows "add_outcome pd u nt cs xs b c ret 0 (nt\<lparr>nt_table := t, nt_index_table := x\<rparr>)"
proof -
  have "nat_content (recs t ! j) = nat_content (recs (nt_table nt) ! j) \<or> j \<notin> members cs \<and> nat_content (recs t ! j) = nat_content 0"
    if "j < length (recs t)" for j
    using that i by (cases "j = i") (simp_all add: t(3))
  from nat_inv_frame [OF inv t(1) [unfolded nat_rep_pdns [of pd]] x(1) t(2) x(2) this x(3)]
  show ?thesis using assms(9) t(2) x(2) by (simp add: add_outcome_def kept_def)
qed

lemma add_rule_no_index_room:
  assumes inv: "nat_inv nt cs xs" and ins: "nat_inserted pd (nt_table nt) cs b u i t1 new e1 e' v"
  obtains t4 where "ipa_table_erase_entry t1 (of_nat i) = Some t4"
    and "add_outcome pd u nt cs xs b c (- 1) 0 (nt\<lparr>nt_table := t4\<rparr>)"
proof -
  note nv = nat_invD [OF inv]
  obtain t4 where t4: "ipa_table_erase_entry (t1\<lparr>recs := (recs t1)[i := e1]\<rparr>) (of_nat i) = Some t4"
    "tbl_rep (entry_interface pd) False t4 cs" "same_shape (nt_table nt) t4" "recs t4 = (recs (nt_table nt))[i := 0]"
    by (rule inserted_erase [OF ins])
  have "add_outcome pd u nt cs xs b c (- 1) 0 (nt\<lparr>nt_table := t4, nt_index_table := nt_index_table nt\<rparr>)"
    by (rule outcome_rolled_back [OF inv inserted_not_member [OF ins nv(2)] t4(2-4) nv(3)]) simp_all
  then show thesis
    using that t4(1) inserted_same_rec [OF ins tbl_repD(1) [OF nv(2)]] by simp
qed

lemma add_rule_posted:
  assumes inv: "nat_inv nt cs xs" and df: "dma_faithful env nt" and d: "ipa_desc cache = Some d"
    and n: "nc_nmi cache = nmi (nt_table nt)" and pr: "u_protocol u \<noteq> IPAHAL_NAT_INVALID_PROTOCOL"
    and ins: "nat_inserted pd (nt_table nt) cs b u i t1 new e1 e' v"
    and inx: "indx_inserted (nt_index_table nt) xs c (of_nat i) k x1 newx f1 f' vx"
    and cmd: "cmds_of cmd = new @ newx"
    and e2: "e2 = e1\<lparr>r_indx_tbl_entry := of_nat k, r_redirect := rd, r_enable := en, r_time_stamp := ucast (u_time_stamp u)\<rparr>"
  defines "nt2 \<equiv> nt\<lparr>nt_table := t1\<lparr>recs := (recs t1)[i := e2]\<rparr>, nt_index_table := x1\<rparr>"
  obtains (ok) nt3 w' where "ipa_nati_post_ipv4_dma_cmd env cache nt2 cmd w = Some (0, nt3, w')"
      and "add_outcome pd u nt cs xs b c 0 (ucast (MakeEntryHdl (nt_table nt) (of_nat i))) nt3"
  | (fail) t4 x4 w' where "ipa_nati_post_ipv4_dma_cmd env cache nt2 cmd w = Some (- EIO, nt2, w')" and "\<not> dma_accepts env"
      and "ipa_table_erase_entry x1 (of_nat k) = Some x4" and "ipa_table_erase_entry (nt_table nt2) (of_nat i) = Some t4"
      and "add_outcome pd u nt cs xs b c (- EIO) 0 (nt\<lparr>nt_table := t4, nt_index_table := x4\<rparr>)"
proof -
  let ?t = "nt_table nt" and ?x = "nt_index_table nt" and ?t2 = "t1\<lparr>recs := (recs t1)[i := e2]\<rparr>"
  note nv = nat_invD [OF inv]
  note I = insertedD [OF ins] and K = insertedD [OF inx]
  note rt = nv(2) [of pd] and okt = tbl_repD(1) [OF nv(2)] and okx = tbl_repD(1) [OF nv(3)]
  have im: "i \<notin> members cs" and km: "k \<notin> members xs"
    using inserted_not_member [OF ins rt] inserted_not_member [OF inx nv(3)] .
  have x1: "x1\<lparr>recs := (recs x1)[k := f1]\<rparr> = x1" by (rule inserted_same_rec [OF inx okx])
  have un: "unat (of_nat i :: u16) = i" "unat (of_nat k :: u16) = k" using okt okx I(2) K(2) by simp_all
  have sh: "same_shape ?t (nt_table nt2)" "same_shape ?x (nt_index_table nt2)" using I(6) K(6) by (simp_all add: nt2_def)
  obtain r m w' where io: "ioctl_table_dma env (fd d) (cmd\<lparr>mem_type := ucast (nmi_val (nc_nmi cache))\<rparr>)
               (recs (nt_table nt2), recs (nt_index_table nt2)) w = ((r, m), w')" by (metis surj_pair)
  note post = post_dma_cmd [OF df d n sh io]
  show thesis
  proof (cases "r = 0")
    case True
    obtain t3 where t3: "nat_exec new ?t2 = t3" "tbl_rep (entry_interface pd) False t3 (cs(b := cs b @ [i]))" "same_shape ?t t3"
        "recs t3 ! i = (if False \<and> cs b \<noteq> [] then e2 else nat_rule_write16 e2 18 v)"
        "\<And>j. j \<noteq> i \<Longrightarrow> nat_content (recs t3 ! j) = nat_content (recs ?t ! j)"
      by (rule inserted_exec [OF ins, of e2]) (use e2 link_eq_client in auto)
    obtain x3 where x3: "indx_exec newx (x1\<lparr>recs := (recs x1)[k := f1]\<rparr>) = x3"
        "tbl_rep index_entry_interface True x3 (xs(c := xs c @ [k]))" "same_shape ?x x3"
        "recs x3 ! k = (if True \<and> xs c \<noteq> [] then f1 else indx_rule_write16 f1 0 vx)"
        "\<And>y. y \<noteq> k \<Longrightarrow> x_tbl_entry (recs x3 ! y) = x_tbl_entry (recs ?x ! y)"
      by (rule inserted_exec [OF inx, of f1]) (auto simp: link_eq_def)
    have z: "nat_content (recs ?t ! i) = nat_content 0"
      using nv(5) im I(2) tbl_okD(4) [OF okt] by (simp add: fresh_rest_def)
    note view = installed [OF I(8) z I(9) e2]
    have rk: "x_tbl_entry (recs x3 ! k) = of_nat i" using indx_installed [OF K(8,9)] x3(4) by (simp split: if_splits)
    have dd: "\<not> dead (recs t3 ! i)" using t3(4) view(3) pr by (simp add: dead_def)
    have ri: "unat (r_indx_tbl_entry (recs t3 ! i)) = k" "rule_view (recs t3 ! i) = installed_rule pd u"
      "unat (x_tbl_entry (recs x3 ! k)) = i" using t3(4) view(1,2) rk un by simp_all
    note t3r = t3(2) [unfolded nat_rep_pdns [of pd]]
    have "nat_inv (nt\<lparr>nt_table := t3, nt_index_table := x3\<rparr>) (cs(b := cs b @ [i])) (xs(c := xs c @ [k]))"
      by (rule nat_inv_insert(1) [OF inv t3r x3(2) t3(3) x3(3) im km I(5) t3(5) x3(5) ri(1) dd ri(2,3)])
    moreover have "spec_of (nt\<lparr>nt_table := t3, nt_index_table := x3\<rparr>) (cs(b := cs b @ [i])) (xs(c := xs c @ [k])) =
        spec_add i b c (installed_rule pd u) (spec_of nt cs xs)"
      by (rule nat_inv_insert(2) [OF inv t3r x3(2) t3(3) x3(3) im km I(5) t3(5) x3(5) ri(1) dd ri(2,3)])
    ultimately have "add_outcome pd u nt cs xs b c 0 (ucast (MakeEntryHdl ?t (of_nat i))) (nt\<lparr>nt_table := t3, nt_index_table := x3\<rparr>)"
      using im I(2,3) t3(3) x3(3) by (auto simp: add_outcome_def kept_def)
    moreover have "ipa_nati_post_ipv4_dma_cmd env cache nt2 cmd w = Some (0, nt\<lparr>nt_table := t3, nt_index_table := x3\<rparr>, w')"
      using post True cmd nat_indx_cmds [OF I(1) K(1)] t3(1) x3(1) x1 by (simp add: nt2_def del: dma_exec_simps)
    ultimately show thesis using ok by blast
  next
    case False
    obtain t4 where t4: "ipa_table_erase_entry ?t2 (of_nat i) = Some t4"
      "tbl_rep (entry_interface pd) False t4 cs" "same_shape ?t t4" "recs t4 = (recs ?t)[i := 0]"
      by (rule inserted_erase [OF ins])
    obtain x4 where x4: "ipa_table_erase_entry (x1\<lparr>recs := (recs x1)[k := f1]\<rparr>) (of_nat k) = Some x4"
      "tbl_rep index_entry_interface True x4 xs" "same_shape ?x x4" "recs x4 = (recs ?x)[k := 0]"
      by (rule inserted_erase [OF inx])
    have xk: "x_tbl_entry (recs x4 ! y) = x_tbl_entry (recs ?x ! y)" if "y \<in> members xs" for y
      using that km x4(4) by (cases "y = k") simp_all
    have "add_outcome pd u nt cs xs b c (- EIO) 0 (nt\<lparr>nt_table := t4, nt_index_table := x4\<rparr>)"
      by (rule outcome_rolled_back [OF inv im t4(2-4) x4(2,3)]) (use xk in \<open>simp_all add: errno_defs\<close>)
    moreover have "\<not> dma_accepts env" using io False by (metis dma_accepts_def fst_conv)
    ultimately show thesis using fail post False t4(1) x4(1) x1 by (simp add: nt2_def)
  qed
qed

lemma add_rule_locked_spec:
  assumes inv: "nat_inv nt cs xs" and df: "dma_faithful env nt" and d: "ipa_desc cache = Some d"
    and n: "nc_nmi cache = nmi (nt_table nt)" and pr: "u_protocol u \<noteq> IPAHAL_NAT_INVALID_PROTOCOL"
    and b: "new_nat_bucket (ver d) ip (table_entries (nt_table nt)) u tok = (b, tok1)"
    and c: "new_index_bucket (table_entries (nt_table nt)) u tok1 = (c, tok2)"
  shows "\<exists>ret hdl nt' tok' w'. add_rule_locked env pd cache nt ip tok u w = Some (ret, hdl, nt', tok', w') \<and>
           add_outcome pd u nt cs xs (unat b) (unat c) ret hdl nt' \<and>
           (ret = 0 \<longrightarrow> nat_room nt cs (unat b) \<and> indx_room nt xs (unat c)) \<and>
           (nat_room nt cs (unat b) \<and> indx_room nt xs (unat c) \<and> dma_accepts env \<longrightarrow> ret = 0)"
proof -
  let ?t = "nt_table nt" and ?x = "nt_index_table nt" and ?b = "unat b" and ?c = "unat c"
  note nv = nat_invD [OF inv]
  note rt = nv(2) [of pd] and rx = nv(3)
  note okt = tbl_repD(1) [OF rt] and okx = tbl_repD(1) [OF rx]
  have dt: "dma_ok IPA_NAT_BASE_TBL IPA_NAT_EXPN_TBL 32 18 8 22 ?t"
    and dx: "dma_ok IPA_NAT_INDX_TBL IPA_NAT_INDEX_EXPN_TBL 4 0 2 0 ?x"
    and te: "table_entries ?x = table_entries ?t" using nv(1) by (simp_all add: nat_shape_ok_def)
  have br: "0 < ?b" "?b < base_n ?t" "0 < ?c" "?c < base_n ?x"
    using new_bucket_range [OF okt] b c te by (metis fst_conv)+
  have fr: "has_free (entry_interface pd) ?t = has_free (entry_interface []) ?t"
    by (simp only: has_free_def vd_pdns [of pd])
  let ?cmd = "dma_cmd_zero MAX_DMA_ENTRIES_FOR_ADD"
  have r4: "room ?cmd (Suc (Suc 2))" using room_zero [of 4] by (simp add: MAX_DMA_ENTRIES_FOR_ADD_def)
  show ?thesis
  proof (cases "nat_room nt cs ?b")
    case False
    then have "ipa_table_add_entry (entry_interface pd) ?t u b ?cmd = Some (- 1, ?t, b, 0, ?cmd)"
      using nat.add_entry_no_room [OF rt, of ?b] fr by (simp add: nat_room_def)
    then have "add_rule_locked env pd cache nt ip tok u w = Some (- 1, 0, nt, tok1, w)"
      using d b by (simp add: add_rule_locked_def Let_def)
    then show ?thesis using False outcome_no_change [OF inv] by force
  next
    case True
    then have "cs ?b = [] \<or> has_free (entry_interface pd) ?t" using fr by (simp add: nat_room_def)
    note fr' = this
    obtain i t1 new e1 e' v cmd1 where
      add: "ipa_table_add_entry (entry_interface pd) ?t u b ?cmd = Some (0, t1, of_nat i, ucast (MakeEntryHdl ?t (of_nat i)), cmd1)"
      and c1: "cmds_of cmd1 = new" "room cmd1 (Suc (Suc 0))"
      and ins: "inserted (entry_interface pd) nat_rule_write16 18 IPA_NAT_BASE_TBL IPA_NAT_EXPN_TBL False nat_content ?t cs ?b u i t1 new e1 e' v"
      by (rule nat.add_entry_inserted [OF rt dt TrueI br(1,2) r4 fr']) (simp add: numeral_2_eq_2)
    note I = insertedD [OF ins]
    have i0: "(of_nat i :: u16) \<noteq> 0" using I(2,3) of_nat_rec_0 [OF okt I(2)] by simp
    show ?thesis
    proof (cases "indx_room nt xs ?c")
      case False
      then have "ipa_table_add_entry index_entry_interface ?x (of_nat i) c cmd1 = Some (- 1, ?x, c, 0, cmd1)"
        using indx.add_entry_no_room [OF rx, of ?c] by (simp add: indx_room_def)
      moreover obtain t4 where "ipa_table_erase_entry t1 (of_nat i) = Some t4"
        "add_outcome pd u nt cs xs ?b ?c (- 1) 0 (nt\<lparr>nt_table := t4\<rparr>)"
        by (rule add_rule_no_index_room [OF inv ins])
      ultimately have "add_rule_locked env pd cache nt ip tok u w = Some (- 1, 0, nt\<lparr>nt_table := t4\<rparr>, tok2, w)"
        "add_outcome pd u nt cs xs ?b ?c (- 1) 0 (nt\<lparr>nt_table := t4\<rparr>)"
        using d b c add by (simp_all add: add_rule_locked_def Let_def)
      then show ?thesis using False by force
    next
      case rx': True
      then have frx: "xs ?c = [] \<or> has_free index_entry_interface ?x" by (simp add: indx_room_def)
      obtain k x1 newx f1 f' vx cmd2 where
        addx: "ipa_table_add_entry index_entry_interface ?x (of_nat i) c cmd1 =
                 Some (0, x1, of_nat k, ucast (MakeEntryHdl ?x (of_nat k)), cmd2)"
        and c2: "cmds_of cmd2 = new @ newx"
        and inx: "indx_inserted ?x xs ?c (of_nat i) k x1 newx f1 f' vx"
        by (rule indx.add_entry_inserted [OF rx dx i0 br(3,4) c1(2) frx]) (simp add: c1)
      define e2 where "e2 = e1\<lparr>r_indx_tbl_entry := of_nat k, r_redirect := bit (u_redirect u) 0,
          r_enable := bit (u_enable u) 0, r_time_stamp := ucast (u_time_stamp u)\<rparr>"
      define nt2 where "nt2 = nt\<lparr>nt_table := t1\<lparr>recs := (recs t1)[i := e2]\<rparr>, nt_index_table := x1\<rparr>"
      have get: "ipa_table_get_entry_by_index t1 (of_nat i) = Some (of_nat i)"
        using get_entry_by_index_rec [OF okt I(2)] I(3) same_shapeD(5) [OF I(6)]
        by (simp add: ipa_table_get_entry_by_index_def opt_idx_def split: if_splits)
      have mem: "unat (of_nat i :: u16) = i" "i < length (recs t1)" "recs t1 ! i = e1"
        using okt I(2,7) tbl_okD(4) [OF okt] by simp_all
      have step: "add_rule_locked env pd cache nt ip tok u w =
          do { (ret, nt3, w) \<leftarrow> ipa_nati_post_ipv4_dma_cmd env cache nt2 cmd2 w;
               if ret \<noteq> 0
               then do {
                 ix \<leftarrow> ipa_table_erase_entry (nt_index_table nt3) (of_nat k);
                 t \<leftarrow> ipa_table_erase_entry (nt_table nt3) (of_nat i);
                 Some (ret, 0, nt3\<lparr>nt_table := t, nt_index_table := ix\<rparr>, tok2, w)
               }
               else Some (0, ucast (MakeEntryHdl ?t (of_nat i)), nt3, tok2, w) }"
        using d b c add addx get mem by (simp add: add_rule_locked_def Let_def e2_def nt2_def nt_upd_comm)
      show ?thesis
      proof (rule add_rule_posted [OF inv df d n pr ins inx c2 e2_def, of w, folded nt2_def])
        fix nt3 w' assume "ipa_nati_post_ipv4_dma_cmd env cache nt2 cmd2 w = Some (0, nt3, w')"
          "add_outcome pd u nt cs xs ?b ?c 0 (ucast (MakeEntryHdl ?t (of_nat i))) nt3"
        then show ?thesis using step True rx' by simp
      next
        fix t4 x4 w' assume "ipa_nati_post_ipv4_dma_cmd env cache nt2 cmd2 w = Some (- EIO, nt2, w')"
          "\<not> dma_accepts env" "ipa_table_erase_entry x1 (of_nat k) = Some x4"
          "ipa_table_erase_entry (nt_table nt2) (of_nat i) = Some t4"
          "add_outcome pd u nt cs xs ?b ?c (- EIO) 0 (nt\<lparr>nt_table := t4, nt_index_table := x4\<rparr>)"
        then show ?thesis using step by (simp add: errno_defs nt2_def)
      qed
    qed
  qed
qed

subsection \<open>Deleting a rule\<close>

text \<open>The NAT table and its iterator for the rule \<open>i\<close>; the command that takes the rule away.\<close>

abbreviation nat_del_cmd :: "ipa_nat_rule ipa_table \<Rightarrow> nat list \<Rightarrow> nat \<Rightarrow> nat list \<Rightarrow> ipa_ioc_nat_dma_one" where
  "nat_del_cmd \<equiv> del_cmd IPA_NAT_INVALID_PROTO_FIELD_VALUE"

text \<open>The rule \<open>i\<close> is gone from \<open>t\<close>, all other rules are as before.\<close>

abbreviation nat_gone ::
    "ipa_nat_rule ipa_table \<Rightarrow> (nat \<Rightarrow> nat list) \<Rightarrow> nat \<Rightarrow> ipa_nat_rule ipa_table \<Rightarrow> (nat \<Rightarrow> nat list) \<Rightarrow> bool" where
  "nat_gone \<equiv> rule_gone (entry_interface []) dead (\<lambda>e. nat_content e = nat_content 0) nat_content"

text \<open>Removing \<open>i\<close> and, with it, a dead head from a chain.\<close>

text \<open>What follows the execution of the commands for the NAT table.\<close>

abbreviation nat_finish ::
    "ipa_nat_pdn_entry list \<Rightarrow> ipa_nat_rule ipa_table \<Rightarrow> ipa_table_iterator \<Rightarrow> ipa_nat_rule ipa_table option" where
  "nat_finish pd \<equiv> del_finish (entry_interface pd) dead"

lemma write_invalid_proto:
  "dead (nat_rule_write16 r 22 IPA_NAT_INVALID_PROTO_FIELD_VALUE)"
  by (simp add: dead_def IPA_NAT_INVALID_PROTO_FIELD_VALUE_def IPAHAL_NAT_INVALID_PROTOCOL_def hi8_def)

interpretation natr: rule_table "entry_interface pd" nat_rule_write16 32 18 8 22 IPA_NAT_BASE_TBL IPA_NAT_EXPN_TBL
  "\<lambda>_. True" nat_content dead "\<lambda>e. nat_content e = nat_content 0" IPA_NAT_INVALID_PROTO_FIELD_VALUE
proof unfold_locales
  show "dead a = dead b" if "nat_content a = nat_content b" for a b using that by (rule nat_contentD(3))
  show "dead (nat_rule_write16 e 22 IPA_NAT_INVALID_PROTO_FIELD_VALUE)" for e by (rule write_invalid_proto)
  show "entry_get_delete_head_dma_command_data (entry_interface pd) a b = IPA_NAT_INVALID_PROTO_FIELD_VALUE" for a b
    by (simp only: entry_interface_sel table_entry_get_delete_head_dma_command_data_def)
qed simp_all

lemma nat_finish_any:
  assumes rep: "tbl_rep (entry_interface pd) False t cs" and d: "dma_ok IPA_NAT_BASE_TBL IPA_NAT_EXPN_TBL 32 18 8 22 t"
    and ok: "dead_ok (recs t) cs" "free_ok (recs t) cs" and b: "cs b = as @ i # bs" "\<not> dead (recs t ! i)"
  obtains t3 cs' where
    "nat_finish pd (nat_exec [nat_del_cmd t as i bs] t) (iter_at (last (0 # as)) i (hd (bs @ [0]))) = Some t3"
    and "nat_gone t cs i t3 cs'"
proof -
  obtain t3 cs' where
    fin: "nat_finish pd (nat_exec [nat_del_cmd t as i bs] t) (iter_at (last (0 # as)) i (hd (bs @ [0]))) = Some t3"
    and gone: "rule_gone (entry_interface pd) dead (\<lambda>e. nat_content e = nat_content 0) nat_content t cs i t3 cs'"
    by (rule natr.del_finish_any [OF rep d ok b]) (rule that)
  show thesis by (rule that [OF fin gone [unfolded rule_gone_def nat_rep_pdns [of pd], folded rule_gone_def]])
qed

text \<open>The same for the index table: what follows the commands, and the index record \<open>z\<close> that is freed.\<close>

definition indx_finish ::
    "ipa_nat_indx_tbl_rule ipa_table \<Rightarrow> ipa_table_iterator \<Rightarrow> ipa_nat_indx_tbl_rule ipa_table option" where
  "indx_finish x it =
     do {
       ix \<leftarrow> ipa_table_delete_entry index_entry_interface x it False;
       if table_entries ix \<le> curr_index it
       then do {
         ms \<leftarrow> meta ix;
         ms \<leftarrow> mem_write ms (unat (curr_index it - table_entries ix)) 0;
         Some (ix\<lparr>meta := Some ms\<rparr>)
       }
       else Some ix
     }"

definition indx_gone ::
    "ipa_nat_indx_tbl_rule ipa_table \<Rightarrow> (nat \<Rightarrow> nat list) \<Rightarrow> nat \<Rightarrow> nat \<Rightarrow> ipa_nat_indx_tbl_rule ipa_table
     \<Rightarrow> (nat \<Rightarrow> nat list) \<Rightarrow> bool" where
  "indx_gone x xs k z x' xs' \<longleftrightarrow>
     tbl_rep index_entry_interface True x' xs' \<and> same_shape x x' \<and> members xs' = members xs - {z} \<and>
     (\<forall>y\<in>members xs - {k, z}. to_rule (recs x') y = to_rule (recs x) y) \<and>
     (z \<noteq> k \<longrightarrow> to_rule (recs x') k = to_rule (recs x) z) \<and>
     (\<forall>c. map (to_rule (recs x')) (xs' c) = remove1 (to_rule (recs x) k) (map (to_rule (recs x)) (xs c)))"

lemma meta_reset_rep:
  assumes rep: "tbl_rep index_entry_interface True x xs" and z: "z < tot_n x" "recs x ! z = 0"
  obtains x' where
    "(if table_entries x \<le> of_nat z
      then do { ms \<leftarrow> meta x; ms \<leftarrow> mem_write ms (unat (of_nat z - table_entries x)) 0; Some (x\<lparr>meta := Some ms\<rparr>) }
      else Some x) = Some x'"
    and "tbl_rep index_entry_interface True x' xs" and "same_shape x x'" and "recs x' = recs x"
proof (cases "table_entries x \<le> of_nat z")
  case False
  then show thesis using that [of x] rep by simp
next
  case True
  note ok = tbl_okD [OF tbl_repD(1) [OF rep]]
  have un: "unat (of_nat z :: u16) = z" using tbl_repD(1) [OF rep] z(1) by simp
  then have le: "base_n x \<le> z" using True by (simp add: word_le_nat_alt)
  then have sub: "unat (of_nat z - table_entries x) = z - base_n x" using True un by (simp add: unat_sub)
  obtain ms where ms: "meta x = Some ms" "length ms = unat (expn_table_entries x)"
    using ok(7) by (auto simp: meta_ok_def)
  have lt: "z - base_n x < length ms" using z(1) ok(5) ms(2) le by simp
  let ?ms = "ms[z - base_n x := 0]"
  have nv: "\<not> vd index_entry_interface x z" by (simp add: vd_def z(2) indx.zero_invalid)
  have "tbl_rep index_entry_interface True (x\<lparr>recs := (recs x)[z := 0], meta := Some ?ms\<rparr>) xs"
  proof (rule indx.erase_fresh [OF rep z(1) nv])
    show "meta_ok True (unat (expn_table_entries x)) (Some ?ms)" using ms by (simp add: meta_ok_def)
    fix j :: u16 and e assume "j \<noteq> of_nat z \<or> z < base_n x"
    then have "j \<noteq> of_nat z" using le by simp
    then have "j - table_entries x \<noteq> of_nat z - table_entries x" by simp
    then have "unat (j - table_entries x) \<noteq> z - base_n x" using sub by (metis word_unat_eq_iff)
    then show "entry_get_prev_index index_entry_interface e j (Some ?ms) (table_entries x)
        = entry_get_prev_index index_entry_interface e j (meta x) (table_entries x)"
      by (simp add: index_interface_defs ms(1) mem_read_def)
  qed
  moreover have "(recs x)[z := 0] = recs x" using z(2) list_update_id [of "recs x" z] by simp
  ultimately have "tbl_rep index_entry_interface True (x\<lparr>meta := Some ?ms\<rparr>) xs" by simp
  then show thesis using that [of "x\<lparr>meta := Some ?ms\<rparr>"] True ms(1) lt sub by (simp add: same_shape_def)
qed

lemma indx_finishI:
  assumes del: "ipa_table_delete_entry index_entry_interface x2 (iter_at p z n) False = Some x3"
    and rep: "tbl_rep index_entry_interface True x3 xs'" and z: "z < tot_n x3" "recs x3 ! z = 0"
  obtains x' where "indx_finish x2 (iter_at p z n) = Some x'"
    and "tbl_rep index_entry_interface True x' xs'" and "same_shape x3 x'" and "recs x' = recs x3"
proof -
  obtain x' where x': "(if table_entries x3 \<le> of_nat z
       then do { ms \<leftarrow> meta x3; ms \<leftarrow> mem_write ms (unat (of_nat z - table_entries x3)) 0; Some (x3\<lparr>meta := Some ms\<rparr>) }
       else Some x3) = Some x'" "tbl_rep index_entry_interface True x' xs'" "same_shape x3 x'" "recs x' = recs x3"
    by (rule meta_reset_rep [OF rep z])
  have "indx_finish x2 (iter_at p z n) =
      (if table_entries x3 \<le> of_nat z
       then do { ms \<leftarrow> meta x3; ms \<leftarrow> mem_write ms (unat (of_nat z - table_entries x3)) 0; Some (x3\<lparr>meta := Some ms\<rparr>) }
       else Some x3)"
    using del by (simp add: indx_finish_def iter_at_def)
  then show thesis using that x' by (simp only:)
qed

lemma map_to_rule_cong:
  "(\<And>j. j \<in> set ys \<Longrightarrow> x_tbl_entry (rs' ! j) = x_tbl_entry (rs ! j)) \<Longrightarrow> map (to_rule rs') ys = map (to_rule rs) ys"
  by (simp add: to_rule_def)

lemma indx_goneI:
  assumes rep: "tbl_rep index_entry_interface True x xs" and inj: "inj_on (to_rule (recs x)) (members xs)"
    and k: "k \<in> set (xs c)" and rep': "tbl_rep index_entry_interface True x' (xs(c := ys))" and sh: "same_shape x x'"
    and ys: "set ys = set (xs c) - {z}" "z \<in> set (xs c)"
      "map (to_rule (recs x')) ys = remove1 (to_rule (recs x) k) (map (to_rule (recs x)) (xs c))"
    and ct: "\<And>y. y \<noteq> z \<Longrightarrow> y \<noteq> k \<Longrightarrow> x_tbl_entry (recs x' ! y) = x_tbl_entry (recs x ! y)"
    and mv: "z \<noteq> k \<Longrightarrow> x_tbl_entry (recs x' ! k) = x_tbl_entry (recs x ! z)"
  shows "indx_gone x xs k z x' (xs(c := ys))"
proof -
  have disj: "y \<notin> set (xs c)" if "y \<in> set (xs a)" "a \<noteq> c" for a y
    using chain_rep_disjoint [OF tbl_repD(2) [OF rep] that(1)] that(2) by auto
  have mem: "members (xs(c := ys)) = members xs - {z}"
    using disj ys(1,2) by (auto simp: members_def split: if_splits)
  have "map (to_rule (recs x')) ((xs(c := ys)) a) = remove1 (to_rule (recs x) k) (map (to_rule (recs x)) (xs a))" for a
  proof (cases "a = c")
    case False
    have "map (to_rule (recs x')) (xs a) = map (to_rule (recs x)) (xs a)"
    proof (rule map_to_rule_cong)
      fix j assume "j \<in> set (xs a)"
      then have "j \<noteq> z" "j \<noteq> k" using disj [OF _ False] k ys(2) by auto
      then show "x_tbl_entry (recs x' ! j) = x_tbl_entry (recs x ! j)" by (rule ct)
    qed
    moreover have "to_rule (recs x) k \<notin> set (map (to_rule (recs x)) (xs a))"
    proof
      assume "to_rule (recs x) k \<in> set (map (to_rule (recs x)) (xs a))"
      then obtain j where j: "j \<in> set (xs a)" "to_rule (recs x) k = to_rule (recs x) j" by auto
      have "k = j" using inj_onD [OF inj j(2)] membersI [of k xs c] membersI [of j xs a] k j(1) by simp
      then show False using disj [OF j(1) False] k by simp
    qed
    ultimately show ?thesis using False by (simp add: remove1_idem)
  qed (use ys(3) in simp)
  then show ?thesis using rep' sh mem ct mv by (simp add: indx_gone_def to_rule_def)
qed

lemma map_remove1_inj: "inj_on f (set xs) \<Longrightarrow> k \<in> set xs \<Longrightarrow> map f (remove1 k xs) = remove1 (f k) (map f xs)"
  by (induction xs) (auto simp: inj_on_def)

lemma indx_delete_here:
  assumes rep: "tbl_rep index_entry_interface True x xs" and d: "dma_ok IPA_NAT_INDX_TBL IPA_NAT_INDEX_EXPN_TBL 4 0 2 0 x"
    and inj: "inj_on (to_rule (recs x)) (members xs)" and c: "xs c = as @ k # bs" "as \<noteq> [] \<or> bs = []"
  obtains x' xs' where
    "indx_finish (indx_exec [if as \<noteq> [] then dma_cmd_for x HELP_UPDATE_ENTRY (last as) (of_nat (hd (bs @ [0])))
                             else dma_cmd_for x HELP_UPDATE_HEAD k 0] x)
       (iter_at (last (0 # as)) k (hd (bs @ [0]))) = Some x'"
    and "indx_gone x xs k k x' xs'"
proof -
  have k: "k \<in> set (xs c)" using c(1) by simp
  note mk = tbl_rep_mem [OF rep k]
  have dist: "distinct (xs c)" using chain_repD(5) [OF tbl_repD(2) [OF rep], of c] c(1) by simp
  have injc: "inj_on (to_rule (recs x)) (set (xs c))" by (rule inj_on_subset [OF inj]) (auto intro: membersI)
  show thesis
  proof (cases "as = []")
    case True
    then have "xs c = [k]" using c by simp
    then have kc: "k = c" "xs c = [c]" using chain_repD(3) [OF tbl_repD(2) [OF rep], of c] by auto
    obtain x3 where x3: "ipa_table_delete_entry index_entry_interface (indx_exec [dma_cmd_for x HELP_UPDATE_HEAD c 0] x) (iter_at 0 c 0) False = Some x3"
        "tbl_rep index_entry_interface True x3 (xs(c := []))" "same_shape x x3" "recs x3 = (recs x)[c := 0]"
      by (rule indx.delete_single [OF rep d kc(2)])
    have z: "c < tot_n x3" "recs x3 ! c = 0"
      using mk(1) kc same_shapeD(5) [OF x3(3)] x3(4) tbl_okD(4) [OF tbl_repD(1) [OF rep]] by simp_all
    obtain x' where x': "indx_finish (indx_exec [dma_cmd_for x HELP_UPDATE_HEAD c 0] x) (iter_at 0 c 0) = Some x'"
        "tbl_rep index_entry_interface True x' (xs(c := []))" "same_shape x3 x'" "recs x' = recs x3"
      by (rule indx_finishI [OF x3(1,2) z])
    have "indx_gone x xs k k x' (xs(c := []))"
      by (rule indx_goneI [OF rep inj k x'(2) same_shape_trans [OF x3(3) x'(3)]]) (use kc x'(4) x3(4) in simp_all)
    then show thesis using that x'(1) True c(2) kc by simp
  next
    case False
    then obtain as' p where as: "as = as' @ [p]" by (cases as rule: rev_cases) auto
    then have c': "xs c = as' @ p # k # bs" using c(1) by simp
    let ?x2 = "indx_exec [dma_cmd_for x HELP_UPDATE_ENTRY p (of_nat (hd (bs @ [0])))] x"
    obtain x3 where x3: "ipa_table_delete_entry index_entry_interface ?x2 (iter_at p k (hd (bs @ [0]))) False = Some x3"
        "tbl_rep index_entry_interface True x3 (xs(c := as' @ p # bs))" "same_shape x x3" "recs x3 ! k = 0"
        "\<And>j. j \<noteq> k \<Longrightarrow> x_tbl_entry (recs x3 ! j) = x_tbl_entry (recs x ! j)"
      using indx.delete_tail [OF rep d c', of False] by blast
    have z: "k < tot_n x3" using mk(1) same_shapeD(5) [OF x3(3)] by simp
    obtain x' where x': "indx_finish ?x2 (iter_at p k (hd (bs @ [0]))) = Some x'"
        "tbl_rep index_entry_interface True x' (xs(c := as' @ p # bs))" "same_shape x3 x'" "recs x' = recs x3"
      by (rule indx_finishI [OF x3(1,2) z x3(4)])
    have r1: "as' @ p # bs = remove1 k (xs c)" using c' dist by (simp add: remove1_append)
    have "map (to_rule (recs x')) (as' @ p # bs) = map (to_rule (recs x)) (as' @ p # bs)"
      unfolding x'(4) by (rule map_to_rule_cong, rule x3(5)) (use dist c' in auto)
    also have "\<dots> = remove1 (to_rule (recs x) k) (map (to_rule (recs x)) (xs c))"
      unfolding r1 by (rule map_remove1_inj [OF injc k])
    finally have "indx_gone x xs k k x' (xs(c := as' @ p # bs))"
      by - (rule indx_goneI [OF rep inj k x'(2) same_shape_trans [OF x3(3) x'(3)]], use r1 dist k x'(4) x3(5) in \<open>auto simp: set_remove1_eq\<close>)
    then show thesis using that x'(1) as by simp
  qed
qed

lemma indx_delete_moved:
  assumes rep: "tbl_rep index_entry_interface True x xs" and d: "dma_ok IPA_NAT_INDX_TBL IPA_NAT_INDEX_EXPN_TBL 4 0 2 0 x"
    and inj: "inj_on (to_rule (recs x)) (members xs)" and c: "xs c = k # y # zs"
  obtains x' xs' where
    "indx_finish (indx_exec [dma_cmd_for x HELP_DELETE_HEAD k (x_tbl_entry (recs x ! y)),
                             dma_cmd_for x HELP_UPDATE_ENTRY k (of_nat (hd (zs @ [0])))] x)
       (iter_at k y (hd (zs @ [0]))) = Some x'"
    and "indx_gone x xs k y x' xs'"
proof -
  have kc: "k = c" using chain_repD(3) [OF tbl_repD(2) [OF rep], of c] c by simp
  then have c': "xs c = c # y # zs" using c by simp
  have y: "y \<in> set (xs c)" and k: "k \<in> set (xs c)" using c by simp_all
  note my = tbl_rep_mem [OF rep y]
  have dist: "distinct (c # y # zs)" using chain_repD(5) [OF tbl_repD(2) [OF rep], of c] c' by simp
  let ?x2 = "indx_exec [dma_cmd_for x HELP_DELETE_HEAD c (x_tbl_entry (recs x ! y)),
                        dma_cmd_for x HELP_UPDATE_ENTRY c (of_nat (hd (zs @ [0])))] x"
  have data: "entry_get_delete_head_dma_command_data index_entry_interface e e2 = x_tbl_entry e2" for e e2
    by (simp add: index_interface_defs)
  obtain x3 where x3: "ipa_table_delete_entry index_entry_interface ?x2 (iter_at c y (hd (zs @ [0]))) False = Some x3"
      "tbl_rep index_entry_interface True x3 (xs(c := c # zs))" "same_shape x x3" "recs x3 ! y = 0"
      "recs x3 ! c = indx_rule_write16 (indx_rule_write16 (recs x ! c) 0 (x_tbl_entry (recs x ! y))) 2 (of_nat (hd (zs @ [0])))"
      "\<And>j. j \<noteq> y \<Longrightarrow> j \<noteq> c \<Longrightarrow> x_tbl_entry (recs x3 ! j) = x_tbl_entry (recs x ! j)"
    by (rule indx.delete_head_moved [OF rep d c', unfolded data]) (rule that)
  have z: "y < tot_n x3" using my(1) same_shapeD(5) [OF x3(3)] by simp
  obtain x' where x': "indx_finish ?x2 (iter_at c y (hd (zs @ [0]))) = Some x'"
      "tbl_rep index_entry_interface True x' (xs(c := c # zs))" "same_shape x3 x'" "recs x' = recs x3"
    by (rule indx_finishI [OF x3(1,2) z x3(4)])
  have zs: "map (to_rule (recs x')) zs = map (to_rule (recs x)) zs"
    unfolding x'(4) by (rule map_to_rule_cong, rule x3(6)) (use dist in auto)
  have "indx_gone x xs k y x' (xs(c := c # zs))"
    by (rule indx_goneI [OF rep inj k x'(2) same_shape_trans [OF x3(3) x'(3)]])
      (use c' kc dist x'(4) x3(5,6) zs in \<open>auto simp: to_rule_def\<close>)
  then show thesis using that x'(1) kc by simp
qed

text \<open>The rule \<open>j\<close> is told that its index record is now \<open>k\<close>.\<close>

definition relink :: "ipa_nat_rule ipa_table \<Rightarrow> nat \<Rightarrow> nat \<Rightarrow> ipa_nat_rule ipa_table" where
  "relink t j k = t\<lparr>recs := (recs t)[j := (recs t ! j)\<lparr>r_indx_tbl_entry := of_nat k\<rparr>]\<rparr>"

lemma relink_rec:
  "j < length (recs t) \<Longrightarrow> recs (relink t j k) ! a = (if a = j then (recs t ! j)\<lparr>r_indx_tbl_entry := of_nat k\<rparr> else recs t ! a)"
  by (auto simp: relink_def)

lemma relink_facts:
  assumes rep: "tbl_rep (entry_interface pd) False t cs" and ok: "dead_ok (recs t) cs" "free_ok (recs t) cs" and j: "j \<in> members cs"
  shows "tbl_rep (entry_interface pd) False (relink t j k) cs" and "dead_ok (recs (relink t j k)) cs"
    and "free_ok (recs (relink t j k)) cs" and "same_shape t (relink t j k)"
    and "dead (recs (relink t j k) ! a) = dead (recs t ! a)" and "rule_view (recs (relink t j k) ! a) = rule_view (recs t ! a)"
proof -
  have lt: "j < length (recs t)" by (rule members_lt [OF rep j])
  note r = relink_rec [OF lt, of k]
  show dd: "dead (recs (relink t j k) ! a) = dead (recs t ! a)" for a by (simp add: r dead_def)
  show "rule_view (recs (relink t j k) ! a) = rule_view (recs t ! a)" by (simp add: r rule_view_def)
  show "dead_ok (recs (relink t j k)) cs" using ok(1) dd by (simp add: dead_heads_def)
  show "free_ok (recs (relink t j k)) cs" using ok(2) j r by (auto simp: fresh_rest_def relink_def)
  show "same_shape t (relink t j k)" by (simp add: relink_def)
  have "vd (entry_interface pd) (relink t j k) = vd (entry_interface pd) t"
    "nx (entry_interface pd) (relink t j k) = nx (entry_interface pd) t"
    "pv (entry_interface pd) (relink t j k) = pv (entry_interface pd) t"
    by (auto simp: fun_eq_iff vd_def nx_def pv_def r table_entry_is_valid_def table_entry_get_next_index_def
        table_entry_get_prev_index_def)
  then show "tbl_rep (entry_interface pd) False (relink t j k) cs"
    using rep by (simp add: tbl_rep_def relink_def)
qed

text \<open>The state after the rule \<open>i\<close> and the index record \<open>z\<close> are gone.\<close>

lemma nat_inv_removed:
  assumes inv: "nat_inv nt cs xs" and i: "i \<in> live (recs (nt_table nt)) cs" "to_indx (recs (nt_table nt)) i = k"
    and t': "t' = (if z = k then nt_table nt else relink (nt_table nt) (to_rule (recs (nt_index_table nt)) z) k)"
    and z: "z \<in> members xs" and k: "k < 65536"
    and tg: "nat_gone t' cs i t3 cs'" and xg: "indx_gone (nt_index_table nt) xs k z x3 xs'"
  shows "nat_inv (nt\<lparr>nt_table := t3, nt_index_table := x3\<rparr>) cs' xs'"
    and "spec_of (nt\<lparr>nt_table := t3, nt_index_table := x3\<rparr>) cs' xs' = spec_del i (spec_of nt cs xs)"
    and "kept nt (nt\<lparr>nt_table := t3, nt_index_table := x3\<rparr>)"
proof -
  let ?t = "nt_table nt" and ?x = "nt_index_table nt" and ?j = "to_rule (recs (nt_index_table nt)) z"
  note nv = nat_invD [OF inv]
  note l = link_okD [OF nv(6)]
  have jl: "?j \<in> live (recs ?t) cs" using l(3) [OF z] .
  then have jm: "?j \<in> members cs" by (simp add: live_of_def)
  note rf = relink_facts [OF nv(2) nv(4,5) jm, where k = k]
  have sh: "same_shape ?t t'" using t' rf(4) by simp
  have dd: "dead (recs t' ! a) = dead (recs ?t ! a)" and rv: "rule_view (recs t' ! a) = rule_view (recs ?t ! a)" for a
    using t' rf(5,6) [of a] by simp_all
  have lv: "live (recs t') cs = live (recs ?t) cs" by (simp add: live_of_def dd)
  have ti: "to_indx (recs t') a = (if z \<noteq> k \<and> a = ?j then k else to_indx (recs ?t) a)" for a
    using t' k by (simp add: to_indx_def unat_of_nat_u16 relink_rec [OF members_lt [OF nv(2) jm], of k])
  note T = tg [unfolded rule_gone_def] and X = xg [unfolded indx_gone_def]
  have sh3: "same_shape ?t t3" "same_shape ?x x3" using same_shape_trans [OF sh] T X by blast+
  have lv3: "live (recs t3) cs' = live (recs ?t) cs - {i}" using T lv by simp
  have c3: "nat_content (recs t3 ! a) = nat_content (recs t' ! a)" if "a \<in> live (recs ?t) cs" "a \<noteq> i" for a
    using T lv that by simp
  have ti3: "to_indx (recs t3) a = to_indx (recs t') a" if "a \<in> live (recs ?t) cs" "a \<noteq> i" for a
    using nat_contentD(1) [OF c3 [OF that]] by (simp add: to_indx_def)
  have link: "link_ok (live (recs ?t) cs - {i}) (members xs - {z}) (to_indx (recs t3)) (to_rule (recs x3))"
  proof (cases "z = k")
    case True
    show ?thesis unfolding True
      by (rule link_ok_remove [OF nv(6) i]) (use ti3 ti X True in auto)
  next
    case False
    have "?j \<noteq> i" using l(4) [OF z] i(2) False by auto
    then show ?thesis
      by (intro link_ok_move [OF nv(6) i z False]) (use ti3 ti X False jl in auto)
  qed
  show "nat_inv (nt\<lparr>nt_table := t3, nt_index_table := x3\<rparr>) cs' xs'"
    using nat_shape_cong [OF nv(1) sh3] T X link lv3 by (simp add: nat_inv_def)
  show "kept nt (nt\<lparr>nt_table := t3, nt_index_table := x3\<rparr>)" using sh3 by (simp add: kept_def)
  have "nat_abs (nt\<lparr>nt_table := t3, nt_index_table := x3\<rparr>) cs' = (nat_abs nt cs)(i := None)"
    using lv3 nat_contentD(4) [OF c3] rv by (auto simp: nat_abs_def fun_eq_iff)
  moreover have "nat_chain (nt\<lparr>nt_table := t3, nt_index_table := x3\<rparr>) cs' = (\<lambda>b. remove1 i (nat_chain nt cs b))"
    using T dd by (simp add: nat_chain_def fun_eq_iff)
  moreover have "to_rule (recs ?x) k = i" using l(2) [OF i(1)] i(2) by simp
  then have "indx_chain (nt\<lparr>nt_table := t3, nt_index_table := x3\<rparr>) xs' = (\<lambda>c. remove1 i (indx_chain nt xs c))"
    using X by (simp add: indx_chain_def fun_eq_iff)
  ultimately show "spec_of (nt\<lparr>nt_table := t3, nt_index_table := x3\<rparr>) cs' xs' = spec_del i (spec_of nt cs xs)"
    by (simp add: spec_of_def spec_del_def)
qed


text \<open>The last part of the critical section: the command for the NAT table, posting, and the deletions.\<close>

definition del_rest ::
    "('w, 'm) nat_env_scheme \<Rightarrow> ipa_nat_pdn_entry list \<Rightarrow> ipa_nat_cache \<Rightarrow> ipa_nat_ip4_table_cache \<Rightarrow> ipa_table_iterator
     \<Rightarrow> ipa_table_iterator \<Rightarrow> ipa_ioc_nat_dma_cmd \<Rightarrow> 'w \<Rightarrow> (int \<times> ipa_nat_ip4_table_cache \<times> 'w) option" where
  "del_rest env pd cache nt it xit cmd w =
     do {
       cmd \<leftarrow> ipa_table_create_delete_command (entry_interface pd) (nt_table nt) cmd it;
       (ret, nt, w) \<leftarrow> ipa_nati_post_ipv4_dma_cmd env cache nt cmd w;
       if ret \<noteq> 0 then Some (ret, nt, w)
       else do {
         t \<leftarrow> nat_finish pd (nt_table nt) it;
         ix \<leftarrow> indx_finish (nt_index_table nt) xit;
         Some (0, nt\<lparr>nt_table := t, nt_index_table := ix\<rparr>, w)
       }
     }"

lemma option_bind_if: "Option.bind (if c then a else b) k = (if c then Option.bind a k else Option.bind b k)"
  by simp

lemma del_rule_locked_eq:
  "del_rule_locked env pd cache nt hdl w =
     (let (ret, table_rule, index) = ipa_table_get_entry (nt_table nt) hdl
      in if ret \<noteq> 0 then Some (ret, nt, w)
         else do {
           rp \<leftarrow> table_rule;
           (ret, it) \<leftarrow> ipa_table_iterator_init (entry_interface pd) (nt_table nt) rp index;
           if ret \<noteq> 0 then Some (ret, nt, w)
           else do {
             rule \<leftarrow> mem_read (recs (nt_table nt)) (unat rp);
             (case ipa_table_get_entry_by_index (nt_index_table nt) (r_indx_tbl_entry rule) of
                None \<Rightarrow> Some (- EPERM, nt, w)
              | Some xp \<Rightarrow> do {
                  (ret, xit) \<leftarrow> ipa_table_iterator_init index_entry_interface (nt_index_table nt) xp (r_indx_tbl_entry rule);
                  if ret \<noteq> 0 then Some (ret, nt, w)
                  else do {
                    cmd \<leftarrow> ipa_table_create_delete_command index_entry_interface (nt_index_table nt)
                             (dma_cmd_zero MAX_DMA_ENTRIES_FOR_DEL) xit;
                    if ipa_table_iterator_is_head_with_tail xit
                    then do {
                      (nt, cmd) \<leftarrow> ipa_nati_copy_second_index_entry_to_head nt xit cmd;
                      (ret, xit) \<leftarrow> ipa_table_iterator_next index_entry_interface (nt_index_table nt) xit;
                      if ret \<noteq> 0 then Some (ret, nt, w) else del_rest env pd cache nt it xit cmd w
                    }
                    else del_rest env pd cache nt it xit cmd w
                  }
                })
           }
         })"
  unfolding del_rule_locked_def del_rest_def del_finish_def indx_finish_def dead_def
  by (simp add: Let_def split_def option_bind_if cong: if_cong option.case_cong)

lemma del_rest_spec:
  assumes inv: "nat_inv nt cs xs" and df: "dma_faithful env nt" and d: "ipa_desc cache = Some d"
    and n: "nc_nmi cache = nmi (nt_table nt)"
    and i: "i \<in> live (recs (nt_table nt)) cs" "to_indx (recs (nt_table nt)) i = k" "cs b = as @ i # bs"
    and t': "t' = (if z = k then nt_table nt else relink (nt_table nt) (to_rule (recs (nt_index_table nt)) z) k)"
    and z: "z \<in> members xs"
    and cmd: "room cmd (Suc 0)" "cmds_of cmd = newx"
      "\<forall>c\<in>set newx. d_base_addr c \<in> {dma_type_val IPA_NAT_INDX_TBL, dma_type_val IPA_NAT_INDEX_EXPN_TBL}"
    and x3: "indx_finish (indx_exec newx (nt_index_table nt)) xit = Some x3" "indx_gone (nt_index_table nt) xs k z x3 xs'"
  defines "nt1 \<equiv> nt\<lparr>nt_table := t'\<rparr>"
  shows "\<exists>ret nt' w'. del_rest env pd cache nt1 (iter_at (last (0 # as)) i (hd (bs @ [0]))) xit cmd w = Some (ret, nt', w') \<and>
           (if ret = 0 then kept nt nt' \<and> (\<exists>cs' xs'. nat_inv nt' cs' xs' \<and> spec_of nt' cs' xs' = spec_del i (spec_of nt cs xs))
            else ret = - EIO \<and> nt' = nt1 \<and> \<not> dma_accepts env)"
proof -
  let ?t = "nt_table nt" and ?x = "nt_index_table nt" and ?it = "iter_at (last (0 # as)) i (hd (bs @ [0]))"
  note nv = nat_invD [OF inv]
  have "to_rule (recs ?x) z \<in> members cs" using link_okD(3) [OF nv(6) z] by (simp add: live_of_def)
  note rf = relink_facts [OF nv(2) nv(4,5) this, where k = k]
  have rep: "tbl_rep (entry_interface pd) False t' cs" and ok: "dead_ok (recs t') cs" "free_ok (recs t') cs"
    and sh: "same_shape ?t t'" and nd: "\<not> dead (recs t' ! i)"
    using t' rf nv(2,4,5) i(1) by (auto simp: live_of_def)
  have dt: "dma_ok IPA_NAT_BASE_TBL IPA_NAT_EXPN_TBL 32 18 8 22 t'"
    using nv(1) same_shapeD(9) [OF sh] by (simp add: nat_shape_ok_def)
  have k: "k < 65536" using i(2) unat_u16_lt by (auto simp: to_indx_def)
  let ?c = "nat_del_cmd t' as i bs"
  have ct: "ipa_table_create_delete_command (entry_interface pd) t' cmd ?it = Some (push_cmd cmd ?c)"
    using nat.create_delete_command_chain [OF rep dt cmd(1) i(3)]
    by (simp add: del_cmd_def table_entry_get_delete_head_dma_command_data_def)
  note pc = push_cmd_facts(1) [OF cmd(1), of ?c]
  have nb: "\<forall>c\<in>set [?c]. d_base_addr c \<in> {dma_type_val IPA_NAT_BASE_TBL, dma_type_val IPA_NAT_EXPN_TBL}"
    using nat.dma_cmd_for_base_addr [OF dt] by (auto simp: del_cmd_def)
  have ex: "nat_exec (cmds_of (push_cmd cmd ?c)) t' = nat_exec [?c] t'" "indx_exec (cmds_of (push_cmd cmd ?c)) ?x = indx_exec newx ?x"
    unfolding pc cmd(2) using nat_indx_cmds(3,4) [OF nb cmd(3)] by (simp_all del: dma_exec_simps)
  obtain t3 cs' where t3: "nat_finish pd (nat_exec [?c] t') ?it = Some t3" "nat_gone t' cs i t3 cs'"
    by (rule nat_finish_any [OF rep dt ok i(3) nd])
  note rem = nat_inv_removed [OF inv i(1,2) t' z k t3(2) x3(2)]
  have sh1: "same_shape ?t (nt_table nt1)" "same_shape ?x (nt_index_table nt1)" using sh by (simp_all add: nt1_def)
  obtain r m w' where io: "ioctl_table_dma env (fd d) ((push_cmd cmd ?c)\<lparr>mem_type := ucast (nmi_val (nc_nmi cache))\<rparr>)
               (recs (nt_table nt1), recs (nt_index_table nt1)) w = ((r, m), w')" by (metis surj_pair)
  note post = post_dma_cmd [OF df d n sh1 io]
  show ?thesis
  proof (cases "r = 0")
    case True
    let ?nt3 = "nt\<lparr>nt_table := t3, nt_index_table := x3\<rparr>"
    have "del_rest env pd cache nt1 ?it xit cmd w = Some (0, ?nt3, w')"
      using ct post True ex t3(1) x3(1) by (simp add: del_rest_def nt1_def del: dma_exec_simps)
    then show ?thesis using rem by auto
  next
    case False
    then have "\<not> dma_accepts env" using io by (metis dma_accepts_def fst_conv)
    then show ?thesis using ct post False by (simp add: del_rest_def nt1_def errno_defs)
  qed
qed

text \<open>
  What a deletion leaves when the commands are rejected: when the index record \<open>k\<close> of the rule is the head
  of a chain with more records, the rule of the second record was already told that its index record is \<open>k\<close>.
\<close>

definition del_aborted :: "ipa_nat_ip4_table_cache \<Rightarrow> nat \<Rightarrow> ipa_nat_ip4_table_cache" where
  "del_aborted nt k =
     (let y = unat (x_next_index (recs (nt_index_table nt) ! k))
      in if k < base_n (nt_index_table nt) \<and> y \<noteq> 0
         then nt\<lparr>nt_table := relink (nt_table nt) (to_rule (recs (nt_index_table nt)) y) k\<rparr>
         else nt)"

lemma indx_create_delete:
  assumes rep: "tbl_rep index_entry_interface True x xs" and d: "dma_ok IPA_NAT_INDX_TBL IPA_NAT_INDEX_EXPN_TBL 4 0 2 0 x"
    and r: "room cmd (Suc n)" and c: "xs c = as @ k # bs"
  shows "ipa_table_create_delete_command index_entry_interface x cmd (iter_at (last (0 # as)) k (hd (bs @ [0]))) =
     Some (push_cmd cmd
       (if as \<noteq> [] then dma_cmd_for x HELP_UPDATE_ENTRY (last as) (of_nat (hd (bs @ [0])))
        else if bs = [] then dma_cmd_for x HELP_UPDATE_HEAD k 0
        else dma_cmd_for x HELP_DELETE_HEAD k (x_tbl_entry (recs x ! hd bs))))"
  using indx.create_delete_command_chain [OF rep d r c]
  by (simp add: index_interface_defs)

lemma copy_second:
  assumes rep: "tbl_rep index_entry_interface True (nt_index_table nt) xs"
    and d: "dma_ok IPA_NAT_INDX_TBL IPA_NAT_INDEX_EXPN_TBL 4 0 2 0 (nt_index_table nt)"
    and r: "room cmd (Suc n)" and c: "xs c = k # y # zs"
    and j: "to_rule (recs (nt_index_table nt)) y < length (recs (nt_table nt))"
  shows "ipa_nati_copy_second_index_entry_to_head nt (iter_at 0 k y) cmd =
    Some (nt\<lparr>nt_table := relink (nt_table nt) (to_rule (recs (nt_index_table nt)) y) k\<rparr>,
          push_cmd cmd (dma_cmd_for (nt_index_table nt) HELP_UPDATE_ENTRY k (of_nat (hd (zs @ [0])))))"
proof -
  let ?x = "nt_index_table nt"
  have c': "xs c = [] @ k # y # zs" "xs c = [k] @ y # zs" using c by simp_all
  note nk = indx.neighbours [OF rep c'(1)] and ny = indx.neighbours [OF rep c'(2)]
  note ok = tbl_repD(1) [OF rep]
  have rd: "mem_read (recs ?x) (unat (of_nat y :: u16)) = Some (recs ?x ! y)"
    using ny(5) ok tbl_okD(4) [OF ok] by simp
  have nx: "x_next_index (recs ?x ! y) = of_nat (hd (zs @ [0]))"
    using ny(4) by (simp add: index_interface_defs)
  have add: "ipa_table_add_dma_cmd ?x HELP_UPDATE_ENTRY (Some (of_nat k)) (of_nat k) v cmd
      = Some (0, push_cmd cmd (dma_cmd_for ?x HELP_UPDATE_ENTRY k v))" for v
    by (rule add_dma_cmd_eq [OF ok d _ nk(5) r]) simp
  show ?thesis using rd nx add j ny(6)
    by (simp add: ipa_nati_copy_second_index_entry_to_head_def iter_at_def opt_idx_def relink_def to_rule_def Let_def)
qed

lemma del_start:
  assumes "ipa_table_get_entry (nt_table nt) hdl = (0, Some rp, idx)"
    and "ipa_table_iterator_init (entry_interface pd) (nt_table nt) rp idx = Some (0, it)"
    and "mem_read (recs (nt_table nt)) (unat rp) = Some rule"
    and "ipa_table_get_entry_by_index (nt_index_table nt) (r_indx_tbl_entry rule) = Some xp"
    and "ipa_table_iterator_init index_entry_interface (nt_index_table nt) xp (r_indx_tbl_entry rule) = Some (0, xit)"
    and "ipa_table_create_delete_command index_entry_interface (nt_index_table nt) (dma_cmd_zero MAX_DMA_ENTRIES_FOR_DEL) xit
           = Some cmd"
  shows "del_rule_locked env pd cache nt hdl w =
      (if ipa_table_iterator_is_head_with_tail xit
       then do {
         (nt, cmd) \<leftarrow> ipa_nati_copy_second_index_entry_to_head nt xit cmd;
         (ret, xit) \<leftarrow> ipa_table_iterator_next index_entry_interface (nt_index_table nt) xit;
         if ret \<noteq> 0 then Some (ret, nt, w) else del_rest env pd cache nt it xit cmd w
       }
       else del_rest env pd cache nt it xit cmd w)"
  using assms by (simp add: del_rule_locked_eq)

lemma del_rule_locked_spec:
  assumes inv: "nat_inv nt cs xs" and df: "dma_faithful env nt" and d: "ipa_desc cache = Some d"
    and n: "nc_nmi cache = nmi (nt_table nt)" and i: "i \<in> live (recs (nt_table nt)) cs"
    and hdl: "ipa_table_get_entry (nt_table nt) hdl = (0, Some (of_nat i), of_nat i)"
  shows "\<exists>ret nt' w'. del_rule_locked env pd cache nt hdl w = Some (ret, nt', w') \<and>
           (if ret = 0 then kept nt nt' \<and> (\<exists>cs' xs'. nat_inv nt' cs' xs' \<and> spec_of nt' cs' xs' = spec_del i (spec_of nt cs xs))
            else ret = - EIO \<and> nt' = del_aborted nt (to_indx (recs (nt_table nt)) i) \<and> \<not> dma_accepts env)"
proof -
  let ?t = "nt_table nt" and ?x = "nt_index_table nt" and ?k = "to_indx (recs (nt_table nt)) i"
  note nv = nat_invD [OF inv]
  note rt = nv(2) [of pd] and rx = nv(3) and l = link_okD [OF nv(6)]
  note okt = tbl_repD(1) [OF rt] and okx = tbl_repD(1) [OF rx]
  have dx: "dma_ok IPA_NAT_INDX_TBL IPA_NAT_INDEX_EXPN_TBL 4 0 2 0 ?x" using nv(1) by (simp add: nat_shape_ok_def)
  have im: "i \<in> members cs" using i by (simp add: live_of_def)
  obtain b as bs where b: "cs b = as @ i # bs" using rep_memD [OF rt im] by metis
  have km: "?k \<in> members xs" by (rule l(1) [OF i])
  obtain c as' bs' where c: "xs c = as' @ ?k # bs'" "?k \<in> set (xs c)" using rep_memD [OF rx km] by metis
  let ?it = "iter_at (last (0 # as)) i (hd (bs @ [0]))" and ?xit = "iter_at (last (0 # as')) ?k (hd (bs' @ [0]))"
  note ni = nat.neighbours [OF rt b] and nk = indx.neighbours [OF rx c(1)]
  have inj: "inj_on (to_rule (recs ?x)) (members xs)" by (rule inj_on_inverseI) (rule l(4))
  have rk: "r_indx_tbl_entry (recs ?t ! i) = of_nat ?k" by (simp add: to_indx_def)
  have get: "ipa_table_get_entry_by_index ?x (of_nat ?k) = Some (of_nat ?k)"
    using get_entry_by_index_rec [OF okx nk(5)] nk(6) by (simp add: opt_idx_def)
  have rd: "mem_read (recs ?t) (unat (of_nat i :: u16)) = Some (recs ?t ! i)"
    using ni(5) okt tbl_okD(4) [OF okt] by simp
  let ?cmd = "dma_cmd_zero MAX_DMA_ENTRIES_FOR_DEL"
  have r3: "room ?cmd (Suc 2)" using room_zero [of 3] by (simp add: MAX_DMA_ENTRIES_FOR_DEL_def numeral_3_eq_3 numeral_2_eq_2)
  let ?c1 = "if as' \<noteq> [] then dma_cmd_for ?x HELP_UPDATE_ENTRY (last as') (of_nat (hd (bs' @ [0])))
        else if bs' = [] then dma_cmd_for ?x HELP_UPDATE_HEAD ?k 0
        else dma_cmd_for ?x HELP_DELETE_HEAD ?k (x_tbl_entry (recs ?x ! hd bs'))"
  note cx = indx_create_delete [OF rx dx r3 c(1)]
  note pc = push_cmd_facts(1,2) [OF r3]
  have hwt: "ipa_table_iterator_is_head_with_tail ?xit \<longleftrightarrow> hd (bs' @ [0]) \<noteq> 0 \<and> last (0 # as') = 0"
    by (rule head_with_tail_iter [OF okx nk(1,2)])
  note ends = rep_ends [OF rx c(1)]
  have hw: "ipa_table_iterator_is_head_with_tail ?xit \<longleftrightarrow> as' = [] \<and> bs' \<noteq> []" using hwt ends(1,2) by blast
  note start = del_start [OF hdl nat.iterator_init_chain [OF rt b] rd, unfolded rk,
      OF get indx.iterator_init_chain [OF rx c(1)] cx, of env cache w, unfolded hw]
  have ab: "ht \<noteq> HELP_UPDATE_MAX \<Longrightarrow> d_base_addr (dma_cmd_for ?x ht a v) \<in> {dma_type_val IPA_NAT_INDX_TBL, dma_type_val IPA_NAT_INDEX_EXPN_TBL}" for ht a v
    by (rule indx.dma_cmd_for_base_addr [OF dx])
  have nxk: "unat (x_next_index (recs ?x ! ?k)) = hd (bs' @ [0])"
    using nk(2,4) okx by (simp add: index_interface_defs)
  show ?thesis
  proof (cases "as' = [] \<and> bs' \<noteq> []")
    case False
    then have c2: "as' \<noteq> [] \<or> bs' = []" by blast
    let ?c2 = "if as' \<noteq> [] then dma_cmd_for ?x HELP_UPDATE_ENTRY (last as') (of_nat (hd (bs' @ [0])))
        else dma_cmd_for ?x HELP_UPDATE_HEAD ?k 0"
    have c12: "?c1 = ?c2" using c2 by auto
    obtain x3 xs' where x3: "indx_finish (indx_exec [?c2] ?x) ?xit = Some x3" "indx_gone ?x xs ?k ?k x3 xs'"
      by (rule indx_delete_here [OF rx dx inj c(1) c2])
    have ab1: "\<forall>c\<in>set [?c2]. d_base_addr c \<in> {dma_type_val IPA_NAT_INDX_TBL, dma_type_val IPA_NAT_INDEX_EXPN_TBL}"
      using ab by auto
    have r1: "room (push_cmd ?cmd ?c2) (Suc 0)" "cmds_of (push_cmd ?cmd ?c2) = [?c2]"
      using pc [of ?c2] by (auto simp: room_def)
    have da: "del_aborted nt ?k = nt" using False nxk ends by (auto simp: del_aborted_def Let_def)
    have id: "nt\<lparr>nt_table := ?t\<rparr> = nt" by simp
    have tt: "?t = (if ?k = ?k then ?t else relink ?t (to_rule (recs ?x) ?k) ?k)" by simp
    have go: "del_rule_locked env pd cache nt hdl w = del_rest env pd cache nt ?it ?xit (push_cmd ?cmd ?c2) w"
      using start False by (simp only: c12 if_False)
    show ?thesis
      using del_rest_spec [OF inv df d n i refl b tt km r1 ab1 x3, of pd w] unfolding go da id .
  next
    case True
    then obtain y zs where bs': "bs' = y # zs" by (cases bs') auto
    then have cy: "xs c = ?k # y # zs" using c(1) True by simp
    then have ym: "y \<in> members xs" using membersI [of y xs c] by simp
    have yk: "y \<noteq> ?k" using chain_repD(5) [OF tbl_repD(2) [OF rx], of c] cy by auto
    let ?j = "to_rule (recs ?x) y"
    have jm: "?j < length (recs ?t)" using l(3) [OF ym] members_lt [OF rt, of ?j] by (simp add: live_of_def)
    let ?d1 = "dma_cmd_for ?x HELP_DELETE_HEAD ?k (x_tbl_entry (recs ?x ! y))"
    let ?d2 = "dma_cmd_for ?x HELP_UPDATE_ENTRY ?k (of_nat (hd (zs @ [0])))"
    let ?cmd2 = "push_cmd (push_cmd ?cmd ?d1) ?d2"
    have r2: "room (push_cmd ?cmd ?d1) (Suc (Suc 0))" using pc(2) [of ?d1] by (simp add: numeral_2_eq_2)
    have r1: "room ?cmd2 (Suc 0)" "cmds_of ?cmd2 = [?d1, ?d2]"
      using push_cmd_facts(1,2) [OF r2, of ?d2] pc(1) [of ?d1] by simp_all
    obtain x3 xs' where x3: "indx_finish (indx_exec [?d1, ?d2] ?x) (iter_at ?k y (hd (zs @ [0]))) = Some x3" "indx_gone ?x xs ?k y x3 xs'"
      by (rule indx_delete_moved [OF rx dx inj cy])
    have ab1: "\<forall>c\<in>set [?d1, ?d2]. d_base_addr c \<in> {dma_type_val IPA_NAT_INDX_TBL, dma_type_val IPA_NAT_INDEX_EXPN_TBL}"
      using ab by auto
    let ?nt1 = "nt\<lparr>nt_table := relink ?t ?j ?k\<rparr>"
    have cp: "ipa_nati_copy_second_index_entry_to_head nt (iter_at 0 ?k y) (push_cmd ?cmd ?d1) = Some (?nt1, ?cmd2)"
      by (rule copy_second [OF rx dx r2 cy jm])
    have c0: "xs c = [] @ ?k # y # zs" using cy by simp
    have nx: "ipa_table_iterator_next index_entry_interface ?x (iter_at 0 ?k y) = Some (0, iter_at ?k y (hd (zs @ [0])))"
      by (rule indx.iterator_next_chain [OF rx c0])
    have go: "del_rule_locked env pd cache nt hdl w = del_rest env pd cache ?nt1 ?it (iter_at ?k y (hd (zs @ [0]))) ?cmd2 w"
      using start True bs' cp nx by simp
    have da: "del_aborted nt ?k = ?nt1" using True bs' nxk ends by (simp add: del_aborted_def Let_def)
    have tt: "relink ?t ?j ?k = (if y = ?k then ?t else relink ?t ?j ?k)" using yk by simp
    show ?thesis
      using del_rest_spec [OF inv df d n i refl b tt ym r1 ab1 x3, of pd w] unfolding go da .
  qed
qed

end
