(* ===== verification/Nat_Service.thy ===== *)
theory Nat_Service
  imports Nat_Rules
begin

unbundle bit_operations_syntax

section \<open>The services of the IPv4 NAT driver\<close>

text \<open>
  The operations that \<open>ipa_nat_drvi.c\<close> exports, on the driver's global state: creating, clearing and
  deleting a table, adding and deleting rules, querying a time stamp. \<open>nat_ready\<close> is the state in which a
  table exists in one of the two caches and its two tables represent the rules \<open>s\<close>; \<open>slot_free\<close> is the
  state in which the cache has no table; what becomes of the memory of tables is counted separately (\<open>table_memory\<close>).
\<close>

subsection \<open>Table handles\<close>

lemma nmi_valid_iff: "IPA_VALID_NAT_MEM_IN n \<longleftrightarrow> n = IPA_NAT_MEM_IN_DDR \<or> n = IPA_NAT_MEM_IN_SRAM"
  by (cases n) (simp_all add: IPA_VALID_NAT_MEM_IN_def)

lemma make_break_tbl_hdl:
  assumes "IPA_VALID_NAT_MEM_IN n"
  shows "BREAK_TBL_HDL (MAKE_TBL_HDL (ucast (h :: u8)) n) = (n, ucast h)"
proof -
  have lo: "(push_bit 31 m OR ucast h) AND 0xFF = (ucast h :: u32)" for m
  proof (rule bit_word_eqI)
    fix j assume "j < LENGTH(32)"
    have m: "(0xFF :: u32) = mask 8" by (simp add: mask_eq_exp_minus_1)
    show "bit ((push_bit 31 m OR ucast h) AND 0xFF) j = bit (ucast h :: u32) j"
      unfolding m using \<open>j < LENGTH(32)\<close> bit_imp_le_length [of h j] by (auto simp: bit_simps)
  qed
  have hi: "drop_bit 31 (push_bit 31 (v :: u32) OR ucast h) AND 1 = v" if "v = 0 \<or> v = 1" for v
  proof (rule bit_word_eqI)
    fix j assume "j < LENGTH(32)"
    then show "bit (drop_bit 31 (push_bit 31 v OR ucast h) AND 1) j = bit v j"
      using that bit_imp_le_length [of h "31 + j"] by (auto simp: bit_simps)
  qed
  from assms consider "n = IPA_NAT_MEM_IN_DDR" | "n = IPA_NAT_MEM_IN_SRAM" unfolding nmi_valid_iff by blast
  then show ?thesis using lo [of "nmi_val n"] hi [of "nmi_val n"]
    by cases (simp_all add: BREAK_TBL_HDL_def MAKE_TBL_HDL_def nmi_of_def)
qed

text \<open>The handle of the only table of a cache.\<close>

abbreviation tbl_hdl_of :: "ipa3_nat_mem_in \<Rightarrow> u32" where
  "tbl_hdl_of n \<equiv> MAKE_TBL_HDL 1 n"

lemma tbl_hdl_of_facts:
  assumes "IPA_VALID_NAT_MEM_IN n"
  shows "BREAK_TBL_HDL (tbl_hdl_of n) = (n, 1)" and "VALID_TBL_HDL (tbl_hdl_of n)"
proof -
  show b: "BREAK_TBL_HDL (tbl_hdl_of n) = (n, 1)" using make_break_tbl_hdl [OF assms, of 1] by simp
  then have "tbl_hdl_of n AND 0xFF = 1" by (simp add: BREAK_TBL_HDL_def)
  then show "VALID_TBL_HDL (tbl_hdl_of n)" by (simp add: VALID_TBL_HDL_def IPA_NAT_MAX_IP4_TBLS_def)
qed

subsection \<open>States of a cache\<close>

abbreviation the_cache :: "nat_globals \<Rightarrow> ipa3_nat_mem_in \<Rightarrow> ipa_nat_cache" where
  "the_cache g n \<equiv> ipv4_nat_cache g ! cache_idx n"

abbreviation the_nt :: "nat_globals \<Rightarrow> ipa3_nat_mem_in \<Rightarrow> ipa_nat_ip4_table_cache" where
  "the_nt g n \<equiv> ip4_tbl (the_cache g n) ! 0"

definition globals_ok :: "nat_globals \<Rightarrow> ipa3_nat_mem_in \<Rightarrow> bool" where
  "globals_ok g n \<longleftrightarrow>
     IPA_VALID_NAT_MEM_IN n \<and> length (ipv4_nat_cache g) = 2 \<and> length (pdns g) = IPA_MAX_PDN_NUM \<and>
     length (ip4_tbl (the_cache g n)) = 1"

definition slot_free :: "nat_globals \<Rightarrow> ipa3_nat_mem_in \<Rightarrow> bool" where
  "slot_free g n \<longleftrightarrow> globals_ok g n \<and> table_cnt (the_cache g n) = 0"

definition represents :: "ipa_nat_ip4_table_cache \<Rightarrow> nat_spec \<Rightarrow> bool" where
  "represents nt s \<longleftrightarrow> (\<exists>cs xs. nat_inv nt cs xs \<and> spec_of nt cs xs = s)"

definition nat_ready :: "nat_globals \<Rightarrow> ipa3_nat_mem_in \<Rightarrow> nat_spec \<Rightarrow> bool" where
  "nat_ready g n s \<longleftrightarrow>
     globals_ok g n \<and> table_cnt (the_cache g n) = 1 \<and> ipa_desc (the_cache g n) \<noteq> None \<and> nc_nmi (the_cache g n) = n \<and>
     valid (mem_desc (the_nt g n)) \<and> nmi (nt_table (the_nt g n)) = n \<and> represents (the_nt g n) s"

definition spec_empty :: nat_spec where
  "spec_empty = \<lparr>sp_rules = (\<lambda>_. None), sp_chain = (\<lambda>_. []), sp_indx_chain = (\<lambda>_. [])\<rparr>"

lemma globals_okD:
  assumes "globals_ok g n"
  shows "IPA_VALID_NAT_MEM_IN n" and "get_cache g n = Some (the_cache g n)" and "cache_idx n < length (ipv4_nat_cache g)"
    and "get_tbl (the_cache g n) 0 = Some (the_nt g n)" and "length (pdns g) = 16"
proof -
  show v: "IPA_VALID_NAT_MEM_IN n" using assms by (simp add: globals_ok_def)
  then have "cache_idx n < 2" unfolding nmi_valid_iff by (auto simp: cache_idx_def)
  then show "cache_idx n < length (ipv4_nat_cache g)" using assms by (simp add: globals_ok_def)
  then show "get_cache g n = Some (the_cache g n)" by (simp add: get_cache_def)
  show "get_tbl (the_cache g n) 0 = Some (the_nt g n)" "length (pdns g) = 16"
    using assms by (simp_all add: globals_ok_def get_tbl_def IPA_MAX_PDN_NUM_def)
qed

definition put_nt :: "nat_globals \<Rightarrow> ipa3_nat_mem_in \<Rightarrow> ipa_nat_ip4_table_cache \<Rightarrow> nat_globals" where
  "put_nt g n nt = put_cache g n (put_tbl (the_cache g n) 0 nt)"

lemma put_nt_facts:
  assumes "globals_ok g n"
  shows "globals_ok (put_nt g n nt) n" and "the_nt (put_nt g n nt) n = nt"
    and "table_cnt (the_cache (put_nt g n nt) n) = table_cnt (the_cache g n)"
    and "ipa_desc (the_cache (put_nt g n nt) n) = ipa_desc (the_cache g n)"
    and "nc_nmi (the_cache (put_nt g n nt) n) = nc_nmi (the_cache g n)" and "pdns (put_nt g n nt) = pdns g"
  using assms globals_okD(3) [OF assms] by (simp_all add: put_nt_def globals_ok_def put_cache_def put_tbl_def)

lemma nat_ready_put:
  assumes "nat_ready g n s" and "kept (the_nt g n) nt" and "represents nt s'"
  shows "nat_ready (put_nt g n nt) n s'"
proof -
  have g: "globals_ok g n" using assms(1) by (simp add: nat_ready_def)
  have "valid (mem_desc nt)" "nmi (nt_table nt) = n"
    using assms(1,2) same_shapeD(1) [of "nt_table (the_nt g n)" "nt_table nt"] by (simp_all add: nat_ready_def kept_def)
  then show ?thesis using assms(1,3) put_nt_facts [OF g, of nt] by (simp add: nat_ready_def)
qed

lemma mutex_works_unlock:
  assumes "mutex_works env"
  obtains w' where "pthread_mutex_unlock env w = (0, w')" and "unlock_ret env ret w = (ret, w')"
proof -
  obtain w' where "pthread_mutex_unlock env w = (0, w')" using assms by (metis mutex_works_def prod.collapse)
  then show thesis using that by (simp add: unlock_ret_def)
qed

subsection \<open>Clearing a table\<close>

lemma nat_inv_empty:
  assumes sh: "nat_shape_ok nt"
    and rt: "tbl_rep (entry_interface []) False (nt_table nt) (\<lambda>_. [])"
    and rx: "tbl_rep index_entry_interface True (nt_index_table nt) (\<lambda>_. [])"
    and z: "\<And>i. i < length (recs (nt_table nt)) \<Longrightarrow> recs (nt_table nt) ! i = 0"
  shows "represents nt spec_empty"
proof -
  have "nat_inv nt (\<lambda>_. []) (\<lambda>_. [])"
    using sh rt rx z by (simp add: nat_inv_def dead_heads_def fresh_rest_def live_of_def members_def link_ok_def)
  moreover have "spec_of nt (\<lambda>_. []) (\<lambda>_. []) = spec_empty"
    by (auto simp: spec_of_def spec_empty_def nat_abs_def nat_chain_def indx_chain_def live_of_def members_def)
  ultimately show ?thesis unfolding represents_def by blast
qed

lemma reset_counted_eq: "reset_counted t = ipa_table_reset (t\<lparr>cur_tbl_cnt := 0, cur_expn_tbl_cnt := 0\<rparr>)"
  by (simp add: reset_counted_def ipa_table_reset_def)

lemma reset_counted_shape: "same_shape t (reset_counted t)"
  by (simp add: reset_counted_def ipa_table_reset_def same_shape_def)

lemma reset_counted_rep:
  shows "tbl_ok False t \<Longrightarrow> tbl_rep (entry_interface []) False (reset_counted t) (\<lambda>_. [])"
    and "tbl_ok True x \<Longrightarrow> tbl_rep index_entry_interface True (reset_counted x) (\<lambda>_. [])"
  unfolding reset_counted_eq
  by (rule nat.reset_rep indx.reset_rep; simp add: tbl_ok_def table_dims_ok_def)+

lemma clear_represents:
  assumes "nat_inv nt cs xs"
  defines "nt' \<equiv> nt\<lparr>nt_table := reset_counted (nt_table nt), nt_index_table := reset_counted (nt_index_table nt)\<rparr>"
  shows "represents nt' spec_empty" and "kept nt nt'"
proof -
  note nv = nat_invD [OF assms(1)]
  show "represents nt' spec_empty"
  proof (rule nat_inv_empty)
    show "nat_shape_ok nt'" unfolding nt'_def by (rule nat_shape_cong [OF nv(1) reset_counted_shape reset_counted_shape])
    show "tbl_rep (entry_interface []) False (nt_table nt') (\<lambda>_. [])"
      "tbl_rep index_entry_interface True (nt_index_table nt') (\<lambda>_. [])"
      using reset_counted_rep tbl_repD(1) [OF nv(2)] tbl_repD(1) [OF nv(3)] by (simp_all add: nt'_def)
    show "recs (nt_table nt') ! i = 0" if "i < length (recs (nt_table nt'))" for i
      using that by (simp add: nt'_def reset_counted_def ipa_table_reset_def)
  qed
  show "kept nt nt'" by (simp add: kept_def nt'_def reset_counted_shape)
qed

lemma clear_tbl_ready:
  assumes r: "nat_ready g n s" and m: "mutex_works env"
  obtains g' w' where "ipa_NATI_clear_ipv4_tbl env g (tbl_hdl_of n) w = Some (0, g', w')" and "nat_ready g' n spec_empty"
proof -
  have g: "globals_ok g n" using r by (simp add: nat_ready_def)
  note gd = globals_okD [OF g]
  obtain cs xs where inv: "nat_inv (the_nt g n) cs xs" using r by (auto simp: nat_ready_def represents_def)
  let ?nt = "(the_nt g n)\<lparr>nt_table := reset_counted (nt_table (the_nt g n)), nt_index_table := reset_counted (nt_index_table (the_nt g n))\<rparr>"
  obtain w1 where w1: "pthread_mutex_lock env w = (0, w1)" using mutex_works_lock [OF m] .
  obtain w2 where w2: "unlock_ret env 0 w1 = (0, w2)" using mutex_works_unlock [OF m] .
  have "ipa_NATI_clear_ipv4_tbl env g (tbl_hdl_of n) w = Some (0, put_nt g n ?nt, w2)"
    using r gd(1,2,4) w1 w2 tbl_hdl_of_facts(1) [OF gd(1)]
    by (simp add: ipa_NATI_clear_ipv4_tbl_def nat_ready_def put_nt_def Let_def)
  moreover have "nat_ready (put_nt g n ?nt) n spec_empty"
    by (rule nat_ready_put [OF r]) (use clear_represents [OF inv] in simp_all)
  ultimately show thesis by (rule that)
qed

subsection \<open>Creating and deleting a table\<close>

lemma new_table_reps:
  assumes dims: "table_dims_ok t" and n: "nmi t \<noteq> IPA_NAT_MEM_IN_MAX" and e: "entry_size t = 32" "meta t = None"
      "cur_tbl_cnt t = 0" "cur_expn_tbl_cnt t = 0"
    and x: "x = (ipa_table_init nm (nmi t) 4 (Some (replicate (unat (expn_table_entries t)) 0)) 2)
                \<lparr>table_entries := table_entries t, expn_table_entries := expn_table_entries t, tot_tbl_ents := tot_tbl_ents t\<rparr>"
    and a: "ipa_table_calculate_addresses t ba = (ba2, t2)" "ipa_table_calculate_addresses x ba2 = (ba3, x2)"
    and md: "addr_offset md = 0"
    and nt_def: "nt = ipa_nati_create_table_dma_cmd_helpers
     (nt0\<lparr>mem_desc := md, nt_table := ipa_table_reset t2, nt_index_table := ipa_table_reset x2\<rparr>) idx"
  shows "represents nt spec_empty" and "nmi (nt_table nt) = nmi t" and "mem_desc nt = md"
proof -
  have t2: "t2 = t\<lparr>table_addr := ba, expn_table_addr := ba + of_nat (32 * base_n t)\<rparr>"
    and x2: "x2 = x\<lparr>table_addr := ba2, expn_table_addr := ba2 + of_nat (4 * base_n x)\<rparr>"
    using a e(1) x by (auto simp: ipa_table_calculate_addresses_def Let_def ipa_table_init_def)
  have rt: "tbl_rep (entry_interface []) False (ipa_table_reset (t2\<lparr>dma_help := h\<rparr>)) (\<lambda>_. [])" for h
    by (rule nat.reset_rep) (use dims n e in \<open>simp_all add: t2 meta_ok_def table_dims_ok_def\<close>)
  have rx: "tbl_rep index_entry_interface True (ipa_table_reset (x2\<lparr>dma_help := h\<rparr>)) (\<lambda>_. [])" for h
    by (rule indx.reset_rep) (use dims n x in \<open>simp_all add: x2 meta_ok_def table_dims_ok_def ipa_table_init_def\<close>)
  obtain ht hx where nt: "nt_table nt = ipa_table_reset (t2\<lparr>dma_help := ht\<rparr>)" "nt_index_table nt = ipa_table_reset (x2\<lparr>dma_help := hx\<rparr>)"
    "length ht = 3" "length hx = 3" "helper_ok IPA_NAT_BASE_TBL IPA_NAT_EXPN_TBL 18 (ht ! 0)"
    "helper_ok IPA_NAT_BASE_TBL IPA_NAT_EXPN_TBL 8 (ht ! 1)" "helper_ok IPA_NAT_BASE_TBL IPA_NAT_EXPN_TBL 22 (ht ! 2)"
    "helper_ok IPA_NAT_INDX_TBL IPA_NAT_INDEX_EXPN_TBL 0 (hx ! 0)" "helper_ok IPA_NAT_INDX_TBL IPA_NAT_INDEX_EXPN_TBL 2 (hx ! 1)"
    "helper_ok IPA_NAT_INDX_TBL IPA_NAT_INDEX_EXPN_TBL 0 (hx ! 2)"
    unfolding nt_def using md
    by (simp add: ipa_nati_create_table_dma_cmd_helpers_def Let_def reset_help helper_ok_def ipa_table_dma_cmd_helper_init_def
        IPA_NAT_RULE_FLAG_FIELD_OFFSET_def IPA_NAT_RULE_NEXT_FIELD_OFFSET_def IPA_NAT_RULE_PROTO_FIELD_OFFSET_def
        IPA_NAT_INDEX_RULE_NEXT_FIELD_OFFSET_def IPA_NAT_INDEX_RULE_NAT_INDEX_FIELD_OFFSET_def)
  show "represents nt spec_empty"
  proof (rule nat_inv_empty)
    show "nat_shape_ok nt" using nt e(1) x
      by (simp add: nat_shape_ok_def dma_ok_def ipa_table_reset_def t2 x2 ipa_table_init_def)
    show "recs (nt_table nt) ! i = 0" if "i < length (recs (nt_table nt))" for i
      using that by (simp add: nt(1) ipa_table_reset_def)
  qed (simp_all only: nt(1,2) rt rx)
  show "nmi (nt_table nt) = nmi t" by (simp add: nt(1) ipa_table_reset_def t2)
  show "mem_desc nt = md" by (simp add: nt_def ipa_nati_create_table_dma_cmd_helpers_def Let_def)
qed

lemma create_table_spec:
  assumes d: "ipa_desc cache = Some d" and v: "IPA_VALID_NAT_MEM_IN (nc_nmi cache)" and z: "alloc_at_zero env"
  obtains ret nt' w' where "ipa_nati_create_table env cache nt ip num idx w = Some (ret, nt', w')"
    and "ret = 0 \<Longrightarrow> valid (mem_desc nt') \<and> represents nt' spec_empty \<and> nmi (nt_table nt') = nc_nmi cache"
proof -
  let ?n = "nc_nmi cache"
  have nmax: "?n \<noteq> IPA_NAT_MEM_IN_MAX" using v by (auto simp: nmi_valid_iff)
  define t0 :: "ipa_nat_rule ipa_table" where "t0 = ipa_table_init IPA_NAT_TABLE_NAME ?n IPA_NAT_RULE_SIZE None 0"
  obtain r t where c: "ipa_table_calculate_entries_num t0 num ?n = Some (r, t)"
    using calculate_entries_num_eq [of t0 num ?n] by (metis surj_pair)
  show thesis
  proof (cases "r = 0")
    case False
    then show thesis using that c by (simp add: ipa_nati_create_table_def t0_def)
  next
    case r: True
    note ok = calculate_entries_num_ok [OF c [unfolded r]]
    have e: "nmi t = ?n" "entry_size t = 32" "meta t = None" "cur_tbl_cnt t = 0" "cur_expn_tbl_cnt t = 0"
      using c r by (auto simp: calculate_entries_num_eq Let_def t0_def ipa_table_init_def IPA_NAT_RULE_SIZE_def errno_defs split: if_splits)
    obtain al w1 where al: "os_calloc env (unat (expn_table_entries t)) w = (al, w1)" by (metis surj_pair)
    define x where "x = (ipa_table_init IPA_NAT_INDEX_TABLE_NAME ?n 4 (Some (replicate (unat (expn_table_entries t)) 0)) 2 :: ipa_nat_indx_tbl_rule ipa_table)
                \<lparr>table_entries := table_entries t, expn_table_entries := expn_table_entries t, tot_tbl_ents := tot_tbl_ents t\<rparr>"
    define md where "md = ipa_mem_descriptor_init (mem_desc nt) IPA_NAT_DEV_NAME (ipa_table_calculate_size t + ipa_table_calculate_size x) idx
                      IPA_IOC_ALLOC_NAT_TABLE IPA_IOC_DEL_NAT_TABLE True"
    obtain r2 md2 w2 where am: "ipa_mem_descriptor_allocate_memory env md (fd d) w1 = ((r2, md2), w2)" by (metis surj_pair)
    obtain ba t2 where a1: "ipa_table_calculate_addresses t (base_addr md2) = (ba, t2)" by (metis surj_pair)
    obtain bb x2 where a2: "ipa_table_calculate_addresses x ba = (bb, x2)" by (metis surj_pair)
    let ?ntb = "nt\<lparr>public_addr := ip, nt_table := t\<rparr>"
    let ?nt = "ipa_nati_create_table_dma_cmd_helpers
       (?ntb\<lparr>mem_desc := md2, nt_table := ipa_table_reset t2, nt_index_table := ipa_table_reset x2\<rparr>) idx"
    have eq: "ipa_nati_create_table env cache nt ip num idx w =
        (if \<not> al then Some (- ENOMEM, ?ntb, w1) else if r2 \<noteq> 0 then Some (r2, nat_table_zero, w2) else Some (0, ?nt, w2))"
      using c r al am a1 a2 d
      by (cases al; cases "r2 = 0") (simp_all add: ipa_nati_create_table_def t0_def x_def md_def IPA_NAT_INDX_RULE_SIZE_def)
    show thesis
    proof (cases "al \<and> r2 = 0")
      case True
      note mo = allocate_memory_ok [OF am [unfolded True [THEN conjunct2]] z]
      have xe: "x = (ipa_table_init IPA_NAT_INDEX_TABLE_NAME (nmi t) 4 (Some (replicate (unat (expn_table_entries t)) 0)) 2)
                \<lparr>table_entries := table_entries t, expn_table_entries := expn_table_entries t, tot_tbl_ents := tot_tbl_ents t\<rparr>"
        by (simp add: x_def e(1))
      note nr = new_table_reps [OF ok(1) _ e(2-5) xe a1 a2 mo(2) refl, of ?ntb idx]
      show thesis by (rule that [of 0 ?nt w2]) (use eq True nr nmax e(1) mo(1) in simp_all)
    next
      case False
      then show thesis using that eq by (cases al) (simp_all add: errno_defs)
    qed
  qed
qed

text \<open>
  A new table, whatever the environment answers: either all steps succeed and the cache holds an empty
  table, or the slot stays free.
\<close>

lemma add_tbl_slot:
  assumes s: "slot_free g n" and z: "alloc_at_zero env" and m: "mutex_works env"
  shows "\<exists>ret g' hdl w'. ipa_NATI_add_ipv4_tbl env g n ip num w = Some (ret, g', hdl, w') \<and>
           (if ret = 0 then hdl = tbl_hdl_of n \<and> nat_ready g' n spec_empty \<and> active_nat_cache g' = Some n \<and>
                 p_public_ip (pdns g' ! 0) = ip \<and> num_pdns g' = 1
            else hdl = 0 \<and> slot_free g' n)"
proof -
  have g: "globals_ok g n" and tc: "table_cnt (the_cache g n) = 0" using s by (simp_all add: slot_free_def)
  note gd = globals_okD [OF g]
  have len: "length (ip4_tbl (the_cache g n)) = 1" "length (ipv4_nat_cache g) = 2" using g by (simp_all add: globals_ok_def)
  obtain w1 where w1: "pthread_mutex_lock env w = (0, w1)" using mutex_works_lock [OF m] .
  define c0 where "c0 = (the_cache g n)\<lparr>nc_nmi := n\<rparr>"
  obtain desc w2 where ds: "(case ipa_desc c0 of Some d \<Rightarrow> (Some d, w1) | None \<Rightarrow> ipa_descriptor_open env w1) = (desc, w2)"
    by (metis surj_pair)
  have fin: "\<exists>w'. pthread_mutex_unlock env w3 = (0, w')" for w3 using mutex_works_unlock [OF m] by metis
  have put: "slot_free (put_cache g n c) n" if "table_cnt c = 0" "length (ip4_tbl c) = 1" for c
    using that g gd(3) by (simp add: slot_free_def globals_ok_def put_cache_def)
  show ?thesis
  proof (cases desc)
    case None
    obtain w3 where "pthread_mutex_unlock env w2 = (0, w3)" using fin by blast
    then have "ipa_NATI_add_ipv4_tbl env g n ip num w = Some (- EIO, put_cache g n (c0\<lparr>ipa_desc := None\<rparr>), 0, w3)"
      using gd w1 ds None tc by (simp add: ipa_NATI_add_ipv4_tbl_def IPA_NAT_MAX_IP4_TBLS_def c0_def Let_def)
    then show ?thesis using put [of "c0\<lparr>ipa_desc := None\<rparr>"] tc len by (simp add: errno_defs c0_def)
  next
    case (Some d)
    define c1 where "c1 = c0\<lparr>ipa_desc := Some d\<rparr>"
    obtain ret nt' w3 where cr: "ipa_nati_create_table env c1 (the_nt g n) ip num 0 w2 = Some (ret, nt', w3)"
      and ok: "ret = 0 \<Longrightarrow> valid (mem_desc nt') \<and> represents nt' spec_empty \<and> nmi (nt_table nt') = nc_nmi c1"
      by (rule create_table_spec [of c1 d env "the_nt g n" ip num 0 w2]) (use gd(1) z in \<open>simp_all add: c1_def c0_def\<close>)
    have tc1: "table_cnt c1 = 0" "ipa_desc c1 = Some d" "nc_nmi c1 = n" "ip4_tbl c1 = ip4_tbl (the_cache g n)"
      using tc by (simp_all add: c1_def c0_def)
    have gt: "get_tbl c1 0 = Some (the_nt g n)" using gd(4) by (simp add: get_tbl_def tc1)
    obtain r2 w4 where pi: "ipa_nati_post_ipv4_init_cmd env c1 nt' 0 False w3 = Some (r2, w4)"
      using tc1(2) by (simp add: ipa_nati_post_ipv4_init_cmd_def Let_def) (metis surj_pair)
    obtain r3 w5 where de: "ipa_nati_destroy_table env c1 nt' w4 = Some (r3, nat_table_zero, w5)"
      using tc1(2) by (simp add: ipa_nati_destroy_table_def split_def Let_def)
    define res where "res = (if ret \<noteq> 0 then (ret, nt', w3) else if r2 \<noteq> 0 then (r2, nat_table_zero, w5) else (0, nt', w4))"
    obtain rf ntf wf where rs: "res = (rf, ntf, wf)" by (cases res) auto
    let ?c2 = "put_tbl c1 0 ntf"
    note run = gd(1,2) w1 ds [unfolded Some c0_def] tc gt [unfolded c1_def c0_def] cr [unfolded c1_def c0_def]
      pi [unfolded c1_def c0_def] de [unfolded c1_def c0_def] IPA_NAT_MAX_IP4_TBLS_def put_tbl_def Let_def
    show ?thesis
    proof (cases "rf = 0")
      case False
      let ?w = "ipa_descriptor_close env (Some d) wf"
      obtain wu where "pthread_mutex_unlock env ?w = (0, wu)" using fin by blast
      then have "ipa_NATI_add_ipv4_tbl env g n ip num w = Some (rf, put_cache g n (?c2\<lparr>ipa_desc := None\<rparr>), 0, wu)"
        using run False rs by (cases "ret = 0"; cases "r2 = 0") (auto simp: ipa_NATI_add_ipv4_tbl_def res_def c1_def c0_def)
      moreover have "slot_free (put_cache g n (?c2\<lparr>ipa_desc := None\<rparr>)) n"
        by (rule put) (use tc1 len in \<open>simp_all add: put_tbl_def\<close>)
      ultimately show ?thesis using False by simp
    next
      case True
      then have r0: "ret = 0" "r2 = 0" "ntf = nt'" "wf = w4" using rs by (auto simp: res_def split: if_splits)
      obtain wu where un: "pthread_mutex_unlock env w4 = (0, wu)" using fin by blast
      let ?c3 = "(put_tbl c1 0 nt')\<lparr>table_cnt := 1\<rparr>"
      let ?g = "g\<lparr>active_nat_cache := Some n, pdns := (pdns g)[0 := (pdns g ! 0)\<lparr>p_public_ip := ip\<rparr>], num_pdns := 1\<rparr>"
      have p0: "mem_read (pdns g) 0 = Some (pdns g ! 0)" using gd(5) by simp
      have "ipa_NATI_add_ipv4_tbl env g n ip num w = Some (0, put_cache ?g n ?c3, tbl_hdl_of n, wu)"
        using run r0 un p0 by (simp add: ipa_NATI_add_ipv4_tbl_def c1_def c0_def)
      moreover have "nat_ready (put_cache ?g n ?c3) n spec_empty"
        using ok [OF r0(1)] gd(1,3,5) len tc1
        by (simp add: nat_ready_def globals_ok_def put_cache_def put_tbl_def IPA_MAX_PDN_NUM_def)
      ultimately show ?thesis using gd(5) by (simp add: put_cache_def)
    qed
  qed
qed

text \<open>Deleting a table frees the slot, unless the kernel refuses to release the memory.\<close>

definition wedged :: "nat_globals \<Rightarrow> ipa3_nat_mem_in \<Rightarrow> bool" where
  "wedged g n \<longleftrightarrow> globals_ok g n \<and> table_cnt (the_cache g n) = 1 \<and> \<not> valid (mem_desc (the_nt g n))"

lemma nat_table_zero_invalid [simp]: "\<not> valid (mem_desc nat_table_zero)"
  by (simp add: nat_table_zero_def mem_descriptor_zero_def)

lemma del_table_slot:
  assumes r: "nat_ready g n s" and m: "mutex_works env"
  shows "\<exists>ret g' w'. ipa_NATI_del_ipv4_table env g (tbl_hdl_of n) w = Some (ret, g', w') \<and>
           (if ret = 0 then slot_free g' n \<and> ipa_desc (the_cache g' n) = None else wedged g' n)"
proof -
  have g: "globals_ok g n" using r by (simp add: nat_ready_def)
  note gd = globals_okD [OF g]
  have len: "length (ip4_tbl (the_cache g n)) = 1" "length (ipv4_nat_cache g) = 2" "table_cnt (the_cache g n) = 1"
    "valid (mem_desc (the_nt g n))" using g r by (simp_all add: globals_ok_def nat_ready_def)
  obtain d where d: "ipa_desc (the_cache g n) = Some d" using r by (auto simp: nat_ready_def)
  obtain w1 where w1: "pthread_mutex_lock env w = (0, w1)" using mutex_works_lock [OF m] .
  obtain r2 w2 where de: "ipa_nati_destroy_table env (the_cache g n) (the_nt g n) w1 = Some (r2, nat_table_zero, w2)"
    using d by (simp add: ipa_nati_destroy_table_def split_def Let_def)
  have put: "globals_ok (put_cache g n c) n" "the_cache (put_cache g n c) n = c" if "length (ip4_tbl c) = 1" for c
    using that g gd(3) by (simp_all add: globals_ok_def put_cache_def)
  let ?c = "put_tbl (the_cache g n) 0 nat_table_zero"
  show ?thesis
  proof (cases "r2 = 0")
    case True
    let ?w = "ipa_descriptor_close env (Some d) w2" and ?c2 = "?c\<lparr>table_cnt := 0, ipa_desc := None\<rparr>"
    obtain w3 where "unlock_ret env 0 ?w = (0, w3)" using mutex_works_unlock [OF m] .
    then have "ipa_NATI_del_ipv4_table env g (tbl_hdl_of n) w = Some (0, put_cache g n ?c2, w3)"
      using gd(1,2,4) w1 de True d len tbl_hdl_of_facts(1) [OF gd(1)]
      by (simp add: ipa_NATI_del_ipv4_table_def put_tbl_def)
    then show ?thesis using put [of ?c2] len by (simp add: slot_free_def put_tbl_def)
  next
    case False
    obtain w3 where "unlock_ret env r2 w2 = (r2, w3)" using mutex_works_unlock [OF m] .
    then have "ipa_NATI_del_ipv4_table env g (tbl_hdl_of n) w = Some (r2, put_cache g n ?c, w3)"
      using gd(1,2,4) w1 de False d len tbl_hdl_of_facts(1) [OF gd(1)]
      by (simp add: ipa_NATI_del_ipv4_table_def)
    then show ?thesis using put [of ?c] len False by (simp add: wedged_def put_tbl_def)
  qed
qed

text \<open>Nothing brings a wedged slot back: a new table is refused, and so is the deletion.\<close>

lemma wedged_add:
  assumes "wedged g n" and m: "mutex_works env"
  shows "\<exists>g' w'. ipa_NATI_add_ipv4_tbl env g n ip num w = Some (- EINVAL, g', 0, w') \<and> wedged g' n"
proof -
  have g: "globals_ok g n" "table_cnt (the_cache g n) = 1" "\<not> valid (mem_desc (the_nt g n))"
    using assms(1) by (simp_all add: wedged_def)
  note gd = globals_okD [OF g(1)]
  obtain w1 where w1: "pthread_mutex_lock env w = (0, w1)" using mutex_works_lock [OF m] .
  obtain w2 where w2: "pthread_mutex_unlock env w1 = (0, w2)" using mutex_works_unlock [OF m] by metis
  have "ipa_NATI_add_ipv4_tbl env g n ip num w = Some (- EINVAL, put_cache g n ((the_cache g n)\<lparr>nc_nmi := n\<rparr>), 0, w2)"
    using gd(1,2) g w1 w2 by (simp add: ipa_NATI_add_ipv4_tbl_def IPA_NAT_MAX_IP4_TBLS_def)
  then show ?thesis using g gd(3) by (simp add: wedged_def globals_ok_def put_cache_def)
qed

lemma wedged_del:
  assumes "wedged g n" and m: "mutex_works env"
  shows "\<exists>w'. ipa_NATI_del_ipv4_table env g (tbl_hdl_of n) w = Some (- EINVAL, g, w')"
proof -
  have g: "globals_ok g n" "table_cnt (the_cache g n) = 1" "\<not> valid (mem_desc (the_nt g n))"
    using assms(1) by (simp_all add: wedged_def)
  note gd = globals_okD [OF g(1)]
  obtain w1 where w1: "pthread_mutex_lock env w = (0, w1)" using mutex_works_lock [OF m] .
  obtain w2 where w2: "unlock_ret env (- EINVAL) w1 = (- EINVAL, w2)" using mutex_works_unlock [OF m] .
  show ?thesis using gd(1,2,4) g w1 w2 tbl_hdl_of_facts(1) [OF gd(1)] by (simp add: ipa_NATI_del_ipv4_table_def)
qed

subsection \<open>The memory of the tables\<close>

text \<open>
  \<open>cnt\<close> counts the blocks of table memory that the kernel holds: a successful allocation request adds one, a successful
  deletion request takes one away, and no other call that creating and destroying a table makes changes it.
\<close>

definition table_memory :: "('w, 'm) ipa_env_scheme \<Rightarrow> ('w \<Rightarrow> int) \<Rightarrow> bool" where
  "table_memory env cnt \<longleftrightarrow>
     (\<forall>num f sz w r off w'. ioctl_alloc env num f sz w = ((r, off), w') \<longrightarrow> cnt w' = cnt w + of_bool (r = 0)) \<and>
     (\<forall>num f i m w r w'. ioctl_del env num f i m w = (r, w') \<longrightarrow> cnt w' = cnt w - of_bool (r = 0)) \<and>
     (\<forall>w r w'. pthread_mutex_lock env w = (r, w') \<longrightarrow> cnt w' = cnt w) \<and>
     (\<forall>w r w'. pthread_mutex_unlock env w = (r, w') \<longrightarrow> cnt w' = cnt w) \<and>
     (\<forall>p w r w'. os_open env p w = (r, w') \<longrightarrow> cnt w' = cnt w) \<and> (\<forall>f w r w'. os_close env f w = (r, w') \<longrightarrow> cnt w' = cnt w) \<and>
     (\<forall>s f w a w'. os_mmap env s f w = (a, w') \<longrightarrow> cnt w' = cnt w) \<and> (\<forall>a s w. cnt (os_munmap env a s w) = cnt w) \<and>
     (\<forall>k w b w'. os_calloc env k w = (b, w') \<longrightarrow> cnt w' = cnt w) \<and>
     (\<forall>f w v w'. ioctl_hw_version env f w = (v, w') \<longrightarrow> cnt w' = cnt w) \<and>
     (\<forall>f w v w'. ioctl_sram_info env f w = (v, w') \<longrightarrow> cnt w' = cnt w) \<and>
     (\<forall>f c w r w'. ioctl_v4_init env f c w = (r, w') \<longrightarrow> cnt w' = cnt w)"

text \<open>The kernel refuses no request to release a table's memory.\<close>

definition releases_accepted :: "('w, 'm) ipa_env_scheme \<Rightarrow> bool" where
  "releases_accepted env \<longleftrightarrow> (\<forall>num f i m w. fst (ioctl_del env num f i m w) = 0)"

lemma table_memoryD:
  assumes "table_memory env cnt"
  shows "ioctl_alloc env num f sz w = ((r, off), w') \<Longrightarrow> cnt w' = cnt w + of_bool (r = 0)"
    and "ioctl_del env num f i m w = (r, w') \<Longrightarrow> cnt w' = cnt w - of_bool (r = 0)"
    and "pthread_mutex_lock env w = (r, w') \<Longrightarrow> cnt w' = cnt w" and "pthread_mutex_unlock env w = (r, w') \<Longrightarrow> cnt w' = cnt w"
    and "os_open env p w = (r, w') \<Longrightarrow> cnt w' = cnt w" and "os_close env f w = (r, w') \<Longrightarrow> cnt w' = cnt w"
    and "os_mmap env s f w = (a, w') \<Longrightarrow> cnt w' = cnt w" and "cnt (os_munmap env b s w) = cnt w"
    and "os_calloc env k w = (al, w') \<Longrightarrow> cnt w' = cnt w" and "ioctl_hw_version env f w = (v, w') \<Longrightarrow> cnt w' = cnt w"
    and "ioctl_sram_info env f w = (y, w') \<Longrightarrow> cnt w' = cnt w" and "ioctl_v4_init env f cm w = (r, w') \<Longrightarrow> cnt w' = cnt w"
proof -
  note t = assms [unfolded table_memory_def]
  show "ioctl_alloc env num f sz w = ((r, off), w') \<Longrightarrow> cnt w' = cnt w + of_bool (r = 0)"
    by (rule t [THEN conjunct1, rule_format])
  show "ioctl_del env num f i m w = (r, w') \<Longrightarrow> cnt w' = cnt w - of_bool (r = 0)"
    by (rule t [THEN conjunct2, THEN conjunct1, rule_format])
  show "pthread_mutex_lock env w = (r, w') \<Longrightarrow> cnt w' = cnt w"
    by (rule t [THEN conjunct2, THEN conjunct2, THEN conjunct1, rule_format])
  show "pthread_mutex_unlock env w = (r, w') \<Longrightarrow> cnt w' = cnt w"
    by (rule t [THEN conjunct2, THEN conjunct2, THEN conjunct2, THEN conjunct1, rule_format])
  show "os_open env p w = (r, w') \<Longrightarrow> cnt w' = cnt w"
    by (rule t [THEN conjunct2, THEN conjunct2, THEN conjunct2, THEN conjunct2, THEN conjunct1, rule_format])
  show "os_close env f w = (r, w') \<Longrightarrow> cnt w' = cnt w"
    by (rule t [THEN conjunct2, THEN conjunct2, THEN conjunct2, THEN conjunct2, THEN conjunct2, THEN conjunct1, rule_format])
  show "os_mmap env s f w = (a, w') \<Longrightarrow> cnt w' = cnt w"
    by (rule t [THEN conjunct2, THEN conjunct2, THEN conjunct2, THEN conjunct2, THEN conjunct2, THEN conjunct2, THEN conjunct1, rule_format])
  show "cnt (os_munmap env b s w) = cnt w"
    by (rule t [THEN conjunct2, THEN conjunct2, THEN conjunct2, THEN conjunct2, THEN conjunct2, THEN conjunct2, THEN conjunct2, THEN conjunct1, rule_format])
  show "os_calloc env k w = (al, w') \<Longrightarrow> cnt w' = cnt w"
    by (rule t [THEN conjunct2, THEN conjunct2, THEN conjunct2, THEN conjunct2, THEN conjunct2, THEN conjunct2, THEN conjunct2, THEN conjunct2, THEN conjunct1, rule_format])
  show "ioctl_hw_version env f w = (v, w') \<Longrightarrow> cnt w' = cnt w"
    by (rule t [THEN conjunct2, THEN conjunct2, THEN conjunct2, THEN conjunct2, THEN conjunct2, THEN conjunct2, THEN conjunct2, THEN conjunct2, THEN conjunct2, THEN conjunct1, rule_format])
  show "ioctl_sram_info env f w = (y, w') \<Longrightarrow> cnt w' = cnt w"
    by (rule t [THEN conjunct2, THEN conjunct2, THEN conjunct2, THEN conjunct2, THEN conjunct2, THEN conjunct2, THEN conjunct2, THEN conjunct2, THEN conjunct2, THEN conjunct2, THEN conjunct1, rule_format])
  show "ioctl_v4_init env f cm w = (r, w') \<Longrightarrow> cnt w' = cnt w"
    by (rule t [THEN conjunct2, THEN conjunct2, THEN conjunct2, THEN conjunct2, THEN conjunct2, THEN conjunct2, THEN conjunct2, THEN conjunct2, THEN conjunct2, THEN conjunct2, THEN conjunct2, rule_format])
qed

lemma release_counts:
  assumes "table_memory env cnt" and "releases_accepted env" and "ioctl_del env num f i m w = (r, w')"
  shows "r = 0 \<and> cnt w' = cnt w - 1"
proof -
  have "r = 0" using assms(2,3) unfolding releases_accepted_def by (metis fst_conv)
  then show ?thesis using table_memoryD(2) [OF assms(1,3)] by simp
qed

lemma allocate_counts:
  assumes t: "table_memory env cnt" and a: "ipa_mem_descriptor_allocate_memory env md f w = ((r, md'), w')"
  shows "r = 0 \<Longrightarrow> cnt w' = cnt w + 1" and "r \<noteq> 0 \<Longrightarrow> releases_accepted env \<Longrightarrow> cnt w' = cnt w"
proof -
  have alloc: "cnt w1 = cnt w + of_bool (r1 = 0)" if "AllocateMemory env md f w = ((r1, md1), w1)" for r1 md1 w1
    using that by (auto simp: AllocateMemory_def Let_def split: prod.splits if_splits dest!: table_memoryD(1,11) [OF t])
  have map: "cnt w2 = cnt w1" if "MapMemory env md1 f w1 = ((r2, md2), w2)" for md1 w1 r2 md2 w2
    using that by (auto simp: MapMemory_def Let_def split: prod.splits if_splits dest!: table_memoryD(5-7) [OF t])
  have del: "releases_accepted env \<Longrightarrow> cnt w2 = cnt w1 - 1" if "DeallocateMemory env md1 f w1 = (r2, w2)" for md1 w1 r2 w2
    using that release_counts [OF t] by (simp add: DeallocateMemory_def)
  show "r = 0 \<Longrightarrow> cnt w' = cnt w + 1" and "r \<noteq> 0 \<Longrightarrow> releases_accepted env \<Longrightarrow> cnt w' = cnt w"
    using a by (auto simp: ipa_mem_descriptor_allocate_memory_def split: prod.splits if_splits dest!: alloc map del)
qed

lemma allocate_valid: "ipa_mem_descriptor_allocate_memory env md f w = ((0, md'), w') \<Longrightarrow> valid md'"
  by (auto simp: ipa_mem_descriptor_allocate_memory_def split: prod.splits if_splits)

lemma create_table_counts:
  assumes t: "table_memory env cnt" and c: "ipa_nati_create_table env cache nt ip num idx w = Some (r, nt', w')"
  shows "r = 0 \<Longrightarrow> cnt w' = cnt w + 1 \<and> valid (mem_desc nt')" and "r \<noteq> 0 \<Longrightarrow> releases_accepted env \<Longrightarrow> cnt w' = cnt w"
  using c
  by (auto simp: ipa_nati_create_table_def ipa_nati_create_table_dma_cmd_helpers_def Let_def errno_defs
      split: prod.splits if_splits bind_splits option.splits
      dest!: table_memoryD(9) [OF t] dest: allocate_counts [OF t] allocate_valid)

lemma destroy_table_counts:
  assumes t: "table_memory env cnt" and "ipa_nati_destroy_table env cache nt w = Some (r, nt', w')"
    and "valid (mem_desc nt)" and a: "releases_accepted env"
  shows "cnt w' = cnt w - 1"
  using assms(2,3)
  by (auto simp: ipa_nati_destroy_table_def ipa_mem_descriptor_delete_def DeallocateMemory_def table_memoryD(8) [OF t]
      split: prod.splits if_splits bind_splits option.splits dest!: release_counts [OF t a])

lemma post_init_counts:
  assumes t: "table_memory env cnt" and "ipa_nati_post_ipv4_init_cmd env cache nt idx fc w = Some (r, w')"
  shows "cnt w' = cnt w"
  using assms(2) by (auto simp: ipa_nati_post_ipv4_init_cmd_def Let_def split: bind_splits option.splits dest: table_memoryD(12) [OF t])

lemma descriptor_counts:
  assumes t: "table_memory env cnt"
  shows "ipa_descriptor_open env w = (d, w') \<Longrightarrow> cnt w' = cnt w" and "cnt (ipa_descriptor_close env d w) = cnt w"
  by (auto simp: ipa_descriptor_open_def ipa_descriptor_close_def split: prod.splits if_splits option.splits dest!: table_memoryD(5,9,10) [OF t])
    (metis prod.collapse table_memoryD(6) [OF t])

text \<open>Creating a table takes one block of table memory when it succeeds, and gives back what it took when it fails.\<close>

lemma add_tbl_counts:
  assumes t: "table_memory env cnt" and m: "mutex_works env"
    and a: "ipa_NATI_add_ipv4_tbl env g n ip num w = Some (r, g', h, w')"
  shows "(r = 0 \<longrightarrow> cnt w' = cnt w + 1) \<and> (r \<noteq> 0 \<and> releases_accepted env \<longrightarrow> cnt w' = cnt w)"
proof -
  have l: "u = 0 \<and> cnt w1 = cnt w" if "pthread_mutex_lock env w = (u, w1)" for u w w1
    using that m table_memoryD(3) [OF t that] unfolding mutex_works_def by (metis fst_conv)
  have u: "u = 0 \<and> cnt w1 = cnt w" if "pthread_mutex_unlock env w = (u, w1)" for u w w1
    using that m table_memoryD(4) [OF t that] unfolding mutex_works_def by (metis fst_conv)
  have desc: "cnt w2 = cnt w1" if "(case d of Some d \<Rightarrow> (Some d, w1) | None \<Rightarrow> ipa_descriptor_open env w1) = (d', w2)" for d d' w1 w2
    using that by (auto split: option.splits dest: descriptor_counts(1) [OF t])
  have cr: "(r = 0 \<longrightarrow> cnt w' = cnt w + 1 \<and> valid (mem_desc nt')) \<and> (r \<noteq> 0 \<and> releases_accepted env \<longrightarrow> cnt w' = cnt w)"
    if "ipa_nati_create_table env cache nt ip num idx w = Some (r, nt', w')" for cache nt idx w r nt' w'
    using create_table_counts [OF t that] by blast
  have de: "valid (mem_desc nt) \<and> releases_accepted env \<longrightarrow> cnt w' = cnt w - 1"
    if "ipa_nati_destroy_table env cache nt w = Some (r, nt', w')" for cache nt w r nt' w'
    using destroy_table_counts [OF t that] by blast
  show ?thesis using a
    by (auto simp: ipa_NATI_add_ipv4_tbl_def Let_def errno_defs descriptor_counts(2) [OF t]
      split: prod.splits if_splits bind_splits dest!: l u desc cr de post_init_counts [OF t])
qed

subsection \<open>Adding a rule\<close>

abbreviation cache_ver :: "nat_globals \<Rightarrow> ipa3_nat_mem_in \<Rightarrow> nat" where
  "cache_ver g n \<equiv> ver (the (ipa_desc (the_cache g n)))"

text \<open>The buckets of a new rule in the two tables, and the handle of the rule at position \<open>i\<close>.\<close>

definition nat_bucket :: "nat_globals \<Rightarrow> ipa3_nat_mem_in \<Rightarrow> ipa_nat_ipv4_rule \<Rightarrow> nat" where
  "nat_bucket g n u =
     unat (fst (new_nat_bucket (cache_ver g n) (p_public_ip (pdns g ! unat (u_pdn_index u)))
                  (table_entries (nt_table (the_nt g n))) u (Hash_token g)))"

definition index_bucket :: "nat_globals \<Rightarrow> ipa3_nat_mem_in \<Rightarrow> ipa_nat_ipv4_rule \<Rightarrow> nat" where
  "index_bucket g n u =
     unat (fst (new_index_bucket (table_entries (nt_table (the_nt g n))) u
                  (snd (new_nat_bucket (cache_ver g n) (p_public_ip (pdns g ! unat (u_pdn_index u)))
                          (table_entries (nt_table (the_nt g n))) u (Hash_token g)))))"

definition rule_hdl_of :: "ipa_nat_ip4_table_cache \<Rightarrow> nat \<Rightarrow> u32" where
  "rule_hdl_of nt i = ucast (MakeEntryHdl (nt_table nt) (of_nat i))"

text \<open>A rule that passes the checks of \<open>ipa_NATI_add_ipv4_rule\<close>.\<close>

definition rule_accepted :: "nat_globals \<Rightarrow> ipa_nat_ipv4_rule \<Rightarrow> bool" where
  "rule_accepted g u \<longleftrightarrow> u_protocol u \<noteq> IPAHAL_NAT_INVALID_PROTOCOL \<and>
     unat (u_pdn_index u) < IPA_MAX_PDN_NUM \<and> p_public_ip (pdns g ! unat (u_pdn_index u)) \<noteq> 0"

text \<open>Both tables can take a record into these buckets.\<close>

definition has_room :: "ipa_nat_ip4_table_cache \<Rightarrow> nat \<Rightarrow> nat \<Rightarrow> bool" where
  "has_room nt b c \<longleftrightarrow>
     (\<not> vd (entry_interface []) (nt_table nt) b \<or> has_free (entry_interface []) (nt_table nt)) \<and>
     (\<not> vd index_entry_interface (nt_index_table nt) c \<or> has_free index_entry_interface (nt_index_table nt))"

lemma has_room_iff:
  assumes "nat_inv nt cs xs" and "b < base_n (nt_table nt)" and "c < base_n (nt_index_table nt)"
  shows "has_room nt b c \<longleftrightarrow> nat_room nt cs b \<and> indx_room nt xs c"
proof -
  note nv = nat_invD [OF assms(1)]
  note r = tbl_repD(2) [OF nv(2) [of "[]"]] tbl_repD(2) [OF nv(3)]
  note l = tbl_okD(2) [OF tbl_repD(1) [OF nv(2)]] tbl_okD(2) [OF tbl_repD(1) [OF nv(3)]]
  show ?thesis
    using chain_rep_base_valid_iff [OF r(1) _ assms(2)] chain_rep_base_valid_iff [OF r(2) _ assms(3)] l
    by (simp add: has_room_def nat_room_def indx_room_def)
qed

lemma get_entry_hdl:
  assumes "nat_inv nt cs xs" and "i < tot_n (nt_table nt)"
  shows "ipa_table_get_entry (nt_table nt) (rule_hdl_of nt i) = (0, Some (of_nat i), of_nat i)"
proof -
  note ok = tbl_repD(1) [OF nat_invD(2) [OF assms(1)]]
  have u: "unat (of_nat i :: u16) = i" using ok assms(2) by simp
  then have "BREAK_RULE_HDL (nt_table nt) (rule_hdl_of nt i)
      = (nmi (nt_table nt), table_entries (nt_table nt) \<le> of_nat i, of_nat i)"
    unfolding rule_hdl_of_def using make_break_hdl [OF tbl_okD(6,9) [OF ok], of "of_nat i"] assms(2) by simp
  then show ?thesis using u assms(2) by (simp add: ipa_table_get_entry_def word_le_nat_alt)
qed

lemma dma_faithful_kept:
  assumes k: "kept nt nt'" and df: "dma_faithful env nt" shows "dma_faithful env nt'"
proof -
  have sh: "same_shape (nt_table nt) (nt_table nt')" "same_shape (nt_index_table nt) (nt_index_table nt')"
    using k by (simp_all add: kept_def)
  have "recs (nat_exec cs ((nt_table nt')\<lparr>recs := ns\<rparr>)) = recs (nat_exec cs ((nt_table nt)\<lparr>recs := ns\<rparr>))"
    "recs (indx_exec cs ((nt_index_table nt')\<lparr>recs := xs\<rparr>)) = recs (indx_exec cs ((nt_index_table nt)\<lparr>recs := xs\<rparr>))" for cs ns xs
    by (rule dma_exec_geom; use same_shapeD [OF sh(1)] same_shapeD [OF sh(2)] in simp)+
  then show ?thesis using df same_shapeD(1) [OF sh(1)] by (simp add: dma_faithful_def)
qed

lemma nat_readyD:
  assumes "nat_ready g n s"
  obtains d cs xs where "globals_ok g n" and "ipa_desc (the_cache g n) = Some d" and "nc_nmi (the_cache g n) = n"
    and "nmi (nt_table (the_nt g n)) = n" and "valid (mem_desc (the_nt g n))" and "nat_inv (the_nt g n) cs xs"
    and "spec_of (the_nt g n) cs xs = s"
  using assms by (auto simp: nat_ready_def represents_def)

lemma spec_rules_None: "i \<notin> members cs \<Longrightarrow> sp_rules (spec_of nt cs xs) i = None"
  by (simp add: spec_of_def nat_abs_def live_of_def)

lemma nat_ready_token: "nat_ready (g\<lparr>Hash_token := t\<rparr>) n s = nat_ready g n s"
  by (simp add: nat_ready_def globals_ok_def)

lemma representsI: "nat_inv nt cs xs \<Longrightarrow> spec_of nt cs xs = s \<Longrightarrow> represents nt s"
  by (auto simp: represents_def)

lemma add_outcome_represents:
  assumes "add_outcome pd u nt cs xs b c ret hdl nt'" and "nat_inv nt cs xs"
  shows "kept nt nt'"
    and "ret = 0 \<Longrightarrow> \<exists>i < tot_n (nt_table nt). 0 < i \<and> sp_rules (spec_of nt cs xs) i = None \<and> hdl = rule_hdl_of nt i \<and>
           represents nt' (spec_add i b c (installed_rule pd u) (spec_of nt cs xs))"
    and "ret \<noteq> 0 \<Longrightarrow> hdl = 0 \<and> represents nt' (spec_of nt cs xs)"
proof -
  show "kept nt nt'" using assms(1) by (simp add: add_outcome_def)
  show "\<exists>i < tot_n (nt_table nt). 0 < i \<and> sp_rules (spec_of nt cs xs) i = None \<and> hdl = rule_hdl_of nt i \<and>
      represents nt' (spec_add i b c (installed_rule pd u) (spec_of nt cs xs))" if "ret = 0"
  proof -
    from assms(1) that obtain i k where "i \<notin> members cs" "0 < i" "i < tot_n (nt_table nt)"
      "hdl = ucast (MakeEntryHdl (nt_table nt) (of_nat i))" "nat_inv nt' (cs(b := cs b @ [i])) (xs(c := xs c @ [k]))"
      "spec_of nt' (cs(b := cs b @ [i])) (xs(c := xs c @ [k])) = spec_add i b c (installed_rule pd u) (spec_of nt cs xs)"
      by (auto simp: add_outcome_def)
    then show ?thesis using spec_rules_None representsI by (auto simp: rule_hdl_of_def)
  qed
  show "hdl = 0 \<and> represents nt' (spec_of nt cs xs)" if "ret \<noteq> 0"
    using assms(1) that representsI [of nt' cs xs] by (simp add: add_outcome_def)
qed

lemma add_rule_ready:
  assumes r: "nat_ready g n s" and df: "dma_faithful env (the_nt g n)" and m: "mutex_works env" and u: "rule_accepted g u"
  shows "\<exists>ret g' hdl w'. ipa_NATI_add_ipv4_rule env g (tbl_hdl_of n) u w = Some (ret, g', Some hdl, w') \<and>
           kept (the_nt g n) (the_nt g' n) \<and> pdns g' = pdns g \<and>
           (if ret = 0
            then \<exists>i < tot_n (nt_table (the_nt g n)). 0 < i \<and> sp_rules s i = None \<and> hdl = rule_hdl_of (the_nt g n) i \<and>
                   nat_ready g' n (spec_add i (nat_bucket g n u) (index_bucket g n u) (installed_rule (pdns g) u) s)
            else hdl = 0 \<and> nat_ready g' n s) \<and>
           (has_room (the_nt g n) (nat_bucket g n u) (index_bucket g n u) \<and> dma_accepts env \<longrightarrow> ret = 0)"
proof -
  let ?nt = "the_nt g n" and ?p = "p_public_ip (pdns g ! unat (u_pdn_index u))"
  obtain d cs xs where g: "globals_ok g n" and d: "ipa_desc (the_cache g n) = Some d" and nn: "nc_nmi (the_cache g n) = nmi (nt_table ?nt)"
    and v: "valid (mem_desc ?nt)" and inv: "nat_inv ?nt cs xs" and s: "spec_of ?nt cs xs = s"
    using nat_readyD [OF r] by metis
  note gd = globals_okD [OF g]
  obtain b tok1 where b: "new_nat_bucket (ver d) ?p (table_entries (nt_table ?nt)) u (Hash_token g) = (b, tok1)" by fastforce
  obtain c tok2 where c: "new_index_bucket (table_entries (nt_table ?nt)) u tok1 = (c, tok2)" by fastforce
  have bc: "nat_bucket g n u = unat b" "index_bucket g n u = unat c"
    using b c d by (simp_all add: nat_bucket_def index_bucket_def)
  have up: "u_protocol u \<noteq> IPAHAL_NAT_INVALID_PROTOCOL" "unat (u_pdn_index u) < 16" "?p \<noteq> 0"
    using u by (simp_all add: rule_accepted_def IPA_MAX_PDN_NUM_def)
  have te: "table_entries (nt_index_table ?nt) = table_entries (nt_table ?nt)"
    using nat_invD(1) [OF inv] by (simp add: nat_shape_ok_def)
  have br: "unat b < base_n (nt_table ?nt)" "unat c < base_n (nt_index_table ?nt)"
    using new_bucket_range(2,4) [OF tbl_repD(1) [OF nat_invD(2) [OF inv]]] b c te by (metis fst_conv)+
  obtain w1 where w1: "pthread_mutex_lock env w = (0, w1)" using mutex_works_lock [OF m] .
  obtain ret hdl nt' tok' w2 where ar: "add_rule_locked env (pdns g) (the_cache g n) ?nt ?p (Hash_token g) u w1 = Some (ret, hdl, nt', tok', w2)"
    and ao: "add_outcome (pdns g) u ?nt cs xs (unat b) (unat c) ret hdl nt'"
    and ok: "nat_room ?nt cs (unat b) \<and> indx_room ?nt xs (unat c) \<and> dma_accepts env \<longrightarrow> ret = 0"
    using add_rule_locked_spec [OF inv df d nn up(1) b c, of "pdns g" w1] by blast
  obtain w3 where w3: "pthread_mutex_unlock env w2 = (0, w3)" using mutex_works_unlock [OF m] by metis
  note ov = add_outcome_represents [OF ao inv]
  let ?g = "(put_nt g n nt')\<lparr>Hash_token := tok'\<rparr>"
  have h0: "ret \<noteq> 0 \<Longrightarrow> hdl = 0" using ov(3) by simp
  have run: "ipa_NATI_add_ipv4_rule env g (tbl_hdl_of n) u w = Some (ret, ?g, Some hdl, w3)"
    using gd w1 ar w3 up v h0 tbl_hdl_of_facts [OF gd(1)]
    by (auto simp: ipa_NATI_add_ipv4_rule_def put_nt_def IPA_MAX_PDN_NUM_def Let_def)
  have rd: "nat_ready ?g n s'" if "represents nt' s'" for s'
    using nat_ready_put [OF r ov(1) that] by (simp add: nat_ready_token)
  show ?thesis
    using run ov rd ok has_room_iff [OF inv br] put_nt_facts [OF g, of nt'] by (cases "ret = 0") (auto simp: bc s)
qed


subsection \<open>Deleting a rule and reading its time stamp\<close>

lemma spec_rules_live:
  assumes "sp_rules (spec_of nt cs xs) i = Some v"
  shows "i \<in> live (recs (nt_table nt)) cs" and "v = rule_view (recs (nt_table nt) ! i)"
  using assms by (auto simp: spec_of_def nat_abs_def split: if_splits)

lemma live_lt:
  assumes "nat_inv nt cs xs" and "i \<in> live (recs (nt_table nt)) cs"
  shows "i < tot_n (nt_table nt)"
  using assms(2) rep_members [OF nat_invD(2) [OF assms(1)], of i] by (simp add: live_of_def)

lemma del_rule_ready:
  assumes r: "nat_ready g n s" and df: "dma_faithful env (the_nt g n)" and m: "mutex_works env" and i: "sp_rules s i = Some v"
  shows "\<exists>ret g' w'. ipa_NATI_del_ipv4_rule env g (tbl_hdl_of n) (rule_hdl_of (the_nt g n) i) w = Some (ret, g', w') \<and>
           pdns g' = pdns g \<and>
           (if ret = 0 then kept (the_nt g n) (the_nt g' n) \<and> nat_ready g' n (spec_del i s)
            else ret = - EIO \<and> \<not> dma_accepts env \<and>
              g' = put_nt g n (del_aborted (the_nt g n) (to_indx (recs (nt_table (the_nt g n))) i)))"
proof -
  let ?nt = "the_nt g n"
  obtain d cs xs where g: "globals_ok g n" and d: "ipa_desc (the_cache g n) = Some d" and nn: "nc_nmi (the_cache g n) = nmi (nt_table ?nt)"
    and v: "valid (mem_desc ?nt)" and inv: "nat_inv ?nt cs xs" and s: "spec_of ?nt cs xs = s"
    using nat_readyD [OF r] by metis
  note gd = globals_okD [OF g]
  have il: "i \<in> live (recs (nt_table ?nt)) cs" using spec_rules_live(1) i s by blast
  note hdl = get_entry_hdl [OF inv live_lt [OF inv il]]
  obtain w1 where w1: "pthread_mutex_lock env w = (0, w1)" using mutex_works_lock [OF m] .
  obtain ret nt' w2 where dr: "del_rule_locked env (pdns g) (the_cache g n) ?nt (rule_hdl_of ?nt i) w1 = Some (ret, nt', w2)"
    and out: "if ret = 0 then kept ?nt nt' \<and> (\<exists>cs' xs'. nat_inv nt' cs' xs' \<and> spec_of nt' cs' xs' = spec_del i (spec_of ?nt cs xs))
            else ret = - EIO \<and> nt' = del_aborted ?nt (to_indx (recs (nt_table ?nt)) i) \<and> \<not> dma_accepts env"
    using del_rule_locked_spec [OF inv df d nn il hdl, of "pdns g" w1] by blast
  obtain w3 where w3: "unlock_ret env ret w2 = (ret, w3)" using mutex_works_unlock [OF m] .
  have run: "ipa_NATI_del_ipv4_rule env g (tbl_hdl_of n) (rule_hdl_of ?nt i) w = Some (ret, put_nt g n nt', w3)"
    using gd w1 dr w3 v tbl_hdl_of_facts(1) [OF gd(1)] by (simp add: ipa_NATI_del_ipv4_rule_def put_nt_def)
  show ?thesis
  proof (cases "ret = 0")
    case True
    then have k: "kept ?nt nt'" and "represents nt' (spec_del i s)" using out s by (auto intro: representsI)
    then show ?thesis using run True nat_ready_put [OF r k] put_nt_facts [OF g, of nt'] by auto
  next
    case False
    then show ?thesis using run out put_nt_facts(6) [OF g, of nt'] by auto
  qed
qed

lemma query_ready:
  assumes r: "nat_ready g n s" and m: "mutex_works env" and i: "sp_rules s i = Some v"
  obtains w' where "ipa_NATI_query_timestamp env g (tbl_hdl_of n) (rule_hdl_of (the_nt g n) i) w = Some (0, Some (ucast (r_time_stamp v)), w')"
proof -
  let ?nt = "the_nt g n"
  obtain d cs xs where g: "globals_ok g n" and v: "valid (mem_desc ?nt)" and inv: "nat_inv ?nt cs xs" and s: "spec_of ?nt cs xs = s"
    using nat_readyD [OF r] by metis
  note gd = globals_okD [OF g] and l = spec_rules_live [OF i [folded s]]
  note lt = live_lt [OF inv l(1)] and ok = tbl_repD(1) [OF nat_invD(2) [OF inv]]
  have rd: "mem_read (recs (nt_table ?nt)) (unat (of_nat i :: u16)) = Some (recs (nt_table ?nt) ! i)"
    using lt ok tbl_okD(4) [OF ok] by simp
  have ts: "r_time_stamp (recs (nt_table ?nt) ! i) = r_time_stamp v" using l(2) by (simp add: rule_view_def)
  obtain w1 where w1: "pthread_mutex_lock env w = (0, w1)" using mutex_works_lock [OF m] .
  obtain w2 where w2: "unlock_ret env 0 w1 = (0, w2)" using mutex_works_unlock [OF m] .
  show thesis by (rule that)
    (use gd w1 w2 v get_entry_hdl [OF inv lt] rd ts tbl_hdl_of_facts(1) [OF gd(1)] in \<open>simp add: ipa_NATI_query_timestamp_def\<close>)
qed

end
