(* ===== verification/Nat_Sample.thy ===== *)
theory Nat_Sample
  imports Nat_Service
begin

unbundle bit_operations_syntax

section \<open>A concrete environment\<close>

text \<open>
  An operating system without state in which every call succeeds and the DMA engine executes the commands
  on tables with \<open>te\<close> base records, and the driver's state after a table for 100 rules was created in it.
  The theorems about the driver are applied to these.
\<close>

definition sample_env :: "u16 \<Rightarrow> unit nat_env" where
  "sample_env te =
     \<lparr>pthread_mutex_lock = (\<lambda>w. (0, w)), pthread_mutex_unlock = (\<lambda>w. (0, w)),
      os_open = (\<lambda>path w. (3, w)), os_close = (\<lambda>f w. (0, w)), os_mmap = (\<lambda>sz f w. (Some 0x10000, w)),
      os_munmap = (\<lambda>a sz w. w), os_calloc = (\<lambda>k w. (True, w)),
      os_clock_gettime = (\<lambda>w. ((0, \<lparr>tv_sec = 1, tv_nsec = 0\<rparr>), w)),
      ioctl_hw_version = (\<lambda>f w. ((0, 17), w)), ioctl_sram_info = (\<lambda>f w. ((- 1, sram_info_zero), w)),
      ioctl_alloc = (\<lambda>num f sz w. ((0, 0), w)), ioctl_del = (\<lambda>num f idx mem w. (0, w)),
      ioctl_v4_init = (\<lambda>f cmd w. (0, w)), ioctl_modify_pdn = (\<lambda>f e w. (0, w)), ioctl_clock_vote = (\<lambda>f v w. (0, w)),
      ioctl_table_dma = (\<lambda>f cmd (ns, xs) w.
        ((0, recs (nat_exec (cmds_of cmd) (table_zero\<lparr>entry_size := 32, table_entries := te, recs := ns\<rparr>)),
             recs (indx_exec (cmds_of cmd) (table_zero\<lparr>entry_size := 4, table_entries := te, recs := xs\<rparr>))), w))\<rparr>"

abbreviation senv :: "unit nat_env" where "senv \<equiv> sample_env 128"

definition sample_globals :: nat_globals where
  "sample_globals = fst (snd (the (ipa_NATI_add_ipv4_tbl senv nat_globals_init IPA_NAT_MEM_IN_DDR 0x0A000001 100 ())))"

definition sample_rule :: ipa_nat_ipv4_rule where
  "sample_rule = \<lparr>u_target_ip = 0x08080808, u_private_ip = 0xC0A80002, u_target_port = 443, u_private_port = 4000,
     u_public_port = 50000, u_protocol = IPPROTO_TCP, u_pdn_index = 0, u_redirect = 0, u_enable = 1, u_time_stamp = 77,
     u_uc_activation_index = 0, u_s = False, u_ucp = False, u_dst_only = False, u_src_only = False\<rparr>"

lemma sample_mutex [simp]: "mutex_works (sample_env te)"
  by (simp add: mutex_works_def sample_env_def)

lemma sample_alloc [simp]: "alloc_at_zero (sample_env te)"
  by (simp add: alloc_at_zero_def sample_env_def)

lemma sample_accepts [simp]: "dma_accepts (sample_env te)"
  by (simp add: dma_accepts_def sample_env_def split_def)

lemma sample_faithful:
  assumes "nat_shape_ok nt" and te: "table_entries (nt_table nt) = te"
  shows "dma_faithful (sample_env te) nt"
proof -
  have g: "entry_size (nt_table nt) = 32" "entry_size (nt_index_table nt) = 4" "table_entries (nt_index_table nt) = te"
    using assms by (simp_all add: nat_shape_ok_def dma_ok_def)
  have "recs (nat_exec cs ((nt_table nt)\<lparr>recs := ns\<rparr>)) = recs (nat_exec cs (table_zero\<lparr>entry_size := 32, table_entries := te, recs := ns\<rparr>))"
    "recs (indx_exec cs ((nt_index_table nt)\<lparr>recs := xs\<rparr>)) = recs (indx_exec cs (table_zero\<lparr>entry_size := 4, table_entries := te, recs := xs\<rparr>))" for cs ns xs
    by (rule dma_exec_geom; use g te in simp)+
  then show ?thesis by (auto simp: dma_faithful_def sample_env_def)
qed

lemma globals_init_free [simp]: "IPA_VALID_NAT_MEM_IN n \<Longrightarrow> slot_free nat_globals_init n"
  by (auto simp: slot_free_def globals_ok_def nat_globals_init_def nat_cache_zero_def nmi_valid_iff cache_idx_def)

text \<open>What creating a table in the initial state evaluates by.\<close>

lemmas create_simps = ipa_NATI_add_ipv4_tbl_def nat_globals_init_def nat_cache_zero_def get_cache_def cache_idx_def
  mem_read_def IPA_VALID_NAT_MEM_IN_def IPA_NAT_MAX_IP4_TBLS_def ipa_descriptor_open_def get_tbl_def
  ipa_nati_create_table_def sample_entries_num ipa_mem_descriptor_allocate_memory_def AllocateMemory_def MapMemory_def
  ipa_nati_post_ipv4_init_cmd_def Let_def IPA_RESOURCE_NAME_MAX_def IPA_DEV_DIR_def IPA_MAX_PDN_NUM_def
  ipa_mem_descriptor_init_def put_cache_def put_tbl_def ipa_table_calculate_addresses_def ipa_table_reset_def
  ipa_nati_create_table_dma_cmd_helpers_def split_def

lemma sample_created:
  "fst (the (ipa_NATI_add_ipv4_tbl senv nat_globals_init IPA_NAT_MEM_IN_DDR 0x0A000001 100 ())) = 0"
  "table_entries (nt_table (the_nt sample_globals IPA_NAT_MEM_IN_DDR)) = 128"
  "recs (nt_table (the_nt sample_globals IPA_NAT_MEM_IN_DDR)) = replicate 148 0"
  "recs (nt_index_table (the_nt sample_globals IPA_NAT_MEM_IN_DDR)) = replicate 148 0"
  "p_public_ip (pdns sample_globals ! 0) = 0x0A000001"
  by (simp_all add: sample_globals_def create_simps sample_env_def)

lemma sample_ready: "nat_ready sample_globals IPA_NAT_MEM_IN_DDR spec_empty"
proof -
  have "slot_free nat_globals_init IPA_NAT_MEM_IN_DDR" by (simp add: IPA_VALID_NAT_MEM_IN_def)
  from add_tbl_slot [OF this, of senv "0x0A000001" 100 "()"] show ?thesis
    using sample_created(1) by (auto simp: sample_globals_def)
qed

lemma ready_shape:
  assumes "nat_ready g n s" shows "nat_shape_ok (the_nt g n)"
  using assms by (auto elim!: nat_readyD dest: nat_invD(1))

lemma sample_dma: "dma_faithful senv (the_nt sample_globals IPA_NAT_MEM_IN_DDR)"
  by (rule sample_faithful [OF ready_shape [OF sample_ready] sample_created(2)])

lemma sample_accepted: "rule_accepted sample_globals sample_rule"
  by (simp add: rule_accepted_def sample_rule_def sample_created(5) IPAHAL_NAT_INVALID_PROTOCOL_def IPPROTO_TCP_def IPA_MAX_PDN_NUM_def)

lemma sample_buckets:
  "nat_bucket sample_globals IPA_NAT_MEM_IN_DDR u < 128" "index_bucket sample_globals IPA_NAT_MEM_IN_DDR u < 128"
proof -
  obtain cs xs where inv: "nat_inv (the_nt sample_globals IPA_NAT_MEM_IN_DDR) cs xs"
    using sample_ready nat_readyD by metis
  show "nat_bucket sample_globals IPA_NAT_MEM_IN_DDR u < 128" "index_bucket sample_globals IPA_NAT_MEM_IN_DDR u < 128"
    using new_bucket_range(2,4) [OF tbl_repD(1) [OF nat_invD(2) [OF inv, of "[]"]]]
    by (simp_all add: nat_bucket_def index_bucket_def sample_created(2))
qed

lemma sample_room:
  "has_room (the_nt sample_globals IPA_NAT_MEM_IN_DDR) (nat_bucket sample_globals IPA_NAT_MEM_IN_DDR u)
     (index_bucket sample_globals IPA_NAT_MEM_IN_DDR u)"
  using sample_buckets [of u]
  by (simp add: has_room_def vd_def sample_created(3,4) entry_interface_defs index_interface_defs)

text \<open>The state after \<open>sample_rule\<close> was added, and the position the rule was put at.\<close>

definition sample_globals2 :: nat_globals where
  "sample_globals2 =
     fst (snd (the (ipa_NATI_add_ipv4_rule senv sample_globals (tbl_hdl_of IPA_NAT_MEM_IN_DDR) sample_rule ())))"

lemma sample_added:
  "\<exists>i s. nat_ready sample_globals2 IPA_NAT_MEM_IN_DDR s \<and>
     sp_rules s i = Some (installed_rule (pdns sample_globals2) sample_rule) \<and>
     dma_faithful senv (the_nt sample_globals2 IPA_NAT_MEM_IN_DDR)"
proof -
  from add_rule_ready [OF sample_ready sample_dma sample_mutex sample_accepted, of "()"]
  obtain ret g' hdl i where run: "ipa_NATI_add_ipv4_rule senv sample_globals (tbl_hdl_of IPA_NAT_MEM_IN_DDR) sample_rule () = Some (ret, g', Some hdl, ())"
    and k: "kept (the_nt sample_globals IPA_NAT_MEM_IN_DDR) (the_nt g' IPA_NAT_MEM_IN_DDR)" "pdns g' = pdns sample_globals"
    and r: "nat_ready g' IPA_NAT_MEM_IN_DDR (spec_add i (nat_bucket sample_globals IPA_NAT_MEM_IN_DDR sample_rule)
              (index_bucket sample_globals IPA_NAT_MEM_IN_DDR sample_rule) (installed_rule (pdns sample_globals) sample_rule) spec_empty)"
    using sample_room by auto
  have "g' = sample_globals2" using run by (simp add: sample_globals2_def)
  then show ?thesis using r k(2) dma_faithful_kept [OF k(1) sample_dma] by (auto simp: spec_add_def intro!: exI)
qed

end
