(* ===== verification/Nat_Client.thy ===== *)
theory Nat_Client
  imports Nat_Sample
begin

unbundle bit_operations_syntax

section \<open>Clients of the NAT driver\<close>

text \<open>
  Sequences of calls of a client: the step relation of the driver's state together with the set of rule
  handles the client holds, its invariant by rule induction, and the properties of the IPv4 NAT driver.
\<close>

subsection \<open>The abstract table is well-formed\<close>

text \<open>Every rule is in exactly one chain of the NAT table and in exactly one of the index table, once.\<close>

definition spec_wf :: "nat_spec \<Rightarrow> bool" where
  "spec_wf s \<longleftrightarrow>
     (\<forall>b. distinct (sp_chain s b) \<and> set (sp_chain s b) \<subseteq> dom (sp_rules s)) \<and>
     (\<forall>c. distinct (sp_indx_chain s c) \<and> set (sp_indx_chain s c) \<subseteq> dom (sp_rules s)) \<and>
     (\<forall>i\<in>dom (sp_rules s). (\<exists>!b. i \<in> set (sp_chain s b)) \<and> (\<exists>!c. i \<in> set (sp_indx_chain s c)))"

lemma nat_chain_wf:
  assumes inv: "nat_inv nt cs xs"
  defines "s \<equiv> spec_of nt cs xs"
  shows "distinct (sp_chain s b)" and "set (sp_chain s b) \<subseteq> dom (sp_rules s)"
    and "i \<in> dom (sp_rules s) \<Longrightarrow> \<exists>!b. i \<in> set (sp_chain s b)"
proof -
  note rep = nat_invD(2) [OF inv, of "[]"]
  show "distinct (sp_chain s b)" using rep_distinct [OF rep] by (simp add: s_def spec_of_def nat_chain_def)
  show "set (sp_chain s b) \<subseteq> dom (sp_rules s)"
    by (auto simp: s_def spec_of_def nat_chain_def nat_abs_def live_of_def members_def)
  show "\<exists>!b. i \<in> set (sp_chain s b)" if "i \<in> dom (sp_rules s)"
    using that chain_rep_disjoint [OF tbl_repD(2) [OF rep]]
    by (auto simp: s_def spec_of_def nat_chain_def nat_abs_def live_of_def members_def split: if_splits)
qed

lemma indx_chain_wf:
  assumes inv: "nat_inv nt cs xs"
  defines "s \<equiv> spec_of nt cs xs"
  shows "distinct (sp_indx_chain s c)" and "set (sp_indx_chain s c) \<subseteq> dom (sp_rules s)"
    and "i \<in> dom (sp_rules s) \<Longrightarrow> \<exists>!c. i \<in> set (sp_indx_chain s c)"
proof -
  let ?f = "to_indx (recs (nt_table nt))" and ?r = "to_rule (recs (nt_index_table nt))"
  note rep = nat_invD(3) [OF inv] and l = link_okD [OF nat_invD(6) [OF inv]]
  have m: "k \<in> members xs" if "k \<in> set (xs c)" for k c using that by (rule membersI)
  have inj: "inj_on ?r (members xs)" by (rule inj_on_inverseI [of _ ?f]) (rule l(4))
  have d: "dom (sp_rules s) = live (recs (nt_table nt)) cs" by (auto simp: s_def spec_of_def nat_abs_def split: if_splits)
  have ch: "set (sp_indx_chain s c) = ?r ` set (xs c)" for c by (simp add: s_def spec_of_def indx_chain_def)
  show "distinct (sp_indx_chain s c)"
    using rep_distinct [OF rep, of c] inj_on_subset [OF inj, of "set (xs c)"] m
    by (auto simp: s_def spec_of_def indx_chain_def distinct_map)
  show "set (sp_indx_chain s c) \<subseteq> dom (sp_rules s)" unfolding ch d using m l(3) by blast
  show "\<exists>!c. i \<in> set (sp_indx_chain s c)" if "i \<in> dom (sp_rules s)"
  proof -
    have i: "?f i \<in> members xs" "?r (?f i) = i" using that l(1,2) d by auto
    have eq: "i \<in> set (sp_indx_chain s c) \<longleftrightarrow> ?f i \<in> set (xs c)" for c
      unfolding ch using i(2) l(4) [OF m, of _ c] by (auto simp: image_iff) (metis i(2))
    show ?thesis unfolding eq using i(1) chain_rep_disjoint [OF tbl_repD(2) [OF rep]] by (auto simp: members_def)
  qed
qed

lemma represents_wf:
  assumes "represents nt s" shows "spec_wf s"
  using assms nat_chain_wf indx_chain_wf by (fastforce simp: represents_def spec_wf_def)

lemma nat_ready_wf: "nat_ready g n s \<Longrightarrow> spec_wf s"
  by (auto simp: nat_ready_def dest: represents_wf)

lemma spec_del_add:
  assumes wf: "spec_wf s" and i: "sp_rules s i = None"
  shows "spec_del i (spec_add i b c v s) = s"
proof -
  have n: "i \<notin> set (sp_chain s b)" "i \<notin> set (sp_indx_chain s b)" for b using wf i by (auto simp: spec_wf_def)
  then have r: "remove1 i (sp_chain s b) = sp_chain s b" "remove1 i (sp_indx_chain s b) = sp_indx_chain s b" for b
    by (simp_all add: remove1_idem)
  have u: "(sp_rules s)(i := None) = sp_rules s" using i by (intro ext) simp
  show ?thesis using n r u
    by (cases s) (auto simp: spec_del_def spec_add_def remove1_append fun_eq_iff)
qed

subsection \<open>Handles\<close>

lemma rule_hdl_kept: "kept nt nt' \<Longrightarrow> rule_hdl_of nt' = rule_hdl_of nt"
  using same_shapeD(1,3) [of "nt_table nt" "nt_table nt'"] by (intro ext) (simp add: kept_def rule_hdl_of_def MakeEntryHdl_def)

lemma ready_dom_lt:
  assumes "nat_ready g n s" and "i \<in> dom (sp_rules s)" shows "i < tot_n (nt_table (the_nt g n))"
  using assms by (auto elim!: nat_readyD dest!: spec_rules_live(1) dest: live_lt)

lemma rule_hdl_inj:
  assumes r: "nat_ready g n s" and "i < tot_n (nt_table (the_nt g n))" "j < tot_n (nt_table (the_nt g n))"
    and "rule_hdl_of (the_nt g n) i = rule_hdl_of (the_nt g n) j"
  shows "i = j"
proof -
  obtain cs xs where inv: "nat_inv (the_nt g n) cs xs" using r by (auto elim!: nat_readyD)
  have "(of_nat i :: u16) = of_nat j"
    using get_entry_hdl [OF inv assms(2)] get_entry_hdl [OF inv assms(3)] assms(4) by simp
  then show ?thesis
    using of_nat_rec_eq_iff [OF tbl_repD(1) [OF nat_invD(2) [OF inv, of "[]"]] assms(2,3)] by simp
qed

text \<open>The handles of the rules of a table.\<close>

definition handles :: "nat_globals \<Rightarrow> ipa3_nat_mem_in \<Rightarrow> nat_spec \<Rightarrow> u32 set" where
  "handles g n s = rule_hdl_of (the_nt g n) ` dom (sp_rules s)"

lemma handles_inj:
  assumes "nat_ready g n s" shows "inj_on (rule_hdl_of (the_nt g n)) (dom (sp_rules s))"
  by (rule inj_onI) (use rule_hdl_inj [OF assms] ready_dom_lt [OF assms] in blast)

lemma handles_del:
  assumes r: "nat_ready g n s" and k: "kept (the_nt g n) (the_nt g' n)" and i: "sp_rules s i = Some v"
  shows "handles g' n (spec_del i s) = handles g n s - {rule_hdl_of (the_nt g n) i}"
proof -
  have "dom (sp_rules (spec_del i s)) = dom (sp_rules s) - {i}" by (auto simp: spec_del_def)
  then show ?thesis using rule_hdl_kept [OF k] inj_on_image_set_diff [OF handles_inj [OF r], of "dom (sp_rules s)" "{i}"] i
    by (auto simp: handles_def)
qed

lemma handles_add:
  assumes k: "kept (the_nt g n) (the_nt g' n)"
  shows "handles g' n (spec_add i b c v s) = insert (rule_hdl_of (the_nt g n) i) (handles g n s)"
  by (simp add: handles_def spec_add_def rule_hdl_kept [OF k])

subsection \<open>Calls that are refused and calls that only change the public addresses\<close>

lemma add_rule_rejected:
  assumes g: "globals_ok g n" and u: "\<not> rule_accepted g u"
  shows "ipa_NATI_add_ipv4_rule env g (tbl_hdl_of n) u w =
     (if u_protocol u = IPAHAL_NAT_INVALID_PROTOCOL \<or> unat (u_pdn_index u) < IPA_MAX_PDN_NUM
      then Some (- EINVAL, g, Some 0, w) else None)"
proof -
  note gd = globals_okD [OF g]
  have rd: "mem_read (pdns g) (unat (u_pdn_index u)) =
      (if unat (u_pdn_index u) < 16 then Some (pdns g ! unat (u_pdn_index u)) else None)"
    using gd(5) by (simp add: mem_read_def)
  show ?thesis using gd u tbl_hdl_of_facts [OF gd(1)] rd
    by (auto simp: ipa_NATI_add_ipv4_rule_def rule_accepted_def IPA_MAX_PDN_NUM_def)
qed

lemma handles_kept: "kept (the_nt g n) (the_nt g' n) \<Longrightarrow> handles g' n s = handles g n s"
  by (simp add: handles_def rule_hdl_kept)

lemma nat_ready_pdns:
  assumes "length (pdns g') = length (pdns g)" and "ipv4_nat_cache g' = ipv4_nat_cache g"
  shows "nat_ready g' n s = nat_ready g n s"
  using assms by (simp add: nat_ready_def globals_ok_def)

lemma modify_pdn_frame:
  assumes "ipa_nati_modify_pdn env g e w = Some (r, g', w')"
  shows "length (pdns g') = length (pdns g)" and "ipv4_nat_cache g' = ipv4_nat_cache g"
  using assms by (auto simp: ipa_nati_modify_pdn_def split: option.splits bind_splits if_splits prod.splits dest!: mem_write_SomeD)

lemma alloc_pdn_frame:
  assumes "ipa_nati_alloc_pdn env g info w = Some (r, g', i, w')"
  shows "length (pdns g') = length (pdns g)" and "ipv4_nat_cache g' = ipv4_nat_cache g"
  using assms modify_pdn_frame by (fastforce simp: ipa_nati_alloc_pdn_def split: option.splits bind_splits if_splits prod.splits)+

lemma dealloc_pdn_frame:
  assumes "ipa_nati_dealloc_pdn env g i w = Some (r, g', w')"
  shows "length (pdns g') = length (pdns g)" and "ipv4_nat_cache g' = ipv4_nat_cache g"
  using assms modify_pdn_frame
  by (fastforce simp: ipa_nati_dealloc_pdn_def split: option.splits bind_splits if_splits prod.splits dest!: mem_write_SomeD)+

subsection \<open>Sequences of calls\<close>

text \<open>
  A state of a client is the driver's globals, the state of the operating system, the set of rule
  handles the client holds, and a flag: a successful \<open>add\<close> gives it a handle, it deletes only rules whose handle it
  holds, and clearing the table takes all handles away. A deletion that the kernel refuses is a step as well; the
  client keeps the handle. Such a deletion usually leaves the driver as it is, but when the rule was the head of an
  index chain the code has by then moved the second entry of the chain to the head and does not move it back
  (\<open>del_aborted\<close>), so that the links between the two tables are broken. The flag is true as long as no refused
  deletion has changed the driver's tables in this way.
\<close>

type_synonym 'w client = "nat_globals \<times> 'w \<times> u32 set \<times> bool"

inductive client_step :: "('w, 'm) nat_env_scheme \<Rightarrow> ipa3_nat_mem_in \<Rightarrow> 'w client \<Rightarrow> 'w client \<Rightarrow> bool" for env n where
  add: "ipa_NATI_add_ipv4_rule env g (tbl_hdl_of n) u w = Some (0, g', Some h, w') \<Longrightarrow>
        client_step env n (g, w, H, c) (g', w', insert h H, c)"
| add_fails: "ipa_NATI_add_ipv4_rule env g (tbl_hdl_of n) u w = Some (ret, g', h, w') \<Longrightarrow> ret \<noteq> 0 \<Longrightarrow>
        client_step env n (g, w, H, c) (g', w', H, c)"
| del: "h \<in> H \<Longrightarrow> ipa_NATI_del_ipv4_rule env g (tbl_hdl_of n) h w = Some (0, g', w') \<Longrightarrow>
        client_step env n (g, w, H, c) (g', w', H - {h}, c)"
| del_refused: "h \<in> H \<Longrightarrow> ipa_NATI_del_ipv4_rule env g (tbl_hdl_of n) h w = Some (ret, g', w') \<Longrightarrow> ret \<noteq> 0 \<Longrightarrow>
        client_step env n (g, w, H, c) (g', w', H, c \<and> g' = g)"
| query: "ipa_NATI_query_timestamp env g (tbl_hdl_of n) h w = Some (ret, ts, w') \<Longrightarrow>
        client_step env n (g, w, H, c) (g, w', H, c)"
| clear: "ipa_NATI_clear_ipv4_tbl env g (tbl_hdl_of n) w = Some (ret, g', w') \<Longrightarrow>
        client_step env n (g, w, H, c) (g', w', {}, c)"
| modify_pdn: "ipa_nati_modify_pdn env g e w = Some (ret, g', w') \<Longrightarrow> client_step env n (g, w, H, c) (g', w', H, c)"
| alloc_pdn: "ipa_nati_alloc_pdn env g info w = Some (ret, g', i, w') \<Longrightarrow> client_step env n (g, w, H, c) (g', w', H, c)"
| dealloc_pdn: "ipa_nati_dealloc_pdn env g k w = Some (ret, g', w') \<Longrightarrow> client_step env n (g, w, H, c) (g', w', H, c)"

inductive_cases client_stepE: "client_step env n (g, w, H, c) c'"

definition client_inv :: "('w, 'm) nat_env_scheme \<Rightarrow> ipa3_nat_mem_in \<Rightarrow> 'w client \<Rightarrow> bool" where
  "client_inv env n st \<longleftrightarrow>
     (case st of (g, w, H, c) \<Rightarrow> c \<longrightarrow> (\<exists>s. nat_ready g n s \<and> dma_faithful env (the_nt g n) \<and> H = handles g n s))"

lemma client_inv_I:
  "nat_ready g n s \<Longrightarrow> dma_faithful env (the_nt g n) \<Longrightarrow> H = handles g n s \<Longrightarrow> client_inv env n (g, w, H, c)"
  by (auto simp: client_inv_def)

lemma client_inv_broken [simp]: "client_inv env n (g, w, H, False)"
  by (simp add: client_inv_def)

lemma client_inv_D:
  assumes "client_inv env n (g, w, H, True)"
  obtains s where "nat_ready g n s" and "dma_faithful env (the_nt g n)" and "H = handles g n s"
  using assms by (auto simp: client_inv_def)

lemma client_inv_pdns:
  assumes "client_inv env n (g, w, H, c)" and "length (pdns g') = length (pdns g)" and "ipv4_nat_cache g' = ipv4_nat_cache g"
  shows "client_inv env n (g', w', H, c)"
  using assms nat_ready_pdns [OF assms(2,3)] by (simp add: client_inv_def handles_def)

lemma clear_kept:
  assumes r: "nat_ready g n s" and "ipa_NATI_clear_ipv4_tbl env g (tbl_hdl_of n) w = Some (0, g', w')"
  shows "kept (the_nt g n) (the_nt g' n)"
proof -
  have g: "globals_ok g n" using r by (simp add: nat_ready_def)
  note gd = globals_okD [OF g]
  have "g' = put_nt g n ((the_nt g n)\<lparr>nt_table := reset_counted (nt_table (the_nt g n)), nt_index_table := reset_counted (nt_index_table (the_nt g n))\<rparr>)"
    using assms(2) r gd(1,2,4) tbl_hdl_of_facts(1) [OF gd(1)]
    by (auto simp: ipa_NATI_clear_ipv4_tbl_def nat_ready_def put_nt_def Let_def unlock_ret_def errno_defs split: prod.splits if_splits)
  then show ?thesis using put_nt_facts(2) [OF g] by (simp add: kept_def reset_counted_shape)
qed

lemma client_step_inv:
  assumes m: "mutex_works env" and st: "client_step env n s s'" and "client_inv env n s"
  shows "client_inv env n s'"
  using st assms(3)
proof (induction rule: client_step.induct)
  case (add g u w g' h w' H c)
  show ?case
  proof (cases c)
    case True
    with add(2) obtain s where r: "nat_ready g n s" "dma_faithful env (the_nt g n)" "H = handles g n s" by (auto elim: client_inv_D)
    have u: "rule_accepted g u"
      by (rule ccontr) (use add(1) add_rule_rejected [of g n u env w] r(1) in \<open>auto simp: nat_ready_def errno_defs split: if_splits\<close>)
    show ?thesis using add_rule_ready [OF r(1,2) m u, of w] add(1) r(3) handles_add dma_faithful_kept [OF _ r(2)]
      by (auto intro!: client_inv_I)
  qed simp
next
  case (add_fails g u w ret g' h w' H c)
  show ?case
  proof (cases c)
    case c: True
    with add_fails(3) obtain s where r: "nat_ready g n s" "dma_faithful env (the_nt g n)" "H = handles g n s" by (auto elim: client_inv_D)
    show ?thesis
    proof (cases "rule_accepted g u")
      case True
      then show ?thesis using add_rule_ready [OF r(1,2) m True, of w] add_fails r(3) handles_kept dma_faithful_kept [OF _ r(2)]
        by (auto intro!: client_inv_I)
    next
      case False
      then have "g' = g" using add_fails(1) add_rule_rejected [of g n u env w] r(1) by (auto simp: nat_ready_def split: if_splits)
      then show ?thesis using r by (auto intro: client_inv_I)
    qed
  qed simp
next
  case (del h H g w g' w' c)
  show ?case
  proof (cases c)
    case True
    with del(3) obtain s where r: "nat_ready g n s" "dma_faithful env (the_nt g n)" "H = handles g n s" by (auto elim: client_inv_D)
    then obtain i v where i: "sp_rules s i = Some v" "h = rule_hdl_of (the_nt g n) i" using del(1) by (auto simp: handles_def)
    show ?thesis using del_rule_ready [OF r(1,2) m i(1), of w] del(2) i(2) r(3) handles_del [OF r(1) _ i(1)] dma_faithful_kept [OF _ r(2)]
      by (auto intro!: client_inv_I)
  qed simp
next
  case (clear g w ret g' w' H c)
  show ?case
  proof (cases c)
    case True
    with clear(2) obtain s where r: "nat_ready g n s" "dma_faithful env (the_nt g n)" by (auto elim: client_inv_D)
    from clear_tbl_ready [OF r(1) m, of w] obtain g2 w2 where
      c: "ipa_NATI_clear_ipv4_tbl env g (tbl_hdl_of n) w = Some (0, g2, w2)" "nat_ready g2 n spec_empty" .
    with clear(1) have "ret = 0" "g2 = g'" by auto
    then have "dma_faithful env (the_nt g' n)" using dma_faithful_kept [OF clear_kept [OF r(1)] r(2)] clear(1) by simp
    then show ?thesis using c(2) \<open>g2 = g'\<close> by (auto intro!: client_inv_I simp: handles_def spec_empty_def)
  qed simp
next
  case (del_refused h H g w ret g' w' c)
  then show ?case by (auto simp: client_inv_def)
next
  case (query g h w ret ts w' H c)
  then show ?case by (auto simp: client_inv_def)
next
  case (modify_pdn g e w ret g' w' H c)
  show ?case by (rule client_inv_pdns [OF modify_pdn(2) modify_pdn_frame [OF modify_pdn(1)]])
next
  case (alloc_pdn g info w ret g' i w' H c)
  show ?case by (rule client_inv_pdns [OF alloc_pdn(2) alloc_pdn_frame [OF alloc_pdn(1)]])
next
  case (dealloc_pdn g k w ret g' w' H c)
  show ?case by (rule client_inv_pdns [OF dealloc_pdn(2) dealloc_pdn_frame [OF dealloc_pdn(1)]])
qed

lemma client_reachable_inv:
  assumes "(client_step env n)\<^sup>*\<^sup>* s s'" and "mutex_works env" and "client_inv env n s"
  shows "client_inv env n s'"
  using assms by (induction rule: rtranclp_induct) (auto intro: client_step_inv)

text \<open>If the kernel refuses no command, no deletion is refused and the flag stays true.\<close>

lemma client_flag_kept:
  assumes "(client_step env n)\<^sup>*\<^sup>* s s'" and m: "mutex_works env" and a: "dma_accepts env"
    and "client_inv env n s" and "snd (snd (snd s))"
  shows "client_inv env n s' \<and> snd (snd (snd s'))"
  using assms(1,4,5)
proof (induction rule: rtranclp_induct)
  case (step t t')
  then have i: "client_inv env n t" "snd (snd (snd t))" by auto
  have "client_inv env n t'" by (rule client_step_inv [OF m step(2) i(1)])
  moreover have "snd (snd (snd t'))" using step(2) i
  proof (cases rule: client_step.cases)
    case (del_refused h H g w ret g' w' c)
    with i obtain s where r: "nat_ready g n s" "dma_faithful env (the_nt g n)" "H = handles g n s" by (auto elim: client_inv_D)
    then obtain j v where "sp_rules s j = Some v" "h = rule_hdl_of (the_nt g n) j" using del_refused(3) by (auto simp: handles_def)
    then have False using del_rule_ready [OF r(1,2) m, of j v w] del_refused(4,5) a by auto
    then show ?thesis ..
  qed auto
  ultimately show ?case by blast
qed simp

end
