(* ===== verification/Nat_Properties.thy ===== *)
theory Nat_Properties
  imports Nat_Client
begin

unbundle bit_operations_syntax

section \<open>What the IPv4 NAT driver guarantees\<close>

text \<open>
  The properties of the operations of \<open>ipa_nat_drvi.c\<close>, stated on its global state, with their instances
  on the environment of \<open>Nat_Sample\<close>.
\<close>

subsection \<open>Handles and record layouts\<close>

text \<open>
  A table handle made of a table number and a memory type decodes to the same two values, for both
  memory types and every number that fits into the byte the handle has for it.
\<close>

theorem tbl_hdl_roundtrip:
  assumes "IPA_VALID_NAT_MEM_IN n"
  shows "BREAK_TBL_HDL (MAKE_TBL_HDL (ucast (h :: u8)) n) = (n, ucast h)"
  by (rule make_break_tbl_hdl [OF assms])

theorem tbl_hdl_roundtrip_witness: "BREAK_TBL_HDL (MAKE_TBL_HDL 1 IPA_NAT_MEM_IN_SRAM) = (IPA_NAT_MEM_IN_SRAM, 1)"
  using tbl_hdl_roundtrip [of IPA_NAT_MEM_IN_SRAM 1] by (simp add: IPA_VALID_NAT_MEM_IN_def)

text \<open>
  The 32-byte layout of a NAT rule holds every field: reading the sixteen 16-bit words of a rule back
  gives the rule, and writing the words that were read gives the same words, so no two fields overlap
  and no bit of the layout is lost.
\<close>

theorem nat_rule_layout:
  "nat_rule_of_hw (nat_rule_hw r) = r \<and> (length ws = 16 \<longrightarrow> nat_rule_hw (nat_rule_of_hw ws) = ws)"
  using nat_rule_of_hw_hw nat_rule_hw_of_hw by blast

theorem nat_rule_layout_witness: "nat_rule_hw (nat_rule_of_hw (replicate 16 0xABCD)) = replicate 16 0xABCD"
  using nat_rule_layout [of _ "replicate 16 0xABCD"] by simp

subsection \<open>Tables\<close>

text \<open>
  C19. Creating a table in a free slot, for a kernel that places a table at the start of the memory it allocates and a
  mutex that works: whatever else the allocations, the mapping and the requests to the kernel answer,
  \<open>ipa_NATI_add_ipv4_tbl\<close> returns. With code \<open>0\<close> the cache holds an empty, consistent pair of
  tables, its handle is returned, the public address is entry \<open>0\<close> of the table of public addresses, and the kernel
  holds one more block of table memory. With any other code the handle is \<open>0\<close>, the slot is still free, and every
  block of table memory that was allocated on the way is given back, unless the kernel refuses the release.
\<close>

theorem add_tbl_creates:
  assumes "slot_free g n" and "alloc_at_zero env" and "mutex_works env"
  shows "\<exists>ret g' hdl w'. ipa_NATI_add_ipv4_tbl env g n ip num w = Some (ret, g', hdl, w') \<and>
           (if ret = 0 then hdl = tbl_hdl_of n \<and> nat_ready g' n spec_empty \<and> active_nat_cache g' = Some n \<and>
                 p_public_ip (pdns g' ! 0) = ip \<and> num_pdns g' = 1 \<and> (table_memory env cnt \<longrightarrow> cnt w' = cnt w + 1)
            else hdl = 0 \<and> slot_free g' n \<and> (table_memory env cnt \<and> releases_accepted env \<longrightarrow> cnt w' = cnt w))"
proof -
  obtain ret g' hdl w' where a: "ipa_NATI_add_ipv4_tbl env g n ip num w = Some (ret, g', hdl, w')"
    and o: "if ret = 0 then hdl = tbl_hdl_of n \<and> nat_ready g' n spec_empty \<and> active_nat_cache g' = Some n \<and>
              p_public_ip (pdns g' ! 0) = ip \<and> num_pdns g' = 1 else hdl = 0 \<and> slot_free g' n"
    using add_tbl_slot [OF assms, of ip num w] by blast
  then show ?thesis using add_tbl_counts [OF _ assms(3) a, of cnt] by (cases "ret = 0") auto
qed

text \<open>A kernel that counts its blocks of table memory and refuses to initialise a table.\<close>

definition init_fails_env :: "int nat_env" where
  "init_fails_env =
     \<lparr>pthread_mutex_lock = (\<lambda>w. (0, w)), pthread_mutex_unlock = (\<lambda>w. (0, w)),
      os_open = (\<lambda>path w. (3, w)), os_close = (\<lambda>f w. (0, w)), os_mmap = (\<lambda>sz f w. (Some 0x10000, w)),
      os_munmap = (\<lambda>a sz w. w), os_calloc = (\<lambda>k w. (True, w)),
      os_clock_gettime = (\<lambda>w. ((0, \<lparr>tv_sec = 1, tv_nsec = 0\<rparr>), w)),
      ioctl_hw_version = (\<lambda>f w. ((0, 17), w)), ioctl_sram_info = (\<lambda>f w. ((- 1, sram_info_zero), w)),
      ioctl_alloc = (\<lambda>num f sz w. ((0, 0), w + 1)), ioctl_del = (\<lambda>num f idx mem w. (0, w - 1)),
      ioctl_v4_init = (\<lambda>f cmd w. (- 1, w)), ioctl_modify_pdn = (\<lambda>f e w. (0, w)), ioctl_clock_vote = (\<lambda>f v w. (0, w)),
      ioctl_table_dma = (\<lambda>f cmd m w. ((0, m), w))\<rparr>"

theorem add_tbl_creates_witness:
  "\<exists>ret g'. ipa_NATI_add_ipv4_tbl init_fails_env nat_globals_init IPA_NAT_MEM_IN_DDR 7 100 5 = Some (ret, g', 0, 5) \<and>
     ret \<noteq> 0 \<and> slot_free g' IPA_NAT_MEM_IN_DDR"
proof -
  have e: "alloc_at_zero init_fails_env" "mutex_works init_fails_env" "releases_accepted init_fails_env"
    "table_memory init_fails_env (\<lambda>w. w)"
    by (simp_all add: alloc_at_zero_def mutex_works_def releases_accepted_def table_memory_def init_fails_env_def)
  have f: "fst (the (ipa_NATI_add_ipv4_tbl init_fails_env nat_globals_init IPA_NAT_MEM_IN_DDR 7 100 5)) \<noteq> 0"
    by (simp add: create_simps init_fails_env_def ipa_nati_destroy_table_def ipa_mem_descriptor_delete_def DeallocateMemory_def)
  from add_tbl_creates [OF globals_init_free e(1,2), of IPA_NAT_MEM_IN_DDR 7 100 5 "\<lambda>w. w"] f e(3,4) show ?thesis
    by (auto simp: IPA_VALID_NAT_MEM_IN_def)
qed

text \<open>
  C30. Deleting a table frees its slot and closes the driver. When the kernel refuses to release the
  memory the slot is wedged instead: it counts a table that is not valid any more, so that every later
  creation and every later deletion is refused with \<open>-EINVAL\<close>.
\<close>

theorem del_tbl_frees_or_wedges:
  assumes "nat_ready g n s" and "mutex_works env"
  shows "\<exists>ret g' w'. ipa_NATI_del_ipv4_table env g (tbl_hdl_of n) w = Some (ret, g', w') \<and>
           (if ret = 0 then slot_free g' n \<and> ipa_desc (the_cache g' n) = None
            else (\<exists>g2 w2. ipa_NATI_add_ipv4_tbl env g' n ip num w' = Some (- EINVAL, g2, 0, w2)) \<and>
                 (\<exists>w2. ipa_NATI_del_ipv4_table env g' (tbl_hdl_of n) w' = Some (- EINVAL, g', w2)))"
proof -
  obtain ret g' w' where run: "ipa_NATI_del_ipv4_table env g (tbl_hdl_of n) w = Some (ret, g', w')"
    and out: "if ret = 0 then slot_free g' n \<and> ipa_desc (the_cache g' n) = None else wedged g' n"
    using del_table_slot [OF assms] by blast
  show ?thesis using run out wedged_add [OF _ assms(2)] wedged_del [OF _ assms(2)] by (cases "ret = 0") fastforce+
qed

theorem del_tbl_frees_or_wedges_witness:
  "\<exists>ret g' w'. ipa_NATI_del_ipv4_table senv sample_globals (tbl_hdl_of IPA_NAT_MEM_IN_DDR) () = Some (ret, g', w') \<and>
           (if ret = 0 then slot_free g' IPA_NAT_MEM_IN_DDR \<and> ipa_desc (the_cache g' IPA_NAT_MEM_IN_DDR) = None
            else (\<exists>g2 w2. ipa_NATI_add_ipv4_tbl senv g' IPA_NAT_MEM_IN_DDR 7 100 w' = Some (- EINVAL, g2, 0, w2)) \<and>
                 (\<exists>w2. ipa_NATI_del_ipv4_table senv g' (tbl_hdl_of IPA_NAT_MEM_IN_DDR) w' = Some (- EINVAL, g', w2)))"
  by (rule del_tbl_frees_or_wedges [OF sample_ready sample_mutex])

text \<open>
  Clearing a table that exists always succeeds and leaves the empty table: no rule in either of the two
  tables, whatever they held.
\<close>

theorem clear_tbl_empties:
  assumes "nat_ready g n s" and "mutex_works env"
  shows "\<exists>g' w'. ipa_NATI_clear_ipv4_tbl env g (tbl_hdl_of n) w = Some (0, g', w') \<and> nat_ready g' n spec_empty"
  using clear_tbl_ready [OF assms] by metis

theorem clear_tbl_empties_witness:
  "\<exists>g' w'. ipa_NATI_clear_ipv4_tbl senv sample_globals2 (tbl_hdl_of IPA_NAT_MEM_IN_DDR) () = Some (0, g', w') \<and>
     nat_ready g' IPA_NAT_MEM_IN_DDR spec_empty"
proof -
  obtain s where "nat_ready sample_globals2 IPA_NAT_MEM_IN_DDR s" using sample_added by blast
  from clear_tbl_empties [OF this sample_mutex] show ?thesis .
qed

subsection \<open>Rules\<close>

text \<open>
  C7. Adding a rule refines the abstract insertion. For every accepted rule the call returns. With code \<open>0\<close>
  the rule is at a position that was free, it is the last of its chain in the NAT table and in the index
  table, it carries the checksums and fields of \<open>installed_rule\<close>, and nothing else changed; the returned
  handle is that of the position. With any other code (no room in one of the tables, or the kernel
  rejected the commands) the handle is \<open>0\<close> and the tables hold exactly the rules they held before: every
  partial insertion is withdrawn.
\<close>

theorem add_rule_refines:
  assumes "nat_ready g n s" and "dma_faithful env (the_nt g n)" and "mutex_works env" and "rule_accepted g u"
  shows "\<exists>ret g' hdl w'. ipa_NATI_add_ipv4_rule env g (tbl_hdl_of n) u w = Some (ret, g', Some hdl, w') \<and>
           (if ret = 0
            then \<exists>i < tot_n (nt_table (the_nt g n)). 0 < i \<and> sp_rules s i = None \<and> hdl = rule_hdl_of (the_nt g n) i \<and>
                   nat_ready g' n (spec_add i (nat_bucket g n u) (index_bucket g n u) (installed_rule (pdns g) u) s)
            else hdl = 0 \<and> nat_ready g' n s)"
  using add_rule_ready [OF assms, of w] by (elim exE conjE) (intro exI conjI; assumption)

theorem add_rule_refines_witness:
  "\<exists>ret g' hdl w'. ipa_NATI_add_ipv4_rule senv sample_globals (tbl_hdl_of IPA_NAT_MEM_IN_DDR) sample_rule () = Some (ret, g', Some hdl, w') \<and>
     (if ret = 0
      then \<exists>i < tot_n (nt_table (the_nt sample_globals IPA_NAT_MEM_IN_DDR)). 0 < i \<and> sp_rules spec_empty i = None \<and>
             hdl = rule_hdl_of (the_nt sample_globals IPA_NAT_MEM_IN_DDR) i \<and>
             nat_ready g' IPA_NAT_MEM_IN_DDR (spec_add i (nat_bucket sample_globals IPA_NAT_MEM_IN_DDR sample_rule)
               (index_bucket sample_globals IPA_NAT_MEM_IN_DDR sample_rule) (installed_rule (pdns sample_globals) sample_rule) spec_empty)
      else hdl = 0 \<and> nat_ready g' IPA_NAT_MEM_IN_DDR spec_empty)"
  by (rule add_rule_refines [OF sample_ready sample_dma sample_mutex sample_accepted])

text \<open>
  C18. Adding succeeds whenever it can: if in each of the two tables the bucket of the rule is empty or a
  record of the expansion area is free, and the kernel accepts commands, the code is \<open>0\<close>.
\<close>

theorem add_rule_succeeds:
  assumes "nat_ready g n s" and "dma_faithful env (the_nt g n)" and "mutex_works env" and "rule_accepted g u"
    and "has_room (the_nt g n) (nat_bucket g n u) (index_bucket g n u)" and "dma_accepts env"
  shows "\<exists>g' hdl w'. ipa_NATI_add_ipv4_rule env g (tbl_hdl_of n) u w = Some (0, g', Some hdl, w')"
  using add_rule_ready [OF assms(1-4), of w] assms(5,6) by auto

theorem add_rule_succeeds_witness:
  "\<exists>g' hdl w'. ipa_NATI_add_ipv4_rule senv sample_globals (tbl_hdl_of IPA_NAT_MEM_IN_DDR) sample_rule () = Some (0, g', Some hdl, w')"
  by (rule add_rule_succeeds [OF sample_ready sample_dma sample_mutex sample_accepted sample_room sample_accepts])

text \<open>
  A rule with the reserved protocol or with a public address that is not set is refused with \<open>-EINVAL\<close>
  before the lock is taken: neither the driver's state nor that of the operating system changes, and the
  handle is \<open>0\<close>. (For a \<open>pdn_index\<close> outside the table of public addresses the error message itself reads
  outside the table.)
\<close>

theorem add_rule_refused:
  assumes "nat_ready g n s" and "\<not> rule_accepted g u"
  shows "ipa_NATI_add_ipv4_rule env g (tbl_hdl_of n) u w =
     (if u_protocol u = IPAHAL_NAT_INVALID_PROTOCOL \<or> unat (u_pdn_index u) < IPA_MAX_PDN_NUM
      then Some (- EINVAL, g, Some 0, w) else None)"
  by (rule add_rule_rejected [OF conjunct1 [OF assms(1) [unfolded nat_ready_def]] assms(2)])

theorem add_rule_refused_witness:
  "ipa_NATI_add_ipv4_rule senv sample_globals (tbl_hdl_of IPA_NAT_MEM_IN_DDR) (sample_rule\<lparr>u_protocol := 0xFF\<rparr>) ()
     = Some (- EINVAL, sample_globals, Some 0, ())"
  using add_rule_refused [OF sample_ready, of "sample_rule\<lparr>u_protocol := 0xFF\<rparr>" senv "()"]
  by (simp add: rule_accepted_def IPAHAL_NAT_INVALID_PROTOCOL_def)

text \<open>
  C8. Deleting a rule refines the abstract removal: for the handle of a rule the table holds the call
  returns, and with code \<open>0\<close> exactly this rule is gone from the rules, from its chain in the NAT table and
  from its chain in the index table, while the order of all others is kept. The only other code is \<open>-EIO\<close>,
  and only when the kernel rejects the commands.
\<close>

theorem del_rule_refines:
  assumes "nat_ready g n s" and "dma_faithful env (the_nt g n)" and "mutex_works env" and "sp_rules s i = Some v"
  shows "\<exists>ret g' w'. ipa_NATI_del_ipv4_rule env g (tbl_hdl_of n) (rule_hdl_of (the_nt g n) i) w = Some (ret, g', w') \<and>
           (if ret = 0 then nat_ready g' n (spec_del i s) else ret = - EIO \<and> \<not> dma_accepts env)"
proof -
  obtain ret g' w' where
    "ipa_NATI_del_ipv4_rule env g (tbl_hdl_of n) (rule_hdl_of (the_nt g n) i) w = Some (ret, g', w')"
    "if ret = 0 then kept (the_nt g n) (the_nt g' n) \<and> nat_ready g' n (spec_del i s)
     else ret = - EIO \<and> \<not> dma_accepts env \<and> g' = put_nt g n (del_aborted (the_nt g n) (to_indx (recs (nt_table (the_nt g n))) i))"
    using del_rule_ready [OF assms, of w] by blast
  then show ?thesis by (cases "ret = 0") auto
qed

theorem del_rule_refines_witness:
  "\<exists>i s ret g' w'. nat_ready sample_globals2 IPA_NAT_MEM_IN_DDR s \<and> sp_rules s i \<noteq> None \<and>
     ipa_NATI_del_ipv4_rule senv sample_globals2 (tbl_hdl_of IPA_NAT_MEM_IN_DDR)
       (rule_hdl_of (the_nt sample_globals2 IPA_NAT_MEM_IN_DDR) i) () = Some (ret, g', w') \<and>
     ret = 0 \<and> nat_ready g' IPA_NAT_MEM_IN_DDR (spec_del i s)"
proof -
  obtain i s v where s: "nat_ready sample_globals2 IPA_NAT_MEM_IN_DDR s" "sp_rules s i = Some v"
    "dma_faithful senv (the_nt sample_globals2 IPA_NAT_MEM_IN_DDR)" using sample_added by blast
  obtain ret g' w' where "ipa_NATI_del_ipv4_rule senv sample_globals2 (tbl_hdl_of IPA_NAT_MEM_IN_DDR)
       (rule_hdl_of (the_nt sample_globals2 IPA_NAT_MEM_IN_DDR) i) () = Some (ret, g', w')"
    "if ret = 0 then nat_ready g' IPA_NAT_MEM_IN_DDR (spec_del i s) else ret = - EIO \<and> \<not> dma_accepts senv"
    using del_rule_refines [OF s(1,3) sample_mutex s(2)] by blast
  then show ?thesis using s by (cases "ret = 0") auto
qed

text \<open>
  Deleting a rule right after adding it restores the abstract state: the same rules, in the same
  chains, in the same order.
\<close>

theorem add_del_restores:
  assumes "nat_ready g n s" and "dma_faithful env (the_nt g n)" and "mutex_works env" and "rule_accepted g u"
    and "ipa_NATI_add_ipv4_rule env g (tbl_hdl_of n) u w = Some (0, g1, Some h, w1)"
    and "ipa_NATI_del_ipv4_rule env g1 (tbl_hdl_of n) h w2 = Some (0, g2, w3)"
  shows "nat_ready g2 n s"
proof -
  let ?s = "\<lambda>i. spec_add i (nat_bucket g n u) (index_bucket g n u) (installed_rule (pdns g) u) s"
  obtain i where i: "sp_rules s i = None" "h = rule_hdl_of (the_nt g n) i" and k: "kept (the_nt g n) (the_nt g1 n)"
    and r: "nat_ready g1 n (?s i)"
    using add_rule_ready [OF assms(1-4), of w] assms(5) by auto
  have v: "sp_rules (?s i) i = Some (installed_rule (pdns g) u)" by (simp add: spec_add_def)
  have "nat_ready g2 n (spec_del i (?s i))"
    using del_rule_ready [OF r dma_faithful_kept [OF k assms(2)] assms(3) v, of w2] assms(6) rule_hdl_kept [OF k] i(2) by auto
  then show ?thesis using spec_del_add [OF nat_ready_wf [OF assms(1)] i(1)] by simp
qed

theorem add_del_restores_witness:
  "\<exists>h g2. ipa_NATI_add_ipv4_rule senv sample_globals (tbl_hdl_of IPA_NAT_MEM_IN_DDR) sample_rule () = Some (0, sample_globals2, Some h, ()) \<and>
     ipa_NATI_del_ipv4_rule senv sample_globals2 (tbl_hdl_of IPA_NAT_MEM_IN_DDR) h () = Some (0, g2, ()) \<and>
     nat_ready g2 IPA_NAT_MEM_IN_DDR spec_empty"
proof -
  let ?n = IPA_NAT_MEM_IN_DDR
  obtain g1 h i where a: "ipa_NATI_add_ipv4_rule senv sample_globals (tbl_hdl_of ?n) sample_rule () = Some (0, g1, Some h, ())"
    and i: "h = rule_hdl_of (the_nt sample_globals ?n) i" and k: "kept (the_nt sample_globals ?n) (the_nt g1 ?n)"
    and r: "nat_ready g1 ?n (spec_add i (nat_bucket sample_globals ?n sample_rule) (index_bucket sample_globals ?n sample_rule)
              (installed_rule (pdns sample_globals) sample_rule) spec_empty)"
    using add_rule_ready [OF sample_ready sample_dma sample_mutex sample_accepted, of "()"] sample_room by auto
  have g1: "g1 = sample_globals2" using a by (simp add: sample_globals2_def)
  have df: "dma_faithful senv (the_nt g1 ?n)" by (rule dma_faithful_kept [OF k sample_dma])
  obtain g2 where d: "ipa_NATI_del_ipv4_rule senv g1 (tbl_hdl_of ?n) h () = Some (0, g2, ())"
    using del_rule_ready [OF r df sample_mutex, of i _ "()"] rule_hdl_kept [OF k] i sample_accepts
    by (auto simp: spec_add_def split: if_splits)
  show ?thesis using a d g1 add_del_restores [OF sample_ready sample_dma sample_mutex sample_accepted a d] by blast
qed

text \<open>
  The time stamp of a rule can be read with the rule's handle as long as the rule is there: it is the
  low 24 bits of the time stamp the rule was added with, whatever rules were added and deleted since.
\<close>

theorem query_returns_time_stamp:
  assumes "nat_ready g n s" and "mutex_works env" and "sp_rules s i = Some (installed_rule pd u)"
  shows "\<exists>w'. ipa_NATI_query_timestamp env g (tbl_hdl_of n) (rule_hdl_of (the_nt g n) i) w
           = Some (0, Some (u_time_stamp u AND mask 24), w')"
proof -
  obtain w' where "ipa_NATI_query_timestamp env g (tbl_hdl_of n) (rule_hdl_of (the_nt g n) i) w
      = Some (0, Some (ucast (r_time_stamp (installed_rule pd u))), w')" using query_ready [OF assms] .
  moreover have "(ucast (r_time_stamp (installed_rule pd u)) :: u32) = u_time_stamp u AND mask 24"
    by (simp add: installed_rule_def) (rule bit_word_eqI, auto simp: bit_simps)
  ultimately show ?thesis by auto
qed

theorem query_returns_time_stamp_witness:
  "\<exists>i s w'. nat_ready sample_globals2 IPA_NAT_MEM_IN_DDR s \<and>
     ipa_NATI_query_timestamp senv sample_globals2 (tbl_hdl_of IPA_NAT_MEM_IN_DDR)
       (rule_hdl_of (the_nt sample_globals2 IPA_NAT_MEM_IN_DDR) i) () = Some (0, Some 77, w')"
proof -
  obtain i s where s: "nat_ready sample_globals2 IPA_NAT_MEM_IN_DDR s"
    "sp_rules s i = Some (installed_rule (pdns sample_globals2) sample_rule)" using sample_added by blast
  have "u_time_stamp sample_rule AND mask 24 = 77" by (simp add: sample_rule_def mask_eq_exp_minus_1)
  then show ?thesis using query_returns_time_stamp [OF s(1) sample_mutex [of 128] s(2), of "()"] s(1) by auto
qed

subsection \<open>Sequences of calls\<close>

text \<open>
  C15. The invariant of the driver, over sequences of calls: starting with an empty table, after any
  number of successful and failing additions, deletions of rules the client holds the handle of, queries,
  clears and changes of the table of public addresses, as long as no deletion that the kernel refused has moved
  an index entry (the flag \<open>c\<close> of \<open>client_step\<close>; it never turns false when the kernel accepts every command),
  the two tables represent an abstract table that is well-formed (each rule once in one chain of each table), and
  the handles the client holds are exactly those of its rules, one for each.
\<close>

theorem client_invariant:
  assumes "mutex_works env" and "dma_faithful env (the_nt g n)" and "nat_ready g n spec_empty"
    and "(client_step env n)\<^sup>*\<^sup>* (g, w, {}, True) (g', w', H, c)"
  shows "(dma_accepts env \<longrightarrow> c) \<and>
    (c \<longrightarrow> (\<exists>s. nat_ready g' n s \<and> spec_wf s \<and> bij_betw (rule_hdl_of (the_nt g' n)) (dom (sp_rules s)) H))"
proof (intro conjI impI)
  have i: "client_inv env n (g, w, {}, True)" by (rule client_inv_I [OF assms(3,2)]) (simp add: handles_def spec_empty_def)
  show c if "dma_accepts env" using client_flag_kept [OF assms(4,1) that i] by simp
  assume c
  with client_reachable_inv [OF assms(4,1) i] obtain s where "nat_ready g' n s" "H = handles g' n s"
    by (auto elim: client_inv_D)
  then show "\<exists>s. nat_ready g' n s \<and> spec_wf s \<and> bij_betw (rule_hdl_of (the_nt g' n)) (dom (sp_rules s)) H"
    using nat_ready_wf handles_inj by (auto simp: bij_betw_def handles_def)
qed

theorem client_invariant_witness:
  "\<exists>h s. (client_step senv IPA_NAT_MEM_IN_DDR)\<^sup>*\<^sup>* (sample_globals, (), {}, True) (sample_globals2, (), {h}, True) \<and>
     nat_ready sample_globals2 IPA_NAT_MEM_IN_DDR s \<and>
     spec_wf s \<and> bij_betw (rule_hdl_of (the_nt sample_globals2 IPA_NAT_MEM_IN_DDR)) (dom (sp_rules s)) {h}"
proof -
  let ?n = IPA_NAT_MEM_IN_DDR
  obtain g1 h where a: "ipa_NATI_add_ipv4_rule senv sample_globals (tbl_hdl_of ?n) sample_rule () = Some (0, g1, Some h, ())"
    using add_rule_ready [OF sample_ready sample_dma sample_mutex sample_accepted, of "()"] sample_room by auto
  then have "g1 = sample_globals2" by (simp add: sample_globals2_def)
  then have st: "(client_step senv ?n)\<^sup>*\<^sup>* (sample_globals, (), {}, True) (sample_globals2, (), {h}, True)"
    using client_step.add [OF a, of "{}"] by auto
  show ?thesis using client_invariant [OF sample_mutex sample_dma sample_ready st] st by blast
qed

text \<open>
  C17. Every handle a client holds is usable: after any sequence of calls in which no deletion that the kernel refused
  has moved an index entry (\<open>client_step\<close>), reading the rule's time stamp succeeds, and deleting it returns without
  a fault and succeeds if the kernel accepts the commands.
\<close>

theorem held_handles_usable:
  assumes "mutex_works env" and "dma_faithful env (the_nt g n)" and "nat_ready g n spec_empty"
    and "(client_step env n)\<^sup>*\<^sup>* (g, w, {}, True) (g', w', H, True)" and "h \<in> H"
  shows "(\<exists>ts w2. ipa_NATI_query_timestamp env g' (tbl_hdl_of n) h w' = Some (0, Some ts, w2)) \<and>
    (\<exists>ret g2 w2. ipa_NATI_del_ipv4_rule env g' (tbl_hdl_of n) h w' = Some (ret, g2, w2) \<and> (dma_accepts env \<longrightarrow> ret = 0))"
proof -
  have "client_inv env n (g, w, {}, True)" by (rule client_inv_I [OF assms(3,2)]) (simp add: handles_def spec_empty_def)
  from client_reachable_inv [OF assms(4,1) this] obtain s where s: "nat_ready g' n s" "dma_faithful env (the_nt g' n)" "H = handles g' n s"
    by (rule client_inv_D)
  with assms(5) obtain i v where i: "sp_rules s i = Some v" "h = rule_hdl_of (the_nt g' n) i" by (auto simp: handles_def)
  obtain w2 where "ipa_NATI_query_timestamp env g' (tbl_hdl_of n) h w' = Some (0, Some (ucast (r_time_stamp v)), w2)"
    using query_ready [OF s(1) assms(1) i(1)] i(2) by metis
  moreover obtain ret g2 w3 where "ipa_NATI_del_ipv4_rule env g' (tbl_hdl_of n) h w' = Some (ret, g2, w3)" "dma_accepts env \<longrightarrow> ret = 0"
    using del_rule_ready [OF s(1,2) assms(1) i(1), of w'] i(2) by (auto split: if_splits)
  ultimately show ?thesis by blast
qed

theorem held_handles_usable_witness:
  "\<exists>h. (client_step senv IPA_NAT_MEM_IN_DDR)\<^sup>*\<^sup>* (sample_globals, (), {}, True) (sample_globals2, (), {h}, True) \<and>
     (\<exists>ts w2. ipa_NATI_query_timestamp senv sample_globals2 (tbl_hdl_of IPA_NAT_MEM_IN_DDR) h () = Some (0, Some ts, w2)) \<and>
     (\<exists>g2 w2. ipa_NATI_del_ipv4_rule senv sample_globals2 (tbl_hdl_of IPA_NAT_MEM_IN_DDR) h () = Some (0, g2, w2))"
proof -
  let ?n = IPA_NAT_MEM_IN_DDR
  obtain g1 h where a: "ipa_NATI_add_ipv4_rule senv sample_globals (tbl_hdl_of ?n) sample_rule () = Some (0, g1, Some h, ())"
    using add_rule_ready [OF sample_ready sample_dma sample_mutex sample_accepted, of "()"] sample_room by auto
  then have "g1 = sample_globals2" by (simp add: sample_globals2_def)
  then have st: "(client_step senv ?n)\<^sup>*\<^sup>* (sample_globals, (), {}, True) (sample_globals2, (), {h}, True)"
    using client_step.add [OF a, of "{}"] by auto
  show ?thesis using held_handles_usable [OF sample_mutex sample_dma sample_ready st, of h] st by auto
qed

subsection \<open>Public addresses\<close>

lemma first_idx_eq_Some:
  "first_idx P n xs = Some i \<longleftrightarrow> i < n \<and> i < length xs \<and> P (xs ! i) \<and> (\<forall>j<i. \<not> P (xs ! j))"
proof (induction P n xs arbitrary: i rule: first_idx.induct)
  case (3 P n x xs)
  show ?case using 3 by (cases i) (auto simp: less_Suc_eq_0_disj)
qed simp_all

lemma modify_pdn_cases:
  assumes "ipa_nati_modify_pdn env g e w = Some (r, g', w')"
  shows "g' = (if r = 0 then g\<lparr>pdns := (pdns g)[unat (pe_pdn_index e) := \<lparr>p_public_ip = pe_public_ip e,
             p_src_metadata = pe_src_metadata e, p_dst_metadata = pe_dst_metadata e\<rparr>]\<rparr> else g)"
  using assms by (auto simp: ipa_nati_modify_pdn_def errno_defs split: option.splits bind_splits if_splits prod.splits dest!: mem_write_SomeD)

lemma modify_pdn_returns:
  assumes "length (ipv4_nat_cache g) = 2" and "unat (pe_pdn_index e) < length (pdns g)"
  obtains r g' w' where "ipa_nati_modify_pdn env g e w = Some (r, g', w')"
proof -
  have "ipa_nati_modify_pdn env g e w \<noteq> None"
    using assms by (auto simp: ipa_nati_modify_pdn_def get_cache_def cache_idx_def split: option.splits prod.splits if_splits)
  then show thesis using that by auto
qed

lemma pdn_i: "i < 15 \<Longrightarrow> unat (of_nat i :: u8) = i"
  by (simp add: unat_of_nat take_bit_eq_mod)

text \<open>
  Allocating a public address always returns an answer. With code \<open>0\<close> the returned index is that of
  an entry with the requested address, looking the address up afterwards gives the same index, and all
  other entries are as they were; with any other code the driver's state is unchanged.
\<close>

theorem alloc_pdn_lookup:
  assumes "length (ipv4_nat_cache g) = 2" and "length (pdns g) = IPA_MAX_PDN_NUM"
  shows "\<exists>ret g' idx w'. ipa_nati_alloc_pdn env g info w = Some (ret, g', idx, w') \<and>
     (if ret = 0
      then \<exists>i<15. idx = Some (of_nat i) \<and> p_public_ip (pdns g' ! i) = p_public_ip info \<and>
             ipa_nati_get_pdn_index g' (p_public_ip info) = (0, Some (of_nat i)) \<and>
             (\<forall>j. j \<noteq> i \<longrightarrow> pdns g' ! j = pdns g ! j)
      else g' = g \<and> idx = None)"
proof (cases "int (IPA_MAX_PDN_NUM - 1) \<le> num_pdns g \<or>
    first_idx (\<lambda>p. p_public_ip p = p_public_ip info \<or> p = pdn_zero) (IPA_MAX_PDN_NUM - 1) (pdns g) = None")
  case True
  then have "ipa_nati_alloc_pdn env g info w = Some (- EIO, g, None, w)" by (auto simp: ipa_nati_alloc_pdn_def)
  then show ?thesis by (simp add: EIO_def)
next
  case False
  let ?P = "\<lambda>p. p_public_ip p = p_public_ip info \<or> p = pdn_zero"
  obtain i where fi: "first_idx ?P 15 (pdns g) = Some i" using False by (auto simp: IPA_MAX_PDN_NUM_def)
  then have i: "i < 15" "i < length (pdns g)" "?P (pdns g ! i)" "\<forall>j<i. \<not> ?P (pdns g ! j)" by (simp_all add: first_idx_eq_Some)
  have look: "ipa_nati_get_pdn_index g' (p_public_ip info) = (0, Some (of_nat i))"
    if "p_public_ip (pdns g' ! i) = p_public_ip info" "length (pdns g') = length (pdns g)" "\<forall>j. j \<noteq> i \<longrightarrow> pdns g' ! j = pdns g ! j" for g'
  proof -
    have "first_idx (\<lambda>p. p_public_ip p = p_public_ip info) 15 (pdns g') = Some i"
      unfolding first_idx_eq_Some using that i by (metis order_less_irrefl)
    then show ?thesis by (simp add: ipa_nati_get_pdn_index_def IPA_MAX_PDN_NUM_def)
  qed
  show ?thesis
  proof (cases "p_public_ip (pdns g ! i) = p_public_ip info")
    case True
    then show ?thesis using False fi i look [of g] by (auto simp: ipa_nati_alloc_pdn_def IPA_MAX_PDN_NUM_def)
  next
    case ne: False
    let ?e = "\<lparr>pe_pdn_index = of_nat i, pe_public_ip = p_public_ip info,
                  pe_src_metadata = p_src_metadata info, pe_dst_metadata = p_dst_metadata info\<rparr>"
    obtain r g1 w1 where m: "ipa_nati_modify_pdn env g ?e w = Some (r, g1, w1)"
      by (rule modify_pdn_returns [of g ?e env w]) (use assms i in \<open>simp_all add: pdn_i\<close>)
    note c = modify_pdn_cases [OF m]
    show ?thesis
    proof (cases "r = 0")
      case True
      let ?g = "g1\<lparr>num_pdns := num_pdns g1 + 1\<rparr>"
      have p: "p_public_ip (pdns ?g ! i) = p_public_ip info" "length (pdns ?g) = length (pdns g)" "\<forall>j. j \<noteq> i \<longrightarrow> pdns ?g ! j = pdns g ! j"
        using c True i by (simp_all add: pdn_i)
      then show ?thesis using False fi ne m True i(1) look [OF p] by (auto simp: ipa_nati_alloc_pdn_def IPA_MAX_PDN_NUM_def)
    next
      case False
      then show ?thesis using \<open>\<not> (_ \<or> _)\<close> fi ne m c by (auto simp: ipa_nati_alloc_pdn_def IPA_MAX_PDN_NUM_def)
    qed
  qed
qed

theorem alloc_pdn_lookup_witness:
  "\<exists>ret g' idx w'. ipa_nati_alloc_pdn senv sample_globals \<lparr>p_public_ip = 9, p_src_metadata = 0, p_dst_metadata = 0\<rparr> () = Some (ret, g', idx, w') \<and>
     (if ret = 0
      then \<exists>i<15. idx = Some (of_nat i) \<and> p_public_ip (pdns g' ! i) = 9 \<and> ipa_nati_get_pdn_index g' 9 = (0, Some (of_nat i)) \<and>
             (\<forall>j. j \<noteq> i \<longrightarrow> pdns g' ! j = pdns sample_globals ! j)
      else g' = sample_globals \<and> idx = None)"
proof -
  have "length (ipv4_nat_cache sample_globals) = 2" "length (pdns sample_globals) = IPA_MAX_PDN_NUM"
    using sample_ready by (simp_all add: nat_ready_def globals_ok_def)
  from alloc_pdn_lookup [OF this, of senv "\<lparr>p_public_ip = 9, p_src_metadata = 0, p_dst_metadata = 0\<rparr>" "()"] show ?thesis
    by (simp only: ipa_nat_pdn_entry.simps)
qed

text \<open>
  Releasing a public address that was just allocated in an empty entry gives the table of public
  addresses and its count back as they were.
\<close>

theorem alloc_dealloc_pdn:
  assumes "length (ipv4_nat_cache g) = 2" and "length (pdns g) = IPA_MAX_PDN_NUM"
    and "ipa_nati_alloc_pdn env g info w = Some (0, g1, Some idx, w1)" and "num_pdns g1 \<noteq> num_pdns g"
    and "ipa_nati_dealloc_pdn env g1 idx w2 = Some (0, g2, w3)"
  shows "pdns g2 = pdns g \<and> num_pdns g2 = num_pdns g"
proof -
  obtain i where i: "first_idx (\<lambda>p. p_public_ip p = p_public_ip info \<or> p = pdn_zero) 15 (pdns g) = Some i"
    and ne: "p_public_ip (pdns g ! i) \<noteq> p_public_ip info" and idx: "idx = of_nat i"
    and g1: "\<exists>g0. ipa_nati_modify_pdn env g \<lparr>pe_pdn_index = of_nat i, pe_public_ip = p_public_ip info,
                  pe_src_metadata = p_src_metadata info, pe_dst_metadata = p_dst_metadata info\<rparr> w = Some (0, g0, w1) \<and>
                  g1 = g0\<lparr>num_pdns := num_pdns g0 + 1\<rparr>"
    using assms(3,4) by (auto simp: ipa_nati_alloc_pdn_def IPA_MAX_PDN_NUM_def errno_defs split: if_splits option.splits bind_splits)
  have il: "i < 15" "i < length (pdns g)" "pdns g ! i = pdn_zero" using i ne by (auto simp: first_idx_eq_Some)
  obtain p where p: "pdns g1 = (pdns g)[i := p]" "num_pdns g1 = num_pdns g + 1"
    using g1 modify_pdn_cases il(1) by (fastforce simp: pdn_i)
  obtain g3 w4 where m: "ipa_nati_modify_pdn env g1 \<lparr>pe_pdn_index = idx, pe_public_ip = 0, pe_src_metadata = 0, pe_dst_metadata = 0\<rparr> w2 = Some (0, g3, w4)"
    and g2: "pdns g2 = (pdns g3)[i := pdn_zero]" "num_pdns g2 = num_pdns g3 - 1"
    using assms(5) il(1) by (auto simp: ipa_nati_dealloc_pdn_def idx pdn_i errno_defs split: if_splits option.splits bind_splits dest!: mem_write_SomeD)
  have "pdns g2 = (pdns g)[i := pdn_zero]" "num_pdns g2 = num_pdns g"
    using modify_pdn_cases [OF m] g2 p il(1) by (simp_all add: idx pdn_i)
  then show ?thesis using il(3) list_update_id [of "pdns g" i] by simp
qed

text \<open>The driver is open and no public address is set.\<close>

definition pdn_example :: nat_globals where
  "pdn_example = put_cache nat_globals_init IPA_NAT_MEM_IN_DDR (nat_cache_zero\<lparr>ipa_desc := Some \<lparr>fd = 3, ver = 17\<rparr>\<rparr>)"

theorem alloc_dealloc_pdn_witness:
  "\<exists>g1 g2. ipa_nati_alloc_pdn senv pdn_example \<lparr>p_public_ip = 9, p_src_metadata = 0, p_dst_metadata = 0\<rparr> () = Some (0, g1, Some 0, ()) \<and>
     num_pdns g1 = 1 \<and> ipa_nati_dealloc_pdn senv g1 0 () = Some (0, g2, ()) \<and>
     pdns g2 = pdns pdn_example \<and> num_pdns g2 = 0"
proof -
  let ?info = "\<lparr>p_public_ip = 9, p_src_metadata = 0, p_dst_metadata = 0\<rparr>"
  let ?g1 = "pdn_example\<lparr>pdns := (pdns pdn_example)[0 := ?info], num_pdns := 1\<rparr>"
  have g: "length (ipv4_nat_cache pdn_example) = 2" "length (pdns pdn_example) = IPA_MAX_PDN_NUM" "num_pdns pdn_example = 0"
    "pdns pdn_example = replicate 16 pdn_zero"
    by (simp_all add: pdn_example_def put_cache_def nat_globals_init_def IPA_MAX_PDN_NUM_def cache_idx_def)
  have "first_idx (\<lambda>p. p_public_ip p = 9 \<or> p = pdn_zero) 15 (replicate 16 pdn_zero) = Some 0"
    by (simp add: first_idx_eq_Some)
  then have a: "ipa_nati_alloc_pdn senv pdn_example ?info () = Some (0, ?g1, Some 0, ())"
    by (simp add: ipa_nati_alloc_pdn_def pdn_example_def put_cache_def nat_globals_init_def IPA_MAX_PDN_NUM_def ipa_nati_modify_pdn_def
        get_cache_def cache_idx_def nat_cache_zero_def mem_read_def mem_write_def sample_env_def pdn_zero_def)
  have "\<exists>g2. ipa_nati_dealloc_pdn senv ?g1 0 () = Some (0, g2, ())"
    by (simp add: ipa_nati_dealloc_pdn_def pdn_example_def put_cache_def nat_globals_init_def IPA_MAX_PDN_NUM_def ipa_nati_modify_pdn_def
        get_cache_def cache_idx_def nat_cache_zero_def mem_read_def mem_write_def sample_env_def pdn_zero_def)
  then obtain g2 where d: "ipa_nati_dealloc_pdn senv ?g1 0 () = Some (0, g2, ())" by blast
  show ?thesis using a d g(3) alloc_dealloc_pdn [OF g(1,2) a _ d] by (intro exI [of _ ?g1] exI [of _ g2]) simp
qed

end
