(* ===== verification/Nat_Stats.thy ===== *)
theory Nat_Stats
  imports Nat_Client
begin

unbundle bit_operations_syntax

section \<open>Statistics of a NAT table\<close>

text \<open>
  \<open>ipa_NATI_ipv4_tbl_stats\<close> terminates on every table the driver builds, and what it reports are the
  numbers of the chains the table represents. A chain counts when it has at least two records.
\<close>

subsection \<open>The length of a chain\<close>

lemma chain_len_loop_seg:
  assumes "seg (\<lambda>i. unat (nxt_of (rs ! i))) q p xs 0" and "\<forall>x\<in>set xs. 0 < x \<and> x < length rs \<and> x < 65536"
  shows "chain_len_loop nxt_of rs (of_nat (hd (xs @ [0]))) len = Some (len + of_nat (length xs))"
  using assms
proof (induction xs arbitrary: p len)
  case Nil
  then show ?case by (simp add: chain_len_loop.simps)
next
  case (Cons x xs)
  then have x: "unat (of_nat x :: u16) = x" "0 < x" "x < length rs" by (simp_all add: unat_of_nat_u16)
  then have nz: "(of_nat x :: u16) \<noteq> 0" by (metis unat_0 less_irrefl)
  have nx: "nxt_of (rs ! x) = of_nat (hd (xs @ [0]))" using Cons.prems(1) by (intro word_eq_of_natI) simp
  show ?case using Cons.IH [of x "len + 1"] Cons.prems x nz
    by (subst chain_len_loop.simps) (simp add: nx)
qed

text \<open>What the callback reports for the chain of a base record.\<close>

definition record_chain :: "nat \<Rightarrow> u32 \<times> ipa_nati_tbl_stats \<Rightarrow> u32 \<times> ipa_nati_tbl_stats" where
  "record_chain k csh =
     (if k < 2 then csh
      else (fst csh + of_nat k,
            (snd csh)\<lparr>tot_chains := tot_chains (snd csh) + 1,
               min_chain_len := (if min_chain_len (snd csh) = 0 then of_nat k else min (min_chain_len (snd csh)) (of_nat k)),
               max_chain_len := max (max_chain_len (snd csh)) (of_nat k)\<rparr>))"

lemma gen_chain_stats_base:
  assumes rep: "tbl_rep ifc ix t cs" and b: "b < base_n t" "vd ifc t b" and nx: "\<And>e. nxt_of e = entry_get_next_index ifc e"
  shows "call_walk_cb t (gen_chain_stats nxt_of t) b csh = Some (0, record_chain (length (cs b)) csh)"
proof -
  note ok = tbl_repD(1) [OF rep] and cr = tbl_repD(2) [OF rep]
  note t = tbl_okD [OF ok]
  have lt: "b < tot_n t" using b(1) t(2) by simp
  have ne: "cs b \<noteq> []" using chain_rep_base_valid_iff [OF cr _ b(1)] b(2) t(2) by simp
  then obtain ys where c: "cs b = b # ys" using chain_repD(3) [OF cr ne] by (cases "cs b") auto
  have u: "unat (of_nat b :: u16) = b" using ok lt by simp
  have br: "BREAK_RULE_HDL t (ucast (MakeEntryHdl t (of_nat b))) = (nmi t, False, of_nat b)"
    using make_break_hdl [OF t(6,9), of "of_nat b"] lt u b(1) by (simp add: word_le_nat_alt)
  have seg: "seg (nx ifc t) (pv ifc t) 0 (b # ys) 0" using chain_repD(6) [OF cr ne] c by simp
  have nxe: "nx ifc t = (\<lambda>i. unat (nxt_of (recs t ! i)))" by (intro ext) (simp add: nx_def nx)
  have nb: "nxt_of (recs t ! b) = of_nat (hd (ys @ [0]))"
    using seg by (intro word_eq_of_natI) (simp add: nxe)
  have rng: "\<forall>x\<in>set ys. 0 < x \<and> x < length (recs t) \<and> x < 65536"
    using tbl_rep_mem(1,2) [OF rep, of _ b] c t(3,4) by force
  have "length ys = card (set ys)" using rep_distinct [OF rep, of b] c by (simp add: distinct_card)
  also have "\<dots> \<le> card {..<5120::nat}" using tbl_rep_mem(1) [OF rep, of _ b] c t(3) by (intro card_mono) force+
  finally have len: "length ys \<le> 5120" by simp
  have k: "chain_len_loop nxt_of (recs t) (nxt_of (recs t ! b)) 1 = Some (1 + of_nat (length ys))"
    unfolding nb by (rule chain_len_loop_seg [of nxt_of _ "pv ifc t" b]) (use seg nxe rng in simp_all)
  have nz: "nxt_of (recs t ! b) \<noteq> 0 \<longleftrightarrow> ys \<noteq> []"
    using rng by (cases ys) (auto simp: nb, metis gr0_implies_Suc less_irrefl unat_0 unat_of_nat_u16)
  have kz: "(1 + of_nat (length ys) :: u32) \<noteq> 0"
  proof -
    have "unat (1 + of_nat (length ys) :: u32) = Suc (length ys)"
      using len unat_of_nat [of "Suc (length ys)", where 'a = 32] by (simp add: take_bit_eq_mod)
    then show ?thesis by (metis nat.distinct(1) unat_0)
  qed
  show ?thesis
    using br k nz kz c b(1) by (cases ys) (auto simp: call_walk_cb_def gen_chain_stats_def record_chain_def split_def)
qed

lemma walk_list_append:
  "walk_list t cb xs s = Some (0, s') \<Longrightarrow> walk_list t cb (xs @ ys) s = walk_list t cb ys s'"
  by (induction xs arbitrary: s) (auto split: bind_splits if_splits)

lemma walk_list_steps:
  assumes "\<And>x s. x \<in> set xs \<Longrightarrow> call_walk_cb t cb x s = Some (0, f x s)"
  shows "walk_list t cb xs s = Some (0, fold f xs s)"
  using assms by (induction xs arbitrary: s) auto

lemma gen_chain_stats_expn:
  assumes ok: "tbl_ok ix t" and i: "base_n t \<le> i" "i < tot_n t"
  shows "call_walk_cb t (gen_chain_stats nxt_of t) i csh = Some (1, csh)"
proof -
  note t = tbl_okD [OF ok]
  have u: "unat (of_nat i :: u16) = i" using ok i by simp
  have "BREAK_RULE_HDL t (ucast (MakeEntryHdl t (of_nat i))) = (nmi t, True, of_nat i)"
    using make_break_hdl [OF t(6,9), of "of_nat i"] i u by (simp add: word_le_nat_alt)
  then show ?thesis by (simp add: call_walk_cb_def gen_chain_stats_def split_def)
qed

subsection \<open>The numbers of all chains\<close>

text \<open>The lengths of the chains of a table, in the order of their buckets.\<close>

definition chain_lens :: "nat \<Rightarrow> (nat \<Rightarrow> nat list) \<Rightarrow> nat list" where
  "chain_lens te cs = filter (\<lambda>k. 2 \<le> k) (map (\<lambda>b. length (cs b)) [0..<te])"

text \<open>The statistics of a table whose chains have the lengths \<open>L\<close>.\<close>

definition stats_of :: "ipa3_nat_mem_in \<Rightarrow> 'e ipa_table \<Rightarrow> nat list \<Rightarrow> ipa_nati_tbl_stats" where
  "stats_of n t L =
     \<lparr>st_nmi = n, tot_ents = of_nat (tot_n t), tot_base_ents = of_nat (base_n t), tot_base_ents_filled = ucast (cur_tbl_cnt t),
      tot_expn_ents = of_nat (unat (expn_table_entries t)), tot_expn_ents_filled = ucast (cur_expn_tbl_cnt t),
      tot_chains = of_nat (length L), min_chain_len = of_nat (if L = [] then 0 else Min (set L)),
      max_chain_len = of_nat (Max (insert 0 (set L))),
      avg_chain_len = (if L = [] then (0, 1) else (of_nat (sum_list L), of_nat (length L)))\<rparr>"

definition walk_state :: "ipa_nati_tbl_stats \<Rightarrow> nat list \<Rightarrow> u32 \<times> ipa_nati_tbl_stats" where
  "walk_state st L =
     (of_nat (sum_list L),
      st\<lparr>tot_chains := of_nat (length L), min_chain_len := of_nat (if L = [] then 0 else Min (set L)),
         max_chain_len := of_nat (Max (insert 0 (set L)))\<rparr>)"

lemma of_nat_u32_less: "a < 2 ^ 32 \<Longrightarrow> b < 2 ^ 32 \<Longrightarrow> (of_nat a :: u32) \<le> of_nat b \<longleftrightarrow> a \<le> b"
  by (simp add: word_le_nat_alt unat_of_nat take_bit_eq_mod)

lemma of_nat_u32_min_max:
  assumes "a < 2 ^ 32" and "b < 2 ^ 32"
  shows "min (of_nat a :: u32) (of_nat b) = of_nat (min a b)" and "max (of_nat a :: u32) (of_nat b) = of_nat (max a b)"
  using of_nat_u32_less [OF assms] by (simp_all add: min_def max_def)

lemma record_chain_state:
  assumes "\<forall>k\<in>set L. 2 \<le> k \<and> k < 2 ^ 32" and "k < 2 ^ 32"
  shows "record_chain k (walk_state st L) = walk_state st (L @ filter (\<lambda>k. 2 \<le> k) [k])"
proof (cases "k < 2")
  case True
  then show ?thesis by (simp add: record_chain_def)
next
  case False
  have mx: "Max (insert 0 (set L)) < 2 ^ 32" using assms(1) by (subst Max_less_iff) auto
  show ?thesis
  proof (cases "L = []")
    case True
    then show ?thesis using False assms(2) of_nat_u32_min_max(2) [of 0 k] by (simp add: record_chain_def walk_state_def)
  next
    case ne: False
    have "Min (set L) \<in> set L" using ne by (intro Min_in) auto
    then have mn: "2 \<le> Min (set L)" "Min (set L) < 2 ^ 32" using assms(1) by auto
    then have "unat (of_nat (Min (set L)) :: u32) = Min (set L)" by (simp add: unat_of_nat take_bit_eq_mod)
    then have nz: "(of_nat (Min (set L)) :: u32) \<noteq> 0" using mn(1) by (metis not_numeral_le_zero unat_0)
    have "Min (insert k (set L)) = min (Min (set L)) k" "Max (insert 0 (insert k (set L))) = max (Max (insert 0 (set L))) k"
      using ne by (simp_all add: min.commute max.commute max.left_commute)
    then show ?thesis using False ne nz of_nat_u32_min_max(1) [OF mn(2) assms(2)] of_nat_u32_min_max(2) [OF mx assms(2)]
      by (simp add: record_chain_def walk_state_def)
  qed
qed

lemma fold_record_chain:
  assumes "\<forall>b\<in>set bs. length (cs b) < 2 ^ 32" and "\<forall>k\<in>set L. 2 \<le> k \<and> k < 2 ^ 32"
  shows "fold (\<lambda>b. record_chain (length (cs b))) bs (walk_state st L)
    = walk_state st (L @ filter (\<lambda>k. 2 \<le> k) (map (\<lambda>b. length (cs b)) bs))"
  using assms
proof (induction bs arbitrary: L)
  case (Cons b bs)
  let ?k = "length (cs b)"
  let ?M = "L @ filter (\<lambda>k. 2 \<le> k) [?k]"
  have M: "\<forall>k\<in>set ?M. 2 \<le> k \<and> k < 2 ^ 32" using Cons.prems by auto
  have "record_chain ?k (walk_state st L) = walk_state st ?M"
    by (rule record_chain_state [OF Cons.prems(2)]) (use Cons.prems(1) in simp)
  moreover have "fold (\<lambda>b. record_chain (length (cs b))) bs (walk_state st ?M)
      = walk_state st (?M @ filter (\<lambda>k. 2 \<le> k) (map (\<lambda>b. length (cs b)) bs))"
    by (rule Cons.IH [OF _ M]) (use Cons.prems(1) in simp)
  ultimately show ?case by (simp only: fold_simps list.map filter.simps append_assoc) (simp split: if_splits)
qed simp

lemma sum_list_bound: "\<forall>k\<in>set L. k \<le> (m :: nat) \<Longrightarrow> sum_list L \<le> length L * m"
  by (induction L) auto

lemma of_nat_u32_nonzero: "0 < k \<Longrightarrow> k < 2 ^ 32 \<Longrightarrow> (of_nat k :: u32) \<noteq> 0"
proof
  assume k: "0 < k" "k < 2 ^ 32" and "(of_nat k :: u32) = 0"
  then have "unat (of_nat k :: u32) = 0" by simp
  then show False using k by (simp add: unat_of_nat take_bit_eq_mod)
qed

lemma chain_lens_filled:
  assumes "\<And>b. b < te \<Longrightarrow> P b \<longleftrightarrow> cs b \<noteq> []"
  shows "filter (\<lambda>k. 2 \<le> k) (map (\<lambda>b. length (cs b)) (filter P [0..<te])) = chain_lens te cs"
  using assms unfolding chain_lens_def by (induction te) auto

lemma table_stats_spec:
  assumes rep: "tbl_rep ifc ix t cs" and nx: "\<And>e. nxt_of e = entry_get_next_index ifc e"
  shows "table_stats ifc nxt_of n t = Some (0, stats_of n t (chain_lens (base_n t) cs))"
proof -
  note ok = tbl_repD(1) [OF rep] and cr = tbl_repD(2) [OF rep]
  note t = tbl_okD [OF ok]
  let ?L = "chain_lens (base_n t) cs"
  let ?st = "stats_zero\<lparr>st_nmi := n, tot_base_ents := ucast (table_entries t),
                  tot_expn_ents := ucast (expn_table_entries t),
                  tot_ents := ucast (table_entries t) + ucast (expn_table_entries t),
                  tot_base_ents_filled := ucast (cur_tbl_cnt t), tot_expn_ents_filled := ucast (cur_expn_tbl_cnt t)\<rparr>"
  let ?bs = "filter (vd ifc t) [0..<base_n t]" and ?es = "filter (vd ifc t) [base_n t..<tot_n t]"
  have init: "(0, ?st) = walk_state ?st []" by (simp add: walk_state_def stats_zero_def)
  have small: "length (cs b) \<le> 5120" for b
  proof -
    have "length (cs b) = card (set (cs b))" using rep_distinct [OF rep] by (simp add: distinct_card)
    also have "\<dots> \<le> card {..<5120::nat}" using tbl_rep_mem(1) [OF rep, of _ b] t(3) by (intro card_mono) force+
    finally show ?thesis by simp
  qed
  have "walk_list t (gen_chain_stats nxt_of t) ?bs (0, ?st) = Some (0, fold (\<lambda>b. record_chain (length (cs b))) ?bs (0, ?st))"
    by (rule walk_list_steps) (use gen_chain_stats_base [OF rep _ _ nx] in auto)
  also have "fold (\<lambda>b. record_chain (length (cs b))) ?bs (0, ?st) = walk_state ?st ?L"
    unfolding init using fold_record_chain [of ?bs cs "[]" ?st] small
      chain_lens_filled [of "base_n t" "vd ifc t" cs] chain_rep_base_valid_iff [OF cr] t(2) by (simp add: le_less_trans [OF small])
  finally have bs: "walk_list t (gen_chain_stats nxt_of t) ?bs (0, ?st) = Some (0, walk_state ?st ?L)" .
  have es: "walk_list t (gen_chain_stats nxt_of t) ?es (walk_state ?st ?L) = Some (if ?es = [] then 0 else 1, walk_state ?st ?L)"
  proof (cases ?es)
    case (Cons e es)
    then have "e \<in> set ?es" by simp
    then have "base_n t \<le> e" "e < tot_n t" by auto
    then show ?thesis using Cons gen_chain_stats_expn [OF ok, of e nxt_of] by simp
  qed simp
  have upt: "[0..<tot_n t] = [0..<base_n t] @ [base_n t..<tot_n t]" using t(2) upt_add_eq_append [of 0 "base_n t" "tot_n t - base_n t"] by simp
  have f: "filter (slot_matches ifc WHEN_SLOT_FILLED t) xs = filter (vd ifc t) xs" for xs by (rule filter_cong) (auto simp: slot_matches_def)
  have walk: "ipa_table_walk ifc t 0 WHEN_SLOT_FILLED (gen_chain_stats nxt_of t) (0, ?st) = Some (if ?es = [] then 0 else 1, walk_state ?st ?L)"
    using ipa_table_walk_eq [OF ok, of 0 WHEN_SLOT_FILLED ifc "gen_chain_stats nxt_of t" "(0, ?st)"] t(1,2)
    by (simp add: f upt walk_list_append [OF bs] es)
  have nz: "?L \<noteq> [] \<longleftrightarrow> (of_nat (sum_list ?L) :: u32) \<noteq> 0 \<and> (of_nat (length ?L) :: u32) \<noteq> 0"
  proof (cases "?L = []")
    case False
    have L: "\<forall>k\<in>set ?L. k \<le> 5120 \<and> 0 < k" using small by (auto simp: chain_lens_def)
    have ll: "length ?L \<le> 5120" using t(2,3) length_filter_le [of "\<lambda>k. 2 \<le> k" "map (\<lambda>b. length (cs b)) [0..<base_n t]"]
      by (simp add: chain_lens_def)
    have "sum_list ?L \<le> length ?L * 5120" by (rule sum_list_bound) (use L in blast)
    also have "\<dots> < 2 ^ 32" using ll by simp
    finally have s1: "sum_list ?L < 2 ^ 32" .
    have s0: "0 < sum_list ?L" using False L by (cases ?L) auto
    show ?thesis using of_nat_u32_nonzero [OF s0 s1] of_nat_u32_nonzero [of "length ?L"] ll False by simp
  qed simp
  show ?thesis using walk nz t(5)
    by (simp add: table_stats_def Let_def walk_state_def stats_of_def stats_zero_def)
qed

text \<open>
  C31. Gathering the statistics of a table that exists terminates with code \<open>0\<close> and reports the chains the two
  tables represent: the number of chains with at least two records, their shortest and longest length and
  the operands of the average, together with the sizes of the areas and their fill counts. The totals fit
  into 32 bits.
\<close>

theorem tbl_stats_exact:
  assumes "nat_ready g n s" and "mutex_works env"
  shows "\<exists>cs xs w'. nat_inv (the_nt g n) cs xs \<and> spec_of (the_nt g n) cs xs = s \<and>
     ipa_NATI_ipv4_tbl_stats env g (tbl_hdl_of n) w =
       Some (0, Some (stats_of n (nt_table (the_nt g n)) (chain_lens (base_n (nt_table (the_nt g n))) cs),
                      stats_of n (nt_index_table (the_nt g n)) (chain_lens (base_n (nt_index_table (the_nt g n))) xs)), w')"
proof -
  obtain cs xs where g: "globals_ok g n" and inv: "nat_inv (the_nt g n) cs xs" and s: "spec_of (the_nt g n) cs xs = s"
    using nat_readyD [OF assms(1)] by metis
  note gd = globals_okD [OF g]
  obtain w1 where w1: "pthread_mutex_lock env w = (0, w1)" using mutex_works_lock [OF assms(2)] .
  obtain w2 where w2: "unlock_ret env 0 w1 = (0, w2)" using mutex_works_unlock [OF assms(2)] .
  have ts: "table_stats (entry_interface (pdns g)) r_next_index n (nt_table (the_nt g n))
      = Some (0, stats_of n (nt_table (the_nt g n)) (chain_lens (base_n (nt_table (the_nt g n))) cs))"
    "table_stats index_entry_interface x_next_index n (nt_index_table (the_nt g n))
      = Some (0, stats_of n (nt_index_table (the_nt g n)) (chain_lens (base_n (nt_index_table (the_nt g n))) xs))"
    by (rule table_stats_spec [OF nat_invD(2) [OF inv]] table_stats_spec [OF nat_invD(3) [OF inv]];
        simp add: entry_interface_defs index_interface_defs)+
  show ?thesis
    using gd w1 w2 ts inv s tbl_hdl_of_facts [OF gd(1)] assms(1)
    by (intro exI [of _ cs] exI [of _ xs] exI [of _ w2]) (simp add: ipa_NATI_ipv4_tbl_stats_def nat_ready_def)
qed

theorem tbl_stats_exact_witness:
  "\<exists>cs xs w'. nat_inv (the_nt sample_globals IPA_NAT_MEM_IN_DDR) cs xs \<and>
     spec_of (the_nt sample_globals IPA_NAT_MEM_IN_DDR) cs xs = spec_empty \<and>
     ipa_NATI_ipv4_tbl_stats senv sample_globals (tbl_hdl_of IPA_NAT_MEM_IN_DDR) () =
       Some (0, Some (stats_of IPA_NAT_MEM_IN_DDR (nt_table (the_nt sample_globals IPA_NAT_MEM_IN_DDR)) (chain_lens 128 cs),
                      stats_of IPA_NAT_MEM_IN_DDR (nt_index_table (the_nt sample_globals IPA_NAT_MEM_IN_DDR))
                        (chain_lens (base_n (nt_index_table (the_nt sample_globals IPA_NAT_MEM_IN_DDR))) xs)), w')"
  using tbl_stats_exact [OF sample_ready sample_mutex [of 128], of "()"] by (simp add: sample_created(2))

end
