(* ===== verification/Ipv6ct_Entry.thy ===== *)
theory Ipv6ct_Entry
  imports Nat_Entry
begin

unbundle bit_operations_syntax

section \<open>Records of the IPv6 connection tracking table\<close>

text \<open>
  The record layout of \<open>ipa_ipv6cti.h\<close>, the user's rule of \<open>ipa_ipv6ct.h\<close>, and the entry interface and the
  hash function of \<open>ipa_ipv6ct.c\<close>. A record is eight 64-bit words; \<open>ct_words\<close> and \<open>ct_of_words\<close> are the
  layout of the bit-fields, and a 16-bit store at a byte offset replaces 16 bits of one word. The static
  functions that have the same names as those of the NAT driver carry the prefix \<open>ct_\<close>.
\<close>

subsection \<open>Layout\<close>

record ipa_ipv6ct_hw_entry =
  c_src_ipv6_lsb :: u64
  c_src_ipv6_msb :: u64
  c_dest_ipv6_lsb :: u64
  c_dest_ipv6_msb :: u64
  c_uc_activation_index :: "13 word"
  c_s :: bool
  c_rsvd1 :: u16
  c_redirect :: bool
  c_enable :: bool
  c_time_stamp :: "24 word"
  c_protocol :: u8
  c_next_index :: u16
  c_dest_port :: u16
  c_src_port :: u16
  c_ucp :: bool
  c_rsvd2 :: "5 word"
  c_out_allowed :: bool
  c_in_allowed :: bool
  c_rsvd3 :: u8
  c_rsvd4 :: "48 word"
  c_prev_index :: u16
  c_rsvd5 :: u64

instantiation ipa_ipv6ct_hw_entry_ext :: (zero) zero
begin
definition zero_ipa_ipv6ct_hw_entry_ext :: "'a ipa_ipv6ct_hw_entry_ext" where
  "zero_ipa_ipv6ct_hw_entry_ext =
     ipa_ipv6ct_hw_entry_ext 0 0 0 0 0 False 0 False False 0 0 0 0 0 False 0 False False 0 0 0 0 0"
instance ..
end

text \<open>The word with the flags and the protocol, the word with the next index, the word with the previous index.\<close>

definition ct_flags_word :: "13 word \<Rightarrow> bool \<Rightarrow> u16 \<Rightarrow> bool \<Rightarrow> bool \<Rightarrow> 24 word \<Rightarrow> u8 \<Rightarrow> u64" where
  "ct_flags_word uc s rsvd1 redirect enable ts proto =
     ucast uc OR push_bit 13 (of_bool s) OR push_bit 14 (ucast rsvd1) OR push_bit 30 (of_bool redirect) OR
     push_bit 31 (of_bool enable) OR push_bit 32 (ucast ts) OR push_bit 56 (ucast proto)"

definition ct_links_word :: "u16 \<Rightarrow> u16 \<Rightarrow> u16 \<Rightarrow> bool \<Rightarrow> 5 word \<Rightarrow> bool \<Rightarrow> bool \<Rightarrow> u8 \<Rightarrow> u64" where
  "ct_links_word nxt dport sport ucp rsvd2 out_a in_a rsvd3 =
     ucast nxt OR push_bit 16 (ucast dport) OR push_bit 32 (ucast sport) OR push_bit 48 (of_bool ucp) OR
     push_bit 49 (ucast rsvd2) OR push_bit 54 (of_bool out_a) OR push_bit 55 (of_bool in_a) OR push_bit 56 (ucast rsvd3)"

definition ct_prev_word :: "48 word \<Rightarrow> u16 \<Rightarrow> u64" where
  "ct_prev_word rsvd4 prev = ucast rsvd4 OR push_bit 48 (ucast prev)"

definition ct_words :: "ipa_ipv6ct_hw_entry \<Rightarrow> u64 list" where
  "ct_words e =
     [c_src_ipv6_lsb e, c_src_ipv6_msb e, c_dest_ipv6_lsb e, c_dest_ipv6_msb e,
      ct_flags_word (c_uc_activation_index e) (c_s e) (c_rsvd1 e) (c_redirect e) (c_enable e) (c_time_stamp e) (c_protocol e),
      ct_links_word (c_next_index e) (c_dest_port e) (c_src_port e) (c_ucp e) (c_rsvd2 e) (c_out_allowed e) (c_in_allowed e) (c_rsvd3 e),
      ct_prev_word (c_rsvd4 e) (c_prev_index e), c_rsvd5 e]"

definition ct_of_words :: "u64 list \<Rightarrow> ipa_ipv6ct_hw_entry" where
  "ct_of_words ws =
     \<lparr>c_src_ipv6_lsb = ws ! 0, c_src_ipv6_msb = ws ! 1, c_dest_ipv6_lsb = ws ! 2, c_dest_ipv6_msb = ws ! 3,
      c_uc_activation_index = ucast (ws ! 4), c_s = bit (ws ! 4) 13, c_rsvd1 = ucast (drop_bit 14 (ws ! 4)),
      c_redirect = bit (ws ! 4) 30, c_enable = bit (ws ! 4) 31, c_time_stamp = ucast (drop_bit 32 (ws ! 4)),
      c_protocol = ucast (drop_bit 56 (ws ! 4)),
      c_next_index = ucast (ws ! 5), c_dest_port = ucast (drop_bit 16 (ws ! 5)), c_src_port = ucast (drop_bit 32 (ws ! 5)),
      c_ucp = bit (ws ! 5) 48, c_rsvd2 = ucast (drop_bit 49 (ws ! 5)), c_out_allowed = bit (ws ! 5) 54,
      c_in_allowed = bit (ws ! 5) 55, c_rsvd3 = ucast (drop_bit 56 (ws ! 5)),
      c_rsvd4 = ucast (ws ! 6), c_prev_index = ucast (drop_bit 48 (ws ! 6)), c_rsvd5 = ws ! 7\<rparr>"

definition set16 :: "u64 \<Rightarrow> nat \<Rightarrow> u16 \<Rightarrow> u64" where
  "set16 x k v = (x AND NOT (push_bit k 0xFFFF)) OR push_bit k (ucast v)"

definition ct_write16 :: "ipa_ipv6ct_hw_entry \<Rightarrow> nat \<Rightarrow> u16 \<Rightarrow> ipa_ipv6ct_hw_entry" where
  "ct_write16 e off v =
     ct_of_words ((ct_words e)[off div 8 := set16 (ct_words e ! (off div 8)) (8 * (off mod 8)) v])"

subsection \<open>The layout is a bijection\<close>

lemma bit_ct_flags_word:
  "n < 64 \<Longrightarrow> bit (ct_flags_word uc s r rd en ts p) n =
     (if n < 13 then bit uc n else if n = 13 then s else if n < 30 then bit r (n - 14) else if n = 30 then rd
      else if n = 31 then en else if n < 56 then bit ts (n - 32) else bit p (n - 56))"
  by (auto simp: ct_flags_word_def bit_simps dest: bit_imp_le_length)

lemma bit_ct_links_word:
  "n < 64 \<Longrightarrow> bit (ct_links_word nxt dp sp ucp r2 oa ia r3) n =
     (if n < 16 then bit nxt n else if n < 32 then bit dp (n - 16) else if n < 48 then bit sp (n - 32) else if n = 48 then ucp
      else if n < 54 then bit r2 (n - 49) else if n = 54 then oa else if n = 55 then ia else bit r3 (n - 56))"
  by (auto simp: ct_links_word_def bit_simps dest: bit_imp_le_length)

lemma bit_ct_prev_word:
  "n < 64 \<Longrightarrow> bit (ct_prev_word r p) n = (if n < 48 then bit r n else bit p (n - 48))"
  by (auto simp: ct_prev_word_def bit_simps dest: bit_imp_le_length)

lemma bit_set16:
  "n < 64 \<Longrightarrow> bit (set16 x k v) n = (if k \<le> n \<and> n < k + 16 then bit v (n - k) else bit x n)"
proof -
  have m: "(0xFFFF :: u64) = mask 16" by (simp add: mask_eq_exp_minus_1)
  assume "n < 64"
  then show ?thesis unfolding set16_def m by (auto simp: bit_simps dest: bit_imp_le_length)
qed

lemma ct_of_words_words: "ct_of_words (ct_words e) = e"
  by (cases e) (auto simp: ct_of_words_def ct_words_def bit_ct_flags_word bit_ct_links_word
      intro!: bit_word_eqI simp: bit_simps bit_ct_prev_word dest: bit_imp_le_length)

lemma bit_word64_eqI: "(\<And>n. n < 64 \<Longrightarrow> bit (a :: u64) n = bit b n) \<Longrightarrow> a = b"
  by (rule bit_word_eqI) simp

lemma ct_flags_of_word:
  "ct_flags_word (ucast x) (bit x 13) (ucast (drop_bit 14 x)) (bit x 30) (bit x 31) (ucast (drop_bit 32 x)) (ucast (drop_bit 56 x)) = x"
proof (rule bit_word64_eqI)
  fix n :: nat assume n: "n < 64"
  then consider "n < 13" | "n = 13" | "14 \<le> n" "n < 30" | "n = 30" | "n = 31" | "32 \<le> n" "n < 56" | "56 \<le> n" by linarith
  then show "bit (ct_flags_word (ucast x) (bit x 13) (ucast (drop_bit 14 x)) (bit x 30) (bit x 31) (ucast (drop_bit 32 x)) (ucast (drop_bit 56 x))) n = bit x n"
    by cases (use n in \<open>auto simp: bit_ct_flags_word bit_simps\<close>)
qed

lemma ct_links_of_word:
  "ct_links_word (ucast x) (ucast (drop_bit 16 x)) (ucast (drop_bit 32 x)) (bit x 48) (ucast (drop_bit 49 x)) (bit x 54) (bit x 55)
     (ucast (drop_bit 56 x)) = x"
proof (rule bit_word64_eqI)
  fix n :: nat assume n: "n < 64"
  then consider "n < 16" | "16 \<le> n" "n < 32" | "32 \<le> n" "n < 48" | "n = 48" | "49 \<le> n" "n < 54" | "n = 54" | "n = 55" | "56 \<le> n" by linarith
  then show "bit (ct_links_word (ucast x) (ucast (drop_bit 16 x)) (ucast (drop_bit 32 x)) (bit x 48) (ucast (drop_bit 49 x)) (bit x 54)
      (bit x 55) (ucast (drop_bit 56 x))) n = bit x n"
    by cases (use n in \<open>auto simp: bit_ct_links_word bit_simps\<close>)
qed

lemma ct_prev_of_word: "ct_prev_word (ucast x) (ucast (drop_bit 48 x)) = x"
proof (rule bit_word64_eqI)
  fix n :: nat assume n: "n < 64"
  then consider "n < 48" | "48 \<le> n" by linarith
  then show "bit (ct_prev_word (ucast x) (ucast (drop_bit 48 x))) n = bit x n"
    by cases (use n in \<open>auto simp: bit_ct_prev_word bit_simps\<close>)
qed

lemma ct_words_of_words:
  assumes "length ws = 8" shows "ct_words (ct_of_words ws) = ws"
proof -
  obtain a0 a1 a2 a3 a4 a5 a6 a7 where "ws = [a0, a1, a2, a3, a4, a5, a6, a7]"
    using assms by (auto simp: numeral_eq_Suc length_Suc_conv)
  then show ?thesis by (simp add: ct_of_words_def ct_words_def ct_flags_of_word ct_links_of_word ct_prev_of_word)
qed

text \<open>The three stores of the DMA commands, in terms of the fields.\<close>

lemma set16_flags:
  "set16 (ct_flags_word uc s r rd en ts p) 16 v = ct_flags_word uc s (push_bit 2 v OR (r AND 3)) (bit v 14) (bit v 15) ts p"
proof (rule bit_word64_eqI)
  fix n :: nat assume n: "n < 64"
  have m: "(3 :: u16) = mask 2" by (simp add: mask_eq_exp_minus_1)
  consider "n < 14" | "n = 14" | "n = 15" | "16 \<le> n" "n < 30" | "n = 30" | "n = 31" | "32 \<le> n" by linarith
  then show "bit (set16 (ct_flags_word uc s r rd en ts p) 16 v) n =
      bit (ct_flags_word uc s (push_bit 2 v OR (r AND 3)) (bit v 14) (bit v 15) ts p) n"
    unfolding m by cases (use n in \<open>auto simp: bit_set16 bit_ct_flags_word bit_simps\<close>)
qed

lemma set16_proto:
  "set16 (ct_flags_word uc s r rd en ts p) 48 v = ct_flags_word uc s r rd en (ts_join (ts_lo ts) (lo8 v)) (hi8 v)"
proof (rule bit_word64_eqI)
  fix n :: nat assume n: "n < 64"
  consider "n < 32" | "32 \<le> n" "n < 48" | "48 \<le> n" "n < 56" | "56 \<le> n" by linarith
  then show "bit (set16 (ct_flags_word uc s r rd en ts p) 48 v) n =
      bit (ct_flags_word uc s r rd en (ts_join (ts_lo ts) (lo8 v)) (hi8 v)) n"
    by cases (use n in \<open>auto simp: bit_set16 bit_ct_flags_word bit_simps ts_join_def ts_lo_def lo8_def hi8_def dest: bit_imp_le_length\<close>)
qed

lemma set16_next: "set16 (ct_links_word nxt dp sp ucp r2 oa ia r3) 0 v = ct_links_word v dp sp ucp r2 oa ia r3"
  by (rule bit_word64_eqI) (auto simp: bit_set16 bit_ct_links_word)

lemma ct_write_next [simp]: "ct_write16 e 40 v = e\<lparr>c_next_index := v\<rparr>"
  by (subst ct_of_words_words [symmetric]) (simp add: ct_write16_def ct_words_def set16_next)

lemma ct_write_flags [simp]:
  "ct_write16 e 34 v = e\<lparr>c_rsvd1 := push_bit 2 v OR (c_rsvd1 e AND 3), c_redirect := bit v 14, c_enable := bit v 15\<rparr>"
  by (subst ct_of_words_words [symmetric]) (simp add: ct_write16_def ct_words_def set16_flags)

lemma ct_write_proto [simp]:
  "ct_write16 e 38 v = e\<lparr>c_time_stamp := ts_join (ts_lo (c_time_stamp e)) (lo8 v), c_protocol := hi8 v\<rparr>"
  by (subst ct_of_words_words [symmetric]) (simp add: ct_write16_def ct_words_def set16_proto)

lemma zero_ct_entry [simp]: "c_enable 0 = False" "c_next_index 0 = 0" "c_prev_index 0 = 0" "c_protocol 0 = 0"
  by (simp_all add: zero_ipa_ipv6ct_hw_entry_ext_def ipa_ipv6ct_hw_entry.defs)

text \<open>The sizes, offsets and constants of \<open>ipa_ipv6cti.h\<close>; \<open>ipa_ipv6ct_flags\<close> is the half-word of the flags.\<close>

definition IPA_IPV6CT_HW_ENTRY_SIZE :: nat where "IPA_IPV6CT_HW_ENTRY_SIZE = 64"
definition IPA_IPV6CT_RULE_FLAG_FIELD_OFFSET :: nat where "IPA_IPV6CT_RULE_FLAG_FIELD_OFFSET = 34"
definition IPA_IPV6CT_RULE_NEXT_FIELD_OFFSET :: nat where "IPA_IPV6CT_RULE_NEXT_FIELD_OFFSET = 40"
definition IPA_IPV6CT_RULE_PROTO_FIELD_OFFSET :: nat where "IPA_IPV6CT_RULE_PROTO_FIELD_OFFSET = 38"
definition IPA_IPV6CT_INVALID_PROTO_FIELD_VALUE :: u16 where "IPA_IPV6CT_INVALID_PROTO_FIELD_VALUE = 0xFF00"
definition IPA_IPV6CT_INVALID_PROTO_FIELD_CMP :: u8 where "IPA_IPV6CT_INVALID_PROTO_FIELD_CMP = 0xFF"

definition ipa_ipv6ct_flags :: "14 word \<Rightarrow> bool \<Rightarrow> bool \<Rightarrow> u16" where
  "ipa_ipv6ct_flags rsvd1 redirect enable =
     ucast rsvd1 OR push_bit 14 (of_bool redirect) OR push_bit 15 (of_bool enable)"

subsection \<open>The entry interface\<close>

text \<open>\<open>IPA_IPV6CT_DIRECTION_OTHER\<close> stands for every value outside the enumeration.\<close>

datatype ipa_ipv6_ct_direction_settings_type =
  IPA_IPV6CT_DIRECTION_DENY_ALL | IPA_IPV6CT_DIRECTION_ALLOW_OUT | IPA_IPV6CT_DIRECTION_ALLOW_IN
| IPA_IPV6CT_DIRECTION_ALLOW_ALL | IPA_IPV6CT_DIRECTION_OTHER

record ipa_ipv6ct_rule =
  v_src_ipv6_lsb :: u64
  v_src_ipv6_msb :: u64
  v_dest_ipv6_lsb :: u64
  v_dest_ipv6_msb :: u64
  v_direction_settings :: ipa_ipv6_ct_direction_settings_type
  v_ucp :: bool
  v_s :: bool
  v_uc_activation_index :: u16
  v_src_port :: u16
  v_dest_port :: u16
  v_protocol :: u8

definition ct_table_entry_is_valid :: "ipa_ipv6ct_hw_entry \<Rightarrow> bool" where
  "ct_table_entry_is_valid entry = c_enable entry"

definition ct_table_entry_get_next_index :: "ipa_ipv6ct_hw_entry \<Rightarrow> u16" where
  "ct_table_entry_get_next_index entry = c_next_index entry"

definition ct_table_entry_get_prev_index ::
    "ipa_ipv6ct_hw_entry \<Rightarrow> u16 \<Rightarrow> u16 list option \<Rightarrow> u16 \<Rightarrow> u16 option" where
  "ct_table_entry_get_prev_index entry entry_index m base_table_size = Some (c_prev_index entry)"

definition ct_table_entry_set_prev_index ::
    "ipa_ipv6ct_hw_entry \<Rightarrow> u16 \<Rightarrow> u16 \<Rightarrow> u16 list option \<Rightarrow> u16 \<Rightarrow> (ipa_ipv6ct_hw_entry \<times> u16 list option) option" where
  "ct_table_entry_set_prev_index entry entry_index prev m base_table_size = Some (entry\<lparr>c_prev_index := prev\<rparr>, m)"

definition ct_table_entry_copy_from_user :: "ipa_ipv6ct_hw_entry \<Rightarrow> ipa_ipv6ct_rule \<Rightarrow> int \<times> ipa_ipv6ct_hw_entry" where
  "ct_table_entry_copy_from_user entry user_rule =
     (let entry = entry
        \<lparr>c_src_ipv6_lsb := v_src_ipv6_lsb user_rule, c_src_ipv6_msb := v_src_ipv6_msb user_rule,
         c_dest_ipv6_lsb := v_dest_ipv6_lsb user_rule, c_dest_ipv6_msb := v_dest_ipv6_msb user_rule,
         c_protocol := v_protocol user_rule, c_src_port := v_src_port user_rule, c_dest_port := v_dest_port user_rule,
         c_ucp := v_ucp user_rule, c_uc_activation_index := ucast (v_uc_activation_index user_rule), c_s := v_s user_rule\<rparr>
      in case v_direction_settings user_rule of
           IPA_IPV6CT_DIRECTION_DENY_ALL \<Rightarrow> (0, entry)
         | IPA_IPV6CT_DIRECTION_ALLOW_OUT \<Rightarrow> (0, entry\<lparr>c_out_allowed := True\<rparr>)
         | IPA_IPV6CT_DIRECTION_ALLOW_IN \<Rightarrow> (0, entry\<lparr>c_in_allowed := True\<rparr>)
         | IPA_IPV6CT_DIRECTION_ALLOW_ALL \<Rightarrow> (0, entry\<lparr>c_out_allowed := True, c_in_allowed := True\<rparr>)
         | IPA_IPV6CT_DIRECTION_OTHER \<Rightarrow> (- EINVAL, entry))"

definition ct_table_entry_head_insert :: "ipa_ipv6ct_hw_entry \<Rightarrow> ipa_ipv6ct_rule \<Rightarrow> int \<times> ipa_ipv6ct_hw_entry \<times> u16" where
  "ct_table_entry_head_insert entry user_data =
     (let (ret, entry) = ct_table_entry_copy_from_user entry user_data
      in if ret \<noteq> 0 then (ret, entry, 0) else (0, entry, ipa_ipv6ct_flags 0 False True))"

definition ct_table_entry_tail_insert :: "ipa_ipv6ct_hw_entry \<Rightarrow> ipa_ipv6ct_rule \<Rightarrow> int \<times> ipa_ipv6ct_hw_entry" where
  "ct_table_entry_tail_insert entry user_data =
     (let (ret, entry) = ct_table_entry_copy_from_user entry user_data
      in if ret \<noteq> 0 then (ret, entry) else (0, entry\<lparr>c_enable := True\<rparr>))"

definition ct_table_entry_get_delete_head_dma_command_data :: "ipa_ipv6ct_hw_entry \<Rightarrow> ipa_ipv6ct_hw_entry \<Rightarrow> u16" where
  "ct_table_entry_get_delete_head_dma_command_data head next_entry' = IPA_IPV6CT_INVALID_PROTO_FIELD_VALUE"

definition ct_entry_interface :: "(ipa_ipv6ct_hw_entry, ipa_ipv6ct_rule) ipa_table_entry_interface" where
  "ct_entry_interface =
     \<lparr>entry_is_valid = ct_table_entry_is_valid,
      entry_get_next_index = ct_table_entry_get_next_index,
      entry_get_prev_index = ct_table_entry_get_prev_index,
      entry_set_prev_index = ct_table_entry_set_prev_index,
      entry_head_insert = ct_table_entry_head_insert,
      entry_tail_insert = ct_table_entry_tail_insert,
      entry_get_delete_head_dma_command_data = ct_table_entry_get_delete_head_dma_command_data\<rparr>"

subsection \<open>The hash\<close>

function xor_segments_loop :: "u64 \<Rightarrow> u16 \<Rightarrow> u16" where
  "xor_segments_loop num ret =
     (if num = 0 then ret else xor_segments_loop (drop_bit 16 num) (ret XOR ucast (num AND 0xFFFF)))"
  by pat_completeness auto
termination
proof (relation "measure (unat \<circ> fst)")
  fix num :: u64 and ret :: u16
  assume "num \<noteq> 0"
  then have "0 < unat num" by (simp add: unat_gt_0)
  then have "unat num div 65536 < unat num" by simp
  moreover have "unat (drop_bit 16 num) = unat num div 65536" by (simp only: unat_drop_bit_eq) (simp add: drop_bit_eq_div)
  ultimately show "((drop_bit 16 num, ret XOR ucast (num AND 0xFFFF)), num, ret) \<in> measure (unat \<circ> fst)" by simp
qed simp

declare xor_segments_loop.simps [simp del]

definition ipa_ipv6ct_xor_segments :: "u64 \<Rightarrow> u16" where
  "ipa_ipv6ct_xor_segments num = xor_segments_loop num 0"

definition ipa_ipv6ct_hash :: "ipa_ipv6ct_rule \<Rightarrow> u16 \<Rightarrow> u16" where
  "ipa_ipv6ct_hash rule size' =
     (let hash = ipa_ipv6ct_xor_segments (v_src_ipv6_lsb rule) XOR ipa_ipv6ct_xor_segments (v_src_ipv6_msb rule) XOR
                 ipa_ipv6ct_xor_segments (v_dest_ipv6_lsb rule) XOR ipa_ipv6ct_xor_segments (v_dest_ipv6_msb rule) XOR
                 v_src_port rule XOR v_dest_port rule XOR ucast (v_protocol rule);
          hash = hash AND size'
      in if hash = 0 then size' else hash)"

subsection \<open>The interface satisfies the contract\<close>

lemmas ct_interface_defs = ct_entry_interface_def ct_table_entry_is_valid_def ct_table_entry_get_next_index_def
  ct_table_entry_get_prev_index_def ct_table_entry_set_prev_index_def ct_table_entry_head_insert_def
  ct_table_entry_tail_insert_def ct_table_entry_get_delete_head_dma_command_data_def

text \<open>A rule the interface accepts; the content of a record apart from its links; a deleted head.\<close>

definition ct_rule_ok :: "ipa_ipv6ct_rule \<Rightarrow> bool" where
  "ct_rule_ok u \<longleftrightarrow> v_direction_settings u \<noteq> IPA_IPV6CT_DIRECTION_OTHER"

definition ct_content :: "ipa_ipv6ct_hw_entry \<Rightarrow> ipa_ipv6ct_hw_entry" where
  "ct_content e = e\<lparr>c_next_index := 0, c_prev_index := 0\<rparr>"

definition ct_dead :: "ipa_ipv6ct_hw_entry \<Rightarrow> bool" where
  "ct_dead e \<longleftrightarrow> c_protocol e = IPA_IPV6CT_INVALID_PROTO_FIELD_CMP"

text \<open>
  What the insertion of a rule relies on in a free record: the fields it does not write are zero. The
  others may hold a rule that was refused.
\<close>

definition ct_fresh :: "ipa_ipv6ct_hw_entry \<Rightarrow> bool" where
  "ct_fresh e \<longleftrightarrow> c_rsvd1 e = 0 \<and> \<not> c_redirect e \<and> \<not> c_enable e \<and> c_time_stamp e = 0 \<and> c_rsvd2 e = 0 \<and>
     \<not> c_out_allowed e \<and> \<not> c_in_allowed e \<and> c_rsvd3 e = 0 \<and> c_rsvd4 e = 0 \<and> c_rsvd5 e = 0"

lemma ct_copy_facts:
  assumes "ct_table_entry_copy_from_user e u = (ret, e')"
  shows "ret = (if ct_rule_ok u then 0 else - EINVAL)" and "c_next_index e' = c_next_index e"
    and "c_prev_index e' = c_prev_index e" and "c_enable e' = c_enable e"
  using assms by (auto simp: ct_table_entry_copy_from_user_def ct_rule_ok_def Let_def
      split: ipa_ipv6_ct_direction_settings_type.splits)

lemma ct_enable_flag [simp]:
  "bit (ipa_ipv6ct_flags 0 False True) 15" "\<not> bit (ipa_ipv6ct_flags 0 False True) 14"
  "push_bit 2 (ipa_ipv6ct_flags 0 False True) = 0"
proof -
  have "ipa_ipv6ct_flags 0 False True = 0x8000" by (simp add: ipa_ipv6ct_flags_def)
  then show "bit (ipa_ipv6ct_flags 0 False True) 15" "\<not> bit (ipa_ipv6ct_flags 0 False True) 14"
    "push_bit 2 (ipa_ipv6ct_flags 0 False True) = 0" by (simp_all add: bit_iff_odd_drop_bit)
qed

lemma ct_contentD:
  assumes "ct_content a = ct_content b"
  shows "ct_dead a = ct_dead b" and "ct_fresh a = ct_fresh b"
  using assms by (cases a; cases b; simp add: ct_content_def ct_dead_def ct_fresh_def)+

lemma ct_fresh_zero: "ct_fresh 0"
  by (simp add: ct_fresh_def zero_ipa_ipv6ct_hw_entry_ext_def ipa_ipv6ct_hw_entry.defs)

interpretation ct: rule_table ct_entry_interface ct_write16 64 34 40 38 IPA_IPV6CT_BASE_TBL IPA_IPV6CT_EXPN_TBL
  ct_rule_ok ct_content ct_dead ct_fresh IPA_IPV6CT_INVALID_PROTO_FIELD_VALUE
proof unfold_locales
  fix u e ret e' d
  assume "ct_rule_ok u" and h: "entry_head_insert ct_entry_interface e u = (ret, e', d)"
  then obtain "ct_table_entry_copy_from_user e u = (0, e')" "d = ipa_ipv6ct_flags 0 False True" "ret = 0"
    by (auto simp: ct_interface_defs Let_def split: prod.splits if_splits dest: ct_copy_facts(1))
  with ct_copy_facts [OF this(1)]
  show "ret = 0 \<and> entry_get_next_index ct_entry_interface e' = entry_get_next_index ct_entry_interface e \<and>
      (\<forall>i m te. entry_get_prev_index ct_entry_interface e' i m te = entry_get_prev_index ct_entry_interface e i m te) \<and>
      entry_is_valid ct_entry_interface e' = entry_is_valid ct_entry_interface e \<and>
      (\<forall>e2. entry_is_valid ct_entry_interface (ct_write16 e2 34 d))"
    by (simp add: ct_interface_defs)
next
  show "ct_dead (ct_write16 e 38 IPA_IPV6CT_INVALID_PROTO_FIELD_VALUE)" for e
    by (simp add: ct_dead_def IPA_IPV6CT_INVALID_PROTO_FIELD_VALUE_def IPA_IPV6CT_INVALID_PROTO_FIELD_CMP_def hi8_def)
  show "ct_dead a = ct_dead b" "ct_fresh a = ct_fresh b" if "ct_content a = ct_content b" for a b
    using ct_contentD [OF that] .
  show "ct_fresh 0" by (rule ct_fresh_zero)
qed (auto simp: ct_interface_defs meta_ok_def ct_content_def)

subsection \<open>The hash selects a usable record of the base area\<close>

lemma xor_segments_loop_eq:
  "xor_segments_loop num ret = ret XOR ucast num XOR ucast (drop_bit 16 num) XOR ucast (drop_bit 32 num) XOR ucast (drop_bit 48 num)"
proof -
  have seg: "(ucast (x AND 0xFFFF) :: u16) = ucast x" for x :: u64
  proof -
    have m: "(0xFFFF :: u64) = mask 16" by (simp add: mask_eq_exp_minus_1)
    show ?thesis unfolding m by (rule bit_word_eqI) (auto simp: bit_simps)
  qed
  have z: "drop_bit 64 num = 0" by (rule bit_word_eqI) (auto simp: bit_simps dest: bit_imp_le_length)
  have d: "drop_bit m (drop_bit n num) = drop_bit (m + n) num" for m n by (simp add: drop_bit_drop_bit)
  have zero: "ucast (drop_bit k num) = (0 :: u16)" if "drop_bit j num = 0" "j \<le> k" for j k
  proof -
    have "drop_bit k num = drop_bit (k - j) (drop_bit j num)" using that(2) by simp
    then show ?thesis using that(1) by simp
  qed
  let ?s = "\<lambda>k. ucast (drop_bit k num) :: u16"
  have 4: "xor_segments_loop (drop_bit 48 num) r = r XOR ?s 48" for r
    by (cases "drop_bit 48 num = 0"; subst xor_segments_loop.simps; simp add: seg d z; subst xor_segments_loop.simps; simp add: z)
  have 3: "xor_segments_loop (drop_bit 32 num) r = r XOR ?s 32 XOR ?s 48" for r
    by (cases "drop_bit 32 num = 0"; subst xor_segments_loop.simps; simp add: seg d 4 zero xor.assoc)
  have 2: "xor_segments_loop (drop_bit 16 num) r = r XOR ?s 16 XOR ?s 32 XOR ?s 48" for r
    by (cases "drop_bit 16 num = 0"; subst xor_segments_loop.simps; simp add: seg d 3 zero xor.assoc)
  show ?thesis
    by (cases "num = 0"; subst xor_segments_loop.simps; simp add: seg 2 xor.assoc)
qed

text \<open>
  Folding a 64-bit half of an IPv6 address: the loop, which stops as soon as the rest is zero, computes the
  exclusive or of the four 16-bit segments.
\<close>

theorem xor_segments_fold:
  "ipa_ipv6ct_xor_segments num = ucast num XOR ucast (drop_bit 16 num) XOR ucast (drop_bit 32 num) XOR ucast (drop_bit 48 num)"
  by (simp add: ipa_ipv6ct_xor_segments_def xor_segments_loop_eq)

lemma ct_hash_range:
  assumes "unat te = 2 ^ k" and "2 \<le> unat te"
  shows "0 < unat (ipa_ipv6ct_hash u (te - 1))" and "unat (ipa_ipv6ct_hash u (te - 1)) < unat te"
  unfolding ipa_ipv6ct_hash_def using hash_range [OF assms] by (simp_all add: Let_def)

end
