(* ===== verification/Ipv6ct.thy ===== *)
theory Ipv6ct
  imports Ipv6ct_Entry Mem_Descriptor
begin

unbundle bit_operations_syntax

section \<open>The IPv6 connection tracking driver (\<open>ipa_ipv6ct.c\<close>)\<close>

text \<open>
  The static variable \<open>ipv6ct\<close> is the record \<open>ipa_ipv6ct\<close>; every operation of the file is a definition over
  it, with the same conventions as for the NAT driver: the result carries the return code, the output
  parameters, the new variable and the new state of the operating system, and \<open>None\<close> is a fault. Every
  operation but \<open>ipa_ipv6ct_add_tbl\<close> reads \<open>ipv6ct.ipa_desc->ver\<close> first, which faults when no table was ever
  created. In this theory the lock of the environment is \<open>ipv6ct_mutex\<close>. \<open>ipa_ipv6ct_dump_table\<close>, which
  only prints, is left out.
\<close>

subsection \<open>Data\<close>

record ipa_ipv6ct_table =
  ct_mem_desc :: ipa_mem_descriptor
  ct_table :: "ipa_ipv6ct_hw_entry ipa_table"

record ipa_ipv6ct =
  ct_ipa_desc :: "ipa_descriptor option"
  ct_tables :: "ipa_ipv6ct_table list"
  ct_table_cnt :: u8

record ipa_ioc_ipv6ct_init =
  ci_base_table_offset :: u32
  ci_expn_table_offset :: u32
  ci_table_entries :: u16
  ci_expn_table_entries :: u16
  ci_tbl_index :: u8

record ipa_ioc_ipv6_nat_uc_act_entry =
  ua_cmd_id :: u16
  ua_index :: u16
  ua_padding :: u32
  ua_private_port :: u32
  ua_public_port :: u32
  ua_private_address_lsb :: u64
  ua_private_address_msb :: u64
  ua_public_address_lsb :: u64
  ua_public_address_msb :: u64

record 'w ct_env = "'w ipa_env" +
  ioctl_ipv6ct_init :: "int \<Rightarrow> ipa_ioc_ipv6ct_init \<Rightarrow> 'w \<Rightarrow> int \<times> 'w"
  ioctl_ct_dma :: "int \<Rightarrow> ipa_ioc_nat_dma_cmd \<Rightarrow> ipa_ipv6ct_hw_entry list \<Rightarrow> 'w \<Rightarrow> (int \<times> ipa_ipv6ct_hw_entry list) \<times> 'w"
  ioctl_add_uc_act :: "int \<Rightarrow> ipa_ioc_ipv6_nat_uc_act_entry \<Rightarrow> 'w \<Rightarrow> (int \<times> ipa_ioc_ipv6_nat_uc_act_entry) \<times> 'w"
  ioctl_del_uc_act :: "int \<Rightarrow> u16 \<Rightarrow> 'w \<Rightarrow> int \<times> 'w"

definition IPA_IPV6CT_MAX_TBLS :: nat where "IPA_IPV6CT_MAX_TBLS = 1"
definition IPA_IPV6CT_TABLE_NAME :: string where "IPA_IPV6CT_TABLE_NAME = ''IPA IPv6CT table''"
definition IPA_IPV6CT_DEV_NAME :: string where "IPA_IPV6CT_DEV_NAME = ''ipaIpv6CTTable''"
definition IPA_MAX_DMA_ENTRIES_FOR_ADD :: nat where "IPA_MAX_DMA_ENTRIES_FOR_ADD = 2"
definition IPA_MAX_DMA_ENTRIES_FOR_DEL :: nat where "IPA_MAX_DMA_ENTRIES_FOR_DEL = 2"

text \<open>A zeroed command buffer with room for \<open>n\<close> commands; a table and the variable after \<open>memset\<close>.\<close>

definition ct_dma_cmd_zero :: "nat \<Rightarrow> ipa_ioc_nat_dma_cmd" where
  "ct_dma_cmd_zero n =
     \<lparr>entries = 0, mem_type = 0, dma = replicate n \<lparr>d_table_index = 0, d_base_addr = 0, d_offset = 0, d_data = 0\<rparr>\<rparr>"

definition ct_table_zero :: ipa_ipv6ct_table where
  "ct_table_zero = \<lparr>ct_mem_desc = mem_descriptor_zero, ct_table = ipa_table_init '''' IPA_NAT_MEM_IN_DDR 0 None 0\<rparr>"

definition ipv6ct_init :: ipa_ipv6ct where
  "ipv6ct_init = \<lparr>ct_ipa_desc = None, ct_tables = [ct_table_zero], ct_table_cnt = 0\<rparr>"

definition get_ct_tbl :: "ipa_ipv6ct \<Rightarrow> u32 \<Rightarrow> ipa_ipv6ct_table option" where
  "get_ct_tbl v k = mem_read (ct_tables v) (unat k)"

definition put_ct_tbl :: "ipa_ipv6ct \<Rightarrow> u32 \<Rightarrow> ipa_ipv6ct_table \<Rightarrow> ipa_ipv6ct" where
  "put_ct_tbl v k t = v\<lparr>ct_tables := (ct_tables v)[unat k := t]\<rparr>"

definition ct_unlock_ret :: "('w, 'm) ipa_env_scheme \<Rightarrow> int \<Rightarrow> 'w \<Rightarrow> int \<times> 'w" where
  "ct_unlock_ret env ret w =
     (let (u, w) = pthread_mutex_unlock env w
      in (if u \<noteq> 0 then (if ret \<noteq> 0 then ret else - EPERM) else ret, w))"

text \<open>The two checks in front of the operations on a table: the version, then the handle.\<close>

definition ct_handle_ok :: "u32 \<Rightarrow> bool" where
  "ct_handle_ok table_handle \<longleftrightarrow> table_handle \<noteq> 0 \<and> unat table_handle \<le> IPA_IPV6CT_MAX_TBLS"

subsection \<open>Creating and deleting the table\<close>

definition ipa_ipv6ct_create_table_dma_cmd_helpers :: "ipa_ipv6ct_table \<Rightarrow> u8 \<Rightarrow> ipa_ipv6ct_table" where
  "ipa_ipv6ct_create_table_dma_cmd_helpers tb table_indx =
     (let off = (\<lambda>f. addr_offset (ct_mem_desc tb) + of_nat f);
          h = (\<lambda>f. Some (ipa_table_dma_cmd_helper_init table_indx IPA_IPV6CT_BASE_TBL IPA_IPV6CT_EXPN_TBL (off f)))
      in tb\<lparr>ct_table := (ct_table tb)\<lparr>dma_help :=
              [h IPA_IPV6CT_RULE_FLAG_FIELD_OFFSET, h IPA_IPV6CT_RULE_NEXT_FIELD_OFFSET,
               h IPA_IPV6CT_RULE_PROTO_FIELD_OFFSET]\<rparr>\<rparr>)"

definition ipa_ipv6ct_create_table ::
    "('w, 'm) ct_env_scheme \<Rightarrow> ipa_ipv6ct \<Rightarrow> ipa_ipv6ct_table \<Rightarrow> u16 \<Rightarrow> u8 \<Rightarrow> 'w \<Rightarrow> (int \<times> ipa_ipv6ct_table \<times> 'w) option" where
  "ipa_ipv6ct_create_table env v tb number_of_entries table_index' w =
     do {
       let t = ipa_table_init IPA_IPV6CT_TABLE_NAME IPA_NAT_MEM_IN_DDR IPA_IPV6CT_HW_ENTRY_SIZE None 0;
       (ret, t) \<leftarrow> ipa_table_calculate_entries_num t number_of_entries IPA_NAT_MEM_IN_DDR;
       let tb = tb\<lparr>ct_table := t\<rparr>;
       if ret \<noteq> 0 then Some (ret, tb, w)
       else do {
         let md = ipa_mem_descriptor_init (ct_mem_desc tb) IPA_IPV6CT_DEV_NAME (ipa_table_calculate_size t) table_index'
                    IPA_IOC_ALLOC_IPV6CT_TABLE IPA_IOC_DEL_IPV6CT_TABLE False;
         d \<leftarrow> ct_ipa_desc v;
         let ((ret, md), w) = ipa_mem_descriptor_allocate_memory env md (fd d) w;
         if ret \<noteq> 0 then Some (ret, ct_table_zero, w)
         else do {
           let (_, t) = ipa_table_calculate_addresses t (base_addr md);
           let t = ipa_table_reset t;
           Some (0, ipa_ipv6ct_create_table_dma_cmd_helpers (tb\<lparr>ct_mem_desc := md, ct_table := t\<rparr>) table_index', w)
         }
       }
     }"

definition ipa_ipv6ct_destroy_table ::
    "('w, 'm) ct_env_scheme \<Rightarrow> ipa_ipv6ct \<Rightarrow> ipa_ipv6ct_table \<Rightarrow> 'w \<Rightarrow> (int \<times> ipa_ipv6ct_table \<times> 'w) option" where
  "ipa_ipv6ct_destroy_table env v tb w =
     do {
       d \<leftarrow> ct_ipa_desc v;
       let ((ret, _), w) = ipa_mem_descriptor_delete env (ct_mem_desc tb) (fd d) w;
       Some (ret, ct_table_zero, w)
     }"

definition ipa_ipv6ct_post_init_cmd ::
    "('w, 'm) ct_env_scheme \<Rightarrow> ipa_ipv6ct \<Rightarrow> ipa_ipv6ct_table \<Rightarrow> u8 \<Rightarrow> 'w \<Rightarrow> (int \<times> 'w) option" where
  "ipa_ipv6ct_post_init_cmd env v tb tbl_index w =
     do {
       let base = addr_offset (ct_mem_desc tb);
       let cmd = \<lparr>ci_base_table_offset = base,
                  ci_expn_table_offset = base + of_nat (unat (table_entries (ct_table tb)) * IPA_IPV6CT_HW_ENTRY_SIZE),
                  ci_table_entries = table_entries (ct_table tb) - 1,
                  ci_expn_table_entries = expn_table_entries (ct_table tb), ci_tbl_index = tbl_index\<rparr>;
       d \<leftarrow> ct_ipa_desc v;
       Some (ioctl_ipv6ct_init env (fd d) cmd w)
     }"

text \<open>\<open>table_handle\<close> is not null. The third component is what is stored there, if anything. No lock is taken.\<close>

definition ipa_ipv6ct_add_tbl ::
    "('w, 'm) ct_env_scheme \<Rightarrow> ipa_ipv6ct \<Rightarrow> u16 \<Rightarrow> 'w \<Rightarrow> (int \<times> ipa_ipv6ct \<times> u32 option \<times> 'w) option" where
  "ipa_ipv6ct_add_tbl env v number_of_entries w =
     (if number_of_entries = 0 then Some (- EINVAL, v, None, w)
      else if IPA_IPV6CT_MAX_TBLS \<le> unat (ct_table_cnt v) then Some (- EINVAL, v, Some 0, w)
      else do {
        let (desc, w) = (case ct_ipa_desc v of Some d \<Rightarrow> (Some d, w) | None \<Rightarrow> ipa_descriptor_open env w);
        let v = v\<lparr>ct_ipa_desc := desc\<rparr>;
        (case desc of
           None \<Rightarrow> Some (- EIO, v, Some 0, w)
         | Some d \<Rightarrow> do {
             (ret, v, w) \<leftarrow>
               (if ver d < IPA_HW_v4_0 then Some (- EPERM, v, w)
                else do {
                  tb \<leftarrow> get_ct_tbl v (ucast (ct_table_cnt v));
                  (ret, tb, w) \<leftarrow> ipa_ipv6ct_create_table env v tb number_of_entries (ct_table_cnt v) w;
                  let v = put_ct_tbl v (ucast (ct_table_cnt v)) tb;
                  if ret \<noteq> 0 then Some (ret, v, w)
                  else do {
                    (ret, w) \<leftarrow> ipa_ipv6ct_post_init_cmd env v tb (ct_table_cnt v) w;
                    if ret \<noteq> 0
                    then do {
                      (_, tb, w) \<leftarrow> ipa_ipv6ct_destroy_table env v tb w;
                      Some (ret, put_ct_tbl v (ucast (ct_table_cnt v)) tb, w)
                    }
                    else Some (ret, v, w)
                  }
                });
             if ret = 0
             then do {
               let v = v\<lparr>ct_table_cnt := ct_table_cnt v + 1\<rparr>;
               Some (0, v, Some (ucast (ct_table_cnt v)), w)
             }
             else if ct_table_cnt v = 0
             then (let w = ipa_descriptor_close env (ct_ipa_desc v) w in Some (ret, v\<lparr>ct_ipa_desc := None\<rparr>, Some 0, w))
             else Some (ret, v, Some 0, w)
           })
      })"

definition ipa_ipv6ct_del_tbl ::
    "('w, 'm) ct_env_scheme \<Rightarrow> ipa_ipv6ct \<Rightarrow> u32 \<Rightarrow> 'w \<Rightarrow> (int \<times> ipa_ipv6ct \<times> 'w) option" where
  "ipa_ipv6ct_del_tbl env v table_handle w =
     do {
       d \<leftarrow> ct_ipa_desc v;
       if ver d < IPA_HW_v4_0 \<or> \<not> ct_handle_ok table_handle then Some (- EINVAL, v, w)
       else do {
         let (l, w) = pthread_mutex_lock env w;
         if l \<noteq> 0 then Some (- EINVAL, v, w)
         else do {
           tb \<leftarrow> get_ct_tbl v (table_handle - 1);
           (ret, v, w) \<leftarrow>
             (if \<not> valid (ct_mem_desc tb) then Some (- EINVAL, v, w)
              else do {
                (ret, tb, w) \<leftarrow> ipa_ipv6ct_destroy_table env v tb w;
                let v = put_ct_tbl v (table_handle - 1) tb;
                if ret \<noteq> 0 then Some (ret, v, w)
                else do {
                  let v = v\<lparr>ct_table_cnt := ct_table_cnt v - 1\<rparr>;
                  if ct_table_cnt v = 0
                  then (let w = ipa_descriptor_close env (ct_ipa_desc v) w in Some (ret, v\<lparr>ct_ipa_desc := None\<rparr>, w))
                  else Some (ret, v, w)
                }
              });
           let (ret, w) = ct_unlock_ret env ret w;
           Some (ret, v, w)
         }
       }
     }"

subsection \<open>Rules\<close>

definition ipa_ipv6ct_post_dma_cmd ::
    "('w, 'm) ct_env_scheme \<Rightarrow> ipa_descriptor \<Rightarrow> ipa_ipv6ct_table \<Rightarrow> ipa_ioc_nat_dma_cmd \<Rightarrow> 'w \<Rightarrow> int \<times> ipa_ipv6ct_table \<times> 'w" where
  "ipa_ipv6ct_post_dma_cmd env d tb cmd w =
     (let cmd = cmd\<lparr>mem_type := ucast (nmi_val IPA_NAT_MEM_IN_DDR)\<rparr>;
          ((r, rs), w) = ioctl_ct_dma env (fd d) cmd (recs (ct_table tb)) w
      in (if r \<noteq> 0 then - EIO else 0, tb\<lparr>ct_table := (ct_table tb)\<lparr>recs := rs\<rparr>\<rparr>, w))"

text \<open>
  The part of \<open>ipa_ipv6ct_add_rule\<close> between lock and unlock for a valid table. The second component of the
  result is the handle of the new record.
\<close>

definition ct_add_locked ::
    "('w, 'm) ct_env_scheme \<Rightarrow> ipa_descriptor \<Rightarrow> ipa_ipv6ct_table \<Rightarrow> ipa_ipv6ct_rule \<Rightarrow> 'w
     \<Rightarrow> (int \<times> u32 \<times> ipa_ipv6ct_table \<times> 'w) option" where
  "ct_add_locked env d tb user_rule w =
     do {
       let cmd = ct_dma_cmd_zero IPA_MAX_DMA_ENTRIES_FOR_ADD;
       let new_entry_index = ipa_ipv6ct_hash user_rule (table_entries (ct_table tb) - 1);
       (ret, t, new_entry_index, new_entry_handle, cmd) \<leftarrow>
         ipa_table_add_entry ct_entry_interface (ct_table tb) user_rule new_entry_index cmd;
       let tb = tb\<lparr>ct_table := t\<rparr>;
       if ret \<noteq> 0 then Some (ret, new_entry_handle, tb, w)
       else do {
         let (ret, tb, w) = ipa_ipv6ct_post_dma_cmd env d tb cmd w;
         if ret \<noteq> 0
         then do {
           t \<leftarrow> ipa_table_erase_entry (ct_table tb) new_entry_index;
           Some (ret, new_entry_handle, tb\<lparr>ct_table := t\<rparr>, w)
         }
         else Some (0, new_entry_handle, tb, w)
       }
     }"

text \<open>\<open>user_rule\<close> and \<open>rule_handle\<close> are not null; the third component is what is stored in \<open>*rule_handle\<close>, if anything.\<close>

definition ipa_ipv6ct_add_rule ::
    "('w, 'm) ct_env_scheme \<Rightarrow> ipa_ipv6ct \<Rightarrow> u32 \<Rightarrow> ipa_ipv6ct_rule \<Rightarrow> 'w \<Rightarrow> (int \<times> ipa_ipv6ct \<times> u32 option \<times> 'w) option" where
  "ipa_ipv6ct_add_rule env v table_handle user_rule w =
     do {
       d \<leftarrow> ct_ipa_desc v;
       if ver d < IPA_HW_v4_0 \<or> \<not> ct_handle_ok table_handle \<or> v_protocol user_rule = IPA_IPV6CT_INVALID_PROTO_FIELD_CMP
       then Some (- EINVAL, v, None, w)
       else do {
         let (l, w) = pthread_mutex_lock env w;
         if l \<noteq> 0 then Some (- EINVAL, v, None, w)
         else do {
           tb \<leftarrow> get_ct_tbl v (table_handle - 1);
           (ret, hdl, tb, w) \<leftarrow>
             (if \<not> valid (ct_mem_desc tb) then Some (- EINVAL, 0, tb, w) else ct_add_locked env d tb user_rule w);
           let v = put_ct_tbl v (table_handle - 1) tb;
           let (u, w) = pthread_mutex_unlock env w;
           if ret \<noteq> 0 then Some (ret, v, None, w)
           else if u \<noteq> 0 then Some (- EPERM, v, None, w)
           else Some (0, v, Some hdl, w)
         }
       }
     }"

text \<open>The part of \<open>ipa_ipv6ct_del_rule\<close> between lock and unlock for a valid table.\<close>

definition ct_del_locked ::
    "('w, 'm) ct_env_scheme \<Rightarrow> ipa_descriptor \<Rightarrow> ipa_ipv6ct_table \<Rightarrow> u32 \<Rightarrow> 'w \<Rightarrow> (int \<times> ipa_ipv6ct_table \<times> 'w) option" where
  "ct_del_locked env d tb rule_handle w =
     (let (ret, entry, index) = ipa_table_get_entry (ct_table tb) rule_handle
      in if ret \<noteq> 0 then Some (ret, tb, w)
         else do {
           ep \<leftarrow> entry;
           (ret, it) \<leftarrow> ipa_table_iterator_init ct_entry_interface (ct_table tb) ep index;
           if ret \<noteq> 0 then Some (ret, tb, w)
           else do {
             cmd \<leftarrow> ipa_table_create_delete_command ct_entry_interface (ct_table tb)
                      (ct_dma_cmd_zero IPA_MAX_DMA_ENTRIES_FOR_DEL) it;
             let (ret, tb, w) = ipa_ipv6ct_post_dma_cmd env d tb cmd w;
             if ret \<noteq> 0 then Some (ret, tb, w)
             else if \<not> ipa_table_iterator_is_head_with_tail it
             then do {
               is_prev_empty \<leftarrow>
                 (case prev_entry it of
                    None \<Rightarrow> Some False
                  | Some pp \<Rightarrow> do {
                      p \<leftarrow> mem_read (recs (ct_table tb)) (unat pp);
                      Some (c_protocol p = IPA_IPV6CT_INVALID_PROTO_FIELD_CMP)
                    });
               t \<leftarrow> ipa_table_delete_entry ct_entry_interface (ct_table tb) it is_prev_empty;
               Some (ret, tb\<lparr>ct_table := t\<rparr>, w)
             }
             else Some (ret, tb, w)
           }
         })"

definition ipa_ipv6ct_del_rule ::
    "('w, 'm) ct_env_scheme \<Rightarrow> ipa_ipv6ct \<Rightarrow> u32 \<Rightarrow> u32 \<Rightarrow> 'w \<Rightarrow> (int \<times> ipa_ipv6ct \<times> 'w) option" where
  "ipa_ipv6ct_del_rule env v table_handle rule_handle w =
     do {
       d \<leftarrow> ct_ipa_desc v;
       if ver d < IPA_HW_v4_0 \<or> \<not> ct_handle_ok table_handle \<or> rule_handle = 0 then Some (- EINVAL, v, w)
       else do {
         let (l, w) = pthread_mutex_lock env w;
         if l \<noteq> 0 then Some (- EINVAL, v, w)
         else do {
           tb \<leftarrow> get_ct_tbl v (table_handle - 1);
           (ret, tb, w) \<leftarrow>
             (if \<not> valid (ct_mem_desc tb) then Some (- EINVAL, tb, w) else ct_del_locked env d tb rule_handle w);
           let v = put_ct_tbl v (table_handle - 1) tb;
           let (ret, w) = ct_unlock_ret env ret w;
           Some (ret, v, w)
         }
       }
     }"

definition ipa_ipv6ct_query_timestamp ::
    "('w, 'm) ct_env_scheme \<Rightarrow> ipa_ipv6ct \<Rightarrow> u32 \<Rightarrow> u32 \<Rightarrow> 'w \<Rightarrow> (int \<times> u32 option \<times> 'w) option" where
  "ipa_ipv6ct_query_timestamp env v table_handle rule_handle w =
     do {
       d \<leftarrow> ct_ipa_desc v;
       if ver d < IPA_HW_v4_0 \<or> \<not> ct_handle_ok table_handle \<or> rule_handle = 0 then Some (- EINVAL, None, w)
       else do {
         let (l, w) = pthread_mutex_lock env w;
         if l \<noteq> 0 then Some (- EINVAL, None, w)
         else do {
           tb \<leftarrow> get_ct_tbl v (table_handle - 1);
           (ret, ts) \<leftarrow>
             (if \<not> valid (ct_mem_desc tb) then Some (- EINVAL, None)
              else
                let (ret, entry, _) = ipa_table_get_entry (ct_table tb) rule_handle
                in if ret \<noteq> 0 then Some (ret, None)
                   else do {
                     ep \<leftarrow> entry;
                     e \<leftarrow> mem_read (recs (ct_table tb)) (unat ep);
                     Some (ret, Some (ucast (c_time_stamp e)))
                   });
           let (ret, w) = ct_unlock_ret env ret w;
           Some (ret, ts, w)
         }
       }
     }"

subsection \<open>Entries of the microcontroller\<close>

definition ipa_ipv6ct_add_uc_act_entry ::
    "('w, 'm) ct_env_scheme \<Rightarrow> ipa_ipv6ct \<Rightarrow> ipa_ioc_ipv6_nat_uc_act_entry \<Rightarrow> 'w
     \<Rightarrow> (int \<times> ipa_ioc_ipv6_nat_uc_act_entry \<times> 'w) option" where
  "ipa_ipv6ct_add_uc_act_entry env v u w =
     do {
       d \<leftarrow> ct_ipa_desc v;
       let ((r, u), w) = ioctl_add_uc_act env (fd d) u w;
       Some (if r \<noteq> 0 then - EIO else 0, u, w)
     }"

definition ipa_ipv6ct_del_uc_act_entry :: "('w, 'm) ct_env_scheme \<Rightarrow> ipa_ipv6ct \<Rightarrow> u16 \<Rightarrow> 'w \<Rightarrow> (int \<times> 'w) option" where
  "ipa_ipv6ct_del_uc_act_entry env v index w =
     do {
       d \<leftarrow> ct_ipa_desc v;
       let (r, w) = ioctl_del_uc_act env (fd d) index w;
       Some (if r \<noteq> 0 then - EIO else 0, w)
     }"

end
