(* ===== verification/Ipv6ct_Rules.thy ===== *)
theory Ipv6ct_Rules
  imports Ipv6ct
begin

unbundle bit_operations_syntax

section \<open>Adding and deleting IPv6CT rules\<close>

text \<open>
  The invariant of the IPv6CT table, the abstract table it represents, and what the locked parts of
  \<open>ipa_ipv6ct_add_rule\<close> and \<open>ipa_ipv6ct_del_rule\<close> do to it. The proofs rest on the interpretations \<open>ct\<close> of
  the locales \<open>table_entry\<close> and \<open>rule_table\<close>.
\<close>

subsection \<open>The abstract table\<close>

record ct_spec =
  cs_rules :: "nat \<Rightarrow> ipa_ipv6ct_hw_entry option"
  cs_chain :: "nat \<Rightarrow> nat list"

abbreviation ct_exec :: "ipa_ioc_nat_dma_one list \<Rightarrow> ipa_ipv6ct_hw_entry ipa_table \<Rightarrow> ipa_ipv6ct_hw_entry ipa_table" where
  "ct_exec \<equiv> dma_exec ct_write16 IPA_IPV6CT_BASE_TBL IPA_IPV6CT_EXPN_TBL"

abbreviation ct_live :: "ipa_ipv6ct_hw_entry ipa_table \<Rightarrow> (nat \<Rightarrow> nat list) \<Rightarrow> nat set" where
  "ct_live t cs \<equiv> live_of ct_dead (recs t) cs"

definition ct_inv :: "ipa_ipv6ct_hw_entry ipa_table \<Rightarrow> (nat \<Rightarrow> nat list) \<Rightarrow> bool" where
  "ct_inv t cs \<longleftrightarrow>
     dma_ok IPA_IPV6CT_BASE_TBL IPA_IPV6CT_EXPN_TBL 64 34 40 38 t \<and> tbl_rep ct_entry_interface False t cs \<and>
     dead_heads ct_dead (recs t) cs \<and> fresh_rest ct_fresh (recs t) cs"

definition ct_spec_of :: "ipa_ipv6ct_hw_entry ipa_table \<Rightarrow> (nat \<Rightarrow> nat list) \<Rightarrow> ct_spec" where
  "ct_spec_of t cs =
     \<lparr>cs_rules = (\<lambda>i. if i \<in> ct_live t cs then Some (ct_content (recs t ! i)) else None),
      cs_chain = (\<lambda>b. filter (\<lambda>i. \<not> ct_dead (recs t ! i)) (cs b))\<rparr>"

definition ct_spec_add :: "nat \<Rightarrow> nat \<Rightarrow> ipa_ipv6ct_hw_entry \<Rightarrow> ct_spec \<Rightarrow> ct_spec" where
  "ct_spec_add i b e s = \<lparr>cs_rules = (cs_rules s)(i \<mapsto> e), cs_chain = (cs_chain s)(b := cs_chain s b @ [i])\<rparr>"

definition ct_spec_del :: "nat \<Rightarrow> ct_spec \<Rightarrow> ct_spec" where
  "ct_spec_del i s = \<lparr>cs_rules = (cs_rules s)(i := None), cs_chain = (\<lambda>b. remove1 i (cs_chain s b))\<rparr>"

text \<open>The record the hardware sees for a rule of the client.\<close>

definition ct_installed :: "ipa_ipv6ct_rule \<Rightarrow> ipa_ipv6ct_hw_entry" where
  "ct_installed u =
     \<lparr>c_src_ipv6_lsb = v_src_ipv6_lsb u, c_src_ipv6_msb = v_src_ipv6_msb u,
      c_dest_ipv6_lsb = v_dest_ipv6_lsb u, c_dest_ipv6_msb = v_dest_ipv6_msb u,
      c_uc_activation_index = ucast (v_uc_activation_index u), c_s = v_s u, c_rsvd1 = 0, c_redirect = False, c_enable = True,
      c_time_stamp = 0, c_protocol = v_protocol u, c_next_index = 0, c_dest_port = v_dest_port u, c_src_port = v_src_port u,
      c_ucp = v_ucp u, c_rsvd2 = 0,
      c_out_allowed = (v_direction_settings u \<in> {IPA_IPV6CT_DIRECTION_ALLOW_OUT, IPA_IPV6CT_DIRECTION_ALLOW_ALL}),
      c_in_allowed = (v_direction_settings u \<in> {IPA_IPV6CT_DIRECTION_ALLOW_IN, IPA_IPV6CT_DIRECTION_ALLOW_ALL}),
      c_rsvd3 = 0, c_rsvd4 = 0, c_prev_index = 0, c_rsvd5 = 0\<rparr>"

lemma ct_invD:
  assumes "ct_inv t cs"
  shows "dma_ok IPA_IPV6CT_BASE_TBL IPA_IPV6CT_EXPN_TBL 64 34 40 38 t" and "tbl_rep ct_entry_interface False t cs"
    and "dead_heads ct_dead (recs t) cs" and "fresh_rest ct_fresh (recs t) cs"
  using assms by (simp_all add: ct_inv_def)

lemma ct_installed_content:
  assumes ne: "new_entry ct_entry_interface False h e u = (e', v)" and u: "ct_rule_ok u" and f: "ct_fresh e"
    and c: "ct_content e1 = ct_content e'"
  shows "ct_content (ct_write16 e1 34 v) = ct_installed u" and "c_protocol (ct_write16 e1 34 v) = v_protocol u"
proof -
  have hi: "ct_table_entry_head_insert e u = (0, e', v)"
    using ne u by (auto simp: new_entry_def tail_entry_def ct_entry_interface_def ct_table_entry_head_insert_def Let_def
        split: prod.splits if_splits dest: ct_copy_facts(1))
  then have cp: "ct_table_entry_copy_from_user e u = (0, e')" and v: "v = ipa_ipv6ct_flags 0 False True"
    by (auto simp: ct_table_entry_head_insert_def Let_def split: prod.splits if_splits)
  have "ct_content (ct_write16 e1 34 v) =
      (ct_content e1)\<lparr>c_rsvd1 := c_rsvd1 (ct_content e1) AND 3, c_redirect := False, c_enable := True\<rparr>"
    by (simp add: v ct_content_def)
  also have "\<dots> = ct_installed u"
    unfolding c using cp f u
    by (cases e) (auto simp: ct_content_def ct_installed_def ct_table_entry_copy_from_user_def ct_fresh_def ct_rule_ok_def Let_def
        split: ipa_ipv6_ct_direction_settings_type.splits)
  finally show k: "ct_content (ct_write16 e1 34 v) = ct_installed u" .
  have "c_protocol (ct_write16 e1 34 v) = c_protocol (ct_content (ct_write16 e1 34 v))" by (simp add: ct_content_def)
  then show "c_protocol (ct_write16 e1 34 v) = v_protocol u" unfolding k by (simp add: ct_installed_def)
qed

subsection \<open>Insertion\<close>

lemma ct_inv_insert:
  assumes inv: "ct_inv t cs" and rep: "tbl_rep ct_entry_interface False t' (cs(b := cs b @ [i]))" and sh: "same_shape t t'"
    and new: "i \<notin> members cs" "cs b = [] \<Longrightarrow> i = b"
    and ct: "\<And>j. j \<noteq> i \<Longrightarrow> ct_content (recs t' ! j) = ct_content (recs t ! j)"
    and ri: "\<not> ct_dead (recs t' ! i)" "ct_content (recs t' ! i) = e"
  shows "ct_inv t' (cs(b := cs b @ [i]))" and "ct_spec_of t' (cs(b := cs b @ [i])) = ct_spec_add i b e (ct_spec_of t cs)"
proof -
  note n = ct_invD [OF inv]
  have len: "length (recs t') = length (recs t)" by (rule rep_lengths [OF n(2) rep sh])
  have dd: "ct_dead (recs t' ! j) = ct_dead (recs t ! j)" if "j \<noteq> i" for j using ct_contentD(1) [OF ct [OF that]] .
  have dm: "ct_dead (recs t' ! j) = ct_dead (recs t ! j)" if "j \<in> members cs" for j
    using dd [of j] new(1) that by (cases "j = i") auto
  have ni: "i \<notin> set (cs a)" for a using new(1) by (auto simp: members_def)
  have lv: "ct_live t' (cs(b := cs b @ [i])) = insert i (ct_live t cs)"
    using dm ri(1) by (auto simp: live_of_def members_append)
  have "dead_heads ct_dead (recs t') (cs(b := cs b @ [i]))"
    unfolding dead_heads_def
  proof (intro allI ballI impI)
    fix a j assume j: "j \<in> set ((cs(b := cs b @ [i])) a)" and d: "ct_dead (recs t' ! j)"
    then have ji: "j \<noteq> i" using ri(1) by auto
    then have "j \<in> set (cs a)" using j by (auto split: if_splits)
    then have "j = a \<and> 2 \<le> length (cs a)" using n(3) dd [OF ji] d by (simp add: dead_heads_def)
    then show "j = a \<and> 2 \<le> length ((cs(b := cs b @ [i])) a)" by (cases "a = b") auto
  qed
  moreover have "fresh_rest ct_fresh (recs t') (cs(b := cs b @ [i]))"
    using n(4) ct_contentD(2) [OF ct] len by (auto simp: fresh_rest_def members_append)
  ultimately show "ct_inv t' (cs(b := cs b @ [i]))" using rep n(1) same_shapeD(9) [OF sh] by (simp add: ct_inv_def)
  have f: "filter (\<lambda>j. \<not> ct_dead (recs t' ! j)) (cs a) = filter (\<lambda>j. \<not> ct_dead (recs t ! j)) (cs a)" for a
    by (rule filter_pred_cong [OF dd ni])
  show "ct_spec_of t' (cs(b := cs b @ [i])) = ct_spec_add i b e (ct_spec_of t cs)"
    using lv ri ct f by (auto simp: ct_spec_of_def ct_spec_add_def fun_eq_iff live_of_def)
qed

text \<open>A free record changes: its contents stay irrelevant.\<close>

lemma ct_inv_free:
  assumes inv: "ct_inv t cs" and rep: "tbl_rep ct_entry_interface False t' cs" and sh: "same_shape t t'"
    and i: "i \<notin> members cs" "recs t' = (recs t)[i := e]" "ct_fresh e"
  shows "ct_inv t' cs" and "ct_spec_of t' cs = ct_spec_of t cs"
proof -
  note n = ct_invD [OF inv]
  have ni: "j \<noteq> i" if "j \<in> set (cs a)" for a j using i(1) that by (auto simp: members_def)
  have r: "recs t' ! j = recs t ! j" if "j \<noteq> i" for j using i(2) that by simp
  have fr: "fresh_rest ct_fresh (recs t') cs"
    using n(4) i(2,3) by (auto simp: fresh_rest_def nth_list_update_if)
  show "ct_inv t' cs" using rep n(1,3) fr same_shapeD(9) [OF sh] r ni by (simp add: ct_inv_def dead_heads_def)
  have rm: "recs t' ! j = recs t ! j" if "j \<in> members cs" for j using r [of j] i(1) that by (cases "j = i") auto
  have "ct_live t' cs = ct_live t cs" using rm by (auto simp: live_of_def)
  moreover have "filter (\<lambda>j. \<not> ct_dead (recs t' ! j)) (cs a) = filter (\<lambda>j. \<not> ct_dead (recs t ! j)) (cs a)" for a
    by (rule filter_cong) (use r ni in auto)
  ultimately show "ct_spec_of t' cs = ct_spec_of t cs" using rm by (auto simp: ct_spec_of_def fun_eq_iff live_of_def)
qed

text \<open>A rule with an invalid direction is refused; what was copied into the free record stays there.\<close>

lemma ct_copy_fresh:
  assumes "ct_table_entry_copy_from_user e u = (r, e')" and "\<not> ct_rule_ok u" and "ct_fresh e"
  shows "ct_fresh e'"
  using assms by (auto simp: ct_table_entry_copy_from_user_def ct_rule_ok_def ct_fresh_def Let_def split: ipa_ipv6_ct_direction_settings_type.splits)

lemma ct_add_refused:
  assumes inv: "ct_inv t cs" and b: "0 < b" "b < base_n t" and u: "\<not> ct_rule_ok u"
  obtains ret t' idx where "ipa_table_add_entry ct_entry_interface t u (of_nat b) cmd = Some (ret, t', idx, 0, cmd)" and "ret \<noteq> 0"
    and "ct_inv t' cs" and "ct_spec_of t' cs = ct_spec_of t cs" and "same_shape t t'"
proof -
  note n = ct_invD [OF inv]
  note ok = tbl_okD [OF tbl_repD(1) [OF n(2)]]
  define e' where "e' i = snd (ct_table_entry_copy_from_user (recs t ! i) u)" for i
  have hi: "entry_head_insert ct_entry_interface (recs t ! i) u = (- EINVAL, e' i, 0)" for i
    using ct_copy_facts(1) [of "recs t ! i" u] u
    by (auto simp: ct_interface_defs e'_def errno_defs split: prod.splits)
  have stale: "ct_inv (t\<lparr>recs := (recs t)[i := e' i]\<rparr>) cs \<and> ct_spec_of (t\<lparr>recs := (recs t)[i := e' i]\<rparr>) cs = ct_spec_of t cs"
    if i: "i < tot_n t" "\<not> vd ct_entry_interface t i" for i
  proof -
    let ?t = "t\<lparr>recs := (recs t)[i := e' i]\<rparr>"
    obtain r where cp: "ct_table_entry_copy_from_user (recs t ! i) u = (r, e' i)" by (metis e'_def prod.collapse)
    have im: "i \<notin> members cs" using rep_members [OF n(2), of i] i by simp
    have ft: "ct_fresh (recs t ! i)" using n(4) im i(1) ok(4) by (simp add: fresh_rest_def)
    have fe: "ct_fresh (e' i)" by (rule ct_copy_fresh [OF cp u ft])
    have views: "vd ct_entry_interface ?t = vd ct_entry_interface t" "nx ct_entry_interface ?t = nx ct_entry_interface t"
      "pv ct_entry_interface ?t = pv ct_entry_interface t"
      using ct_copy_facts [OF cp] i(1) ok(4)
      by (auto simp: fun_eq_iff vd_def nx_def pv_def ct_interface_defs nth_list_update)
    then have rep: "tbl_rep ct_entry_interface False ?t cs" using n(2) by (simp add: tbl_rep_def)
    show ?thesis using ct_inv_free [OF inv rep _ im _ fe] by simp
  qed
  show thesis
  proof (cases "cs b = []")
    case True
    have lt: "b < tot_n t" using b ok(2) by simp
    have un: "unat (of_nat b :: u16) = b" using tbl_repD(1) [OF n(2)] lt by simp
    have nv: "\<not> vd ct_entry_interface t b" using chain_rep_base_valid_iff [OF tbl_repD(2) [OF n(2)] _ b(2)] True ok(2) by simp
    have "ipa_table_add_entry ct_entry_interface t u (of_nat b) cmd = Some (- EINVAL, t\<lparr>recs := (recs t)[b := e' b]\<rparr>, of_nat b, 0, cmd)"
      using un lt ok(4) nv hi [of b] by (simp add: ipa_table_add_entry_def InsertHead_def vd_def errno_defs)
    then show thesis by (rule that) (use stale [OF lt nv] in \<open>simp_all add: errno_defs\<close>)
  next
    case False
    have vb: "vd ct_entry_interface t b" using chain_rep_base_valid_iff [OF tbl_repD(2) [OF n(2)] _ b(2)] False ok(2) by simp
    have lt: "b < tot_n t" using b ok(2) by simp
    have un: "unat (of_nat b :: u16) = b" using tbl_repD(1) [OF n(2)] lt by simp
    note it = ct.iterator_end_chain [OF n(2) False] and ff = find_free_eq [OF tbl_repD(1) [OF n(2)], of ct_entry_interface]
    have me: "meta t = None" using ok(8) by simp
    show thesis
    proof (cases "filter (\<lambda>i. \<not> vd ct_entry_interface t i) [base_n t..<tot_n t]")
      case Nil
      from ct.add_entry_full [OF n(2) False Nil, of u cmd] show thesis by (rule that) (use inv in simp_all)
    next
      case (Cons i rest)
      then have "i \<in> set (filter (\<lambda>i. \<not> vd ct_entry_interface t i) [base_n t..<tot_n t])" by simp
      then have i: "i < tot_n t" "\<not> vd ct_entry_interface t i" by auto
      have ui: "unat (of_nat i :: u16) = i" using tbl_repD(1) [OF n(2)] i(1) by simp
      have "ipa_table_add_entry ct_entry_interface t u (of_nat b) cmd = Some (- EINVAL, t\<lparr>recs := (recs t)[i := e' i]\<rparr>, of_nat b, 0, cmd)"
        using un lt ok(4) vb hi [of i] it ff Cons ui i(1) me
        by (simp add: ipa_table_add_entry_def InsertTail_def vd_def errno_defs Let_def)
      then show thesis by (rule that) (use stale [OF i] in \<open>simp_all add: errno_defs\<close>)
    qed
  qed
qed

subsection \<open>The locked part of an addition\<close>

text \<open>
  What the driver relies on when it posts commands: the kernel executes them in their order on the table, or
  rejects the buffer and leaves the table as it is.
\<close>

definition ct_dma_faithful :: "('w, 'm) ct_env_scheme \<Rightarrow> ipa_ipv6ct_hw_entry ipa_table \<Rightarrow> bool" where
  "ct_dma_faithful env t \<longleftrightarrow>
     (\<forall>f cmd rs w r rs' w'.
        ioctl_ct_dma env f cmd rs w = ((r, rs'), w') \<longrightarrow> mem_type cmd = 0 \<longrightarrow>
        rs' = (if r = 0 then recs (ct_exec (cmds_of cmd) (t\<lparr>recs := rs\<rparr>)) else rs))"

definition ct_dma_accepts :: "('w, 'm) ct_env_scheme \<Rightarrow> bool" where
  "ct_dma_accepts env \<longleftrightarrow> (\<forall>f cmd rs w. fst (fst (ioctl_ct_dma env f cmd rs w)) = 0)"

lemma ct_post:
  assumes df: "ct_dma_faithful env t" and sh: "same_shape t (ct_table tb)"
  obtains (ok) w' where "ipa_ipv6ct_post_dma_cmd env d tb cmd w = (0, tb\<lparr>ct_table := ct_exec (cmds_of cmd) (ct_table tb)\<rparr>, w')"
  | (fail) w' where "ipa_ipv6ct_post_dma_cmd env d tb cmd w = (- EIO, tb, w')" and "\<not> ct_dma_accepts env"
proof -
  let ?cmd = "cmd\<lparr>mem_type := 0\<rparr>"
  obtain r rs w' where io: "ioctl_ct_dma env (fd d) ?cmd (recs (ct_table tb)) w = ((r, rs), w')" by (metis surj_pair)
  have c: "cmds_of ?cmd = cmds_of cmd" by (simp add: cmds_of_def)
  have rs: "rs = (if r = 0 then recs (ct_exec (cmds_of cmd) (t\<lparr>recs := recs (ct_table tb)\<rparr>)) else recs (ct_table tb))"
    using df io by (fastforce simp: ct_dma_faithful_def c)
  show thesis
  proof (cases "r = 0")
    case True
    then have "(ct_table tb)\<lparr>recs := rs\<rparr> = ct_exec (cmds_of cmd) (ct_table tb)" using rs dma_exec_shape [OF sh] by simp
    then show thesis using ok io True by (simp add: ipa_ipv6ct_post_dma_cmd_def Let_def)
  next
    case False
    then have "rs = recs (ct_table tb)" using rs by simp
    then have "ipa_ipv6ct_post_dma_cmd env d tb cmd w = (- EIO, tb, w')"
      using io False by (simp add: ipa_ipv6ct_post_dma_cmd_def Let_def)
    moreover have "fst (fst (ioctl_ct_dma env (fd d) ?cmd (recs (ct_table tb)) w)) \<noteq> 0" using io False by simp
    ultimately show thesis using fail by (auto simp: ct_dma_accepts_def)
  qed
qed

definition ct_bucket :: "ipa_ipv6ct_hw_entry ipa_table \<Rightarrow> ipa_ipv6ct_rule \<Rightarrow> nat" where
  "ct_bucket t u = unat (ipa_ipv6ct_hash u (table_entries t - 1))"

definition ct_room :: "ipa_ipv6ct_hw_entry ipa_table \<Rightarrow> ipa_ipv6ct_rule \<Rightarrow> bool" where
  "ct_room t u \<longleftrightarrow> \<not> vd ct_entry_interface t (ct_bucket t u) \<or> has_free ct_entry_interface t"

lemma ct_bucket_range:
  assumes "tbl_ok ix t" shows "0 < ct_bucket t u" and "ct_bucket t u < base_n t"
proof -
  obtain k where "base_n t = 2 ^ k" using assms by (auto simp: tbl_ok_def table_dims_ok_def)
  from ct_hash_range [OF this tbl_okD(1) [OF assms]] show "0 < ct_bucket t u" "ct_bucket t u < base_n t"
    by (simp_all add: ct_bucket_def)
qed

lemma ct_cmd_zero: "n < 256 \<Longrightarrow> room (ct_dma_cmd_zero n) n" "cmds_of (ct_dma_cmd_zero n) = []"
  by (simp_all add: room_def cmds_of_def ct_dma_cmd_zero_def)

definition ct_add_outcome ::
    "ipa_ipv6ct_rule \<Rightarrow> ipa_ipv6ct_table \<Rightarrow> (nat \<Rightarrow> nat list) \<Rightarrow> int \<Rightarrow> u32 \<Rightarrow> ipa_ipv6ct_table \<Rightarrow> bool" where
  "ct_add_outcome u tb cs ret hdl tb' \<longleftrightarrow>
     ct_mem_desc tb' = ct_mem_desc tb \<and> same_shape (ct_table tb) (ct_table tb') \<and>
     (if ret = 0
      then \<exists>i. i \<notin> members cs \<and> 0 < i \<and> i < tot_n (ct_table tb) \<and> ct_rule_ok u \<and>
             hdl = ucast (MakeEntryHdl (ct_table tb) (of_nat i)) \<and>
             (let b = ct_bucket (ct_table tb) u; cs' = cs(b := cs b @ [i])
              in ct_inv (ct_table tb') cs' \<and>
                 ct_spec_of (ct_table tb') cs' = ct_spec_add i b (ct_installed u) (ct_spec_of (ct_table tb) cs))
      else ct_inv (ct_table tb') cs \<and> ct_spec_of (ct_table tb') cs = ct_spec_of (ct_table tb) cs)"

lemma ct_add_posted:
  assumes inv: "ct_inv (ct_table tb) cs" and df: "ct_dma_faithful env (ct_table tb)"
    and pr: "v_protocol u \<noteq> IPA_IPV6CT_INVALID_PROTO_FIELD_CMP" and u: "ct_rule_ok u"
    and ins: "inserted ct_entry_interface ct_write16 34 IPA_IPV6CT_BASE_TBL IPA_IPV6CT_EXPN_TBL False ct_content
                (ct_table tb) cs (ct_bucket (ct_table tb) u) u i t1 new e1 e' v" and cmd: "cmds_of cmd = new"
  obtains (ok) tb' w' where "ipa_ipv6ct_post_dma_cmd env d (tb\<lparr>ct_table := t1\<rparr>) cmd w = (0, tb', w')"
      and "ct_add_outcome u tb cs 0 (ucast (MakeEntryHdl (ct_table tb) (of_nat i))) tb'"
  | (fail) t4 w' where "ipa_ipv6ct_post_dma_cmd env d (tb\<lparr>ct_table := t1\<rparr>) cmd w = (- EIO, tb\<lparr>ct_table := t1\<rparr>, w')" and "\<not> ct_dma_accepts env"
      and "ipa_table_erase_entry t1 (of_nat i) = Some t4"
      and "ct_add_outcome u tb cs (- EIO) hdl (tb\<lparr>ct_table := t4\<rparr>)"
proof -
  let ?t = "ct_table tb" and ?b = "ct_bucket (ct_table tb) u"
  note n = ct_invD [OF inv] and I = insertedD [OF ins]
  note okt = tbl_repD(1) [OF n(2)]
  have im: "i \<notin> members cs" by (rule inserted_not_member [OF ins n(2)])
  have same: "t1\<lparr>recs := (recs t1)[i := e1]\<rparr> = t1" by (rule inserted_same_rec [OF ins okt])
  have sh: "same_shape ?t (ct_table (tb\<lparr>ct_table := t1\<rparr>))" using I(6) by simp
  have le: "link_eq ct_entry_interface False e1 e1" by (simp add: link_eq_def)
  obtain t3 where t3: "ct_exec new t1 = t3" "tbl_rep ct_entry_interface False t3 (cs(?b := cs ?b @ [i]))" "same_shape ?t t3"
      "recs t3 ! i = ct_write16 e1 34 v" "\<And>j. j \<noteq> i \<Longrightarrow> ct_content (recs t3 ! j) = ct_content (recs ?t ! j)"
    using inserted_exec [OF ins le] unfolding same by auto
  obtain t4 where t4: "ipa_table_erase_entry t1 (of_nat i) = Some t4" "tbl_rep ct_entry_interface False t4 cs" "same_shape ?t t4"
      "recs t4 = (recs ?t)[i := 0]"
    using inserted_erase [OF ins, of e1] unfolding same by auto
  have fr: "ct_fresh (recs ?t ! i)" using n(4) im I(2) tbl_okD(4) [OF okt] by (simp add: fresh_rest_def)
  note view = ct_installed_content [OF I(8) u fr I(9)]
  have dd: "\<not> ct_dead (recs t3 ! i)" using t3(4) view(2) pr by (simp add: ct_dead_def)
  have vi: "ct_content (recs t3 ! i) = ct_installed u" using t3(4) view(1) by simp
  note ii = ct_inv_insert [OF inv t3(2,3) im I(5) t3(5) dd vi]
  show thesis
  proof (rule ct_post [OF df sh, of d cmd w])
    fix w' assume p: "ipa_ipv6ct_post_dma_cmd env d (tb\<lparr>ct_table := t1\<rparr>) cmd w =
      (0, tb\<lparr>ct_table := t1, ct_table := ct_exec (cmds_of cmd) (ct_table (tb\<lparr>ct_table := t1\<rparr>))\<rparr>, w')"
    have "ct_add_outcome u tb cs 0 (ucast (MakeEntryHdl ?t (of_nat i))) (tb\<lparr>ct_table := t3\<rparr>)"
      using im I(2,3) u ii t3(3) by (auto simp: ct_add_outcome_def Let_def)
    then show thesis using ok [of "tb\<lparr>ct_table := t3\<rparr>" w'] p t3(1) cmd by (simp del: dma_exec_simps)
  next
    fix w' assume p: "ipa_ipv6ct_post_dma_cmd env d (tb\<lparr>ct_table := t1\<rparr>) cmd w = (- EIO, tb\<lparr>ct_table := t1\<rparr>, w')" "\<not> ct_dma_accepts env"
    have "ct_add_outcome u tb cs (- EIO) hdl (tb\<lparr>ct_table := t4\<rparr>)"
      using ct_inv_free [OF inv t4(2,3) im t4(4) ct_fresh_zero] t4(3) by (simp add: ct_add_outcome_def errno_defs)
    then show thesis using fail p t4(1) by blast
  qed
qed

lemma ct_add_locked_spec:
  assumes inv: "ct_inv (ct_table tb) cs" and df: "ct_dma_faithful env (ct_table tb)"
    and pr: "v_protocol u \<noteq> IPA_IPV6CT_INVALID_PROTO_FIELD_CMP"
  shows "\<exists>ret hdl tb' w'. ct_add_locked env d tb u w = Some (ret, hdl, tb', w') \<and> ct_add_outcome u tb cs ret hdl tb' \<and>
           (ct_rule_ok u \<and> ct_room (ct_table tb) u \<and> ct_dma_accepts env \<longrightarrow> ret = 0)"
proof -
  let ?t = "ct_table tb" and ?b = "ct_bucket (ct_table tb) u" and ?cmd = "ct_dma_cmd_zero IPA_MAX_DMA_ENTRIES_FOR_ADD"
  note n = ct_invD [OF inv]
  note okt = tbl_repD(1) [OF n(2)]
  note br = ct_bucket_range [OF okt, of u]
  have hb: "ipa_ipv6ct_hash u (table_entries ?t - 1) = of_nat ?b" by (simp add: ct_bucket_def)
  have room: "room ?cmd (Suc (Suc 0))" using ct_cmd_zero(1) [of 2] by (simp add: IPA_MAX_DMA_ENTRIES_FOR_ADD_def numeral_2_eq_2)
  have vb: "vd ct_entry_interface ?t ?b \<longleftrightarrow> cs ?b \<noteq> []"
    using chain_rep_base_valid_iff [OF tbl_repD(2) [OF n(2)] _ br(2)] tbl_okD(2) [OF okt] by simp
  show ?thesis
  proof (cases "ct_rule_ok u")
    case False
    obtain ret t' idx where "ipa_table_add_entry ct_entry_interface ?t u (of_nat ?b) ?cmd = Some (ret, t', idx, 0, ?cmd)" "ret \<noteq> 0"
      "ct_inv t' cs" "ct_spec_of t' cs = ct_spec_of ?t cs" "same_shape ?t t'"
      by (rule ct_add_refused [OF inv br False])
    then show ?thesis using False by (simp add: ct_add_locked_def hb ct_add_outcome_def)
  next
    case u: True
    show ?thesis
    proof (cases "ct_room ?t u")
      case False
      then have "cs ?b \<noteq> []" "\<not> has_free ct_entry_interface ?t" using vb by (auto simp: ct_room_def)
      from ct.add_entry_no_room [OF n(2) this, of u ?cmd] show ?thesis
        using inv False by (simp add: ct_add_locked_def hb ct_add_outcome_def)
    next
      case True
      then have fr: "cs ?b = [] \<or> has_free ct_entry_interface ?t" using vb by (auto simp: ct_room_def)
      obtain i t1 new e1 e' v cmd1 where
        add: "ipa_table_add_entry ct_entry_interface ?t u (of_nat ?b) ?cmd = Some (0, t1, of_nat i, ucast (MakeEntryHdl ?t (of_nat i)), cmd1)"
        and c1: "cmds_of cmd1 = cmds_of ?cmd @ new"
        and ins: "inserted ct_entry_interface ct_write16 34 IPA_IPV6CT_BASE_TBL IPA_IPV6CT_EXPN_TBL False ct_content ?t cs ?b u i t1 new e1 e' v"
        by (rule ct.add_entry_inserted [OF n(2,1) u br room fr])
      have c2: "cmds_of cmd1 = new" using c1 by (simp add: ct_cmd_zero)
      show ?thesis
      proof (rule ct_add_posted [OF inv df pr u ins c2, where d = d and w = w and hdl = "ucast (MakeEntryHdl ?t (of_nat i))"])
        fix tb' w' assume "ipa_ipv6ct_post_dma_cmd env d (tb\<lparr>ct_table := t1\<rparr>) cmd1 w = (0, tb', w')"
          "ct_add_outcome u tb cs 0 (ucast (MakeEntryHdl ?t (of_nat i))) tb'"
        then show ?thesis using add by (simp add: ct_add_locked_def hb)
      next
        fix t4 w' assume "ipa_ipv6ct_post_dma_cmd env d (tb\<lparr>ct_table := t1\<rparr>) cmd1 w = (- EIO, tb\<lparr>ct_table := t1\<rparr>, w')"
          "\<not> ct_dma_accepts env" "ipa_table_erase_entry t1 (of_nat i) = Some t4"
          "ct_add_outcome u tb cs (- EIO) (ucast (MakeEntryHdl ?t (of_nat i))) (tb\<lparr>ct_table := t4\<rparr>)"
        then show ?thesis using add by (simp add: ct_add_locked_def hb EIO_def)
      qed
    qed
  qed
qed

subsection \<open>The locked part of a deletion\<close>

lemma ct_inv_gone:
  assumes inv: "ct_inv t cs" and gone: "rule_gone ct_entry_interface ct_dead ct_fresh ct_content t cs i t' cs'"
  shows "ct_inv t' cs'" and "ct_spec_of t' cs' = ct_spec_del i (ct_spec_of t cs)"
proof -
  have g: "tbl_rep ct_entry_interface False t' cs'" "same_shape t t'" "dead_heads ct_dead (recs t') cs'" "fresh_rest ct_fresh (recs t') cs'"
    "ct_live t' cs' = ct_live t cs - {i}" "\<forall>j\<in>ct_live t cs - {i}. ct_content (recs t' ! j) = ct_content (recs t ! j)"
    "\<forall>b. filter (\<lambda>j. \<not> ct_dead (recs t' ! j)) (cs' b) = remove1 i (filter (\<lambda>j. \<not> ct_dead (recs t ! j)) (cs b))"
    using gone by (simp_all add: rule_gone_def)
  show "ct_inv t' cs'" using g ct_invD(1) [OF inv] same_shapeD(9) [OF g(2)] by (simp add: ct_inv_def)
  show "ct_spec_of t' cs' = ct_spec_del i (ct_spec_of t cs)"
    using g(5,6,7) by (auto simp: ct_spec_of_def ct_spec_del_def fun_eq_iff)
qed

lemma ct_del_locked_eq:
  assumes "ipa_table_get_entry (ct_table tb) hdl = (0, Some ep, idx)"
    and "ipa_table_iterator_init ct_entry_interface (ct_table tb) ep idx = Some (0, it)"
    and "ipa_table_create_delete_command ct_entry_interface (ct_table tb) (ct_dma_cmd_zero IPA_MAX_DMA_ENTRIES_FOR_DEL) it = Some cmd"
  shows "ct_del_locked env d tb hdl w =
    (let (ret, tb, w) = ipa_ipv6ct_post_dma_cmd env d tb cmd w
     in if ret \<noteq> 0 then Some (ret, tb, w)
        else do { t \<leftarrow> del_finish ct_entry_interface ct_dead (ct_table tb) it; Some (0, tb\<lparr>ct_table := t\<rparr>, w) })"
  using assms unfolding ct_del_locked_def del_finish_def ct_dead_def
  by (cases "ipa_ipv6ct_post_dma_cmd env d tb cmd w"; cases "ipa_table_iterator_is_head_with_tail it")
    (simp_all add: Let_def cong: if_cong option.case_cong)

lemma ct_del_locked_spec:
  assumes inv: "ct_inv (ct_table tb) cs" and df: "ct_dma_faithful env (ct_table tb)" and i: "i \<in> ct_live (ct_table tb) cs"
    and hdl: "ipa_table_get_entry (ct_table tb) hdl = (0, Some (of_nat i), of_nat i)"
  shows "\<exists>ret tb' w'. ct_del_locked env d tb hdl w = Some (ret, tb', w') \<and>
      (if ret = 0
       then ct_mem_desc tb' = ct_mem_desc tb \<and> same_shape (ct_table tb) (ct_table tb') \<and>
            (\<exists>cs'. ct_inv (ct_table tb') cs' \<and> ct_spec_of (ct_table tb') cs' = ct_spec_del i (ct_spec_of (ct_table tb) cs))
       else ret = - EIO \<and> tb' = tb \<and> \<not> ct_dma_accepts env)"
proof -
  let ?t = "ct_table tb" and ?cmd = "ct_dma_cmd_zero IPA_MAX_DMA_ENTRIES_FOR_DEL"
  note n = ct_invD [OF inv]
  have im: "i \<in> members cs" "\<not> ct_dead (recs ?t ! i)" using i by (auto simp: live_of_def)
  obtain b as bs where b: "cs b = as @ i # bs" by (rule rep_memD [OF n(2) im(1)])
  have room: "room ?cmd (Suc 1)" using ct_cmd_zero(1) [of 2] by (simp add: IPA_MAX_DMA_ENTRIES_FOR_DEL_def numeral_2_eq_2)
  let ?it = "iter_at (last (0 # as)) i (hd (bs @ [0]))" and ?c = "del_cmd IPA_IPV6CT_INVALID_PROTO_FIELD_VALUE ?t as i bs"
  have it: "ipa_table_iterator_init ct_entry_interface ?t (of_nat i) (of_nat i) = Some (0, ?it)"
    by (rule ct.iterator_init_chain [OF n(2) b])
  have cc: "ipa_table_create_delete_command ct_entry_interface ?t ?cmd ?it = Some (push_cmd ?cmd ?c)"
    unfolding ct.create_delete_command_chain [OF n(2,1) room b] del_cmd_def ct.del_data ..
  have cs1: "cmds_of (push_cmd ?cmd ?c) = [?c]" using push_cmd_facts(1) [OF room, of ?c] by (simp add: ct_cmd_zero)
  note eq = ct_del_locked_eq [OF hdl it cc, of env d w]
  obtain t3 cs' where fin: "del_finish ct_entry_interface ct_dead (ct_exec [?c] ?t) ?it = Some t3"
    and gone: "rule_gone ct_entry_interface ct_dead ct_fresh ct_content ?t cs i t3 cs'"
    by (rule ct.del_finish_any [OF n(2,1,3,4) b im(2)])
  have sh: "same_shape ?t t3" using gone by (simp add: rule_gone_def)
  show ?thesis
  proof (rule ct_post [OF df same_shape_refl, of d "push_cmd ?cmd ?c" w])
    fix w' assume "ipa_ipv6ct_post_dma_cmd env d tb (push_cmd ?cmd ?c) w = (0, tb\<lparr>ct_table := ct_exec (cmds_of (push_cmd ?cmd ?c)) ?t\<rparr>, w')"
    then have "ct_del_locked env d tb hdl w = Some (0, tb\<lparr>ct_table := t3\<rparr>, w')" using eq fin cs1 by (simp del: dma_exec_simps)
    then show ?thesis using ct_inv_gone [OF inv gone] sh by auto
  next
    fix w' assume "ipa_ipv6ct_post_dma_cmd env d tb (push_cmd ?cmd ?c) w = (- EIO, tb, w')" "\<not> ct_dma_accepts env"
    then show ?thesis using eq by (simp add: EIO_def)
  qed
qed

end
