(* ===== verification/Ipv6ct_Service.thy ===== *)
theory Ipv6ct_Service
  imports Ipv6ct_Rules
begin

unbundle bit_operations_syntax

section \<open>The states of the IPv6CT driver\<close>

text \<open>
  The operations of \<open>ipa_ipv6ct.c\<close> on the driver's variable: \<open>ct_ready\<close> is the state in which the table exists
  and represents the rules \<open>s\<close>, \<open>ct_idle\<close> the state without a table.

\<close>

subsection \<open>States of the driver\<close>

abbreviation the_ct :: "ipa_ipv6ct \<Rightarrow> ipa_ipv6ct_table" where
  "the_ct v \<equiv> ct_tables v ! 0"

definition ct_idle :: "ipa_ipv6ct \<Rightarrow> bool" where
  "ct_idle v \<longleftrightarrow> length (ct_tables v) = 1 \<and> ct_table_cnt v = 0 \<and> ct_ipa_desc v = None"

definition ct_represents :: "ipa_ipv6ct_hw_entry ipa_table \<Rightarrow> ct_spec \<Rightarrow> bool" where
  "ct_represents t s \<longleftrightarrow> (\<exists>cs. ct_inv t cs \<and> ct_spec_of t cs = s)"

definition ct_ready :: "ipa_ipv6ct \<Rightarrow> ct_spec \<Rightarrow> bool" where
  "ct_ready v s \<longleftrightarrow> length (ct_tables v) = 1 \<and> ct_table_cnt v = 1 \<and> valid (ct_mem_desc (the_ct v)) \<and>
     (\<exists>d. ct_ipa_desc v = Some d \<and> IPA_HW_v4_0 \<le> ver d) \<and> ct_represents (ct_table (the_ct v)) s"

definition ct_spec_empty :: ct_spec where
  "ct_spec_empty = \<lparr>cs_rules = (\<lambda>_. None), cs_chain = (\<lambda>_. [])\<rparr>"

definition ct_rule_hdl :: "ipa_ipv6ct \<Rightarrow> nat \<Rightarrow> u32" where
  "ct_rule_hdl v i = ucast (MakeEntryHdl (ct_table (the_ct v)) (of_nat i))"

lemma ct_unlock:
  assumes "mutex_works env"
  obtains w' where "pthread_mutex_unlock env w = (0, w')" and "ct_unlock_ret env ret w = (ret, w')"
proof -
  obtain w' where "pthread_mutex_unlock env w = (0, w')" using assms by (metis mutex_works_def prod.collapse)
  then show thesis using that by (simp add: ct_unlock_ret_def)
qed

lemma ct_readyD:
  assumes "ct_ready v s"
  obtains d cs where "length (ct_tables v) = 1" and "ct_ipa_desc v = Some d" and "\<not> ver d < IPA_HW_v4_0"
    and "valid (ct_mem_desc (the_ct v))" and "ct_inv (ct_table (the_ct v)) cs" and "ct_spec_of (ct_table (the_ct v)) cs = s"
    and "ct_table_cnt v = 1" and "get_ct_tbl v 0 = Some (the_ct v)"
  using assms by (auto simp: ct_ready_def ct_represents_def get_ct_tbl_def)

lemma ct_ready_put:
  assumes "ct_ready v s" and "ct_mem_desc tb = ct_mem_desc (the_ct v)" and "ct_represents (ct_table tb) s'"
  shows "ct_ready (put_ct_tbl v 0 tb) s'" and "the_ct (put_ct_tbl v 0 tb) = tb"
  using assms by (auto simp: ct_ready_def put_ct_tbl_def)

lemma ct_handle_one [simp]: "ct_handle_ok 1"
  by (simp add: ct_handle_ok_def IPA_IPV6CT_MAX_TBLS_def)

lemma ct_live_rule:
  assumes "ct_spec_of t cs = s" and "cs_rules s i = Some e"
  shows "i \<in> ct_live t cs" and "e = ct_content (recs t ! i)"
  using assms by (auto simp: ct_spec_of_def split: if_splits)

lemma ct_get_entry:
  assumes inv: "ct_inv t cs" and i: "i < tot_n t" "0 < i"
  shows "ipa_table_get_entry t (ucast (MakeEntryHdl t (of_nat i))) = (0, Some (of_nat i), of_nat i)"
    and "ucast (MakeEntryHdl t (of_nat i)) \<noteq> (0 :: u32)"
proof -
  note ok = tbl_repD(1) [OF ct_invD(2) [OF inv]]
  have u: "unat (of_nat i :: u16) = i" using ok i(1) by simp
  have br: "BREAK_RULE_HDL t (ucast (MakeEntryHdl t (of_nat i))) = (nmi t, table_entries t \<le> of_nat i, of_nat i)"
    using make_break_hdl [OF tbl_okD(6,9) [OF ok], of "of_nat i"] i(1) u by simp
  show "ipa_table_get_entry t (ucast (MakeEntryHdl t (of_nat i))) = (0, Some (of_nat i), of_nat i)"
    using br u i(1) by (simp add: ipa_table_get_entry_def word_le_nat_alt)
  show "ucast (MakeEntryHdl t (of_nat i)) \<noteq> (0 :: u32)"
  proof
    assume "ucast (MakeEntryHdl t (of_nat i)) = (0 :: u32)"
    then have "BREAK_RULE_HDL t 0 = (nmi t, table_entries t \<le> of_nat i, of_nat i)" using br by simp
    then have "(of_nat i :: u16) = 0" by (auto simp: BREAK_RULE_HDL_def Let_def)
    then show False using u i(2) by simp
  qed
qed

lemma ct_live_get:
  assumes "ct_inv t cs" and "i \<in> ct_live t cs"
  shows "ipa_table_get_entry t (ucast (MakeEntryHdl t (of_nat i))) = (0, Some (of_nat i), of_nat i)"
    and "ucast (MakeEntryHdl t (of_nat i)) \<noteq> (0 :: u32)" and "i < tot_n t"
proof -
  have m: "i \<in> members cs" using assms(2) by (simp add: live_of_def)
  then obtain b where "i \<in> set (cs b)" by (auto simp: members_def)
  note r = tbl_rep_mem(1,2) [OF ct_invD(2) [OF assms(1)] this]
  show "ipa_table_get_entry t (ucast (MakeEntryHdl t (of_nat i))) = (0, Some (of_nat i), of_nat i)"
    "ucast (MakeEntryHdl t (of_nat i)) \<noteq> (0 :: u32)" "i < tot_n t" using ct_get_entry [OF assms(1) r] r(1) .
qed

subsection \<open>Rules\<close>

lemma ct_add_rule_ready:
  assumes r: "ct_ready v s" and df: "ct_dma_faithful env (ct_table (the_ct v))" and m: "mutex_works env"
    and pr: "v_protocol u \<noteq> IPA_IPV6CT_INVALID_PROTO_FIELD_CMP"
  shows "\<exists>ret v' hdl w'. ipa_ipv6ct_add_rule env v 1 u w = Some (ret, v', hdl, w') \<and>
     same_shape (ct_table (the_ct v)) (ct_table (the_ct v')) \<and>
     (if ret = 0
      then \<exists>i < tot_n (ct_table (the_ct v)). 0 < i \<and> ct_rule_ok u \<and> cs_rules s i = None \<and> hdl = Some (ct_rule_hdl v i) \<and>
             ct_ready v' (ct_spec_add i (ct_bucket (ct_table (the_ct v)) u) (ct_installed u) s)
      else hdl = None \<and> ct_ready v' s) \<and>
     (ct_rule_ok u \<and> ct_room (ct_table (the_ct v)) u \<and> ct_dma_accepts env \<longrightarrow> ret = 0)"
proof -
  obtain d cs where v: "ct_ipa_desc v = Some d" "\<not> ver d < IPA_HW_v4_0" "valid (ct_mem_desc (the_ct v))"
    "ct_inv (ct_table (the_ct v)) cs" "ct_spec_of (ct_table (the_ct v)) cs = s" "get_ct_tbl v 0 = Some (the_ct v)"
    using ct_readyD [OF r] by metis
  obtain w1 where w1: "pthread_mutex_lock env w = (0, w1)" using mutex_works_lock [OF m] .
  obtain ret hdl tb' w2 where a: "ct_add_locked env d (the_ct v) u w1 = Some (ret, hdl, tb', w2)"
    and out: "ct_add_outcome u (the_ct v) cs ret hdl tb'"
    and ok: "ct_rule_ok u \<and> ct_room (ct_table (the_ct v)) u \<and> ct_dma_accepts env \<longrightarrow> ret = 0"
    using ct_add_locked_spec [OF v(4) df pr, of d w1] by blast
  obtain w3 where w3: "pthread_mutex_unlock env w2 = (0, w3)" using ct_unlock [OF m] by metis
  let ?v = "put_ct_tbl v 0 tb'"
  have run: "ipa_ipv6ct_add_rule env v 1 u w = Some (ret, ?v, if ret = 0 then Some hdl else None, w3)"
    using v pr w1 a w3 by (simp add: ipa_ipv6ct_add_rule_def)
  have md: "ct_mem_desc tb' = ct_mem_desc (the_ct v)" and sh: "same_shape (ct_table (the_ct v)) (ct_table tb')"
    using out by (simp_all add: ct_add_outcome_def)
  note put = ct_ready_put [OF r md]
  have the: "the_ct ?v = tb'" using r by (simp add: ct_ready_def put_ct_tbl_def)
  show ?thesis
  proof (cases "ret = 0")
    case True
    then obtain i where i: "i \<notin> members cs" "0 < i" "i < tot_n (ct_table (the_ct v))" "ct_rule_ok u" "hdl = ct_rule_hdl v i"
      and rp: "ct_represents (ct_table tb') (ct_spec_add i (ct_bucket (ct_table (the_ct v)) u) (ct_installed u) s)"
      using out v(5) by (auto simp: ct_add_outcome_def Let_def ct_rule_hdl_def ct_represents_def)
    have "cs_rules s i = None" using i(1) v(5) by (auto simp: ct_spec_of_def live_of_def)
    then show ?thesis using run True i put(1) [OF rp] sh the by auto
  next
    case False
    then have "ct_represents (ct_table tb') s" using out v(5) by (auto simp: ct_add_outcome_def ct_represents_def)
    then show ?thesis using run False put(1) ok sh the by auto
  qed
qed

lemma ct_del_rule_ready:
  assumes r: "ct_ready v s" and df: "ct_dma_faithful env (ct_table (the_ct v))" and m: "mutex_works env"
    and i: "cs_rules s i = Some e"
  shows "\<exists>ret v' w'. ipa_ipv6ct_del_rule env v 1 (ct_rule_hdl v i) w = Some (ret, v', w') \<and>
     (if ret = 0 then ct_ready v' (ct_spec_del i s) \<and> same_shape (ct_table (the_ct v)) (ct_table (the_ct v'))
      else ret = - EIO \<and> v' = v \<and> \<not> ct_dma_accepts env)"
proof -
  obtain d cs where v: "ct_ipa_desc v = Some d" "\<not> ver d < IPA_HW_v4_0" "valid (ct_mem_desc (the_ct v))"
    "ct_inv (ct_table (the_ct v)) cs" "ct_spec_of (ct_table (the_ct v)) cs = s" "get_ct_tbl v 0 = Some (the_ct v)"
    using ct_readyD [OF r] by metis
  note l = ct_live_rule(1) [OF v(5) i]
  note h = ct_live_get [OF v(4) l]
  obtain w1 where w1: "pthread_mutex_lock env w = (0, w1)" using mutex_works_lock [OF m] .
  obtain ret tb' w2 where a: "ct_del_locked env d (the_ct v) (ct_rule_hdl v i) w1 = Some (ret, tb', w2)"
    and out: "if ret = 0
       then ct_mem_desc tb' = ct_mem_desc (the_ct v) \<and> same_shape (ct_table (the_ct v)) (ct_table tb') \<and>
            (\<exists>cs'. ct_inv (ct_table tb') cs' \<and> ct_spec_of (ct_table tb') cs' = ct_spec_del i s)
       else ret = - EIO \<and> tb' = the_ct v \<and> \<not> ct_dma_accepts env"
    using ct_del_locked_spec [OF v(4) df l h(1), of d w1] v(5) unfolding ct_rule_hdl_def by blast
  obtain w3 where w3: "ct_unlock_ret env ret w2 = (ret, w3)" using ct_unlock [OF m] .
  have run: "ipa_ipv6ct_del_rule env v 1 (ct_rule_hdl v i) w = Some (ret, put_ct_tbl v 0 tb', w3)"
    using v h(2) w1 a w3 by (simp add: ipa_ipv6ct_del_rule_def ct_rule_hdl_def)
  have id: "put_ct_tbl v 0 (the_ct v) = v" using list_update_id [of "ct_tables v" 0] by (simp add: put_ct_tbl_def)
  show ?thesis
  proof (cases "ret = 0")
    case True
    then have md: "ct_mem_desc tb' = ct_mem_desc (the_ct v)" and rp: "ct_represents (ct_table tb') (ct_spec_del i s)"
      using out by (auto simp: ct_represents_def)
    then show ?thesis using run True ct_ready_put [OF r md rp] out by auto
  next
    case False
    then show ?thesis using run out id by auto
  qed
qed

subsection \<open>Creating and deleting the table\<close>

lemma ct_inv_empty:
  assumes "dma_ok IPA_IPV6CT_BASE_TBL IPA_IPV6CT_EXPN_TBL 64 34 40 38 t" and "tbl_rep ct_entry_interface False t (\<lambda>_. [])"
    and z: "\<And>i. i < length (recs t) \<Longrightarrow> recs t ! i = 0"
  shows "ct_represents t ct_spec_empty"
proof -
  have "ct_inv t (\<lambda>_. [])" using assms by (simp add: ct_inv_def dead_heads_def fresh_rest_def ct_fresh_zero)
  moreover have "ct_spec_of t (\<lambda>_. []) = ct_spec_empty"
    by (auto simp: ct_spec_of_def ct_spec_empty_def live_of_def members_def)
  ultimately show ?thesis unfolding ct_represents_def by blast
qed

lemma ct_create_table_spec:
  assumes d: "ct_ipa_desc v = Some d" and z: "alloc_at_zero env"
  obtains ret tb' w' where "ipa_ipv6ct_create_table env v tb num idx w = Some (ret, tb', w')"
    and "ret = 0 \<Longrightarrow> valid (ct_mem_desc tb') \<and> ct_represents (ct_table tb') ct_spec_empty"
proof -
  define t0 :: "ipa_ipv6ct_hw_entry ipa_table"
    where "t0 = ipa_table_init IPA_IPV6CT_TABLE_NAME IPA_NAT_MEM_IN_DDR IPA_IPV6CT_HW_ENTRY_SIZE None 0"
  obtain r t where c: "ipa_table_calculate_entries_num t0 num IPA_NAT_MEM_IN_DDR = Some (r, t)"
    using calculate_entries_num_eq [of t0 num] by (metis surj_pair)
  show thesis
  proof (cases "r = 0")
    case False
    then show thesis using that c by (simp add: ipa_ipv6ct_create_table_def t0_def)
  next
    case r: True
    note ok = calculate_entries_num_ok [OF c [unfolded r]]
    have e: "nmi t = IPA_NAT_MEM_IN_DDR" "entry_size t = 64" "meta t = None" "cur_tbl_cnt t = 0" "cur_expn_tbl_cnt t = 0"
      using c r by (auto simp: calculate_entries_num_eq Let_def t0_def ipa_table_init_def IPA_IPV6CT_HW_ENTRY_SIZE_def errno_defs split: if_splits)
    define md where "md = ipa_mem_descriptor_init (ct_mem_desc tb) IPA_IPV6CT_DEV_NAME (ipa_table_calculate_size t) idx
                      IPA_IOC_ALLOC_IPV6CT_TABLE IPA_IOC_DEL_IPV6CT_TABLE False"
    obtain r2 md2 w2 where am: "ipa_mem_descriptor_allocate_memory env md (fd d) w = ((r2, md2), w2)" by (metis surj_pair)
    obtain ba t2 where a: "ipa_table_calculate_addresses t (base_addr md2) = (ba, t2)" by (metis surj_pair)
    let ?tb = "ipa_ipv6ct_create_table_dma_cmd_helpers (tb\<lparr>ct_mem_desc := md2, ct_table := ipa_table_reset t2\<rparr>) idx"
    have eq: "ipa_ipv6ct_create_table env v tb num idx w = (if r2 \<noteq> 0 then Some (r2, ct_table_zero, w2) else Some (0, ?tb, w2))"
      using c r am a d by (cases "r2 = 0") (simp_all add: ipa_ipv6ct_create_table_def t0_def md_def)
    show thesis
    proof (cases "r2 = 0")
      case True
      note mo = allocate_memory_ok [OF am [unfolded True] z]
      have t2: "t2 = t\<lparr>table_addr := base_addr md2, expn_table_addr := base_addr md2 + of_nat (64 * base_n t)\<rparr>"
        using a e(2) by (auto simp: ipa_table_calculate_addresses_def Let_def)
      have rt: "tbl_rep ct_entry_interface False (ipa_table_reset (t2\<lparr>dma_help := h\<rparr>)) (\<lambda>_. [])" for h
        by (rule ct.reset_rep) (use ok(1) e in \<open>simp_all add: t2 meta_ok_def table_dims_ok_def\<close>)
      obtain h where h: "ct_table ?tb = ipa_table_reset (t2\<lparr>dma_help := h\<rparr>)" "length h = 3"
        "helper_ok IPA_IPV6CT_BASE_TBL IPA_IPV6CT_EXPN_TBL 34 (h ! 0)" "helper_ok IPA_IPV6CT_BASE_TBL IPA_IPV6CT_EXPN_TBL 40 (h ! 1)"
        "helper_ok IPA_IPV6CT_BASE_TBL IPA_IPV6CT_EXPN_TBL 38 (h ! 2)" "ct_mem_desc ?tb = md2"
        using mo(2)
        by (simp add: ipa_ipv6ct_create_table_dma_cmd_helpers_def Let_def reset_help helper_ok_def
            ipa_table_dma_cmd_helper_init_def IPA_IPV6CT_RULE_FLAG_FIELD_OFFSET_def IPA_IPV6CT_RULE_NEXT_FIELD_OFFSET_def
            IPA_IPV6CT_RULE_PROTO_FIELD_OFFSET_def)
      have "ct_represents (ct_table ?tb) ct_spec_empty"
        by (rule ct_inv_empty; use h e(2) rt in \<open>simp add: dma_ok_def ipa_table_reset_def t2\<close>)
      then show thesis using that [of 0 ?tb w2] eq True h(6) mo(1) by simp
    next
      case False
      then show thesis using that eq by simp
    qed
  qed
qed

lemma ct_add_tbl_idle:
  assumes i: "ct_idle v" and z: "alloc_at_zero env" and num: "num \<noteq> 0"
  shows "\<exists>ret v' hdl w'. ipa_ipv6ct_add_tbl env v num w = Some (ret, v', Some hdl, w') \<and>
     (if ret = 0 then hdl = 1 \<and> ct_ready v' ct_spec_empty else hdl = 0 \<and> ct_idle v')"
proof -
  have v: "length (ct_tables v) = 1" "ct_table_cnt v = 0" "ct_ipa_desc v = None" using i by (simp_all add: ct_idle_def)
  obtain desc w1 where o: "ipa_descriptor_open env w = (desc, w1)" by (metis surj_pair)
  show ?thesis
  proof (cases desc)
    case None
    then have "ipa_ipv6ct_add_tbl env v num w = Some (- EIO, v\<lparr>ct_ipa_desc := None\<rparr>, Some 0, w1)"
      using v o num by (simp add: ipa_ipv6ct_add_tbl_def IPA_IPV6CT_MAX_TBLS_def)
    then show ?thesis using i by (simp add: errno_defs ct_idle_def)
  next
    case (Some d)
    let ?v = "v\<lparr>ct_ipa_desc := Some d\<rparr>"
    obtain ret tb w2 where cr: "ipa_ipv6ct_create_table env ?v (the_ct v) num 0 w1 = Some (ret, tb, w2)"
      and ok: "ret = 0 \<Longrightarrow> valid (ct_mem_desc tb) \<and> ct_represents (ct_table tb) ct_spec_empty"
      by (rule ct_create_table_spec [of ?v d env "the_ct v" num 0 w1]) (use z in simp_all)
    let ?v2 = "put_ct_tbl ?v 0 tb"
    obtain r2 w3 where pi: "ipa_ipv6ct_post_init_cmd env ?v2 tb 0 w2 = Some (r2, w3)"
      by (simp add: ipa_ipv6ct_post_init_cmd_def Let_def put_ct_tbl_def) (metis surj_pair)
    obtain r3 w4 where de: "ipa_ipv6ct_destroy_table env ?v2 tb w3 = Some (r3, ct_table_zero, w4)"
      by (simp add: ipa_ipv6ct_destroy_table_def split_def Let_def put_ct_tbl_def)
    have gt: "get_ct_tbl ?v 0 = Some (the_ct v)" using v by (simp add: get_ct_tbl_def)
    have pv: "ct_tables (put_ct_tbl ?v 0 x) = [x]" "ct_table_cnt (put_ct_tbl ?v 0 x) = 0" "ct_ipa_desc (put_ct_tbl ?v 0 x) = Some d"
      "put_ct_tbl (put_ct_tbl ?v 0 y) 0 x = put_ct_tbl ?v 0 x" for x y
      using v by (auto simp: put_ct_tbl_def length_Suc_conv)
    consider (old) "ver d < IPA_HW_v4_0" | (fail) "\<not> ver d < IPA_HW_v4_0" "ret \<noteq> 0"
      | (init) "\<not> ver d < IPA_HW_v4_0" "ret = 0" "r2 \<noteq> 0" | (fine) "\<not> ver d < IPA_HW_v4_0" "ret = 0" "r2 = 0" by blast
    then show ?thesis
    proof cases
      case old
      then show ?thesis using v o Some num by (simp add: ipa_ipv6ct_add_tbl_def IPA_IPV6CT_MAX_TBLS_def errno_defs ct_idle_def Let_def)
    next
      case fail
      then show ?thesis using v o Some num cr gt pv by (simp add: ipa_ipv6ct_add_tbl_def IPA_IPV6CT_MAX_TBLS_def ct_idle_def Let_def)
    next
      case init
      then show ?thesis using v o Some num cr gt pv pi de by (simp add: ipa_ipv6ct_add_tbl_def IPA_IPV6CT_MAX_TBLS_def ct_idle_def Let_def)
    next
      case fine
      then show ?thesis using v o Some num cr gt pv pi ok
        by (simp add: ipa_ipv6ct_add_tbl_def IPA_IPV6CT_MAX_TBLS_def ct_ready_def Let_def)
    qed
  qed
qed

text \<open>As for the NAT tables: when the kernel refuses to release the memory, the table is lost but still counted.\<close>

definition ct_wedged :: "ipa_ipv6ct \<Rightarrow> bool" where
  "ct_wedged v \<longleftrightarrow> length (ct_tables v) = 1 \<and> ct_table_cnt v = 1 \<and> \<not> valid (ct_mem_desc (the_ct v)) \<and>
     (\<exists>d. ct_ipa_desc v = Some d \<and> IPA_HW_v4_0 \<le> ver d)"

lemma ct_del_tbl_ready:
  assumes r: "ct_ready v s" and m: "mutex_works env"
  shows "\<exists>ret v' w'. ipa_ipv6ct_del_tbl env v 1 w = Some (ret, v', w') \<and> (if ret = 0 then ct_idle v' else ct_wedged v')"
proof -
  obtain d where v: "length (ct_tables v) = 1" "ct_ipa_desc v = Some d" "\<not> ver d < IPA_HW_v4_0"
    "valid (ct_mem_desc (the_ct v))" "ct_table_cnt v = 1" "get_ct_tbl v 0 = Some (the_ct v)"
    using ct_readyD [OF r] by metis
  obtain w1 where w1: "pthread_mutex_lock env w = (0, w1)" using mutex_works_lock [OF m] .
  obtain r2 w2 where de: "ipa_ipv6ct_destroy_table env v (the_ct v) w1 = Some (r2, ct_table_zero, w2)"
    using v by (simp add: ipa_ipv6ct_destroy_table_def split_def Let_def)
  let ?v = "put_ct_tbl v 0 ct_table_zero"
  have pv: "ct_tables ?v = [ct_table_zero]" "ct_table_cnt ?v = 1" "ct_ipa_desc ?v = Some d"
    using v by (auto simp: put_ct_tbl_def length_Suc_conv)
  show ?thesis
  proof (cases "r2 = 0")
    case True
    obtain w3 where "ct_unlock_ret env 0 (ipa_descriptor_close env (Some d) w2) = (0, w3)" using ct_unlock [OF m] .
    then show ?thesis using v w1 de True pv by (simp add: ipa_ipv6ct_del_tbl_def Let_def ct_idle_def)
  next
    case False
    obtain w3 where "ct_unlock_ret env r2 w2 = (r2, w3)" using ct_unlock [OF m] .
    then show ?thesis using v w1 de False pv
      by (simp add: ipa_ipv6ct_del_tbl_def Let_def ct_wedged_def ct_table_zero_def mem_descriptor_zero_def)
  qed
qed

lemma ct_wedged_add:
  assumes "ct_wedged v" shows "ipa_ipv6ct_add_tbl env v num w = Some (- EINVAL, v, if num = 0 then None else Some 0, w)"
  using assms by (simp add: ct_wedged_def ipa_ipv6ct_add_tbl_def IPA_IPV6CT_MAX_TBLS_def)

lemma ct_wedged_del:
  assumes wd: "ct_wedged v" and m: "mutex_works env" shows "\<exists>w'. ipa_ipv6ct_del_tbl env v 1 w = Some (- EINVAL, v, w')"
proof -
  obtain w1 where w1: "pthread_mutex_lock env w = (0, w1)" using mutex_works_lock [OF m] .
  obtain w2 where w2: "ct_unlock_ret env (- EINVAL) w1 = (- EINVAL, w2)" using ct_unlock [OF m] .
  show ?thesis using wd w1 w2 by (auto simp: ct_wedged_def ipa_ipv6ct_del_tbl_def get_ct_tbl_def Let_def)
qed

subsection \<open>Handles and time stamps\<close>

lemma ct_rule_hdl_shape:
  "same_shape (ct_table (the_ct v)) (ct_table (the_ct v')) \<Longrightarrow> ct_rule_hdl v' = ct_rule_hdl v"
  using same_shapeD(1,3) [of "ct_table (the_ct v)" "ct_table (the_ct v')"] by (intro ext) (simp add: ct_rule_hdl_def MakeEntryHdl_def)

definition ct_handles :: "ipa_ipv6ct \<Rightarrow> ct_spec \<Rightarrow> u32 set" where
  "ct_handles v s = ct_rule_hdl v ` dom (cs_rules s)"

lemma ct_handles_inj:
  assumes r: "ct_ready v s" shows "inj_on (ct_rule_hdl v) (dom (cs_rules s))"
proof (rule inj_onI)
  fix i j assume ij: "i \<in> dom (cs_rules s)" "j \<in> dom (cs_rules s)" and h: "ct_rule_hdl v i = ct_rule_hdl v j"
  obtain cs where v: "ct_inv (ct_table (the_ct v)) cs" "ct_spec_of (ct_table (the_ct v)) cs = s" using ct_readyD [OF r] by metis
  have l: "i \<in> ct_live (ct_table (the_ct v)) cs" "j \<in> ct_live (ct_table (the_ct v)) cs" using ij ct_live_rule(1) [OF v(2)] by (blast dest: domD)+
  have "(0 :: int, Some (of_nat i :: u16), of_nat i :: u16) = (0, Some (of_nat j), of_nat j)"
    using ct_live_get(1) [OF v(1) l(1)] ct_live_get(1) [OF v(1) l(2)] h unfolding ct_rule_hdl_def by metis
  then have "(of_nat i :: u16) = of_nat j" by blast
  then show "i = j"
    using of_nat_rec_eq_iff [OF tbl_repD(1) [OF ct_invD(2) [OF v(1)]] ct_live_get(3) [OF v(1) l(1)] ct_live_get(3) [OF v(1) l(2)]] by simp
qed

lemma ct_handles_del:
  assumes "ct_ready v s" and sh: "same_shape (ct_table (the_ct v)) (ct_table (the_ct v'))" and i: "cs_rules s i = Some e"
  shows "ct_handles v' (ct_spec_del i s) = ct_handles v s - {ct_rule_hdl v i}"
proof -
  have "dom (cs_rules (ct_spec_del i s)) = dom (cs_rules s) - {i}" by (auto simp: ct_spec_del_def)
  then show ?thesis using ct_rule_hdl_shape [OF sh] inj_on_image_set_diff [OF ct_handles_inj [OF assms(1)], of "dom (cs_rules s)" "{i}"] i
    by (auto simp: ct_handles_def)
qed

lemma ct_handles_add:
  assumes "same_shape (ct_table (the_ct v)) (ct_table (the_ct v'))"
  shows "ct_handles v' (ct_spec_add i b e s) = insert (ct_rule_hdl v i) (ct_handles v s)"
  by (simp add: ct_handles_def ct_spec_add_def ct_rule_hdl_shape [OF assms])

lemma ct_query_ready:
  assumes r: "ct_ready v s" and m: "mutex_works env" and i: "cs_rules s i = Some e"
  shows "\<exists>w'. ipa_ipv6ct_query_timestamp env v 1 (ct_rule_hdl v i) w = Some (0, Some (ucast (c_time_stamp e)), w')"
proof -
  obtain d cs where v: "ct_ipa_desc v = Some d" "\<not> ver d < IPA_HW_v4_0" "valid (ct_mem_desc (the_ct v))"
    "ct_inv (ct_table (the_ct v)) cs" "ct_spec_of (ct_table (the_ct v)) cs = s" "get_ct_tbl v 0 = Some (the_ct v)"
    using ct_readyD [OF r] by metis
  note l = ct_live_rule [OF v(5) i]
  note h = ct_live_get [OF v(4) l(1)]
  note ok = tbl_repD(1) [OF ct_invD(2) [OF v(4)]]
  have rd: "mem_read (recs (ct_table (the_ct v))) (unat (of_nat i :: u16)) = Some (recs (ct_table (the_ct v)) ! i)"
    using h(3) ok tbl_okD(4) [OF ok] by simp
  obtain w1 where w1: "pthread_mutex_lock env w = (0, w1)" using mutex_works_lock [OF m] .
  obtain w2 where w2: "ct_unlock_ret env 0 w1 = (0, w2)" using ct_unlock [OF m] .
  show ?thesis using v h rd w1 w2 l(2)
    by (simp add: ipa_ipv6ct_query_timestamp_def ct_rule_hdl_def ct_content_def)
qed

lemma ct_add_rule_rejected:
  assumes "ct_ready v s" and "v_protocol u = IPA_IPV6CT_INVALID_PROTO_FIELD_CMP"
  shows "ipa_ipv6ct_add_rule env v 1 u w = Some (- EINVAL, v, None, w)"
  using assms by (auto simp: ct_ready_def ipa_ipv6ct_add_rule_def)

lemma ct_faithful_shape:
  assumes sh: "same_shape t t'" and df: "ct_dma_faithful env t" shows "ct_dma_faithful env t'"
proof -
  have "recs (ct_exec cs (t'\<lparr>recs := rs\<rparr>)) = recs (ct_exec cs (t\<lparr>recs := rs\<rparr>))" for cs rs
    by (rule dma_exec_geom) (use same_shapeD [OF sh] in simp_all)
  then show ?thesis using df unfolding ct_dma_faithful_def by metis
qed

subsection \<open>Sequences of calls\<close>

text \<open>
  A client of the table: the driver's variable, the state of the operating system and the handles the client
  holds. A deletion the kernel refuses is a step here as well: it leaves the rule and its handle in place.
\<close>

type_synonym 'w ct_client = "ipa_ipv6ct \<times> 'w \<times> u32 set"

inductive ct_client_step :: "('w, 'm) ct_env_scheme \<Rightarrow> 'w ct_client \<Rightarrow> 'w ct_client \<Rightarrow> bool" for env where
  add: "ipa_ipv6ct_add_rule env v 1 u w = Some (0, v', Some h, w') \<Longrightarrow> ct_client_step env (v, w, H) (v', w', insert h H)"
| add_fails: "ipa_ipv6ct_add_rule env v 1 u w = Some (ret, v', h, w') \<Longrightarrow> ret \<noteq> 0 \<Longrightarrow> ct_client_step env (v, w, H) (v', w', H)"
| del: "h \<in> H \<Longrightarrow> ipa_ipv6ct_del_rule env v 1 h w = Some (ret, v', w') \<Longrightarrow>
        ct_client_step env (v, w, H) (v', w', if ret = 0 then H - {h} else H)"
| query: "ipa_ipv6ct_query_timestamp env v 1 h w = Some (ret, ts, w') \<Longrightarrow> ct_client_step env (v, w, H) (v, w', H)"
| add_tbl: "ipa_ipv6ct_add_tbl env v num w = Some (ret, v', th, w') \<Longrightarrow> ct_client_step env (v, w, H) (v', w', H)"

inductive_cases ct_client_stepE: "ct_client_step env (v, w, H) c"

definition ct_client_inv :: "('w, 'm) ct_env_scheme \<Rightarrow> 'w ct_client \<Rightarrow> bool" where
  "ct_client_inv env c \<longleftrightarrow>
     (case c of (v, w, H) \<Rightarrow> \<exists>s. ct_ready v s \<and> ct_dma_faithful env (ct_table (the_ct v)) \<and> H = ct_handles v s)"

lemma ct_client_inv_I:
  "ct_ready v s \<Longrightarrow> ct_dma_faithful env (ct_table (the_ct v)) \<Longrightarrow> H = ct_handles v s \<Longrightarrow> ct_client_inv env (v, w, H)"
  by (auto simp: ct_client_inv_def)

lemma ct_client_step_inv:
  assumes m: "mutex_works env" and st: "ct_client_step env c c'" and "ct_client_inv env c"
  shows "ct_client_inv env c'"
  using st assms(3)
proof (induction rule: ct_client_step.induct)
  case (add v u w v' h w' H)
  then obtain s where r: "ct_ready v s" "ct_dma_faithful env (ct_table (the_ct v))" "H = ct_handles v s" by (auto simp: ct_client_inv_def)
  have u: "v_protocol u \<noteq> IPA_IPV6CT_INVALID_PROTO_FIELD_CMP"
    using add(1) ct_add_rule_rejected [OF r(1), of u env w] by (auto simp: errno_defs)
  show ?case using ct_add_rule_ready [OF r(1,2) m u, of w] add(1) r(3) ct_handles_add ct_faithful_shape [OF _ r(2)]
    by (auto intro!: ct_client_inv_I)
next
  case (add_fails v u w ret v' h w' H)
  then obtain s where r: "ct_ready v s" "ct_dma_faithful env (ct_table (the_ct v))" "H = ct_handles v s" by (auto simp: ct_client_inv_def)
  show ?case
  proof (cases "v_protocol u = IPA_IPV6CT_INVALID_PROTO_FIELD_CMP")
    case True
    then show ?thesis using ct_add_rule_rejected [OF r(1) True, of env w] add_fails(1) r by (auto intro: ct_client_inv_I)
  next
    case False
    then obtain "same_shape (ct_table (the_ct v)) (ct_table (the_ct v'))" "ct_ready v' s"
      using ct_add_rule_ready [OF r(1,2) m False, of w] add_fails by auto
    then show ?thesis using r(3) ct_faithful_shape [OF _ r(2)] ct_rule_hdl_shape [of v v']
      by (intro ct_client_inv_I) (simp_all add: ct_handles_def)
  qed
next
  case (del h H v w ret v' w')
  then obtain s where r: "ct_ready v s" "ct_dma_faithful env (ct_table (the_ct v))" "H = ct_handles v s" by (auto simp: ct_client_inv_def)
  then obtain i e where i: "cs_rules s i = Some e" "h = ct_rule_hdl v i" using del(1) by (auto simp: ct_handles_def)
  show ?case using ct_del_rule_ready [OF r(1,2) m i(1), of w] del(2) i(2) r ct_handles_del [OF r(1) _ i(1)] ct_faithful_shape [OF _ r(2)]
    by (cases "ret = 0") (auto intro!: ct_client_inv_I)
next
  case (query v h w ret ts w' H)
  then show ?case by (auto simp: ct_client_inv_def)
next
  case (add_tbl v num w ret v' th w' H)
  then have "v' = v" by (auto simp: ct_client_inv_def ct_ready_def ipa_ipv6ct_add_tbl_def IPA_IPV6CT_MAX_TBLS_def split: if_splits)
  then show ?case using add_tbl(2) by (auto simp: ct_client_inv_def)
qed

lemma ct_client_reachable_inv:
  assumes "(ct_client_step env)\<^sup>*\<^sup>* c c'" and "mutex_works env" and "ct_client_inv env c"
  shows "ct_client_inv env c'"
  using assms by (induction rule: rtranclp_induct) (auto intro: ct_client_step_inv)

end
