(* ===== verification/Ipv6ct_Properties.thy ===== *)
theory Ipv6ct_Properties
  imports Ipv6ct_Service
begin

unbundle bit_operations_syntax

section \<open>What the IPv6CT driver guarantees\<close>

text \<open>
  The properties of the operations of \<open>ipa_ipv6ct.c\<close>, stated on its variable, with their instances on an
  environment in which every call succeeds and the driver's state after a table for 100 rules was created in it.
\<close>

subsection \<open>A concrete environment\<close>

definition ct_sample_env :: "unit ct_env" where
  "ct_sample_env =
     \<lparr>pthread_mutex_lock = (\<lambda>w. (0, w)), pthread_mutex_unlock = (\<lambda>w. (0, w)),
      os_open = (\<lambda>path w. (3, w)), os_close = (\<lambda>f w. (0, w)), os_mmap = (\<lambda>sz f w. (Some 0x10000, w)),
      os_munmap = (\<lambda>a sz w. w), os_calloc = (\<lambda>k w. (True, w)),
      os_clock_gettime = (\<lambda>w. ((0, \<lparr>tv_sec = 1, tv_nsec = 0\<rparr>), w)),
      ioctl_hw_version = (\<lambda>f w. ((0, 17), w)), ioctl_sram_info = (\<lambda>f w. ((- 1, sram_info_zero), w)),
      ioctl_alloc = (\<lambda>num f sz w. ((0, 0), w)), ioctl_del = (\<lambda>num f idx mem w. (0, w)),
      ioctl_v4_init = (\<lambda>f cmd w. (0, w)), ioctl_modify_pdn = (\<lambda>f e w. (0, w)), ioctl_clock_vote = (\<lambda>f v w. (0, w)),
      ioctl_ipv6ct_init = (\<lambda>f cmd w. (0, w)),
      ioctl_ct_dma = (\<lambda>f cmd rs w.
        ((0, recs (ct_exec (cmds_of cmd) ((ipa_table_init '''' IPA_NAT_MEM_IN_DDR 64 None 0)\<lparr>table_entries := 128, recs := rs\<rparr>))), w)),
      ioctl_add_uc_act = (\<lambda>f u w. ((0, u), w)), ioctl_del_uc_act = (\<lambda>f i w. (0, w))\<rparr>"

definition ct_sample :: ipa_ipv6ct where
  "ct_sample = fst (snd (the (ipa_ipv6ct_add_tbl ct_sample_env ipv6ct_init 100 ())))"

definition ct_sample_rule :: ipa_ipv6ct_rule where
  "ct_sample_rule = \<lparr>v_src_ipv6_lsb = 0x20010DB8, v_src_ipv6_msb = 1, v_dest_ipv6_lsb = 0x20010DB8, v_dest_ipv6_msb = 2,
     v_direction_settings = IPA_IPV6CT_DIRECTION_ALLOW_ALL, v_ucp = False, v_s = False, v_uc_activation_index = 0,
     v_src_port = 4000, v_dest_port = 443, v_protocol = 6\<rparr>"

lemma ct_sample_env [simp]: "mutex_works ct_sample_env" "alloc_at_zero ct_sample_env" "ct_dma_accepts ct_sample_env"
  by (simp_all add: mutex_works_def alloc_at_zero_def ct_dma_accepts_def ct_sample_env_def)

lemma ct_init_idle [simp]: "ct_idle ipv6ct_init"
  by (simp add: ct_idle_def ipv6ct_init_def)

lemma ct_sample_created:
  "fst (the (ipa_ipv6ct_add_tbl ct_sample_env ipv6ct_init 100 ())) = 0"
  "table_entries (ct_table (the_ct ct_sample)) = 128" "entry_size (ct_table (the_ct ct_sample)) = 64"
  "recs (ct_table (the_ct ct_sample)) = replicate 148 0"
  by (simp_all add: ct_sample_def ipa_ipv6ct_add_tbl_def ipv6ct_init_def IPA_IPV6CT_MAX_TBLS_def ct_sample_env_def ipa_descriptor_open_def
      get_ct_tbl_def mem_read_def ipa_ipv6ct_create_table_def sample_entries_num ipa_mem_descriptor_allocate_memory_def AllocateMemory_def
      MapMemory_def Let_def IPA_RESOURCE_NAME_MAX_def IPA_DEV_DIR_def ipa_mem_descriptor_init_def put_ct_tbl_def
      ipa_table_calculate_addresses_def ipa_table_reset_def ipa_ipv6ct_create_table_dma_cmd_helpers_def ipa_ipv6ct_post_init_cmd_def
      IPA_HW_v4_0_def split_def ipa_table_init_def IPA_IPV6CT_HW_ENTRY_SIZE_def)

lemma ct_sample_ready: "ct_ready ct_sample ct_spec_empty"
  using ct_add_tbl_idle [OF ct_init_idle ct_sample_env(2), of 100 "()"] ct_sample_created(1) by (auto simp: ct_sample_def)

lemma ct_sample_dma: "ct_dma_faithful ct_sample_env (ct_table (the_ct ct_sample))"
proof -
  have "recs (ct_exec cs ((ct_table (the_ct ct_sample))\<lparr>recs := rs\<rparr>)) =
      recs (ct_exec cs ((ipa_table_init '''' IPA_NAT_MEM_IN_DDR 64 None 0)\<lparr>table_entries := 128, recs := rs\<rparr>))" for cs rs
    by (rule dma_exec_geom) (simp_all add: ct_sample_created ipa_table_init_def)
  then show ?thesis by (auto simp: ct_dma_faithful_def ct_sample_env_def)
qed

lemma ct_sample_rule_ok [simp]: "ct_rule_ok ct_sample_rule" "v_protocol ct_sample_rule \<noteq> IPA_IPV6CT_INVALID_PROTO_FIELD_CMP"
  by (simp_all add: ct_sample_rule_def ct_rule_ok_def IPA_IPV6CT_INVALID_PROTO_FIELD_CMP_def)

lemma ct_sample_room: "ct_room (ct_table (the_ct ct_sample)) u"
proof -
  obtain cs where "ct_inv (ct_table (the_ct ct_sample)) cs" using ct_readyD [OF ct_sample_ready] by metis
  from ct_bucket_range(2) [OF tbl_repD(1) [OF ct_invD(2) [OF this]], of u] show ?thesis
    by (simp add: ct_room_def vd_def ct_sample_created ct_interface_defs)
qed

text \<open>The state after \<open>ct_sample_rule\<close> was added, and the handle of the rule.\<close>

definition ct_sample2 :: ipa_ipv6ct where
  "ct_sample2 = fst (snd (the (ipa_ipv6ct_add_rule ct_sample_env ct_sample 1 ct_sample_rule ())))"

lemma ct_sample_added:
  obtains i s where "ct_ready ct_sample2 s" and "cs_rules s i = Some (ct_installed ct_sample_rule)"
    and "ct_dma_faithful ct_sample_env (ct_table (the_ct ct_sample2))"
    and "ipa_ipv6ct_add_rule ct_sample_env ct_sample 1 ct_sample_rule () = Some (0, ct_sample2, Some (ct_rule_hdl ct_sample2 i), ())"
proof -
  from ct_add_rule_ready [OF ct_sample_ready ct_sample_dma ct_sample_env(1) ct_sample_rule_ok(2), of "()"]
  obtain v' hdl i where run: "ipa_ipv6ct_add_rule ct_sample_env ct_sample 1 ct_sample_rule () = Some (0, v', hdl, ())"
    and sh: "same_shape (ct_table (the_ct ct_sample)) (ct_table (the_ct v'))" and h: "hdl = Some (ct_rule_hdl ct_sample i)"
    and r: "ct_ready v' (ct_spec_add i (ct_bucket (ct_table (the_ct ct_sample)) ct_sample_rule) (ct_installed ct_sample_rule) ct_spec_empty)"
    using ct_sample_room by auto
  have "v' = ct_sample2" using run by (simp add: ct_sample2_def)
  then show thesis
    using that [of _ i] r ct_faithful_shape [OF sh ct_sample_dma] run h ct_rule_hdl_shape [OF sh] by (simp add: ct_spec_add_def)
qed

subsection \<open>The record\<close>

text \<open>
  The 64-byte layout of an IPv6CT record holds every field: reading the eight 64-bit words of a record back
  gives the record, and every eight words are those of the record read from them.
\<close>

theorem ct_entry_layout:
  "ct_of_words (ct_words e) = e \<and> (length ws = 8 \<longrightarrow> ct_words (ct_of_words ws) = ws)"
  using ct_of_words_words ct_words_of_words by blast

theorem ct_entry_layout_witness: "ct_words (ct_of_words (replicate 8 0xABCDEF)) = replicate 8 0xABCDEF"
  using ct_entry_layout [of _ "replicate 8 0xABCDEF"] by simp

subsection \<open>The table\<close>

text \<open>
  Creating the table when there is none: whatever the calls of the operating system answer,
  \<open>ipa_ipv6ct_add_tbl\<close> returns; with code \<open>0\<close> the handle is \<open>1\<close> and the table exists and is empty; with any other
  code (the hardware is too old, an allocation or a request failed) the handle is \<open>0\<close>, no table exists and the
  driver is closed again.
\<close>

theorem ct_add_tbl_creates:
  assumes "ct_idle v" and "alloc_at_zero env" and "num \<noteq> 0"
  shows "\<exists>ret v' hdl w'. ipa_ipv6ct_add_tbl env v num w = Some (ret, v', Some hdl, w') \<and>
     (if ret = 0 then hdl = 1 \<and> ct_ready v' ct_spec_empty else hdl = 0 \<and> ct_idle v')"
  by (rule ct_add_tbl_idle [OF assms])

theorem ct_add_tbl_creates_witness:
  "\<exists>ret v' hdl w'. ipa_ipv6ct_add_tbl ct_sample_env ipv6ct_init 100 () = Some (ret, v', Some hdl, w') \<and>
     (if ret = 0 then hdl = 1 \<and> ct_ready v' ct_spec_empty else hdl = 0 \<and> ct_idle v')"
  by (rule ct_add_tbl_creates) simp_all

text \<open>
  Deleting the table brings the driver back to the state without a table. When the kernel refuses to
  release the memory the table is gone but still counted: every later creation and deletion is refused with
  \<open>-EINVAL\<close> and changes nothing.
\<close>

theorem ct_del_tbl_frees_or_wedges:
  assumes "ct_ready v s" and "mutex_works env"
  shows "\<exists>ret v' w'. ipa_ipv6ct_del_tbl env v 1 w = Some (ret, v', w') \<and>
     (if ret = 0 then ct_idle v'
      else (\<forall>num w2. \<exists>h. ipa_ipv6ct_add_tbl env v' num w2 = Some (- EINVAL, v', h, w2)) \<and>
           (\<forall>w2. \<exists>w3. ipa_ipv6ct_del_tbl env v' 1 w2 = Some (- EINVAL, v', w3)))"
  using ct_del_tbl_ready [OF assms, of w] ct_wedged_add [of _ env] ct_wedged_del [OF _ assms(2)]
  by (elim exE conjE) (intro exI conjI, assumption, auto split: if_splits)

theorem ct_del_tbl_frees_or_wedges_witness:
  "\<exists>ret v' w'. ipa_ipv6ct_del_tbl ct_sample_env ct_sample 1 () = Some (ret, v', w') \<and>
     (if ret = 0 then ct_idle v'
      else (\<forall>num w2. \<exists>h. ipa_ipv6ct_add_tbl ct_sample_env v' num w2 = Some (- EINVAL, v', h, w2)) \<and>
           (\<forall>w2. \<exists>w3. ipa_ipv6ct_del_tbl ct_sample_env v' 1 w2 = Some (- EINVAL, v', w3)))"
  by (rule ct_del_tbl_frees_or_wedges [OF ct_sample_ready ct_sample_env(1)])

subsection \<open>Rules\<close>

text \<open>
  C9. Adding an IPv6CT rule refines the abstract insertion: the call returns; with code \<open>0\<close> the rule is at a
  position that was free, last in the chain of its hash, with the fields of \<open>ct_installed\<close>, its handle is stored
  and nothing else changed; with any other code no handle is stored and the table represents the rules it
  represented before. The code is \<open>0\<close> whenever the direction is one of the enumeration, the bucket or the
  expansion area has room and the kernel accepts the commands.
\<close>

theorem ct_add_rule_refines:
  assumes "ct_ready v s" and "ct_dma_faithful env (ct_table (the_ct v))" and "mutex_works env"
    and "v_protocol u \<noteq> IPA_IPV6CT_INVALID_PROTO_FIELD_CMP"
  shows "\<exists>ret v' hdl w'. ipa_ipv6ct_add_rule env v 1 u w = Some (ret, v', hdl, w') \<and>
     (if ret = 0
      then \<exists>i < tot_n (ct_table (the_ct v)). 0 < i \<and> cs_rules s i = None \<and> hdl = Some (ct_rule_hdl v i) \<and>
             ct_ready v' (ct_spec_add i (ct_bucket (ct_table (the_ct v)) u) (ct_installed u) s)
      else hdl = None \<and> ct_ready v' s) \<and>
     (ct_rule_ok u \<and> ct_room (ct_table (the_ct v)) u \<and> ct_dma_accepts env \<longrightarrow> ret = 0)"
proof -
  obtain ret v' hdl w' where "ipa_ipv6ct_add_rule env v 1 u w = Some (ret, v', hdl, w')"
    and "if ret = 0
      then \<exists>i < tot_n (ct_table (the_ct v)). 0 < i \<and> ct_rule_ok u \<and> cs_rules s i = None \<and> hdl = Some (ct_rule_hdl v i) \<and>
             ct_ready v' (ct_spec_add i (ct_bucket (ct_table (the_ct v)) u) (ct_installed u) s)
      else hdl = None \<and> ct_ready v' s" and "ct_rule_ok u \<and> ct_room (ct_table (the_ct v)) u \<and> ct_dma_accepts env \<longrightarrow> ret = 0"
    using ct_add_rule_ready [OF assms, of w] by blast
  then show ?thesis by (cases "ret = 0") auto
qed

theorem ct_add_rule_refines_witness:
  "\<exists>v' i w'. ipa_ipv6ct_add_rule ct_sample_env ct_sample 1 ct_sample_rule () = Some (0, v', Some (ct_rule_hdl ct_sample i), w') \<and>
     ct_ready v' (ct_spec_add i (ct_bucket (ct_table (the_ct ct_sample)) ct_sample_rule) (ct_installed ct_sample_rule) ct_spec_empty)"
  using ct_add_rule_refines [OF ct_sample_ready ct_sample_dma ct_sample_env(1) ct_sample_rule_ok(2), of "()"] ct_sample_room by auto

text \<open>
  A rule whose direction is not one of the enumeration is refused although the insertion has already
  written its fields into the free record: the call does not succeed, no handle is stored and the table
  represents the same rules; no command is sent, so the state of the table is the same whatever the kernel does.
\<close>

theorem ct_bad_direction_refused:
  assumes "ct_ready v s" and "ct_dma_faithful env (ct_table (the_ct v))" and "mutex_works env"
    and "v_protocol u \<noteq> IPA_IPV6CT_INVALID_PROTO_FIELD_CMP" and "v_direction_settings u = IPA_IPV6CT_DIRECTION_OTHER"
  shows "\<exists>ret v' w'. ipa_ipv6ct_add_rule env v 1 u w = Some (ret, v', None, w') \<and> ret \<noteq> 0 \<and> ct_ready v' s"
  using ct_add_rule_ready [OF assms(1-4), of w] assms(5) by (fastforce simp: ct_rule_ok_def split: if_splits)

theorem ct_bad_direction_refused_witness:
  "\<exists>ret v' w'. ipa_ipv6ct_add_rule ct_sample_env ct_sample 1 (ct_sample_rule\<lparr>v_direction_settings := IPA_IPV6CT_DIRECTION_OTHER\<rparr>) ()
       = Some (ret, v', None, w') \<and> ret \<noteq> 0 \<and> ct_ready v' ct_spec_empty"
  by (rule ct_bad_direction_refused [OF ct_sample_ready ct_sample_dma]) (simp_all add: ct_sample_rule_def IPA_IPV6CT_INVALID_PROTO_FIELD_CMP_def)

text \<open>
  C10. Deleting an IPv6CT rule by its handle refines the abstract removal: with code \<open>0\<close> exactly this rule is
  gone from the rules and from its chain. The only other code is \<open>-EIO\<close>, when the kernel rejects the commands, and
  then the driver's variable is unchanged.
\<close>

theorem ct_del_rule_refines:
  assumes "ct_ready v s" and "ct_dma_faithful env (ct_table (the_ct v))" and "mutex_works env" and "cs_rules s i = Some e"
  shows "\<exists>ret v' w'. ipa_ipv6ct_del_rule env v 1 (ct_rule_hdl v i) w = Some (ret, v', w') \<and>
     (if ret = 0 then ct_ready v' (ct_spec_del i s) else ret = - EIO \<and> v' = v \<and> \<not> ct_dma_accepts env)"
proof -
  obtain ret v' w' where "ipa_ipv6ct_del_rule env v 1 (ct_rule_hdl v i) w = Some (ret, v', w')"
    and "if ret = 0 then ct_ready v' (ct_spec_del i s) \<and> same_shape (ct_table (the_ct v)) (ct_table (the_ct v'))
      else ret = - EIO \<and> v' = v \<and> \<not> ct_dma_accepts env"
    using ct_del_rule_ready [OF assms, of w] by blast
  then show ?thesis by (cases "ret = 0") auto
qed

theorem ct_del_rule_refines_witness:
  "\<exists>i s v'. ct_ready ct_sample2 s \<and> cs_rules s i = Some (ct_installed ct_sample_rule) \<and>
     ipa_ipv6ct_del_rule ct_sample_env ct_sample2 1 (ct_rule_hdl ct_sample2 i) () = Some (0, v', ()) \<and> ct_ready v' (ct_spec_del i s)"
proof -
  obtain i s where s: "ct_ready ct_sample2 s" "cs_rules s i = Some (ct_installed ct_sample_rule)"
    "ct_dma_faithful ct_sample_env (ct_table (the_ct ct_sample2))" using ct_sample_added .
  obtain ret v' where run: "ipa_ipv6ct_del_rule ct_sample_env ct_sample2 1 (ct_rule_hdl ct_sample2 i) () = Some (ret, v', ())"
    and out: "if ret = 0 then ct_ready v' (ct_spec_del i s) else ret = - EIO \<and> v' = ct_sample2 \<and> \<not> ct_dma_accepts ct_sample_env"
    using ct_del_rule_refines [OF s(1,3) ct_sample_env(1) s(2), of "()"] by auto
  then have "ret = 0" by (auto split: if_splits)
  then show ?thesis using s run out by auto
qed

text \<open>
  C16. For every client that adds rules, deletes rules whose handles it holds, queries time stamps and asks for
  further tables, in any order and with any answers of the kernel: the table stays consistent, the handles the
  client holds are exactly those of the rules in the table, and each of them can be queried.
\<close>

theorem ct_client_invariant:
  assumes "mutex_works env" and "ct_dma_faithful env (ct_table (the_ct v))" and "ct_ready v ct_spec_empty"
    and "(ct_client_step env)\<^sup>*\<^sup>* (v, w, {}) (v', w', H)"
  shows "\<exists>s. ct_ready v' s \<and> H = ct_rule_hdl v' ` dom (cs_rules s) \<and> inj_on (ct_rule_hdl v') (dom (cs_rules s)) \<and>
     (\<forall>h\<in>H. \<exists>ts w2. ipa_ipv6ct_query_timestamp env v' 1 h w' = Some (0, Some ts, w2))"
proof -
  have "ct_client_inv env (v, w, {})"
    by (rule ct_client_inv_I [OF assms(3,2)]) (simp add: ct_handles_def ct_spec_empty_def)
  from ct_client_reachable_inv [OF assms(4,1) this] obtain s where s: "ct_ready v' s" "H = ct_rule_hdl v' ` dom (cs_rules s)"
    by (auto simp: ct_client_inv_def ct_handles_def)
  show ?thesis using s ct_handles_inj [OF s(1)] ct_query_ready [OF s(1) assms(1)] by (intro exI [of _ s]) blast
qed

theorem ct_client_invariant_witness:
  "\<exists>h s. (ct_client_step ct_sample_env)\<^sup>*\<^sup>* (ct_sample, (), {}) (ct_sample2, (), {h}) \<and> ct_ready ct_sample2 s \<and>
     {h} = ct_rule_hdl ct_sample2 ` dom (cs_rules s)"
proof -
  obtain i where "ipa_ipv6ct_add_rule ct_sample_env ct_sample 1 ct_sample_rule () = Some (0, ct_sample2, Some (ct_rule_hdl ct_sample2 i), ())"
    using ct_sample_added .
  then have st: "(ct_client_step ct_sample_env)\<^sup>*\<^sup>* (ct_sample, (), {}) (ct_sample2, (), {ct_rule_hdl ct_sample2 i})"
    using ct_client_step.add [of ct_sample_env ct_sample ct_sample_rule "()" ct_sample2 _ "()" "{}"] by auto
  show ?thesis using ct_client_invariant [OF ct_sample_env(1) ct_sample_dma ct_sample_ready st] st by blast
qed

end
