(* ===== verification/Nat_Map.thy ===== *)
theory Nat_Map
  imports Ipa_Table
begin

section \<open>Handle maps (\<open>ipa_nat_map.cpp\<close>)\<close>

text \<open>
  The five maps of \<open>ipa_nat_map.cpp\<close>: \<open>map_array\<close> is a list of five maps from handles to handles, and an access
  outside the array is \<open>None\<close>. \<open>VALID_IPA_USE_MAP\<close> is written with a disjunction in the header, so that
  it accepts every number. \<open>ipa_nat_map_dump\<close>, which only prints, is left out.
\<close>

type_synonym nat_maps = "(u32 \<rightharpoonup> u32) list"

definition MAP_NUM_00 :: u32 where "MAP_NUM_00 = 0"
definition MAP_NUM_01 :: u32 where "MAP_NUM_01 = 1"
definition MAP_NUM_02 :: u32 where "MAP_NUM_02 = 2"
definition MAP_NUM_03 :: u32 where "MAP_NUM_03 = 3"
definition MAP_NUM_MAX :: nat where "MAP_NUM_MAX = 5"

lemmas map_num_defs [simp] = MAP_NUM_00_def MAP_NUM_01_def MAP_NUM_02_def MAP_NUM_03_def MAP_NUM_MAX_def

definition VALID_IPA_USE_MAP :: "u32 \<Rightarrow> bool" where
  "VALID_IPA_USE_MAP which \<longleftrightarrow> MAP_NUM_00 \<le> which \<or> unat which < MAP_NUM_MAX"

definition map_array_init :: nat_maps where
  "map_array_init = replicate MAP_NUM_MAX (\<lambda>_. None)"

definition ipa_nat_map_add :: "nat_maps \<Rightarrow> u32 \<Rightarrow> u32 \<Rightarrow> u32 \<Rightarrow> (int \<times> nat_maps) option" where
  "ipa_nat_map_add ms which key val =
     (if \<not> VALID_IPA_USE_MAP which then Some (- 1, ms)
      else do {
        m \<leftarrow> mem_read ms (unat which);
        if m key \<noteq> None then Some (- 1, ms) else Some (0, ms[unat which := m(key \<mapsto> val)])
      })"

text \<open>The second component is what is stored in \<open>*val_ptr\<close>, if anything.\<close>

definition ipa_nat_map_find :: "nat_maps \<Rightarrow> u32 \<Rightarrow> u32 \<Rightarrow> (int \<times> u32 option) option" where
  "ipa_nat_map_find ms which key =
     (if \<not> VALID_IPA_USE_MAP which then Some (- 1, None)
      else do {
        m \<leftarrow> mem_read ms (unat which);
        (case m key of None \<Rightarrow> Some (- 1, None) | Some v \<Rightarrow> Some (0, Some v))
      })"

definition ipa_nat_map_del :: "nat_maps \<Rightarrow> u32 \<Rightarrow> u32 \<Rightarrow> (int \<times> u32 option \<times> nat_maps) option" where
  "ipa_nat_map_del ms which key =
     (if \<not> VALID_IPA_USE_MAP which then Some (- 1, None, ms)
      else do {
        m \<leftarrow> mem_read ms (unat which);
        (case m key of None \<Rightarrow> Some (- 1, None, ms) | Some v \<Rightarrow> Some (0, Some v, ms[unat which := m(key := None)]))
      })"

definition ipa_nat_map_clear :: "nat_maps \<Rightarrow> u32 \<Rightarrow> (int \<times> nat_maps) option" where
  "ipa_nat_map_clear ms which =
     (if \<not> VALID_IPA_USE_MAP which then Some (- 1, ms)
      else do { _ \<leftarrow> mem_read ms (unat which); Some (0, ms[unat which := (\<lambda>_. None)]) })"

lemma use_map_always [simp]: "VALID_IPA_USE_MAP which"
  by (simp add: VALID_IPA_USE_MAP_def)

text \<open>The operations on an existing map are those of a finite map that keeps the first value of a key.\<close>

lemma map_ops:
  assumes "unat which < length ms"
  shows "ipa_nat_map_add ms which k v =
      (if (ms ! unat which) k = None then Some (0, ms[unat which := (ms ! unat which)(k \<mapsto> v)]) else Some (- 1, ms))"
    and "ipa_nat_map_find ms which k = (case (ms ! unat which) k of None \<Rightarrow> Some (- 1, None) | Some x \<Rightarrow> Some (0, Some x))"
    and "ipa_nat_map_del ms which k =
      (case (ms ! unat which) k of None \<Rightarrow> Some (- 1, None, ms)
       | Some x \<Rightarrow> Some (0, Some x, ms[unat which := (ms ! unat which)(k := None)]))"
    and "ipa_nat_map_clear ms which = Some (0, ms[unat which := (\<lambda>_. None)])"
  using assms by (simp_all add: ipa_nat_map_add_def ipa_nat_map_find_def ipa_nat_map_del_def ipa_nat_map_clear_def)

end
