(* ===== verification/Nat_Statemach.thy ===== *)
theory Nat_Statemach
  imports Nat_Drvi Nat_Map
begin

unbundle bit_operations_syntax

section \<open>The table state machine (\<open>ipa_nat_statemach.c\<close>)\<close>

text \<open>
  The state machine that decides whether the NAT rules live in DDR, in SRAM or in both, and moves them. The
  static variables of \<open>ipa_nat_statemach.c\<close> (\<open>nati_obj\<close>, \<open>nat_mutex_init\<close>), the maps of \<open>ipa_nat_map.cpp\<close> and
  the globals of \<open>ipa_nat_drvi.c\<close> are the record \<open>nat_prog\<close>. A callback of the transition table takes the
  environment, the machine it may run a trigger through (\<open>sm\<close>), the trigger, the arguments, the program's state
  and the state of the operating system. The array of untyped arguments is the datatype \<open>sm_args\<close>; a callback
  that reads arguments of another shape faults. What a call stores through its pointers is the record \<open>sm_out\<close>.
  Statistics that are only printed are gathered where the code gathers them and then dropped.

  The machine is recursive: callbacks run further triggers. \<open>statemach_n\<close> has the depth of that recursion as its
  first argument and faults when it is exceeded; \<open>ipa_nati_statemach\<close> is the machine with depth 3, and
  \<open>statemach_depth\<close> shows that no call nests deeper.
\<close>

subsection \<open>Data\<close>

datatype ipa_nati_state =
  NATI_STATE_NULL | NATI_STATE_DDR_ONLY | NATI_STATE_SRAM_ONLY | NATI_STATE_HYBRID | NATI_STATE_HYBRID_DDR | NATI_STATE_LAST

datatype ipa_nati_trigger =
  NATI_TRIG_NULL | NATI_TRIG_ADD_TABLE | NATI_TRIG_DEL_TABLE | NATI_TRIG_CLR_TABLE | NATI_TRIG_WLK_TABLE | NATI_TRIG_TBL_STATS
| NATI_TRIG_ADD_RULE | NATI_TRIG_DEL_RULE | NATI_TRIG_TBL_SWITCH | NATI_TRIG_GOTO_DDR | NATI_TRIG_GOTO_SRAM | NATI_TRIG_GET_TSTAMP
| NATI_TRIG_LAST

record nati_switch_stats =
  sw_pass :: u32
  sw_fail :: u32

record nati_map_pair =
  orig2new_map :: u32
  new2orig_map :: u32

text \<open>The subscripts of the arrays of \<open>ipa_nati_obj\<close>, which are functions of them.\<close>

datatype mem_sub = DDR_SUB | SRAM_SUB

record ipa_nati_obj =
  prev_state :: ipa_nati_state
  curr_state :: ipa_nati_state
  hold_state :: bool
  state_to_hold :: ipa_nati_state
  ddr_tbl_hdl :: u32
  sram_tbl_hdl :: u32
  tot_slots_in_sram :: u32
  back_to_sram_thresh :: u32
  tot_rules_in_table :: "mem_sub \<Rightarrow> u32"
  map_pairs :: "mem_sub \<Rightarrow> nati_map_pair"
  sw_stats :: "mem_sub \<Rightarrow> nati_switch_stats"

definition map_pairs_init :: "mem_sub \<Rightarrow> nati_map_pair" where
  "map_pairs_init s =
     (case s of DDR_SUB \<Rightarrow> \<lparr>orig2new_map = MAP_NUM_00, new2orig_map = MAP_NUM_01\<rparr>
              | SRAM_SUB \<Rightarrow> \<lparr>orig2new_map = MAP_NUM_02, new2orig_map = MAP_NUM_03\<rparr>)"

definition nati_obj_init :: ipa_nati_obj where
  "nati_obj_init =
     \<lparr>prev_state = NATI_STATE_NULL, curr_state = NATI_STATE_NULL, hold_state = False, state_to_hold = NATI_STATE_NULL,
      ddr_tbl_hdl = 0, sram_tbl_hdl = 0, tot_slots_in_sram = 0, back_to_sram_thresh = 0, tot_rules_in_table = (\<lambda>_. 0),
      map_pairs = map_pairs_init, sw_stats = (\<lambda>_. \<lparr>sw_pass = 0, sw_fail = 0\<rparr>)\<rparr>"

record nat_prog =
  nati_obj :: ipa_nati_obj
  nat_mutex_init :: bool
  map_array :: nat_maps
  nat_g :: nat_globals

definition nat_prog_init :: nat_prog where
  "nat_prog_init = \<lparr>nati_obj = nati_obj_init, nat_mutex_init = False, map_array = map_array_init, nat_g = nat_globals_init\<rparr>"

record 'w sm_env = "'w nat_env" +
  pthread_mutexattr_init :: "'w \<Rightarrow> int \<times> 'w"
  pthread_mutexattr_settype :: "'w \<Rightarrow> int \<times> 'w"
  pthread_mutex_init :: "'w \<Rightarrow> int \<times> 'w"

datatype ('w, 'a) sm_args =
  No_Args
| Add_Tbl_Args u32 u16 "string option"
| Tbl_Args u32
| Walk_Args u32 WhichTbl2Use "('w, 'a) nat_walk_cb option" 'a
| Add_Rule_Args u32 ipa_nat_ipv4_rule
| Rule_Args u32 u32

record 'a sm_out =
  o_tbl_hdl :: "u32 option"
  o_rule_hdl :: "u32 option"
  o_clnt_rule :: "ipa_nat_ipv4_rule option"
  o_time_stamp :: "u32 option"
  o_stats :: "(ipa_nati_tbl_stats \<times> ipa_nati_tbl_stats) option"
  o_arb :: "'a option"

definition no_out :: "'a sm_out" where
  "no_out = \<lparr>o_tbl_hdl = None, o_rule_hdl = None, o_clnt_rule = None, o_time_stamp = None, o_stats = None, o_arb = None\<rparr>"

text \<open>What is stored after a first and then a second call.\<close>

definition later :: "'b option \<Rightarrow> 'b option \<Rightarrow> 'b option" where
  "later a b = (case b of None \<Rightarrow> a | Some _ \<Rightarrow> b)"

definition out_then :: "'a sm_out \<Rightarrow> 'a sm_out \<Rightarrow> 'a sm_out" where
  "out_then a b = \<lparr>o_tbl_hdl = later (o_tbl_hdl a) (o_tbl_hdl b), o_rule_hdl = later (o_rule_hdl a) (o_rule_hdl b),
     o_clnt_rule = later (o_clnt_rule a) (o_clnt_rule b), o_time_stamp = later (o_time_stamp a) (o_time_stamp b),
     o_stats = later (o_stats a) (o_stats b), o_arb = later (o_arb a) (o_arb b)\<rparr>"

type_synonym ('w, 'a) sm_fun =
  "ipa_nati_trigger \<Rightarrow> ('w, 'a) sm_args \<Rightarrow> nat_prog \<Rightarrow> 'w \<Rightarrow> (int \<times> 'a sm_out \<times> nat_prog \<times> 'w) option"

subsection \<open>The macros of \<open>ipa_nat_statemach.h\<close>\<close>

definition on_obj :: "(ipa_nati_obj \<Rightarrow> ipa_nati_obj) \<Rightarrow> nat_prog \<Rightarrow> nat_prog" where
  "on_obj f p = p\<lparr>nati_obj := f (nati_obj p)\<rparr>"

definition BACK2_UNSTARTED_STATE :: "nat_prog \<Rightarrow> nat_prog" where
  "BACK2_UNSTARTED_STATE = on_obj (\<lambda>o'. o'\<lparr>prev_state := NATI_STATE_NULL, curr_state := NATI_STATE_NULL\<rparr>)"

definition IN_UNSTARTED_STATE :: "nat_prog \<Rightarrow> bool" where
  "IN_UNSTARTED_STATE p \<longleftrightarrow> prev_state (nati_obj p) = NATI_STATE_NULL"

definition IN_HYBRID_STATE :: "nat_prog \<Rightarrow> bool" where
  "IN_HYBRID_STATE p \<longleftrightarrow>
     curr_state (nati_obj p) = NATI_STATE_HYBRID \<or> curr_state (nati_obj p) = NATI_STATE_HYBRID_DDR"

definition COMPATIBLE_NMI_4SWITCH :: "ipa3_nat_mem_in \<Rightarrow> nat_prog \<Rightarrow> bool" where
  "COMPATIBLE_NMI_4SWITCH n p \<longleftrightarrow>
     (n = IPA_NAT_MEM_IN_SRAM \<and> curr_state (nati_obj p) = NATI_STATE_HYBRID_DDR) \<or>
     (n = IPA_NAT_MEM_IN_DDR \<and> curr_state (nati_obj p) = NATI_STATE_HYBRID) \<or>
     (n = IPA_NAT_MEM_IN_DDR \<and> curr_state (nati_obj p) = NATI_STATE_DDR_ONLY) \<or>
     (n = IPA_NAT_MEM_IN_SRAM \<and> curr_state (nati_obj p) = NATI_STATE_SRAM_ONLY)"

definition GEN_HOLD_STATE :: "nat_prog \<Rightarrow> ipa_nati_state" where
  "GEN_HOLD_STATE p =
     (if \<not> IN_HYBRID_STATE p then curr_state (nati_obj p)
      else if curr_state (nati_obj p) = NATI_STATE_HYBRID then NATI_STATE_SRAM_ONLY else NATI_STATE_DDR_ONLY)"

definition SRAM_CURRENTLY_ACTIVE :: "nat_prog \<Rightarrow> bool" where
  "SRAM_CURRENTLY_ACTIVE p \<longleftrightarrow>
     curr_state (nati_obj p) = NATI_STATE_SRAM_ONLY \<or> curr_state (nati_obj p) = NATI_STATE_HYBRID"

definition SRAM_TO_BE_ACCESSED :: "ipa_nati_trigger \<Rightarrow> nat_prog \<Rightarrow> bool" where
  "SRAM_TO_BE_ACCESSED t p \<longleftrightarrow> SRAM_CURRENTLY_ACTIVE p \<or> t = NATI_TRIG_GOTO_SRAM \<or> t = NATI_TRIG_TBL_SWITCH"

definition VOTE_REQUIRED :: "ipa_nati_trigger \<Rightarrow> nat_prog \<Rightarrow> bool" where
  "VOTE_REQUIRED t p \<longleftrightarrow> SRAM_TO_BE_ACCESSED t p \<and> t \<noteq> NATI_TRIG_GET_TSTAMP \<and> t \<noteq> NATI_TRIG_ADD_TABLE"

definition SET_NATIOBJ_STATE :: "ipa_nati_state \<Rightarrow> nat_prog \<Rightarrow> nat_prog" where
  "SET_NATIOBJ_STATE s = on_obj (\<lambda>o'. o'\<lparr>prev_state := curr_state o', curr_state := s\<rparr>)"

definition CHOOSE_MEM_SUB :: "nat_prog \<Rightarrow> mem_sub" where
  "CHOOSE_MEM_SUB p = (if curr_state (nati_obj p) = NATI_STATE_HYBRID then SRAM_SUB else DDR_SUB)"

definition CHOOSE_MAPS :: "nat_prog \<Rightarrow> u32 \<times> u32" where
  "CHOOSE_MAPS p = (let mp = map_pairs (nati_obj p) (CHOOSE_MEM_SUB p) in (orig2new_map mp, new2orig_map mp))"

text \<open>\<open>CHOOSE_CNTR\<close> is the address of a counter; here, the counter with a function applied to it.\<close>

definition on_cnt :: "mem_sub \<Rightarrow> (u32 \<Rightarrow> u32) \<Rightarrow> nat_prog \<Rightarrow> nat_prog" where
  "on_cnt s f = on_obj (\<lambda>o'. o'\<lparr>tot_rules_in_table := (tot_rules_in_table o')(s := f (tot_rules_in_table o' s))\<rparr>)"

definition on_stats :: "mem_sub \<Rightarrow> (nati_switch_stats \<Rightarrow> nati_switch_stats) \<Rightarrow> nat_prog \<Rightarrow> nat_prog" where
  "on_stats s f = on_obj (\<lambda>o'. o'\<lparr>sw_stats := (sw_stats o')(s := f (sw_stats o' s))\<rparr>)"

text \<open>\<open>(.25) * v\<close>, stored in an integer: the product is exact and the conversion drops the fraction.\<close>

definition PRCNT_OF :: "u32 \<Rightarrow> u32" where
  "PRCNT_OF v = v div 4"

definition to_lower :: "char \<Rightarrow> char" where
  "to_lower c = (if 65 \<le> (of_char c :: nat) \<and> (of_char c :: nat) \<le> 90 then char_of ((of_char c :: nat) + 32) else c)"

definition strcasesame :: "string \<Rightarrow> string \<Rightarrow> bool" where
  "strcasesame a b \<longleftrightarrow> map to_lower a = map to_lower b"

definition mem_type_str_to_ipa_nati_state :: "string option \<Rightarrow> ipa_nati_state" where
  "mem_type_str_to_ipa_nati_state str =
     (case str of
        None \<Rightarrow> NATI_STATE_DDR_ONLY
      | Some s \<Rightarrow> if strcasesame s ''HYBRID'' then NATI_STATE_HYBRID
                  else if strcasesame s ''SRAM'' then NATI_STATE_SRAM_ONLY else NATI_STATE_DDR_ONLY)"

subsection \<open>The mutex\<close>

definition mutex_init :: "('w, 'm) sm_env_scheme \<Rightarrow> nat_prog \<Rightarrow> 'w \<Rightarrow> int \<times> nat_prog \<times> 'w" where
  "mutex_init env p w =
     (let (ret, w) = pthread_mutexattr_init env w
      in if ret \<noteq> 0 then (ret, p, w)
         else let (ret, w) = pthread_mutexattr_settype env w
              in if ret \<noteq> 0 then (ret, p, w)
                 else let (ret, w) = pthread_mutex_init env w
                      in if ret \<noteq> 0 then (ret, p, w) else (ret, p\<lparr>nat_mutex_init := True\<rparr>, w))"

definition take_mutex :: "('w, 'm) sm_env_scheme \<Rightarrow> nat_prog \<Rightarrow> 'w \<Rightarrow> int \<times> nat_prog \<times> 'w" where
  "take_mutex env p w =
     (let (ret, p, w) = (if nat_mutex_init p then (0, p, w) else mutex_init env p w)
      in if ret \<noteq> 0 then (ret, p, w) else let (ret, w) = pthread_mutex_lock env w in (ret, p, w))"

definition give_mutex :: "('w, 'm) sm_env_scheme \<Rightarrow> nat_prog \<Rightarrow> 'w \<Rightarrow> int \<times> 'w" where
  "give_mutex env p w = (if nat_mutex_init p then pthread_mutex_unlock env w else (- 1, w))"

text \<open>\<open>ipa_nat_vote_clock\<close> of \<open>ipa_nat_drv.c\<close>; the vote is one of the enumeration.\<close>

definition ipa_nat_vote_clock ::
    "('w, 'm) ipa_env_scheme \<Rightarrow> ipa_app_clock_vote_type \<Rightarrow> nat_prog \<Rightarrow> 'w \<Rightarrow> (int \<times> nat_prog \<times> 'w) option" where
  "ipa_nat_vote_clock env vote_type p w =
     do { (ret, g, w) \<leftarrow> ipa_nati_vote_clock env (nat_g p) vote_type w; Some (ret, p\<lparr>nat_g := g\<rparr>, w) }"

subsection \<open>Migrating a rule\<close>

text \<open>The rule of the client that \<open>migrate_rule\<close> builds from a record.\<close>

definition v4_rule_of :: "ipa_nat_rule \<Rightarrow> ipa_nat_ipv4_rule" where
  "v4_rule_of r =
     \<lparr>u_target_ip = r_target_ip r, u_private_ip = r_private_ip r, u_target_port = r_target_port r,
      u_private_port = r_private_port r, u_public_port = r_public_port r, u_protocol = r_protocol r,
      u_pdn_index = ucast (r_pdn_index r), u_redirect = of_bool (r_redirect r), u_enable = of_bool (r_enable r),
      u_time_stamp = ucast (r_time_stamp r), u_uc_activation_index = ucast (r_uc_activation_index r), u_s = r_s r,
      u_ucp = r_ucp r, u_dst_only = r_dst_only r, u_src_only = r_src_only r\<rparr>"

definition IPA_NAT_INVALID_PROTO_FIELD_VALUE_IN_RULE :: u8 where
  "IPA_NAT_INVALID_PROTO_FIELD_VALUE_IN_RULE = 0xFF"

definition migrate_rule ::
    "('w, 'm) nat_env_scheme \<Rightarrow> ('w, u32 \<times> ipa_nati_obj \<times> nat_maps) nat_walk_cb" where
  "migrate_rule env table_ptr s tbl_rule_hdl record_ptr record_index meta_record_ptr meta_record_index =
     (case (table_ptr, record_ptr, s) of
        (Inl table, Inl r, g, w, dst_tbl_hdl, ob, maps) \<Rightarrow>
          do {
            let (src_sub, dst_sub) =
              (if nmi table = IPA_NAT_MEM_IN_SRAM then (SRAM_SUB, DDR_SUB) else (DDR_SUB, SRAM_SUB));
            let src_new2orig_map = new2orig_map (map_pairs ob src_sub);
            let dst_orig2new_map = orig2new_map (map_pairs ob dst_sub);
            let dst_new2orig_map = new2orig_map (map_pairs ob dst_sub);
            if r_protocol r = IPA_NAT_INVALID_PROTO_FIELD_VALUE_IN_RULE then Some (0, s)
            else do {
              (ret, orig) \<leftarrow> ipa_nat_map_find maps src_new2orig_map tbl_rule_hdl;
              if ret \<noteq> 0 then Some (ret, s)
              else do {
                orig_rule_hdl \<leftarrow> orig;
                (ret, g, hdl, w) \<leftarrow> ipa_NATI_add_ipv4_rule env g dst_tbl_hdl (v4_rule_of r) w;
                if ret \<noteq> 0 then Some (ret, g, w, dst_tbl_hdl, ob, maps)
                else do {
                  new_rule_hdl \<leftarrow> hdl;
                  let ob = ob\<lparr>tot_rules_in_table :=
                                (tot_rules_in_table ob)(dst_sub := tot_rules_in_table ob dst_sub + 1)\<rparr>;
                  (ret, maps) \<leftarrow> ipa_nat_map_add maps dst_orig2new_map orig_rule_hdl new_rule_hdl;
                  if ret \<noteq> 0 then Some (ret, g, w, dst_tbl_hdl, ob, maps)
                  else do {
                    (ret, maps) \<leftarrow> ipa_nat_map_add maps dst_new2orig_map new_rule_hdl orig_rule_hdl;
                    Some (ret, g, w, dst_tbl_hdl, ob, maps)
                  }
                }
              }
            }
          }
      | _ \<Rightarrow> None)"

subsection \<open>The callbacks of the transition table\<close>

definition smUndef :: "('w, 'm) sm_env_scheme \<Rightarrow> ('w, 'a) sm_fun \<Rightarrow> ('w, 'a) sm_fun" where
  "smUndef env sm trigger args p w = Some (- 1, no_out, p, w)"

definition smDelTbl :: "('w, 'm) sm_env_scheme \<Rightarrow> ('w, 'a) sm_fun \<Rightarrow> ('w, 'a) sm_fun" where
  "smDelTbl env sm trigger args p w =
     (case args of
        Tbl_Args tbl_hdl \<Rightarrow>
          do {
            (ret, g, w) \<leftarrow> ipa_NATI_del_ipv4_table env (nat_g p) tbl_hdl w;
            let p = p\<lparr>nat_g := g\<rparr>;
            let p = (if ret = 0 \<and> \<not> IN_HYBRID_STATE p then BACK2_UNSTARTED_STATE p else p);
            Some (ret, no_out, p, w)
          }
      | _ \<Rightarrow> None)"

definition smFirstTbl :: "('w, 'm) sm_env_scheme \<Rightarrow> ('w, 'a) sm_fun \<Rightarrow> ('w, 'a) sm_fun" where
  "smFirstTbl env sm trigger args p w =
     (case args of
        Add_Tbl_Args public_ip_addr number_of_entries mem_type_ptr \<Rightarrow>
          sm NATI_TRIG_ADD_TABLE args
            (SET_NATIOBJ_STATE
               (if hold_state (nati_obj p) \<and> state_to_hold (nati_obj p) \<noteq> NATI_STATE_NULL
                then state_to_hold (nati_obj p) else mem_type_str_to_ipa_nati_state mem_type_ptr) p) w
      | _ \<Rightarrow> None)"

definition smAddDdrTbl :: "('w, 'm) sm_env_scheme \<Rightarrow> ('w, 'a) sm_fun \<Rightarrow> ('w, 'a) sm_fun" where
  "smAddDdrTbl env sm trigger args p w =
     (case args of
        Add_Tbl_Args public_ip_addr number_of_entries mem_type_ptr \<Rightarrow>
          do {
            (ret, g, hdl, w) \<leftarrow> ipa_NATI_add_ipv4_tbl env (nat_g p) IPA_NAT_MEM_IN_DDR public_ip_addr number_of_entries w;
            let p = on_obj (\<lambda>o'. o'\<lparr>ddr_tbl_hdl := hdl\<rparr>) (p\<lparr>nat_g := g\<rparr>);
            Some (ret, if ret = 0 then no_out\<lparr>o_tbl_hdl := Some hdl\<rparr> else no_out, p, w)
          }
      | _ \<Rightarrow> None)"

text \<open>
  \<open>ipa_calc_num_sram_table_entries\<close> stores a 16-bit number through the address of the 32-bit
  \<open>tot_slots_in_sram\<close>: on the little-endian targets of this code, its low half.
\<close>

definition store_lo16 :: "u32 \<Rightarrow> u16 \<Rightarrow> u32" where
  "store_lo16 x n = (x AND 0xFFFF0000) OR ucast n"

definition smAddSramTbl :: "('w, 'm) sm_env_scheme \<Rightarrow> ('w, 'a) sm_fun \<Rightarrow> ('w, 'a) sm_fun" where
  "smAddSramTbl env sm trigger args p w =
     (case args of
        Add_Tbl_Args public_ip_addr number_of_entries mem_type_ptr \<Rightarrow>
          do {
            (ret, g, sz, w) \<leftarrow> ipa_nati_get_sram_size env (nat_g p) w;
            let p = p\<lparr>nat_g := g\<rparr>;
            if ret \<noteq> 0 then Some (ret, no_out, p, w)
            else do {
              (ret, n) \<leftarrow> ipa_calc_num_sram_table_entries (case sz of None \<Rightarrow> 0 | Some x \<Rightarrow> x)
                            (of_nat IPA_NAT_RULE_SIZE) (of_nat IPA_NAT_INDX_RULE_SIZE);
              let p = on_obj (\<lambda>o'. o'\<lparr>tot_slots_in_sram := store_lo16 (tot_slots_in_sram o') n\<rparr>) p;
              if ret \<noteq> 0 then Some (ret, no_out, p, w)
              else do {
                let p = on_obj (\<lambda>o'. o'\<lparr>back_to_sram_thresh := PRCNT_OF (tot_slots_in_sram o')\<rparr>) p;
                (ret, p, w) \<leftarrow> ipa_nat_vote_clock env IPA_APP_CLK_VOTE p w;
                if ret \<noteq> 0 then Some (ret, no_out, p, w)
                else do {
                  (ret, g, hdl, w) \<leftarrow> ipa_NATI_add_ipv4_tbl env (nat_g p) IPA_NAT_MEM_IN_SRAM public_ip_addr
                                       (ucast (tot_slots_in_sram (nati_obj p))) w;
                  let p = on_obj (\<lambda>o'. o'\<lparr>sram_tbl_hdl := hdl\<rparr>) (p\<lparr>nat_g := g\<rparr>);
                  (_, p, w) \<leftarrow> ipa_nat_vote_clock env IPA_APP_CLK_DEVOTE p w;
                  Some (ret, if ret = 0 then no_out\<lparr>o_tbl_hdl := Some (sram_tbl_hdl (nati_obj p))\<rparr> else no_out, p, w)
                }
              }
            }
          }
      | _ \<Rightarrow> None)"

text \<open>The two maps of a memory are cleared; the return codes are ignored.\<close>

definition clear_maps :: "mem_sub \<Rightarrow> nat_prog \<Rightarrow> nat_prog option" where
  "clear_maps s p =
     do {
       let mp = map_pairs (nati_obj p) s;
       (_, ms) \<leftarrow> ipa_nat_map_clear (map_array p) (orig2new_map mp);
       (_, ms) \<leftarrow> ipa_nat_map_clear ms (new2orig_map mp);
       Some (p\<lparr>map_array := ms\<rparr>)
     }"

definition smAddSramAndDdrTbl :: "('w, 'm) sm_env_scheme \<Rightarrow> ('w, 'a) sm_fun \<Rightarrow> ('w, 'a) sm_fun" where
  "smAddSramAndDdrTbl env sm trigger args p w =
     (case args of
        Add_Tbl_Args public_ip_addr number_of_entries mem_type_ptr \<Rightarrow>
          do {
            let p = on_cnt DDR_SUB (\<lambda>_. 0) (on_cnt SRAM_SUB (\<lambda>_. 0) p);
            p \<leftarrow> clear_maps SRAM_SUB p;
            p \<leftarrow> clear_maps DDR_SUB p;
            (ret, out, p, w) \<leftarrow> smAddSramTbl env sm trigger args p w;
            if ret = 0
            then if ucast number_of_entries \<le> tot_slots_in_sram (nati_obj p)
                 then Some (ret, out, SET_NATIOBJ_STATE NATI_STATE_SRAM_ONLY p, w)
                 else do {
                   (ret, _, p, w) \<leftarrow> smAddDdrTbl env sm trigger (Add_Tbl_Args public_ip_addr number_of_entries None) p w;
                   if ret = 0
                   then do { (ret, _, p, w) \<leftarrow> sm NATI_TRIG_GOTO_SRAM No_Args p w; Some (ret, out, p, w) }
                   else Some (ret, out, p, w)
                 }
            else do {
              (ret, out2, p, w) \<leftarrow> smAddDdrTbl env sm trigger args p w;
              Some (ret, out_then out out2, if ret = 0 then SET_NATIOBJ_STATE NATI_STATE_DDR_ONLY p else p, w)
            }
          }
      | _ \<Rightarrow> None)"

definition smDelSramAndDdrTbl :: "('w, 'm) sm_env_scheme \<Rightarrow> ('w, 'a) sm_fun \<Rightarrow> ('w, 'a) sm_fun" where
  "smDelSramAndDdrTbl env sm trigger args p w =
     do {
       let p = on_cnt DDR_SUB (\<lambda>_. 0) (on_cnt SRAM_SUB (\<lambda>_. 0) p);
       p \<leftarrow> clear_maps SRAM_SUB p;
       p \<leftarrow> clear_maps DDR_SUB p;
       (ret, _, p, w) \<leftarrow> smDelTbl env sm trigger args p w;
       (ret, p, w) \<leftarrow>
         (if ret = 0
          then do {
            (ret, _, p, w) \<leftarrow> smDelTbl env sm trigger (Tbl_Args (ddr_tbl_hdl (nati_obj p))) p w;
            Some (ret, p, w)
          }
          else Some (ret, p, w));
       Some (ret, no_out, if ret = 0 then BACK2_UNSTARTED_STATE p else p, w)
     }"

definition smClrTbl :: "('w, 'm) sm_env_scheme \<Rightarrow> ('w, 'a) sm_fun \<Rightarrow> ('w, 'a) sm_fun" where
  "smClrTbl env sm trigger args p w =
     (case args of
        Tbl_Args tbl_hdl \<Rightarrow>
          (let (n, unused_hdl) = BREAK_TBL_HDL tbl_hdl
           in if \<not> IPA_VALID_NAT_MEM_IN n then Some (- EINVAL, no_out, p, w)
              else do {
                let sub = (if n = IPA_NAT_MEM_IN_SRAM then SRAM_SUB else DDR_SUB);
                p \<leftarrow> clear_maps sub (on_cnt sub (\<lambda>_. 0) p);
                (ret, g, w) \<leftarrow> ipa_NATI_clear_ipv4_tbl env (nat_g p) tbl_hdl w;
                Some (ret, no_out, p\<lparr>nat_g := g\<rparr>, w)
              })
      | _ \<Rightarrow> None)"

text \<open>The table a hybrid operation is redirected to.\<close>

definition hybrid_hdl :: "nat_prog \<Rightarrow> u32 \<Rightarrow> u32" where
  "hybrid_hdl p tbl_hdl = (if curr_state (nati_obj p) = NATI_STATE_HYBRID then tbl_hdl else ddr_tbl_hdl (nati_obj p))"

definition smClrTblHybrid :: "('w, 'm) sm_env_scheme \<Rightarrow> ('w, 'a) sm_fun \<Rightarrow> ('w, 'a) sm_fun" where
  "smClrTblHybrid env sm trigger args p w =
     (case args of Tbl_Args tbl_hdl \<Rightarrow> smClrTbl env sm trigger (Tbl_Args (hybrid_hdl p tbl_hdl)) p w | _ \<Rightarrow> None)"

definition smWalkTbl :: "('w, 'm) sm_env_scheme \<Rightarrow> ('w, 'a) sm_fun \<Rightarrow> ('w, 'a) sm_fun" where
  "smWalkTbl env sm trigger args p w =
     (case args of
        Walk_Args tbl_hdl which walk_cb wadp \<Rightarrow>
          do {
            (ret, g, arb, w) \<leftarrow> ipa_NATI_walk_ipv4_tbl env (nat_g p) tbl_hdl which walk_cb wadp w;
            Some (ret, no_out\<lparr>o_arb := Some arb\<rparr>, p\<lparr>nat_g := g\<rparr>, w)
          }
      | _ \<Rightarrow> None)"

definition smWalkTblHybrid :: "('w, 'm) sm_env_scheme \<Rightarrow> ('w, 'a) sm_fun \<Rightarrow> ('w, 'a) sm_fun" where
  "smWalkTblHybrid env sm trigger args p w =
     (case args of
        Walk_Args tbl_hdl which walk_cb wadp \<Rightarrow> smWalkTbl env sm trigger (Walk_Args (hybrid_hdl p tbl_hdl) which walk_cb wadp) p w
      | _ \<Rightarrow> None)"

definition smStatTbl :: "('w, 'm) sm_env_scheme \<Rightarrow> ('w, 'a) sm_fun \<Rightarrow> ('w, 'a) sm_fun" where
  "smStatTbl env sm trigger args p w =
     (case args of
        Tbl_Args tbl_hdl \<Rightarrow>
          do {
            (ret, st, w) \<leftarrow> ipa_NATI_ipv4_tbl_stats env (nat_g p) tbl_hdl w;
            Some (ret, no_out\<lparr>o_stats := st\<rparr>, p, w)
          }
      | _ \<Rightarrow> None)"

definition smStatTblHybrid :: "('w, 'm) sm_env_scheme \<Rightarrow> ('w, 'a) sm_fun \<Rightarrow> ('w, 'a) sm_fun" where
  "smStatTblHybrid env sm trigger args p w =
     (case args of Tbl_Args tbl_hdl \<Rightarrow> smStatTbl env sm trigger (Tbl_Args (hybrid_hdl p tbl_hdl)) p w | _ \<Rightarrow> None)"

definition smAddRuleToTbl :: "('w, 'm) sm_env_scheme \<Rightarrow> ('w, 'a) sm_fun \<Rightarrow> ('w, 'a) sm_fun" where
  "smAddRuleToTbl env sm trigger args p w =
     (case args of
        Add_Rule_Args tbl_hdl clnt_rule \<Rightarrow>
          do {
            let clnt_rule = clnt_rule\<lparr>u_redirect := 0, u_enable := 0, u_time_stamp := 0\<rparr>;
            (ret, g, hdl, w) \<leftarrow> ipa_NATI_add_ipv4_rule env (nat_g p) tbl_hdl clnt_rule w;
            let p = p\<lparr>nat_g := g\<rparr>;
            let p = (if ret = 0 then on_cnt (CHOOSE_MEM_SUB p) (\<lambda>c. c + 1) p else p);
            Some (ret, no_out\<lparr>o_rule_hdl := hdl, o_clnt_rule := Some clnt_rule\<rparr>, p, w)
          }
      | _ \<Rightarrow> None)"

definition smDelRuleFromTbl :: "('w, 'm) sm_env_scheme \<Rightarrow> ('w, 'a) sm_fun \<Rightarrow> ('w, 'a) sm_fun" where
  "smDelRuleFromTbl env sm trigger args p w =
     (case args of
        Rule_Args tbl_hdl rule_hdl \<Rightarrow>
          do {
            (ret, g, w) \<leftarrow> ipa_NATI_del_ipv4_rule env (nat_g p) tbl_hdl rule_hdl w;
            let p = p\<lparr>nat_g := g\<rparr>;
            Some (ret, no_out, if ret = 0 then on_cnt (CHOOSE_MEM_SUB p) (\<lambda>c. c - 1) p else p, w)
          }
      | _ \<Rightarrow> None)"

definition smAddRuleHybrid :: "('w, 'm) sm_env_scheme \<Rightarrow> ('w, 'a) sm_fun \<Rightarrow> ('w, 'a) sm_fun" where
  "smAddRuleHybrid env sm trigger args p w =
     (case args of
        Add_Rule_Args tbl_hdl clnt_rule \<Rightarrow>
          do {
            (ret, out, p, w) \<leftarrow> smAddRuleToTbl env sm trigger (Add_Rule_Args (hybrid_hdl p tbl_hdl) clnt_rule) p w;
            if ret = 0
            then do {
              let (orig2new, new2orig) = CHOOSE_MAPS p;
              h \<leftarrow> o_rule_hdl out;
              (ret, ms) \<leftarrow> ipa_nat_map_add (map_array p) orig2new h h;
              (ret, ms) \<leftarrow> (if ret = 0 then ipa_nat_map_add ms new2orig h h else Some (ret, ms));
              Some (ret, out, p\<lparr>map_array := ms\<rparr>, w)
            }
            else if curr_state (nati_obj p) = NATI_STATE_HYBRID \<and> \<not> hold_state (nati_obj p)
            then do {
              (ret, _, p, w) \<leftarrow> sm NATI_TRIG_TBL_SWITCH No_Args p w;
              if ret = 0
              then do {
                clnt_rule \<leftarrow> o_clnt_rule out;
                (ret, out2, p, w) \<leftarrow>
                  sm trigger (Add_Rule_Args tbl_hdl clnt_rule) (SET_NATIOBJ_STATE NATI_STATE_HYBRID_DDR p) w;
                Some (ret, out_then out out2, p, w)
              }
              else Some (ret, out, p, w)
            }
            else Some (ret, out, p, w)
          }
      | _ \<Rightarrow> None)"

definition smDelRuleHybrid :: "('w, 'm) sm_env_scheme \<Rightarrow> ('w, 'a) sm_fun \<Rightarrow> ('w, 'a) sm_fun" where
  "smDelRuleHybrid env sm trigger args p w =
     (case args of
        Rule_Args tbl_hdl orig_rule_hdl \<Rightarrow>
          do {
            let (orig2new, new2orig) = CHOOSE_MAPS p;
            (ret, hdl, ms) \<leftarrow> ipa_nat_map_del (map_array p) orig2new orig_rule_hdl;
            if ret \<noteq> 0 then Some (ret, no_out, p\<lparr>map_array := ms\<rparr>, w)
            else do {
              new_rule_hdl \<leftarrow> hdl;
              (_, _, ms) \<leftarrow> ipa_nat_map_del ms new2orig new_rule_hdl;
              let p = p\<lparr>map_array := ms\<rparr>;
              (ret, _, p, w) \<leftarrow> smDelRuleFromTbl env sm trigger (Rule_Args (hybrid_hdl p tbl_hdl) new_rule_hdl) p w;
              if ret = 0 \<and> curr_state (nati_obj p) = NATI_STATE_HYBRID_DDR \<and>
                 tot_rules_in_table (nati_obj p) (CHOOSE_MEM_SUB p) \<le> back_to_sram_thresh (nati_obj p) \<and>
                 \<not> hold_state (nati_obj p)
              then do {
                (ret, _, p, w) \<leftarrow> sm NATI_TRIG_TBL_SWITCH No_Args p w;
                Some (0, no_out, if ret = 0 then SET_NATIOBJ_STATE NATI_STATE_HYBRID p else p, w)
              }
              else Some (ret, no_out, p, w)
            }
          }
      | _ \<Rightarrow> None)"

definition smGoToDdr :: "('w, 'm) sm_env_scheme \<Rightarrow> ('w, 'a) sm_fun \<Rightarrow> ('w, 'a) sm_fun" where
  "smGoToDdr env sm trigger args p w =
     do {
       (ret, g, w) \<leftarrow> ipa_NATI_post_ipv4_init_cmd env (nat_g p) (ddr_tbl_hdl (nati_obj p)) w;
       let p = p\<lparr>nat_g := g\<rparr>;
       Some (ret, no_out, if ret = 0 then SET_NATIOBJ_STATE NATI_STATE_HYBRID_DDR p else p, w)
     }"

definition smGoToSram :: "('w, 'm) sm_env_scheme \<Rightarrow> ('w, 'a) sm_fun \<Rightarrow> ('w, 'a) sm_fun" where
  "smGoToSram env sm trigger args p w =
     do {
       (ret, g, w) \<leftarrow> ipa_NATI_post_ipv4_init_cmd env (nat_g p) (sram_tbl_hdl (nati_obj p)) w;
       let p = p\<lparr>nat_g := g\<rparr>;
       Some (ret, no_out, if ret = 0 then SET_NATIOBJ_STATE NATI_STATE_HYBRID p else p, w)
     }"

text \<open>
  The two switches. \<open>args\<close> other than the null pointer asks for statistics, which are only printed; so are the
  two times.
\<close>

definition smSwitchFromDdrToSram :: "('w, 'm) sm_env_scheme \<Rightarrow> ('w, 'a) sm_fun \<Rightarrow> ('w, 'a) sm_fun" where
  "smSwitchFromDdrToSram env sm trigger args p w =
     do {
       let stats_sub = CHOOSE_MEM_SUB p;
       w \<leftarrow> (case args of
               No_Args \<Rightarrow> Some w
             | _ \<Rightarrow> do { (_, _, w) \<leftarrow> ipa_NATI_ipv4_tbl_stats env (nat_g p) (ddr_tbl_hdl (nati_obj p)) w; Some w });
       let (_, w) = currTimeAs env TimeAsNanSecs w;
       (ret, _, p, w) \<leftarrow> sm NATI_TRIG_GOTO_SRAM No_Args p w;
       if ret \<noteq> 0 then Some (ret, no_out, p, w)
       else do {
         p \<leftarrow> clear_maps SRAM_SUB (on_cnt SRAM_SUB (\<lambda>_. 0) p);
         (ret, g, (ob, ms), w) \<leftarrow>
           ipa_nati_copy_ipv4_tbl env (nat_g p) (ddr_tbl_hdl (nati_obj p)) (sram_tbl_hdl (nati_obj p))
             (Some (migrate_rule env)) (nati_obj p, map_array p) w;
         let p = p\<lparr>nat_g := g, nati_obj := ob, map_array := ms\<rparr>;
         let (_, w) = currTimeAs env TimeAsNanSecs w;
         let p = on_stats stats_sub (\<lambda>s. if ret = 0 then s\<lparr>sw_pass := sw_pass s + 1\<rparr> else s\<lparr>sw_fail := sw_fail s + 1\<rparr>) p;
         Some (ret, no_out, p, w)
       }
     }"

definition smSwitchFromSramToDdr :: "('w, 'm) sm_env_scheme \<Rightarrow> ('w, 'a) sm_fun \<Rightarrow> ('w, 'a) sm_fun" where
  "smSwitchFromSramToDdr env sm trigger args p w =
     do {
       let stats_sub = CHOOSE_MEM_SUB p;
       w \<leftarrow> (case args of
               No_Args \<Rightarrow> Some w
             | _ \<Rightarrow> do { (_, _, w) \<leftarrow> ipa_NATI_ipv4_tbl_stats env (nat_g p) (sram_tbl_hdl (nati_obj p)) w; Some w });
       let (_, w) = currTimeAs env TimeAsNanSecs w;
       (ret, _, p, w) \<leftarrow> sm NATI_TRIG_GOTO_DDR No_Args p w;
       if ret \<noteq> 0 then Some (ret, no_out, p, w)
       else do {
         p \<leftarrow> clear_maps DDR_SUB (on_cnt DDR_SUB (\<lambda>_. 0) p);
         (ret, g, (ob, ms), w) \<leftarrow>
           ipa_nati_copy_ipv4_tbl env (nat_g p) (sram_tbl_hdl (nati_obj p)) (ddr_tbl_hdl (nati_obj p))
             (Some (migrate_rule env)) (nati_obj p, map_array p) w;
         let p = p\<lparr>nat_g := g, nati_obj := ob, map_array := ms\<rparr>;
         let (_, w) = currTimeAs env TimeAsNanSecs w;
         let p = on_stats stats_sub (\<lambda>s. if ret = 0 then s\<lparr>sw_pass := sw_pass s + 1\<rparr> else s\<lparr>sw_fail := sw_fail s + 1\<rparr>) p;
         Some (ret, no_out, p, w)
       }
     }"

definition smGetTmStmp :: "('w, 'm) sm_env_scheme \<Rightarrow> ('w, 'a) sm_fun \<Rightarrow> ('w, 'a) sm_fun" where
  "smGetTmStmp env sm trigger args p w =
     (case args of
        Rule_Args tbl_hdl rule_hdl \<Rightarrow>
          do {
            (ret, ts, w) \<leftarrow> ipa_NATI_query_timestamp env (nat_g p) tbl_hdl rule_hdl w;
            Some (ret, no_out\<lparr>o_time_stamp := ts\<rparr>, p, w)
          }
      | _ \<Rightarrow> None)"

definition smGetTmStmpHybrid :: "('w, 'm) sm_env_scheme \<Rightarrow> ('w, 'a) sm_fun \<Rightarrow> ('w, 'a) sm_fun" where
  "smGetTmStmpHybrid env sm trigger args p w =
     (case args of
        Rule_Args tbl_hdl orig_rule_hdl \<Rightarrow>
          do {
            let (orig2new, new2orig) = CHOOSE_MAPS p;
            (ret, hdl) \<leftarrow> ipa_nat_map_find (map_array p) orig2new orig_rule_hdl;
            if ret \<noteq> 0 then Some (ret, no_out, p, w)
            else do {
              new_rule_hdl \<leftarrow> hdl;
              smGetTmStmp env sm trigger (Rule_Args (hybrid_hdl p tbl_hdl) new_rule_hdl) p w
            }
          }
      | _ \<Rightarrow> None)"

subsection \<open>The transition table and the machine\<close>

definition state_mach_tbl ::
    "('w, 'm) sm_env_scheme \<Rightarrow> ('w, 'a) sm_fun \<Rightarrow> ipa_nati_state \<Rightarrow> ipa_nati_trigger \<Rightarrow> ('w, 'a) sm_fun" where
  "state_mach_tbl env sm s t =
     (case s of
        NATI_STATE_NULL \<Rightarrow> (case t of NATI_TRIG_ADD_TABLE \<Rightarrow> smFirstTbl env sm | _ \<Rightarrow> smUndef env sm)
      | NATI_STATE_DDR_ONLY \<Rightarrow>
          (case t of
             NATI_TRIG_ADD_TABLE \<Rightarrow> smAddDdrTbl env sm | NATI_TRIG_DEL_TABLE \<Rightarrow> smDelTbl env sm
           | NATI_TRIG_CLR_TABLE \<Rightarrow> smClrTbl env sm | NATI_TRIG_WLK_TABLE \<Rightarrow> smWalkTbl env sm
           | NATI_TRIG_TBL_STATS \<Rightarrow> smStatTbl env sm | NATI_TRIG_ADD_RULE \<Rightarrow> smAddRuleToTbl env sm
           | NATI_TRIG_DEL_RULE \<Rightarrow> smDelRuleFromTbl env sm | NATI_TRIG_GET_TSTAMP \<Rightarrow> smGetTmStmp env sm
           | _ \<Rightarrow> smUndef env sm)
      | NATI_STATE_SRAM_ONLY \<Rightarrow>
          (case t of
             NATI_TRIG_ADD_TABLE \<Rightarrow> smAddSramTbl env sm | NATI_TRIG_DEL_TABLE \<Rightarrow> smDelTbl env sm
           | NATI_TRIG_CLR_TABLE \<Rightarrow> smClrTbl env sm | NATI_TRIG_WLK_TABLE \<Rightarrow> smWalkTbl env sm
           | NATI_TRIG_TBL_STATS \<Rightarrow> smStatTbl env sm | NATI_TRIG_ADD_RULE \<Rightarrow> smAddRuleToTbl env sm
           | NATI_TRIG_DEL_RULE \<Rightarrow> smDelRuleFromTbl env sm | NATI_TRIG_GET_TSTAMP \<Rightarrow> smGetTmStmp env sm
           | _ \<Rightarrow> smUndef env sm)
      | NATI_STATE_HYBRID \<Rightarrow>
          (case t of
             NATI_TRIG_ADD_TABLE \<Rightarrow> smAddSramAndDdrTbl env sm | NATI_TRIG_DEL_TABLE \<Rightarrow> smDelSramAndDdrTbl env sm
           | NATI_TRIG_CLR_TABLE \<Rightarrow> smClrTblHybrid env sm | NATI_TRIG_WLK_TABLE \<Rightarrow> smWalkTblHybrid env sm
           | NATI_TRIG_TBL_STATS \<Rightarrow> smStatTblHybrid env sm | NATI_TRIG_ADD_RULE \<Rightarrow> smAddRuleHybrid env sm
           | NATI_TRIG_DEL_RULE \<Rightarrow> smDelRuleHybrid env sm | NATI_TRIG_TBL_SWITCH \<Rightarrow> smSwitchFromSramToDdr env sm
           | NATI_TRIG_GOTO_DDR \<Rightarrow> smGoToDdr env sm | NATI_TRIG_GOTO_SRAM \<Rightarrow> smGoToSram env sm
           | NATI_TRIG_GET_TSTAMP \<Rightarrow> smGetTmStmpHybrid env sm | _ \<Rightarrow> smUndef env sm)
      | NATI_STATE_HYBRID_DDR \<Rightarrow>
          (case t of
             NATI_TRIG_DEL_TABLE \<Rightarrow> smDelSramAndDdrTbl env sm | NATI_TRIG_CLR_TABLE \<Rightarrow> smClrTblHybrid env sm
           | NATI_TRIG_WLK_TABLE \<Rightarrow> smWalkTblHybrid env sm | NATI_TRIG_TBL_STATS \<Rightarrow> smStatTblHybrid env sm
           | NATI_TRIG_ADD_RULE \<Rightarrow> smAddRuleHybrid env sm | NATI_TRIG_DEL_RULE \<Rightarrow> smDelRuleHybrid env sm
           | NATI_TRIG_TBL_SWITCH \<Rightarrow> smSwitchFromDdrToSram env sm | NATI_TRIG_GOTO_DDR \<Rightarrow> smGoToDdr env sm
           | NATI_TRIG_GOTO_SRAM \<Rightarrow> smGoToSram env sm | NATI_TRIG_GET_TSTAMP \<Rightarrow> smGetTmStmpHybrid env sm
           | _ \<Rightarrow> smUndef env sm)
      | NATI_STATE_LAST \<Rightarrow> smUndef env sm)"

text \<open>
  The body of \<open>ipa_nati_statemach\<close>, over the machine the callbacks use. The return code of the callback is
  overwritten with that of \<open>give_mutex\<close>.
\<close>

definition statemach_body :: "('w, 'm) sm_env_scheme \<Rightarrow> ('w, 'a) sm_fun \<Rightarrow> ('w, 'a) sm_fun" where
  "statemach_body env sm trigger args p w =
     (let (ret, p, w) = take_mutex env p w
      in if ret \<noteq> 0 then Some (ret, no_out, p, w)
         else do {
           let vote = VOTE_REQUIRED trigger p;
           (voted, p, w) \<leftarrow> (if vote then ipa_nat_vote_clock env IPA_APP_CLK_VOTE p w else Some (0, p, w));
           (_, out, p, w) \<leftarrow>
             (if voted \<noteq> 0 then Some (- EINVAL, no_out, p, w)
              else do {
                (ret, out, p, w) \<leftarrow> state_mach_tbl env sm (curr_state (nati_obj p)) trigger trigger args p w;
                (_, p, w) \<leftarrow> (if vote then ipa_nat_vote_clock env IPA_APP_CLK_DEVOTE p w else Some (0, p, w));
                Some (ret, out, p, w)
              });
           let (ret, w) = give_mutex env p w;
           Some (ret, out, p, w)
         })"

fun statemach_n :: "nat \<Rightarrow> ('w, 'm) sm_env_scheme \<Rightarrow> ('w, 'a) sm_fun" where
  "statemach_n 0 env trigger args p w = None"
| "statemach_n (Suc n) env trigger args p w = statemach_body env (statemach_n n env) trigger args p w"

definition ipa_nati_statemach :: "('w, 'm) sm_env_scheme \<Rightarrow> ('w, 'a) sm_fun" where
  "ipa_nati_statemach = statemach_n 3"


subsection \<open>The operations of the machine\<close>

text \<open>
  The functions that run a trigger for a client. Pointer arguments are not null; what is stored through them is
  in the result.
\<close>

definition ipa_nati_add_ipv4_tbl ::
    "('w, 'm) sm_env_scheme \<Rightarrow> u32 \<Rightarrow> string option \<Rightarrow> u16 \<Rightarrow> nat_prog \<Rightarrow> 'w \<Rightarrow> (int \<times> u32 option \<times> nat_prog \<times> 'w) option" where
  "ipa_nati_add_ipv4_tbl env public_ip_addr mem_type_ptr number_of_entries p w =
     do {
       (ret, out :: unit sm_out, p, w) \<leftarrow>
         ipa_nati_statemach env NATI_TRIG_ADD_TABLE (Add_Tbl_Args public_ip_addr number_of_entries mem_type_ptr) p w;
       Some (ret, o_tbl_hdl out, p, w)
     }"

definition ipa_nati_del_ipv4_table ::
    "('w, 'm) sm_env_scheme \<Rightarrow> u32 \<Rightarrow> nat_prog \<Rightarrow> 'w \<Rightarrow> (int \<times> nat_prog \<times> 'w) option" where
  "ipa_nati_del_ipv4_table env tbl_hdl p w =
     do {
       (ret, _ :: unit sm_out, p, w) \<leftarrow> ipa_nati_statemach env NATI_TRIG_DEL_TABLE (Tbl_Args tbl_hdl) p w;
       Some (ret, p, w)
     }"

definition ipa_nati_clear_ipv4_tbl ::
    "('w, 'm) sm_env_scheme \<Rightarrow> u32 \<Rightarrow> nat_prog \<Rightarrow> 'w \<Rightarrow> (int \<times> nat_prog \<times> 'w) option" where
  "ipa_nati_clear_ipv4_tbl env tbl_hdl p w =
     do {
       (ret, _ :: unit sm_out, p, w) \<leftarrow> ipa_nati_statemach env NATI_TRIG_CLR_TABLE (Tbl_Args tbl_hdl) p w;
       Some (ret, p, w)
     }"

definition ipa_nati_walk_ipv4_tbl ::
    "('w, 'm) sm_env_scheme \<Rightarrow> u32 \<Rightarrow> WhichTbl2Use \<Rightarrow> ('w, 'a) nat_walk_cb option \<Rightarrow> 'a \<Rightarrow> nat_prog \<Rightarrow> 'w
     \<Rightarrow> (int \<times> 'a option \<times> nat_prog \<times> 'w) option" where
  "ipa_nati_walk_ipv4_tbl env tbl_hdl which walk_cb arb_data_ptr p w =
     do {
       (ret, out, p, w) \<leftarrow> ipa_nati_statemach env NATI_TRIG_WLK_TABLE (Walk_Args tbl_hdl which walk_cb arb_data_ptr) p w;
       Some (ret, o_arb out, p, w)
     }"

definition ipa_nati_ipv4_tbl_stats ::
    "('w, 'm) sm_env_scheme \<Rightarrow> u32 \<Rightarrow> nat_prog \<Rightarrow> 'w
     \<Rightarrow> (int \<times> (ipa_nati_tbl_stats \<times> ipa_nati_tbl_stats) option \<times> nat_prog \<times> 'w) option" where
  "ipa_nati_ipv4_tbl_stats env tbl_hdl p w =
     do {
       (ret, out :: unit sm_out, p, w) \<leftarrow> ipa_nati_statemach env NATI_TRIG_TBL_STATS (Tbl_Args tbl_hdl) p w;
       Some (ret, o_stats out, p, w)
     }"

text \<open>The rule of the client is changed by the call; it is the third component.\<close>

definition ipa_nati_add_ipv4_rule ::
    "('w, 'm) sm_env_scheme \<Rightarrow> u32 \<Rightarrow> ipa_nat_ipv4_rule \<Rightarrow> nat_prog \<Rightarrow> 'w
     \<Rightarrow> (int \<times> u32 option \<times> ipa_nat_ipv4_rule \<times> nat_prog \<times> 'w) option" where
  "ipa_nati_add_ipv4_rule env tbl_hdl clnt_rule p w =
     do {
       (ret, out :: unit sm_out, p, w) \<leftarrow> ipa_nati_statemach env NATI_TRIG_ADD_RULE (Add_Rule_Args tbl_hdl clnt_rule) p w;
       Some (ret, o_rule_hdl out, (case o_clnt_rule out of None \<Rightarrow> clnt_rule | Some u \<Rightarrow> u), p, w)
     }"

definition ipa_nati_del_ipv4_rule ::
    "('w, 'm) sm_env_scheme \<Rightarrow> u32 \<Rightarrow> u32 \<Rightarrow> nat_prog \<Rightarrow> 'w \<Rightarrow> (int \<times> nat_prog \<times> 'w) option" where
  "ipa_nati_del_ipv4_rule env tbl_hdl rule_hdl p w =
     do {
       (ret, _ :: unit sm_out, p, w) \<leftarrow> ipa_nati_statemach env NATI_TRIG_DEL_RULE (Rule_Args tbl_hdl rule_hdl) p w;
       Some (ret, p, w)
     }"

definition ipa_nati_query_timestamp ::
    "('w, 'm) sm_env_scheme \<Rightarrow> u32 \<Rightarrow> u32 \<Rightarrow> nat_prog \<Rightarrow> 'w \<Rightarrow> (int \<times> u32 option \<times> nat_prog \<times> 'w) option" where
  "ipa_nati_query_timestamp env tbl_hdl rule_hdl p w =
     do {
       (ret, out :: unit sm_out, p, w) \<leftarrow> ipa_nati_statemach env NATI_TRIG_GET_TSTAMP (Rule_Args tbl_hdl rule_hdl) p w;
       Some (ret, o_time_stamp out, p, w)
     }"

definition ipa_nat_switch_to ::
    "('w, 'm) sm_env_scheme \<Rightarrow> ipa3_nat_mem_in \<Rightarrow> bool \<Rightarrow> nat_prog \<Rightarrow> 'w \<Rightarrow> (int \<times> nat_prog \<times> 'w) option" where
  "ipa_nat_switch_to env n hold p w =
     (if \<not> IPA_VALID_NAT_MEM_IN n then Some (- 1, p, w)
      else
        let (ret, p, w) = take_mutex env p w
        in if ret \<noteq> 0 then Some (ret, p, w)
           else do {
             (p, w) \<leftarrow>
               (if IN_UNSTARTED_STATE p
                then Some (on_obj (\<lambda>o'. o'\<lparr>hold_state := hold,
                       state_to_hold := (if n = IPA_NAT_MEM_IN_DDR then NATI_STATE_DDR_ONLY else NATI_STATE_SRAM_ONLY)\<rparr>) p, w)
                else if IN_HYBRID_STATE p
                then do {
                  (ret, p, w) \<leftarrow>
                    (if COMPATIBLE_NMI_4SWITCH n p
                     then do {
                       (ret, _ :: unit sm_out, p, w) \<leftarrow> ipa_nati_statemach env NATI_TRIG_TBL_SWITCH No_Args p w;
                       Some (ret, p, w)
                     }
                     else Some (0, p, w));
                  let h = GEN_HOLD_STATE p;
                  Some (if ret = 0
                        then on_obj (\<lambda>o'. if hold then o'\<lparr>hold_state := hold, state_to_hold := h\<rparr> else o'\<lparr>hold_state := hold\<rparr>) p
                        else p, w)
                }
                else if hold
                then Some (if COMPATIBLE_NMI_4SWITCH n p
                           then on_obj (\<lambda>o'. o'\<lparr>state_to_hold := GEN_HOLD_STATE p, hold_state := hold\<rparr>) p else p, w)
                else Some (on_obj (\<lambda>o'. o'\<lparr>state_to_hold := NATI_STATE_NULL, hold_state := hold\<rparr>) p, w));
             let (ret, w) = give_mutex env p w;
             Some (ret, p, w)
           })"

definition ipa_nat_is_sram_supported :: "nat_prog \<Rightarrow> bool" where
  "ipa_nat_is_sram_supported p = VALID_TBL_HDL (sram_tbl_hdl (nati_obj p))"

end
