(* ===== verification/Nat_Drv.thy ===== *)
theory Nat_Drv
  imports Nat_Statemach
begin

unbundle bit_operations_syntax

section \<open>The public interface (\<open>ipa_nat_drv.c\<close>)\<close>

text \<open>
  The functions clients link against: they check their arguments and call the state machine or the functions
  of \<open>ipa_nat_drvi.c\<close>. Output pointers are not null; an output component \<open>None\<close> means that nothing was stored.
\<close>

definition ipa_nat_add_ipv4_tbl ::
    "('w, 'm) sm_env_scheme \<Rightarrow> u32 \<Rightarrow> string option \<Rightarrow> u16 \<Rightarrow> nat_prog \<Rightarrow> 'w \<Rightarrow> (int \<times> u32 option \<times> nat_prog \<times> 'w) option" where
  "ipa_nat_add_ipv4_tbl env public_ip_addr mem_type_ptr number_of_entries p w =
     (if mem_type_ptr = None \<or> number_of_entries = 0 then Some (- EINVAL, None, p, w)
      else do {
        (ret, hdl, p, w) \<leftarrow> ipa_nati_add_ipv4_tbl env public_ip_addr mem_type_ptr number_of_entries p w;
        Some (ret, later (Some 0) hdl, p, w)
      })"

definition ipa_nat_del_ipv4_tbl ::
    "('w, 'm) sm_env_scheme \<Rightarrow> u32 \<Rightarrow> nat_prog \<Rightarrow> 'w \<Rightarrow> (int \<times> nat_prog \<times> 'w) option" where
  "ipa_nat_del_ipv4_tbl env tbl_hdl p w =
     (if \<not> VALID_TBL_HDL tbl_hdl then Some (- EINVAL, p, w) else ipa_nati_del_ipv4_table env tbl_hdl p w)"

definition ipa_nat_add_ipv4_rule ::
    "('w, 'm) sm_env_scheme \<Rightarrow> u32 \<Rightarrow> ipa_nat_ipv4_rule \<Rightarrow> nat_prog \<Rightarrow> 'w
     \<Rightarrow> (int \<times> u32 option \<times> ipa_nat_ipv4_rule \<times> nat_prog \<times> 'w) option" where
  "ipa_nat_add_ipv4_rule env tbl_hdl clnt_rule p w =
     (if \<not> VALID_TBL_HDL tbl_hdl then Some (- EINVAL, None, clnt_rule, p, w)
      else do {
        (ret, hdl, clnt_rule, p, w) \<leftarrow> ipa_nati_add_ipv4_rule env tbl_hdl clnt_rule p w;
        Some (if ret \<noteq> 0 then - EINVAL else 0, hdl, clnt_rule, p, w)
      })"

definition ipa_nat_del_ipv4_rule ::
    "('w, 'm) sm_env_scheme \<Rightarrow> u32 \<Rightarrow> u32 \<Rightarrow> nat_prog \<Rightarrow> 'w \<Rightarrow> (int \<times> nat_prog \<times> 'w) option" where
  "ipa_nat_del_ipv4_rule env tbl_hdl rule_hdl p w =
     (if \<not> VALID_TBL_HDL tbl_hdl \<or> \<not> VALID_RULE_HDL rule_hdl then Some (- EINVAL, p, w)
      else ipa_nati_del_ipv4_rule env tbl_hdl rule_hdl p w)"

definition ipa_nat_query_timestamp ::
    "('w, 'm) sm_env_scheme \<Rightarrow> u32 \<Rightarrow> u32 \<Rightarrow> nat_prog \<Rightarrow> 'w \<Rightarrow> (int \<times> u32 option \<times> nat_prog \<times> 'w) option" where
  "ipa_nat_query_timestamp env tbl_hdl rule_hdl p w =
     (if \<not> VALID_TBL_HDL tbl_hdl \<or> \<not> VALID_RULE_HDL rule_hdl then Some (- EINVAL, None, p, w)
      else ipa_nati_query_timestamp env tbl_hdl rule_hdl p w)"

text \<open>The check admits the index \<open>IPA_MAX_PDN_NUM\<close>, one past the last entry.\<close>

definition ipa_nat_modify_pdn ::
    "('w, 'm) ipa_env_scheme \<Rightarrow> u32 \<Rightarrow> u8 \<Rightarrow> ipa_nat_pdn_entry \<Rightarrow> nat_prog \<Rightarrow> 'w \<Rightarrow> (int \<times> nat_prog \<times> 'w) option" where
  "ipa_nat_modify_pdn env tbl_hdl pdn_index pdn_inf p w =
     (if \<not> VALID_TBL_HDL tbl_hdl then Some (- EINVAL, p, w)
      else if IPA_MAX_PDN_NUM < unat pdn_index then Some (- EINVAL, p, w)
      else do {
        (ret, g, w) \<leftarrow> ipa_nati_modify_pdn env (nat_g p)
          \<lparr>pe_pdn_index = pdn_index, pe_public_ip = p_public_ip pdn_inf,
           pe_src_metadata = p_src_metadata pdn_inf, pe_dst_metadata = p_dst_metadata pdn_inf\<rparr> w;
        Some (ret, p\<lparr>nat_g := g\<rparr>, w)
      })"

definition ipa_nat_get_pdn_index :: "u32 \<Rightarrow> nat_prog \<Rightarrow> int \<times> u8 option" where
  "ipa_nat_get_pdn_index public_ip p = ipa_nati_get_pdn_index (nat_g p) public_ip"

definition ipa_nat_alloc_pdn ::
    "('w, 'm) ipa_env_scheme \<Rightarrow> ipa_nat_pdn_entry \<Rightarrow> nat_prog \<Rightarrow> 'w \<Rightarrow> (int \<times> u8 option \<times> nat_prog \<times> 'w) option" where
  "ipa_nat_alloc_pdn env pdn_inf p w =
     do {
       (ret, g, idx, w) \<leftarrow> ipa_nati_alloc_pdn env (nat_g p) pdn_inf w;
       Some (ret, idx, p\<lparr>nat_g := g\<rparr>, w)
     }"

definition ipa_nat_get_pdn_count :: "nat_prog \<Rightarrow> int \<times> u8" where
  "ipa_nat_get_pdn_count p = (0, of_int (ipa_nati_get_pdn_cnt (nat_g p)))"

definition ipa_nat_dealloc_pdn ::
    "('w, 'm) ipa_env_scheme \<Rightarrow> u8 \<Rightarrow> nat_prog \<Rightarrow> 'w \<Rightarrow> (int \<times> nat_prog \<times> 'w) option" where
  "ipa_nat_dealloc_pdn env pdn_index p w =
     (if IPA_MAX_PDN_NUM < unat pdn_index then Some (- EINVAL, p, w)
      else do {
        (ret, g, w) \<leftarrow> ipa_nati_dealloc_pdn env (nat_g p) pdn_index w;
        Some (ret, p\<lparr>nat_g := g\<rparr>, w)
      })"

end
