(* ===== verification/Nat_Machine.thy ===== *)
theory Nat_Machine
  imports Nat_Drv Nat_Client
begin

unbundle bit_operations_syntax

section \<open>Properties of the state machine\<close>

text \<open>
  General facts about the state machine: how deep its calls nest, what its return code tells, and what the
  operations do in the state in which only a table in DDR is used.
\<close>

subsection \<open>The depth of the recursion\<close>

lemmas sm_callback_defs = smUndef_def smDelTbl_def smFirstTbl_def smAddDdrTbl_def smAddSramTbl_def smAddSramAndDdrTbl_def
  smDelSramAndDdrTbl_def smClrTbl_def smClrTblHybrid_def smWalkTbl_def smWalkTblHybrid_def smStatTbl_def smStatTblHybrid_def
  smAddRuleToTbl_def smDelRuleFromTbl_def smAddRuleHybrid_def smDelRuleHybrid_def smGoToDdr_def smGoToSram_def
  smSwitchFromDdrToSram_def smSwitchFromSramToDdr_def smGetTmStmp_def smGetTmStmpHybrid_def

text \<open>Which callbacks use the machine, and with which triggers.\<close>

lemma goto_direct:
  assumes "t = NATI_TRIG_GOTO_DDR \<or> t = NATI_TRIG_GOTO_SRAM"
  shows "state_mach_tbl env sm s t = state_mach_tbl env sm' s t"
  using assms by (intro ext) (auto simp: state_mach_tbl_def smUndef_def smGoToDdr_def smGoToSram_def split: ipa_nati_state.splits)

lemma switch_uses_goto:
  assumes "\<And>t p w. t = NATI_TRIG_GOTO_DDR \<or> t = NATI_TRIG_GOTO_SRAM \<Longrightarrow> sm t No_Args p w = sm' t No_Args p w"
  shows "state_mach_tbl env sm s NATI_TRIG_TBL_SWITCH = state_mach_tbl env sm' s NATI_TRIG_TBL_SWITCH"
  using assms by (intro ext)
    (simp add: state_mach_tbl_def smUndef_def smSwitchFromDdrToSram_def smSwitchFromSramToDdr_def split: ipa_nati_state.splits)

lemma take_mutex_obj:
  assumes "take_mutex env p w = (ret, p', w')" shows "nati_obj p' = nati_obj p" and "nat_g p' = nat_g p" and "map_array p' = map_array p"
  using assms by (auto simp: take_mutex_def mutex_init_def Let_def split: prod.splits if_splits)

lemma vote_clock_obj:
  assumes "ipa_nat_vote_clock env v p w = Some (ret, p', w')"
  shows "nati_obj p' = nati_obj p" and "map_array p' = map_array p" and "nat_mutex_init p' = nat_mutex_init p"
  using assms by (auto simp: ipa_nat_vote_clock_def split: bind_splits)

text \<open>The body depends on the callback of the current state and the trigger.\<close>

lemma body_cong:
  assumes "\<And>q w'. nati_obj q = nati_obj p \<Longrightarrow>
    state_mach_tbl env sm (curr_state (nati_obj p)) t t a q w' = state_mach_tbl env sm' (curr_state (nati_obj p)) t t a q w'"
  shows "statemach_body env sm t a p w = statemach_body env sm' t a p w"
proof -
  obtain ret p1 w1 where t: "take_mutex env p w = (ret, p1, w1)" by (metis surj_pair)
  note o1 = take_mutex_obj(1) [OF t]
  show ?thesis
  proof (cases "if VOTE_REQUIRED t p1 then ipa_nat_vote_clock env IPA_APP_CLK_VOTE p1 w1 else Some (0, p1, w1)")
    case None
    then show ?thesis by (simp add: statemach_body_def t Let_def)
  next
    case (Some v)
    obtain voted p2 w2 where v: "v = (voted, p2, w2)" by (metis surj_pair)
    have "nati_obj p2 = nati_obj p" using Some v o1 by (auto split: if_splits dest: vote_clock_obj(1))
    then show ?thesis using assms by (simp add: statemach_body_def t Let_def Some v)
  qed
qed

lemma machine_goto:
  assumes "t = NATI_TRIG_GOTO_DDR \<or> t = NATI_TRIG_GOTO_SRAM"
  shows "statemach_n (Suc n) env t a p w = statemach_n (Suc m) env t a p w"
  unfolding statemach_n.simps by (rule body_cong, subst goto_direct [OF assms]) (rule refl)

lemma machine_switch:
  "statemach_n (Suc (Suc n)) env NATI_TRIG_TBL_SWITCH a p w = statemach_n (Suc (Suc m)) env NATI_TRIG_TBL_SWITCH a p w"
proof -
  have "state_mach_tbl env (statemach_n (Suc n) env) s NATI_TRIG_TBL_SWITCH t a q w' =
      state_mach_tbl env (statemach_n (Suc m) env) s NATI_TRIG_TBL_SWITCH t a q w'" for s t q w'
    by (subst switch_uses_goto [of "statemach_n (Suc n) env" "statemach_n (Suc m) env"]) (rule machine_goto, simp_all)
  then show ?thesis unfolding statemach_n.simps(2) [of "Suc n"] statemach_n.simps(2) [of "Suc m"]
    by (intro body_cong)
qed

lemma machine_add_table:
  assumes "curr_state (nati_obj p) \<noteq> NATI_STATE_NULL"
  shows "statemach_n (Suc (Suc n)) env NATI_TRIG_ADD_TABLE a p w = statemach_n (Suc (Suc m)) env NATI_TRIG_ADD_TABLE a p w"
  unfolding statemach_n.simps(2) [of "Suc n"] statemach_n.simps(2) [of "Suc m"]
proof (rule body_cong)
  fix q w'
  have g: "statemach_n (Suc n) env NATI_TRIG_GOTO_SRAM No_Args q w' = statemach_n (Suc m) env NATI_TRIG_GOTO_SRAM No_Args q w'" for q w'
    by (rule machine_goto) simp
  show "state_mach_tbl env (statemach_n (Suc n) env) (curr_state (nati_obj p)) NATI_TRIG_ADD_TABLE NATI_TRIG_ADD_TABLE a q w' =
      state_mach_tbl env (statemach_n (Suc m) env) (curr_state (nati_obj p)) NATI_TRIG_ADD_TABLE NATI_TRIG_ADD_TABLE a q w'"
    using assms unfolding state_mach_tbl_def smAddSramAndDdrTbl_def smAddSramTbl_def smAddDdrTbl_def smUndef_def g
    by (cases "curr_state (nati_obj p)") simp_all
qed

lemma mem_type_not_null [simp]: "mem_type_str_to_ipa_nati_state str \<noteq> NATI_STATE_NULL"
  by (simp add: mem_type_str_to_ipa_nati_state_def split: option.splits)

lemma set_state_curr [simp]: "curr_state (nati_obj (SET_NATIOBJ_STATE s p)) = s"
  by (simp add: SET_NATIOBJ_STATE_def on_obj_def)

lemma machine_first_table:
  "statemach_n (Suc (Suc (Suc n))) env NATI_TRIG_ADD_TABLE a p w = statemach_n (Suc (Suc (Suc m))) env NATI_TRIG_ADD_TABLE a p w"
proof (cases "curr_state (nati_obj p) = NATI_STATE_NULL")
  case True
  show ?thesis unfolding statemach_n.simps(2) [of "Suc (Suc n)"] statemach_n.simps(2) [of "Suc (Suc m)"]
  proof (rule body_cong)
    fix q w'
    show "state_mach_tbl env (statemach_n (Suc (Suc n)) env) (curr_state (nati_obj p)) NATI_TRIG_ADD_TABLE NATI_TRIG_ADD_TABLE a q w' =
      state_mach_tbl env (statemach_n (Suc (Suc m)) env) (curr_state (nati_obj p)) NATI_TRIG_ADD_TABLE NATI_TRIG_ADD_TABLE a q w'"
      unfolding True by (cases a) (simp_all add: state_mach_tbl_def smFirstTbl_def machine_add_table [of _ n env _ _ m] del: statemach_n.simps)
  qed
qed (rule machine_add_table)

lemma add_rule_curr:
  assumes "smAddRuleToTbl env sm t a p w = Some (ret, out, p', w')"
  shows "curr_state (nati_obj p') = curr_state (nati_obj p)"
  using assms by (auto simp: smAddRuleToTbl_def on_cnt_def on_obj_def Let_def split: sm_args.splits bind_splits if_splits)

lemma machine_add_rule:
  "statemach_n (Suc (Suc (Suc n))) env NATI_TRIG_ADD_RULE a p w = statemach_n (Suc (Suc (Suc m))) env NATI_TRIG_ADD_RULE a p w"
proof -
  have plain: "state_mach_tbl env sm s NATI_TRIG_ADD_RULE t a q w' = state_mach_tbl env sm' s NATI_TRIG_ADD_RULE t a q w'"
    if "curr_state (nati_obj q) = s" and "s \<noteq> NATI_STATE_HYBRID" for sm sm' s a q w' t
  proof -
    have ind: "smAddRuleToTbl env sm t a q w' = smAddRuleToTbl env sm' t a q w'" for t a q w' by (simp add: smAddRuleToTbl_def)
    have hyb: "smAddRuleHybrid env sm t a q w' = smAddRuleHybrid env sm' t a q w'"
    proof (cases a)
      case (Add_Rule_Args h u)
      show ?thesis
      proof (cases "smAddRuleToTbl env sm' t (Add_Rule_Args (hybrid_hdl q h) u) q w'")
        case (Some x)
        obtain ret out q' w2 where x: "x = (ret, out, q', w2)" by (metis surj_pair)
        then have "curr_state (nati_obj q') \<noteq> NATI_STATE_HYBRID" using add_rule_curr [OF Some [unfolded x]] that by simp
        then show ?thesis using Some x by (simp add: smAddRuleHybrid_def Add_Rule_Args ind)
      qed (simp add: smAddRuleHybrid_def Add_Rule_Args ind)
    qed (simp_all add: smAddRuleHybrid_def)
    show ?thesis using that(2) ind hyb by (cases s) (simp_all add: state_mach_tbl_def smUndef_def)
  qed
  have down: "statemach_n (Suc (Suc n)) env NATI_TRIG_ADD_RULE a q w' = statemach_n (Suc (Suc m)) env NATI_TRIG_ADD_RULE a q w'"
    if "curr_state (nati_obj q) \<noteq> NATI_STATE_HYBRID" for a q w'
    unfolding statemach_n.simps(2) [of "Suc n"] statemach_n.simps(2) [of "Suc m"]
    by (rule body_cong, rule plain) (use that in simp_all)
  show ?thesis
    unfolding statemach_n.simps(2) [of "Suc (Suc n)"] statemach_n.simps(2) [of "Suc (Suc m)"]
  proof (rule body_cong)
    fix q :: nat_prog and w' assume q: "nati_obj q = nati_obj p"
    show "state_mach_tbl env (statemach_n (Suc (Suc n)) env) (curr_state (nati_obj p)) NATI_TRIG_ADD_RULE NATI_TRIG_ADD_RULE a q w' =
      state_mach_tbl env (statemach_n (Suc (Suc m)) env) (curr_state (nati_obj p)) NATI_TRIG_ADD_RULE NATI_TRIG_ADD_RULE a q w'"
    proof (cases "curr_state (nati_obj p) = NATI_STATE_HYBRID")
      case True
      have ind: "smAddRuleToTbl env sm t a q w' = smAddRuleToTbl env sm' t a q w'" for sm sm' t a q w' by (simp add: smAddRuleToTbl_def)
      have sw: "statemach_n (Suc (Suc n)) env NATI_TRIG_TBL_SWITCH a p w = statemach_n (Suc (Suc m)) env NATI_TRIG_TBL_SWITCH a p w" for a p w
        by (rule machine_switch)
      have dn: "statemach_n (Suc (Suc n)) env NATI_TRIG_ADD_RULE a (SET_NATIOBJ_STATE NATI_STATE_HYBRID_DDR q) w' =
          statemach_n (Suc (Suc m)) env NATI_TRIG_ADD_RULE a (SET_NATIOBJ_STATE NATI_STATE_HYBRID_DDR q) w'" for a q w'
        by (rule down) simp
      show ?thesis unfolding True
        by (simp del: statemach_n.simps add: state_mach_tbl_def, unfold smAddRuleHybrid_def sw dn ind [of "statemach_n (Suc (Suc n)) env" _ _ _ _ "statemach_n (Suc (Suc m)) env"]) (rule refl)
    next
      case False
      then show ?thesis by (intro plain) (use q in simp_all)
    qed
  qed
qed


lemma machine_del_rule:
  "statemach_n (Suc (Suc (Suc n))) env NATI_TRIG_DEL_RULE a p w = statemach_n (Suc (Suc (Suc m))) env NATI_TRIG_DEL_RULE a p w"
proof -
  let ?n = "statemach_n (Suc (Suc n)) env" and ?m = "statemach_n (Suc (Suc m)) env"
  have ind: "smDelRuleFromTbl env ?n t a q w' = smDelRuleFromTbl env ?m t a q w'" for t a q w' by (simp add: smDelRuleFromTbl_def)
  have sw: "?n NATI_TRIG_TBL_SWITCH a p w = ?m NATI_TRIG_TBL_SWITCH a p w" for a p w by (rule machine_switch)
  have hyb: "smDelRuleHybrid env ?n t a q w' = smDelRuleHybrid env ?m t a q w'" for t q w'
    unfolding smDelRuleHybrid_def ind sw ..
  have "state_mach_tbl env ?n s NATI_TRIG_DEL_RULE t a q w' = state_mach_tbl env ?m s NATI_TRIG_DEL_RULE t a q w'" for s t q w'
    using ind hyb by (cases s) (simp_all add: state_mach_tbl_def smUndef_def del: statemach_n.simps)
  then show ?thesis unfolding statemach_n.simps(2) [of "Suc (Suc n)"] statemach_n.simps(2) [of "Suc (Suc m)"]
    by (intro body_cong)
qed

lemma machine_other:
  assumes "t \<notin> {NATI_TRIG_ADD_TABLE, NATI_TRIG_ADD_RULE, NATI_TRIG_DEL_RULE, NATI_TRIG_TBL_SWITCH}"
  shows "statemach_n (Suc n) env t a p w = statemach_n (Suc m) env t a p w"
  unfolding statemach_n.simps
proof (rule body_cong)
  fix q w'
  show "state_mach_tbl env (statemach_n n env) (curr_state (nati_obj p)) t t a q w' =
      state_mach_tbl env (statemach_n m env) (curr_state (nati_obj p)) t t a q w'"
    using assms by (cases "curr_state (nati_obj p)"; cases t)
      (simp_all add: state_mach_tbl_def del: statemach_n.simps, unfold sm_callback_defs, (rule refl)+)
qed

lemma machine_depth: "statemach_n (Suc (Suc (Suc n))) env t a p w = ipa_nati_statemach env t a p w"
proof -
  have e: "ipa_nati_statemach env t a p w = statemach_n (Suc (Suc (Suc 0))) env t a p w"
    by (simp add: ipa_nati_statemach_def numeral_3_eq_3 del: statemach_n.simps)
  show ?thesis unfolding e
    by (cases "t = NATI_TRIG_ADD_TABLE \<or> t = NATI_TRIG_ADD_RULE \<or> t = NATI_TRIG_DEL_RULE \<or> t = NATI_TRIG_TBL_SWITCH")
      (metis machine_first_table machine_add_rule machine_del_rule machine_switch, rule machine_other, simp)
qed

subsection \<open>The return code\<close>

text \<open>Initialising, locking and unlocking \<open>nat_mutex\<close> always succeed.\<close>

definition sm_mutex_works :: "('w, 'm) sm_env_scheme \<Rightarrow> bool" where
  "sm_mutex_works env \<longleftrightarrow> mutex_works env \<and>
     (\<forall>w. fst (pthread_mutexattr_init env w) = 0 \<and> fst (pthread_mutexattr_settype env w) = 0 \<and> fst (pthread_mutex_init env w) = 0)"

lemma on_obj_frame [simp]:
  "nat_mutex_init (on_obj f p) = nat_mutex_init p" "map_array (on_obj f p) = map_array p" "nat_g (on_obj f p) = nat_g p"
  "nati_obj (on_obj f p) = f (nati_obj p)"
  by (simp_all add: on_obj_def)

lemma set_state_frame [simp]:
  "nat_mutex_init (SET_NATIOBJ_STATE s p) = nat_mutex_init p" "map_array (SET_NATIOBJ_STATE s p) = map_array p"
  "nat_g (SET_NATIOBJ_STATE s p) = nat_g p"
  "nati_obj (SET_NATIOBJ_STATE s p) = (nati_obj p)\<lparr>prev_state := curr_state (nati_obj p), curr_state := s\<rparr>"
  by (simp_all add: SET_NATIOBJ_STATE_def)

lemma on_cnt_frame [simp]:
  "nat_mutex_init (on_cnt s f p) = nat_mutex_init p" "map_array (on_cnt s f p) = map_array p" "nat_g (on_cnt s f p) = nat_g p"
  "nati_obj (on_cnt s f p) = (nati_obj p)\<lparr>tot_rules_in_table := (tot_rules_in_table (nati_obj p))(s := f (tot_rules_in_table (nati_obj p) s))\<rparr>"
  by (simp_all add: on_cnt_def)

lemma on_stats_frame [simp]:
  "nat_mutex_init (on_stats s f p) = nat_mutex_init p" "map_array (on_stats s f p) = map_array p" "nat_g (on_stats s f p) = nat_g p"
  "nati_obj (on_stats s f p) = (nati_obj p)\<lparr>sw_stats := (sw_stats (nati_obj p))(s := f (sw_stats (nati_obj p) s))\<rparr>"
  by (simp_all add: on_stats_def)

lemma back_unstarted_frame [simp]:
  "nat_mutex_init (BACK2_UNSTARTED_STATE p) = nat_mutex_init p" "map_array (BACK2_UNSTARTED_STATE p) = map_array p"
  "nat_g (BACK2_UNSTARTED_STATE p) = nat_g p"
  by (simp_all add: BACK2_UNSTARTED_STATE_def)

lemma clear_maps_frame:
  assumes "clear_maps s p = Some p'" shows "nat_mutex_init p' = nat_mutex_init p" and "nati_obj p' = nati_obj p" and "nat_g p' = nat_g p"
  using assms by (auto simp: clear_maps_def Let_def split: bind_splits)

definition keeps_init :: "('w, 'a) sm_fun \<Rightarrow> bool" where
  "keeps_init sm \<longleftrightarrow> (\<forall>t a p w ret out p' w'. sm t a p w = Some (ret, out, p', w') \<longrightarrow> nat_mutex_init p \<longrightarrow> nat_mutex_init p')"

lemma keeps_initD: "keeps_init sm \<Longrightarrow> sm t a p w = Some (ret, out, p', w') \<Longrightarrow> nat_mutex_init p \<Longrightarrow> nat_mutex_init p'"
  unfolding keeps_init_def by blast

lemma simple_callbacks_keep_init:
  "keeps_init (smUndef env sm)" "keeps_init (smDelTbl env sm)" "keeps_init (smAddDdrTbl env sm)" "keeps_init (smAddSramTbl env sm)"
  "keeps_init (smClrTbl env sm)" "keeps_init (smWalkTbl env sm)" "keeps_init (smStatTbl env sm)" "keeps_init (smAddRuleToTbl env sm)"
  "keeps_init (smDelRuleFromTbl env sm)" "keeps_init (smGoToDdr env sm)" "keeps_init (smGoToSram env sm)" "keeps_init (smGetTmStmp env sm)"
  unfolding keeps_init_def
  by (auto simp: smUndef_def smDelTbl_def smAddDdrTbl_def smAddSramTbl_def smClrTbl_def smWalkTbl_def smStatTbl_def smAddRuleToTbl_def
      smDelRuleFromTbl_def smGoToDdr_def smGoToSram_def smGetTmStmp_def Let_def
      split: sm_args.splits bind_splits if_splits prod.splits dest!: vote_clock_obj(3) clear_maps_frame(1))

lemma hybrid_callbacks_keep_init:
  assumes sm: "keeps_init sm"
  shows "keeps_init (smFirstTbl env sm)" "keeps_init (smAddSramAndDdrTbl env sm)" "keeps_init (smDelSramAndDdrTbl env sm)"
    "keeps_init (smClrTblHybrid env sm)" "keeps_init (smWalkTblHybrid env sm)" "keeps_init (smStatTblHybrid env sm)"
    "keeps_init (smAddRuleHybrid env sm)" "keeps_init (smDelRuleHybrid env sm)" "keeps_init (smSwitchFromDdrToSram env sm)"
    "keeps_init (smSwitchFromSramToDdr env sm)" "keeps_init (smGetTmStmpHybrid env sm)"
proof -
  note k = keeps_initD [OF sm] keeps_initD [OF simple_callbacks_keep_init(2)] keeps_initD [OF simple_callbacks_keep_init(3)]
    keeps_initD [OF simple_callbacks_keep_init(4)] keeps_initD [OF simple_callbacks_keep_init(5)] keeps_initD [OF simple_callbacks_keep_init(6)]
    keeps_initD [OF simple_callbacks_keep_init(7)] keeps_initD [OF simple_callbacks_keep_init(8)] keeps_initD [OF simple_callbacks_keep_init(9)]
    keeps_initD [OF simple_callbacks_keep_init(12)]
    keeps_initD [OF sm, of _ _ "SET_NATIOBJ_STATE _ _", simplified set_state_frame(1)]
  show "keeps_init (smFirstTbl env sm)" "keeps_init (smClrTblHybrid env sm)" "keeps_init (smWalkTblHybrid env sm)"
    "keeps_init (smStatTblHybrid env sm)" "keeps_init (smGetTmStmpHybrid env sm)"
    unfolding keeps_init_def smFirstTbl_def smClrTblHybrid_def smWalkTblHybrid_def smStatTblHybrid_def smGetTmStmpHybrid_def
    by (auto simp: Let_def split: sm_args.splits bind_splits if_splits prod.splits dest!: k)
  show "keeps_init (smAddSramAndDdrTbl env sm)" "keeps_init (smDelSramAndDdrTbl env sm)"
    unfolding keeps_init_def smAddSramAndDdrTbl_def smDelSramAndDdrTbl_def
    by (auto simp: Let_def split: sm_args.splits bind_splits if_splits prod.splits dest!: clear_maps_frame(1) k)
  show "keeps_init (smAddRuleHybrid env sm)" "keeps_init (smDelRuleHybrid env sm)"
    unfolding keeps_init_def smAddRuleHybrid_def smDelRuleHybrid_def
    by (auto simp: Let_def split: sm_args.splits bind_splits if_splits prod.splits dest!: k)
  show "keeps_init (smSwitchFromDdrToSram env sm)" "keeps_init (smSwitchFromSramToDdr env sm)"
    unfolding keeps_init_def smSwitchFromDdrToSram_def smSwitchFromSramToDdr_def
    by (auto simp: Let_def Option.bind_eq_Some_conv split_def split: if_splits dest!: clear_maps_frame(1) k)
qed

lemma table_keeps_init: "keeps_init sm \<Longrightarrow> keeps_init (state_mach_tbl env sm s t)"
  by (cases s; cases t) (simp_all add: state_mach_tbl_def simple_callbacks_keep_init hybrid_callbacks_keep_init)

lemma take_mutex_ok:
  assumes "sm_mutex_works env"
  obtains p' w' where "take_mutex env p w = (0, p', w')" and "nat_mutex_init p'" and "nati_obj p' = nati_obj p" and "nat_g p' = nat_g p"
    and "map_array p' = map_array p"
proof -
  obtain ret p' w' where t: "take_mutex env p w = (ret, p', w')" by (metis surj_pair)
  have "ret = 0 \<and> nat_mutex_init p'" using assms t
    by (auto simp: take_mutex_def mutex_init_def sm_mutex_works_def mutex_works_def Let_def split: prod.splits if_splits) (metis fst_conv)+
  then show thesis using that t take_mutex_obj [OF t] by blast
qed

lemma body_keeps_init: "keeps_init sm \<Longrightarrow> keeps_init (statemach_body env sm)"
  unfolding keeps_init_def [of "statemach_body env sm"]
  by (auto simp: statemach_body_def Let_def take_mutex_def mutex_init_def split: prod.splits if_splits bind_splits
      dest!: vote_clock_obj(3) dest: keeps_initD [OF table_keeps_init])

lemma machine_keeps_init: "keeps_init (statemach_n n env)"
proof (induction n)
  case (Suc n)
  have "statemach_n (Suc n) env = statemach_body env (statemach_n n env)" by (intro ext) simp
  then show ?case using body_keeps_init [OF Suc.IH] by simp
qed (simp add: keeps_init_def)

lemma statemach_ret:
  assumes m: "sm_mutex_works env" and r: "ipa_nati_statemach env t a p w = Some (ret, out, p', w')"
  shows "ret = 0"
proof -
  let ?sm = "statemach_n (Suc (Suc 0)) env"
  obtain p1 w1 where t: "take_mutex env p w = (0, p1, w1)" "nat_mutex_init p1" using take_mutex_ok [OF m] by metis
  have b: "statemach_body env ?sm t a p w = Some (ret, out, p', w')"
    using r by (simp add: ipa_nati_statemach_def numeral_3_eq_3)
  have u: "fst (pthread_mutex_unlock env w) = 0" for w using m by (simp add: sm_mutex_works_def mutex_works_def)
  note k = keeps_initD [OF table_keeps_init [OF machine_keeps_init]]
  show ?thesis using b t u
    by (auto simp: statemach_body_def Let_def give_mutex_def split: prod.splits if_splits bind_splits
        dest!: vote_clock_obj(3) dest: k) (metis fst_conv k)+
qed

subsection \<open>Running a trigger\<close>

text \<open>Clock votes succeed; the driver is open for SRAM, so that a vote changes nothing in the program's state.\<close>

definition votes_work :: "('w, 'm) ipa_env_scheme \<Rightarrow> bool" where
  "votes_work env \<longleftrightarrow> (\<forall>f v w. fst (ioctl_clock_vote env f v w) = 0)"

definition sram_open :: "nat_prog \<Rightarrow> bool" where
  "sram_open p \<longleftrightarrow> length (ipv4_nat_cache (nat_g p)) = 2 \<and> ipa_desc (the_cache (nat_g p) IPA_NAT_MEM_IN_SRAM) \<noteq> None"

lemma vote_same:
  assumes "votes_work env" and "sram_open p"
  shows "\<exists>w'. ipa_nat_vote_clock env v p w = Some (0, p, w')"
proof -
  obtain d where d: "ipa_desc (the_cache (nat_g p) IPA_NAT_MEM_IN_SRAM) = Some d" using assms(2) by (auto simp: sram_open_def)
  obtain w' where "ioctl_clock_vote env (fd d) v w = (0, w')" using assms(1) by (metis votes_work_def prod.collapse)
  then show ?thesis using d assms(2)
    by (simp add: ipa_nat_vote_clock_def ipa_nati_vote_clock_def ensure_sram_desc_def get_cache_def sram_open_def cache_idx_def)
qed

text \<open>The same variables, with the mutex initialised.\<close>

definition same_vars :: "nat_prog \<Rightarrow> nat_prog \<Rightarrow> bool" where
  "same_vars p q \<longleftrightarrow> nati_obj q = nati_obj p \<and> nat_g q = nat_g p \<and> map_array q = map_array p \<and> nat_mutex_init q"

lemma run_machine_n:
  assumes m: "sm_mutex_works env"
    and cb: "\<And>q w1. same_vars p q \<Longrightarrow>
      \<exists>ret out p' w'. state_mach_tbl env (statemach_n n env) (curr_state (nati_obj p)) t t a q w1 = Some (ret, out, p', w') \<and> Q out p'"
    and v: "VOTE_REQUIRED t p \<Longrightarrow> votes_work env \<and> sram_open p \<and> (\<forall>out p'. Q out p' \<longrightarrow> sram_open p')"
  shows "\<exists>out p' w'. statemach_n (Suc n) env t a p w = Some (0, out, p', w') \<and> Q out p'"
proof -
  obtain q w1 where t: "take_mutex env p w = (0, q, w1)" "same_vars p q"
    by (rule take_mutex_ok [OF m, of p w]) (simp add: same_vars_def)
  have vq: "VOTE_REQUIRED t q = VOTE_REQUIRED t p" "sram_open q = sram_open p" "curr_state (nati_obj q) = curr_state (nati_obj p)"
    using t(2) by (simp_all add: same_vars_def VOTE_REQUIRED_def SRAM_TO_BE_ACCESSED_def SRAM_CURRENTLY_ACTIVE_def sram_open_def)
  obtain w2 where v1: "(if VOTE_REQUIRED t q then ipa_nat_vote_clock env IPA_APP_CLK_VOTE q w1 else Some (0, q, w1)) = Some (0, q, w2)"
    using v vq vote_same [of env q IPA_APP_CLK_VOTE w1] by (cases "VOTE_REQUIRED t p") auto
  obtain ret out p' w3 where c: "state_mach_tbl env (statemach_n n env) (curr_state (nati_obj p)) t t a q w2 = Some (ret, out, p', w3)"
    and Q: "Q out p'" using cb [OF t(2)] by blast
  obtain r2 w4 where v2: "(if VOTE_REQUIRED t q then ipa_nat_vote_clock env IPA_APP_CLK_DEVOTE p' w3 else Some (0, p', w3)) = Some (r2, p', w4)"
    using v vq Q vote_same [of env p' IPA_APP_CLK_DEVOTE w3] by (cases "VOTE_REQUIRED t p") (simp, blast, simp)
  have i: "nat_mutex_init p'" by (rule keeps_initD [OF table_keeps_init [OF machine_keeps_init] c]) (use t(2) in \<open>simp add: same_vars_def\<close>)
  obtain w5 where u: "pthread_mutex_unlock env w4 = (0, w5)" using m mutex_works_unlock by (metis sm_mutex_works_def)
  have "statemach_n (Suc n) env t a p w = Some (0, out, p', w5)"
    using t(1) v1 c v2 i u by (simp add: statemach_body_def vq(3) give_mutex_def Let_def)
  then show ?thesis using Q by blast
qed

lemma run_machine:
  assumes "sm_mutex_works env"
    and "\<And>q w1. same_vars p q \<Longrightarrow>
      \<exists>ret out p' w'. state_mach_tbl env (statemach_n 2 env) (curr_state (nati_obj p)) t t a q w1 = Some (ret, out, p', w') \<and> Q out p'"
    and "VOTE_REQUIRED t p \<Longrightarrow> votes_work env \<and> sram_open p \<and> (\<forall>out p'. Q out p' \<longrightarrow> sram_open p')"
  shows "\<exists>out p' w'. ipa_nati_statemach env t a p w = Some (0, out, p', w') \<and> Q out p'"
  using run_machine_n [OF assms] by (simp add: ipa_nati_statemach_def eval_nat_numeral)

subsection \<open>Rules in DDR only\<close>

text \<open>The machine uses one table, in DDR, which holds the rules \<open>s\<close>; the counter of rules is exact.\<close>

definition ddr_machine :: "nat_prog \<Rightarrow> nat_spec \<Rightarrow> bool" where
  "ddr_machine p s \<longleftrightarrow> curr_state (nati_obj p) = NATI_STATE_DDR_ONLY \<and> nat_ready (nat_g p) IPA_NAT_MEM_IN_DDR s \<and>
     tot_rules_in_table (nati_obj p) DDR_SUB = of_nat (card (dom (sp_rules s)))"

lemma ready_finite: "nat_ready g n s \<Longrightarrow> finite (dom (sp_rules s))"
  by (rule finite_subset [of _ "{..<tot_n (nt_table (the_nt g n))}"]) (auto dest: ready_dom_lt)

lemma card_spec_add: "nat_ready g n s \<Longrightarrow> sp_rules s i = None \<Longrightarrow> card (dom (sp_rules (spec_add i b c v s))) = Suc (card (dom (sp_rules s)))"
  using ready_finite [of g n s] by (simp add: spec_add_def card_insert_disjoint domIff)

lemma card_spec_del: "nat_ready g n s \<Longrightarrow> sp_rules s i = Some v \<Longrightarrow> Suc (card (dom (sp_rules (spec_del i s)))) = card (dom (sp_rules s))"
  using ready_finite [of g n s] card_Suc_Diff1 [of "dom (sp_rules s)" i] by (auto simp: spec_del_def domIff)

lemma rule_hdl_nonzero:
  assumes "nat_ready g n s" and "i < tot_n (nt_table (the_nt g n))" and "0 < i"
  shows "rule_hdl_of (the_nt g n) i \<noteq> 0"
proof
  assume z: "rule_hdl_of (the_nt g n) i = 0"
  obtain cs xs where inv: "nat_inv (the_nt g n) cs xs" using assms(1) by (auto elim!: nat_readyD)
  note ok = tbl_repD(1) [OF nat_invD(2) [OF inv]]
  have u: "unat (of_nat i :: u16) = i" using ok assms(2) by simp
  have "BREAK_RULE_HDL (nt_table (the_nt g n)) 0 = (nmi (nt_table (the_nt g n)), table_entries (nt_table (the_nt g n)) \<le> of_nat i, of_nat i)"
    using make_break_hdl [OF tbl_okD(6,9) [OF ok], of "of_nat i"] assms(2) u z by (simp add: rule_hdl_of_def)
  then have "(of_nat i :: u16) = 0" by (auto simp: BREAK_RULE_HDL_def Let_def)
  then show False using u assms(3) by simp
qed

definition client_rule :: "ipa_nat_ipv4_rule \<Rightarrow> ipa_nat_ipv4_rule" where
  "client_rule u = u\<lparr>u_redirect := 0, u_enable := 0, u_time_stamp := 0\<rparr>"

lemma client_rule_simps [simp]:
  "u_protocol (client_rule u) = u_protocol u" "u_pdn_index (client_rule u) = u_pdn_index u"
  "rule_accepted g (client_rule u) = rule_accepted g u"
  by (simp_all add: client_rule_def rule_accepted_def)

lemma ddr_add_rule:
  assumes m: "sm_mutex_works env" and p: "ddr_machine p s" and df: "dma_faithful env (the_nt (nat_g p) IPA_NAT_MEM_IN_DDR)"
    and u: "rule_accepted (nat_g p) u"
  defines "g \<equiv> nat_g p" and "nt \<equiv> the_nt (nat_g p) IPA_NAT_MEM_IN_DDR" and "n \<equiv> IPA_NAT_MEM_IN_DDR" and "u' \<equiv> client_rule u"
  shows "\<exists>hdl p' w'. ipa_nat_add_ipv4_rule env (tbl_hdl_of n) u p w = Some (0, Some hdl, u', p', w') \<and>
     kept nt (the_nt (nat_g p') n) \<and> pdns (nat_g p') = pdns g \<and>
     (if hdl = 0 then ddr_machine p' s
      else \<exists>i. hdl = rule_hdl_of nt i \<and> sp_rules s i = None \<and>
             ddr_machine p' (spec_add i (nat_bucket g n u') (index_bucket g n u') (installed_rule (pdns g) u') s)) \<and>
     (has_room nt (nat_bucket g n u') (index_bucket g n u') \<and> dma_accepts env \<longrightarrow> hdl \<noteq> 0)"
proof -
  have r: "nat_ready g n s" and st: "curr_state (nati_obj p) = NATI_STATE_DDR_ONLY"
    and cnt: "tot_rules_in_table (nati_obj p) DDR_SUB = of_nat (card (dom (sp_rules s)))"
    using p by (simp_all add: ddr_machine_def g_def n_def)
  have mu: "mutex_works env" using m by (simp add: sm_mutex_works_def)
  have u': "rule_accepted g u'" using u by (simp add: u'_def g_def)
  have df': "dma_faithful env (the_nt g n)" using df by (simp add: g_def n_def)
  define Q where Q: "Q = (\<lambda>(out :: unit sm_out) p'. \<exists>hdl. o_rule_hdl out = Some hdl \<and> o_clnt_rule out = Some u' \<and>
     kept nt (the_nt (nat_g p') n) \<and> pdns (nat_g p') = pdns g \<and>
     (if hdl = 0 then ddr_machine p' s
      else \<exists>i. hdl = rule_hdl_of nt i \<and> sp_rules s i = None \<and>
             ddr_machine p' (spec_add i (nat_bucket g n u') (index_bucket g n u') (installed_rule (pdns g) u') s)) \<and>
     (has_room nt (nat_bucket g n u') (index_bucket g n u') \<and> dma_accepts env \<longrightarrow> hdl \<noteq> 0))"
  have cb: "\<exists>ret out p' w'. state_mach_tbl env (statemach_n 2 env) (curr_state (nati_obj p)) NATI_TRIG_ADD_RULE NATI_TRIG_ADD_RULE
      (Add_Rule_Args (tbl_hdl_of n) u) q w1 = Some (ret, out, p', w') \<and> Q out p'" if q: "same_vars p q" for q w1
  proof -
    obtain ret g' hdl w2 where a: "ipa_NATI_add_ipv4_rule env g (tbl_hdl_of n) u' w1 = Some (ret, g', Some hdl, w2)"
      and k: "kept (the_nt g n) (the_nt g' n)" "pdns g' = pdns g"
      and o: "if ret = 0 then \<exists>i < tot_n (nt_table (the_nt g n)). 0 < i \<and> sp_rules s i = None \<and> hdl = rule_hdl_of (the_nt g n) i \<and>
                   nat_ready g' n (spec_add i (nat_bucket g n u') (index_bucket g n u') (installed_rule (pdns g) u') s)
            else hdl = 0 \<and> nat_ready g' n s"
      and ok: "has_room (the_nt g n) (nat_bucket g n u') (index_bucket g n u') \<and> dma_accepts env \<longrightarrow> ret = 0"
      using add_rule_ready [OF r df' mu u', of w1] by blast
    have qs: "nat_g q = g" "nati_obj q = nati_obj p" using q by (simp_all add: same_vars_def g_def)
    have sub: "CHOOSE_MEM_SUB (q\<lparr>nat_g := g'\<rparr>) = DDR_SUB" using qs st by (simp add: CHOOSE_MEM_SUB_def)
    let ?p' = "if ret = 0 then on_cnt DDR_SUB (\<lambda>c. c + 1) (q\<lparr>nat_g := g'\<rparr>) else q\<lparr>nat_g := g'\<rparr>"
    have run: "state_mach_tbl env (statemach_n 2 env) (curr_state (nati_obj p)) NATI_TRIG_ADD_RULE NATI_TRIG_ADD_RULE
        (Add_Rule_Args (tbl_hdl_of n) u) q w1 = Some (ret, (no_out :: unit sm_out)\<lparr>o_rule_hdl := Some hdl, o_clnt_rule := Some u'\<rparr>, ?p', w2)"
      using a qs sub st by (simp add: state_mach_tbl_def smAddRuleToTbl_def u'_def client_rule_def Let_def)
    have "Q (no_out\<lparr>o_rule_hdl := Some hdl, o_clnt_rule := Some u'\<rparr>) ?p'"
    proof (cases "ret = 0")
      case True
      then obtain i where i: "i < tot_n (nt_table (the_nt g n))" "0 < i" "sp_rules s i = None" "hdl = rule_hdl_of (the_nt g n) i"
        "nat_ready g' n (spec_add i (nat_bucket g n u') (index_bucket g n u') (installed_rule (pdns g) u') s)" using o by auto
      have "ddr_machine ?p' (spec_add i (nat_bucket g n u') (index_bucket g n u') (installed_rule (pdns g) u') s)"
        using True i(5) card_spec_add [OF r i(3)] qs st cnt by (simp add: ddr_machine_def n_def)
      then show ?thesis using True i k rule_hdl_nonzero [OF r i(1,2)] by (auto simp: Q nt_def g_def n_def)
    next
      case False
      then show ?thesis using o k ok qs st cnt by (simp add: Q ddr_machine_def nt_def g_def n_def)
    qed
    then show ?thesis using run by blast
  qed
  have nv: "\<not> VOTE_REQUIRED NATI_TRIG_ADD_RULE p"
    using st by (simp add: VOTE_REQUIRED_def SRAM_TO_BE_ACCESSED_def SRAM_CURRENTLY_ACTIVE_def)
  obtain out p' w' where sm: "ipa_nati_statemach env NATI_TRIG_ADD_RULE (Add_Rule_Args (tbl_hdl_of n) u) p w = Some (0, out, p', w')" and Qp: "Q out p'"
    using run_machine [of env p NATI_TRIG_ADD_RULE "Add_Rule_Args (tbl_hdl_of n) u" Q w, OF m cb] nv by blast
  have hdl: "VALID_TBL_HDL (tbl_hdl_of n)" by (rule tbl_hdl_of_facts(2)) (simp add: n_def IPA_VALID_NAT_MEM_IN_def)
  show ?thesis using Qp unfolding Q ipa_nat_add_ipv4_rule_def ipa_nati_add_ipv4_rule_def sm by (elim exE) (simp add: hdl)
qed

lemma tbl_hdl_ddr [simp]: "VALID_TBL_HDL (tbl_hdl_of IPA_NAT_MEM_IN_DDR)"
  and tbl_hdl_sram [simp]: "VALID_TBL_HDL (tbl_hdl_of IPA_NAT_MEM_IN_SRAM)"
  by (rule tbl_hdl_of_facts(2), simp add: IPA_VALID_NAT_MEM_IN_def)+

lemma ddr_no_vote:
  assumes "ddr_machine p s" and "t \<noteq> NATI_TRIG_GOTO_SRAM" and "t \<noteq> NATI_TRIG_TBL_SWITCH"
  shows "\<not> VOTE_REQUIRED t p"
  using assms by (simp add: ddr_machine_def VOTE_REQUIRED_def SRAM_TO_BE_ACCESSED_def SRAM_CURRENTLY_ACTIVE_def)

lemma ddr_rule_hdl:
  assumes "ddr_machine p s" and "sp_rules s i = Some v"
  shows "VALID_RULE_HDL (rule_hdl_of (the_nt (nat_g p) IPA_NAT_MEM_IN_DDR) i)"
proof -
  let ?n = IPA_NAT_MEM_IN_DDR
  have r: "nat_ready (nat_g p) ?n s" using assms(1) by (simp add: ddr_machine_def)
  obtain cs xs where inv: "nat_inv (the_nt (nat_g p) ?n) cs xs" and s: "spec_of (the_nt (nat_g p) ?n) cs xs = s"
    using r by (auto elim!: nat_readyD)
  have il: "i \<in> live (recs (nt_table (the_nt (nat_g p) ?n))) cs" using spec_rules_live(1) assms(2) s by blast
  then obtain b where "i \<in> set (cs b)" by (auto simp: live_of_def members_def)
  then have "0 < i" by (rule tbl_rep_mem(2) [OF nat_invD(2) [OF inv]])
  then show ?thesis using rule_hdl_nonzero [OF r live_lt [OF inv il]] by (simp add: VALID_RULE_HDL_def)
qed

text \<open>A deletion returns \<open>0\<close> also when the kernel refuses it; the rule then stays, with its counter.\<close>

lemma ddr_del_rule:
  assumes m: "sm_mutex_works env" and p: "ddr_machine p s" and df: "dma_faithful env (the_nt (nat_g p) IPA_NAT_MEM_IN_DDR)"
    and i: "sp_rules s i = Some v"
  defines "n \<equiv> IPA_NAT_MEM_IN_DDR"
  shows "\<exists>p' w'. ipa_nat_del_ipv4_rule env (tbl_hdl_of n) (rule_hdl_of (the_nt (nat_g p) n) i) p w = Some (0, p', w') \<and>
     (kept (the_nt (nat_g p) n) (the_nt (nat_g p') n) \<and> pdns (nat_g p') = pdns (nat_g p) \<and> ddr_machine p' (spec_del i s) \<or>
      \<not> dma_accepts env \<and> nati_obj p' = nati_obj p \<and>
      nat_g p' = put_nt (nat_g p) n (del_aborted (the_nt (nat_g p) n) (to_indx (recs (nt_table (the_nt (nat_g p) n))) i)))"
proof -
  define h where "h = rule_hdl_of (the_nt (nat_g p) n) i"
  let ?ab = "put_nt (nat_g p) n (del_aborted (the_nt (nat_g p) n) (to_indx (recs (nt_table (the_nt (nat_g p) n))) i))"
  define Q where "Q = (\<lambda>(out :: unit sm_out) p'. kept (the_nt (nat_g p) n) (the_nt (nat_g p') n) \<and> pdns (nat_g p') = pdns (nat_g p) \<and>
     ddr_machine p' (spec_del i s) \<or> \<not> dma_accepts env \<and> nati_obj p' = nati_obj p \<and> nat_g p' = ?ab)"
  have r: "nat_ready (nat_g p) n s" and st: "curr_state (nati_obj p) = NATI_STATE_DDR_ONLY"
    and cnt: "tot_rules_in_table (nati_obj p) DDR_SUB = of_nat (card (dom (sp_rules s)))"
    using p by (simp_all add: ddr_machine_def n_def)
  have mu: "mutex_works env" using m by (simp add: sm_mutex_works_def)
  have cb: "\<exists>ret out p' w'. state_mach_tbl env (statemach_n 2 env) (curr_state (nati_obj p)) NATI_TRIG_DEL_RULE NATI_TRIG_DEL_RULE
      (Rule_Args (tbl_hdl_of n) h) q w1 = Some (ret, out, p', w') \<and> Q out p'" if q: "same_vars p q" for q w1
  proof -
    obtain ret g' w2 where d: "ipa_NATI_del_ipv4_rule env (nat_g p) (tbl_hdl_of n) h w1 = Some (ret, g', w2)"
      and k: "pdns g' = pdns (nat_g p)" and o: "if ret = 0 then kept (the_nt (nat_g p) n) (the_nt g' n) \<and> nat_ready g' n (spec_del i s)
        else ret = - EIO \<and> \<not> dma_accepts env \<and> g' = ?ab"
      using del_rule_ready [OF r df [folded n_def] mu i, of w1] unfolding h_def by blast
    have qs: "nat_g q = nat_g p" "nati_obj q = nati_obj p" using q by (simp_all add: same_vars_def)
    let ?p' = "if ret = 0 then on_cnt DDR_SUB (\<lambda>c. c - 1) (q\<lparr>nat_g := g'\<rparr>) else q\<lparr>nat_g := g'\<rparr>"
    have run: "state_mach_tbl env (statemach_n 2 env) (curr_state (nati_obj p)) NATI_TRIG_DEL_RULE NATI_TRIG_DEL_RULE
        (Rule_Args (tbl_hdl_of n) h) q w1 = Some (ret, no_out, ?p', w2)"
      using d qs st by (simp add: state_mach_tbl_def smDelRuleFromTbl_def CHOOSE_MEM_SUB_def)
    have "of_nat (card (dom (sp_rules s))) - 1 = (of_nat (card (dom (sp_rules (spec_del i s)))) :: u32)"
      using card_spec_del [OF r i] by (metis add_diff_cancel_left' of_nat_Suc)
    then have "Q no_out ?p'" using o k qs st cnt by (cases "ret = 0") (simp_all add: Q_def ddr_machine_def n_def)
    then show ?thesis using run by blast
  qed
  obtain out p' w' where sm: "ipa_nati_statemach env NATI_TRIG_DEL_RULE (Rule_Args (tbl_hdl_of n) h) p w = Some (0, out, p', w')" and Qp: "Q out p'"
    using run_machine [of env p NATI_TRIG_DEL_RULE "Rule_Args (tbl_hdl_of n) h" Q w, OF m cb] ddr_no_vote [OF p, of NATI_TRIG_DEL_RULE] by blast
  have "ipa_nat_del_ipv4_rule env (tbl_hdl_of n) h p w = Some (0, p', w')"
    unfolding ipa_nat_del_ipv4_rule_def ipa_nati_del_ipv4_rule_def sm using ddr_rule_hdl [OF p i] by (simp add: h_def n_def)
  then show ?thesis using Qp unfolding Q_def h_def by blast
qed

lemma ddr_refused_rule:
  assumes m: "sm_mutex_works env" and p: "ddr_machine p s" and u: "\<not> rule_accepted (nat_g p) u"
    and b: "u_protocol u = IPAHAL_NAT_INVALID_PROTOCOL \<or> unat (u_pdn_index u) < IPA_MAX_PDN_NUM"
  shows "\<exists>p' w'. ipa_nat_add_ipv4_rule env (tbl_hdl_of IPA_NAT_MEM_IN_DDR) u p w = Some (0, Some 0, client_rule u, p', w') \<and>
     nat_g p' = nat_g p \<and> ddr_machine p' s"
proof -
  define n where "n = IPA_NAT_MEM_IN_DDR"
  define Q where "Q = (\<lambda>(out :: unit sm_out) p'. o_rule_hdl out = Some 0 \<and> o_clnt_rule out = Some (client_rule u) \<and> nat_g p' = nat_g p \<and> ddr_machine p' s)"
  have g: "globals_ok (nat_g p) n" and st: "curr_state (nati_obj p) = NATI_STATE_DDR_ONLY"
    using p by (simp_all add: ddr_machine_def nat_ready_def n_def)
  have rj: "ipa_NATI_add_ipv4_rule env (nat_g p) (tbl_hdl_of n) (client_rule u) w1 = Some (- EINVAL, nat_g p, Some 0, w1)" for w1
    using add_rule_rejected [OF g, of "client_rule u" env w1] u b by simp
  have cb: "\<exists>ret out p' w'. state_mach_tbl env (statemach_n 2 env) (curr_state (nati_obj p)) NATI_TRIG_ADD_RULE NATI_TRIG_ADD_RULE
      (Add_Rule_Args (tbl_hdl_of n) u) q w1 = Some (ret, out, p', w') \<and> Q out p'" if q: "same_vars p q" for q w1
  proof -
    have qs: "nat_g q = nat_g p" "nati_obj q = nati_obj p" using q by (simp_all add: same_vars_def)
    have "state_mach_tbl env (statemach_n 2 env) (curr_state (nati_obj p)) NATI_TRIG_ADD_RULE NATI_TRIG_ADD_RULE
        (Add_Rule_Args (tbl_hdl_of n) u) q w1 = Some (- EINVAL, (no_out :: unit sm_out)\<lparr>o_rule_hdl := Some 0, o_clnt_rule := Some (client_rule u)\<rparr>, q, w1)"
      using rj qs st by (simp add: state_mach_tbl_def smAddRuleToTbl_def client_rule_def Let_def errno_defs)
    moreover have "Q (no_out\<lparr>o_rule_hdl := Some 0, o_clnt_rule := Some (client_rule u)\<rparr>) q"
      using p qs by (simp add: Q_def ddr_machine_def)
    ultimately show ?thesis by blast
  qed
  obtain out p' w' where sm: "ipa_nati_statemach env NATI_TRIG_ADD_RULE (Add_Rule_Args (tbl_hdl_of n) u) p w = Some (0, out, p', w')" and Qp: "Q out p'"
    using run_machine [of env p NATI_TRIG_ADD_RULE "Add_Rule_Args (tbl_hdl_of n) u" Q w, OF m cb] ddr_no_vote [OF p, of NATI_TRIG_ADD_RULE] by blast
  show ?thesis using Qp unfolding Q_def ipa_nat_add_ipv4_rule_def ipa_nati_add_ipv4_rule_def sm [unfolded n_def] by simp
qed

lemma sample_num_pdns: "num_pdns sample_globals = 1"
proof -
  have "slot_free nat_globals_init IPA_NAT_MEM_IN_DDR" by (simp add: IPA_VALID_NAT_MEM_IN_def)
  from add_tbl_slot [OF this, of senv "0x0A000001" 100 "()"] show ?thesis
    using sample_created(1) by (auto simp: sample_globals_def)
qed

end
