(* ===== verification/Nat_Machine_Properties.thy ===== *)
theory Nat_Machine_Properties
  imports Nat_Machine
begin

unbundle bit_operations_syntax

section \<open>What the state machine and the public interface guarantee\<close>

text \<open>
  The properties of \<open>ipa_nat_statemach.c\<close> and \<open>ipa_nat_drv.c\<close>, with their instances on the environment of
  \<open>Nat_Sample\<close>, extended by the calls that initialise a mutex.
\<close>

subsection \<open>A concrete machine\<close>

definition machine_env :: "u16 \<Rightarrow> unit sm_env" where
  "machine_env te = nat_env.extend (sample_env te)
     \<lparr>pthread_mutexattr_init = (\<lambda>w. (0, w)), pthread_mutexattr_settype = (\<lambda>w. (0, w)), pthread_mutex_init = (\<lambda>w. (0, w)), \<dots> = ()\<rparr>"

lemmas machine_env_sel = machine_env_def nat_env.extend_def ipa_env.extend_def

lemma machine_env_calls [simp]:
  "pthread_mutex_lock (machine_env te) w = (0, w)" "pthread_mutex_unlock (machine_env te) w = (0, w)"
  "ioctl_clock_vote (machine_env te) f v w = (0, w)" "ioctl_v4_init (machine_env te) f c w = (0, w)"
  "ioctl_table_dma (machine_env te) = ioctl_table_dma (sample_env te)"
  by (simp_all add: machine_env_def nat_env.extend_def sample_env_def)

lemma machine_mutex: "sm_mutex_works (machine_env te)"
  by (simp add: sm_mutex_works_def mutex_works_def) (simp add: machine_env_def nat_env.extend_def)

lemma machine_votes: "votes_work (machine_env te)"
  by (simp add: votes_work_def)

lemma machine_faithful: "dma_faithful (machine_env te) nt = dma_faithful (sample_env te) nt"
  by (simp add: dma_faithful_def)

lemma machine_accepts: "dma_accepts (machine_env te)"
  using sample_accepts [of te] by (simp add: dma_accepts_def)

abbreviation menv :: "unit sm_env" where "menv \<equiv> machine_env 128"

text \<open>The program after a table in DDR was created.\<close>

definition ddr_prog :: "nat_globals \<Rightarrow> u32 \<Rightarrow> nat_prog" where
  "ddr_prog g k = nat_prog_init\<lparr>nat_g := g, nati_obj := nati_obj_init\<lparr>curr_state := NATI_STATE_DDR_ONLY,
     ddr_tbl_hdl := tbl_hdl_of IPA_NAT_MEM_IN_DDR, tot_rules_in_table := (\<lambda>_. k)\<rparr>\<rparr>"

lemma ddr_prog_sel [simp]: "nat_g (ddr_prog g k) = g" "curr_state (nati_obj (ddr_prog g k)) = NATI_STATE_DDR_ONLY"
  "tot_rules_in_table (nati_obj (ddr_prog g k)) sub = k"
  by (simp_all add: ddr_prog_def)

lemma ddr_sample: "ddr_machine (ddr_prog sample_globals 0) spec_empty"
  using sample_ready by (simp add: ddr_machine_def spec_empty_def)

subsection \<open>The machine\<close>

text \<open>
  C38. The callbacks of the transition table run further triggers through the machine, but never more than
  three calls deep: with any bound from three on the machine computes the same result, so the bound of
  \<open>ipa_nati_statemach\<close> is never reached and the recursion of the code ends in every state.
\<close>

theorem statemach_depth:
  assumes "3 \<le> n"
  shows "statemach_n n env t a p w = ipa_nati_statemach env t a p w"
proof -
  obtain k where "n = Suc (Suc (Suc k))" using assms by (metis add.commute le_Suc_ex eval_nat_numeral(3) numeral_2_eq_2 add_Suc_right add_0_right)
  then show ?thesis using machine_depth [of k] by (simp del: statemach_n.simps)
qed

theorem statemach_depth_witness:
  "statemach_n 7 menv NATI_TRIG_ADD_RULE (Add_Rule_Args (tbl_hdl_of IPA_NAT_MEM_IN_DDR) sample_rule) (ddr_prog sample_globals 0) ()
   = (ipa_nati_statemach menv NATI_TRIG_ADD_RULE (Add_Rule_Args (tbl_hdl_of IPA_NAT_MEM_IN_DDR) sample_rule) (ddr_prog sample_globals 0) ()
      :: (int \<times> unit sm_out \<times> nat_prog \<times> unit) option)"
  using statemach_depth [of 7] by simp

text \<open>
  C39. A refused rule is reported as a success. The code returned by the machine is that of unlocking its mutex: as long
  as the mutex works it is \<open>0\<close>, whatever the callback answered. In the state in which the machine uses a table in
  DDR only, a rule that the driver's validation refuses, because its protocol is the reserved one or the public
  address of its index is not set, makes \<open>ipa_nat_add_ipv4_rule\<close> return \<open>0\<close> with the handle \<open>0\<close>; the tables
  and the counter are unchanged. (An index outside the table of public addresses faults instead.)
\<close>

theorem refused_rule_returns_success:
  assumes "sm_mutex_works env" and "ddr_machine p s" and "\<not> rule_accepted (nat_g p) u"
    and "u_protocol u = IPAHAL_NAT_INVALID_PROTOCOL \<or> unat (u_pdn_index u) < IPA_MAX_PDN_NUM"
  shows "\<exists>p' w'. ipa_nat_add_ipv4_rule env (tbl_hdl_of IPA_NAT_MEM_IN_DDR) u p w = Some (0, Some 0, client_rule u, p', w') \<and>
     nat_g p' = nat_g p \<and> ddr_machine p' s"
  by (rule ddr_refused_rule [OF assms])

lemma sample_pdn_unset: "p_public_ip (pdns sample_globals ! 5) = 0"
  by (simp add: sample_globals_def create_simps sample_env_def pdn_zero_def)

theorem refused_rule_returns_success_witness:
  "\<exists>p' w'. ipa_nat_add_ipv4_rule menv (tbl_hdl_of IPA_NAT_MEM_IN_DDR) (sample_rule\<lparr>u_pdn_index := 5\<rparr>)
       (ddr_prog sample_globals 0) () = Some (0, Some 0, client_rule (sample_rule\<lparr>u_pdn_index := 5\<rparr>), p', w') \<and>
     nat_g p' = nat_g (ddr_prog sample_globals 0) \<and> ddr_machine p' spec_empty"
  by (rule refused_rule_returns_success [OF machine_mutex ddr_sample])
    (simp_all add: rule_accepted_def sample_pdn_unset IPA_MAX_PDN_NUM_def)

subsection \<open>Rules of a client\<close>

text \<open>
  C36. Adding a rule through the public interface, with the machine in the state in which it uses a table in
  DDR only. The call returns \<open>0\<close>; the flags and the time stamp of the client's rule are reset. The stored
  handle tells the outcome: when it is \<open>0\<close> the machine holds the rules it held, otherwise it is the handle of
  a position that was free, and the machine holds one rule more, in its chains, with its counter advanced. The
  handle is not \<open>0\<close> whenever there is room and the kernel accepts the commands.
\<close>

theorem client_add_refines:
  assumes "sm_mutex_works env" and "ddr_machine p s" and "dma_faithful env (the_nt (nat_g p) IPA_NAT_MEM_IN_DDR)"
    and "rule_accepted (nat_g p) u"
  shows "\<exists>hdl p' w'. ipa_nat_add_ipv4_rule env (tbl_hdl_of IPA_NAT_MEM_IN_DDR) u p w = Some (0, Some hdl, client_rule u, p', w') \<and>
     (if hdl = 0 then ddr_machine p' s
      else \<exists>i. hdl = rule_hdl_of (the_nt (nat_g p) IPA_NAT_MEM_IN_DDR) i \<and> sp_rules s i = None \<and>
             ddr_machine p' (spec_add i (nat_bucket (nat_g p) IPA_NAT_MEM_IN_DDR (client_rule u))
                (index_bucket (nat_g p) IPA_NAT_MEM_IN_DDR (client_rule u)) (installed_rule (pdns (nat_g p)) (client_rule u)) s)) \<and>
     (has_room (the_nt (nat_g p) IPA_NAT_MEM_IN_DDR) (nat_bucket (nat_g p) IPA_NAT_MEM_IN_DDR (client_rule u))
        (index_bucket (nat_g p) IPA_NAT_MEM_IN_DDR (client_rule u)) \<and> dma_accepts env \<longrightarrow> hdl \<noteq> 0)"
  using ddr_add_rule [OF assms, of w] by blast

theorem client_add_refines_witness:
  "\<exists>hdl p' w'. ipa_nat_add_ipv4_rule menv (tbl_hdl_of IPA_NAT_MEM_IN_DDR) sample_rule (ddr_prog sample_globals 0) ()
       = Some (0, Some hdl, client_rule sample_rule, p', w') \<and> hdl \<noteq> 0"
  using client_add_refines [OF machine_mutex ddr_sample, of 128 sample_rule "()"] sample_room [of "client_rule sample_rule"]
    machine_accepts sample_accepted sample_dma by (auto simp: machine_faithful)

text \<open>
  C37. Deleting a rule through the public interface, with the machine in the state in which it uses a table in DDR
  only, by the handle of any rule of the table. The call always returns \<open>0\<close>. When the kernel accepts the commands
  exactly that rule is removed from both tables and the counter of rules is decremented; when the kernel refuses them,
  which the code \<open>0\<close> hides, the machine and its counters are as before and the driver is left as its own refused
  deletion leaves it (\<open>del_aborted\<close>).
\<close>

theorem client_del_refines:
  assumes "sm_mutex_works env" and "ddr_machine p s" and "dma_faithful env (the_nt (nat_g p) IPA_NAT_MEM_IN_DDR)"
    and "sp_rules s i = Some v"
  shows "\<exists>p' w'. ipa_nat_del_ipv4_rule env (tbl_hdl_of IPA_NAT_MEM_IN_DDR) (rule_hdl_of (the_nt (nat_g p) IPA_NAT_MEM_IN_DDR) i) p w
       = Some (0, p', w') \<and>
     (ddr_machine p' (spec_del i s) \<or>
      \<not> dma_accepts env \<and> nati_obj p' = nati_obj p \<and>
      nat_g p' = put_nt (nat_g p) IPA_NAT_MEM_IN_DDR (del_aborted (the_nt (nat_g p) IPA_NAT_MEM_IN_DDR)
        (to_indx (recs (nt_table (the_nt (nat_g p) IPA_NAT_MEM_IN_DDR))) i)))"
  using ddr_del_rule [OF assms, of w] by blast

theorem client_del_refines_witness:
  "\<exists>i s p' w'. sp_rules s i = Some (installed_rule (pdns sample_globals2) sample_rule) \<and>
     ipa_nat_del_ipv4_rule menv (tbl_hdl_of IPA_NAT_MEM_IN_DDR) (rule_hdl_of (the_nt sample_globals2 IPA_NAT_MEM_IN_DDR) i)
       (ddr_prog sample_globals2 (of_nat (card (dom (sp_rules s))))) () = Some (0, p', w') \<and>
     ddr_machine p' (spec_del i s)"
proof -
  obtain i s where r: "nat_ready sample_globals2 IPA_NAT_MEM_IN_DDR s"
    and i: "sp_rules s i = Some (installed_rule (pdns sample_globals2) sample_rule)"
    and d: "dma_faithful senv (the_nt sample_globals2 IPA_NAT_MEM_IN_DDR)" using sample_added by blast
  let ?p = "ddr_prog sample_globals2 (of_nat (card (dom (sp_rules s))))"
  have "ddr_machine ?p s" using r by (simp add: ddr_machine_def)
  from client_del_refines [OF machine_mutex [of 128] this _ i, of "()"] d machine_accepts [of 128]
  show ?thesis using i unfolding machine_faithful ddr_prog_sel by blast
qed

subsection \<open>Public addresses\<close>

text \<open>
  C40. Releasing a public address by its index faults exactly when the index is \<open>IPA_MAX_PDN_NUM\<close> and some
  address is set: \<open>ipa_nat_dealloc_pdn\<close> admits that index, and the entry behind the end of the array is read.
  Larger indices are refused with \<open>-EINVAL\<close>.
\<close>

theorem dealloc_pdn_fault:
  assumes "length (ipv4_nat_cache (nat_g p)) = 2" and "length (pdns (nat_g p)) = IPA_MAX_PDN_NUM"
  shows "(ipa_nat_dealloc_pdn env idx p w = None \<longleftrightarrow> unat idx = IPA_MAX_PDN_NUM \<and> num_pdns (nat_g p) \<noteq> 0) \<and>
     (IPA_MAX_PDN_NUM < unat idx \<longrightarrow> ipa_nat_dealloc_pdn env idx p w = Some (- EINVAL, p, w))"
  using assms
  by (auto simp: ipa_nat_dealloc_pdn_def ipa_nati_dealloc_pdn_def ipa_nati_modify_pdn_def get_cache_def cache_idx_def mem_read_def
      mem_write_def Let_def IPA_MAX_PDN_NUM_def split_def split: option.splits if_splits bind_splits)

theorem dealloc_pdn_fault_witness: "ipa_nat_dealloc_pdn menv 16 (ddr_prog sample_globals 0) () = None"
proof -
  have "length (ipv4_nat_cache sample_globals) = 2" "length (pdns sample_globals) = IPA_MAX_PDN_NUM"
    using sample_ready by (simp_all add: nat_ready_def globals_ok_def)
  then show ?thesis using dealloc_pdn_fault [of "ddr_prog sample_globals 0" menv 16 "()"] sample_num_pdns
    by (simp add: IPA_MAX_PDN_NUM_def)
qed

end
