(* ===== verification/Nat_Views.thy ===== *)
theory Nat_Views
  imports Nat_Machine
begin

unbundle bit_operations_syntax

section \<open>Handles of clients and handles of tables\<close>

text \<open>
  In the hybrid mode a client keeps the handle it was given first, while the rule behind it moves between two
  tables. Two maps per memory translate: \<open>orig2new\<close> from the client's handle to that of the table,
  \<open>new2orig\<close> back. \<open>views\<close> states that the maps of a memory are inverse to each other, that they know
  exactly the rules of the table, and that \<open>cv\<close> is what the client sees: its handles and the rules behind them.
\<close>

definition o2n :: "nat_maps \<Rightarrow> mem_sub \<Rightarrow> u32 \<rightharpoonup> u32" where
  "o2n ms sub = ms ! unat (orig2new_map (map_pairs_init sub))"

definition n2o :: "nat_maps \<Rightarrow> mem_sub \<Rightarrow> u32 \<rightharpoonup> u32" where
  "n2o ms sub = ms ! unat (new2orig_map (map_pairs_init sub))"

definition view_maps :: "(u32 \<rightharpoonup> u32) \<Rightarrow> (u32 \<rightharpoonup> u32) \<Rightarrow> (nat \<Rightarrow> u32) \<Rightarrow> (nat \<rightharpoonup> 'r) \<Rightarrow> (u32 \<rightharpoonup> 'r) \<Rightarrow> bool" where
  "view_maps to back H R cv \<longleftrightarrow>
     inj_on H (dom R) \<and> (\<forall>h k. to h = Some k \<longleftrightarrow> back k = Some h) \<and>
     dom back = H ` dom R \<and> dom cv = dom to \<and> (\<forall>h i. to h = Some (H i) \<longrightarrow> i \<in> dom R \<longrightarrow> cv h = R i)"

definition views :: "nat_maps \<Rightarrow> mem_sub \<Rightarrow> (nat \<Rightarrow> u32) \<Rightarrow> (nat \<rightharpoonup> 'r) \<Rightarrow> (u32 \<rightharpoonup> 'r) \<Rightarrow> bool" where
  "views ms sub H R cv \<longleftrightarrow> length ms = 5 \<and> view_maps (o2n ms sub) (n2o ms sub) H R cv"

lemma view_maps_add:
  assumes v: "view_maps to back H R cv" and h: "h \<notin> dom cv" and j: "R j = None" and i: "inj_on H (insert j (dom R))"
  shows "to h = None" and "back (H j) = None" and "view_maps (to(h \<mapsto> H j)) (back(H j \<mapsto> h)) H (R(j \<mapsto> r)) (cv(h \<mapsto> r))"
proof -
  have d: "to a = Some k \<longleftrightarrow> back k = Some a" "dom back = H ` dom R" "dom cv = dom to"
    "to a = Some (H x) \<Longrightarrow> x \<in> dom R \<Longrightarrow> cv a = R x" for a k x using v by (auto simp: view_maps_def)
  have nj: "H j \<notin> H ` dom R" using i j by (auto dest: inj_onD)
  show o: "to h = None" using h d(3) by blast
  show n: "back (H j) = None" using nj d(2) by blast
  have inv: "(to(h \<mapsto> H j)) a = Some k \<longleftrightarrow> (back(H j \<mapsto> h)) k = Some a" for a k
    using d(1) [of a k] d(1) [of h k] d(1) [of a "H j"] o n by auto
  have "(cv(h \<mapsto> r)) a = (R(j \<mapsto> r)) x" if "(to(h \<mapsto> H j)) a = Some (H x)" "x \<in> dom (R(j \<mapsto> r))" for a x
  proof (cases "a = h")
    case True
    then have "H j = H x" using that by simp
    then have "x = j" using that(2) i by (auto dest: inj_onD)
    then show ?thesis using True by simp
  next
    case False
    then have t: "to a = Some (H x)" using that by simp
    then have "x \<noteq> j" using d(1) [of a "H j"] n by auto
    then show ?thesis using False t that(2) d(4) by auto
  qed
  then show "view_maps (to(h \<mapsto> H j)) (back(H j \<mapsto> h)) H (R(j \<mapsto> r)) (cv(h \<mapsto> r))"
    using inv i d(2,3) unfolding view_maps_def by auto
qed

lemma view_maps_del:
  assumes v: "view_maps to back H R cv" and h: "to h = Some (H i)" and i: "R i = Some r"
  shows "view_maps (to(h := None)) (back(H i := None)) H (R(i := None)) (cv(h := None))"
proof -
  have d: "to a = Some k \<longleftrightarrow> back k = Some a" "dom back = H ` dom R" "dom cv = dom to" "inj_on H (dom R)"
    "to a = Some (H x) \<Longrightarrow> x \<in> dom R \<Longrightarrow> cv a = R x" for a k x using v by (auto simp: view_maps_def)
  have inv: "(to(h := None)) a = Some k \<longleftrightarrow> (back(H i := None)) k = Some a" for a k
    using d(1) [of a k] d(1) [of h k] d(1) [of a "H i"] d(1) [of h "H i"] h by auto
  have e: "H x = H i \<longleftrightarrow> x = i" if "x \<in> dom R" for x using that d(4) i by (auto dest: inj_onD)
  have "dom (back(H i := None)) = H ` dom (R(i := None))" using d(2) e by auto
  moreover have "inj_on H (dom (R(i := None)))" by (rule inj_on_subset [OF d(4)]) auto
  moreover have "(cv(h := None)) a = (R(i := None)) x" if "(to(h := None)) a = Some (H x)" "x \<in> dom (R(i := None))" for a x
    using that d(5) by (auto split: if_splits)
  ultimately show ?thesis using inv d(3) unfolding view_maps_def by auto
qed

lemma map_no_lt: "unat (orig2new_map (map_pairs_init sub)) < 5" "unat (new2orig_map (map_pairs_init sub)) < 5"
  by (cases sub; simp add: map_pairs_init_def)+

lemma map_no_neq:
  "unat (orig2new_map (map_pairs_init sub)) \<noteq> unat (new2orig_map (map_pairs_init sub'))"
  "unat (orig2new_map (map_pairs_init sub)) = unat (orig2new_map (map_pairs_init sub')) \<longleftrightarrow> sub = sub'"
  "unat (new2orig_map (map_pairs_init sub)) = unat (new2orig_map (map_pairs_init sub')) \<longleftrightarrow> sub = sub'"
  by (cases sub; cases sub'; simp add: map_pairs_init_def)+

abbreviation put_o2n :: "nat_maps \<Rightarrow> mem_sub \<Rightarrow> (u32 \<rightharpoonup> u32) \<Rightarrow> nat_maps" where
  "put_o2n ms sub m \<equiv> ms[unat (orig2new_map (map_pairs_init sub)) := m]"

abbreviation put_n2o :: "nat_maps \<Rightarrow> mem_sub \<Rightarrow> (u32 \<rightharpoonup> u32) \<Rightarrow> nat_maps" where
  "put_n2o ms sub m \<equiv> ms[unat (new2orig_map (map_pairs_init sub)) := m]"

lemma put_maps [simp]:
  assumes "length ms = 5"
  shows "o2n (put_o2n ms sub m) sub' = (if sub' = sub then m else o2n ms sub')" "n2o (put_o2n ms sub m) sub' = n2o ms sub'"
    "n2o (put_n2o ms sub m) sub' = (if sub' = sub then m else n2o ms sub')" "o2n (put_n2o ms sub m) sub' = o2n ms sub'"
  using assms map_no_lt [of sub] map_no_neq [of sub sub'] map_no_neq [of sub' sub]
  by (auto simp: o2n_def n2o_def nth_list_update)

lemma map_ops_o2n:
  assumes "length ms = 5"
  shows "ipa_nat_map_add ms (orig2new_map (map_pairs_init sub)) k v =
      (if o2n ms sub k = None then Some (0, put_o2n ms sub ((o2n ms sub)(k \<mapsto> v))) else Some (- 1, ms))"
    and "ipa_nat_map_find ms (orig2new_map (map_pairs_init sub)) k = (case o2n ms sub k of None \<Rightarrow> Some (- 1, None) | Some x \<Rightarrow> Some (0, Some x))"
    and "ipa_nat_map_del ms (orig2new_map (map_pairs_init sub)) k =
      (case o2n ms sub k of None \<Rightarrow> Some (- 1, None, ms) | Some x \<Rightarrow> Some (0, Some x, put_o2n ms sub ((o2n ms sub)(k := None))))"
    and "ipa_nat_map_clear ms (orig2new_map (map_pairs_init sub)) = Some (0, put_o2n ms sub (\<lambda>_. None))"
  using assms map_no_lt [of sub] by (simp_all add: map_ops o2n_def split: option.splits)

lemma map_ops_n2o:
  assumes "length ms = 5"
  shows "ipa_nat_map_add ms (new2orig_map (map_pairs_init sub)) k v =
      (if n2o ms sub k = None then Some (0, put_n2o ms sub ((n2o ms sub)(k \<mapsto> v))) else Some (- 1, ms))"
    and "ipa_nat_map_find ms (new2orig_map (map_pairs_init sub)) k = (case n2o ms sub k of None \<Rightarrow> Some (- 1, None) | Some x \<Rightarrow> Some (0, Some x))"
    and "ipa_nat_map_del ms (new2orig_map (map_pairs_init sub)) k =
      (case n2o ms sub k of None \<Rightarrow> Some (- 1, None, ms) | Some x \<Rightarrow> Some (0, Some x, put_n2o ms sub ((n2o ms sub)(k := None))))"
    and "ipa_nat_map_clear ms (new2orig_map (map_pairs_init sub)) = Some (0, put_n2o ms sub (\<lambda>_. None))"
  using assms map_no_lt [of sub] by (simp_all add: map_ops n2o_def split: option.splits)

lemma viewsD:
  assumes "views ms sub H R cv"
  shows "length ms = 5" and "inj_on H (dom R)" and "o2n ms sub h = Some k \<longleftrightarrow> n2o ms sub k = Some h"
    and "dom (n2o ms sub) = H ` dom R" and "dom cv = dom (o2n ms sub)"
    and "o2n ms sub h = Some (H i) \<Longrightarrow> i \<in> dom R \<Longrightarrow> cv h = R i"
  using assms by (auto simp: views_def view_maps_def)

lemma views_rule:
  assumes v: "views ms sub H R cv" and h: "cv h = Some r"
  obtains i where "o2n ms sub h = Some (H i)" and "R i = Some r" and "n2o ms sub (H i) = Some h"
proof -
  obtain k where k: "o2n ms sub h = Some k" using viewsD(5) [OF v] h by blast
  then have n: "n2o ms sub k = Some h" using viewsD(3) [OF v] by blast
  then obtain i where i: "k = H i" "i \<in> dom R" using viewsD(4) [OF v] by blast
  then show thesis using that k n viewsD(6) [OF v] h by metis
qed

lemma views_handle:
  assumes v: "views ms sub H R cv" and i: "R i = Some r"
  obtains h where "n2o ms sub (H i) = Some h" and "o2n ms sub h = Some (H i)" and "cv h = Some r"
proof -
  have "H i \<in> dom (n2o ms sub)" using viewsD(4) [OF v] i by blast
  then obtain h where n: "n2o ms sub (H i) = Some h" by blast
  then have "o2n ms sub h = Some (H i)" using viewsD(3) [OF v] by blast
  then show thesis using that n viewsD(6) [OF v] i by (metis domI)
qed

lemma views_add:
  assumes v: "views ms sub H R cv" and h: "h \<notin> dom cv" and j: "R j = None" and i: "inj_on H (insert j (dom R))"
  shows "o2n ms sub h = None" and "n2o ms sub (H j) = None"
    and "views (put_n2o (put_o2n ms sub ((o2n ms sub)(h \<mapsto> H j))) sub ((n2o ms sub)(H j \<mapsto> h))) sub H (R(j \<mapsto> r)) (cv(h \<mapsto> r))"
proof -
  have m: "length ms = 5" "view_maps (o2n ms sub) (n2o ms sub) H R cv" using v by (simp_all add: views_def)
  show "o2n ms sub h = None" "n2o ms sub (H j) = None" by (rule view_maps_add [OF m(2) h j i])+
  show "views (put_n2o (put_o2n ms sub ((o2n ms sub)(h \<mapsto> H j))) sub ((n2o ms sub)(H j \<mapsto> h))) sub H (R(j \<mapsto> r)) (cv(h \<mapsto> r))"
    using m(1) view_maps_add(3) [OF m(2) h j i] by (simp add: views_def)
qed

lemma views_del:
  assumes "views ms sub H R cv" and "o2n ms sub h = Some (H i)" and "R i = Some r"
  shows "views (put_n2o (put_o2n ms sub ((o2n ms sub)(h := None))) sub ((n2o ms sub)(H i := None))) sub H (R(i := None)) (cv(h := None))"
  using assms view_maps_del [of "o2n ms sub" "n2o ms sub" H R cv h i r] by (simp add: views_def)

lemma views_card:
  assumes v: "views ms sub H R cv" shows "card (dom cv) = card (dom R)"
proof -
  note d = viewsD [OF v]
  have "inj_on (\<lambda>h. the (o2n ms sub h)) (dom cv)"
  proof (rule inj_onI)
    fix a b assume a: "a \<in> dom cv" and b: "b \<in> dom cv" and e: "the (o2n ms sub a) = the (o2n ms sub b)"
    obtain k k' where o: "o2n ms sub a = Some k" "o2n ms sub b = Some k'" using a b d(5) by (metis domD)
    then have "k = k'" using e by simp
    then have "n2o ms sub k = Some a" "n2o ms sub k = Some b" using o d(3) by blast+
    then show "a = b" by simp
  qed
  moreover have "(\<lambda>h. the (o2n ms sub h)) ` dom cv = dom (n2o ms sub)" using d(3,5) by force
  ultimately have "card (dom cv) = card (H ` dom R)" using d(4) by (metis card_image)
  then show ?thesis using card_image [OF d(2)] by simp
qed

lemma views_ran:
  assumes v: "views ms sub H R cv" shows "ran R = ran cv"
proof
  show "ran R \<subseteq> ran cv" using views_handle [OF v] by (fastforce simp: ran_def)
  show "ran cv \<subseteq> ran R" using views_rule [OF v] by (fastforce simp: ran_def)
qed

lemma views_empty: "length ms = 5 \<Longrightarrow> o2n ms sub = (\<lambda>_. None) \<Longrightarrow> n2o ms sub = (\<lambda>_. None) \<Longrightarrow> views ms sub H (\<lambda>_. None) (\<lambda>_. None)"
  by (simp add: views_def view_maps_def)

text \<open>Maps of the other memory do not matter.\<close>

lemma views_cong:
  assumes "views ms sub H R cv" and "length ms' = 5" and "o2n ms' sub = o2n ms sub" and "n2o ms' sub = n2o ms sub"
  shows "views ms' sub H R cv"
  using assms by (simp add: views_def)

end
