(* ===== verification/Nat_Migrate.thy ===== *)
theory Nat_Migrate
  imports Nat_Views
begin

unbundle bit_operations_syntax

section \<open>Moving the rules from one memory to the other\<close>

text \<open>
  What \<open>ipa_nati_copy_ipv4_tbl\<close> does with \<open>migrate_rule\<close>: the rules of the source table are added to the cleared
  destination one after the other, and the maps of the destination are built so that the client's handles
  reach the new positions.
\<close>

subsection \<open>Tables that an operation does not touch\<close>

definition untouched :: "nat_globals \<Rightarrow> nat_globals \<Rightarrow> ipa3_nat_mem_in \<Rightarrow> bool" where
  "untouched g g' n \<longleftrightarrow> the_cache g' n = the_cache g n \<and> length (ipv4_nat_cache g') = length (ipv4_nat_cache g) \<and>
     length (pdns g') = length (pdns g)"

lemma untouched_refl [simp]: "untouched g g n" by (simp add: untouched_def)

lemma untouched_trans [trans]: "untouched g g' n \<Longrightarrow> untouched g' g'' n \<Longrightarrow> untouched g g'' n" by (simp add: untouched_def)

lemma untouched_ready: "untouched g g' n \<Longrightarrow> nat_ready g' n s = nat_ready g n s"
  by (simp add: untouched_def nat_ready_def globals_ok_def)

lemma untouched_nt: "untouched g g' n \<Longrightarrow> the_nt g' n = the_nt g n" by (simp add: untouched_def)

lemma cache_idx_neq: "IPA_VALID_NAT_MEM_IN n \<Longrightarrow> IPA_VALID_NAT_MEM_IN m \<Longrightarrow> m \<noteq> n \<Longrightarrow> cache_idx n \<noteq> cache_idx m"
  by (auto simp: nmi_valid_iff cache_idx_def)

lemma put_cache_untouched:
  assumes "IPA_VALID_NAT_MEM_IN n" and "IPA_VALID_NAT_MEM_IN m" and "m \<noteq> n"
  shows "untouched g (put_cache g n c) m" "untouched g ((put_cache g n c)\<lparr>Hash_token := t\<rparr>) m"
  using cache_idx_neq [OF assms] by (simp_all add: untouched_def put_cache_def)

lemma add_rule_untouched:
  assumes "ipa_NATI_add_ipv4_rule env g (tbl_hdl_of n) u w = Some (ret, g', hdl, w')"
    and n: "IPA_VALID_NAT_MEM_IN n" "IPA_VALID_NAT_MEM_IN m" "m \<noteq> n"
  shows "untouched g g' m"
  using assms(1) tbl_hdl_of_facts [OF n(1)] put_cache_untouched [OF n]
  by (auto simp: ipa_NATI_add_ipv4_rule_def Let_def n(1) split: if_splits bind_splits prod.splits)

lemma del_rule_untouched:
  assumes "ipa_NATI_del_ipv4_rule env g (tbl_hdl_of n) h w = Some (ret, g', w')"
    and n: "IPA_VALID_NAT_MEM_IN n" "IPA_VALID_NAT_MEM_IN m" "m \<noteq> n"
  shows "untouched g g' m"
  using assms(1) tbl_hdl_of_facts [OF n(1)] put_cache_untouched [OF n]
  by (auto simp: ipa_NATI_del_ipv4_rule_def Let_def n(1) split: if_splits bind_splits prod.splits)

lemma clear_tbl_untouched:
  assumes "ipa_NATI_clear_ipv4_tbl env g (tbl_hdl_of n) w = Some (ret, g', w')"
    and n: "IPA_VALID_NAT_MEM_IN n" "IPA_VALID_NAT_MEM_IN m" "m \<noteq> n"
  shows "untouched g g' m" and "pdns g' = pdns g"
  using assms(1) tbl_hdl_of_facts [OF n(1)] put_cache_untouched [OF n]
  by (auto simp: ipa_NATI_clear_ipv4_tbl_def Let_def n(1) put_cache_def split: if_splits bind_splits prod.splits)

subsection \<open>Room\<close>

lemma expn_room:
  assumes rep: "tbl_rep ifc ix t cs" and c: "card (tails cs) < unat (expn_table_entries t)"
  shows "has_free ifc t"
proof (rule ccontr)
  note r = tbl_repD [OF rep] and ok = tbl_okD [OF tbl_repD(1) [OF rep]]
  assume "\<not> has_free ifc t"
  then have "{base_n t..<tot_n t} \<subseteq> tails cs"
    using chain_rep_expn_valid_iff [OF r(2)] by (auto simp: has_free_def)
  then have "card {base_n t..<tot_n t} \<le> card (tails cs)" by (intro card_mono rep_cards [OF rep])
  then show False using c ok(5) by simp
qed

lemma tails_members: "tails cs \<subseteq> members cs"
  by (auto simp: tails_def members_def dest: list.set_sel(2) [rotated]) (metis list.sel(2) list.set_sel(2))

text \<open>A table with fewer rules than its expansion area has records takes any further rule.\<close>

lemma room_by_count:
  assumes r: "nat_ready g n s" and c: "card (dom (sp_rules s)) < unat (expn_table_entries (nt_table (the_nt g n)))"
  shows "has_room (the_nt g n) b k"
proof -
  obtain cs xs where inv: "nat_inv (the_nt g n) cs xs" and s: "spec_of (the_nt g n) cs xs = s" using r by (auto elim!: nat_readyD)
  let ?L = "live (recs (nt_table (the_nt g n))) cs"
  note nv = nat_invD [OF inv] and l = link_okD [OF nat_invD(6) [OF inv]]
  have d: "dom (sp_rules s) = ?L" using s by (auto simp: spec_of_def nat_abs_def split: if_splits)
  have fin: "finite ?L" using ready_finite [OF r] d by simp
  have "tails cs \<subseteq> ?L"
  proof
    fix i assume "i \<in> tails cs"
    then obtain b where b: "i \<in> set (tl (cs b))" by (auto simp: tails_def)
    then have m: "i \<in> set (cs b)" by (metis list.sel(2) list.set_sel(2))
    then have "i \<noteq> b" using b chain_repD(2,4) [OF tbl_repD(2) [OF nv(2) [of "[]"]], of b] by fastforce
    then show "i \<in> ?L" using m nv(4) by (auto simp: live_of_def members_def dead_heads_def)
  qed
  then have n: "card (tails cs) \<le> card ?L" by (rule card_mono [OF fin])
  have "members xs \<subseteq> to_indx (recs (nt_table (the_nt g n))) ` ?L" using l(3,4) by force
  then have "tails xs \<subseteq> to_indx (recs (nt_table (the_nt g n))) ` ?L" using tails_members by blast
  then have x: "card (tails xs) \<le> card ?L"
    using card_mono [of "to_indx (recs (nt_table (the_nt g n))) ` ?L" "tails xs"] card_image_le [OF fin] fin by (meson finite_imageI le_trans)
  have "expn_table_entries (nt_index_table (the_nt g n)) = expn_table_entries (nt_table (the_nt g n))"
    using nv(1) by (simp add: nat_shape_ok_def)
  then show ?thesis
    using expn_room [OF nv(2)] expn_room [OF nv(3)] n x c d by (simp add: has_room_def)
qed

subsection \<open>Rules that survive a move\<close>

text \<open>
  A rule of a table survives a move when its public address is still set and its checksums are those of that
  address. A rule that was added and whose public address did not change since does.
\<close>

definition movable :: "nat_globals \<Rightarrow> ipa_nat_rule \<Rightarrow> bool" where
  "movable g v \<longleftrightarrow> rule_accepted g (v4_rule_of v) \<and> installed_rule (pdns g) (v4_rule_of v) = v"

lemma v4_rule_of_view [simp]: "v4_rule_of (rule_view r) = v4_rule_of r"
  by (simp add: v4_rule_of_def rule_view_def)

lemma ucast_up_down: "LENGTH('a) \<le> LENGTH('b) \<Longrightarrow> ucast (ucast (x :: 'a::len word) :: 'b::len word) = x"
  by (rule bit_word_eqI) (auto simp: bit_ucast_iff dest: bit_imp_le_length)

lemma ucast_nibble: "unat (x :: u8) < 16 \<Longrightarrow> ucast (ucast x :: 4 word) = x"
  by (simp add: word_unat_eq_iff unsigned_ucast_eq take_bit_eq_mod unat_mod)

lemma installed_movable:
  assumes "rule_accepted g u" shows "movable g (installed_rule (pdns g) u)"
proof -
  have i: "ucast (ucast (u_pdn_index u) :: 4 word) = u_pdn_index u"
    using assms by (intro ucast_nibble) (simp add: rule_accepted_def IPA_MAX_PDN_NUM_def)
  show ?thesis using assms by (simp add: movable_def rule_accepted_def v4_rule_of_def installed_rule_def i ucast_up_down)
qed

subsection \<open>A walk with an invariant\<close>

lemma walk_list_inv:
  assumes "I A s" and "distinct xs" and "set xs \<inter> A = {}"
    and "\<And>A i s. I A s \<Longrightarrow> i \<in> set xs \<Longrightarrow> i \<notin> A \<Longrightarrow>
      \<exists>ret s'. call_walk_cb t cb i s = Some (ret, s') \<and> (if ret = 0 then I (insert i A) s' else J s') \<and> (C \<longrightarrow> ret = 0)"
  shows "\<exists>ret s'. walk_list t cb xs s = Some (ret, s') \<and> (if ret = 0 then I (set xs \<union> A) s' else J s') \<and> (C \<longrightarrow> ret = 0)"
  using assms
proof (induction xs arbitrary: A s)
  case (Cons i xs)
  obtain ret s' where c: "call_walk_cb t cb i s = Some (ret, s')" "if ret = 0 then I (insert i A) s' else J s'" "C \<longrightarrow> ret = 0"
    using Cons.prems(4) [OF Cons.prems(1), of i] Cons.prems(3) by auto
  show ?case
  proof (cases "ret = 0")
    case True
    have "\<exists>ret s''. walk_list t cb xs s' = Some (ret, s'') \<and> (if ret = 0 then I (set xs \<union> insert i A) s'' else J s'') \<and> (C \<longrightarrow> ret = 0)"
      by (rule Cons.IH) (use c True Cons.prems in auto)
    moreover have "walk_list t cb (i # xs) s = walk_list t cb xs s'" using c(1) True by simp
    moreover have "set xs \<union> insert i A = set (i # xs) \<union> A" by auto
    ultimately show ?thesis by (simp only:)
  qed (use c in simp)
qed simp

subsection \<open>One rule\<close>

lemma kept_trans: "kept a b \<Longrightarrow> kept b c \<Longrightarrow> kept a c"
  by (auto simp: kept_def intro: same_shape_trans)


definition sub_of :: "ipa3_nat_mem_in \<Rightarrow> mem_sub" where
  "sub_of n = (if n = IPA_NAT_MEM_IN_SRAM then SRAM_SUB else DDR_SUB)"

text \<open>What a move from \<open>ns\<close> to \<open>nd\<close> starts from.\<close>

definition mig_start :: "('w, 'm) nat_env_scheme \<Rightarrow> nat_globals \<Rightarrow> ipa3_nat_mem_in \<Rightarrow> ipa3_nat_mem_in \<Rightarrow> nat_spec \<Rightarrow>
    nat_maps \<Rightarrow> (u32 \<rightharpoonup> ipa_nat_rule) \<Rightarrow> bool" where
  "mig_start env g ns nd ss ms cv \<longleftrightarrow>
     IPA_VALID_NAT_MEM_IN nd \<and> ns \<noteq> nd \<and> nat_ready g ns ss \<and>
     views ms (sub_of ns) (rule_hdl_of (the_nt g ns)) (sp_rules ss) cv \<and>
     dma_faithful env (the_nt g nd) \<and> mutex_works env \<and> (\<forall>v\<in>ran (sp_rules ss). movable g v)"

text \<open>The client's handles of the rules at the positions \<open>A\<close> of the source.\<close>

definition moved_hdls :: "nat_globals \<Rightarrow> ipa3_nat_mem_in \<Rightarrow> nat_maps \<Rightarrow> nat set \<Rightarrow> u32 set" where
  "moved_hdls g ns ms A = {h. \<exists>i\<in>A. o2n ms (sub_of ns) h = Some (rule_hdl_of (the_nt g ns) i)}"

text \<open>The state after the rules at the positions \<open>A\<close> of the source were moved.\<close>

definition mig_inv :: "nat_globals \<Rightarrow> ipa3_nat_mem_in \<Rightarrow> ipa3_nat_mem_in \<Rightarrow> ipa_nati_obj \<Rightarrow> nat_maps \<Rightarrow> (u32 \<rightharpoonup> ipa_nat_rule) \<Rightarrow>
    nat set \<Rightarrow> nat_globals \<times> 'w \<times> u32 \<times> ipa_nati_obj \<times> nat_maps \<Rightarrow> bool" where
  "mig_inv g0 ns nd ob0 ms0 cv A st \<longleftrightarrow>
     (case st of (g, w, d, ob, ms) \<Rightarrow>
        d = tbl_hdl_of nd \<and> untouched g0 g ns \<and> pdns g = pdns g0 \<and> kept (the_nt g0 nd) (the_nt g nd) \<and>
        o2n ms (sub_of ns) = o2n ms0 (sub_of ns) \<and> n2o ms (sub_of ns) = n2o ms0 (sub_of ns) \<and>
        ob = ob0\<lparr>tot_rules_in_table := (tot_rules_in_table ob0)(sub_of nd := of_nat (card A))\<rparr> \<and>
        (\<exists>sd. nat_ready g nd sd \<and> card (dom (sp_rules sd)) = card A \<and>
           views ms (sub_of nd) (rule_hdl_of (the_nt g nd)) (sp_rules sd) (cv |` moved_hdls g0 ns ms0 A)))"

lemma mig_subs:
  assumes "IPA_VALID_NAT_MEM_IN ns" and "IPA_VALID_NAT_MEM_IN nd" and "ns \<noteq> nd"
  shows "(if ns = IPA_NAT_MEM_IN_SRAM then (SRAM_SUB, DDR_SUB) else (DDR_SUB, SRAM_SUB)) = (sub_of ns, sub_of nd)" "sub_of ns \<noteq> sub_of nd"
  using assms by (auto simp: sub_of_def nmi_valid_iff)

lemma moved_hdls_insert: "moved_hdls g ns ms (insert i A) = moved_hdls g ns ms A \<union> {h. o2n ms (sub_of ns) h = Some (rule_hdl_of (the_nt g ns) i)}"
  by (auto simp: moved_hdls_def)

lemma restrict_insert: "h \<notin> B \<Longrightarrow> cv h = Some v \<Longrightarrow> cv |` (B \<union> {h}) = (cv |` B)(h \<mapsto> v)"
  by (auto simp: restrict_map_def fun_eq_iff)

lemma migrate_step:
  assumes st: "mig_start env g0 ns nd ss ms0 cv" and inv: "mig_inv g0 ns nd ob0 ms0 cv A s" and fin: "finite A"
    and A: "A \<subseteq> dom (sp_rules ss)" and i: "i \<in> dom (sp_rules ss)" "i \<notin> A" and ob0: "map_pairs ob0 = map_pairs_init"
  defines "t \<equiv> nt_table (the_nt g0 ns)"
  shows "\<exists>ret s'. migrate_rule env (Inl t) s (rule_hdl_of (the_nt g0 ns) i) (Inl (recs t ! i)) ri mp mi = Some (ret, s') \<and>
     (if ret = 0 then mig_inv g0 ns nd ob0 ms0 cv (insert i A) s' else mig_inv g0 ns nd ob0 ms0 cv A s') \<and>
     (dma_accepts env \<and> card (dom (sp_rules ss)) \<le> unat (expn_table_entries (nt_table (the_nt g0 nd))) \<longrightarrow> ret = 0)"
proof -
  let ?H = "rule_hdl_of (the_nt g0 ns)" and ?r = "recs t ! i"
  obtain g w d ob ms where s: "s = (g, w, d, ob, ms)" by (metis surj_pair)
  obtain sd where mi: "d = tbl_hdl_of nd" "untouched g0 g ns" "pdns g = pdns g0" "kept (the_nt g0 nd) (the_nt g nd)"
      "o2n ms (sub_of ns) = o2n ms0 (sub_of ns)" "n2o ms (sub_of ns) = n2o ms0 (sub_of ns)"
      "ob = ob0\<lparr>tot_rules_in_table := (tot_rules_in_table ob0)(sub_of nd := of_nat (card A))\<rparr>"
    and rd: "nat_ready g nd sd" and cd: "card (dom (sp_rules sd)) = card A"
    and vw: "views ms (sub_of nd) (rule_hdl_of (the_nt g nd)) (sp_rules sd) (cv |` moved_hdls g0 ns ms0 A)"
    using inv unfolding s mig_inv_def by auto
  have v: "IPA_VALID_NAT_MEM_IN nd" "ns \<noteq> nd" and rs: "nat_ready g0 ns ss" and v0: "views ms0 (sub_of ns) ?H (sp_rules ss) cv"
    and df: "dma_faithful env (the_nt g0 nd)" and m: "mutex_works env" and mv: "\<And>v. v \<in> ran (sp_rules ss) \<Longrightarrow> movable g0 v"
    using st by (auto simp: mig_start_def)
  have vs: "IPA_VALID_NAT_MEM_IN ns" and ts: "nmi t = ns" using rs by (auto simp: nat_ready_def globals_ok_def t_def)
  note subs = mig_subs [OF vs v]
  obtain cs xs where ni: "nat_inv (the_nt g0 ns) cs xs" and sp: "spec_of (the_nt g0 ns) cs xs = ss" using rs by (auto elim!: nat_readyD)
  obtain r where r: "sp_rules ss i = Some r" using i by blast
  note l = spec_rules_live [OF r [folded sp]]
  have rv: "r = rule_view ?r" and dd: "r_protocol ?r \<noteq> IPA_NAT_INVALID_PROTO_FIELD_VALUE_IN_RULE"
    using l by (simp_all add: t_def live_of_def dead_def IPAHAL_NAT_INVALID_PROTOCOL_def IPA_NAT_INVALID_PROTO_FIELD_VALUE_IN_RULE_def)
  have mr: "movable g0 r" using mv r by (auto simp: ran_def)
  obtain h where h: "n2o ms0 (sub_of ns) (?H i) = Some h" "o2n ms0 (sub_of ns) h = Some (?H i)" "cv h = Some r" using views_handle [OF v0 r] .
  have acc: "rule_accepted g (v4_rule_of ?r)" "installed_rule (pdns g) (v4_rule_of ?r) = r"
    using mr mi(3) unfolding rv by (simp_all add: movable_def rule_accepted_def)
  obtain ret g' hdl w' where ad: "ipa_NATI_add_ipv4_rule env g (tbl_hdl_of nd) (v4_rule_of ?r) w = Some (ret, g', Some hdl, w')"
    and k: "kept (the_nt g nd) (the_nt g' nd)" "pdns g' = pdns g"
    and out: "if ret = 0
        then \<exists>j<tot_n (nt_table (the_nt g nd)). 0 < j \<and> sp_rules sd j = None \<and> hdl = rule_hdl_of (the_nt g nd) j \<and>
          nat_ready g' nd (spec_add j (nat_bucket g nd (v4_rule_of ?r)) (index_bucket g nd (v4_rule_of ?r)) (installed_rule (pdns g) (v4_rule_of ?r)) sd)
        else hdl = 0 \<and> nat_ready g' nd sd"
    and ok: "has_room (the_nt g nd) (nat_bucket g nd (v4_rule_of ?r)) (index_bucket g nd (v4_rule_of ?r)) \<and> dma_accepts env \<longrightarrow> ret = 0"
    using add_rule_ready [OF rd dma_faithful_kept [OF mi(4) df] m acc(1), of w] by blast
  have ut: "untouched g0 g' ns" using untouched_trans [OF mi(2) add_rule_untouched [OF ad v(1) vs v(2)]] .
  have kt: "kept (the_nt g0 nd) (the_nt g' nd)" using mi(4) k(1) by (rule kept_trans)
  have room: "ret = 0" if "dma_accepts env" "card (dom (sp_rules ss)) \<le> unat (expn_table_entries (nt_table (the_nt g0 nd)))"
  proof -
    have "card A < card (dom (sp_rules ss))" using A i ready_finite [OF rs] by (intro psubset_card_mono) auto
    then have "card (dom (sp_rules sd)) < unat (expn_table_entries (nt_table (the_nt g nd)))"
      using that(2) cd same_shapeD(4) [of "nt_table (the_nt g0 nd)" "nt_table (the_nt g nd)"] mi(4) by (simp add: kept_def)
    then show ?thesis using room_by_count [OF rd] ok that(1) by blast
  qed
  have len: "length ms = 5" by (rule viewsD(1) [OF vw])
  have hn: "h \<notin> moved_hdls g0 ns ms0 A"
    using h(2) A i inj_onD [OF viewsD(2) [OF v0]] by (fastforce simp: moved_hdls_def)
  have ob: "map_pairs ob = map_pairs_init" using mi(7) ob0 by simp
  let ?ob' = "ob\<lparr>tot_rules_in_table := (tot_rules_in_table ob)(sub_of nd := tot_rules_in_table ob (sub_of nd) + 1)\<rparr>"
  show ?thesis
  proof (cases "ret = 0")
    case False
    have "migrate_rule env (Inl t) s (?H i) (Inl ?r) ri mp mi = Some (ret, g', w', d, ob, ms)"
      using False ad h(1) mi dd ob len
      by (simp add: migrate_rule_def s ts subs(1) map_ops_n2o Let_def)
    moreover have "mig_inv g0 ns nd ob0 ms0 cv A (g', w', d, ob, ms)"
      using mi ut kt k out cd vw rule_hdl_kept [OF k(1)] False by (auto simp: mig_inv_def)
    ultimately show ?thesis using False room by auto
  next
    case True
    then obtain j where j: "j < tot_n (nt_table (the_nt g nd))" "sp_rules sd j = None" "hdl = rule_hdl_of (the_nt g nd) j"
      and rd': "nat_ready g' nd (spec_add j (nat_bucket g nd (v4_rule_of ?r)) (index_bucket g nd (v4_rule_of ?r)) r sd)"
      using out acc(2) by auto
    have inj: "inj_on (rule_hdl_of (the_nt g nd)) (insert j (dom (sp_rules sd)))"
      by (rule inj_onI) (use rule_hdl_inj [OF rd] ready_dom_lt [OF rd] j(1) in blast)
    have hc: "h \<notin> dom (cv |` moved_hdls g0 ns ms0 A)" using hn by simp
    note va = views_add [OF vw hc j(2) inj]
    let ?ms = "put_n2o (put_o2n ms (sub_of nd) ((o2n ms (sub_of nd))(h \<mapsto> hdl))) (sub_of nd) ((n2o ms (sub_of nd))(hdl \<mapsto> h))"
    have "migrate_rule env (Inl t) s (?H i) (Inl ?r) ri mp mi = Some (0, g', w', d, ?ob', ?ms)"
      using True ad h(1) mi dd ob len va(1,2) j(3)
      by (simp add: migrate_rule_def s ts subs(1) map_ops_n2o map_ops_o2n Let_def)
    moreover have "{h. o2n ms0 (sub_of ns) h = Some (?H i)} = {h}" using h viewsD(3) [OF v0] by auto
    then have "cv |` moved_hdls g0 ns ms0 (insert i A) = (cv |` moved_hdls g0 ns ms0 A)(h \<mapsto> r)"
      unfolding moved_hdls_insert using restrict_insert [of h _ cv r, OF hn h(3)] by simp
    then have "mig_inv g0 ns nd ob0 ms0 cv (insert i A) (g', w', d, ?ob', ?ms)"
      using mi ut kt k rd' card_spec_add [OF rd j(2)] cd va(3) [of r] rule_hdl_kept [OF k(1)] j(3) fin i(2) len subs(2)
      by (auto simp: mig_inv_def spec_add_def add.commute [of _ "1 :: u32"] intro!: exI)
    ultimately show ?thesis using True by auto
  qed
qed

subsection \<open>All rules\<close>

text \<open>The condition under which a move cannot fail.\<close>

definition mig_fits :: "('w, 'm) nat_env_scheme \<Rightarrow> nat_globals \<Rightarrow> ipa3_nat_mem_in \<Rightarrow> nat_spec \<Rightarrow> bool" where
  "mig_fits env g nd ss \<longleftrightarrow>
     dma_accepts env \<and> card (dom (sp_rules ss)) \<le> unat (expn_table_entries (nt_table (the_nt g nd)))"

lemma migrate_walk:
  fixes env :: "('w, 'm) nat_env_scheme"
  assumes st: "mig_start env g ns nd ss ms cv" and iv: "mig_inv g ns nd ob ms cv {} s" and ob: "map_pairs ob = map_pairs_init"
  defines "t \<equiv> nt_table (the_nt g ns)"
  shows "\<exists>ret s'. ipa_table_walk (entry_interface pd) t 0 WHEN_SLOT_FILLED (\<lambda>s h r. migrate_rule env (Inl t) s h (Inl r)) s = Some (ret, s') \<and>
     (if ret = 0 then mig_inv g ns nd ob ms cv (dom (sp_rules ss)) s' else \<exists>A. mig_inv g ns nd ob ms cv A s') \<and>
     (mig_fits env g nd ss \<longrightarrow> ret = 0)"
proof -
  let ?cb = "\<lambda>s h r. migrate_rule env (Inl t) s h (Inl r)" and ?D = "dom (sp_rules ss)"
  have rs: "nat_ready g ns ss" using st by (simp add: mig_start_def)
  obtain cs xs where ni: "nat_inv (the_nt g ns) cs xs" and sp: "spec_of (the_nt g ns) cs xs = ss" using rs by (auto elim!: nat_readyD)
  have rep: "tbl_rep (entry_interface pd) False t cs" unfolding t_def by (rule nat_invD(2) [OF ni])
  note ok = tbl_repD(1) [OF rep]
  have D: "?D = live (recs t) cs" using sp by (auto simp: t_def spec_of_def nat_abs_def split: if_splits)
  let ?xs = "filter (slot_matches (entry_interface pd) WHEN_SLOT_FILLED t) [0..<tot_n t]"
  have set: "set ?xs = members cs" using rep_members [OF rep] by (auto simp: slot_matches_def split: if_splits)
  have walk: "ipa_table_walk (entry_interface pd) t 0 WHEN_SLOT_FILLED ?cb s = walk_list t ?cb ?xs s"
    using ipa_table_walk_eq [OF ok, of 0 WHEN_SLOT_FILLED "entry_interface pd" ?cb s] tbl_okD(2) [OF ok] by simp
  have "\<exists>ret s'. walk_list t ?cb ?xs s = Some (ret, s') \<and>
      (if ret = 0 then mig_inv g ns nd ob ms cv ((set ?xs \<union> {}) \<inter> ?D) s' else \<exists>A. mig_inv g ns nd ob ms cv A s') \<and> (mig_fits env g nd ss \<longrightarrow> ret = 0)"
  proof (rule walk_list_inv [where I = "\<lambda>A s. mig_inv g ns nd ob ms cv (A \<inter> ?D) s"])
    fix A i and s :: "nat_globals \<times> 'w \<times> u32 \<times> ipa_nati_obj \<times> nat_maps"
    assume I: "mig_inv g ns nd ob ms cv (A \<inter> ?D) s" and i: "i \<in> set ?xs" "i \<notin> A"
    obtain mp mi where cb: "call_walk_cb t ?cb i s = migrate_rule env (Inl t) s (rule_hdl_of (the_nt g ns) i) (Inl (recs t ! i)) (of_nat i) mp mi"
      by (simp add: call_walk_cb_def rule_hdl_of_def t_def Let_def)
    show "\<exists>ret s'. call_walk_cb t ?cb i s = Some (ret, s') \<and>
        (if ret = 0 then mig_inv g ns nd ob ms cv (insert i A \<inter> ?D) s' else \<exists>A. mig_inv g ns nd ob ms cv A s') \<and> (mig_fits env g nd ss \<longrightarrow> ret = 0)"
    proof (cases "i \<in> ?D")
      case True
      have e: "insert i A \<inter> ?D = insert i (A \<inter> ?D)" using True by auto
      have "\<exists>ret s'. call_walk_cb t ?cb i s = Some (ret, s') \<and>
        (if ret = 0 then mig_inv g ns nd ob ms cv (insert i (A \<inter> ?D)) s' else mig_inv g ns nd ob ms cv (A \<inter> ?D) s') \<and> (mig_fits env g nd ss \<longrightarrow> ret = 0)"
        unfolding cb mig_fits_def by (rule migrate_step [OF st I, folded t_def]) (use True i ob ready_finite [OF rs] in auto)
      then show ?thesis unfolding e by (elim exE) (intro exI conjI, blast, meson, blast)
    next
      case False
      then have "r_protocol (recs t ! i) = IPA_NAT_INVALID_PROTO_FIELD_VALUE_IN_RULE"
        using i set D by (auto simp: live_of_def dead_def IPAHAL_NAT_INVALID_PROTOCOL_def IPA_NAT_INVALID_PROTO_FIELD_VALUE_IN_RULE_def)
      then have "call_walk_cb t ?cb i s = Some (0, s)" unfolding cb by (cases s) (simp add: migrate_rule_def Let_def split_def)
      then show ?thesis using False I by auto
    qed
  qed (use iv in simp_all)
  moreover have "(set ?xs \<union> {}) \<inter> ?D = ?D" unfolding set D by (auto simp: live_of_def)
  ultimately show ?thesis unfolding walk by (simp only:)
qed

text \<open>
  Copying with \<open>migrate_rule\<close>: with code \<open>0\<close> the client sees through the maps of the destination what it saw
  through those of the source. In any case the source and its maps are as before.
\<close>

lemma copy_moves:
  assumes st: "mig_start env g ns nd ss ms cv" and nd: "nat_ready g nd sd0"
    and cl: "o2n ms (sub_of nd) = (\<lambda>_. None)" "n2o ms (sub_of nd) = (\<lambda>_. None)"
    and ob: "map_pairs ob = map_pairs_init" "tot_rules_in_table ob (sub_of nd) = 0"
  shows "\<exists>ret g' ob' ms' w' k. ipa_nati_copy_ipv4_tbl env g (tbl_hdl_of ns) (tbl_hdl_of nd) (Some (migrate_rule env)) (ob, ms) w
        = Some (ret, g', (ob', ms'), w') \<and>
      untouched g g' ns \<and> pdns g' = pdns g \<and> kept (the_nt g nd) (the_nt g' nd) \<and>
      length ms' = 5 \<and> o2n ms' (sub_of ns) = o2n ms (sub_of ns) \<and> n2o ms' (sub_of ns) = n2o ms (sub_of ns) \<and>
      ob' = ob\<lparr>tot_rules_in_table := (tot_rules_in_table ob)(sub_of nd := of_nat k)\<rparr> \<and>
      (\<exists>sd. nat_ready g' nd sd \<and>
         (ret = 0 \<longrightarrow> k = card (dom (sp_rules sd)) \<and> views ms' (sub_of nd) (rule_hdl_of (the_nt g' nd)) (sp_rules sd) cv)) \<and>
      (mig_fits env g nd ss \<longrightarrow> ret = 0)"
proof -
  have v: "IPA_VALID_NAT_MEM_IN nd" "ns \<noteq> nd" and rs: "nat_ready g ns ss" and v0: "views ms (sub_of ns) (rule_hdl_of (the_nt g ns)) (sp_rules ss) cv"
    and df: "dma_faithful env (the_nt g nd)" and m: "mutex_works env" and mv: "\<And>v. v \<in> ran (sp_rules ss) \<Longrightarrow> movable g v"
    using st by (auto simp: mig_start_def)
  have vs: "IPA_VALID_NAT_MEM_IN ns" using rs by (auto simp: nat_ready_def globals_ok_def)
  obtain w1 where l1: "pthread_mutex_lock env w = (0, w1)" using mutex_works_lock [OF m] .
  obtain g1 w2 where c: "ipa_NATI_clear_ipv4_tbl env g (tbl_hdl_of nd) w1 = Some (0, g1, w2)" and r1: "nat_ready g1 nd spec_empty"
    using clear_tbl_ready [OF nd m] .
  note ut = clear_tbl_untouched [OF c v(1) vs v(2)] and kp = clear_kept [OF nd c]
  obtain w3 where l3: "pthread_mutex_lock env w2 = (0, w3)" using mutex_works_lock [OF m] .
  have rs1: "nat_ready g1 ns ss" and nt1: "the_nt g1 ns = the_nt g ns"
    using untouched_ready [OF ut(1)] untouched_nt [OF ut(1)] rs by simp_all
  have st1: "mig_start env g1 ns nd ss ms cv"
    using v rs1 v0 nt1 dma_faithful_kept [OF kp df] m mv ut(2) by (simp add: mig_start_def movable_def rule_accepted_def)
  have "views ms (sub_of nd) (rule_hdl_of (the_nt g1 nd)) (sp_rules spec_empty) (cv |` moved_hdls g1 ns ms {})"
    using views_empty [OF viewsD(1) [OF v0] cl] by (simp add: spec_empty_def moved_hdls_def)
  then have iv: "mig_inv g1 ns nd ob ms cv {} (g1, w3, tbl_hdl_of nd, ob, ms)"
    using r1 ob(2) by (auto simp: mig_inv_def spec_empty_def fun_upd_idem intro!: exI [of _ spec_empty])
  obtain ret g' wx d' ob' ms' where wk: "ipa_table_walk (entry_interface (pdns g1)) (nt_table (the_nt g1 ns)) 0 WHEN_SLOT_FILLED
      (\<lambda>s h r. migrate_rule env (Inl (nt_table (the_nt g1 ns))) s h (Inl r)) (g1, w3, tbl_hdl_of nd, ob, ms) = Some (ret, g', wx, d', ob', ms')"
    and fi: "if ret = 0 then mig_inv g1 ns nd ob ms cv (dom (sp_rules ss)) (g', wx, d', ob', ms') else \<exists>A. mig_inv g1 ns nd ob ms cv A (g', wx, d', ob', ms')"
    and ok: "mig_fits env g1 nd ss \<longrightarrow> ret = 0"
    using migrate_walk [OF st1 iv ob(1), of "pdns g1"] by (auto split del: if_split)
  obtain w4 where u1: "unlock_ret env ret wx = (ret, w4)" using mutex_works_unlock [OF m] .
  obtain w5 where u2: "unlock_ret env ret w4 = (ret, w5)" using mutex_works_unlock [OF m] .
  have gs: "globals_ok g1 ns" "table_cnt (the_cache g1 ns) = 1" using rs1 by (simp_all add: nat_ready_def)
  note gd = globals_okD [OF gs(1)]
  have "ipa_NATI_walk_ipv4_tbl env g1 (tbl_hdl_of ns) USE_NAT_TABLE (Some (migrate_rule env)) (tbl_hdl_of nd, ob, ms) w2 = Some (ret, g', (d', ob', ms'), w4)"
    using l3 gd gs(2) tbl_hdl_of_facts [OF vs] wk u1 by (simp add: ipa_NATI_walk_ipv4_tbl_def VALID_WHICHTBL2USE_def Let_def)
  then have run: "ipa_nati_copy_ipv4_tbl env g (tbl_hdl_of ns) (tbl_hdl_of nd) (Some (migrate_rule env)) (ob, ms) w = Some (ret, g', (ob', ms'), w5)"
    using l1 c u2 by (simp add: ipa_nati_copy_ipv4_tbl_def)
  obtain A where mA: "mig_inv g1 ns nd ob ms cv A (g', wx, d', ob', ms')" and Adef: "ret = 0 \<Longrightarrow> A = dom (sp_rules ss)"
    using fi by (cases "ret = 0") auto
  from mA obtain sd where fa: "untouched g1 g' ns" "pdns g' = pdns g1" "kept (the_nt g1 nd) (the_nt g' nd)"
      "o2n ms' (sub_of ns) = o2n ms (sub_of ns)" "n2o ms' (sub_of ns) = n2o ms (sub_of ns)"
      "ob' = ob\<lparr>tot_rules_in_table := (tot_rules_in_table ob)(sub_of nd := of_nat (card A))\<rparr>"
    and sd: "nat_ready g' nd sd" "card (dom (sp_rules sd)) = card A" "views ms' (sub_of nd) (rule_hdl_of (the_nt g' nd)) (sp_rules sd) (cv |` moved_hdls g1 ns ms A)"
    by (auto simp: mig_inv_def)
  have "cv |` moved_hdls g1 ns ms A = cv" if "ret = 0"
  proof -
    have "dom cv \<subseteq> moved_hdls g1 ns ms A"
    proof
      fix h assume "h \<in> dom cv"
      then obtain r where "cv h = Some r" by blast
      then obtain i where "o2n ms (sub_of ns) h = Some (rule_hdl_of (the_nt g ns) i)" "sp_rules ss i = Some r" by (rule views_rule [OF v0])
      then show "h \<in> moved_hdls g1 ns ms A" using that by (auto simp: Adef moved_hdls_def nt1)
    qed
    then show ?thesis by (auto simp: restrict_map_def fun_eq_iff) (metis domIff subsetD)
  qed
  then have vc: "ret = 0 \<longrightarrow> card A = card (dom (sp_rules sd)) \<and> views ms' (sub_of nd) (rule_hdl_of (the_nt g' nd)) (sp_rules sd) cv"
    using sd(2,3) by (intro impI) simp
  have fits: "mig_fits env g nd ss \<longrightarrow> ret = 0"
    using ok kp same_shapeD(4) [of "nt_table (the_nt g nd)" "nt_table (the_nt g1 nd)"] by (simp add: mig_fits_def kept_def)
  show ?thesis
    by (intro exI conjI, rule run, rule untouched_trans [OF ut(1) fa(1)], simp only: fa(2) ut(2), rule kept_trans [OF kp fa(3)],
        rule viewsD(1) [OF sd(3)], rule fa(4), rule fa(5), rule fa(6), rule sd(1), rule vc, rule fits)
qed

end
