(* ===== verification/Nat_Hybrid.thy ===== *)
theory Nat_Hybrid
  imports Nat_Migrate
begin

unbundle bit_operations_syntax

section \<open>The hybrid mode\<close>

text \<open>
  In the hybrid mode the machine has a table in SRAM and one in DDR; one of them is active. \<open>hybrid p cv\<close> is
  the invariant of this mode: the client sees the rules \<open>cv\<close> under its handles, whichever table holds them.
\<close>

subsection \<open>The invariant\<close>

definition hyb_state :: "ipa3_nat_mem_in \<Rightarrow> ipa_nati_state" where
  "hyb_state n = (if n = IPA_NAT_MEM_IN_SRAM then NATI_STATE_HYBRID else NATI_STATE_HYBRID_DDR)"

definition mem_hdl :: "ipa_nati_obj \<Rightarrow> ipa3_nat_mem_in \<Rightarrow> u32" where
  "mem_hdl ob n = (if n = IPA_NAT_MEM_IN_SRAM then sram_tbl_hdl ob else ddr_tbl_hdl ob)"

text \<open>Both tables exist and the variables that no operation of the mode changes have their values.\<close>

definition hyb_base :: "nat_prog \<Rightarrow> bool" where
  "hyb_base p \<longleftrightarrow>
     prev_state (nati_obj p) \<noteq> NATI_STATE_NULL \<and>
     map_pairs (nati_obj p) = map_pairs_init \<and> ddr_tbl_hdl (nati_obj p) = tbl_hdl_of IPA_NAT_MEM_IN_DDR \<and>
     sram_tbl_hdl (nati_obj p) = tbl_hdl_of IPA_NAT_MEM_IN_SRAM \<and> length (map_array p) = 5 \<and>
     (\<forall>n. IPA_VALID_NAT_MEM_IN n \<longrightarrow> (\<exists>s. nat_ready (nat_g p) n s))"

text \<open>The table in memory \<open>n\<close>, with its maps and its counter, shows the client the rules \<open>cv\<close>.\<close>

definition tbl_shows :: "nat_prog \<Rightarrow> ipa3_nat_mem_in \<Rightarrow> nat_spec \<Rightarrow> (u32 \<rightharpoonup> ipa_nat_rule) \<Rightarrow> bool" where
  "tbl_shows p n s cv \<longleftrightarrow>
     nat_ready (nat_g p) n s \<and> tot_rules_in_table (nati_obj p) (sub_of n) = of_nat (card (dom (sp_rules s))) \<and>
     views (map_array p) (sub_of n) (rule_hdl_of (the_nt (nat_g p) n)) (sp_rules s) cv"

definition hybrid :: "ipa3_nat_mem_in \<Rightarrow> nat_prog \<Rightarrow> (u32 \<rightharpoonup> ipa_nat_rule) \<Rightarrow> bool" where
  "hybrid n p cv \<longleftrightarrow>
     IPA_VALID_NAT_MEM_IN n \<and> curr_state (nati_obj p) = hyb_state n \<and> hyb_base p \<and> (\<exists>s. tbl_shows p n s cv) \<and>
     (\<forall>v\<in>ran cv. movable (nat_g p) v) \<and> 0 \<notin> dom cv"

text \<open>What the operations of the mode keep: the shape of the tables, the public addresses, the settings.\<close>

definition same_setting :: "nat_prog \<Rightarrow> nat_prog \<Rightarrow> bool" where
  "same_setting p p' \<longleftrightarrow>
     (\<forall>n. IPA_VALID_NAT_MEM_IN n \<longrightarrow> kept (the_nt (nat_g p) n) (the_nt (nat_g p') n)) \<and> pdns (nat_g p') = pdns (nat_g p) \<and>
     hold_state (nati_obj p') = hold_state (nati_obj p) \<and> state_to_hold (nati_obj p') = state_to_hold (nati_obj p) \<and>
     back_to_sram_thresh (nati_obj p') = back_to_sram_thresh (nati_obj p)"

lemma same_setting_refl [simp]: "same_setting p p" by (simp add: same_setting_def)

lemma same_setting_trans: "same_setting p q \<Longrightarrow> same_setting q r \<Longrightarrow> same_setting p r"
  unfolding same_setting_def by (auto intro: kept_trans)

text \<open>Also a switch on the client's request, which sets the hold, keeps the tables and the addresses.\<close>

definition same_tables :: "nat_prog \<Rightarrow> nat_prog \<Rightarrow> bool" where
  "same_tables p p' \<longleftrightarrow>
     (\<forall>n. IPA_VALID_NAT_MEM_IN n \<longrightarrow> kept (the_nt (nat_g p) n) (the_nt (nat_g p') n)) \<and> pdns (nat_g p') = pdns (nat_g p) \<and>
     back_to_sram_thresh (nati_obj p') = back_to_sram_thresh (nati_obj p)"

lemma same_setting_tables: "same_setting p p' \<Longrightarrow> same_tables p p'" by (simp add: same_setting_def same_tables_def)

text \<open>The environment: the mutex, votes and initialisation commands work, the DMA engine is faithful to both tables.\<close>

definition hyb_env :: "('w, 'm) sm_env_scheme \<Rightarrow> nat_prog \<Rightarrow> bool" where
  "hyb_env env p \<longleftrightarrow> sm_mutex_works env \<and> votes_work env \<and> (\<forall>f c w. fst (ioctl_v4_init env f c w) = 0) \<and>
     (\<forall>n. IPA_VALID_NAT_MEM_IN n \<longrightarrow> dma_faithful env (the_nt (nat_g p) n))"

lemma hyb_env_tables: "hyb_env env p \<Longrightarrow> same_tables p p' \<Longrightarrow> hyb_env env p'"
  unfolding hyb_env_def same_tables_def by (meson dma_faithful_kept)

lemmas hyb_env_same = hyb_env_tables [OF _ same_setting_tables]

lemma hyb_env_mutex: "hyb_env env p \<Longrightarrow> sm_mutex_works env" "hyb_env env p \<Longrightarrow> mutex_works env" "hyb_env env p \<Longrightarrow> votes_work env"
  by (simp_all add: hyb_env_def sm_mutex_works_def)

lemma valid_mems [simp]: "IPA_VALID_NAT_MEM_IN IPA_NAT_MEM_IN_DDR" "IPA_VALID_NAT_MEM_IN IPA_NAT_MEM_IN_SRAM"
  by (simp_all add: nmi_valid_iff)

lemma base_sram_open: "hyb_base p \<Longrightarrow> sram_open p"
  unfolding hyb_base_def sram_open_def by (metis nat_ready_def globals_ok_def valid_mems(2))

lemma mem_hdl_base: "hyb_base p \<Longrightarrow> IPA_VALID_NAT_MEM_IN n \<Longrightarrow> mem_hdl (nati_obj p) n = tbl_hdl_of n"
  by (auto simp: mem_hdl_def hyb_base_def nmi_valid_iff)

lemma hyb_state_simps [simp]:
  "hyb_state IPA_NAT_MEM_IN_SRAM = NATI_STATE_HYBRID" "hyb_state IPA_NAT_MEM_IN_DDR = NATI_STATE_HYBRID_DDR"
  "hyb_state n = NATI_STATE_HYBRID \<longleftrightarrow> n = IPA_NAT_MEM_IN_SRAM" "hyb_state n \<noteq> NATI_STATE_NULL"
  by (simp_all add: hyb_state_def)

subsection \<open>Changing the active table\<close>

definition goto_trig :: "ipa3_nat_mem_in \<Rightarrow> ipa_nati_trigger" where
  "goto_trig n = (if n = IPA_NAT_MEM_IN_SRAM then NATI_TRIG_GOTO_SRAM else NATI_TRIG_GOTO_DDR)"

lemma post_init_ready:
  assumes r: "nat_ready g n s" and m: "mutex_works env" and i: "\<forall>f c w. fst (ioctl_v4_init env f c w) = 0"
  obtains w' where "ipa_NATI_post_ipv4_init_cmd env g (tbl_hdl_of n) w = Some (0, g\<lparr>active_nat_cache := Some n\<rparr>, w')"
proof -
  obtain d where g: "globals_ok g n" and d: "ipa_desc (the_cache g n) = Some d" using nat_readyD [OF r] by metis
  note gd = globals_okD [OF g]
  obtain w1 where w1: "pthread_mutex_lock env w = (0, w1)" using mutex_works_lock [OF m] .
  obtain w2 where w2: "ipa_nati_post_ipv4_init_cmd env (the_cache g n) (the_nt g n) 0 True w1 = Some (0, w2)"
    using d i by (simp add: ipa_nati_post_ipv4_init_cmd_def Let_def) (metis prod.collapse)
  obtain w3 where w3: "unlock_ret env 0 w2 = (0, w3)" using mutex_works_unlock [OF m] .
  show thesis by (rule that)
    (use r gd w1 w2 w3 tbl_hdl_of_facts(1) [OF gd(1)] in \<open>simp add: ipa_NATI_post_ipv4_init_cmd_def nat_ready_def Let_def\<close>)
qed

lemma goto_ok:
  fixes env :: "('w, 'm) sm_env_scheme"
  assumes e: "hyb_env env p" and b: "hyb_base p" and c: "curr_state (nati_obj p) = hyb_state m" and n: "IPA_VALID_NAT_MEM_IN n"
  shows "\<exists>(out :: 'a sm_out) p' w'. statemach_n (Suc k) env (goto_trig n) No_Args p w = Some (0, out, p', w') \<and>
     nati_obj p' = (nati_obj p)\<lparr>prev_state := curr_state (nati_obj p), curr_state := hyb_state n\<rparr> \<and>
     nat_g p' = (nat_g p)\<lparr>active_nat_cache := Some n\<rparr> \<and> map_array p' = map_array p"
proof (rule run_machine_n)
  show "sm_mutex_works env" by (rule hyb_env_mutex(1) [OF e])
  fix q w1 assume q: "same_vars p q"
  obtain s where s: "nat_ready (nat_g p) n s" using b n by (auto simp: hyb_base_def)
  have i: "\<forall>f c w. fst (ioctl_v4_init env f c w) = 0" using e by (simp add: hyb_env_def)
  obtain w2 where w2: "ipa_NATI_post_ipv4_init_cmd env (nat_g p) (tbl_hdl_of n) w1 = Some (0, (nat_g p)\<lparr>active_nat_cache := Some n\<rparr>, w2)"
    using post_init_ready [OF s hyb_env_mutex(2) [OF e] i] .
  have cb: "state_mach_tbl env (statemach_n k env) (curr_state (nati_obj p)) (goto_trig n) =
      (if n = IPA_NAT_MEM_IN_SRAM then smGoToSram env (statemach_n k env) else smGoToDdr env (statemach_n k env) :: ('w, 'a) sm_fun)"
    unfolding c hyb_state_def goto_trig_def by (auto simp: state_mach_tbl_def)
  show "\<exists>ret (out :: 'a sm_out) p' w'. state_mach_tbl env (statemach_n k env) (curr_state (nati_obj p)) (goto_trig n) (goto_trig n) No_Args q w1
      = Some (ret, out, p', w') \<and> nati_obj p' = (nati_obj p)\<lparr>prev_state := curr_state (nati_obj p), curr_state := hyb_state n\<rparr> \<and>
     nat_g p' = (nat_g p)\<lparr>active_nat_cache := Some n\<rparr> \<and> map_array p' = map_array p"
    unfolding cb using w2 q b n
    by (auto simp: smGoToSram_def smGoToDdr_def same_vars_def hyb_base_def hyb_state_def nmi_valid_iff)
next
  assume "VOTE_REQUIRED (goto_trig n) p"
  show "votes_work env \<and> sram_open p \<and> (\<forall>(out :: 'a sm_out) p'. nati_obj p' = (nati_obj p)\<lparr>prev_state := curr_state (nati_obj p), curr_state := hyb_state n\<rparr> \<and>
     nat_g p' = (nat_g p)\<lparr>active_nat_cache := Some n\<rparr> \<and> map_array p' = map_array p \<longrightarrow> sram_open p')"
    using base_sram_open [OF b] hyb_env_mutex(3) [OF e] by (simp add: sram_open_def)
qed

subsection \<open>Switching\<close>

text \<open>The two switches are the same code with the roles of the memories exchanged.\<close>

definition switch_mem ::
    "('w, 'm) sm_env_scheme \<Rightarrow> ('w, 'a) sm_fun \<Rightarrow> ipa3_nat_mem_in \<Rightarrow> ipa3_nat_mem_in \<Rightarrow> nat_prog \<Rightarrow> 'w
     \<Rightarrow> (int \<times> 'a sm_out \<times> nat_prog \<times> 'w) option" where
  "switch_mem env sm ns nd p w =
     do {
       let stats_sub = CHOOSE_MEM_SUB p;
       let (_, w) = currTimeAs env TimeAsNanSecs w;
       (ret, _, p, w) \<leftarrow> sm (goto_trig nd) No_Args p w;
       if ret \<noteq> 0 then Some (ret, no_out, p, w)
       else do {
         p \<leftarrow> clear_maps (sub_of nd) (on_cnt (sub_of nd) (\<lambda>_. 0) p);
         (ret, g, (ob, ms), w) \<leftarrow>
           ipa_nati_copy_ipv4_tbl env (nat_g p) (mem_hdl (nati_obj p) ns) (mem_hdl (nati_obj p) nd)
             (Some (migrate_rule env)) (nati_obj p, map_array p) w;
         let p = p\<lparr>nat_g := g, nati_obj := ob, map_array := ms\<rparr>;
         let (_, w) = currTimeAs env TimeAsNanSecs w;
         let p = on_stats stats_sub (\<lambda>s. if ret = 0 then s\<lparr>sw_pass := sw_pass s + 1\<rparr> else s\<lparr>sw_fail := sw_fail s + 1\<rparr>) p;
         Some (ret, no_out, p, w)
       }
     }"

lemma mem_simps:
  "sub_of IPA_NAT_MEM_IN_SRAM = SRAM_SUB" "sub_of IPA_NAT_MEM_IN_DDR = DDR_SUB"
  "mem_hdl ob IPA_NAT_MEM_IN_SRAM = sram_tbl_hdl ob" "mem_hdl ob IPA_NAT_MEM_IN_DDR = ddr_tbl_hdl ob"
  "goto_trig IPA_NAT_MEM_IN_SRAM = NATI_TRIG_GOTO_SRAM" "goto_trig IPA_NAT_MEM_IN_DDR = NATI_TRIG_GOTO_DDR"
  by (simp_all add: sub_of_def mem_hdl_def goto_trig_def)

lemma switch_callbacks:
  "smSwitchFromSramToDdr env sm t No_Args = switch_mem env sm IPA_NAT_MEM_IN_SRAM IPA_NAT_MEM_IN_DDR"
  "smSwitchFromDdrToSram env sm t No_Args = switch_mem env sm IPA_NAT_MEM_IN_DDR IPA_NAT_MEM_IN_SRAM"
  unfolding smSwitchFromSramToDdr_def smSwitchFromDdrToSram_def switch_mem_def fun_eq_iff mem_simps sm_args.case
  by (simp_all add: Let_def)

lemma clear_maps_ok:
  assumes "map_pairs (nati_obj p) = map_pairs_init" and "length (map_array p) = 5"
  shows "clear_maps sub p = Some (p\<lparr>map_array := put_n2o (put_o2n (map_array p) sub (\<lambda>_. None)) sub (\<lambda>_. None)\<rparr>)"
  using assms by (simp add: clear_maps_def map_ops_o2n map_ops_n2o Let_def)

lemma switch_mem_ok:
  assumes e: "hyb_env env p" and h: "hybrid ns p cv" and nd: "IPA_VALID_NAT_MEM_IN nd" "ns \<noteq> nd"
  shows "\<exists>ret p' w'. switch_mem env (statemach_n (Suc k) env) ns nd p w = Some (ret, no_out :: 'a sm_out, p', w') \<and>
     same_setting p p' \<and> hyb_base p' \<and> curr_state (nati_obj p') = hyb_state nd \<and>
     (ret = 0 \<longrightarrow> hybrid nd p' cv) \<and>
     (dma_accepts env \<and> card (dom cv) \<le> unat (expn_table_entries (nt_table (the_nt (nat_g p) nd))) \<longrightarrow> ret = 0)"
proof -
  obtain s where b: "hyb_base p" and c: "curr_state (nati_obj p) = hyb_state ns" and sh: "tbl_shows p ns s cv"
    and mv: "\<And>v. v \<in> ran cv \<Longrightarrow> movable (nat_g p) v" "0 \<notin> dom cv" and ns: "IPA_VALID_NAT_MEM_IN ns"
    using h by (auto simp: hybrid_def)
  have rs: "nat_ready (nat_g p) ns s" and vw: "views (map_array p) (sub_of ns) (rule_hdl_of (the_nt (nat_g p) ns)) (sp_rules s) cv"
    using sh by (simp_all add: tbl_shows_def)
  obtain sd0 where sd0: "nat_ready (nat_g p) nd sd0" using b nd(1) by (auto simp: hyb_base_def)
  obtain w1 tm where t1: "currTimeAs env TimeAsNanSecs w = (tm, w1)" by fastforce
  obtain out :: "'a sm_out" and p1 w2 where go: "statemach_n (Suc k) env (goto_trig nd) No_Args p w1 = Some (0, out, p1, w2)"
    and p1: "nati_obj p1 = (nati_obj p)\<lparr>prev_state := curr_state (nati_obj p), curr_state := hyb_state nd\<rparr>"
      "nat_g p1 = (nat_g p)\<lparr>active_nat_cache := Some nd\<rparr>" "map_array p1 = map_array p"
    using goto_ok [OF e b c nd(1)] by blast
  let ?g = "(nat_g p)\<lparr>active_nat_cache := Some nd\<rparr>"
  define p2 where "p2 = on_cnt (sub_of nd) (\<lambda>_. 0) p1"
  define ms where "ms = put_n2o (put_o2n (map_array p) (sub_of nd) (\<lambda>_. None)) (sub_of nd) (\<lambda>_. None)"
  have bs: "map_pairs (nati_obj p) = map_pairs_init" "length (map_array p) = 5" using b by (auto simp: hyb_base_def)
  have cl: "clear_maps (sub_of nd) p2 = Some (p2\<lparr>map_array := ms\<rparr>)"
    using clear_maps_ok [of p2 "sub_of nd"] bs p1 by (simp add: p2_def ms_def)
  have p2: "nat_g p2 = ?g" "map_pairs (nati_obj p2) = map_pairs_init" "tot_rules_in_table (nati_obj p2) (sub_of nd) = 0"
    using p1 bs by (simp_all add: p2_def)
  have subs: "sub_of ns \<noteq> sub_of nd" by (rule mig_subs(2) [OF ns nd])
  have msf: "length ms = 5" "o2n ms (sub_of nd) = (\<lambda>_. None)" "n2o ms (sub_of nd) = (\<lambda>_. None)"
      "o2n ms (sub_of ns) = o2n (map_array p) (sub_of ns)" "n2o ms (sub_of ns) = n2o (map_array p) (sub_of ns)"
    using bs(2) subs by (simp_all add: ms_def)
  have ar: "nat_ready ?g n x = nat_ready (nat_g p) n x" "movable ?g v = movable (nat_g p) v" for n x v
    by (simp_all add: nat_ready_def globals_ok_def movable_def rule_accepted_def)
  have st: "mig_start env ?g ns nd s ms cv"
    using nd rs views_cong [OF vw msf(1,4,5)] e views_ran [OF vw] mv hyb_env_mutex(2) [OF e]
    by (simp add: mig_start_def ar hyb_env_def)
  obtain ret g' ob' ms' w3 k' where cp: "ipa_nati_copy_ipv4_tbl env ?g (tbl_hdl_of ns) (tbl_hdl_of nd) (Some (migrate_rule env)) (nati_obj p2, ms) w2
        = Some (ret, g', (ob', ms'), w3)"
    and fr: "untouched ?g g' ns" "pdns g' = pdns ?g" "kept (the_nt ?g nd) (the_nt g' nd)" "length ms' = 5"
    and ob': "ob' = (nati_obj p2)\<lparr>tot_rules_in_table := (tot_rules_in_table (nati_obj p2))(sub_of nd := of_nat k')\<rparr>"
    and res: "\<exists>sd. nat_ready g' nd sd \<and>
         (ret = 0 \<longrightarrow> k' = card (dom (sp_rules sd)) \<and> views ms' (sub_of nd) (rule_hdl_of (the_nt g' nd)) (sp_rules sd) cv)"
    and fits: "mig_fits env ?g nd s \<longrightarrow> ret = 0"
    using copy_moves [OF st, of sd0 "nati_obj p2" w2] sd0 msf(2,3) p2(2,3) unfolding ar by blast
  obtain tm2 w4 where t2: "currTimeAs env TimeAsNanSecs w3 = (tm2, w4)" by fastforce
  define p' where "p' = on_stats (CHOOSE_MEM_SUB p) (\<lambda>s. if ret = 0 then s\<lparr>sw_pass := sw_pass s + 1\<rparr> else s\<lparr>sw_fail := sw_fail s + 1\<rparr>)
      (p2\<lparr>map_array := ms, nat_g := g', nati_obj := ob', map_array := ms'\<rparr>)"
  have hd: "mem_hdl (nati_obj p2) ns = tbl_hdl_of ns" "mem_hdl (nati_obj p2) nd = tbl_hdl_of nd"
    using mem_hdl_base [OF b ns] mem_hdl_base [OF b nd(1)] p1(1) by (simp_all add: p2_def mem_hdl_def split: if_splits)
  have run: "switch_mem env (statemach_n (Suc k) env) ns nd p w = Some (ret, no_out :: 'a sm_out, p', w4)"
    unfolding switch_mem_def Let_def t1 prod.case using go cl cp t2 p2(1) hd by (simp add: p2_def [symmetric] p'_def Let_def)
  have gp: "nat_g p' = g'" "map_array p' = ms'" "curr_state (nati_obj p') = hyb_state nd"
    "tot_rules_in_table (nati_obj p') (sub_of nd) = of_nat k'" using ob' p1(1) by (simp_all add: p'_def p2_def)
  have rdy: "nat_ready g' ns s" using untouched_ready [OF fr(1)] rs ar(1) by simp
  have vn: "n = ns \<or> n = nd" if "IPA_VALID_NAT_MEM_IN n" for n using that ns nd by (auto simp: nmi_valid_iff)
  have base: "hyb_base p'"
    using b c res rdy vn fr(4) ob' p1(1) gp by (auto simp: hyb_base_def p'_def p2_def)
  have "kept (the_nt (nat_g p) n) (the_nt g' n)" if "IPA_VALID_NAT_MEM_IN n" for n
    using vn [OF that] fr(3) untouched_nt [OF fr(1)] by auto
  then have set: "same_setting p p'"
    using fr(2) ob' p1 by (simp add: same_setting_def p'_def p2_def)
  have "hybrid nd p' cv" if "ret = 0"
    using that base gp res nd mv fr(2) by (auto simp: hybrid_def tbl_shows_def movable_def rule_accepted_def)
  moreover have "dma_accepts env \<and> card (dom cv) \<le> unat (expn_table_entries (nt_table (the_nt (nat_g p) nd))) \<longrightarrow> ret = 0"
    using fits views_card [OF vw] by (simp add: mig_fits_def)
  ultimately show ?thesis using run set base gp(3) by blast
qed

lemma hybrid_same_vars: "same_vars p q \<Longrightarrow> hybrid n q cv = hybrid n p cv" "same_vars p q \<Longrightarrow> hyb_env env q = hyb_env env p"
  "same_vars p q \<Longrightarrow> same_setting q r = same_setting p r"
  by (simp_all add: same_vars_def hybrid_def hyb_base_def tbl_shows_def hyb_env_def same_setting_def)

text \<open>The condition under which all rules find a place in the other memory.\<close>

definition fits_in :: "('w, 'm) nat_env_scheme \<Rightarrow> nat_prog \<Rightarrow> ipa3_nat_mem_in \<Rightarrow> (u32 \<rightharpoonup> 'r) \<Rightarrow> bool" where
  "fits_in env p n cv \<longleftrightarrow> dma_accepts env \<and> card (dom cv) \<le> unat (expn_table_entries (nt_table (the_nt (nat_g p) n)))"

lemma fits_in_same: "same_setting p p' \<Longrightarrow> IPA_VALID_NAT_MEM_IN n \<Longrightarrow> fits_in env p' n cv = fits_in env p n cv"
  using same_shapeD(4) [of "nt_table (the_nt (nat_g p) n)" "nt_table (the_nt (nat_g p') n)"]
  by (simp add: same_setting_def fits_in_def kept_def)

lemma switch_machine:
  fixes env :: "('w, 'm) sm_env_scheme"
  assumes e: "hyb_env env p" and h: "hybrid ns p cv" and nd: "IPA_VALID_NAT_MEM_IN nd" "ns \<noteq> nd"
  shows "\<exists>(out :: 'a sm_out) p' w'. statemach_n (Suc (Suc k)) env NATI_TRIG_TBL_SWITCH No_Args p w = Some (0, out, p', w') \<and>
     same_setting p p' \<and> hyb_base p' \<and> curr_state (nati_obj p') = hyb_state nd \<and> (fits_in env p nd cv \<longrightarrow> hybrid nd p' cv)"
proof (rule run_machine_n)
  show "sm_mutex_works env" by (rule hyb_env_mutex(1) [OF e])
  have ns: "IPA_VALID_NAT_MEM_IN ns" "curr_state (nati_obj p) = hyb_state ns" "hyb_base p" using h by (simp_all add: hybrid_def)
  have cb: "state_mach_tbl env (statemach_n (Suc k) env) (curr_state (nati_obj p)) NATI_TRIG_TBL_SWITCH NATI_TRIG_TBL_SWITCH No_Args =
      (switch_mem env (statemach_n (Suc k) env) ns nd :: nat_prog \<Rightarrow> 'w \<Rightarrow> (int \<times> 'a sm_out \<times> nat_prog \<times> 'w) option)"
    using ns(1) nd unfolding ns(2) by (auto simp: nmi_valid_iff state_mach_tbl_def switch_callbacks)
  fix q w1 assume q: "same_vars p q"
  have "\<exists>ret p' w'. switch_mem env (statemach_n (Suc k) env) ns nd q w1 = Some (ret, no_out :: 'a sm_out, p', w') \<and>
     same_setting q p' \<and> hyb_base p' \<and> curr_state (nati_obj p') = hyb_state nd \<and>
     (ret = 0 \<longrightarrow> hybrid nd p' cv) \<and>
     (dma_accepts env \<and> card (dom cv) \<le> unat (expn_table_entries (nt_table (the_nt (nat_g q) nd))) \<longrightarrow> ret = 0)"
    by (rule switch_mem_ok) (use e h nd hybrid_same_vars(1) [OF q] hybrid_same_vars(2) [OF q, of env] in simp_all)
  then show "\<exists>ret (out :: 'a sm_out) p' w'. state_mach_tbl env (statemach_n (Suc k) env) (curr_state (nati_obj p)) NATI_TRIG_TBL_SWITCH NATI_TRIG_TBL_SWITCH No_Args q w1
      = Some (ret, out, p', w') \<and> same_setting p p' \<and> hyb_base p' \<and> curr_state (nati_obj p') = hyb_state nd \<and> (fits_in env p nd cv \<longrightarrow> hybrid nd p' cv)"
    using q unfolding cb fits_in_def hybrid_same_vars(3) [OF q] by (fastforce simp: same_vars_def)
next
  have "hyb_base p" using h by (simp add: hybrid_def)
  then show "votes_work env \<and> sram_open p \<and> (\<forall>(out :: 'a sm_out) p'. same_setting p p' \<and> hyb_base p' \<and> curr_state (nati_obj p') = hyb_state nd \<and>
      (fits_in env p nd cv \<longrightarrow> hybrid nd p' cv) \<longrightarrow> sram_open p')"
    using hyb_env_mutex(3) [OF e] base_sram_open by blast
qed

lemma give_mutex_ok:
  assumes "sm_mutex_works env" and "nat_mutex_init p" obtains w' where "give_mutex env p w = (0, w')"
  using assms mutex_works_unlock [of env w] that by (auto simp: give_mutex_def sm_mutex_works_def)

lemma hybrid_obj:
  assumes "nati_obj p' = nati_obj p\<lparr>hold_state := x, state_to_hold := y\<rparr>" "nat_g p' = nat_g p" "map_array p' = map_array p"
  shows "hybrid n p' cv = hybrid n p cv"
  using assms by (simp add: hybrid_def hyb_base_def tbl_shows_def)

lemma on_obj_hold:
  "\<exists>x y. nati_obj (on_obj (\<lambda>o'. if hold then o'\<lparr>hold_state := hold, state_to_hold := h\<rparr> else o'\<lparr>hold_state := hold\<rparr>) p)
      = nati_obj p\<lparr>hold_state := x, state_to_hold := y\<rparr> \<and> x = hold"
  by (rule exI [of _ hold], rule exI [of _ "if hold then h else state_to_hold (nati_obj p)"]) simp

lemma switch_to_hybrid:
  assumes e: "hyb_env env p" and h: "hybrid ns p cv" and n: "IPA_VALID_NAT_MEM_IN n" and f: "n \<noteq> ns \<Longrightarrow> fits_in env p n cv"
  shows "\<exists>p' w'. ipa_nat_switch_to env n hold p w = Some (0, p', w') \<and> hybrid n p' cv \<and> hold_state (nati_obj p') = hold \<and>
     same_tables p p'"
proof -
  have ns: "IPA_VALID_NAT_MEM_IN ns" "curr_state (nati_obj p) = hyb_state ns" "prev_state (nati_obj p) \<noteq> NATI_STATE_NULL"
    using h by (simp_all add: hybrid_def hyb_base_def)
  note m = hyb_env_mutex(1) [OF e]
  obtain q w1 where t: "take_mutex env p w = (0, q, w1)" and q: "same_vars p q"
    by (rule take_mutex_ok [OF m, of p w]) (simp add: same_vars_def)
  have st: "\<not> IN_UNSTARTED_STATE q" "IN_HYBRID_STATE q" "COMPATIBLE_NMI_4SWITCH n q \<longleftrightarrow> n \<noteq> ns"
    using q ns n by (auto simp: same_vars_def IN_UNSTARTED_STATE_def IN_HYBRID_STATE_def COMPATIBLE_NMI_4SWITCH_def hyb_state_def nmi_valid_iff)
  obtain p1 w2 where s: "(if COMPATIBLE_NMI_4SWITCH n q
                     then do {
                       (ret, _ :: unit sm_out, p, w) \<leftarrow> ipa_nati_statemach env NATI_TRIG_TBL_SWITCH No_Args q w1;
                       Some (ret, p, w)
                     }
                     else Some (0, q, w1)) = Some (0, p1, w2)" and p1: "hybrid n p1 cv" "nat_mutex_init p1" "same_setting p p1"
  proof (cases "n = ns")
    case True
    then show thesis using that [of q w1] st(3) h hybrid_same_vars(1) [OF q] q by (simp add: same_vars_def same_setting_def)
  next
    case False
    have f': "fits_in env q n cv" using f [OF False] q by (simp add: fits_in_def same_vars_def)
    have "\<exists>(out :: unit sm_out) p' w'. statemach_n (Suc (Suc 1)) env NATI_TRIG_TBL_SWITCH No_Args q w1 = Some (0, out, p', w') \<and>
     same_setting q p' \<and> hyb_base p' \<and> curr_state (nati_obj p') = hyb_state n \<and> (fits_in env q n cv \<longrightarrow> hybrid n p' cv)"
      by (rule switch_machine) (use e h n False hybrid_same_vars(1) [OF q] hybrid_same_vars(2) [OF q, of env] in auto)
    then obtain out :: "unit sm_out" and p1 w2 where r: "ipa_nati_statemach env NATI_TRIG_TBL_SWITCH No_Args q w1 = Some (0, out, p1, w2)"
      and hp: "hybrid n p1 cv" "same_setting p p1"
      using f' hybrid_same_vars(3) [OF q] by (auto simp: ipa_nati_statemach_def eval_nat_numeral simp del: statemach_n.simps)
    have "nat_mutex_init p1"
      by (rule keeps_initD [OF machine_keeps_init r [unfolded ipa_nati_statemach_def]]) (use q in \<open>simp add: same_vars_def\<close>)
    then show thesis using that [of p1 w2] st(3) False r hp by simp
  qed
  let ?p = "on_obj (\<lambda>o'. if hold then o'\<lparr>hold_state := hold, state_to_hold := GEN_HOLD_STATE p1\<rparr> else o'\<lparr>hold_state := hold\<rparr>) p1"
  obtain w3 where gm: "give_mutex env ?p w2 = (0, w3)" using give_mutex_ok [OF m, of ?p] p1(2) by auto
  have "ipa_nat_switch_to env n hold p w = Some (0, ?p, w3)"
    unfolding ipa_nat_switch_to_def t prod.case Let_def s using st(1,2) n gm by simp
  moreover obtain x y where xy: "nati_obj ?p = nati_obj p1\<lparr>hold_state := x, state_to_hold := y\<rparr>" "x = hold" using on_obj_hold by blast
  have "hybrid n ?p cv" "hold_state (nati_obj ?p) = hold" using hybrid_obj [OF xy(1)] p1(1) xy(2) by auto
  moreover have "same_tables p ?p" using same_setting_tables [OF p1(3)] xy(1) by (simp add: same_tables_def)
  ultimately show ?thesis by blast
qed

subsection \<open>Adding a rule\<close>

lemma hyb_choose:
  assumes "hybrid n p cv"
  shows "CHOOSE_MEM_SUB p = sub_of n"
    and "CHOOSE_MAPS p = (orig2new_map (map_pairs_init (sub_of n)), new2orig_map (map_pairs_init (sub_of n)))"
    and "hybrid_hdl p (tbl_hdl_of IPA_NAT_MEM_IN_SRAM) = tbl_hdl_of n"
  using assms by (auto simp: hybrid_def hyb_base_def CHOOSE_MEM_SUB_def CHOOSE_MAPS_def hybrid_hdl_def hyb_state_def sub_of_def nmi_valid_iff Let_def)

text \<open>The maps after the handle \<open>h\<close> was entered as its own original.\<close>

definition enter_hdl :: "mem_sub \<Rightarrow> u32 \<Rightarrow> nat_prog \<Rightarrow> nat_prog" where
  "enter_hdl sub h p = p\<lparr>map_array :=
     put_n2o (put_o2n (map_array p) sub ((o2n (map_array p) sub)(h \<mapsto> h))) sub ((n2o (map_array p) sub)(h \<mapsto> h))\<rparr>"

text \<open>
  After an addition whose handle the client holds already: the maps name the client's rules \<open>cv\<close> as before, and the
  table holds one rule more, \<open>v\<close>, which no handle of the client reaches.
\<close>

definition orphaned :: "ipa3_nat_mem_in \<Rightarrow> nat_prog \<Rightarrow> (u32 \<rightharpoonup> ipa_nat_rule) \<Rightarrow> ipa_nat_rule \<Rightarrow> bool" where
  "orphaned n p cv v \<longleftrightarrow>
     IPA_VALID_NAT_MEM_IN n \<and> curr_state (nati_obj p) = hyb_state n \<and> hyb_base p \<and>
     (\<exists>s i. nat_ready (nat_g p) n s \<and> sp_rules s i = Some v \<and>
        views (map_array p) (sub_of n) (rule_hdl_of (the_nt (nat_g p) n)) ((sp_rules s)(i := None)) cv)"

lemma hyb_add_tbl:
  assumes e: "hyb_env env p" and h: "hybrid n p cv" and u: "rule_accepted (nat_g p) u"
  shows "\<exists>ret hdl p1 w1. smAddRuleToTbl env sm t (Add_Rule_Args (tbl_hdl_of n) u) p w
       = Some (ret, no_out\<lparr>o_rule_hdl := Some hdl, o_clnt_rule := Some (client_rule u)\<rparr>, p1, w1) \<and>
     same_setting p p1 \<and> hyb_base p1 \<and> nati_obj p1 = nati_obj p\<lparr>tot_rules_in_table := tot_rules_in_table (nati_obj p1)\<rparr> \<and>
     map_array p1 = map_array p \<and>
     (if ret = 0
      then hdl \<noteq> 0 \<and> (hdl \<notin> dom cv \<longrightarrow> o2n (map_array p) (sub_of n) hdl = None \<and> n2o (map_array p) (sub_of n) hdl = None \<and>
             hybrid n (enter_hdl (sub_of n) hdl p1) (cv(hdl \<mapsto> installed_rule (pdns (nat_g p)) (client_rule u)))) \<and>
           (hdl \<in> dom cv \<longrightarrow> orphaned n p1 cv (installed_rule (pdns (nat_g p)) (client_rule u)))
      else hdl = 0 \<and> hybrid n p1 cv) \<and>
     (dma_accepts env \<and> card (dom cv) < unat (expn_table_entries (nt_table (the_nt (nat_g p) n))) \<longrightarrow> ret = 0)"
proof -
  let ?g = "nat_g p" and ?u = "client_rule u" and ?H = "rule_hdl_of (the_nt (nat_g p) n)"
  let ?v = "installed_rule (pdns ?g) ?u"
  obtain s where n: "IPA_VALID_NAT_MEM_IN n" and c: "curr_state (nati_obj p) = hyb_state n" and b: "hyb_base p"
    and r: "nat_ready ?g n s" and cnt: "tot_rules_in_table (nati_obj p) (sub_of n) = of_nat (card (dom (sp_rules s)))"
    and vw: "views (map_array p) (sub_of n) ?H (sp_rules s) cv" and mv: "\<And>v. v \<in> ran cv \<Longrightarrow> movable ?g v" "0 \<notin> dom cv"
    using h by (auto simp: hybrid_def tbl_shows_def)
  have df: "dma_faithful env (the_nt ?g n)" using e n by (simp add: hyb_env_def)
  have u': "rule_accepted ?g ?u" using u by simp
  obtain ret g' hdl w1 where a: "ipa_NATI_add_ipv4_rule env ?g (tbl_hdl_of n) ?u w = Some (ret, g', Some hdl, w1)"
    and k: "kept (the_nt ?g n) (the_nt g' n)" "pdns g' = pdns ?g"
    and out: "if ret = 0 then \<exists>i < tot_n (nt_table (the_nt ?g n)). 0 < i \<and> sp_rules s i = None \<and> hdl = ?H i \<and>
                   nat_ready g' n (spec_add i (nat_bucket ?g n ?u) (index_bucket ?g n ?u) ?v s)
            else hdl = 0 \<and> nat_ready g' n s"
    and ok: "has_room (the_nt ?g n) (nat_bucket ?g n ?u) (index_bucket ?g n ?u) \<and> dma_accepts env \<longrightarrow> ret = 0"
    using add_rule_ready [OF r df hyb_env_mutex(2) [OF e] u', of w] by blast
  define p1 where "p1 = (if ret = 0 then on_cnt (sub_of n) (\<lambda>c. c + 1) (p\<lparr>nat_g := g'\<rparr>) else p\<lparr>nat_g := g'\<rparr>)"
  have sub: "CHOOSE_MEM_SUB (p\<lparr>nat_g := g'\<rparr>) = sub_of n" using hyb_choose(1) [OF h] by (simp add: CHOOSE_MEM_SUB_def)
  have run: "smAddRuleToTbl env sm t (Add_Rule_Args (tbl_hdl_of n) u) p w
       = Some (ret, no_out\<lparr>o_rule_hdl := Some hdl, o_clnt_rule := Some ?u\<rparr>, p1, w1)"
    using a sub by (simp add: smAddRuleToTbl_def client_rule_def [symmetric] Let_def p1_def)
  have p1: "nat_g p1 = g'" "map_array p1 = map_array p" "nati_obj p1 = nati_obj p\<lparr>tot_rules_in_table := tot_rules_in_table (nati_obj p1)\<rparr>"
    by (simp_all add: p1_def)
  have ut: "untouched ?g g' m" if "IPA_VALID_NAT_MEM_IN m" "m \<noteq> n" for m using add_rule_untouched [OF a n that] .
  have rdy: "\<exists>s. nat_ready g' m s" if "IPA_VALID_NAT_MEM_IN m" for m
    using that out b untouched_ready [OF ut [OF that]] by (cases "m = n") (auto simp: hyb_base_def split: if_splits)
  have obj: "prev_state (nati_obj p1) = prev_state (nati_obj p)" "curr_state (nati_obj p1) = curr_state (nati_obj p)"
    "map_pairs (nati_obj p1) = map_pairs (nati_obj p)" "ddr_tbl_hdl (nati_obj p1) = ddr_tbl_hdl (nati_obj p)"
    "sram_tbl_hdl (nati_obj p1) = sram_tbl_hdl (nati_obj p)" "hold_state (nati_obj p1) = hold_state (nati_obj p)"
    "state_to_hold (nati_obj p1) = state_to_hold (nati_obj p)" "back_to_sram_thresh (nati_obj p1) = back_to_sram_thresh (nati_obj p)"
    by (simp_all add: p1_def)
  have base: "hyb_base p1" using b rdy p1(1,2) obj by (simp add: hyb_base_def)
  have "kept (the_nt ?g m) (the_nt g' m)" if "IPA_VALID_NAT_MEM_IN m" for m
    using k(1) untouched_nt [OF ut [OF that]] by (cases "m = n") auto
  then have set: "same_setting p p1" using k(2) p1(1) obj by (simp add: same_setting_def)
  have mv': "movable g' v = movable ?g v" for v using k(2) by (simp add: movable_def rule_accepted_def)
  have fin: "if ret = 0
      then hdl \<noteq> 0 \<and> (hdl \<notin> dom cv \<longrightarrow> o2n (map_array p) (sub_of n) hdl = None \<and> n2o (map_array p) (sub_of n) hdl = None \<and>
             hybrid n (enter_hdl (sub_of n) hdl p1) (cv(hdl \<mapsto> ?v))) \<and> (hdl \<in> dom cv \<longrightarrow> orphaned n p1 cv ?v)
      else hdl = 0 \<and> hybrid n p1 cv"
  proof (cases "ret = 0")
    case True
    then obtain i where i: "i < tot_n (nt_table (the_nt ?g n))" "0 < i" "sp_rules s i = None" "hdl = ?H i"
      and r': "nat_ready g' n (spec_add i (nat_bucket ?g n ?u) (index_bucket ?g n ?u) ?v s)" using out by auto
    have inj: "inj_on ?H (insert i (dom (sp_rules s)))"
      by (rule inj_onI) (use rule_hdl_inj [OF r] ready_dom_lt [OF r] i(1) in blast)
    have "hybrid n (enter_hdl (sub_of n) hdl p1) (cv(hdl \<mapsto> ?v))" if "hdl \<notin> dom cv"
    proof -
      note va = views_add [OF vw that i(3) inj, folded i(4)]
      have "tbl_shows (enter_hdl (sub_of n) hdl p1) n (spec_add i (nat_bucket ?g n ?u) (index_bucket ?g n ?u) ?v s) (cv(hdl \<mapsto> ?v))"
        using r' va(3) [of ?v] card_spec_add [OF r i(3)] cnt True p1(2) rule_hdl_kept [OF k(1)]
        by (simp add: tbl_shows_def enter_hdl_def p1_def spec_add_def add.commute [of _ "1 :: u32"])
      moreover have "hyb_base (enter_hdl (sub_of n) hdl p1)" using base by (simp add: hyb_base_def enter_hdl_def)
      moreover have "movable g' v" if "v \<in> ran (cv(hdl \<mapsto> ?v))" for v
        using that mv installed_movable [OF u'] unfolding mv' by (auto simp: ran_def split: if_splits)
      moreover have "hdl \<noteq> 0" using i(4) rule_hdl_nonzero [OF r i(1,2)] by simp
      ultimately show ?thesis using n c obj(2) p1(1) mv(2) by (auto simp: hybrid_def enter_hdl_def)
    qed
    moreover have "((sp_rules s)(i \<mapsto> ?v))(i := None) = sp_rules s" using i(3) by (intro ext) simp
    then have "orphaned n p1 cv ?v"
      using r' vw n c base obj(2) p1(1,2) rule_hdl_kept [OF k(1)] unfolding orphaned_def
      by (intro conjI exI [of _ "spec_add i (nat_bucket ?g n ?u) (index_bucket ?g n ?u) ?v s"] exI [of _ i]) (simp_all add: spec_add_def)
    ultimately show ?thesis using True i(4) rule_hdl_nonzero [OF r i(1,2)] views_add(1,2) [OF vw _ i(3) inj] by simp
  next
    case False
    then have "tbl_shows p1 n s cv" using out vw cnt rule_hdl_kept [OF k(1)] by (simp add: tbl_shows_def p1_def)
    then show ?thesis using False out n c base obj(2) mv p1(1) mv' by (auto simp: hybrid_def)
  qed
  have "dma_accepts env \<and> card (dom cv) < unat (expn_table_entries (nt_table (the_nt ?g n))) \<longrightarrow> ret = 0"
    using ok room_by_count [OF r] views_card [OF vw] by simp
  then show ?thesis using run set base p1(2,3) fin by blast
qed

text \<open>What an addition in the hybrid mode does to the rules the client sees.\<close>

definition hyb_added :: "nat_prog \<Rightarrow> (u32 \<rightharpoonup> ipa_nat_rule) \<Rightarrow> ipa_nat_ipv4_rule \<Rightarrow> 'a sm_out \<Rightarrow> nat_prog \<Rightarrow> bool" where
  "hyb_added p cv u out p' \<longleftrightarrow>
     (\<exists>hdl. o_rule_hdl out = Some hdl \<and> o_clnt_rule out = Some (client_rule u) \<and> same_setting p p' \<and> hyb_base p' \<and>
        (if hdl = 0 then \<exists>n. hybrid n p' cv
         else if hdl \<in> dom cv then \<exists>n. orphaned n p' cv (installed_rule (pdns (nat_g p)) (client_rule u))
         else \<exists>n. hybrid n p' (cv(hdl \<mapsto> installed_rule (pdns (nat_g p)) (client_rule u)))))"

definition hdl_given :: "'a sm_out \<Rightarrow> bool" where
  "hdl_given out \<longleftrightarrow> (\<exists>hdl. o_rule_hdl out = Some hdl \<and> hdl \<noteq> 0)"

text \<open>The rule is entered into the active table, or the call falls through to the switch.\<close>

lemma add_hybrid_here:
  fixes sm :: "('w, 'a) sm_fun"
  assumes e: "hyb_env env p" and h: "hybrid n p cv" and u: "rule_accepted (nat_g p) u"
  obtains (placed) ret out p' w' where
      "smAddRuleHybrid env sm t (Add_Rule_Args (tbl_hdl_of IPA_NAT_MEM_IN_SRAM) u) p w = Some (ret, out, p', w')"
      and "hyb_added p cv u out p'" and "hdl_given out"
    | (full) ret out p1 w1 where
      "smAddRuleHybrid env sm t (Add_Rule_Args (tbl_hdl_of IPA_NAT_MEM_IN_SRAM) u) p w =
        (if n = IPA_NAT_MEM_IN_SRAM \<and> \<not> hold_state (nati_obj p)
            then do {
              (ret, _, p, w) \<leftarrow> sm NATI_TRIG_TBL_SWITCH No_Args p1 w1;
              if ret = 0
              then do {
                (ret, out2, p, w) \<leftarrow>
                  sm t (Add_Rule_Args (tbl_hdl_of IPA_NAT_MEM_IN_SRAM) (client_rule u)) (SET_NATIOBJ_STATE NATI_STATE_HYBRID_DDR p) w;
                Some (ret, out_then out out2, p, w)
              }
              else Some (ret, out, p, w)
            }
            else Some (ret, out, p1, w1))"
      and "out = no_out\<lparr>o_rule_hdl := Some 0, o_clnt_rule := Some (client_rule u)\<rparr>" and "ret \<noteq> 0"
      and "same_setting p p1" and "hybrid n p1 cv"
      and "\<not> (dma_accepts env \<and> card (dom cv) < unat (expn_table_entries (nt_table (the_nt (nat_g p) n))))"
proof -
  let ?v = "installed_rule (pdns (nat_g p)) (client_rule u)"
  obtain ret hdl p1 w1 where a: "smAddRuleToTbl env sm t (Add_Rule_Args (tbl_hdl_of n) u) p w
       = Some (ret, (no_out :: 'a sm_out)\<lparr>o_rule_hdl := Some hdl, o_clnt_rule := Some (client_rule u)\<rparr>, p1, w1)"
    and fr: "same_setting p p1" "hyb_base p1" "nati_obj p1 = nati_obj p\<lparr>tot_rules_in_table := tot_rules_in_table (nati_obj p1)\<rparr>"
      "map_array p1 = map_array p"
    and out: "if ret = 0
      then hdl \<noteq> 0 \<and> (hdl \<notin> dom cv \<longrightarrow> o2n (map_array p) (sub_of n) hdl = None \<and> n2o (map_array p) (sub_of n) hdl = None \<and>
             hybrid n (enter_hdl (sub_of n) hdl p1) (cv(hdl \<mapsto> ?v))) \<and> (hdl \<in> dom cv \<longrightarrow> orphaned n p1 cv ?v)
      else hdl = 0 \<and> hybrid n p1 cv"
    and ok: "dma_accepts env \<and> card (dom cv) < unat (expn_table_entries (nt_table (the_nt (nat_g p) n))) \<longrightarrow> ret = 0"
    using hyb_add_tbl [OF e h u, of sm t w] by blast
  have cs: "curr_state (nati_obj p1) = curr_state (nati_obj p)" "hold_state (nati_obj p1) = hold_state (nati_obj p)"
    "map_pairs (nati_obj p1) = map_pairs (nati_obj p)" by (subst fr(3), simp)+
  have cm: "CHOOSE_MAPS p1 = CHOOSE_MAPS p" using cs by (simp add: CHOOSE_MAPS_def CHOOSE_MEM_SUB_def)
  have st: "curr_state (nati_obj p1) = NATI_STATE_HYBRID \<longleftrightarrow> n = IPA_NAT_MEM_IN_SRAM" using h cs by (simp add: hybrid_def)
  have len: "length (map_array p1) = 5" using fr(2) by (simp add: hyb_base_def)
  note def = smAddRuleHybrid_def [of env sm t "Add_Rule_Args (tbl_hdl_of IPA_NAT_MEM_IN_SRAM) u" p w, unfolded sm_args.case hyb_choose(3) [OF h] a]
  have oc: "o_clnt_rule ((no_out :: 'a sm_out)\<lparr>o_rule_hdl := Some hdl, o_clnt_rule := Some (client_rule u)\<rparr>) = Some (client_rule u)" by simp
  show thesis
  proof (cases "ret = 0")
    case False
    have r: "smAddRuleHybrid env sm t (Add_Rule_Args (tbl_hdl_of IPA_NAT_MEM_IN_SRAM) u) p w =
        (if n = IPA_NAT_MEM_IN_SRAM \<and> \<not> hold_state (nati_obj p)
            then do {
              (ret, _, p, w) \<leftarrow> sm NATI_TRIG_TBL_SWITCH No_Args p1 w1;
              if ret = 0
              then do {
                (ret, out2, p, w) \<leftarrow>
                  sm t (Add_Rule_Args (tbl_hdl_of IPA_NAT_MEM_IN_SRAM) (client_rule u)) (SET_NATIOBJ_STATE NATI_STATE_HYBRID_DDR p) w;
                Some (ret, out_then (no_out\<lparr>o_rule_hdl := Some hdl, o_clnt_rule := Some (client_rule u)\<rparr>) out2, p, w)
              }
              else Some (ret, no_out\<lparr>o_rule_hdl := Some hdl, o_clnt_rule := Some (client_rule u)\<rparr>, p, w)
            }
            else Some (ret, no_out\<lparr>o_rule_hdl := Some hdl, o_clnt_rule := Some (client_rule u)\<rparr>, p1, w1))"
      unfolding def bind.bind_lunit prod.case oc using False st cs(2) by simp
    show ?thesis by (rule full [OF r _ False fr(1)]) (use out False ok in auto)
  next
    case True
    have hz: "hdl \<noteq> 0" using out True by simp
    let ?out = "(no_out :: 'a sm_out)\<lparr>o_rule_hdl := Some hdl, o_clnt_rule := Some (client_rule u)\<rparr>"
    show ?thesis
    proof (cases "hdl \<in> dom cv")
      case False
      then have m: "o2n (map_array p1) (sub_of n) hdl = None" "n2o (map_array p1) (sub_of n) hdl = None"
        and hy: "hybrid n (enter_hdl (sub_of n) hdl p1) (cv(hdl \<mapsto> ?v))" using out True fr(4) by simp_all
      have "smAddRuleHybrid env sm t (Add_Rule_Args (tbl_hdl_of IPA_NAT_MEM_IN_SRAM) u) p w = Some (0, ?out, enter_hdl (sub_of n) hdl p1, w1)"
        unfolding def using True m len cm hyb_choose(2) [OF h] by (simp add: map_ops_o2n map_ops_n2o enter_hdl_def)
      moreover have "same_setting p (enter_hdl (sub_of n) hdl p1)" using fr(1) by (simp add: same_setting_def enter_hdl_def)
      then have "hyb_added p cv u ?out (enter_hdl (sub_of n) hdl p1)" using hz hy False by (auto simp: hyb_added_def hybrid_def)
      ultimately show ?thesis by (rule placed) (simp add: hdl_given_def hz)
    next
      case cl: True
      obtain s :: nat_spec where "views (map_array p) (sub_of n) (rule_hdl_of (the_nt (nat_g p) n)) (sp_rules s) cv" using h by (auto simp: hybrid_def tbl_shows_def)
      then obtain x where "o2n (map_array p1) (sub_of n) hdl = Some x" using cl viewsD(5) fr(4) by fastforce
      then have "smAddRuleHybrid env sm t (Add_Rule_Args (tbl_hdl_of IPA_NAT_MEM_IN_SRAM) u) p w = Some (- 1, ?out, p1, w1)"
        unfolding def using True len cm hyb_choose(2) [OF h] by (simp add: map_ops_o2n)
      moreover have "orphaned n p1 cv ?v" using out True cl by simp
      then have "hyb_added p cv u ?out p1" using hz cl fr by (auto simp: hyb_added_def)
      ultimately show ?thesis by (rule placed) (simp add: hdl_given_def hz)
    qed
  qed
qed

abbreviation expn_of :: "nat_prog \<Rightarrow> ipa3_nat_mem_in \<Rightarrow> nat" where
  "expn_of p n \<equiv> unat (expn_table_entries (nt_table (the_nt (nat_g p) n)))"

lemma expn_of_tables: "same_tables p p' \<Longrightarrow> IPA_VALID_NAT_MEM_IN n \<Longrightarrow> expn_of p' n = expn_of p n"
  using same_shapeD(4) [of "nt_table (the_nt (nat_g p) n)" "nt_table (the_nt (nat_g p') n)"]
  by (simp add: same_tables_def kept_def)

lemma expn_of_same: "same_setting p p' \<Longrightarrow> IPA_VALID_NAT_MEM_IN n \<Longrightarrow> expn_of p' n = expn_of p n"
  using expn_of_tables [OF same_setting_tables] .

lemma hyb_added_full:
  assumes "same_setting p p1" and "hybrid n p1 cv"
  shows "hyb_added p cv u (no_out\<lparr>o_rule_hdl := Some 0, o_clnt_rule := Some (client_rule u)\<rparr>) p1"
  using assms by (auto simp: hyb_added_def hybrid_def)

lemma hyb_added_base: "hyb_added p cv u out p' \<Longrightarrow> sram_open p'"
  by (auto simp: hyb_added_def intro: base_sram_open)

lemma hyb_added_trans:
  assumes "same_setting p q" and "hyb_added q cv (client_rule u) out2 p'" and "o_clnt_rule out = Some (client_rule u)"
  shows "hyb_added p cv u (out_then out out2) p'" and "hdl_given (out_then out out2) = hdl_given out2"
proof -
  have cr: "client_rule (client_rule u) = client_rule u" by (simp add: client_rule_def)
  obtain hdl where o: "o_rule_hdl out2 = Some hdl" "o_clnt_rule out2 = Some (client_rule u)" "same_setting q p'" "hyb_base p'"
    and r: "if hdl = 0 then \<exists>n. hybrid n p' cv
      else if hdl \<in> dom cv then \<exists>n. orphaned n p' cv (installed_rule (pdns (nat_g q)) (client_rule u))
      else \<exists>n. hybrid n p' (cv(hdl \<mapsto> installed_rule (pdns (nat_g q)) (client_rule u)))"
    using assms(2) unfolding hyb_added_def cr by blast
  have pd: "pdns (nat_g q) = pdns (nat_g p)" using assms(1) by (simp add: same_setting_def)
  show "hdl_given (out_then out out2) = hdl_given out2" using o(1) by (simp add: hdl_given_def out_then_def later_def)
  show "hyb_added p cv u (out_then out out2) p'"
    using o r same_setting_trans [OF assms(1) o(3)] unfolding hyb_added_def pd by (simp add: out_then_def later_def)
qed

lemma add_hybrid_ddr:
  fixes sm :: "('w, 'a) sm_fun"
  assumes e: "hyb_env env p" and h: "hybrid IPA_NAT_MEM_IN_DDR p cv" and u: "rule_accepted (nat_g p) u"
  shows "\<exists>ret out p' w'. smAddRuleHybrid env sm t (Add_Rule_Args (tbl_hdl_of IPA_NAT_MEM_IN_SRAM) u) p w = Some (ret, out, p', w') \<and>
     hyb_added p cv u out p' \<and> (dma_accepts env \<and> card (dom cv) < expn_of p IPA_NAT_MEM_IN_DDR \<longrightarrow> hdl_given out)"
proof (cases rule: add_hybrid_here [OF e h u, of sm t w, case_names placed full])
  case (full ret out p1 w1)
  then show ?thesis using hyb_added_full [OF full(4,5)] by auto
qed blast

lemma add_machine_ddr:
  fixes env :: "('w, 'm) sm_env_scheme"
  assumes e: "hyb_env env p" and h: "hybrid IPA_NAT_MEM_IN_DDR p cv" and u: "rule_accepted (nat_g p) u"
  shows "\<exists>(out :: 'a sm_out) p' w'. statemach_n (Suc k) env NATI_TRIG_ADD_RULE (Add_Rule_Args (tbl_hdl_of IPA_NAT_MEM_IN_SRAM) u) p w
      = Some (0, out, p', w') \<and> hyb_added p cv u out p' \<and> (dma_accepts env \<and> card (dom cv) < expn_of p IPA_NAT_MEM_IN_DDR \<longrightarrow> hdl_given out)"
proof (rule run_machine_n)
  show "sm_mutex_works env" by (rule hyb_env_mutex(1) [OF e])
  fix q w1 assume q: "same_vars p q"
  have st: "curr_state (nati_obj p) = NATI_STATE_HYBRID_DDR" using h by (simp add: hybrid_def)
  have qg: "nat_g q = nat_g p" using q by (simp add: same_vars_def)
  have "\<exists>ret (out :: 'a sm_out) p' w'. smAddRuleHybrid env (statemach_n k env) NATI_TRIG_ADD_RULE (Add_Rule_Args (tbl_hdl_of IPA_NAT_MEM_IN_SRAM) u) q w1 = Some (ret, out, p', w') \<and>
     hyb_added q cv u out p' \<and> (dma_accepts env \<and> card (dom cv) < expn_of q IPA_NAT_MEM_IN_DDR \<longrightarrow> hdl_given out)"
    by (rule add_hybrid_ddr) (use e h u qg hybrid_same_vars(1) [OF q] hybrid_same_vars(2) [OF q, of env] in simp_all)
  moreover have "hyb_added q cv u out p' = hyb_added p cv u out p'" for out :: "'a sm_out" and p'
    by (simp add: hyb_added_def qg hybrid_same_vars(3) [OF q])
  ultimately show "\<exists>ret (out :: 'a sm_out) p' w'. state_mach_tbl env (statemach_n k env) (curr_state (nati_obj p)) NATI_TRIG_ADD_RULE NATI_TRIG_ADD_RULE
      (Add_Rule_Args (tbl_hdl_of IPA_NAT_MEM_IN_SRAM) u) q w1 = Some (ret, out, p', w') \<and>
      hyb_added p cv u out p' \<and> (dma_accepts env \<and> card (dom cv) < expn_of p IPA_NAT_MEM_IN_DDR \<longrightarrow> hdl_given out)"
    unfolding st qg by (simp add: state_mach_tbl_def)
next
  have "hyb_base p" using h by (simp add: hybrid_def)
  then show "votes_work env \<and> sram_open p \<and> (\<forall>(out :: 'a sm_out) p'. hyb_added p cv u out p' \<and>
      (dma_accepts env \<and> card (dom cv) < expn_of p IPA_NAT_MEM_IN_DDR \<longrightarrow> hdl_given out) \<longrightarrow> sram_open p')"
    using hyb_env_mutex(3) [OF e] base_sram_open hyb_added_base by blast
qed

lemma hybrid_set_ddr:
  assumes "hybrid IPA_NAT_MEM_IN_DDR p cv"
  shows "hybrid IPA_NAT_MEM_IN_DDR (SET_NATIOBJ_STATE NATI_STATE_HYBRID_DDR p) cv" and "same_setting p (SET_NATIOBJ_STATE NATI_STATE_HYBRID_DDR p)"
  using assms by (simp_all add: hybrid_def hyb_base_def tbl_shows_def same_setting_def)

lemma accepted_same: "same_setting p q \<Longrightarrow> rule_accepted (nat_g q) u = rule_accepted (nat_g p) u"
  by (simp add: same_setting_def rule_accepted_def)

text \<open>With room in DDR for the rules the client has, an addition never loses one.\<close>

lemma add_hybrid_cb:
  fixes env :: "('w, 'm) sm_env_scheme"
  assumes e: "hyb_env env p" and h: "hybrid n p cv" and u: "rule_accepted (nat_g p) u" and f: "fits_in env p IPA_NAT_MEM_IN_DDR cv"
  shows "\<exists>ret (out :: 'a sm_out) p' w'. smAddRuleHybrid env (statemach_n (Suc (Suc k)) env) NATI_TRIG_ADD_RULE
       (Add_Rule_Args (tbl_hdl_of IPA_NAT_MEM_IN_SRAM) u) p w = Some (ret, out, p', w') \<and> hyb_added p cv u out p' \<and>
     (\<not> hold_state (nati_obj p) \<and> card (dom cv) < expn_of p IPA_NAT_MEM_IN_DDR \<longrightarrow> hdl_given out)"
proof (cases rule: add_hybrid_here [OF e h u, of "statemach_n (Suc (Suc k)) env :: ('w, 'a) sm_fun" NATI_TRIG_ADD_RULE w, case_names placed full])
  case (full ret out p1 w1)
  have n: "IPA_VALID_NAT_MEM_IN n" using h by (simp add: hybrid_def)
  show ?thesis
  proof (cases "n = IPA_NAT_MEM_IN_SRAM \<and> \<not> hold_state (nati_obj p)")
    case False
    then have "n = IPA_NAT_MEM_IN_DDR \<or> hold_state (nati_obj p)" using n by (auto simp: nmi_valid_iff)
    then show ?thesis using full hyb_added_full [OF full(4,5)] False f by (auto simp: fits_in_def)
  next
    case True
    note e1 = hyb_env_same [OF e full(4)]
    obtain out2 :: "'a sm_out" and p2 w2 where s: "statemach_n (Suc (Suc k)) env NATI_TRIG_TBL_SWITCH No_Args p1 w1 = Some (0, out2, p2, w2)"
      and s2: "same_setting p1 p2" "hybrid IPA_NAT_MEM_IN_DDR p2 cv"
      using switch_machine [OF e1 full(5), of IPA_NAT_MEM_IN_DDR k w1] True f fits_in_same [OF full(4), of IPA_NAT_MEM_IN_DDR env cv] by auto
    let ?p = "SET_NATIOBJ_STATE NATI_STATE_HYBRID_DDR p2"
    have ss: "same_setting p ?p" using full(4) s2(1) hybrid_set_ddr(2) [OF s2(2)] by (metis same_setting_trans)
    have u': "rule_accepted (nat_g ?p) (client_rule u)" using accepted_same [OF ss] u by simp
    obtain out3 :: "'a sm_out" and p3 w3 where a: "statemach_n (Suc (Suc k)) env NATI_TRIG_ADD_RULE
        (Add_Rule_Args (tbl_hdl_of IPA_NAT_MEM_IN_SRAM) (client_rule u)) ?p w2 = Some (0, out3, p3, w3)"
      and a3: "hyb_added ?p cv (client_rule u) out3 p3" "dma_accepts env \<and> card (dom cv) < expn_of ?p IPA_NAT_MEM_IN_DDR \<longrightarrow> hdl_given out3"
      using add_machine_ddr [OF hyb_env_same [OF e ss] hybrid_set_ddr(1) [OF s2(2)] u'] by blast
    have "smAddRuleHybrid env (statemach_n (Suc (Suc k)) env) NATI_TRIG_ADD_RULE
       (Add_Rule_Args (tbl_hdl_of IPA_NAT_MEM_IN_SRAM) u) p w = Some (0, out_then out out3, p3, w3)"
      using full(1) True s a by (simp del: statemach_n.simps)
    moreover have oc: "o_clnt_rule out = Some (client_rule u)" using full(2) by simp
    ultimately show ?thesis using hyb_added_trans [OF ss a3(1) oc] a3(2) f expn_of_same [OF ss, of IPA_NAT_MEM_IN_DDR] by (auto simp: fits_in_def)
  qed
qed blast

end
