(* ===== verification/Nat_Hybrid_Ops.thy ===== *)
theory Nat_Hybrid_Ops
  imports Nat_Hybrid
begin

unbundle bit_operations_syntax

section \<open>The operations of the public interface in the hybrid mode\<close>

text \<open>
  Adding, deleting and querying rules through \<open>ipa_nat_drv.c\<close> while the machine is in the hybrid mode, with the
  moves between the memories that an addition or a deletion causes.
\<close>

subsection \<open>Running a trigger in the hybrid mode\<close>

lemma hyb_run:
  fixes env :: "('w, 'm) sm_env_scheme"
  assumes e: "hyb_env env p" and h: "hybrid n p cv"
    and cb: "\<And>q w1. same_vars p q \<Longrightarrow> hyb_env env q \<Longrightarrow> hybrid n q cv \<Longrightarrow>
      \<exists>ret (out :: 'a sm_out) p' w'. state_mach_tbl env (statemach_n 2 env) (hyb_state n) t t a q w1 = Some (ret, out, p', w') \<and> Q out p'"
    and base: "\<And>out p'. Q out p' \<Longrightarrow> hyb_base p'"
  shows "\<exists>(out :: 'a sm_out) p' w'. ipa_nati_statemach env t a p w = Some (0, out, p', w') \<and> Q out p'"
proof (rule run_machine)
  show "sm_mutex_works env" by (rule hyb_env_mutex(1) [OF e])
  fix q w1 assume q: "same_vars p q"
  have "curr_state (nati_obj p) = hyb_state n" using h by (simp add: hybrid_def)
  then show "\<exists>ret (out :: 'a sm_out) p' w'. state_mach_tbl env (statemach_n 2 env) (curr_state (nati_obj p)) t t a q w1 = Some (ret, out, p', w') \<and> Q out p'"
    using cb [OF q] e h hybrid_same_vars(1) [OF q] hybrid_same_vars(2) [OF q, of env] by simp
next
  have "hyb_base p" using h by (simp add: hybrid_def)
  then show "votes_work env \<and> sram_open p \<and> (\<forall>(out :: 'a sm_out) p'. Q out p' \<longrightarrow> sram_open p')"
    using hyb_env_mutex(3) [OF e] base_sram_open base by blast
qed

lemma hyb_table:
  assumes "IPA_VALID_NAT_MEM_IN n"
  shows "state_mach_tbl env sm (hyb_state n) NATI_TRIG_ADD_RULE = smAddRuleHybrid env sm"
    and "state_mach_tbl env sm (hyb_state n) NATI_TRIG_DEL_RULE = smDelRuleHybrid env sm"
    and "state_mach_tbl env sm (hyb_state n) NATI_TRIG_GET_TSTAMP = smGetTmStmpHybrid env sm"
    and "state_mach_tbl env sm (hyb_state n) NATI_TRIG_CLR_TABLE = smClrTblHybrid env sm"
  using assms by (auto simp: nmi_valid_iff state_mach_tbl_def)

lemma client_add_hybrid:
  assumes e: "hyb_env env p" and h: "hybrid n p cv" and u: "rule_accepted (nat_g p) u" and f: "fits_in env p IPA_NAT_MEM_IN_DDR cv"
  shows "\<exists>hdl p' w'. ipa_nat_add_ipv4_rule env (tbl_hdl_of IPA_NAT_MEM_IN_SRAM) u p w = Some (0, Some hdl, client_rule u, p', w') \<and>
     same_setting p p' \<and>
     (if hdl = 0 then \<exists>n. hybrid n p' cv
      else if hdl \<in> dom cv then \<exists>n. orphaned n p' cv (installed_rule (pdns (nat_g p)) (client_rule u))
      else \<exists>n. hybrid n p' (cv(hdl \<mapsto> installed_rule (pdns (nat_g p)) (client_rule u)))) \<and>
     (\<not> hold_state (nati_obj p) \<and> card (dom cv) < expn_of p IPA_NAT_MEM_IN_DDR \<longrightarrow> hdl \<noteq> 0)"
proof -
  have n: "IPA_VALID_NAT_MEM_IN n" using h by (simp add: hybrid_def)
  let ?L = "\<not> hold_state (nati_obj p) \<and> card (dom cv) < expn_of p IPA_NAT_MEM_IN_DDR"
  have "\<exists>(out :: unit sm_out) p' w'. ipa_nati_statemach env NATI_TRIG_ADD_RULE (Add_Rule_Args (tbl_hdl_of IPA_NAT_MEM_IN_SRAM) u) p w = Some (0, out, p', w') \<and>
      (hyb_added p cv u out p' \<and> (?L \<longrightarrow> hdl_given out))"
  proof (rule hyb_run [OF e h])
    fix q w1 assume q: "same_vars p q" "hyb_env env q" "hybrid n q cv"
    have qs: "nat_g q = nat_g p" "nati_obj q = nati_obj p" using q(1) by (simp_all add: same_vars_def)
    have eq: "hyb_added q cv u out p' = hyb_added p cv u out p'" for out :: "unit sm_out" and p'
      by (simp add: hyb_added_def qs hybrid_same_vars(3) [OF q(1)])
    have "\<exists>ret (out :: unit sm_out) p' w'. smAddRuleHybrid env (statemach_n (Suc (Suc 0)) env) NATI_TRIG_ADD_RULE
       (Add_Rule_Args (tbl_hdl_of IPA_NAT_MEM_IN_SRAM) u) q w1 = Some (ret, out, p', w') \<and> hyb_added q cv u out p' \<and>
     (\<not> hold_state (nati_obj q) \<and> card (dom cv) < expn_of q IPA_NAT_MEM_IN_DDR \<longrightarrow> hdl_given out)"
      by (rule add_hybrid_cb [OF q(2,3)]) (use u f qs in \<open>simp_all add: fits_in_def\<close>)
    then show "\<exists>ret (out :: unit sm_out) p' w'. state_mach_tbl env (statemach_n 2 env) (hyb_state n) NATI_TRIG_ADD_RULE NATI_TRIG_ADD_RULE
        (Add_Rule_Args (tbl_hdl_of IPA_NAT_MEM_IN_SRAM) u) q w1 = Some (ret, out, p', w') \<and> (hyb_added p cv u out p' \<and> (?L \<longrightarrow> hdl_given out))"
      unfolding hyb_table(1) [OF n] eq qs numeral_2_eq_2 by blast
  qed (auto simp: hyb_added_def)
  then obtain out :: "unit sm_out" and p' w' where
    sm: "ipa_nati_statemach env NATI_TRIG_ADD_RULE (Add_Rule_Args (tbl_hdl_of IPA_NAT_MEM_IN_SRAM) u) p w = Some (0, out, p', w')"
    and ad: "hyb_added p cv u out p'" and l: "?L \<longrightarrow> hdl_given out" by blast
  obtain hdl where o: "o_rule_hdl out = Some hdl" "o_clnt_rule out = Some (client_rule u)" "same_setting p p'"
    and r: "if hdl = 0 then \<exists>n. hybrid n p' cv
      else if hdl \<in> dom cv then \<exists>n. orphaned n p' cv (installed_rule (pdns (nat_g p)) (client_rule u))
      else \<exists>n. hybrid n p' (cv(hdl \<mapsto> installed_rule (pdns (nat_g p)) (client_rule u)))"
    using ad by (auto simp: hyb_added_def)
  have "ipa_nat_add_ipv4_rule env (tbl_hdl_of IPA_NAT_MEM_IN_SRAM) u p w = Some (0, Some hdl, client_rule u, p', w')"
    unfolding ipa_nat_add_ipv4_rule_def ipa_nati_add_ipv4_rule_def sm using o by simp
  then show ?thesis using o r l by (auto simp: hdl_given_def)
qed

subsection \<open>Deleting a rule\<close>

lemma ready_card_lt: "nat_ready g n s \<Longrightarrow> card (dom (sp_rules s)) < 2 ^ 32"
proof -
  assume r: "nat_ready g n s"
  obtain cs xs where inv: "nat_inv (the_nt g n) cs xs" using r by (auto elim!: nat_readyD)
  have "dom (sp_rules s) \<subseteq> {..<tot_n (nt_table (the_nt g n))}" using ready_dom_lt [OF r] by blast
  then have "card (dom (sp_rules s)) \<le> tot_n (nt_table (the_nt g n))" by (metis card_lessThan card_mono finite_lessThan)
  then show ?thesis using tbl_okD(3) [OF tbl_repD(1) [OF nat_invD(2) [OF inv, of "[]"]]] by simp
qed

lemma hyb_del_here:
  fixes sm :: "('w, 'a) sm_fun"
  assumes e: "hyb_env env p" and h: "hybrid n p cv" and c: "h \<in> dom cv" and a: "dma_accepts env"
  obtains p1 w1 where "smDelRuleHybrid env sm t (Rule_Args (tbl_hdl_of IPA_NAT_MEM_IN_SRAM) h) p w =
      (if n = IPA_NAT_MEM_IN_DDR \<and> card (dom (cv(h := None))) \<le> unat (back_to_sram_thresh (nati_obj p)) \<and> \<not> hold_state (nati_obj p)
       then do {
         (ret, _, p, w) \<leftarrow> sm NATI_TRIG_TBL_SWITCH No_Args p1 w1;
         Some (0, no_out, if ret = 0 then SET_NATIOBJ_STATE NATI_STATE_HYBRID p else p, w)
       }
       else Some (0, no_out, p1, w1))"
    and "same_setting p p1" and "hybrid n p1 (cv(h := None))"
proof -
  let ?g = "nat_g p" and ?H = "rule_hdl_of (the_nt (nat_g p) n)" and ?ms = "map_array p"
  obtain s where n: "IPA_VALID_NAT_MEM_IN n" and cst: "curr_state (nati_obj p) = hyb_state n" and b: "hyb_base p"
    and r: "nat_ready ?g n s" and cnt: "tot_rules_in_table (nati_obj p) (sub_of n) = of_nat (card (dom (sp_rules s)))"
    and vw: "views ?ms (sub_of n) ?H (sp_rules s) cv" and mv: "\<And>v. v \<in> ran cv \<Longrightarrow> movable ?g v" "0 \<notin> dom cv"
    using h by (auto simp: hybrid_def tbl_shows_def)
  obtain v where "cv h = Some v" using c by blast
  then obtain i where i: "o2n ?ms (sub_of n) h = Some (?H i)" "sp_rules s i = Some v" "n2o ?ms (sub_of n) (?H i) = Some h"
    by (rule views_rule [OF vw])
  have len: "length ?ms = 5" by (rule viewsD(1) [OF vw])
  define ms where "ms = put_n2o (put_o2n ?ms (sub_of n) ((o2n ?ms (sub_of n))(h := None))) (sub_of n) ((n2o ?ms (sub_of n))(?H i := None))"
  have vd: "views ms (sub_of n) ?H ((sp_rules s)(i := None)) (cv(h := None))" unfolding ms_def by (rule views_del [OF vw i(1,2)])
  have df: "dma_faithful env (the_nt ?g n)" using e n by (simp add: hyb_env_def)
  obtain ret g' w1 where d0: "ipa_NATI_del_ipv4_rule env ?g (tbl_hdl_of n) (?H i) w = Some (ret, g', w1)" and pd: "pdns g' = pdns ?g"
    and o: "if ret = 0 then kept (the_nt ?g n) (the_nt g' n) \<and> nat_ready g' n (spec_del i s) else \<not> dma_accepts env"
    using del_rule_ready [OF r df hyb_env_mutex(2) [OF e] i(2), of w] by (auto split: if_splits)
  have d: "ipa_NATI_del_ipv4_rule env ?g (tbl_hdl_of n) (?H i) w = Some (0, g', w1)" and k: "kept (the_nt ?g n) (the_nt g' n)"
    and r': "nat_ready g' n (spec_del i s)" using d0 o a by (auto split: if_splits)
  define p1 where "p1 = on_cnt (sub_of n) (\<lambda>c. c - 1) (p\<lparr>map_array := ms, nat_g := g'\<rparr>)"
  have p1: "nat_g p1 = g'" "map_array p1 = ms" by (simp_all add: p1_def)
  have obj: "prev_state (nati_obj p1) = prev_state (nati_obj p)" "curr_state (nati_obj p1) = curr_state (nati_obj p)"
    "map_pairs (nati_obj p1) = map_pairs (nati_obj p)" "ddr_tbl_hdl (nati_obj p1) = ddr_tbl_hdl (nati_obj p)"
    "sram_tbl_hdl (nati_obj p1) = sram_tbl_hdl (nati_obj p)" "hold_state (nati_obj p1) = hold_state (nati_obj p)"
    "state_to_hold (nati_obj p1) = state_to_hold (nati_obj p)" "back_to_sram_thresh (nati_obj p1) = back_to_sram_thresh (nati_obj p)"
    by (simp_all add: p1_def)
  have "of_nat (card (dom (sp_rules s))) - 1 = (of_nat (card (dom (sp_rules (spec_del i s)))) :: u32)"
    using card_spec_del [OF r i(2)] by (metis add_diff_cancel_left' of_nat_Suc)
  then have cn: "tot_rules_in_table (nati_obj p1) (sub_of n) = of_nat (card (dom (sp_rules (spec_del i s))))" using cnt by (simp add: p1_def)
  have ut: "untouched ?g g' m" if "IPA_VALID_NAT_MEM_IN m" "m \<noteq> n" for m using del_rule_untouched [OF d n that] .
  have "\<exists>s. nat_ready g' m s" if "IPA_VALID_NAT_MEM_IN m" for m
    using that r' b untouched_ready [OF ut [OF that]] by (cases "m = n") (auto simp: hyb_base_def)
  then have base: "hyb_base p1" using b viewsD(1) [OF vd] p1 obj by (simp add: hyb_base_def)
  have "kept (the_nt ?g m) (the_nt g' m)" if "IPA_VALID_NAT_MEM_IN m" for m
    using k untouched_nt [OF ut [OF that]] by (cases "m = n") auto
  then have set: "same_setting p p1" using pd p1(1) obj by (simp add: same_setting_def)
  have "movable g' v" if "v \<in> ran (cv(h := None))" for v
    using that mv(1) pd by (auto simp: ran_def movable_def rule_accepted_def split: if_splits)
  moreover have "tbl_shows p1 n (spec_del i s) (cv(h := None))"
    using r' cn vd rule_hdl_kept [OF k] p1 by (simp add: tbl_shows_def spec_del_def)
  ultimately have hy: "hybrid n p1 (cv(h := None))" using n cst base obj(2) p1(1) mv(2) by (auto simp: hybrid_def)
  have "card (dom (cv(h := None))) = card (dom (sp_rules (spec_del i s)))" using views_card [OF vd] by (simp add: spec_del_def)
  then have le: "tot_rules_in_table (nati_obj p1) (sub_of n) \<le> back_to_sram_thresh (nati_obj p) \<longleftrightarrow>
      card (dom (cv(h := None))) \<le> unat (back_to_sram_thresh (nati_obj p))"
    using ready_card_lt [OF r'] cn by (simp add: word_le_nat_alt unsigned_of_nat take_bit_nat_eq_self)
  have sb: "CHOOSE_MEM_SUB p1 = sub_of n" using hyb_choose(1) [OF hy] .
  have sb0: "CHOOSE_MEM_SUB (p\<lparr>map_array := ms, nat_g := g'\<rparr>) = sub_of n" using hyb_choose(1) [OF h] by (simp add: CHOOSE_MEM_SUB_def)
  have hh: "hybrid_hdl (p\<lparr>map_array := ms\<rparr>) (tbl_hdl_of IPA_NAT_MEM_IN_SRAM) = tbl_hdl_of n"
    using hyb_choose(3) [OF h] by (simp add: hybrid_hdl_def split: if_splits)
  have dt: "smDelRuleFromTbl env sm t (Rule_Args (tbl_hdl_of n) (?H i)) (p\<lparr>map_array := ms\<rparr>) w = Some (0, no_out, p1, w1)"
    using d sb0 by (simp add: smDelRuleFromTbl_def p1_def)
  have st: "curr_state (nati_obj p) = NATI_STATE_HYBRID_DDR \<longleftrightarrow> n = IPA_NAT_MEM_IN_DDR" using n cst obj(2) by (auto simp: nmi_valid_iff)
  have run: "smDelRuleHybrid env sm t (Rule_Args (tbl_hdl_of IPA_NAT_MEM_IN_SRAM) h) p w =
      (if n = IPA_NAT_MEM_IN_DDR \<and> card (dom (cv(h := None))) \<le> unat (back_to_sram_thresh (nati_obj p)) \<and> \<not> hold_state (nati_obj p)
       then do {
         (ret, _, p, w) \<leftarrow> sm NATI_TRIG_TBL_SWITCH No_Args p1 w1;
         Some (0, no_out, if ret = 0 then SET_NATIOBJ_STATE NATI_STATE_HYBRID p else p, w)
       }
       else Some (0, no_out, p1, w1))"
    unfolding smDelRuleHybrid_def hyb_choose(2) [OF h]
    using len i(1,3) by (simp add: map_ops_o2n map_ops_n2o ms_def [symmetric] hh dt st sb le obj)
  show thesis by (rule that [OF run set hy])
qed

lemma client_del_hybrid:
  assumes e: "hyb_env env p" and h: "hybrid n p cv" and c: "h \<in> dom cv" and a: "dma_accepts env"
    and f: "n = IPA_NAT_MEM_IN_DDR \<Longrightarrow> \<not> hold_state (nati_obj p) \<Longrightarrow> card (dom (cv(h := None))) \<le> unat (back_to_sram_thresh (nati_obj p)) \<Longrightarrow>
      card (dom (cv(h := None))) \<le> expn_of p IPA_NAT_MEM_IN_SRAM"
  shows "\<exists>p' w'. ipa_nat_del_ipv4_rule env (tbl_hdl_of IPA_NAT_MEM_IN_SRAM) h p w = Some (0, p', w') \<and>
     same_setting p p' \<and> (\<exists>n. hybrid n p' (cv(h := None)))"
proof -
  have n: "IPA_VALID_NAT_MEM_IN n" and hz: "VALID_RULE_HDL h" using h c by (auto simp: hybrid_def VALID_RULE_HDL_def)
  have "\<exists>(out :: unit sm_out) p' w'. ipa_nati_statemach env NATI_TRIG_DEL_RULE (Rule_Args (tbl_hdl_of IPA_NAT_MEM_IN_SRAM) h) p w = Some (0, out, p', w') \<and>
      (same_setting p p' \<and> (\<exists>n. hybrid n p' (cv(h := None))))"
  proof (rule hyb_run [OF e h])
    fix q w1 assume q: "same_vars p q" "hyb_env env q" "hybrid n q cv"
    have qs: "nat_g q = nat_g p" "nati_obj q = nati_obj p" using q(1) by (simp_all add: same_vars_def)
    let ?sm = "statemach_n (Suc (Suc 0)) env :: (_, unit) sm_fun"
    let ?D = "n = IPA_NAT_MEM_IN_DDR \<and> card (dom (cv(h := None))) \<le> unat (back_to_sram_thresh (nati_obj q)) \<and> \<not> hold_state (nati_obj q)"
    obtain p1 w2 where d: "smDelRuleHybrid env ?sm NATI_TRIG_DEL_RULE (Rule_Args (tbl_hdl_of IPA_NAT_MEM_IN_SRAM) h) q w1 =
        (if ?D
         then do {
           (ret, _, p, w) \<leftarrow> ?sm NATI_TRIG_TBL_SWITCH No_Args p1 w2;
           Some (0, no_out, if ret = 0 then SET_NATIOBJ_STATE NATI_STATE_HYBRID p else p, w)
         }
         else Some (0, no_out, p1, w2))"
      and d1: "same_setting q p1" "hybrid n p1 (cv(h := None))"
      by (rule hyb_del_here [OF q(2,3) c a])
    have "\<exists>p' w'. smDelRuleHybrid env ?sm NATI_TRIG_DEL_RULE (Rule_Args (tbl_hdl_of IPA_NAT_MEM_IN_SRAM) h) q w1 = Some (0, no_out, p', w') \<and>
        same_setting q p' \<and> (\<exists>n. hybrid n p' (cv(h := None)))"
    proof (cases ?D)
      case True
      then have n1: "n = IPA_NAT_MEM_IN_DDR" by simp
      have "fits_in env q IPA_NAT_MEM_IN_SRAM (cv(h := None))" using f True a qs by (simp add: fits_in_def)
      then have fi: "fits_in env p1 IPA_NAT_MEM_IN_SRAM (cv(h := None))" using fits_in_same [OF d1(1), of IPA_NAT_MEM_IN_SRAM env "cv(h := None)"] by simp
      obtain out :: "unit sm_out" and p2 w3 where s: "?sm NATI_TRIG_TBL_SWITCH No_Args p1 w2 = Some (0, out, p2, w3)"
        and s2: "same_setting p1 p2" "hybrid IPA_NAT_MEM_IN_SRAM p2 (cv(h := None))"
        using switch_machine [OF hyb_env_same [OF q(2) d1(1)] d1(2), of IPA_NAT_MEM_IN_SRAM 0 w2] n1 fi by auto
      have "hybrid IPA_NAT_MEM_IN_SRAM (SET_NATIOBJ_STATE NATI_STATE_HYBRID p2) (cv(h := None))"
        "same_setting p2 (SET_NATIOBJ_STATE NATI_STATE_HYBRID p2)"
        using s2(2) by (simp_all add: hybrid_def hyb_base_def tbl_shows_def same_setting_def)
      then show ?thesis using d True s same_setting_trans [OF same_setting_trans [OF d1(1) s2(1)]] by (auto simp del: statemach_n.simps)
    next
      case False
      then show ?thesis using d d1 by (auto simp del: statemach_n.simps)
    qed
    then show "\<exists>ret (out :: unit sm_out) p' w'. state_mach_tbl env (statemach_n 2 env) (hyb_state n) NATI_TRIG_DEL_RULE NATI_TRIG_DEL_RULE
        (Rule_Args (tbl_hdl_of IPA_NAT_MEM_IN_SRAM) h) q w1 = Some (ret, out, p', w') \<and> (same_setting p p' \<and> (\<exists>n. hybrid n p' (cv(h := None))))"
      unfolding hyb_table(2) [OF n] hybrid_same_vars(3) [OF q(1)] numeral_2_eq_2 by blast
  qed (auto simp: hybrid_def)
  then obtain out :: "unit sm_out" and p' w' where
    sm: "ipa_nati_statemach env NATI_TRIG_DEL_RULE (Rule_Args (tbl_hdl_of IPA_NAT_MEM_IN_SRAM) h) p w = Some (0, out, p', w')"
    and r: "same_setting p p'" "\<exists>n. hybrid n p' (cv(h := None))" by blast
  have "ipa_nat_del_ipv4_rule env (tbl_hdl_of IPA_NAT_MEM_IN_SRAM) h p w = Some (0, p', w')"
    unfolding ipa_nat_del_ipv4_rule_def ipa_nati_del_ipv4_rule_def sm using hz by simp
  then show ?thesis using r by blast
qed

subsection \<open>Querying a time stamp\<close>

lemma client_query_hybrid:
  assumes e: "hyb_env env p" and h: "hybrid n p cv" and c: "cv h = Some v"
  shows "\<exists>p' w'. ipa_nat_query_timestamp env (tbl_hdl_of IPA_NAT_MEM_IN_SRAM) h p w = Some (0, Some (ucast (r_time_stamp v)), p', w') \<and>
     same_setting p p' \<and> hybrid n p' cv"
proof -
  have n: "IPA_VALID_NAT_MEM_IN n" and hz: "VALID_RULE_HDL h" using h c by (auto simp: hybrid_def VALID_RULE_HDL_def)
  have "\<exists>(out :: unit sm_out) p' w'. ipa_nati_statemach env NATI_TRIG_GET_TSTAMP (Rule_Args (tbl_hdl_of IPA_NAT_MEM_IN_SRAM) h) p w = Some (0, out, p', w') \<and>
      (o_time_stamp out = Some (ucast (r_time_stamp v)) \<and> same_setting p p' \<and> hybrid n p' cv)"
  proof (rule hyb_run [OF e h])
    fix q w1 assume q: "same_vars p q" "hyb_env env q" "hybrid n q cv"
    obtain s where r: "nat_ready (nat_g q) n s" and vw: "views (map_array q) (sub_of n) (rule_hdl_of (the_nt (nat_g q) n)) (sp_rules s) cv"
      using q(3) by (auto simp: hybrid_def tbl_shows_def)
    obtain i where i: "o2n (map_array q) (sub_of n) h = Some (rule_hdl_of (the_nt (nat_g q) n) i)" "sp_rules s i = Some v"
      by (rule views_rule [OF vw c])
    obtain w2 where qr: "ipa_NATI_query_timestamp env (nat_g q) (tbl_hdl_of n) (rule_hdl_of (the_nt (nat_g q) n) i) w1 = Some (0, Some (ucast (r_time_stamp v)), w2)"
      by (rule query_ready [OF r hyb_env_mutex(2) [OF q(2)] i(2)])
    have "smGetTmStmpHybrid env (statemach_n 2 env) NATI_TRIG_GET_TSTAMP (Rule_Args (tbl_hdl_of IPA_NAT_MEM_IN_SRAM) h) q w1
        = Some (0, (no_out :: unit sm_out)\<lparr>o_time_stamp := Some (ucast (r_time_stamp v))\<rparr>, q, w2)"
      using viewsD(1) [OF vw] i(1) qr hyb_choose(2,3) [OF q(3)] by (simp add: smGetTmStmpHybrid_def smGetTmStmp_def map_ops_o2n)
    then show "\<exists>ret (out :: unit sm_out) p' w'. state_mach_tbl env (statemach_n 2 env) (hyb_state n) NATI_TRIG_GET_TSTAMP NATI_TRIG_GET_TSTAMP
        (Rule_Args (tbl_hdl_of IPA_NAT_MEM_IN_SRAM) h) q w1 = Some (ret, out, p', w') \<and>
        (o_time_stamp out = Some (ucast (r_time_stamp v)) \<and> same_setting p p' \<and> hybrid n p' cv)"
      unfolding hyb_table(3) [OF n] using hybrid_same_vars(3) [OF q(1), of q] q(3) by auto
  qed (auto simp: hybrid_def)
  then obtain out :: "unit sm_out" and p' w' where
    sm: "ipa_nati_statemach env NATI_TRIG_GET_TSTAMP (Rule_Args (tbl_hdl_of IPA_NAT_MEM_IN_SRAM) h) p w = Some (0, out, p', w')"
    and r: "o_time_stamp out = Some (ucast (r_time_stamp v))" "same_setting p p'" "hybrid n p' cv" by blast
  have "ipa_nat_query_timestamp env (tbl_hdl_of IPA_NAT_MEM_IN_SRAM) h p w = Some (0, Some (ucast (r_time_stamp v)), p', w')"
    unfolding ipa_nat_query_timestamp_def ipa_nati_query_timestamp_def sm using hz r(1) by simp
  then show ?thesis using r by blast
qed

subsection \<open>Sequences of operations\<close>

text \<open>
  The program, the system, the rules \<open>cv\<close> the client knows by their handles, and a flag, from one call of the public
  interface to the next. The flag is true as long as nothing has happened that can lose a rule: each added rule
  passed the driver's validation, DDR had room for all rules at each addition and the destination at each switch on
  request, and no addition returned a handle that the client held already.
\<close>

type_synonym 'w hyb_client = "nat_prog \<times> 'w \<times> (u32 \<rightharpoonup> ipa_nat_rule) \<times> bool"

inductive hyb_step :: "('w, 'm) sm_env_scheme \<Rightarrow> 'w hyb_client \<Rightarrow> 'w hyb_client \<Rightarrow> bool" for env where
  hyb_add: "ipa_nat_add_ipv4_rule env (tbl_hdl_of IPA_NAT_MEM_IN_SRAM) u p w = Some (ret, Some hdl, u', p', w') \<Longrightarrow>
     hyb_step env (p, w, cv, c) (p', w', if hdl = 0 then cv else cv(hdl \<mapsto> installed_rule (pdns (nat_g p)) u'),
       c \<and> rule_accepted (nat_g p) u \<and> card (dom cv) \<le> expn_of p IPA_NAT_MEM_IN_DDR \<and> hdl \<notin> dom cv)"
| hyb_add_none: "ipa_nat_add_ipv4_rule env (tbl_hdl_of IPA_NAT_MEM_IN_SRAM) u p w = Some (ret, None, u', p', w') \<Longrightarrow>
     hyb_step env (p, w, cv, c) (p', w', cv, c \<and> rule_accepted (nat_g p) u \<and> card (dom cv) \<le> expn_of p IPA_NAT_MEM_IN_DDR)"
| hyb_del: "h \<in> dom cv \<Longrightarrow> ipa_nat_del_ipv4_rule env (tbl_hdl_of IPA_NAT_MEM_IN_SRAM) h p w = Some (ret, p', w') \<Longrightarrow>
     hyb_step env (p, w, cv, c) (p', w', cv(h := None), c)"
| hyb_query: "h \<in> dom cv \<Longrightarrow> ipa_nat_query_timestamp env (tbl_hdl_of IPA_NAT_MEM_IN_SRAM) h p w = Some (ret, ts, p', w') \<Longrightarrow>
     hyb_step env (p, w, cv, c) (p', w', cv, c)"
| hyb_switch: "ipa_nat_switch_to env n hold p w = Some (ret, p', w') \<Longrightarrow>
     hyb_step env (p, w, cv, c) (p', w', cv, c \<and> IPA_VALID_NAT_MEM_IN n \<and> card (dom cv) \<le> expn_of p n)"

definition hyb_client_inv :: "('w, 'm) sm_env_scheme \<Rightarrow> 'w hyb_client \<Rightarrow> bool" where
  "hyb_client_inv env st \<longleftrightarrow> (case st of (p, w, cv, c) \<Rightarrow> c \<longrightarrow>
     hyb_env env p \<and> (\<exists>n. hybrid n p cv) \<and> unat (back_to_sram_thresh (nati_obj p)) \<le> expn_of p IPA_NAT_MEM_IN_SRAM)"

lemma hyb_client_inv_lost [simp]: "hyb_client_inv env (p, w, cv, False)"
  by (simp add: hyb_client_inv_def)

lemma hyb_client_inv_same:
  assumes "hyb_client_inv env (p, w, cv, True)" and "same_tables p p'" and "\<exists>n. hybrid n p' cv'"
  shows "hyb_client_inv env (p', w', cv', c')"
  using assms hyb_env_tables [of env p p'] expn_of_tables [OF assms(2), of IPA_NAT_MEM_IN_SRAM]
  by (simp add: hyb_client_inv_def same_tables_def)

lemma hyb_step_inv:
  assumes s: "hyb_step env st st'" and i: "hyb_client_inv env st" and a: "dma_accepts env"
  shows "hyb_client_inv env st'"
proof -
  obtain p w cv c where st: "st = (p, w, cv, c)" by (cases st)
  show ?thesis
  proof (cases c)
    case False
    with s show ?thesis unfolding st by cases (auto simp: hyb_client_inv_def)
  next
    case c: True
    obtain n where e: "hyb_env env p" and h: "hybrid n p cv" and t: "unat (back_to_sram_thresh (nati_obj p)) \<le> expn_of p IPA_NAT_MEM_IN_SRAM"
      using i st c by (auto simp: hyb_client_inv_def)
    have keep: "same_tables p p' \<Longrightarrow> \<exists>n. hybrid n p' cv' \<Longrightarrow> hyb_client_inv env (p', w', cv', c')" for p' w' cv' c'
      using hyb_client_inv_same [of env p w cv] i st c by auto
    from s show ?thesis unfolding st
    proof cases
      case (hyb_add u ret hdl u' p' w')
      show ?thesis
      proof (cases "rule_accepted (nat_g p) u \<and> card (dom cv) \<le> expn_of p IPA_NAT_MEM_IN_DDR \<and> hdl \<notin> dom cv")
        case True
        then have f: "fits_in env p IPA_NAT_MEM_IN_DDR cv" using a by (simp add: fits_in_def)
        show ?thesis using client_add_hybrid [OF e h _ f, of u w] hyb_add keep [OF same_setting_tables] True by (auto split: if_splits)
      next
        case False
        then show ?thesis unfolding hyb_add(1) by (auto simp: hyb_client_inv_def)
      qed
    next
      case (hyb_add_none u ret u' p' w')
      show ?thesis
      proof (cases "rule_accepted (nat_g p) u \<and> card (dom cv) \<le> expn_of p IPA_NAT_MEM_IN_DDR")
        case True
        then have f: "fits_in env p IPA_NAT_MEM_IN_DDR cv" using a by (simp add: fits_in_def)
        show ?thesis using client_add_hybrid [OF e h _ f, of u w] hyb_add_none True by auto
      next
        case False
        then show ?thesis unfolding hyb_add_none(1) by (auto simp: hyb_client_inv_def)
      qed
    next
      case (hyb_del h' ret p' w')
      show ?thesis using client_del_hybrid [OF e h hyb_del(2) a _, of w] t hyb_del keep [OF same_setting_tables] by auto
    next
      case (hyb_query h' ret ts p' w')
      then obtain v where "cv h' = Some v" by blast
      then have "same_setting p p'" "hybrid n p' cv" using client_query_hybrid [OF e h, of h' v w] hyb_query by auto
      then show ?thesis unfolding hyb_query(1) by (intro keep [OF same_setting_tables]) blast+
    next
      case (hyb_switch m hold ret p' w')
      show ?thesis
      proof (cases "IPA_VALID_NAT_MEM_IN m \<and> card (dom cv) \<le> expn_of p m")
        case True
        then have f: "fits_in env p m cv" using a by (simp add: fits_in_def)
        have "same_tables p p'" "hybrid m p' cv" using switch_to_hybrid [OF e h _ f, of hold w] hyb_switch True by auto
        then show ?thesis unfolding hyb_switch(1) by (intro keep) blast+
      next
        case False
        then show ?thesis unfolding hyb_switch(1) by (auto simp: hyb_client_inv_def)
      qed
    qed
  qed
qed

lemma hyb_steps_inv:
  assumes "(hyb_step env)\<^sup>*\<^sup>* st st'" and "hyb_client_inv env st" and "dma_accepts env"
  shows "hyb_client_inv env st'"
  using assms by (induction rule: rtranclp_induct) (auto intro: hyb_step_inv)

end
