(* ===== verification/Nat_Hybrid_Properties.thy ===== *)
theory Nat_Hybrid_Properties
  imports Nat_Hybrid_Ops Nat_Machine_Properties
begin

unbundle bit_operations_syntax

section \<open>What the hybrid mode guarantees\<close>

text \<open>
  The properties of the hybrid mode over the public interface: the client sees the same rules under the same
  handles whichever memory holds them. Their instances are on a program with an empty table in each memory.
\<close>

subsection \<open>A concrete hybrid machine\<close>

lemma add_tbl_untouched:
  assumes "ipa_NATI_add_ipv4_tbl env g n ip num w = Some (ret, g', hdl, w')"
    and n: "IPA_VALID_NAT_MEM_IN n" "IPA_VALID_NAT_MEM_IN m" "m \<noteq> n"
  shows "untouched g g' m"
  using assms(1) put_cache_untouched(1) [OF n]
  by (auto simp: ipa_NATI_add_ipv4_tbl_def Let_def n(1) untouched_def split: if_splits bind_splits prod.splits option.splits)

definition both_globals :: nat_globals where
  "both_globals = fst (snd (the (ipa_NATI_add_ipv4_tbl senv sample_globals IPA_NAT_MEM_IN_SRAM 0x0A000001 128 ())))"

lemma sample_untouched: "untouched nat_globals_init sample_globals IPA_NAT_MEM_IN_SRAM"
proof -
  obtain ret g' hdl w' where r: "ipa_NATI_add_ipv4_tbl senv nat_globals_init IPA_NAT_MEM_IN_DDR 0x0A000001 100 () = Some (ret, g', hdl, w')"
    using add_tbl_slot [OF globals_init_free, of IPA_NAT_MEM_IN_DDR senv "0x0A000001" 100 "()"] by auto
  have "untouched nat_globals_init g' IPA_NAT_MEM_IN_SRAM" by (rule add_tbl_untouched [OF r]) simp_all
  then show ?thesis using r by (simp add: sample_globals_def)
qed

lemma sram_entries_num:
  "ipa_table_calculate_entries_num (t :: 'e ipa_table) 128 IPA_NAT_MEM_IN_SRAM
   = Some (0, t\<lparr>tot_tbl_ents := 184, table_entries := 128, expn_table_entries := 56\<rparr>)"
  by (simp add: calculate_entries_num_eq Let_def base_share_def expn_share_def even_bound_def pow2_bound.simps)

lemma sample_second:
  assumes "get_cache g IPA_NAT_MEM_IN_SRAM = Some nat_cache_zero" and "length (pdns g) = 16" and "length (ipv4_nat_cache g) = 2"
  shows "fst (the (ipa_NATI_add_ipv4_tbl senv g IPA_NAT_MEM_IN_SRAM 0x0A000001 128 ())) = 0"
    and "table_entries (nt_table (the_nt (fst (snd (the (ipa_NATI_add_ipv4_tbl senv g IPA_NAT_MEM_IN_SRAM 0x0A000001 128 ())))) IPA_NAT_MEM_IN_SRAM)) = 128"
    and "expn_table_entries (nt_table (the_nt (fst (snd (the (ipa_NATI_add_ipv4_tbl senv g IPA_NAT_MEM_IN_SRAM 0x0A000001 128 ())))) IPA_NAT_MEM_IN_SRAM)) = 56"
  using assms
  by (simp_all add: ipa_NATI_add_ipv4_tbl_def nat_cache_zero_def cache_idx_def
      mem_read_def IPA_VALID_NAT_MEM_IN_def IPA_NAT_MAX_IP4_TBLS_def sample_env_def ipa_descriptor_open_def get_tbl_def
      ipa_nati_create_table_def sram_entries_num ipa_mem_descriptor_allocate_memory_def AllocateMemory_def MapMemory_def
      ipa_nati_post_ipv4_init_cmd_def Let_def IPA_RESOURCE_NAME_MAX_def IPA_DEV_DIR_def IPA_MAX_PDN_NUM_def
      ipa_mem_descriptor_init_def put_cache_def put_tbl_def ipa_table_calculate_addresses_def ipa_table_reset_def
      ipa_nati_create_table_dma_cmd_helpers_def split_def)

lemma both_ready:
  "nat_ready both_globals IPA_NAT_MEM_IN_SRAM spec_empty" "nat_ready both_globals IPA_NAT_MEM_IN_DDR spec_empty"
  "table_entries (nt_table (the_nt both_globals IPA_NAT_MEM_IN_SRAM)) = 128"
  "expn_table_entries (nt_table (the_nt both_globals IPA_NAT_MEM_IN_SRAM)) = 56"
  "the_nt both_globals IPA_NAT_MEM_IN_DDR = the_nt sample_globals IPA_NAT_MEM_IN_DDR" "p_public_ip (pdns both_globals ! 0) = 0x0A000001"
proof -
  let ?r = "ipa_NATI_add_ipv4_tbl senv sample_globals IPA_NAT_MEM_IN_SRAM 0x0A000001 128 ()"
  have z: "the_cache nat_globals_init IPA_NAT_MEM_IN_SRAM = nat_cache_zero" "length (ipv4_nat_cache nat_globals_init) = 2"
    by (simp_all add: nat_globals_init_def cache_idx_def)
  have c: "the_cache sample_globals IPA_NAT_MEM_IN_SRAM = nat_cache_zero" "length (ipv4_nat_cache sample_globals) = 2"
    "length (pdns sample_globals) = 16"
    using sample_untouched z by (simp_all add: untouched_def nat_globals_init_def IPA_MAX_PDN_NUM_def)
  have gc: "get_cache sample_globals IPA_NAT_MEM_IN_SRAM = Some nat_cache_zero"
    using c(1,2) by (simp add: get_cache_def mem_read_def cache_idx_def)
  note sec = sample_second [OF gc c(3,2)]
  have "slot_free sample_globals IPA_NAT_MEM_IN_SRAM"
    using globals_init_free [of IPA_NAT_MEM_IN_SRAM] sample_untouched by (simp add: slot_free_def globals_ok_def untouched_def)
  from add_tbl_slot [OF this, of senv "0x0A000001" 128 "()"] obtain ret g' hdl w' where r: "?r = Some (ret, g', hdl, w')"
    and o: "if ret = 0 then hdl = tbl_hdl_of IPA_NAT_MEM_IN_SRAM \<and> nat_ready g' IPA_NAT_MEM_IN_SRAM spec_empty \<and> active_nat_cache g' = Some IPA_NAT_MEM_IN_SRAM \<and>
          p_public_ip (pdns g' ! 0) = 0x0A000001 \<and> num_pdns g' = 1 else hdl = 0 \<and> slot_free g' IPA_NAT_MEM_IN_SRAM" by auto
  have g: "g' = both_globals" "ret = 0" using r sec(1) by (simp_all add: both_globals_def)
  have ut: "untouched sample_globals both_globals IPA_NAT_MEM_IN_DDR" unfolding g(1) [symmetric] by (rule add_tbl_untouched [OF r]) simp_all
  show "nat_ready both_globals IPA_NAT_MEM_IN_SRAM spec_empty" "p_public_ip (pdns both_globals ! 0) = 0x0A000001" using o g by simp_all
  show "nat_ready both_globals IPA_NAT_MEM_IN_DDR spec_empty" using untouched_ready [OF ut] sample_ready by simp
  show "table_entries (nt_table (the_nt both_globals IPA_NAT_MEM_IN_SRAM)) = 128"
    "expn_table_entries (nt_table (the_nt both_globals IPA_NAT_MEM_IN_SRAM)) = 56" using sec(2,3) by (simp_all add: both_globals_def)
  show "the_nt both_globals IPA_NAT_MEM_IN_DDR = the_nt sample_globals IPA_NAT_MEM_IN_DDR" by (rule untouched_nt [OF ut])
qed

lemma sample_expn: "expn_table_entries (nt_table (the_nt sample_globals IPA_NAT_MEM_IN_DDR)) = 20"
  by (simp add: sample_globals_def create_simps sample_env_def)

text \<open>The program with both tables, the one in SRAM active.\<close>

definition hyb_prog :: nat_prog where
  "hyb_prog = nat_prog_init\<lparr>nat_g := both_globals, nati_obj := nati_obj_init\<lparr>prev_state := NATI_STATE_HYBRID,
     curr_state := NATI_STATE_HYBRID, ddr_tbl_hdl := tbl_hdl_of IPA_NAT_MEM_IN_DDR, sram_tbl_hdl := tbl_hdl_of IPA_NAT_MEM_IN_SRAM,
     tot_slots_in_sram := 128, back_to_sram_thresh := 32\<rparr>\<rparr>"

lemma hyb_sample: "hybrid IPA_NAT_MEM_IN_SRAM hyb_prog Map.empty"
proof -
  have r: "\<exists>s. nat_ready both_globals n s" if "IPA_VALID_NAT_MEM_IN n" for n using that both_ready(1,2) by (auto simp: nmi_valid_iff)
  have m: "length map_array_init = 5" "o2n map_array_init sub = (\<lambda>_. None)" "n2o map_array_init sub = (\<lambda>_. None)" for sub
    using map_no_lt [of sub] by (simp_all add: map_array_init_def o2n_def n2o_def)
  have "tbl_shows hyb_prog IPA_NAT_MEM_IN_SRAM spec_empty Map.empty"
    using both_ready(1) views_empty [OF m] by (simp add: tbl_shows_def hyb_prog_def nat_prog_init_def nati_obj_init_def spec_empty_def)
  moreover have "hyb_base hyb_prog" using r m(1) by (simp add: hyb_base_def hyb_prog_def nat_prog_init_def nati_obj_init_def)
  ultimately show ?thesis by (auto simp: hybrid_def hyb_prog_def)
qed

lemma hyb_sample_env: "hyb_env menv hyb_prog"
proof -
  have "dma_faithful menv (the_nt both_globals n)" if "IPA_VALID_NAT_MEM_IN n" for n
  proof -
    have "\<exists>s. nat_ready both_globals n s" using that both_ready(1,2) by (auto simp: nmi_valid_iff)
    then obtain s where r: "nat_ready both_globals n s" ..
    have "table_entries (nt_table (the_nt both_globals n)) = 128"
      using that both_ready(3,5) sample_created(2) by (auto simp: nmi_valid_iff)
    then show ?thesis unfolding machine_faithful by (rule sample_faithful [OF ready_shape [OF r]])
  qed
  then show ?thesis using machine_mutex machine_votes by (simp add: hyb_env_def hyb_prog_def)
qed

lemma hyb_sample_sel: "nat_g hyb_prog = both_globals" "hold_state (nati_obj hyb_prog) = False" "back_to_sram_thresh (nati_obj hyb_prog) = 32"
  "expn_table_entries (nt_table (the_nt both_globals IPA_NAT_MEM_IN_DDR)) = 20"
  "expn_table_entries (nt_table (the_nt both_globals IPA_NAT_MEM_IN_SRAM)) = 56"
  using both_ready(4,5) sample_expn by (simp_all add: hyb_prog_def nati_obj_init_def)

lemma hyb_sample_accepted: "rule_accepted (nat_g hyb_prog) sample_rule"
  by (simp add: hyb_sample_sel rule_accepted_def sample_rule_def both_ready(6) IPAHAL_NAT_INVALID_PROTOCOL_def IPPROTO_TCP_def IPA_MAX_PDN_NUM_def)

text \<open>The sample program after one rule was added.\<close>

lemma hyb_sample_rule:
  "\<exists>n p h v. hyb_env menv p \<and> hybrid n p [h \<mapsto> v] \<and> r_time_stamp v = 0 \<and> back_to_sram_thresh (nati_obj p) = 32 \<and>
     expn_of p IPA_NAT_MEM_IN_DDR = 20 \<and> expn_of p IPA_NAT_MEM_IN_SRAM = 56"
proof -
  have f: "fits_in menv hyb_prog IPA_NAT_MEM_IN_DDR Map.empty" using machine_accepts by (simp add: fits_in_def)
  obtain hdl n p' where s: "same_setting hyb_prog p'" and h: "hybrid n p' [hdl \<mapsto> installed_rule (pdns (nat_g hyb_prog)) (client_rule sample_rule)]"
    using client_add_hybrid [OF hyb_sample_env hyb_sample hyb_sample_accepted f, of "()"] by (auto simp: hyb_sample_sel split: if_splits)
  have "r_time_stamp (installed_rule (pdns (nat_g hyb_prog)) (client_rule sample_rule)) = 0" by (simp add: installed_rule_def client_rule_def)
  moreover have "back_to_sram_thresh (nati_obj p') = 32" "expn_of p' IPA_NAT_MEM_IN_DDR = 20" "expn_of p' IPA_NAT_MEM_IN_SRAM = 56"
    using s expn_of_same [OF s, of IPA_NAT_MEM_IN_DDR] expn_of_same [OF s, of IPA_NAT_MEM_IN_SRAM] hyb_sample_sel by (simp_all add: same_setting_def)
  ultimately show ?thesis using h hyb_env_same [OF hyb_sample_env s] by blast
qed

subsection \<open>Operations\<close>

text \<open>
  C11. Switching the memory by \<open>ipa_nat_switch_to\<close> is invisible to the client, under the conditions that the mutex,
  the clock votes and the initialisation commands work (\<open>hyb_env\<close>) and, when the memory really changes, that the
  kernel accepts every command and the expansion area of the destination has room for all rules (\<open>fits_in\<close>). The
  call then returns \<open>0\<close>, the requested memory is active, and every handle of the client names the same rule as before:
  all rules were moved, the maps between the handles were rebuilt, and no rule was added or lost.
\<close>

theorem switch_keeps_rules:
  assumes "hyb_env env p" and "hybrid ns p cv" and "IPA_VALID_NAT_MEM_IN n" and "n \<noteq> ns \<Longrightarrow> fits_in env p n cv"
  shows "\<exists>p' w'. ipa_nat_switch_to env n hold p w = Some (0, p', w') \<and> hybrid n p' cv \<and> hold_state (nati_obj p') = hold \<and>
     same_tables p p'"
  by (rule switch_to_hybrid [OF assms])

theorem switch_keeps_rules_witness:
  "\<exists>ns n p h v p' w'. hybrid ns p [h \<mapsto> v] \<and> n \<noteq> ns \<and> ipa_nat_switch_to menv n True p () = Some (0, p', w') \<and>
     hybrid n p' [h \<mapsto> v] \<and> hold_state (nati_obj p')"
proof -
  obtain ns p h v where p: "hyb_env menv p" "hybrid ns p [h \<mapsto> v]" and ex: "expn_of p IPA_NAT_MEM_IN_DDR = 20" "expn_of p IPA_NAT_MEM_IN_SRAM = 56"
    using hyb_sample_rule by blast
  obtain n where n: "IPA_VALID_NAT_MEM_IN n" "n \<noteq> ns" by (metis ipa3_nat_mem_in.distinct(1) valid_mems)
  have "fits_in menv p n [h \<mapsto> v]" using machine_accepts n(1) ex by (auto simp: fits_in_def nmi_valid_iff)
  from switch_keeps_rules [OF p n(1) this, of True "()"] n(2) p(2) show ?thesis by blast
qed

text \<open>
  C13. Adding a rule that passes the driver's validation in the hybrid mode, through the public interface, when the
  kernel accepts every command and DDR has room for the rules the client has. When SRAM is full the machine moves all
  rules to DDR and adds the rule there; no rule is lost on the way. The handle that is stored is \<open>0\<close> if the rule could
  not be placed, and then the client sees what it saw. If it is a handle the client holds already, the maps keep the
  older rule under it, every handle of the client names the rule it named, and the new rule stays in the table with
  no handle that reaches it. Otherwise the client sees exactly one rule more, under the new handle. With
  room for one more rule in DDR, and no hold on the memory, the handle is never \<open>0\<close>.
\<close>

theorem hybrid_add_refines:
  assumes "hyb_env env p" and "hybrid n p cv" and "rule_accepted (nat_g p) u" and "fits_in env p IPA_NAT_MEM_IN_DDR cv"
  shows "\<exists>hdl p' w'. ipa_nat_add_ipv4_rule env (tbl_hdl_of IPA_NAT_MEM_IN_SRAM) u p w = Some (0, Some hdl, client_rule u, p', w') \<and>
     same_setting p p' \<and>
     (if hdl = 0 then \<exists>n. hybrid n p' cv
      else if hdl \<in> dom cv then \<exists>n. orphaned n p' cv (installed_rule (pdns (nat_g p)) (client_rule u))
      else \<exists>n. hybrid n p' (cv(hdl \<mapsto> installed_rule (pdns (nat_g p)) (client_rule u)))) \<and>
     (\<not> hold_state (nati_obj p) \<and> card (dom cv) < expn_of p IPA_NAT_MEM_IN_DDR \<longrightarrow> hdl \<noteq> 0)"
  by (rule client_add_hybrid [OF assms])

theorem hybrid_add_refines_witness:
  "\<exists>hdl n p' w'. ipa_nat_add_ipv4_rule menv (tbl_hdl_of IPA_NAT_MEM_IN_SRAM) sample_rule hyb_prog () = Some (0, Some hdl, client_rule sample_rule, p', w') \<and>
     hdl \<noteq> 0 \<and> same_setting hyb_prog p' \<and> hybrid n p' [hdl \<mapsto> installed_rule (pdns both_globals) (client_rule sample_rule)]"
proof -
  have "fits_in menv hyb_prog IPA_NAT_MEM_IN_DDR Map.empty" using machine_accepts by (simp add: fits_in_def)
  from hybrid_add_refines [OF hyb_sample_env hyb_sample hyb_sample_accepted this, of "()"]
  show ?thesis by (auto simp: hyb_sample_sel split: if_splits)
qed

text \<open>
  C14. Deleting a rule in the hybrid mode by any handle the client holds returns \<open>0\<close> and removes exactly that
  rule from what the client sees, when the kernel accepts every command and the threshold for moving back does not
  exceed the expansion area of the SRAM table. When the number of rules in DDR has fallen to the threshold, the
  machine moves the remaining rules back to SRAM, and the client's other handles keep their rules.
\<close>

theorem hybrid_del_refines:
  assumes "hyb_env env p" and "hybrid n p cv" and "h \<in> dom cv" and "dma_accepts env"
    and "unat (back_to_sram_thresh (nati_obj p)) \<le> expn_of p IPA_NAT_MEM_IN_SRAM"
  shows "\<exists>p' w'. ipa_nat_del_ipv4_rule env (tbl_hdl_of IPA_NAT_MEM_IN_SRAM) h p w = Some (0, p', w') \<and>
     same_setting p p' \<and> (\<exists>n. hybrid n p' (cv(h := None)))"
  by (rule client_del_hybrid [OF assms(1-4)]) (use assms(5) in simp)

theorem hybrid_del_refines_witness:
  "\<exists>n p h v p' w'. hybrid n p [h \<mapsto> v] \<and> ipa_nat_del_ipv4_rule menv (tbl_hdl_of IPA_NAT_MEM_IN_SRAM) h p () = Some (0, p', w') \<and>
     (\<exists>n. hybrid n p' Map.empty)"
proof -
  obtain n p h v where p: "hyb_env menv p" "hybrid n p [h \<mapsto> v]" and "back_to_sram_thresh (nati_obj p) = 32" "expn_of p IPA_NAT_MEM_IN_SRAM = 56"
    using hyb_sample_rule by blast
  then have p3: "unat (back_to_sram_thresh (nati_obj p)) \<le> expn_of p IPA_NAT_MEM_IN_SRAM" by simp
  from hybrid_del_refines [OF p(1,2) _ machine_accepts p3, of h "()"] p(2) show ?thesis by auto blast
qed

text \<open>
  The time stamp of a rule is found through the client's handle in whichever memory the rule is; the query
  changes nothing the client sees.
\<close>

theorem hybrid_query_finds:
  assumes "hyb_env env p" and "hybrid n p cv" and "cv h = Some v"
  shows "\<exists>p' w'. ipa_nat_query_timestamp env (tbl_hdl_of IPA_NAT_MEM_IN_SRAM) h p w = Some (0, Some (ucast (r_time_stamp v)), p', w') \<and>
     same_setting p p' \<and> hybrid n p' cv"
  by (rule client_query_hybrid [OF assms])

theorem hybrid_query_finds_witness:
  "\<exists>p h p' w'. ipa_nat_query_timestamp menv (tbl_hdl_of IPA_NAT_MEM_IN_SRAM) h p () = Some (0, Some 0, p', w') \<and> same_setting p p'"
proof -
  obtain n p h v where p: "hyb_env menv p" "hybrid n p [h \<mapsto> v]" "r_time_stamp v = 0" using hyb_sample_rule by blast
  from hybrid_query_finds [OF p(1,2), of h v "()"] p(3) show ?thesis by auto
qed

subsection \<open>Sequences\<close>

text \<open>
  C12. The client's view over sequences of calls in the hybrid mode, when the kernel accepts every command. After any
  sequence of additions, deletions, queries and switches the view is intact as long as each added rule passed the
  validation, DDR had room for the rules at each addition and the destination at each switch on request, and no
  addition returned a handle in use (the flag of \<open>hyb_step\<close>): there is one active table, it holds exactly the rules
  the client knows, each under the handle the client was given for it, however often the rules moved between the
  memories; and each of these handles can still be queried.
\<close>

theorem hybrid_client_invariant:
  assumes "(hyb_step env)\<^sup>*\<^sup>* (p, w, cv, True) (p', w', cv', True)" and "hyb_client_inv env (p, w, cv, True)" and "dma_accepts env"
  shows "(\<exists>n. hybrid n p' cv') \<and> hyb_client_inv env (p', w', cv', True) \<and>
    (\<forall>h v. cv' h = Some v \<longrightarrow> (\<exists>q w1. ipa_nat_query_timestamp env (tbl_hdl_of IPA_NAT_MEM_IN_SRAM) h p' w' = Some (0, Some (ucast (r_time_stamp v)), q, w1)))"
proof -
  have i: "hyb_client_inv env (p', w', cv', True)" by (rule hyb_steps_inv [OF assms])
  then obtain n where n: "hyb_env env p'" "hybrid n p' cv'" by (auto simp: hyb_client_inv_def)
  have "\<exists>q w1. ipa_nat_query_timestamp env (tbl_hdl_of IPA_NAT_MEM_IN_SRAM) h p' w' = Some (0, Some (ucast (r_time_stamp v)), q, w1)"
    if "cv' h = Some v" for h v using client_query_hybrid [OF n that, of w'] by blast
  then show ?thesis using i n(2) by blast
qed

theorem hybrid_client_invariant_witness:
  "\<exists>p h v q w1. (hyb_step menv)\<^sup>*\<^sup>* (hyb_prog, (), Map.empty, True) (p, (), [h \<mapsto> v], True) \<and>
     ipa_nat_query_timestamp menv (tbl_hdl_of IPA_NAT_MEM_IN_SRAM) h p () = Some (0, Some (ucast (r_time_stamp v)), q, w1)"
proof -
  have f: "fits_in menv hyb_prog IPA_NAT_MEM_IN_DDR Map.empty" using machine_accepts by (simp add: fits_in_def)
  have i: "hyb_client_inv menv (hyb_prog, (), Map.empty, True)"
    using hyb_sample hyb_sample_env by (auto simp: hyb_client_inv_def hyb_sample_sel)
  obtain hdl p' where a: "ipa_nat_add_ipv4_rule menv (tbl_hdl_of IPA_NAT_MEM_IN_SRAM) sample_rule hyb_prog () = Some (0, Some hdl, client_rule sample_rule, p', ())"
    and z: "hdl \<noteq> 0"
    using client_add_hybrid [OF hyb_sample_env hyb_sample hyb_sample_accepted f, of "()"] by (auto simp: hyb_sample_sel)
  let ?v = "installed_rule (pdns (nat_g hyb_prog)) (client_rule sample_rule)"
  have s: "(hyb_step menv)\<^sup>*\<^sup>* (hyb_prog, (), Map.empty, True) (p', (), [hdl \<mapsto> ?v], True)"
    using hyb_add [OF a, of Map.empty True] z hyb_sample_accepted by auto
  from hybrid_client_invariant [OF s i machine_accepts] s show ?thesis by fastforce
qed

end
