(* ===== verification/Hal_Base.thy ===== *)
theory Hal_Base
  imports Nat_Entry
begin

unbundle bit_operations_syntax

section \<open>What the parts of the hardware abstraction layer share\<close>

text \<open>
  The hardware versions of \<open>msm_ipa.h\<close>, the scheme by which \<open>ipahal\<close> fills its tables of version-dependent
  functions, the bit fields of hardware structures, and the kernel's memory allocator.
\<close>

subsection \<open>Hardware versions\<close>

type_synonym ipa_hw_type = nat

definition IPA_HW_v3_0 :: ipa_hw_type where "IPA_HW_v3_0 = 10"
definition IPA_HW_v4_1 :: ipa_hw_type where "IPA_HW_v4_1 = 15"
definition IPA_HW_v4_5 :: ipa_hw_type where "IPA_HW_v4_5 = 17"
definition IPA_HW_v5_0 :: ipa_hw_type where "IPA_HW_v5_0 = 21"
definition IPA_HW_v5_1 :: ipa_hw_type where "IPA_HW_v5_1 = 22"
definition IPA_HW_v5_5 :: ipa_hw_type where "IPA_HW_v5_5 = 24"
definition IPA_HW_MAX :: ipa_hw_type where "IPA_HW_MAX = 26"

lemmas hw_defs = IPA_HW_v3_0_def IPA_HW_v4_0_def IPA_HW_v4_1_def IPA_HW_v4_5_def IPA_HW_v5_0_def IPA_HW_v5_1_def
  IPA_HW_v5_5_def IPA_HW_MAX_def

definition EFAULT :: int where "EFAULT = 14"
definition ENODEV :: int where "ENODEV = 19"
definition ENOBUFS :: int where "ENOBUFS = 105"
lemmas [errno_defs] = EFAULT_def ENODEV_def ENOBUFS_def

subsection \<open>Tables of version-dependent functions\<close>

text \<open>
  A table has one row per version. The row of a version lists only what changed; initialisation copies every
  missing entry (one whose bytes are all zero, here \<open>z\<close>) from the row before, up to the version in use.
\<close>

definition inherit_row :: "'o \<Rightarrow> 'k list \<Rightarrow> nat \<Rightarrow> (nat \<Rightarrow> 'k \<Rightarrow> 'o) \<Rightarrow> nat \<Rightarrow> 'k \<Rightarrow> 'o" where
  "inherit_row z ks i objs =
     fold (\<lambda>j objs. if objs (i + 1) j = z then objs(i + 1 := (objs (i + 1))(j := objs i j)) else objs) ks objs"

definition inherit_rows :: "'o \<Rightarrow> 'k list \<Rightarrow> ipa_hw_type \<Rightarrow> (nat \<Rightarrow> 'k \<Rightarrow> 'o) \<Rightarrow> nat \<Rightarrow> 'k \<Rightarrow> 'o" where
  "inherit_rows z ks hw objs = fold (inherit_row z ks) [IPA_HW_v3_0..<hw] objs"

text \<open>The entry in force for a version: the latest one that is listed, from version 3.0 on.\<close>

fun in_force :: "'o \<Rightarrow> (nat \<Rightarrow> 'k \<Rightarrow> 'o) \<Rightarrow> nat \<Rightarrow> 'k \<Rightarrow> 'o" where
  "in_force z objs i k = (if objs i k \<noteq> z \<or> i \<le> 10 then objs i k else in_force z objs (i - 1) k)"

declare in_force.simps [simp del]

lemma inherit_row_eq:
  "inherit_row z ks i objs n k =
     (if n = i + 1 \<and> k \<in> set ks \<and> objs n k = z then objs i k else objs n k)"
proof (induction ks arbitrary: objs)
  case (Cons j ks)
  have "inherit_row z (j # ks) i objs n k =
      inherit_row z ks i (if objs (i + 1) j = z then objs(i + 1 := (objs (i + 1))(j := objs i j)) else objs) n k"
    by (simp add: inherit_row_def)
  also have "\<dots> = (if n = i + 1 \<and> k \<in> set (j # ks) \<and> objs n k = z then objs i k else objs n k)"
    unfolding Cons.IH by auto
  finally show ?case .
qed (simp add: inherit_row_def)

lemma inherit_rows_eq:
  assumes "k \<in> set ks" and "10 \<le> hw"
  shows "inherit_rows z ks hw objs n k = (if 10 \<le> n \<and> n \<le> hw then in_force z objs n k else objs n k)"
  using assms(2)
proof (induction hw arbitrary: n rule: dec_induct)
  case base
  then show ?case by (simp add: inherit_rows_def hw_defs in_force.simps)
next
  case (step hw)
  have r: "inherit_rows z ks (Suc hw) objs = inherit_row z ks hw (inherit_rows z ks hw objs)"
    using step.hyps(1) by (simp add: inherit_rows_def hw_defs)
  show ?case
  proof (cases "n = hw + 1")
    case True
    then show ?thesis
      unfolding r inherit_row_eq step.IH using assms(1) step.hyps(1) in_force.simps [of z objs "Suc hw" k] by simp
  next
    case False
    then show ?thesis unfolding r inherit_row_eq step.IH by auto
  qed
qed

subsection \<open>Bit fields of hardware structures\<close>

text \<open>
  The structures handed to the hardware consist of bit fields of \<open>u64\<close>, which the little-endian ABI lays out
  from the least significant bit on; a value stored into a field is cut to its width. \<open>pack_bits\<close> is the number
  the structure is, \<open>bytes_le\<close> the bytes in memory.
\<close>

fun pack_bits :: "(nat \<times> u64) list \<Rightarrow> nat" where
  "pack_bits [] = 0"
| "pack_bits ((n, x) # fs) = take_bit n (unat x) + 2 ^ n * pack_bits fs"

definition bytes_le :: "nat \<Rightarrow> nat \<Rightarrow> u8 list" where
  "bytes_le len N = map (\<lambda>i. of_nat (drop_bit (8 * i) N)) [0..<len]"

fun le_nat :: "u8 list \<Rightarrow> nat" where
  "le_nat [] = 0"
| "le_nat (b # bs) = unat b + 256 * le_nat bs"

definition bits_at :: "nat \<Rightarrow> nat \<Rightarrow> nat \<Rightarrow> nat" where
  "bits_at off n N = take_bit n (drop_bit off N)"

abbreviation width_of :: "(nat \<times> u64) list \<Rightarrow> nat" where
  "width_of fs \<equiv> sum_list (map fst fs)"

lemma take_add_shift: "drop_bit (n + k) (take_bit n a + 2 ^ n * b) = drop_bit k (b :: nat)"
proof -
  have "drop_bit n (take_bit n a + 2 ^ n * b) = b"
    by (simp add: drop_bit_eq_div take_bit_eq_mod)
  then show ?thesis by (metis drop_bit_drop_bit add.commute)
qed

lemma pack_bits_drop: "drop_bit (width_of fs) (pack_bits (fs @ gs)) = pack_bits gs"
proof (induction fs)
  case (Cons f fs)
  obtain n x where f: "f = (n, x)" by (cases f)
  show ?case using Cons by (simp add: f take_add_shift)
qed simp

lemma bits_at_pack: "off = width_of fs \<Longrightarrow> bits_at off n (pack_bits (fs @ (n, x) # gs)) = take_bit n (unat x)"
  by (simp add: bits_at_def pack_bits_drop take_bit_eq_mod)

lemma pack_bits_less: "pack_bits fs < 2 ^ width_of fs"
proof (induction fs)
  case (Cons f fs)
  obtain n x where f: "f = (n, x)" by (cases f)
  have "take_bit n (unat x) + 2 ^ n * pack_bits fs < 2 ^ n * (1 + pack_bits fs)"
    using take_bit_nat_less_exp [of n "unat x"] by (simp add: algebra_simps)
  also have "\<dots> \<le> 2 ^ n * 2 ^ width_of fs" using Cons by (intro mult_le_mono2) simp
  finally show ?case by (simp add: f power_add)
qed simp

lemma le_nat_bytes: "le_nat (bytes_le len N) = take_bit (8 * len) N"
proof (induction len arbitrary: N)
  case (Suc len)
  have u: "[0..<Suc len] = 0 # map Suc [0..<len]" by (simp add: upt_conv_Cons map_Suc_upt del: upt_Suc)
  have "bytes_le (Suc len) N = of_nat N # bytes_le len (drop_bit 8 N)"
    unfolding bytes_le_def u by (simp add: o_def add.commute)
  then have "le_nat (bytes_le (Suc len) N) = take_bit 8 N + 256 * take_bit (8 * len) (drop_bit 8 N)"
    using Suc by (simp add: unat_of_nat take_bit_eq_mod)
  also have "\<dots> = take_bit (8 * Suc len) N"
    by (simp add: take_bit_eq_mod drop_bit_eq_div power_add mod_mult2_eq)
  finally show ?case .
qed (simp add: bytes_le_def)

lemma le_nat_packed: "width_of fs \<le> 8 * len \<Longrightarrow> le_nat (bytes_le len (pack_bits fs)) = pack_bits fs"
  using less_le_trans [OF pack_bits_less [of fs] power_increasing [of "width_of fs" "8 * len" "2::nat"]]
  by (simp add: le_nat_bytes take_bit_nat_eq_self_iff)

subsection \<open>The allocator\<close>

text \<open>\<open>kzalloc\<close> returns whether it succeeded, \<open>kfree\<close> releases one block.\<close>

record 'w kernel_env =
  k_alloc :: "'w \<Rightarrow> bool \<times> 'w"
  k_free :: "'w \<Rightarrow> 'w"

end
