(* ===== verification/Hal_Imm.thy ===== *)
theory Hal_Imm
  imports Hal_Base
begin

unbundle bit_operations_syntax

section \<open>Immediate commands\<close>

text \<open>
  The immediate commands of \<open>ipahal.c\<close>: the parameters of each command, the hardware structure it is packed
  into, its construction, and the table that selects the function for the hardware version. The result of a
  construction is the payload or a null pointer.
\<close>

datatype ipahal_imm_cmd_name =
  IPA_IMM_CMD_IP_V4_FILTER_INIT | IPA_IMM_CMD_IP_V6_FILTER_INIT | IPA_IMM_CMD_IP_V4_NAT_INIT
| IPA_IMM_CMD_IP_V4_ROUTING_INIT | IPA_IMM_CMD_IP_V6_ROUTING_INIT | IPA_IMM_CMD_HDR_INIT_LOCAL
| IPA_IMM_CMD_HDR_INIT_SYSTEM | IPA_IMM_CMD_REGISTER_WRITE | IPA_IMM_CMD_REGISTER_READ | IPA_IMM_CMD_NAT_DMA
| IPA_IMM_CMD_IP_PACKET_INIT | IPA_IMM_CMD_DMA_SHARED_MEM | IPA_IMM_CMD_IP_PACKET_TAG_STATUS
| IPA_IMM_CMD_DMA_TASK_32B_ADDR | IPA_IMM_CMD_TABLE_DMA | IPA_IMM_CMD_IP_V6_CT_INIT | IPA_IMM_CMD_IP_PACKET_INIT_EX

definition imm_cmd_names :: "ipahal_imm_cmd_name list" where
  "imm_cmd_names =
     [IPA_IMM_CMD_IP_V4_FILTER_INIT, IPA_IMM_CMD_IP_V6_FILTER_INIT, IPA_IMM_CMD_IP_V4_NAT_INIT,
      IPA_IMM_CMD_IP_V4_ROUTING_INIT, IPA_IMM_CMD_IP_V6_ROUTING_INIT, IPA_IMM_CMD_HDR_INIT_LOCAL,
      IPA_IMM_CMD_HDR_INIT_SYSTEM, IPA_IMM_CMD_REGISTER_WRITE, IPA_IMM_CMD_REGISTER_READ, IPA_IMM_CMD_NAT_DMA,
      IPA_IMM_CMD_IP_PACKET_INIT, IPA_IMM_CMD_DMA_SHARED_MEM, IPA_IMM_CMD_IP_PACKET_TAG_STATUS,
      IPA_IMM_CMD_DMA_TASK_32B_ADDR, IPA_IMM_CMD_TABLE_DMA, IPA_IMM_CMD_IP_V6_CT_INIT, IPA_IMM_CMD_IP_PACKET_INIT_EX]"

datatype ipahal_pipeline_clear_option = IPAHAL_HPS_CLEAR | IPAHAL_SRC_GRP_CLEAR | IPAHAL_FULL_PIPELINE_CLEAR

subsection \<open>Parameters\<close>

record ipahal_imm_cmd_ip_v4_filter_init =
  fi_hash_rules_addr :: u64
  fi_nhash_rules_addr :: u64
  fi_hash_rules_size :: u32
  fi_hash_local_addr :: u32
  fi_nhash_rules_size :: u32
  fi_nhash_local_addr :: u32

type_synonym ipahal_imm_cmd_ip_v6_filter_init = ipahal_imm_cmd_ip_v4_filter_init

record ipahal_imm_cmd_nat_ipv6ct_init_common =
  tc_base_table_addr :: u64
  tc_expansion_table_addr :: u64
  tc_base_table_addr_shared :: bool
  tc_expansion_table_addr_shared :: bool
  tc_size_base_table :: u16
  tc_size_expansion_table :: u16
  tc_table_index :: u8

record ipahal_imm_cmd_ip_v4_nat_init =
  n4_table_init :: ipahal_imm_cmd_nat_ipv6ct_init_common
  n4_index_table_addr :: u64
  n4_index_table_expansion_addr :: u64
  n4_index_table_addr_shared :: bool
  n4_index_table_expansion_addr_shared :: bool
  n4_public_addr_info :: u32

record ipahal_imm_cmd_ip_v6_ct_init =
  c6_table_init :: ipahal_imm_cmd_nat_ipv6ct_init_common

type_synonym ipahal_imm_cmd_ip_v4_routing_init = ipahal_imm_cmd_ip_v4_filter_init

type_synonym ipahal_imm_cmd_ip_v6_routing_init = ipahal_imm_cmd_ip_v4_filter_init

record ipahal_imm_cmd_hdr_init_local =
  hl_hdr_table_addr :: u64
  hl_size_hdr_table :: u32
  hl_hdr_addr :: u32

record ipahal_imm_cmd_hdr_init_system =
  hs_hdr_table_addr :: u64

record ipahal_imm_cmd_table_dma =
  td_offset :: u32
  td_data :: u16
  td_table_index :: u8
  td_base_addr :: u8

record ipahal_imm_cmd_ip_packet_init =
  pi_destination_pipe_index :: u32

record ipahal_imm_cmd_ip_packet_init_ex =
  px_frag_disable :: bool
  px_filter_disable :: bool
  px_nat_disable :: bool
  px_route_disable :: bool
  px_hdr_removal_insertion_disable :: bool
  px_cs_disable :: bool
  px_quota_tethering_stats_disable :: bool
  px_flt_rt_tbl_idx :: u8
  px_flt_stats_cnt_idx :: u8
  px_flt_priority :: u8
  px_flt_close_aggr_irq_mod :: bool
  px_flt_action :: u8
  px_flt_pdn_idx :: u8
  px_flt_set_metadata :: bool
  px_flt_retain_hdr :: bool
  px_rt_pipe_dest_idx :: u8
  px_rt_stats_cnt_idx :: u8
  px_rt_priority :: u8
  px_rt_close_aggr_irq_mod :: bool
  px_rt_hdr_offset :: u16
  px_rt_proc_ctx :: bool
  px_rt_retain_hdr :: bool
  px_rt_system :: bool
  px_dpl_disable :: bool
  px_flt_ext_hdr :: bool
  px_flt_ttl :: bool
  px_flt_qos_class :: u8
  px_rt_ext_hdr :: bool
  px_rt_ttl :: bool
  px_rt_qos_class :: u8
  px_rt_skip_ingress :: bool

record ipahal_imm_cmd_register_write =
  rw_offset :: u32
  rw_value :: u32
  rw_value_mask :: u32
  rw_skip_pipeline_clear :: bool
  rw_pipeline_clear_options :: ipahal_pipeline_clear_option

record ipahal_imm_cmd_register_read =
  rr_offset :: u32
  rr_sys_addr :: u32
  rr_skip_pipeline_clear :: bool
  rr_pipeline_clear_options :: ipahal_pipeline_clear_option

record ipahal_imm_cmd_dma_shared_mem =
  dm_system_addr :: u64
  dm_size :: u32
  dm_local_addr :: u32
  dm_clear_after_read :: bool
  dm_is_read :: bool
  dm_skip_pipeline_clear :: bool
  dm_pipeline_clear_options :: ipahal_pipeline_clear_option

record ipahal_imm_cmd_ip_packet_tag_status =
  tg_tag :: u64

record ipahal_imm_cmd_dma_task_32b_addr =
  dt_cmplt :: bool
  dt_eof :: bool
  dt_flsh :: bool
  dt_lock :: bool
  dt_unlock :: bool
  dt_size1 :: u32
  dt_addr1 :: u32
  dt_packet_size :: u32

subsection \<open>Hardware structures\<close>

text \<open>
  Each hardware structure as the list of its fields, width and value, in memory order. A \<open>bool\<close> becomes one
  bit, reserved fields keep the zero of the allocation.
\<close>

definition pipeline_clear :: "ipahal_pipeline_clear_option \<Rightarrow> u64" where
  "pipeline_clear opt =
     (case opt of IPAHAL_HPS_CLEAR \<Rightarrow> 0 | IPAHAL_SRC_GRP_CLEAR \<Rightarrow> 1 | IPAHAL_FULL_PIPELINE_CLEAR \<Rightarrow> 2)"

definition ipa_imm_cmd_hw_dma_task_32b_addr :: "ipahal_imm_cmd_dma_task_32b_addr \<Rightarrow> (nat \<times> u64) list" where
  "ipa_imm_cmd_hw_dma_task_32b_addr p =
     [(11, 0), (1, of_bool (dt_cmplt p)), (1, of_bool (dt_eof p)), (1, of_bool (dt_flsh p)),
      (1, of_bool (dt_lock p)), (1, of_bool (dt_unlock p)), (16, ucast (dt_size1 p)),
      (32, ucast (dt_addr1 p)), (16, ucast (dt_packet_size p))]"

definition ipa_imm_cmd_hw_ip_packet_tag_status :: "ipahal_imm_cmd_ip_packet_tag_status \<Rightarrow> (nat \<times> u64) list" where
  "ipa_imm_cmd_hw_ip_packet_tag_status p =
     [(16, 0), (48, tg_tag p)]"

definition ipa_imm_cmd_hw_dma_shared_mem :: "ipahal_imm_cmd_dma_shared_mem \<Rightarrow> (nat \<times> u64) list" where
  "ipa_imm_cmd_hw_dma_shared_mem p =
     [(16, 0), (16, ucast (dm_size p)), (16, ucast (dm_local_addr p)), (1, of_bool (dm_is_read p)),
      (1, of_bool (dm_skip_pipeline_clear p)), (2, pipeline_clear (dm_pipeline_clear_options p)), (12, 0),
      (64, dm_system_addr p)]"

definition ipa_imm_cmd_hw_dma_shared_mem_v_4_0 :: "ipahal_imm_cmd_dma_shared_mem \<Rightarrow> (nat \<times> u64) list" where
  "ipa_imm_cmd_hw_dma_shared_mem_v_4_0 p =
     [(15, 0), (1, of_bool (dm_clear_after_read p)), (16, ucast (dm_size p)),
      (16, ucast (dm_local_addr p)), (1, of_bool (dm_is_read p)), (15, 0), (64, dm_system_addr p)]"

definition ipa_imm_cmd_hw_register_write :: "ipahal_imm_cmd_register_write \<Rightarrow> (nat \<times> u64) list" where
  "ipa_imm_cmd_hw_register_write p =
     [(15, 0), (1, of_bool (rw_skip_pipeline_clear p)), (16, ucast (rw_offset p)),
      (32, ucast (rw_value p)), (32, ucast (rw_value_mask p)),
      (2, pipeline_clear (rw_pipeline_clear_options p)), (30, 0)]"

definition ipa_imm_cmd_hw_register_write_v_4_0 :: "ipahal_imm_cmd_register_write \<Rightarrow> (nat \<times> u64) list" where
  "ipa_imm_cmd_hw_register_write_v_4_0 p =
     [(11, 0), (4, ucast (drop_bit 16 (rw_offset p))), (1, 0), (16, ucast (rw_offset p)),
      (32, ucast (rw_value p)), (32, ucast (rw_value_mask p)), (32, 0)]"

definition ipa_imm_cmd_hw_register_read :: "ipahal_imm_cmd_register_read \<Rightarrow> (nat \<times> u64) list" where
  "ipa_imm_cmd_hw_register_read p =
     [(11, 0), (4, ucast (drop_bit 16 (rr_offset p))), (1, 0), (16, ucast (rr_offset p)),
      (32, ucast (rr_sys_addr p))]"

definition ipa_imm_cmd_hw_ip_packet_init :: "ipahal_imm_cmd_ip_packet_init \<Rightarrow> (nat \<times> u64) list" where
  "ipa_imm_cmd_hw_ip_packet_init p =
     [(5, ucast (pi_destination_pipe_index p)), (59, 0)]"

definition ipa_imm_cmd_hw_ip_packet_init_v_5_0 :: "ipahal_imm_cmd_ip_packet_init \<Rightarrow> (nat \<times> u64) list" where
  "ipa_imm_cmd_hw_ip_packet_init_v_5_0 p =
     [(8, ucast (pi_destination_pipe_index p)), (56, 0)]"

definition ipa_imm_cmd_hw_ip_packet_init_ex :: "ipahal_imm_cmd_ip_packet_init_ex \<Rightarrow> (nat \<times> u64) list" where
  "ipa_imm_cmd_hw_ip_packet_init_ex p =
     [(16, 0), (1, of_bool (px_frag_disable p)), (1, of_bool (px_filter_disable p)),
      (1, of_bool (px_nat_disable p)), (1, of_bool (px_route_disable p)),
      (1, of_bool (px_hdr_removal_insertion_disable p)), (1, of_bool (px_cs_disable p)),
      (1, of_bool (px_quota_tethering_stats_disable p)), (9, 0), (8, ucast (px_flt_rt_tbl_idx p)),
      (8, ucast (px_flt_stats_cnt_idx p)), (8, ucast (px_flt_priority p)), (1, 0),
      (1, of_bool (px_flt_close_aggr_irq_mod p)), (10, 0x3FF), (5, ucast (px_flt_action p)),
      (4, ucast (px_flt_pdn_idx p)), (1, of_bool (px_flt_set_metadata p)),
      (1, of_bool (px_flt_retain_hdr p)), (1, 0), (8, ucast (px_rt_pipe_dest_idx p)),
      (8, ucast (px_rt_stats_cnt_idx p)), (8, ucast (px_rt_priority p)), (1, 0),
      (1, of_bool (px_rt_close_aggr_irq_mod p)), (10, 0x3FF), (9, ucast (px_rt_hdr_offset p)),
      (1, of_bool (px_rt_proc_ctx p)), (1, of_bool (px_rt_retain_hdr p)), (1, of_bool (px_rt_system p))]"

definition ipa_imm_cmd_hw_ip_packet_init_ex_v5_5 :: "ipahal_imm_cmd_ip_packet_init_ex \<Rightarrow> (nat \<times> u64) list" where
  "ipa_imm_cmd_hw_ip_packet_init_ex_v5_5 p =
     [(16, 0), (1, of_bool (px_frag_disable p)), (1, of_bool (px_filter_disable p)),
      (1, of_bool (px_nat_disable p)), (1, of_bool (px_route_disable p)),
      (1, of_bool (px_hdr_removal_insertion_disable p)), (1, of_bool (px_cs_disable p)),
      (1, of_bool (px_quota_tethering_stats_disable p)), (1, of_bool (px_dpl_disable p)), (40, 0),
      (8, ucast (px_flt_rt_tbl_idx p)), (8, ucast (px_flt_stats_cnt_idx p)),
      (8, ucast (px_flt_priority p)), (1, of_bool (px_flt_ext_hdr p)),
      (1, of_bool (px_flt_close_aggr_irq_mod p)), (10, 0x3FF), (5, ucast (px_flt_action p)),
      (4, ucast (px_flt_pdn_idx p)), (1, of_bool (px_flt_set_metadata p)),
      (1, of_bool (px_flt_retain_hdr p)), (1, 0), (1, of_bool (px_flt_ttl p)),
      (6, ucast (px_flt_qos_class p)), (9, 0), (8, ucast (px_rt_pipe_dest_idx p)),
      (8, ucast (px_rt_stats_cnt_idx p)), (8, ucast (px_rt_priority p)), (1, of_bool (px_rt_ext_hdr p)),
      (1, of_bool (px_rt_close_aggr_irq_mod p)), (10, 0x3FF), (9, ucast (px_rt_hdr_offset p)),
      (1, of_bool (px_rt_proc_ctx p)), (1, of_bool (px_rt_retain_hdr p)), (1, of_bool (px_rt_system p)),
      (1, of_bool (px_rt_ttl p)), (6, ucast (px_rt_qos_class p)), (1, of_bool (px_rt_skip_ingress p)),
      (8, 0)]"

definition ipa_imm_cmd_hw_nat_dma :: "ipahal_imm_cmd_table_dma \<Rightarrow> (nat \<times> u64) list" where
  "ipa_imm_cmd_hw_nat_dma p =
     [(3, ucast (td_table_index p)), (1, 0), (2, ucast (td_base_addr p)), (2, 0),
      (32, ucast (td_offset p)), (16, ucast (td_data p)), (8, 0)]"

definition ipa_imm_cmd_hw_table_dma_ipav4 :: "ipahal_imm_cmd_table_dma \<Rightarrow> (nat \<times> u64) list" where
  "ipa_imm_cmd_hw_table_dma_ipav4 p =
     [(3, ucast (td_table_index p)), (1, 0), (3, ucast (td_base_addr p)), (1, 0),
      (32, ucast (td_offset p)), (16, ucast (td_data p)), (8, 0)]"

definition ipa_imm_cmd_hw_hdr_init_system :: "ipahal_imm_cmd_hdr_init_system \<Rightarrow> (nat \<times> u64) list" where
  "ipa_imm_cmd_hw_hdr_init_system p =
     [(64, hs_hdr_table_addr p)]"

definition ipa_imm_cmd_hw_hdr_init_local :: "ipahal_imm_cmd_hdr_init_local \<Rightarrow> (nat \<times> u64) list" where
  "ipa_imm_cmd_hw_hdr_init_local p =
     [(64, hl_hdr_table_addr p), (12, ucast (hl_size_hdr_table p)), (16, ucast (hl_hdr_addr p)), (4, 0)]"

definition ipa_imm_cmd_hw_ip_v6_routing_init :: "ipahal_imm_cmd_ip_v6_routing_init \<Rightarrow> (nat \<times> u64) list" where
  "ipa_imm_cmd_hw_ip_v6_routing_init p =
     [(64, fi_hash_rules_addr p), (12, ucast (fi_hash_rules_size p)), (16, ucast (fi_hash_local_addr p)),
      (12, ucast (fi_nhash_rules_size p)), (16, ucast (fi_nhash_local_addr p)), (8, 0),
      (64, fi_nhash_rules_addr p)]"

definition ipa_imm_cmd_hw_ip_v4_routing_init :: "ipahal_imm_cmd_ip_v4_routing_init \<Rightarrow> (nat \<times> u64) list" where
  "ipa_imm_cmd_hw_ip_v4_routing_init p =
     [(64, fi_hash_rules_addr p), (12, ucast (fi_hash_rules_size p)), (16, ucast (fi_hash_local_addr p)),
      (12, ucast (fi_nhash_rules_size p)), (16, ucast (fi_nhash_local_addr p)), (8, 0),
      (64, fi_nhash_rules_addr p)]"

definition ipa_imm_cmd_hw_ip_v4_nat_init :: "ipahal_imm_cmd_ip_v4_nat_init \<Rightarrow> (nat \<times> u64) list" where
  "ipa_imm_cmd_hw_ip_v4_nat_init p =
     [(64, tc_base_table_addr (n4_table_init p)), (64, tc_expansion_table_addr (n4_table_init p)),
      (64, n4_index_table_addr p), (64, n4_index_table_expansion_addr p),
      (3, ucast (tc_table_index (n4_table_init p))), (1, 0),
      (1, of_bool (tc_base_table_addr_shared (n4_table_init p))),
      (1, of_bool (tc_expansion_table_addr_shared (n4_table_init p))),
      (1, of_bool (n4_index_table_addr_shared p)), (1, of_bool (n4_index_table_expansion_addr_shared p)),
      (12, ucast (tc_size_base_table (n4_table_init p))),
      (10, ucast (tc_size_expansion_table (n4_table_init p))), (2, 0), (32, ucast (n4_public_addr_info p))]"

definition ipa_imm_cmd_hw_ip_v6_ct_init :: "ipahal_imm_cmd_ip_v6_ct_init \<Rightarrow> (nat \<times> u64) list" where
  "ipa_imm_cmd_hw_ip_v6_ct_init p =
     [(64, tc_base_table_addr (c6_table_init p)), (64, tc_expansion_table_addr (c6_table_init p)),
      (3, ucast (tc_table_index (c6_table_init p))), (1, 0),
      (1, of_bool (tc_base_table_addr_shared (c6_table_init p))),
      (1, of_bool (tc_expansion_table_addr_shared (c6_table_init p))), (2, 0),
      (12, ucast (tc_size_base_table (c6_table_init p))),
      (10, ucast (tc_size_expansion_table (c6_table_init p))), (34, 0)]"

definition ipa_imm_cmd_hw_ip_v6_filter_init :: "ipahal_imm_cmd_ip_v6_filter_init \<Rightarrow> (nat \<times> u64) list" where
  "ipa_imm_cmd_hw_ip_v6_filter_init p =
     [(64, fi_hash_rules_addr p), (12, ucast (fi_hash_rules_size p)), (16, ucast (fi_hash_local_addr p)),
      (12, ucast (fi_nhash_rules_size p)), (16, ucast (fi_nhash_local_addr p)), (8, 0),
      (64, fi_nhash_rules_addr p)]"

definition ipa_imm_cmd_hw_ip_v4_filter_init :: "ipahal_imm_cmd_ip_v4_filter_init \<Rightarrow> (nat \<times> u64) list" where
  "ipa_imm_cmd_hw_ip_v4_filter_init p =
     [(64, fi_hash_rules_addr p), (12, ucast (fi_hash_rules_size p)), (16, ucast (fi_hash_local_addr p)),
      (12, ucast (fi_nhash_rules_size p)), (16, ucast (fi_nhash_local_addr p)), (8, 0),
      (64, fi_nhash_rules_addr p)]"

subsection \<open>The table of constructors\<close>

text \<open>Pointers to the construction functions are named by the constructors of \<open>imm_construct\<close>.\<close>

datatype imm_construct =
  Construct_dma_task_32b_addr | Construct_ip_packet_tag_status | Construct_dma_shared_mem |
  Construct_dma_shared_mem_v_4_0 | Construct_register_write | Construct_register_write_v_4_0 |
  Construct_register_read | Construct_ip_packet_init | Construct_ip_packet_init_v_5_0 |
  Construct_ip_packet_init_ex | Construct_ip_packet_init_ex_v5_5 | Construct_nat_dma |
  Construct_table_dma_ipav4 | Construct_hdr_init_system | Construct_hdr_init_local |
  Construct_ip_v6_routing_init | Construct_ip_v4_routing_init | Construct_ip_v4_nat_init |
  Construct_ip_v6_ct_init | Construct_ip_v6_filter_init | Construct_ip_v4_filter_init |
  Construct_dummy

record ipahal_imm_cmd_obj =
  construct :: "imm_construct option"
  opcode :: u16

definition imm_cmd_obj_zero :: ipahal_imm_cmd_obj where
  "imm_cmd_obj_zero = \<lparr>construct = None, opcode = 0\<rparr>"

text \<open>The modify functions of the table, which the components modelled here do not call, are left out.\<close>

definition imm_cmd_objs_static :: "((ipa_hw_type \<times> ipahal_imm_cmd_name) \<times> ipahal_imm_cmd_obj) list" where
  "imm_cmd_objs_static =
     [((IPA_HW_v3_0, IPA_IMM_CMD_IP_V4_FILTER_INIT), \<lparr>construct = Some Construct_ip_v4_filter_init, opcode = 3\<rparr>),
      ((IPA_HW_v3_0, IPA_IMM_CMD_IP_V6_FILTER_INIT), \<lparr>construct = Some Construct_ip_v6_filter_init, opcode = 4\<rparr>),
      ((IPA_HW_v3_0, IPA_IMM_CMD_IP_V4_NAT_INIT), \<lparr>construct = Some Construct_ip_v4_nat_init, opcode = 5\<rparr>),
      ((IPA_HW_v3_0, IPA_IMM_CMD_IP_V4_ROUTING_INIT), \<lparr>construct = Some Construct_ip_v4_routing_init, opcode = 7\<rparr>),
      ((IPA_HW_v3_0, IPA_IMM_CMD_IP_V6_ROUTING_INIT), \<lparr>construct = Some Construct_ip_v6_routing_init, opcode = 8\<rparr>),
      ((IPA_HW_v3_0, IPA_IMM_CMD_HDR_INIT_LOCAL), \<lparr>construct = Some Construct_hdr_init_local, opcode = 9\<rparr>),
      ((IPA_HW_v3_0, IPA_IMM_CMD_HDR_INIT_SYSTEM), \<lparr>construct = Some Construct_hdr_init_system, opcode = 10\<rparr>),
      ((IPA_HW_v3_0, IPA_IMM_CMD_REGISTER_WRITE), \<lparr>construct = Some Construct_register_write, opcode = 12\<rparr>),
      ((IPA_HW_v3_0, IPA_IMM_CMD_NAT_DMA), \<lparr>construct = Some Construct_nat_dma, opcode = 14\<rparr>),
      ((IPA_HW_v3_0, IPA_IMM_CMD_IP_PACKET_INIT), \<lparr>construct = Some Construct_ip_packet_init, opcode = 16\<rparr>),
      ((IPA_HW_v3_0, IPA_IMM_CMD_DMA_TASK_32B_ADDR), \<lparr>construct = Some Construct_dma_task_32b_addr, opcode = 17\<rparr>),
      ((IPA_HW_v3_0, IPA_IMM_CMD_DMA_SHARED_MEM), \<lparr>construct = Some Construct_dma_shared_mem, opcode = 19\<rparr>),
      ((IPA_HW_v3_0, IPA_IMM_CMD_IP_PACKET_TAG_STATUS), \<lparr>construct = Some Construct_ip_packet_tag_status, opcode = 20\<rparr>),
      ((IPA_HW_v4_0, IPA_IMM_CMD_REGISTER_WRITE), \<lparr>construct = Some Construct_register_write_v_4_0, opcode = 12\<rparr>),
      ((IPA_HW_v4_0, IPA_IMM_CMD_NAT_DMA), \<lparr>construct = Some Construct_dummy, opcode = - 1\<rparr>),
      ((IPA_HW_v4_0, IPA_IMM_CMD_TABLE_DMA), \<lparr>construct = Some Construct_table_dma_ipav4, opcode = 14\<rparr>),
      ((IPA_HW_v4_0, IPA_IMM_CMD_DMA_SHARED_MEM), \<lparr>construct = Some Construct_dma_shared_mem_v_4_0, opcode = 19\<rparr>),
      ((IPA_HW_v4_0, IPA_IMM_CMD_IP_V6_CT_INIT), \<lparr>construct = Some Construct_ip_v6_ct_init, opcode = 23\<rparr>),
      ((IPA_HW_v5_0, IPA_IMM_CMD_IP_PACKET_INIT), \<lparr>construct = Some Construct_ip_packet_init_v_5_0, opcode = 16\<rparr>),
      ((IPA_HW_v5_0, IPA_IMM_CMD_IP_PACKET_INIT_EX), \<lparr>construct = Some Construct_ip_packet_init_ex, opcode = 18\<rparr>),
      ((IPA_HW_v5_1, IPA_IMM_CMD_REGISTER_READ), \<lparr>construct = Some Construct_register_read, opcode = 13\<rparr>),
      ((IPA_HW_v5_5, IPA_IMM_CMD_IP_PACKET_INIT_EX), \<lparr>construct = Some Construct_ip_packet_init_ex_v5_5, opcode = 18\<rparr>)]"

record ipahal =
  hal_hw_type :: ipa_hw_type
  imm_cmd_objs :: "ipa_hw_type \<Rightarrow> ipahal_imm_cmd_name \<Rightarrow> ipahal_imm_cmd_obj"

definition imm_cmd_objs_init :: "ipa_hw_type \<Rightarrow> ipahal_imm_cmd_name \<Rightarrow> ipahal_imm_cmd_obj" where
  "imm_cmd_objs_init hw cmd = (case map_of imm_cmd_objs_static (hw, cmd) of None \<Rightarrow> imm_cmd_obj_zero | Some ob \<Rightarrow> ob)"

definition ipahal_imm_cmd_init :: "ipa_hw_type \<Rightarrow> 'm ipahal_scheme \<Rightarrow> int \<times> 'm ipahal_scheme" where
  "ipahal_imm_cmd_init hw hal =
     (if IPA_HW_MAX \<le> hw then (- EINVAL, hal)
      else (0, hal\<lparr>imm_cmd_objs := inherit_rows imm_cmd_obj_zero imm_cmd_names hw (imm_cmd_objs hal)\<rparr>))"

text \<open>The opcode, a \<open>u16\<close>, is read into a \<open>u32\<close> and compared with \<open>-1\<close>, the mark of a removed command.\<close>

definition ipahal_imm_cmd_get_opcode :: "'m ipahal_scheme \<Rightarrow> ipahal_imm_cmd_name \<Rightarrow> u16" where
  "ipahal_imm_cmd_get_opcode hal cmd =
     (let opc = ucast (opcode (imm_cmd_objs hal (hal_hw_type hal) cmd)) :: u32
      in if opc = - 1 then of_int (- EFAULT) else ucast opc)"

subsection \<open>Construction\<close>

record ipahal_imm_cmd_pyld =
  py_len :: u16
  py_opcode :: u16
  py_data :: "u8 list"

text \<open>
  A payload is allocated with \<open>sz\<close> bytes for the hardware structure behind it, and records the length \<open>len\<close>. Every
  constructor passes the two separately; in the C code each is a \<open>sizeof\<close> expression of its own.
\<close>

definition alloc_pyld ::
    "('w, 'e) kernel_env_scheme \<Rightarrow> u16 \<Rightarrow> nat \<Rightarrow> nat \<Rightarrow> (nat \<times> u64) list \<Rightarrow> 'w \<Rightarrow> ipahal_imm_cmd_pyld option \<times> 'w" where
  "alloc_pyld env opc sz len fs w =
     (let (ok, w) = k_alloc env w
      in (if ok then Some \<lparr>py_len = of_nat len, py_opcode = opc, py_data = bytes_le sz (pack_bits fs)\<rparr> else None, w))"

definition ipa_imm_cmd_construct_dma_task_32b_addr ::
    "('w, 'e) kernel_env_scheme \<Rightarrow> 'm ipahal_scheme \<Rightarrow> ipahal_imm_cmd_name \<Rightarrow> ipahal_imm_cmd_dma_task_32b_addr \<Rightarrow> 'w
     \<Rightarrow> ipahal_imm_cmd_pyld option \<times> 'w" where
  "ipa_imm_cmd_construct_dma_task_32b_addr env hal cmd p w =
     alloc_pyld env (ipahal_imm_cmd_get_opcode hal cmd + push_bit 8 1) 16 16 (ipa_imm_cmd_hw_dma_task_32b_addr p) w"

definition ipa_imm_cmd_construct_ip_packet_tag_status ::
    "('w, 'e) kernel_env_scheme \<Rightarrow> 'm ipahal_scheme \<Rightarrow> ipahal_imm_cmd_name \<Rightarrow> ipahal_imm_cmd_ip_packet_tag_status \<Rightarrow> 'w
     \<Rightarrow> ipahal_imm_cmd_pyld option \<times> 'w" where
  "ipa_imm_cmd_construct_ip_packet_tag_status env hal cmd p w =
     alloc_pyld env (ipahal_imm_cmd_get_opcode hal cmd) 8 8 (ipa_imm_cmd_hw_ip_packet_tag_status p) w"

definition ipa_imm_cmd_construct_dma_shared_mem ::
    "('w, 'e) kernel_env_scheme \<Rightarrow> 'm ipahal_scheme \<Rightarrow> ipahal_imm_cmd_name \<Rightarrow> ipahal_imm_cmd_dma_shared_mem \<Rightarrow> 'w
     \<Rightarrow> ipahal_imm_cmd_pyld option \<times> 'w" where
  "ipa_imm_cmd_construct_dma_shared_mem env hal cmd p w =
     alloc_pyld env (ipahal_imm_cmd_get_opcode hal cmd) 16 16 (ipa_imm_cmd_hw_dma_shared_mem p) w"

definition ipa_imm_cmd_construct_dma_shared_mem_v_4_0 ::
    "('w, 'e) kernel_env_scheme \<Rightarrow> 'm ipahal_scheme \<Rightarrow> ipahal_imm_cmd_name \<Rightarrow> ipahal_imm_cmd_dma_shared_mem \<Rightarrow> 'w
     \<Rightarrow> ipahal_imm_cmd_pyld option \<times> 'w" where
  "ipa_imm_cmd_construct_dma_shared_mem_v_4_0 env hal cmd p w =
     (if dm_size p AND NOT 0xFFFF \<noteq> 0 \<or> dm_local_addr p AND NOT 0xFFFF \<noteq> 0 then (None, w)
      else alloc_pyld env ((ipahal_imm_cmd_get_opcode hal cmd OR push_bit 8 (of_bool (dm_skip_pipeline_clear p))) OR
          push_bit 9 (ucast (pipeline_clear (dm_pipeline_clear_options p)))) 16 16 (ipa_imm_cmd_hw_dma_shared_mem_v_4_0 p) w)"

definition ipa_imm_cmd_construct_register_write ::
    "('w, 'e) kernel_env_scheme \<Rightarrow> 'm ipahal_scheme \<Rightarrow> ipahal_imm_cmd_name \<Rightarrow> ipahal_imm_cmd_register_write \<Rightarrow> 'w
     \<Rightarrow> ipahal_imm_cmd_pyld option \<times> 'w" where
  "ipa_imm_cmd_construct_register_write env hal cmd p w =
     alloc_pyld env (ipahal_imm_cmd_get_opcode hal cmd) 16 16 (ipa_imm_cmd_hw_register_write p) w"

definition ipa_imm_cmd_construct_register_write_v_4_0 ::
    "('w, 'e) kernel_env_scheme \<Rightarrow> 'm ipahal_scheme \<Rightarrow> ipahal_imm_cmd_name \<Rightarrow> ipahal_imm_cmd_register_write \<Rightarrow> 'w
     \<Rightarrow> ipahal_imm_cmd_pyld option \<times> 'w" where
  "ipa_imm_cmd_construct_register_write_v_4_0 env hal cmd p w =
     (if rw_offset p AND NOT 0xFFFF \<noteq> 0 then (None, w)
      else alloc_pyld env ((ipahal_imm_cmd_get_opcode hal cmd OR push_bit 8 (of_bool (rw_skip_pipeline_clear p))) OR
          push_bit 9 (ucast (pipeline_clear (rw_pipeline_clear_options p)))) 16 16 (ipa_imm_cmd_hw_register_write_v_4_0 p) w)"

definition ipa_imm_cmd_construct_register_read ::
    "('w, 'e) kernel_env_scheme \<Rightarrow> 'm ipahal_scheme \<Rightarrow> ipahal_imm_cmd_name \<Rightarrow> ipahal_imm_cmd_register_read \<Rightarrow> 'w
     \<Rightarrow> ipahal_imm_cmd_pyld option \<times> 'w" where
  "ipa_imm_cmd_construct_register_read env hal cmd p w =
     (if rr_offset p AND NOT 0xFFFF \<noteq> 0 then (None, w)
      else alloc_pyld env ((ipahal_imm_cmd_get_opcode hal cmd OR push_bit 8 (of_bool (rr_skip_pipeline_clear p))) OR
          push_bit 9 (ucast (pipeline_clear (rr_pipeline_clear_options p)))) 8 8 (ipa_imm_cmd_hw_register_read p) w)"

definition ipa_imm_cmd_construct_ip_packet_init ::
    "('w, 'e) kernel_env_scheme \<Rightarrow> 'm ipahal_scheme \<Rightarrow> ipahal_imm_cmd_name \<Rightarrow> ipahal_imm_cmd_ip_packet_init \<Rightarrow> 'w
     \<Rightarrow> ipahal_imm_cmd_pyld option \<times> 'w" where
  "ipa_imm_cmd_construct_ip_packet_init env hal cmd p w =
     alloc_pyld env (ipahal_imm_cmd_get_opcode hal cmd) 8 8 (ipa_imm_cmd_hw_ip_packet_init p) w"

definition ipa_imm_cmd_construct_ip_packet_init_v_5_0 ::
    "('w, 'e) kernel_env_scheme \<Rightarrow> 'm ipahal_scheme \<Rightarrow> ipahal_imm_cmd_name \<Rightarrow> ipahal_imm_cmd_ip_packet_init \<Rightarrow> 'w
     \<Rightarrow> ipahal_imm_cmd_pyld option \<times> 'w" where
  "ipa_imm_cmd_construct_ip_packet_init_v_5_0 env hal cmd p w =
     alloc_pyld env (ipahal_imm_cmd_get_opcode hal cmd) 8 8 (ipa_imm_cmd_hw_ip_packet_init_v_5_0 p) w"

definition ipa_imm_cmd_construct_ip_packet_init_ex ::
    "('w, 'e) kernel_env_scheme \<Rightarrow> 'm ipahal_scheme \<Rightarrow> ipahal_imm_cmd_name \<Rightarrow> ipahal_imm_cmd_ip_packet_init_ex \<Rightarrow> 'w
     \<Rightarrow> ipahal_imm_cmd_pyld option \<times> 'w" where
  "ipa_imm_cmd_construct_ip_packet_init_ex env hal cmd p w =
     alloc_pyld env (ipahal_imm_cmd_get_opcode hal cmd) 16 16 (ipa_imm_cmd_hw_ip_packet_init_ex p) w"

definition ipa_imm_cmd_construct_ip_packet_init_ex_v5_5 ::
    "('w, 'e) kernel_env_scheme \<Rightarrow> 'm ipahal_scheme \<Rightarrow> ipahal_imm_cmd_name \<Rightarrow> ipahal_imm_cmd_ip_packet_init_ex \<Rightarrow> 'w
     \<Rightarrow> ipahal_imm_cmd_pyld option \<times> 'w" where
  "ipa_imm_cmd_construct_ip_packet_init_ex_v5_5 env hal cmd p w =
     alloc_pyld env (ipahal_imm_cmd_get_opcode hal cmd) 24 24 (ipa_imm_cmd_hw_ip_packet_init_ex_v5_5 p) w"

definition ipa_imm_cmd_construct_nat_dma ::
    "('w, 'e) kernel_env_scheme \<Rightarrow> 'm ipahal_scheme \<Rightarrow> ipahal_imm_cmd_name \<Rightarrow> ipahal_imm_cmd_table_dma \<Rightarrow> 'w
     \<Rightarrow> ipahal_imm_cmd_pyld option \<times> 'w" where
  "ipa_imm_cmd_construct_nat_dma env hal cmd p w =
     alloc_pyld env (ipahal_imm_cmd_get_opcode hal cmd) 8 8 (ipa_imm_cmd_hw_nat_dma p) w"

definition ipa_imm_cmd_construct_table_dma_ipav4 ::
    "('w, 'e) kernel_env_scheme \<Rightarrow> 'm ipahal_scheme \<Rightarrow> ipahal_imm_cmd_name \<Rightarrow> ipahal_imm_cmd_table_dma \<Rightarrow> 'w
     \<Rightarrow> ipahal_imm_cmd_pyld option \<times> 'w" where
  "ipa_imm_cmd_construct_table_dma_ipav4 env hal cmd p w =
     alloc_pyld env (ipahal_imm_cmd_get_opcode hal cmd) 8 8 (ipa_imm_cmd_hw_table_dma_ipav4 p) w"

definition ipa_imm_cmd_construct_hdr_init_system ::
    "('w, 'e) kernel_env_scheme \<Rightarrow> 'm ipahal_scheme \<Rightarrow> ipahal_imm_cmd_name \<Rightarrow> ipahal_imm_cmd_hdr_init_system \<Rightarrow> 'w
     \<Rightarrow> ipahal_imm_cmd_pyld option \<times> 'w" where
  "ipa_imm_cmd_construct_hdr_init_system env hal cmd p w =
     alloc_pyld env (ipahal_imm_cmd_get_opcode hal cmd) 8 8 (ipa_imm_cmd_hw_hdr_init_system p) w"

definition ipa_imm_cmd_construct_hdr_init_local ::
    "('w, 'e) kernel_env_scheme \<Rightarrow> 'm ipahal_scheme \<Rightarrow> ipahal_imm_cmd_name \<Rightarrow> ipahal_imm_cmd_hdr_init_local \<Rightarrow> 'w
     \<Rightarrow> ipahal_imm_cmd_pyld option \<times> 'w" where
  "ipa_imm_cmd_construct_hdr_init_local env hal cmd p w =
     alloc_pyld env (ipahal_imm_cmd_get_opcode hal cmd) 16 16 (ipa_imm_cmd_hw_hdr_init_local p) w"

definition ipa_imm_cmd_construct_ip_v6_routing_init ::
    "('w, 'e) kernel_env_scheme \<Rightarrow> 'm ipahal_scheme \<Rightarrow> ipahal_imm_cmd_name \<Rightarrow> ipahal_imm_cmd_ip_v6_routing_init \<Rightarrow> 'w
     \<Rightarrow> ipahal_imm_cmd_pyld option \<times> 'w" where
  "ipa_imm_cmd_construct_ip_v6_routing_init env hal cmd p w =
     alloc_pyld env (ipahal_imm_cmd_get_opcode hal cmd) 24 24 (ipa_imm_cmd_hw_ip_v6_routing_init p) w"

definition ipa_imm_cmd_construct_ip_v4_routing_init ::
    "('w, 'e) kernel_env_scheme \<Rightarrow> 'm ipahal_scheme \<Rightarrow> ipahal_imm_cmd_name \<Rightarrow> ipahal_imm_cmd_ip_v4_routing_init \<Rightarrow> 'w
     \<Rightarrow> ipahal_imm_cmd_pyld option \<times> 'w" where
  "ipa_imm_cmd_construct_ip_v4_routing_init env hal cmd p w =
     alloc_pyld env (ipahal_imm_cmd_get_opcode hal cmd) 24 24 (ipa_imm_cmd_hw_ip_v4_routing_init p) w"

definition ipa_imm_cmd_construct_ip_v4_nat_init ::
    "('w, 'e) kernel_env_scheme \<Rightarrow> 'm ipahal_scheme \<Rightarrow> ipahal_imm_cmd_name \<Rightarrow> ipahal_imm_cmd_ip_v4_nat_init \<Rightarrow> 'w
     \<Rightarrow> ipahal_imm_cmd_pyld option \<times> 'w" where
  "ipa_imm_cmd_construct_ip_v4_nat_init env hal cmd p w =
     alloc_pyld env (ipahal_imm_cmd_get_opcode hal cmd) 40 40 (ipa_imm_cmd_hw_ip_v4_nat_init p) w"

definition ipa_imm_cmd_construct_ip_v6_ct_init ::
    "('w, 'e) kernel_env_scheme \<Rightarrow> 'm ipahal_scheme \<Rightarrow> ipahal_imm_cmd_name \<Rightarrow> ipahal_imm_cmd_ip_v6_ct_init \<Rightarrow> 'w
     \<Rightarrow> ipahal_imm_cmd_pyld option \<times> 'w" where
  "ipa_imm_cmd_construct_ip_v6_ct_init env hal cmd p w =
     alloc_pyld env (ipahal_imm_cmd_get_opcode hal cmd) 24 24 (ipa_imm_cmd_hw_ip_v6_ct_init p) w"

definition ipa_imm_cmd_construct_ip_v6_filter_init ::
    "('w, 'e) kernel_env_scheme \<Rightarrow> 'm ipahal_scheme \<Rightarrow> ipahal_imm_cmd_name \<Rightarrow> ipahal_imm_cmd_ip_v6_filter_init \<Rightarrow> 'w
     \<Rightarrow> ipahal_imm_cmd_pyld option \<times> 'w" where
  "ipa_imm_cmd_construct_ip_v6_filter_init env hal cmd p w =
     alloc_pyld env (ipahal_imm_cmd_get_opcode hal cmd) 24 24 (ipa_imm_cmd_hw_ip_v6_filter_init p) w"

definition ipa_imm_cmd_construct_ip_v4_filter_init ::
    "('w, 'e) kernel_env_scheme \<Rightarrow> 'm ipahal_scheme \<Rightarrow> ipahal_imm_cmd_name \<Rightarrow> ipahal_imm_cmd_ip_v4_filter_init \<Rightarrow> 'w
     \<Rightarrow> ipahal_imm_cmd_pyld option \<times> 'w" where
  "ipa_imm_cmd_construct_ip_v4_filter_init env hal cmd p w =
     alloc_pyld env (ipahal_imm_cmd_get_opcode hal cmd) 24 24 (ipa_imm_cmd_hw_ip_v4_filter_init p) w"

definition ipa_imm_cmd_construct_dummy :: "'w \<Rightarrow> ipahal_imm_cmd_pyld option \<times> 'w" where
  "ipa_imm_cmd_construct_dummy w = (None, w)"

text \<open>The callbacks receive the parameters through a \<open>void\<close> pointer.\<close>

datatype imm_params =
  Prm_ip_v4_filter_init ipahal_imm_cmd_ip_v4_filter_init
| Prm_ip_v6_filter_init ipahal_imm_cmd_ip_v6_filter_init
| Prm_ip_v4_nat_init ipahal_imm_cmd_ip_v4_nat_init
| Prm_ip_v6_ct_init ipahal_imm_cmd_ip_v6_ct_init
| Prm_ip_v4_routing_init ipahal_imm_cmd_ip_v4_routing_init
| Prm_ip_v6_routing_init ipahal_imm_cmd_ip_v6_routing_init
| Prm_hdr_init_local ipahal_imm_cmd_hdr_init_local
| Prm_hdr_init_system ipahal_imm_cmd_hdr_init_system
| Prm_table_dma ipahal_imm_cmd_table_dma
| Prm_ip_packet_init ipahal_imm_cmd_ip_packet_init
| Prm_ip_packet_init_ex ipahal_imm_cmd_ip_packet_init_ex
| Prm_register_write ipahal_imm_cmd_register_write
| Prm_register_read ipahal_imm_cmd_register_read
| Prm_dma_shared_mem ipahal_imm_cmd_dma_shared_mem
| Prm_ip_packet_tag_status ipahal_imm_cmd_ip_packet_tag_status
| Prm_dma_task_32b_addr ipahal_imm_cmd_dma_task_32b_addr

definition call_construct ::
    "('w, 'e) kernel_env_scheme \<Rightarrow> 'm ipahal_scheme \<Rightarrow> imm_construct \<Rightarrow> ipahal_imm_cmd_name \<Rightarrow> imm_params \<Rightarrow> 'w
     \<Rightarrow> (ipahal_imm_cmd_pyld option \<times> 'w) option" where
  "call_construct env hal c cmd prm w =
     (case c of
        Construct_dma_task_32b_addr \<Rightarrow> (case prm of Prm_dma_task_32b_addr p \<Rightarrow> Some (ipa_imm_cmd_construct_dma_task_32b_addr env hal cmd p w) | _ \<Rightarrow> None)
      | Construct_ip_packet_tag_status \<Rightarrow> (case prm of Prm_ip_packet_tag_status p \<Rightarrow> Some (ipa_imm_cmd_construct_ip_packet_tag_status env hal cmd p w) | _ \<Rightarrow> None)
      | Construct_dma_shared_mem \<Rightarrow> (case prm of Prm_dma_shared_mem p \<Rightarrow> Some (ipa_imm_cmd_construct_dma_shared_mem env hal cmd p w) | _ \<Rightarrow> None)
      | Construct_dma_shared_mem_v_4_0 \<Rightarrow> (case prm of Prm_dma_shared_mem p \<Rightarrow> Some (ipa_imm_cmd_construct_dma_shared_mem_v_4_0 env hal cmd p w) | _ \<Rightarrow> None)
      | Construct_register_write \<Rightarrow> (case prm of Prm_register_write p \<Rightarrow> Some (ipa_imm_cmd_construct_register_write env hal cmd p w) | _ \<Rightarrow> None)
      | Construct_register_write_v_4_0 \<Rightarrow> (case prm of Prm_register_write p \<Rightarrow> Some (ipa_imm_cmd_construct_register_write_v_4_0 env hal cmd p w) | _ \<Rightarrow> None)
      | Construct_register_read \<Rightarrow> (case prm of Prm_register_read p \<Rightarrow> Some (ipa_imm_cmd_construct_register_read env hal cmd p w) | _ \<Rightarrow> None)
      | Construct_ip_packet_init \<Rightarrow> (case prm of Prm_ip_packet_init p \<Rightarrow> Some (ipa_imm_cmd_construct_ip_packet_init env hal cmd p w) | _ \<Rightarrow> None)
      | Construct_ip_packet_init_v_5_0 \<Rightarrow> (case prm of Prm_ip_packet_init p \<Rightarrow> Some (ipa_imm_cmd_construct_ip_packet_init_v_5_0 env hal cmd p w) | _ \<Rightarrow> None)
      | Construct_ip_packet_init_ex \<Rightarrow> (case prm of Prm_ip_packet_init_ex p \<Rightarrow> Some (ipa_imm_cmd_construct_ip_packet_init_ex env hal cmd p w) | _ \<Rightarrow> None)
      | Construct_ip_packet_init_ex_v5_5 \<Rightarrow> (case prm of Prm_ip_packet_init_ex p \<Rightarrow> Some (ipa_imm_cmd_construct_ip_packet_init_ex_v5_5 env hal cmd p w) | _ \<Rightarrow> None)
      | Construct_nat_dma \<Rightarrow> (case prm of Prm_table_dma p \<Rightarrow> Some (ipa_imm_cmd_construct_nat_dma env hal cmd p w) | _ \<Rightarrow> None)
      | Construct_table_dma_ipav4 \<Rightarrow> (case prm of Prm_table_dma p \<Rightarrow> Some (ipa_imm_cmd_construct_table_dma_ipav4 env hal cmd p w) | _ \<Rightarrow> None)
      | Construct_hdr_init_system \<Rightarrow> (case prm of Prm_hdr_init_system p \<Rightarrow> Some (ipa_imm_cmd_construct_hdr_init_system env hal cmd p w) | _ \<Rightarrow> None)
      | Construct_hdr_init_local \<Rightarrow> (case prm of Prm_hdr_init_local p \<Rightarrow> Some (ipa_imm_cmd_construct_hdr_init_local env hal cmd p w) | _ \<Rightarrow> None)
      | Construct_ip_v6_routing_init \<Rightarrow> (case prm of Prm_ip_v6_routing_init p \<Rightarrow> Some (ipa_imm_cmd_construct_ip_v6_routing_init env hal cmd p w) | _ \<Rightarrow> None)
      | Construct_ip_v4_routing_init \<Rightarrow> (case prm of Prm_ip_v4_routing_init p \<Rightarrow> Some (ipa_imm_cmd_construct_ip_v4_routing_init env hal cmd p w) | _ \<Rightarrow> None)
      | Construct_ip_v4_nat_init \<Rightarrow> (case prm of Prm_ip_v4_nat_init p \<Rightarrow> Some (ipa_imm_cmd_construct_ip_v4_nat_init env hal cmd p w) | _ \<Rightarrow> None)
      | Construct_ip_v6_ct_init \<Rightarrow> (case prm of Prm_ip_v6_ct_init p \<Rightarrow> Some (ipa_imm_cmd_construct_ip_v6_ct_init env hal cmd p w) | _ \<Rightarrow> None)
      | Construct_ip_v6_filter_init \<Rightarrow> (case prm of Prm_ip_v6_filter_init p \<Rightarrow> Some (ipa_imm_cmd_construct_ip_v6_filter_init env hal cmd p w) | _ \<Rightarrow> None)
      | Construct_ip_v4_filter_init \<Rightarrow> (case prm of Prm_ip_v4_filter_init p \<Rightarrow> Some (ipa_imm_cmd_construct_ip_v4_filter_init env hal cmd p w) | _ \<Rightarrow> None)
      | Construct_dummy \<Rightarrow> Some (ipa_imm_cmd_construct_dummy w))"

definition ipahal_construct_imm_cmd ::
    "('w, 'e) kernel_env_scheme \<Rightarrow> 'm ipahal_scheme \<Rightarrow> ipahal_imm_cmd_name \<Rightarrow> imm_params \<Rightarrow> 'w
     \<Rightarrow> (ipahal_imm_cmd_pyld option \<times> 'w) option" where
  "ipahal_construct_imm_cmd env hal cmd prm w =
     (case construct (imm_cmd_objs hal (hal_hw_type hal) cmd) of
        None \<Rightarrow> None
      | Some c \<Rightarrow> call_construct env hal c cmd prm w)"

definition ipahal_construct_nop_imm_cmd ::
    "('w, 'e) kernel_env_scheme \<Rightarrow> 'm ipahal_scheme \<Rightarrow> bool \<Rightarrow> ipahal_pipeline_clear_option \<Rightarrow> 'w
     \<Rightarrow> (ipahal_imm_cmd_pyld option \<times> 'w) option" where
  "ipahal_construct_nop_imm_cmd env hal skip opt w =
     ipahal_construct_imm_cmd env hal IPA_IMM_CMD_REGISTER_WRITE
       (Prm_register_write \<lparr>rw_offset = 0, rw_value = 0, rw_value_mask = 0, rw_skip_pipeline_clear = skip,
                            rw_pipeline_clear_options = opt\<rparr>) w"

definition ipahal_destroy_imm_cmd :: "('w, 'e) kernel_env_scheme \<Rightarrow> 'w \<Rightarrow> 'w" where
  "ipahal_destroy_imm_cmd env w = k_free env w"

end
