(* ===== verification/Hal_Nat.thy ===== *)
theory Hal_Nat
  imports Hal_Imm Ipv6ct_Entry
begin

unbundle bit_operations_syntax

section \<open>Table entries of the hardware\<close>

text \<open>
  \<open>ipahal_nat.c\<close>: the layout of the four kinds of table entries as the hardware reads them, the callbacks on an
  entry, and the table that selects them for the hardware version. An entry in memory is a list of bytes, a bit
  field the bits at its offset in the little-endian number the bytes are. The callbacks that render an entry as a
  string appear only as names.
\<close>

datatype ipahal_nat_type = IPAHAL_NAT_IPV4 | IPAHAL_NAT_IPV4_INDEX | IPAHAL_NAT_IPV4_PDN | IPAHAL_NAT_IPV6CT | IPA_NAT_MAX

definition nat_types :: "ipahal_nat_type list" where
  "nat_types = [IPAHAL_NAT_IPV4, IPAHAL_NAT_IPV4_INDEX, IPAHAL_NAT_IPV4_PDN, IPAHAL_NAT_IPV6CT]"

subsection \<open>Layouts\<close>

record ipa_nat_hw_ipv4_entry =
  h4_private_ip :: u32
  h4_target_ip :: u32
  h4_next_index :: u16
  h4_public_port :: u16
  h4_private_port :: u16
  h4_target_port :: u16
  h4_ip_chksum :: u16
  h4_uc_activation_index :: "13 word"
  h4_s :: bool
  h4_redirect :: bool
  h4_enable :: bool
  h4_time_stamp :: "24 word"
  h4_protocol :: u8
  h4_prev_index :: u16
  h4_indx_tbl_entry :: u16
  h4_rsvd2 :: "11 word"
  h4_ucp :: bool
  h4_pdn_index :: "4 word"
  h4_tcp_udp_chksum :: u16

definition hw_ipv4_entry :: "u8 list \<Rightarrow> ipa_nat_hw_ipv4_entry" where
  "hw_ipv4_entry bs =
     (let f = (\<lambda>off n. bits_at off n (le_nat bs))
      in \<lparr>h4_private_ip = of_nat (f 0 32), h4_target_ip = of_nat (f 32 32), h4_next_index = of_nat (f 64 16),
          h4_public_port = of_nat (f 80 16), h4_private_port = of_nat (f 96 16), h4_target_port = of_nat (f 112 16),
          h4_ip_chksum = of_nat (f 128 16), h4_uc_activation_index = of_nat (f 144 13), h4_s = (f 157 1 = 1),
          h4_redirect = (f 158 1 = 1), h4_enable = (f 159 1 = 1), h4_time_stamp = of_nat (f 160 24),
          h4_protocol = of_nat (f 184 8), h4_prev_index = of_nat (f 192 16), h4_indx_tbl_entry = of_nat (f 208 16),
          h4_rsvd2 = of_nat (f 224 11), h4_ucp = (f 235 1 = 1), h4_pdn_index = of_nat (f 236 4),
          h4_tcp_udp_chksum = of_nat (f 240 16)\<rparr>)"

record ipa_nat_hw_indx_entry =
  hx_tbl_entry :: u16
  hx_next_index :: u16

definition hw_indx_entry :: "u8 list \<Rightarrow> ipa_nat_hw_indx_entry" where
  "hw_indx_entry bs =
     \<lparr>hx_tbl_entry = of_nat (bits_at 0 16 (le_nat bs)), hx_next_index = of_nat (bits_at 16 16 (le_nat bs))\<rparr>"

record ipa_nat_hw_pdn_entry =
  hp_public_ip :: u32
  hp_src_metadata :: u32
  hp_dst_metadata :: u32
  hp_resrvd :: u32

definition hw_pdn_entry :: "u8 list \<Rightarrow> ipa_nat_hw_pdn_entry" where
  "hw_pdn_entry bs =
     (let f = (\<lambda>off. of_nat (bits_at off 32 (le_nat bs)))
      in \<lparr>hp_public_ip = f 0, hp_src_metadata = f 32, hp_dst_metadata = f 64, hp_resrvd = f 96\<rparr>)"

record ipa_nat_hw_ipv6ct_entry =
  h6_src_ipv6_lsb :: u64
  h6_src_ipv6_msb :: u64
  h6_dest_ipv6_lsb :: u64
  h6_dest_ipv6_msb :: u64
  h6_uc_activation_index :: "13 word"
  h6_s :: bool
  h6_rsvd1 :: u16
  h6_redirect :: bool
  h6_enable :: bool
  h6_time_stamp :: "24 word"
  h6_protocol :: u8
  h6_next_index :: u16
  h6_dest_port :: u16
  h6_src_port :: u16
  h6_ucp :: bool
  h6_rsvd2 :: "5 word"
  h6_out_allowed :: bool
  h6_in_allowed :: bool
  h6_rsvd3 :: u8
  h6_rsvd4 :: "48 word"
  h6_prev_index :: u16
  h6_rsvd5 :: u64

definition hw_ipv6ct_entry :: "u8 list \<Rightarrow> ipa_nat_hw_ipv6ct_entry" where
  "hw_ipv6ct_entry bs =
     (let f = (\<lambda>off n. bits_at off n (le_nat bs))
      in \<lparr>h6_src_ipv6_lsb = of_nat (f 0 64), h6_src_ipv6_msb = of_nat (f 64 64), h6_dest_ipv6_lsb = of_nat (f 128 64),
          h6_dest_ipv6_msb = of_nat (f 192 64), h6_uc_activation_index = of_nat (f 256 13), h6_s = (f 269 1 = 1),
          h6_rsvd1 = of_nat (f 270 16), h6_redirect = (f 286 1 = 1), h6_enable = (f 287 1 = 1),
          h6_time_stamp = of_nat (f 288 24), h6_protocol = of_nat (f 312 8), h6_next_index = of_nat (f 320 16),
          h6_dest_port = of_nat (f 336 16), h6_src_port = of_nat (f 352 16), h6_ucp = (f 368 1 = 1),
          h6_rsvd2 = of_nat (f 369 5), h6_out_allowed = (f 374 1 = 1), h6_in_allowed = (f 375 1 = 1),
          h6_rsvd3 = of_nat (f 376 8), h6_rsvd4 = of_nat (f 384 48), h6_prev_index = of_nat (f 432 16),
          h6_rsvd5 = of_nat (f 448 64)\<rparr>)"

text \<open>The fields of a PDN entry as the driver passes them.\<close>

record ipahal_nat_pdn_entry =
  pf_public_ip :: u32
  pf_src_metadata :: u32
  pf_dst_metadata :: u32

definition hw_pdn_bits :: "ipa_nat_hw_pdn_entry \<Rightarrow> (nat \<times> u64) list" where
  "hw_pdn_bits e =
     [(32, ucast (hp_public_ip e)), (32, ucast (hp_src_metadata e)), (32, ucast (hp_dst_metadata e)),
      (32, ucast (hp_resrvd e))]"

subsection \<open>The callbacks\<close>

definition ipa_nat_ipv4_entry_size_v_3_0 :: nat where "ipa_nat_ipv4_entry_size_v_3_0 = 32"
definition ipa_nat_ipv4_index_entry_size_v_3_0 :: nat where "ipa_nat_ipv4_index_entry_size_v_3_0 = 4"
definition ipa_nat_ipv4_pdn_entry_size_v_4_0 :: nat where "ipa_nat_ipv4_pdn_entry_size_v_4_0 = 16"
definition ipa_nat_ipv6ct_entry_size_v_4_0 :: nat where "ipa_nat_ipv6ct_entry_size_v_4_0 = 64"

lemmas entry_size_defs = ipa_nat_ipv4_entry_size_v_3_0_def ipa_nat_ipv4_index_entry_size_v_3_0_def
  ipa_nat_ipv4_pdn_entry_size_v_4_0_def ipa_nat_ipv6ct_entry_size_v_4_0_def

text \<open>\<open>memcmp\<close> with a structure of zeros; an entry shorter than the structure is read out of bounds.\<close>

definition zeroed :: "nat \<Rightarrow> u8 list \<Rightarrow> bool option" where
  "zeroed n entry = (if n \<le> length entry then Some (take n entry = replicate n 0) else None)"

definition ipa_nat_ipv4_is_entry_zeroed_v_3_0 :: "u8 list \<Rightarrow> bool option" where
  "ipa_nat_ipv4_is_entry_zeroed_v_3_0 = zeroed 32"

definition ipa_nat_ipv4_is_index_entry_zeroed_v_3_0 :: "u8 list \<Rightarrow> bool option" where
  "ipa_nat_ipv4_is_index_entry_zeroed_v_3_0 = zeroed 4"

definition ipa_nat_ipv4_is_pdn_entry_zeroed_v_4_0 :: "u8 list \<Rightarrow> bool option" where
  "ipa_nat_ipv4_is_pdn_entry_zeroed_v_4_0 = zeroed 16"

definition ipa_nat_ipv6ct_is_entry_zeroed_v_4_0 :: "u8 list \<Rightarrow> bool option" where
  "ipa_nat_ipv6ct_is_entry_zeroed_v_4_0 = zeroed 64"

definition entry_at :: "nat \<Rightarrow> (u8 list \<Rightarrow> 'e) \<Rightarrow> u8 list \<Rightarrow> 'e option" where
  "entry_at n dec bs = (if n \<le> length bs then Some (dec (take n bs)) else None)"

definition ipa_nat_ipv4_is_entry_valid_v_3_0 :: "u8 list \<Rightarrow> bool option" where
  "ipa_nat_ipv4_is_entry_valid_v_3_0 entry =
     do { e \<leftarrow> entry_at 32 hw_ipv4_entry entry; Some (h4_enable e \<and> h4_protocol e \<noteq> IPAHAL_NAT_INVALID_PROTOCOL) }"

definition ipa_nat_ipv4_is_index_entry_valid_v_3_0 :: "u8 list \<Rightarrow> bool option" where
  "ipa_nat_ipv4_is_index_entry_valid_v_3_0 entry =
     do { e \<leftarrow> entry_at 4 hw_indx_entry entry; Some (hx_tbl_entry e \<noteq> 0) }"

definition ipa_nat_ipv4_is_pdn_entry_valid_v_4_0 :: "u8 list \<Rightarrow> bool option" where
  "ipa_nat_ipv4_is_pdn_entry_valid_v_4_0 entry =
     do { e \<leftarrow> entry_at 16 hw_pdn_entry entry; Some (hp_public_ip e \<noteq> 0) }"

definition ipa_nat_ipv6ct_is_entry_valid_v_4_0 :: "u8 list \<Rightarrow> bool option" where
  "ipa_nat_ipv6ct_is_entry_valid_v_4_0 entry =
     do { e \<leftarrow> entry_at 64 hw_ipv6ct_entry entry; Some (h6_enable e \<and> h6_protocol e \<noteq> IPAHAL_NAT_INVALID_PROTOCOL) }"

text \<open>Writing \<open>bs\<close> at the byte offset \<open>off\<close> of a block of memory.\<close>

definition write_bytes :: "u8 list \<Rightarrow> nat \<Rightarrow> u8 list \<Rightarrow> u8 list option" where
  "write_bytes m off bs =
     (if off + length bs \<le> length m then Some (take off m @ bs @ drop (off + length bs) m) else None)"

text \<open>\<open>address\<close> of the sources is the offset \<open>off\<close> into the block \<open>m\<close>.\<close>

definition ipa_nat_ipv4_pdn_construct_entry_v_4_0 :: "ipahal_nat_pdn_entry \<Rightarrow> u8 list \<Rightarrow> nat \<Rightarrow> u8 list option" where
  "ipa_nat_ipv4_pdn_construct_entry_v_4_0 pdn_entry m off =
     write_bytes m off
       (bytes_le 16 (pack_bits (hw_pdn_bits
          \<lparr>hp_public_ip = pf_public_ip pdn_entry, hp_src_metadata = pf_src_metadata pdn_entry,
           hp_dst_metadata = pf_dst_metadata pdn_entry, hp_resrvd = 0\<rparr>)))"

definition ipa_nat_ipv4_pdn_parse_entry_v_4_0 :: "u8 list \<Rightarrow> nat \<Rightarrow> ipahal_nat_pdn_entry option" where
  "ipa_nat_ipv4_pdn_parse_entry_v_4_0 m off =
     do {
       e \<leftarrow> entry_at 16 hw_pdn_entry (drop off m);
       Some \<lparr>pf_public_ip = hp_public_ip e, pf_src_metadata = hp_src_metadata e, pf_dst_metadata = hp_dst_metadata e\<rparr>
     }"

subsection \<open>The table of callbacks\<close>

datatype nat_stringify_cb =
  Stringify_ipv4_v_3_0 | Stringify_ipv4_v_4_0 | Stringify_ipv4_v_4_5 | Stringify_index_v_3_0 | Stringify_pdn_v_4_0
| Stringify_ipv6ct_v_4_0 | Stringify_ipv6ct_v_4_5

datatype nat_size_cb = Size_ipv4_v_3_0 | Size_index_v_3_0 | Size_pdn_v_4_0 | Size_ipv6ct_v_4_0
datatype nat_zeroed_cb = Zeroed_ipv4_v_3_0 | Zeroed_index_v_3_0 | Zeroed_pdn_v_4_0 | Zeroed_ipv6ct_v_4_0
datatype nat_valid_cb = Valid_ipv4_v_3_0 | Valid_index_v_3_0 | Valid_pdn_v_4_0 | Valid_ipv6ct_v_4_0
datatype nat_construct_cb = Construct_pdn_v_4_0
datatype nat_parse_cb = Parse_pdn_v_4_0

record ipahal_nat_obj =
  entry_size_cb :: "nat_size_cb option"
  is_entry_zeroed_cb :: "nat_zeroed_cb option"
  is_entry_valid_cb :: "nat_valid_cb option"
  stringify_entry_cb :: "nat_stringify_cb option"
  construct_entry_cb :: "nat_construct_cb option"
  parse_entry_cb :: "nat_parse_cb option"

definition nat_obj_zero :: ipahal_nat_obj where
  "nat_obj_zero = \<lparr>entry_size_cb = None, is_entry_zeroed_cb = None, is_entry_valid_cb = None,
                   stringify_entry_cb = None, construct_entry_cb = None, parse_entry_cb = None\<rparr>"

fun call_size :: "nat_size_cb \<Rightarrow> nat" where
  "call_size Size_ipv4_v_3_0 = ipa_nat_ipv4_entry_size_v_3_0"
| "call_size Size_index_v_3_0 = ipa_nat_ipv4_index_entry_size_v_3_0"
| "call_size Size_pdn_v_4_0 = ipa_nat_ipv4_pdn_entry_size_v_4_0"
| "call_size Size_ipv6ct_v_4_0 = ipa_nat_ipv6ct_entry_size_v_4_0"

fun call_zeroed :: "nat_zeroed_cb \<Rightarrow> u8 list \<Rightarrow> bool option" where
  "call_zeroed Zeroed_ipv4_v_3_0 = ipa_nat_ipv4_is_entry_zeroed_v_3_0"
| "call_zeroed Zeroed_index_v_3_0 = ipa_nat_ipv4_is_index_entry_zeroed_v_3_0"
| "call_zeroed Zeroed_pdn_v_4_0 = ipa_nat_ipv4_is_pdn_entry_zeroed_v_4_0"
| "call_zeroed Zeroed_ipv6ct_v_4_0 = ipa_nat_ipv6ct_is_entry_zeroed_v_4_0"

fun call_valid :: "nat_valid_cb \<Rightarrow> u8 list \<Rightarrow> bool option" where
  "call_valid Valid_ipv4_v_3_0 = ipa_nat_ipv4_is_entry_valid_v_3_0"
| "call_valid Valid_index_v_3_0 = ipa_nat_ipv4_is_index_entry_valid_v_3_0"
| "call_valid Valid_pdn_v_4_0 = ipa_nat_ipv4_is_pdn_entry_valid_v_4_0"
| "call_valid Valid_ipv6ct_v_4_0 = ipa_nat_ipv6ct_is_entry_valid_v_4_0"

fun call_construct_nat :: "nat_construct_cb \<Rightarrow> ipahal_nat_pdn_entry \<Rightarrow> u8 list \<Rightarrow> nat \<Rightarrow> u8 list option" where
  "call_construct_nat Construct_pdn_v_4_0 = ipa_nat_ipv4_pdn_construct_entry_v_4_0"

fun call_parse_nat :: "nat_parse_cb \<Rightarrow> u8 list \<Rightarrow> nat \<Rightarrow> ipahal_nat_pdn_entry option" where
  "call_parse_nat Parse_pdn_v_4_0 = ipa_nat_ipv4_pdn_parse_entry_v_4_0"

definition nat_objs_static :: "((ipa_hw_type \<times> ipahal_nat_type) \<times> ipahal_nat_obj) list" where
  "nat_objs_static =
     [((IPA_HW_v3_0, IPAHAL_NAT_IPV4), nat_obj_zero\<lparr>entry_size_cb := Some Size_ipv4_v_3_0,
         is_entry_zeroed_cb := Some Zeroed_ipv4_v_3_0, is_entry_valid_cb := Some Valid_ipv4_v_3_0,
         stringify_entry_cb := Some Stringify_ipv4_v_3_0\<rparr>),
      ((IPA_HW_v3_0, IPAHAL_NAT_IPV4_INDEX), nat_obj_zero\<lparr>entry_size_cb := Some Size_index_v_3_0,
         is_entry_zeroed_cb := Some Zeroed_index_v_3_0, is_entry_valid_cb := Some Valid_index_v_3_0,
         stringify_entry_cb := Some Stringify_index_v_3_0\<rparr>),
      ((IPA_HW_v4_0, IPAHAL_NAT_IPV4), nat_obj_zero\<lparr>entry_size_cb := Some Size_ipv4_v_3_0,
         is_entry_zeroed_cb := Some Zeroed_ipv4_v_3_0, is_entry_valid_cb := Some Valid_ipv4_v_3_0,
         stringify_entry_cb := Some Stringify_ipv4_v_4_0\<rparr>),
      ((IPA_HW_v4_0, IPAHAL_NAT_IPV4_PDN), \<lparr>entry_size_cb = Some Size_pdn_v_4_0,
         is_entry_zeroed_cb = Some Zeroed_pdn_v_4_0, is_entry_valid_cb = Some Valid_pdn_v_4_0,
         stringify_entry_cb = Some Stringify_pdn_v_4_0, construct_entry_cb = Some Construct_pdn_v_4_0,
         parse_entry_cb = Some Parse_pdn_v_4_0\<rparr>),
      ((IPA_HW_v4_0, IPAHAL_NAT_IPV6CT), nat_obj_zero\<lparr>entry_size_cb := Some Size_ipv6ct_v_4_0,
         is_entry_zeroed_cb := Some Zeroed_ipv6ct_v_4_0, is_entry_valid_cb := Some Valid_ipv6ct_v_4_0,
         stringify_entry_cb := Some Stringify_ipv6ct_v_4_0\<rparr>),
      ((IPA_HW_v4_5, IPAHAL_NAT_IPV4), nat_obj_zero\<lparr>entry_size_cb := Some Size_ipv4_v_3_0,
         is_entry_zeroed_cb := Some Zeroed_ipv4_v_3_0, is_entry_valid_cb := Some Valid_ipv4_v_3_0,
         stringify_entry_cb := Some Stringify_ipv4_v_4_5\<rparr>),
      ((IPA_HW_v4_5, IPAHAL_NAT_IPV6CT), nat_obj_zero\<lparr>entry_size_cb := Some Size_ipv6ct_v_4_0,
         is_entry_zeroed_cb := Some Zeroed_ipv6ct_v_4_0, is_entry_valid_cb := Some Valid_ipv6ct_v_4_0,
         stringify_entry_cb := Some Stringify_ipv6ct_v_4_5\<rparr>)]"

definition nat_objs_init :: "ipa_hw_type \<Rightarrow> ipahal_nat_type \<Rightarrow> ipahal_nat_obj" where
  "nat_objs_init hw t = (case map_of nat_objs_static (hw, t) of None \<Rightarrow> nat_obj_zero | Some ob \<Rightarrow> ob)"

record ipahal_ctx = ipahal +
  nat_objs :: "ipa_hw_type \<Rightarrow> ipahal_nat_type \<Rightarrow> ipahal_nat_obj"

definition ipahal_nat_init :: "ipa_hw_type \<Rightarrow> 'm ipahal_ctx_scheme \<Rightarrow> int \<times> 'm ipahal_ctx_scheme" where
  "ipahal_nat_init hw hal =
     (if IPA_HW_MAX \<le> hw then (- EINVAL, hal)
      else (0, hal\<lparr>nat_objs := inherit_rows nat_obj_zero nat_types hw (nat_objs hal)\<rparr>))"

subsection \<open>The calls of the driver\<close>

abbreviation nat_obj :: "'m ipahal_ctx_scheme \<Rightarrow> ipahal_nat_type \<Rightarrow> ipahal_nat_obj" where
  "nat_obj hal t \<equiv> nat_objs hal (hal_hw_type hal) t"

definition ipahal_nat_entry_size :: "'m ipahal_ctx_scheme \<Rightarrow> ipahal_nat_type \<Rightarrow> (int \<times> nat) option" where
  "ipahal_nat_entry_size hal nat_type =
     (if nat_type = IPA_NAT_MAX then Some (- EINVAL, 0)
      else do { cb \<leftarrow> entry_size_cb (nat_obj hal nat_type); Some (0, call_size cb) })"

definition ipahal_nat_is_entry_zeroed :: "'m ipahal_ctx_scheme \<Rightarrow> ipahal_nat_type \<Rightarrow> u8 list \<Rightarrow> (int \<times> bool) option" where
  "ipahal_nat_is_entry_zeroed hal nat_type entry =
     (if nat_type = IPA_NAT_MAX then Some (- EINVAL, False)
      else do { cb \<leftarrow> is_entry_zeroed_cb (nat_obj hal nat_type); b \<leftarrow> call_zeroed cb entry; Some (0, b) })"

definition ipahal_nat_is_entry_valid :: "'m ipahal_ctx_scheme \<Rightarrow> ipahal_nat_type \<Rightarrow> u8 list \<Rightarrow> (int \<times> bool) option" where
  "ipahal_nat_is_entry_valid hal nat_type entry =
     (if nat_type = IPA_NAT_MAX then Some (- EINVAL, False)
      else do { cb \<leftarrow> is_entry_valid_cb (nat_obj hal nat_type); b \<leftarrow> call_valid cb entry; Some (0, b) })"

definition ipahal_nat_construct_entry ::
    "'m ipahal_ctx_scheme \<Rightarrow> ipahal_nat_type \<Rightarrow> ipahal_nat_pdn_entry \<Rightarrow> u8 list \<Rightarrow> nat \<Rightarrow> (int \<times> u8 list) option" where
  "ipahal_nat_construct_entry hal nat_type pdn_fields m off =
     (if nat_type = IPA_NAT_MAX then Some (- EINVAL, m)
      else do { cb \<leftarrow> construct_entry_cb (nat_obj hal nat_type); m \<leftarrow> call_construct_nat cb pdn_fields m off; Some (0, m) })"

definition ipahal_nat_parse_entry ::
    "'m ipahal_ctx_scheme \<Rightarrow> ipahal_nat_type \<Rightarrow> u8 list \<Rightarrow> nat \<Rightarrow> (int \<times> ipahal_nat_pdn_entry option) option" where
  "ipahal_nat_parse_entry hal nat_type m off =
     (if nat_type = IPA_NAT_MAX then Some (- EINVAL, None)
      else do { cb \<leftarrow> parse_entry_cb (nat_obj hal nat_type); e \<leftarrow> call_parse_nat cb m off; Some (0, Some e) })"

end
