(* ===== verification/Hal_Facts.thy ===== *)
theory Hal_Facts
  imports Hal_Nat
begin

unbundle bit_operations_syntax

section \<open>The hardware abstraction layer after its initialisation\<close>

text \<open>
  The tables of callbacks that initialisation leaves, the callbacks each hardware version ends up with, and the
  contents of the payloads.
\<close>

text \<open>The layer is initialised for the version in use.\<close>

definition hal_ready :: "'m ipahal_ctx_scheme \<Rightarrow> bool" where
  "hal_ready hal \<longleftrightarrow>
     IPA_HW_v3_0 \<le> hal_hw_type hal \<and> hal_hw_type hal < IPA_HW_MAX \<and>
     (\<forall>t. t \<noteq> IPA_NAT_MAX \<longrightarrow>
        nat_objs hal (hal_hw_type hal) t = in_force nat_obj_zero nat_objs_init (hal_hw_type hal) t) \<and>
     (\<forall>c. imm_cmd_objs hal (hal_hw_type hal) c = in_force imm_cmd_obj_zero imm_cmd_objs_init (hal_hw_type hal) c)"

lemma nat_types_all: "t \<noteq> IPA_NAT_MAX \<Longrightarrow> t \<in> set nat_types"
  by (cases t) (simp_all add: nat_types_def)

lemma imm_cmd_names_all: "c \<in> set imm_cmd_names"
  by (cases c) (simp_all add: imm_cmd_names_def)

text \<open>Between two versions that list an entry, the older one stays in force.\<close>

lemma in_force_keep:
  assumes "10 \<le> m" and "m \<le> n" and "\<And>j. m < j \<Longrightarrow> j \<le> n \<Longrightarrow> objs j k = z"
  shows "in_force z objs n k = in_force z objs m k"
  using assms(2,3)
proof (induction n rule: dec_induct)
  case (step n)
  then have "objs (Suc n) k = z" and "in_force z objs n k = in_force z objs m k" by auto
  then show ?case using assms(1) step.hyps(1) by (subst in_force.simps) simp
qed simp

lemma in_force_at:
  assumes "10 \<le> m" and "m \<le> n" and "\<And>j. m < j \<Longrightarrow> j \<le> n \<Longrightarrow> objs j k = z" and "objs m k = ob" and "ob \<noteq> z"
  shows "in_force z objs n k = ob"
  using in_force_keep [of m n objs k z] assms in_force.simps [of z objs m k] by simp

lemma in_force_none:
  assumes "10 \<le> n" and "\<And>j. 10 \<le> j \<Longrightarrow> j \<le> n \<Longrightarrow> objs j k = z"
  shows "in_force z objs n k = z"
  using in_force_keep [of 10 n objs k z] assms in_force.simps [of z objs 10 k] by simp

lemmas nat_table_defs = nat_objs_init_def nat_objs_static_def nat_obj_zero_def hw_defs
lemmas imm_table_defs = imm_cmd_objs_init_def imm_cmd_objs_static_def imm_cmd_obj_zero_def hw_defs

text \<open>The callbacks on table entries, from the version that introduces them on.\<close>

lemma nat_in_force:
  assumes "IPA_HW_v3_0 \<le> hw"
  shows "in_force nat_obj_zero nat_objs_init hw IPAHAL_NAT_IPV4 =
           nat_obj_zero\<lparr>entry_size_cb := Some Size_ipv4_v_3_0, is_entry_zeroed_cb := Some Zeroed_ipv4_v_3_0,
             is_entry_valid_cb := Some Valid_ipv4_v_3_0, stringify_entry_cb :=
               Some (if hw < IPA_HW_v4_0 then Stringify_ipv4_v_3_0 else if hw < IPA_HW_v4_5 then Stringify_ipv4_v_4_0
                     else Stringify_ipv4_v_4_5)\<rparr>" (is ?ipv4)
    and "in_force nat_obj_zero nat_objs_init hw IPAHAL_NAT_IPV4_INDEX =
           nat_obj_zero\<lparr>entry_size_cb := Some Size_index_v_3_0, is_entry_zeroed_cb := Some Zeroed_index_v_3_0,
             is_entry_valid_cb := Some Valid_index_v_3_0, stringify_entry_cb := Some Stringify_index_v_3_0\<rparr>" (is ?index)
    and "IPA_HW_v4_0 \<le> hw \<Longrightarrow> in_force nat_obj_zero nat_objs_init hw IPAHAL_NAT_IPV4_PDN =
           \<lparr>entry_size_cb = Some Size_pdn_v_4_0, is_entry_zeroed_cb = Some Zeroed_pdn_v_4_0,
            is_entry_valid_cb = Some Valid_pdn_v_4_0, stringify_entry_cb = Some Stringify_pdn_v_4_0,
            construct_entry_cb = Some Construct_pdn_v_4_0, parse_entry_cb = Some Parse_pdn_v_4_0\<rparr>" (is "?v4 \<Longrightarrow> ?pdn")
    and "IPA_HW_v4_0 \<le> hw \<Longrightarrow> in_force nat_obj_zero nat_objs_init hw IPAHAL_NAT_IPV6CT =
           nat_obj_zero\<lparr>entry_size_cb := Some Size_ipv6ct_v_4_0, is_entry_zeroed_cb := Some Zeroed_ipv6ct_v_4_0,
             is_entry_valid_cb := Some Valid_ipv6ct_v_4_0, stringify_entry_cb :=
               Some (if hw < IPA_HW_v4_5 then Stringify_ipv6ct_v_4_0 else Stringify_ipv6ct_v_4_5)\<rparr>" (is "?v4 \<Longrightarrow> ?ct")
proof -
  show ?ipv4
    using assms in_force_at [of 10 hw nat_objs_init] in_force_at [of 14 hw nat_objs_init] in_force_at [of 17 hw nat_objs_init]
    by (simp add: nat_table_defs)
  show ?index using assms by (intro in_force_at [of 10]) (auto simp: nat_table_defs)
  show ?pdn if ?v4 using that by (intro in_force_at [of 14]) (auto simp: nat_table_defs)
  show ?ct if ?v4
    using that in_force_at [of 14 hw nat_objs_init] in_force_at [of 17 hw nat_objs_init] by (simp add: nat_table_defs)
qed

text \<open>The immediate commands the NAT driver uses.\<close>

lemma imm_in_force:
  assumes "IPA_HW_v3_0 \<le> hw"
  shows "in_force imm_cmd_obj_zero imm_cmd_objs_init hw IPA_IMM_CMD_REGISTER_WRITE =
           (if hw < IPA_HW_v4_0 then \<lparr>construct = Some Construct_register_write, opcode = 12\<rparr>
            else \<lparr>construct = Some Construct_register_write_v_4_0, opcode = 12\<rparr>)"
    and "in_force imm_cmd_obj_zero imm_cmd_objs_init hw IPA_IMM_CMD_IP_V4_NAT_INIT =
           \<lparr>construct = Some Construct_ip_v4_nat_init, opcode = 5\<rparr>"
    and "in_force imm_cmd_obj_zero imm_cmd_objs_init hw IPA_IMM_CMD_DMA_SHARED_MEM =
           (if hw < IPA_HW_v4_0 then \<lparr>construct = Some Construct_dma_shared_mem, opcode = 19\<rparr>
            else \<lparr>construct = Some Construct_dma_shared_mem_v_4_0, opcode = 19\<rparr>)"
    and "hw < IPA_HW_v4_0 \<Longrightarrow> in_force imm_cmd_obj_zero imm_cmd_objs_init hw IPA_IMM_CMD_NAT_DMA =
           \<lparr>construct = Some Construct_nat_dma, opcode = 14\<rparr>"
    and "IPA_HW_v4_0 \<le> hw \<Longrightarrow> in_force imm_cmd_obj_zero imm_cmd_objs_init hw IPA_IMM_CMD_TABLE_DMA =
           \<lparr>construct = Some Construct_table_dma_ipav4, opcode = 14\<rparr>"
    and "IPA_HW_v4_0 \<le> hw \<Longrightarrow> in_force imm_cmd_obj_zero imm_cmd_objs_init hw IPA_IMM_CMD_IP_V6_CT_INIT =
           \<lparr>construct = Some Construct_ip_v6_ct_init, opcode = 23\<rparr>"
  using assms in_force_at [of 10 hw imm_cmd_objs_init IPA_IMM_CMD_REGISTER_WRITE]
    in_force_at [of 14 hw imm_cmd_objs_init IPA_IMM_CMD_REGISTER_WRITE]
    in_force_at [of 10 hw imm_cmd_objs_init IPA_IMM_CMD_DMA_SHARED_MEM]
    in_force_at [of 14 hw imm_cmd_objs_init IPA_IMM_CMD_DMA_SHARED_MEM]
    in_force_at [of 10 hw imm_cmd_objs_init IPA_IMM_CMD_IP_V4_NAT_INIT]
    in_force_at [of 10 hw imm_cmd_objs_init IPA_IMM_CMD_NAT_DMA]
    in_force_at [of 14 hw imm_cmd_objs_init IPA_IMM_CMD_TABLE_DMA]
    in_force_at [of 14 hw imm_cmd_objs_init IPA_IMM_CMD_IP_V6_CT_INIT]
  by (simp_all add: imm_table_defs)

subsection \<open>After initialisation\<close>

text \<open>The tables as the compiler lays them out.\<close>

definition hal_static :: "ipa_hw_type \<Rightarrow> ipahal_ctx" where
  "hal_static hw = \<lparr>hal_hw_type = hw, imm_cmd_objs = imm_cmd_objs_init, nat_objs = nat_objs_init\<rparr>"

definition hal_init :: "ipa_hw_type \<Rightarrow> int \<times> ipahal_ctx" where
  "hal_init hw =
     (let (r, hal) = ipahal_imm_cmd_init hw (hal_static hw)
      in if r \<noteq> 0 then (r, hal) else ipahal_nat_init hw hal)"

lemma hal_init_tables:
  assumes "IPA_HW_v3_0 \<le> hw" and "hw < IPA_HW_MAX" and "IPA_HW_v3_0 \<le> n" and "n \<le> hw" and "t \<noteq> IPA_NAT_MAX"
  shows "fst (hal_init hw) = 0" and "hal_hw_type (snd (hal_init hw)) = hw"
    and "nat_objs (snd (hal_init hw)) n t = in_force nat_obj_zero nat_objs_init n t"
    and "imm_cmd_objs (snd (hal_init hw)) n c = in_force imm_cmd_obj_zero imm_cmd_objs_init n c"
proof -
  have imm: "ipahal_imm_cmd_init hw (hal_static hw) =
      (0, (hal_static hw)\<lparr>imm_cmd_objs := inherit_rows imm_cmd_obj_zero imm_cmd_names hw imm_cmd_objs_init\<rparr>)"
    using assms(2) by (simp add: ipahal_imm_cmd_init_def hal_static_def)
  have i: "hal_init hw =
      (0, (hal_static hw)\<lparr>imm_cmd_objs := inherit_rows imm_cmd_obj_zero imm_cmd_names hw imm_cmd_objs_init,
                           nat_objs := inherit_rows nat_obj_zero nat_types hw nat_objs_init\<rparr>)"
    using assms(2) by (simp add: hal_init_def imm ipahal_nat_init_def) (simp add: hal_static_def)
  have n: "10 \<le> n" "n \<le> hw" "10 \<le> hw" using assms by (simp_all add: IPA_HW_v3_0_def)
  show "fst (hal_init hw) = 0" "hal_hw_type (snd (hal_init hw)) = hw" by (simp_all add: i hal_static_def)
  show "nat_objs (snd (hal_init hw)) n t = in_force nat_obj_zero nat_objs_init n t"
    using n inherit_rows_eq [OF nat_types_all [OF assms(5)] n(3), of nat_obj_zero nat_objs_init n] by (simp add: i)
  show "imm_cmd_objs (snd (hal_init hw)) n c = in_force imm_cmd_obj_zero imm_cmd_objs_init n c"
    using n inherit_rows_eq [OF imm_cmd_names_all n(3), of imm_cmd_obj_zero imm_cmd_objs_init n] by (simp add: i)
qed

lemma hal_init_ready:
  assumes "IPA_HW_v3_0 \<le> hw" and "hw < IPA_HW_MAX"
  shows "hal_ready (snd (hal_init hw))"
  using assms hal_init_tables [OF assms assms(1) order_refl] hal_init_tables(2) [OF assms, where t = IPAHAL_NAT_IPV4]
    hal_init_tables(4) [OF assms, where t = IPAHAL_NAT_IPV4]
  by (simp add: hal_ready_def)

lemma hal_ready_objs:
  assumes "hal_ready hal"
  shows "t \<noteq> IPA_NAT_MAX \<Longrightarrow> nat_obj hal t = in_force nat_obj_zero nat_objs_init (hal_hw_type hal) t"
    and "imm_cmd_objs hal (hal_hw_type hal) c = in_force imm_cmd_obj_zero imm_cmd_objs_init (hal_hw_type hal) c"
    and "IPA_HW_v3_0 \<le> hal_hw_type hal"
  using assms by (simp_all add: hal_ready_def)

lemma ready_entry_size [simp]:
  assumes "hal_ready hal"
  shows "ipahal_nat_entry_size hal IPAHAL_NAT_IPV4 = Some (0, 32)"
    and "ipahal_nat_entry_size hal IPAHAL_NAT_IPV4_INDEX = Some (0, 4)"
    and "IPA_HW_v4_0 \<le> hal_hw_type hal \<Longrightarrow> ipahal_nat_entry_size hal IPAHAL_NAT_IPV4_PDN = Some (0, 16)"
    and "IPA_HW_v4_0 \<le> hal_hw_type hal \<Longrightarrow> ipahal_nat_entry_size hal IPAHAL_NAT_IPV6CT = Some (0, 64)"
  using hal_ready_objs [OF assms]
  by (simp_all add: ipahal_nat_entry_size_def nat_in_force entry_size_defs)

lemma ready_construct_pdn:
  assumes "hal_ready hal" and "IPA_HW_v4_0 \<le> hal_hw_type hal"
  shows "ipahal_nat_construct_entry hal IPAHAL_NAT_IPV4_PDN f m off =
           (case ipa_nat_ipv4_pdn_construct_entry_v_4_0 f m off of None \<Rightarrow> None | Some m' \<Rightarrow> Some (0, m'))"
  using hal_ready_objs [OF assms(1)] assms(2)
  by (simp add: ipahal_nat_construct_entry_def nat_in_force split: option.splits)

text \<open>The constructors in use: a payload of fixed opcode, or no payload.\<close>

lemma ready_register_write:
  assumes "hal_ready hal"
  obtains p w' where "ipahal_construct_imm_cmd env hal IPA_IMM_CMD_REGISTER_WRITE (Prm_register_write q) w = Some (p, w')"
  using hal_ready_objs [OF assms]
  by (cases "hal_hw_type hal < IPA_HW_v4_0"; simp add: ipahal_construct_imm_cmd_def imm_in_force call_construct_def; metis surj_pair)

lemma ready_dma_shared_mem:
  assumes "hal_ready hal"
  obtains p w' where "ipahal_construct_imm_cmd env hal IPA_IMM_CMD_DMA_SHARED_MEM (Prm_dma_shared_mem q) w = Some (p, w')"
  using hal_ready_objs [OF assms]
  by (cases "hal_hw_type hal < IPA_HW_v4_0"; simp add: ipahal_construct_imm_cmd_def imm_in_force call_construct_def; metis surj_pair)

lemma ready_opcode:
  assumes "hal_ready hal"
  shows "ipahal_imm_cmd_get_opcode hal c =
           opcode (in_force imm_cmd_obj_zero imm_cmd_objs_init (hal_hw_type hal) c)"
proof -
  have "(ucast (x :: u16) :: u32) \<noteq> - 1" for x
  proof
    assume "(ucast x :: u32) = - 1"
    then have "unat (ucast x :: u32) = unat (- 1 :: u32)" by simp
    then show False using unat_u16_lt [of x] by (simp add: unsigned_minus_1_eq_mask mask_eq_exp_minus_1)
  qed
  moreover have "ucast (ucast (x :: u16) :: u32) = x" for x :: u16
    by (rule bit_word_eqI) (simp add: bit_simps)
  ultimately show ?thesis using hal_ready_objs [OF assms] by (simp add: ipahal_imm_cmd_get_opcode_def Let_def)
qed

lemma ready_table_dma:
  assumes "hal_ready hal" and "IPA_HW_v4_0 \<le> hal_hw_type hal" and "k_alloc env w = (ok, w')"
  shows "ipahal_construct_imm_cmd env hal IPA_IMM_CMD_TABLE_DMA (Prm_table_dma c) w =
           Some (if ok then Some \<lparr>py_len = 8, py_opcode = 14, py_data = bytes_le 8 (pack_bits (ipa_imm_cmd_hw_table_dma_ipav4 c))\<rparr>
                 else None, w')"
  using hal_ready_objs [OF assms(1)] assms(2,3) ready_opcode [OF assms(1), of IPA_IMM_CMD_TABLE_DMA]
  by (simp add: ipahal_construct_imm_cmd_def imm_in_force call_construct_def ipa_imm_cmd_construct_table_dma_ipav4_def alloc_pyld_def)

lemma ready_nat_dma:
  assumes "hal_ready hal" and "hal_hw_type hal < IPA_HW_v4_0" and "k_alloc env w = (ok, w')"
  shows "ipahal_construct_imm_cmd env hal IPA_IMM_CMD_NAT_DMA (Prm_table_dma c) w =
           Some (if ok then Some \<lparr>py_len = 8, py_opcode = 14, py_data = bytes_le 8 (pack_bits (ipa_imm_cmd_hw_nat_dma c))\<rparr>
                 else None, w')"
  using hal_ready_objs [OF assms(1)] assms(2,3) ready_opcode [OF assms(1), of IPA_IMM_CMD_NAT_DMA]
  by (simp add: ipahal_construct_imm_cmd_def imm_in_force call_construct_def ipa_imm_cmd_construct_nat_dma_def alloc_pyld_def)

lemma ready_nat_init:
  assumes "hal_ready hal" and "k_alloc env w = (ok, w')"
  shows "ipahal_construct_imm_cmd env hal IPA_IMM_CMD_IP_V4_NAT_INIT (Prm_ip_v4_nat_init c) w =
           Some (if ok then Some \<lparr>py_len = 40, py_opcode = 5, py_data = bytes_le 40 (pack_bits (ipa_imm_cmd_hw_ip_v4_nat_init c))\<rparr>
                 else None, w')"
  using hal_ready_objs [OF assms(1)] assms(2) ready_opcode [OF assms(1), of IPA_IMM_CMD_IP_V4_NAT_INIT]
  by (simp add: ipahal_construct_imm_cmd_def imm_in_force call_construct_def ipa_imm_cmd_construct_ip_v4_nat_init_def alloc_pyld_def)

lemma ready_ct_init:
  assumes "hal_ready hal" and "IPA_HW_v4_0 \<le> hal_hw_type hal" and "k_alloc env w = (ok, w')"
  shows "ipahal_construct_imm_cmd env hal IPA_IMM_CMD_IP_V6_CT_INIT (Prm_ip_v6_ct_init c) w =
           Some (if ok then Some \<lparr>py_len = 24, py_opcode = 23, py_data = bytes_le 24 (pack_bits (ipa_imm_cmd_hw_ip_v6_ct_init c))\<rparr>
                 else None, w')"
  using hal_ready_objs [OF assms(1)] assms(2,3) ready_opcode [OF assms(1), of IPA_IMM_CMD_IP_V6_CT_INIT]
  by (simp add: ipahal_construct_imm_cmd_def imm_in_force call_construct_def ipa_imm_cmd_construct_ip_v6_ct_init_def alloc_pyld_def)

end
