(* ===== verification/Hal_View.thy ===== *)
theory Hal_View
  imports Hal_Facts
begin

unbundle bit_operations_syntax

section \<open>The two views of a table entry\<close>

text \<open>
  The library writes an entry as the records of \<open>ipa_nat_drvi.h\<close> and \<open>ipa_ipv6cti.h\<close>; the kernel reads the same
  memory through the structures of \<open>ipahal_nat_i.h\<close>. Both structures place their fields at the same bits.
\<close>

subsection \<open>Words in memory\<close>

definition words_mem :: "nat \<Rightarrow> ('a :: len) word list \<Rightarrow> u8 list" where
  "words_mem n ws = concat (map (\<lambda>x. bytes_le n (unat x)) ws)"

fun words_nat :: "nat \<Rightarrow> ('a :: len) word list \<Rightarrow> nat" where
  "words_nat n [] = 0"
| "words_nat n (x # xs) = take_bit n (unat x) + 2 ^ n * words_nat n xs"

lemma length_bytes_le [simp]: "length (bytes_le n N) = n"
  by (simp add: bytes_le_def)

lemma le_nat_append: "le_nat (xs @ ys) = le_nat xs + 2 ^ (8 * length xs) * le_nat ys"
  by (induction xs) (simp_all add: power_add algebra_simps)

lemma words_mem_nat: "le_nat (words_mem n ws) = words_nat (8 * n) ws"
  by (induction ws) (simp_all add: words_mem_def le_nat_append le_nat_bytes)

lemma length_words_mem [simp]: "length (words_mem n ws) = n * length ws"
  by (induction ws) (simp_all add: words_mem_def)

lemma words_nat_drop: "i \<le> length ws \<Longrightarrow> drop_bit (n * i) (words_nat n ws) = words_nat n (drop i ws)"
proof (induction ws arbitrary: i)
  case (Cons x ws)
  show ?case
  proof (cases i)
    case (Suc j)
    then show ?thesis using Cons by (simp add: take_add_shift mult_Suc_right)
  qed simp
qed simp

lemma take_bit_low:
  assumes "m \<le> n" shows "take_bit m (take_bit n a + 2 ^ n * b) = take_bit m (a :: nat)"
proof -
  have "take_bit n (take_bit n a + 2 ^ n * b) = take_bit n a" by (simp add: take_bit_eq_mod)
  then have "take_bit m (take_bit n (take_bit n a + 2 ^ n * b)) = take_bit m (take_bit n a)" by simp
  then show ?thesis using assms by (simp add: take_bit_take_bit min_absorb1 del: take_bit_of_0)
qed

text \<open>A field inside one word, and a field that continues in the next word.\<close>

lemma bits_at_word:
  assumes "i < length ws" and "k + m \<le> n"
  shows "bits_at (n * i + k) m (words_nat n ws) = take_bit m (drop_bit k (unat (ws ! i)))"
proof -
  obtain ys where ys: "drop i ws = ws ! i # ys" using assms(1) by (metis Cons_nth_drop_Suc)
  have "drop_bit (n * i + k) (words_nat n ws) = drop_bit k (take_bit n (unat (ws ! i)) + 2 ^ n * words_nat n ys)"
    using words_nat_drop [of i ws n] assms(1) by (simp add: ys drop_bit_drop_bit [symmetric] add.commute)
  moreover have "take_bit m (drop_bit k x) = drop_bit k (take_bit (m + k) x)" for x :: nat by (simp add: take_bit_drop_bit)
  moreover have "take_bit (m + k) (take_bit n a + 2 ^ n * b) = take_bit (m + k) a" for a b :: nat
    by (rule take_bit_low) (use assms(2) in simp)
  ultimately show ?thesis by (simp add: bits_at_def)
qed

lemma bits_at_words:
  assumes "Suc i < length ws" and "m \<le> n"
  shows "bits_at (n * i) (n + m) (words_nat n ws) = take_bit n (unat (ws ! i)) + 2 ^ n * take_bit m (unat (ws ! Suc i))"
proof -
  obtain ys where ys: "drop i ws = ws ! i # ws ! Suc i # ys"
    using assms(1) by (metis Cons_nth_drop_Suc Suc_lessD)
  have "drop_bit (n * i) (words_nat n ws) = take_bit n (unat (ws ! i)) + 2 ^ n * (take_bit n (unat (ws ! Suc i)) + 2 ^ n * words_nat n ys)"
    using words_nat_drop [of i ws n] assms(1) by (simp add: ys)
  moreover have "take_bit (n + m) (take_bit n a + 2 ^ n * (take_bit n b + 2 ^ n * c)) = take_bit n a + 2 ^ n * take_bit m b" for a b c :: nat
  proof -
    have "take_bit m (take_bit n b + 2 ^ n * c) = take_bit m b" by (rule take_bit_low [OF assms(2)])
    moreover have "take_bit (n + m) (take_bit n a + 2 ^ n * d) = take_bit n a + 2 ^ n * take_bit m d" for d :: nat
      by (simp add: take_bit_eq_mod power_add mod_mult2_eq)
    ultimately show ?thesis by simp
  qed
  ultimately show ?thesis by (simp add: bits_at_def)
qed

lemma field_word:
  assumes "LENGTH('b :: len) = m"
  shows "(of_nat (take_bit m (drop_bit k (unat (x :: ('a :: len) word)))) :: 'b word) = ucast (drop_bit k x)"
  by (rule bit_word_eqI) (use assms in \<open>auto simp: bit_simps\<close>)

lemma field_bit: "(take_bit 1 (drop_bit k (unat (x :: ('a :: len) word))) = 1) = bit x k"
proof -
  have "take_bit 1 (drop_bit k (unat x)) = drop_bit k (unat x) mod 2" by (simp add: take_bit_eq_mod)
  also have "(\<dots> = 1) = bit (unat x) k" by (simp add: bit_iff_odd_drop_bit odd_iff_mod_2_eq_one)
  finally show ?thesis by (simp add: bit_unsigned_iff)
qed

lemma bit_low_high: "bit (take_bit n a + 2 ^ n * b) j = (if j < n then bit a j else bit (b :: nat) (j - n))"
proof (cases "j < n")
  case True
  have "bit (take_bit n a + 2 ^ n * b) j = bit (take_bit n (take_bit n a + 2 ^ n * b)) j" using True by (simp add: bit_take_bit_iff)
  also have "take_bit n (take_bit n a + 2 ^ n * b) = take_bit n a" by (rule take_bit_low [OF order_refl])
  finally show ?thesis using True by (simp add: bit_take_bit_iff)
next
  case False
  then obtain i where j: "j = n + i" using le_Suc_ex by (metis not_less)
  have d: "drop_bit n (take_bit n a + 2 ^ n * b) = b" using take_add_shift [of n 0 a b] by simp
  have "bit (take_bit n a + 2 ^ n * b) (n + i) = bit (drop_bit n (take_bit n a + 2 ^ n * b)) i"
    unfolding bit_drop_bit_eq comp_def ..
  also have "drop_bit n (take_bit n a + 2 ^ n * b) = b" by (rule d)
  finally show ?thesis by (simp add: j)
qed

lemmas bit_low_high16 = bit_low_high [where n = 16, unfolded power_numeral]

lemma field_join16: "(of_nat (take_bit 16 (unat x) + 2 ^ 16 * take_bit 16 (unat y)) :: u32) = join16 x y"
  by (rule bit_word_eqI) (auto simp: join16_def bit_low_high16 [simplified] bit_simps simp del: of_nat_add of_nat_mult dest: bit_imp_le_length)

lemma field_ts_join: "(of_nat (take_bit 16 (unat x) + 2 ^ 16 * take_bit 8 (unat y)) :: 24 word) = ts_join x (lo8 y)"
  by (rule bit_word_eqI) (auto simp: ts_join_def lo8_def bit_low_high16 [simplified] bit_simps simp del: of_nat_add of_nat_mult dest: bit_imp_le_length)

text \<open>The fields of an entry of \<open>n\<close>-bit words: field \<open>p\<close> starts at bit \<open>k\<close> of word \<open>i\<close>.\<close>

lemma view_field:
  assumes "p = n * i + k" and "i < length ws" and "k + m \<le> n" and "LENGTH('b :: len) = m"
  shows "(of_nat (bits_at p m (words_nat n ws)) :: 'b word) = ucast (drop_bit k (ws ! i))"
  using assms by (simp add: bits_at_word field_word)

lemma view_flag:
  assumes "p = n * i + k" and "i < length ws" and "k < n"
  shows "(bits_at p 1 (words_nat n ws) = 1) = bit (ws ! i) k"
  unfolding assms(1) by (subst bits_at_word) (use assms field_bit [of k "ws ! i"] in auto)

lemma view_join16:
  assumes "p = 16 * i" and "Suc i < length ws"
  shows "(of_nat (bits_at p 32 (words_nat 16 ws)) :: u32) = join16 (ws ! i) (ws ! Suc i)"
  using bits_at_words [of i ws 16 16] assms field_join16 [of "ws ! i" "ws ! Suc i"] by simp

lemma view_ts_join:
  assumes "p = 16 * i" and "Suc i < length ws"
  shows "(of_nat (bits_at p 24 (words_nat 16 ws)) :: 24 word) = ts_join (ws ! i) (lo8 (ws ! Suc i))"
  using bits_at_words [of i ws 8 16] assms field_ts_join [of "ws ! i" "ws ! Suc i"] by simp

subsection \<open>NAT entries\<close>

lemma hi8_bits: "ucast (drop_bit 12 (x :: u16)) = pdn_of (hi8 x)" "bit x 11 = bit (hi8 x) 3" "ucast (drop_bit 8 x) = hi8 x"
  by (rule bit_word_eqI; simp add: pdn_of_def hi8_def bit_simps) (simp_all add: hi8_def bit_simps)

lemma hw_ipv4_entry_view:
  assumes l: "length hs = 16"
  shows "hw_ipv4_entry (words_mem 2 hs) =
     (let r = nat_rule_of_hw hs
      in \<lparr>h4_private_ip = r_private_ip r, h4_target_ip = r_target_ip r, h4_next_index = r_next_index r,
          h4_public_port = r_public_port r, h4_private_port = r_private_port r, h4_target_port = r_target_port r,
          h4_ip_chksum = r_ip_chksum r, h4_uc_activation_index = r_uc_activation_index r, h4_s = r_s r,
          h4_redirect = r_redirect r, h4_enable = r_enable r, h4_time_stamp = r_time_stamp r,
          h4_protocol = r_protocol r, h4_prev_index = r_prev_index r, h4_indx_tbl_entry = r_indx_tbl_entry r,
          h4_rsvd2 = ucast (hs ! 14), h4_ucp = r_ucp r, h4_pdn_index = r_pdn_index r,
          h4_tcp_udp_chksum = r_tcp_udp_chksum r\<rparr>)"
proof -
  have N: "le_nat (words_mem 2 hs) = words_nat 16 hs" using words_mem_nat [of 2 hs] by simp
  have w: "(of_nat (bits_at p 16 (words_nat 16 hs)) :: u16) = hs ! i" if "p = 16 * i" "i < 16" for p i
    using view_field [of p 16 i 0 hs 16, where 'b = 16] that l by simp
  note f = view_field [where n = 16 and ws = hs, unfolded l] and b = view_flag [where n = 16 and ws = hs, unfolded l]
  show ?thesis
    unfolding hw_ipv4_entry_def N Let_def nat_rule_of_hw_def ipa_nat_rule.select_convs
    by (simp add: l view_join16 [of 0 0] view_join16 [of 32 2] view_ts_join [of 160 10] w [of _ 4] w [of _ 5] w [of _ 6]
        w [of _ 7] w [of _ 8] w [of _ 12] w [of _ 13] w [of _ 15] f [of 144 9 0 13] b [of 157 9 13, unfolded One_nat_def]
        b [of 158 9 14, unfolded One_nat_def] b [of 159 9 15, unfolded One_nat_def] f [of 184 11 8 8] f [of 224 14 0 11] b [of 235 14 11, unfolded One_nat_def] f [of 236 14 12 4] hi8_bits)
qed

lemma hw_indx_entry_view:
  assumes l: "length hs = 2"
  shows "hw_indx_entry (words_mem 2 hs) =
     (let x = indx_rule_of_hw hs in \<lparr>hx_tbl_entry = x_tbl_entry x, hx_next_index = x_next_index x\<rparr>)"
proof -
  have N: "le_nat (words_mem 2 hs) = words_nat 16 hs" using words_mem_nat [of 2 hs] by simp
  have w: "(of_nat (bits_at p 16 (words_nat 16 hs)) :: u16) = hs ! i" if "p = 16 * i" "i < 2" for p i
    using view_field [of p 16 i 0 hs 16, where 'b = 16] that l by simp
  show ?thesis unfolding hw_indx_entry_def N by (simp add: indx_rule_of_hw_def Let_def w [of _ 0] w [of _ 1])
qed

subsection \<open>Connection tracking entries\<close>

lemma hw_ipv6ct_entry_view:
  assumes l: "length ws = 8"
  shows "hw_ipv6ct_entry (words_mem 8 ws) =
     (let e = ct_of_words ws
      in \<lparr>h6_src_ipv6_lsb = c_src_ipv6_lsb e, h6_src_ipv6_msb = c_src_ipv6_msb e, h6_dest_ipv6_lsb = c_dest_ipv6_lsb e,
          h6_dest_ipv6_msb = c_dest_ipv6_msb e, h6_uc_activation_index = c_uc_activation_index e, h6_s = c_s e,
          h6_rsvd1 = c_rsvd1 e, h6_redirect = c_redirect e, h6_enable = c_enable e, h6_time_stamp = c_time_stamp e,
          h6_protocol = c_protocol e, h6_next_index = c_next_index e, h6_dest_port = c_dest_port e,
          h6_src_port = c_src_port e, h6_ucp = c_ucp e, h6_rsvd2 = c_rsvd2 e, h6_out_allowed = c_out_allowed e,
          h6_in_allowed = c_in_allowed e, h6_rsvd3 = c_rsvd3 e, h6_rsvd4 = c_rsvd4 e, h6_prev_index = c_prev_index e,
          h6_rsvd5 = c_rsvd5 e\<rparr>)"
proof -
  have N: "le_nat (words_mem 8 ws) = words_nat 64 ws" using words_mem_nat [of 8 ws] by simp
  have w: "(of_nat (bits_at p 64 (words_nat 64 ws)) :: u64) = ws ! i" if "p = 64 * i" "i < 8" for p i
    using view_field [of p 64 i 0 ws 64, where 'b = 64] that l by simp
  note f = view_field [where n = 64 and ws = ws, unfolded l] and b = view_flag [where n = 64 and ws = ws, unfolded l One_nat_def]
  show ?thesis
    unfolding hw_ipv6ct_entry_def N Let_def ct_of_words_def ipa_ipv6ct_hw_entry.select_convs
    by (simp add: w [of _ 0] w [of _ 1] w [of _ 2] w [of _ 3] w [of _ 7] f [of 256 4 0 13] b [of 269 4 13] f [of 270 4 14 16]
        b [of 286 4 30] b [of 287 4 31] f [of 288 4 32 24] f [of 312 4 56 8] f [of 320 5 0 16] f [of 336 5 16 16]
        f [of 352 5 32 16] b [of 368 5 48] f [of 369 5 49 5] b [of 374 5 54] b [of 375 5 55] f [of 376 5 56 8]
        f [of 384 6 0 48] f [of 432 6 48 16])
qed

subsection \<open>Validity\<close>

text \<open>The kernel's test of an entry, on the entries the library writes.\<close>

lemma kernel_valid:
  assumes h: "hal_ready hal"
  shows "ipahal_nat_is_entry_valid hal IPAHAL_NAT_IPV4 (words_mem 2 (nat_rule_hw r)) =
           Some (0, r_enable r \<and> r_protocol r \<noteq> IPAHAL_NAT_INVALID_PROTOCOL)"
    and "ipahal_nat_is_entry_valid hal IPAHAL_NAT_IPV4_INDEX (words_mem 2 (indx_rule_hw x)) = Some (0, x_tbl_entry x \<noteq> 0)"
    and "IPA_HW_v4_0 \<le> hal_hw_type hal \<Longrightarrow>
         ipahal_nat_is_entry_valid hal IPAHAL_NAT_IPV6CT (words_mem 8 (ct_words e)) =
           Some (0, c_enable e \<and> c_protocol e \<noteq> IPAHAL_NAT_INVALID_PROTOCOL)"
proof -
  have l: "length (nat_rule_hw r) = 16" "length (indx_rule_hw x) = 2" "length (ct_words e) = 8"
    by (simp_all add: nat_rule_hw_def indx_rule_hw_def ct_words_def)
  have x: "indx_rule_of_hw (indx_rule_hw x) = x" by (simp add: indx_rule_of_hw_def indx_rule_hw_def)
  show "ipahal_nat_is_entry_valid hal IPAHAL_NAT_IPV4 (words_mem 2 (nat_rule_hw r)) =
           Some (0, r_enable r \<and> r_protocol r \<noteq> IPAHAL_NAT_INVALID_PROTOCOL)"
    using hal_ready_objs [OF h]
    by (simp add: ipahal_nat_is_entry_valid_def nat_in_force ipa_nat_ipv4_is_entry_valid_v_3_0_def entry_at_def l
        hw_ipv4_entry_view nat_rule_of_hw_hw Let_def)
  show "ipahal_nat_is_entry_valid hal IPAHAL_NAT_IPV4_INDEX (words_mem 2 (indx_rule_hw x)) = Some (0, x_tbl_entry x \<noteq> 0)"
    using hal_ready_objs [OF h]
    by (simp add: ipahal_nat_is_entry_valid_def nat_in_force ipa_nat_ipv4_is_index_entry_valid_v_3_0_def entry_at_def l
        hw_indx_entry_view x Let_def)
  show "ipahal_nat_is_entry_valid hal IPAHAL_NAT_IPV6CT (words_mem 8 (ct_words e)) =
           Some (0, c_enable e \<and> c_protocol e \<noteq> IPAHAL_NAT_INVALID_PROTOCOL)" if "IPA_HW_v4_0 \<le> hal_hw_type hal"
    using hal_ready_objs [OF h] that
    by (simp add: ipahal_nat_is_entry_valid_def nat_in_force ipa_nat_ipv6ct_is_entry_valid_v_4_0_def entry_at_def l
        hw_ipv6ct_entry_view ct_of_words_words Let_def)
qed

subsection \<open>PDN entries\<close>

lemma pdn_word:
  assumes "i < 4"
  shows "(of_nat (bits_at (32 * i) 32 (le_nat (bytes_le 16 (pack_bits (hw_pdn_bits e))))) :: u32) =
           [hp_public_ip e, hp_src_metadata e, hp_dst_metadata e, hp_resrvd e] ! i"
proof -
  let ?ws = "[hp_public_ip e, hp_src_metadata e, hp_dst_metadata e, hp_resrvd e]"
  have "pack_bits (hw_pdn_bits e) = words_nat 32 ?ws" by (simp add: hw_pdn_bits_def unat_ucast_up)
  moreover have "le_nat (bytes_le 16 (pack_bits (hw_pdn_bits e))) = pack_bits (hw_pdn_bits e)"
    by (rule le_nat_packed) (simp add: hw_pdn_bits_def)
  ultimately show ?thesis using view_field [of "32 * i" 32 i 0 ?ws 32, where 'b = 32] assms by simp
qed

lemma hw_pdn_entry_bits: "hw_pdn_entry (bytes_le 16 (pack_bits (hw_pdn_bits e))) = e"
  using pdn_word [of 0 e] pdn_word [of 1 e] pdn_word [of 2 e] pdn_word [of 3 e]
  by (simp add: hw_pdn_entry_def Let_def)

lemma pdn_construct_parse:
  assumes c: "ipa_nat_ipv4_pdn_construct_entry_v_4_0 f m (16 * i) = Some m'"
  shows "ipa_nat_ipv4_pdn_parse_entry_v_4_0 m' (16 * i) = Some f"
    and "j \<noteq> i \<Longrightarrow> ipa_nat_ipv4_pdn_parse_entry_v_4_0 m' (16 * j) = ipa_nat_ipv4_pdn_parse_entry_v_4_0 m (16 * j)"
    and "length m' = length m"
proof -
  let ?e = "bytes_le 16 (pack_bits (hw_pdn_bits \<lparr>hp_public_ip = pf_public_ip f, hp_src_metadata = pf_src_metadata f,
      hp_dst_metadata = pf_dst_metadata f, hp_resrvd = 0\<rparr>))"
  have le: "16 * i + 16 \<le> length m" and m': "m' = take (16 * i) m @ ?e @ drop (16 * i + 16) m"
    using c by (auto simp: ipa_nat_ipv4_pdn_construct_entry_v_4_0_def write_bytes_def split: if_splits)
  have d: "drop (16 * i) m' = ?e @ drop (16 * i + 16) m" using le by (simp add: m')
  then show "ipa_nat_ipv4_pdn_parse_entry_v_4_0 m' (16 * i) = Some f"
    unfolding ipa_nat_ipv4_pdn_parse_entry_v_4_0_def d entry_at_def by (simp add: hw_pdn_entry_bits)
  show len: "length m' = length m" using le by (simp add: m')
  show "ipa_nat_ipv4_pdn_parse_entry_v_4_0 m' (16 * j) = ipa_nat_ipv4_pdn_parse_entry_v_4_0 m (16 * j)" if "j \<noteq> i"
  proof -
    have other: "m' ! p = m ! p" if "p < 16 * i \<or> 16 * i + 16 \<le> p" "p < length m" for p
      using that le by (auto simp: m' nth_append)
    then have "take 16 (drop (16 * j) m') = take 16 (drop (16 * j) m)"
    proof (intro nth_equalityI)
      fix q assume "q < length (take 16 (drop (16 * j) m'))"
      then have "q < 16" "16 * j + q < length m" by (auto simp: len)
      moreover from this have "16 * j + q < 16 * i \<or> 16 * i + 16 \<le> 16 * j + q" using \<open>j \<noteq> i\<close> by linarith
      ultimately show "take 16 (drop (16 * j) m') ! q = take 16 (drop (16 * j) m) ! q" using other by (simp add: len)
    qed (simp add: len)
    then show ?thesis by (simp add: ipa_nat_ipv4_pdn_parse_entry_v_4_0_def entry_at_def len)
  qed
qed

end
