(* ===== verification/Ipa_Nat.thy ===== *)
theory Ipa_Nat
  imports Hal_Nat Ipv6ct Nat_Drvi
begin

unbundle bit_operations_syntax

section \<open>The kernel's NAT driver: devices and memory\<close>

text \<open>
  The first half of \<open>ipa_nat.c\<close>: the state of the two memory devices, their creation and removal, the allocation
  of table memory in DDR or SRAM, and its mapping into the client.

  A pointer is a \<open>u64\<close>, the null pointer \<open>0\<close>. The record \<open>ipa3_context\<close> is the part of \<open>ipa3_ctx\<close> the driver
  uses, the static variable \<open>sram_compatible\<close>, the HAL's state and the rest of the kernel, \<open>k_world\<close>, which
  only the functions of the environment change. \<open>None\<close> stands for a call through a null pointer, an access
  outside an array, or a lock that the caller itself already holds and that is never released.
\<close>

subsection \<open>State\<close>

record ipa3_nat_ipv6ct_tmp_mem =
  tm_vaddr :: u64
  tm_dma_handle :: u64

record ipa3_nat_ipv6ct_common_mem =
  cm_name :: string
  cm_lock :: bool
  cm_class :: u64
  cm_dev :: u64
  cm_dev_num :: u32
  cm_is_nat_mem :: bool
  cm_is_ipv6ct_mem :: bool
  cm_is_dev_init :: bool
  cm_is_hw_init :: bool
  cm_is_mapped :: bool
  cm_phys_mem_size :: u32
  cm_phys_mem_ofst :: u32
  cm_table_alloc_size :: u64
  cm_vaddr :: u64
  cm_dma_handle :: u64
  cm_base_address :: u64
  cm_base_table_addr :: u64
  cm_expansion_table_addr :: u64
  cm_table_entries :: u32
  cm_expn_table_entries :: u32
  cm_tmp_mem :: "ipa3_nat_ipv6ct_tmp_mem option"

record ipa3_nat_mem_loc_data =
  ml_is_mapped :: bool
  ml_io_vaddr :: u64
  ml_vaddr :: u64
  ml_dma_handle :: u64
  ml_phys_addr :: u64
  ml_table_alloc_size :: u64
  ml_table_entries :: u32
  ml_expn_table_entries :: u32
  ml_base_address :: u64
  ml_base_table_addr :: u64
  ml_expansion_table_addr :: u64
  ml_index_table_addr :: u64
  ml_index_table_expansion_addr :: u64

text \<open>The bytes behind \<open>base\<close> are part of the record; they are read only where \<open>base\<close> is not null.\<close>

record ipa_mem_buffer =
  mb_base :: u64
  mb_phys_base :: u64
  mb_size :: u32
  mb_bytes :: "u8 list"

record ipa3_nat_mem =
  nm_dev :: ipa3_nat_ipv6ct_common_mem
  nm_public_ip_addr :: u32
  nm_pdn_mem :: ipa_mem_buffer
  nm_is_tmp_mem_allocated :: bool
  nm_last_alloc_loc :: ipa3_nat_mem_in
  nm_active_table :: ipa3_nat_mem_in
  nm_switch2ddr_cnt :: u32
  nm_switch2sram_cnt :: u32
  nm_ddr_in_use :: bool
  nm_sram_in_use :: bool
  nm_mem_loc :: "ipa3_nat_mem_in \<Rightarrow> ipa3_nat_mem_loc_data"

record 'w ipa3_context =
  k_hw_type :: ipa_hw_type
  k_ulso_wa :: bool
  k_smem_restricted_bytes :: u16
  k_wrapper_base :: u32
  k_reg_base_ofst :: u32
  k_nat_tbl_ofst :: u32
  k_nat_tbl_size :: u32
  k_pdn_config_ofst :: u32
  k_pdn_config_size :: u32
  k_hal :: ipahal_ctx
  k_nat_mem :: ipa3_nat_mem
  k_ipv6ct_mem :: ipa3_nat_ipv6ct_common_mem
  k_sram_compatible :: bool
  k_world :: 'w

definition common_mem_zero :: ipa3_nat_ipv6ct_common_mem where
  "common_mem_zero =
     \<lparr>cm_name = '''', cm_lock = False, cm_class = 0, cm_dev = 0, cm_dev_num = 0, cm_is_nat_mem = False,
      cm_is_ipv6ct_mem = False, cm_is_dev_init = False, cm_is_hw_init = False, cm_is_mapped = False,
      cm_phys_mem_size = 0, cm_phys_mem_ofst = 0, cm_table_alloc_size = 0, cm_vaddr = 0, cm_dma_handle = 0,
      cm_base_address = 0, cm_base_table_addr = 0, cm_expansion_table_addr = 0, cm_table_entries = 0,
      cm_expn_table_entries = 0, cm_tmp_mem = None\<rparr>"

definition mem_loc_zero :: ipa3_nat_mem_loc_data where
  "mem_loc_zero =
     \<lparr>ml_is_mapped = False, ml_io_vaddr = 0, ml_vaddr = 0, ml_dma_handle = 0, ml_phys_addr = 0,
      ml_table_alloc_size = 0, ml_table_entries = 0, ml_expn_table_entries = 0, ml_base_address = 0,
      ml_base_table_addr = 0, ml_expansion_table_addr = 0, ml_index_table_addr = 0,
      ml_index_table_expansion_addr = 0\<rparr>"

definition nat_mem_zero :: ipa3_nat_mem where
  "nat_mem_zero =
     \<lparr>nm_dev = common_mem_zero, nm_public_ip_addr = 0,
      nm_pdn_mem = \<lparr>mb_base = 0, mb_phys_base = 0, mb_size = 0, mb_bytes = []\<rparr>, nm_is_tmp_mem_allocated = False,
      nm_last_alloc_loc = IPA_NAT_MEM_IN_DDR, nm_active_table = IPA_NAT_MEM_IN_DDR, nm_switch2ddr_cnt = 0,
      nm_switch2sram_cnt = 0, nm_ddr_in_use = False, nm_sram_in_use = False, nm_mem_loc = (\<lambda>_. mem_loc_zero)\<rparr>"

text \<open>
  A pointer \<open>dev\<close> to a device is the device's name; a cast of it to \<open>ipa3_nat_mem\<close> is \<open>k_nat_mem\<close>.
\<close>

datatype nat_device = Nat_Dev | Ipv6ct_Dev

fun the_dev :: "nat_device \<Rightarrow> 'w ipa3_context \<Rightarrow> ipa3_nat_ipv6ct_common_mem" where
  "the_dev Nat_Dev k = nm_dev (k_nat_mem k)"
| "the_dev Ipv6ct_Dev k = k_ipv6ct_mem k"

fun upd_dev :: "nat_device \<Rightarrow> (ipa3_nat_ipv6ct_common_mem \<Rightarrow> ipa3_nat_ipv6ct_common_mem) \<Rightarrow>
    'w ipa3_context \<Rightarrow> 'w ipa3_context" where
  "upd_dev Nat_Dev f k = k\<lparr>k_nat_mem := (k_nat_mem k)\<lparr>nm_dev := f (nm_dev (k_nat_mem k))\<rparr>\<rparr>"
| "upd_dev Ipv6ct_Dev f k = k\<lparr>k_ipv6ct_mem := f (k_ipv6ct_mem k)\<rparr>"

definition IS_NAT_MEM_DEV :: "nat_device \<Rightarrow> bool" where "IS_NAT_MEM_DEV d \<longleftrightarrow> d = Nat_Dev"
definition IS_IPV6CT_MEM_DEV :: "nat_device \<Rightarrow> bool" where "IS_IPV6CT_MEM_DEV d \<longleftrightarrow> d = Ipv6ct_Dev"

definition upd_nm :: "(ipa3_nat_mem \<Rightarrow> ipa3_nat_mem) \<Rightarrow> 'w ipa3_context \<Rightarrow> 'w ipa3_context" where
  "upd_nm f k = k\<lparr>k_nat_mem := f (k_nat_mem k)\<rparr>"

definition the_mld :: "ipa3_nat_mem_in \<Rightarrow> 'w ipa3_context \<Rightarrow> ipa3_nat_mem_loc_data" where
  "the_mld n k = nm_mem_loc (k_nat_mem k) n"

definition upd_mld :: "ipa3_nat_mem_in \<Rightarrow> (ipa3_nat_mem_loc_data \<Rightarrow> ipa3_nat_mem_loc_data) \<Rightarrow>
    'w ipa3_context \<Rightarrow> 'w ipa3_context" where
  "upd_mld n f = upd_nm (\<lambda>nm. nm\<lparr>nm_mem_loc := (nm_mem_loc nm)(n := f (nm_mem_loc nm n))\<rparr>)"

definition mutex_lock :: "nat_device \<Rightarrow> 'w ipa3_context \<Rightarrow> 'w ipa3_context option" where
  "mutex_lock d k = (if cm_lock (the_dev d k) then None else Some (upd_dev d (\<lambda>c. c\<lparr>cm_lock := True\<rparr>) k))"

definition mutex_unlock :: "nat_device \<Rightarrow> 'w ipa3_context \<Rightarrow> 'w ipa3_context" where
  "mutex_unlock d k = upd_dev d (\<lambda>c. c\<lparr>cm_lock := False\<rparr>) k"

text \<open>A body between taking a lock and releasing it on every path.\<close>

definition with_lock ::
    "nat_device \<Rightarrow> ('w ipa3_context \<Rightarrow> (int \<times> 'w ipa3_context) option) \<Rightarrow> 'w ipa3_context
     \<Rightarrow> (int \<times> 'w ipa3_context) option" where
  "with_lock d body k = do { k \<leftarrow> mutex_lock d k; (r, k) \<leftarrow> body k; Some (r, mutex_unlock d k) }"

subsection \<open>The environment\<close>

text \<open>
  The kernel services the driver calls, the register and endpoint tables (\<open>ipahal_reg.c\<close>, \<open>ipa_utils.c\<close>) and
  the transport that executes a list of descriptors on the hardware (\<open>ipa3_send_cmd\<close> of \<open>ipa_dp.c\<close>).
\<close>

datatype ipa3_desc_type = IPA_DATA_DESC | IPA_DATA_DESC_SKB | IPA_DATA_DESC_SKB_PAGED | IPA_IMM_CMD_DESC

record ipa3_desc =
  de_type :: ipa3_desc_type
  de_opcode :: u16
  de_len :: u16
  de_pyld :: "u8 list"

record vm_area_struct =
  vm_start :: u64
  vm_end :: u64
  vm_noncached :: bool
  vm_ops_set :: bool

record 'w nat_kernel_env = "'w kernel_env" +
  dma_alloc_coherent :: "u64 \<Rightarrow> 'w \<Rightarrow> (u64 \<times> u64) \<times> 'w"
  dma_free_coherent :: "u64 \<Rightarrow> u64 \<Rightarrow> u64 \<Rightarrow> 'w \<Rightarrow> 'w"
  ioremap :: "u64 \<Rightarrow> u32 \<Rightarrow> 'w \<Rightarrow> u64 \<times> 'w"
  iounmap :: "u64 \<Rightarrow> 'w \<Rightarrow> 'w"
  class_create :: "string \<Rightarrow> 'w \<Rightarrow> u64 \<times> 'w"
  class_destroy :: "u64 \<Rightarrow> 'w \<Rightarrow> 'w"
  alloc_chrdev_region :: "string \<Rightarrow> 'w \<Rightarrow> (int \<times> u32) \<times> 'w"
  unregister_chrdev_region :: "u32 \<Rightarrow> 'w \<Rightarrow> 'w"
  device_create :: "u64 \<Rightarrow> u32 \<Rightarrow> string \<Rightarrow> 'w \<Rightarrow> u64 \<times> 'w"
  device_destroy :: "u64 \<Rightarrow> u32 \<Rightarrow> 'w \<Rightarrow> 'w"
  cdev_add :: "u32 \<Rightarrow> 'w \<Rightarrow> int \<times> 'w"
  dma_mmap_coherent :: "vm_area_struct \<Rightarrow> u64 \<Rightarrow> u64 \<Rightarrow> u64 \<Rightarrow> 'w \<Rightarrow> int \<times> 'w"
  vm_iomap_memory :: "vm_area_struct \<Rightarrow> u64 \<Rightarrow> u32 \<Rightarrow> 'w \<Rightarrow> int \<times> 'w"
  smmu_cb_dev :: bool
  smmu_cb_valid :: bool
  smmu_cb_coherent :: bool
  wan_coal_ep :: int
  aggr_force_close_ofst :: u32
  aggr_force_close_n_ofst :: "int \<Rightarrow> u32"
  aggr_force_close_valmask :: "int \<Rightarrow> u32 \<times> u32"
  sram_direct_access_ofst :: u32
  ipa3_send_cmd :: "ipa3_desc list \<Rightarrow> 'w \<Rightarrow> int \<times> 'w"

text \<open>A service applied to the kernel around the driver.\<close>

definition os :: "('w \<Rightarrow> 'a \<times> 'w) \<Rightarrow> 'w ipa3_context \<Rightarrow> 'a \<times> 'w ipa3_context" where
  "os f k = (let (a, w) = f (k_world k) in (a, k\<lparr>k_world := w\<rparr>))"

definition os_do :: "('w \<Rightarrow> 'w) \<Rightarrow> 'w ipa3_context \<Rightarrow> 'w ipa3_context" where
  "os_do f k = k\<lparr>k_world := f (k_world k)\<rparr>"

subsection \<open>Creating and removing the devices\<close>

text \<open>An error pointer lies in the last page of the address space.\<close>

definition IS_ERR :: "u64 \<Rightarrow> bool" where "IS_ERR p \<longleftrightarrow> - 4095 \<le> p"

definition IPA_NAT_IPV6CT_TEMP_MEM_SIZE :: u64 where "IPA_NAT_IPV6CT_TEMP_MEM_SIZE = 128"
definition IPA_DEV_NAME_MAX_LEN :: nat where "IPA_DEV_NAME_MAX_LEN = 15"
definition IPA_IPV6CT_PHYS_MEM_OFFSET :: u32 where "IPA_IPV6CT_PHYS_MEM_OFFSET = 0"
definition IPA_IPV6CT_PHYS_MEM_SIZE :: u32 where "IPA_IPV6CT_PHYS_MEM_SIZE = 0"

abbreviation IPA_NAT_PHYS_MEM_OFFSET :: "'w ipa3_context \<Rightarrow> u32" where "IPA_NAT_PHYS_MEM_OFFSET k \<equiv> k_nat_tbl_ofst k"
abbreviation IPA_NAT_PHYS_MEM_SIZE :: "'w ipa3_context \<Rightarrow> u32" where "IPA_NAT_PHYS_MEM_SIZE k \<equiv> k_nat_tbl_size k"

definition ipa3_nat_ipv6ct_allocate_tmp_memory ::
    "('w, 'e) nat_kernel_env_scheme \<Rightarrow> 'w ipa3_context \<Rightarrow> ipa3_nat_ipv6ct_tmp_mem option \<times> 'w ipa3_context" where
  "ipa3_nat_ipv6ct_allocate_tmp_memory env k =
     (let (ok, k) = os (k_alloc env) k
      in if \<not> ok then (None, k)
         else
           let ((va, dh), k) = os (dma_alloc_coherent env IPA_NAT_IPV6CT_TEMP_MEM_SIZE) k
           in if va = 0 then (None, os_do (k_free env) k)
              else (Some \<lparr>tm_vaddr = va, tm_dma_handle = dh\<rparr>, k))"

definition ipa3_nat_ipv6ct_init_device ::
    "('w, 'e) nat_kernel_env_scheme \<Rightarrow> nat_device \<Rightarrow> string \<Rightarrow> u32 \<Rightarrow> u32 \<Rightarrow> ipa3_nat_ipv6ct_tmp_mem option
     \<Rightarrow> 'w ipa3_context \<Rightarrow> (int \<times> 'w ipa3_context) option" where
  "ipa3_nat_ipv6ct_init_device env d nam phys_size phys_ofst tmp k =
     (let k = upd_dev d (\<lambda>c. c\<lparr>cm_lock := False, cm_is_nat_mem := IS_NAT_MEM_DEV d,
                             cm_is_ipv6ct_mem := IS_IPV6CT_MEM_DEV d\<rparr>) k
      in if IPA_DEV_NAME_MAX_LEN \<le> length nam then Some (- ENODEV, k)
         else
           let k = upd_dev d (\<lambda>c. c\<lparr>cm_name := nam\<rparr>) k;
               (cls, k) = os (class_create env nam) k;
               k = upd_dev d (\<lambda>c. c\<lparr>cm_class := cls\<rparr>) k
           in if IS_ERR cls then Some (- ENODEV, k)
              else
                let ((r, num), k) = os (alloc_chrdev_region env nam) k
                in if r \<noteq> 0 then Some (- ENODEV, os_do (class_destroy env cls) k)
                   else
                     let k = upd_dev d (\<lambda>c. c\<lparr>cm_dev_num := num\<rparr>) k;
                         (dv, k) = os (device_create env cls num nam) k;
                         k = upd_dev d (\<lambda>c. c\<lparr>cm_dev := dv\<rparr>) k
                     in if IS_ERR dv
                        then Some (- ENODEV, os_do (class_destroy env cls) (os_do (unregister_chrdev_region env num) k))
                        else
                          do {
                            k \<leftarrow> mutex_lock d k;
                            let (r, k) = os (cdev_add env num) k;
                            Some (if r \<noteq> 0
                                  then (r, os_do (class_destroy env cls) (os_do (unregister_chrdev_region env num)
                                             (os_do (device_destroy env cls num) (mutex_unlock d k))))
                                  else (0, mutex_unlock d (upd_dev d
                                    (\<lambda>c. c\<lparr>cm_tmp_mem := tmp, cm_phys_mem_size := phys_size,
                                          cm_phys_mem_ofst := phys_ofst, cm_is_dev_init := True\<rparr>) k)))
                          })"

definition ipa3_nat_ipv6ct_destroy_device ::
    "('w, 'e) nat_kernel_env_scheme \<Rightarrow> nat_device \<Rightarrow> 'w ipa3_context \<Rightarrow> 'w ipa3_context option" where
  "ipa3_nat_ipv6ct_destroy_device env d k =
     do {
       k \<leftarrow> mutex_lock d k;
       let k = (case cm_tmp_mem (the_dev d k) of
                  None \<Rightarrow> k
                | Some tm \<Rightarrow>
                    upd_dev d (\<lambda>c. c\<lparr>cm_tmp_mem := None\<rparr>)
                      (if nm_is_tmp_mem_allocated (k_nat_mem k)
                       then upd_nm (\<lambda>nm. nm\<lparr>nm_is_tmp_mem_allocated := False\<rparr>)
                              (os_do (k_free env) (os_do
                                (dma_free_coherent env IPA_NAT_IPV6CT_TEMP_MEM_SIZE (tm_vaddr tm) (tm_dma_handle tm)) k))
                       else k));
       let c = the_dev d k;
       let k = os_do (device_destroy env (cm_class c) (cm_dev_num c)) k;
       let k = os_do (unregister_chrdev_region env (cm_dev_num c)) k;
       let k = os_do (class_destroy env (cm_class c)) k;
       Some (mutex_unlock d (upd_dev d (\<lambda>c. c\<lparr>cm_is_dev_init := False\<rparr>) k))
     }"

definition ipa3_nat_ipv6ct_init_devices ::
    "('w, 'e) nat_kernel_env_scheme \<Rightarrow> 'w ipa3_context \<Rightarrow> (int \<times> 'w ipa3_context) option" where
  "ipa3_nat_ipv6ct_init_devices env k =
     (let (tmp, k) = ipa3_nat_ipv6ct_allocate_tmp_memory env k
      in case tmp of None \<Rightarrow> Some (- ENOMEM, k)
       | Some tm \<Rightarrow>
         do {
           let fail_init_nat_dev = (\<lambda>k.
             (- ENODEV,
              if nm_is_tmp_mem_allocated (k_nat_mem k)
              then upd_nm (\<lambda>nm. nm\<lparr>nm_is_tmp_mem_allocated := False\<rparr>)
                     (os_do (k_free env) (os_do
                       (dma_free_coherent env IPA_NAT_IPV6CT_TEMP_MEM_SIZE (tm_vaddr tm) (tm_dma_handle tm)) k))
              else k));
           let k = upd_nm (\<lambda>nm. nm\<lparr>nm_is_tmp_mem_allocated := True\<rparr>) k;
           (r, k) \<leftarrow> ipa3_nat_ipv6ct_init_device env Nat_Dev IPA_NAT_DEV_NAME (IPA_NAT_PHYS_MEM_SIZE k)
                       (IPA_NAT_PHYS_MEM_OFFSET k) tmp k;
           if r \<noteq> 0 then Some (fail_init_nat_dev k)
           else if k_hw_type k < IPA_HW_v4_0 then Some (0, k)
           else do {
             (r, k) \<leftarrow> ipa3_nat_ipv6ct_init_device env Ipv6ct_Dev IPA_IPV6CT_DEV_NAME IPA_IPV6CT_PHYS_MEM_SIZE
                         IPA_IPV6CT_PHYS_MEM_OFFSET tmp k;
             if r \<noteq> 0 then do { k \<leftarrow> ipa3_nat_ipv6ct_destroy_device env Nat_Dev k; Some (fail_init_nat_dev k) }
             else Some (0, k)
           }
         })"

definition ipa3_nat_ipv6ct_destroy_devices ::
    "('w, 'e) nat_kernel_env_scheme \<Rightarrow> 'w ipa3_context \<Rightarrow> 'w ipa3_context option" where
  "ipa3_nat_ipv6ct_destroy_devices env k =
     do {
       k \<leftarrow> ipa3_nat_ipv6ct_destroy_device env Nat_Dev k;
       if IPA_HW_v4_0 \<le> k_hw_type k then ipa3_nat_ipv6ct_destroy_device env Ipv6ct_Dev k else Some k
     }"

subsection \<open>Allocating table memory\<close>

definition IPA_KERNEL_TABLE_MAX_ENTRIES :: nat where "IPA_KERNEL_TABLE_MAX_ENTRIES = 8192"

definition MAX_ALLOC_NAT_SIZE :: "nat \<Rightarrow> nat" where "MAX_ALLOC_NAT_SIZE sz = IPA_KERNEL_TABLE_MAX_ENTRIES * sz"

text \<open>The physical address of the table in SRAM is a sum of 32-bit values.\<close>

definition sram_phys_addr :: "('w, 'e) nat_kernel_env_scheme \<Rightarrow> 'w ipa3_context \<Rightarrow> u32" where
  "sram_phys_addr env k =
     k_wrapper_base k + k_reg_base_ofst k + sram_direct_access_ofst env + IPA_NAT_PHYS_MEM_OFFSET k"

definition allocate_in_sram ::
    "('w, 'e) nat_kernel_env_scheme \<Rightarrow> u64 \<Rightarrow> 'w ipa3_context \<Rightarrow> int \<times> 'w ipa3_context" where
  "allocate_in_sram env alloc_size k =
     (if nm_sram_in_use (k_nat_mem k) then (- EPERM, k)
      else
        let k = upd_mld IPA_NAT_MEM_IN_SRAM
                  (\<lambda>m. m\<lparr>ml_table_alloc_size := alloc_size, ml_phys_addr := ucast (sram_phys_addr env k)\<rparr>) k;
            (io, k) = os (ioremap env (ml_phys_addr (the_mld IPA_NAT_MEM_IN_SRAM k)) (IPA_NAT_PHYS_MEM_SIZE k)) k;
            k = upd_mld IPA_NAT_MEM_IN_SRAM (\<lambda>m. m\<lparr>ml_io_vaddr := io\<rparr>) k
        in if io = 0 then (- ENOMEM, k)
           else (0, upd_nm (\<lambda>nm. nm\<lparr>nm_sram_in_use := True, nm_last_alloc_loc := IPA_NAT_MEM_IN_SRAM\<rparr>)
                      (upd_mld IPA_NAT_MEM_IN_SRAM (\<lambda>m. m\<lparr>ml_vaddr := io\<rparr>) k)))"

definition allocate_in_ddr ::
    "('w, 'e) nat_kernel_env_scheme \<Rightarrow> u64 \<Rightarrow> 'w ipa3_context \<Rightarrow> int \<times> 'w ipa3_context" where
  "allocate_in_ddr env alloc_size k =
     (if nm_ddr_in_use (k_nat_mem k) then (- EPERM, k)
      else
        let k = upd_mld IPA_NAT_MEM_IN_DDR (\<lambda>m. m\<lparr>ml_table_alloc_size := alloc_size\<rparr>) k;
            ((va, dh), k) = os (dma_alloc_coherent env alloc_size) k;
            k = upd_mld IPA_NAT_MEM_IN_DDR (\<lambda>m. m\<lparr>ml_vaddr := va, ml_dma_handle := dh\<rparr>) k
        in if va = 0 then (- ENOMEM, k)
           else (0, upd_nm (\<lambda>nm. nm\<lparr>nm_ddr_in_use := True, nm_last_alloc_loc := IPA_NAT_MEM_IN_DDR\<rparr>) k))"

definition allocate_ipv6ct ::
    "('w, 'e) nat_kernel_env_scheme \<Rightarrow> nat_device \<Rightarrow> u64 \<Rightarrow> 'w ipa3_context \<Rightarrow> int \<times> 'w ipa3_context" where
  "allocate_ipv6ct env d alloc_size k =
     (let k = upd_dev d (\<lambda>c. c\<lparr>cm_table_alloc_size := alloc_size\<rparr>) k;
          ((va, dh), k) = os (dma_alloc_coherent env alloc_size) k;
          k = upd_dev d (\<lambda>c. c\<lparr>cm_vaddr := va, cm_dma_handle := dh\<rparr>) k
      in (if va = 0 then - ENOMEM else 0, k))"

definition ipa3_nat_ipv6ct_allocate_mem ::
    "('w, 'e) nat_kernel_env_scheme \<Rightarrow> nat_device \<Rightarrow> u64 \<Rightarrow> ipahal_nat_type \<Rightarrow> 'w ipa3_context
     \<Rightarrow> (int \<times> 'w ipa3_context) option" where
  "ipa3_nat_ipv6ct_allocate_mem env d alloc_size nat_type k =
     (let c = the_dev d k
      in if alloc_size = 0 then Some (- EPERM, k)
         else if \<not> cm_is_dev_init c then Some (- EPERM, k)
         else if cm_is_nat_mem c \<and> nat_type \<noteq> IPAHAL_NAT_IPV4 \<or> cm_is_ipv6ct_mem c \<and> nat_type \<noteq> IPAHAL_NAT_IPV6CT
         then Some (- EPERM, k)
         else do {
           (_, nat_entry_size) \<leftarrow> ipahal_nat_entry_size (k_hal k) nat_type;
           Some (if MAX_ALLOC_NAT_SIZE nat_entry_size < unat alloc_size then (- EPERM, k)
                 else if nat_type = IPAHAL_NAT_IPV4
                 then if k_sram_compatible k \<and> unat alloc_size \<le> unat (IPA_NAT_PHYS_MEM_SIZE k)
                      then allocate_in_sram env alloc_size k else allocate_in_ddr env alloc_size k
                 else if nat_type = IPAHAL_NAT_IPV6CT then allocate_ipv6ct env d alloc_size k
                 else (0, k))
         })"

definition ipa3_get_max_pdn :: "'w ipa3_context \<Rightarrow> nat option" where
  "ipa3_get_max_pdn k =
     do {
       (_, pdn_entry_size) \<leftarrow> ipahal_nat_entry_size (k_hal k) IPAHAL_NAT_IPV4_PDN;
       Some (unat (k_pdn_config_size k) div pdn_entry_size)
     }"

text \<open>The clean-up behind the label \<open>fail_alloc_pdn\<close>.\<close>

definition fail_alloc_pdn :: "('w, 'e) nat_kernel_env_scheme \<Rightarrow> 'w ipa3_context \<Rightarrow> 'w ipa3_context" where
  "fail_alloc_pdn env k =
     (let loc = nm_last_alloc_loc (k_nat_mem k); m = the_mld loc k;
          k = (if loc = IPA_NAT_MEM_IN_DDR \<and> ml_vaddr m \<noteq> 0
               then upd_mld loc (\<lambda>m. m\<lparr>ml_vaddr := 0\<rparr>)
                      (os_do (dma_free_coherent env (ml_table_alloc_size m) (ml_vaddr m) (ml_dma_handle m)) k)
               else k)
      in if loc = IPA_NAT_MEM_IN_SRAM \<and> ml_io_vaddr m \<noteq> 0
         then upd_mld loc (\<lambda>m. m\<lparr>ml_io_vaddr := 0, ml_vaddr := 0\<rparr>) (os_do (iounmap env (ml_io_vaddr m)) k)
         else k)"

definition ipa3_allocate_nat_table ::
    "('w, 'e) nat_kernel_env_scheme \<Rightarrow> u64 \<Rightarrow> 'w ipa3_context \<Rightarrow> (int \<times> 'w ipa3_context) option" where
  "ipa3_allocate_nat_table env alloc_size =
     with_lock Nat_Dev (\<lambda>k. do {
       (result, k) \<leftarrow> ipa3_nat_ipv6ct_allocate_mem env Nat_Dev alloc_size IPAHAL_NAT_IPV4 k;
       if result \<noteq> 0 then Some (result, k)
       else if IPA_HW_v4_0 \<le> k_hw_type k \<and> mb_base (nm_pdn_mem (k_nat_mem k)) = 0 then do {
         (_, pdn_entry_size) \<leftarrow> ipahal_nat_entry_size (k_hal k) IPAHAL_NAT_IPV4_PDN;
         max_pdn \<leftarrow> ipa3_get_max_pdn k;
         let sz = (of_nat (pdn_entry_size * max_pdn) :: u32);
         let k = upd_nm (\<lambda>nm. nm\<lparr>nm_pdn_mem := (nm_pdn_mem nm)\<lparr>mb_size := sz\<rparr>\<rparr>) k;
         if k_pdn_config_size k < sz then Some (- ENOMEM, fail_alloc_pdn env k)
         else
           let ((va, ph), k) = os (dma_alloc_coherent env (ucast sz)) k;
               k = upd_nm (\<lambda>nm. nm\<lparr>nm_pdn_mem := (nm_pdn_mem nm)\<lparr>mb_base := va, mb_phys_base := ph,
                                                          mb_bytes := replicate (unat sz) 0\<rparr>\<rparr>) k
           in if va = 0 then Some (- ENOMEM, fail_alloc_pdn env k) else Some (0, k)
       }
       else Some (0, k)
     })"

text \<open>The offset that is returned to the client is always \<open>0\<close>; the second component is \<open>mem->offset\<close>.\<close>

definition ipa3_allocate_nat_device ::
    "('w, 'e) nat_kernel_env_scheme \<Rightarrow> u64 \<times> u64 \<Rightarrow> 'w ipa3_context \<Rightarrow> (int \<times> (u64 \<times> u64) \<times> 'w ipa3_context) option" where
  "ipa3_allocate_nat_device env mem k =
     do {
       (result, k) \<leftarrow> ipa3_allocate_nat_table env (fst mem) k;
       Some (result, if result \<noteq> 0 then mem else (fst mem, 0), k)
     }"

definition ipa3_allocate_ipv6ct_table ::
    "('w, 'e) nat_kernel_env_scheme \<Rightarrow> u64 \<Rightarrow> 'w ipa3_context \<Rightarrow> (int \<times> 'w ipa3_context) option" where
  "ipa3_allocate_ipv6ct_table env alloc_size k =
     (if k_hw_type k < IPA_HW_v4_0 then Some (- EPERM, k)
      else with_lock Ipv6ct_Dev (ipa3_nat_ipv6ct_allocate_mem env Ipv6ct_Dev alloc_size IPAHAL_NAT_IPV6CT) k)"

subsection \<open>Mapping table memory into the client\<close>

definition pgprot_noncached :: "vm_area_struct \<Rightarrow> vm_area_struct" where
  "pgprot_noncached vma = vma\<lparr>vm_noncached := True\<rparr>"

definition mmap_nat ::
    "('w, 'e) nat_kernel_env_scheme \<Rightarrow> vm_area_struct \<Rightarrow> 'w ipa3_context \<Rightarrow> int \<times> vm_area_struct \<times> 'w ipa3_context" where
  "mmap_nat env vma k =
     (let c = the_dev Nat_Dev k;
          vsize = vm_end vma - vm_start vma;
          loc = nm_last_alloc_loc (k_nat_mem k);
          m = the_mld loc k
      in if \<not> IPA_VALID_NAT_MEM_IN loc then (- EPERM, vma, k)
         else if ml_vaddr m = 0 then (- EPERM, vma, k)
         else if ml_is_mapped m then (- EINVAL, vma, k)
         else if loc = IPA_NAT_MEM_IN_SRAM \<and> (cm_phys_mem_size c = 0 \<or> vsize < ucast (cm_phys_mem_size c))
         then (- EINVAL, vma, k)
         else
           let k = upd_mld loc (\<lambda>m. m\<lparr>ml_base_address := 0\<rparr>) k;
               (r, vma, k) =
                 (if loc = IPA_NAT_MEM_IN_DDR
                  then (let (r, k) = os (dma_mmap_coherent env vma (ml_vaddr m) (ml_dma_handle m) (ml_table_alloc_size m)) k
                        in (r, vma, k))
                  else (let vma = pgprot_noncached vma;
                            (r, k) = os (vm_iomap_memory env vma (ml_phys_addr m) (cm_phys_mem_size c)) k
                        in (r, vma, k)))
           in if r \<noteq> 0 then (r, vma, k)
              else (0, vma\<lparr>vm_ops_set := True\<rparr>,
                    upd_mld loc (\<lambda>m. m\<lparr>ml_base_address := ml_vaddr m, ml_is_mapped := True\<rparr>) k))"

definition mmap_ipv6ct ::
    "('w, 'e) nat_kernel_env_scheme \<Rightarrow> nat_device \<Rightarrow> vm_area_struct \<Rightarrow> 'w ipa3_context
     \<Rightarrow> int \<times> vm_area_struct \<times> 'w ipa3_context" where
  "mmap_ipv6ct env d vma k =
     (let c = the_dev d k
      in if cm_vaddr c = 0 then (- EPERM, vma, k)
         else if cm_is_mapped c then (- EINVAL, vma, k)
         else
           let k = upd_dev d (\<lambda>c. c\<lparr>cm_base_address := 0\<rparr>) k;
               (r, k) = os (dma_mmap_coherent env vma (cm_vaddr c) (cm_dma_handle c) (cm_table_alloc_size c)) k
           in if r \<noteq> 0 then (r, vma, k)
              else (0, vma\<lparr>vm_ops_set := True\<rparr>,
                    upd_dev d (\<lambda>c. c\<lparr>cm_base_address := cm_vaddr c, cm_is_mapped := True\<rparr>) k))"

text \<open>\<open>d\<close> is the device \<open>ipa3_nat_ipv6ct_open\<close> stored in the open file.\<close>

definition ipa3_nat_ipv6ct_mmap ::
    "('w, 'e) nat_kernel_env_scheme \<Rightarrow> nat_device \<Rightarrow> vm_area_struct \<Rightarrow> 'w ipa3_context
     \<Rightarrow> (int \<times> vm_area_struct \<times> 'w ipa3_context) option" where
  "ipa3_nat_ipv6ct_mmap env d vma k =
     (if \<not> cm_is_dev_init (the_dev d k) then Some (- EPERM, vma, k)
      else do {
        k \<leftarrow> mutex_lock d k;
        let vma = (if smmu_cb_dev env \<and> (\<not> smmu_cb_valid env \<or> \<not> smmu_cb_coherent env)
                   then pgprot_noncached vma else vma);
        let (r, vma, k) = (if cm_is_nat_mem (the_dev d k) then mmap_nat env vma k else mmap_ipv6ct env d vma k);
        Some (r, vma, mutex_unlock d k)
      })"

end
