(* ===== verification/Ipa_Nat_Cmd.thy ===== *)
theory Ipa_Nat_Cmd
  imports Ipa_Nat
begin

unbundle bit_operations_syntax

section \<open>The kernel's NAT driver: commands to the hardware\<close>

text \<open>
  The second half of \<open>ipa_nat.c\<close>: the checks of a client's table parameters, the lists of immediate commands
  posted for the initialisation of a table, a DMA request, a change of the PDN configuration and a deletion, and
  the state each leaves. The structures of a request are those of \<open>msm_ipa.h\<close> that the library fills.
\<close>

subsection \<open>Lists of immediate commands\<close>

text \<open>
  A sender fills the arrays \<open>cmd_pyld\<close> and \<open>desc\<close> of a fixed length; the pair of them up to \<open>num_cmd\<close> is the
  list of payloads. A write behind the end of the arrays is \<open>None\<close>. The result is the code, the payloads
  constructed so far, which the caller destroys on every path, and the state.
\<close>

type_synonym 'w pylds = "int \<times> ipahal_imm_cmd_pyld list \<times> 'w ipa3_context"

definition ipa3_init_imm_cmd_desc :: "ipahal_imm_cmd_pyld \<Rightarrow> ipa3_desc" where
  "ipa3_init_imm_cmd_desc p =
     \<lparr>de_type = IPA_IMM_CMD_DESC, de_opcode = py_opcode p, de_len = py_len p, de_pyld = py_data p\<rparr>"

definition construct_cmd ::
    "('w, 'e) nat_kernel_env_scheme \<Rightarrow> nat \<Rightarrow> ipahal_imm_cmd_name \<Rightarrow> imm_params \<Rightarrow> int
     \<Rightarrow> ipahal_imm_cmd_pyld list \<Rightarrow> 'w ipa3_context \<Rightarrow> 'w pylds option" where
  "construct_cmd env cap cmd prm err ps k =
     (if cap \<le> length ps then None
      else do {
        (p, w) \<leftarrow> ipahal_construct_imm_cmd env (k_hal k) cmd prm (k_world k);
        let k = k\<lparr>k_world := w\<rparr>;
        Some (case p of None \<Rightarrow> (err, ps, k) | Some p \<Rightarrow> (0, ps @ [p], k))
      })"

definition construct_nop ::
    "('w, 'e) nat_kernel_env_scheme \<Rightarrow> nat \<Rightarrow> ipahal_imm_cmd_pyld list \<Rightarrow> 'w ipa3_context \<Rightarrow> 'w pylds option" where
  "construct_nop env cap ps k =
     (if cap \<le> length ps then None
      else do {
        (p, w) \<leftarrow> ipahal_construct_nop_imm_cmd env (k_hal k) False IPAHAL_HPS_CLEAR (k_world k);
        let k = k\<lparr>k_world := w\<rparr>;
        Some (case p of None \<Rightarrow> (- ENOMEM, ps, k) | Some p \<Rightarrow> (0, ps @ [p], k))
      })"

definition coal_enabled :: "('w, 'e) nat_kernel_env_scheme \<Rightarrow> 'w ipa3_context \<Rightarrow> bool" where
  "coal_enabled env k \<longleftrightarrow> wan_coal_ep env \<noteq> - 1 \<and> \<not> k_ulso_wa k"

text \<open>The command that closes the coalescing frame, where coalescing is enabled.\<close>

definition coal_close_params :: "('w, 'e) nat_kernel_env_scheme \<Rightarrow> 'w ipa3_context \<Rightarrow> ipahal_imm_cmd_register_write" where
  "coal_close_params env k =
     (let i = wan_coal_ep env; (val, msk) = aggr_force_close_valmask env i
      in \<lparr>rw_offset = (if k_hw_type k < IPA_HW_v5_0 then aggr_force_close_ofst env else aggr_force_close_n_ofst env i),
          rw_value = val, rw_value_mask = msk, rw_skip_pipeline_clear = False,
          rw_pipeline_clear_options = IPAHAL_HPS_CLEAR\<rparr>)"

definition construct_coal_close ::
    "('w, 'e) nat_kernel_env_scheme \<Rightarrow> nat \<Rightarrow> ipahal_imm_cmd_pyld list \<Rightarrow> 'w ipa3_context \<Rightarrow> 'w pylds option" where
  "construct_coal_close env cap ps k =
     (if coal_enabled env k
      then construct_cmd env cap IPA_IMM_CMD_REGISTER_WRITE (Prm_register_write (coal_close_params env k)) (- ENOMEM) ps k
      else Some (0, ps, k))"

text \<open>\<open>goto destroy_imm_cmd\<close> on a code other than \<open>0\<close>.\<close>

definition on_ok :: "'w pylds option \<Rightarrow> (ipahal_imm_cmd_pyld list \<Rightarrow> 'w ipa3_context \<Rightarrow> 'w pylds option) \<Rightarrow> 'w pylds option" where
  "on_ok m f = do { (r, ps, k) \<leftarrow> m; if r \<noteq> 0 then Some (r, ps, k) else f ps k }"

definition send_pylds ::
    "('w, 'e) nat_kernel_env_scheme \<Rightarrow> ipahal_imm_cmd_pyld list \<Rightarrow> 'w ipa3_context \<Rightarrow> 'w pylds option" where
  "send_pylds env ps k =
     (let (r, k) = os (ipa3_send_cmd env (map ipa3_init_imm_cmd_desc ps)) k in Some (r, ps, k))"

definition destroy_imm_cmd ::
    "('w, 'e) nat_kernel_env_scheme \<Rightarrow> 'w pylds option \<Rightarrow> (int \<times> 'w ipa3_context) option" where
  "destroy_imm_cmd env m =
     do { (r, ps, k) \<leftarrow> m; Some (r, fold (\<lambda>_. os_do (ipahal_destroy_imm_cmd env)) ps k) }"

subsection \<open>Checking the parameters of a table\<close>

definition IPA_NAT_MAX_NUM_OF_INIT_CMD_DESC :: nat where "IPA_NAT_MAX_NUM_OF_INIT_CMD_DESC = 4"
definition IPA_IPV6CT_MAX_NUM_OF_INIT_CMD_DESC :: nat where "IPA_IPV6CT_MAX_NUM_OF_INIT_CMD_DESC = 3"
definition IPA_MAX_NUM_OF_TABLE_DMA_CMD_DESC :: nat where "IPA_MAX_NUM_OF_TABLE_DMA_CMD_DESC = 5"

lemmas desc_limits = IPA_NAT_MAX_NUM_OF_INIT_CMD_DESC_def IPA_IPV6CT_MAX_NUM_OF_INIT_CMD_DESC_def
  IPA_MAX_NUM_OF_TABLE_DMA_CMD_DESC_def

definition IPA_VALID_TBL_INDEX :: "u8 \<Rightarrow> bool" where "IPA_VALID_TBL_INDEX ti \<longleftrightarrow> ti = 0"

definition UINT_MAX :: u64 where "UINT_MAX = 0xFFFFFFFF"

definition ipa3_nat_ipv6ct_check_table_params ::
    "nat_device \<Rightarrow> ipa3_nat_mem_in \<Rightarrow> u32 \<Rightarrow> u16 \<Rightarrow> ipahal_nat_type \<Rightarrow> 'w ipa3_context \<Rightarrow> int option" where
  "ipa3_nat_ipv6ct_check_table_params d loc ofst entries_num nat_type k =
     (let c = the_dev d k; m = the_mld loc k; ofst = (ucast ofst :: u64);
          orig_alloc_size = (if cm_is_ipv6ct_mem c then cm_table_alloc_size c else ml_table_alloc_size m);
          overflow = (if cm_is_ipv6ct_mem c then UINT_MAX - cm_dma_handle c < ofst
                      else loc = IPA_NAT_MEM_IN_DDR \<and> UINT_MAX - ml_dma_handle m < ofst)
      in if overflow then Some (- EPERM)
         else do {
           (ret, esz) \<leftarrow> ipahal_nat_entry_size (k_hal k) nat_type;
           if ret \<noteq> 0 then Some ret
           else
             let table_size = (of_nat esz * ucast entries_num :: u64)
             in if UINT_MAX - table_size < ofst then Some (- EPERM)
                else if orig_alloc_size < ofst + table_size then Some (- EPERM)
                else Some 0
         })"

text \<open>The checks of the areas of a table, made one after the other up to the first that fails.\<close>

fun first_error :: "int option list \<Rightarrow> int option" where
  "first_error [] = Some 0"
| "first_error (c # cs) = do { r \<leftarrow> c; if r \<noteq> 0 then Some r else first_error cs }"

subsection \<open>Building the initialisation commands\<close>

definition ipa3_nat_ipv6ct_create_init_cmd ::
    "bool \<Rightarrow> u64 \<Rightarrow> u8 \<Rightarrow> u32 \<Rightarrow> u32 \<Rightarrow> u16 \<Rightarrow> u16 \<Rightarrow> ipahal_imm_cmd_nat_ipv6ct_init_common" where
  "ipa3_nat_ipv6ct_create_init_cmd is_shared baddr tbl_index base_ofst expn_ofst n_base n_expn =
     \<lparr>tc_base_table_addr = baddr + ucast base_ofst, tc_expansion_table_addr = baddr + ucast expn_ofst,
      tc_base_table_addr_shared = is_shared, tc_expansion_table_addr_shared = is_shared,
      tc_size_base_table = n_base, tc_size_expansion_table = n_expn, tc_table_index = tbl_index\<rparr>"

definition chk_sram_offset_alignment :: "u64 \<Rightarrow> u32 \<Rightarrow> bool" where
  "chk_sram_offset_alignment addr msk \<longleftrightarrow> addr AND ucast msk = 0"

definition ipa3_nat_ipv6ct_init_device_structure ::
    "nat_device \<Rightarrow> ipa3_nat_mem_in \<Rightarrow> u32 \<Rightarrow> u32 \<Rightarrow> u16 \<Rightarrow> u16 \<Rightarrow> u32 \<Rightarrow> u32 \<Rightarrow> bool
     \<Rightarrow> 'w ipa3_context \<Rightarrow> int \<times> 'w ipa3_context" where
  "ipa3_nat_ipv6ct_init_device_structure d loc base_ofst expn_ofst n_base n_expn ix_ofst ix_expn_ofst focus k =
     (if cm_is_ipv6ct_mem (the_dev d k) then
        (0, upd_dev d (\<lambda>c. c\<lparr>cm_base_table_addr := cm_base_address c + ucast base_ofst,
                            cm_expansion_table_addr := cm_base_address c + ucast expn_ofst,
                            cm_table_entries := ucast n_base, cm_expn_table_entries := ucast n_expn\<rparr>) k)
      else if cm_is_nat_mem (the_dev d k) then
        let k = upd_nm (\<lambda>nm. nm\<lparr>nm_active_table := loc\<rparr>) k;
            k = upd_mld loc (\<lambda>m. m\<lparr>ml_base_table_addr := ml_base_address m + ucast base_ofst,
                                   ml_expansion_table_addr := ml_base_address m + ucast expn_ofst,
                                   ml_table_entries := ucast n_base, ml_expn_table_entries := ucast n_expn,
                                   ml_index_table_addr := ml_base_address m + ucast ix_ofst,
                                   ml_index_table_expansion_addr := ml_base_address m + ucast ix_expn_ofst\<rparr>) k;
            m = the_mld loc k
        in if loc = IPA_NAT_MEM_IN_DDR
           then (0, if focus then upd_nm (\<lambda>nm. nm\<lparr>nm_switch2ddr_cnt := nm_switch2ddr_cnt nm + 1\<rparr>) k else k)
           else if \<not> chk_sram_offset_alignment (ml_base_table_addr m) 31 \<or>
                   \<not> chk_sram_offset_alignment (ml_expansion_table_addr m) 31 \<or>
                   \<not> chk_sram_offset_alignment (ml_index_table_addr m) 3 \<or>
                   \<not> chk_sram_offset_alignment (ml_index_table_expansion_addr m) 3
           then (- ENODEV, k)
           else (0, if focus then upd_nm (\<lambda>nm. nm\<lparr>nm_switch2sram_cnt := nm_switch2sram_cnt nm + 1\<rparr>) k else k)
      else (0, k))"

definition ipa3_nat_create_init_cmd ::
    "ipa_ioc_v4_nat_init \<Rightarrow> bool \<Rightarrow> u64 \<Rightarrow> 'w ipa3_context \<Rightarrow> ipahal_imm_cmd_ip_v4_nat_init" where
  "ipa3_nat_create_init_cmd init is_shared baddr k =
     \<lparr>n4_table_init = ipa3_nat_ipv6ct_create_init_cmd is_shared baddr (i_tbl_index init) (i_ipv4_rules_offset init)
        (i_expn_rules_offset init) (i_table_entries init) (i_expn_table_entries init),
      n4_index_table_addr = baddr + ucast (i_index_offset init),
      n4_index_table_expansion_addr = baddr + ucast (i_index_expn_offset init),
      n4_index_table_addr_shared = is_shared, n4_index_table_expansion_addr_shared = is_shared,
      n4_public_addr_info = (if IPA_HW_v4_0 \<le> k_hw_type k then k_pdn_config_ofst k else i_ip_addr init)\<rparr>"

text \<open>\<open>memset\<close> of the first \<open>n\<close> bytes.\<close>

definition ipa3_nat_create_modify_pdn_cmd ::
    "bool \<Rightarrow> 'w ipa3_context \<Rightarrow> (int \<times> ipahal_imm_cmd_dma_shared_mem \<times> 'w ipa3_context) option" where
  "ipa3_nat_create_modify_pdn_cmd zero_mem k =
     do {
       (_, pdn_entry_size) \<leftarrow> ipahal_nat_entry_size (k_hal k) IPAHAL_NAT_IPV4_PDN;
       max_pdn \<leftarrow> ipa3_get_max_pdn k;
       let mem_size = pdn_entry_size * max_pdn;
       let pdn = nm_pdn_mem (k_nat_mem k);
       let zero = \<lparr>dm_system_addr = 0, dm_size = 0, dm_local_addr = 0, dm_clear_after_read = False,
                   dm_is_read = False, dm_skip_pipeline_clear = False, dm_pipeline_clear_options = IPAHAL_HPS_CLEAR\<rparr>;
       if mb_base pdn = 0 then Some (- EFAULT, zero, k)
       else do {
         bytes \<leftarrow> (if zero_mem then write_bytes (mb_bytes pdn) 0 (replicate mem_size 0) else Some (mb_bytes pdn));
         let k = upd_nm (\<lambda>nm. nm\<lparr>nm_pdn_mem := pdn\<lparr>mb_bytes := bytes\<rparr>\<rparr>) k;
         Some (0, zero\<lparr>dm_size := of_nat mem_size, dm_system_addr := mb_phys_base pdn,
                       dm_local_addr := ucast (k_smem_restricted_bytes k) + k_pdn_config_ofst k\<rparr>, k)
       }
     }"

definition ipa3_nat_send_init_cmd ::
    "('w, 'e) nat_kernel_env_scheme \<Rightarrow> ipahal_imm_cmd_ip_v4_nat_init \<Rightarrow> bool \<Rightarrow> 'w ipa3_context
     \<Rightarrow> (int \<times> 'w ipa3_context) option" where
  "ipa3_nat_send_init_cmd env cmd zero_pdn_table k =
     (let cap = IPA_NAT_MAX_NUM_OF_INIT_CMD_DESC
      in destroy_imm_cmd env
           (on_ok (construct_coal_close env cap [] k) (\<lambda>ps k.
            on_ok (construct_nop env cap ps k) (\<lambda>ps k.
            on_ok (construct_cmd env cap IPA_IMM_CMD_IP_V4_NAT_INIT (Prm_ip_v4_nat_init cmd) (- EPERM) ps k) (\<lambda>ps k.
            on_ok (if k_hw_type k < IPA_HW_v4_0 then Some (0, ps, k)
                   else if cap \<le> length ps then Some (- ENOBUFS, ps, k)
                   else do {
                     (result, mem_cmd, k) \<leftarrow> ipa3_nat_create_modify_pdn_cmd zero_pdn_table k;
                     if result \<noteq> 0 then Some (result, ps, k)
                     else construct_cmd env cap IPA_IMM_CMD_DMA_SHARED_MEM (Prm_dma_shared_mem mem_cmd) (- ENOMEM) ps k
                   }) (send_pylds env))))))"

definition ipa3_ipv6ct_send_init_cmd ::
    "('w, 'e) nat_kernel_env_scheme \<Rightarrow> ipahal_imm_cmd_ip_v6_ct_init \<Rightarrow> 'w ipa3_context
     \<Rightarrow> (int \<times> 'w ipa3_context) option" where
  "ipa3_ipv6ct_send_init_cmd env cmd k =
     (let cap = IPA_IPV6CT_MAX_NUM_OF_INIT_CMD_DESC
      in destroy_imm_cmd env
           (on_ok (construct_coal_close env cap [] k) (\<lambda>ps k.
            on_ok (construct_nop env cap ps k) (\<lambda>ps k.
            on_ok (if cap \<le> length ps then Some (- ENOBUFS, ps, k)
                   else construct_cmd env cap IPA_IMM_CMD_IP_V6_CT_INIT (Prm_ip_v6_ct_init cmd) (- EPERM) ps k)
              (send_pylds env)))))"

subsection \<open>Initialising a table\<close>

definition check_nat_init :: "ipa3_nat_mem_in \<Rightarrow> ipa_ioc_v4_nat_init \<Rightarrow> 'w ipa3_context \<Rightarrow> int option" where
  "check_nat_init loc init k =
     first_error
       [ipa3_nat_ipv6ct_check_table_params Nat_Dev loc (i_ipv4_rules_offset init) (i_table_entries init + 1) IPAHAL_NAT_IPV4 k,
        ipa3_nat_ipv6ct_check_table_params Nat_Dev loc (i_expn_rules_offset init) (i_expn_table_entries init) IPAHAL_NAT_IPV4 k,
        ipa3_nat_ipv6ct_check_table_params Nat_Dev loc (i_index_offset init) (i_table_entries init + 1) IPAHAL_NAT_IPV4_INDEX k,
        ipa3_nat_ipv6ct_check_table_params Nat_Dev loc (i_index_expn_offset init) (i_expn_table_entries init)
          IPAHAL_NAT_IPV4_INDEX k]"

text \<open>The first PDN entry holds the public address, unless the table only becomes active again.\<close>

definition store_public_ip :: "ipa_ioc_v4_nat_init \<Rightarrow> 'w ipa3_context \<Rightarrow> (int \<times> 'w ipa3_context) option" where
  "store_public_ip init k =
     (if IPA_HW_v4_0 \<le> k_hw_type k \<and> mb_base (nm_pdn_mem (k_nat_mem k)) \<noteq> 0 \<and> \<not> i_focus_change init
      then do {
        (r, bytes) \<leftarrow> ipahal_nat_construct_entry (k_hal k) IPAHAL_NAT_IPV4_PDN
                        \<lparr>pf_public_ip = i_ip_addr init, pf_src_metadata = 0, pf_dst_metadata = 0\<rparr>
                        (mb_bytes (nm_pdn_mem (k_nat_mem k))) 0;
        Some (r, upd_nm (\<lambda>nm. nm\<lparr>nm_pdn_mem := (nm_pdn_mem nm)\<lparr>mb_bytes := bytes\<rparr>\<rparr>) k)
      }
      else Some (0, k))"

text \<open>No lock is taken.\<close>

definition ipa3_nat_init_cmd ::
    "('w, 'e) nat_kernel_env_scheme \<Rightarrow> ipa_ioc_v4_nat_init \<Rightarrow> 'w ipa3_context \<Rightarrow> (int \<times> 'w ipa3_context) option" where
  "ipa3_nat_init_cmd env init k =
     (let init = (if k_sram_compatible k then init else init\<lparr>i_mem_type := 0, i_focus_change := False\<rparr>);
          loc = nmi_of (ucast (i_mem_type init));
          m = the_mld loc k
      in if \<not> IPA_VALID_TBL_INDEX (i_tbl_index init) then Some (- EPERM, k)
         else if i_table_entries init = 0 \<or> i_table_entries init = 0xFFFF then Some (- EPERM, k)
         else if \<not> IPA_VALID_NAT_MEM_IN loc then Some (- EPERM, k)
         else if \<not> ml_is_mapped m then Some (- EPERM, k)
         else do {
           r \<leftarrow> check_nat_init loc init k;
           if r \<noteq> 0 then Some (r, k)
           else do {
             let cmd = (if loc = IPA_NAT_MEM_IN_DDR
                        then ipa3_nat_create_init_cmd init False (ml_dma_handle m) k
                        else ipa3_nat_create_init_cmd init True (ucast (k_nat_tbl_ofst k)) k);
             (r, k) \<leftarrow> store_public_ip init k;
             if r \<noteq> 0 then Some (r, k)
             else do {
               (r, k) \<leftarrow> ipa3_nat_send_init_cmd env cmd False k;
               if r \<noteq> 0 then Some (r, k)
               else
                 let (r, k) = ipa3_nat_ipv6ct_init_device_structure Nat_Dev loc (i_ipv4_rules_offset init)
                                (i_expn_rules_offset init) (i_table_entries init) (i_expn_table_entries init)
                                (i_index_offset init) (i_index_expn_offset init) (i_focus_change init) k
                 in if r \<noteq> 0 then Some (r, k)
                    else Some (0, upd_dev Nat_Dev (\<lambda>c. c\<lparr>cm_is_hw_init := True\<rparr>)
                                    (upd_nm (\<lambda>nm. nm\<lparr>nm_public_ip_addr := i_ip_addr init\<rparr>) k))
             }
           }
         })"

definition ipa3_ipv6ct_init_cmd ::
    "('w, 'e) nat_kernel_env_scheme \<Rightarrow> ipa_ioc_ipv6ct_init \<Rightarrow> 'w ipa3_context \<Rightarrow> (int \<times> 'w ipa3_context) option" where
  "ipa3_ipv6ct_init_cmd env init k =
     (let c = the_dev Ipv6ct_Dev k
      in if k_hw_type k < IPA_HW_v4_0 then Some (- EPERM, k)
         else if \<not> IPA_VALID_TBL_INDEX (ci_tbl_index init) then Some (- EPERM, k)
         else if ci_table_entries init = 0 then Some (- EPERM, k)
         else if \<not> cm_is_mapped c then Some (- EPERM, k)
         else do {
           r \<leftarrow> first_error
             [ipa3_nat_ipv6ct_check_table_params Ipv6ct_Dev IPA_NAT_MEM_IN_DDR (ci_base_table_offset init)
                (ci_table_entries init + 1) IPAHAL_NAT_IPV6CT k,
              ipa3_nat_ipv6ct_check_table_params Ipv6ct_Dev IPA_NAT_MEM_IN_DDR (ci_expn_table_offset init)
                (ci_expn_table_entries init) IPAHAL_NAT_IPV6CT k];
           if r \<noteq> 0 then Some (r, k)
           else do {
             let cmd = \<lparr>c6_table_init = ipa3_nat_ipv6ct_create_init_cmd False (cm_dma_handle c) (ci_tbl_index init)
                          (ci_base_table_offset init) (ci_expn_table_offset init) (ci_table_entries init)
                          (ci_expn_table_entries init)\<rparr>;
             (r, k) \<leftarrow> ipa3_ipv6ct_send_init_cmd env cmd k;
             if r \<noteq> 0 then Some (r, k)
             else
               let (_, k) = ipa3_nat_ipv6ct_init_device_structure Ipv6ct_Dev IPA_NAT_MEM_IN_DDR
                              (ci_base_table_offset init) (ci_expn_table_offset init) (ci_table_entries init)
                              (ci_expn_table_entries init) 0 0 False k
               in Some (0, upd_dev Ipv6ct_Dev (\<lambda>c. c\<lparr>cm_is_hw_init := True\<rparr>) k)
           }
         })"

subsection \<open>Changing the PDN configuration\<close>

definition IPA_QMAP_TETH_BIT :: u32 where "IPA_QMAP_TETH_BIT = push_bit 30 1"

definition ipa3_nat_mdfy_pdn ::
    "('w, 'e) nat_kernel_env_scheme \<Rightarrow> ipa_ioc_nat_pdn_entry \<Rightarrow> 'w ipa3_context \<Rightarrow> (int \<times> 'w ipa3_context) option" where
  "ipa3_nat_mdfy_pdn env mdfy_pdn =
     with_lock Nat_Dev (\<lambda>k.
       let pdn = nm_pdn_mem (k_nat_mem k)
       in if k_hw_type k < IPA_HW_v4_0 then Some (- EPERM, k)
          else if mb_base pdn = 0 then Some (- EPERM, k)
          else do {
            max_pdn \<leftarrow> ipa3_get_max_pdn k;
            if int max_pdn - 1 < int (unat (pe_pdn_index mdfy_pdn)) then Some (- EPERM, k)
            else do {
              let pdn_fields = \<lparr>pf_public_ip = pe_public_ip mdfy_pdn,
                pf_src_metadata = (if k_hw_type k = IPA_HW_v4_1 then pe_src_metadata mdfy_pdn OR IPA_QMAP_TETH_BIT
                                   else pe_src_metadata mdfy_pdn),
                pf_dst_metadata = pe_dst_metadata mdfy_pdn\<rparr>;
              (r, esz) \<leftarrow> ipahal_nat_entry_size (k_hal k) IPAHAL_NAT_IPV4_PDN;
              if r \<noteq> 0 then Some (r, k)
              else do {
                (r, bytes) \<leftarrow> ipahal_nat_construct_entry (k_hal k) IPAHAL_NAT_IPV4_PDN pdn_fields (mb_bytes pdn)
                               (unat (pe_pdn_index mdfy_pdn) * esz);
                let k = upd_nm (\<lambda>nm. nm\<lparr>nm_pdn_mem := pdn\<lparr>mb_bytes := bytes\<rparr>\<rparr>) k;
                if r \<noteq> 0 then Some (r, k)
                else do {
                  (r, mem_cmd, k) \<leftarrow> ipa3_nat_create_modify_pdn_cmd False k;
                  if r \<noteq> 0 then Some (r, k)
                  else destroy_imm_cmd env
                         (on_ok (construct_cmd env 1 IPA_IMM_CMD_DMA_SHARED_MEM (Prm_dma_shared_mem mem_cmd) (- ENOMEM) [] k)
                           (send_pylds env))
                }
              }
            }
          })"

subsection \<open>DMA requests\<close>

text \<open>\<open>None\<close> inside stands for a value of \<open>base_addr\<close> outside the enumeration of tables.\<close>

definition table_num_entries :: "ipa3_nat_mem_in \<Rightarrow> u8 \<Rightarrow> 'w ipa3_context \<Rightarrow> (u32 \<times> ipahal_nat_type) option" where
  "table_num_entries loc baddr k =
     (let m = the_mld loc k; c = k_ipv6ct_mem k
      in if baddr = 0 then Some (ml_table_entries m + 1, IPAHAL_NAT_IPV4)
         else if baddr = 1 then Some (ml_expn_table_entries m, IPAHAL_NAT_IPV4)
         else if baddr = 2 then Some (ml_table_entries m + 1, IPAHAL_NAT_IPV4_INDEX)
         else if baddr = 3 then Some (ml_expn_table_entries m, IPAHAL_NAT_IPV4_INDEX)
         else if baddr = 4 then Some (cm_table_entries c + 1, IPAHAL_NAT_IPV6CT)
         else if baddr = 5 then Some (cm_expn_table_entries c, IPAHAL_NAT_IPV6CT)
         else None)"

definition ipa3_nat_ipv6ct_calculate_table_size :: "ipa3_nat_mem_in \<Rightarrow> u8 \<Rightarrow> 'w ipa3_context \<Rightarrow> u32 option" where
  "ipa3_nat_ipv6ct_calculate_table_size loc baddr k =
     (case table_num_entries loc baddr k of
        None \<Rightarrow> Some 0
      | Some (num_entries, nat_type) \<Rightarrow>
          do { (_, esz) \<leftarrow> ipahal_nat_entry_size (k_hal k) nat_type; Some (of_nat (esz * unat num_entries)) })"

definition ipa3_table_validate_table_dma_one ::
    "ipa3_nat_mem_in \<Rightarrow> ipa_ioc_nat_dma_one \<Rightarrow> 'w ipa3_context \<Rightarrow> int option" where
  "ipa3_table_validate_table_dma_one loc param k =
     (if 1 \<le> d_table_index param then Some (- EPERM)
      else if d_base_addr param < 4 \<and> \<not> cm_is_hw_init (nm_dev (k_nat_mem k)) then Some (- EPERM)
      else if d_base_addr param \<in> {4, 5} \<and> (k_hw_type k < IPA_HW_v4_0 \<or> \<not> cm_is_hw_init (k_ipv6ct_mem k))
      then Some (- EPERM)
      else if 5 < d_base_addr param then Some (- EPERM)
      else do {
        table_size \<leftarrow> ipa3_nat_ipv6ct_calculate_table_size loc (d_base_addr param) k;
        if table_size = 0 then Some (- EPERM)
        else if table_size \<le> d_offset param then Some (- EPERM)
        else Some 0
      })"

text \<open>The loop over the first \<open>n\<close> elements of the request's array.\<close>

fun validate_all :: "ipa3_nat_mem_in \<Rightarrow> nat \<Rightarrow> ipa_ioc_nat_dma_one list \<Rightarrow> 'w ipa3_context \<Rightarrow> int option" where
  "validate_all loc 0 xs k = Some 0"
| "validate_all loc (Suc n) [] k = None"
| "validate_all loc (Suc n) (x # xs) k =
     do { r \<leftarrow> ipa3_table_validate_table_dma_one loc x k; if r \<noteq> 0 then Some r else validate_all loc n xs k }"

definition dma_one_cmd :: "ipa_ioc_nat_dma_one \<Rightarrow> ipahal_imm_cmd_table_dma" where
  "dma_one_cmd x = \<lparr>td_offset = d_offset x, td_data = d_data x, td_table_index = d_table_index x, td_base_addr = d_base_addr x\<rparr>"

fun construct_dma ::
    "('w, 'e) nat_kernel_env_scheme \<Rightarrow> nat \<Rightarrow> ipahal_imm_cmd_name \<Rightarrow> ipa_ioc_nat_dma_one list
     \<Rightarrow> ipahal_imm_cmd_pyld list \<Rightarrow> 'w ipa3_context \<Rightarrow> 'w pylds option" where
  "construct_dma env cap cmd_name [] ps k = Some (0, ps, k)"
| "construct_dma env cap cmd_name (x # xs) ps k =
     on_ok (construct_cmd env cap cmd_name (Prm_table_dma (dma_one_cmd x)) (- ENOMEM) ps k)
       (construct_dma env cap cmd_name xs)"

text \<open>
  The request's array \<open>dma\<close> has the length the caller copied; the first \<open>entries\<close> elements are read.
\<close>

definition ipa3_table_dma_cmd ::
    "('w, 'e) nat_kernel_env_scheme \<Rightarrow> ipa_ioc_nat_dma_cmd \<Rightarrow> 'w ipa3_context \<Rightarrow> (int \<times> 'w ipa3_context) option" where
  "ipa3_table_dma_cmd env cmd k =
     (let mtype = (if k_sram_compatible k then mem_type cmd else 0);
          loc = nmi_of (ucast mtype);
          max_dma_table_cmds = (if wan_coal_ep env \<noteq> - 1 then IPA_MAX_NUM_OF_TABLE_DMA_CMD_DESC - 1
                                else IPA_MAX_NUM_OF_TABLE_DMA_CMD_DESC);
          n = unat (entries cmd);
          cap = IPA_MAX_NUM_OF_TABLE_DMA_CMD_DESC
      in if \<not> cm_is_dev_init (nm_dev (k_nat_mem k)) then Some (- EPERM, k)
         else if \<not> IPA_VALID_NAT_MEM_IN loc then Some (- EPERM, k)
         else if n = 0 \<or> max_dma_table_cmds - 1 < n then Some (- EPERM, k)
         else do {
           r \<leftarrow> validate_all loc n (dma cmd) k;
           if r \<noteq> 0 then Some (r, k)
           else destroy_imm_cmd env
                  (on_ok (construct_coal_close env cap [] k) (\<lambda>ps k.
                   on_ok (construct_nop env cap ps k) (\<lambda>ps k.
                   on_ok (construct_dma env cap
                            (if IPA_HW_v4_0 \<le> k_hw_type k then IPA_IMM_CMD_TABLE_DMA else IPA_IMM_CMD_NAT_DMA)
                            (take n (dma cmd)) ps k)
                     (send_pylds env))))
         })"

definition ipa3_nat_dma_cmd ::
    "('w, 'e) nat_kernel_env_scheme \<Rightarrow> ipa_ioc_nat_dma_cmd \<Rightarrow> 'w ipa3_context \<Rightarrow> (int \<times> 'w ipa3_context) option" where
  "ipa3_nat_dma_cmd = ipa3_table_dma_cmd"

subsection \<open>Deleting a table\<close>

definition free_ddr :: "('w, 'e) nat_kernel_env_scheme \<Rightarrow> 'w ipa3_context \<Rightarrow> 'w ipa3_context" where
  "free_ddr env k =
     (if nm_ddr_in_use (k_nat_mem k)
      then let m = the_mld IPA_NAT_MEM_IN_DDR k;
               k = upd_nm (\<lambda>nm. nm\<lparr>nm_ddr_in_use := False\<rparr>) k;
               k = (if ml_vaddr m \<noteq> 0
                    then os_do (dma_free_coherent env (ml_table_alloc_size m) (ml_vaddr m) (ml_dma_handle m)) k else k)
           in upd_mld IPA_NAT_MEM_IN_DDR
                (\<lambda>m. m\<lparr>ml_vaddr := 0, ml_dma_handle := 0, ml_table_alloc_size := 0, ml_table_entries := 0,
                      ml_expn_table_entries := 0, ml_base_table_addr := 0, ml_expansion_table_addr := 0,
                      ml_index_table_addr := 0, ml_index_table_expansion_addr := 0\<rparr>) k
      else k)"

definition free_sram :: "('w, 'e) nat_kernel_env_scheme \<Rightarrow> 'w ipa3_context \<Rightarrow> 'w ipa3_context" where
  "free_sram env k =
     (if nm_sram_in_use (k_nat_mem k)
      then let m = the_mld IPA_NAT_MEM_IN_SRAM k;
               k = upd_nm (\<lambda>nm. nm\<lparr>nm_sram_in_use := False\<rparr>) k;
               k = (if ml_io_vaddr m \<noteq> 0 then os_do (iounmap env (ml_io_vaddr m)) k else k)
           in upd_mld IPA_NAT_MEM_IN_SRAM
                (\<lambda>m. m\<lparr>ml_io_vaddr := 0, ml_vaddr := 0, ml_dma_handle := 0, ml_table_alloc_size := 0,
                      ml_table_entries := 0, ml_expn_table_entries := 0, ml_base_table_addr := 0,
                      ml_expansion_table_addr := 0, ml_index_table_addr := 0, ml_index_table_expansion_addr := 0\<rparr>) k
      else k)"

definition ipa3_nat_ipv6ct_free_mem ::
    "('w, 'e) nat_kernel_env_scheme \<Rightarrow> nat_device \<Rightarrow> 'w ipa3_context \<Rightarrow> 'w ipa3_context" where
  "ipa3_nat_ipv6ct_free_mem env d k =
     (let c = the_dev d k
      in if cm_is_ipv6ct_mem c then
           let k = (if cm_vaddr c \<noteq> 0
                    then os_do (dma_free_coherent env (cm_table_alloc_size c) (cm_vaddr c) (cm_dma_handle c)) k else k)
           in upd_dev d (\<lambda>c. c\<lparr>cm_vaddr := 0, cm_dma_handle := 0, cm_table_alloc_size := 0, cm_base_table_addr := 0,
                              cm_expansion_table_addr := 0, cm_table_entries := 0, cm_expn_table_entries := 0,
                              cm_is_hw_init := False, cm_is_mapped := False\<rparr>) k
         else if cm_is_nat_mem c then
           upd_nm (\<lambda>nm. nm\<lparr>nm_mem_loc := (\<lambda>_. mem_loc_zero)\<rparr>)
             (upd_dev d (\<lambda>c. c\<lparr>cm_is_hw_init := False, cm_is_mapped := False\<rparr>) (free_sram env (free_ddr env k)))
         else k)"

text \<open>The structure \<open>table_init_cmd\<close> of a refused call is not read.\<close>

definition ipa3_nat_ipv6ct_create_del_table_cmd ::
    "u8 \<Rightarrow> u32 \<Rightarrow> ipa3_nat_ipv6ct_common_mem \<Rightarrow> int \<times> ipahal_imm_cmd_nat_ipv6ct_init_common" where
  "ipa3_nat_ipv6ct_create_del_table_cmd tbl_index baddr c =
     (let (mem_type_shared, baddr) =
        (case cm_tmp_mem c of None \<Rightarrow> (True, baddr) | Some tm \<Rightarrow> (False, ucast (tm_dma_handle tm)))
      in (if IPA_VALID_TBL_INDEX tbl_index then 0 else - EPERM,
          \<lparr>tc_base_table_addr = ucast baddr, tc_expansion_table_addr = ucast baddr,
           tc_base_table_addr_shared = mem_type_shared, tc_expansion_table_addr_shared = mem_type_shared,
           tc_size_base_table = 0, tc_size_expansion_table = 0, tc_table_index = tbl_index\<rparr>))"

definition ipa3_nat_send_del_table_cmd ::
    "('w, 'e) nat_kernel_env_scheme \<Rightarrow> u8 \<Rightarrow> 'w ipa3_context \<Rightarrow> (int \<times> 'w ipa3_context) option" where
  "ipa3_nat_send_del_table_cmd env tbl_index k =
     (let (r, ti) = ipa3_nat_ipv6ct_create_del_table_cmd tbl_index (IPA_NAT_PHYS_MEM_OFFSET k) (nm_dev (k_nat_mem k))
      in if r \<noteq> 0 then Some (r, k)
         else ipa3_nat_send_init_cmd env
                \<lparr>n4_table_init = ti, n4_index_table_addr = tc_base_table_addr ti,
                 n4_index_table_expansion_addr = tc_base_table_addr ti,
                 n4_index_table_addr_shared = tc_base_table_addr_shared ti,
                 n4_index_table_expansion_addr_shared = tc_base_table_addr_shared ti, n4_public_addr_info = 0\<rparr> True k)"

definition ipa3_ipv6ct_send_del_table_cmd ::
    "('w, 'e) nat_kernel_env_scheme \<Rightarrow> u8 \<Rightarrow> 'w ipa3_context \<Rightarrow> (int \<times> 'w ipa3_context) option" where
  "ipa3_ipv6ct_send_del_table_cmd env tbl_index k =
     (let (r, ti) = ipa3_nat_ipv6ct_create_del_table_cmd tbl_index IPA_IPV6CT_PHYS_MEM_OFFSET (k_ipv6ct_mem k)
      in if r \<noteq> 0 then Some (r, k) else ipa3_ipv6ct_send_init_cmd env \<lparr>c6_table_init = ti\<rparr> k)"

record ipa_ioc_nat_ipv6ct_table_del =
  dl_table_index :: u8
  dl_mem_type :: u8

definition ipa3_del_nat_table ::
    "('w, 'e) nat_kernel_env_scheme \<Rightarrow> ipa_ioc_nat_ipv6ct_table_del \<Rightarrow> 'w ipa3_context
     \<Rightarrow> (int \<times> 'w ipa3_context) option" where
  "ipa3_del_nat_table env del k =
     (let loc = nmi_of (if k_sram_compatible k then ucast (dl_mem_type del) else 0)
      in if \<not> cm_is_dev_init (nm_dev (k_nat_mem k)) then Some (- EPERM, k)
         else if \<not> IPA_VALID_TBL_INDEX (dl_table_index del) then Some (- EPERM, k)
         else if \<not> IPA_VALID_NAT_MEM_IN loc then Some (- EPERM, k)
         else with_lock Nat_Dev (\<lambda>k. do {
           (r, k) \<leftarrow> (if cm_is_hw_init (nm_dev (k_nat_mem k)) then ipa3_nat_send_del_table_cmd env (dl_table_index del) k
                     else Some (0, k));
           if r \<noteq> 0 then Some (r, k)
           else
             let k = upd_nm (\<lambda>nm. nm\<lparr>nm_public_ip_addr := 0\<rparr>) k;
                 k = upd_mld loc (\<lambda>m. m\<lparr>ml_index_table_addr := 0, ml_index_table_expansion_addr := 0\<rparr>) k;
                 pdn = nm_pdn_mem (k_nat_mem k);
                 k = (if IPA_HW_v4_0 \<le> k_hw_type k \<and> mb_base pdn \<noteq> 0
                      then upd_nm (\<lambda>nm. nm\<lparr>nm_pdn_mem := pdn\<lparr>mb_base := 0\<rparr>\<rparr>)
                             (os_do (dma_free_coherent env (ucast (mb_size pdn)) (mb_base pdn) (mb_phys_base pdn)) k)
                      else k)
             in Some (0, ipa3_nat_ipv6ct_free_mem env Nat_Dev k)
         }) k)"

text \<open>
  \<open>ipa3_nat_del_cmd\<close> passes a structure on its stack of which it has set only the table index; \<open>garbage\<close> is
  what the other field holds.
\<close>

definition ipa3_nat_del_cmd ::
    "('w, 'e) nat_kernel_env_scheme \<Rightarrow> u8 \<Rightarrow> u8 \<Rightarrow> 'w ipa3_context \<Rightarrow> (int \<times> 'w ipa3_context) option" where
  "ipa3_nat_del_cmd env garbage index k =
     ipa3_del_nat_table env \<lparr>dl_table_index = index, dl_mem_type = garbage\<rparr> k"

definition ipa3_del_ipv6ct_table ::
    "('w, 'e) nat_kernel_env_scheme \<Rightarrow> ipa_ioc_nat_ipv6ct_table_del \<Rightarrow> 'w ipa3_context
     \<Rightarrow> (int \<times> 'w ipa3_context) option" where
  "ipa3_del_ipv6ct_table env del k =
     (let c = k_ipv6ct_mem k
      in if \<not> cm_is_dev_init c then Some (- EPERM, k)
         else if k_hw_type k < IPA_HW_v4_0 then Some (- EPERM, k)
         else with_lock Ipv6ct_Dev (\<lambda>k. do {
           (r, k) \<leftarrow> (if cm_is_hw_init (k_ipv6ct_mem k) then ipa3_ipv6ct_send_del_table_cmd env (dl_table_index del) k
                     else Some (0, k));
           Some (r, if r \<noteq> 0 then k else ipa3_nat_ipv6ct_free_mem env Ipv6ct_Dev k)
         }) k)"

subsection \<open>What the SRAM offers\<close>

definition PAGE_SIZE :: nat where "PAGE_SIZE = 4096"

text \<open>\<open>roundup\<close> of the kernel, on \<open>unsigned long\<close>.\<close>

definition roundup :: "nat \<Rightarrow> nat \<Rightarrow> nat" where "roundup x y = (x + (y - 1)) div y * y"

definition ipa3_nat_get_sram_info ::
    "('w, 'e) nat_kernel_env_scheme \<Rightarrow> 'w ipa3_context \<Rightarrow> (int \<times> ipa_nat_in_sram_info) \<times> 'w ipa3_context" where
  "ipa3_nat_get_sram_info env k =
     (if \<not> cm_is_dev_init (nm_dev (k_nat_mem k)) then ((- EPERM, sram_info_zero), k)
      else
        let ofst = (of_nat (unat (sram_phys_addr env k) mod PAGE_SIZE) :: u32)
        in ((0, \<lparr>sram_mem_available_for_nat = k_nat_tbl_size k, nat_table_offset_into_mmap = ofst,
                 best_nat_in_sram_size_rqst = of_nat (roundup (unat (ofst + k_nat_tbl_size k)) PAGE_SIZE)\<rparr>),
            k\<lparr>k_sram_compatible := True\<rparr>))"

end
