(* ===== verification/Ipa_Nat_Ioctl.thy ===== *)
theory Ipa_Nat_Ioctl
  imports Ipa_Nat_Cmd
begin

section \<open>The requests of the NAT clients\<close>

text \<open>
  The cases of \<open>ipa3_ioctl\<close> (\<open>ipa.c\<close>) that lead into the NAT driver. A request carries what the client's memory
  holds at the address it passes, or \<open>None\<close> where it cannot be read; the flag of a request that answers says
  whether the answer can be written. \<open>Ioc_Table_Dma_Cmd\<close> is read twice: first the number of entries, then the
  whole request of that length, which another thread of the client may have changed in between.
\<close>

datatype nat_ioctl =
  Ioc_Alloc_Nat_Mem "(u64 \<times> u64) option" bool
| Ioc_Alloc_Nat_Table "(u64 \<times> u64) option" bool
| Ioc_Alloc_Ipv6ct_Table "(u64 \<times> u64) option" bool
| Ioc_V4_Init_Nat "ipa_ioc_v4_nat_init option"
| Ioc_Init_Ipv6ct_Table "ipa_ioc_ipv6ct_init option"
| Ioc_Table_Dma_Cmd "u8 option" "ipa_ioc_nat_dma_cmd option"
| Ioc_V4_Del_Nat "u8 option" u8
| Ioc_Del_Nat_Table "ipa_ioc_nat_ipv6ct_table_del option"
| Ioc_Del_Ipv6ct_Table "ipa_ioc_nat_ipv6ct_table_del option"
| Ioc_Nat_Modify_Pdn "ipa_ioc_nat_pdn_entry option"
| Ioc_Cleanup u8 int
| Ioc_Get_Nat_In_Sram_Info bool

text \<open>What is written back to the client: the size and offset of an allocation, or the SRAM's description.\<close>

datatype nat_reply = No_Reply | Alloc_Reply u64 u64 | Sram_Reply ipa_nat_in_sram_info

type_synonym 'w nat_answer = "(int \<times> nat_reply \<times> 'w ipa3_context) option"

text \<open>An argument that cannot be read, and an error of the driver, are both reported as \<open>-EFAULT\<close>.\<close>

definition or_efault ::
    "'a option \<Rightarrow> ('a \<Rightarrow> 'w ipa3_context \<Rightarrow> (int \<times> 'w ipa3_context) option) \<Rightarrow> 'w ipa3_context \<Rightarrow> 'w nat_answer" where
  "or_efault arg f k =
     (case arg of
        None \<Rightarrow> Some (- EFAULT, No_Reply, k)
      | Some a \<Rightarrow> do { (r, k) \<leftarrow> f a k; Some (if r \<noteq> 0 then - EFAULT else 0, No_Reply, k) })"

definition alloc_ioctl ::
    "(u64 \<times> u64) option \<Rightarrow> bool \<Rightarrow> (u64 \<Rightarrow> 'w ipa3_context \<Rightarrow> (int \<times> 'w ipa3_context) option)
     \<Rightarrow> 'w ipa3_context \<Rightarrow> 'w nat_answer" where
  "alloc_ioctl arg writable f k =
     (case arg of
        None \<Rightarrow> Some (- EFAULT, No_Reply, k)
      | Some (sz, ofst) \<Rightarrow>
          do {
            (r, k) \<leftarrow> f sz k;
            Some (if r \<noteq> 0 then (- EFAULT, No_Reply, k)
                  else if ofst = 0 then (0, No_Reply, k)
                  else if writable then (0, Alloc_Reply sz ofst, k) else (- EFAULT, No_Reply, k))
          })"

definition alloc_mem_ioctl ::
    "('w, 'e) nat_kernel_env_scheme \<Rightarrow> (u64 \<times> u64) option \<Rightarrow> bool \<Rightarrow> 'w ipa3_context \<Rightarrow> 'w nat_answer" where
  "alloc_mem_ioctl env arg writable k =
     (case arg of
        None \<Rightarrow> Some (- EFAULT, No_Reply, k)
      | Some mem \<Rightarrow>
          do {
            (r, mem, k) \<leftarrow> ipa3_allocate_nat_device env mem k;
            Some (if r \<noteq> 0 then (- EFAULT, No_Reply, k)
                  else if writable then (0, Alloc_Reply (fst mem) (snd mem), k) else (- EFAULT, No_Reply, k))
          })"

text \<open>
  \<open>memdup_user\<close> copies the request with an array of \<open>pre_entry\<close> elements into a block it allocates; the block is
  released at the end of \<open>ipa3_ioctl\<close>. A client's memory that ends earlier cannot be read.
\<close>

definition table_dma_ioctl ::
    "('w, 'e) nat_kernel_env_scheme \<Rightarrow> u8 option \<Rightarrow> ipa_ioc_nat_dma_cmd option \<Rightarrow> 'w ipa3_context \<Rightarrow> 'w nat_answer" where
  "table_dma_ioctl env pre arg k =
     (case pre of
        None \<Rightarrow> Some (- EFAULT, No_Reply, k)
      | Some pre_entry \<Rightarrow>
          let (ok, k) = os (k_alloc env) k
          in if \<not> ok then Some (- ENOMEM, No_Reply, k)
             else case arg of
               None \<Rightarrow> Some (- EFAULT, No_Reply, os_do (k_free env) k)
             | Some c \<Rightarrow>
                 if length (dma c) < unat pre_entry then Some (- EFAULT, No_Reply, os_do (k_free env) k)
                 else if entries c \<noteq> pre_entry then Some (- EFAULT, No_Reply, os_do (k_free env) k)
                 else do {
                   (r, k) \<leftarrow> ipa3_table_dma_cmd env (c\<lparr>dma := take (unat pre_entry) (dma c)\<rparr>) k;
                   Some (if r \<noteq> 0 then - EFAULT else 0, No_Reply, os_do (k_free env) k)
                 })"

definition proc_sram_info_rqst :: "('w, 'e) nat_kernel_env_scheme \<Rightarrow> bool \<Rightarrow> 'w ipa3_context \<Rightarrow> 'w nat_answer" where
  "proc_sram_info_rqst env writable k =
     (let ((r, info), k) = ipa3_nat_get_sram_info env k
      in Some (if r \<noteq> 0 then (- EFAULT, No_Reply, k)
               else if writable then (0, Sram_Reply info, k) else (- EFAULT, No_Reply, k)))"

text \<open>
  \<open>IPA_IOC_CLEANUP\<close> overwrites the code of the deletion with that of the clean-up of the filter rules, the second
  argument of \<open>Ioc_Cleanup\<close>.
\<close>

definition ipa3_ioctl :: "('w, 'e) nat_kernel_env_scheme \<Rightarrow> nat_ioctl \<Rightarrow> 'w ipa3_context \<Rightarrow> 'w nat_answer" where
  "ipa3_ioctl env rq k =
     (case rq of
        Ioc_Alloc_Nat_Mem arg wr \<Rightarrow> alloc_mem_ioctl env arg wr k
      | Ioc_Alloc_Nat_Table arg wr \<Rightarrow> alloc_ioctl arg wr (ipa3_allocate_nat_table env) k
      | Ioc_Alloc_Ipv6ct_Table arg wr \<Rightarrow> alloc_ioctl arg wr (ipa3_allocate_ipv6ct_table env) k
      | Ioc_V4_Init_Nat arg \<Rightarrow> or_efault arg (ipa3_nat_init_cmd env) k
      | Ioc_Init_Ipv6ct_Table arg \<Rightarrow> or_efault arg (ipa3_ipv6ct_init_cmd env) k
      | Ioc_Table_Dma_Cmd pre arg \<Rightarrow> table_dma_ioctl env pre arg k
      | Ioc_V4_Del_Nat arg garbage \<Rightarrow> or_efault arg (ipa3_nat_del_cmd env garbage) k
      | Ioc_Del_Nat_Table arg \<Rightarrow> or_efault arg (ipa3_del_nat_table env) k
      | Ioc_Del_Ipv6ct_Table arg \<Rightarrow> or_efault arg (ipa3_del_ipv6ct_table env) k
      | Ioc_Nat_Modify_Pdn arg \<Rightarrow> or_efault arg (ipa3_nat_mdfy_pdn env) k
      | Ioc_Cleanup garbage rest \<Rightarrow>
          do { (_, k) \<leftarrow> ipa3_nat_del_cmd env garbage 0 k; Some (rest, No_Reply, k) }
      | Ioc_Get_Nat_In_Sram_Info wr \<Rightarrow> proc_sram_info_rqst env wr k)"

subsection \<open>Sequences of requests\<close>

datatype nat_request = Rq_Ioctl nat_ioctl | Rq_Mmap nat_device vm_area_struct

definition serve :: "('w, 'e) nat_kernel_env_scheme \<Rightarrow> nat_request \<Rightarrow> 'w ipa3_context \<Rightarrow> 'w ipa3_context option" where
  "serve env rq k =
     (case rq of
        Rq_Ioctl i \<Rightarrow> do { (_, _, k) \<leftarrow> ipa3_ioctl env i k; Some k }
      | Rq_Mmap d vma \<Rightarrow> do { (_, _, k) \<leftarrow> ipa3_nat_ipv6ct_mmap env d vma k; Some k })"

fun serve_all :: "('w, 'e) nat_kernel_env_scheme \<Rightarrow> nat_request list \<Rightarrow> 'w ipa3_context \<Rightarrow> 'w ipa3_context option" where
  "serve_all env [] k = Some k"
| "serve_all env (rq # rqs) k = do { k \<leftarrow> serve env rq k; serve_all env rqs k }"

end
