(* ===== verification/Ipa_Nat_Inv.thy ===== *)
theory Ipa_Nat_Inv
  imports Ipa_Nat_Ioctl Hal_Facts
begin

unbundle bit_operations_syntax

section \<open>The invariant of the kernel's NAT driver\<close>

text \<open>
  What holds between two requests, whatever the clients request and whatever the kernel services answer: both
  locks are free, the PDN memory has the size of the PDN table, and the NAT tables the hardware was given lie
  inside the memory allocated for them. Every operation returns and keeps it, and releases every block it
  allocates with \<open>kzalloc\<close>.
\<close>

subsection \<open>States that differ only in what a list of commands touches\<close>

definition same_driver :: "'w ipa3_context \<Rightarrow> 'w ipa3_context \<Rightarrow> bool" where
  "same_driver k k' \<longleftrightarrow>
     (\<exists>w bs. length bs = length (mb_bytes (nm_pdn_mem (k_nat_mem k))) \<and>
        k' = k\<lparr>k_world := w, k_nat_mem := (k_nat_mem k)\<lparr>nm_pdn_mem := (nm_pdn_mem (k_nat_mem k))\<lparr>mb_bytes := bs\<rparr>\<rparr>\<rparr>)"

lemma same_driver_refl [simp]: "same_driver k k"
  unfolding same_driver_def by (rule exI [of _ "k_world k"], rule exI [of _ "mb_bytes (nm_pdn_mem (k_nat_mem k))"]) simp

lemma same_driver_world [simp]: "same_driver k (k\<lparr>k_world := w\<rparr>)"
  unfolding same_driver_def by (rule exI [of _ w], rule exI [of _ "mb_bytes (nm_pdn_mem (k_nat_mem k))"]) simp

lemma same_driver_trans: "same_driver k k' \<Longrightarrow> same_driver k' k'' \<Longrightarrow> same_driver k k''"
  unfolding same_driver_def
proof (elim exE conjE)
  fix w bs w' bs'
  let ?p = "nm_pdn_mem (k_nat_mem k)"
  assume "length bs = length (mb_bytes ?p)" and k': "k' = k\<lparr>k_world := w, k_nat_mem := (k_nat_mem k)\<lparr>nm_pdn_mem := ?p\<lparr>mb_bytes := bs\<rparr>\<rparr>\<rparr>"
    and "length bs' = length (mb_bytes (nm_pdn_mem (k_nat_mem k')))"
    and "k'' = k'\<lparr>k_world := w', k_nat_mem := (k_nat_mem k')\<lparr>nm_pdn_mem := (nm_pdn_mem (k_nat_mem k'))\<lparr>mb_bytes := bs'\<rparr>\<rparr>\<rparr>"
  then have "length bs' = length (mb_bytes ?p) \<and>
      k'' = k\<lparr>k_world := w', k_nat_mem := (k_nat_mem k)\<lparr>nm_pdn_mem := ?p\<lparr>mb_bytes := bs'\<rparr>\<rparr>\<rparr>" by simp
  then show "\<exists>w bs. length bs = length (mb_bytes ?p) \<and>
      k'' = k\<lparr>k_world := w, k_nat_mem := (k_nat_mem k)\<lparr>nm_pdn_mem := ?p\<lparr>mb_bytes := bs\<rparr>\<rparr>\<rparr>" by blast
qed

lemma same_driver_fields:
  assumes "same_driver k k'"
  shows "k_hal k' = k_hal k" "k_hw_type k' = k_hw_type k" "k_ulso_wa k' = k_ulso_wa k"
    and "k_pdn_config_size k' = k_pdn_config_size k" "k_ipv6ct_mem k' = k_ipv6ct_mem k"
    and "nm_dev (k_nat_mem k') = nm_dev (k_nat_mem k)" "nm_mem_loc (k_nat_mem k') = nm_mem_loc (k_nat_mem k)"
    and "nm_ddr_in_use (k_nat_mem k') = nm_ddr_in_use (k_nat_mem k)"
    and "nm_sram_in_use (k_nat_mem k') = nm_sram_in_use (k_nat_mem k)"
    and "mb_base (nm_pdn_mem (k_nat_mem k')) = mb_base (nm_pdn_mem (k_nat_mem k))"
    and "mb_size (nm_pdn_mem (k_nat_mem k')) = mb_size (nm_pdn_mem (k_nat_mem k))"
    and "length (mb_bytes (nm_pdn_mem (k_nat_mem k'))) = length (mb_bytes (nm_pdn_mem (k_nat_mem k)))"
  using assms by (auto simp: same_driver_def)

subsection \<open>Blocks of memory\<close>

text \<open>
  \<open>cnt\<close> counts the blocks of \<open>kzalloc\<close> and no other resource; the coherent memory of the tables, mappings and
  requests to the hardware do not change it.
\<close>

definition alloc_counts :: "('w, 'e) nat_kernel_env_scheme \<Rightarrow> ('w \<Rightarrow> int) \<Rightarrow> bool" where
  "alloc_counts env cnt \<longleftrightarrow>
     (\<forall>w. cnt (snd (k_alloc env w)) = cnt w + of_bool (fst (k_alloc env w))) \<and>
     (\<forall>w. cnt (k_free env w) = cnt w - 1) \<and>
     (\<forall>ds w. cnt (snd (ipa3_send_cmd env ds w)) = cnt w) \<and>
     (\<forall>n w. cnt (snd (dma_alloc_coherent env n w)) = cnt w) \<and>
     (\<forall>n a h w. cnt (dma_free_coherent env n a h w) = cnt w) \<and>
     (\<forall>a n w. cnt (snd (ioremap env a n w)) = cnt w) \<and> (\<forall>a w. cnt (iounmap env a w) = cnt w) \<and>
     (\<forall>v a h n w. cnt (snd (dma_mmap_coherent env v a h n w)) = cnt w) \<and>
     (\<forall>v a n w. cnt (snd (vm_iomap_memory env v a n w)) = cnt w)"

lemma alloc_countsD:
  assumes "alloc_counts env cnt"
  shows "k_alloc env w = (ok, w') \<Longrightarrow> cnt w' = cnt w + of_bool ok"
    and "cnt (k_free env w) = cnt w - 1"
    and "ipa3_send_cmd env ds w = (r, w') \<Longrightarrow> cnt w' = cnt w"
    and "dma_alloc_coherent env n w = (p, w') \<Longrightarrow> cnt w' = cnt w"
    and "cnt (dma_free_coherent env n a h w) = cnt w"
    and "ioremap env a n32 w = (q, w') \<Longrightarrow> cnt w' = cnt w" and "cnt (iounmap env a w) = cnt w"
    and "dma_mmap_coherent env v a h n w = (r, w') \<Longrightarrow> cnt w' = cnt w"
    and "vm_iomap_memory env v a n32 w = (r, w') \<Longrightarrow> cnt w' = cnt w"
  using assms by (auto simp: alloc_counts_def dest!: spec [of _ w] split: if_splits) (metis fst_conv snd_conv)+

subsection \<open>Lists of commands\<close>

text \<open>A step in the construction of a list of commands: it returns, adds at most \<open>n\<close> commands and keeps the driver.\<close>

definition step_ok ::
    "('w, 'e) nat_kernel_env_scheme \<Rightarrow> ('w \<Rightarrow> int) \<Rightarrow> nat \<Rightarrow> 'w ipa3_context \<Rightarrow> ipahal_imm_cmd_pyld list \<Rightarrow>
     'w pylds option \<Rightarrow> bool" where
  "step_ok env cnt n k ps m \<longleftrightarrow>
     (\<exists>r ps' k'. m = Some (r, ps', k') \<and> same_driver k k' \<and> length ps' \<le> length ps + n \<and>
        (alloc_counts env cnt \<longrightarrow> cnt (k_world k') - int (length ps') = cnt (k_world k) - int (length ps)))"

lemma step_ok_skip [simp]: "step_ok env cnt 0 k ps (Some (r, ps, k))"
  by (auto simp: step_ok_def)

lemma step_ok_on_ok:
  assumes m: "step_ok env cnt n k ps m"
    and f: "\<And>ps' k'. same_driver k k' \<Longrightarrow> length ps' \<le> length ps + n \<Longrightarrow> step_ok env cnt n' k' ps' (f ps' k')"
  shows "step_ok env cnt (n + n') k ps (on_ok m f)"
proof -
  obtain r ps1 k1 where m1: "m = Some (r, ps1, k1)" "same_driver k k1" "length ps1 \<le> length ps + n"
      "alloc_counts env cnt \<longrightarrow> cnt (k_world k1) - int (length ps1) = cnt (k_world k) - int (length ps)"
    using m by (auto simp: step_ok_def)
  show ?thesis
  proof (cases "r = 0")
    case True
    obtain r2 ps2 k2 where f2: "f ps1 k1 = Some (r2, ps2, k2)" "same_driver k1 k2" "length ps2 \<le> length ps1 + n'"
        "alloc_counts env cnt \<longrightarrow> cnt (k_world k2) - int (length ps2) = cnt (k_world k1) - int (length ps1)"
      using f [OF m1(2,3)] by (auto simp: step_ok_def)
    show ?thesis
      unfolding step_ok_def
      by (rule exI [of _ r2], rule exI [of _ ps2], rule exI [of _ k2])
        (use True m1 f2 same_driver_trans in \<open>auto simp: on_ok_def\<close>)
  next
    case False
    show ?thesis
      unfolding step_ok_def
      by (rule exI [of _ r], rule exI [of _ ps1], rule exI [of _ k1]) (use False m1 in \<open>auto simp: on_ok_def\<close>)
  qed
qed

text \<open>The constructors that the driver calls: on the HAL in use, with matching parameters, they return.\<close>

definition counted :: "('w, 'e) nat_kernel_env_scheme \<Rightarrow> 'w \<Rightarrow> ipahal_imm_cmd_pyld option \<times> 'w \<Rightarrow> bool" where
  "counted env w pw \<longleftrightarrow>
     (\<forall>cnt. alloc_counts env cnt \<longrightarrow> cnt (snd pw) = cnt w + of_bool (fst pw \<noteq> None))"

lemma counted_alloc_pyld [simp]: "counted env w (alloc_pyld env opc sz n fs w)"
  by (auto simp: counted_def alloc_pyld_def alloc_counts_def split: prod.splits) (metis fst_conv snd_conv of_bool_eq add.right_neutral)+

lemma counted_none [simp]: "counted env w (None, w)"
  by (simp add: counted_def)

definition drv_cmd :: "ipa_hw_type \<Rightarrow> ipahal_imm_cmd_name \<Rightarrow> imm_params \<Rightarrow> bool" where
  "drv_cmd hw cmd prm \<longleftrightarrow>
     (case prm of
        Prm_register_write q \<Rightarrow> cmd = IPA_IMM_CMD_REGISTER_WRITE
      | Prm_ip_v4_nat_init q \<Rightarrow> cmd = IPA_IMM_CMD_IP_V4_NAT_INIT
      | Prm_dma_shared_mem q \<Rightarrow> cmd = IPA_IMM_CMD_DMA_SHARED_MEM
      | Prm_table_dma q \<Rightarrow> cmd = (if IPA_HW_v4_0 \<le> hw then IPA_IMM_CMD_TABLE_DMA else IPA_IMM_CMD_NAT_DMA)
      | Prm_ip_v6_ct_init q \<Rightarrow> cmd = IPA_IMM_CMD_IP_V6_CT_INIT \<and> IPA_HW_v4_0 \<le> hw
      | _ \<Rightarrow> False)"

lemma drv_cmd_constructs:
  assumes h: "hal_ready hal" and c: "drv_cmd (hal_hw_type hal) cmd prm"
  obtains p w' where "ipahal_construct_imm_cmd env hal cmd prm w = Some (p, w')" and "counted env w (p, w')"
proof -
  have "case ipahal_construct_imm_cmd env hal cmd prm w of None \<Rightarrow> False | Some pw \<Rightarrow> counted env w pw"
    using c hal_ready_objs [OF h]
    by (cases prm) (auto simp: drv_cmd_def ipahal_construct_imm_cmd_def imm_in_force call_construct_def
        ipa_imm_cmd_construct_register_write_def ipa_imm_cmd_construct_register_write_v_4_0_def
        ipa_imm_cmd_construct_ip_v4_nat_init_def ipa_imm_cmd_construct_dma_shared_mem_def
        ipa_imm_cmd_construct_dma_shared_mem_v_4_0_def ipa_imm_cmd_construct_nat_dma_def
        ipa_imm_cmd_construct_table_dma_ipav4_def ipa_imm_cmd_construct_ip_v6_ct_init_def split: if_splits)
  then show thesis using that by (auto split: option.splits)
qed

lemma step_ok_construct:
  assumes h: "hal_ready (k_hal k)" and c: "drv_cmd (hal_hw_type (k_hal k)) cmd prm" and n: "length ps < cap"
  shows "step_ok env cnt 1 k ps (construct_cmd env cap cmd prm err ps k)"
proof -
  obtain p w' where p: "ipahal_construct_imm_cmd env (k_hal k) cmd prm (k_world k) = Some (p, w')"
      "counted env (k_world k) (p, w')" by (rule drv_cmd_constructs [OF h c])
  show ?thesis
    using n p(2) by (cases p) (auto simp: construct_cmd_def p(1) step_ok_def counted_def)
qed

lemma step_ok_nop:
  assumes "hal_ready (k_hal k)" and "length ps < cap"
  shows "step_ok env cnt 1 k ps (construct_nop env cap ps k)"
  using step_ok_construct [of k IPA_IMM_CMD_REGISTER_WRITE "Prm_register_write q" ps cap env cnt "- ENOMEM" for q] assms
  by (simp add: construct_nop_def construct_cmd_def ipahal_construct_nop_imm_cmd_def drv_cmd_def)

lemma step_ok_coal_close:
  assumes "hal_ready (k_hal k)" and "length ps < cap"
  shows "step_ok env cnt (if coal_enabled env k then 1 else 0) k ps (construct_coal_close env cap ps k)"
  using assms by (simp add: construct_coal_close_def step_ok_construct drv_cmd_def del: One_nat_def)

lemma step_ok_send: "step_ok env cnt 0 k ps (send_pylds env ps k)"
proof -
  obtain r w' where r: "ipa3_send_cmd env (map ipa3_init_imm_cmd_desc ps) (k_world k) = (r, w')" by (metis surj_pair)
  show ?thesis by (auto simp: send_pylds_def os_def r step_ok_def dest: alloc_countsD(3) [OF _ r])
qed

lemma step_ok_mono: "step_ok env cnt n k ps m \<Longrightarrow> n \<le> n' \<Longrightarrow> step_ok env cnt n' k ps m"
  by (fastforce simp: step_ok_def)

text \<open>A list of commands that is destroyed at its end.\<close>

definition call_ok ::
    "('w, 'e) nat_kernel_env_scheme \<Rightarrow> ('w \<Rightarrow> int) \<Rightarrow> 'w ipa3_context \<Rightarrow> (int \<times> 'w ipa3_context) option \<Rightarrow> bool" where
  "call_ok env cnt k m \<longleftrightarrow>
     (\<exists>r k'. m = Some (r, k') \<and> same_driver k k' \<and> (alloc_counts env cnt \<longrightarrow> cnt (k_world k') = cnt (k_world k)))"

lemma destroy_fold:
  "fold (\<lambda>_. os_do (ipahal_destroy_imm_cmd env)) ps k = k\<lparr>k_world := ((k_free env) ^^ length ps) (k_world k)\<rparr>"
  by (induction ps arbitrary: k) (simp_all add: os_do_def ipahal_destroy_imm_cmd_def funpow_swap1)

lemma free_counts: "alloc_counts env cnt \<Longrightarrow> cnt ((k_free env ^^ n) w) = cnt w - int n"
  by (induction n) (simp_all add: alloc_countsD(2))

lemma call_ok_destroy:
  assumes "step_ok env cnt n k [] m"
  shows "call_ok env cnt k (destroy_imm_cmd env m)"
proof -
  obtain r ps k' where m: "m = Some (r, ps, k')" "same_driver k k'"
      "alloc_counts env cnt \<longrightarrow> cnt (k_world k') - int (length ps) = cnt (k_world k)"
    using assms by (auto simp: step_ok_def)
  have "same_driver k (k'\<lparr>k_world := w\<rparr>)" for w
    by (rule same_driver_trans [OF m(2) same_driver_world])
  then show ?thesis using m(1,3) by (auto simp: call_ok_def destroy_imm_cmd_def destroy_fold free_counts)
qed

subsection \<open>The invariant\<close>

text \<open>Four areas of \<open>n\<close> bytes at 32-bit offsets from the base address, all inside the allocated memory.\<close>

definition inside :: "u64 \<Rightarrow> u64 \<Rightarrow> u64 \<Rightarrow> nat \<Rightarrow> bool" where
  "inside base size' addr n \<longleftrightarrow> (\<exists>ofst :: u32. addr = base + ucast ofst \<and> unat ofst + n \<le> unat size')"

definition tables_inside :: "ipa3_nat_mem_loc_data \<Rightarrow> bool" where
  "tables_inside m \<longleftrightarrow>
     (let area = inside (ml_base_address m) (ml_table_alloc_size m);
          n = unat (ml_table_entries m) + 1; e = unat (ml_expn_table_entries m)
      in area (ml_base_table_addr m) (32 * n) \<and> area (ml_expansion_table_addr m) (32 * e) \<and>
         area (ml_index_table_addr m) (4 * n) \<and> area (ml_index_table_expansion_addr m) (4 * e))"

definition loc_inv :: "bool \<Rightarrow> ipa3_nat_mem_loc_data \<Rightarrow> bool" where
  "loc_inv in_use m \<longleftrightarrow>
     (ml_vaddr m \<noteq> 0 \<longrightarrow> in_use) \<and>
     (if ml_is_mapped m then ml_vaddr m \<noteq> 0 \<and> ml_base_address m = ml_vaddr m
      else ml_table_entries m = 0 \<and> ml_expn_table_entries m = 0) \<and>
     unat (ml_table_entries m) < 65535 \<and> unat (ml_expn_table_entries m) < 65536 \<and>
     (ml_table_entries m \<noteq> 0 \<longrightarrow> tables_inside m)"

definition pdn_inv :: "'w ipa3_context \<Rightarrow> bool" where
  "pdn_inv k \<longleftrightarrow>
     (let p = nm_pdn_mem (k_nat_mem k)
      in mb_base p \<noteq> 0 \<longrightarrow>
           IPA_HW_v4_0 \<le> k_hw_type k \<and> length (mb_bytes p) = unat (mb_size p) \<and>
           unat (mb_size p) = 16 * (unat (k_pdn_config_size k) div 16))"

text \<open>What the platform fixes: the HAL is initialised, and the SRAM has room for one PDN entry.\<close>

definition platform_ok :: "'w ipa3_context \<Rightarrow> bool" where
  "platform_ok k \<longleftrightarrow> hal_ready (k_hal k) \<and> hal_hw_type (k_hal k) = k_hw_type k \<and> 16 \<le> unat (k_pdn_config_size k)"

definition driver_inv :: "'w ipa3_context \<Rightarrow> bool" where
  "driver_inv k \<longleftrightarrow>
     platform_ok k \<and>
     cm_is_nat_mem (nm_dev (k_nat_mem k)) \<and> \<not> cm_is_ipv6ct_mem (nm_dev (k_nat_mem k)) \<and> \<not> cm_is_nat_mem (k_ipv6ct_mem k) \<and>
     (cm_is_dev_init (k_ipv6ct_mem k) \<longrightarrow> IPA_HW_v4_0 \<le> k_hw_type k \<and> cm_is_ipv6ct_mem (k_ipv6ct_mem k)) \<and>
     loc_inv (nm_ddr_in_use (k_nat_mem k)) (the_mld IPA_NAT_MEM_IN_DDR k) \<and>
     loc_inv (nm_sram_in_use (k_nat_mem k)) (the_mld IPA_NAT_MEM_IN_SRAM k) \<and>
     pdn_inv k"

definition kernel_inv :: "'w ipa3_context \<Rightarrow> bool" where
  "kernel_inv k \<longleftrightarrow> driver_inv k \<and> \<not> cm_lock (nm_dev (k_nat_mem k)) \<and> \<not> cm_lock (k_ipv6ct_mem k)"

lemma same_driver_inv:
  assumes "same_driver k k'" and "driver_inv k" shows "driver_inv k'"
  using assms by (simp add: driver_inv_def platform_ok_def pdn_inv_def the_mld_def Let_def same_driver_fields [OF assms(1)])

subsection \<open>The senders\<close>

lemma same_driver_platform:
  assumes "same_driver k k'"
  shows "platform_ok k \<Longrightarrow> platform_ok k'" and "pdn_inv k \<Longrightarrow> pdn_inv k'"
  by (simp_all add: platform_ok_def pdn_inv_def Let_def same_driver_fields [OF assms])

lemma platform_okD:
  assumes "platform_ok k"
  shows "hal_ready (k_hal k)" and "hal_hw_type (k_hal k) = k_hw_type k" and "16 \<le> unat (k_pdn_config_size k)"
  using assms by (simp_all add: platform_ok_def)

lemma platform_max_pdn:
  assumes "platform_ok k" and "IPA_HW_v4_0 \<le> k_hw_type k"
  shows "ipahal_nat_entry_size (k_hal k) IPAHAL_NAT_IPV4_PDN = Some (0, 16)"
    and "ipa3_get_max_pdn k = Some (unat (k_pdn_config_size k) div 16)"
  using platform_okD [OF assms(1)] assms(2) by (simp_all add: ipa3_get_max_pdn_def)

lemma write_bytes_length: "write_bytes m off bs = Some m' \<Longrightarrow> length m' = length m"
  by (auto simp: write_bytes_def split: if_splits)

lemma modify_pdn_cmd_ok:
  assumes "platform_ok k" and "pdn_inv k" and "IPA_HW_v4_0 \<le> k_hw_type k"
  obtains r c k' where "ipa3_nat_create_modify_pdn_cmd z k = Some (r, c, k')" and "same_driver k k'" and "k_world k' = k_world k"
proof (cases "mb_base (nm_pdn_mem (k_nat_mem k)) = 0")
  case True
  then show ?thesis using that platform_max_pdn [OF assms(1,3)] by (simp add: ipa3_nat_create_modify_pdn_cmd_def)
next
  case False
  let ?p = "nm_pdn_mem (k_nat_mem k)"
  have len: "length (mb_bytes ?p) = 16 * (unat (k_pdn_config_size k) div 16)"
    using assms(2) False by (simp add: pdn_inv_def Let_def)
  let ?bs = "if z then replicate (length (mb_bytes ?p)) 0 else mb_bytes ?p"
  have w: "(if z then write_bytes (mb_bytes ?p) 0 (replicate (16 * (unat (k_pdn_config_size k) div 16)) 0)
            else Some (mb_bytes ?p)) = Some ?bs"
    by (simp add: write_bytes_def len)
  have "same_driver k (upd_nm (\<lambda>nm. nm\<lparr>nm_pdn_mem := ?p\<lparr>mb_bytes := ?bs\<rparr>\<rparr>) k)"
    unfolding same_driver_def upd_nm_def
    by (rule exI [of _ "k_world k"], rule exI [of _ ?bs]) simp
  then show ?thesis
    using that False platform_max_pdn [OF assms(1,3)] w
    by (simp add: ipa3_nat_create_modify_pdn_cmd_def Let_def upd_nm_def)
qed

lemma step_ok_from:
  assumes "same_driver k k2" and "k_world k2 = k_world k" and "step_ok env cnt n k2 ps m"
  shows "step_ok env cnt n k ps m"
  using assms same_driver_trans [OF assms(1)] by (fastforce simp: step_ok_def)

lemma nat_send_init_ok:
  assumes "platform_ok k" and "pdn_inv k"
  shows "call_ok env cnt k (ipa3_nat_send_init_cmd env cmd z k)"
proof -
  let ?c = "if coal_enabled env k then 1 else 0 :: nat"
  have body: "step_ok env cnt 1 k' ps (if k_hw_type k' < IPA_HW_v4_0 then Some (0, ps, k')
      else if IPA_NAT_MAX_NUM_OF_INIT_CMD_DESC \<le> length ps then Some (- ENOBUFS, ps, k')
      else do {
        (result, mem_cmd, k) \<leftarrow> ipa3_nat_create_modify_pdn_cmd z k';
        if result \<noteq> 0 then Some (result, ps, k)
        else construct_cmd env IPA_NAT_MAX_NUM_OF_INIT_CMD_DESC IPA_IMM_CMD_DMA_SHARED_MEM (Prm_dma_shared_mem mem_cmd)
               (- ENOMEM) ps k
      })" if "same_driver k k'" for k' ps
  proof (cases "k_hw_type k' < IPA_HW_v4_0 \<or> IPA_NAT_MAX_NUM_OF_INIT_CMD_DESC \<le> length ps")
    case True
    then show ?thesis using step_ok_mono [OF step_ok_skip] by auto
  next
    case False
    have p: "platform_ok k'" "pdn_inv k'" using same_driver_platform [OF that] assms by simp_all
    obtain r c k2 where m: "ipa3_nat_create_modify_pdn_cmd z k' = Some (r, c, k2)" "same_driver k' k2" "k_world k2 = k_world k'"
      using modify_pdn_cmd_ok [OF p] False by (metis not_less)
    have h: "hal_ready (k_hal k2)" using platform_okD(1) [OF same_driver_platform(1) [OF m(2) p(1)]] .
    have s: "step_ok env cnt 1 k2 ps (construct_cmd env IPA_NAT_MAX_NUM_OF_INIT_CMD_DESC IPA_IMM_CMD_DMA_SHARED_MEM
        (Prm_dma_shared_mem c) (- ENOMEM) ps k2)"
      using False by (intro step_ok_construct h) (simp_all add: drv_cmd_def)
    show ?thesis
      using False s step_ok_mono [OF step_ok_skip, of 1 env cnt k2 ps r]
      by (intro step_ok_from [OF m(2,3)]) (simp add: m(1))
  qed
  have "step_ok env cnt (?c + (1 + (1 + (1 + 0)))) k [] (on_ok (construct_coal_close env IPA_NAT_MAX_NUM_OF_INIT_CMD_DESC [] k) (\<lambda>ps k.
            on_ok (construct_nop env IPA_NAT_MAX_NUM_OF_INIT_CMD_DESC ps k) (\<lambda>ps k.
            on_ok (construct_cmd env IPA_NAT_MAX_NUM_OF_INIT_CMD_DESC IPA_IMM_CMD_IP_V4_NAT_INIT (Prm_ip_v4_nat_init cmd) (- EPERM) ps k) (\<lambda>ps k.
            on_ok (if k_hw_type k < IPA_HW_v4_0 then Some (0, ps, k)
                   else if IPA_NAT_MAX_NUM_OF_INIT_CMD_DESC \<le> length ps then Some (- ENOBUFS, ps, k)
                   else do {
                     (result, mem_cmd, k) \<leftarrow> ipa3_nat_create_modify_pdn_cmd z k;
                     if result \<noteq> 0 then Some (result, ps, k)
                     else construct_cmd env IPA_NAT_MAX_NUM_OF_INIT_CMD_DESC IPA_IMM_CMD_DMA_SHARED_MEM (Prm_dma_shared_mem mem_cmd) (- ENOMEM) ps k
                   }) (send_pylds env)))))"
    using platform_okD(1) [OF assms(1)]
    by (intro step_ok_on_ok step_ok_coal_close step_ok_nop step_ok_construct body step_ok_send)
      (auto simp: same_driver_fields drv_cmd_def desc_limits intro: same_driver_trans split: if_splits)
  then show ?thesis unfolding ipa3_nat_send_init_cmd_def Let_def by (rule call_ok_destroy)
qed

lemma ct_send_init_ok:
  assumes "platform_ok k" and "IPA_HW_v4_0 \<le> k_hw_type k"
  shows "call_ok env cnt k (ipa3_ipv6ct_send_init_cmd env cmd k)"
proof -
  let ?c = "if coal_enabled env k then 1 else 0 :: nat"
  have body: "step_ok env cnt 1 k' ps (if IPA_IPV6CT_MAX_NUM_OF_INIT_CMD_DESC \<le> length ps then Some (- ENOBUFS, ps, k')
      else construct_cmd env IPA_IPV6CT_MAX_NUM_OF_INIT_CMD_DESC IPA_IMM_CMD_IP_V6_CT_INIT (Prm_ip_v6_ct_init cmd) (- EPERM) ps k')"
    if "same_driver k k'" for k' ps
    using platform_okD [OF same_driver_platform(1) [OF that assms(1)]] assms(2) step_ok_mono [OF step_ok_skip]
    by (auto intro!: step_ok_construct simp: drv_cmd_def same_driver_fields [OF that] simp del: One_nat_def)
  have "step_ok env cnt (?c + (1 + (1 + 0))) k [] (on_ok (construct_coal_close env IPA_IPV6CT_MAX_NUM_OF_INIT_CMD_DESC [] k) (\<lambda>ps k.
            on_ok (construct_nop env IPA_IPV6CT_MAX_NUM_OF_INIT_CMD_DESC ps k) (\<lambda>ps k.
            on_ok (if IPA_IPV6CT_MAX_NUM_OF_INIT_CMD_DESC \<le> length ps then Some (- ENOBUFS, ps, k)
                   else construct_cmd env IPA_IPV6CT_MAX_NUM_OF_INIT_CMD_DESC IPA_IMM_CMD_IP_V6_CT_INIT (Prm_ip_v6_ct_init cmd) (- EPERM) ps k)
              (send_pylds env))))"
    using platform_okD(1) [OF assms(1)]
    by (intro step_ok_on_ok step_ok_coal_close step_ok_nop body step_ok_send)
      (auto simp: same_driver_fields desc_limits intro: same_driver_trans split: if_splits)
  then show ?thesis unfolding ipa3_ipv6ct_send_init_cmd_def Let_def by (rule call_ok_destroy)
qed

subsection \<open>Operations that keep the invariant\<close>

text \<open>The operation returns, keeps the invariant and both locks as they are, and leaks no block.\<close>

definition op_ok ::
    "('w, 'e) nat_kernel_env_scheme \<Rightarrow> ('w \<Rightarrow> int) \<Rightarrow> 'w ipa3_context \<Rightarrow> (int \<times> 'w ipa3_context) option \<Rightarrow> bool" where
  "op_ok env cnt k m \<longleftrightarrow>
     (\<exists>r k'. m = Some (r, k') \<and> driver_inv k' \<and>
        cm_lock (nm_dev (k_nat_mem k')) = cm_lock (nm_dev (k_nat_mem k)) \<and>
        cm_lock (k_ipv6ct_mem k') = cm_lock (k_ipv6ct_mem k) \<and>
        (alloc_counts env cnt \<longrightarrow> cnt (k_world k') = cnt (k_world k)))"

lemma op_okI:
  assumes "driver_inv k'" and "cm_lock (nm_dev (k_nat_mem k')) = cm_lock (nm_dev (k_nat_mem k))"
    and "cm_lock (k_ipv6ct_mem k') = cm_lock (k_ipv6ct_mem k)"
    and "alloc_counts env cnt \<Longrightarrow> cnt (k_world k') = cnt (k_world k)"
  shows "op_ok env cnt k (Some (r, k'))"
  using assms by (simp add: op_ok_def)

lemma op_ok_same [intro]: "driver_inv k \<Longrightarrow> op_ok env cnt k (Some (r, k))"
  by (simp add: op_okI)

lemma op_ok_call:
  assumes "driver_inv k" and "call_ok env cnt k m"
  shows "op_ok env cnt k m"
proof -
  obtain r k' where k': "m = Some (r, k')" "same_driver k k'" "alloc_counts env cnt \<longrightarrow> cnt (k_world k') = cnt (k_world k)"
    using assms(2) by (auto simp: call_ok_def)
  show ?thesis
    unfolding k'(1) using same_driver_inv [OF k'(2) assms(1)] k'(3)
    by (intro op_okI) (simp_all add: same_driver_fields [OF k'(2)])
qed

text \<open>An operation that starts from a state with the same locks and as many blocks.\<close>

definition same_locks :: "('w, 'e) nat_kernel_env_scheme \<Rightarrow> ('w \<Rightarrow> int) \<Rightarrow> 'w ipa3_context \<Rightarrow> 'w ipa3_context \<Rightarrow> bool" where
  "same_locks env cnt k k' \<longleftrightarrow>
     cm_lock (nm_dev (k_nat_mem k')) = cm_lock (nm_dev (k_nat_mem k)) \<and>
     cm_lock (k_ipv6ct_mem k') = cm_lock (k_ipv6ct_mem k) \<and>
     (alloc_counts env cnt \<longrightarrow> cnt (k_world k') = cnt (k_world k))"

lemma op_ok_from: "same_locks env cnt k k1 \<Longrightarrow> op_ok env cnt k1 m \<Longrightarrow> op_ok env cnt k m"
  by (auto simp: op_ok_def same_locks_def)

lemma op_ok_bind:
  assumes "op_ok env cnt k m" and "\<And>r k'. driver_inv k' \<Longrightarrow> op_ok env cnt k' (f (r, k'))"
  shows "op_ok env cnt k (m \<bind> f)"
proof -
  obtain r k' where m: "m = Some (r, k')" "driver_inv k'" "same_locks env cnt k k'"
    using assms(1) by (auto simp: op_ok_def same_locks_def)
  show ?thesis unfolding m(1) bind.bind_lunit by (rule op_ok_from [OF m(3) assms(2) [OF m(2)]])
qed

lemma driver_inv_lock [simp]:
  "driver_inv (upd_dev d (\<lambda>c. c\<lparr>cm_lock := b\<rparr>) k) = driver_inv k"
  by (cases d) (simp_all add: driver_inv_def platform_ok_def pdn_inv_def the_mld_def)

lemma op_ok_with_lock:
  assumes inv: "driver_inv k" and free: "\<not> cm_lock (the_dev d k)"
    and body: "\<And>k1. driver_inv k1 \<Longrightarrow> op_ok env cnt k1 (body k1)"
  shows "op_ok env cnt k (with_lock d body k)"
proof -
  let ?k1 = "upd_dev d (\<lambda>c. c\<lparr>cm_lock := True\<rparr>) k"
  have "driver_inv ?k1" using inv by simp
  then have "op_ok env cnt ?k1 (body ?k1)" by (rule body)
  then obtain r k' where k': "body ?k1 = Some (r, k')" "driver_inv k'" "same_locks env cnt ?k1 k'"
    by (auto simp: op_ok_def same_locks_def)
  have l: "mutex_lock d k = Some ?k1" using free by (simp add: mutex_lock_def)
  have "op_ok env cnt k (Some (r, mutex_unlock d k'))"
  proof (rule op_okI)
    show "driver_inv (mutex_unlock d k')" using k'(2) by (simp add: mutex_unlock_def)
    show "cm_lock (nm_dev (k_nat_mem (mutex_unlock d k'))) = cm_lock (nm_dev (k_nat_mem k))"
      and "cm_lock (k_ipv6ct_mem (mutex_unlock d k')) = cm_lock (k_ipv6ct_mem k)"
      using free k'(3) by (cases d; simp add: mutex_unlock_def same_locks_def)+
    show "cnt (k_world (mutex_unlock d k')) = cnt (k_world k)" if "alloc_counts env cnt"
      using k'(3) that by (cases d; simp add: mutex_unlock_def same_locks_def)
  qed
  then show ?thesis unfolding with_lock_def l bind.bind_lunit k'(1) prod.case .
qed

lemma driver_invD:
  assumes "driver_inv k"
  shows "platform_ok k" and "pdn_inv k" and "hal_ready (k_hal k)" and "hal_hw_type (k_hal k) = k_hw_type k"
    and "cm_is_nat_mem (nm_dev (k_nat_mem k))" and "\<not> cm_is_ipv6ct_mem (nm_dev (k_nat_mem k))"
    and "\<not> cm_is_nat_mem (k_ipv6ct_mem k)"
    and "cm_is_dev_init (k_ipv6ct_mem k) \<Longrightarrow> IPA_HW_v4_0 \<le> k_hw_type k"
    and "cm_is_dev_init (k_ipv6ct_mem k) \<Longrightarrow> cm_is_ipv6ct_mem (k_ipv6ct_mem k)"
    and "loc_inv (nm_ddr_in_use (k_nat_mem k)) (the_mld IPA_NAT_MEM_IN_DDR k)"
    and "loc_inv (nm_sram_in_use (k_nat_mem k)) (the_mld IPA_NAT_MEM_IN_SRAM k)"
  using assms by (auto simp: driver_inv_def platform_ok_def)

subsection \<open>Allocation and mapping\<close>

lemma loc_inv_realloc:
  "loc_inv False m \<Longrightarrow> va \<noteq> 0 \<longrightarrow> b \<Longrightarrow> loc_inv b (m\<lparr>ml_table_alloc_size := sz, ml_vaddr := va, ml_dma_handle := dh\<rparr>)"
  "loc_inv False m \<Longrightarrow> loc_inv b (m\<lparr>ml_table_alloc_size := sz, ml_phys_addr := pa, ml_io_vaddr := io\<rparr>)"
  "loc_inv False m \<Longrightarrow> loc_inv True (m\<lparr>ml_table_alloc_size := sz, ml_phys_addr := pa, ml_io_vaddr := io, ml_vaddr := va\<rparr>)"
  by (auto simp: loc_inv_def split: if_splits)

lemmas state_defs = upd_nm_def upd_mld_def the_mld_def os_def os_do_def

lemma allocate_in_sram_ok:
  assumes inv: "driver_inv k" shows "op_ok env cnt k (Some (allocate_in_sram env sz k))"
proof (cases "nm_sram_in_use (k_nat_mem k)")
  case False
  obtain io w where io: "ioremap env (ucast (sram_phys_addr env k)) (k_nat_tbl_size k) (k_world k) = (io, w)" by (metis surj_pair)
  show ?thesis
    using inv driver_invD(11) [OF inv] False
    by (auto simp: allocate_in_sram_def Let_def state_defs io [unfolded sram_phys_addr_def] sram_phys_addr_def driver_inv_def platform_ok_def pdn_inv_def
        op_ok_def loc_inv_realloc dest: alloc_countsD(6) [OF _ io])
qed (simp add: allocate_in_sram_def op_ok_same inv)

lemma allocate_in_ddr_ok:
  assumes inv: "driver_inv k" shows "op_ok env cnt k (Some (allocate_in_ddr env sz k))"
proof (cases "nm_ddr_in_use (k_nat_mem k)")
  case False
  obtain va dh w where va: "dma_alloc_coherent env sz (k_world k) = ((va, dh), w)" by (metis surj_pair)
  show ?thesis
    using inv driver_invD(10) [OF inv] False
    by (auto simp: allocate_in_ddr_def Let_def state_defs va driver_inv_def platform_ok_def pdn_inv_def
        op_ok_def loc_inv_realloc dest: alloc_countsD(4) [OF _ va])
qed (simp add: allocate_in_ddr_def op_ok_same inv)

lemma allocate_ipv6ct_ok:
  assumes inv: "driver_inv k" shows "op_ok env cnt k (Some (allocate_ipv6ct env Ipv6ct_Dev sz k))"
proof -
  obtain va dh w where va: "dma_alloc_coherent env sz (k_world k) = ((va, dh), w)" by (metis surj_pair)
  show ?thesis
    using inv
    by (auto simp: allocate_ipv6ct_def Let_def state_defs va driver_inv_def platform_ok_def pdn_inv_def
        op_ok_def dest: alloc_countsD(4) [OF _ va])
qed

lemma allocated_unmapped:
  assumes "driver_inv k" and "(r, k') = (if c then allocate_in_sram env sz k else allocate_in_ddr env sz k)" and "r = 0"
  shows "\<not> ml_is_mapped (the_mld (nm_last_alloc_loc (k_nat_mem k')) k')"
  using assms driver_invD(10,11) [OF assms(1)]
  by (auto simp: allocate_in_sram_def allocate_in_ddr_def Let_def state_defs loc_inv_def errno_defs
      split: if_splits prod.splits)

lemma allocate_nat_mem_ok:
  assumes inv: "driver_inv k"
  obtains r k' where "ipa3_nat_ipv6ct_allocate_mem env Nat_Dev sz IPAHAL_NAT_IPV4 k = Some (r, k')"
    and "op_ok env cnt k (Some (r, k'))"
    and "r = 0 \<Longrightarrow> \<not> ml_is_mapped (the_mld (nm_last_alloc_loc (k_nat_mem k')) k')"
proof -
  note d = driver_invD [OF inv]
  let ?c = "k_sram_compatible k \<and> unat sz \<le> unat (k_nat_tbl_size k)"
  let ?bad = "sz = 0 \<or> \<not> cm_is_dev_init (nm_dev (k_nat_mem k)) \<or> MAX_ALLOC_NAT_SIZE 32 < unat sz"
  obtain r k' where k': "(r, k') = (if ?c then allocate_in_sram env sz k else allocate_in_ddr env sz k)" by (metis surj_pair)
  have ok: "op_ok env cnt k (Some (r, k'))"
    unfolding k' using allocate_in_sram_ok [OF inv, of env cnt sz] allocate_in_ddr_ok [OF inv, of env cnt sz] by simp
  show thesis
  proof (cases ?bad)
    case True
    then have "ipa3_nat_ipv6ct_allocate_mem env Nat_Dev sz IPAHAL_NAT_IPV4 k = Some (- EPERM, k)"
      using d(3,5,6) by (auto simp: ipa3_nat_ipv6ct_allocate_mem_def Let_def)
    then show thesis by (rule that) (simp_all add: op_ok_same inv EPERM_def)
  next
    case False
    then have "ipa3_nat_ipv6ct_allocate_mem env Nat_Dev sz IPAHAL_NAT_IPV4 k = Some (r, k')"
      using d(3,5,6) k' by (auto simp: ipa3_nat_ipv6ct_allocate_mem_def Let_def)
    then show thesis by (rule that [OF _ ok allocated_unmapped [OF inv k']])
  qed
qed

lemma fail_alloc_pdn_ok:
  assumes inv: "driver_inv k" and un: "\<not> ml_is_mapped (the_mld (nm_last_alloc_loc (k_nat_mem k)) k)"
  shows "op_ok env cnt k (Some (r, fail_alloc_pdn env k))"
  using inv un driver_invD(10,11) [OF inv]
  by (cases "nm_last_alloc_loc (k_nat_mem k)")
    (auto simp: fail_alloc_pdn_def Let_def state_defs driver_inv_def platform_ok_def pdn_inv_def op_ok_def loc_inv_def
      dest: alloc_countsD(5,7))

lemma pdn_size:
  "unat (of_nat (16 * (unat (c :: u32) div 16)) :: u32) = 16 * (unat c div 16)"
proof -
  have "16 * (unat c div 16) \<le> unat c" by simp
  also have "\<dots> < 2 ^ 32" using unsigned_less [of c, where 'a = nat] by simp
  finally show ?thesis by (simp only: unat_of_nat) simp
qed

lemma allocate_nat_table_ok:
  fixes k :: "'w ipa3_context"
  assumes inv: "kernel_inv k"
  shows "op_ok env cnt k (ipa3_allocate_nat_table env sz k)"
  unfolding ipa3_allocate_nat_table_def
proof (rule op_ok_with_lock)
  show "driver_inv k" "\<not> cm_lock (the_dev Nat_Dev k)" using inv by (simp_all add: kernel_inv_def)
  fix k :: "'w ipa3_context"
  assume inv: "driver_inv k"
  obtain r k1 where a: "ipa3_nat_ipv6ct_allocate_mem env Nat_Dev sz IPAHAL_NAT_IPV4 k = Some (r, k1)"
      "op_ok env cnt k (Some (r, k1))" "r = 0 \<Longrightarrow> \<not> ml_is_mapped (the_mld (nm_last_alloc_loc (k_nat_mem k1)) k1)"
    using allocate_nat_mem_ok [OF inv, of env sz cnt] by metis
  have inv1: "driver_inv k1" and s1: "same_locks env cnt k k1" using a(2) by (auto simp: op_ok_def same_locks_def)
  let ?sz = "of_nat (16 * (unat (k_pdn_config_size k1) div 16)) :: u32"
  let ?k2 = "upd_nm (\<lambda>nm. nm\<lparr>nm_pdn_mem := (nm_pdn_mem nm)\<lparr>mb_size := ?sz\<rparr>\<rparr>) k1"
  obtain va ph w where va: "dma_alloc_coherent env (ucast ?sz) (k_world k1) = ((va, ph), w)" by (metis surj_pair)
  let ?k3 = "upd_nm (\<lambda>nm. nm\<lparr>nm_pdn_mem := (nm_pdn_mem nm)\<lparr>mb_base := va, mb_phys_base := ph,
               mb_bytes := replicate (unat ?sz) 0\<rparr>\<rparr>) (?k2\<lparr>k_world := w\<rparr>)"
  show "op_ok env cnt k (do {
       (result, k) \<leftarrow> ipa3_nat_ipv6ct_allocate_mem env Nat_Dev sz IPAHAL_NAT_IPV4 k;
       if result \<noteq> 0 then Some (result, k)
       else if IPA_HW_v4_0 \<le> k_hw_type k \<and> mb_base (nm_pdn_mem (k_nat_mem k)) = 0 then do {
         (_, pdn_entry_size) \<leftarrow> ipahal_nat_entry_size (k_hal k) IPAHAL_NAT_IPV4_PDN;
         max_pdn \<leftarrow> ipa3_get_max_pdn k;
         let sz = (of_nat (pdn_entry_size * max_pdn) :: u32);
         let k = upd_nm (\<lambda>nm. nm\<lparr>nm_pdn_mem := (nm_pdn_mem nm)\<lparr>mb_size := sz\<rparr>\<rparr>) k;
         if k_pdn_config_size k < sz then Some (- ENOMEM, fail_alloc_pdn env k)
         else
           let ((va, ph), k) = os (dma_alloc_coherent env (ucast sz)) k;
               k = upd_nm (\<lambda>nm. nm\<lparr>nm_pdn_mem := (nm_pdn_mem nm)\<lparr>mb_base := va, mb_phys_base := ph,
                                                          mb_bytes := replicate (unat sz) 0\<rparr>\<rparr>) k
           in if va = 0 then Some (- ENOMEM, fail_alloc_pdn env k) else Some (0, k)
       }
       else Some (0, k)
     })" (is "op_ok _ _ _ ?body")
  proof (cases "r = 0 \<and> IPA_HW_v4_0 \<le> k_hw_type k1 \<and> mb_base (nm_pdn_mem (k_nat_mem k1)) = 0")
    case False
    then have "?body = Some (r, k1)" by (auto simp: a(1))
    then show ?thesis using a(2) by simp
  next
    case True
    have body: "?body = (if k_pdn_config_size k1 < ?sz then Some (- ENOMEM, fail_alloc_pdn env ?k2)
        else if va = 0 then Some (- ENOMEM, fail_alloc_pdn env ?k3) else Some (0, ?k3))"
      using True platform_max_pdn [OF driver_invD(1) [OF inv1]] va
      by (simp add: a(1) Let_def os_def upd_nm_def)
    have k2: "driver_inv ?k2" "same_locks env cnt k1 ?k2"
        "nm_last_alloc_loc (k_nat_mem ?k2) = nm_last_alloc_loc (k_nat_mem k1)" "the_mld loc ?k2 = the_mld loc k1" for loc
      using inv1 True by (simp_all add: upd_nm_def driver_inv_def platform_ok_def pdn_inv_def the_mld_def same_locks_def)
    have k3: "driver_inv ?k3" "same_locks env cnt k1 ?k3"
        "nm_last_alloc_loc (k_nat_mem ?k3) = nm_last_alloc_loc (k_nat_mem k1)" "the_mld loc ?k3 = the_mld loc k1" for loc
      using inv1 True pdn_size [of "k_pdn_config_size k1"]
      by (simp_all add: upd_nm_def driver_inv_def platform_ok_def pdn_inv_def the_mld_def same_locks_def)
        (metis alloc_countsD(4) va)
    have un: "\<not> ml_is_mapped (the_mld (nm_last_alloc_loc (k_nat_mem k1)) k1)" using True a(3) by simp
    have f2: "op_ok env cnt k1 (Some (- ENOMEM, fail_alloc_pdn env ?k2))"
      by (rule op_ok_from [OF k2(2) fail_alloc_pdn_ok [OF k2(1)]]) (unfold k2(3,4), rule un)
    have f3: "op_ok env cnt k1 (Some (- ENOMEM, fail_alloc_pdn env ?k3))"
      by (rule op_ok_from [OF k3(2) fail_alloc_pdn_ok [OF k3(1)]]) (unfold k3(3,4), rule un)
    have f4: "op_ok env cnt k1 (Some (0, ?k3))" by (rule op_ok_from [OF k3(2) op_ok_same [OF k3(1)]])
    have "op_ok env cnt k1 ?body" unfolding body using f2 f3 f4 by (simp only: split: if_split) blast
    then show ?thesis by (rule op_ok_from [OF s1])
  qed
qed

lemma allocate_ipv6ct_table_ok:
  assumes inv: "kernel_inv k"
  shows "op_ok env cnt k (ipa3_allocate_ipv6ct_table env sz k)"
proof (cases "k_hw_type k < IPA_HW_v4_0")
  case True
  then show ?thesis using inv by (simp add: ipa3_allocate_ipv6ct_table_def op_ok_same kernel_inv_def)
next
  case False
  have "op_ok env cnt k (with_lock Ipv6ct_Dev (ipa3_nat_ipv6ct_allocate_mem env Ipv6ct_Dev sz IPAHAL_NAT_IPV6CT) k)"
  proof (rule op_ok_with_lock)
    show "driver_inv k" "\<not> cm_lock (the_dev Ipv6ct_Dev k)" using inv by (simp_all add: kernel_inv_def)
    fix k1 :: "'a ipa3_context"
    assume inv1: "driver_inv k1"
    note d = driver_invD [OF inv1]
    show "op_ok env cnt k1 (ipa3_nat_ipv6ct_allocate_mem env Ipv6ct_Dev sz IPAHAL_NAT_IPV6CT k1)"
      using d(3,4,7-9) op_ok_same [OF inv1, of env cnt] allocate_ipv6ct_ok [OF inv1, of env cnt sz]
      by (simp add: ipa3_nat_ipv6ct_allocate_mem_def Let_def)
  qed
  then show ?thesis using False by (simp add: ipa3_allocate_ipv6ct_table_def)
qed

text \<open>Changes of one memory's description.\<close>

definition in_use :: "ipa3_nat_mem_in \<Rightarrow> 'w ipa3_context \<Rightarrow> bool" where
  "in_use loc k = (if loc = IPA_NAT_MEM_IN_DDR then nm_ddr_in_use (k_nat_mem k) else nm_sram_in_use (k_nat_mem k))"

lemma driver_inv_loc:
  "driver_inv k \<Longrightarrow> IPA_VALID_NAT_MEM_IN loc \<Longrightarrow> loc_inv (in_use loc k) (the_mld loc k)"
  by (cases loc) (simp_all add: in_use_def driver_invD IPA_VALID_NAT_MEM_IN_def)

lemma driver_inv_world [simp]: "driver_inv (k\<lparr>k_world := w\<rparr>) = driver_inv k"
  by (simp add: driver_inv_def platform_ok_def pdn_inv_def the_mld_def)

lemma driver_inv_mld:
  assumes "driver_inv k" and "IPA_VALID_NAT_MEM_IN loc" and "loc_inv (in_use loc k) (f (the_mld loc k))"
  shows "driver_inv (upd_mld loc f k)"
  using assms by (cases loc) (simp_all add: driver_inv_def platform_ok_def pdn_inv_def upd_mld_def upd_nm_def the_mld_def
      in_use_def IPA_VALID_NAT_MEM_IN_def)

lemma the_mld_world [simp]: "the_mld loc (k\<lparr>k_world := w\<rparr>) = the_mld loc k"
  by (simp add: the_mld_def)

lemma the_mld_upd [simp]: "the_mld loc (upd_mld loc f k) = f (the_mld loc k)"
  by (simp add: the_mld_def upd_mld_def upd_nm_def)

lemma upd_mld_fields [simp]:
  "k_world (upd_mld loc f k) = k_world k" "k_ipv6ct_mem (upd_mld loc f k) = k_ipv6ct_mem k"
  "nm_dev (k_nat_mem (upd_mld loc f k)) = nm_dev (k_nat_mem k)" "in_use loc' (upd_mld loc f k) = in_use loc' k"
  "in_use loc' (k\<lparr>k_world := w\<rparr>) = in_use loc' k"
  by (simp_all add: upd_mld_def upd_nm_def in_use_def)

lemma op_ok_mld:
  assumes "driver_inv k" and "IPA_VALID_NAT_MEM_IN loc" and "loc_inv (in_use loc k) (f (the_mld loc k))"
    and "alloc_counts env cnt \<Longrightarrow> cnt w = cnt (k_world k)"
  shows "op_ok env cnt k (Some (r, (upd_mld loc f k)\<lparr>k_world := w\<rparr>))"
  using assms driver_inv_mld [OF assms(1,2), of f] by (intro op_okI) simp_all

lemma mmap_nat_ok:
  assumes inv: "driver_inv k" and m: "mmap_nat env vma k = (r, vma', k')"
  shows "op_ok env cnt k (Some (r, k'))"
proof -
  define loc where "loc = nm_last_alloc_loc (k_nat_mem k)"
  define m0 where "m0 = the_mld loc k"
  consider "k' = k" | (unmapped) "IPA_VALID_NAT_MEM_IN loc" "ml_vaddr m0 \<noteq> 0" "\<not> ml_is_mapped m0"
      "\<not> (loc = IPA_NAT_MEM_IN_SRAM \<and> (cm_phys_mem_size (the_dev Nat_Dev k) = 0 \<or>
           vm_end vma - vm_start vma < ucast (cm_phys_mem_size (the_dev Nat_Dev k))))"
    using m unfolding mmap_nat_def loc_def [symmetric] m0_def Let_def by (auto split: if_splits)
  then show ?thesis
  proof cases
    case 1
    then show ?thesis using op_ok_same [OF inv] by simp
  next
    case unmapped
    have li: "loc_inv (in_use loc k) m0" unfolding m0_def by (rule driver_inv_loc [OF inv unmapped(1)])
    let ?z = "\<lambda>m. m\<lparr>ml_base_address := 0\<rparr>"
    have z: "loc_inv (in_use loc k) (?z m0)" using li unmapped(3) by (auto simp: loc_inv_def)
    have up: "loc_inv (in_use loc k) (?z m0\<lparr>ml_base_address := ml_vaddr m0, ml_is_mapped := True\<rparr>)"
      using li unmapped(2,3) by (auto simp: loc_inv_def)
    obtain w where w: "k' = (upd_mld loc ?z k)\<lparr>k_world := w\<rparr> \<or>
          k' = upd_mld loc (\<lambda>m. m\<lparr>ml_base_address := ml_vaddr m, ml_is_mapped := True\<rparr>) ((upd_mld loc ?z k)\<lparr>k_world := w\<rparr>)"
        "alloc_counts env cnt \<Longrightarrow> cnt w = cnt (k_world k)"
    proof (cases "loc = IPA_NAT_MEM_IN_DDR")
      case True
      obtain r2 w where d: "dma_mmap_coherent env vma (ml_vaddr m0) (ml_dma_handle m0) (ml_table_alloc_size m0) (k_world k) = (r2, w)"
        by (metis surj_pair)
      show thesis
        using m unmapped True alloc_countsD(8) [OF _ d] unfolding mmap_nat_def loc_def [symmetric] m0_def [symmetric] Let_def
        by (intro that [of w]) (auto simp: os_def d split: if_splits)
    next
      case False
      obtain r2 w where d: "vm_iomap_memory env (pgprot_noncached vma) (ml_phys_addr m0)
          (cm_phys_mem_size (nm_dev (k_nat_mem k))) (k_world k) = (r2, w)" by (metis surj_pair)
      show thesis
        using m unmapped False alloc_countsD(9) [OF _ d] unfolding mmap_nat_def loc_def [symmetric] m0_def [symmetric] Let_def
        by (intro that [of w]) (auto simp: os_def d split: if_splits)
    qed
    have k1: "op_ok env cnt k (Some (r, (upd_mld loc ?z k)\<lparr>k_world := w\<rparr>))"
      by (rule op_ok_mld [OF inv unmapped(1), of ?z]) (use z w(2) in \<open>simp_all add: m0_def\<close>)
    then have i1: "driver_inv ((upd_mld loc ?z k)\<lparr>k_world := w\<rparr>)" by (simp add: op_ok_def)
    show ?thesis
      using w(1)
    proof
      assume "k' = (upd_mld loc ?z k)\<lparr>k_world := w\<rparr>"
      then show ?thesis using k1 by simp
    next
      assume k': "k' = upd_mld loc (\<lambda>m. m\<lparr>ml_base_address := ml_vaddr m, ml_is_mapped := True\<rparr>) ((upd_mld loc ?z k)\<lparr>k_world := w\<rparr>)"
      have "driver_inv k'"
        unfolding k' by (rule driver_inv_mld [OF i1 unmapped(1)]) (use up in \<open>simp add: m0_def\<close>)
      then show ?thesis using w(2) by (intro op_okI) (simp_all add: k')
    qed
  qed
qed

lemma mmap_ipv6ct_ok:
  assumes inv: "driver_inv k" and m: "mmap_ipv6ct env Ipv6ct_Dev vma k = (r, vma', k')"
  shows "op_ok env cnt k (Some (r, k'))"
  using m inv
  by (auto simp: mmap_ipv6ct_def Let_def state_defs driver_inv_def platform_ok_def pdn_inv_def op_ok_def
      dest: alloc_countsD(8) split: if_splits prod.splits)

lemma mmap_ok:
  assumes inv: "kernel_inv k"
  obtains r vma' k' where "ipa3_nat_ipv6ct_mmap env d vma k = Some (r, vma', k')" and "op_ok env cnt k (Some (r, k'))"
proof (cases "cm_is_dev_init (the_dev d k)")
  case False
  then show thesis using that inv by (simp add: ipa3_nat_ipv6ct_mmap_def op_ok_same kernel_inv_def)
next
  case True
  have di: "driver_inv k" and free: "\<not> cm_lock (the_dev d k)" using inv by (cases d; simp add: kernel_inv_def)+
  let ?k1 = "upd_dev d (\<lambda>c. c\<lparr>cm_lock := True\<rparr>) k"
  let ?v = "if smmu_cb_dev env \<and> (\<not> smmu_cb_valid env \<or> \<not> smmu_cb_coherent env) then pgprot_noncached vma else vma"
  have inv1: "driver_inv ?k1" using di by simp
  have nat: "cm_is_nat_mem (the_dev d ?k1) \<longleftrightarrow> d = Nat_Dev" using driver_invD(5,7) [OF inv1] by (cases d) simp_all
  obtain r vma' k' where m: "(if d = Nat_Dev then mmap_nat env ?v ?k1 else mmap_ipv6ct env d ?v ?k1) = (r, vma', k')" by (metis surj_pair)
  have ok: "op_ok env cnt ?k1 (Some (r, k'))"
    using m mmap_nat_ok [OF inv1] mmap_ipv6ct_ok [OF inv1] by (cases d) auto
  have "with_lock d (\<lambda>_. Some (r, k')) k = Some (r, mutex_unlock d k')"
    using free by (simp add: with_lock_def mutex_lock_def)
  moreover have "ipa3_nat_ipv6ct_mmap env d vma k = Some (r, vma', mutex_unlock d k')"
    using True free m unfolding ipa3_nat_ipv6ct_mmap_def Let_def mutex_lock_def
    by (simp add: nat split del: if_split)
  moreover have "op_ok env cnt k (Some (r, mutex_unlock d k'))"
    using ok free by (cases d) (auto simp: op_ok_def mutex_unlock_def driver_inv_lock [of Nat_Dev, simplified]
        driver_inv_lock [of Ipv6ct_Dev, simplified])
  ultimately show thesis by (metis that)
qed

end
