(* ===== verification/Ipa_Nat_Steps.thy ===== *)
theory Ipa_Nat_Steps
  imports Ipa_Nat_Inv
begin

unbundle bit_operations_syntax

section \<open>Every request keeps the kernel's invariant\<close>

text \<open>
  The initialisation, PDN, DMA and deletion requests, and the dispatch of \<open>ipa3_ioctl\<close>: each returns and keeps the
  invariant, whatever its arguments.
\<close>

subsection \<open>Table parameters\<close>

text \<open>An accepted area lies inside the memory it was checked against.\<close>

lemma check_table_params_nat:
  assumes inv: "driver_inv k" and t: "nat_type = IPAHAL_NAT_IPV4 \<and> esz = 32 \<or> nat_type = IPAHAL_NAT_IPV4_INDEX \<and> esz = 4"
  obtains r where "ipa3_nat_ipv6ct_check_table_params Nat_Dev loc ofst n nat_type k = Some r"
    and "r = 0 \<Longrightarrow> unat ofst + esz * unat n \<le> unat (ml_table_alloc_size (the_mld loc k))"
proof -
  note d = driver_invD [OF inv]
  let ?ts = "of_nat esz * ucast n :: u64" and ?o = "ucast ofst :: u64"
  have n: "unat n < 65536" by (rule unat_u16_lt)
  have o: "unat ofst < 2 ^ 32" using unsigned_less [of ofst, where 'a = nat] by simp
  have un: "unat (ucast n :: u64) = unat n" "unat ?o = unat ofst" by (simp_all add: unat_ucast_up)
  have e: "unat (of_nat esz :: u64) = esz" "esz \<le> 32" using t by auto
  have "esz * unat n \<le> 32 * 65536" using n e(2) by (intro mult_le_mono) auto
  then have ts: "unat ?ts = esz * unat n" using n by (simp add: unat_word_ariths un e(1))
  have "unat (?o + ?ts) = unat ofst + esz * unat n"
    using o \<open>esz * unat n \<le> 32 * 65536\<close> by (simp add: unat_word_ariths(1) ts un)
  then have le: "\<not> ml_table_alloc_size (the_mld loc k) < ?o + ?ts \<Longrightarrow>
      unat ofst + esz * unat n \<le> unat (ml_table_alloc_size (the_mld loc k))"
    by (simp add: word_less_nat_alt not_less)
  have sz: "ipahal_nat_entry_size (k_hal k) nat_type = Some (0, esz)" using t d(3) by auto
  have "\<exists>r. ipa3_nat_ipv6ct_check_table_params Nat_Dev loc ofst n nat_type k = Some r \<and>
      (r = 0 \<longrightarrow> unat ofst + esz * unat n \<le> unat (ml_table_alloc_size (the_mld loc k)))"
    using le d(6) unfolding ipa3_nat_ipv6ct_check_table_params_def Let_def sz bind.bind_lunit prod.case
    by (auto simp: errno_defs)
  then show thesis using that by auto
qed

lemma check_table_params_ct:
  assumes inv: "driver_inv k" and v: "IPA_HW_v4_0 \<le> k_hw_type k"
  obtains r where "ipa3_nat_ipv6ct_check_table_params Ipv6ct_Dev loc ofst n IPAHAL_NAT_IPV6CT k = Some r"
proof -
  have sz: "ipahal_nat_entry_size (k_hal k) IPAHAL_NAT_IPV6CT = Some (0, 64)" using driver_invD(3,4) [OF inv] v by simp
  have "\<exists>r. ipa3_nat_ipv6ct_check_table_params Ipv6ct_Dev loc ofst n IPAHAL_NAT_IPV6CT k = Some r"
    unfolding ipa3_nat_ipv6ct_check_table_params_def Let_def sz bind.bind_lunit prod.case by auto
  then show thesis using that by auto
qed

lemma check_nat_init_ok:
  assumes inv: "driver_inv k"
  obtains r where "check_nat_init loc init k = Some r"
    and "r = 0 \<Longrightarrow> unat (i_ipv4_rules_offset init) + 32 * unat (i_table_entries init + 1) \<le> unat (ml_table_alloc_size (the_mld loc k))"
    and "r = 0 \<Longrightarrow> unat (i_expn_rules_offset init) + 32 * unat (i_expn_table_entries init) \<le> unat (ml_table_alloc_size (the_mld loc k))"
    and "r = 0 \<Longrightarrow> unat (i_index_offset init) + 4 * unat (i_table_entries init + 1) \<le> unat (ml_table_alloc_size (the_mld loc k))"
    and "r = 0 \<Longrightarrow> unat (i_index_expn_offset init) + 4 * unat (i_expn_table_entries init) \<le> unat (ml_table_alloc_size (the_mld loc k))"
proof -
  note c = check_table_params_nat [OF inv, of _ _ loc]
  obtain r1 where 1: "ipa3_nat_ipv6ct_check_table_params Nat_Dev loc (i_ipv4_rules_offset init) (i_table_entries init + 1)
      IPAHAL_NAT_IPV4 k = Some r1" "r1 = 0 \<Longrightarrow> unat (i_ipv4_rules_offset init) + 32 * unat (i_table_entries init + 1) \<le>
      unat (ml_table_alloc_size (the_mld loc k))" by (rule c [of IPAHAL_NAT_IPV4 32]) auto
  obtain r2 where 2: "ipa3_nat_ipv6ct_check_table_params Nat_Dev loc (i_expn_rules_offset init) (i_expn_table_entries init)
      IPAHAL_NAT_IPV4 k = Some r2" "r2 = 0 \<Longrightarrow> unat (i_expn_rules_offset init) + 32 * unat (i_expn_table_entries init) \<le>
      unat (ml_table_alloc_size (the_mld loc k))" by (rule c [of IPAHAL_NAT_IPV4 32]) auto
  obtain r3 where 3: "ipa3_nat_ipv6ct_check_table_params Nat_Dev loc (i_index_offset init) (i_table_entries init + 1)
      IPAHAL_NAT_IPV4_INDEX k = Some r3" "r3 = 0 \<Longrightarrow> unat (i_index_offset init) + 4 * unat (i_table_entries init + 1) \<le>
      unat (ml_table_alloc_size (the_mld loc k))" by (rule c [of IPAHAL_NAT_IPV4_INDEX 4]) auto
  obtain r4 where 4: "ipa3_nat_ipv6ct_check_table_params Nat_Dev loc (i_index_expn_offset init) (i_expn_table_entries init)
      IPAHAL_NAT_IPV4_INDEX k = Some r4" "r4 = 0 \<Longrightarrow> unat (i_index_expn_offset init) + 4 * unat (i_expn_table_entries init) \<le>
      unat (ml_table_alloc_size (the_mld loc k))" by (rule c [of IPAHAL_NAT_IPV4_INDEX 4]) auto
  show thesis
    by (rule that [of "if r1 \<noteq> 0 then r1 else if r2 \<noteq> 0 then r2 else if r3 \<noteq> 0 then r3 else r4"])
      (use 1(2) 2(2) 3(2) 4(2) in \<open>simp_all add: check_nat_init_def 1(1) 2(1) 3(1) 4(1) split: if_splits\<close>)
qed

lemma store_public_ip_ok:
  assumes inv: "driver_inv k"
  obtains r k' where "store_public_ip init k = Some (r, k')" and "same_driver k k'" and "k_world k' = k_world k"
proof (cases "IPA_HW_v4_0 \<le> k_hw_type k \<and> mb_base (nm_pdn_mem (k_nat_mem k)) \<noteq> 0 \<and> \<not> i_focus_change init")
  case False
  then show thesis using that [of 0 k] by (auto simp: store_public_ip_def)
next
  case True
  note d = driver_invD [OF inv]
  let ?p = "nm_pdn_mem (k_nat_mem k)"
  have "length (mb_bytes ?p) = 16 * (unat (k_pdn_config_size k) div 16)" "16 \<le> unat (k_pdn_config_size k)"
    using d(1,2) True by (auto simp: pdn_inv_def platform_ok_def Let_def)
  then have "16 \<le> length (mb_bytes ?p)" by simp
  then obtain bs where bs: "ipahal_nat_construct_entry (k_hal k) IPAHAL_NAT_IPV4_PDN
      \<lparr>pf_public_ip = i_ip_addr init, pf_src_metadata = 0, pf_dst_metadata = 0\<rparr> (mb_bytes ?p) 0 = Some (0, bs)"
      "length bs = length (mb_bytes ?p)"
    using d(3,4) True by (auto simp: ready_construct_pdn ipa_nat_ipv4_pdn_construct_entry_v_4_0_def write_bytes_def bytes_le_def)
  have "same_driver k (upd_nm (\<lambda>nm. nm\<lparr>nm_pdn_mem := (nm_pdn_mem nm)\<lparr>mb_bytes := bs\<rparr>\<rparr>) k)"
    unfolding same_driver_def upd_nm_def by (rule exI [of _ "k_world k"], rule exI [of _ bs]) (simp add: bs(2))
  then show thesis using that True by (simp add: store_public_ip_def bs(1) upd_nm_def)
qed

subsection \<open>Initialisation requests\<close>

lemma init_structure_ok:
  assumes inv: "driver_inv k" and loc: "IPA_VALID_NAT_MEM_IN loc" and m: "ml_is_mapped (the_mld loc k)"
    and n: "n_base \<noteq> 0xFFFF"
    and le: "unat o1 + 32 * unat (n_base + 1) \<le> unat (ml_table_alloc_size (the_mld loc k))"
      "unat o2 + 32 * unat n_expn \<le> unat (ml_table_alloc_size (the_mld loc k))"
      "unat o3 + 4 * unat (n_base + 1) \<le> unat (ml_table_alloc_size (the_mld loc k))"
      "unat o4 + 4 * unat n_expn \<le> unat (ml_table_alloc_size (the_mld loc k))"
    and k': "ipa3_nat_ipv6ct_init_device_structure Nat_Dev loc o1 o2 n_base n_expn o3 o4 focus k = (r, k')"
  shows "driver_inv k'" and "k_world k' = k_world k" and "k_ipv6ct_mem k' = k_ipv6ct_mem k"
    and "nm_dev (k_nat_mem k') = nm_dev (k_nat_mem k)"
proof -
  note d = driver_invD [OF inv]
  let ?f = "\<lambda>m. m\<lparr>ml_base_table_addr := ml_base_address m + ucast o1, ml_expansion_table_addr := ml_base_address m + ucast o2,
       ml_table_entries := ucast n_base, ml_expn_table_entries := ucast n_expn,
       ml_index_table_addr := ml_base_address m + ucast o3, ml_index_table_expansion_addr := ml_base_address m + ucast o4\<rparr>"
  let ?k1 = "upd_mld loc ?f (upd_nm (\<lambda>nm. nm\<lparr>nm_active_table := loc\<rparr>) k)"
  have ne: "unat n_base < 65535"
    using n unat_u16_lt [of n_base] by (metis less_antisym numeral_eq_Suc unat_Suc_u16 word_eq_of_natI u16_eq_iff_unat
        unat_of_nat_u16 Suc_numeral less_SucE semiring_norm(2,5,8) pred_numeral_simps(2,3) of_nat_numeral)
  have n1: "unat (n_base + 1) = unat n_base + 1" using unat_Suc_u16 [OF ne] by simp
  have li: "loc_inv (in_use loc k) (the_mld loc k)" by (rule driver_inv_loc [OF inv loc])
  have fi: "loc_inv (in_use loc k) (?f (the_mld loc k))"
    using li m le ne unat_u16_lt [of n_expn]
    by (auto simp: loc_inv_def tables_inside_def inside_def Let_def n1)
  let ?ka = "upd_nm (\<lambda>nm. nm\<lparr>nm_active_table := loc\<rparr>) k"
  have a: "driver_inv ?ka" "in_use loc ?ka = in_use loc k" "the_mld loc ?ka = the_mld loc k"
    using inv by (simp_all add: driver_inv_def platform_ok_def pdn_inv_def upd_nm_def the_mld_def in_use_def)
  have i1: "driver_inv ?k1"
    by (rule driver_inv_mld [OF a(1) loc, of ?f]) (unfold a(2,3), rule fi)
  have c: "driver_inv (upd_nm (\<lambda>nm. nm\<lparr>nm_switch2ddr_cnt := x nm\<rparr>) ?k1)"
      "driver_inv (upd_nm (\<lambda>nm. nm\<lparr>nm_switch2sram_cnt := x nm\<rparr>) ?k1)" for x
    using i1 by (simp_all add: driver_inv_def platform_ok_def pdn_inv_def upd_nm_def the_mld_def in_use_def)
  have "k' = ?k1 \<or> k' = upd_nm (\<lambda>nm. nm\<lparr>nm_switch2ddr_cnt := nm_switch2ddr_cnt nm + 1\<rparr>) ?k1 \<or>
      k' = upd_nm (\<lambda>nm. nm\<lparr>nm_switch2sram_cnt := nm_switch2sram_cnt nm + 1\<rparr>) ?k1"
    using k' d(5,6) unfolding ipa3_nat_ipv6ct_init_device_structure_def Let_def by (auto split: if_splits)
  then show "driver_inv k'" and "k_world k' = k_world k" and "k_ipv6ct_mem k' = k_ipv6ct_mem k"
    and "nm_dev (k_nat_mem k') = nm_dev (k_nat_mem k)"
    using i1 c by (auto simp: upd_nm_def)
qed

lemma nat_init_cmd_ok:
  assumes inv: "driver_inv k"
  shows "op_ok env cnt k (ipa3_nat_init_cmd env init0 k)"
proof -
  define init where "init = (if k_sram_compatible k then init0 else init0\<lparr>i_mem_type := 0, i_focus_change := False\<rparr>)"
  define loc where "loc = nmi_of (ucast (i_mem_type init))"
  define cmd where "cmd = (if loc = IPA_NAT_MEM_IN_DDR
      then ipa3_nat_create_init_cmd init False (ml_dma_handle (the_mld loc k)) k
      else ipa3_nat_create_init_cmd init True (ucast (k_nat_tbl_ofst k)) k)"
  let ?bad = "\<not> IPA_VALID_TBL_INDEX (i_tbl_index init) \<or> i_table_entries init = 0 \<or> i_table_entries init = 0xFFFF \<or>
      \<not> IPA_VALID_NAT_MEM_IN loc \<or> \<not> ml_is_mapped (the_mld loc k)"
  obtain r1 where c: "check_nat_init loc init k = Some r1"
    "r1 = 0 \<Longrightarrow> unat (i_ipv4_rules_offset init) + 32 * unat (i_table_entries init + 1) \<le> unat (ml_table_alloc_size (the_mld loc k))"
    "r1 = 0 \<Longrightarrow> unat (i_expn_rules_offset init) + 32 * unat (i_expn_table_entries init) \<le> unat (ml_table_alloc_size (the_mld loc k))"
    "r1 = 0 \<Longrightarrow> unat (i_index_offset init) + 4 * unat (i_table_entries init + 1) \<le> unat (ml_table_alloc_size (the_mld loc k))"
    "r1 = 0 \<Longrightarrow> unat (i_index_expn_offset init) + 4 * unat (i_expn_table_entries init) \<le> unat (ml_table_alloc_size (the_mld loc k))"
    using check_nat_init_ok [OF inv, of loc init] by metis
  obtain r2 k2 where s: "store_public_ip init k = Some (r2, k2)" "same_driver k k2" "k_world k2 = k_world k"
    using store_public_ip_ok [OF inv, of init] by metis
  have i2: "driver_inv k2" by (rule same_driver_inv [OF s(2) inv])
  obtain r3 k3 where t: "ipa3_nat_send_init_cmd env cmd False k2 = Some (r3, k3)" "same_driver k2 k3"
      "alloc_counts env cnt \<longrightarrow> cnt (k_world k3) = cnt (k_world k2)"
    using nat_send_init_ok [OF driver_invD(1,2) [OF i2], of env cnt cmd False] by (auto simp: call_ok_def)
  have s3: "same_driver k k3" by (rule same_driver_trans [OF s(2) t(2)])
  have i3: "driver_inv k3" by (rule same_driver_inv [OF s3 inv])
  obtain r4 k4 where u: "ipa3_nat_ipv6ct_init_device_structure Nat_Dev loc (i_ipv4_rules_offset init)
      (i_expn_rules_offset init) (i_table_entries init) (i_expn_table_entries init)
      (i_index_offset init) (i_index_expn_offset init) (i_focus_change init) k3 = (r4, k4)" by (metis surj_pair)
  let ?k5 = "upd_dev Nat_Dev (\<lambda>c. c\<lparr>cm_is_hw_init := True\<rparr>) (upd_nm (\<lambda>nm. nm\<lparr>nm_public_ip_addr := i_ip_addr init\<rparr>) k4)"
  have m3: "the_mld loc k3 = the_mld loc k" by (simp add: the_mld_def same_driver_fields [OF s3])
  have eq: "ipa3_nat_init_cmd env init0 k =
      (if ?bad then Some (- EPERM, k) else if r1 \<noteq> 0 then Some (r1, k) else if r2 \<noteq> 0 then Some (r2, k2)
       else if r3 \<noteq> 0 then Some (r3, k3) else if r4 \<noteq> 0 then Some (r4, k4) else Some (0, ?k5))"
    unfolding ipa3_nat_init_cmd_def Let_def init_def [symmetric] loc_def [symmetric] cmd_def [symmetric]
    by (simp add: c(1) s(1) t(1) u)
  have k4: "op_ok env cnt k (Some (r4, k4))" and k5: "op_ok env cnt k (Some (0, ?k5))" if "\<not> ?bad" "r1 = 0"
  proof -
    note st = init_structure_ok [OF i3 _ _ _ _ _ _ _ u]
    have x: "driver_inv k4" "k_world k4 = k_world k3" "k_ipv6ct_mem k4 = k_ipv6ct_mem k3"
        "nm_dev (k_nat_mem k4) = nm_dev (k_nat_mem k3)"
      using st that c(2-5) by (simp_all add: m3)
    then show "op_ok env cnt k (Some (r4, k4))" using t(3) s(3) by (intro op_okI) (simp_all add: same_driver_fields [OF s3])
    have "driver_inv ?k5" using x(1) by (simp add: driver_inv_def platform_ok_def pdn_inv_def upd_nm_def the_mld_def)
    then show "op_ok env cnt k (Some (0, ?k5))"
      using x t(3) s(3) by (intro op_okI) (simp_all add: same_driver_fields [OF s3] upd_nm_def)
  qed
  have k2: "op_ok env cnt k (Some (r2, k2))" using i2 s by (intro op_okI) (simp_all add: same_driver_fields [OF s(2)])
  have k3: "op_ok env cnt k (Some (r3, k3))" using i3 t(3) s(3) by (intro op_okI) (simp_all add: same_driver_fields [OF s3])
  show ?thesis
  proof (cases "?bad \<or> r1 \<noteq> 0")
    case True
    then show ?thesis unfolding eq using op_ok_same [OF inv, of env cnt] by auto
  next
    case False
    then show ?thesis unfolding eq using k2 k3 k4 k5 by auto
  qed
qed

lemma driver_inv_ct:
  assumes "driver_inv k" and "cm_is_nat_mem c = cm_is_nat_mem (k_ipv6ct_mem k)"
    and "cm_is_ipv6ct_mem c = cm_is_ipv6ct_mem (k_ipv6ct_mem k)" and "cm_is_dev_init c = cm_is_dev_init (k_ipv6ct_mem k)"
  shows "driver_inv (k\<lparr>k_ipv6ct_mem := c\<rparr>)"
  using assms by (simp add: driver_inv_def platform_ok_def pdn_inv_def the_mld_def)

lemma ct_init_cmd_ok:
  assumes inv: "driver_inv k"
  shows "op_ok env cnt k (ipa3_ipv6ct_init_cmd env init k)"
proof (cases "k_hw_type k < IPA_HW_v4_0 \<or> \<not> IPA_VALID_TBL_INDEX (ci_tbl_index init) \<or> ci_table_entries init = 0 \<or>
    \<not> cm_is_mapped (k_ipv6ct_mem k)")
  case True
  then show ?thesis using op_ok_same [OF inv, of env cnt] by (auto simp: ipa3_ipv6ct_init_cmd_def Let_def)
next
  case False
  then have v: "IPA_HW_v4_0 \<le> k_hw_type k" by simp
  note d = driver_invD [OF inv]
  define cmd where "cmd = \<lparr>c6_table_init = ipa3_nat_ipv6ct_create_init_cmd False (cm_dma_handle (k_ipv6ct_mem k)) (ci_tbl_index init)
      (ci_base_table_offset init) (ci_expn_table_offset init) (ci_table_entries init) (ci_expn_table_entries init)\<rparr>"
  obtain r1 where 1: "ipa3_nat_ipv6ct_check_table_params Ipv6ct_Dev IPA_NAT_MEM_IN_DDR (ci_base_table_offset init)
      (ci_table_entries init + 1) IPAHAL_NAT_IPV6CT k = Some r1" using check_table_params_ct [OF inv v] by metis
  obtain r2 where 2: "ipa3_nat_ipv6ct_check_table_params Ipv6ct_Dev IPA_NAT_MEM_IN_DDR (ci_expn_table_offset init)
      (ci_expn_table_entries init) IPAHAL_NAT_IPV6CT k = Some r2" using check_table_params_ct [OF inv v] by metis
  obtain r3 k3 where t: "ipa3_ipv6ct_send_init_cmd env cmd k = Some (r3, k3)" "same_driver k k3"
      "alloc_counts env cnt \<longrightarrow> cnt (k_world k3) = cnt (k_world k)"
    using ct_send_init_ok [OF d(1) v, of env cnt cmd] by (auto simp: call_ok_def)
  have i3: "driver_inv k3" by (rule same_driver_inv [OF t(2) inv])
  obtain r4 k4 where u: "ipa3_nat_ipv6ct_init_device_structure Ipv6ct_Dev IPA_NAT_MEM_IN_DDR (ci_base_table_offset init)
      (ci_expn_table_offset init) (ci_table_entries init) (ci_expn_table_entries init) 0 0 False k3 = (r4, k4)"
    by (metis surj_pair)
  let ?k5 = "upd_dev Ipv6ct_Dev (\<lambda>c. c\<lparr>cm_is_hw_init := True\<rparr>) k4"
  have eq: "ipa3_ipv6ct_init_cmd env init k =
      (if r1 \<noteq> 0 then Some (r1, k) else if r2 \<noteq> 0 then Some (r2, k) else if r3 \<noteq> 0 then Some (r3, k3) else Some (0, ?k5))"
    using False unfolding ipa3_ipv6ct_init_cmd_def Let_def the_dev.simps cmd_def [symmetric] by (simp add: 1 2 t(1) u)
  have k3: "op_ok env cnt k (Some (r3, k3))" using i3 t(3) by (intro op_okI) (simp_all add: same_driver_fields [OF t(2)])
  have k5: "op_ok env cnt k (Some (0, ?k5))"
  proof -
    define c where "c = k_ipv6ct_mem ?k5"
    have "k4 = k3 \<or> k4 = upd_dev Ipv6ct_Dev (\<lambda>c. c\<lparr>cm_base_table_addr := cm_base_address c + ucast (ci_base_table_offset init),
            cm_expansion_table_addr := cm_base_address c + ucast (ci_expn_table_offset init),
            cm_table_entries := ucast (ci_table_entries init), cm_expn_table_entries := ucast (ci_expn_table_entries init)\<rparr>) k3"
      using u driver_invD(7) [OF i3] unfolding ipa3_nat_ipv6ct_init_device_structure_def by (auto split: if_splits)
    then have "?k5 = k3\<lparr>k_ipv6ct_mem := c\<rparr>" "cm_is_nat_mem c = cm_is_nat_mem (k_ipv6ct_mem k3)"
        "cm_is_ipv6ct_mem c = cm_is_ipv6ct_mem (k_ipv6ct_mem k3)" "cm_is_dev_init c = cm_is_dev_init (k_ipv6ct_mem k3)"
        "cm_lock c = cm_lock (k_ipv6ct_mem k3)"
      by (auto simp: c_def)
    then show ?thesis using driver_inv_ct [OF i3, of c] t(3) by (intro op_okI) (simp_all add: same_driver_fields [OF t(2)])
  qed
  show ?thesis unfolding eq using k3 k5 op_ok_same [OF inv, of env cnt] by auto
qed

subsection \<open>Changing the PDN configuration\<close>

lemma construct_pdn_at:
  assumes inv: "driver_inv k" and v: "IPA_HW_v4_0 \<le> k_hw_type k" and b: "mb_base (nm_pdn_mem (k_nat_mem k)) \<noteq> 0"
    and i: "i < unat (k_pdn_config_size k) div 16"
  obtains bs where "ipahal_nat_construct_entry (k_hal k) IPAHAL_NAT_IPV4_PDN f (mb_bytes (nm_pdn_mem (k_nat_mem k))) (i * 16) = Some (0, bs)"
    and "write_bytes (mb_bytes (nm_pdn_mem (k_nat_mem k))) (i * 16) (bytes_le 16 (pack_bits (hw_pdn_bits
          \<lparr>hp_public_ip = pf_public_ip f, hp_src_metadata = pf_src_metadata f, hp_dst_metadata = pf_dst_metadata f,
           hp_resrvd = 0\<rparr>))) = Some bs"
    and "length bs = length (mb_bytes (nm_pdn_mem (k_nat_mem k)))"
proof -
  note d = driver_invD [OF inv]
  let ?m = "mb_bytes (nm_pdn_mem (k_nat_mem k))"
  have "length ?m = 16 * (unat (k_pdn_config_size k) div 16)"
    using d(2) b by (auto simp: pdn_inv_def Let_def)
  then have le: "i * 16 + 16 \<le> length ?m" using i by simp
  define e where "e = bytes_le 16 (pack_bits (hw_pdn_bits
          \<lparr>hp_public_ip = pf_public_ip f, hp_src_metadata = pf_src_metadata f, hp_dst_metadata = pf_dst_metadata f,
           hp_resrvd = 0\<rparr>))"
  have "length e = 16" by (simp add: e_def bytes_le_def)
  then obtain bs where w: "write_bytes ?m (i * 16) e = Some bs" using le by (simp add: write_bytes_def)
  show thesis
    by (rule that [of bs]) (use d(3,4) v w write_bytes_length [OF w] in
      \<open>simp_all add: ready_construct_pdn ipa_nat_ipv4_pdn_construct_entry_v_4_0_def e_def\<close>)
qed

lemma mdfy_pdn_ok:
  fixes k :: "'w ipa3_context"
  assumes inv: "kernel_inv k"
  shows "op_ok env cnt k (ipa3_nat_mdfy_pdn env e k)"
  unfolding ipa3_nat_mdfy_pdn_def
proof (rule op_ok_with_lock)
  show "driver_inv k" "\<not> cm_lock (the_dev Nat_Dev k)" using inv by (simp_all add: kernel_inv_def)
  fix k :: "'w ipa3_context"
  assume inv: "driver_inv k"
  note d = driver_invD [OF inv]
  let ?p = "nm_pdn_mem (k_nat_mem k)"
  let ?f = "\<lparr>pf_public_ip = pe_public_ip e,
      pf_src_metadata = (if k_hw_type k = IPA_HW_v4_1 then pe_src_metadata e OR IPA_QMAP_TETH_BIT else pe_src_metadata e),
      pf_dst_metadata = pe_dst_metadata e\<rparr>"
  show "op_ok env cnt k (let pdn = ?p
       in if k_hw_type k < IPA_HW_v4_0 then Some (- EPERM, k)
          else if mb_base pdn = 0 then Some (- EPERM, k)
          else do {
            max_pdn \<leftarrow> ipa3_get_max_pdn k;
            if int max_pdn - 1 < int (unat (pe_pdn_index e)) then Some (- EPERM, k)
            else do {
              let pdn_fields = ?f;
              (r, esz) \<leftarrow> ipahal_nat_entry_size (k_hal k) IPAHAL_NAT_IPV4_PDN;
              if r \<noteq> 0 then Some (r, k)
              else do {
                (r, bytes) \<leftarrow> ipahal_nat_construct_entry (k_hal k) IPAHAL_NAT_IPV4_PDN pdn_fields (mb_bytes pdn)
                               (unat (pe_pdn_index e) * esz);
                let k = upd_nm (\<lambda>nm. nm\<lparr>nm_pdn_mem := pdn\<lparr>mb_bytes := bytes\<rparr>\<rparr>) k;
                if r \<noteq> 0 then Some (r, k)
                else do {
                  (r, mem_cmd, k) \<leftarrow> ipa3_nat_create_modify_pdn_cmd False k;
                  if r \<noteq> 0 then Some (r, k)
                  else destroy_imm_cmd env
                         (on_ok (construct_cmd env 1 IPA_IMM_CMD_DMA_SHARED_MEM (Prm_dma_shared_mem mem_cmd) (- ENOMEM) [] k)
                           (send_pylds env))
                }
              }
            }
          })" (is "op_ok _ _ _ ?body")
  proof (cases "k_hw_type k < IPA_HW_v4_0 \<or> mb_base ?p = 0 \<or>
      int (unat (k_pdn_config_size k) div 16) - 1 < int (unat (pe_pdn_index e))")
    case True
    then have "?body = Some (- EPERM, k)" using platform_max_pdn [OF d(1)] by (auto simp: Let_def)
    then show ?thesis using op_ok_same [OF inv, of env cnt] by simp
  next
    case False
    then have v: "IPA_HW_v4_0 \<le> k_hw_type k" and b: "mb_base ?p \<noteq> 0"
      and ni: "\<not> int (unat (k_pdn_config_size k) div 16) - 1 < int (unat (pe_pdn_index e))" by (simp, simp, blast)
    have i: "unat (pe_pdn_index e) < unat (k_pdn_config_size k) div 16" using ni by linarith
    obtain bs where bs: "ipahal_nat_construct_entry (k_hal k) IPAHAL_NAT_IPV4_PDN ?f (mb_bytes ?p)
        (unat (pe_pdn_index e) * 16) = Some (0, bs)" "length bs = length (mb_bytes ?p)"
      using construct_pdn_at [OF inv v b i] by metis
    let ?k1 = "upd_nm (\<lambda>nm. nm\<lparr>nm_pdn_mem := ?p\<lparr>mb_bytes := bs\<rparr>\<rparr>) k"
    have s1: "same_driver k ?k1" "k_world ?k1 = k_world k"
      unfolding same_driver_def upd_nm_def by (rule exI [of _ "k_world k"], rule exI [of _ bs]) (simp_all add: bs(2))
    have i1: "driver_inv ?k1" by (rule same_driver_inv [OF s1(1) inv])
    have v1: "IPA_HW_v4_0 \<le> k_hw_type ?k1" using v by (simp add: upd_nm_def)
    obtain r c k2 where m: "ipa3_nat_create_modify_pdn_cmd False ?k1 = Some (r, c, k2)" "same_driver ?k1 k2"
        "k_world k2 = k_world ?k1"
      by (rule modify_pdn_cmd_ok [OF driver_invD(1,2) [OF i1] v1])
    have s2: "same_driver k k2" by (rule same_driver_trans [OF s1(1) m(2)])
    have i2: "driver_inv k2" by (rule same_driver_inv [OF s2 inv])
    have l2: "same_locks env cnt k k2" using m(3) s1(2) by (simp add: same_locks_def same_driver_fields [OF s2])
    have "step_ok env cnt (1 + 0) k2 [] (on_ok (construct_cmd env 1 IPA_IMM_CMD_DMA_SHARED_MEM (Prm_dma_shared_mem c) (- ENOMEM) [] k2)
        (send_pylds env))"
      using driver_invD(3) [OF i2] by (intro step_ok_on_ok step_ok_construct step_ok_send) (simp_all add: drv_cmd_def)
    from op_ok_from [OF l2 op_ok_call [OF i2 call_ok_destroy [OF this]]]
    have dest: "op_ok env cnt k (destroy_imm_cmd env (on_ok (construct_cmd env 1 IPA_IMM_CMD_DMA_SHARED_MEM
        (Prm_dma_shared_mem c) (- ENOMEM) [] k2) (send_pylds env)))" .
    have "?body = (if r \<noteq> 0 then Some (r, k2) else destroy_imm_cmd env (on_ok (construct_cmd env 1 IPA_IMM_CMD_DMA_SHARED_MEM
        (Prm_dma_shared_mem c) (- ENOMEM) [] k2) (send_pylds env)))"
      using False platform_max_pdn [OF d(1) v] bs(1) m(1) by (simp add: Let_def)
    then show ?thesis using dest op_ok_from [OF l2 op_ok_same [OF i2]] by simp
  qed
qed

subsection \<open>DMA requests\<close>

text \<open>The tables a DMA command can name, and what validation checks of one command.\<close>

definition table_bytes :: "ipa3_nat_mem_in \<Rightarrow> u8 \<Rightarrow> 'w ipa3_context \<Rightarrow> nat" where
  "table_bytes loc b k =
     (let m = the_mld loc k; c = k_ipv6ct_mem k
      in if b = 0 then 32 * unat (ml_table_entries m + 1) else if b = 1 then 32 * unat (ml_expn_table_entries m)
         else if b = 2 then 4 * unat (ml_table_entries m + 1) else if b = 3 then 4 * unat (ml_expn_table_entries m)
         else if b = 4 then 64 * unat (cm_table_entries c + 1) else if b = 5 then 64 * unat (cm_expn_table_entries c) else 0)"

definition dma_valid :: "ipa3_nat_mem_in \<Rightarrow> 'w ipa3_context \<Rightarrow> ipa_ioc_nat_dma_one \<Rightarrow> bool" where
  "dma_valid loc k x \<longleftrightarrow>
     d_table_index x = 0 \<and> d_base_addr x \<le> 5 \<and>
     (if d_base_addr x < 4 then cm_is_hw_init (nm_dev (k_nat_mem k))
      else IPA_HW_v4_0 \<le> k_hw_type k \<and> cm_is_hw_init (k_ipv6ct_mem k)) \<and>
     d_offset x < of_nat (table_bytes loc (d_base_addr x) k)"

lemma u8_le5: "(b :: u8) \<le> 5 \<Longrightarrow> b \<in> {0, 1, 2, 3, 4, 5}"
proof -
  assume "b \<le> 5"
  then have "unat b \<in> {0, 1, 2, 3, 4, 5}" by (auto simp: word_le_nat_alt)
  then show ?thesis by (auto simp: word_unat_eq_iff)
qed

lemma u8_ge1: "(1 \<le> (t :: u8)) = (t \<noteq> 0)"
  by (simp add: word_le_nat_alt word_neq_0_conv word_less_nat_alt Suc_le_eq)

lemma table_size_ok:
  assumes inv: "driver_inv k" and b: "b < 4 \<or> (b = 4 \<or> b = 5) \<and> IPA_HW_v4_0 \<le> k_hw_type k"
  shows "ipa3_nat_ipv6ct_calculate_table_size loc b k = Some (of_nat (table_bytes loc b k))"
proof -
  note d = driver_invD [OF inv]
  have "b \<in> {0, 1, 2, 3, 4, 5}"
  proof (rule u8_le5)
    show "b \<le> 5" using b by (auto simp: word_le_nat_alt word_less_nat_alt)
  qed
  moreover have "\<not> (4 :: u8) < 4" "\<not> (5 :: u8) < 4" by (simp_all add: word_less_nat_alt)
  ultimately show ?thesis
    using d(3,4) b by (auto simp: ipa3_nat_ipv6ct_calculate_table_size_def table_num_entries_def table_bytes_def Let_def)
qed

lemma validate_one:
  assumes inv: "driver_inv k"
  shows "ipa3_table_validate_table_dma_one loc x k = Some (if dma_valid loc k x then 0 else - EPERM)"
proof -
  have four: "(0::u8) < 4" "(1::u8) < 4" "(2::u8) < 4" "(3::u8) < 4" "\<not> (4::u8) < 4" "\<not> (5::u8) < 4"
    by (simp_all add: word_less_nat_alt)
  consider (big) "\<not> d_base_addr x \<le> 5" | (nat) "d_base_addr x < 4" | (ct) "d_base_addr x = 4 \<or> d_base_addr x = 5" "\<not> d_base_addr x < 4"
  proof (cases "d_base_addr x \<le> 5")
    case True
    then have "d_base_addr x < 4 \<or> (d_base_addr x = 4 \<or> d_base_addr x = 5) \<and> \<not> d_base_addr x < 4"
      using u8_le5 [OF True] four by (elim insertE emptyE) simp_all
    then show thesis using that by blast
  qed (rule that)
  then show ?thesis
  proof cases
    case big
    then have "\<not> d_base_addr x < 4" "d_base_addr x \<noteq> 4" "d_base_addr x \<noteq> 5" "5 < d_base_addr x"
      by (auto simp: word_le_nat_alt word_less_nat_alt)
    then show ?thesis using big by (simp add: ipa3_table_validate_table_dma_one_def dma_valid_def)
  next
    case nat
    then have b: "d_base_addr x \<le> 5" "d_base_addr x \<noteq> 4" "d_base_addr x \<noteq> 5" "\<not> 5 < d_base_addr x"
      by (auto simp: word_le_nat_alt word_less_nat_alt)
    have t: "ipa3_nat_ipv6ct_calculate_table_size loc (d_base_addr x) k = Some (of_nat (table_bytes loc (d_base_addr x) k))"
      using table_size_ok [OF inv] nat by simp
    show ?thesis
      using nat b by (auto simp: ipa3_table_validate_table_dma_one_def dma_valid_def t u8_ge1 not_less)
  next
    case ct
    then have b: "d_base_addr x \<le> 5" "\<not> 5 < d_base_addr x" by (auto simp: word_le_nat_alt word_less_nat_alt)
    show ?thesis
    proof (cases "k_hw_type k < IPA_HW_v4_0")
      case True
      then show ?thesis using ct b by (auto simp: ipa3_table_validate_table_dma_one_def dma_valid_def u8_ge1)
    next
      case False
      then have t: "ipa3_nat_ipv6ct_calculate_table_size loc (d_base_addr x) k = Some (of_nat (table_bytes loc (d_base_addr x) k))"
        using table_size_ok [OF inv] ct by simp
      show ?thesis
        using ct b False by (auto simp: ipa3_table_validate_table_dma_one_def dma_valid_def t u8_ge1 not_less)
    qed
  qed
qed

lemma validate_all_eq:
  assumes inv: "driver_inv k" and "n \<le> length xs"
  shows "validate_all loc n xs k = Some (if \<forall>x\<in>set (take n xs). dma_valid loc k x then 0 else - EPERM)"
  using assms(2)
proof (induction n arbitrary: xs)
  case (Suc n)
  then obtain x ys where xs: "xs = x # ys" "n \<le> length ys" by (cases xs) auto
  show ?case using Suc.IH [OF xs(2)] by (simp add: xs(1) validate_one [OF inv] EPERM_def)
qed simp

lemma construct_dma_ok:
  assumes "platform_ok k" and "length ps + length xs \<le> cap"
    and "c = (if IPA_HW_v4_0 \<le> k_hw_type k then IPA_IMM_CMD_TABLE_DMA else IPA_IMM_CMD_NAT_DMA)"
  shows "step_ok env cnt (length xs) k ps (construct_dma env cap c xs ps k)"
  using assms
proof (induction xs arbitrary: ps k)
  case (Cons x xs)
  note p = platform_okD [OF Cons.prems(1)]
  have "step_ok env cnt (1 + length xs) k ps
      (on_ok (construct_cmd env cap c (Prm_table_dma (dma_one_cmd x)) (- ENOMEM) ps k) (construct_dma env cap c xs))"
  proof (rule step_ok_on_ok)
    show "step_ok env cnt 1 k ps (construct_cmd env cap c (Prm_table_dma (dma_one_cmd x)) (- ENOMEM) ps k)"
      using p Cons.prems by (intro step_ok_construct) (simp_all add: drv_cmd_def)
    fix ps' :: "ipahal_imm_cmd_pyld list" and k' :: "'a ipa3_context"
    assume s: "same_driver k k'" and l: "length ps' \<le> length ps + 1"
    show "step_ok env cnt (length xs) k' ps' (construct_dma env cap c xs ps' k')"
      using Cons.prems l same_driver_platform(1) [OF s] by (intro Cons.IH) (simp_all add: same_driver_fields [OF s])
  qed
  then show ?case by simp
qed simp

text \<open>The lists of commands of an accepted request, and what makes a request accepted.\<close>

definition dma_loc :: "ipa_ioc_nat_dma_cmd \<Rightarrow> 'w ipa3_context \<Rightarrow> ipa3_nat_mem_in" where
  "dma_loc cmd k = nmi_of (ucast (if k_sram_compatible k then mem_type cmd else 0))"

definition dma_limit :: "('w, 'e) nat_kernel_env_scheme \<Rightarrow> nat" where
  "dma_limit env = (if wan_coal_ep env \<noteq> - 1 then 3 else 4)"

definition dma_accepted :: "('w, 'e) nat_kernel_env_scheme \<Rightarrow> ipa_ioc_nat_dma_cmd \<Rightarrow> 'w ipa3_context \<Rightarrow> bool" where
  "dma_accepted env cmd k \<longleftrightarrow>
     cm_is_dev_init (nm_dev (k_nat_mem k)) \<and> IPA_VALID_NAT_MEM_IN (dma_loc cmd k) \<and>
     0 < unat (entries cmd) \<and> unat (entries cmd) \<le> dma_limit env \<and>
     (\<forall>x\<in>set (take (unat (entries cmd)) (dma cmd)). dma_valid (dma_loc cmd k) k x)"

text \<open>
  The list that an accepted request builds and sends: the wait for the pipeline, a \<open>nop\<close>, one command for each entry,
  in the order of \<open>ipa3_table_dma_cmd\<close>. What these commands do to the tables is stated apart (\<open>Ipa_Nat_Dma\<close>).
\<close>

definition dma_list ::
    "('w, 'e) nat_kernel_env_scheme \<Rightarrow> ipa_ioc_nat_dma_one list \<Rightarrow> 'w ipa3_context \<Rightarrow> 'w pylds option" where
  "dma_list env xs k =
     on_ok (construct_coal_close env IPA_MAX_NUM_OF_TABLE_DMA_CMD_DESC [] k) (\<lambda>ps k.
     on_ok (construct_nop env IPA_MAX_NUM_OF_TABLE_DMA_CMD_DESC ps k) (\<lambda>ps k.
     on_ok (construct_dma env IPA_MAX_NUM_OF_TABLE_DMA_CMD_DESC
              (if IPA_HW_v4_0 \<le> k_hw_type k then IPA_IMM_CMD_TABLE_DMA else IPA_IMM_CMD_NAT_DMA) xs ps k)
       (send_pylds env)))"

lemma table_dma_cmd_eq:
  assumes inv: "driver_inv k" and len: "unat (entries cmd) \<le> length (dma cmd)"
  shows "ipa3_table_dma_cmd env cmd k =
      (if dma_accepted env cmd k then destroy_imm_cmd env (dma_list env (take (unat (entries cmd)) (dma cmd)) k)
       else Some (- EPERM, k))"
proof -
  let ?max = "if wan_coal_ep env \<noteq> - 1 then IPA_MAX_NUM_OF_TABLE_DMA_CMD_DESC - 1 else IPA_MAX_NUM_OF_TABLE_DMA_CMD_DESC"
  have lim: "?max - 1 < n \<longleftrightarrow> \<not> n \<le> dma_limit env" for n by (auto simp: dma_limit_def desc_limits)
  show ?thesis
    unfolding ipa3_table_dma_cmd_def Let_def dma_loc_def [symmetric] validate_all_eq [OF inv len] bind.bind_lunit
      dma_list_def [symmetric] lim
    by (auto simp: EPERM_def dma_accepted_def)
qed

lemma dma_list_ok:
  assumes inv: "driver_inv k" and n: "length xs \<le> dma_limit env"
  shows "step_ok env cnt (length xs + 2) k [] (dma_list env xs k)"
proof -
  note d = driver_invD [OF inv]
  let ?co = "if coal_enabled env k then 1 else 0 :: nat" and ?cap = IPA_MAX_NUM_OF_TABLE_DMA_CMD_DESC
  have fit: "?co + 1 + length xs \<le> ?cap" using n by (auto simp: desc_limits coal_enabled_def dma_limit_def split: if_splits)
  have "step_ok env cnt (?co + (1 + (length xs + 0))) k [] (dma_list env xs k)"
    unfolding dma_list_def
  proof (intro step_ok_on_ok step_ok_send)
    show "step_ok env cnt ?co k [] (construct_coal_close env ?cap [] k)"
      by (rule step_ok_coal_close [OF d(3)]) (simp add: desc_limits)
    fix ps :: "ipahal_imm_cmd_pyld list" and k' :: "'a ipa3_context"
    assume s: "same_driver k k'" and l: "length ps \<le> length ([] :: ipahal_imm_cmd_pyld list) + ?co"
    show "step_ok env cnt 1 k' ps (construct_nop env ?cap ps k')"
      using l d(3) by (intro step_ok_nop) (auto simp: same_driver_fields [OF s] desc_limits split: if_splits)
    fix ps2 :: "ipahal_imm_cmd_pyld list" and k2 :: "'a ipa3_context"
    assume s2: "same_driver k' k2" and l2: "length ps2 \<le> length ps + 1"
    have ps: "platform_ok k2" using same_driver_platform(1) [OF same_driver_trans [OF s s2] d(1)] .
    have "length ps2 + length xs \<le> ?cap" using l l2 fit by (auto split: if_splits)
    from construct_dma_ok [OF ps this refl, of env cnt]
    show "step_ok env cnt (length xs) k2 ps2 (construct_dma env ?cap
        (if IPA_HW_v4_0 \<le> k_hw_type k2 then IPA_IMM_CMD_TABLE_DMA else IPA_IMM_CMD_NAT_DMA) xs ps2 k2)" .
  qed
  then show ?thesis by (rule step_ok_mono) simp
qed

lemma table_dma_cmd_ok:
  assumes inv: "driver_inv k" and len: "unat (entries cmd) \<le> length (dma cmd)"
  shows "call_ok env cnt k (ipa3_table_dma_cmd env cmd k)"
proof (cases "dma_accepted env cmd k")
  case True
  then have "length (take (unat (entries cmd)) (dma cmd)) \<le> dma_limit env" using len by (simp add: dma_accepted_def min_absorb2)
  from call_ok_destroy [OF dma_list_ok [OF inv this]] show ?thesis using True by (simp add: table_dma_cmd_eq [OF inv len])
next
  case False
  then show ?thesis by (simp add: table_dma_cmd_eq [OF inv len] call_ok_def)
qed

subsection \<open>Deletion requests\<close>

lemma loc_inv_zero [simp]: "loc_inv b mem_loc_zero"
  by (simp add: loc_inv_def mem_loc_zero_def)

lemma free_ddr_eq:
  obtains w f where "free_ddr env k = (upd_nm f k)\<lparr>k_world := w\<rparr>"
    and "nm_dev (f (k_nat_mem k)) = nm_dev (k_nat_mem k)" and "nm_pdn_mem (f (k_nat_mem k)) = nm_pdn_mem (k_nat_mem k)"
    and "alloc_counts env cnt \<longrightarrow> cnt w = cnt (k_world k)"
proof -
  let ?m = "the_mld IPA_NAT_MEM_IN_DDR k"
  let ?f = "\<lambda>nm :: ipa3_nat_mem. if nm_ddr_in_use nm then nm\<lparr>nm_ddr_in_use := False, nm_mem_loc := (nm_mem_loc nm)(IPA_NAT_MEM_IN_DDR :=
      (nm_mem_loc nm IPA_NAT_MEM_IN_DDR)\<lparr>ml_vaddr := 0, ml_dma_handle := 0, ml_table_alloc_size := 0, ml_table_entries := 0,
                      ml_expn_table_entries := 0, ml_base_table_addr := 0, ml_expansion_table_addr := 0,
                      ml_index_table_addr := 0, ml_index_table_expansion_addr := 0\<rparr>)\<rparr> else nm"
  let ?w = "if nm_ddr_in_use (k_nat_mem k) \<and> ml_vaddr ?m \<noteq> 0
      then dma_free_coherent env (ml_table_alloc_size ?m) (ml_vaddr ?m) (ml_dma_handle ?m) (k_world k) else k_world k"
  show thesis
    by (rule that [of ?w ?f]) (auto simp: free_ddr_def Let_def state_defs alloc_countsD(5))
qed

lemma free_sram_eq:
  obtains w f where "free_sram env k = (upd_nm f k)\<lparr>k_world := w\<rparr>"
    and "nm_dev (f (k_nat_mem k)) = nm_dev (k_nat_mem k)" and "nm_pdn_mem (f (k_nat_mem k)) = nm_pdn_mem (k_nat_mem k)"
    and "alloc_counts env cnt \<longrightarrow> cnt w = cnt (k_world k)"
proof -
  let ?m = "the_mld IPA_NAT_MEM_IN_SRAM k"
  let ?f = "\<lambda>nm :: ipa3_nat_mem. if nm_sram_in_use nm then nm\<lparr>nm_sram_in_use := False, nm_mem_loc := (nm_mem_loc nm)(IPA_NAT_MEM_IN_SRAM :=
      (nm_mem_loc nm IPA_NAT_MEM_IN_SRAM)\<lparr>ml_io_vaddr := 0, ml_vaddr := 0, ml_dma_handle := 0, ml_table_alloc_size := 0, ml_table_entries := 0,
                      ml_expn_table_entries := 0, ml_base_table_addr := 0, ml_expansion_table_addr := 0,
                      ml_index_table_addr := 0, ml_index_table_expansion_addr := 0\<rparr>)\<rparr> else nm"
  let ?w = "if nm_sram_in_use (k_nat_mem k) \<and> ml_io_vaddr ?m \<noteq> 0 then iounmap env (ml_io_vaddr ?m) (k_world k) else k_world k"
  show thesis
    by (rule that [of ?w ?f]) (auto simp: free_sram_def Let_def state_defs alloc_countsD(7))
qed

text \<open>The memories' descriptions need not be well-formed when they are released.\<close>

lemma free_mem_nat_ok:
  assumes inv: "driver_inv (upd_nm (\<lambda>nm. nm\<lparr>nm_mem_loc := (\<lambda>_. mem_loc_zero)\<rparr>) k)"
  shows "op_ok env cnt k (Some (r, ipa3_nat_ipv6ct_free_mem env Nat_Dev k))"
proof -
  obtain w f where 1: "free_ddr env k = (upd_nm f k)\<lparr>k_world := w\<rparr>"
      "nm_dev (f (k_nat_mem k)) = nm_dev (k_nat_mem k)" "nm_pdn_mem (f (k_nat_mem k)) = nm_pdn_mem (k_nat_mem k)"
      "alloc_counts env cnt \<longrightarrow> cnt w = cnt (k_world k)" by (rule free_ddr_eq)
  let ?k1 = "(upd_nm f k)\<lparr>k_world := w\<rparr>"
  obtain w2 f2 where 2: "free_sram env ?k1 = (upd_nm f2 ?k1)\<lparr>k_world := w2\<rparr>"
      "nm_dev (f2 (k_nat_mem ?k1)) = nm_dev (k_nat_mem ?k1)" "nm_pdn_mem (f2 (k_nat_mem ?k1)) = nm_pdn_mem (k_nat_mem ?k1)"
      "alloc_counts env cnt \<longrightarrow> cnt w2 = cnt (k_world ?k1)" by (rule free_sram_eq)
  have eq: "ipa3_nat_ipv6ct_free_mem env Nat_Dev k =
      (upd_nm (\<lambda>nm. (f2 (f nm))\<lparr>nm_dev := (nm_dev (f2 (f nm)))\<lparr>cm_is_hw_init := False, cm_is_mapped := False\<rparr>,
                       nm_mem_loc := (\<lambda>_. mem_loc_zero)\<rparr>) k)\<lparr>k_world := w2\<rparr>"
    using driver_invD(5,6) [OF inv]
    unfolding ipa3_nat_ipv6ct_free_mem_def Let_def 1(1) 2(1) by (simp add: upd_nm_def)
  show ?thesis
    unfolding eq using inv 1(2-4) 2(2-4)
    by (intro op_okI) (simp_all add: upd_nm_def driver_inv_def platform_ok_def pdn_inv_def the_mld_def)
qed

lemma free_mem_ct_ok:
  assumes inv: "driver_inv k"
  shows "op_ok env cnt k (Some (r, ipa3_nat_ipv6ct_free_mem env Ipv6ct_Dev k))"
proof (cases "cm_is_ipv6ct_mem (k_ipv6ct_mem k)")
  case False
  then have "ipa3_nat_ipv6ct_free_mem env Ipv6ct_Dev k = k"
    using driver_invD(7) [OF inv] by (simp add: ipa3_nat_ipv6ct_free_mem_def Let_def)
  then show ?thesis using inv by auto
next
  case True
  define c where "c = (k_ipv6ct_mem k)\<lparr>cm_vaddr := 0, cm_dma_handle := 0, cm_table_alloc_size := 0, cm_base_table_addr := 0,
                              cm_expansion_table_addr := 0, cm_table_entries := 0, cm_expn_table_entries := 0,
                              cm_is_hw_init := False, cm_is_mapped := False\<rparr>"
  obtain w where w: "ipa3_nat_ipv6ct_free_mem env Ipv6ct_Dev k = (k\<lparr>k_ipv6ct_mem := c\<rparr>)\<lparr>k_world := w\<rparr>"
      "alloc_counts env cnt \<longrightarrow> cnt w = cnt (k_world k)"
  proof (cases "cm_vaddr (k_ipv6ct_mem k) = 0")
    case True
    then show thesis using that [of "k_world k"] \<open>cm_is_ipv6ct_mem (k_ipv6ct_mem k)\<close>
      by (simp add: ipa3_nat_ipv6ct_free_mem_def Let_def c_def)
  next
    case False
    then show thesis using that [of "dma_free_coherent env (cm_table_alloc_size (k_ipv6ct_mem k)) (cm_vaddr (k_ipv6ct_mem k))
        (cm_dma_handle (k_ipv6ct_mem k)) (k_world k)"] True
      by (simp add: ipa3_nat_ipv6ct_free_mem_def Let_def c_def os_do_def alloc_countsD(5))
  qed
  have "driver_inv (k\<lparr>k_ipv6ct_mem := c\<rparr>)" by (rule driver_inv_ct [OF inv]) (simp_all add: c_def)
  then show ?thesis unfolding w(1) using w(2) by (intro op_okI) (simp_all add: c_def)
qed

lemma del_table_cmd_ok:
  assumes inv: "driver_inv k"
  shows "op_ok env cnt k (ipa3_nat_send_del_table_cmd env ti k)"
    and "IPA_HW_v4_0 \<le> k_hw_type k \<Longrightarrow> op_ok env cnt k (ipa3_ipv6ct_send_del_table_cmd env ti k)"
proof -
  note d = driver_invD [OF inv]
  show "op_ok env cnt k (ipa3_nat_send_del_table_cmd env ti k)"
    using op_ok_call [OF inv nat_send_init_ok [OF d(1,2)]] op_ok_same [OF inv]
    by (auto simp: ipa3_nat_send_del_table_cmd_def split: prod.splits)
  show "op_ok env cnt k (ipa3_ipv6ct_send_del_table_cmd env ti k)" if "IPA_HW_v4_0 \<le> k_hw_type k"
    using op_ok_call [OF inv ct_send_init_ok [OF d(1) that]] op_ok_same [OF inv]
    by (auto simp: ipa3_ipv6ct_send_del_table_cmd_def split: prod.splits)
qed

lemma del_nat_table_ok:
  fixes k :: "'w ipa3_context"
  assumes inv: "kernel_inv k"
  shows "op_ok env cnt k (ipa3_del_nat_table env del k)"
proof -
  define loc where "loc = nmi_of (if k_sram_compatible k then ucast (dl_mem_type del) else 0)"
  have di: "driver_inv k" "\<not> cm_lock (the_dev Nat_Dev k)" using inv by (simp_all add: kernel_inv_def)
  let ?body = "\<lambda>k. do {
           (r, k) \<leftarrow> (if cm_is_hw_init (nm_dev (k_nat_mem k)) then ipa3_nat_send_del_table_cmd env (dl_table_index del) k
                     else Some (0, k));
           if r \<noteq> 0 then Some (r, k)
           else
             let k = upd_nm (\<lambda>nm. nm\<lparr>nm_public_ip_addr := 0\<rparr>) k;
                 k = upd_mld loc (\<lambda>m. m\<lparr>ml_index_table_addr := 0, ml_index_table_expansion_addr := 0\<rparr>) k;
                 pdn = nm_pdn_mem (k_nat_mem k);
                 k = (if IPA_HW_v4_0 \<le> k_hw_type k \<and> mb_base pdn \<noteq> 0
                      then upd_nm (\<lambda>nm. nm\<lparr>nm_pdn_mem := pdn\<lparr>mb_base := 0\<rparr>\<rparr>)
                             (os_do (dma_free_coherent env (ucast (mb_size pdn)) (mb_base pdn) (mb_phys_base pdn)) k)
                      else k)
             in Some (0, ipa3_nat_ipv6ct_free_mem env Nat_Dev k)
         }"
  have "op_ok env cnt k (with_lock Nat_Dev ?body k)"
  proof (rule op_ok_with_lock [OF di])
    fix k1 :: "'w ipa3_context" assume i1: "driver_inv k1"
    show "op_ok env cnt k1 (?body k1)"
    proof (rule op_ok_bind)
      show "op_ok env cnt k1 (if cm_is_hw_init (nm_dev (k_nat_mem k1)) then ipa3_nat_send_del_table_cmd env (dl_table_index del) k1
                     else Some (0, k1))"
        using del_table_cmd_ok(1) [OF i1, of env cnt] op_ok_same [OF i1, of env cnt] by simp
      fix r and k2 :: "'w ipa3_context" assume i2: "driver_inv k2"
      define k3 where "k3 = upd_mld loc (\<lambda>m. m\<lparr>ml_index_table_addr := 0, ml_index_table_expansion_addr := 0\<rparr>)
          (upd_nm (\<lambda>nm. nm\<lparr>nm_public_ip_addr := 0\<rparr>) k2)"
      define pdn where "pdn = nm_pdn_mem (k_nat_mem k3)"
      define k4 where "k4 = (if IPA_HW_v4_0 \<le> k_hw_type k3 \<and> mb_base pdn \<noteq> 0
                      then upd_nm (\<lambda>nm. nm\<lparr>nm_pdn_mem := pdn\<lparr>mb_base := 0\<rparr>\<rparr>)
                             (os_do (dma_free_coherent env (ucast (mb_size pdn)) (mb_base pdn) (mb_phys_base pdn)) k3)
                      else k3)"
      have free: "op_ok env cnt k2 (Some (0, ipa3_nat_ipv6ct_free_mem env Nat_Dev k4))"
      proof -
        have l: "same_locks env cnt k2 k4"
          by (auto simp: same_locks_def k4_def k3_def upd_nm_def os_do_def alloc_countsD(5))
        have "driver_inv (upd_nm (\<lambda>nm. nm\<lparr>nm_mem_loc := (\<lambda>_. mem_loc_zero)\<rparr>) k4)"
          using i2 by (cases "IPA_HW_v4_0 \<le> k_hw_type k3 \<and> mb_base pdn \<noteq> 0")
            (simp_all add: k4_def k3_def pdn_def state_defs driver_inv_def platform_ok_def pdn_inv_def del: not_le)
        from op_ok_from [OF l free_mem_nat_ok [OF this]] show ?thesis .
      qed
      show "op_ok env cnt k2 (case (r, k2) of (r, k) \<Rightarrow> if r \<noteq> 0 then Some (r, k)
           else
             let k = upd_nm (\<lambda>nm. nm\<lparr>nm_public_ip_addr := 0\<rparr>) k;
                 k = upd_mld loc (\<lambda>m. m\<lparr>ml_index_table_addr := 0, ml_index_table_expansion_addr := 0\<rparr>) k;
                 pdn = nm_pdn_mem (k_nat_mem k);
                 k = (if IPA_HW_v4_0 \<le> k_hw_type k \<and> mb_base pdn \<noteq> 0
                      then upd_nm (\<lambda>nm. nm\<lparr>nm_pdn_mem := pdn\<lparr>mb_base := 0\<rparr>\<rparr>)
                             (os_do (dma_free_coherent env (ucast (mb_size pdn)) (mb_base pdn) (mb_phys_base pdn)) k)
                      else k)
             in Some (0, ipa3_nat_ipv6ct_free_mem env Nat_Dev k))"
        unfolding prod.case Let_def k3_def [symmetric] pdn_def [symmetric] k4_def [symmetric]
        using free op_ok_same [OF i2, of env cnt] by simp
    qed
  qed
  then show ?thesis
    using op_ok_same [OF di(1), of env cnt] unfolding ipa3_del_nat_table_def Let_def loc_def [symmetric] by simp
qed

lemma op_ok_with_lock_hw:
  assumes inv: "driver_inv k" and free: "\<not> cm_lock (the_dev d k)"
    and body: "\<And>k1. driver_inv k1 \<Longrightarrow> k_hw_type k1 = k_hw_type k \<Longrightarrow> op_ok env cnt k1 (body k1)"
  shows "op_ok env cnt k (with_lock d body k)"
proof -
  let ?b = "\<lambda>k1. if k_hw_type k1 = k_hw_type k then body k1 else Some (0, k1)"
  have "op_ok env cnt k (with_lock d ?b k)"
    using body by (intro op_ok_with_lock [OF inv free]) (simp add: op_ok_same)
  moreover have "with_lock d ?b k = with_lock d body k" by (cases d) (simp_all add: with_lock_def mutex_lock_def)
  ultimately show ?thesis by simp
qed

lemma del_ipv6ct_table_ok:
  fixes k :: "'w ipa3_context"
  assumes inv: "kernel_inv k"
  shows "op_ok env cnt k (ipa3_del_ipv6ct_table env del k)"
proof (cases "\<not> cm_is_dev_init (k_ipv6ct_mem k) \<or> k_hw_type k < IPA_HW_v4_0")
  case True
  then show ?thesis using inv op_ok_same by (auto simp: ipa3_del_ipv6ct_table_def Let_def kernel_inv_def)
next
  case False
  have di: "driver_inv k" "\<not> cm_lock (the_dev Ipv6ct_Dev k)" using inv by (simp_all add: kernel_inv_def)
  have "op_ok env cnt k (with_lock Ipv6ct_Dev (\<lambda>k. do {
           (r, k) \<leftarrow> (if cm_is_hw_init (k_ipv6ct_mem k) then ipa3_ipv6ct_send_del_table_cmd env (dl_table_index del) k
                     else Some (0, k));
           Some (r, if r \<noteq> 0 then k else ipa3_nat_ipv6ct_free_mem env Ipv6ct_Dev k)
         }) k)"
  proof (rule op_ok_with_lock_hw [OF di])
    fix k1 :: "'w ipa3_context" assume i1: "driver_inv k1" and h: "k_hw_type k1 = k_hw_type k"
    show "op_ok env cnt k1 (do {
           (r, k) \<leftarrow> (if cm_is_hw_init (k_ipv6ct_mem k1) then ipa3_ipv6ct_send_del_table_cmd env (dl_table_index del) k1
                     else Some (0, k1));
           Some (r, if r \<noteq> 0 then k else ipa3_nat_ipv6ct_free_mem env Ipv6ct_Dev k)
         })"
    proof (rule op_ok_bind)
      show "op_ok env cnt k1 (if cm_is_hw_init (k_ipv6ct_mem k1) then ipa3_ipv6ct_send_del_table_cmd env (dl_table_index del) k1
                     else Some (0, k1))"
        using op_ok_same [OF i1, of env cnt] del_table_cmd_ok(2) [OF i1, of env cnt "dl_table_index del"] False h by simp
    qed (auto simp: free_mem_ct_ok op_ok_same)
  qed
  then show ?thesis using False by (simp add: ipa3_del_ipv6ct_table_def Let_def)
qed

subsection \<open>Dispatch\<close>

text \<open>A request's answer: the operation returned, and the state it left satisfies the invariant of the whole driver.\<close>

definition answer_ok ::
    "('w, 'e) nat_kernel_env_scheme \<Rightarrow> ('w \<Rightarrow> int) \<Rightarrow> 'w ipa3_context \<Rightarrow> 'w nat_answer \<Rightarrow> bool" where
  "answer_ok env cnt k m \<longleftrightarrow>
     (\<exists>r a k'. m = Some (r, a, k') \<and> kernel_inv k' \<and> (alloc_counts env cnt \<longrightarrow> cnt (k_world k') = cnt (k_world k)))"

lemma answer_okI [intro]:
  "kernel_inv k \<Longrightarrow> answer_ok env cnt k (Some (r, a, k))"
  by (simp add: answer_ok_def)

lemma op_ok_kernel:
  assumes "kernel_inv k" and "op_ok env cnt k m"
  obtains r k' where "m = Some (r, k')" and "kernel_inv k'" and "alloc_counts env cnt \<longrightarrow> cnt (k_world k') = cnt (k_world k)"
  using assms by (auto simp: op_ok_def kernel_inv_def)

lemma answer_ok_bind:
  assumes inv: "kernel_inv k" and op: "op_ok env cnt k m"
    and f: "\<And>r k'. \<exists>r' a. f (r, k') = Some (r', a, k')"
  shows "answer_ok env cnt k (m \<bind> f)"
proof -
  obtain r k' where m: "m = Some (r, k')" "kernel_inv k'" "alloc_counts env cnt \<longrightarrow> cnt (k_world k') = cnt (k_world k)"
    by (rule op_ok_kernel [OF inv op])
  obtain r' a where "f (r, k') = Some (r', a, k')" using f by blast
  then show ?thesis unfolding m(1) bind.bind_lunit answer_ok_def using m(2,3) by blast
qed

lemma or_efault_ok:
  assumes "kernel_inv k" and "\<And>a. op_ok env cnt k (f a k)"
  shows "answer_ok env cnt k (or_efault arg f k)"
  unfolding or_efault_def
  using assms by (cases arg) (auto intro!: answer_ok_bind)

lemma alloc_ioctl_ok:
  assumes "kernel_inv k" and "\<And>sz. op_ok env cnt k (f sz k)"
  shows "answer_ok env cnt k (alloc_ioctl arg wr f k)"
  unfolding alloc_ioctl_def
  using assms by (cases arg) (auto intro!: answer_ok_bind split: prod.splits)

lemma alloc_mem_ioctl_ok:
  assumes inv: "kernel_inv k"
  shows "answer_ok env cnt k (alloc_mem_ioctl env arg wr k)"
proof (cases arg)
  case None
  then show ?thesis using inv by (auto simp: alloc_mem_ioctl_def)
next
  case (Some mem)
  obtain r k' where k': "ipa3_allocate_nat_table env (fst mem) k = Some (r, k')" "kernel_inv k'"
      "alloc_counts env cnt \<longrightarrow> cnt (k_world k') = cnt (k_world k)"
    by (rule op_ok_kernel [OF inv allocate_nat_table_ok [OF inv, of env cnt "fst mem"]])
  then show ?thesis by (simp add: Some alloc_mem_ioctl_def ipa3_allocate_nat_device_def answer_ok_def)
qed

lemma kernel_inv_world [simp]: "kernel_inv (k\<lparr>k_world := w\<rparr>) = kernel_inv k"
  by (simp add: kernel_inv_def)

lemma table_dma_ioctl_ok:
  assumes inv: "kernel_inv k"
  shows "answer_ok env cnt k (table_dma_ioctl env pre arg k)"
proof (cases pre)
  case None
  then show ?thesis using inv by (auto simp: table_dma_ioctl_def)
next
  case (Some n)
  obtain ok w where al: "k_alloc env (k_world k) = (ok, w)" by (metis surj_pair)
  let ?k1 = "k\<lparr>k_world := w\<rparr>"
  have o: "os (k_alloc env) k = (ok, ?k1)" by (simp add: os_def al)
  note cw = alloc_countsD(1) [OF _ al, of cnt] and cf = alloc_countsD(2) [of env cnt]
  have free: "answer_ok env cnt k (Some (r, a, os_do (k_free env) ?k1))" if ok for r a
    using that inv cw cf by (auto simp: answer_ok_def os_do_def)
  have fail: "answer_ok env cnt k (Some (r, a, ?k1))" if "\<not> ok" for r a
    using that inv cw by (auto simp: answer_ok_def)
  have cmd: "answer_ok env cnt k (do {
        (r, k) \<leftarrow> ipa3_table_dma_cmd env (c\<lparr>dma := take (unat n) (dma c)\<rparr>) ?k1;
        Some (if r \<noteq> 0 then - EFAULT else 0, No_Reply, os_do (k_free env) k)
      })" if "ok" "entries c = n" "unat n \<le> length (dma c)" for c
  proof -
    have "driver_inv ?k1" using inv by (simp add: kernel_inv_def)
    then have "op_ok env cnt ?k1 (ipa3_table_dma_cmd env (c\<lparr>dma := take (unat n) (dma c)\<rparr>) ?k1)"
      using that by (intro op_ok_call table_dma_cmd_ok) auto
    then obtain r k2 where k2: "ipa3_table_dma_cmd env (c\<lparr>dma := take (unat n) (dma c)\<rparr>) ?k1 = Some (r, k2)"
        "kernel_inv k2" "alloc_counts env cnt \<longrightarrow> cnt (k_world k2) = cnt (k_world ?k1)"
      using op_ok_kernel [of ?k1 env cnt] inv by (metis kernel_inv_world)
    then show ?thesis
      using that(1) cw cf by (auto simp: answer_ok_def os_do_def)
  qed
  show ?thesis
    unfolding table_dma_ioctl_def Some option.case Let_def o prod.case
    using free fail cmd by (cases ok; cases arg) (auto simp: not_less)
qed

lemma sram_info_ok:
  assumes "kernel_inv k" shows "answer_ok env cnt k (proc_sram_info_rqst env wr k)"
  using assms by (auto simp: proc_sram_info_rqst_def ipa3_nat_get_sram_info_def answer_ok_def kernel_inv_def driver_inv_def
      platform_ok_def pdn_inv_def the_mld_def Let_def)

lemma ioctl_ok:
  assumes inv: "kernel_inv k"
  shows "answer_ok env cnt k (ipa3_ioctl env rq k)"
proof -
  have di: "driver_inv k" using inv by (simp add: kernel_inv_def)
  show ?thesis
  proof (cases rq)
    case (Ioc_Cleanup garbage rest)
    then show ?thesis
      using del_nat_table_ok [OF inv]
      by (auto simp: ipa3_ioctl_def ipa3_nat_del_cmd_def intro!: answer_ok_bind inv)
  qed (simp_all add: ipa3_ioctl_def ipa3_nat_del_cmd_def alloc_mem_ioctl_ok alloc_ioctl_ok or_efault_ok table_dma_ioctl_ok
        sram_info_ok inv allocate_nat_table_ok allocate_ipv6ct_table_ok nat_init_cmd_ok [OF di] ct_init_cmd_ok [OF di]
        del_nat_table_ok del_ipv6ct_table_ok mdfy_pdn_ok)
qed

subsection \<open>Sequences of requests\<close>

lemma serve_ok:
  assumes inv: "kernel_inv k"
  obtains k' where "serve env rq k = Some k'" and "kernel_inv k'" and "alloc_counts env cnt \<longrightarrow> cnt (k_world k') = cnt (k_world k)"
proof (cases rq)
  case (Rq_Ioctl i)
  obtain r a k' where "ipa3_ioctl env i k = Some (r, a, k')" "kernel_inv k'"
      "alloc_counts env cnt \<longrightarrow> cnt (k_world k') = cnt (k_world k)"
    using ioctl_ok [OF inv, of env cnt i] by (auto simp: answer_ok_def)
  then show thesis using that [of k'] by (simp add: serve_def Rq_Ioctl)
next
  case (Rq_Mmap d vma)
  obtain r vma' k' where m: "ipa3_nat_ipv6ct_mmap env d vma k = Some (r, vma', k')" "op_ok env cnt k (Some (r, k'))"
    by (rule mmap_ok [OF inv])
  have "kernel_inv k' \<and> (alloc_counts env cnt \<longrightarrow> cnt (k_world k') = cnt (k_world k))"
    using op_ok_kernel [OF inv m(2)] by auto
  then show thesis using that [of k'] m(1) by (simp add: serve_def Rq_Mmap)
qed

lemma serve_all_ok:
  assumes inv: "kernel_inv k"
  obtains k' where "serve_all env rqs k = Some k'" and "kernel_inv k'"
    and "alloc_counts env cnt \<longrightarrow> cnt (k_world k') = cnt (k_world k)"
  using inv
proof (induction rqs arbitrary: k thesis)
  case (Cons rq rqs)
  obtain k1 where k1: "serve env rq k = Some k1" "kernel_inv k1" "alloc_counts env cnt \<longrightarrow> cnt (k_world k1) = cnt (k_world k)"
    by (rule serve_ok [OF Cons.prems(2)])
  obtain k2 where "serve_all env rqs k1 = Some k2" "kernel_inv k2" "alloc_counts env cnt \<longrightarrow> cnt (k_world k2) = cnt (k_world k1)"
    by (rule Cons.IH [OF _ k1(2)])
  then show ?case using Cons.prems(1) [of k2] k1 by simp
qed simp

end
