(* ===== verification/Ipa_Nat_Devices.thy ===== *)
theory Ipa_Nat_Devices
  imports Ipa_Nat_Steps
begin

section \<open>The life of the devices\<close>

text \<open>
  \<open>ipa3_nat_ipv6ct_init_devices\<close> from the state the loader zeroes: it either establishes the driver's invariant
  or gives back everything it took, and \<open>ipa3_nat_ipv6ct_destroy_devices\<close> undoes it.
\<close>

text \<open>
  \<open>cnt\<close> counts the blocks, DMA memory, classes, device numbers and devices that are held, and each registration of a
  character device \<open>b\<close> times: with \<open>b = 0\<close> it leaves the registrations out, with \<open>b = 1\<close> it counts them. The driver
  has no call that would take a registration back.
\<close>

definition resources :: "('w, 'e) nat_kernel_env_scheme \<Rightarrow> int \<Rightarrow> ('w \<Rightarrow> int) \<Rightarrow> bool" where
  "resources env b cnt \<longleftrightarrow>
     (\<forall>w. cnt (snd (k_alloc env w)) = cnt w + of_bool (fst (k_alloc env w))) \<and>
     (\<forall>w. cnt (k_free env w) = cnt w - 1) \<and>
     (\<forall>n w. cnt (snd (dma_alloc_coherent env n w)) = cnt w + of_bool (fst (fst (dma_alloc_coherent env n w)) \<noteq> 0)) \<and>
     (\<forall>n a h w. cnt (dma_free_coherent env n a h w) = cnt w - 1) \<and>
     (\<forall>s w. cnt (snd (class_create env s w)) = cnt w + of_bool (\<not> IS_ERR (fst (class_create env s w)))) \<and>
     (\<forall>p w. cnt (class_destroy env p w) = cnt w - 1) \<and>
     (\<forall>s w. cnt (snd (alloc_chrdev_region env s w)) = cnt w + of_bool (fst (fst (alloc_chrdev_region env s w)) = 0)) \<and>
     (\<forall>n w. cnt (unregister_chrdev_region env n w) = cnt w - 1) \<and>
     (\<forall>p n s w. cnt (snd (device_create env p n s w)) = cnt w + of_bool (\<not> IS_ERR (fst (device_create env p n s w)))) \<and>
     (\<forall>p n w. cnt (device_destroy env p n w) = cnt w - 1) \<and>
     (\<forall>n w. cnt (snd (cdev_add env n w)) = cnt w + b * of_bool (fst (cdev_add env n w) = 0))"

lemma resourcesD:
  assumes "resources env b cnt"
  shows "k_alloc env w = (ok, w') \<Longrightarrow> cnt w' = cnt w + of_bool ok" and "cnt (k_free env w) = cnt w - 1"
    and "dma_alloc_coherent env n w = ((va, dh), w') \<Longrightarrow> cnt w' = cnt w + of_bool (va \<noteq> 0)"
    and "cnt (dma_free_coherent env n a h w) = cnt w - 1"
    and "class_create env s w = (p, w') \<Longrightarrow> cnt w' = cnt w + of_bool (\<not> IS_ERR p)" and "cnt (class_destroy env p w) = cnt w - 1"
    and "alloc_chrdev_region env s w = ((r, num), w') \<Longrightarrow> cnt w' = cnt w + of_bool (r = 0)"
    and "cnt (unregister_chrdev_region env num w) = cnt w - 1"
    and "device_create env p num s w = (p', w') \<Longrightarrow> cnt w' = cnt w + of_bool (\<not> IS_ERR p')"
    and "cnt (device_destroy env p num w) = cnt w - 1"
    and "cdev_add env num w = (r, w') \<Longrightarrow> cnt w' = cnt w + b * of_bool (r = 0)"
  using assms unfolding resources_def by (metis fst_conv snd_conv)+

text \<open>One device: created with its three resources, or not at all.\<close>

lemma init_device_outcome:
  assumes "length nam < IPA_DEV_NAME_MAX_LEN"
  obtains r c w where "ipa3_nat_ipv6ct_init_device env d nam ps po tmp k = Some (r, (upd_dev d (\<lambda>_. c) k)\<lparr>k_world := w\<rparr>)"
    and "\<not> cm_lock c" and "cm_is_nat_mem c = (d = Nat_Dev)" and "cm_is_ipv6ct_mem c = (d = Ipv6ct_Dev)"
    and "cm_is_dev_init c = (if r = 0 then True else cm_is_dev_init (the_dev d k))"
    and "cm_is_hw_init c = cm_is_hw_init (the_dev d k)" and "cm_is_mapped c = cm_is_mapped (the_dev d k)"
    and "cm_tmp_mem c = (if r = 0 then tmp else cm_tmp_mem (the_dev d k))"
    and "resources env b cnt \<Longrightarrow> cnt w = cnt (k_world k) + (if r = 0 then 3 + b else 0)"
proof -
  obtain cls w1 where 1: "class_create env nam (k_world k) = (cls, w1)" by (metis surj_pair)
  obtain r2 num w2 where 2: "alloc_chrdev_region env nam w1 = ((r2, num), w2)" by (metis surj_pair)
  obtain dv w3 where 3: "device_create env cls num nam w2 = (dv, w3)" by (metis surj_pair)
  obtain r4 w4 where 4: "cdev_add env num w3 = (r4, w4)" by (metis surj_pair)
  note os = os_def os_do_def 1 2 3 4
  define c0 where "c0 = (the_dev d k)\<lparr>cm_lock := False, cm_is_nat_mem := IS_NAT_MEM_DEV d,
                             cm_is_ipv6ct_mem := IS_IPV6CT_MEM_DEV d, cm_name := nam, cm_class := cls\<rparr>"
  note cw = resourcesD(5) [of env b cnt, OF _ 1] resourcesD(7) [of env b cnt, OF _ 2] resourcesD(9) [of env b cnt, OF _ 3]
    resourcesD(11) [of env b cnt, OF _ 4] resourcesD(6,8,10) [of env b cnt]
  consider (a) "IS_ERR cls" | (b) "\<not> IS_ERR cls" "r2 \<noteq> 0" | (c) "\<not> IS_ERR cls" "r2 = 0" "IS_ERR dv"
    | (d) "\<not> IS_ERR cls" "r2 = 0" "\<not> IS_ERR dv" "r4 \<noteq> 0" | (e) "\<not> IS_ERR cls" "r2 = 0" "\<not> IS_ERR dv" "r4 = 0" by blast
  then show thesis
  proof cases
    case a
    show thesis
      by (rule that [of "- ENODEV" w1 c0]) (use assms a cw in \<open>cases d; simp add: ipa3_nat_ipv6ct_init_device_def Let_def os c0_def
          IS_NAT_MEM_DEV_def IS_IPV6CT_MEM_DEV_def errno_defs\<close>)+
  next
    case b
    show thesis
      by (rule that [of "- ENODEV" "class_destroy env cls w2" c0]) (use assms b cw in \<open>cases d; simp add: ipa3_nat_ipv6ct_init_device_def Let_def os c0_def
          IS_NAT_MEM_DEV_def IS_IPV6CT_MEM_DEV_def errno_defs\<close>)+
  next
    case c
    show thesis
      by (rule that [of "- ENODEV" "class_destroy env cls (unregister_chrdev_region env num w3)" "c0\<lparr>cm_dev_num := num, cm_dev := dv\<rparr>"])
        (use assms c cw in \<open>cases d; simp add: ipa3_nat_ipv6ct_init_device_def Let_def os c0_def
          IS_NAT_MEM_DEV_def IS_IPV6CT_MEM_DEV_def errno_defs\<close>)+
  next
    case d
    show thesis
      by (rule that [of r4 "class_destroy env cls (unregister_chrdev_region env num (device_destroy env cls num w4))"
            "c0\<lparr>cm_dev_num := num, cm_dev := dv\<rparr>"])
        (use assms d cw in \<open>cases d; simp add: ipa3_nat_ipv6ct_init_device_def Let_def os c0_def
          IS_NAT_MEM_DEV_def IS_IPV6CT_MEM_DEV_def mutex_lock_def mutex_unlock_def\<close>)+
  next
    case e
    show thesis
      by (rule that [of 0 w4 "c0\<lparr>cm_dev_num := num, cm_dev := dv, cm_tmp_mem := tmp, cm_phys_mem_size := ps,
              cm_phys_mem_ofst := po, cm_is_dev_init := True\<rparr>"])
        (use assms e cw in \<open>cases d; simp add: ipa3_nat_ipv6ct_init_device_def Let_def os c0_def
          IS_NAT_MEM_DEV_def IS_IPV6CT_MEM_DEV_def mutex_lock_def mutex_unlock_def\<close>)+
  qed
qed

text \<open>Removing a device releases what its creation took, and the temporary memory with the first of the two.\<close>

lemma destroy_device_outcome:
  assumes free: "\<not> cm_lock (the_dev d k)"
  defines "t \<equiv> nm_is_tmp_mem_allocated (k_nat_mem k) \<and> cm_tmp_mem (the_dev d k) \<noteq> None"
  obtains c w where "ipa3_nat_ipv6ct_destroy_device env d k =
      Some ((upd_nm (\<lambda>nm. nm\<lparr>nm_is_tmp_mem_allocated := nm_is_tmp_mem_allocated nm \<and> \<not> t\<rparr>) (upd_dev d (\<lambda>_. c) k))\<lparr>k_world := w\<rparr>)"
    and "\<not> cm_lock c" and "\<not> cm_is_dev_init c" and "cm_tmp_mem c = None"
    and "resources env b cnt \<Longrightarrow> cnt w = cnt (k_world k) - 3 - (if t then 2 else 0)"
proof -
  let ?c = "the_dev d k"
  define c1 where "c1 = ?c\<lparr>cm_tmp_mem := None, cm_lock := False, cm_is_dev_init := False\<rparr>"
  define w0 where "w0 = (case cm_tmp_mem ?c of None \<Rightarrow> k_world k
      | Some tm \<Rightarrow> if nm_is_tmp_mem_allocated (k_nat_mem k)
          then k_free env (dma_free_coherent env IPA_NAT_IPV6CT_TEMP_MEM_SIZE (tm_vaddr tm) (tm_dma_handle tm) (k_world k)) else k_world k)"
  define w1 where "w1 = class_destroy env (cm_class ?c) (unregister_chrdev_region env (cm_dev_num ?c)
      (device_destroy env (cm_class ?c) (cm_dev_num ?c) w0))"
  have w: "cnt w1 = cnt (k_world k) - 3 - (if t then 2 else 0)" if "resources env b cnt"
    using resourcesD(2,4,6,8,10) [of env b cnt, OF that] by (auto simp: w1_def w0_def t_def split: option.splits)
  show thesis
    by (rule that [of w1 c1])
      (use free w in \<open>cases d; cases "cm_tmp_mem (the_dev d k)"; simp add: ipa3_nat_ipv6ct_destroy_device_def mutex_lock_def
        mutex_unlock_def os_do_def upd_nm_def c1_def w1_def w0_def t_def\<close>)+
qed

text \<open>The state before the driver is started: the static structures are zero.\<close>

definition fresh :: "'w ipa3_context \<Rightarrow> bool" where
  "fresh k \<longleftrightarrow> platform_ok k \<and> k_nat_mem k = nat_mem_zero \<and> k_ipv6ct_mem k = common_mem_zero"

lemmas zero_defs = nat_mem_zero_def common_mem_zero_def

lemma init_devices_outcome:
  fixes k :: "'w ipa3_context"
  assumes f: "fresh k"
  obtains r k' j where "ipa3_nat_ipv6ct_init_devices env k = Some (r, k')"
    and "j = 0 \<or> j = 1 \<and> IPA_HW_v4_0 \<le> k_hw_type k"
    and "r = 0 \<longrightarrow> kernel_inv k'" and "cm_is_dev_init (nm_dev (k_nat_mem k')) \<longleftrightarrow> r = 0"
    and "cm_is_dev_init (k_ipv6ct_mem k') \<longleftrightarrow> r = 0 \<and> IPA_HW_v4_0 \<le> k_hw_type k"
    and "k_hw_type k' = k_hw_type k"
    and "r = 0 \<longrightarrow> nm_is_tmp_mem_allocated (k_nat_mem k') \<and> cm_tmp_mem (nm_dev (k_nat_mem k')) \<noteq> None"
    and "resources env b cnt \<longrightarrow>
      cnt (k_world k') = cnt (k_world k) + (if r \<noteq> 0 then b * j else if k_hw_type k < IPA_HW_v4_0 then 5 + b else 8 + 2 * b)"
proof -
  note z = f [unfolded fresh_def] and pl = platform_okD
  have len: "length IPA_NAT_DEV_NAME < IPA_DEV_NAME_MAX_LEN" "length IPA_IPV6CT_DEV_NAME < IPA_DEV_NAME_MAX_LEN"
    by (simp_all add: IPA_NAT_DEV_NAME_def IPA_IPV6CT_DEV_NAME_def IPA_DEV_NAME_MAX_LEN_def)
  obtain ok w0 where al: "k_alloc env (k_world k) = (ok, w0)" by (metis surj_pair)
  obtain va dh w1 where dm: "dma_alloc_coherent env IPA_NAT_IPV6CT_TEMP_MEM_SIZE w0 = ((va, dh), w1)" by (metis surj_pair)
  note cw = resourcesD(1) [of env b cnt, OF _ al] resourcesD(3) [of env b cnt, OF _ dm] resourcesD(2,4) [of env b cnt]
  show thesis
  proof (cases "ok \<and> va \<noteq> 0")
    case False
    define w where "w = (if ok then k_free env w1 else w0)"
    have "ipa3_nat_ipv6ct_init_devices env k = Some (- ENOMEM, k\<lparr>k_world := w\<rparr>)"
      using False by (auto simp: ipa3_nat_ipv6ct_init_devices_def ipa3_nat_ipv6ct_allocate_tmp_memory_def os_def os_do_def al dm w_def)
    then show thesis
      by (rule that [where j = 0]) (use z cw False in \<open>auto simp: errno_defs zero_defs w_def\<close>)
  next
    case True
    define tm where "tm = \<lparr>tm_vaddr = va, tm_dma_handle = dh\<rparr>"
    define k2 where "k2 = upd_nm (\<lambda>nm. nm\<lparr>nm_is_tmp_mem_allocated := True\<rparr>) (k\<lparr>k_world := w1\<rparr>)"
    define clean where "clean = (\<lambda>k :: 'w ipa3_context. (- ENODEV,
              if nm_is_tmp_mem_allocated (k_nat_mem k)
              then upd_nm (\<lambda>nm. nm\<lparr>nm_is_tmp_mem_allocated := False\<rparr>)
                     (os_do (k_free env) (os_do
                       (dma_free_coherent env IPA_NAT_IPV6CT_TEMP_MEM_SIZE (tm_vaddr tm) (tm_dma_handle tm)) k))
              else k))"
    have tmp: "ipa3_nat_ipv6ct_allocate_tmp_memory env k = (Some tm, k\<lparr>k_world := w1\<rparr>)"
      using True by (simp add: ipa3_nat_ipv6ct_allocate_tmp_memory_def os_def os_do_def al dm tm_def)
    obtain r3 c3 w3 where 3: "ipa3_nat_ipv6ct_init_device env Nat_Dev IPA_NAT_DEV_NAME (IPA_NAT_PHYS_MEM_SIZE k2)
          (IPA_NAT_PHYS_MEM_OFFSET k2) (Some tm) k2 = Some (r3, (upd_dev Nat_Dev (\<lambda>_. c3) k2)\<lparr>k_world := w3\<rparr>)"
        "\<not> cm_lock c3" "cm_is_nat_mem c3" "\<not> cm_is_ipv6ct_mem c3"
        "cm_is_dev_init c3 = (if r3 = 0 then True else cm_is_dev_init (the_dev Nat_Dev k2))"
        "cm_tmp_mem c3 = (if r3 = 0 then Some tm else cm_tmp_mem (the_dev Nat_Dev k2))"
        "resources env b cnt \<Longrightarrow> cnt w3 = cnt (k_world k2) + (if r3 = 0 then 3 + b else 0)"
      by (rule init_device_outcome [OF len(1), of env Nat_Dev "IPA_NAT_PHYS_MEM_SIZE k2" "IPA_NAT_PHYS_MEM_OFFSET k2" "Some tm" k2 b cnt])
        simp
    let ?k3 = "(upd_dev Nat_Dev (\<lambda>_. c3) k2)\<lparr>k_world := w3\<rparr>"
    have hw: "k_hw_type ?k3 = k_hw_type k" by (simp add: k2_def upd_nm_def)
    obtain r4 c4 w4 where 4: "ipa3_nat_ipv6ct_init_device env Ipv6ct_Dev IPA_IPV6CT_DEV_NAME IPA_IPV6CT_PHYS_MEM_SIZE
          IPA_IPV6CT_PHYS_MEM_OFFSET (Some tm) ?k3 = Some (r4, (upd_dev Ipv6ct_Dev (\<lambda>_. c4) ?k3)\<lparr>k_world := w4\<rparr>)"
        "\<not> cm_lock c4" "\<not> cm_is_nat_mem c4" "cm_is_ipv6ct_mem c4"
        "cm_is_dev_init c4 = (if r4 = 0 then True else cm_is_dev_init (the_dev Ipv6ct_Dev ?k3))"
        "resources env b cnt \<Longrightarrow> cnt w4 = cnt (k_world ?k3) + (if r4 = 0 then 3 + b else 0)"
      by (rule init_device_outcome [OF len(2), of env Ipv6ct_Dev IPA_IPV6CT_PHYS_MEM_SIZE IPA_IPV6CT_PHYS_MEM_OFFSET "Some tm" ?k3 b cnt])
        simp
    let ?k4 = "(upd_dev Ipv6ct_Dev (\<lambda>_. c4) ?k3)\<lparr>k_world := w4\<rparr>"
    have eq: "ipa3_nat_ipv6ct_init_devices env k =
        (if r3 \<noteq> 0 then Some (clean ?k3) else if k_hw_type k < IPA_HW_v4_0 then Some (0, ?k3)
         else if r4 \<noteq> 0 then do { k \<leftarrow> ipa3_nat_ipv6ct_destroy_device env Nat_Dev ?k4; Some (clean k) }
         else Some (0, ?k4))"
      unfolding ipa3_nat_ipv6ct_init_devices_def tmp Let_def prod.case option.case clean_def k2_def [symmetric]
        3(1) bind.bind_lunit hw 4(1) ..
    consider (a) "r3 \<noteq> 0" | (b) "r3 = 0" "k_hw_type k < IPA_HW_v4_0" | (c) "r3 = 0" "\<not> k_hw_type k < IPA_HW_v4_0" "r4 \<noteq> 0"
      | (d) "r3 = 0" "\<not> k_hw_type k < IPA_HW_v4_0" "r4 = 0" by blast
    then show thesis
    proof cases
      case a
      define k' where "k' = upd_nm (\<lambda>nm. nm\<lparr>nm_is_tmp_mem_allocated := False\<rparr>) (?k3\<lparr>k_world :=
          k_free env (dma_free_coherent env IPA_NAT_IPV6CT_TEMP_MEM_SIZE (tm_vaddr tm) (tm_dma_handle tm) w3)\<rparr>)"
      have "ipa3_nat_ipv6ct_init_devices env k = Some (- ENODEV, k')"
        using a by (simp add: eq clean_def k'_def k2_def upd_nm_def os_do_def)
      then show thesis
        by (rule that [where j = 0]) (use z a True cw 3(5,7) in \<open>simp_all add: k'_def k2_def upd_nm_def zero_defs errno_defs\<close>)
    next
      case b
      then have "ipa3_nat_ipv6ct_init_devices env k = Some (0, ?k3)" by (simp add: eq)
      then show thesis
        by (rule that [where j = 0]) (use z b True cw 3(2-7) in \<open>simp_all add: k2_def upd_nm_def zero_defs kernel_inv_def driver_inv_def
            platform_ok_def pdn_inv_def the_mld_def\<close>)
    next
      case c
      have free: "\<not> cm_lock (the_dev Nat_Dev ?k4)" using 3(2) by simp
      obtain c5 w5 where 5: "ipa3_nat_ipv6ct_destroy_device env Nat_Dev ?k4 = Some ((upd_nm (\<lambda>nm. nm\<lparr>nm_is_tmp_mem_allocated :=
            nm_is_tmp_mem_allocated nm \<and> \<not> (nm_is_tmp_mem_allocated (k_nat_mem ?k4) \<and> cm_tmp_mem (the_dev Nat_Dev ?k4) \<noteq> None)\<rparr>)
            (upd_dev Nat_Dev (\<lambda>_. c5) ?k4))\<lparr>k_world := w5\<rparr>)" "\<not> cm_is_dev_init c5"
          "resources env b cnt \<Longrightarrow> cnt w5 = cnt (k_world ?k4) - 3 -
            (if nm_is_tmp_mem_allocated (k_nat_mem ?k4) \<and> cm_tmp_mem (the_dev Nat_Dev ?k4) \<noteq> None then 2 else 0)"
        using destroy_device_outcome [OF free, of env b cnt] by blast
      define k' where "k' = (upd_nm (\<lambda>nm. nm\<lparr>nm_is_tmp_mem_allocated := False\<rparr>) (upd_dev Nat_Dev (\<lambda>_. c5) ?k4))\<lparr>k_world := w5\<rparr>"
      have t: "nm_is_tmp_mem_allocated (k_nat_mem ?k4) \<and> cm_tmp_mem (the_dev Nat_Dev ?k4) \<noteq> None"
        using c 3(6) by (simp add: k2_def upd_nm_def)
      have d: "ipa3_nat_ipv6ct_destroy_device env Nat_Dev ?k4 = Some k'" using 5(1) t by (simp add: k'_def upd_nm_def)
      have "ipa3_nat_ipv6ct_init_devices env k = Some (- ENODEV, k')"
        using c unfolding eq d bind.bind_lunit by (simp add: clean_def k'_def upd_nm_def)
      then show thesis
        by (rule that [where j = 1]) (use z c t True cw 3(7) 4(5,6) 5(2,3) in \<open>simp_all add: k'_def k2_def upd_nm_def zero_defs errno_defs\<close>)
    next
      case d
      then have "ipa3_nat_ipv6ct_init_devices env k = Some (0, ?k4)" by (simp add: eq)
      then show thesis
        by (rule that [where j = 0]) (use z d True cw 3(2-7) 4(2-6) in \<open>simp_all add: k2_def upd_nm_def zero_defs kernel_inv_def driver_inv_def
            platform_ok_def pdn_inv_def the_mld_def not_less\<close>)
    qed
  qed
qed


text \<open>Starting and stopping the driver, with nothing in between.\<close>

lemma devices_life:
  fixes k :: "'w ipa3_context"
  assumes f: "fresh k" and res: "resources env b cnt" and start: "ipa3_nat_ipv6ct_init_devices env k = Some (0, k1)"
  obtains k2 where "ipa3_nat_ipv6ct_destroy_devices env k1 = Some k2" and "cnt (k_world k2) = cnt (k_world k) + (if k_hw_type k < IPA_HW_v4_0 then b else 2 * b)"
    and "\<not> cm_is_dev_init (nm_dev (k_nat_mem k2))" and "\<not> cm_is_dev_init (k_ipv6ct_mem k2)"
proof -
  have k1: "kernel_inv k1" "cm_is_dev_init (k_ipv6ct_mem k1) \<longleftrightarrow> IPA_HW_v4_0 \<le> k_hw_type k" "k_hw_type k1 = k_hw_type k"
    "nm_is_tmp_mem_allocated (k_nat_mem k1) \<and> cm_tmp_mem (the_dev Nat_Dev k1) \<noteq> None"
    "cnt (k_world k1) = cnt (k_world k) + (if k_hw_type k < IPA_HW_v4_0 then 5 + b else 8 + 2 * b)"
  proof -
    obtain r k' j where o: "ipa3_nat_ipv6ct_init_devices env k = Some (r, k')" and "j = 0 \<or> j = 1 \<and> IPA_HW_v4_0 \<le> k_hw_type k"
        and o2: "r = 0 \<longrightarrow> kernel_inv k'"
        "cm_is_dev_init (nm_dev (k_nat_mem k')) \<longleftrightarrow> r = 0" "cm_is_dev_init (k_ipv6ct_mem k') \<longleftrightarrow> r = 0 \<and> IPA_HW_v4_0 \<le> k_hw_type k" "k_hw_type k' = k_hw_type k"
        "r = 0 \<longrightarrow> nm_is_tmp_mem_allocated (k_nat_mem k') \<and> cm_tmp_mem (nm_dev (k_nat_mem k')) \<noteq> None"
        "resources env b cnt \<longrightarrow>
          cnt (k_world k') = cnt (k_world k) + (if r \<noteq> 0 then b * j else if k_hw_type k < IPA_HW_v4_0 then 5 + b else 8 + 2 * b)"
      by (rule init_devices_outcome [OF f, of env b cnt])
    have "r = 0" "k' = k1" using o start by simp_all
    then show "kernel_inv k1" "cm_is_dev_init (k_ipv6ct_mem k1) \<longleftrightarrow> IPA_HW_v4_0 \<le> k_hw_type k" "k_hw_type k1 = k_hw_type k"
      "nm_is_tmp_mem_allocated (k_nat_mem k1) \<and> cm_tmp_mem (the_dev Nat_Dev k1) \<noteq> None"
      "cnt (k_world k1) = cnt (k_world k) + (if k_hw_type k < IPA_HW_v4_0 then 5 + b else 8 + 2 * b)"
      using o2 res by simp_all
  qed
  have free: "\<not> cm_lock (the_dev Nat_Dev k1)" using k1(1) by (simp add: kernel_inv_def)
  obtain c w where 1: "ipa3_nat_ipv6ct_destroy_device env Nat_Dev k1 = Some ((upd_nm (\<lambda>nm. nm\<lparr>nm_is_tmp_mem_allocated := False\<rparr>)
        (upd_dev Nat_Dev (\<lambda>_. c) k1))\<lparr>k_world := w\<rparr>)" "\<not> cm_is_dev_init c" "cnt w = cnt (k_world k1) - 5"
  proof (rule destroy_device_outcome [OF free, of env b cnt])
    fix c w
    assume a: "ipa3_nat_ipv6ct_destroy_device env Nat_Dev k1 = Some ((upd_nm (\<lambda>nm. nm\<lparr>nm_is_tmp_mem_allocated :=
            nm_is_tmp_mem_allocated nm \<and> \<not> (nm_is_tmp_mem_allocated (k_nat_mem k1) \<and> cm_tmp_mem (the_dev Nat_Dev k1) \<noteq> None)\<rparr>)
            (upd_dev Nat_Dev (\<lambda>_. c) k1))\<lparr>k_world := w\<rparr>)" "\<not> cm_is_dev_init c"
        "resources env b cnt \<Longrightarrow> cnt w = cnt (k_world k1) - 3 -
            (if nm_is_tmp_mem_allocated (k_nat_mem k1) \<and> cm_tmp_mem (the_dev Nat_Dev k1) \<noteq> None then 2 else 0)"
    show thesis
      by (rule that [of w c]) (use a(1,2) a(3) [OF res] k1(4) in \<open>simp_all add: upd_nm_def\<close>)
  qed
  let ?k1 = "(upd_nm (\<lambda>nm. nm\<lparr>nm_is_tmp_mem_allocated := False\<rparr>) (upd_dev Nat_Dev (\<lambda>_. c) k1))\<lparr>k_world := w\<rparr>"
  have hw: "k_hw_type ?k1 = k_hw_type k" using k1(3) by (simp add: upd_nm_def)
  show thesis
  proof (cases "IPA_HW_v4_0 \<le> k_hw_type k")
    case False
    then show thesis using k1(2,5) 1 hw
      by (intro that [of ?k1]) (simp_all add: ipa3_nat_ipv6ct_destroy_devices_def 1(1) upd_nm_def)
  next
    case True
    have free: "\<not> cm_lock (the_dev Ipv6ct_Dev ?k1)" using k1(1) by (simp add: kernel_inv_def upd_nm_def)
    obtain k3 where 3: "ipa3_nat_ipv6ct_destroy_device env Ipv6ct_Dev ?k1 = Some k3" "\<not> cm_is_dev_init (k_ipv6ct_mem k3)"
        "nm_dev (k_nat_mem k3) = nm_dev (k_nat_mem ?k1)" "cnt (k_world k3) = cnt w - 3"
    proof (rule destroy_device_outcome [OF free, of env b cnt])
      fix c2 w2
      assume a: "ipa3_nat_ipv6ct_destroy_device env Ipv6ct_Dev ?k1 = Some ((upd_nm (\<lambda>nm. nm\<lparr>nm_is_tmp_mem_allocated :=
            nm_is_tmp_mem_allocated nm \<and> \<not> (nm_is_tmp_mem_allocated (k_nat_mem ?k1) \<and> cm_tmp_mem (the_dev Ipv6ct_Dev ?k1) \<noteq> None)\<rparr>)
            (upd_dev Ipv6ct_Dev (\<lambda>_. c2) ?k1))\<lparr>k_world := w2\<rparr>)" "\<not> cm_is_dev_init c2"
          "resources env b cnt \<Longrightarrow> cnt w2 = cnt (k_world ?k1) - 3 -
            (if nm_is_tmp_mem_allocated (k_nat_mem ?k1) \<and> cm_tmp_mem (the_dev Ipv6ct_Dev ?k1) \<noteq> None then 2 else 0)"
      show thesis by (rule that [OF a(1)]) (use a(2) a(3) [OF res] in \<open>simp_all add: upd_nm_def\<close>)
    qed
    show thesis using k1(5) 1 3 hw True
      by (intro that [of k3]) (simp_all add: ipa3_nat_ipv6ct_destroy_devices_def upd_nm_def)
  qed
qed

end
