(* ===== verification/Ipa_Nat_Dma.thy ===== *)
theory Ipa_Nat_Dma
  imports Ipa_Nat_Devices Nat_Rules Ipv6ct_Rules
begin

unbundle bit_operations_syntax

section \<open>From a client's DMA request to the tables\<close>

text \<open>
  What the hardware receives for a DMA request, and what it does to the tables. The library's model relies on
  the kernel to execute its commands in their order or to refuse them all (\<open>dma_faithful\<close>,
  \<open>ct_dma_faithful\<close>); here this is proved of the kernel's driver, for hardware that executes the lists of immediate
  commands it is sent.
\<close>

subsection \<open>Payloads\<close>

text \<open>What the hardware reads from a descriptor: a table DMA command has the opcode 14.\<close>

definition decode_dma :: "ipa3_desc \<Rightarrow> ipa_ioc_nat_dma_one list" where
  "decode_dma de =
     (if de_type de = IPA_IMM_CMD_DESC \<and> de_opcode de = 14
      then let N = le_nat (de_pyld de)
           in [\<lparr>d_table_index = of_nat (bits_at 0 3 N), d_base_addr = of_nat (bits_at 4 3 N),
                d_offset = of_nat (bits_at 8 32 N), d_data = of_nat (bits_at 40 16 N)\<rparr>]
      else [])"

definition decode_all :: "ipahal_imm_cmd_pyld list \<Rightarrow> ipa_ioc_nat_dma_one list" where
  "decode_all ps = concat (map (decode_dma \<circ> ipa3_init_imm_cmd_desc) ps)"

lemma decode_all_simps [simp]:
  "decode_all [] = []" "decode_all (ps @ qs) = decode_all ps @ decode_all qs"
  "decode_all (p # ps) = decode_dma (ipa3_init_imm_cmd_desc p) @ decode_all ps"
  by (simp_all add: decode_all_def)

lemma take_bit_small: "unat (x :: u8) < 2 ^ n \<Longrightarrow> take_bit n (unat x) = unat x"
  by (simp add: take_bit_nat_eq_self_iff)

lemma table_dma_bits:
  fixes c :: ipahal_imm_cmd_table_dma
  defines "N \<equiv> pack_bits (ipa_imm_cmd_hw_table_dma_ipav4 c)"
  shows "bits_at 0 3 N = take_bit 3 (unat (td_table_index c))" and "bits_at 4 3 N = take_bit 3 (unat (td_base_addr c))"
    and "bits_at 8 32 N = unat (td_offset c)" and "bits_at 40 16 N = unat (td_data c)"
    and "le_nat (bytes_le 8 N) = N"
proof -
  let ?u8 = "\<lambda>x. ucast (x :: u8) :: u64"
  have u: "unat (?u8 x) = unat x" "unat (ucast (y :: u32) :: u64) = unat y" "unat (ucast (z :: u16) :: u64) = unat z" for x y z
    by (simp_all add: unat_ucast_up)
  have y: "take_bit 32 (unat (td_offset c)) = unat (td_offset c)" "take_bit 16 (unat (td_data c)) = unat (td_data c)"
    using unsigned_less [of "td_offset c", where 'a = nat] unsigned_less [of "td_data c", where 'a = nat]
    by (simp_all add: take_bit_nat_eq_self_iff)
  show "bits_at 0 3 N = take_bit 3 (unat (td_table_index c))"
    using bits_at_pack [of 0 "[]" 3 "?u8 (td_table_index c)"] by (simp add: N_def ipa_imm_cmd_hw_table_dma_ipav4_def u del: pack_bits.simps)
  show "bits_at 4 3 N = take_bit 3 (unat (td_base_addr c))"
    using bits_at_pack [of 4 "[(3, ?u8 (td_table_index c)), (1, 0)]" 3 "?u8 (td_base_addr c)"]
    by (simp add: N_def ipa_imm_cmd_hw_table_dma_ipav4_def u del: pack_bits.simps)
  show "bits_at 8 32 N = unat (td_offset c)"
    using bits_at_pack [of 8 "[(3, ?u8 (td_table_index c)), (1, 0), (3, ?u8 (td_base_addr c)), (1, 0)]" 32 "ucast (td_offset c)"]
    by (simp add: N_def ipa_imm_cmd_hw_table_dma_ipav4_def u y del: pack_bits.simps)
  show "bits_at 40 16 N = unat (td_data c)"
    using bits_at_pack [of 40 "[(3, ?u8 (td_table_index c)), (1, 0), (3, ?u8 (td_base_addr c)), (1, 0), (32, ucast (td_offset c))]"
        16 "ucast (td_data c)"]
    by (simp add: N_def ipa_imm_cmd_hw_table_dma_ipav4_def u y del: pack_bits.simps)
  show "le_nat (bytes_le 8 N) = N"
    unfolding N_def by (rule le_nat_packed) (simp add: ipa_imm_cmd_hw_table_dma_ipav4_def)
qed

text \<open>Before version 4.0 the table's number has two bits, followed by reserved ones.\<close>

lemma nat_dma_same:
  assumes "unat (td_base_addr c) < 4"
  shows "ipa_imm_cmd_hw_nat_dma c = [(3, ucast (td_table_index c)), (1, 0), (2, ucast (td_base_addr c)), (2, 0),
      (32, ucast (td_offset c)), (16, ucast (td_data c)), (8, 0)]"
    and "pack_bits (ipa_imm_cmd_hw_nat_dma c) = pack_bits (ipa_imm_cmd_hw_table_dma_ipav4 c)"
proof -
  show "ipa_imm_cmd_hw_nat_dma c = [(3, ucast (td_table_index c)), (1, 0), (2, ucast (td_base_addr c)), (2, 0),
      (32, ucast (td_offset c)), (16, ucast (td_data c)), (8, 0)]" by (simp add: ipa_imm_cmd_hw_nat_dma_def)
  have "take_bit 2 (unat (ucast (td_base_addr c) :: u64)) = unat (td_base_addr c)"
    "take_bit 3 (unat (ucast (td_base_addr c) :: u64)) = unat (td_base_addr c)"
    using assms by (simp_all add: unat_ucast_up take_bit_nat_eq_self_iff)
  then show "pack_bits (ipa_imm_cmd_hw_nat_dma c) = pack_bits (ipa_imm_cmd_hw_table_dma_ipav4 c)"
    by (simp add: ipa_imm_cmd_hw_nat_dma_def ipa_imm_cmd_hw_table_dma_ipav4_def)
qed

text \<open>What is decoded from a payload of the command is the request.\<close>

definition dma_pyld :: "ipa_ioc_nat_dma_one \<Rightarrow> ipahal_imm_cmd_pyld" where
  "dma_pyld x = \<lparr>py_len = 8, py_opcode = 14, py_data = bytes_le 8 (pack_bits (ipa_imm_cmd_hw_table_dma_ipav4 (dma_one_cmd x)))\<rparr>"

lemma decode_dma_pyld:
  assumes "unat (d_table_index x) < 8" and "unat (d_base_addr x) < 8"
  shows "decode_dma (ipa3_init_imm_cmd_desc (dma_pyld x)) = [x]"
  using assms table_dma_bits [of "dma_one_cmd x"]
  by (simp add: decode_dma_def ipa3_init_imm_cmd_desc_def dma_pyld_def Let_def dma_one_cmd_def take_bit_small)

subsection \<open>The hardware\<close>

text \<open>
  The world around the driver is a pair: the second component is the memory of the tables, which the allocator
  does not touch and on which the transport executes the commands of a list in their order, or which it leaves
  alone where it reports an error. \<open>ex\<close> is the effect of a list of DMA commands.
\<close>

definition hw_executes ::
    "('r \<times> 'm, 'e) nat_kernel_env_scheme \<Rightarrow> (ipa_ioc_nat_dma_one list \<Rightarrow> 'm \<Rightarrow> 'm) \<Rightarrow> bool" where
  "hw_executes env ex \<longleftrightarrow>
     (\<forall>w. snd (snd (k_alloc env w)) = snd w) \<and> (\<forall>w. snd (k_free env w) = snd w) \<and>
     (\<forall>ds w. snd (snd (ipa3_send_cmd env ds w)) =
        (if fst (ipa3_send_cmd env ds w) = 0 then ex (concat (map decode_dma ds)) (snd w) else snd w))"

lemma hw_executesD:
  assumes "hw_executes env ex"
  shows "k_alloc env w = (ok, w') \<Longrightarrow> snd w' = snd w" and "snd (k_free env w) = snd w"
    and "ipa3_send_cmd env ds w = (r, w') \<Longrightarrow> snd w' = (if r = 0 then ex (concat (map decode_dma ds)) (snd w) else snd w)"
  using assms unfolding hw_executes_def by (metis fst_conv snd_conv)+

text \<open>A step of the construction of a list leaves the tables alone and adds commands that decode to \<open>cs\<close>.\<close>

definition carries ::
    "('r \<times> 'm) ipa3_context \<Rightarrow> ipahal_imm_cmd_pyld list \<Rightarrow> ('r \<times> 'm) pylds option \<Rightarrow> ipa_ioc_nat_dma_one list \<Rightarrow> bool" where
  "carries k ps m cs \<longleftrightarrow>
     (\<forall>r ps' k'. m = Some (r, ps', k') \<longrightarrow>
        same_driver k k' \<and> snd (k_world k') = snd (k_world k) \<and> (r = 0 \<longrightarrow> decode_all ps' = decode_all ps @ cs))"

lemma carries_skip [simp]: "carries k ps (Some (r, ps, k)) []"
  by (simp add: carries_def)

lemma carries_on_ok:
  assumes "carries k ps m cs"
    and "\<And>ps' k'. same_driver k k' \<Longrightarrow> carries k' ps' (f ps' k') cs'"
  shows "carries k ps (on_ok m f) (cs @ cs')"
proof (cases m)
  case (Some t)
  obtain r ps1 k1 where m: "m = Some (r, ps1, k1)" using Some by (cases t) auto
  then have 1: "same_driver k k1" "snd (k_world k1) = snd (k_world k)" "r = 0 \<longrightarrow> decode_all ps1 = decode_all ps @ cs"
    using assms(1) by (simp_all add: carries_def)
  have 2: "carries k1 ps1 (f ps1 k1) cs'" by (rule assms(2) [OF 1(1)])
  show ?thesis using 1 2 same_driver_trans [OF 1(1)] unfolding carries_def m on_ok_def bind.bind_lunit prod.case
    by (auto split: if_splits)
qed (simp add: carries_def on_ok_def)

text \<open>The commands the driver constructs: one that writes a register decodes to nothing.\<close>

lemma register_write_pyld:
  assumes ex: "hw_executes env ex" and h: "hal_ready hal" and q: "\<not> rw_skip_pipeline_clear q" "rw_pipeline_clear_options q = IPAHAL_HPS_CLEAR"
    and c: "ipahal_construct_imm_cmd env hal IPA_IMM_CMD_REGISTER_WRITE (Prm_register_write q) w = Some (p, w')"
  shows "snd w' = snd w" and "p = Some py \<Longrightarrow> py_opcode py = 12"
proof -
  have o: "ipahal_imm_cmd_get_opcode hal IPA_IMM_CMD_REGISTER_WRITE = 12"
    using hal_ready_objs(3) [OF h] by (simp add: ready_opcode [OF h] imm_in_force)
  have "snd w' = snd w \<and> (p = Some py \<longrightarrow> py_opcode py = 12)"
    using c q hal_ready_objs [OF h] hw_executesD(1) [OF ex]
    by (auto simp: ipahal_construct_imm_cmd_def imm_in_force call_construct_def o alloc_pyld_def pipeline_clear_def
        ipa_imm_cmd_construct_register_write_def ipa_imm_cmd_construct_register_write_v_4_0_def split: if_splits prod.splits)
  then show "snd w' = snd w" and "p = Some py \<Longrightarrow> py_opcode py = 12" by simp_all
qed

lemma decode_other: "py_opcode p \<noteq> 14 \<Longrightarrow> decode_dma (ipa3_init_imm_cmd_desc p) = []"
  by (simp add: decode_dma_def ipa3_init_imm_cmd_desc_def)

lemma carries_construct:
  assumes "\<And>p w'. ipahal_construct_imm_cmd env (k_hal k) cmd prm (k_world k) = Some (p, w') \<Longrightarrow>
      snd w' = snd (k_world k) \<and> (\<forall>py. p = Some py \<longrightarrow> decode_dma (ipa3_init_imm_cmd_desc py) = cs)"
    and "err \<noteq> 0"
  shows "carries k ps (construct_cmd env cap cmd prm err ps k) cs"
proof (cases "cap \<le> length ps \<or> ipahal_construct_imm_cmd env (k_hal k) cmd prm (k_world k) = None")
  case False
  then obtain p w' where c: "ipahal_construct_imm_cmd env (k_hal k) cmd prm (k_world k) = Some (p, w')" by (metis not_None_eq surj_pair)
  have "construct_cmd env cap cmd prm err ps k =
      Some (case p of None \<Rightarrow> (err, ps, k\<lparr>k_world := w'\<rparr>) | Some p \<Rightarrow> (0, ps @ [p], k\<lparr>k_world := w'\<rparr>))"
    using False by (simp add: construct_cmd_def c Let_def)
  then show ?thesis using assms(1) [OF c] assms(2) by (cases p) (simp_all add: carries_def)
qed (auto simp: carries_def construct_cmd_def)

lemma carries_register_write:
  assumes ex: "hw_executes env ex" and h: "hal_ready (k_hal k)"
    and q: "\<not> rw_skip_pipeline_clear q" "rw_pipeline_clear_options q = IPAHAL_HPS_CLEAR"
  shows "carries k ps (construct_cmd env cap IPA_IMM_CMD_REGISTER_WRITE (Prm_register_write q) (- ENOMEM) ps k) []"
proof (rule carries_construct)
  fix p w'
  assume "ipahal_construct_imm_cmd env (k_hal k) IPA_IMM_CMD_REGISTER_WRITE (Prm_register_write q) (k_world k) = Some (p, w')"
  from register_write_pyld [OF ex h q this]
  show "snd w' = snd (k_world k) \<and> (\<forall>py. p = Some py \<longrightarrow> decode_dma (ipa3_init_imm_cmd_desc py) = [])"
    by (auto simp: decode_other)
qed (simp add: errno_defs)

lemma carries_nop:
  assumes "hw_executes env ex" and "hal_ready (k_hal k)"
  shows "carries k ps (construct_nop env cap ps k) []"
proof -
  have "construct_nop env cap ps k = construct_cmd env cap IPA_IMM_CMD_REGISTER_WRITE (Prm_register_write
      \<lparr>rw_offset = 0, rw_value = 0, rw_value_mask = 0, rw_skip_pipeline_clear = False,
       rw_pipeline_clear_options = IPAHAL_HPS_CLEAR\<rparr>) (- ENOMEM) ps k"
    by (simp add: construct_nop_def construct_cmd_def ipahal_construct_nop_imm_cmd_def)
  then show ?thesis using carries_register_write [OF assms] by simp
qed

lemma carries_coal_close:
  assumes "hw_executes env ex" and "hal_ready (k_hal k)"
  shows "carries k ps (construct_coal_close env cap ps k) []"
proof -
  have "\<not> rw_skip_pipeline_clear (coal_close_params env k)" "rw_pipeline_clear_options (coal_close_params env k) = IPAHAL_HPS_CLEAR"
    by (simp_all add: coal_close_params_def Let_def split: prod.splits)
  from carries_register_write [OF assms this] show ?thesis by (simp add: construct_coal_close_def)
qed

lemma carries_dma:
  assumes ex: "hw_executes env ex" and pl: "platform_ok k" and v: "dma_valid loc k0 x" and hw: "k_hw_type k0 = k_hw_type k"
    and c: "c = (if IPA_HW_v4_0 \<le> k_hw_type k then IPA_IMM_CMD_TABLE_DMA else IPA_IMM_CMD_NAT_DMA)"
  shows "carries k ps (construct_cmd env cap c (Prm_table_dma (dma_one_cmd x)) (- ENOMEM) ps k) [x]"
proof (rule carries_construct)
  note p = platform_okD [OF pl]
  have t: "unat (d_table_index x) < 8" "unat (d_base_addr x) < 8"
    using v by (auto simp: dma_valid_def word_le_nat_alt)
  obtain ok w where al: "k_alloc env (k_world k) = (ok, w)" by (metis surj_pair)
  have w: "snd w = snd (k_world k)" using hw_executesD(1) [OF ex al] .
  have cons: "ipahal_construct_imm_cmd env (k_hal k) c (Prm_table_dma (dma_one_cmd x)) (k_world k) =
      Some (if ok then Some (dma_pyld x) else None, w)"
  proof (cases "IPA_HW_v4_0 \<le> k_hw_type k")
    case True
    then show ?thesis using ready_table_dma [OF p(1) _ al] p(2) by (simp add: c dma_pyld_def)
  next
    case False
    then have "unat (td_base_addr (dma_one_cmd x)) < 4"
      using v hw by (auto simp: dma_valid_def dma_one_cmd_def word_less_nat_alt split: if_splits)
    then show ?thesis using ready_nat_dma [OF p(1) _ al] p(2) False nat_dma_same(2) by (simp add: c dma_pyld_def)
  qed
  fix p w'
  assume "ipahal_construct_imm_cmd env (k_hal k) c (Prm_table_dma (dma_one_cmd x)) (k_world k) = Some (p, w')"
  then have "p = (if ok then Some (dma_pyld x) else None)" "w' = w" unfolding cons by simp_all
  then show "snd w' = snd (k_world k) \<and> (\<forall>py. p = Some py \<longrightarrow> decode_dma (ipa3_init_imm_cmd_desc py) = [x])"
    using w decode_dma_pyld [OF t] by simp
qed (simp add: errno_defs)

lemma carries_construct_dma:
  assumes ex: "hw_executes env ex" and "platform_ok k" and "\<forall>x\<in>set xs. dma_valid loc k0 x" and "k_hw_type k0 = k_hw_type k"
    and "c = (if IPA_HW_v4_0 \<le> k_hw_type k then IPA_IMM_CMD_TABLE_DMA else IPA_IMM_CMD_NAT_DMA)"
  shows "carries k ps (construct_dma env cap c xs ps k) xs"
  using assms(2-)
proof (induction xs arbitrary: ps k)
  case (Cons x xs)
  have "carries k ps (on_ok (construct_cmd env cap c (Prm_table_dma (dma_one_cmd x)) (- ENOMEM) ps k) (construct_dma env cap c xs))
      ([x] @ xs)"
  proof (rule carries_on_ok)
    show "carries k ps (construct_cmd env cap c (Prm_table_dma (dma_one_cmd x)) (- ENOMEM) ps k) [x]"
      using Cons.prems by (intro carries_dma [OF ex, of _ loc k0]) auto
    fix ps' and k' :: "('a \<times> 'b) ipa3_context"
    assume s: "same_driver k k'"
    show "carries k' ps' (construct_dma env cap c xs ps' k') xs"
      using Cons.prems same_driver_platform(1) [OF s] by (intro Cons.IH) (simp_all add: same_driver_fields [OF s])
  qed
  then show ?case by simp
qed simp

subsection \<open>The effect of a request\<close>

lemma dma_list_effect:
  assumes ex: "hw_executes env ex" and pl: "platform_ok k" and v: "\<forall>x\<in>set xs. dma_valid loc k x"
    and r: "destroy_imm_cmd env (dma_list env xs k) = Some (r, k')"
  shows "snd (k_world k') = (if r = 0 then ex xs (snd (k_world k)) else snd (k_world k))"
proof -
  define L where "L = on_ok (construct_coal_close env IPA_MAX_NUM_OF_TABLE_DMA_CMD_DESC [] k) (\<lambda>ps k.
     on_ok (construct_nop env IPA_MAX_NUM_OF_TABLE_DMA_CMD_DESC ps k) (\<lambda>ps k.
      construct_dma env IPA_MAX_NUM_OF_TABLE_DMA_CMD_DESC
              (if IPA_HW_v4_0 \<le> k_hw_type k then IPA_IMM_CMD_TABLE_DMA else IPA_IMM_CMD_NAT_DMA) xs ps k))"
  have assoc: "on_ok (on_ok m f) g = on_ok m (\<lambda>ps k. on_ok (f ps k) g)" for m and f and g :: "_ \<Rightarrow> _ \<Rightarrow> ('a \<times> 'b) pylds option"
    by (cases m) (auto simp: on_ok_def split: prod.splits)
  have list: "dma_list env xs k = on_ok L (send_pylds env)"
    by (simp add: dma_list_def L_def assoc)
  have "carries k [] L ([] @ ([] @ xs))"
    unfolding L_def
  proof (intro carries_on_ok)
    show "carries k [] (construct_coal_close env IPA_MAX_NUM_OF_TABLE_DMA_CMD_DESC [] k) []"
      by (rule carries_coal_close [OF ex platform_okD(1) [OF pl]])
    fix ps :: "ipahal_imm_cmd_pyld list" and k1 :: "('a \<times> 'b) ipa3_context"
    assume s: "same_driver k k1"
    have p1: "platform_ok k1" by (rule same_driver_platform(1) [OF s pl])
    show "carries k1 ps (construct_nop env IPA_MAX_NUM_OF_TABLE_DMA_CMD_DESC ps k1) []"
      by (rule carries_nop [OF ex platform_okD(1) [OF p1]])
    fix ps2 :: "ipahal_imm_cmd_pyld list" and k2 :: "('a \<times> 'b) ipa3_context"
    assume s2: "same_driver k1 k2"
    show "carries k2 ps2 (construct_dma env IPA_MAX_NUM_OF_TABLE_DMA_CMD_DESC
              (if IPA_HW_v4_0 \<le> k_hw_type k2 then IPA_IMM_CMD_TABLE_DMA else IPA_IMM_CMD_NAT_DMA) xs ps2 k2) xs"
      by (rule carries_construct_dma [OF ex same_driver_platform(1) [OF s2 p1] v _ refl])
        (simp add: same_driver_fields [OF s] same_driver_fields [OF s2])
  qed
  then have c: "L = Some (r1, ps1, k1) \<Longrightarrow> snd (k_world k1) = snd (k_world k) \<and> (r1 = 0 \<longrightarrow> decode_all ps1 = xs)" for r1 ps1 k1
    by (simp add: carries_def)
  obtain ps3 k3 where 3: "dma_list env xs k = Some (r, ps3, k3)" "k' = fold (\<lambda>_. os_do (ipahal_destroy_imm_cmd env)) ps3 k3"
    using r by (auto simp: destroy_imm_cmd_def bind_eq_Some_conv)
  have free: "snd ((k_free env ^^ n) w) = snd w" for n w by (induction n) (simp_all add: hw_executesD(2) [OF ex])
  have k': "snd (k_world k') = snd (k_world k3)" by (simp add: 3(2) destroy_fold free)
  obtain r1 ps1 k1 where 1: "L = Some (r1, ps1, k1)" using 3(1) unfolding list on_ok_def by (auto simp: bind_eq_Some_conv)
  obtain r2 w2 where 2: "ipa3_send_cmd env (map ipa3_init_imm_cmd_desc ps1) (k_world k1) = (r2, w2)" by (metis surj_pair)
  have "Some (r, ps3, k3) = (if r1 \<noteq> 0 then Some (r1, ps1, k1) else Some (r2, ps1, k1\<lparr>k_world := w2\<rparr>))"
    using 3(1) unfolding list 1 on_ok_def bind.bind_lunit prod.case by (auto simp: send_pylds_def os_def 2 split: if_splits)
  then show ?thesis
    using c [OF 1] hw_executesD(3) [OF ex 2] k' by (auto simp: decode_all_def comp_def split: if_splits)
qed

text \<open>
  The contract of a DMA request at the kernel's interface: all its commands take effect in their order, or none.
\<close>

lemma dma_ioctl_effect:
  assumes ex: "hw_executes env ex" and inv: "kernel_inv k"
    and r: "ipa3_ioctl env (Ioc_Table_Dma_Cmd (Some (entries cmd)) (Some cmd)) k = Some (r, a, k')"
  shows "snd (k_world k') = (if r = 0 then ex (cmds_of cmd) (snd (k_world k)) else snd (k_world k))"
proof -
  obtain ok w where al: "k_alloc env (k_world k) = (ok, w)" by (metis surj_pair)
  let ?k1 = "k\<lparr>k_world := w\<rparr>" and ?n = "unat (entries cmd)"
  have w: "snd w = snd (k_world k)" by (rule hw_executesD(1) [OF ex al])
  have o: "os (k_alloc env) k = (ok, ?k1)" by (simp add: os_def al)
  note free = hw_executesD(2) [OF ex]
  let ?cmd = "cmd\<lparr>dma := take ?n (dma cmd)\<rparr>"
  have eq: "ipa3_ioctl env (Ioc_Table_Dma_Cmd (Some (entries cmd)) (Some cmd)) k =
      (if \<not> ok then Some (- ENOMEM, No_Reply, ?k1)
       else if length (dma cmd) < ?n then Some (- EFAULT, No_Reply, os_do (k_free env) ?k1)
       else do {
         (r, k) \<leftarrow> ipa3_table_dma_cmd env ?cmd ?k1;
         Some (if r \<noteq> 0 then - EFAULT else 0, No_Reply, os_do (k_free env) k)
       })"
    by (simp add: ipa3_ioctl_def table_dma_ioctl_def o)
  show ?thesis
  proof (cases "ok \<and> ?n \<le> length (dma cmd)")
    case False
    then show ?thesis using r w free [of w] unfolding eq by (auto simp: os_do_def errno_defs EFAULT_def split: if_splits)
  next
    case True
    have d1: "driver_inv ?k1" using inv by (simp add: kernel_inv_def)
    have len: "unat (entries ?cmd) \<le> length (dma ?cmd)" using True by simp
    obtain r2 k2 where 2: "ipa3_table_dma_cmd env ?cmd ?k1 = Some (r2, k2)"
      using table_dma_cmd_ok [OF d1 len, of env "\<lambda>_. 0"] by (auto simp: call_ok_def)
    have k': "r = (if r2 \<noteq> 0 then - EFAULT else 0)" "snd (k_world k') = snd (k_world k2)"
      using r True free [of "k_world k2"] unfolding eq 2 by (auto simp: os_do_def)
    have "snd (k_world k2) = (if r2 = 0 then ex (cmds_of cmd) (snd w) else snd w)"
    proof (cases "dma_accepted env ?cmd ?k1")
      case False
      then show ?thesis using 2 by (auto simp: table_dma_cmd_eq [OF d1 len] EPERM_def)
    next
      case True
      then have v: "\<forall>x\<in>set (cmds_of cmd). dma_valid (dma_loc ?cmd ?k1) ?k1 x" by (simp add: dma_accepted_def cmds_of_def)
      have "destroy_imm_cmd env (dma_list env (cmds_of cmd) ?k1) = Some (r2, k2)"
        using 2 True by (simp add: table_dma_cmd_eq [OF d1 len] cmds_of_def)
      from dma_list_effect [OF ex driver_invD(1) [OF d1] v this] show ?thesis by simp
    qed
    then show ?thesis using k' w by (simp add: EFAULT_def)
  qed
qed

subsection \<open>The kernel under the library\<close>

text \<open>
  An environment of the library whose DMA request is the kernel's: the state \<open>kst w\<close> of the driver is part of the
  library's world, and the memory the library passes is the memory the hardware works on. The C library turns an
  error code into \<open>-1\<close>.
\<close>

definition kernel_dma ::
    "('r \<times> 'm, 'e) nat_kernel_env_scheme \<Rightarrow> ipa_ioc_nat_dma_cmd \<Rightarrow> 'm \<Rightarrow> ('r \<times> 'm) ipa3_context
     \<Rightarrow> ((int \<times> 'm) \<times> ('r \<times> 'm) ipa3_context) option" where
  "kernel_dma kenv cmd m k =
     do {
       (r, _, k) \<leftarrow> ipa3_ioctl kenv (Ioc_Table_Dma_Cmd (Some (entries cmd)) (Some cmd)) (k\<lparr>k_world := (fst (k_world k), m)\<rparr>);
       Some ((if r = 0 then 0 else - 1, snd (k_world k)), k)
     }"

definition kernel_backed ::
    "('w, 'm) nat_env_scheme \<Rightarrow> ('r \<times> nat_mem, 'e) nat_kernel_env_scheme \<Rightarrow> ('w \<Rightarrow> ('r \<times> nat_mem) ipa3_context) \<Rightarrow> bool" where
  "kernel_backed env kenv kst \<longleftrightarrow>
     (\<forall>w. kernel_inv (kst w)) \<and>
     (\<forall>fd cmd m w r m' w'. ioctl_table_dma env fd cmd m w = ((r, m'), w') \<longrightarrow>
        kernel_dma kenv cmd m (kst w) = Some ((r, m'), kst w'))"

definition ct_kernel_backed ::
    "('w, 'm) ct_env_scheme \<Rightarrow> ('r \<times> ipa_ipv6ct_hw_entry list, 'e) nat_kernel_env_scheme
     \<Rightarrow> ('w \<Rightarrow> ('r \<times> ipa_ipv6ct_hw_entry list) ipa3_context) \<Rightarrow> bool" where
  "ct_kernel_backed env kenv kst \<longleftrightarrow>
     (\<forall>w. kernel_inv (kst w)) \<and>
     (\<forall>fd cmd m w r m' w'. ioctl_ct_dma env fd cmd m w = ((r, m'), w') \<longrightarrow>
        kernel_dma kenv cmd m (kst w) = Some ((r, m'), kst w'))"

lemma kernel_dma_effect:
  assumes ex: "hw_executes kenv ex" and inv: "kernel_inv k" and r: "kernel_dma kenv cmd m k = Some ((r, m'), k')"
  shows "m' = (if r = 0 then ex (cmds_of cmd) m else m)"
proof -
  let ?k = "k\<lparr>k_world := (fst (k_world k), m)\<rparr>"
  obtain r2 a k2 where 2: "ipa3_ioctl kenv (Ioc_Table_Dma_Cmd (Some (entries cmd)) (Some cmd)) ?k = Some (r2, a, k2)"
      "m' = snd (k_world k2)" "r = (if r2 = 0 then 0 else - 1)"
    using r by (auto simp: kernel_dma_def bind_eq_Some_conv)
  have "kernel_inv ?k" using inv by simp
  from dma_ioctl_effect [OF ex this 2(1)] show ?thesis by (simp add: 2(2,3))
qed

text \<open>What the hardware does to the two tables of the NAT cache.\<close>

definition nat_hw :: "ipa_nat_ip4_table_cache \<Rightarrow> ipa_ioc_nat_dma_one list \<Rightarrow> nat_mem \<Rightarrow> nat_mem" where
  "nat_hw nt cs m =
     (recs (nat_exec cs ((nt_table nt)\<lparr>recs := fst m\<rparr>)), recs (indx_exec cs ((nt_index_table nt)\<lparr>recs := snd m\<rparr>)))"

lemma kernel_dma_faithful:
  assumes "hw_executes kenv (nat_hw nt)" and "kernel_backed env kenv kst"
  shows "dma_faithful env nt"
  unfolding dma_faithful_def
proof (intro allI impI)
  fix fd cmd ns xs w r ns' xs' w'
  assume "ioctl_table_dma env fd cmd (ns, xs) w = ((r, ns', xs'), w')"
  then have "kernel_inv (kst w)" "kernel_dma kenv cmd (ns, xs) (kst w) = Some ((r, ns', xs'), kst w')"
    using assms(2) by (auto simp: kernel_backed_def)
  from kernel_dma_effect [OF assms(1) this]
  show "if r = 0 then ns' = recs (nat_exec (cmds_of cmd) ((nt_table nt)\<lparr>recs := ns\<rparr>)) \<and>
              xs' = recs (indx_exec (cmds_of cmd) ((nt_index_table nt)\<lparr>recs := xs\<rparr>))
         else ns' = ns \<and> xs' = xs"
    by (auto simp: nat_hw_def)
qed

lemma kernel_ct_dma_faithful:
  assumes "hw_executes kenv (\<lambda>cs rs. recs (ct_exec cs (t\<lparr>recs := rs\<rparr>)))" and "ct_kernel_backed env kenv kst"
  shows "ct_dma_faithful env t"
  unfolding ct_dma_faithful_def
proof (intro allI impI)
  fix fd cmd rs w r rs' w'
  assume "ioctl_ct_dma env fd cmd rs w = ((r, rs'), w')"
  then have "kernel_inv (kst w)" "kernel_dma kenv cmd rs (kst w) = Some ((r, rs'), kst w')"
    using assms(2) by (auto simp: ct_kernel_backed_def)
  from kernel_dma_effect [OF assms(1) this]
  show "rs' = (if r = 0 then recs (ct_exec (cmds_of cmd) (t\<lparr>recs := rs\<rparr>)) else rs)" by simp
qed

end
