(* ===== verification/Hal_Properties.thy ===== *)
theory Hal_Properties
  imports Hal_View Ipa_Nat_Dma
begin

unbundle bit_operations_syntax

section \<open>Properties of the hardware abstraction layer\<close>

text \<open>
  The properties of the tables of immediate commands and of NAT callbacks, of the payloads and of the table
  entries, each with its instance on hardware of version 4.5.
\<close>

definition hal45 :: ipahal_ctx where "hal45 = snd (hal_init IPA_HW_v4_5)"

definition alloc_env :: "unit kernel_env" where "alloc_env = \<lparr>k_alloc = (\<lambda>w. (True, w)), k_free = (\<lambda>w. w)\<rparr>"

lemma hal45: "hal_ready hal45" "hal_hw_type hal45 = IPA_HW_v4_5"
  using hal_init_ready [of IPA_HW_v4_5] hal_init_tables(2) [of IPA_HW_v4_5 IPA_HW_v4_5 IPAHAL_NAT_IPV4]
  by (simp_all add: hal45_def hw_defs)

lemma alloc_env [simp]: "k_alloc alloc_env w = (True, w)"
  by (simp add: alloc_env_def)

subsection \<open>The tables\<close>

text \<open>
  C24. Initialisation fills the two tables for every supported hardware version: for each version up to the one in
  use, each command and each type of entry has exactly the object of the newest version not after it that lists
  one, although the code copies row by row and the source lists only what changes between versions.
\<close>

theorem hal_init_inherits:
  assumes "IPA_HW_v3_0 \<le> hw" and "hw < IPA_HW_MAX" and "IPA_HW_v3_0 \<le> n" and "n \<le> hw" and "t \<noteq> IPA_NAT_MAX"
  shows "fst (hal_init hw) = 0 \<and>
     nat_objs (snd (hal_init hw)) n t = in_force nat_obj_zero nat_objs_init n t \<and>
     imm_cmd_objs (snd (hal_init hw)) n c = in_force imm_cmd_obj_zero imm_cmd_objs_init n c"
  using hal_init_tables [OF assms] by simp

theorem hal_init_inherits_witness:
  "nat_objs hal45 15 IPAHAL_NAT_IPV4_PDN = in_force nat_obj_zero nat_objs_init 15 IPAHAL_NAT_IPV4_PDN"
  using hal_init_inherits [of IPA_HW_v4_5 15 IPAHAL_NAT_IPV4_PDN] by (simp add: hal45_def hw_defs)

subsection \<open>Payloads\<close>

text \<open>The \<open>sizeof\<close> of a structure of bit fields of \<open>u64\<close>: whole 64-bit units, as many as the fields need.\<close>

definition struct_size :: "(nat \<times> u64) list \<Rightarrow> nat" where
  "struct_size fs = 8 * ((width_of fs + 63) div 64)"

lemma alloc_pyld_packs:
  assumes "alloc_pyld env opc n n fs w = (Some p, w')" and "n < 65536" and "n = struct_size fs"
  shows "length (py_data p) = unat (py_len p) \<and> unat (py_len p) = struct_size fs \<and> le_nat (py_data p) = pack_bits fs"
proof -
  have "width_of fs \<le> 8 * n" using assms(3) by (simp add: struct_size_def)
  then show ?thesis using assms le_nat_packed [of fs n]
    by (auto simp: alloc_pyld_def unat_of_nat bytes_le_def take_bit_nat_eq_self split: prod.splits if_splits)
qed

text \<open>
  The hardware structure each constructor of \<open>ipahal.c\<close> is there to fill, as the list of its bit fields (the
  structures of \<open>ipahal_i.h\<close>); the dummy has none.
\<close>

definition hw_fields :: "imm_construct \<Rightarrow> imm_params \<Rightarrow> (nat \<times> u64) list" where
  "hw_fields c prm =
     (case (c, prm) of
        (Construct_dma_task_32b_addr, Prm_dma_task_32b_addr p) \<Rightarrow> ipa_imm_cmd_hw_dma_task_32b_addr p
      | (Construct_ip_packet_tag_status, Prm_ip_packet_tag_status p) \<Rightarrow> ipa_imm_cmd_hw_ip_packet_tag_status p
      | (Construct_dma_shared_mem, Prm_dma_shared_mem p) \<Rightarrow> ipa_imm_cmd_hw_dma_shared_mem p
      | (Construct_dma_shared_mem_v_4_0, Prm_dma_shared_mem p) \<Rightarrow> ipa_imm_cmd_hw_dma_shared_mem_v_4_0 p
      | (Construct_register_write, Prm_register_write p) \<Rightarrow> ipa_imm_cmd_hw_register_write p
      | (Construct_register_write_v_4_0, Prm_register_write p) \<Rightarrow> ipa_imm_cmd_hw_register_write_v_4_0 p
      | (Construct_register_read, Prm_register_read p) \<Rightarrow> ipa_imm_cmd_hw_register_read p
      | (Construct_ip_packet_init, Prm_ip_packet_init p) \<Rightarrow> ipa_imm_cmd_hw_ip_packet_init p
      | (Construct_ip_packet_init_v_5_0, Prm_ip_packet_init p) \<Rightarrow> ipa_imm_cmd_hw_ip_packet_init_v_5_0 p
      | (Construct_ip_packet_init_ex, Prm_ip_packet_init_ex p) \<Rightarrow> ipa_imm_cmd_hw_ip_packet_init_ex p
      | (Construct_ip_packet_init_ex_v5_5, Prm_ip_packet_init_ex p) \<Rightarrow> ipa_imm_cmd_hw_ip_packet_init_ex_v5_5 p
      | (Construct_nat_dma, Prm_table_dma p) \<Rightarrow> ipa_imm_cmd_hw_nat_dma p
      | (Construct_table_dma_ipav4, Prm_table_dma p) \<Rightarrow> ipa_imm_cmd_hw_table_dma_ipav4 p
      | (Construct_hdr_init_system, Prm_hdr_init_system p) \<Rightarrow> ipa_imm_cmd_hw_hdr_init_system p
      | (Construct_hdr_init_local, Prm_hdr_init_local p) \<Rightarrow> ipa_imm_cmd_hw_hdr_init_local p
      | (Construct_ip_v6_routing_init, Prm_ip_v6_routing_init p) \<Rightarrow> ipa_imm_cmd_hw_ip_v6_routing_init p
      | (Construct_ip_v4_routing_init, Prm_ip_v4_routing_init p) \<Rightarrow> ipa_imm_cmd_hw_ip_v4_routing_init p
      | (Construct_ip_v4_nat_init, Prm_ip_v4_nat_init p) \<Rightarrow> ipa_imm_cmd_hw_ip_v4_nat_init p
      | (Construct_ip_v6_ct_init, Prm_ip_v6_ct_init p) \<Rightarrow> ipa_imm_cmd_hw_ip_v6_ct_init p
      | (Construct_ip_v6_filter_init, Prm_ip_v6_filter_init p) \<Rightarrow> ipa_imm_cmd_hw_ip_v6_filter_init p
      | (Construct_ip_v4_filter_init, Prm_ip_v4_filter_init p) \<Rightarrow> ipa_imm_cmd_hw_ip_v4_filter_init p
      | _ \<Rightarrow> [])"

lemmas hw_struct_defs = ipa_imm_cmd_hw_dma_task_32b_addr_def ipa_imm_cmd_hw_ip_packet_tag_status_def
  ipa_imm_cmd_hw_dma_shared_mem_def ipa_imm_cmd_hw_dma_shared_mem_v_4_0_def ipa_imm_cmd_hw_register_write_def
  ipa_imm_cmd_hw_register_write_v_4_0_def ipa_imm_cmd_hw_register_read_def ipa_imm_cmd_hw_ip_packet_init_def
  ipa_imm_cmd_hw_ip_packet_init_v_5_0_def ipa_imm_cmd_hw_ip_packet_init_ex_def ipa_imm_cmd_hw_ip_packet_init_ex_v5_5_def
  ipa_imm_cmd_hw_nat_dma_def ipa_imm_cmd_hw_table_dma_ipav4_def ipa_imm_cmd_hw_hdr_init_system_def
  ipa_imm_cmd_hw_hdr_init_local_def ipa_imm_cmd_hw_ip_v6_routing_init_def ipa_imm_cmd_hw_ip_v4_routing_init_def
  ipa_imm_cmd_hw_ip_v4_nat_init_def ipa_imm_cmd_hw_ip_v6_ct_init_def ipa_imm_cmd_hw_ip_v6_filter_init_def
  ipa_imm_cmd_hw_ip_v4_filter_init_def

lemmas imm_construct_defs = ipa_imm_cmd_construct_dma_task_32b_addr_def ipa_imm_cmd_construct_ip_packet_tag_status_def
  ipa_imm_cmd_construct_dma_shared_mem_def ipa_imm_cmd_construct_dma_shared_mem_v_4_0_def
  ipa_imm_cmd_construct_register_write_def ipa_imm_cmd_construct_register_write_v_4_0_def
  ipa_imm_cmd_construct_register_read_def ipa_imm_cmd_construct_ip_packet_init_def
  ipa_imm_cmd_construct_ip_packet_init_v_5_0_def ipa_imm_cmd_construct_ip_packet_init_ex_def
  ipa_imm_cmd_construct_ip_packet_init_ex_v5_5_def ipa_imm_cmd_construct_nat_dma_def
  ipa_imm_cmd_construct_table_dma_ipav4_def ipa_imm_cmd_construct_hdr_init_system_def
  ipa_imm_cmd_construct_hdr_init_local_def ipa_imm_cmd_construct_ip_v6_routing_init_def
  ipa_imm_cmd_construct_ip_v4_routing_init_def ipa_imm_cmd_construct_ip_v4_nat_init_def
  ipa_imm_cmd_construct_ip_v6_ct_init_def ipa_imm_cmd_construct_ip_v6_filter_init_def
  ipa_imm_cmd_construct_ip_v4_filter_init_def ipa_imm_cmd_construct_dummy_def

lemma struct_sizes:
  shows "struct_size (ipa_imm_cmd_hw_dma_task_32b_addr p0) = 16" and "struct_size (ipa_imm_cmd_hw_ip_packet_tag_status p1) = 8"
    and "struct_size (ipa_imm_cmd_hw_dma_shared_mem p2) = 16" and "struct_size (ipa_imm_cmd_hw_dma_shared_mem_v_4_0 p3) = 16"
    and "struct_size (ipa_imm_cmd_hw_register_write p4) = 16" and "struct_size (ipa_imm_cmd_hw_register_write_v_4_0 p5) = 16"
    and "struct_size (ipa_imm_cmd_hw_register_read p6) = 8" and "struct_size (ipa_imm_cmd_hw_ip_packet_init p7) = 8"
    and "struct_size (ipa_imm_cmd_hw_ip_packet_init_v_5_0 p8) = 8" and "struct_size (ipa_imm_cmd_hw_ip_packet_init_ex p9) = 16"
    and "struct_size (ipa_imm_cmd_hw_ip_packet_init_ex_v5_5 p10) = 24" and "struct_size (ipa_imm_cmd_hw_nat_dma p11) = 8"
    and "struct_size (ipa_imm_cmd_hw_table_dma_ipav4 p12) = 8" and "struct_size (ipa_imm_cmd_hw_hdr_init_system p13) = 8"
    and "struct_size (ipa_imm_cmd_hw_hdr_init_local p14) = 16" and "struct_size (ipa_imm_cmd_hw_ip_v6_routing_init p15) = 24"
    and "struct_size (ipa_imm_cmd_hw_ip_v4_routing_init p16) = 24" and "struct_size (ipa_imm_cmd_hw_ip_v4_nat_init p17) = 40"
    and "struct_size (ipa_imm_cmd_hw_ip_v6_ct_init p18) = 24" and "struct_size (ipa_imm_cmd_hw_ip_v6_filter_init p19) = 24"
    and "struct_size (ipa_imm_cmd_hw_ip_v4_filter_init p20) = 24"
  by (simp_all add: struct_size_def hw_struct_defs)

lemma construct_packs:
  assumes "call_construct env hal c cmd prm w = Some (Some p, w')"
  defines "n \<equiv> struct_size (hw_fields c prm)"
  obtains opc where "alloc_pyld env opc n n (hw_fields c prm) w = (Some p, w')" and "n < 65536"
proof -
  have "(\<exists>opc. alloc_pyld env opc n n (hw_fields c prm) w = (Some p, w')) \<and> n < 65536"
    using assms(1) unfolding n_def
    by (cases c; cases prm; simp add: call_construct_def imm_construct_defs hw_fields_def struct_sizes split: if_splits)
      (rule exI, assumption)+
  then show thesis using that by blast
qed

text \<open>
  C26. A payload is exactly one hardware structure: whichever command is constructed, in whichever version and with
  whatever parameters, the number of bytes behind the data is the length in the payload, which becomes that of the
  descriptor, it is the size of the structure of the constructor the version uses, and the bytes are the bit
  fields of that structure, none cut off and nothing behind them.
\<close>

theorem payload_matches_struct:
  assumes "ipahal_construct_imm_cmd env hal cmd prm w = Some (Some p, w')"
  shows "\<exists>c. construct (imm_cmd_objs hal (hal_hw_type hal) cmd) = Some c \<and> length (py_data p) = unat (py_len p) \<and>
     unat (py_len p) = struct_size (hw_fields c prm) \<and> le_nat (py_data p) = pack_bits (hw_fields c prm)"
proof -
  obtain c where c: "construct (imm_cmd_objs hal (hal_hw_type hal) cmd) = Some c"
    "call_construct env hal c cmd prm w = Some (Some p, w')"
    using assms by (auto simp: ipahal_construct_imm_cmd_def split: option.splits)
  from construct_packs [OF c(2)] obtain opc where
    "alloc_pyld env opc (struct_size (hw_fields c prm)) (struct_size (hw_fields c prm)) (hw_fields c prm) w = (Some p, w')"
    "struct_size (hw_fields c prm) < 65536" .
  from alloc_pyld_packs [OF this refl] c(1) show ?thesis by blast
qed

theorem payload_matches_struct_witness:
  "\<exists>p. ipahal_construct_imm_cmd alloc_env hal45 IPA_IMM_CMD_TABLE_DMA (Prm_table_dma (dma_one_cmd
       \<lparr>d_table_index = 0, d_base_addr = 1, d_offset = 0, d_data = 1\<rparr>)) () = Some (Some p, ()) \<and> length (py_data p) = unat (py_len p)"
proof -
  let ?x = "dma_one_cmd \<lparr>d_table_index = 0, d_base_addr = 1, d_offset = 0, d_data = 1\<rparr>"
  have "IPA_HW_v4_0 \<le> hal_hw_type hal45" by (simp add: hal45(2) hw_defs)
  from ready_table_dma [OF hal45(1) this alloc_env, of ?x "()"]
  obtain p where p: "ipahal_construct_imm_cmd alloc_env hal45 IPA_IMM_CMD_TABLE_DMA (Prm_table_dma ?x) () = Some (Some p, ())" by simp
  show ?thesis using p payload_matches_struct [OF p] by blast
qed

text \<open>
  C25. A table DMA command reaches the hardware as it was asked for: decoding the payload that the constructor of the
  hardware version builds gives back the table, the offset and the value, for every table number the
  command can carry.
\<close>

theorem table_dma_roundtrip:
  assumes "hal_ready hal" and "IPA_HW_v4_0 \<le> hal_hw_type hal" and "k_alloc env w = (True, w')"
    and "unat (d_table_index x) < 8" and "unat (d_base_addr x) < 8"
  shows "\<exists>p. ipahal_construct_imm_cmd env hal IPA_IMM_CMD_TABLE_DMA (Prm_table_dma (dma_one_cmd x)) w = Some (Some p, w') \<and>
     decode_dma (ipa3_init_imm_cmd_desc p) = [x]"
  using ready_table_dma [OF assms(1-3)] decode_dma_pyld [OF assms(4,5)] by (simp add: dma_pyld_def)

theorem table_dma_roundtrip_witness:
  "\<exists>p. ipahal_construct_imm_cmd alloc_env hal45 IPA_IMM_CMD_TABLE_DMA
     (Prm_table_dma (dma_one_cmd \<lparr>d_table_index = 0, d_base_addr = 5, d_offset = 0x1234, d_data = 0xFF00\<rparr>)) () = Some (Some p, ()) \<and>
     decode_dma (ipa3_init_imm_cmd_desc p) = [\<lparr>d_table_index = 0, d_base_addr = 5, d_offset = 0x1234, d_data = 0xFF00\<rparr>]"
  by (rule table_dma_roundtrip [OF hal45(1)]) (simp_all add: hal45(2) hw_defs)

text \<open>
  C28. The sizes in the command that initialises the NAT tables: the hardware reads the number of entries of the base
  table modulo 4096 and that of the expansion table modulo 1024, so exactly the tables below these bounds are
  announced with their size; the driver checks neither.
\<close>

theorem nat_init_sizes:
  assumes "hal_ready hal" and "k_alloc env w = (True, w')"
  shows "\<exists>p. ipahal_construct_imm_cmd env hal IPA_IMM_CMD_IP_V4_NAT_INIT (Prm_ip_v4_nat_init c) w = Some (Some p, w') \<and>
     bits_at 264 12 (le_nat (py_data p)) = unat (tc_size_base_table (n4_table_init c)) mod 4096 \<and>
     bits_at 276 10 (le_nat (py_data p)) = unat (tc_size_expansion_table (n4_table_init c)) mod 1024 \<and>
     (bits_at 264 12 (le_nat (py_data p)) = unat (tc_size_base_table (n4_table_init c)) \<and>
      bits_at 276 10 (le_nat (py_data p)) = unat (tc_size_expansion_table (n4_table_init c)) \<longleftrightarrow>
        unat (tc_size_base_table (n4_table_init c)) < 4096 \<and> unat (tc_size_expansion_table (n4_table_init c)) < 1024)"
proof -
  let ?fs = "ipa_imm_cmd_hw_ip_v4_nat_init c" and ?ti = "n4_table_init c"
  have p: "le_nat (bytes_le 40 (pack_bits ?fs)) = pack_bits ?fs"
    by (rule le_nat_packed) (simp add: ipa_imm_cmd_hw_ip_v4_nat_init_def)
  have u: "unat (ucast (x :: u16) :: u64) = unat x" for x by (simp add: unat_ucast_up)
  have b: "bits_at 264 12 (pack_bits ?fs) = unat (tc_size_base_table ?ti) mod 4096"
    using bits_at_pack [of 264 "take 10 ?fs" 12 "ucast (tc_size_base_table ?ti)" "drop 11 ?fs"]
    by (simp add: ipa_imm_cmd_hw_ip_v4_nat_init_def u take_bit_eq_mod del: pack_bits.simps)
  have e: "bits_at 276 10 (pack_bits ?fs) = unat (tc_size_expansion_table ?ti) mod 1024"
    using bits_at_pack [of 276 "take 11 ?fs" 10 "ucast (tc_size_expansion_table ?ti)" "drop 12 ?fs"]
    by (simp add: ipa_imm_cmd_hw_ip_v4_nat_init_def u take_bit_eq_mod del: pack_bits.simps)
  have iff: "n mod m = n \<longleftrightarrow> n < m" if "0 < m" for n m :: nat using that by (metis mod_less mod_less_divisor)
  show ?thesis
    using ready_nat_init [OF assms, of c] by (simp add: p b e iff)
qed

definition big_init :: ipahal_imm_cmd_ip_v4_nat_init where
  "big_init = \<lparr>n4_table_init = \<lparr>tc_base_table_addr = 0x80000000, tc_expansion_table_addr = 0x80020000,
      tc_base_table_addr_shared = False, tc_expansion_table_addr_shared = False, tc_size_base_table = 4223,
      tc_size_expansion_table = 64, tc_table_index = 0\<rparr>,
     n4_index_table_addr = 0x80030000, n4_index_table_expansion_addr = 0x80038000, n4_index_table_addr_shared = False,
     n4_index_table_expansion_addr_shared = False, n4_public_addr_info = 0\<rparr>"

theorem nat_init_sizes_witness:
  "\<exists>p. ipahal_construct_imm_cmd alloc_env hal45 IPA_IMM_CMD_IP_V4_NAT_INIT (Prm_ip_v4_nat_init big_init) () = Some (Some p, ()) \<and>
     bits_at 264 12 (le_nat (py_data p)) = 127"
  using nat_init_sizes [OF hal45(1) alloc_env, of big_init "()"] by (auto simp: big_init_def)

subsection \<open>Table entries\<close>

text \<open>
  C27. The two descriptions of a NAT rule agree: the structure through which the kernel reads an entry holds, field by
  field, what the library's structure holds in the same memory, so that the kernel takes exactly the enabled entries
  with a valid protocol for rules.
\<close>

theorem nat_entry_views:
  assumes "hal_ready hal" and "length hs = 16"
  shows "hw_ipv4_entry (words_mem 2 hs) =
     (let r = nat_rule_of_hw hs
      in \<lparr>h4_private_ip = r_private_ip r, h4_target_ip = r_target_ip r, h4_next_index = r_next_index r,
          h4_public_port = r_public_port r, h4_private_port = r_private_port r, h4_target_port = r_target_port r,
          h4_ip_chksum = r_ip_chksum r, h4_uc_activation_index = r_uc_activation_index r, h4_s = r_s r,
          h4_redirect = r_redirect r, h4_enable = r_enable r, h4_time_stamp = r_time_stamp r,
          h4_protocol = r_protocol r, h4_prev_index = r_prev_index r, h4_indx_tbl_entry = r_indx_tbl_entry r,
          h4_rsvd2 = ucast (hs ! 14), h4_ucp = r_ucp r, h4_pdn_index = r_pdn_index r,
          h4_tcp_udp_chksum = r_tcp_udp_chksum r\<rparr>) \<and>
     ipahal_nat_is_entry_valid hal IPAHAL_NAT_IPV4 (words_mem 2 hs) =
       Some (0, table_entry_is_valid (nat_rule_of_hw hs) \<and> r_protocol (nat_rule_of_hw hs) \<noteq> IPAHAL_NAT_INVALID_PROTOCOL)"
proof
  show "ipahal_nat_is_entry_valid hal IPAHAL_NAT_IPV4 (words_mem 2 hs) =
       Some (0, table_entry_is_valid (nat_rule_of_hw hs) \<and> r_protocol (nat_rule_of_hw hs) \<noteq> IPAHAL_NAT_INVALID_PROTOCOL)"
    using kernel_valid(1) [OF assms(1), of "nat_rule_of_hw hs"]
    by (simp add: nat_rule_hw_of_hw [OF assms(2)] table_entry_is_valid_def)
qed (rule hw_ipv4_entry_view [OF assms(2)])

theorem nat_entry_views_witness:
  "h4_target_port (hw_ipv4_entry (words_mem 2 [1 :: u16, 2, 3, 4, 5, 6, 7, 443, 9, 0x8000, 11, 0x0600, 13, 14, 0, 16])) = 443 \<and>
   ipahal_nat_is_entry_valid hal45 IPAHAL_NAT_IPV4 (words_mem 2 [1 :: u16, 2, 3, 4, 5, 6, 7, 443, 9, 0x8000, 11, 0x0600, 13, 14, 0, 16]) =
     Some (0, True)"
  using nat_entry_views [OF hal45(1), of "[1, 2, 3, 4, 5, 6, 7, 443, 9, 0x8000, 11, 0x0600, 13, 14, 0, 16]"]
  by (simp add: nat_rule_of_hw_def Let_def table_entry_is_valid_def hi8_def IPAHAL_NAT_INVALID_PROTOCOL_def)

text \<open>
  The two descriptions of an IPv6 connection tracking record agree in the same way, in every field.
\<close>

theorem ct_entry_views:
  assumes "hal_ready hal" and "IPA_HW_v4_0 \<le> hal_hw_type hal" and "length ws = 8"
  shows "hw_ipv6ct_entry (words_mem 8 ws) =
     (let e = ct_of_words ws
      in \<lparr>h6_src_ipv6_lsb = c_src_ipv6_lsb e, h6_src_ipv6_msb = c_src_ipv6_msb e, h6_dest_ipv6_lsb = c_dest_ipv6_lsb e,
          h6_dest_ipv6_msb = c_dest_ipv6_msb e, h6_uc_activation_index = c_uc_activation_index e, h6_s = c_s e,
          h6_rsvd1 = c_rsvd1 e, h6_redirect = c_redirect e, h6_enable = c_enable e, h6_time_stamp = c_time_stamp e,
          h6_protocol = c_protocol e, h6_next_index = c_next_index e, h6_dest_port = c_dest_port e,
          h6_src_port = c_src_port e, h6_ucp = c_ucp e, h6_rsvd2 = c_rsvd2 e, h6_out_allowed = c_out_allowed e,
          h6_in_allowed = c_in_allowed e, h6_rsvd3 = c_rsvd3 e, h6_rsvd4 = c_rsvd4 e, h6_prev_index = c_prev_index e,
          h6_rsvd5 = c_rsvd5 e\<rparr>) \<and>
     ipahal_nat_is_entry_valid hal IPAHAL_NAT_IPV6CT (words_mem 8 ws) =
       Some (0, ct_table_entry_is_valid (ct_of_words ws) \<and> c_protocol (ct_of_words ws) \<noteq> IPAHAL_NAT_INVALID_PROTOCOL)"
proof
  show "ipahal_nat_is_entry_valid hal IPAHAL_NAT_IPV6CT (words_mem 8 ws) =
       Some (0, ct_table_entry_is_valid (ct_of_words ws) \<and> c_protocol (ct_of_words ws) \<noteq> IPAHAL_NAT_INVALID_PROTOCOL)"
    using kernel_valid(3) [OF assms(1,2), of "ct_of_words ws"]
    by (simp add: ct_words_of_words [OF assms(3)] ct_table_entry_is_valid_def)
qed (rule hw_ipv6ct_entry_view [OF assms(3)])

theorem ct_entry_views_witness:
  "h6_dest_port (hw_ipv6ct_entry (words_mem 8 [1 :: u64, 2, 3, 4, 0x0600000080000000, 0x00C00FA001BB0000, 0, 0])) = 443"
proof -
  have "IPA_HW_v4_0 \<le> hal_hw_type hal45" by (simp add: hal45(2) hw_defs)
  from ct_entry_views [OF hal45(1) this, of "[1, 2, 3, 4, 0x0600000080000000, 0x00C00FA001BB0000, 0, 0]"]
  show ?thesis by (simp add: ct_of_words_def Let_def)
qed

text \<open>
  C29. Writing a PDN entry that lies inside the table succeeds: the entry is read back as it was written, and every
  other entry of the table is unchanged.
\<close>

theorem pdn_entry_roundtrip:
  assumes "hal_ready hal" and "IPA_HW_v4_0 \<le> hal_hw_type hal" and "16 * i + 16 \<le> length m"
  shows "\<exists>m'. ipahal_nat_construct_entry hal IPAHAL_NAT_IPV4_PDN f m (16 * i) = Some (0, m') \<and> length m' = length m \<and>
     (\<forall>j. ipahal_nat_parse_entry hal IPAHAL_NAT_IPV4_PDN m' (16 * j) =
        (if j = i then Some (0, Some f) else ipahal_nat_parse_entry hal IPAHAL_NAT_IPV4_PDN m (16 * j)))"
proof -
  obtain m' where c: "ipa_nat_ipv4_pdn_construct_entry_v_4_0 f m (16 * i) = Some m'"
    using assms(3) by (simp add: ipa_nat_ipv4_pdn_construct_entry_v_4_0_def write_bytes_def)
  have p: "ipahal_nat_parse_entry hal IPAHAL_NAT_IPV4_PDN m2 off =
      (case ipa_nat_ipv4_pdn_parse_entry_v_4_0 m2 off of None \<Rightarrow> None | Some e \<Rightarrow> Some (0, Some e))" for m2 off
    using hal_ready_objs [OF assms(1)] assms(2) by (simp add: ipahal_nat_parse_entry_def nat_in_force split: option.splits)
  show ?thesis
    using pdn_construct_parse [OF c] by (intro exI [of _ m']) (simp add: ready_construct_pdn [OF assms(1,2)] c p)
qed

theorem pdn_entry_roundtrip_witness:
  "\<exists>m'. ipahal_nat_construct_entry hal45 IPAHAL_NAT_IPV4_PDN \<lparr>pf_public_ip = 0x0A000001, pf_src_metadata = 7, pf_dst_metadata = 9\<rparr>
      (replicate 80 0) (16 * 4) = Some (0, m') \<and> ipahal_nat_parse_entry hal45 IPAHAL_NAT_IPV4_PDN m' (16 * 4) =
        Some (0, Some \<lparr>pf_public_ip = 0x0A000001, pf_src_metadata = 7, pf_dst_metadata = 9\<rparr>)"
proof -
  have v: "IPA_HW_v4_0 \<le> hal_hw_type hal45" by (simp add: hal45(2) hw_defs)
  have "16 * 4 + 16 \<le> length (replicate 80 (0 :: u8))" by simp
  from pdn_entry_roundtrip [OF hal45(1) v this, of "\<lparr>pf_public_ip = 0x0A000001, pf_src_metadata = 7, pf_dst_metadata = 9\<rparr>"]
  obtain m' where "ipahal_nat_construct_entry hal45 IPAHAL_NAT_IPV4_PDN \<lparr>pf_public_ip = 0x0A000001, pf_src_metadata = 7, pf_dst_metadata = 9\<rparr>
      (replicate 80 0) (16 * 4) = Some (0, m')" "ipahal_nat_parse_entry hal45 IPAHAL_NAT_IPV4_PDN m' (16 * 4) =
        Some (0, Some \<lparr>pf_public_ip = 0x0A000001, pf_src_metadata = 7, pf_dst_metadata = 9\<rparr>)" by metis
  then show ?thesis by blast
qed

end
