(* ===== verification/Ipa_Nat_Setup.thy ===== *)
theory Ipa_Nat_Setup
  imports Ipa_Nat_Dma
begin

unbundle bit_operations_syntax

section \<open>Setting up a table on a kernel that does not fail\<close>

text \<open>
  What the requests that create a NAT table do when every service of the kernel succeeds: the allocation places
  the table by its size, the mapping and the initialisation succeed for the memory it was placed in, and only for
  that one.
\<close>

subsection \<open>Hypotheses\<close>

text \<open>
  Every service succeeds; memory for DMA lies below 4 GB, the SRAM is mapped at an aligned address, and there is
  no pipe with coalescing.
\<close>

definition services_succeed :: "('w, 'e) nat_kernel_env_scheme \<Rightarrow> bool" where
  "services_succeed env \<longleftrightarrow>
     (\<forall>w. fst (k_alloc env w)) \<and>
     (\<forall>n w. fst (fst (dma_alloc_coherent env n w)) \<noteq> 0 \<and> unat (snd (fst (dma_alloc_coherent env n w))) + 2 ^ 18 < 2 ^ 32) \<and>
     (\<forall>a n w. fst (ioremap env a n w) \<noteq> 0 \<and> fst (ioremap env a n w) AND 31 = 0) \<and>
     (\<forall>v a h n w. fst (dma_mmap_coherent env v a h n w) = 0) \<and> (\<forall>v a n w. fst (vm_iomap_memory env v a n w) = 0) \<and>
     (\<forall>ds w. fst (ipa3_send_cmd env ds w) = 0) \<and> wan_coal_ep env = - 1"

text \<open>The PDN table is addressed by 16 bits, the size of the table in SRAM is far from wrapping around.\<close>

definition layout_ok :: "'w ipa3_context \<Rightarrow> bool" where
  "layout_ok k \<longleftrightarrow>
     unat (k_pdn_config_size k) < 2 ^ 16 \<and>
     unat (ucast (k_smem_restricted_bytes k) + k_pdn_config_ofst k) < 2 ^ 16 \<and> unat (k_nat_tbl_size k) < 2 ^ 31"

lemma servicesD:
  assumes "services_succeed env"
  shows "k_alloc env w = (ok, w') \<Longrightarrow> ok"
    and "dma_alloc_coherent env n w = ((va, dh), w') \<Longrightarrow> va \<noteq> 0 \<and> unat dh + 2 ^ 18 < 2 ^ 32"
    and "ioremap env a n32 w = (io, w') \<Longrightarrow> io \<noteq> 0 \<and> io AND 31 = 0"
    and "dma_mmap_coherent env v a h n w = (r, w') \<Longrightarrow> r = 0" and "vm_iomap_memory env v a n32 w = (r, w') \<Longrightarrow> r = 0"
    and "ipa3_send_cmd env ds w = (r, w') \<Longrightarrow> r = 0" and "wan_coal_ep env = - 1"
  using assms unfolding services_succeed_def by (metis fst_conv snd_conv)+

subsection \<open>Lists of commands that are sent\<close>

definition sent :: "nat \<Rightarrow> 'w ipa3_context \<Rightarrow> 'w pylds option \<Rightarrow> bool" where
  "sent n k m \<longleftrightarrow> (\<exists>ps k'. m = Some (0, ps, k') \<and> length ps = n \<and> same_driver k k')"

lemma sent_on_ok:
  assumes "sent n k m" and "\<And>ps k'. length ps = n \<Longrightarrow> same_driver k k' \<Longrightarrow> sent n' k' (f ps k')"
  shows "sent n' k (on_ok m f)"
  using assms same_driver_trans unfolding sent_def on_ok_def by fastforce

lemma sent_skip: "length ps = n \<Longrightarrow> sent n k (Some (0, ps, k))"
  by (simp add: sent_def)

lemma sent_construct:
  assumes "n < cap" and "length ps = n"
    and "\<exists>p w'. ipahal_construct_imm_cmd env (k_hal k) cmd prm (k_world k) = Some (Some p, w')"
  shows "sent (n + 1) k (construct_cmd env cap cmd prm err ps k)"
  using assms by (auto simp: sent_def construct_cmd_def)

lemma low16: "unat (x :: u32) < 2 ^ 16 \<Longrightarrow> x AND NOT 0xFFFF = 0"
proof -
  assume "unat x < 2 ^ 16"
  then have "x = take_bit 16 x" by (metis unsigned_take_bit_eq take_bit_nat_eq_self word_unat_eq_iff)
  then have "\<not> bit x i" if "16 \<le> i" for i using that by (metis bit_take_bit_iff not_less)
  moreover have m: "(0xFFFF :: u32) = mask 16" by (simp add: mask_eq_exp_minus_1)
  ultimately show ?thesis unfolding m by (intro bit_word_eqI) (auto simp: bit_simps not_less)
qed

lemma construct_register_write:
  assumes "hal_ready hal" and "k_alloc env w = (True, w')" and "rw_offset q = 0"
  shows "\<exists>p. ipahal_construct_imm_cmd env hal IPA_IMM_CMD_REGISTER_WRITE (Prm_register_write q) w = Some (Some p, w')"
  using hal_ready_objs [OF assms(1)] assms(2,3)
  by (cases "hal_hw_type hal < IPA_HW_v4_0") (simp_all add: ipahal_construct_imm_cmd_def imm_in_force call_construct_def
      ipa_imm_cmd_construct_register_write_def ipa_imm_cmd_construct_register_write_v_4_0_def alloc_pyld_def)

lemma construct_dma_shared_mem:
  assumes "hal_ready hal" and "IPA_HW_v4_0 \<le> hal_hw_type hal" and "k_alloc env w = (True, w')"
    and "unat (dm_size q) < 2 ^ 16" and "unat (dm_local_addr q) < 2 ^ 16"
  shows "\<exists>p. ipahal_construct_imm_cmd env hal IPA_IMM_CMD_DMA_SHARED_MEM (Prm_dma_shared_mem q) w = Some (Some p, w')"
  using hal_ready_objs [OF assms(1)] assms(2,3) low16 [OF assms(4)] low16 [OF assms(5)]
  by (simp add: ipahal_construct_imm_cmd_def imm_in_force call_construct_def ipa_imm_cmd_construct_dma_shared_mem_v_4_0_def
      alloc_pyld_def)

lemma sent_nop:
  assumes "services_succeed env" and "hal_ready (k_hal k)" and "n < cap" and "length ps = n"
  shows "sent (n + 1) k (construct_nop env cap ps k)"
proof -
  obtain ok w where al: "k_alloc env (k_world k) = (ok, w)" by (metis surj_pair)
  then have "k_alloc env (k_world k) = (True, w)" using servicesD(1) [OF assms(1)] by simp
  then show ?thesis
    using construct_register_write [OF assms(2), of env "k_world k" w
        "\<lparr>rw_offset = 0, rw_value = 0, rw_value_mask = 0, rw_skip_pipeline_clear = False, rw_pipeline_clear_options = IPAHAL_HPS_CLEAR\<rparr>"]
      assms(3,4)
    by (auto simp: sent_def construct_nop_def ipahal_construct_nop_imm_cmd_def)
qed

lemma sent_send:
  assumes "services_succeed env" shows "sent (length ps) k (send_pylds env ps k)"
proof -
  obtain r w where "ipa3_send_cmd env (map ipa3_init_imm_cmd_desc ps) (k_world k) = (r, w)" by (metis surj_pair)
  then show ?thesis using servicesD(6) [OF assms] by (auto simp: sent_def send_pylds_def os_def)
qed

lemma sent_coal_close:
  assumes "services_succeed env" shows "sent (length ps) k (construct_coal_close env cap ps k)"
  using servicesD(7) [OF assms] by (simp add: construct_coal_close_def coal_enabled_def sent_skip)

lemma sent_destroy:
  assumes "sent n k m" shows "\<exists>k'. destroy_imm_cmd env m = Some (0, k') \<and> same_driver k k'"
proof -
  obtain ps k' where m: "m = Some (0, ps, k')" "same_driver k k'" using assms by (auto simp: sent_def)
  then have "same_driver k (k'\<lparr>k_world := w\<rparr>)" for w by (blast intro: same_driver_trans same_driver_world)
  then show ?thesis by (simp add: m(1) destroy_imm_cmd_def destroy_fold)
qed

lemma modify_pdn_cmd_fits:
  assumes "platform_ok k" and "pdn_inv k" and "layout_ok k" and "IPA_HW_v4_0 \<le> k_hw_type k" and "mb_base (nm_pdn_mem (k_nat_mem k)) \<noteq> 0"
  obtains c where "ipa3_nat_create_modify_pdn_cmd False k = Some (0, c, k)"
    and "unat (dm_size c) < 2 ^ 16" and "unat (dm_local_addr c) < 2 ^ 16"
proof -
  have "16 * (unat (k_pdn_config_size k) div 16) \<le> unat (k_pdn_config_size k)" by simp
  then have "16 * (unat (k_pdn_config_size k) div 16) < 2 ^ 16" using assms(3) unfolding layout_ok_def by linarith
  then show thesis
    using that assms platform_max_pdn [OF assms(1,4)] pdn_size [of "k_pdn_config_size k"]
    by (simp add: ipa3_nat_create_modify_pdn_cmd_def Let_def upd_nm_def layout_ok_def)
qed

lemma same_driver_layout: "same_driver k k' \<Longrightarrow> layout_ok k' = layout_ok k"
  by (auto simp: same_driver_def layout_ok_def)

lemma nat_send_init_sent:
  assumes "platform_ok k" and "pdn_inv k" and "layout_ok k" and "services_succeed env"
    and "IPA_HW_v4_0 \<le> k_hw_type k \<longrightarrow> mb_base (nm_pdn_mem (k_nat_mem k)) \<noteq> 0"
  shows "\<exists>k'. ipa3_nat_send_init_cmd env cmd False k = Some (0, k') \<and> same_driver k k'"
proof -
  let ?cap = IPA_NAT_MAX_NUM_OF_INIT_CMD_DESC
  let ?pdn = "\<lambda>ps k. if k_hw_type k < IPA_HW_v4_0 then Some (0, ps, k)
      else if ?cap \<le> length ps then Some (- ENOBUFS, ps, k)
      else do {
        (result, mem_cmd, k) \<leftarrow> ipa3_nat_create_modify_pdn_cmd False k;
        if result \<noteq> 0 then Some (result, ps, k)
        else construct_cmd env ?cap IPA_IMM_CMD_DMA_SHARED_MEM (Prm_dma_shared_mem mem_cmd) (- ENOMEM) ps k
      }"
  have alloc: "\<exists>w'. k_alloc env w = (True, w')" for w using servicesD(1) [OF assms(4)] by (metis (full_types) surj_pair)
  have hal: "hal_ready (k_hal k')" "hal_hw_type (k_hal k') = k_hw_type k'" if "same_driver k k'" for k'
    using platform_okD [OF assms(1)] by (simp_all add: same_driver_fields [OF that])
  have init: "sent 2 k' (construct_cmd env ?cap IPA_IMM_CMD_IP_V4_NAT_INIT (Prm_ip_v4_nat_init cmd) (- EPERM) ps k')"
    if "length ps = 1" "same_driver k k'" for ps k'
  proof -
    obtain w where "k_alloc env (k_world k') = (True, w)" using alloc by blast
    then show ?thesis
      using sent_construct [of 1 ?cap ps env k' IPA_IMM_CMD_IP_V4_NAT_INIT "Prm_ip_v4_nat_init cmd" "- EPERM"] that
        ready_nat_init [OF hal(1) [OF that(2)], of env "k_world k'" True w cmd]
      by (simp add: desc_limits numeral_2_eq_2)
  qed
  have pdn: "sent (if k_hw_type k < IPA_HW_v4_0 then 2 else 3) k' (?pdn ps k')" if "length ps = 2" "same_driver k k'" for ps k'
  proof (cases "k_hw_type k < IPA_HW_v4_0")
    case True
    then show ?thesis using that by (simp add: same_driver_fields [OF that(2)] sent_skip)
  next
    case False
    note sd = that(2)
    obtain c where c: "ipa3_nat_create_modify_pdn_cmd False k' = Some (0, c, k')" "unat (dm_size c) < 2 ^ 16" "unat (dm_local_addr c) < 2 ^ 16"
      using modify_pdn_cmd_fits [of k'] same_driver_platform [OF sd] same_driver_layout [OF sd] assms False
      by (auto simp: same_driver_fields [OF sd])
    have v: "IPA_HW_v4_0 \<le> hal_hw_type (k_hal k')" using False by (simp add: hal(2) [OF sd] same_driver_fields(2) [OF sd])
    obtain w where al: "k_alloc env (k_world k') = (True, w)" using alloc by blast
    have "sent (2 + 1) k' (construct_cmd env ?cap IPA_IMM_CMD_DMA_SHARED_MEM (Prm_dma_shared_mem c) (- ENOMEM) ps k')"
      using construct_dma_shared_mem [OF hal(1) [OF sd] v al c(2,3)] that(1) by (intro sent_construct) (auto simp: desc_limits)
    then show ?thesis using False that(1) by (simp add: c(1) desc_limits same_driver_fields(2) [OF sd])
  qed
  have "sent (if k_hw_type k < IPA_HW_v4_0 then 2 else 3) k (on_ok (construct_coal_close env ?cap [] k) (\<lambda>ps k.
            on_ok (construct_nop env ?cap ps k) (\<lambda>ps k.
            on_ok (construct_cmd env ?cap IPA_IMM_CMD_IP_V4_NAT_INIT (Prm_ip_v4_nat_init cmd) (- EPERM) ps k) (\<lambda>ps k.
            on_ok (?pdn ps k) (send_pylds env)))))"
  proof (rule sent_on_ok [OF sent_coal_close [OF assms(4)]], rule sent_on_ok [where n = 1], goal_cases)
    case (1 ps k')
    then show ?case using sent_nop [OF assms(4) hal(1), of k' 0 ?cap ps] by (simp add: desc_limits)
  next
    case (2 ps k' ps2 k2)
    then have s2: "same_driver k k2" by (blast intro: same_driver_trans)
    show ?case
    proof (rule sent_on_ok [OF init [OF 2(3) s2]], rule sent_on_ok [OF pdn], goal_cases)
      case (2 ps3 k3)
      show ?case using s2 2(2) by (rule same_driver_trans)
    next
      case (3 ps3 k3 ps4 k4)
      then show ?case using sent_send [OF assms(4), of ps4 k4] by simp
    qed
  qed
  then show ?thesis unfolding ipa3_nat_send_init_cmd_def Let_def by (rule sent_destroy)
qed

subsection \<open>The stages of a table\<close>

text \<open>Nothing is allocated; the driver is started.\<close>

definition idle :: "'w ipa3_context \<Rightarrow> bool" where
  "idle k \<longleftrightarrow>
     kernel_inv k \<and> layout_ok k \<and> cm_is_dev_init (nm_dev (k_nat_mem k)) \<and>
     cm_phys_mem_size (nm_dev (k_nat_mem k)) = k_nat_tbl_size k \<and>
     \<not> nm_ddr_in_use (k_nat_mem k) \<and> \<not> nm_sram_in_use (k_nat_mem k) \<and> (\<forall>loc. \<not> ml_is_mapped (the_mld loc k))"

lemma init_device_frame:
  assumes "ipa3_nat_ipv6ct_init_device env d nam ps po tmp k = Some (r, k')"
  shows "r = 0 \<Longrightarrow> cm_phys_mem_size (the_dev d k') = ps" and "r = 0 \<Longrightarrow> cm_is_dev_init (the_dev d k')"
    and "layout_ok k' = layout_ok k" and "k_nat_tbl_size k' = k_nat_tbl_size k"
    and "nm_ddr_in_use (k_nat_mem k') = nm_ddr_in_use (k_nat_mem k)" and "nm_sram_in_use (k_nat_mem k') = nm_sram_in_use (k_nat_mem k)"
    and "nm_mem_loc (k_nat_mem k') = nm_mem_loc (k_nat_mem k)" and "d = Ipv6ct_Dev \<Longrightarrow> nm_dev (k_nat_mem k') = nm_dev (k_nat_mem k)"
proof -
  obtain cls w1 where 1: "class_create env nam (k_world k) = (cls, w1)" by (metis surj_pair)
  obtain r2 num w2 where 2: "alloc_chrdev_region env nam w1 = ((r2, num), w2)" by (metis surj_pair)
  obtain dv w3 where 3: "device_create env cls num nam w2 = (dv, w3)" by (metis surj_pair)
  obtain r4 w4 where 4: "cdev_add env num w3 = (r4, w4)" by (metis surj_pair)
  have "(r = 0 \<longrightarrow> cm_phys_mem_size (the_dev d k') = ps \<and> cm_is_dev_init (the_dev d k')) \<and>
      layout_ok k' = layout_ok k \<and> k_nat_tbl_size k' = k_nat_tbl_size k \<and>
      nm_ddr_in_use (k_nat_mem k') = nm_ddr_in_use (k_nat_mem k) \<and> nm_sram_in_use (k_nat_mem k') = nm_sram_in_use (k_nat_mem k) \<and>
      nm_mem_loc (k_nat_mem k') = nm_mem_loc (k_nat_mem k) \<and> (d = Ipv6ct_Dev \<longrightarrow> nm_dev (k_nat_mem k') = nm_dev (k_nat_mem k))"
    using assms by (cases d) (auto simp: ipa3_nat_ipv6ct_init_device_def Let_def os_def os_do_def 1 2 3 4 mutex_lock_def
        mutex_unlock_def errno_defs layout_ok_def split: if_splits)
  then show "r = 0 \<Longrightarrow> cm_phys_mem_size (the_dev d k') = ps" "r = 0 \<Longrightarrow> cm_is_dev_init (the_dev d k')"
    "layout_ok k' = layout_ok k" "k_nat_tbl_size k' = k_nat_tbl_size k"
    "nm_ddr_in_use (k_nat_mem k') = nm_ddr_in_use (k_nat_mem k)" "nm_sram_in_use (k_nat_mem k') = nm_sram_in_use (k_nat_mem k)"
    "nm_mem_loc (k_nat_mem k') = nm_mem_loc (k_nat_mem k)" "d = Ipv6ct_Dev \<Longrightarrow> nm_dev (k_nat_mem k') = nm_dev (k_nat_mem k)"
    by simp_all
qed

text \<open>A driver that has just started is idle.\<close>

lemma start_idle:
  assumes "fresh k" and "layout_ok k" and "ipa3_nat_ipv6ct_init_devices env k = Some (0, k1)"
  shows "idle k1" and "k_nat_tbl_size k1 = k_nat_tbl_size k"
proof -
  have ki: "kernel_inv k1" using init_devices_outcome [OF assms(1), of env] assms(3) by (metis option.inject prod.inject)
  obtain ok w0 where al: "k_alloc env (k_world k) = (ok, w0)" by (metis surj_pair)
  obtain va dh w1 where dm: "dma_alloc_coherent env IPA_NAT_IPV6CT_TEMP_MEM_SIZE w0 = ((va, dh), w1)" by (metis surj_pair)
  define tm where "tm = \<lparr>tm_vaddr = va, tm_dma_handle = dh\<rparr>"
  have tmp: "ipa3_nat_ipv6ct_allocate_tmp_memory env k = (Some tm, k\<lparr>k_world := w1\<rparr>)"
    using assms(3) by (auto simp: ipa3_nat_ipv6ct_allocate_tmp_memory_def ipa3_nat_ipv6ct_init_devices_def os_def os_do_def al dm
        tm_def errno_defs split: if_splits)
  define k2 where "k2 = upd_nm (\<lambda>nm. nm\<lparr>nm_is_tmp_mem_allocated := True\<rparr>) (k\<lparr>k_world := w1\<rparr>)"
  obtain k3 where 3: "ipa3_nat_ipv6ct_init_device env Nat_Dev IPA_NAT_DEV_NAME (IPA_NAT_PHYS_MEM_SIZE k2) (IPA_NAT_PHYS_MEM_OFFSET k2) (Some tm) k2 = Some (0, k3)"
    and 4: "k1 = k3 \<or> (\<exists>r. ipa3_nat_ipv6ct_init_device env Ipv6ct_Dev IPA_IPV6CT_DEV_NAME IPA_IPV6CT_PHYS_MEM_SIZE
        IPA_IPV6CT_PHYS_MEM_OFFSET (Some tm) k3 = Some (r, k1))"
    using assms(3) unfolding ipa3_nat_ipv6ct_init_devices_def tmp prod.case option.case Let_def k2_def [symmetric]
    by (auto simp: errno_defs split: Option.bind_splits if_splits)
  have k2: "layout_ok k2" "k_nat_tbl_size k2 = k_nat_tbl_size k" "\<not> nm_ddr_in_use (k_nat_mem k2)" "\<not> nm_sram_in_use (k_nat_mem k2)"
      "\<not> ml_is_mapped (nm_mem_loc (k_nat_mem k2) loc)" for loc
    using assms(1,2) by (simp_all add: k2_def upd_nm_def layout_ok_def fresh_def zero_defs mem_loc_zero_def)
  have "idle k3" if "kernel_inv k3"
    using init_device_frame [OF 3] k2 that by (simp add: idle_def the_mld_def)
  moreover have "idle k1" if "ipa3_nat_ipv6ct_init_device env Ipv6ct_Dev IPA_IPV6CT_DEV_NAME IPA_IPV6CT_PHYS_MEM_SIZE
        IPA_IPV6CT_PHYS_MEM_OFFSET (Some tm) k3 = Some (r, k1)" for r
    using init_device_frame [OF 3] init_device_frame [OF that] k2 ki by (simp add: idle_def the_mld_def)
  ultimately show "idle k1" using 4 ki by blast
  show "k_nat_tbl_size k1 = k_nat_tbl_size k" using 4 init_device_frame(4) [OF 3] init_device_frame(4) k2(2) by metis
qed

text \<open>Memory of \<open>sz\<close> bytes is allocated at \<open>loc\<close> and, if \<open>mapped\<close>, mapped into the client.\<close>

definition reserved :: "ipa3_nat_mem_in \<Rightarrow> u64 \<Rightarrow> bool \<Rightarrow> 'w ipa3_context \<Rightarrow> bool" where
  "reserved loc sz mapped k \<longleftrightarrow>
     kernel_inv k \<and> layout_ok k \<and> cm_is_dev_init (nm_dev (k_nat_mem k)) \<and>
     cm_phys_mem_size (nm_dev (k_nat_mem k)) = k_nat_tbl_size k \<and> k_sram_compatible k \<and>
     (IPA_HW_v4_0 \<le> k_hw_type k \<longrightarrow> mb_base (nm_pdn_mem (k_nat_mem k)) \<noteq> 0) \<and>
     nm_last_alloc_loc (k_nat_mem k) = loc \<and> (\<forall>l. ml_is_mapped (the_mld l k) \<longleftrightarrow> mapped \<and> l = loc) \<and>
     (let m = the_mld loc k
      in ml_vaddr m \<noteq> 0 \<and> ml_table_alloc_size m = sz \<and> (mapped \<longrightarrow> ml_base_address m = ml_vaddr m) \<and>
         (if loc = IPA_NAT_MEM_IN_DDR then unat (ml_dma_handle m) + 2 ^ 18 < 2 ^ 32 else ml_vaddr m AND 31 = 0))"

text \<open>The memory the driver chooses for a table, by its size alone.\<close>

definition placed :: "'w ipa3_context \<Rightarrow> u64 \<Rightarrow> ipa3_nat_mem_in" where
  "placed k sz = (if unat sz \<le> unat (k_nat_tbl_size k) then IPA_NAT_MEM_IN_SRAM else IPA_NAT_MEM_IN_DDR)"

lemma roundup_page: "n \<le> roundup n PAGE_SIZE" "roundup n PAGE_SIZE < n + 4096"
proof -
  have "(n + 4095) div 4096 * 4096 + (n + 4095) mod 4096 = n + 4095" "(n + 4095) mod 4096 < 4096" by simp_all
  then show "n \<le> roundup n PAGE_SIZE" "roundup n PAGE_SIZE < n + 4096" unfolding roundup_def PAGE_SIZE_def by simp_all
qed

lemma sram_info_idle:
  assumes "idle k"
  shows "\<exists>info. ipa3_ioctl env (Ioc_Get_Nat_In_Sram_Info True) k = Some (0, Sram_Reply info, k\<lparr>k_sram_compatible := True\<rparr>) \<and>
     sram_mem_available_for_nat info = k_nat_tbl_size k \<and>
     unat (k_nat_tbl_size k) \<le> unat (best_nat_in_sram_size_rqst info) \<and> idle (k\<lparr>k_sram_compatible := True\<rparr>)"
proof -
  let ?o = "of_nat (unat (sram_phys_addr env k) mod PAGE_SIZE) :: u32"
  have o: "unat ?o < 4096" by (simp add: unat_of_nat PAGE_SIZE_def)
  have s: "unat (k_nat_tbl_size k) < 2 ^ 31" using assms by (simp add: idle_def layout_ok_def)
  have so: "unat (?o + k_nat_tbl_size k) = unat ?o + unat (k_nat_tbl_size k)"
    using o s by (subst unat_add_lem [THEN iffD1]) simp_all
  let ?n = "unat ?o + unat (k_nat_tbl_size k)"
  have r: "roundup ?n PAGE_SIZE < 2 ^ 32" "?n \<le> roundup ?n PAGE_SIZE"
    using o s roundup_page [of ?n] by simp_all
  have "idle (k\<lparr>k_sram_compatible := True\<rparr>)"
    using assms by (auto simp: idle_def kernel_inv_def driver_inv_def platform_ok_def pdn_inv_def layout_ok_def the_mld_def Let_def)
  then show ?thesis
    using assms r so
    by (simp add: ipa3_ioctl_def proc_sram_info_rqst_def ipa3_nat_get_sram_info_def idle_def Let_def unat_of_nat)
qed

text \<open>Allocation without its bookkeeping: the memory is placed by its size.\<close>

lemma allocate_mem_placed:
  fixes k :: "'w ipa3_context"
  assumes inv: "driver_inv k" and dev: "cm_is_dev_init (nm_dev (k_nat_mem k))" and free: "\<not> nm_ddr_in_use (k_nat_mem k)" "\<not> nm_sram_in_use (k_nat_mem k)"
    and "k_sram_compatible k" and "services_succeed env" and sz: "sz \<noteq> 0" "unat sz \<le> 2 ^ 18"
  obtains f :: "ipa3_nat_mem_loc_data \<Rightarrow> ipa3_nat_mem_loc_data" and g :: "ipa3_nat_mem \<Rightarrow> ipa3_nat_mem" and w where "ipa3_nat_ipv6ct_allocate_mem env Nat_Dev sz IPAHAL_NAT_IPV4 k =
        Some (0, upd_nm g ((upd_mld (placed k sz) f k)\<lparr>k_world := w\<rparr>))"
    and "\<And>nm. nm_last_alloc_loc (g nm) = placed k sz" and "\<And>nm. nm_mem_loc (g nm) = nm_mem_loc nm"
    and "\<And>nm. nm_dev (g nm) = nm_dev nm" and "\<And>nm. nm_pdn_mem (g nm) = nm_pdn_mem nm"
    and "\<And>m. ml_is_mapped (f m) = ml_is_mapped m" and "\<And>m. ml_table_alloc_size (f m) = sz" and "\<And>m. ml_vaddr (f m) \<noteq> 0"
    and "\<And>m. placed k sz = IPA_NAT_MEM_IN_DDR \<Longrightarrow> unat (ml_dma_handle (f m)) + 2 ^ 18 < 2 ^ 32"
    and "\<And>m. placed k sz \<noteq> IPA_NAT_MEM_IN_DDR \<Longrightarrow> ml_vaddr (f m) AND 31 = 0"
proof -
  note d = driver_invD [OF inv]
  have sz': "unat sz \<le> 262144" using sz(2) by simp
  show thesis
  proof (cases "unat sz \<le> unat (k_nat_tbl_size k)")
    case True
    obtain io w where io: "ioremap env (ucast (sram_phys_addr env k)) (k_nat_tbl_size k) (k_world k) = (io, w)" by (metis surj_pair)
    show thesis
      by (rule that [where w = w and g = "\<lambda>nm. nm\<lparr>nm_sram_in_use := True, nm_last_alloc_loc := IPA_NAT_MEM_IN_SRAM\<rparr>"
          and f = "\<lambda>m. m\<lparr>ml_table_alloc_size := sz, ml_phys_addr := ucast (sram_phys_addr env k), ml_io_vaddr := io, ml_vaddr := io\<rparr>"])
        (use True assms d sz' servicesD(3) [OF assms(6) io] in \<open>simp_all add: placed_def ipa3_nat_ipv6ct_allocate_mem_def
          allocate_in_sram_def MAX_ALLOC_NAT_SIZE_def IPA_KERNEL_TABLE_MAX_ENTRIES_def Let_def state_defs io sram_phys_addr_def
          io [unfolded sram_phys_addr_def]\<close>)
  next
    case False
    obtain va dh w where va: "dma_alloc_coherent env sz (k_world k) = ((va, dh), w)" by (metis surj_pair)
    show thesis
      by (rule that [where w = w and g = "\<lambda>nm. nm\<lparr>nm_ddr_in_use := True, nm_last_alloc_loc := IPA_NAT_MEM_IN_DDR\<rparr>"
          and f = "\<lambda>m. m\<lparr>ml_table_alloc_size := sz, ml_vaddr := va, ml_dma_handle := dh\<rparr>"])
        (use False assms d sz' servicesD(2) [OF assms(6) va] in \<open>simp_all add: placed_def ipa3_nat_ipv6ct_allocate_mem_def
          allocate_in_ddr_def MAX_ALLOC_NAT_SIZE_def IPA_KERNEL_TABLE_MAX_ENTRIES_def Let_def state_defs va\<close>)
  qed
qed

lemma allocate_placed:
  fixes k :: "'w ipa3_context"
  assumes idle: "idle k" and sc: "k_sram_compatible k" and serv: "services_succeed env" and sz: "sz \<noteq> 0" "unat sz \<le> 2 ^ 18"
  shows "\<exists>k'. ipa3_ioctl env (Ioc_Alloc_Nat_Table (Some (sz, 0)) wr) k = Some (0, No_Reply, k') \<and>
     reserved (placed k sz) sz False k' \<and> k_nat_tbl_size k' = k_nat_tbl_size k"
proof -
  let ?kl = "upd_dev Nat_Dev (\<lambda>c. c\<lparr>cm_lock := True\<rparr>) k"
  note i = idle [unfolded idle_def kernel_inv_def]
  have il: "driver_inv ?kl" using i by (simp only: driver_inv_lock)
  note d = driver_invD [OF il]
  have pl: "placed ?kl sz = placed k sz" by (simp add: placed_def)
  obtain f :: "ipa3_nat_mem_loc_data \<Rightarrow> ipa3_nat_mem_loc_data" and g :: "ipa3_nat_mem \<Rightarrow> ipa3_nat_mem" and w
    where a: "ipa3_nat_ipv6ct_allocate_mem env Nat_Dev sz IPAHAL_NAT_IPV4 ?kl = Some (0, upd_nm g ((upd_mld (placed k sz) f ?kl)\<lparr>k_world := w\<rparr>))"
      "\<And>nm. nm_last_alloc_loc (g nm) = placed k sz" "\<And>nm. nm_mem_loc (g nm) = nm_mem_loc nm"
      "\<And>nm. nm_dev (g nm) = nm_dev nm" "\<And>nm. nm_pdn_mem (g nm) = nm_pdn_mem nm"
      "\<And>m. ml_is_mapped (f m) = ml_is_mapped m" "\<And>m. ml_table_alloc_size (f m) = sz" "\<And>m. ml_vaddr (f m) \<noteq> 0"
      "\<And>m. placed k sz = IPA_NAT_MEM_IN_DDR \<Longrightarrow> unat (ml_dma_handle (f m)) + 2 ^ 18 < 2 ^ 32"
      "\<And>m. placed k sz \<noteq> IPA_NAT_MEM_IN_DDR \<Longrightarrow> ml_vaddr (f m) AND 31 = 0"
    by (rule allocate_mem_placed [OF il _ _ _ _ serv sz, unfolded pl]) (use i sc in \<open>simp_all\<close>)
  define k1 where k1_def: "k1 = upd_nm g ((upd_mld (placed k sz) f ?kl)\<lparr>k_world := w\<rparr>)"
  let ?sz = "of_nat (16 * (unat (k_pdn_config_size k) div 16)) :: u32"
  obtain va ph w2 where va: "dma_alloc_coherent env (ucast ?sz) w = ((va, ph), w2)" by (metis surj_pair)
  let ?p = "\<lambda>nm. (nm_pdn_mem nm)\<lparr>mb_size := ?sz, mb_base := va, mb_phys_base := ph, mb_bytes := replicate (unat ?sz) 0\<rparr>"
  define k3 where "k3 = (if IPA_HW_v4_0 \<le> k_hw_type k \<and> mb_base (nm_pdn_mem (k_nat_mem k)) = 0
      then upd_nm (\<lambda>nm. nm\<lparr>nm_pdn_mem := ?p nm\<rparr>) (k1\<lparr>k_world := w2\<rparr>) else k1)"
  have run: "ipa3_allocate_nat_table env sz k = Some (0, mutex_unlock Nat_Dev k3)"
  proof -
    have l: "mutex_lock Nat_Dev k = Some ?kl" using i by (simp add: mutex_lock_def)
    have hal: "k_hal k1 = k_hal ?kl" "k_hw_type k1 = k_hw_type k" "k_pdn_config_size k1 = k_pdn_config_size k" "k_world k1 = w"
        "nm_pdn_mem (k_nat_mem k1) = nm_pdn_mem (k_nat_mem k)"
      using a(5) by (simp_all add: k1_def state_defs)
    have le: "\<not> k_pdn_config_size k < ?sz"
      using pdn_size [of "k_pdn_config_size k"] by (simp add: word_less_nat_alt not_less)
    have m: "ipa3_get_max_pdn k1 = Some (unat (k_pdn_config_size k) div 16)"
        "ipahal_nat_entry_size (k_hal k1) IPAHAL_NAT_IPV4_PDN = Some (0, 16)" if "IPA_HW_v4_0 \<le> k_hw_type k"
      unfolding ipa3_get_max_pdn_def hal using d(3,4) that by simp_all
    show ?thesis
      unfolding ipa3_allocate_nat_table_def with_lock_def l bind.bind_lunit a(1) [folded k1_def] prod.case
      using m le servicesD(2) [OF serv va]
      by (auto simp: hal(2-5) k3_def os_def va upd_nm_def Let_def simp del: of_nat_mult)
  qed
  let ?k = "mutex_unlock Nat_Dev k3"
  have ioc: "ipa3_ioctl env (Ioc_Alloc_Nat_Table (Some (sz, 0)) wr) k = Some (0, No_Reply, ?k)"
    by (simp add: ipa3_ioctl_def alloc_ioctl_def run)
  have ki: "kernel_inv ?k" using ioctl_ok [of k env "\<lambda>_. 0" "Ioc_Alloc_Nat_Table (Some (sz, 0)) wr"] idle by (auto simp: ioc answer_ok_def idle_def)
  have "reserved (placed k sz) sz False ?k \<and> k_nat_tbl_size ?k = k_nat_tbl_size k"
    using i sc ki a(2-10) servicesD(2) [OF serv va]
    by (auto simp: reserved_def k3_def k1_def mutex_unlock_def state_defs layout_ok_def Let_def)
  then show ?thesis using ioc by blast
qed

lemma mmap_reserved:
  assumes r: "reserved loc sz False k" and serv: "services_succeed env" and v: "IPA_VALID_NAT_MEM_IN loc"
    and big: "loc = IPA_NAT_MEM_IN_SRAM \<longrightarrow> k_nat_tbl_size k \<noteq> 0 \<and> unat (k_nat_tbl_size k) \<le> unat (vm_end vma - vm_start vma)"
  shows "\<exists>vma' k'. ipa3_nat_ipv6ct_mmap env Nat_Dev vma k = Some (0, vma', k') \<and> reserved loc sz True k'"
proof -
  note rd = r [unfolded reserved_def Let_def]
  have ki: "kernel_inv k" using rd by blast
  have nat: "cm_is_nat_mem (nm_dev (k_nat_mem k))" "\<not> cm_lock (nm_dev (k_nat_mem k))"
    using driver_invD(5) [of k] ki by (simp_all add: kernel_inv_def)
  obtain r2 vma' k' where m: "ipa3_nat_ipv6ct_mmap env Nat_Dev vma k = Some (r2, vma', k')" "op_ok env (\<lambda>_. 0) k (Some (r2, k'))"
    by (rule mmap_ok [OF ki])
  have ki': "kernel_inv k'" using op_ok_kernel [OF ki m(2)] by auto
  let ?v = "if smmu_cb_dev env \<and> (\<not> smmu_cb_valid env \<or> \<not> smmu_cb_coherent env) then pgprot_noncached vma else vma"
  have vs: "vm_end ?v - vm_start ?v = vm_end vma - vm_start vma" by (simp add: pgprot_noncached_def)
  let ?m = "the_mld loc k"
  obtain r3 w where w: "(if loc = IPA_NAT_MEM_IN_DDR
      then dma_mmap_coherent env ?v (ml_vaddr ?m) (ml_dma_handle ?m) (ml_table_alloc_size ?m) (k_world k)
      else vm_iomap_memory env (pgprot_noncached ?v) (ml_phys_addr ?m) (k_nat_tbl_size k) (k_world k)) = (r3, w)" by (metis surj_pair)
  then have r3: "r3 = 0" using servicesD(4,5) [OF serv] by (auto split: if_splits)
  let ?kl = "upd_dev Nat_Dev (\<lambda>c. c\<lparr>cm_lock := True\<rparr>) k"
  let ?k2 = "upd_mld loc (\<lambda>m. m\<lparr>ml_base_address := ml_vaddr m, ml_is_mapped := True\<rparr>)
        ((upd_mld loc (\<lambda>m. m\<lparr>ml_base_address := 0\<rparr>) ?kl)\<lparr>k_world := w\<rparr>)"
  have kl: "the_mld loc ?kl = ?m" "nm_last_alloc_loc (k_nat_mem ?kl) = loc" "cm_phys_mem_size (the_dev Nat_Dev ?kl) = k_nat_tbl_size k"
      "k_world ?kl = k_world k" using rd by (simp_all add: the_mld_def)
  have ok: "ml_vaddr ?m \<noteq> 0" "\<not> ml_is_mapped ?m"
      "\<not> (loc = IPA_NAT_MEM_IN_SRAM \<and> (k_nat_tbl_size k = 0 \<or> vm_end vma - vm_start vma < ucast (k_nat_tbl_size k)))"
    using rd big by (auto simp: word_less_nat_alt unat_ucast_up)
  obtain v2 where v2: "mmap_nat env ?v ?kl = (0, v2, ?k2)"
  proof (cases "loc = IPA_NAT_MEM_IN_DDR")
    case True
    then show thesis
      using that v ok w r3 unfolding mmap_nat_def kl vs Let_def by (simp add: os_def kl(4) del: upd_dev.simps)
  next
    case False
    then show thesis
      using that v ok w r3 unfolding mmap_nat_def kl vs Let_def by (simp add: os_def kl(4) del: upd_dev.simps)
  qed
  have "ipa3_nat_ipv6ct_mmap env Nat_Dev vma k = Some (0, v2, mutex_unlock Nat_Dev ?k2)"
    unfolding ipa3_nat_ipv6ct_mmap_def Let_def using rd nat v2 by (simp add: mutex_lock_def)
  then have k': "r2 = 0" "k' = mutex_unlock Nat_Dev ?k2" using m(1) by simp_all
  have "reserved loc sz True k'"
    using ki' rd unfolding reserved_def k'(2) Let_def
    by (cases "loc = IPA_NAT_MEM_IN_DDR") (simp_all add: mutex_unlock_def layout_ok_def upd_mld_def upd_nm_def the_mld_def)
  then show ?thesis using m(1) k'(1) by blast
qed

lemma check_table_params_fits:
  assumes inv: "driver_inv k" and t: "nat_type = IPAHAL_NAT_IPV4 \<and> esz = 32 \<or> nat_type = IPAHAL_NAT_IPV4_INDEX \<and> esz = 4"
    and le: "unat ofst + esz * unat n \<le> unat (ml_table_alloc_size (the_mld loc k))" "unat (ml_table_alloc_size (the_mld loc k)) \<le> 2 ^ 18"
    and dh: "loc = IPA_NAT_MEM_IN_DDR \<Longrightarrow> unat (ml_dma_handle (the_mld loc k)) + 2 ^ 18 < 2 ^ 32"
  shows "ipa3_nat_ipv6ct_check_table_params Nat_Dev loc ofst n nat_type k = Some 0"
proof -
  note d = driver_invD [OF inv]
  have u: "unat (ucast ofst :: u64) = unat ofst" "unat (ucast n :: u64) = unat n" by (simp_all add: unat_ucast_up)
  have ts: "unat (of_nat esz * ucast n :: u64) = esz * unat n"
    using t unat_u16_lt [of n] by (auto simp: unat_word_ariths u)
  have su: "unat (ucast ofst + of_nat esz * ucast n :: u64) = unat ofst + esz * unat n"
    using le by (subst unat_add_lem [THEN iffD1]) (simp_all add: u ts)
  have sub: "unat (UINT_MAX - x) = 0xFFFFFFFF - unat x" if "unat x \<le> 0xFFFFFFFF" for x
    using that by (subst unat_sub) (simp_all add: UINT_MAX_def word_le_nat_alt)
  have a: "\<not> UINT_MAX - ml_dma_handle (the_mld loc k) < ucast ofst" if "loc = IPA_NAT_MEM_IN_DDR"
    using dh [OF that] le sub [of "ml_dma_handle (the_mld loc k)"] by (simp add: word_less_nat_alt u)
  have b: "\<not> UINT_MAX - of_nat esz * ucast n < ucast ofst" "\<not> ml_table_alloc_size (the_mld loc k) < ucast ofst + of_nat esz * ucast n"
    using le sub [of "of_nat esz * ucast n"] by (simp_all add: word_less_nat_alt u ts su)
  show ?thesis
    using t a b d(3,5,6) by (auto simp: ipa3_nat_ipv6ct_check_table_params_def Let_def)
qed

subsection \<open>The request of the library\<close>

text \<open>The initialisation request for tables of \<open>te\<close> and \<open>ete\<close> entries at the start of the memory.\<close>

definition lib_init :: "ipa3_nat_mem_in \<Rightarrow> u16 \<Rightarrow> u16 \<Rightarrow> u32 \<Rightarrow> bool \<Rightarrow> ipa_ioc_v4_nat_init" where
  "lib_init loc te ete ip focus =
     (let expn = of_nat (unat te * 32); indx = expn + of_nat (unat ete * 32)
      in \<lparr>i_tbl_index = 0, i_ipv4_rules_offset = 0, i_expn_rules_offset = expn, i_index_offset = indx,
          i_index_expn_offset = indx + of_nat (unat te * 4), i_table_entries = te - 1, i_expn_table_entries = ete,
          i_ip_addr = ip, i_mem_type = ucast (nmi_val loc), i_focus_change = focus\<rparr>)"

definition lib_size :: "u16 \<Rightarrow> u16 \<Rightarrow> nat" where "lib_size te ete = 36 * (unat te + unat ete)"

lemma lib_offsets:
  assumes "lib_size te ete \<le> 2 ^ 18"
  shows "unat (i_expn_rules_offset (lib_init loc te ete ip focus)) = 32 * unat te"
    and "unat (i_index_offset (lib_init loc te ete ip focus)) = 32 * (unat te + unat ete)"
    and "unat (i_index_expn_offset (lib_init loc te ete ip focus)) = 32 * (unat te + unat ete) + 4 * unat te"
  using assms by (simp_all add: lib_init_def lib_size_def Let_def unat_word_ariths unat_of_nat)

lemma lib_mem_type: "IPA_VALID_NAT_MEM_IN loc \<Longrightarrow> nmi_of (ucast (i_mem_type (lib_init loc te ete ip focus))) = loc"
  by (cases loc) (simp_all add: lib_init_def nmi_of_def IPA_VALID_NAT_MEM_IN_def Let_def)

lemma lib_init_checked:
  assumes r: "reserved loc sz True k" and sz: "unat sz = lib_size te ete" "unat sz \<le> 2 ^ 18" and te: "te \<noteq> 0"
  shows "check_nat_init loc (lib_init loc te ete ip focus) k = Some 0"
proof -
  have inv: "driver_inv k" using r by (simp add: reserved_def kernel_inv_def)
  have as: "unat (ml_table_alloc_size (the_mld loc k)) = lib_size te ete" using r sz(1) by (simp add: reserved_def Let_def)
  have dh: "loc = IPA_NAT_MEM_IN_DDR \<Longrightarrow> unat (ml_dma_handle (the_mld loc k)) + 2 ^ 18 < 2 ^ 32"
    using r by (simp add: reserved_def Let_def)
  note fits = check_table_params_fits [OF inv _ _ _ dh]
  have p: "te - 1 + 1 = te" by simp
  let ?i = "lib_init loc te ete ip focus"
  have s: "lib_size te ete \<le> 2 ^ 18" using sz by simp
  have "ipa3_nat_ipv6ct_check_table_params Nat_Dev loc (i_ipv4_rules_offset ?i) (i_table_entries ?i + 1) IPAHAL_NAT_IPV4 k = Some 0"
    by (rule fits [where esz = 32]) (use s in \<open>simp_all add: as, simp_all add: lib_init_def lib_size_def Let_def\<close>)
  moreover have "ipa3_nat_ipv6ct_check_table_params Nat_Dev loc (i_expn_rules_offset ?i) (i_expn_table_entries ?i) IPAHAL_NAT_IPV4 k = Some 0"
    by (rule fits [where esz = 32]) (use s in \<open>simp_all add: as lib_offsets [OF s], simp_all add: lib_init_def lib_size_def Let_def\<close>)
  moreover have "ipa3_nat_ipv6ct_check_table_params Nat_Dev loc (i_index_offset ?i) (i_table_entries ?i + 1) IPAHAL_NAT_IPV4_INDEX k = Some 0"
    by (rule fits [where esz = 4]) (use s in \<open>simp_all add: as lib_offsets [OF s], simp_all add: lib_init_def lib_size_def Let_def\<close>)
  moreover have "ipa3_nat_ipv6ct_check_table_params Nat_Dev loc (i_index_expn_offset ?i) (i_expn_table_entries ?i) IPAHAL_NAT_IPV4_INDEX k = Some 0"
    by (rule fits [where esz = 4]) (use s in \<open>simp_all add: as lib_offsets [OF s], simp_all add: lib_init_def lib_size_def Let_def\<close>)
  ultimately show ?thesis by (simp add: check_nat_init_def)
qed

lemma low_bits: "(x :: u64) AND mask n = 0 \<longleftrightarrow> 2 ^ n dvd unat x"
proof -
  have "x AND mask n = 0 \<longleftrightarrow> unat (take_bit n x) = 0" by (simp add: take_bit_eq_mask unat_eq_zero)
  also have "unat (take_bit n x) = unat x mod 2 ^ n" unfolding unsigned_take_bit_eq by (rule take_bit_eq_mod)
  finally show ?thesis by (simp add: dvd_eq_mod_eq_0)
qed

lemma aligned_sum:
  assumes "base AND 31 = 0" and "n \<le> 5" and "2 ^ n dvd unat (o1 :: u32)"
  shows "(base + ucast o1 :: u64) AND mask n = 0"
proof -
  have "(31 :: u64) = mask 5" by (simp add: mask_eq_exp_minus_1)
  then have "(2::nat) ^ 5 dvd unat base" using assms(1) low_bits [of base 5] by simp
  then have b: "(2::nat) ^ n dvd unat base" by (rule dvd_trans [OF le_imp_power_dvd [OF assms(2)]])
  have "(2::nat) ^ n dvd 2 ^ 64" using assms(2) by (intro le_imp_power_dvd) simp
  then have "(2::nat) ^ n dvd (unat base + unat o1) mod 2 ^ 64" using b assms(3) by (simp add: dvd_mod)
  then show ?thesis by (simp add: low_bits unat_word_ariths unat_ucast_up)
qed

lemma store_public_ip_zero:
  assumes "driver_inv k" and "store_public_ip init k = Some (r, k')" shows "r = 0"
  using assms(2) driver_invD(3,4) [OF assms(1)]
  by (auto simp: store_public_ip_def ready_construct_pdn split: option.splits if_splits)

text \<open>The driver's view of a table is the library's, and the hardware uses it.\<close>

definition agrees :: "ipa3_nat_mem_in \<Rightarrow> u16 \<Rightarrow> u16 \<Rightarrow> 'w ipa3_context \<Rightarrow> bool" where
  "agrees loc te ete k \<longleftrightarrow>
     kernel_inv k \<and> cm_is_dev_init (nm_dev (k_nat_mem k)) \<and> cm_is_hw_init (nm_dev (k_nat_mem k)) \<and>
     nm_active_table (k_nat_mem k) = loc \<and> (k_sram_compatible k \<or> loc = IPA_NAT_MEM_IN_DDR) \<and>
     unat (ml_table_entries (the_mld loc k)) + 1 = unat te \<and> unat (ml_expn_table_entries (the_mld loc k)) = unat ete"

lemma init_structure_agrees:
  assumes nat: "cm_is_nat_mem (nm_dev (k_nat_mem k))" "\<not> cm_is_ipv6ct_mem (nm_dev (k_nat_mem k))"
    and al: "loc \<noteq> IPA_NAT_MEM_IN_DDR \<Longrightarrow> ml_base_address (the_mld loc k) AND 31 = 0"
    and dv: "32 dvd unat o1" "32 dvd unat o2" "4 dvd unat o3" "4 dvd unat o4"
  obtains k' where "ipa3_nat_ipv6ct_init_device_structure Nat_Dev loc o1 o2 n_base n_expn o3 o4 focus k = (0, k')"
    and "nm_dev (k_nat_mem k') = nm_dev (k_nat_mem k)" and "nm_active_table (k_nat_mem k') = loc"
    and "k_sram_compatible k' = k_sram_compatible k"
    and "ml_table_entries (the_mld loc k') = ucast n_base" and "ml_expn_table_entries (the_mld loc k') = ucast n_expn"
proof -
  have m: "(31 :: u64) = mask 5" "(3 :: u64) = mask 2" by (simp_all add: mask_eq_exp_minus_1)
  have "chk_sram_offset_alignment (ml_base_address (the_mld loc k) + ucast o1) 31"
      "chk_sram_offset_alignment (ml_base_address (the_mld loc k) + ucast o2) 31"
      "chk_sram_offset_alignment (ml_base_address (the_mld loc k) + ucast o3) 3"
      "chk_sram_offset_alignment (ml_base_address (the_mld loc k) + ucast o4) 3" if "loc \<noteq> IPA_NAT_MEM_IN_DDR"
    using dv aligned_sum [OF al [OF that], of 5] aligned_sum [OF al [OF that], of 2]
    by (simp_all add: chk_sram_offset_alignment_def m)
  note aligned = this
  let ?f = "\<lambda>m. m\<lparr>ml_base_table_addr := ml_base_address m + ucast o1, ml_expansion_table_addr := ml_base_address m + ucast o2,
      ml_table_entries := ucast n_base, ml_expn_table_entries := ucast n_expn,
      ml_index_table_addr := ml_base_address m + ucast o3, ml_index_table_expansion_addr := ml_base_address m + ucast o4\<rparr>"
  define k1 where "k1 = upd_nm (\<lambda>nm. nm\<lparr>nm_active_table := loc\<rparr>) k"
  define k2 where "k2 = upd_mld loc ?f k1"
  have m1: "the_mld loc k1 = the_mld loc k" by (simp add: k1_def the_mld_def upd_nm_def)
  have m2: "the_mld loc k2 = ?f (the_mld loc k)" by (simp add: k2_def m1)
  have n2: "nm_dev (k_nat_mem k2) = nm_dev (k_nat_mem k)" "nm_active_table (k_nat_mem k2) = loc"
      "k_sram_compatible k2 = k_sram_compatible k"
    by (simp_all add: k2_def k1_def upd_mld_def upd_nm_def)
  let ?c = "\<lambda>nm. if focus then (if loc = IPA_NAT_MEM_IN_DDR then nm\<lparr>nm_switch2ddr_cnt := nm_switch2ddr_cnt nm + 1\<rparr>
      else nm\<lparr>nm_switch2sram_cnt := nm_switch2sram_cnt nm + 1\<rparr>) else nm"
  have id: "upd_nm (\<lambda>nm. nm) k2 = k2" by (simp add: upd_nm_def)
  have run: "ipa3_nat_ipv6ct_init_device_structure Nat_Dev loc o1 o2 n_base n_expn o3 o4 focus k = (0, upd_nm ?c k2)"
    using nat aligned unfolding ipa3_nat_ipv6ct_init_device_structure_def Let_def the_dev.simps k1_def [symmetric] k2_def [symmetric]
    by (cases "loc = IPA_NAT_MEM_IN_DDR"; cases focus) (simp_all add: m2 id)
  show thesis
    by (rule that [OF run]) (use n2 m2 in \<open>auto simp: upd_nm_def the_mld_def\<close>)
qed

lemma init_cmd_run:
  assumes "k_sram_compatible k" and "nmi_of (ucast (i_mem_type init)) = loc" and "IPA_VALID_NAT_MEM_IN loc"
    and "i_tbl_index init = 0" and "i_table_entries init \<noteq> 0" and "i_table_entries init \<noteq> 0xFFFF"
    and "ml_is_mapped (the_mld loc k)" and "check_nat_init loc init k = Some 0" and "store_public_ip init k = Some (0, k2)"
    and "\<And>cmd. \<exists>k3. ipa3_nat_send_init_cmd env cmd False k2 = Some (0, k3) \<and> same_driver k2 k3"
    and "\<And>k3. same_driver k2 k3 \<Longrightarrow> \<exists>k4. ipa3_nat_ipv6ct_init_device_structure Nat_Dev loc (i_ipv4_rules_offset init)
        (i_expn_rules_offset init) (i_table_entries init) (i_expn_table_entries init) (i_index_offset init)
        (i_index_expn_offset init) (i_focus_change init) k3 = (0, k4) \<and> Q k4"
  shows "\<exists>k4. ipa3_nat_init_cmd env init k = Some (0, upd_dev Nat_Dev (\<lambda>c. c\<lparr>cm_is_hw_init := True\<rparr>)
        (upd_nm (\<lambda>nm. nm\<lparr>nm_public_ip_addr := i_ip_addr init\<rparr>) k4)) \<and> Q k4"
proof -
  define cmd where "cmd = (if loc = IPA_NAT_MEM_IN_DDR
      then ipa3_nat_create_init_cmd init False (ml_dma_handle (the_mld loc k)) k
      else ipa3_nat_create_init_cmd init True (ucast (k_nat_tbl_ofst k)) k)"
  obtain k3 where k3: "ipa3_nat_send_init_cmd env cmd False k2 = Some (0, k3)" "same_driver k2 k3" using assms(10) by blast
  obtain k4 where k4: "ipa3_nat_ipv6ct_init_device_structure Nat_Dev loc (i_ipv4_rules_offset init)
        (i_expn_rules_offset init) (i_table_entries init) (i_expn_table_entries init) (i_index_offset init)
        (i_index_expn_offset init) (i_focus_change init) k3 = (0, k4)" "Q k4" using assms(11) [OF k3(2)] by blast
  have "ipa3_nat_init_cmd env init k = Some (0, upd_dev Nat_Dev (\<lambda>c. c\<lparr>cm_is_hw_init := True\<rparr>)
        (upd_nm (\<lambda>nm. nm\<lparr>nm_public_ip_addr := i_ip_addr init\<rparr>) k4))"
    unfolding ipa3_nat_init_cmd_def Let_def if_P [OF assms(1)] assms(2) cmd_def [symmetric]
    using assms(3-9) k3(1) k4(1) by (simp add: IPA_VALID_TBL_INDEX_def del: upd_dev.simps)
  then show ?thesis using k4(2) by blast
qed

lemma init_reserved:
  assumes r: "reserved loc sz True k" and serv: "services_succeed env" and v: "IPA_VALID_NAT_MEM_IN loc"
    and sz: "unat sz = lib_size te ete" "unat sz \<le> 2 ^ 18" and te: "2 \<le> unat te"
  shows "\<exists>k'. ipa3_ioctl env (Ioc_V4_Init_Nat (Some (lib_init loc te ete ip focus))) k = Some (0, No_Reply, k') \<and> agrees loc te ete k'"
proof -
  let ?i = "lib_init loc te ete ip focus"
  note rd = r [unfolded reserved_def Let_def]
  have inv: "driver_inv k" "kernel_inv k" using rd by (simp_all add: kernel_inv_def)
  have s: "lib_size te ete \<le> 2 ^ 18" using sz by simp
  have te0: "te \<noteq> 0" using te by auto
  have te1: "unat (te - 1) = unat te - 1" using te by (subst unat_sub) (simp_all add: word_le_nat_alt)
  have ent: "i_table_entries ?i = te - 1" "i_expn_table_entries ?i = ete" "i_tbl_index ?i = 0" "i_focus_change ?i = focus"
      "i_ipv4_rules_offset ?i = 0"
    by (simp_all add: lib_init_def Let_def)
  have "i_table_entries ?i \<noteq> 0 \<and> i_table_entries ?i \<noteq> 0xFFFF"
    using te te1 unat_u16_lt [of te] by (auto simp: ent word_unat_eq_iff)
  then have e: "i_table_entries ?i \<noteq> 0" "i_table_entries ?i \<noteq> 0xFFFF" by blast+
  obtain k2 where k2: "store_public_ip ?i k = Some (0, k2)" "same_driver k k2"
    using store_public_ip_ok [OF inv(1), of ?i] store_public_ip_zero [OF inv(1)] by metis
  have i2: "driver_inv k2" by (rule same_driver_inv [OF k2(2) inv(1)])
  have send: "\<exists>k3. ipa3_nat_send_init_cmd env cmd False k2 = Some (0, k3) \<and> same_driver k2 k3" for cmd
    using nat_send_init_sent [OF driver_invD(1,2) [OF i2], of env cmd] serv rd
    by (simp add: same_driver_layout [OF k2(2)] same_driver_fields [OF k2(2)])
  let ?Q = "\<lambda>k4. nm_dev (k_nat_mem k4) = nm_dev (k_nat_mem k) \<and> nm_active_table (k_nat_mem k4) = loc \<and> k_sram_compatible k4 \<and>
      ml_table_entries (the_mld loc k4) = ucast (te - 1) \<and> ml_expn_table_entries (the_mld loc k4) = ucast ete"
  have struct: "\<exists>k4. ipa3_nat_ipv6ct_init_device_structure Nat_Dev loc (i_ipv4_rules_offset ?i) (i_expn_rules_offset ?i)
      (i_table_entries ?i) (i_expn_table_entries ?i) (i_index_offset ?i) (i_index_expn_offset ?i) (i_focus_change ?i) k3 = (0, k4) \<and> ?Q k4"
    if "same_driver k2 k3" for k3
  proof -
    have sd: "same_driver k k3" by (rule same_driver_trans [OF k2(2) that])
    have d3: "driver_inv k3" by (rule same_driver_inv [OF sd inv(1)])
    have m: "the_mld loc k3 = the_mld loc k" by (simp add: the_mld_def same_driver_fields [OF sd])
    have sc: "k_sram_compatible k3" using sd rd by (auto simp: same_driver_def)
    have al: "loc \<noteq> IPA_NAT_MEM_IN_DDR \<Longrightarrow> ml_base_address (the_mld loc k3) AND 31 = 0" using rd by (simp add: m)
    have dv: "32 dvd unat (i_ipv4_rules_offset ?i)" "32 dvd unat (i_expn_rules_offset ?i)" "4 dvd unat (i_index_offset ?i)"
        "4 dvd unat (i_index_expn_offset ?i)"
      unfolding lib_offsets [OF s] by (simp_all add: ent)
    show ?thesis
      by (rule init_structure_agrees [OF _ _ al dv, where n_base = "i_table_entries ?i" and n_expn = "i_expn_table_entries ?i"
            and focus = "i_focus_change ?i"])
        (use driver_invD(5,6) [OF d3] sc in \<open>auto simp: same_driver_fields [OF sd] ent\<close>)
  qed
  obtain k4 where run: "ipa3_nat_init_cmd env ?i k = Some (0, upd_dev Nat_Dev (\<lambda>c. c\<lparr>cm_is_hw_init := True\<rparr>)
        (upd_nm (\<lambda>nm. nm\<lparr>nm_public_ip_addr := i_ip_addr ?i\<rparr>) k4))" and q: "?Q k4"
    using init_cmd_run [OF _ lib_mem_type [OF v] v ent(3) e _ lib_init_checked [OF r sz te0] k2(1) send struct] rd by auto
  let ?k = "upd_dev Nat_Dev (\<lambda>c. c\<lparr>cm_is_hw_init := True\<rparr>) (upd_nm (\<lambda>nm. nm\<lparr>nm_public_ip_addr := i_ip_addr ?i\<rparr>) k4)"
  have ioc: "ipa3_ioctl env (Ioc_V4_Init_Nat (Some ?i)) k = Some (0, No_Reply, ?k)"
    by (simp add: ipa3_ioctl_def or_efault_def run)
  have ki: "kernel_inv ?k" using ioctl_ok [OF inv(2), of env "\<lambda>_. 0" "Ioc_V4_Init_Nat (Some ?i)"] by (simp add: ioc answer_ok_def)
  have "agrees loc te ete ?k"
    using q te te1 ki rd by (simp add: agrees_def upd_nm_def the_mld_def unat_ucast_up)
  then show ?thesis using ioc by blast
qed

lemma init_refused:
  assumes r: "reserved loc sz True k" and v: "IPA_VALID_NAT_MEM_IN n" and other: "n \<noteq> loc"
  shows "ipa3_ioctl env (Ioc_V4_Init_Nat (Some (lib_init n te ete ip focus))) k = Some (- EFAULT, No_Reply, k)"
proof -
  have "\<not> ml_is_mapped (the_mld n k)" and "k_sram_compatible k" using r other by (auto simp: reserved_def)
  then show ?thesis
    using lib_mem_type [OF v, of te ete ip focus] by (simp add: ipa3_ioctl_def or_efault_def ipa3_nat_init_cmd_def Let_def EPERM_def)
qed

end
