(* ===== verification/Kernel_Sample.thy ===== *)
theory Kernel_Sample
  imports Ipa_Nat_Setup
begin

unbundle bit_operations_syntax

section \<open>A kernel\<close>

text \<open>
  A kernel in which every service succeeds: its world counts the blocks of \<open>kzalloc\<close> and the other resources, and
  holds the memory of the tables, on which the transport executes the commands it is sent.
\<close>

definition sample_kenv :: "(ipa_ioc_nat_dma_one list \<Rightarrow> 'm \<Rightarrow> 'm) \<Rightarrow> ((int \<times> int) \<times> 'm) nat_kernel_env" where
  "sample_kenv ex =
     (let res = (\<lambda>n (c, m). ((fst c, snd c + n), m)) in
     \<lparr>k_alloc = (\<lambda>(c, m). (True, (fst c + 1, snd c), m)), k_free = (\<lambda>(c, m). ((fst c - 1, snd c), m)),
      dma_alloc_coherent = (\<lambda>n w. ((0x10000, 0x80000000), res 1 w)), dma_free_coherent = (\<lambda>n a h w. res (- 1) w),
      ioremap = (\<lambda>a n w. (0x20000, w)), iounmap = (\<lambda>a w. w),
      class_create = (\<lambda>s w. (0x3000, res 1 w)), class_destroy = (\<lambda>p w. res (- 1) w),
      alloc_chrdev_region = (\<lambda>s w. ((0, 240), res 1 w)), unregister_chrdev_region = (\<lambda>n w. res (- 1) w),
      device_create = (\<lambda>p n s w. (0x4000, res 1 w)), device_destroy = (\<lambda>p n w. res (- 1) w), cdev_add = (\<lambda>n w. (0, res 1 w)),
      dma_mmap_coherent = (\<lambda>v a h n w. (0, w)), vm_iomap_memory = (\<lambda>v a n w. (0, w)),
      smmu_cb_dev = False, smmu_cb_valid = False, smmu_cb_coherent = False, wan_coal_ep = - 1,
      aggr_force_close_ofst = 0, aggr_force_close_n_ofst = (\<lambda>i. 0), aggr_force_close_valmask = (\<lambda>i. (0, 0)),
      sram_direct_access_ofst = 0,
      ipa3_send_cmd = (\<lambda>ds (c, m). (0, c, ex (concat (map decode_dma ds)) m))\<rparr>)"

lemma sample_kenv_hw [simp]: "hw_executes (sample_kenv ex) ex"
  by (auto simp: hw_executes_def sample_kenv_def Let_def split_def)

lemma sample_kenv_resources: "resources (sample_kenv ex) 1 (\<lambda>w. fst (fst w) + snd (fst w))"
  by (auto simp: resources_def sample_kenv_def Let_def split_def IS_ERR_def)

lemma sample_services: "services_succeed (sample_kenv ex)"
  by (simp add: services_succeed_def sample_kenv_def Let_def split_def)

lemma sample_kenv_counts: "alloc_counts (sample_kenv ex) (\<lambda>w. fst (fst w))"
  by (auto simp: alloc_counts_def sample_kenv_def Let_def split_def)

text \<open>The driver before it is started, on hardware of version 4.5, and with a NAT table of 127 entries in use.\<close>

definition sample_fresh :: "'w \<Rightarrow> 'w ipa3_context" where
  "sample_fresh w =
     \<lparr>k_hw_type = IPA_HW_v4_5, k_ulso_wa = False, k_smem_restricted_bytes = 0, k_wrapper_base = 0x01E00000,
      k_reg_base_ofst = 0x40000, k_nat_tbl_ofst = 0x3000, k_nat_tbl_size = 0x800, k_pdn_config_ofst = 0x2000,
      k_pdn_config_size = 0x50, k_hal = snd (hal_init IPA_HW_v4_5), k_nat_mem = nat_mem_zero,
      k_ipv6ct_mem = common_mem_zero, k_sram_compatible = False, k_world = w\<rparr>"

lemma sample_hal: "hal_ready (snd (hal_init IPA_HW_v4_5))" "hal_hw_type (snd (hal_init IPA_HW_v4_5)) = IPA_HW_v4_5"
  using hal_init_ready [of IPA_HW_v4_5] hal_init_tables(2) [of IPA_HW_v4_5 IPA_HW_v4_5 IPAHAL_NAT_IPV4] by (simp_all add: hw_defs)

lemma sample_fresh [simp]: "fresh (sample_fresh w)"
  by (simp add: fresh_def sample_fresh_def platform_ok_def sample_hal)

lemma sample_layout [simp]: "layout_ok (sample_fresh w)"
  by (simp add: layout_ok_def sample_fresh_def)

definition sample_running :: "'w \<Rightarrow> 'w ipa3_context" where
  "sample_running w =
     (let k = sample_fresh w;
          c = common_mem_zero\<lparr>cm_is_nat_mem := True, cm_is_dev_init := True, cm_is_hw_init := True\<rparr>;
          m = mem_loc_zero\<lparr>ml_is_mapped := True, ml_vaddr := 0x10000, ml_base_address := 0x10000, ml_table_alloc_size := 0x4000,
                ml_table_entries := 127, ml_expn_table_entries := 64, ml_base_table_addr := 0x10000,
                ml_expansion_table_addr := 0x11000, ml_index_table_addr := 0x12000, ml_index_table_expansion_addr := 0x13000\<rparr>
      in k\<lparr>k_nat_mem := nat_mem_zero\<lparr>nm_dev := c, nm_ddr_in_use := True,
             nm_mem_loc := (\<lambda>_. mem_loc_zero)(IPA_NAT_MEM_IN_DDR := m)\<rparr>\<rparr>)"

lemma inside_at: "unat ofst + n \<le> unat size' \<Longrightarrow> addr = base + ucast (ofst :: u32) \<Longrightarrow> inside base size' addr n"
  by (auto simp: inside_def)

lemma sample_running [simp]: "kernel_inv (sample_running w)"
proof -
  have i: "inside 0x10000 0x4000 0x10000 4096" "inside 0x10000 0x4000 0x11000 2048" "inside 0x10000 0x4000 0x12000 512"
    "inside 0x10000 0x4000 0x13000 256"
    using inside_at [where ofst = "0" and base = "0x10000"] inside_at [where ofst = "0x1000" and base = "0x10000"]
      inside_at [where ofst = "0x2000" and base = "0x10000"] inside_at [where ofst = "0x3000" and base = "0x10000"] by simp_all
  show ?thesis
    using i by (simp add: kernel_inv_def driver_inv_def sample_running_def sample_fresh_def platform_ok_def sample_hal Let_def
        nat_mem_zero_def common_mem_zero_def mem_loc_zero_def the_mld_def loc_inv_def tables_inside_def pdn_inv_def)
qed

lemma sample_running_mem [simp]:
  "ml_table_entries (the_mld IPA_NAT_MEM_IN_DDR (sample_running w)) = 127" "k_world (sample_running w) = w"
  "k_sram_compatible (sample_running w) = False" "k_hw_type (sample_running w) = IPA_HW_v4_5" "k_hal (sample_running w) = snd (hal_init IPA_HW_v4_5)"
  "cm_is_dev_init (nm_dev (k_nat_mem (sample_running w)))" "cm_is_hw_init (nm_dev (k_nat_mem (sample_running w)))"
  by (simp_all add: sample_running_def sample_fresh_def the_mld_def Let_def)

lemma sample_kenv_sel [simp]:
  "k_alloc (sample_kenv ex) w = (True, (fst (fst w) + 1, snd (fst w)), snd w)"
  "k_free (sample_kenv ex) w = ((fst (fst w) - 1, snd (fst w)), snd w)"
  "dma_alloc_coherent (sample_kenv ex) n w = ((0x10000, 0x80000000), (fst (fst w), snd (fst w) + 1), snd w)"
  "class_create (sample_kenv ex) nam w = (0x3000, (fst (fst w), snd (fst w) + 1), snd w)"
  "alloc_chrdev_region (sample_kenv ex) nam w = ((0, 240), (fst (fst w), snd (fst w) + 1), snd w)"
  "device_create (sample_kenv ex) p num nam w = (0x4000, (fst (fst w), snd (fst w) + 1), snd w)"
  "cdev_add (sample_kenv ex) num w = (0, (fst (fst w), snd (fst w) + 1), snd w)" "wan_coal_ep (sample_kenv ex) = - 1"
  "ipa3_send_cmd (sample_kenv ex) ds w = (0, fst w, ex (concat (map decode_dma ds)) (snd w))"
  by (simp_all add: sample_kenv_def Let_def split_def)

text \<open>The driver of this kernel starts.\<close>

definition sample_started :: "((int \<times> int) \<times> unit) ipa3_context" where
  "sample_started = snd (the (ipa3_nat_ipv6ct_init_devices (sample_kenv (\<lambda>_ m. m)) (sample_fresh ((0, 0), ()))))"

lemma sample_start: "ipa3_nat_ipv6ct_init_devices (sample_kenv (\<lambda>_ m. m)) (sample_fresh ((0, 0), ())) = Some (0, sample_started)"
proof -
  have "\<exists>k1. ipa3_nat_ipv6ct_init_devices (sample_kenv (\<lambda>_ m. m)) (sample_fresh ((0, 0), ())) = Some (0, k1)"
    by (simp add: ipa3_nat_ipv6ct_init_devices_def ipa3_nat_ipv6ct_allocate_tmp_memory_def ipa3_nat_ipv6ct_init_device_def
        os_def os_do_def upd_nm_def mutex_lock_def mutex_unlock_def IS_ERR_def IPA_NAT_DEV_NAME_def
        IPA_IPV6CT_DEV_NAME_def IPA_DEV_NAME_MAX_LEN_def Let_def sample_fresh_def hw_defs)
  then show ?thesis by (auto simp: sample_started_def)
qed

end
