(* ===== verification/Kernel_Properties.thy ===== *)
theory Kernel_Properties
  imports Kernel_Sample
begin

unbundle bit_operations_syntax

section \<open>Properties of the kernel's NAT driver\<close>

text \<open>
  The properties of \<open>ipa_nat.c\<close> behind its device files, each with a witness that applies it to the kernel of
  \<open>Kernel_Sample\<close>.
\<close>

subsection \<open>Starting and stopping\<close>

text \<open>
  C21. Starting the driver from zeroed memory always returns. Either it reports success, both devices the hardware
  version has are ready and the driver's invariant holds; or it reports an error and no device is ready. The
  balance of resources is exact, whichever service failed: a success holds the block and the DMA memory that the
  devices share, and the class, device number and device of each of them; an error holds none of these. The
  registrations of character devices are counted apart, \<open>b\<close> for each: every device that is ready holds one, and since nothing ever
  undoes a registration, an error can leave one behind, the one of the NAT device, on hardware that has
  an IPv6CT device as well.
\<close>

theorem init_devices_all_or_nothing:
  assumes "fresh k" and "resources env b cnt"
  shows "\<exists>r k'. ipa3_nat_ipv6ct_init_devices env k = Some (r, k') \<and>
     (if r = 0
      then kernel_inv k' \<and> cm_is_dev_init (nm_dev (k_nat_mem k')) \<and>
           (cm_is_dev_init (k_ipv6ct_mem k') \<longleftrightarrow> IPA_HW_v4_0 \<le> k_hw_type k) \<and>
           cnt (k_world k') = cnt (k_world k) + (if k_hw_type k < IPA_HW_v4_0 then 5 + b else 8 + 2 * b)
      else \<not> cm_is_dev_init (nm_dev (k_nat_mem k')) \<and> \<not> cm_is_dev_init (k_ipv6ct_mem k') \<and>
           (\<exists>left. (left = 0 \<or> left = 1 \<and> IPA_HW_v4_0 \<le> k_hw_type k) \<and> cnt (k_world k') = cnt (k_world k) + b * left))"
proof (rule init_devices_outcome [OF assms(1), of env b cnt], goal_cases)
  case (1 r k' j)
  then show ?case using assms(2) by (intro exI [of _ r] exI [of _ k']) auto
qed

text \<open>A kernel that refuses the second device: it runs out of device numbers, and the NAT device stays registered.\<close>

definition one_number_env :: "((int \<times> int) \<times> unit) nat_kernel_env" where
  "one_number_env = (sample_kenv (\<lambda>_ m. m))
     \<lparr>alloc_chrdev_region := (\<lambda>s w. if s = IPA_NAT_DEV_NAME then ((0, 240), (fst (fst w), snd (fst w) + 1), snd w) else ((- 12, 0), w))\<rparr>"

lemma one_number_resources: "resources one_number_env 1 (\<lambda>w. fst (fst w) + snd (fst w))"
  by (auto simp: resources_def one_number_env_def sample_kenv_def Let_def split_def IS_ERR_def)

lemma one_number_start:
  "\<exists>r k'. ipa3_nat_ipv6ct_init_devices one_number_env (sample_fresh ((0, 0), ())) = Some (r, k') \<and> r \<noteq> 0 \<and> k_world k' = ((0, 1), ())"
  by (simp add: ipa3_nat_ipv6ct_init_devices_def ipa3_nat_ipv6ct_allocate_tmp_memory_def ipa3_nat_ipv6ct_init_device_def
      ipa3_nat_ipv6ct_destroy_device_def one_number_env_def sample_kenv_def split_def errno_defs
      os_def os_do_def upd_nm_def mutex_lock_def mutex_unlock_def IS_ERR_def IPA_NAT_DEV_NAME_def
      IPA_IPV6CT_DEV_NAME_def IPA_DEV_NAME_MAX_LEN_def Let_def sample_fresh_def hw_defs zero_defs)

theorem init_devices_all_or_nothing_witness:
  "\<exists>r k'. ipa3_nat_ipv6ct_init_devices one_number_env (sample_fresh ((0, 0), ())) = Some (r, k') \<and> r \<noteq> 0 \<and>
     \<not> cm_is_dev_init (nm_dev (k_nat_mem k')) \<and> fst (fst (k_world k')) + snd (fst (k_world k')) = 1"
  using init_devices_all_or_nothing [OF sample_fresh one_number_resources, of "((0, 0), ())"] one_number_start by auto



subsection \<open>Sequences of requests\<close>

text \<open>
  C4. After a successful start the driver serves every sequence of requests of its clients, whatever their
  arguments and whatever the kernel's services and the hardware answer: each request returns (no call through a
  null pointer, no access outside the arrays of commands or of the PDN table, no lock taken twice), both locks are
  free again, the invariant holds, and no block of \<open>kzalloc\<close> is leaked or released twice. Only these blocks, the
  payloads of the commands and the descriptors, are counted: the coherent memory of the tables is not.
\<close>

theorem kernel_requests_keep:
  assumes "fresh k" and "ipa3_nat_ipv6ct_init_devices env k = Some (0, k1)" and "alloc_counts env cnt"
  shows "\<exists>k2. serve_all env rqs k1 = Some k2 \<and> kernel_inv k2 \<and> cnt (k_world k2) = cnt (k_world k1)"
proof -
  have "kernel_inv k1" by (rule init_devices_outcome [OF assms(1), of env 0 cnt]) (use assms(2) in auto)
  then show ?thesis using serve_all_ok [of k1 env rqs cnt] assms(3) by blast
qed

definition sample_requests :: "nat_request list" where
  "sample_requests = [Rq_Ioctl (Ioc_Alloc_Nat_Mem (Some (0x4000, 0)) True),
     Rq_Mmap Nat_Dev \<lparr>vm_start = 0, vm_end = 0x4000, vm_noncached = False, vm_ops_set = False\<rparr>,
     Rq_Ioctl (Ioc_Del_Nat_Table (Some \<lparr>dl_table_index = 0, dl_mem_type = 0\<rparr>)), Rq_Ioctl (Ioc_V4_Init_Nat None)]"

theorem kernel_requests_keep_witness:
  "\<exists>k2. serve_all (sample_kenv (\<lambda>_ m. m)) sample_requests sample_started = Some k2 \<and> kernel_inv k2 \<and>
     fst (fst (k_world k2)) = fst (fst (k_world sample_started))"
  by (rule kernel_requests_keep [OF sample_fresh sample_start sample_kenv_counts])

text \<open>
  C6. The NAT tables the driver hands to the hardware lie in memory it allocated: whatever requests came before, a
  NAT memory (DDR or SRAM) that holds a table is in use and mapped, and its four areas, the size of which follows from the
  numbers of entries, end inside the size that was allocated, without any wrap-around of the checks.
\<close>

theorem kernel_tables_inside:
  assumes "kernel_inv k" and "serve_all env rqs k = Some k2" and "IPA_VALID_NAT_MEM_IN loc"
    and "ml_table_entries (the_mld loc k2) \<noteq> 0"
  shows "in_use loc k2 \<and> ml_is_mapped (the_mld loc k2) \<and> tables_inside (the_mld loc k2)"
proof -
  obtain k' where "serve_all env rqs k = Some k'" "kernel_inv k'" by (rule serve_all_ok [OF assms(1)])
  then have "loc_inv (in_use loc k2) (the_mld loc k2)" using driver_inv_loc assms(2,3) by (auto simp: kernel_inv_def)
  then show ?thesis using assms(4) by (auto simp: loc_inv_def split: if_splits)
qed

text \<open>The requests with which the library creates a table of 128 and 20 entries.\<close>

definition setup_requests :: "nat_request list" where
  "setup_requests = [Rq_Ioctl (Ioc_Get_Nat_In_Sram_Info True), Rq_Ioctl (Ioc_Alloc_Nat_Table (Some (5328, 0)) True),
     Rq_Mmap Nat_Dev \<lparr>vm_start = 0, vm_end = 0x2000, vm_noncached = False, vm_ops_set = False\<rparr>,
     Rq_Ioctl (Ioc_V4_Init_Nat (Some (lib_init IPA_NAT_MEM_IN_DDR 128 20 7 False)))]"

lemma setup_served:
  assumes serv: "services_succeed env"
  shows "\<exists>k2. serve_all env setup_requests sample_started = Some k2 \<and> ml_table_entries (the_mld IPA_NAT_MEM_IN_DDR k2) \<noteq> 0"
proof -
  let ?k = "sample_started\<lparr>k_sram_compatible := True\<rparr>"
  have idle: "idle sample_started" "k_nat_tbl_size sample_started = 0x800"
    using start_idle [OF sample_fresh sample_layout sample_start] by (simp_all add: sample_fresh_def)
  obtain info where 1: "ipa3_ioctl env (Ioc_Get_Nat_In_Sram_Info True) sample_started = Some (0, Sram_Reply info, ?k)" "idle ?k"
    using sram_info_idle [OF idle(1)] by blast
  have p: "placed ?k 5328 = IPA_NAT_MEM_IN_DDR" by (simp add: placed_def idle(2))
  obtain k1 where 2: "ipa3_ioctl env (Ioc_Alloc_Nat_Table (Some (5328, 0)) True) ?k = Some (0, No_Reply, k1)"
      "reserved IPA_NAT_MEM_IN_DDR 5328 False k1"
    using allocate_placed [OF 1(2) _ serv, where sz = 5328 and wr = True] unfolding p by auto
  obtain v k2 where 3: "ipa3_nat_ipv6ct_mmap env Nat_Dev \<lparr>vm_start = 0, vm_end = 0x2000, vm_noncached = False, vm_ops_set = False\<rparr> k1
      = Some (0, v, k2)" "reserved IPA_NAT_MEM_IN_DDR 5328 True k2"
    using mmap_reserved [OF 2(2) serv] by (force simp: IPA_VALID_NAT_MEM_IN_def)
  obtain k3 where 4: "ipa3_ioctl env (Ioc_V4_Init_Nat (Some (lib_init IPA_NAT_MEM_IN_DDR 128 20 7 False))) k2 = Some (0, No_Reply, k3)"
      "agrees IPA_NAT_MEM_IN_DDR 128 20 k3"
    using init_reserved [OF 3(2) serv, where te = 128 and ete = 20 and ip = 7 and focus = False] by (auto simp: IPA_VALID_NAT_MEM_IN_def lib_size_def)
  have "serve_all env setup_requests sample_started = Some k3"
    by (simp add: setup_requests_def serve_def 1(1) 2(1) 3(1) 4(1))
  moreover have "ml_table_entries (the_mld IPA_NAT_MEM_IN_DDR k3) \<noteq> 0" using 4(2) by (auto simp: agrees_def)
  ultimately show ?thesis by blast
qed

theorem kernel_tables_inside_witness:
  "\<exists>k2. serve_all (sample_kenv (\<lambda>_ m. m)) setup_requests sample_started = Some k2 \<and> tables_inside (the_mld IPA_NAT_MEM_IN_DDR k2) \<and>
     ml_is_mapped (the_mld IPA_NAT_MEM_IN_DDR k2)"
proof -
  obtain k2 where k2: "serve_all (sample_kenv (\<lambda>_ m. m)) setup_requests sample_started = Some k2"
      "ml_table_entries (the_mld IPA_NAT_MEM_IN_DDR k2) \<noteq> 0"
    using setup_served [OF sample_services] by blast
  have "kernel_inv sample_started" using start_idle(1) [OF sample_fresh sample_layout sample_start] by (simp add: idle_def)
  then show ?thesis using kernel_tables_inside [OF _ k2(1) _ k2(2)] k2(1) by (simp add: IPA_VALID_NAT_MEM_IN_def)
qed

subsection \<open>DMA requests\<close>

text \<open>
  C20. What a DMA request must satisfy, and what becomes of one that does not. A request with no entry, with more
  entries than the descriptors have room for, for an unknown memory, or with a single entry that names an unknown
  table, a table that is not initialised or an offset outside the table is refused with \<open>-EPERM\<close> before any command
  is built; every other request becomes one list of commands, destroyed at its end.
\<close>

theorem dma_request_checked:
  assumes "kernel_inv k" and "unat (entries cmd) \<le> length (dma cmd)"
  shows "ipa3_table_dma_cmd env cmd k =
     (if dma_accepted env cmd k then destroy_imm_cmd env (dma_list env (cmds_of cmd) k) else Some (- EPERM, k))"
proof -
  have inv: "driver_inv k" using assms(1) by (simp add: kernel_inv_def)
  show ?thesis using table_dma_cmd_eq [OF inv assms(2), of env] by (simp add: cmds_of_def)
qed

definition sample_dma :: "u32 \<Rightarrow> ipa_ioc_nat_dma_cmd" where
  "sample_dma ofst = \<lparr>entries = 1, mem_type = 0, dma = [\<lparr>d_table_index = 0, d_base_addr = 1, d_offset = ofst, d_data = 5\<rparr>]\<rparr>"

lemma sample_dma_facts:
  "dma_loc (sample_dma ofst) (sample_running w) = IPA_NAT_MEM_IN_DDR" "unat (entries (sample_dma ofst)) \<le> length (dma (sample_dma ofst))"
  "dma_accepted (sample_kenv ex) (sample_dma ofst) (sample_running w) \<longleftrightarrow> unat ofst < 2048"
proof -
  have e: "ml_expn_table_entries (the_mld IPA_NAT_MEM_IN_DDR (sample_running w)) = 64"
    by (simp add: sample_running_def the_mld_def Let_def)
  show l: "dma_loc (sample_dma ofst) (sample_running w) = IPA_NAT_MEM_IN_DDR" by (simp add: dma_loc_def nmi_of_def)
  show "unat (entries (sample_dma ofst)) \<le> length (dma (sample_dma ofst))" by (simp add: sample_dma_def)
  show "dma_accepted (sample_kenv ex) (sample_dma ofst) (sample_running w) \<longleftrightarrow> unat ofst < 2048"
    unfolding dma_accepted_def l
    by (simp add: sample_dma_def dma_valid_def table_bytes_def e IPA_VALID_NAT_MEM_IN_def dma_limit_def word_less_nat_alt word_le_nat_alt Let_def)
qed

theorem dma_request_checked_witness:
  "ipa3_table_dma_cmd (sample_kenv (\<lambda>_ m. m)) (sample_dma 2048) (sample_running ((0, 0), ())) =
     Some (- EPERM, sample_running ((0, 0), ()))"
  using dma_request_checked [of "sample_running ((0, 0), ())" "sample_dma 2048" "sample_kenv (\<lambda>_ m. m)"]
  by (simp add: sample_dma_facts)








end
