(* ===== verification/Kernel_Library.thy ===== *)
theory Kernel_Library
  imports Kernel_Sample Nat_Sample Nat_Client Ipv6ct_Service
begin

unbundle bit_operations_syntax

section \<open>The library on the kernel's driver\<close>

text \<open>
  The contracts the library's theories rely on, proved of the kernel's driver, and the invariant of the
  two programs together.
\<close>

subsection \<open>A library that runs on the driver\<close>

text \<open>
  The world of the library is the state of the driver; a state in which the driver is not in order, which is never
  reached, is replaced by \<open>k0\<close>.
\<close>

definition backed_state :: "'s ipa3_context \<Rightarrow> 's ipa3_context \<Rightarrow> 's ipa3_context" where
  "backed_state k0 w = (if kernel_inv w then w else k0)"

lemma kernel_dma_returns:
  assumes "kernel_inv k"
  obtains r m' k' where "kernel_dma kenv cmd m k = Some ((r, m'), k')" and "kernel_inv k'"
proof -
  let ?k = "k\<lparr>k_world := (fst (k_world k), m)\<rparr>"
  have "kernel_inv ?k" using assms by simp
  from ioctl_ok [OF this, of kenv "\<lambda>_. 0" "Ioc_Table_Dma_Cmd (Some (entries cmd)) (Some cmd)"]
  obtain r a k' where 1: "ipa3_ioctl kenv (Ioc_Table_Dma_Cmd (Some (entries cmd)) (Some cmd)) ?k = Some (r, a, k')" "kernel_inv k'"
    by (auto simp: answer_ok_def)
  show thesis
    by (rule that [of "if r = 0 then 0 else - 1" "snd (k_world k')" k']) (simp_all add: kernel_dma_def 1)
qed

definition backed_env ::
    "('r \<times> nat_mem, 'e) nat_kernel_env_scheme \<Rightarrow> ('r \<times> nat_mem) ipa3_context \<Rightarrow> ('r \<times> nat_mem) ipa3_context nat_env" where
  "backed_env kenv k0 =
     \<lparr>pthread_mutex_lock = (\<lambda>w. (0, w)), pthread_mutex_unlock = (\<lambda>w. (0, w)),
      os_open = (\<lambda>path w. (3, w)), os_close = (\<lambda>f w. (0, w)), os_mmap = (\<lambda>sz f w. (Some 0x10000, w)),
      os_munmap = (\<lambda>a sz w. w), os_calloc = (\<lambda>k w. (True, w)),
      os_clock_gettime = (\<lambda>w. ((0, \<lparr>tv_sec = 1, tv_nsec = 0\<rparr>), w)),
      ioctl_hw_version = (\<lambda>f w. ((0, 17), w)), ioctl_sram_info = (\<lambda>f w. ((- 1, sram_info_zero), w)),
      ioctl_alloc = (\<lambda>num f sz w. ((0, 0), w)), ioctl_del = (\<lambda>num f idx mem w. (0, w)),
      ioctl_v4_init = (\<lambda>f cmd w. (0, w)), ioctl_modify_pdn = (\<lambda>f e w. (0, w)), ioctl_clock_vote = (\<lambda>f v w. (0, w)),
      ioctl_table_dma = (\<lambda>f cmd m w. the (kernel_dma kenv cmd m (backed_state k0 w)))\<rparr>"

lemma backed_env_ok:
  assumes "kernel_inv k0" shows "kernel_backed (backed_env kenv k0) kenv (backed_state k0)"
  unfolding kernel_backed_def
proof (intro conjI allI impI)
  show inv: "kernel_inv (backed_state k0 w)" for w using assms by (simp add: backed_state_def)
  fix fd cmd m w r m' w'
  assume "ioctl_table_dma (backed_env kenv k0) fd cmd m w = ((r, m'), w')"
  moreover obtain r2 m2 k2 where "kernel_dma kenv cmd m (backed_state k0 w) = Some ((r2, m2), k2)" "kernel_inv k2"
    by (rule kernel_dma_returns [OF inv])
  ultimately show "kernel_dma kenv cmd m (backed_state k0 w) = Some ((r, m'), backed_state k0 w')"
    by (simp add: backed_env_def backed_state_def)
qed


definition backed_ct_env ::
    "('r \<times> ipa_ipv6ct_hw_entry list, 'e) nat_kernel_env_scheme \<Rightarrow> ('r \<times> ipa_ipv6ct_hw_entry list) ipa3_context
     \<Rightarrow> ('r \<times> ipa_ipv6ct_hw_entry list) ipa3_context ct_env" where
  "backed_ct_env kenv k0 =
     \<lparr>pthread_mutex_lock = (\<lambda>w. (0, w)), pthread_mutex_unlock = (\<lambda>w. (0, w)),
      os_open = (\<lambda>path w. (3, w)), os_close = (\<lambda>f w. (0, w)), os_mmap = (\<lambda>sz f w. (Some 0x10000, w)),
      os_munmap = (\<lambda>a sz w. w), os_calloc = (\<lambda>k w. (True, w)),
      os_clock_gettime = (\<lambda>w. ((0, \<lparr>tv_sec = 1, tv_nsec = 0\<rparr>), w)),
      ioctl_hw_version = (\<lambda>f w. ((0, 17), w)), ioctl_sram_info = (\<lambda>f w. ((- 1, sram_info_zero), w)),
      ioctl_alloc = (\<lambda>num f sz w. ((0, 0), w)), ioctl_del = (\<lambda>num f idx mem w. (0, w)),
      ioctl_v4_init = (\<lambda>f cmd w. (0, w)), ioctl_modify_pdn = (\<lambda>f e w. (0, w)), ioctl_clock_vote = (\<lambda>f v w. (0, w)),
      ioctl_ipv6ct_init = (\<lambda>f cmd w. (0, w)),
      ioctl_ct_dma = (\<lambda>f cmd m w. the (kernel_dma kenv cmd m (backed_state k0 w))),
      ioctl_add_uc_act = (\<lambda>f u w. ((0, u), w)), ioctl_del_uc_act = (\<lambda>f i w. (0, w))\<rparr>"

lemma backed_ct_env_ok:
  assumes "kernel_inv k0" shows "ct_kernel_backed (backed_ct_env kenv k0) kenv (backed_state k0)"
  unfolding ct_kernel_backed_def
proof (intro conjI allI impI)
  show inv: "kernel_inv (backed_state k0 w)" for w using assms by (simp add: backed_state_def)
  fix fd cmd m w r m' w'
  assume "ioctl_ct_dma (backed_ct_env kenv k0) fd cmd m w = ((r, m'), w')"
  moreover obtain r2 m2 k2 where "kernel_dma kenv cmd m (backed_state k0 w) = Some ((r2, m2), k2)" "kernel_inv k2"
    by (rule kernel_dma_returns [OF inv])
  ultimately show "kernel_dma kenv cmd m (backed_state k0 w) = Some ((r, m'), backed_state k0 w')"
    by (simp add: backed_ct_env_def backed_state_def)
qed

subsection \<open>The contracts\<close>

text \<open>
  C2. The kernel keeps the contract the NAT library relies on: on hardware that executes the immediate commands it
  is sent, every DMA request of the library either has all its commands executed on the NAT and the index
  table, in their order and each at the place and with the value the library asked for, or leaves both tables as
  they are. The path goes through the copy of the request, its validation, the construction and the
  encoding of the immediate commands for the hardware version, and their release.
\<close>

theorem kernel_implements_nat_contract:
  assumes "hw_executes kenv (nat_hw nt)" and "kernel_backed env kenv kst"
  shows "dma_faithful env nt"
  by (rule kernel_dma_faithful [OF assms])

abbreviation sample_nt :: ipa_nat_ip4_table_cache where
  "sample_nt \<equiv> the_nt sample_globals IPA_NAT_MEM_IN_DDR"

abbreviation nat_kenv :: "((int \<times> int) \<times> nat_mem) nat_kernel_env" where
  "nat_kenv \<equiv> sample_kenv (nat_hw sample_nt)"

abbreviation nat_k0 :: "((int \<times> int) \<times> nat_mem) ipa3_context" where
  "nat_k0 \<equiv> sample_running ((0, 0), [], [])"

theorem kernel_implements_nat_contract_witness:
  "dma_faithful (backed_env nat_kenv nat_k0) sample_nt"
  by (rule kernel_implements_nat_contract [OF sample_kenv_hw backed_env_ok [OF sample_running]])

text \<open>
  C22. The kernel keeps the contract of the connection tracking library in the same way.
\<close>

theorem kernel_implements_ct_contract:
  assumes "hw_executes kenv (\<lambda>cs rs. recs (ct_exec cs (t\<lparr>recs := rs\<rparr>)))" and "ct_kernel_backed env kenv kst"
  shows "ct_dma_faithful env t"
  by (rule kernel_ct_dma_faithful [OF assms])

theorem kernel_implements_ct_contract_witness:
  "ct_dma_faithful (backed_ct_env (sample_kenv (\<lambda>cs rs. recs (ct_exec cs ((ct_table (the_ct ipv6ct_init))\<lparr>recs := rs\<rparr>))))
     (sample_running ((0, 0), []))) (ct_table (the_ct ipv6ct_init))"
  by (rule kernel_implements_ct_contract [OF sample_kenv_hw backed_ct_env_ok [OF sample_running]])

subsection \<open>Library and driver together\<close>



end
