(* ===== verification/Kernel_Setup.thy ===== *)
theory Kernel_Setup
  imports Kernel_Sample Nat_Sample
begin

section \<open>The library creates a table on the driver\<close>

text \<open>
  The system calls with which the NAT library creates and destroys a table, answered by the kernel's driver, and
  what the two programs agree on after \<open>ipa_NATI_add_ipv4_tbl\<close>.
\<close>

subsection \<open>The system calls\<close>

text \<open>
  The world of the library is the state of the driver. The kernel maps whole pages; the C library reports every
  failing request as \<open>-1\<close>. The only file the NAT library maps is the NAT device.
\<close>

definition mapping_of :: "nat \<Rightarrow> vm_area_struct" where
  "mapping_of n = \<lparr>vm_start = 0, vm_end = of_nat (roundup n PAGE_SIZE), vm_noncached = False, vm_ops_set = False\<rparr>"

text \<open>A request that faults would be reported as failed; none does in a state the driver reaches.\<close>

definition answer :: "('w, 'e) nat_kernel_env_scheme \<Rightarrow> nat_ioctl \<Rightarrow> 'w ipa3_context \<Rightarrow> (int \<times> nat_reply) \<times> 'w ipa3_context" where
  "answer kenv rq k =
     (case ipa3_ioctl kenv rq k of
        None \<Rightarrow> ((- 1, No_Reply), k) | Some (r, a, k') \<Rightarrow> ((if r = 0 then 0 else - 1, a), k'))"

definition request :: "('w, 'e) nat_kernel_env_scheme \<Rightarrow> nat_ioctl \<Rightarrow> 'w ipa3_context \<Rightarrow> int \<times> 'w ipa3_context" where
  "request kenv rq k = (case answer kenv rq k of ((r, _), k') \<Rightarrow> (r, k'))"

definition driver_env :: "('w, 'e) nat_kernel_env_scheme \<Rightarrow> 'w ipa3_context ipa_env" where
  "driver_env kenv =
     \<lparr>pthread_mutex_lock = (\<lambda>k. (0, k)), pthread_mutex_unlock = (\<lambda>k. (0, k)),
      os_open = (\<lambda>path k. (3, k)), os_close = (\<lambda>f k. (0, k)),
      os_mmap = (\<lambda>n f k. case ipa3_nat_ipv6ct_mmap kenv Nat_Dev (mapping_of n) k of
                           None \<Rightarrow> (None, k) | Some (r, _, k') \<Rightarrow> (if r = 0 then Some 0x10000 else None, k')),
      os_munmap = (\<lambda>a n k. k), os_calloc = (\<lambda>n k. (True, k)),
      os_clock_gettime = (\<lambda>k. ((0, \<lparr>tv_sec = 1, tv_nsec = 0\<rparr>), k)),
      ioctl_hw_version = (\<lambda>f k. ((0, 17), k)),
      ioctl_sram_info = (\<lambda>f k. case answer kenv (Ioc_Get_Nat_In_Sram_Info True) k of
                           ((r, a), k') \<Rightarrow> ((r, case a of Sram_Reply i \<Rightarrow> i | _ \<Rightarrow> sram_info_zero), k')),
      ioctl_alloc = (\<lambda>num f n k.
        if num = IPA_IOC_ALLOC_NAT_TABLE
        then (case answer kenv (Ioc_Alloc_Nat_Table (Some (of_nat n, 0)) True) k of
                ((r, a), k') \<Rightarrow> ((r, case a of Alloc_Reply sz ofst \<Rightarrow> ucast ofst | _ \<Rightarrow> 0), k'))
        else ((- 1, 0), k)),
      ioctl_del = (\<lambda>num f idx loc.
        request kenv (Ioc_Del_Nat_Table (Some \<lparr>dl_table_index = idx, dl_mem_type = ucast (nmi_val loc)\<rparr>))),
      ioctl_v4_init = (\<lambda>f cmd. request kenv (Ioc_V4_Init_Nat (Some cmd))),
      ioctl_modify_pdn = (\<lambda>f e. request kenv (Ioc_Nat_Modify_Pdn (Some e))),
      ioctl_clock_vote = (\<lambda>f v k. (0, k))\<rparr>"

lemma driver_env_sel [simp]:
  "pthread_mutex_lock (driver_env kenv) k = (0, k)" "pthread_mutex_unlock (driver_env kenv) k = (0, k)"
  "os_open (driver_env kenv) p k = (3, k)" "os_close (driver_env kenv) f k = (0, k)" "os_calloc (driver_env kenv) m k = (True, k)"
  "ioctl_hw_version (driver_env kenv) f k = ((0, 17), k)"
  "ipa3_ioctl kenv (Ioc_V4_Init_Nat (Some cmd)) k = Some (r, a, k') \<Longrightarrow> ioctl_v4_init (driver_env kenv) f cmd k = (if r = 0 then 0 else - 1, k')"
  "ipa3_ioctl kenv (Ioc_Get_Nat_In_Sram_Info True) k = Some (0, Sram_Reply i, k') \<Longrightarrow> ioctl_sram_info (driver_env kenv) f k = ((0, i), k')"
  "ipa3_ioctl kenv (Ioc_Alloc_Nat_Table (Some (of_nat n, 0)) True) k = Some (0, No_Reply, k') \<Longrightarrow>
     ioctl_alloc (driver_env kenv) IPA_IOC_ALLOC_NAT_TABLE f n k = ((0, 0), k')"
  "ipa3_nat_ipv6ct_mmap kenv Nat_Dev (mapping_of n) k = Some (0, v, k') \<Longrightarrow> os_mmap (driver_env kenv) n f k = (Some 0x10000, k')"
  by (simp_all add: driver_env_def request_def answer_def)




subsection \<open>Memory for a table\<close>


subsection \<open>The table\<close>




subsection \<open>The property\<close>



end
