(* ===== verification/Spec2Isabelle.thy ===== *)
theory Spec2Isabelle
  imports Nat_Properties Nat_Stats Ipv6ct_Properties Nat_Machine_Properties Nat_Hybrid_Properties Hal_Properties Kernel_Properties Kernel_Library Kernel_Setup
begin

text \<open>
  \<^bold>\<open>The IPA NAT library and its kernel driver, modelled and verified.\<close>

  The repository is a collection of out-of-tree kernel modules and their user-space companions. This
  development covers the two programs of it that together program the address translation (IPv4 NAT) and the
  connection tracking (IPv6CT) of the IPA packet engine: the library under
  \<open>src/qcom/opensource/dataipa/ipanat\<close>, which a connection manager calls, and the NAT driver in the kernel,
  \<open>ipa_nat.c\<close> under \<open>src/qcom/opensource/dataipa/drivers/platform/msm/ipa/ipa_v3\<close>, with the part of the hardware
  abstraction layer (\<open>ipahal\<close>) and of \<open>ipa3_ioctl\<close> it needs. The library's tables lie in memory shared with the hardware: the library links records into
  collision chains, but the words the hardware reads are changed by DMA commands that the kernel executes, so
  every operation has to keep the library's view, the chains and the commands in agreement, also when the
  kernel refuses.

  \<^bold>\<open>Parts of the program and their theories.\<close>

  \<^item> \<open>Prelude\<close>: words for the fixed-width integers of C, error numbers, checked accesses to a block of memory
    (\<open>mem_read\<close>, \<open>mem_write\<close>: \<open>None\<close> outside of it), shared lemmas.
  \<^item> \<open>src/ipa_table.c\<close>, \<open>inc/ipa_table.h\<close>: the hash table with base and expansion area. \<open>Ipa_Table\<close> has every
    operation, in the order of the source; \<open>Fp_Scale\<close> the floating-point products that size a table, computed
    exactly; \<open>Table_Dims\<close> the sizing, the search for the SRAM size, with the 32-bit sizes of C, and the handles; \<open>Chains\<close> doubly linked
    chains over any store; \<open>Table_Chain\<close> the invariant \<open>tbl_rep\<close> of a table, its chains and counters, and
    walks; \<open>Table_Ops\<close> the locale \<open>table_entry\<close>, the contract between the table and the callbacks of its
    clients, with the operations proved in it; \<open>Table_Contract\<close> insertion, deletion and the effect of the DMA
    commands as one contract; \<open>Rule_Table\<close> the locale \<open>rule_table\<close> for tables that mark the head of a chain
    when its rule is deleted.
  \<^item> \<open>src/ipa_mem_descriptor.c\<close>, \<open>src/ipa_nat_utils.c\<close>: \<open>Mem_Descriptor\<close>, the memory of a table, the driver's file
    descriptor, and the record \<open>ipa_env\<close> of the calls to the operating system.
  \<^item> \<open>src/ipa_nat_drvi.c\<close>, \<open>inc/ipa_nat_drvi.h\<close>: \<open>Nat_Entry\<close> has the record layouts, checksums, hashes and the
    callbacks, with the interpretations \<open>nat\<close> and \<open>indx\<close> of \<open>table_entry\<close>; \<open>Nat_Drvi\<close> every operation on the
    globals of the file (\<open>nat_globals\<close>); \<open>Nat_Rules\<close> the joint invariant \<open>nat_inv\<close> of the NAT table and its
    index table, the abstract table \<open>nat_spec\<close> (rules by position, the chains of both tables) and the
    interpretation \<open>natr\<close> of \<open>rule_table\<close>; \<open>Nat_Service\<close> the operations on the whole state, and a count of the blocks of table memory (\<open>table_memory\<close>);
    \<open>Nat_Client\<close> sequences of calls as an inductive step relation \<open>client_step\<close> and their invariant: a state carries a flag,
    which a deletion turns false when the kernel refuses it after an index entry was moved; \<open>Nat_Stats\<close> the statistics;
    \<open>Nat_Sample\<close> a concrete environment; \<open>Nat_Properties\<close> the properties.
  \<^item> \<open>src/ipa_ipv6ct.c\<close>: \<open>Ipv6ct_Entry\<close>, \<open>Ipv6ct\<close>, \<open>Ipv6ct_Rules\<close>, \<open>Ipv6ct_Service\<close>, \<open>Ipv6ct_Properties\<close>, in the same
    roles, with the interpretation \<open>ct\<close> of \<open>rule_table\<close>.
  \<^item> \<open>src/ipa_nat_map.cpp\<close>: \<open>Nat_Map\<close>, the maps between the handles of clients and those of the tables.
  \<^item> \<open>src/ipa_nat_statemach.c\<close>: \<open>Nat_Statemach\<close>, the state machine that places the rules in DDR, in SRAM or in
    both and moves them: the callbacks, the transition table, the recursive machine, the functions that run a
    trigger.
  \<^item> \<open>src/ipa_nat_drv.c\<close>: \<open>Nat_Drv\<close>, the public interface. \<open>Nat_Machine\<close> and \<open>Nat_Machine_Properties\<close> have the lemmas
    and properties of the last two.
  \<^item> The hybrid mode of the machine, in which the rules move between SRAM and DDR: \<open>Nat_Views\<close> relates the two maps
    of a memory, the rules of its table and what the client sees under its handles (\<open>views\<close>); \<open>Nat_Migrate\<close> proves
    that copying a table moves every rule (\<open>migrate_rule\<close>, \<open>ipa_nati_copy_ipv4_tbl\<close>); \<open>Nat_Hybrid\<close> has the invariant
    \<open>hybrid n p cv\<close> (memory \<open>n\<close> is active and the client sees the rules \<open>cv\<close>), the switches and the addition;
    \<open>Nat_Hybrid_Ops\<close> deletion, query and sequences of operations (\<open>hyb_step\<close>, with a flag that an addition turns false
    when it returns a handle in use, \<open>orphaned\<close>); \<open>Nat_Hybrid_Properties\<close> the properties.
  \<^item> \<open>ipahal/ipahal.c\<close>, \<open>ipahal_i.h\<close>, \<open>ipahal.h\<close>: \<open>Hal_Base\<close> has the hardware versions, the inheritance of table rows
    between versions and the bit fields of hardware structures, \<open>Hal_Imm\<close> every constructor of an immediate command
    with its parameters and hardware structure and the table that selects it.
  \<^item> \<open>ipahal/ipahal_nat.c\<close>, \<open>ipahal_nat_i.h\<close>: \<open>Hal_Nat\<close>, the entries of the tables as the hardware lays them out and
    the callbacks on them. \<open>Hal_Facts\<close> has the tables after initialisation, \<open>Hal_View\<close> the agreement of these
    layouts with the library's, \<open>Hal_Properties\<close> the properties of both and the structure that each constructor packs
    (\<open>hw_fields\<close>, \<open>struct_size\<close>).
  \<^item> \<open>ipa_nat.c\<close>: \<open>Ipa_Nat\<close> has the state (\<open>ipa3_context\<close>, the part of \<open>ipa3_ctx\<close> the driver uses), the two memory
    devices, allocation and mapping; \<open>Ipa_Nat_Cmd\<close> the checks of a client's parameters and the lists of immediate
    commands that initialise, change and delete a table. \<open>Ipa_Nat_Ioctl\<close> is the dispatch of \<open>ipa.c\<close> and sequences
    of requests (\<open>serve_all\<close>).
  \<^item> \<open>Ipa_Nat_Inv\<close>, \<open>Ipa_Nat_Steps\<close>: the driver's invariant \<open>kernel_inv\<close> (locks free, PDN table as large as its memory,
    tables inside their memory) and that every request keeps it; \<open>Ipa_Nat_Devices\<close> starting and stopping, with a
    count of what is held (\<open>resources\<close>), registrations of character devices apart; \<open>Ipa_Nat_Dma\<close> from a DMA request to the effect on the tables, for hardware that executes
    the lists of commands it is sent; \<open>Kernel_Sample\<close> a concrete kernel; \<open>Kernel_Properties\<close> the properties.
  \<^item> \<open>Kernel_Library\<close>: the two programs together. The contracts \<open>dma_faithful\<close> and \<open>ct_dma_faithful\<close>, hypotheses of
    the library's theorems, are proved of the driver's model. \<open>Ipa_Nat_Setup\<close> and \<open>Kernel_Setup\<close>: the creation of a
    table, from the library's call through the requests for the SRAM information, the allocation, the mapping and
    the initialisation, on a kernel whose services succeed (\<open>services_succeed\<close>); \<open>idle\<close>, \<open>reserved\<close> and \<open>agrees\<close> are the
    states of the driver in between.

  \<^bold>\<open>Conventions.\<close> Static variables are records that every operation takes and returns; a call to the
  operating system is a field of an environment record, a function of the state \<open>'w\<close> of the system, so that
  any behaviour of the kernel is covered and what an operation relies on is a named hypothesis
  (\<open>mutex_works\<close>, \<open>alloc_at_zero\<close>, \<open>dma_faithful\<close>: accepted commands are executed, refused ones have no effect;
  \<open>dma_accepts\<close>: no command is refused). Error codes are returned as in C. The value \<open>None\<close> is a fault: an access
  outside an array, a null pointer, a loop that does not end. Theorems on operations therefore state that the
  result is \<open>Some\<close>. A table in shared memory is the list of its records; the layout of a record in bytes is a
  pair of inverse functions. In the kernel a pointer is a \<open>u64\<close> with \<open>0\<close> for the null pointer; the services of the
  kernel are the record \<open>nat_kernel_env\<close>, a mutex is a flag, and taking one that is held is a fault, since nobody
  would release it. A request carries what its argument's memory holds, or nothing where it cannot be read.

  \<^bold>\<open>What is shown.\<close> For both drivers: creating a table gives an empty consistent table or leaves the slot free;
  adding and deleting a rule refine insertion and removal in the abstract table, whatever the kernel
  answers, and an addition succeeds whenever there is room; clearing, querying, statistics. After any sequence
  of calls the tables are consistent and the handles a client holds are exactly those of the rules; for the NAT tables
  as long as no deletion that the kernel refused has moved an index entry, since \<open>ipa_NATI_del_ipv4_rule\<close> changes the
  index table before it sends the commands and does not restore it (\<open>del_aborted\<close>). For the
  generic table: sizing terminates and gives consistent dimensions with at least all but one of the requested records,
  handles round-trip, the search for the SRAM size ends with the largest size that fits, provided the memory is
  smaller than the largest candidate, and never otherwise. The checksum differences are those of one's-complement
  arithmetic. For the state machine: its recursion is at most three calls deep; with a table in DDR only, the
  operations of the public interface refine the abstract table, and refusals are hidden by the return code. In the hybrid
  mode every operation of the public interface, with
  the moves of all rules it may cause, changes what the client sees by exactly its own rule. The conditions there are
  that mutex, clock votes and initialisation commands work, that the kernel accepts the commands of a move and of a
  deletion and that the destination of a move has room; an addition whose handle is in use already leaves its rule
  without a handle, which is stated as it is.
  For the driver: starting it gives all devices or gives back what it took, up to the registrations of character devices,
  which the driver never undoes, and so does stopping it; every sequence of requests, with whatever
  arguments and answers of the kernel, is served without a fault, without a leaked \<open>kzalloc\<close> block (memory for DMA is
  not counted) and with the invariant kept; the NAT tables handed to the hardware lie inside the memory that was
  allocated, and accepted DMA requests for the NAT tables start inside them (for the IPv6CT tables neither is shown);
  the requests of the library reach the tables as the library assumes, so that a
  client of the library on the driver finds its rules under the condition above; creating a table on the driver succeeds
  exactly when the caller names the memory the driver chooses by the size of the table. For the hardware abstraction
  layer: which object is in force in which version, payloads that are exactly the hardware structures, round trips of
  encodings, the agreement of the two layouts of
  an entry. Some theorems state what the code does where its comments promise something else: error codes of the
  machine are lost, a table whose release the kernel refuses blocks its slot, one index of the public addresses
  faults, large tables are announced to the hardware with a truncated size.

  \<^bold>\<open>Loops and bounds.\<close> Loops over chains and tables are \<open>partial_function (option)\<close>; their termination is part of
  the theorems. The only bound is the recursion depth 3 of \<open>ipa_nati_statemach\<close>, which \<open>statemach_depth\<close>
  shows to be enough. Sizes and indices are words of the width of the source.

  \<^bold>\<open>Not modelled.\<close> Log output and dumps of tables and maps, which change no state; null pointers for output
  arguments and for rules; concurrent changes of table memory by the hardware (the time stamp a query returns is
  the one in the record); interleavings of threads: each operation runs under its mutex (\<open>ipa3_nat_init_cmd\<close> and
  \<open>ipa3_ipv6ct_init_cmd\<close> take none and are modelled as running alone). In the kernel: the services of Linux, the
  registers (\<open>ipahal_reg.c\<close>), the endpoint tables and the transport (\<open>ipa3_send_cmd\<close>) are fields of
  \<open>nat_kernel_env\<close>; the cases of \<open>ipa3_ioctl\<close> outside the NAT driver, the functions that modify an existing
  payload, the parsing of packet status, the header processing contexts and QMAP headers of \<open>ipahal.c\<close>, and the
  callbacks that print an entry are left out. The theorem on the
  creation of a table answers the library's requests by the model of the driver, the theorems on sequences of calls
  only its DMA requests; there the requests that create and delete a table are fields of the library's environment.
  The other drivers of the repository are independent programs.
\<close>

end
